(* ===== verification/Prelude.thy ===== *)
theory Prelude
  imports Main
begin

section \<open>Prelude: Go strings, tables, runs\<close>

text \<open>
  What every other theory of the development shares:

  \<^item> the named theorem collections (\<open>go_string_simps\<close>, \<open>tab_simps\<close>, \<open>act_simps\<close>);
  \<^item> the functions of Go's \<^verbatim>\<open>strings\<close> package that the sources call, on byte strings:
    \<open>TrimSpace\<close> (white space is the Unicode property White_Space, matched on its UTF-8
    encodings) and \<open>EqualFold\<close> (ASCII letters are folded; the names the sources compare
    are ASCII codes or Chinese names, whose characters have no case);
  \<^item> SQL tables as lists of rows: \<open>row_upd\<close> is an UPDATE with a WHERE clause,
    \<open>List.find\<close> a SELECT of one row, \<open>filter\<close> a SELECT of many;
  \<^item> reachable states of a step relation, and the locale \<open>inductive_invariant\<close> with the
    invariant rule.
\<close>

named_theorems go_string_simps \<open>evaluation of the string functions\<close>
named_theorems tab_simps \<open>selections from updated tables\<close>
named_theorems act_simps \<open>results of database actions\<close>
named_theorems act_success \<open>inversion of successful database actions\<close>

type_synonym id = int
type_synonym time = int  \<comment> \<open>nanoseconds since the epoch\<close>

subsection \<open>Strings\<close>

text \<open>Bytes of the UTF-8 encoded white space at the head of a string (0 if there is none).\<close>

definition ascii_space :: "char \<Rightarrow> bool" where
  "ascii_space c \<longleftrightarrow> c = CHR 0x09 \<or> c = CHR 0x0A \<or> c = CHR 0x0B \<or> c = CHR 0x0C \<or> c = CHR 0x0D \<or> c = CHR 0x20"

definition uspace2 :: "char \<Rightarrow> char \<Rightarrow> bool" where
  "uspace2 a b \<longleftrightarrow> a = CHR 0xC2 \<and> (b = CHR 0x85 \<or> b = CHR 0xA0)"

definition uspace3 :: "char \<Rightarrow> char \<Rightarrow> char \<Rightarrow> bool" where
  "uspace3 a b c \<longleftrightarrow>
     a = CHR 0xE1 \<and> b = CHR 0x9A \<and> c = CHR 0x80
   \<or> a = CHR 0xE2 \<and> b = CHR 0x80 \<and>
       c \<in> set [CHR 0x80, CHR 0x81, CHR 0x82, CHR 0x83, CHR 0x84, CHR 0x85, CHR 0x86, CHR 0x87,
                CHR 0x88, CHR 0x89, CHR 0x8A, CHR 0xA8, CHR 0xA9, CHR 0xAF]
   \<or> a = CHR 0xE2 \<and> b = CHR 0x81 \<and> c = CHR 0x9F
   \<or> a = CHR 0xE3 \<and> b = CHR 0x80 \<and> c = CHR 0x80"

fun trim_left :: "string \<Rightarrow> string" where
  "trim_left (a # b # c # s) =
     (if ascii_space a then trim_left (b # c # s)
      else if uspace2 a b then trim_left (c # s)
      else if uspace3 a b c then trim_left s
      else a # b # c # s)"
| "trim_left [a, b] =
     (if ascii_space a then trim_left [b] else if uspace2 a b then [] else [a, b])"
| "trim_left [a] = (if ascii_space a then [] else [a])"
| "trim_left [] = []"

text \<open>The same scan from the right end, on the reversed string.\<close>

fun trim_right_rev :: "string \<Rightarrow> string" where
  "trim_right_rev (c # b # a # s) =
     (if ascii_space c then trim_right_rev (b # a # s)
      else if uspace2 b c then trim_right_rev (a # s)
      else if uspace3 a b c then trim_right_rev s
      else c # b # a # s)"
| "trim_right_rev [c, b] =
     (if ascii_space c then trim_right_rev [b] else if uspace2 b c then [] else [c, b])"
| "trim_right_rev [c] = (if ascii_space c then [] else [c])"
| "trim_right_rev [] = []"

definition TrimSpace :: "string \<Rightarrow> string" where
  "TrimSpace s = rev (trim_right_rev (rev (trim_left s)))"

definition to_lower :: "char \<Rightarrow> char" where
  "to_lower c = (let n = of_char c :: nat in if 65 \<le> n \<and> n \<le> 90 then char_of (n + 32) else c)"

definition EqualFold :: "string \<Rightarrow> string \<Rightarrow> bool" where
  "EqualFold s t \<longleftrightarrow> map to_lower s = map to_lower t"

lemmas string_eval [go_string_simps] =
  TrimSpace_def EqualFold_def to_lower_def ascii_space_def uspace2_def uspace3_def Let_def

lemma EqualFold_refl [simp]: "EqualFold s s"
  by (simp add: EqualFold_def)

lemma EqualFold_sym: "EqualFold s t \<longleftrightarrow> EqualFold t s"
  by (auto simp: EqualFold_def)

lemma EqualFold_trans: "EqualFold s t \<Longrightarrow> EqualFold t u \<Longrightarrow> EqualFold s u"
  by (simp add: EqualFold_def)

lemma EqualFold_Nil [simp]: "EqualFold s [] \<longleftrightarrow> s = []" "EqualFold [] s \<longleftrightarrow> s = []"
  by (auto simp: EqualFold_def)

lemma TrimSpace_Nil [simp]: "TrimSpace [] = []"
  by (simp add: TrimSpace_def)

subsection \<open>Tables\<close>

definition row_upd :: "('r \<Rightarrow> bool) \<Rightarrow> ('r \<Rightarrow> 'r) \<Rightarrow> 'r list \<Rightarrow> 'r list" where
  "row_upd p f rs = map (\<lambda>r. if p r then f r else r) rs"

lemma row_upd_Nil [simp]: "row_upd p f [] = []"
  by (simp add: row_upd_def)

lemma row_upd_Cons [simp]: "row_upd p f (r # rs) = (if p r then f r else r) # row_upd p f rs"
  by (simp add: row_upd_def)

lemma length_row_upd [simp]: "length (row_upd p f rs) = length rs"
  by (simp add: row_upd_def)

lemma map_row_upd [tab_simps]: "(\<And>r. g (f r) = g r) \<Longrightarrow> map g (row_upd p f rs) = map g rs"
  by (simp add: row_upd_def)

lemma set_row_updD: "r \<in> set (row_upd p f rs) \<Longrightarrow> (\<exists>r0 \<in> set rs. p r0 \<and> r = f r0) \<or> r \<in> set rs"
  by (auto simp: row_upd_def)

lemma row_upd_none [tab_simps]: "(\<And>r. r \<in> set rs \<Longrightarrow> \<not> p r) \<Longrightarrow> row_upd p f rs = rs"
  by (induction rs) auto

lemma find_row_upd [tab_simps]:
  "(\<And>r. q (f r) = q r) \<Longrightarrow>
   List.find q (row_upd p f rs) = map_option (\<lambda>r. if p r then f r else r) (List.find q rs)"
  by (induction rs) auto

lemma filter_row_upd [tab_simps]:
  "(\<And>r. q (f r) = q r) \<Longrightarrow> filter q (row_upd p f rs) = row_upd p f (filter q rs)"
  by (induction rs) auto

lemma find_append [tab_simps]:
  "List.find q (xs @ ys) = (case List.find q xs of None \<Rightarrow> List.find q ys | Some r \<Rightarrow> Some r)"
  by (induction xs) auto

lemma find_SomeD: "List.find q xs = Some r \<Longrightarrow> r \<in> set xs \<and> q r"
  by (auto simp: find_Some_iff)

lemma find_NoneD: "List.find q xs = None \<Longrightarrow> x \<in> set xs \<Longrightarrow> \<not> q x"
  by (auto simp: find_None_iff)

lemma find_key_None: "List.find (\<lambda>x. k x = v) xs = None \<longleftrightarrow> v \<notin> k ` set xs"
  by (induction xs) auto

lemma find_distinct_key:
  "distinct (map k xs) \<Longrightarrow> r \<in> set xs \<Longrightarrow> List.find (\<lambda>x. k x = k r) xs = Some r"
  by (induction xs) (auto simp: rev_image_eqI image_iff)

lemma distinct_key_eq:
  "distinct (map k xs) \<Longrightarrow> r \<in> set xs \<Longrightarrow> r' \<in> set xs \<Longrightarrow> k r = k r' \<Longrightarrow> r = r'"
  by (metis find_distinct_key option.inject)

subsection \<open>Reachable states and invariants\<close>

inductive reach :: "('s \<Rightarrow> bool) \<Rightarrow> ('s \<Rightarrow> 's \<Rightarrow> bool) \<Rightarrow> 's \<Rightarrow> bool"
  for init :: "'s \<Rightarrow> bool" and step :: "'s \<Rightarrow> 's \<Rightarrow> bool" where
  reach_init: "init s \<Longrightarrow> reach init step s"
| reach_step: "reach init step s \<Longrightarrow> step s t \<Longrightarrow> reach init step t"

text \<open>
  The interface of an invariant proof: an initial predicate, a step relation and a property
  that the first implies and the second keeps. Each system of the development interprets it
  with its own step relation.
\<close>

locale inductive_invariant =
  fixes init :: "'s \<Rightarrow> bool" and step :: "'s \<Rightarrow> 's \<Rightarrow> bool" and inv :: "'s \<Rightarrow> bool"
  assumes inv_init: "init s \<Longrightarrow> inv s"
    and inv_step: "inv s \<Longrightarrow> step s t \<Longrightarrow> inv t"
begin

lemma reach_inv: "reach init step s \<Longrightarrow> inv s"
  by (induction rule: reach.induct) (auto intro: inv_init inv_step)

lemma steps_inv: "step\<^sup>*\<^sup>* s t \<Longrightarrow> inv s \<Longrightarrow> inv t"
  by (induction rule: rtranclp_induct) (auto intro: inv_step)

end

end
