(* ===== verification/Tx_Monad.thy ===== *)
theory Tx_Monad
  imports Prelude
begin

section \<open>Database actions, faults and transactions\<close>

text \<open>
  The repositories under \<^verbatim>\<open>src/repo/mysql\<close> talk to MySQL statement by statement, and every
  statement may fail (connection lost, lock timeout, deadlock victim). An action is a function on
  a world: the database and a schedule of faults, one Boolean per statement still to come
  (\<open>True\<close> makes that statement fail; an exhausted schedule means no more failures).

  \<open>RunInTx\<close> is \<^verbatim>\<open>DB.RunInTx\<close> of \<^verbatim>\<open>repo/mysql/db.go\<close>: begin, body, commit, and the database
  as it was at the start if any of the three fails. The same shape (BeginTx, deferred Rollback,
  Commit) is written out by hand in \<^verbatim>\<open>JobRepoImpl.PullPending\<close> and in the workers.
\<close>

record 'd world =
  wdb :: 'd
  faults :: "bool list"

text \<open>
  The Go errors that travel out of a repository or a transaction body: a failed statement, and
  the sentinels of \<^verbatim>\<open>service/sku.go\<close>, \<^verbatim>\<open>repo/mysql/audit.go\<close>,
  \<^verbatim>\<open>service/task_pool/claim_cas.go\<close>, \<^verbatim>\<open>service/task_draft\<close> and \<^verbatim>\<open>service/org_move_request\<close>, the
  missing blueprint of \<^verbatim>\<open>service/blueprint\<close>, the refused transition of
  \<^verbatim>\<open>service/warehouse_service.go\<close>, and \<^verbatim>\<open>sql.ErrNoRows\<close>. \<open>errText\<close> is an error a transaction
  body makes itself: the text of a \<^verbatim>\<open>fmt.Errorf\<close>, or the code of the AppError it hands on.
\<close>

datatype db_error = ErrDB | errCASMiss | ErrDuplicateAuditStage | ErrDuplicateKey
  | claimConflictError | taskAlreadyClaimedError | errBlueprint
  | sql_ErrNoRows | errDraftNotOwner | errAlreadyDecided | errInvalidTransition | errText string

type_synonym ('d, 'e, 'a) act = "'d world \<Rightarrow> ('e + 'a) \<times> 'd world"

definition ret :: "'a \<Rightarrow> ('d, 'e, 'a) act" where
  "ret x w = (Inr x, w)"

definition throw :: "'e \<Rightarrow> ('d, 'e, 'a) act" where
  "throw e w = (Inl e, w)"

definition bnd :: "('d, 'e, 'a) act \<Rightarrow> ('a \<Rightarrow> ('d, 'e, 'b) act) \<Rightarrow> ('d, 'e, 'b) act" where
  "bnd m k w = (case m w of (Inl e, w') \<Rightarrow> (Inl e, w') | (Inr x, w') \<Rightarrow> k x w')"

definition map_err :: "('e \<Rightarrow> 'f) \<Rightarrow> ('d, 'e, 'a) act \<Rightarrow> ('d, 'f, 'a) act" where
  "map_err h m w = (case m w of (Inl e, w') \<Rightarrow> (Inl (h e), w') | (Inr x, w') \<Rightarrow> (Inr x, w'))"

text \<open>Go's \<^verbatim>\<open>_ = f()\<close>: run the action and drop its error.\<close>

definition ignore_err :: "('d, 'f, 'a) act \<Rightarrow> ('d, 'e, unit) act" where
  "ignore_err m w = (Inr (), snd (m w))"

text \<open>One SQL statement: it fails on a fault or on a violated constraint, else it acts.\<close>

definition stmt :: "('d \<Rightarrow> db_error + 'a \<times> 'd) \<Rightarrow> ('d, db_error, 'a) act" where
  "stmt f w =
     (case faults w of
        True # fs \<Rightarrow> (Inl ErrDB, w\<lparr>faults := fs\<rparr>)
      | _ \<Rightarrow> (case f (wdb w) of
               Inl e \<Rightarrow> (Inl e, w\<lparr>faults := tl (faults w)\<rparr>)
             | Inr (x, d) \<Rightarrow> (Inr x, w\<lparr>faults := tl (faults w), wdb := d\<rparr>)))"

definition query :: "('d \<Rightarrow> 'a) \<Rightarrow> ('d, db_error, 'a) act" where
  "query g = stmt (\<lambda>d. Inr (g d, d))"

definition exec :: "('d \<Rightarrow> 'd) \<Rightarrow> ('d, db_error, unit) act" where
  "exec h = stmt (\<lambda>d. Inr ((), h d))"

definition RunInTx :: "('d, db_error, 'a) act \<Rightarrow> ('d, db_error, 'a) act" where
  "RunInTx body w =
     (case query (\<lambda>_. ()) w of
        (Inl e, w1) \<Rightarrow> (Inl e, w1)
      | (Inr _, w1) \<Rightarrow>
         (case body w1 of
            (Inl e, w2) \<Rightarrow> (Inl e, w2\<lparr>wdb := wdb w1\<rparr>)
          | (Inr x, w2) \<Rightarrow>
             (case query (\<lambda>_. ()) w2 of
                (Inl e, w3) \<Rightarrow> (Inl e, w3\<lparr>wdb := wdb w1\<rparr>)
              | (Inr _, w3) \<Rightarrow> (Inr x, w3))))"

text \<open>A Go \<^verbatim>\<open>for\<close> loop whose body may return an error.\<close>

fun for_each :: "('x \<Rightarrow> ('d, 'e, unit) act) \<Rightarrow> 'x list \<Rightarrow> ('d, 'e, unit) act" where
  "for_each f [] = ret ()"
| "for_each f (x # xs) = bnd (f x) (\<lambda>_. for_each f xs)"

subsection \<open>Running without faults\<close>

lemma ret_run [act_simps]: "ret x w = (Inr x, w)"
  by (simp add: ret_def)

lemma throw_run [act_simps]: "throw e w = (Inl e, w)"
  by (simp add: throw_def)

lemma stmt_nofault [act_simps]:
  "faults w = [] \<Longrightarrow>
   stmt f w = (case f (wdb w) of Inl e \<Rightarrow> (Inl e, w) | Inr (x, d) \<Rightarrow> (Inr x, w\<lparr>wdb := d\<rparr>))"
  by (auto simp: stmt_def split: sum.splits prod.splits)

lemma query_nofault [act_simps]: "faults w = [] \<Longrightarrow> query g w = (Inr (g (wdb w)), w)"
  by (simp add: query_def act_simps)

lemma exec_nofault [act_simps]: "faults w = [] \<Longrightarrow> exec h w = (Inr (), w\<lparr>wdb := h (wdb w)\<rparr>)"
  by (simp add: exec_def act_simps)

lemma bnd_run_Inr [act_simps]: "m w = (Inr x, w') \<Longrightarrow> bnd m k w = k x w'"
  by (simp add: bnd_def)

lemma bnd_run_Inl [act_simps]: "m w = (Inl e, w') \<Longrightarrow> bnd m k w = (Inl e, w')"
  by (simp add: bnd_def)

lemma map_err_Inr [act_simps]: "m w = (Inr x, w') \<Longrightarrow> map_err h m w = (Inr x, w')"
  by (simp add: map_err_def)

lemma map_err_Inl [act_simps]: "m w = (Inl e, w') \<Longrightarrow> map_err h m w = (Inl (h e), w')"
  by (simp add: map_err_def)

lemma RunInTx_nofault_ok [act_simps]:
  "faults w = [] \<Longrightarrow> body w = (Inr x, w') \<Longrightarrow> faults w' = [] \<Longrightarrow> RunInTx body w = (Inr x, w')"
  by (simp add: RunInTx_def act_simps)

lemma RunInTx_nofault_err [act_simps]:
  "faults w = [] \<Longrightarrow> body w = (Inl e, w') \<Longrightarrow> RunInTx body w = (Inl e, w'\<lparr>wdb := wdb w\<rparr>)"
  by (simp add: RunInTx_def act_simps)

subsection \<open>Inversion of successes, and what failures leave behind\<close>

lemma ret_eq_Inr [act_success, simp]: "ret x w = (Inr y, w') \<longleftrightarrow> y = x \<and> w' = w"
  by (auto simp: ret_def)

lemma throw_eq_Inr [act_success, simp]: "throw e w = (Inr y, w') \<longleftrightarrow> False"
  by (simp add: throw_def)

lemma snd_ret_throw [simp]: "snd (ret x w) = w" "snd (throw e w) = w"
  by (simp_all add: ret_def throw_def)

lemma bnd_eq_Inr [act_success]:
  "bnd m k w = (Inr y, w') \<longleftrightarrow> (\<exists>x w1. m w = (Inr x, w1) \<and> k x w1 = (Inr y, w'))"
  by (auto simp: bnd_def split: prod.splits sum.splits)

lemma map_err_eq_Inr [act_success]: "map_err h m w = (Inr y, w') \<longleftrightarrow> m w = (Inr y, w')"
  by (auto simp: map_err_def split: prod.splits sum.splits)

lemma stmt_success: "stmt f w = (Inr x, w') \<Longrightarrow> f (wdb w) = Inr (x, wdb w')"
  by (auto simp: stmt_def split: list.splits bool.splits sum.splits prod.splits)

lemma query_success: "query g w = (Inr x, w') \<Longrightarrow> x = g (wdb w) \<and> wdb w' = wdb w"
  unfolding query_def by (drule stmt_success) auto

lemma exec_success: "exec h w = (Inr x, w') \<Longrightarrow> wdb w' = h (wdb w)"
  unfolding exec_def by (drule stmt_success) auto

lemma stmt_failure: "stmt f w = (Inl e, w') \<Longrightarrow> wdb w' = wdb w"
  by (auto simp: stmt_def split: list.splits bool.splits sum.splits prod.splits)

lemma query_wdb [simp]: "wdb (snd (query g w)) = wdb w"
  by (auto simp: query_def stmt_def split: list.splits bool.splits)

lemma RunInTx_failure: "RunInTx m w = (Inl e, w') \<Longrightarrow> wdb w' = wdb w"
  by (auto simp: RunInTx_def query_def split: prod.splits sum.splits
      dest: stmt_failure stmt_success)

lemma RunInTx_success:
  "RunInTx m w = (Inr x, w') \<Longrightarrow>
   \<exists>w1 w2. wdb w1 = wdb w \<and> m w1 = (Inr x, w2) \<and> wdb w' = wdb w2"
  by (fastforce simp: RunInTx_def split: prod.splits sum.splits dest: query_success)

subsection \<open>The interface of a transaction runner\<close>

text \<open>
  What a service relies on when it hands a body to \<^verbatim>\<open>repo.TxRunner\<close>: an error leaves the
  database as it was, a success is the body's own effect. Everything a client derives from this,
  atomicity and preservation of any invariant its body keeps, is proved once here.
\<close>

locale tx_runner =
  fixes run :: "('d, 'e, 'a) act \<Rightarrow> ('d, 'e, 'a) act"
  assumes run_failure: "run m w = (Inl e, w') \<Longrightarrow> wdb w' = wdb w"
    and run_success: "run m w = (Inr x, w') \<Longrightarrow>
          \<exists>w1 w2. wdb w1 = wdb w \<and> m w1 = (Inr x, w2) \<and> wdb w' = wdb w2"
begin

lemma atomic:
  "wdb (snd (run m w)) = wdb w \<or>
   (\<exists>x w1 w2. fst (run m w) = Inr x \<and> wdb w1 = wdb w \<and> m w1 = (Inr x, w2) \<and>
              wdb (snd (run m w)) = wdb w2)"
  by (cases "run m w"; cases "fst (run m w)") (auto dest: run_failure run_success)

lemma run_preserves:
  assumes "I (wdb w)"
    and "\<And>w1 x w2. I (wdb w1) \<Longrightarrow> wdb w1 = wdb w \<Longrightarrow> m w1 = (Inr x, w2) \<Longrightarrow> I (wdb w2)"
  shows "I (wdb (snd (run m w)))"
  using atomic [of m w] assms by auto

end

interpretation tx: tx_runner RunInTx
  by unfold_locales (erule RunInTx_failure, erule RunInTx_success)

subsection \<open>Triples\<close>

text \<open>
  \<open>triple P m Q\<close>: from a database with \<open>P\<close>, if the body \<open>m\<close> returns, the database and the result
  satisfy \<open>Q\<close>. \<open>keeps I m\<close>: whatever \<open>m\<close> returns, error or not, it leaves \<open>I\<close> true. A
  transaction turns the first into the second.
\<close>

definition triple :: "('d \<Rightarrow> bool) \<Rightarrow> ('d, 'e, 'a) act \<Rightarrow> ('a \<Rightarrow> 'd \<Rightarrow> bool) \<Rightarrow> bool" where
  "triple P m Q \<longleftrightarrow> (\<forall>w x w'. P (wdb w) \<longrightarrow> m w = (Inr x, w') \<longrightarrow> Q x (wdb w'))"

definition keeps :: "('d \<Rightarrow> bool) \<Rightarrow> ('d, 'e, 'a) act \<Rightarrow> bool" where
  "keeps I m \<longleftrightarrow> (\<forall>w. I (wdb w) \<longrightarrow> I (wdb (snd (m w))))"

lemma tripleI: "(\<And>w x w'. P (wdb w) \<Longrightarrow> m w = (Inr x, w') \<Longrightarrow> Q x (wdb w')) \<Longrightarrow> triple P m Q"
  by (auto simp: triple_def)

lemma tripleD: "triple P m Q \<Longrightarrow> P (wdb w) \<Longrightarrow> m w = (Inr x, w') \<Longrightarrow> Q x (wdb w')"
  by (auto simp: triple_def)

lemma triple_bnd [intro]:
  "triple P m R \<Longrightarrow> (\<And>x. triple (R x) (k x) Q) \<Longrightarrow> triple P (bnd m k) Q"
  unfolding triple_def bnd_eq_Inr by blast

lemma triple_pre: "triple P m Q \<Longrightarrow> (\<And>d. P' d \<Longrightarrow> P d) \<Longrightarrow> triple P' m Q"
  by (auto simp: triple_def)

lemma triple_post: "triple P m Q \<Longrightarrow> (\<And>x d. Q x d \<Longrightarrow> Q' x d) \<Longrightarrow> triple P m Q'"
  by (auto simp: triple_def)

lemma triple_const: "triple P m Q \<Longrightarrow> triple (\<lambda>d. P d \<and> c) m (\<lambda>x d. Q x d \<and> c)"
  by (auto simp: triple_def)

lemma triple_ret: "(\<And>d. P d \<Longrightarrow> Q x d) \<Longrightarrow> triple P (ret x) Q"
  by (auto simp: triple_def)

lemma triple_throw: "triple P (throw e) Q"
  by (auto simp: triple_def)

lemma triple_stmt: "(\<And>d x d'. P d \<Longrightarrow> f d = Inr (x, d') \<Longrightarrow> Q x d') \<Longrightarrow> triple P (stmt f) Q"
  by (auto simp: triple_def dest: stmt_success)

lemma triple_query: "(\<And>d. P d \<Longrightarrow> Q (g d) d) \<Longrightarrow> triple P (query g) Q"
  unfolding query_def by (rule triple_stmt) auto

lemma triple_exec: "(\<And>d. P d \<Longrightarrow> Q () (h d)) \<Longrightarrow> triple P (exec h) Q"
  unfolding exec_def by (rule triple_stmt) auto

lemma triple_for_each:
  "(\<And>x. x \<in> set xs \<Longrightarrow> triple I (f x) (\<lambda>_. I)) \<Longrightarrow> triple I (for_each f xs) (\<lambda>_. I)"
proof (induction xs)
  case Nil
  show ?case by (auto simp: triple_def)
next
  case (Cons x xs)
  then show ?case unfolding for_each.simps
    by (intro triple_bnd [where R = "\<lambda>_. I"]) auto
qed

lemma keeps_RunInTx: "triple I m (\<lambda>_. I) \<Longrightarrow> keeps I (RunInTx m)"
  unfolding keeps_def by (intro allI impI, erule tx.run_preserves) (rule tripleD)

lemma keeps_query [intro]: "keeps I (query g)"
  by (simp add: keeps_def)

lemma keeps_exec: "(\<And>d. I d \<Longrightarrow> I (h d)) \<Longrightarrow> keeps I (exec h)"
  by (auto simp: keeps_def exec_def stmt_def split: list.splits bool.splits)

lemma keeps_ret [intro]: "keeps I (ret x)"
  by (simp add: keeps_def)

lemma keeps_throw [intro]: "keeps I (throw e)"
  by (simp add: keeps_def)

lemma keeps_bnd [intro]: "keeps I m \<Longrightarrow> (\<And>x. keeps I (k x)) \<Longrightarrow> keeps I (bnd m k)"
  by (fastforce simp: keeps_def bnd_def split: prod.splits sum.splits)

lemma keeps_map_err [intro]: "keeps I m \<Longrightarrow> keeps I (map_err h m)"
  by (fastforce simp: keeps_def map_err_def split: prod.splits sum.splits)

lemma keeps_ignore_err [intro]: "keeps I m \<Longrightarrow> keeps I (ignore_err m)"
  by (simp add: keeps_def ignore_err_def)

lemma keeps_for_each: "(\<And>x. x \<in> set xs \<Longrightarrow> keeps I (f x)) \<Longrightarrow> keeps I (for_each f xs)"
  by (induction xs) auto

subsection \<open>Loops\<close>

lemma for_each_preserves:
  assumes "for_each f xs w = (Inr u, w')" and "I (wdb w)"
    and "\<And>x w1 w2. x \<in> set xs \<Longrightarrow> I (wdb w1) \<Longrightarrow> f x w1 = (Inr (), w2) \<Longrightarrow> I (wdb w2)"
  shows "I (wdb w')"
  using assms
proof (induction xs arbitrary: w)
  case Nil
  then show ?case by simp
next
  case (Cons x xs)
  then obtain w1 where "f x w = (Inr (), w1)" and "for_each f xs w1 = (Inr u, w')"
    by (auto simp: bnd_eq_Inr)
  moreover have "I (wdb w1)"
    using Cons.prems(3) [OF _ Cons.prems(2)] calculation(1) by (meson list.set_intros(1))
  ultimately show ?case using Cons.IH Cons.prems(3) by (metis list.set_intros(2))
qed

subsection \<open>Parts of a database\<close>

text \<open>
  Repositories over different tables share one MySQL database. An action on a part runs inside the
  whole: \<open>get\<close> and \<open>put\<close> select and replace the part, and the statements of the part use up the
  same schedule of faults.
\<close>

definition within ::
  "('d \<Rightarrow> 'c) \<Rightarrow> ('c \<Rightarrow> 'd \<Rightarrow> 'd) \<Rightarrow> ('c, 'e, 'a) act \<Rightarrow> ('d, 'e, 'a) act" where
  "within get put m w =
     (case m \<lparr>wdb = get (wdb w), faults = faults w\<rparr> of
        (r, u) \<Rightarrow> (r, w\<lparr>wdb := put (wdb u) (wdb w), faults := faults u\<rparr>))"

lemma within_success [act_success]:
  "within get put m w = (Inr x, w') \<longleftrightarrow>
   (\<exists>u. m \<lparr>wdb = get (wdb w), faults = faults w\<rparr> = (Inr x, u) \<and>
        w' = w\<lparr>wdb := put (wdb u) (wdb w), faults := faults u\<rparr>)"
  by (auto simp: within_def split: prod.splits)

lemma within_run:
  "m \<lparr>wdb = get (wdb w), faults = faults w\<rparr> = (r, u) \<Longrightarrow>
   within get put m w = (r, w\<lparr>wdb := put (wdb u) (wdb w), faults := faults u\<rparr>)"
  by (simp add: within_def)

locale db_part =
  fixes get :: "'d \<Rightarrow> 'c" and put :: "'c \<Rightarrow> 'd \<Rightarrow> 'd"
  assumes get_put: "get (put c d) = c"
    and put_get: "put (get d) d = d"
    and put_put: "put c (put c' d) = put c d"
begin

lemma within_effect:
  assumes "within get put m w = (Inr x, w')"
    and "\<And>w x w'. m w = (Inr x, w') \<Longrightarrow> wdb w' = f (wdb w)"
  shows "wdb w' = put (f (get (wdb w))) (wdb w)"
  using assms by (auto simp: within_success)

lemma within_read:
  assumes "within get put m w = (r, w')" and "\<And>w. wdb (snd (m w)) = wdb w"
  shows "wdb w' = wdb w"
proof -
  have "wdb (snd (m \<lparr>wdb = get (wdb w), faults = faults w\<rparr>)) = get (wdb w)" by (simp add: assms(2))
  then show ?thesis using assms(1) by (auto simp: within_def put_get split: prod.splits)
qed

lemma keeps_within:
  assumes "\<And>d. keeps (\<lambda>c. I (put c d)) m"
  shows "keeps I (within get put m)"
  unfolding keeps_def
proof (intro allI impI)
  fix w :: "'d world" assume "I (wdb w)"
  then have "I (put (wdb (snd (m \<lparr>wdb = get (wdb w), faults = faults w\<rparr>))) (wdb w))"
    using assms [of "wdb w"] by (auto simp: keeps_def put_get)
  then show "I (wdb (snd (within get put m w)))" by (auto simp: within_def split: prod.splits)
qed

end

end
