(* ===== verification/Kernel_Domain.thy ===== *)
theory Kernel_Domain
  imports Tx_Monad
begin

section \<open>Data of the SKU distribution kernel\<close>

text \<open>
  The types of \<^verbatim>\<open>src/domain/enums.go\<close>, \<^verbatim>\<open>entities.go\<close>, \<^verbatim>\<open>errors.go\<close> and \<^verbatim>\<open>events.go\<close>,
  and the database they live in. Go's string enumerations are datatypes with the source's
  constants; stage and decision of an audit arrive in a request and may be any string, so they
  keep a constructor for the rest. An \<^verbatim>\<open>AppError\<close> is its code: message, details and trace id
  only dress the HTTP response.
\<close>

datatype WorkflowStatus = WorkflowDraft | WorkflowSubmitted | WorkflowAuditAPending
  | WorkflowAuditAApproved | WorkflowAuditARejected | WorkflowAuditBPending
  | WorkflowAuditBApproved | WorkflowAuditBRejected | WorkflowApprovedPendingVerify
  | WorkflowApproved | WorkflowDistributionRunning | WorkflowCompleted | WorkflowBlocked
  | WorkflowCancelled

datatype HashState = HashStatePartial | HashStateReady | HashStateMismatch

datatype AuditStatus = AuditStatusUnreviewed | AuditStatusApproved | AuditStatusRejected
  | AuditStatusSuperseded

datatype ExistsState = ExistsStateExists | ExistsStateMissing

datatype JobStatus = JobStatusPendingVerify | JobStatusPending | JobStatusRunning | JobStatusDone
  | JobStatusFail | JobStatusStale | JobStatusExceededRetries | JobStatusCancelled

datatype VerifyStatus = VerifyStatusNotRequested | VerifyStatusVerifying | VerifyStatusVerified
  | VerifyStatusVerifyFailed

datatype IncidentStatus = IncidentStatusOpen | IncidentStatusInProgress | IncidentStatusResolved
  | IncidentStatusClosed

datatype AuditStage = AuditStageA | AuditStageB | AuditStageOther string

datatype AuditDecision = AuditDecisionApprove | AuditDecisionReject | AuditDecisionOther string

abbreviation (input) EvidenceLevelL1 :: int where "EvidenceLevelL1 \<equiv> 1"
abbreviation (input) EvidenceLevelL2 :: int where "EvidenceLevelL2 \<equiv> 2"
abbreviation (input) EvidenceLevelL3 :: int where "EvidenceLevelL3 \<equiv> 3"

datatype ErrCode = ErrCodeSKUVersionConflict | ErrCodeJobAttemptExpired
  | ErrCodeEvidenceInsufficient | ErrCodeAssetNotStable | ErrCodeAssetMissing
  | ErrCodeHashMismatch | ErrCodeUploadEnvNotAllowed | ErrCodeDuplicateAuditAction
  | ErrCodeInvalidStateTransition | ErrCodePermissionDenied | ErrCodeUnauthorized
  | ErrCodeNotFound | ErrCodeInvalidRequest | ErrCodeReasonRequired | ErrCodeConflict
  | ErrCodeInternalError

text \<open>The strings the constants stand for, where they are written into an event payload.\<close>

fun ws_string :: "WorkflowStatus \<Rightarrow> string" where
  "ws_string WorkflowDraft = ''Draft''"
| "ws_string WorkflowSubmitted = ''Submitted''"
| "ws_string WorkflowAuditAPending = ''AuditA_Pending''"
| "ws_string WorkflowAuditAApproved = ''AuditA_Approved''"
| "ws_string WorkflowAuditARejected = ''AuditA_Rejected''"
| "ws_string WorkflowAuditBPending = ''AuditB_Pending''"
| "ws_string WorkflowAuditBApproved = ''AuditB_Approved''"
| "ws_string WorkflowAuditBRejected = ''AuditB_Rejected''"
| "ws_string WorkflowApprovedPendingVerify = ''Approved_PendingVerify''"
| "ws_string WorkflowApproved = ''Approved''"
| "ws_string WorkflowDistributionRunning = ''Distribution_Running''"
| "ws_string WorkflowCompleted = ''Completed''"
| "ws_string WorkflowBlocked = ''Blocked''"
| "ws_string WorkflowCancelled = ''Cancelled''"

fun hs_string :: "HashState \<Rightarrow> string" where
  "hs_string HashStatePartial = ''Partial''"
| "hs_string HashStateReady = ''Ready''"
| "hs_string HashStateMismatch = ''Mismatch''"

fun js_string :: "JobStatus \<Rightarrow> string" where
  "js_string JobStatusPendingVerify = ''PendingVerify''"
| "js_string JobStatusPending = ''Pending''"
| "js_string JobStatusRunning = ''Running''"
| "js_string JobStatusDone = ''Done''"
| "js_string JobStatusFail = ''Fail''"
| "js_string JobStatusStale = ''Stale''"
| "js_string JobStatusExceededRetries = ''ExceededRetries''"
| "js_string JobStatusCancelled = ''Cancelled''"

fun stage_string :: "AuditStage \<Rightarrow> string" where
  "stage_string AuditStageA = ''A''"
| "stage_string AuditStageB = ''B''"
| "stage_string (AuditStageOther s) = s"

fun decision_string :: "AuditDecision \<Rightarrow> string" where
  "decision_string AuditDecisionApprove = ''Approve''"
| "decision_string AuditDecisionReject = ''Reject''"
| "decision_string (AuditDecisionOther s) = s"

abbreviation "EventSKUCreated \<equiv> ''sku.created''"
abbreviation "EventSKUStatusChanged \<equiv> ''sku.status_changed''"
abbreviation "EventVersionCreated \<equiv> ''version.created''"
abbreviation "EventVersionStable \<equiv> ''version.stable''"
abbreviation "EventAuditSubmitted \<equiv> ''audit.submitted''"
abbreviation "EventJobCreated \<equiv> ''job.created''"
abbreviation "EventJobRunning \<equiv> ''job.running''"
abbreviation "EventJobDone \<equiv> ''job.done''"
abbreviation "EventJobFailed \<equiv> ''job.failed''"
abbreviation "EventJobStale \<equiv> ''job.stale''"
abbreviation "EventJobRetrying \<equiv> ''job.retrying''"
abbreviation "EventJobExceededRetries \<equiv> ''job.exceeded_retries''"
abbreviation "EventVerifyPassed \<equiv> ''verify.passed''"
abbreviation "EventVerifyFailed \<equiv> ''verify.failed''"
abbreviation "EventIncidentCreated \<equiv> ''incident.created''"
abbreviation "EventIncidentAssigned \<equiv> ''incident.assigned''"
abbreviation "EventIncidentResolved \<equiv> ''incident.resolved''"

text \<open>A JSON object as the handlers build it: keys with string, number or Boolean values.\<close>

datatype jval = JStr string | JInt int | JBool bool

type_synonym payload = "(string \<times> jval) list"

subsection \<open>Rows\<close>

record SKU =
  SKU_ID :: id
  SKU_SKUCode :: string
  SKU_Name :: string
  SKU_CurrentVerID :: "id option"
  SKU_WorkflowStatus :: WorkflowStatus
  SKU_CreatedAt :: time
  SKU_UpdatedAt :: time

record AssetVersion =
  AV_ID :: id
  AV_SKUID :: id
  AV_VersionNum :: int
  AV_WholeHash :: string
  AV_HeadChunkHash :: "string option"
  AV_TailChunkHash :: "string option"
  AV_FileSizeBytes :: int
  AV_IsStable :: bool
  AV_PreviewURL :: "string option"
  AV_HashState :: HashState
  AV_AuditStatus :: AuditStatus
  AV_ExistsState :: ExistsState
  AV_CreatedAt :: time

record AuditAction =
  AA_ID :: id
  AA_ActionID :: string
  AA_AssetVerID :: id
  AA_Stage :: AuditStage
  AA_Decision :: AuditDecision
  AA_WholeHash :: string
  AA_AuditorID :: id
  AA_Reason :: "string option"
  AA_CreatedAt :: time

record DistributionJob =
  Job_ID :: id
  Job_IdempotentKey :: string
  Job_ActionID :: string
  Job_SKUID :: id
  Job_AssetVerID :: id
  Job_Target :: string
  Job_Status :: JobStatus
  Job_VerifyStatus :: VerifyStatus
  Job_RetryCount :: int
  Job_MaxRetries :: int
  Job_CurrentAttemptID :: "string option"
  Job_NextRetryAt :: "time option"
  Job_CreatedAt :: time
  Job_UpdatedAt :: time

record JobAttempt =
  At_ID :: string
  At_JobID :: id
  At_AgentID :: string
  At_LeaseExpiresAt :: time
  At_HeartbeatAt :: "time option"
  At_AckedAt :: "time option"
  At_CreatedAt :: time

record Evidence =
  Ev_Level :: int
  Ev_FileID :: "string option"
  Ev_SizeBytes :: "int option"
  Ev_CloudPath :: "string option"
  Ev_ShareURL :: "string option"

record EventLog =
  EL_ID :: string
  EL_SKUID :: id
  EL_Sequence :: int
  EL_EventType :: string
  EL_Payload :: payload
  EL_CreatedAt :: time

record Incident =
  Inc_ID :: id
  Inc_SKUID :: id
  Inc_JobID :: "id option"
  Inc_Status :: IncidentStatus
  Inc_Reason :: string
  Inc_AssigneeID :: "id option"
  Inc_ResolvedBy :: "id option"
  Inc_ResolvedAt :: "time option"
  Inc_ClosedBy :: "id option"
  Inc_ClosedAt :: "time option"
  Inc_CloseReason :: "string option"
  Inc_CreatedAt :: time
  Inc_UpdatedAt :: time

record SystemPolicy =
  Pol_ID :: id
  Pol_Key :: string
  Pol_Value :: string
  Pol_Version :: int
  Pol_UpdatedBy :: id
  Pol_UpdatedAt :: time

text \<open>
  The kernel's tables. \<open>next_*\<close> are the AUTO_INCREMENT counters; \<open>uuid_n\<close> counts the calls to
  \<^verbatim>\<open>uuid.New\<close>, whose results come from the parameter \<open>U\<close> of the operations that draw one.
\<close>

record kdb =
  skus :: "SKU list"
  asset_versions :: "AssetVersion list"
  audit_actions :: "AuditAction list"
  distribution_jobs :: "DistributionJob list"
  job_attempts :: "JobAttempt list"
  event_logs :: "EventLog list"
  sku_sequences :: "(id \<times> int) list"
  incidents :: "Incident list"
  system_policies :: "SystemPolicy list"
  next_sku :: id
  next_version :: id
  next_action :: id
  next_job :: id
  next_incident :: id
  next_policy :: id
  uuid_n :: nat

type_synonym kworld = "kdb world"
type_synonym 'a kact = "(kdb, db_error, 'a) act"
type_synonym 'a kop = "(kdb, ErrCode, 'a) act"
type_synonym uuid_source = "nat \<Rightarrow> string"

lemma ws_string_inject [simp]: "ws_string a = ws_string b \<longleftrightarrow> a = b"
  by (cases a; cases b; simp)

text \<open>\<^verbatim>\<open>infraError\<close> of \<^verbatim>\<open>service/sku.go\<close>: every low-level error becomes INTERNAL_ERROR.\<close>

definition infraError :: "db_error \<Rightarrow> ErrCode" where
  "infraError e = ErrCodeInternalError"

abbreviation infra :: "(kdb, db_error, 'a) act \<Rightarrow> 'a kop" where
  "infra m \<equiv> map_err infraError m"

end
