(* ===== verification/Event_Log.thy ===== *)
theory Event_Log
  imports Policy_Engine
begin

section \<open>The event log\<close>

text \<open>
  \<^verbatim>\<open>nextSequence\<close> (\<^verbatim>\<open>repo/mysql/db.go\<close>), \<^verbatim>\<open>EventRepoImpl\<close> (\<^verbatim>\<open>repo/mysql/event.go\<close>) and the
  workers' own copy of both (\<^verbatim>\<open>workers/sql_helpers.go\<close>). The two implementations promise the same
  thing, stated as the locale \<open>event_sink\<close> and interpreted on each: an append that returns adds
  exactly one event, numbered one above the SKU's counter, and moves the counter to it. From that
  contract: sequence numbers stay gap-free (\<open>seq_inv\<close>), and the log can be replayed (\<open>replay\<close>).
\<close>

definition nextSequence :: "id \<Rightarrow> int kact" where
  "nextSequence skuID =
     bnd (query (\<lambda>d. map_of (sku_sequences d) skuID)) (\<lambda>current. case current of
       None \<Rightarrow> bnd (exec (\<lambda>d. d\<lparr>sku_sequences := sku_sequences d @ [(skuID, 1)]\<rparr>)) (\<lambda>_. ret 1)
     | Some c \<Rightarrow>
         bnd (exec (\<lambda>d. d\<lparr>sku_sequences :=
                row_upd (\<lambda>r. fst r = skuID) (\<lambda>r. (fst r, c + 1)) (sku_sequences d)\<rparr>))
             (\<lambda>_. ret (c + 1)))"

text \<open>INSERT INTO event_logs, under PRIMARY KEY (id) and UNIQUE (sku_id, sequence).\<close>

definition insert_event_log :: "EventLog \<Rightarrow> unit kact" where
  "insert_event_log e = stmt (\<lambda>d.
     if List.find (\<lambda>r. EL_ID r = EL_ID e \<or>
          EL_SKUID r = EL_SKUID e \<and> EL_Sequence r = EL_Sequence e) (event_logs d) \<noteq> None
     then Inl ErrDuplicateKey
     else Inr ((), d\<lparr>event_logs := event_logs d @ [e]\<rparr>))"

definition uuid_New :: "uuid_source \<Rightarrow> string kact" where
  "uuid_New U w = (Inr (U (uuid_n (wdb w))), w\<lparr>wdb := (wdb w)\<lparr>uuid_n := Suc (uuid_n (wdb w))\<rparr>\<rparr>)"

definition Append :: "uuid_source \<Rightarrow> time \<Rightarrow> id \<Rightarrow> string \<Rightarrow> payload \<Rightarrow> EventLog kact" where
  "Append U now skuID eventType pl =
     bnd (nextSequence skuID) (\<lambda>seq.
     bnd (uuid_New U) (\<lambda>i.
       let e = \<lparr>EL_ID = i, EL_SKUID = skuID, EL_Sequence = seq, EL_EventType = eventType,
                EL_Payload = pl, EL_CreatedAt = now\<rparr>
       in bnd (insert_event_log e) (\<lambda>_. ret e)))"

definition ListSince :: "id \<Rightarrow> int \<Rightarrow> EventLog list kact" where
  "ListSince skuID sinceSequence = query (\<lambda>d.
     sort_key EL_Sequence
       (filter (\<lambda>e. EL_SKUID e = skuID \<and> EL_Sequence e > sinceSequence) (event_logs d)))"

definition GetLatestSequence :: "id \<Rightarrow> int kact" where
  "GetLatestSequence skuID = query (\<lambda>d.
     case filter (\<lambda>e. EL_SKUID e = skuID) (event_logs d) of
       [] \<Rightarrow> 0
     | e # es \<Rightarrow> fold max (map EL_Sequence es) (EL_Sequence e))"

definition workerNextSequence :: "id \<Rightarrow> int kact" where
  "workerNextSequence skuID =
     bnd (query (\<lambda>d. map_of (sku_sequences d) skuID)) (\<lambda>current. case current of
       None \<Rightarrow> bnd (exec (\<lambda>d. d\<lparr>sku_sequences := sku_sequences d @ [(skuID, 1)]\<rparr>)) (\<lambda>_. ret 1)
     | Some c \<Rightarrow>
         let next = c + 1 in
         bnd (exec (\<lambda>d. d\<lparr>sku_sequences :=
                row_upd (\<lambda>r. fst r = skuID) (\<lambda>r. (fst r, next)) (sku_sequences d)\<rparr>))
             (\<lambda>_. ret next))"

definition workerAppendEvent :: "uuid_source \<Rightarrow> time \<Rightarrow> id \<Rightarrow> string \<Rightarrow> payload \<Rightarrow> unit kact" where
  "workerAppendEvent U now skuID eventType pl =
     bnd (workerNextSequence skuID) (\<lambda>seq.
     bnd (uuid_New U) (\<lambda>i.
       insert_event_log \<lparr>EL_ID = i, EL_SKUID = skuID, EL_Sequence = seq,
         EL_EventType = eventType, EL_Payload = pl, EL_CreatedAt = now\<rparr>))"

subsection \<open>The contract of an append\<close>

definition last_seq :: "kdb \<Rightarrow> id \<Rightarrow> int" where
  "last_seq d skuID = (case map_of (sku_sequences d) skuID of None \<Rightarrow> 0 | Some n \<Rightarrow> n)"

definition sku_events :: "kdb \<Rightarrow> id \<Rightarrow> EventLog list" where
  "sku_events d skuID = filter (\<lambda>e. EL_SKUID e = skuID) (event_logs d)"

definition appended :: "id \<Rightarrow> string \<Rightarrow> payload \<Rightarrow> kdb \<Rightarrow> kdb \<Rightarrow> bool" where
  "appended skuID ty pl d d' \<longleftrightarrow> (\<exists>e sq n.
     d' = d\<lparr>event_logs := event_logs d @ [e], sku_sequences := sq, uuid_n := n\<rparr> \<and>
     EL_SKUID e = skuID \<and> EL_EventType e = ty \<and> EL_Payload e = pl \<and>
     EL_Sequence e = last_seq d skuID + 1 \<and>
     map_of sq = (map_of (sku_sequences d))(skuID \<mapsto> last_seq d skuID + 1))"

text \<open>The log of every SKU is numbered 1, 2, ..., its counter, in the order it was written.\<close>

definition seq_inv :: "kdb \<Rightarrow> bool" where
  "seq_inv d \<longleftrightarrow> (\<forall>skuID. map EL_Sequence (sku_events d skuID) = [1..last_seq d skuID]
                       \<and> 0 \<le> last_seq d skuID)"

definition uuid_fresh :: "uuid_source \<Rightarrow> kdb \<Rightarrow> bool" where
  "uuid_fresh U d \<longleftrightarrow>
     (\<forall>n \<ge> uuid_n d. U n \<notin> EL_ID ` set (event_logs d) \<and> U n \<notin> At_ID ` set (job_attempts d))"

lemma map_of_row_upd_fst:
  "map_of (row_upd (\<lambda>r. fst r = k) (\<lambda>r. (fst r, v)) xs) =
     (map_of xs)(k := map_option (\<lambda>_. v) (map_of xs k))"
  by (induction xs) (auto simp: fun_eq_iff)

lemma map_of_snoc: "map_of xs k = None \<Longrightarrow> map_of (xs @ [(k, v)]) = (map_of xs)(k \<mapsto> v)"
  by (auto simp: fun_eq_iff map_add_def split: option.splits)

lemma appended_seq_inv:
  assumes "appended skuID ty pl d d'" and "seq_inv d"
  shows "seq_inv d'"
proof -
  from assms(1) obtain e sq n where
    d': "d' = d\<lparr>event_logs := event_logs d @ [e], sku_sequences := sq, uuid_n := n\<rparr>"
    and e: "EL_SKUID e = skuID" "EL_Sequence e = last_seq d skuID + 1"
    and sq: "map_of sq = (map_of (sku_sequences d))(skuID \<mapsto> last_seq d skuID + 1)"
    unfolding appended_def by blast
  have "last_seq d' s = (if s = skuID then last_seq d skuID + 1 else last_seq d s)"
    for s using d' sq by (simp add: last_seq_def)
  moreover have "sku_events d' s = sku_events d s @ (if s = skuID then [e] else [])"
    for s using d' e by (simp add: sku_events_def)
  ultimately show ?thesis using assms(2) e
    by (auto simp: seq_inv_def upto_rec2 [of 1 "_ + 1"])
qed

locale event_sink =
  fixes U :: uuid_source
    and append :: "id \<Rightarrow> string \<Rightarrow> payload \<Rightarrow> 'a kact"
  assumes append_ok: "append skuID ty pl w = (Inr x, w') \<Longrightarrow> appended skuID ty pl (wdb w) (wdb w')"
    and append_runs: "faults w = [] \<Longrightarrow> seq_inv (wdb w) \<Longrightarrow> uuid_fresh U (wdb w) \<Longrightarrow>
          \<exists>x w'. append skuID ty pl w = (Inr x, w') \<and> faults w' = []"
begin

lemma append_events:
  "append skuID ty pl w = (Inr x, w') \<Longrightarrow>
   \<exists>e. event_logs (wdb w') = event_logs (wdb w) @ [e] \<and> EL_SKUID e = skuID \<and>
       EL_EventType e = ty \<and> EL_Payload e = pl"
  by (drule append_ok) (auto simp: appended_def)

lemma append_seq_inv:
  "append skuID ty pl w = (Inr x, w') \<Longrightarrow> seq_inv (wdb w) \<Longrightarrow> seq_inv (wdb w')"
  by (rule appended_seq_inv) (rule append_ok)

end

lemma nextSequence_ok:
  assumes "nextSequence skuID w = (Inr seq, w')"
  shows "\<exists>sq. wdb w' = (wdb w)\<lparr>sku_sequences := sq\<rparr> \<and> seq = last_seq (wdb w) skuID + 1 \<and>
        map_of sq = (map_of (sku_sequences (wdb w)))(skuID \<mapsto> last_seq (wdb w) skuID + 1)"
proof (cases "map_of (sku_sequences (wdb w)) skuID")
  case None
  then have "wdb w' = (wdb w)\<lparr>sku_sequences := sku_sequences (wdb w) @ [(skuID, 1)]\<rparr> \<and> seq = 1"
    using assms by (auto simp: nextSequence_def act_success dest!: query_success exec_success)
  then show ?thesis using None map_of_snoc [OF None, of 1] unfolding last_seq_def
    by (intro exI [of _ "sku_sequences (wdb w) @ [(skuID, 1)]"]) simp
next
  case (Some c)
  then have "wdb w' = (wdb w)\<lparr>sku_sequences :=
        row_upd (\<lambda>r. fst r = skuID) (\<lambda>r. (fst r, c + 1)) (sku_sequences (wdb w))\<rparr> \<and> seq = c + 1"
    using assms by (auto simp: nextSequence_def act_success dest!: query_success exec_success)
  then show ?thesis using Some map_of_row_upd_fst [of skuID "c + 1" "sku_sequences (wdb w)"]
    unfolding last_seq_def by (intro exI [of _ "row_upd (\<lambda>r. fst r = skuID) (\<lambda>r. (fst r, c + 1)) (sku_sequences (wdb w))"])
      (simp add: map_of_row_upd_fst)
qed

lemma workerNextSequence_eq: "workerNextSequence = nextSequence"
  by (auto simp: workerNextSequence_def nextSequence_def Let_def fun_eq_iff)

lemma insert_event_log_ok:
  "insert_event_log e w = (Inr x, w') \<Longrightarrow>
   wdb w' = (wdb w)\<lparr>event_logs := event_logs (wdb w) @ [e]\<rparr>"
  by (auto simp: insert_event_log_def split: if_splits dest!: stmt_success)

lemma Append_ok:
  assumes "Append U now skuID ty pl w = (Inr x, w')"
  shows "appended skuID ty pl (wdb w) (wdb w')"
proof -
  obtain w1 where ns: "nextSequence skuID w = (Inr (EL_Sequence x), w1)"
    and ins: "insert_event_log x (w1\<lparr>wdb := (wdb w1)\<lparr>uuid_n := Suc (uuid_n (wdb w1))\<rparr>\<rparr>) = (Inr (), w')"
    and x: "EL_SKUID x = skuID" "EL_EventType x = ty" "EL_Payload x = pl"
    using assms by (auto simp: Append_def act_success uuid_New_def Let_def)
  from nextSequence_ok [OF ns] obtain sq where sq: "wdb w1 = (wdb w)\<lparr>sku_sequences := sq\<rparr>"
    "EL_Sequence x = last_seq (wdb w) skuID + 1"
    "map_of sq = (map_of (sku_sequences (wdb w)))(skuID \<mapsto> last_seq (wdb w) skuID + 1)" by blast
  then have "wdb w' = (wdb w)\<lparr>event_logs := event_logs (wdb w) @ [x], sku_sequences := sq,
      uuid_n := Suc (uuid_n (wdb w))\<rparr>"
    using insert_event_log_ok [OF ins] by simp
  with sq x show ?thesis unfolding appended_def by blast
qed

lemma workerAppendEvent_Append:
  "workerAppendEvent U now skuID ty pl w = (Inr (), w') \<longleftrightarrow>
   (\<exists>e. Append U now skuID ty pl w = (Inr e, w'))"
  by (auto simp: workerAppendEvent_def Append_def workerNextSequence_eq act_success Let_def)

lemma seq_inv_no_clash:
  "seq_inv d \<Longrightarrow> e \<in> set (event_logs d) \<Longrightarrow> EL_Sequence e \<le> last_seq d (EL_SKUID e)"
proof -
  assume inv: "seq_inv d" and e: "e \<in> set (event_logs d)"
  then have "EL_Sequence e \<in> set (map EL_Sequence (sku_events d (EL_SKUID e)))"
    by (auto simp: sku_events_def)
  with inv show ?thesis by (auto simp: seq_inv_def)
qed

lemma Append_runs:
  assumes "faults w = []" and inv: "seq_inv (wdb w)" and "uuid_fresh U (wdb w)"
  shows "\<exists>x w'. Append U now skuID ty pl w = (Inr x, w') \<and> faults w' = []"
proof -
  obtain w1 where w1: "nextSequence skuID w = (Inr (last_seq (wdb w) skuID + 1), w1)"
    "faults w1 = []" "event_logs (wdb w1) = event_logs (wdb w)" "uuid_n (wdb w1) = uuid_n (wdb w)"
    using assms(1) by (cases "map_of (sku_sequences (wdb w)) skuID")
      (simp_all add: nextSequence_def last_seq_def bnd_def act_simps)
  have "List.find (\<lambda>r. EL_ID r = U (uuid_n (wdb w)) \<or> EL_SKUID r = skuID \<and>
          EL_Sequence r = last_seq (wdb w) skuID + 1) (event_logs (wdb w)) = None"
  proof (unfold find_None_iff, clarify)
    fix r assume r: "r \<in> set (event_logs (wdb w))"
      and clash: "EL_ID r = U (uuid_n (wdb w)) \<or> EL_SKUID r = skuID \<and>
          EL_Sequence r = last_seq (wdb w) skuID + 1"
    have "U (uuid_n (wdb w)) \<noteq> EL_ID r" using assms(3) r by (auto simp: uuid_fresh_def)
    with clash seq_inv_no_clash [OF inv r] show False by auto
  qed
  with w1 show ?thesis
    by (simp add: Append_def bnd_def uuid_New_def insert_event_log_def act_simps Let_def)
qed

lemma workerAppendEvent_runs:
  assumes "faults w = []" and "seq_inv (wdb w)" and "uuid_fresh U (wdb w)"
  shows "\<exists>x w'. workerAppendEvent U now skuID ty pl w = (Inr x, w') \<and> faults w' = []"
  using Append_runs [OF assms, of now skuID ty pl] workerAppendEvent_Append by blast

interpretation repo_events: event_sink U "Append U now" for U now
  by unfold_locales (auto intro: Append_ok Append_runs)

interpretation worker_events: event_sink U "workerAppendEvent U now" for U now
  by unfold_locales
    (metis Append_ok workerAppendEvent_Append old.unit.exhaust, rule workerAppendEvent_runs)

subsection \<open>Replaying a log\<close>

definition all_ws :: "WorkflowStatus list" where
  "all_ws = [WorkflowDraft, WorkflowSubmitted, WorkflowAuditAPending, WorkflowAuditAApproved,
     WorkflowAuditARejected, WorkflowAuditBPending, WorkflowAuditBApproved, WorkflowAuditBRejected,
     WorkflowApprovedPendingVerify, WorkflowApproved, WorkflowDistributionRunning,
     WorkflowCompleted, WorkflowBlocked, WorkflowCancelled]"

definition ws_parse :: "string \<Rightarrow> WorkflowStatus option" where
  "ws_parse s = List.find (\<lambda>t. ws_string t = s) all_ws"

lemma ws_parse_string [simp]: "ws_parse (ws_string s) = Some s"
  by (cases s) (simp_all add: ws_parse_def all_ws_def)

text \<open>
  What the log says about a SKU's status: start from Draft, let every
  \<^verbatim>\<open>sku.status_changed\<close> event move the status, and give up on an event whose \<^verbatim>\<open>from\<close> is not the
  status reached so far or whose step the policy does not allow.
\<close>

definition change_of :: "EventLog \<Rightarrow> (WorkflowStatus \<times> WorkflowStatus) option" where
  "change_of e = (case (map_of (EL_Payload e) ''from'', map_of (EL_Payload e) ''to'') of
     (Some (JStr f), Some (JStr t)) \<Rightarrow>
       (case (ws_parse f, ws_parse t) of (Some a, Some b) \<Rightarrow> Some (a, b) | _ \<Rightarrow> None)
   | _ \<Rightarrow> None)"

fun replay :: "WorkflowStatus \<Rightarrow> EventLog list \<Rightarrow> WorkflowStatus option" where
  "replay s [] = Some s"
| "replay s (e # es) =
     (if EL_EventType e = EventSKUStatusChanged then
        (case change_of e of
           Some (a, b) \<Rightarrow> if a = s \<and> CanTransition a b then replay b es else None
         | None \<Rightarrow> None)
      else replay s es)"

lemma replay_append:
  "replay s (es @ fs) = (case replay s es of None \<Rightarrow> None | Some t \<Rightarrow> replay t fs)"
  by (induction es arbitrary: s) (auto split: option.splits)

lemma replay_other [simp]: "EL_EventType e \<noteq> EventSKUStatusChanged \<Longrightarrow> replay s [e] = Some s"
  by simp

lemma replay_path:
  "replay s es = Some t \<Longrightarrow> \<exists>ts. ws_path s ts \<and> last (s # ts) = t"
proof (induction es arbitrary: s)
  case Nil
  then have "ws_path s [] \<and> last (s # []) = t" by simp
  then show ?case by blast
next
  case (Cons e es)
  show ?case
  proof (cases "EL_EventType e = EventSKUStatusChanged")
    case True
    with Cons.prems obtain b where "CanTransition s b" and "replay b es = Some t"
      by (auto split: option.splits if_splits)
    with Cons.IH obtain ts where "ws_path s (b # ts)" and "last (s # b # ts) = t"
      by (metis last_ConsR list.distinct(1) ws_path.simps(2))
    then show ?thesis by blast
  qed (use Cons in auto)
qed

end
