(* ===== verification/Kernel_Store.thy ===== *)
theory Kernel_Store
  imports Event_Log
begin

section \<open>The kernel's repositories\<close>

text \<open>
  The repositories of \<^verbatim>\<open>src/repo/mysql\<close> for the distribution kernel: \<^verbatim>\<open>sku.go\<close>,
  \<^verbatim>\<open>asset_version.go\<close>, \<^verbatim>\<open>audit.go\<close>, \<^verbatim>\<open>job.go\<close>, \<^verbatim>\<open>incident.go\<close>, \<^verbatim>\<open>policy.go\<close>. One SQL statement
  is one \<open>stmt\<close>; keys declared UNIQUE in the schema make an INSERT fail or (INSERT IGNORE) do
  nothing. Times are stored as given, and rows equal under ORDER BY keep insertion order.
\<close>

definition limit_offset :: "int \<Rightarrow> int \<Rightarrow> 'a list \<Rightarrow> 'a list" where
  "limit_offset pageSize0 page0 rs =
     (let pageSize = (if pageSize0 \<le> 0 then 20 else pageSize0);
          page = (if page0 \<le> 0 then 1 else page0)
      in take (nat pageSize) (drop (nat ((page - 1) * pageSize)) rs))"

subsection \<open>skus\<close>

definition SKURepo_GetByID :: "id \<Rightarrow> SKU option kact" where
  "SKURepo_GetByID i = query (\<lambda>d. List.find (\<lambda>s. SKU_ID s = i) (skus d))"

definition SKURepo_GetBySKUCode :: "string \<Rightarrow> SKU option kact" where
  "SKURepo_GetBySKUCode c = query (\<lambda>d. List.find (\<lambda>s. SKU_SKUCode s = c) (skus d))"

definition SKURepo_List :: "string option \<Rightarrow> int \<Rightarrow> int \<Rightarrow> SKU list kact" where
  "SKURepo_List st page pageSize = query (\<lambda>d.
     limit_offset pageSize page (rev (sort_key SKU_ID
       (filter (\<lambda>s. st = None \<or> st = Some (ws_string (SKU_WorkflowStatus s))) (skus d)))))"

definition SKURepo_Create :: "time \<Rightarrow> string \<Rightarrow> string \<Rightarrow> id kact" where
  "SKURepo_Create now code name = stmt (\<lambda>d.
     if List.find (\<lambda>s. SKU_SKUCode s = code) (skus d) \<noteq> None then Inl ErrDuplicateKey
     else Inr (next_sku d, d\<lparr>
       skus := skus d @ [\<lparr>SKU_ID = next_sku d, SKU_SKUCode = code, SKU_Name = name,
         SKU_CurrentVerID = None, SKU_WorkflowStatus = WorkflowDraft, SKU_CreatedAt = now,
         SKU_UpdatedAt = now\<rparr>],
       next_sku := next_sku d + 1\<rparr>))"

definition SKURepo_UpdateWorkflowStatus :: "time \<Rightarrow> id \<Rightarrow> WorkflowStatus \<Rightarrow> unit kact" where
  "SKURepo_UpdateWorkflowStatus now i st = exec (\<lambda>d. d\<lparr>skus :=
     row_upd (\<lambda>s. SKU_ID s = i) (\<lambda>s. s\<lparr>SKU_WorkflowStatus := st, SKU_UpdatedAt := now\<rparr>) (skus d)\<rparr>)"

definition SKURepo_SetCurrentVersion :: "time \<Rightarrow> id \<Rightarrow> id \<Rightarrow> unit kact" where
  "SKURepo_SetCurrentVersion now i ver = exec (\<lambda>d. d\<lparr>skus :=
     row_upd (\<lambda>s. SKU_ID s = i) (\<lambda>s. s\<lparr>SKU_CurrentVerID := Some ver, SKU_UpdatedAt := now\<rparr>)
       (skus d)\<rparr>)"

definition CASWorkflowStatus ::
  "time \<Rightarrow> id \<Rightarrow> WorkflowStatus \<Rightarrow> WorkflowStatus \<Rightarrow> bool kact" where
  "CASWorkflowStatus now i expected nxt = stmt (\<lambda>d.
     let p = (\<lambda>s. SKU_ID s = i \<and> SKU_WorkflowStatus s = expected) in
     Inr (length (filter p (skus d)) = 1,
       d\<lparr>skus := row_upd p (\<lambda>s. s\<lparr>SKU_WorkflowStatus := nxt, SKU_UpdatedAt := now\<rparr>) (skus d)\<rparr>))"

subsection \<open>asset_versions\<close>

definition AssetVersionRepo_GetByID :: "id \<Rightarrow> AssetVersion option kact" where
  "AssetVersionRepo_GetByID i = query (\<lambda>d. List.find (\<lambda>v. AV_ID v = i) (asset_versions d))"

text \<open>
  The SELECT of \<^verbatim>\<open>GetCurrentForSKU\<close> joins \<^verbatim>\<open>asset_versions\<close> with \<^verbatim>\<open>skus\<close> and lists the columns
  \<^verbatim>\<open>id\<close> and \<^verbatim>\<open>created_at\<close>, which both tables have, without a table name. What the server does with
  such a column is the parameter \<open>resolves\<close>: \<open>False\<close> for a server that rejects the statement (MySQL's
  error 1052), \<open>True\<close> for one that takes the column of the first table.
\<close>

definition GetCurrentForSKU :: "bool \<Rightarrow> id \<Rightarrow> AssetVersion option kact" where
  "GetCurrentForSKU resolves skuID = stmt (\<lambda>d.
     if \<not> resolves then Inl ErrDB
     else Inr (List.find (\<lambda>v. \<exists>s \<in> set (skus d). SKU_ID s = skuID \<and>
                 SKU_CurrentVerID s = Some (AV_ID v)) (asset_versions d), d))"

definition AssetVersionRepo_Create :: "time \<Rightarrow> AssetVersion \<Rightarrow> id kact" where
  "AssetVersionRepo_Create now ver = stmt (\<lambda>d. Inr (next_version d, d\<lparr>
     asset_versions := asset_versions d @
       [ver\<lparr>AV_ID := next_version d, AV_AuditStatus := AuditStatusUnreviewed,
            AV_ExistsState := ExistsStateExists, AV_CreatedAt := now\<rparr>],
     next_version := next_version d + 1\<rparr>))"

definition UpdateHashState :: "id \<Rightarrow> HashState \<Rightarrow> unit kact" where
  "UpdateHashState i st = exec (\<lambda>d. d\<lparr>asset_versions :=
     row_upd (\<lambda>v. AV_ID v = i) (\<lambda>v. v\<lparr>AV_HashState := st\<rparr>) (asset_versions d)\<rparr>)"

definition UpdateExistsState :: "id \<Rightarrow> ExistsState \<Rightarrow> unit kact" where
  "UpdateExistsState i st = exec (\<lambda>d. d\<lparr>asset_versions :=
     row_upd (\<lambda>v. AV_ID v = i) (\<lambda>v. v\<lparr>AV_ExistsState := st\<rparr>) (asset_versions d)\<rparr>)"

definition MarkStable :: "id \<Rightarrow> unit kact" where
  "MarkStable i = exec (\<lambda>d. d\<lparr>asset_versions :=
     row_upd (\<lambda>v. AV_ID v = i) (\<lambda>v. v\<lparr>AV_IsStable := True, AV_HashState := HashStateReady\<rparr>)
       (asset_versions d)\<rparr>)"

subsection \<open>audit_actions\<close>

definition GetByActionID :: "string \<Rightarrow> AuditAction option kact" where
  "GetByActionID a = query (\<lambda>d. List.find (\<lambda>x. AA_ActionID x = a) (audit_actions d))"

text \<open>The INSERT reports which unique key it hit: \<open>ErrDuplicateKey\<close> is \<^verbatim>\<open>uk_action_id\<close>.\<close>

definition insert_audit_action :: "time \<Rightarrow> AuditAction \<Rightarrow> unit kact" where
  "insert_audit_action now a = stmt (\<lambda>d.
     if List.find (\<lambda>x. AA_ActionID x = AA_ActionID a) (audit_actions d) \<noteq> None
     then Inl ErrDuplicateKey
     else if List.find (\<lambda>x. AA_AssetVerID x = AA_AssetVerID a \<and> AA_Stage x = AA_Stage a)
               (audit_actions d) \<noteq> None
     then Inl ErrDuplicateAuditStage
     else Inr ((), d\<lparr>audit_actions := audit_actions d @ [a\<lparr>AA_ID := next_action d, AA_CreatedAt := now\<rparr>],
                     next_action := next_action d + 1\<rparr>))"

definition InsertIdempotent :: "time \<Rightarrow> AuditAction \<Rightarrow> (AuditAction option \<times> bool) kact" where
  "InsertIdempotent now a w =
     (case insert_audit_action now a w of
        (Inr _, w1) \<Rightarrow>
          bnd (GetByActionID (AA_ActionID a)) (\<lambda>inserted. case inserted of
             None \<Rightarrow> throw ErrDB
           | Some x \<Rightarrow> ret (Some x, True)) w1
      | (Inl e, w1) \<Rightarrow>
          (if e = ErrDuplicateKey then bnd (GetByActionID (AA_ActionID a)) (\<lambda>x. ret (x, False)) w1
           else if e = ErrDuplicateAuditStage then (Inl ErrDuplicateAuditStage, w1)
           else (Inl e, w1)))"

subsection \<open>distribution_jobs and job_attempts\<close>

abbreviation upd_job :: "id \<Rightarrow> (DistributionJob \<Rightarrow> DistributionJob) \<Rightarrow> kdb \<Rightarrow> kdb" where
  "upd_job i f d \<equiv> d\<lparr>distribution_jobs := row_upd (\<lambda>j. Job_ID j = i) f (distribution_jobs d)\<rparr>"

definition insert_ignore_job :: "time \<Rightarrow> DistributionJob \<Rightarrow> unit kact" where
  "insert_ignore_job now j = exec (\<lambda>d.
     if List.find (\<lambda>x. Job_IdempotentKey x = Job_IdempotentKey j) (distribution_jobs d) \<noteq> None then d
     else d\<lparr>distribution_jobs := distribution_jobs d @
              [j\<lparr>Job_ID := next_job d, Job_VerifyStatus := VerifyStatusNotRequested,
                 Job_RetryCount := 0, Job_CurrentAttemptID := None, Job_NextRetryAt := None,
                 Job_CreatedAt := now, Job_UpdatedAt := now\<rparr>],
            next_job := next_job d + 1\<rparr>)"

definition CreateBatch :: "time \<Rightarrow> DistributionJob list \<Rightarrow> unit kact" where
  "CreateBatch now jobs = for_each (insert_ignore_job now) jobs"

definition JobRepo_GetByID :: "id \<Rightarrow> DistributionJob option kact" where
  "JobRepo_GetByID i = query (\<lambda>d. List.find (\<lambda>j. Job_ID j = i) (distribution_jobs d))"

definition ListBySKUID :: "id \<Rightarrow> DistributionJob list kact" where
  "ListBySKUID skuID = query (\<lambda>d.
     sort_key Job_CreatedAt (filter (\<lambda>j. Job_SKUID j = skuID) (distribution_jobs d)))"

definition insert_job_attempt :: "JobAttempt \<Rightarrow> unit kact" where
  "insert_job_attempt a = stmt (\<lambda>d.
     if List.find (\<lambda>x. At_ID x = At_ID a) (job_attempts d) \<noteq> None then Inl ErrDuplicateKey
     else Inr ((), d\<lparr>job_attempts := job_attempts d @ [a]\<rparr>))"

definition oldest_pending :: "kdb \<Rightarrow> DistributionJob option" where
  "oldest_pending d =
     (case sort_key Job_CreatedAt
             (filter (\<lambda>j. Job_Status j = JobStatusPending) (distribution_jobs d)) of
        [] \<Rightarrow> None | j # _ \<Rightarrow> Some j)"

text \<open>
  \<^verbatim>\<open>PullPending\<close> opens its own transaction. With no Pending job it returns before the commit and the
  deferred rollback ends an empty transaction. Its event is numbered by \<^verbatim>\<open>nextSequence\<close> and inserted
  by hand, as in \<^verbatim>\<open>Append\<close>.
\<close>

definition pull_job :: "uuid_source \<Rightarrow> time \<Rightarrow> string \<Rightarrow> time \<Rightarrow> DistributionJob \<Rightarrow>
    (DistributionJob \<times> JobAttempt) option kact" where
  "pull_job U now agentID leaseDuration job =
     bnd (uuid_New U) (\<lambda>attemptID.
     let leaseExpiry = now + leaseDuration;
         attempt = \<lparr>At_ID = attemptID, At_JobID = Job_ID job, At_AgentID = agentID,
           At_LeaseExpiresAt = leaseExpiry, At_HeartbeatAt = None, At_AckedAt = None,
           At_CreatedAt = now\<rparr> in
     bnd (insert_job_attempt attempt) (\<lambda>_.
     bnd (exec (upd_job (Job_ID job) (\<lambda>j. j\<lparr>Job_Status := JobStatusRunning,
            Job_CurrentAttemptID := Some attemptID, Job_UpdatedAt := now\<rparr>))) (\<lambda>_.
     bnd (nextSequence (Job_SKUID job)) (\<lambda>seq.
     bnd (uuid_New U) (\<lambda>eventID.
     bnd (insert_event_log \<lparr>EL_ID = eventID, EL_SKUID = Job_SKUID job, EL_Sequence = seq,
            EL_EventType = EventJobRunning,
            EL_Payload = [(''job_id'', JInt (Job_ID job)), (''attempt_id'', JStr attemptID),
              (''agent_id'', JStr agentID), (''target'', JStr (Job_Target job))],
            EL_CreatedAt = now\<rparr>) (\<lambda>_.
     ret (Some (job\<lparr>Job_Status := JobStatusRunning, Job_CurrentAttemptID := Some attemptID\<rparr>,
                attempt))))))))"

definition PullPending :: "uuid_source \<Rightarrow> time \<Rightarrow> string \<Rightarrow> time \<Rightarrow>
    (DistributionJob \<times> JobAttempt) option kact" where
  "PullPending U now agentID leaseDuration = RunInTx (
     bnd (query oldest_pending) (\<lambda>r. case r of
       None \<Rightarrow> ret None
     | Some job \<Rightarrow> pull_job U now agentID leaseDuration job))"

definition JobRepo_UpdateStatus :: "time \<Rightarrow> id \<Rightarrow> JobStatus \<Rightarrow> unit kact" where
  "JobRepo_UpdateStatus now i st =
     exec (upd_job i (\<lambda>j. j\<lparr>Job_Status := st, Job_UpdatedAt := now\<rparr>))"

definition UpdateVerifyStatus :: "time \<Rightarrow> id \<Rightarrow> VerifyStatus \<Rightarrow> unit kact" where
  "UpdateVerifyStatus now i st =
     exec (upd_job i (\<lambda>j. j\<lparr>Job_VerifyStatus := st, Job_UpdatedAt := now\<rparr>))"

definition SetCurrentAttempt :: "time \<Rightarrow> id \<Rightarrow> string \<Rightarrow> unit kact" where
  "SetCurrentAttempt now i a =
     exec (upd_job i (\<lambda>j. j\<lparr>Job_CurrentAttemptID := Some a, Job_UpdatedAt := now\<rparr>))"

definition GetAttemptByID :: "string \<Rightarrow> JobAttempt option kact" where
  "GetAttemptByID a = query (\<lambda>d. List.find (\<lambda>x. At_ID x = a) (job_attempts d))"

definition RenewLease :: "time \<Rightarrow> string \<Rightarrow> time \<Rightarrow> unit kact" where
  "RenewLease now a newExpiry = exec (\<lambda>d. d\<lparr>job_attempts :=
     row_upd (\<lambda>x. At_ID x = a) (\<lambda>x. x\<lparr>At_LeaseExpiresAt := newExpiry, At_HeartbeatAt := Some now\<rparr>)
       (job_attempts d)\<rparr>)"

definition MarkAttemptAcked :: "time \<Rightarrow> string \<Rightarrow> unit kact" where
  "MarkAttemptAcked now a = exec (\<lambda>d. d\<lparr>job_attempts :=
     row_upd (\<lambda>x. At_ID x = a) (\<lambda>x. x\<lparr>At_AckedAt := Some now\<rparr>) (job_attempts d)\<rparr>)"

definition FindExpiredLeases :: "DistributionJob list kact" where
  "FindExpiredLeases = query (\<lambda>d.
     filter (\<lambda>j. Job_Status j = JobStatusRunning \<and> Job_CurrentAttemptID j \<noteq> None)
       (distribution_jobs d))"

definition FindExpiredLeasesJoined :: "time \<Rightarrow> DistributionJob list kact" where
  "FindExpiredLeasesJoined now = query (\<lambda>d.
     filter (\<lambda>j. Job_Status j = JobStatusRunning \<and>
         list_ex (\<lambda>a. Job_CurrentAttemptID j = Some (At_ID a) \<and> At_LeaseExpiresAt a < now)
           (job_attempts d))
       (distribution_jobs d))"

definition MarkStale :: "time \<Rightarrow> id \<Rightarrow> unit kact" where
  "MarkStale now i = exec (upd_job i (\<lambda>j. j\<lparr>Job_Status := JobStatusStale,
     Job_CurrentAttemptID := None, Job_UpdatedAt := now\<rparr>))"

definition FindRetryable :: "time \<Rightarrow> DistributionJob list kact" where
  "FindRetryable now = query (\<lambda>d. sort_key Job_CreatedAt
     (filter (\<lambda>j. Job_Status j \<in> {JobStatusFail, JobStatusStale} \<and> Job_RetryCount j < Job_MaxRetries j \<and>
        (case Job_NextRetryAt j of None \<Rightarrow> True | Some t \<Rightarrow> t \<le> now))
       (distribution_jobs d)))"

definition IncrementRetry :: "time \<Rightarrow> id \<Rightarrow> time \<Rightarrow> unit kact" where
  "IncrementRetry now i nextRetryAt = exec (upd_job i (\<lambda>j. j\<lparr>Job_Status := JobStatusPending,
     Job_RetryCount := Job_RetryCount j + 1, Job_NextRetryAt := Some nextRetryAt,
     Job_UpdatedAt := now\<rparr>))"

subsection \<open>incidents\<close>

abbreviation upd_incident :: "id \<Rightarrow> (Incident \<Rightarrow> Incident) \<Rightarrow> kdb \<Rightarrow> kdb" where
  "upd_incident i f d \<equiv> d\<lparr>incidents := row_upd (\<lambda>x. Inc_ID x = i) f (incidents d)\<rparr>"

definition IncidentRepo_Create :: "time \<Rightarrow> id \<Rightarrow> id option \<Rightarrow> string \<Rightarrow> id kact" where
  "IncidentRepo_Create now skuID jobID reason = stmt (\<lambda>d. Inr (next_incident d, d\<lparr>
     incidents := incidents d @ [\<lparr>Inc_ID = next_incident d, Inc_SKUID = skuID, Inc_JobID = jobID,
       Inc_Status = IncidentStatusOpen, Inc_Reason = reason, Inc_AssigneeID = None,
       Inc_ResolvedBy = None, Inc_ResolvedAt = None, Inc_ClosedBy = None, Inc_ClosedAt = None,
       Inc_CloseReason = None, Inc_CreatedAt = now, Inc_UpdatedAt = now\<rparr>],
     next_incident := next_incident d + 1\<rparr>))"

definition IncidentRepo_GetByID :: "id \<Rightarrow> Incident option kact" where
  "IncidentRepo_GetByID i = query (\<lambda>d. List.find (\<lambda>x. Inc_ID x = i) (incidents d))"

definition IncidentRepo_List ::
  "IncidentStatus option \<Rightarrow> id option \<Rightarrow> int \<Rightarrow> int \<Rightarrow> Incident list kact" where
  "IncidentRepo_List st skuID page pageSize = query (\<lambda>d.
     limit_offset pageSize page (sort_key (\<lambda>x. - Inc_CreatedAt x)
       (filter (\<lambda>x. (st = None \<or> st = Some (Inc_Status x)) \<and>
                    (skuID = None \<or> skuID = Some (Inc_SKUID x))) (incidents d))))"

definition IncidentRepo_UpdateStatus :: "time \<Rightarrow> id \<Rightarrow> IncidentStatus \<Rightarrow> unit kact" where
  "IncidentRepo_UpdateStatus now i st =
     exec (upd_incident i (\<lambda>x. x\<lparr>Inc_Status := st, Inc_UpdatedAt := now\<rparr>))"

definition IncidentRepo_Assign :: "time \<Rightarrow> id \<Rightarrow> id \<Rightarrow> unit kact" where
  "IncidentRepo_Assign now i assigneeID = exec (upd_incident i (\<lambda>x. x\<lparr>
     Inc_AssigneeID := Some assigneeID, Inc_Status := IncidentStatusInProgress,
     Inc_UpdatedAt := now\<rparr>))"

definition IncidentRepo_Resolve :: "time \<Rightarrow> id \<Rightarrow> id \<Rightarrow> unit kact" where
  "IncidentRepo_Resolve now i resolverID = exec (upd_incident i (\<lambda>x. x\<lparr>
     Inc_Status := IncidentStatusResolved, Inc_ResolvedBy := Some resolverID,
     Inc_ResolvedAt := Some now, Inc_UpdatedAt := now\<rparr>))"

definition IncidentRepo_Close :: "time \<Rightarrow> id \<Rightarrow> id \<Rightarrow> string \<Rightarrow> unit kact" where
  "IncidentRepo_Close now i closerID reason = exec (upd_incident i (\<lambda>x. x\<lparr>
     Inc_Status := IncidentStatusClosed, Inc_ClosedBy := Some closerID, Inc_ClosedAt := Some now,
     Inc_CloseReason := Some reason, Inc_UpdatedAt := now\<rparr>))"

subsection \<open>system_policies\<close>

definition PolicyRepo_GetByID :: "id \<Rightarrow> SystemPolicy option kact" where
  "PolicyRepo_GetByID i = query (\<lambda>d. List.find (\<lambda>p. Pol_ID p = i) (system_policies d))"

definition PolicyRepo_GetByKey :: "string \<Rightarrow> SystemPolicy option kact" where
  "PolicyRepo_GetByKey k = query (\<lambda>d. List.find (\<lambda>p. Pol_Key p = k) (system_policies d))"

definition PolicyRepo_Upsert :: "time \<Rightarrow> string \<Rightarrow> string \<Rightarrow> id \<Rightarrow> unit kact" where
  "PolicyRepo_Upsert now k v updatedBy = exec (\<lambda>d.
     if List.find (\<lambda>p. Pol_Key p = k) (system_policies d) = None
     then d\<lparr>system_policies := system_policies d @ [\<lparr>Pol_ID = next_policy d, Pol_Key = k,
              Pol_Value = v, Pol_Version = 1, Pol_UpdatedBy = updatedBy, Pol_UpdatedAt = now\<rparr>],
            next_policy := next_policy d + 1\<rparr>
     else d\<lparr>system_policies := row_upd (\<lambda>p. Pol_Key p = k)
              (\<lambda>p. p\<lparr>Pol_Value := v, Pol_Version := Pol_Version p + 1, Pol_UpdatedBy := updatedBy,
                     Pol_UpdatedAt := now\<rparr>) (system_policies d)\<rparr>)"

end
