(* ===== verification/Kernel_Invariant.thy ===== *)
theory Kernel_Invariant
  imports Kernel_Store
begin

section \<open>The kernel's database invariant\<close>

text \<open>
  What every committed state of the kernel's tables satisfies, and what each repository operation
  does to it. \<open>kinv N opn\<close> says: event numbers are gap-free; every SKU's log replays to its status;
  keys are unique; rows refer to SKUs that exist; the current attempt of a job is an attempt of that
  job, and a Running job has one. Inside a transaction a SKU's row may already have moved while its
  event is not yet written: \<open>opn\<close> maps such a SKU to the status its log says and the status its row
  has. \<open>N\<close> is a bound below \<open>next_sku\<close>, so that ids below it stay valid.
\<close>

type_synonym open_skus = "id \<rightharpoonup> WorkflowStatus \<times> WorkflowStatus"

definition expected_pair :: "open_skus \<Rightarrow> SKU \<Rightarrow> WorkflowStatus \<times> WorkflowStatus" where
  "expected_pair opn s =
     (case opn (SKU_ID s) of None \<Rightarrow> (SKU_WorkflowStatus s, SKU_WorkflowStatus s) | Some p \<Rightarrow> p)"

definition logged :: "kdb \<Rightarrow> id \<Rightarrow> WorkflowStatus option" where
  "logged d i = replay WorkflowDraft (sku_events d i)"

definition sku_ok :: "open_skus \<Rightarrow> kdb \<Rightarrow> SKU \<Rightarrow> bool" where
  "sku_ok opn d s \<longleftrightarrow> logged d (SKU_ID s) = Some (fst (expected_pair opn s)) \<and>
     SKU_WorkflowStatus s = snd (expected_pair opn s)"

definition sku_inv :: "open_skus \<Rightarrow> kdb \<Rightarrow> bool" where
  "sku_inv opn d \<longleftrightarrow> distinct (map SKU_ID (skus d)) \<and> distinct (map SKU_SKUCode (skus d)) \<and>
     (\<forall>s \<in> set (skus d). SKU_ID s < next_sku d) \<and>
     (\<forall>s \<in> set (skus d). sku_ok opn d s)"

definition ref_inv :: "kdb \<Rightarrow> bool" where
  "ref_inv d \<longleftrightarrow> (\<forall>e \<in> set (event_logs d). EL_SKUID e < next_sku d) \<and>
     (\<forall>j \<in> set (distribution_jobs d). Job_SKUID j < next_sku d) \<and>
     (\<forall>x \<in> set (incidents d). Inc_SKUID x < next_sku d) \<and>
     (\<forall>v \<in> set (asset_versions d). AV_SKUID v < next_sku d)"

definition attempt_ok :: "JobAttempt list \<Rightarrow> DistributionJob \<Rightarrow> bool" where
  "attempt_ok ats j \<longleftrightarrow>
     (\<forall>x. Job_CurrentAttemptID j = Some x \<longrightarrow> (x, Job_ID j) \<in> (\<lambda>a. (At_ID a, At_JobID a)) ` set ats) \<and>
     (Job_Status j = JobStatusRunning \<longrightarrow> Job_CurrentAttemptID j \<noteq> None)"

definition job_inv :: "kdb \<Rightarrow> bool" where
  "job_inv d \<longleftrightarrow> distinct (map Job_ID (distribution_jobs d)) \<and>
     distinct (map Job_IdempotentKey (distribution_jobs d)) \<and>
     (\<forall>j \<in> set (distribution_jobs d). Job_ID j < next_job d) \<and>
     distinct (map At_ID (job_attempts d)) \<and>
     (\<forall>j \<in> set (distribution_jobs d). attempt_ok (job_attempts d) j)"

definition audit_inv :: "kdb \<Rightarrow> bool" where
  "audit_inv d \<longleftrightarrow> distinct (map AA_ActionID (audit_actions d)) \<and>
     distinct (map (\<lambda>a. (AA_AssetVerID a, AA_Stage a)) (audit_actions d))"

definition kinv :: "id \<Rightarrow> open_skus \<Rightarrow> kdb \<Rightarrow> bool" where
  "kinv N opn d \<longleftrightarrow> seq_inv d \<and> sku_inv opn d \<and> ref_inv d \<and> job_inv d \<and> audit_inv d \<and> N \<le> next_sku d"

lemmas kinv_unfold = kinv_def sku_inv_def sku_ok_def logged_def ref_inv_def job_inv_def audit_inv_def
  seq_inv_def last_seq_def sku_events_def

lemma kinv_mono: "kinv N opn d \<Longrightarrow> M \<le> N \<Longrightarrow> kinv M opn d"
  by (simp add: kinv_def)

lemma kinv_log: "kinv N Map.empty d \<Longrightarrow> s \<in> set (skus d) \<Longrightarrow>
   replay WorkflowDraft (sku_events d (SKU_ID s)) = Some (SKU_WorkflowStatus s)"
  by (simp add: kinv_def sku_inv_def sku_ok_def logged_def expected_pair_def)

lemma kinv_close: "kinv N (opn(i \<mapsto> (b, b))) d \<Longrightarrow> kinv N (opn(i := None)) d"
  by (auto simp: kinv_def sku_inv_def sku_ok_def expected_pair_def split: if_splits)

lemma kinv_close1: "kinv N [i \<mapsto> (b, b)] d \<Longrightarrow> kinv N Map.empty d"
  using kinv_close [of N Map.empty i b d] by simp

text \<open>Nothing but the listed fields matters to the event and SKU parts.\<close>

lemma seq_inv_cong: "event_logs d' = event_logs d \<Longrightarrow> sku_sequences d' = sku_sequences d \<Longrightarrow> seq_inv d' = seq_inv d"
  by (simp add: seq_inv_def sku_events_def last_seq_def)

lemma sku_inv_cong:
  "skus d' = skus d \<Longrightarrow> next_sku d' = next_sku d \<Longrightarrow> event_logs d' = event_logs d \<Longrightarrow> sku_inv opn d' = sku_inv opn d"
  by (simp add: sku_inv_def sku_ok_def logged_def sku_events_def)

subsection \<open>Appending events\<close>

lemma appended_fields:
  assumes "appended i ty pl d d'"
  obtains e where "event_logs d' = event_logs d @ [e]" "EL_SKUID e = i" "EL_EventType e = ty"
    "EL_Payload e = pl" "skus d' = skus d" "next_sku d' = next_sku d"
    "distribution_jobs d' = distribution_jobs d" "job_attempts d' = job_attempts d"
    "next_job d' = next_job d" "audit_actions d' = audit_actions d" "incidents d' = incidents d"
    "asset_versions d' = asset_versions d"
  using assms by (auto simp: appended_def)

lemma sku_events_append:
  "event_logs d' = event_logs d @ [e] \<Longrightarrow>
   sku_events d' i = sku_events d i @ (if EL_SKUID e = i then [e] else [])"
  by (simp add: sku_events_def)

lemma appended_kinv:
  assumes app: "appended i ty pl d d'" and seq: "seq_inv d'" and inv: "kinv N opn d" and i: "i < N"
    and ok: "\<And>s. s \<in> set (skus d) \<Longrightarrow> SKU_ID s = i \<Longrightarrow> sku_ok opn d s \<Longrightarrow> sku_ok opn' d' s"
    and same: "\<And>k. k \<noteq> i \<Longrightarrow> opn' k = opn k"
  shows "kinv N opn' d'"
proof -
  from app obtain e where e: "event_logs d' = event_logs d @ [e]" "EL_SKUID e = i" "EL_EventType e = ty"
    "EL_Payload e = pl" and d': "skus d' = skus d" "next_sku d' = next_sku d"
    "distribution_jobs d' = distribution_jobs d" "job_attempts d' = job_attempts d"
    "next_job d' = next_job d" "audit_actions d' = audit_actions d" "incidents d' = incidents d"
    "asset_versions d' = asset_versions d" by (rule appended_fields)
  have "sku_ok opn' d' s" if "s \<in> set (skus d)" for s
  proof (cases "SKU_ID s = i")
    case True
    with ok that inv show ?thesis by (simp add: kinv_def sku_inv_def)
  next
    case False
    then have "sku_events d' (SKU_ID s) = sku_events d (SKU_ID s)"
      using e by (simp add: sku_events_append)
    moreover have "sku_ok opn d s" using inv that by (simp add: kinv_def sku_inv_def)
    ultimately show ?thesis using same [OF False] by (simp add: sku_ok_def logged_def expected_pair_def)
  qed
  then show ?thesis using inv seq i e d'
    by (auto simp: kinv_def sku_inv_def ref_inv_def job_inv_def audit_inv_def)
qed

text \<open>An event that does not announce a status change leaves every SKU's replay alone.\<close>

lemma appended_other:
  assumes "appended i ty pl d d'" "seq_inv d'" "kinv N opn d" "i < N" "ty \<noteq> EventSKUStatusChanged"
  shows "kinv N opn d'"
proof (rule appended_kinv [OF assms(1-4)])
  fix s assume s: "SKU_ID s = i" "sku_ok opn d s"
  from assms(1) obtain e where "event_logs d' = event_logs d @ [e]" "EL_SKUID e = i" "EL_EventType e = ty"
    by (rule appended_fields)
  then have "replay WorkflowDraft (sku_events d' i) = replay WorkflowDraft (sku_events d i)"
    using assms(5) by (simp add: sku_events_append replay_append split: option.splits)
  with s show "sku_ok opn d' s" by (simp add: sku_ok_def logged_def)
qed simp

text \<open>A status event that continues the log moves the logged status.\<close>

definition says :: "WorkflowStatus \<Rightarrow> WorkflowStatus \<Rightarrow> payload \<Rightarrow> bool" where
  "says a b pl \<longleftrightarrow> map_of pl ''from'' = Some (JStr (ws_string a)) \<and> map_of pl ''to'' = Some (JStr (ws_string b))"

lemma appended_status:
  assumes "appended i EventSKUStatusChanged pl d d'" "seq_inv d'" "kinv N opn d" "i < N"
    and opn: "opn i = Some (a, c)" and ab: "CanTransition a b" "says a b pl"
  shows "kinv N (opn(i \<mapsto> (b, c))) d'"
proof (rule appended_kinv [OF assms(1-4)])
  fix s assume s: "SKU_ID s = i" "sku_ok opn d s"
  from assms(1) obtain e where e: "event_logs d' = event_logs d @ [e]" "EL_SKUID e = i"
    "EL_EventType e = EventSKUStatusChanged" "EL_Payload e = pl" by (rule appended_fields)
  then have "change_of e = Some (a, b)" using ab by (simp add: change_of_def says_def)
  moreover have "replay WorkflowDraft (sku_events d i) = Some a \<and> SKU_WorkflowStatus s = c"
    using s opn by (simp add: sku_ok_def logged_def expected_pair_def)
  ultimately show "sku_ok (opn(i \<mapsto> (b, c))) d' s"
    using e s ab by (simp add: sku_ok_def logged_def expected_pair_def sku_events_append replay_append)
qed simp

text \<open>Both event sinks keep the invariant; the proofs use only their contract.\<close>

context event_sink
begin

lemma append_other:
  assumes "ty \<noteq> EventSKUStatusChanged" "i < N"
  shows "triple (kinv N opn) (append i ty pl) (\<lambda>_. kinv N opn)"
proof (rule tripleI)
  fix w x w' assume "kinv N opn (wdb w)" "append i ty pl w = (Inr x, w')"
  with assms show "kinv N opn (wdb w')"
    by (meson append_ok append_seq_inv appended_other kinv_def)
qed

lemma append_status:
  assumes "CanTransition a b" "says a b pl" "i < N" "opn i = Some (a, c)"
  shows "triple (kinv N opn) (append i EventSKUStatusChanged pl) (\<lambda>_. kinv N (opn(i \<mapsto> (b, c))))"
proof (rule tripleI)
  fix w x w' assume "kinv N opn (wdb w)" "append i EventSKUStatusChanged pl w = (Inr x, w')"
  with assms show "kinv N (opn(i \<mapsto> (b, c))) (wdb w')"
    by (meson append_ok append_seq_inv appended_status kinv_def)
qed

end

subsection \<open>SKU rows\<close>

lemma SKURepo_Create_kinv:
  "triple (kinv N Map.empty) (SKURepo_Create now code name) (\<lambda>i d. kinv (i + 1) Map.empty d \<and> N \<le> i + 1)"
proof -
  have "kinv (next_sku d + 1) Map.empty (d\<lparr>skus := skus d @ [s], next_sku := next_sku d + 1\<rparr>)"
    if inv: "kinv N Map.empty d" and code: "List.find (\<lambda>s. SKU_SKUCode s = code) (skus d) = None"
      and s: "SKU_ID s = next_sku d" "SKU_SKUCode s = code" "SKU_WorkflowStatus s = WorkflowDraft" for d s
  proof -
    have "sku_events d (next_sku d) = []"
      using inv by (fastforce simp: kinv_def ref_inv_def sku_events_def filter_empty_conv)
    moreover have "code \<notin> SKU_SKUCode ` set (skus d)" using code by (auto simp: find_None_iff)
    ultimately show ?thesis using inv s
      by (auto simp: kinv_unfold expected_pair_def)
  qed
  then show ?thesis unfolding SKURepo_Create_def
    by (intro triple_stmt) (auto simp: kinv_def split: if_splits)
qed

lemma kinv_skus_cong:
  assumes inv: "kinv N opn d" and ids: "map SKU_ID ss = map SKU_ID (skus d)"
    and codes: "map SKU_SKUCode ss = map SKU_SKUCode (skus d)" and ok: "\<And>s. s \<in> set ss \<Longrightarrow> sku_ok opn' d s"
  shows "kinv N opn' (d\<lparr>skus := ss\<rparr>)"
proof -
  have "SKU_ID ` set ss = SKU_ID ` set (skus d)" using ids by (metis list.set_map)
  then have "\<forall>s \<in> set ss. SKU_ID s < next_sku d"
    using inv unfolding kinv_def sku_inv_def by (metis imageE image_eqI)
  then show ?thesis using inv ids codes ok by (simp add: kinv_unfold)
qed

lemma sku_ok_cong:
  "SKU_ID s' = SKU_ID s \<Longrightarrow> SKU_WorkflowStatus s' = SKU_WorkflowStatus s \<Longrightarrow> sku_ok opn d s' = sku_ok opn d s"
  by (auto simp: sku_ok_def expected_pair_def split: option.splits)

lemma SetCurrentVersion_kinv:
  "triple (kinv N opn) (SKURepo_SetCurrentVersion now i v) (\<lambda>_. kinv N opn)"
  unfolding SKURepo_SetCurrentVersion_def
proof (rule triple_exec, rule kinv_skus_cong, assumption, goal_cases)
  case (3 d s)
  then obtain s0 where "s0 \<in> set (skus d)" "SKU_ID s = SKU_ID s0" "SKU_WorkflowStatus s = SKU_WorkflowStatus s0"
    by (auto dest!: set_row_updD)
  with 3(1) show ?case using sku_ok_cong [of s s0] by (simp add: kinv_def sku_inv_def)
qed (simp_all add: map_row_upd)

lemma one_row: "distinct (map k xs) \<Longrightarrow> length (filter (\<lambda>x. k x = i \<and> p x) xs) \<le> 1"
proof (induction xs)
  case (Cons x xs)
  then show ?case by (cases "k x = i") (auto simp: filter_empty_conv image_iff)
qed simp

text \<open>
  The compare-and-set: a miss changes nothing, a hit opens the SKU (or moves the row of a SKU that is
  open already).
\<close>

definition cas_open :: "open_skus \<Rightarrow> id \<Rightarrow> WorkflowStatus \<Rightarrow> WorkflowStatus \<Rightarrow> open_skus" where
  "cas_open opn i a b = opn(i \<mapsto> (case opn i of None \<Rightarrow> (a, b) | Some (c, _) \<Rightarrow> (c, b)))"

lemma CASWorkflowStatus_kinv:
  "triple (kinv N opn) (CASWorkflowStatus now i a b)
     (\<lambda>ok. if ok then kinv N (cas_open opn i a b) else kinv N opn)"
proof -
  let ?p = "\<lambda>s. SKU_ID s = i \<and> SKU_WorkflowStatus s = a"
  let ?u = "row_upd ?p (\<lambda>s. s\<lparr>SKU_WorkflowStatus := b, SKU_UpdatedAt := now\<rparr>)"
  have miss: "?u (skus d) = skus d" if "kinv N opn d" "length (filter ?p (skus d)) \<noteq> 1" for d
  proof -
    have "length (filter ?p (skus d)) = 0"
      using that one_row [of SKU_ID "skus d" i "\<lambda>s. SKU_WorkflowStatus s = a"]
      unfolding kinv_def sku_inv_def by linarith
    then show ?thesis by (auto simp: filter_empty_conv intro!: row_upd_none)
  qed
  have hit: "kinv N (cas_open opn i a b) (d\<lparr>skus := ?u (skus d)\<rparr>)"
    if inv: "kinv N opn d" and one: "length (filter ?p (skus d)) = 1" for d
  proof -
    obtain r where r: "r \<in> set (skus d)" "?p r"
      using one filter_empty_conv [of ?p "skus d"] by fastforce
    have "sku_ok (cas_open opn i a b) d s" if "s \<in> set (?u (skus d))" for s
    proof -
      from that obtain s0 where s0: "s0 \<in> set (skus d)"
        "s = (if ?p s0 then s0\<lparr>SKU_WorkflowStatus := b, SKU_UpdatedAt := now\<rparr> else s0)"
        by (auto simp: row_upd_def)
      have "sku_ok opn d s0" using inv s0 by (simp add: kinv_def sku_inv_def)
      moreover have "SKU_ID s0 = i \<Longrightarrow> s0 = r"
        using inv s0 r distinct_key_eq [of SKU_ID "skus d" s0 r] by (simp add: kinv_def sku_inv_def)
      ultimately show ?thesis using s0 r
        by (auto simp: sku_ok_def cas_open_def expected_pair_def split: option.splits)
    qed
    then show ?thesis by (intro kinv_skus_cong [OF inv]) (simp_all add: map_row_upd)
  qed
  show ?thesis unfolding CASWorkflowStatus_def
    by (rule triple_stmt) (auto simp: Let_def miss hit)
qed

subsection \<open>Job rows\<close>

text \<open>An UPDATE of a job that keeps its keys and never makes it Running.\<close>

definition job_tame :: "(DistributionJob \<Rightarrow> DistributionJob) \<Rightarrow> bool" where
  "job_tame f \<longleftrightarrow> (\<forall>j. Job_ID (f j) = Job_ID j \<and> Job_IdempotentKey (f j) = Job_IdempotentKey j \<and>
     Job_SKUID (f j) = Job_SKUID j \<and>
     (Job_CurrentAttemptID (f j) = Job_CurrentAttemptID j \<or> Job_CurrentAttemptID (f j) = None) \<and>
     (Job_Status (f j) = JobStatusRunning \<longrightarrow>
        Job_Status j = JobStatusRunning \<and> Job_CurrentAttemptID (f j) = Job_CurrentAttemptID j))"

lemma job_tame_attempt_ok: "job_tame f \<Longrightarrow> attempt_ok ats j \<Longrightarrow> attempt_ok ats (f j)"
  unfolding job_tame_def attempt_ok_def by (metis option.distinct(1))

lemma kinv_jobs_cong:
  "kinv N opn d \<Longrightarrow> map Job_ID js = map Job_ID (distribution_jobs d) \<Longrightarrow>
   map Job_IdempotentKey js = map Job_IdempotentKey (distribution_jobs d) \<Longrightarrow>
   map Job_SKUID js = map Job_SKUID (distribution_jobs d) \<Longrightarrow>
   (\<And>j. j \<in> set js \<Longrightarrow> attempt_ok (job_attempts d) j) \<Longrightarrow> kinv N opn (d\<lparr>distribution_jobs := js\<rparr>)"
proof -
  assume inv: "kinv N opn d" and maps: "map Job_ID js = map Job_ID (distribution_jobs d)"
    "map Job_IdempotentKey js = map Job_IdempotentKey (distribution_jobs d)"
    "map Job_SKUID js = map Job_SKUID (distribution_jobs d)"
    and ok: "\<And>j. j \<in> set js \<Longrightarrow> attempt_ok (job_attempts d) j"
  have "Job_ID ` set js = Job_ID ` set (distribution_jobs d)"
    and "Job_SKUID ` set js = Job_SKUID ` set (distribution_jobs d)"
    using maps by (metis list.set_map)+
  then have "\<forall>j \<in> set js. Job_ID j < next_job d" "\<forall>j \<in> set js. Job_SKUID j < next_sku d"
    using inv unfolding kinv_def job_inv_def ref_inv_def by (metis imageE image_eqI)+
  then show ?thesis using inv maps ok
    by (simp add: kinv_unfold)
qed

lemma kinv_upd_job:
  assumes "kinv N opn d" and tame: "job_tame f"
  shows "kinv N opn (upd_job i f d)"
proof (rule kinv_jobs_cong [OF assms(1)])
  fix j assume "j \<in> set (row_upd (\<lambda>j. Job_ID j = i) f (distribution_jobs d))"
  then show "attempt_ok (job_attempts d) j"
    using assms job_tame_attempt_ok [OF tame] by (auto simp: kinv_def job_inv_def dest!: set_row_updD)
qed (use tame in \<open>auto simp: job_tame_def intro!: map_row_upd\<close>)

lemma triple_upd_job: "job_tame f \<Longrightarrow> triple (kinv N opn) (exec (upd_job i f)) (\<lambda>_. kinv N opn)"
  by (rule triple_exec) (rule kinv_upd_job)

lemma JobRepo_UpdateStatus_kinv:
  "st \<noteq> JobStatusRunning \<Longrightarrow> triple (kinv N opn) (JobRepo_UpdateStatus now i st) (\<lambda>_. kinv N opn)"
  unfolding JobRepo_UpdateStatus_def by (rule triple_upd_job) (simp add: job_tame_def)

lemma UpdateVerifyStatus_kinv: "triple (kinv N opn) (UpdateVerifyStatus now i st) (\<lambda>_. kinv N opn)"
  unfolding UpdateVerifyStatus_def by (rule triple_upd_job) (simp add: job_tame_def)

lemma MarkStale_kinv: "triple (kinv N opn) (MarkStale now i) (\<lambda>_. kinv N opn)"
  unfolding MarkStale_def by (rule triple_upd_job) (simp add: job_tame_def)

lemma IncrementRetry_kinv: "triple (kinv N opn) (IncrementRetry now i t) (\<lambda>_. kinv N opn)"
  unfolding IncrementRetry_def by (rule triple_upd_job) (simp add: job_tame_def)

lemma insert_ignore_job_kinv:
  assumes "Job_SKUID j < N" "Job_Status j \<noteq> JobStatusRunning"
  shows "triple (kinv N opn) (insert_ignore_job now j) (\<lambda>_. kinv N opn)"
proof -
  have new: "kinv N opn (d\<lparr>distribution_jobs := distribution_jobs d @ [r], next_job := next_job d + 1\<rparr>)"
    if inv: "kinv N opn d"
      and key: "List.find (\<lambda>x. Job_IdempotentKey x = Job_IdempotentKey j) (distribution_jobs d) = None"
      and r: "Job_ID r = next_job d" "Job_IdempotentKey r = Job_IdempotentKey j" "Job_SKUID r = Job_SKUID j"
        "Job_Status r = Job_Status j" "Job_CurrentAttemptID r = None" for d r
  proof -
    have "Job_IdempotentKey j \<notin> Job_IdempotentKey ` set (distribution_jobs d)"
      using key by (auto simp: find_None_iff)
    then show ?thesis using inv r assms
      by (auto simp: kinv_unfold attempt_ok_def)
  qed
  show ?thesis unfolding insert_ignore_job_def
    by (rule triple_exec) (auto intro!: new split: if_splits)
qed

lemma CreateBatch_kinv:
  "(\<And>j. j \<in> set js \<Longrightarrow> Job_SKUID j < N \<and> Job_Status j \<noteq> JobStatusRunning) \<Longrightarrow>
   triple (kinv N opn) (CreateBatch now js) (\<lambda>_. kinv N opn)"
  unfolding CreateBatch_def by (rule triple_for_each) (simp add: insert_ignore_job_kinv)

text \<open>Updates of attempts keep ids and owners.\<close>

lemma kinv_attempts_cong:
  "kinv N opn d \<Longrightarrow> map (\<lambda>a. (At_ID a, At_JobID a)) ats = map (\<lambda>a. (At_ID a, At_JobID a)) (job_attempts d) \<Longrightarrow>
   kinv N opn (d\<lparr>job_attempts := ats\<rparr>)"
proof -
  assume inv: "kinv N opn d"
    and m: "map (\<lambda>a. (At_ID a, At_JobID a)) ats = map (\<lambda>a. (At_ID a, At_JobID a)) (job_attempts d)"
  from m have "map (fst \<circ> (\<lambda>a. (At_ID a, At_JobID a))) ats = map (fst \<circ> (\<lambda>a. (At_ID a, At_JobID a))) (job_attempts d)"
    by (metis map_map)
  then have "map At_ID ats = map At_ID (job_attempts d)" by (simp add: comp_def)
  moreover have "(\<lambda>a. (At_ID a, At_JobID a)) ` set ats = (\<lambda>a. (At_ID a, At_JobID a)) ` set (job_attempts d)"
    using arg_cong [OF m, of set] by simp
  ultimately show ?thesis using inv
    by (simp add: kinv_unfold attempt_ok_def)
qed

lemma RenewLease_kinv: "triple (kinv N opn) (RenewLease now a t) (\<lambda>_. kinv N opn)"
  unfolding RenewLease_def by (rule triple_exec) (auto intro!: kinv_attempts_cong map_row_upd)

lemma MarkAttemptAcked_kinv: "triple (kinv N opn) (MarkAttemptAcked now a) (\<lambda>_. kinv N opn)"
  unfolding MarkAttemptAcked_def by (rule triple_exec) (auto intro!: kinv_attempts_cong map_row_upd)

subsection \<open>Audit actions, versions, incidents, policies\<close>

lemma insert_audit_action_kinv: "triple (kinv N opn) (insert_audit_action now a) (\<lambda>_. kinv N opn)"
proof -
  have "kinv N opn (d\<lparr>audit_actions := audit_actions d @ [a\<lparr>AA_ID := i, AA_CreatedAt := t\<rparr>], next_action := n\<rparr>)"
    if "kinv N opn d" "\<forall>x \<in> set (audit_actions d). AA_ActionID x \<noteq> AA_ActionID a"
      "\<forall>x \<in> set (audit_actions d). \<not> (AA_AssetVerID x = AA_AssetVerID a \<and> AA_Stage x = AA_Stage a)" for d i t n
  proof -
    have "AA_ActionID a \<notin> AA_ActionID ` set (audit_actions d)"
      "(AA_AssetVerID a, AA_Stage a) \<notin> (\<lambda>x. (AA_AssetVerID x, AA_Stage x)) ` set (audit_actions d)"
      using that(2,3) by force+
    with that(1) show ?thesis by (simp add: kinv_unfold)
  qed
  then show ?thesis unfolding insert_audit_action_def
    by (intro triple_stmt) (auto simp: find_None_iff split: if_splits)
qed

lemma kinv_incidents_cong:
  "kinv N opn d \<Longrightarrow> (\<And>x. x \<in> set xs \<Longrightarrow> Inc_SKUID x < next_sku d) \<Longrightarrow>
   kinv N opn (d\<lparr>incidents := xs, next_incident := n\<rparr>)"
  by (simp add: kinv_unfold)

lemma IncidentRepo_Create_kinv:
  "i < N \<Longrightarrow> triple (kinv N opn) (IncidentRepo_Create now i jb reason) (\<lambda>_. kinv N opn)"
  unfolding IncidentRepo_Create_def
proof (rule triple_stmt, clarsimp, rule kinv_incidents_cong, assumption, goal_cases)
  case (1 d x)
  then show ?case by (auto simp: kinv_def ref_inv_def)
qed

lemma kinv_upd_incident:
  "kinv N opn d \<Longrightarrow> (\<And>x. Inc_SKUID (f x) = Inc_SKUID x) \<Longrightarrow> kinv N opn (upd_incident i f d)"
  using kinv_incidents_cong [of N opn d "row_upd (\<lambda>x. Inc_ID x = i) f (incidents d)" "next_incident d"]
  by (fastforce simp: kinv_def ref_inv_def dest!: set_row_updD)

lemma AssetVersionRepo_Create_kinv:
  "AV_SKUID v < N \<Longrightarrow> triple (kinv N opn) (AssetVersionRepo_Create now v) (\<lambda>_. kinv N opn)"
  unfolding AssetVersionRepo_Create_def
  by (rule triple_stmt)
    (auto simp: kinv_unfold)

lemma kinv_policies [simp]:
  "kinv N opn (d\<lparr>system_policies := ps\<rparr>) = kinv N opn d" "kinv N opn (d\<lparr>next_policy := n\<rparr>) = kinv N opn d"
  by (simp_all add: kinv_unfold)

lemma PolicyRepo_Upsert_kinv: "keeps (kinv N opn) (PolicyRepo_Upsert now k v u)"
  unfolding PolicyRepo_Upsert_def by (rule keeps_exec) simp

subsection \<open>Small databases\<close>

text \<open>The empty database, and one with a SKU in Draft: the concrete inputs of the examples.\<close>

definition empty_kdb :: kdb where
  "empty_kdb = \<lparr>skus = [], asset_versions = [], audit_actions = [], distribution_jobs = [],
     job_attempts = [], event_logs = [], sku_sequences = [], incidents = [], system_policies = [],
     next_sku = 1, next_version = 1, next_action = 1, next_job = 1, next_incident = 1,
     next_policy = 1, uuid_n = 0\<rparr>"

definition draft_sku :: SKU where
  "draft_sku = \<lparr>SKU_ID = 1, SKU_SKUCode = ''A-1'', SKU_Name = ''Lamp'', SKU_CurrentVerID = None,
     SKU_WorkflowStatus = WorkflowDraft, SKU_CreatedAt = 0, SKU_UpdatedAt = 0\<rparr>"

definition draft_kdb :: kdb where
  "draft_kdb = empty_kdb\<lparr>skus := [draft_sku], next_sku := 2\<rparr>"

definition quiet :: "kdb \<Rightarrow> kworld" where
  "quiet d = \<lparr>wdb = d, faults = []\<rparr>"

lemma quiet_simps [simp]: "wdb (quiet d) = d" "faults (quiet d) = []"
  by (simp_all add: quiet_def)

lemma empty_kdb_kinv: "kinv 1 Map.empty empty_kdb"
  by (simp add: empty_kdb_def kinv_unfold)

lemma draft_kdb_kinv: "kinv 2 Map.empty draft_kdb"
  by (simp add: draft_kdb_def draft_sku_def empty_kdb_def kinv_unfold expected_pair_def)

lemma draft_kdb_fresh: "uuid_fresh U draft_kdb"
  by (simp add: draft_kdb_def empty_kdb_def uuid_fresh_def)

text \<open>A SKU waiting for its second audit, with a stable current version and one distribution target.\<close>

definition status_event :: "nat \<Rightarrow> WorkflowStatus \<Rightarrow> WorkflowStatus \<Rightarrow> EventLog" where
  "status_event n a b = \<lparr>EL_ID = replicate n CHR ''e'', EL_SKUID = 1, EL_Sequence = int n,
     EL_EventType = EventSKUStatusChanged,
     EL_Payload = [(''from'', JStr (ws_string a)), (''to'', JStr (ws_string b))], EL_CreatedAt = 0\<rparr>"

definition stable_version :: AssetVersion where
  "stable_version = \<lparr>AV_ID = 1, AV_SKUID = 1, AV_VersionNum = 1, AV_WholeHash = ''h'',
     AV_HeadChunkHash = None, AV_TailChunkHash = None, AV_FileSizeBytes = 10, AV_IsStable = True,
     AV_PreviewURL = None, AV_HashState = HashStateReady, AV_AuditStatus = AuditStatusUnreviewed,
     AV_ExistsState = ExistsStateExists, AV_CreatedAt = 0\<rparr>"

definition targets_policy :: SystemPolicy where
  "targets_policy = \<lparr>Pol_ID = 1, Pol_Key = ''distribution_targets'',
     Pol_Value = [CHR 0x5B, CHR 0x22, CHR ''w'', CHR 0x22, CHR 0x5D], Pol_Version = 1, Pol_UpdatedBy = 1,
     Pol_UpdatedAt = 0\<rparr>"

definition audit_kdb :: kdb where
  "audit_kdb = empty_kdb\<lparr>
     skus := [draft_sku\<lparr>SKU_CurrentVerID := Some 1, SKU_WorkflowStatus := WorkflowAuditBPending\<rparr>], next_sku := 2,
     asset_versions := [stable_version], next_version := 2, system_policies := [targets_policy], next_policy := 2,
     event_logs := [status_event 1 WorkflowDraft WorkflowSubmitted,
       status_event 2 WorkflowSubmitted WorkflowAuditAPending,
       status_event 3 WorkflowAuditAPending WorkflowAuditAApproved,
       status_event 4 WorkflowAuditAApproved WorkflowAuditBPending],
     sku_sequences := [(1, 4)]\<rparr>"

definition example_uuid :: uuid_source where
  "example_uuid n = CHR ''u'' # replicate n CHR ''-''"

lemma example_uuid_inj: "inj example_uuid"
  by (auto intro!: injI simp: example_uuid_def)

lemma audit_kdb_log:
  "replay WorkflowDraft (event_logs audit_kdb) = Some WorkflowAuditBPending"
  by (simp add: audit_kdb_def status_event_def change_of_def policy_simps del: ws_string.simps)

lemma audit_kdb_seq: "seq_inv audit_kdb"
  by (auto simp: seq_inv_def sku_events_def last_seq_def audit_kdb_def empty_kdb_def status_event_def upto.simps)

lemma audit_kdb_kinv: "kinv 2 Map.empty audit_kdb"
proof -
  have ev: "filter (\<lambda>e. EL_SKUID e = 1) (event_logs audit_kdb) = event_logs audit_kdb"
    by (simp add: audit_kdb_def status_event_def)
  have "sku_inv Map.empty audit_kdb"
    using audit_kdb_log ev unfolding sku_inv_def sku_ok_def logged_def expected_pair_def sku_events_def
    by (simp add: audit_kdb_def draft_sku_def)
  then show ?thesis using audit_kdb_seq
    by (auto simp: kinv_def ref_inv_def job_inv_def audit_inv_def audit_kdb_def empty_kdb_def status_event_def stable_version_def)
qed

lemma audit_kdb_fresh: "uuid_fresh example_uuid audit_kdb"
  by (auto simp: uuid_fresh_def audit_kdb_def empty_kdb_def status_event_def example_uuid_def numeral_eq_Suc)

end
