(* ===== verification/Sku_Service.thy ===== *)
theory Sku_Service
  imports Kernel_Invariant
begin

section \<open>The SKU service\<close>

text \<open>
  \<^verbatim>\<open>src/service/sku.go\<close>: list, read, create, transition and sync. \<open>TransitionStatus\<close> is the composition
  the code has: a preflight outside the transaction (layers 1a to 1c), the compare-and-set with its
  event inside one, and a re-read. The preflight and the transaction body are separate definitions
  because other requests run between them (theory Kernel_System).
\<close>

record TransitionStatusParams =
  TS_SKUID :: id
  TS_ExpectedStatus :: WorkflowStatus
  TS_NextStatus :: WorkflowStatus
  TS_TriggeredBy :: string
  TS_Reason :: string

definition skuService_List :: "string \<Rightarrow> int \<Rightarrow> int \<Rightarrow> SKU list kop" where
  "skuService_List ws page pageSize =
     infra (SKURepo_List (if ws \<noteq> [] then Some ws else None) page pageSize)"

definition skuService_GetByID :: "id \<Rightarrow> SKU kop" where
  "skuService_GetByID i = bnd (infra (SKURepo_GetByID i)) (\<lambda>sku. case sku of
     None \<Rightarrow> throw ErrCodeNotFound
   | Some s \<Rightarrow> ret s)"

text \<open>A re-read that fails or finds nothing is an internal error.\<close>

definition reread :: "(kdb, db_error, 'a option) act \<Rightarrow> 'a kop" where
  "reread m = bnd (infra m) (\<lambda>r. case r of None \<Rightarrow> throw ErrCodeInternalError | Some x \<Rightarrow> ret x)"

definition Create_tx :: "uuid_source \<Rightarrow> time \<Rightarrow> string \<Rightarrow> string \<Rightarrow> id kact" where
  "Create_tx U now skuCode name =
     bnd (SKURepo_Create now skuCode name) (\<lambda>i.
     bnd (Append U now i EventSKUCreated
            [(''sku_code'', JStr skuCode), (''name'', JStr name),
             (''workflow_status'', JStr (ws_string WorkflowDraft))]) (\<lambda>_. ret i))"

definition skuService_Create :: "uuid_source \<Rightarrow> time \<Rightarrow> string \<Rightarrow> string \<Rightarrow> SKU kop" where
  "skuService_Create U now skuCode name =
     (if skuCode = [] then throw ErrCodeInvalidRequest
      else if name = [] then throw ErrCodeInvalidRequest
      else bnd (infra (SKURepo_GetBySKUCode skuCode)) (\<lambda>existing.
        if existing \<noteq> None then throw ErrCodeInvalidRequest
        else bnd (map_err (\<lambda>_. ErrCodeInvalidRequest) (RunInTx (Create_tx U now skuCode name))) (\<lambda>newID.
          reread (SKURepo_GetByID newID))))"

definition TransitionStatus_preflight :: "TransitionStatusParams \<Rightarrow> unit kop" where
  "TransitionStatus_preflight p =
     bnd (skuService_GetByID (TS_SKUID p)) (\<lambda>sku.
       if SKU_WorkflowStatus sku \<noteq> TS_ExpectedStatus p then throw ErrCodeInvalidStateTransition
       else if \<not> CanTransition (TS_ExpectedStatus p) (TS_NextStatus p) then throw ErrCodeInvalidStateTransition
       else ret ())"

definition TransitionStatus_tx :: "uuid_source \<Rightarrow> time \<Rightarrow> TransitionStatusParams \<Rightarrow> unit kact" where
  "TransitionStatus_tx U now p =
     bnd (CASWorkflowStatus now (TS_SKUID p) (TS_ExpectedStatus p) (TS_NextStatus p)) (\<lambda>updated.
       if \<not> updated then throw errCASMiss
       else bnd (Append U now (TS_SKUID p) EventSKUStatusChanged
              [(''from'', JStr (ws_string (TS_ExpectedStatus p))),
               (''to'', JStr (ws_string (TS_NextStatus p))),
               (''triggered_by'', JStr (TS_TriggeredBy p)), (''reason'', JStr (TS_Reason p))])
            (\<lambda>_. ret ()))"

text \<open>
  On a miss the code reads the row once more for the error's details, and ignores that read's error.
\<close>

definition TransitionStatus :: "uuid_source \<Rightarrow> time \<Rightarrow> TransitionStatusParams \<Rightarrow> SKU kop" where
  "TransitionStatus U now p =
     bnd (TransitionStatus_preflight p) (\<lambda>_ w.
       (case RunInTx (TransitionStatus_tx U now p) w of
          (Inl e, w1) \<Rightarrow>
            if e = errCASMiss
            then bnd (ignore_err (SKURepo_GetByID (TS_SKUID p))) (\<lambda>_. throw ErrCodeInvalidStateTransition) w1
            else (Inl (infraError e), w1)
        | (Inr _, w1) \<Rightarrow> reread (SKURepo_GetByID (TS_SKUID p)) w1))"

record SKUSyncStatusResult =
  Sync_SKU :: SKU
  Sync_LatestSequence :: int
  Sync_Events :: "EventLog list"

definition SyncStatus :: "id \<Rightarrow> int \<Rightarrow> SKUSyncStatusResult kop" where
  "SyncStatus i sinceSequence =
     bnd (skuService_GetByID i) (\<lambda>sku.
     bnd (infra (ListSince i sinceSequence)) (\<lambda>events.
     bnd (infra (GetLatestSequence i)) (\<lambda>latest.
       ret \<lparr>Sync_SKU = sku, Sync_LatestSequence = latest, Sync_Events = events\<rparr>)))"

subsection \<open>The transaction bodies keep the invariant\<close>

lemma Create_tx_kinv: "triple (kinv N Map.empty) (Create_tx U now code name) (\<lambda>i d. kinv N Map.empty d \<and> i < next_sku d)"
  unfolding Create_tx_def
proof (rule triple_bnd [OF SKURepo_Create_kinv])
  fix i
  let ?a = "Append U now i EventSKUCreated
      [(''sku_code'', JStr code), (''name'', JStr name), (''workflow_status'', JStr (ws_string WorkflowDraft))]"
  have "triple (\<lambda>d. kinv (i + 1) Map.empty d \<and> N \<le> i + 1) ?a (\<lambda>_ d. kinv (i + 1) Map.empty d \<and> N \<le> i + 1)"
    by (intro triple_const repo_events.append_other) simp_all
  then show "triple (\<lambda>d. kinv (i + 1) Map.empty d \<and> N \<le> i + 1) (bnd ?a (\<lambda>_. ret i))
      (\<lambda>i d. kinv N Map.empty d \<and> i < next_sku d)"
    by (rule triple_bnd) (auto intro!: triple_ret simp: kinv_def)
qed

lemma status_event_kinv:
  assumes "CanTransition a b" "says a b pl" "i < N"
  shows "triple (kinv N [i \<mapsto> (a, b)]) (Append U now i EventSKUStatusChanged pl) (\<lambda>_. kinv N Map.empty)"
  by (rule triple_post [OF repo_events.append_status [OF assms, of _ b]]) (auto dest: kinv_close1)

lemma TransitionStatus_tx_kinv:
  assumes "CanTransition (TS_ExpectedStatus p) (TS_NextStatus p)" "TS_SKUID p < N"
  shows "triple (kinv N Map.empty) (TransitionStatus_tx U now p) (\<lambda>_. kinv N Map.empty)"
  unfolding TransitionStatus_tx_def
proof (rule triple_bnd [OF CASWorkflowStatus_kinv], goal_cases)
  case (1 updated)
  show ?case
  proof (cases updated)
    case True
    have "triple (kinv N [TS_SKUID p \<mapsto> (TS_ExpectedStatus p, TS_NextStatus p)])
       (Append U now (TS_SKUID p) EventSKUStatusChanged
          [(''from'', JStr (ws_string (TS_ExpectedStatus p))), (''to'', JStr (ws_string (TS_NextStatus p))),
           (''triggered_by'', JStr (TS_TriggeredBy p)), (''reason'', JStr (TS_Reason p))]) (\<lambda>_. kinv N Map.empty)"
      by (rule status_event_kinv) (use assms in \<open>simp_all add: says_def\<close>)
    with True show ?thesis
      by (auto simp: cas_open_def intro!: triple_bnd triple_ret)
  qed (simp add: triple_throw)
qed

subsection \<open>Atomicity and behaviour of TransitionStatus\<close>

text \<open>What one committed transition does to the tables.\<close>

definition moved :: "time \<Rightarrow> id \<Rightarrow> WorkflowStatus \<Rightarrow> WorkflowStatus \<Rightarrow> kdb \<Rightarrow> kdb \<Rightarrow> bool" where
  "moved now i a b d d' \<longleftrightarrow> (\<exists>e.
     length (filter (\<lambda>s. SKU_ID s = i \<and> SKU_WorkflowStatus s = a) (skus d)) = 1 \<and>
     skus d' = row_upd (\<lambda>s. SKU_ID s = i \<and> SKU_WorkflowStatus s = a)
       (\<lambda>s. s\<lparr>SKU_WorkflowStatus := b, SKU_UpdatedAt := now\<rparr>) (skus d) \<and>
     event_logs d' = event_logs d @ [e] \<and> EL_SKUID e = i \<and> EL_EventType e = EventSKUStatusChanged \<and>
     change_of e = Some (a, b) \<and> EL_Sequence e = last_seq d i + 1 \<and> last_seq d' i = last_seq d i + 1)"

lemma CASWorkflowStatus_ok:
  "CASWorkflowStatus now i a b w = (Inr ok, w') \<Longrightarrow>
   ok = (length (filter (\<lambda>s. SKU_ID s = i \<and> SKU_WorkflowStatus s = a) (skus (wdb w))) = 1) \<and>
   wdb w' = (wdb w)\<lparr>skus := row_upd (\<lambda>s. SKU_ID s = i \<and> SKU_WorkflowStatus s = a)
     (\<lambda>s. s\<lparr>SKU_WorkflowStatus := b, SKU_UpdatedAt := now\<rparr>) (skus (wdb w))\<rparr>"
  unfolding CASWorkflowStatus_def by (drule stmt_success) (auto simp: Let_def)

lemma TransitionStatus_tx_ok:
  assumes "TransitionStatus_tx U now p w = (Inr x, w')"
  shows "moved now (TS_SKUID p) (TS_ExpectedStatus p) (TS_NextStatus p) (wdb w) (wdb w')"
proof -
  obtain w1 e where cas: "CASWorkflowStatus now (TS_SKUID p) (TS_ExpectedStatus p) (TS_NextStatus p) w = (Inr True, w1)"
    and app: "Append U now (TS_SKUID p) EventSKUStatusChanged
        [(''from'', JStr (ws_string (TS_ExpectedStatus p))), (''to'', JStr (ws_string (TS_NextStatus p))),
         (''triggered_by'', JStr (TS_TriggeredBy p)), (''reason'', JStr (TS_Reason p))] w1 = (Inr e, w')"
    using assms by (auto simp: TransitionStatus_tx_def act_success split: if_splits)
  from CASWorkflowStatus_ok [OF cas] Append_ok [OF app] show ?thesis
    unfolding appended_def moved_def last_seq_def by (fastforce simp: change_of_def)
qed

lemma reread_db [simp]: "wdb (snd (reread (SKURepo_GetByID i) w)) = wdb w"
  by (simp add: reread_def SKURepo_GetByID_def bnd_def map_err_def query_def stmt_def
      split: list.splits bool.splits option.splits)

lemma ignored_read_db [simp]: "wdb (snd (bnd (ignore_err (SKURepo_GetByID i)) (\<lambda>_. throw e) w)) = wdb w"
  by (simp add: SKURepo_GetByID_def bnd_def ignore_err_def)

lemma TransitionStatus_db:
  "wdb (snd (TransitionStatus U now p w)) = wdb w \<or>
   CanTransition (TS_ExpectedStatus p) (TS_NextStatus p) \<and>
   moved now (TS_SKUID p) (TS_ExpectedStatus p) (TS_NextStatus p) (wdb w) (wdb (snd (TransitionStatus U now p w)))"
proof (cases "TransitionStatus_preflight p w")
  case (Pair r w1)
  have w1: "wdb w1 = wdb w"
  proof -
    have "keeps (\<lambda>d. d = wdb w) (TransitionStatus_preflight p)"
      unfolding TransitionStatus_preflight_def skuService_GetByID_def SKURepo_GetByID_def
      by (auto intro!: keeps_bnd split: option.splits)
    then show ?thesis using Pair by (force simp: keeps_def)
  qed
  show ?thesis
  proof (cases r)
    case (Inl e)
    then show ?thesis using Pair w1 by (simp add: TransitionStatus_def bnd_def)
  next
    case (Inr u)
    have can: "CanTransition (TS_ExpectedStatus p) (TS_NextStatus p)"
      using Pair Inr by (auto simp: TransitionStatus_preflight_def bnd_eq_Inr split: if_splits)
    show ?thesis
    proof (cases "RunInTx (TransitionStatus_tx U now p) w1")
      case run: (Pair r2 w2)
      show ?thesis
      proof (cases r2)
        case (Inl e)
        then have "wdb w2 = wdb w" using run RunInTx_failure w1 by metis
        then have "wdb (snd (TransitionStatus U now p w)) = wdb w"
          using Pair Inr run Inl by (simp add: TransitionStatus_def bnd_run_Inr)
        then show ?thesis by blast
      next
        case r2: (Inr v)
        then obtain v1 v2 where "wdb v1 = wdb w" "TransitionStatus_tx U now p v1 = (Inr v, v2)" "wdb w2 = wdb v2"
          using run RunInTx_success w1 by metis
        then have "moved now (TS_SKUID p) (TS_ExpectedStatus p) (TS_NextStatus p) (wdb w) (wdb w2)"
          using TransitionStatus_tx_ok by metis
        then show ?thesis using Pair Inr run r2 can by (simp add: TransitionStatus_def bnd_run_Inr)
      qed
    qed
  qed
qed

subsection \<open>Outcome without faults\<close>

lemma kinv_find_one:
  assumes "kinv N opn d" "List.find (\<lambda>s. SKU_ID s = i) (skus d) = Some s" "P s"
  shows "length (filter (\<lambda>s. SKU_ID s = i \<and> P s) (skus d)) = 1"
proof -
  have s: "s \<in> set (skus d)" "SKU_ID s = i" using assms(2) by (auto dest: find_SomeD)
  then have "filter (\<lambda>s. SKU_ID s = i \<and> P s) (skus d) \<noteq> []"
    using assms(3) by (auto simp: filter_empty_conv)
  moreover have "length (filter (\<lambda>s. SKU_ID s = i \<and> P s) (skus d)) \<le> 1"
    using assms(1) by (intro one_row) (simp add: kinv_def sku_inv_def)
  ultimately show ?thesis by (cases "filter (\<lambda>s. SKU_ID s = i \<and> P s) (skus d)") auto
qed

lemma find_row_upd_status:
  assumes "List.find (\<lambda>s. SKU_ID s = i) xs = Some s" "SKU_WorkflowStatus s = a"
    and "\<And>s. SKU_ID (f s) = SKU_ID s"
  shows "List.find (\<lambda>s. SKU_ID s = i) (row_upd (\<lambda>s. SKU_ID s = i \<and> SKU_WorkflowStatus s = a) f xs) = Some (f s)"
  using assms find_SomeD [OF assms(1)] by (simp add: find_row_upd)

lemma uuid_fresh_cong:
  "event_logs d' = event_logs d \<Longrightarrow> job_attempts d' = job_attempts d \<Longrightarrow> uuid_n d' = uuid_n d \<Longrightarrow>
   uuid_fresh U d' = uuid_fresh U d"
  by (simp add: uuid_fresh_def)

lemma TransitionStatus_tx_runs:
  assumes "faults w = []" "kinv N Map.empty (wdb w)" "uuid_fresh U (wdb w)"
    "List.find (\<lambda>s. SKU_ID s = TS_SKUID p) (skus (wdb w)) = Some s" "SKU_WorkflowStatus s = TS_ExpectedStatus p"
  obtains w' where "TransitionStatus_tx U now p w = (Inr (), w')" "faults w' = []"
proof -
  let ?w1 = "w\<lparr>wdb := (wdb w)\<lparr>skus := row_upd (\<lambda>s. SKU_ID s = TS_SKUID p \<and> SKU_WorkflowStatus s = TS_ExpectedStatus p)
     (\<lambda>s. s\<lparr>SKU_WorkflowStatus := TS_NextStatus p, SKU_UpdatedAt := now\<rparr>) (skus (wdb w))\<rparr>\<rparr>"
  have cas: "CASWorkflowStatus now (TS_SKUID p) (TS_ExpectedStatus p) (TS_NextStatus p) w = (Inr True, ?w1)"
    using assms kinv_find_one [OF assms(2,4), of "\<lambda>s. SKU_WorkflowStatus s = TS_ExpectedStatus p"]
    by (simp add: CASWorkflowStatus_def act_simps Let_def)
  have "seq_inv (wdb ?w1)" using assms(2) by (simp add: kinv_def seq_inv_def last_seq_def sku_events_def)
  moreover have "uuid_fresh U (wdb ?w1)" using assms(3) by (simp add: uuid_fresh_def)
  ultimately obtain e w2 where "Append U now (TS_SKUID p) EventSKUStatusChanged
        [(''from'', JStr (ws_string (TS_ExpectedStatus p))), (''to'', JStr (ws_string (TS_NextStatus p))),
         (''triggered_by'', JStr (TS_TriggeredBy p)), (''reason'', JStr (TS_Reason p))] ?w1 = (Inr e, w2)" "faults w2 = []"
    using Append_runs [of ?w1 U now "TS_SKUID p" EventSKUStatusChanged] assms(1) by fastforce
  then have "TransitionStatus_tx U now p w = (Inr (), w2) \<and> faults w2 = []"
    by (simp add: TransitionStatus_tx_def bnd_def cas ret_def)
  then show ?thesis using that by blast
qed

lemma TransitionStatus_result:
  assumes "faults w = []" "kinv N Map.empty (wdb w)" "uuid_fresh U (wdb w)"
  shows "fst (TransitionStatus U now p w) =
     (case List.find (\<lambda>s. SKU_ID s = TS_SKUID p) (skus (wdb w)) of
        None \<Rightarrow> Inl ErrCodeNotFound
      | Some s \<Rightarrow>
          if SKU_WorkflowStatus s = TS_ExpectedStatus p \<and> CanTransition (TS_ExpectedStatus p) (TS_NextStatus p)
          then Inr (s\<lparr>SKU_WorkflowStatus := TS_NextStatus p, SKU_UpdatedAt := now\<rparr>)
          else Inl ErrCodeInvalidStateTransition)"
proof (cases "List.find (\<lambda>s. SKU_ID s = TS_SKUID p) (skus (wdb w))")
  case None
  with assms(1) show ?thesis
    by (simp add: TransitionStatus_def TransitionStatus_preflight_def skuService_GetByID_def SKURepo_GetByID_def
        bnd_def map_err_def act_simps)
next
  case (Some s)
  have pre: "TransitionStatus_preflight p w =
     (if SKU_WorkflowStatus s = TS_ExpectedStatus p \<and> CanTransition (TS_ExpectedStatus p) (TS_NextStatus p)
      then Inr () else Inl ErrCodeInvalidStateTransition, w)"
    using Some assms(1) by (simp add: TransitionStatus_preflight_def skuService_GetByID_def SKURepo_GetByID_def
        bnd_def map_err_def act_simps)
  show ?thesis
  proof (cases "SKU_WorkflowStatus s = TS_ExpectedStatus p \<and> CanTransition (TS_ExpectedStatus p) (TS_NextStatus p)")
    case False
    then show ?thesis using pre Some by (auto simp: TransitionStatus_def bnd_def)
  next
    case True
    then obtain w' where tx: "TransitionStatus_tx U now p w = (Inr (), w')" "faults w' = []"
      using TransitionStatus_tx_runs [OF assms Some] by blast
    have "List.find (\<lambda>s. SKU_ID s = TS_SKUID p) (skus (wdb w')) = Some (s\<lparr>SKU_WorkflowStatus := TS_NextStatus p, SKU_UpdatedAt := now\<rparr>)"
      using TransitionStatus_tx_ok [OF tx(1)] find_row_upd_status [OF Some, of "TS_ExpectedStatus p"] True
      by (auto simp: moved_def)
    then show ?thesis using True Some pre tx assms(1)
      by (simp add: TransitionStatus_def bnd_run_Inr RunInTx_nofault_ok reread_def SKURepo_GetByID_def map_err_def
          query_nofault ret_def)
  qed
qed

subsection \<open>What a client sees in SyncStatus\<close>

lemma fold_max_upto: "a \<le> b \<Longrightarrow> fold max [a + 1..b] a = (b :: int)"
proof (induction a b rule: upto.induct)
  case (1 a b)
  show ?case
  proof (cases "a = b")
    case False
    with 1 have "[a + 1..b] = (a + 1) # [a + 1 + 1..b]" by (simp add: upto.simps)
    moreover have "fold max [a + 1 + 1..b] (a + 1) = b" using 1 False by simp
    ultimately show ?thesis by (simp del: upto.simps)
  qed simp
qed

lemma GetLatestSequence_value:
  assumes "seq_inv d"
  shows "(case filter (\<lambda>e. EL_SKUID e = i) (event_logs d) of [] \<Rightarrow> 0
          | e # es \<Rightarrow> fold max (map EL_Sequence es) (EL_Sequence e)) = last_seq d i"
proof -
  have m: "map EL_Sequence (filter (\<lambda>e. EL_SKUID e = i) (event_logs d)) = [1..last_seq d i]" "0 \<le> last_seq d i"
    using assms by (auto simp: seq_inv_def sku_events_def)
  show ?thesis
  proof (cases "filter (\<lambda>e. EL_SKUID e = i) (event_logs d)")
    case Nil
    then have "[1..last_seq d i] = []" using m(1) by simp
    then have "last_seq d i = 0" using m(2) by simp
    with Nil show ?thesis by simp
  next
    case (Cons e es)
    then have "1 \<le> last_seq d i" using m by (cases "1 \<le> last_seq d i") auto
    then have "[1..last_seq d i] = 1 # [1 + 1..last_seq d i]" by (simp add: upto.simps)
    with Cons m have "EL_Sequence e = 1" "map EL_Sequence es = [1 + 1..last_seq d i]" by simp_all
    with Cons \<open>1 \<le> last_seq d i\<close> show ?thesis using fold_max_upto [of 1 "last_seq d i"] by simp
  qed
qed

lemma filter_upto: "0 \<le> n \<Longrightarrow> filter (\<lambda>x. n < x) [1..m] = [n + 1..m]" for n m :: int
proof (cases "n \<le> m")
  case True
  assume "0 \<le> n"
  with True have "[1..m] = [1..n] @ [n + 1..m]" by (cases "n = 0") (auto intro!: upto_split2)
  then show ?thesis by (auto simp: filter_empty_conv filter_id_conv)
qed (auto simp: filter_empty_conv)

lemma SyncStatus_result:
  assumes "SyncStatus i n w = (Inr r, w')" "seq_inv (wdb w)" "0 \<le> n"
  shows "Sync_LatestSequence r = last_seq (wdb w) i"
    and "map EL_Sequence (Sync_Events r) = [n + 1..Sync_LatestSequence r]"
    and "set (Sync_Events r) \<subseteq> set (sku_events (wdb w) i)"
proof -
  let ?es = "filter (\<lambda>e. EL_SKUID e = i) (event_logs (wdb w))"
  have r: "Sync_Events r = sort_key EL_Sequence (filter (\<lambda>e. EL_SKUID e = i \<and> n < EL_Sequence e) (event_logs (wdb w)))"
    "Sync_LatestSequence r = (case ?es of [] \<Rightarrow> 0 | e # es \<Rightarrow> fold max (map EL_Sequence es) (EL_Sequence e))"
    using assms(1) by (auto simp: SyncStatus_def skuService_GetByID_def SKURepo_GetByID_def ListSince_def
        GetLatestSequence_def act_success split: option.splits dest!: query_success)
  show last: "Sync_LatestSequence r = last_seq (wdb w) i" using r(2) GetLatestSequence_value [OF assms(2)] by simp
  have es: "map EL_Sequence ?es = [1..last_seq (wdb w) i]" using assms(2) by (simp add: seq_inv_def sku_events_def)
  have "map EL_Sequence (filter (\<lambda>e. n < EL_Sequence e) ?es) = [n + 1..last_seq (wdb w) i]"
    using filter_upto [OF assms(3), of "last_seq (wdb w) i"]
    unfolding es [symmetric] filter_map comp_def .
  moreover have "filter (\<lambda>e. n < EL_Sequence e) ?es = filter (\<lambda>e. EL_SKUID e = i \<and> n < EL_Sequence e) (event_logs (wdb w))"
    by (simp add: conj_commute)
  ultimately have m: "map EL_Sequence (filter (\<lambda>e. EL_SKUID e = i \<and> n < EL_Sequence e) (event_logs (wdb w))) = [n + 1..last_seq (wdb w) i]"
    by simp
  then have "sorted (map EL_Sequence (filter (\<lambda>e. EL_SKUID e = i \<and> n < EL_Sequence e) (event_logs (wdb w))))" by simp
  then show "map EL_Sequence (Sync_Events r) = [n + 1..Sync_LatestSequence r]"
    using r(1) m last by (simp add: sort_key_id_if_sorted)
  show "set (Sync_Events r) \<subseteq> set (sku_events (wdb w) i)" using r(1) by (auto simp: sku_events_def)
qed

subsection \<open>Properties\<close>

text \<open>
  (C13) Whatever statements of a \<open>TransitionStatus\<close> call fail, the database afterwards is either
  untouched, or the call's transition is one the policy allows, exactly the one SKU row that had the
  expected status has moved to the next one, and exactly one \<^verbatim>\<open>sku.status_changed\<close> event, numbered
  next in the SKU's sequence, records this move. An event is never written without its status
  change, nor the other way round.
\<close>

theorem transition_status_atomic:
  "wdb (snd (TransitionStatus U now p w)) = wdb w \<or>
   CanTransition (TS_ExpectedStatus p) (TS_NextStatus p) \<and>
   moved now (TS_SKUID p) (TS_ExpectedStatus p) (TS_NextStatus p) (wdb w) (wdb (snd (TransitionStatus U now p w)))"
  by (rule TransitionStatus_db)

text \<open>
  The result of \<open>TransitionStatus\<close> on every branch, when no statement fails: NOT_FOUND for an
  unknown SKU, INVALID_STATE_TRANSITION when the row does not have the expected status or the policy
  does not allow the step, and otherwise the SKU with its new status.
\<close>

theorem transition_status_outcome:
  assumes "faults w = []" "kinv N Map.empty (wdb w)" "uuid_fresh U (wdb w)"
  shows "fst (TransitionStatus U now p w) =
     (case List.find (\<lambda>s. SKU_ID s = TS_SKUID p) (skus (wdb w)) of
        None \<Rightarrow> Inl ErrCodeNotFound
      | Some s \<Rightarrow>
          if SKU_WorkflowStatus s = TS_ExpectedStatus p \<and> CanTransition (TS_ExpectedStatus p) (TS_NextStatus p)
          then Inr (s\<lparr>SKU_WorkflowStatus := TS_NextStatus p, SKU_UpdatedAt := now\<rparr>)
          else Inl ErrCodeInvalidStateTransition)"
  using assms by (rule TransitionStatus_result)

definition submit_params :: TransitionStatusParams where
  "submit_params = \<lparr>TS_SKUID = 1, TS_ExpectedStatus = WorkflowDraft, TS_NextStatus = WorkflowSubmitted,
     TS_TriggeredBy = ''ops'', TS_Reason = ''ready''\<rparr>"

theorem transition_status_outcome_witness:
  "fst (TransitionStatus (\<lambda>n. replicate n CHR ''u'') 7 submit_params (quiet draft_kdb)) =
     Inr (draft_sku\<lparr>SKU_WorkflowStatus := WorkflowSubmitted, SKU_UpdatedAt := 7\<rparr>)"
  using transition_status_outcome [OF quiet_simps(2), of 2 draft_kdb "\<lambda>n. replicate n CHR ''u''" 7 submit_params]
    draft_kdb_kinv draft_kdb_fresh
  by (simp add: draft_kdb_def draft_sku_def submit_params_def CanTransition_def allowedTransitions_def)

text \<open>
  \<open>SyncStatus\<close> never shows a gap: a client that has seen the events up to \<open>n\<close> receives exactly
  the numbers \<open>n + 1\<close> up to the latest sequence it is told, in order, all of them this SKU's.
\<close>

theorem sync_status_gapless:
  assumes "SyncStatus i n w = (Inr r, w')" "seq_inv (wdb w)" "0 \<le> n"
  shows "map EL_Sequence (Sync_Events r) = [n + 1..Sync_LatestSequence r] \<and>
     Sync_LatestSequence r = last_seq (wdb w) i \<and> set (Sync_Events r) \<subseteq> set (sku_events (wdb w) i)"
  using SyncStatus_result [OF assms] by blast

theorem sync_status_gapless_witness:
  "map EL_Sequence [] = [0 + 1..last_seq draft_kdb 1]"
proof -
  have "SyncStatus 1 0 (quiet draft_kdb) =
      (Inr \<lparr>Sync_SKU = draft_sku, Sync_LatestSequence = 0, Sync_Events = []\<rparr>, quiet draft_kdb)"
    by (simp add: SyncStatus_def skuService_GetByID_def SKURepo_GetByID_def ListSince_def GetLatestSequence_def
        bnd_def map_err_def act_simps draft_kdb_def empty_kdb_def draft_sku_def)
  from sync_status_gapless [OF this] draft_kdb_kinv show ?thesis by (simp add: kinv_def)
qed

end
