(* ===== verification/Kernel_Exec.thy ===== *)
theory Kernel_Exec
  imports Kernel_Invariant
begin

section \<open>Symbolic execution of transactions\<close>

text \<open>
  \<open>returns P m Q\<close>: from a database with \<open>P\<close>, the action returns a result with \<open>Q\<close> unless a statement
  was made to fail; with no faults in the schedule it always returns. It is the judgement for what a
  transaction does, where \<open>triple\<close> of theory Tx_Monad is the one for what it keeps.

  \<open>at U d0 D ts d\<close> describes a database in the middle of a transaction that began in \<open>d0\<close>: apart from the
  event log it is \<open>D\<close>, and the events written so far are, in order, of the SKUs and types \<open>ts\<close>. Each
  repository operation has one rule that moves \<open>D\<close> or \<open>ts\<close>.
\<close>

definition runs :: "('d \<Rightarrow> bool) \<Rightarrow> ('d, 'e, 'a) act \<Rightarrow> bool" where
  "runs P m \<longleftrightarrow> (\<forall>w. P (wdb w) \<longrightarrow> faults w = [] \<longrightarrow> (\<exists>x w'. m w = (Inr x, w') \<and> faults w' = []))"

definition returns :: "('d \<Rightarrow> bool) \<Rightarrow> ('d, 'e, 'a) act \<Rightarrow> ('a \<Rightarrow> 'd \<Rightarrow> bool) \<Rightarrow> bool" where
  "returns P m Q \<longleftrightarrow> triple P m Q \<and> runs P m"

lemma returnsI: "triple P m Q \<Longrightarrow> runs P m \<Longrightarrow> returns P m Q"
  by (simp add: returns_def)

lemma returns_triple: "returns P m Q \<Longrightarrow> triple P m Q"
  by (simp add: returns_def)

lemma runsD: "runs P m \<Longrightarrow> P (wdb w) \<Longrightarrow> faults w = [] \<Longrightarrow> \<exists>x w'. m w = (Inr x, w') \<and> faults w' = []"
  by (simp add: runs_def)

lemma returns_run:
  "returns P m Q \<Longrightarrow> P (wdb w) \<Longrightarrow> faults w = [] \<Longrightarrow> \<exists>x w'. m w = (Inr x, w') \<and> faults w' = [] \<and> Q x (wdb w')"
  unfolding returns_def runs_def using tripleD by metis

lemma returns_ret: "(\<And>d. P d \<Longrightarrow> Q x d) \<Longrightarrow> returns P (ret x) Q"
  by (rule returnsI [OF triple_ret]) (simp_all add: runs_def ret_def)

lemma returns_bnd:
  assumes "returns P m R" "\<And>x. returns (R x) (k x) Q"
  shows "returns P (bnd m k) Q"
proof (rule returnsI)
  show "triple P (bnd m k) Q" using assms by (intro triple_bnd) (auto intro: returns_triple)
  show "runs P (bnd m k)"
    unfolding runs_def
  proof (intro allI impI)
    fix w :: "'a world" assume "P (wdb w)" "faults w = []"
    then obtain x w1 where m: "m w = (Inr x, w1)" "faults w1 = []" "R x (wdb w1)" using returns_run [OF assms(1)] by blast
    then obtain y w2 where "k x w1 = (Inr y, w2)" "faults w2 = []" using returns_run [OF assms(2)] by blast
    with m show "\<exists>x w'. bnd m k w = (Inr x, w') \<and> faults w' = []" by (simp add: bnd_run_Inr)
  qed
qed

lemma returns_pre: "returns P m Q \<Longrightarrow> (\<And>d. P' d \<Longrightarrow> P d) \<Longrightarrow> returns P' m Q"
  by (auto simp: returns_def runs_def intro: triple_pre)

lemma returns_post: "returns P m Q \<Longrightarrow> (\<And>x d. Q x d \<Longrightarrow> Q' x d) \<Longrightarrow> returns P m Q'"
  by (auto simp: returns_def intro: triple_post)

lemma returns_stmt:
  assumes "\<And>d. P d \<Longrightarrow> \<exists>x d'. f d = Inr (x, d') \<and> Q x d'"
  shows "returns P (stmt f) Q"
proof (rule returnsI)
  show "triple P (stmt f) Q" by (rule triple_stmt) (use assms in fastforce)
  show "runs P (stmt f)" unfolding runs_def
  proof (intro allI impI)
    fix w :: "'a world" assume "P (wdb w)" "faults w = []"
    with assms obtain x d' where "f (wdb w) = Inr (x, d')" by blast
    with \<open>faults w = []\<close> show "\<exists>x w'. stmt f w = (Inr x, w') \<and> faults w' = []" by (simp add: stmt_nofault)
  qed
qed

lemma returns_query: "(\<And>d. P d \<Longrightarrow> Q (g d) d) \<Longrightarrow> returns P (query g) Q"
  unfolding query_def by (rule returns_stmt) auto

lemma returns_exec: "(\<And>d. P d \<Longrightarrow> Q () (h d)) \<Longrightarrow> returns P (exec h) Q"
  unfolding exec_def by (rule returns_stmt) auto

lemma returns_RunInTx:
  assumes "returns P m Q"
  shows "returns P (RunInTx m) Q"
proof (rule returnsI)
  show "triple P (RunInTx m) Q"
  proof (rule tripleI)
    fix w x w' assume P: "P (wdb w)" and r: "RunInTx m w = (Inr x, w')"
    from RunInTx_success [OF r] obtain w1 w2 where "wdb w1 = wdb w" "m w1 = (Inr x, w2)" "wdb w' = wdb w2" by auto
    then show "Q x (wdb w')" using tripleD [OF returns_triple [OF assms], of w1 x w2] P by simp
  qed
  show "runs P (RunInTx m)" unfolding runs_def
  proof (intro allI impI)
    fix w :: "'a world" assume P: "P (wdb w)" and f: "faults w = []"
    from returns_run [OF assms P f] obtain x w' where "m w = (Inr x, w')" "faults w' = []" by blast
    with f show "\<exists>x w'. RunInTx m w = (Inr x, w') \<and> faults w' = []" by (auto intro: RunInTx_nofault_ok)
  qed
qed

subsection \<open>The database apart from its log\<close>

definition nolog :: "kdb \<Rightarrow> kdb" where
  "nolog d = d\<lparr>event_logs := [], sku_sequences := [], uuid_n := 0\<rparr>"

lemma nolog_simps [simp]:
  "skus (nolog d) = skus d" "asset_versions (nolog d) = asset_versions d"
  "audit_actions (nolog d) = audit_actions d" "distribution_jobs (nolog d) = distribution_jobs d"
  "job_attempts (nolog d) = job_attempts d" "incidents (nolog d) = incidents d"
  "system_policies (nolog d) = system_policies d" "next_sku (nolog d) = next_sku d"
  "next_version (nolog d) = next_version d" "next_action (nolog d) = next_action d"
  "next_job (nolog d) = next_job d" "next_incident (nolog d) = next_incident d"
  "next_policy (nolog d) = next_policy d"
  by (simp_all add: nolog_def)

lemma nolog_upd [simp]:
  "nolog (d\<lparr>skus := a\<rparr>) = (nolog d)\<lparr>skus := a\<rparr>"
  "nolog (d\<lparr>asset_versions := b\<rparr>) = (nolog d)\<lparr>asset_versions := b\<rparr>"
  "nolog (d\<lparr>audit_actions := c\<rparr>) = (nolog d)\<lparr>audit_actions := c\<rparr>"
  "nolog (d\<lparr>distribution_jobs := e\<rparr>) = (nolog d)\<lparr>distribution_jobs := e\<rparr>"
  "nolog (d\<lparr>job_attempts := f\<rparr>) = (nolog d)\<lparr>job_attempts := f\<rparr>"
  "nolog (d\<lparr>incidents := g\<rparr>) = (nolog d)\<lparr>incidents := g\<rparr>"
  "nolog (d\<lparr>next_sku := h\<rparr>) = (nolog d)\<lparr>next_sku := h\<rparr>"
  "nolog (d\<lparr>next_version := i\<rparr>) = (nolog d)\<lparr>next_version := i\<rparr>"
  "nolog (d\<lparr>next_action := j\<rparr>) = (nolog d)\<lparr>next_action := j\<rparr>"
  "nolog (d\<lparr>next_job := k\<rparr>) = (nolog d)\<lparr>next_job := k\<rparr>"
  "nolog (d\<lparr>next_incident := l\<rparr>) = (nolog d)\<lparr>next_incident := l\<rparr>"
  by (simp_all add: nolog_def)

lemma appended_nolog: "appended i ty pl d d' \<Longrightarrow> nolog d' = nolog d"
  by (auto simp: appended_def nolog_def)

definition at :: "uuid_source \<Rightarrow> kdb \<Rightarrow> kdb \<Rightarrow> (id \<times> string) list \<Rightarrow> kdb \<Rightarrow> bool" where
  "at U d0 D ts d \<longleftrightarrow> nolog d = D \<and> seq_inv d \<and> uuid_fresh U d \<and>
     (\<exists>es. event_logs d = event_logs d0 @ es \<and> map (\<lambda>e. (EL_SKUID e, EL_EventType e)) es = ts)"

lemma at_start: "seq_inv d \<Longrightarrow> uuid_fresh U d \<Longrightarrow> at U d (nolog d) [] d"
  by (simp add: at_def)

subsection \<open>Rules of the operations\<close>

lemma uuid_fresh_append:
  assumes "inj U" "uuid_fresh U (wdb w)" "Append U now i ty pl w = (Inr x, w')"
  shows "uuid_fresh U (wdb w')"
proof -
  obtain w1 where ns: "nextSequence i w = (Inr (EL_Sequence x), w1)" and x: "EL_ID x = U (uuid_n (wdb w1))"
    and ins: "insert_event_log x (w1\<lparr>wdb := (wdb w1)\<lparr>uuid_n := Suc (uuid_n (wdb w1))\<rparr>\<rparr>) = (Inr (), w')"
    using assms(3) by (auto simp: Append_def act_success uuid_New_def Let_def)
  from nextSequence_ok [OF ns] have "uuid_n (wdb w1) = uuid_n (wdb w)" "event_logs (wdb w1) = event_logs (wdb w)"
    "job_attempts (wdb w1) = job_attempts (wdb w)" by auto
  with assms(1,2) x insert_event_log_ok [OF ins] show ?thesis
    by (auto simp: uuid_fresh_def inj_eq)
qed

lemma at_append:
  assumes "inj U"
  shows "returns (at U d0 D ts) (Append U now i ty pl) (\<lambda>_. at U d0 D (ts @ [(i, ty)]))"
proof (rule returnsI)
  show "triple (at U d0 D ts) (Append U now i ty pl) (\<lambda>_. at U d0 D (ts @ [(i, ty)]))"
  proof (rule tripleI)
    fix w x w' assume a: "at U d0 D ts (wdb w)" and run: "Append U now i ty pl w = (Inr x, w')"
    have app: "appended i ty pl (wdb w) (wdb w')" by (rule Append_ok [OF run])
    then obtain e where "event_logs (wdb w') = event_logs (wdb w) @ [e]" "EL_SKUID e = i" "EL_EventType e = ty"
      by (rule appended_fields)
    then show "at U d0 D (ts @ [(i, ty)]) (wdb w')"
      using a repo_events.append_seq_inv [OF run] uuid_fresh_append [OF assms _ run] appended_nolog [OF app]
      by (auto simp: at_def)
  qed
  show "runs (at U d0 D ts) (Append U now i ty pl)" unfolding runs_def at_def using Append_runs by blast
qed

lemma at_append_unit:
  assumes "inj U"
  shows "returns (at U d0 D ts) (bnd (Append U now i ty pl) (\<lambda>_. ret u)) (\<lambda>_. at U d0 D (ts @ [(i, ty)]))"
  by (rule returns_bnd [OF at_append [OF assms]]) (simp add: returns_ret)

lemma at_append_each:
  assumes "inj U"
  shows "returns (at U d0 D ts) (for_each (\<lambda>j. bnd (Append U now i ty (pl j)) (\<lambda>_. ret ())) js)
     (\<lambda>_. at U d0 D (ts @ replicate (length js) (i, ty)))"
proof (induction js arbitrary: ts)
  case Nil
  show ?case by (simp add: returns_ret)
next
  case (Cons j js)
  show ?case using returns_bnd [OF at_append_unit [OF assms] Cons.IH] by simp
qed

lemma at_worker_append:
  assumes "inj U"
  shows "returns (at U d0 D ts) (workerAppendEvent U now i ty pl) (\<lambda>_. at U d0 D (ts @ [(i, ty)]))"
proof (rule returnsI)
  show "triple (at U d0 D ts) (workerAppendEvent U now i ty pl) (\<lambda>_. at U d0 D (ts @ [(i, ty)]))"
  proof (rule tripleI)
    fix w and x :: unit and w' assume a: "at U d0 D ts (wdb w)" and w: "workerAppendEvent U now i ty pl w = (Inr x, w')"
    have "workerAppendEvent U now i ty pl w = (Inr (), w')" using w by simp
    then obtain e where "Append U now i ty pl w = (Inr e, w')" unfolding workerAppendEvent_Append by blast
    with a show "at U d0 D (ts @ [(i, ty)]) (wdb w')" using tripleD [OF returns_triple [OF at_append [OF assms]]] by blast
  qed
  show "runs (at U d0 D ts) (workerAppendEvent U now i ty pl)"
    unfolding runs_def at_def using workerAppendEvent_runs by blast
qed

text \<open>A statement that neither reads nor writes the log, nor the attempts' ids.\<close>

lemma at_exec:
  assumes "\<And>d. nolog (h d) = h (nolog d)" "\<And>d. event_logs (h d) = event_logs d"
    "\<And>d. sku_sequences (h d) = sku_sequences d" "\<And>d. uuid_n (h d) = uuid_n d"
    "\<And>d. At_ID ` set (job_attempts (h d)) \<subseteq> At_ID ` set (job_attempts d)"
  shows "returns (at U d0 D ts) (exec h) (\<lambda>_. at U d0 (h D) ts)"
proof (rule returns_exec)
  fix d assume a: "at U d0 D ts d"
  have "seq_inv (h d) = seq_inv d" by (rule seq_inv_cong) (simp_all only: assms)
  moreover have "uuid_fresh U (h d)"
    using a assms(5) [of d] unfolding at_def uuid_fresh_def assms(2,4) by blast
  ultimately show "at U d0 (h D) ts (h d)" using a unfolding at_def assms(1,2) by simp
qed

lemma at_query: "(\<And>d. g d = g (nolog d)) \<Longrightarrow> returns (at U d0 D ts) (query g) (\<lambda>x d. x = g D \<and> at U d0 D ts d)"
  by (rule returns_query) (metis at_def)

lemma at_CAS:
  "returns (at U d0 D ts) (CASWorkflowStatus now i a b)
     (\<lambda>ok d. ok = (length (filter (\<lambda>s. SKU_ID s = i \<and> SKU_WorkflowStatus s = a) (skus D)) = 1) \<and>
       at U d0 (D\<lparr>skus := row_upd (\<lambda>s. SKU_ID s = i \<and> SKU_WorkflowStatus s = a)
         (\<lambda>s. s\<lparr>SKU_WorkflowStatus := b, SKU_UpdatedAt := now\<rparr>) (skus D)\<rparr>) ts d)"
  unfolding CASWorkflowStatus_def
  by (rule returns_stmt) (auto simp: Let_def at_def seq_inv_def sku_events_def last_seq_def uuid_fresh_def)

lemma at_upd_job:
  "returns (at U d0 D ts) (exec (upd_job i f)) (\<lambda>_. at U d0 (upd_job i f D) ts)"
  by (rule at_exec) simp_all

lemma at_MarkAttemptAcked:
  "returns (at U d0 D ts) (MarkAttemptAcked now a)
     (\<lambda>_. at U d0 (D\<lparr>job_attempts := row_upd (\<lambda>x. At_ID x = a) (\<lambda>x. x\<lparr>At_AckedAt := Some now\<rparr>) (job_attempts D)\<rparr>) ts)"
  unfolding MarkAttemptAcked_def
  by (rule at_exec [of "\<lambda>d. d\<lparr>job_attempts := row_upd (\<lambda>x. At_ID x = a) (\<lambda>x. x\<lparr>At_AckedAt := Some now\<rparr>) (job_attempts d)\<rparr>"])
    (auto dest!: set_row_updD)

definition incident_row :: "time \<Rightarrow> id \<Rightarrow> id \<Rightarrow> id option \<Rightarrow> string \<Rightarrow> Incident" where
  "incident_row now n i jb reason = \<lparr>Inc_ID = n, Inc_SKUID = i, Inc_JobID = jb,
       Inc_Status = IncidentStatusOpen, Inc_Reason = reason, Inc_AssigneeID = None,
       Inc_ResolvedBy = None, Inc_ResolvedAt = None, Inc_ClosedBy = None, Inc_ClosedAt = None,
       Inc_CloseReason = None, Inc_CreatedAt = now, Inc_UpdatedAt = now\<rparr>"

lemma at_Incident_Create:
  "returns (at U d0 D ts) (IncidentRepo_Create now i jb reason)
     (\<lambda>n d. n = next_incident D \<and> at U d0 (D\<lparr>incidents := incidents D @ [incident_row now n i jb reason],
        next_incident := n + 1\<rparr>) ts d)"
  unfolding IncidentRepo_Create_def
  by (rule returns_stmt)
    (auto simp: at_def incident_row_def seq_inv_def sku_events_def last_seq_def uuid_fresh_def)

subsection \<open>Compare-and-set inside a transaction\<close>

lemma cas_open_new: "cas_open Map.empty i a b = [i \<mapsto> (a, b)]"
  by (simp add: cas_open_def)

lemma cas_open_again: "cas_open [i \<mapsto> (a, c)] i c b = [i \<mapsto> (a, b)]"
  by (simp add: cas_open_def)

lemmas cas_new_kinv = CASWorkflowStatus_kinv [where opn = Map.empty, unfolded cas_open_new]
lemmas cas_again_kinv = CASWorkflowStatus_kinv [where opn = "[i \<mapsto> (c, a)]" and i = i and a = a for i a c, unfolded cas_open_again]

lemma triple_unit: "triple P m (\<lambda>_. Q) \<Longrightarrow> triple P (bnd m (\<lambda>_. ret u)) (\<lambda>_. Q)"
  by (erule triple_bnd) (rule triple_ret)

text \<open>A compare-and-set followed by its event.\<close>

lemma triple_cas:
  assumes "triple (kinv N [i \<mapsto> (a, b)]) (k True) Q" "triple (kinv N Map.empty) (k False) Q"
  shows "triple (kinv N Map.empty) (bnd (CASWorkflowStatus now i a b) k) Q"
proof (rule triple_bnd [OF cas_new_kinv], goal_cases)
  case (1 ok)
  with assms show ?case by (cases ok) simp_all
qed

lemma triple_cas_again:
  assumes "triple (kinv N [i \<mapsto> (c, b)]) (k True) Q" "triple (kinv N [i \<mapsto> (c, a)]) (k False) Q"
  shows "triple (kinv N [i \<mapsto> (c, a)]) (bnd (CASWorkflowStatus now i a b) k) Q"
proof (rule triple_bnd [OF cas_again_kinv], goal_cases)
  case (1 ok)
  with assms show ?case by (cases ok) simp_all
qed

end
