(* ===== verification/Go_Json.thy ===== *)
theory Go_Json
  imports Prelude
begin

section \<open>JSON and numbers of Go's standard library\<close>

text \<open>
  The part of \<^verbatim>\<open>encoding/json\<close> and \<^verbatim>\<open>strconv\<close> the sources use on policy values: \<open>Valid\<close>, and
  \<open>Unmarshal\<close> into a string, a string array and an int; \<open>Atoi\<close>; and the wrap-around of \<^verbatim>\<open>int64\<close>
  arithmetic. \<open>Valid\<close> is the scanner of the library: one transition per byte over a state and the
  stack of open objects and arrays.
\<close>

subsection \<open>64-bit integers\<close>

definition int64 :: "int \<Rightarrow> int" where
  "int64 x = (x + 2 ^ 63) mod 2 ^ 64 - 2 ^ 63"

lemma int64_range: "- (2 ^ 63) \<le> int64 x" "int64 x < 2 ^ 63"
  by (simp_all add: int64_def)

lemma int64_id: "- (2 ^ 63) \<le> x \<Longrightarrow> x < 2 ^ 63 \<Longrightarrow> int64 x = x"
  by (simp add: int64_def)

abbreviation Second :: time where "Second \<equiv> 1000000000"
abbreviation Hour :: time where "Hour \<equiv> 3600000000000"

subsection \<open>The scanner\<close>

datatype jparse = ParseObjectKey | ParseObjectValue | ParseArrayValue

datatype jstep = BeginValueOrEmpty | BeginValue | BeginStringOrEmpty | BeginString | EndValue | EndTop
  | InString | InStringEsc | InStringEscU nat | Neg | Digits | Zero | Dot | Dot0 | Exp | ExpSign | Exp0
  | Lit string

abbreviation "qt \<equiv> CHR 0x22"
abbreviation "bsl \<equiv> CHR 0x5C"

definition jspace :: "char \<Rightarrow> bool" where
  "jspace c \<longleftrightarrow> c = CHR 0x20 \<or> c = CHR 0x09 \<or> c = CHR 0x0A \<or> c = CHR 0x0D"

definition jdigit :: "char \<Rightarrow> bool" where
  "jdigit c \<longleftrightarrow> (of_char c :: nat) \<ge> 48 \<and> (of_char c :: nat) \<le> 57"

definition jhex :: "char \<Rightarrow> bool" where
  "jhex c \<longleftrightarrow> jdigit c \<or> c \<in> set ''abcdefABCDEF''"

text \<open>\<^verbatim>\<open>popParseState\<close>: the end of a value of the enclosing state.\<close>

definition jend :: "jparse list \<Rightarrow> jstep \<times> jparse list" where
  "jend st = (if st = [] then (EndTop, []) else (EndValue, st))"

definition jbegin :: "char \<Rightarrow> jparse list \<Rightarrow> (jstep \<times> jparse list) option" where
  "jbegin c st =
     (if c = CHR ''{'' then
        (if length st < 10000 then Some (BeginStringOrEmpty, ParseObjectKey # st) else None)
      else if c = CHR ''['' then
        (if length st < 10000 then Some (BeginValueOrEmpty, ParseArrayValue # st) else None)
      else if c = qt then Some (InString, st)
      else if c = CHR ''-'' then Some (Neg, st)
      else if c = CHR ''0'' then Some (Zero, st)
      else if jdigit c then Some (Digits, st)
      else if c = CHR ''t'' then Some (Lit ''rue'', st)
      else if c = CHR ''f'' then Some (Lit ''alse'', st)
      else if c = CHR ''n'' then Some (Lit ''ull'', st)
      else None)"

definition jendvalue :: "char \<Rightarrow> jparse list \<Rightarrow> (jstep \<times> jparse list) option" where
  "jendvalue c st = (case st of
     [] \<Rightarrow> (if jspace c then Some (EndTop, []) else None)
   | p # ps \<Rightarrow>
      (if jspace c then Some (EndValue, st)
       else case p of
         ParseObjectKey \<Rightarrow> if c = CHR '':'' then Some (BeginValue, ParseObjectValue # ps) else None
       | ParseObjectValue \<Rightarrow>
           if c = CHR '','' then Some (BeginString, ParseObjectKey # ps)
           else if c = CHR ''}'' then Some (jend ps) else None
       | ParseArrayValue \<Rightarrow>
           if c = CHR '','' then Some (BeginValue, st)
           else if c = CHR '']'' then Some (jend ps) else None))"

definition jscan :: "char \<Rightarrow> jstep \<times> jparse list \<Rightarrow> (jstep \<times> jparse list) option" where
  "jscan c x = (case x of (s, st) \<Rightarrow> (case s of
     BeginValueOrEmpty \<Rightarrow>
       if jspace c then Some (s, st) else if c = CHR '']'' then jendvalue c st else jbegin c st
   | BeginValue \<Rightarrow> if jspace c then Some (s, st) else jbegin c st
   | BeginStringOrEmpty \<Rightarrow>
       if jspace c then Some (s, st)
       else if c = CHR ''}'' then jendvalue c (ParseObjectValue # tl st)
       else if c = qt then Some (InString, st) else None
   | BeginString \<Rightarrow>
       if jspace c then Some (s, st) else if c = qt then Some (InString, st) else None
   | EndValue \<Rightarrow> jendvalue c st
   | EndTop \<Rightarrow> if jspace c then Some (EndTop, st) else None
   | InString \<Rightarrow>
       if c = qt then Some (jend st)
       else if c = bsl then Some (InStringEsc, st)
       else if (of_char c :: nat) < 32 then None else Some (InString, st)
   | InStringEsc \<Rightarrow>
       if c = CHR ''u'' then Some (InStringEscU 3, st)
       else if c \<in> set [CHR ''b'', CHR ''f'', CHR ''n'', CHR ''r'', CHR ''t'', bsl, CHR ''/'', qt]
       then Some (InString, st) else None
   | InStringEscU k \<Rightarrow>
       if jhex c then Some (if k = 0 then InString else InStringEscU (k - 1), st) else None
   | Neg \<Rightarrow>
       if c = CHR ''0'' then Some (Zero, st) else if jdigit c then Some (Digits, st) else None
   | Digits \<Rightarrow>
       if jdigit c then Some (Digits, st)
       else if c = CHR ''.'' then Some (Dot, st)
       else if c = CHR ''e'' \<or> c = CHR ''E'' then Some (Exp, st) else jendvalue c st
   | Zero \<Rightarrow>
       if c = CHR ''.'' then Some (Dot, st)
       else if c = CHR ''e'' \<or> c = CHR ''E'' then Some (Exp, st) else jendvalue c st
   | Dot \<Rightarrow> if jdigit c then Some (Dot0, st) else None
   | Dot0 \<Rightarrow>
       if jdigit c then Some (Dot0, st)
       else if c = CHR ''e'' \<or> c = CHR ''E'' then Some (Exp, st) else jendvalue c st
   | Exp \<Rightarrow>
       if c = CHR ''+'' \<or> c = CHR ''-'' then Some (ExpSign, st)
       else if jdigit c then Some (Exp0, st) else None
   | ExpSign \<Rightarrow> if jdigit c then Some (Exp0, st) else None
   | Exp0 \<Rightarrow> if jdigit c then Some (Exp0, st) else jendvalue c st
   | Lit l \<Rightarrow>
       (case l of [] \<Rightarrow> None
        | k # ks \<Rightarrow> if c = k then Some (if ks = [] then jend st else (Lit ks, st)) else None)))"

fun jrun :: "string \<Rightarrow> jstep \<times> jparse list \<Rightarrow> (jstep \<times> jparse list) option" where
  "jrun [] x = Some x"
| "jrun (c # cs) x = (case jscan c x of None \<Rightarrow> None | Some y \<Rightarrow> jrun cs y)"

text \<open>At the end of the input a pending number is ended by a virtual blank.\<close>

definition json_Valid :: "string \<Rightarrow> bool" where
  "json_Valid s = (case jrun (s @ [CHR 0x20]) (BeginValue, []) of
     Some (EndTop, _) \<Rightarrow> True | _ \<Rightarrow> False)"

subsection \<open>Unmarshal\<close>

definition jtrim :: "string \<Rightarrow> string" where
  "jtrim s = rev (dropWhile jspace (rev (dropWhile jspace s)))"

definition hexval :: "char \<Rightarrow> nat" where
  "hexval c = (let n = of_char c :: nat in if n \<le> 57 then n - 48 else if n \<le> 70 then n - 55 else n - 87)"

definition utf8 :: "nat \<Rightarrow> string" where
  "utf8 r =
     (if r < 0x80 then [char_of r]
      else if r < 0x800 then [char_of (0xC0 + r div 64), char_of (0x80 + r mod 64)]
      else if r < 0x10000 then
        [char_of (0xE0 + r div 4096), char_of (0x80 + r div 64 mod 64), char_of (0x80 + r mod 64)]
      else [char_of (0xF0 + r div 262144), char_of (0x80 + r div 4096 mod 64),
            char_of (0x80 + r div 64 mod 64), char_of (0x80 + r mod 64)])"

abbreviation "RuneError \<equiv> utf8 0xFFFD"

definition cont :: "char \<Rightarrow> bool" where
  "cont c \<longleftrightarrow> (of_char c :: nat) div 64 = 2"

text \<open>The UTF-8 sequence at the head of a string, as \<^verbatim>\<open>utf8.DecodeRune\<close> accepts it (0 if invalid).\<close>

definition rune_len :: "string \<Rightarrow> nat" where
  "rune_len s = (case s of
     [] \<Rightarrow> 0
   | a # r \<Rightarrow> (let x = (of_char a :: nat); y = (case r of [] \<Rightarrow> 0 | b # _ \<Rightarrow> (of_char b :: nat));
                 k = (if x < 0x80 then 0 else if 0xC2 \<le> x \<and> x < 0xE0 then 1 else if 0xE0 \<le> x \<and> x < 0xF0 then 2
                      else if 0xF0 \<le> x \<and> x < 0xF5 then 3 else 4)
      in if k = 0 then 1
         else if k = 4 \<or> length r < k \<or> \<not> list_all cont (take k r)
              \<or> x = 0xE0 \<and> y < 0xA0 \<or> x = 0xED \<and> y \<ge> 0xA0 \<or> x = 0xF0 \<and> y < 0x90 \<or> x = 0xF4 \<and> y \<ge> 0x90
         then 0 else Suc k))"

text \<open>\<^verbatim>\<open>unquote\<close>: the bytes up to the closing quote decoded, and the rest. Two \<^verbatim>\<open>\u\<close> escapes that form a
  surrogate pair are one rune; a lone surrogate or an invalid byte becomes U+FFFD. The fuel is the length of the input: every step consumes a byte.\<close>

fun unquote :: "nat \<Rightarrow> string \<Rightarrow> (string \<times> string) option" where
  "unquote 0 s = None"
| "unquote (Suc n) s = (case s of
     [] \<Rightarrow> None
   | c # r \<Rightarrow>
      if c = qt then Some ([], r)
      else if c = bsl then
        (case r of
           [] \<Rightarrow> None
         | e # r' \<Rightarrow>
            if e = CHR ''u'' then
              (if length r' < 4 then None else
               let u = foldl (\<lambda>v h. 16 * v + hexval h) 0 (take 4 r'); t = drop 4 r';
                   lo = (if take 2 t = [bsl, CHR ''u''] \<and> length t \<ge> 6
                         then foldl (\<lambda>v h. 16 * v + hexval h) 0 (take 4 (drop 2 t)) else 0)
               in if 0xD800 \<le> u \<and> u < 0xDC00 \<and> 0xDC00 \<le> lo \<and> lo < 0xE000
                  then map_option (apfst (append (utf8 ((u - 0xD800) * 1024 + (lo - 0xDC00) + 0x10000))))
                         (unquote n (drop 6 t))
                  else if 0xD800 \<le> u \<and> u < 0xE000
                  then map_option (apfst (append RuneError)) (unquote n t)
                  else map_option (apfst (append (utf8 u))) (unquote n t))
            else
              let b = (if e = CHR ''b'' then CHR 0x08 else if e = CHR ''f'' then CHR 0x0C
                       else if e = CHR ''n'' then CHR 0x0A else if e = CHR ''r'' then CHR 0x0D
                       else if e = CHR ''t'' then CHR 0x09 else e)
              in map_option (apfst (Cons b)) (unquote n r'))
      else let k = rune_len s in
        if k = 0 then map_option (apfst (append RuneError)) (unquote n r)
        else map_option (apfst (append (take k s))) (unquote n (drop k s)))"

definition unmarshal_string :: "string \<Rightarrow> string option" where
  "unmarshal_string s =
     (let t = jtrim s in
      if \<not> json_Valid s then None
      else if t = ''null'' then Some []
      else if take 1 t = [qt] then map_option fst (unquote (length t) (tl t)) else None)"

text \<open>The elements of an array of strings; \<^verbatim>\<open>null\<close> leaves an empty string, any other element is an
  \<^verbatim>\<open>UnmarshalTypeError\<close>. The input has passed \<open>json_Valid\<close>.\<close>

fun jelems :: "nat \<Rightarrow> string \<Rightarrow> string list option" where
  "jelems 0 s = None"
| "jelems (Suc n) s =
     (case dropWhile jspace s of
        [] \<Rightarrow> None
      | c # r \<Rightarrow>
         (let v = (if c = qt then unquote (Suc (length r)) r
                   else if take 4 (c # r) = ''null'' then Some ([], drop 3 r) else None)
          in case v of
               None \<Rightarrow> None
             | Some (x, r') \<Rightarrow>
                (case dropWhile jspace r' of
                   [] \<Rightarrow> None
                 | k # r'' \<Rightarrow> if k = CHR '','' then map_option (Cons x) (jelems n r'') else Some [x])))"

definition unmarshal_strings :: "string \<Rightarrow> string list option" where
  "unmarshal_strings s =
     (let t = jtrim s in
      if \<not> json_Valid s then None
      else if t = ''null'' then Some []
      else if take 1 t \<noteq> ''['' then None
      else if take 1 (dropWhile jspace (tl t)) = '']'' then Some []
      else jelems (length t) (tl t))"

definition digits_value :: "string \<Rightarrow> int option" where
  "digits_value s = (if s = [] \<or> \<not> list_all jdigit s then None
     else Some (foldl (\<lambda>v c. 10 * v + int (hexval c)) 0 s))"

text \<open>\<^verbatim>\<open>strconv.Atoi\<close>: sign, digits, in the range of a 64-bit int.\<close>

definition Atoi :: "string \<Rightarrow> int option" where
  "Atoi s =
     (let neg = take 1 s = ''-''; ds = (if neg \<or> take 1 s = ''+'' then tl s else s)
      in case digits_value ds of
           None \<Rightarrow> None
         | Some v \<Rightarrow> let x = (if neg then - v else v) in
             if - (2 ^ 63) \<le> x \<and> x < 2 ^ 63 then Some x else None)"

definition unmarshal_int :: "string \<Rightarrow> int option" where
  "unmarshal_int s =
     (let t = jtrim s in
      if \<not> json_Valid s then None
      else if t = ''null'' then Some 0
      else if t \<noteq> [] \<and> (jdigit (hd t) \<or> hd t = CHR ''-'') then Atoi t else None)"

lemma Atoi_range: "Atoi s = Some x \<Longrightarrow> - (2 ^ 63) \<le> x \<and> x < 2 ^ 63"
  by (auto simp: Atoi_def Let_def split: option.splits if_splits)

lemma unmarshal_int_range: "unmarshal_int s = Some x \<Longrightarrow> - (2 ^ 63) \<le> x \<and> x < 2 ^ 63"
  by (auto simp: unmarshal_int_def Let_def dest: Atoi_range split: if_splits)

lemma json_eval_examples:
  "unmarshal_strings ''[ ]'' = Some []" "unmarshal_int ''30'' = Some 30" "json_Valid ''{x}'' = False"
  by code_simp+

end
