(* ===== verification/Audit_Service.thy ===== *)
theory Audit_Service
  imports Sku_Service Kernel_Exec Go_Json
begin

section \<open>The audit service\<close>

text \<open>
  \<^verbatim>\<open>src/service/audit.go\<close>: \<open>Submit\<close> decides an audit stage of a SKU's current version. The fast path
  for a repeated action id, the validation (phase 1), the transaction (phase 2) and the mapping of
  its errors (phase 3) are the code's; phases 0 and 1 together are \<open>Submit_preflight\<close>, which yields
  either the action found or the plan the transaction executes.
\<close>

record AuditSubmitParams =
  AS_ActionID :: string
  AS_AssetVersionID :: id
  AS_WholeHash :: string
  AS_Stage :: AuditStage
  AS_Decision :: AuditDecision
  AS_Reason :: "string option"

record AuditSubmitResult =
  AR_Action :: AuditAction
  AR_Jobs :: "DistributionJob list"

text \<open>The validated request: the SKU as read, its next status and the jobs to create.\<close>

record AuditPlan =
  AP_SKUID :: id
  AP_From :: WorkflowStatus
  AP_Next :: WorkflowStatus
  AP_Jobs :: "DistributionJob list"

definition expectedAuditNextStatus :: "AuditStage \<Rightarrow> AuditDecision \<Rightarrow> ErrCode + WorkflowStatus" where
  "expectedAuditNextStatus stage decision =
     (case stage of
        AuditStageA \<Rightarrow>
          (case decision of
             AuditDecisionApprove \<Rightarrow> Inr WorkflowAuditAApproved
           | AuditDecisionReject \<Rightarrow> Inr WorkflowAuditARejected
           | AuditDecisionOther _ \<Rightarrow> Inl ErrCodeInvalidRequest)
      | AuditStageB \<Rightarrow>
          (case decision of
             AuditDecisionApprove \<Rightarrow> Inr WorkflowAuditBApproved
           | AuditDecisionReject \<Rightarrow> Inr WorkflowAuditBRejected
           | AuditDecisionOther _ \<Rightarrow> Inl ErrCodeInvalidRequest)
      | AuditStageOther _ \<Rightarrow> Inl ErrCodeInvalidRequest)"

definition loadDistributionTargets :: "string list kop" where
  "loadDistributionTargets =
     bnd (infra (PolicyRepo_GetByKey ''distribution_targets'')) (\<lambda>p. case p of
       None \<Rightarrow> throw ErrCodeInvalidRequest
     | Some pol \<Rightarrow>
         (case unmarshal_strings (Pol_Value pol) of
            None \<Rightarrow> throw ErrCodeInvalidRequest
          | Some targets \<Rightarrow> if targets = [] then throw ErrCodeInvalidRequest else ret targets))"

text \<open>Go's zero \<^verbatim>\<open>time.Time\<close>, the timestamps of a job that is not yet a row.\<close>

abbreviation zero_time :: time where "zero_time \<equiv> -62135596800000000000"

definition new_job :: "AuditSubmitParams \<Rightarrow> id \<Rightarrow> id \<Rightarrow> string \<Rightarrow> DistributionJob" where
  "new_job p skuID verID target =
     \<lparr>Job_ID = 0, Job_IdempotentKey = AS_ActionID p @ '':'' @ target, Job_ActionID = AS_ActionID p,
      Job_SKUID = skuID, Job_AssetVerID = verID, Job_Target = target,
      Job_Status = JobStatusPendingVerify, Job_VerifyStatus = VerifyStatusNotRequested,
      Job_RetryCount = 0, Job_MaxRetries = 3, Job_CurrentAttemptID = None, Job_NextRetryAt = None,
      Job_CreatedAt = zero_time, Job_UpdatedAt = zero_time\<rparr>"

definition lift_err :: "ErrCode + 'a \<Rightarrow> 'a kop" where
  "lift_err r = (case r of Inl e \<Rightarrow> throw e | Inr x \<Rightarrow> ret x)"

text \<open>The checks of phase 1 on the rows read.\<close>

definition Submit_validate :: "AuditSubmitParams \<Rightarrow> AssetVersion \<Rightarrow> SKU \<Rightarrow> ErrCode + WorkflowStatus" where
  "Submit_validate p assetVer sku =
     (if SKU_CurrentVerID sku \<noteq> Some (AS_AssetVersionID p) then Inl ErrCodeSKUVersionConflict
      else if AV_WholeHash assetVer \<noteq> AS_WholeHash p then Inl ErrCodeHashMismatch
      else if \<not> AV_IsStable assetVer then Inl ErrCodeAssetNotStable
      else if AV_ExistsState assetVer = ExistsStateMissing then Inl ErrCodeAssetMissing
      else (case expectedAuditNextStatus (AS_Stage p) (AS_Decision p) of
              Inl e \<Rightarrow> Inl e
            | Inr nextStatus \<Rightarrow>
                if \<not> CanTransition (SKU_WorkflowStatus sku) nextStatus then Inl ErrCodeInvalidStateTransition
                else Inr nextStatus))"

definition Submit_plan :: "AuditSubmitParams \<Rightarrow> AssetVersion \<Rightarrow> SKU \<Rightarrow> AuditPlan kop" where
  "Submit_plan p assetVer sku =
     bnd (lift_err (Submit_validate p assetVer sku)) (\<lambda>nextStatus.
     bnd (if nextStatus = WorkflowAuditBApproved then loadDistributionTargets else ret []) (\<lambda>targets.
       ret \<lparr>AP_SKUID = SKU_ID sku, AP_From = SKU_WorkflowStatus sku, AP_Next = nextStatus,
            AP_Jobs = map (new_job p (SKU_ID sku) (AV_ID assetVer)) targets\<rparr>))"

definition Submit_preflight :: "AuditSubmitParams \<Rightarrow> (AuditAction + AuditPlan) kop" where
  "Submit_preflight p =
     (if AS_ActionID p = [] \<or> AS_AssetVersionID p \<le> 0 \<or> AS_WholeHash p = [] then throw ErrCodeInvalidRequest
      else bnd (infra (GetByActionID (AS_ActionID p))) (\<lambda>existing. case existing of
        Some a \<Rightarrow> ret (Inl a)
      | None \<Rightarrow>
        bnd (infra (AssetVersionRepo_GetByID (AS_AssetVersionID p))) (\<lambda>av. case av of
          None \<Rightarrow> throw ErrCodeNotFound
        | Some assetVer \<Rightarrow>
          bnd (infra (SKURepo_GetByID (AV_SKUID assetVer))) (\<lambda>s. case s of
            None \<Rightarrow> throw ErrCodeNotFound
          | Some sku \<Rightarrow> bnd (Submit_plan p assetVer sku) (\<lambda>plan. ret (Inr plan))))))"

definition audit_action :: "id \<Rightarrow> AuditSubmitParams \<Rightarrow> AuditAction" where
  "audit_action caller p =
     \<lparr>AA_ID = 0, AA_ActionID = AS_ActionID p, AA_AssetVerID = AS_AssetVersionID p, AA_Stage = AS_Stage p,
      AA_Decision = AS_Decision p, AA_WholeHash = AS_WholeHash p, AA_AuditorID = caller,
      AA_Reason = AS_Reason p, AA_CreatedAt = zero_time\<rparr>"

abbreviation status_payload :: "WorkflowStatus \<Rightarrow> WorkflowStatus \<Rightarrow> string \<Rightarrow> payload" where
  "status_payload a b by_whom \<equiv>
     [(''from'', JStr (ws_string a)), (''to'', JStr (ws_string b)), (''triggered_by'', JStr by_whom)]"

definition job_created_payload :: "DistributionJob \<Rightarrow> payload" where
  "job_created_payload j =
     [(''action_id'', JStr (Job_ActionID j)), (''job_key'', JStr (Job_IdempotentKey j)),
      (''target'', JStr (Job_Target j)), (''status'', JStr (js_string JobStatusPendingVerify)),
      (''asset_version'', JInt (Job_AssetVerID j)), (''verification'', JStr ''pending''),
      (''max_retries'', JInt (Job_MaxRetries j)), (''idempotent_key'', JStr (Job_IdempotentKey j))]"

definition Submit_jobs :: "uuid_source \<Rightarrow> time \<Rightarrow> AuditPlan \<Rightarrow> unit kact" where
  "Submit_jobs U now pl =
     (if AP_Jobs pl = [] then ret ()
      else bnd (CreateBatch now (AP_Jobs pl)) (\<lambda>_.
        for_each (\<lambda>j. bnd (Append U now (AP_SKUID pl) EventJobCreated (job_created_payload j)) (\<lambda>_. ret ()))
          (AP_Jobs pl)))"

definition Submit_tx :: "uuid_source \<Rightarrow> time \<Rightarrow> id \<Rightarrow> AuditSubmitParams \<Rightarrow> AuditPlan \<Rightarrow> unit kact" where
  "Submit_tx U now caller p pl =
     bnd (CASWorkflowStatus now (AP_SKUID pl) (AP_From pl) (AP_Next pl)) (\<lambda>updated.
       if \<not> updated then throw errCASMiss
       else bnd (InsertIdempotent now (audit_action caller p)) (\<lambda>_.
       bnd (Append U now (AP_SKUID pl) EventAuditSubmitted
              [(''action_id'', JStr (AS_ActionID p)), (''asset_version_id'', JInt (AS_AssetVersionID p)),
               (''stage'', JStr (stage_string (AS_Stage p))),
               (''decision'', JStr (decision_string (AS_Decision p)))]) (\<lambda>_.
       if AP_Next pl = WorkflowAuditBApproved then
         bnd (CASWorkflowStatus now (AP_SKUID pl) WorkflowAuditBApproved WorkflowApprovedPendingVerify) (\<lambda>updated2.
           if \<not> updated2 then throw errCASMiss
           else bnd (Submit_jobs U now pl) (\<lambda>_.
           bnd (Append U now (AP_SKUID pl) EventSKUStatusChanged
                  (status_payload (AP_From pl) WorkflowAuditBApproved ''auditor'')) (\<lambda>_.
           bnd (Append U now (AP_SKUID pl) EventSKUStatusChanged
                  (status_payload WorkflowAuditBApproved WorkflowApprovedPendingVerify ''auditor'')) (\<lambda>_.
           ret ()))))
       else
         bnd (Append U now (AP_SKUID pl) EventSKUStatusChanged
                (status_payload (AP_From pl) (AP_Next pl) ''auditor'')) (\<lambda>_. ret ()))))"

definition submit_error :: "db_error \<Rightarrow> ErrCode" where
  "submit_error e =
     (case e of
        errCASMiss \<Rightarrow> ErrCodeInvalidStateTransition
      | ErrDuplicateAuditStage \<Rightarrow> ErrCodeDuplicateAuditAction
      | _ \<Rightarrow> infraError e)"

definition Submit :: "uuid_source \<Rightarrow> time \<Rightarrow> id \<Rightarrow> AuditSubmitParams \<Rightarrow> AuditSubmitResult kop" where
  "Submit U now caller p =
     bnd (Submit_preflight p) (\<lambda>r. case r of
       Inl existing \<Rightarrow> ret \<lparr>AR_Action = existing, AR_Jobs = []\<rparr>
     | Inr plan \<Rightarrow>
         bnd (map_err submit_error (RunInTx (Submit_tx U now caller p plan))) (\<lambda>_.
         bnd (reread (GetByActionID (AS_ActionID p))) (\<lambda>committed.
           ret \<lparr>AR_Action = committed, AR_Jobs = AP_Jobs plan\<rparr>)))"

subsection \<open>The invariant\<close>

definition plan_ok :: "id \<Rightarrow> AuditPlan \<Rightarrow> bool" where
  "plan_ok N pl \<longleftrightarrow> AP_SKUID pl < N \<and> CanTransition (AP_From pl) (AP_Next pl) \<and>
     (\<forall>j \<in> set (AP_Jobs pl). Job_SKUID j = AP_SKUID pl \<and> Job_Status j = JobStatusPendingVerify)"

lemma InsertIdempotent_kinv: "triple (kinv N opn) (InsertIdempotent now a) (\<lambda>_. kinv N opn)"
proof (rule tripleI)
  fix w x w' assume inv: "kinv N opn (wdb w)" and run: "InsertIdempotent now a w = (Inr x, w')"
  have read: "wdb (snd (bnd (GetByActionID b) k w1)) = wdb w1" if "\<And>r v. snd (k r v) = v"
    for b w1 and k :: "AuditAction option \<Rightarrow> (AuditAction option \<times> bool) kact"
    using that by (auto simp: bnd_def GetByActionID_def query_def stmt_def split: list.splits bool.splits)
  show "kinv N opn (wdb w')"
  proof (cases "insert_audit_action now a w")
    case (Pair r w1)
    have "kinv N opn (wdb w1)"
      using Pair inv tripleD [OF insert_audit_action_kinv] stmt_failure
      by (cases r) (auto simp: insert_audit_action_def dest!: stmt_failure)
    moreover have "wdb w' = wdb w1"
      using run Pair read [of "\<lambda>i. case i of None \<Rightarrow> throw ErrDB | Some x \<Rightarrow> ret (Some x, True)" "AA_ActionID a" w1]
        read [of "\<lambda>x. ret (x, False)" "AA_ActionID a" w1]
      by (cases r) (auto simp: InsertIdempotent_def split: if_splits option.splits)
    ultimately show ?thesis by simp
  qed
qed

lemma Submit_jobs_kinv:
  assumes "plan_ok N pl"
  shows "triple (kinv N opn) (Submit_jobs U now pl) (\<lambda>_. kinv N opn)"
proof -
  have each: "triple (kinv N opn) (bnd (Append U now (AP_SKUID pl) EventJobCreated (job_created_payload j)) (\<lambda>_. ret ())) (\<lambda>_. kinv N opn)"
    for j using assms by (intro triple_unit repo_events.append_other) (simp_all add: plan_ok_def)
  have "triple (kinv N opn) (CreateBatch now (AP_Jobs pl)) (\<lambda>_. kinv N opn)"
    using assms by (intro CreateBatch_kinv) (auto simp: plan_ok_def)
  then show ?thesis unfolding Submit_jobs_def
    by (cases "AP_Jobs pl = []") (simp_all add: triple_ret triple_bnd [OF _ triple_for_each [OF each]])
qed

lemma Submit_tx_kinv:
  assumes "plan_ok N pl"
  shows "triple (kinv N Map.empty) (Submit_tx U now caller p pl) (\<lambda>_. kinv N Map.empty)"
proof -
  let ?i = "AP_SKUID pl" and ?a = "AP_From pl" and ?b = "AP_Next pl"
  let ?B = WorkflowAuditBApproved and ?V = WorkflowApprovedPendingVerify
  have i: "?i < N" and ab: "CanTransition ?a ?b" using assms by (simp_all add: plan_ok_def)
  have aud: "triple (kinv N [?i \<mapsto> (?a, ?b)]) (Append U now ?i EventAuditSubmitted pl') (\<lambda>_. kinv N [?i \<mapsto> (?a, ?b)])"
    for pl' using i by (intro repo_events.append_other) simp_all
  have b1: "triple (kinv N [?i \<mapsto> (?a, ?V)]) (Append U now ?i EventSKUStatusChanged (status_payload ?a ?B ''auditor''))
      (\<lambda>_. kinv N [?i \<mapsto> (?B, ?V)])" if "?b = ?B"
    using repo_events.append_status [of ?a ?B "status_payload ?a ?B ''auditor''" ?i N "[?i \<mapsto> (?a, ?V)]" ?V U now] i ab that
    by (simp add: says_def)
  have b2: "triple (kinv N [?i \<mapsto> (?B, ?V)]) (Append U now ?i EventSKUStatusChanged (status_payload ?B ?V ''auditor''))
      (\<lambda>_. kinv N Map.empty)"
    using i by (intro status_event_kinv) (simp_all add: says_def policy_simps)
  have other: "triple (kinv N [?i \<mapsto> (?a, ?b)]) (Append U now ?i EventSKUStatusChanged (status_payload ?a ?b ''auditor''))
      (\<lambda>_. kinv N Map.empty)"
    using i ab by (intro status_event_kinv) (simp_all add: says_def)
  have fin: "triple P (bnd m (\<lambda>_. ret ())) (\<lambda>_. Q)" if "triple P m (\<lambda>_. Q)"
    for P Q and m :: "(kdb, db_error, EventLog) act"
    using that by (rule triple_unit)
  have approve: "triple (kinv N [?i \<mapsto> (?a, ?B)])
     (bnd (CASWorkflowStatus now ?i ?B ?V) (\<lambda>updated2.
           if \<not> updated2 then throw errCASMiss
           else bnd (Submit_jobs U now pl) (\<lambda>_.
           bnd (Append U now ?i EventSKUStatusChanged (status_payload ?a ?B ''auditor'')) (\<lambda>_.
           bnd (Append U now ?i EventSKUStatusChanged (status_payload ?B ?V ''auditor'')) (\<lambda>_. ret ())))))
     (\<lambda>_. kinv N Map.empty)" if "?b = ?B"
    by (rule triple_cas_again) (simp_all only: not_True_eq_False not_False_eq_True if_True if_False triple_throw
        triple_bnd [OF Submit_jobs_kinv [OF assms] triple_bnd [OF b1 [OF that] fin [OF b2]]])
  show ?thesis unfolding Submit_tx_def
  proof (rule triple_cas, goal_cases)
    case 1
    show ?case unfolding not_True_eq_False if_False
      by (rule triple_bnd [OF InsertIdempotent_kinv], rule triple_bnd [OF aud], cases "?b = ?B")
        (simp_all only: simp_thms if_True if_False approve fin [OF other])
  next
    case 2
    show ?case unfolding not_False_eq_True if_True by (rule triple_throw)
  qed
qed

subsection \<open>What the preflight promises\<close>

text \<open>The plan that a preflight on database \<open>d\<close> may return.\<close>

definition plan_of :: "kdb \<Rightarrow> AuditSubmitParams \<Rightarrow> AuditPlan \<Rightarrow> bool" where
  "plan_of d p pl \<longleftrightarrow> (\<exists>assetVer sku targets.
     List.find (\<lambda>a. AA_ActionID a = AS_ActionID p) (audit_actions d) = None \<and>
     List.find (\<lambda>v. AV_ID v = AS_AssetVersionID p) (asset_versions d) = Some assetVer \<and>
     List.find (\<lambda>s. SKU_ID s = AV_SKUID assetVer) (skus d) = Some sku \<and>
     Submit_validate p assetVer sku = Inr (AP_Next pl) \<and>
     AP_SKUID pl = SKU_ID sku \<and> AP_From pl = SKU_WorkflowStatus sku \<and>
     AP_Jobs pl = map (new_job p (SKU_ID sku) (AV_ID assetVer)) targets \<and>
     (AP_Next pl = WorkflowAuditBApproved \<longleftrightarrow> targets \<noteq> []))"

lemma loadDistributionTargets_ok:
  "loadDistributionTargets w = (Inr ts, w') \<Longrightarrow> ts \<noteq> [] \<and> wdb w' = wdb w"
  by (auto simp: loadDistributionTargets_def PolicyRepo_GetByKey_def act_success
      split: option.splits if_splits dest!: query_success)

lemma lift_err_Inr [simp]: "lift_err r w = (Inr x, w') \<longleftrightarrow> r = Inr x \<and> w' = w"
  by (auto simp: lift_err_def split: sum.splits)

lemma infra_query:
  "infra (query g) w = (Inr x, w') \<Longrightarrow> g (wdb w) = x \<and> wdb w' = wdb w"
  by (auto simp: act_success dest: query_success)

lemma Submit_plan_ok:
  assumes "Submit_plan p av sku w = (Inr pl, w')"
  shows "Submit_validate p av sku = Inr (AP_Next pl) \<and> AP_SKUID pl = SKU_ID sku \<and>
     AP_From pl = SKU_WorkflowStatus sku \<and> wdb w' = wdb w \<and>
     (\<exists>targets. AP_Jobs pl = map (new_job p (SKU_ID sku) (AV_ID av)) targets \<and>
        (AP_Next pl = WorkflowAuditBApproved \<longleftrightarrow> targets \<noteq> []))"
  using assms by (auto simp: Submit_plan_def bnd_eq_Inr split: if_splits dest!: loadDistributionTargets_ok)

lemma Submit_preflight_plan:
  assumes "Submit_preflight p w = (Inr (Inr pl), w')"
  shows "plan_of (wdb w) p pl \<and> wdb w' = wdb w"
  using assms unfolding Submit_preflight_def GetByActionID_def AssetVersionRepo_GetByID_def SKURepo_GetByID_def
  by (auto simp: bnd_eq_Inr plan_of_def split: if_splits option.splits dest!: infra_query Submit_plan_ok)
    blast

lemma plan_of_ok:
  assumes "plan_of d p pl" "kinv N Map.empty d"
  shows "plan_ok (next_sku d) pl"
proof -
  from assms(1) obtain av sku where "List.find (\<lambda>s. SKU_ID s = AV_SKUID av) (skus d) = Some sku"
    "Submit_validate p av sku = Inr (AP_Next pl)" "AP_SKUID pl = SKU_ID sku" "AP_From pl = SKU_WorkflowStatus sku"
    "\<exists>targets. AP_Jobs pl = map (new_job p (SKU_ID sku) (AV_ID av)) targets"
    unfolding plan_of_def by blast
  then show ?thesis using assms(2) find_SomeD
    by (fastforce simp: plan_ok_def kinv_def sku_inv_def Submit_validate_def new_job_def split: if_splits sum.splits)
qed

subsection \<open>What the transaction does\<close>

definition ins_job :: "time \<Rightarrow> DistributionJob \<Rightarrow> kdb \<Rightarrow> kdb" where
  "ins_job now j d =
     (if List.find (\<lambda>x. Job_IdempotentKey x = Job_IdempotentKey j) (distribution_jobs d) \<noteq> None then d
      else d\<lparr>distribution_jobs := distribution_jobs d @
              [j\<lparr>Job_ID := next_job d, Job_VerifyStatus := VerifyStatusNotRequested,
                 Job_RetryCount := 0, Job_CurrentAttemptID := None, Job_NextRetryAt := None,
                 Job_CreatedAt := now, Job_UpdatedAt := now\<rparr>],
            next_job := next_job d + 1\<rparr>)"

lemma at_insert_ignore_job:
  "returns (at U d0 D ts) (insert_ignore_job now j) (\<lambda>_. at U d0 (ins_job now j D) ts)"
  unfolding insert_ignore_job_def ins_job_def [symmetric]
  by (rule at_exec) (simp_all add: ins_job_def)

lemma at_CreateBatch:
  "returns (at U d0 D ts) (CreateBatch now js) (\<lambda>_. at U d0 (fold (ins_job now) js D) ts)"
  unfolding CreateBatch_def
proof (induction js arbitrary: D)
  case Nil
  show ?case by (simp add: returns_ret)
next
  case (Cons j js)
  show ?case using returns_bnd [OF at_insert_ignore_job Cons.IH] by simp
qed

definition with_action :: "time \<Rightarrow> AuditAction \<Rightarrow> kdb \<Rightarrow> kdb" where
  "with_action now a d = d\<lparr>audit_actions := audit_actions d @ [a\<lparr>AA_ID := next_action d, AA_CreatedAt := now\<rparr>],
     next_action := next_action d + 1\<rparr>"

lemma at_InsertIdempotent:
  assumes "List.find (\<lambda>x. AA_ActionID x = AA_ActionID a) (audit_actions D) = None"
    and "List.find (\<lambda>x. AA_AssetVerID x = AA_AssetVerID a \<and> AA_Stage x = AA_Stage a) (audit_actions D) = None"
  shows "returns (at U d0 D ts) (InsertIdempotent now a) (\<lambda>_. at U d0 (with_action now a D) ts)"
proof -
  have ins: "returns (at U d0 D ts) (insert_audit_action now a) (\<lambda>_. at U d0 (with_action now a D) ts)"
    unfolding insert_audit_action_def
    by (rule returns_stmt) (use assms in \<open>auto simp: at_def with_action_def seq_inv_def sku_events_def last_seq_def uuid_fresh_def\<close>)
  have found: "List.find (\<lambda>x. AA_ActionID x = AA_ActionID a) (audit_actions (with_action now a D)) \<noteq> None"
    using assms(1) by (simp add: with_action_def find_append)
  let ?k = "\<lambda>i. case i of None \<Rightarrow> throw ErrDB | Some x \<Rightarrow> ret (Some x, True)"
  have "returns (at U d0 (with_action now a D) ts) (GetByActionID (AA_ActionID a))
      (\<lambda>x d. x = List.find (\<lambda>x. AA_ActionID x = AA_ActionID a) (audit_actions (with_action now a D)) \<and> at U d0 (with_action now a D) ts d)"
    unfolding GetByActionID_def by (rule at_query) simp
  then have get: "returns (at U d0 (with_action now a D) ts) (bnd (GetByActionID (AA_ActionID a)) ?k) (\<lambda>_. at U d0 (with_action now a D) ts)"
    by (rule returns_bnd) (use found in \<open>auto simp: returns_def triple_def runs_def ret_def split: option.splits\<close>)
  have eq: "InsertIdempotent now a w = bnd (insert_audit_action now a) (\<lambda>_. bnd (GetByActionID (AA_ActionID a)) ?k) w"
    if "at U d0 D ts (wdb w)" for w
  proof -
    have "audit_actions (wdb w) = audit_actions D" using that by (auto simp: at_def)
    then show ?thesis using assms
      by (auto simp: InsertIdempotent_def bnd_def insert_audit_action_def stmt_def split: list.splits bool.splits)
  qed
  from returns_bnd [OF ins get] show ?thesis using eq by (simp add: returns_def triple_def runs_def)
qed

text \<open>One abstract step for the whole transaction: the SKU moves, the action and the jobs appear.\<close>

definition final_status :: "WorkflowStatus \<Rightarrow> WorkflowStatus" where
  "final_status s = (if s = WorkflowAuditBApproved then WorkflowApprovedPendingVerify else s)"

definition submit_spec :: "time \<Rightarrow> id \<Rightarrow> AuditSubmitParams \<Rightarrow> AuditPlan \<Rightarrow> kdb \<Rightarrow> kdb" where
  "submit_spec now caller p pl d = fold (ins_job now) (AP_Jobs pl) (with_action now (audit_action caller p)
     (d\<lparr>skus := row_upd (\<lambda>s. SKU_ID s = AP_SKUID pl)
        (\<lambda>s. s\<lparr>SKU_WorkflowStatus := final_status (AP_Next pl), SKU_UpdatedAt := now\<rparr>) (skus d)\<rparr>))"

definition submit_events :: "AuditPlan \<Rightarrow> (id \<times> string) list" where
  "submit_events pl = map (Pair (AP_SKUID pl)) ([EventAuditSubmitted] @
     replicate (length (AP_Jobs pl)) EventJobCreated @ [EventSKUStatusChanged] @
     (if AP_Next pl = WorkflowAuditBApproved then [EventSKUStatusChanged] else []))"

lemma row_upd_found:
  assumes "distinct (map SKU_ID xs)" "List.find (\<lambda>s. SKU_ID s = i) xs = Some s" "P s"
  shows "row_upd (\<lambda>x. SKU_ID x = i \<and> P x) f xs = row_upd (\<lambda>x. SKU_ID x = i) f xs"
proof -
  have "SKU_ID x = i \<and> P x \<longleftrightarrow> SKU_ID x = i" if "x \<in> set xs" for x
    using assms that find_SomeD [OF assms(2)] distinct_key_eq [of SKU_ID xs x s] by auto
  then show ?thesis by (auto simp: row_upd_def)
qed

lemma row_upd_twice:
  "(\<And>x. SKU_ID (f x) = SKU_ID x) \<Longrightarrow> (\<And>x. P (f x)) \<Longrightarrow>
   row_upd (\<lambda>x. SKU_ID x = i \<and> P x) g (row_upd (\<lambda>x. SKU_ID x = i) f xs) = row_upd (\<lambda>x. SKU_ID x = i) (\<lambda>x. g (f x)) xs"
  by (simp add: row_upd_def)

lemma filter_row_upd_found:
  "(\<And>x. SKU_ID (f x) = SKU_ID x) \<Longrightarrow> (\<And>x. P (f x)) \<Longrightarrow>
   length (filter (\<lambda>x. SKU_ID x = i \<and> P x) (row_upd (\<lambda>x. SKU_ID x = i) f xs)) = length (filter (\<lambda>x. SKU_ID x = i) xs)"
  by (induction xs) auto

lemma returns_cond: "(c \<Longrightarrow> returns P m Q) \<Longrightarrow> c \<Longrightarrow> returns P (if c then m else m') Q"
  by simp

lemma returns_eq: "returns (P v) (k v) Q \<Longrightarrow> returns (\<lambda>d. x = v \<and> P v d) (k x) Q"
  by (cases "x = v") (auto simp: returns_def triple_def runs_def)

definition submit_ready :: "AuditSubmitParams \<Rightarrow> AuditPlan \<Rightarrow> kdb \<Rightarrow> bool" where
  "submit_ready p pl d \<longleftrightarrow> distinct (map SKU_ID (skus d)) \<and>
     (\<exists>s. List.find (\<lambda>s. SKU_ID s = AP_SKUID pl) (skus d) = Some s \<and> SKU_WorkflowStatus s = AP_From pl) \<and>
     List.find (\<lambda>x. AA_ActionID x = AS_ActionID p) (audit_actions d) = None \<and>
     List.find (\<lambda>x. AA_AssetVerID x = AS_AssetVersionID p \<and> AA_Stage x = AS_Stage p) (audit_actions d) = None \<and>
     (AP_Next pl = WorkflowAuditBApproved \<longleftrightarrow> AP_Jobs pl \<noteq> [])"

definition set_status :: "time \<Rightarrow> id \<Rightarrow> WorkflowStatus \<Rightarrow> kdb \<Rightarrow> kdb" where
  "set_status now i st d = d\<lparr>skus := row_upd (\<lambda>s. SKU_ID s = i)
     (\<lambda>s. s\<lparr>SKU_WorkflowStatus := st, SKU_UpdatedAt := now\<rparr>) (skus d)\<rparr>"

lemma at_CAS_hit:
  assumes "distinct (map SKU_ID (skus D))" "List.find (\<lambda>s. SKU_ID s = i) (skus D) = Some s" "SKU_WorkflowStatus s = a"
    and k: "returns (at U d0 (set_status now i b D) ts) (k True) Q"
  shows "returns (at U d0 D ts) (bnd (CASWorkflowStatus now i a b) k) Q"
proof -
  have one: "length (filter (\<lambda>s. SKU_ID s = i \<and> SKU_WorkflowStatus s = a) (skus D)) = 1"
  proof -
    have "filter (\<lambda>s. SKU_ID s = i \<and> SKU_WorkflowStatus s = a) (skus D) \<noteq> []"
      using find_SomeD [OF assms(2)] assms(3) by (auto simp: filter_empty_conv)
    then show ?thesis using one_row [OF assms(1), of i "\<lambda>s. SKU_WorkflowStatus s = a"]
      by (cases "filter (\<lambda>s. SKU_ID s = i \<and> SKU_WorkflowStatus s = a) (skus D)") auto
  qed
  have "returns (at U d0 D ts) (CASWorkflowStatus now i a b) (\<lambda>ok d. ok = True \<and> at U d0 (set_status now i b D) ts d)"
    by (rule returns_post [OF at_CAS])
      (use one row_upd_found [OF assms(1,2), of "\<lambda>s. SKU_WorkflowStatus s = a"] assms(3) in \<open>simp add: set_status_def\<close>)
  then show ?thesis
  proof (rule returns_bnd, goal_cases)
    case (1 ok)
    show ?case by (rule returns_eq [where P = "\<lambda>_. at U d0 (set_status now i b D) ts" and v = True]) (rule k)
  qed
qed

lemma set_status_simps [simp]:
  "map SKU_ID (skus (set_status now i st d)) = map SKU_ID (skus d)"
  "List.find (\<lambda>s. SKU_ID s = i) (skus (set_status now i st d)) =
     map_option (\<lambda>s. s\<lparr>SKU_WorkflowStatus := st, SKU_UpdatedAt := now\<rparr>) (List.find (\<lambda>s. SKU_ID s = i) (skus d))"
  "set_status now i st' (with_action now a (set_status now i st d)) = with_action now a (set_status now i st' d)"
  "audit_actions (set_status now i st d) = audit_actions d"
  "skus (with_action now a d) = skus d"
  by (simp_all add: set_status_def with_action_def map_row_upd find_row_upd)
    (auto simp: row_upd_def find_Some_iff find_None_iff intro!: option.map_cong0 split: option.splits)

lemma Submit_tx_at:
  assumes "inj U" "submit_ready p pl D"
  shows "returns (at U d0 D []) (Submit_tx U now caller p pl)
     (\<lambda>_. at U d0 (submit_spec now caller p pl D) (submit_events pl))"
proof -
  let ?i = "AP_SKUID pl" and ?a = "AP_From pl" and ?b = "AP_Next pl" and ?A = "audit_action caller p"
  let ?B = WorkflowAuditBApproved and ?V = WorkflowApprovedPendingVerify
  let ?t1 = "[(?i, EventAuditSubmitted)]"
  from assms(2) obtain s where D: "distinct (map SKU_ID (skus D))" "List.find (\<lambda>s. SKU_ID s = ?i) (skus D) = Some s"
    "SKU_WorkflowStatus s = ?a" and free: "List.find (\<lambda>x. AA_ActionID x = AS_ActionID p) (audit_actions D) = None"
    "List.find (\<lambda>x. AA_AssetVerID x = AS_AssetVersionID p \<and> AA_Stage x = AS_Stage p) (audit_actions D) = None"
    and jobs: "?b = ?B \<longleftrightarrow> AP_Jobs pl \<noteq> []"
    unfolding submit_ready_def by blast
  note ap = at_append [OF assms(1)]
  show ?thesis unfolding Submit_tx_def
  proof (rule at_CAS_hit [OF D], unfold not_True_eq_False if_False, rule returns_bnd [OF at_InsertIdempotent],
      goal_cases)
    case 1 then show ?case using free(1) by (simp add: audit_action_def)
  next
    case 2 then show ?case using free(2) by (simp add: audit_action_def)
  next
    case 3
    let ?D1 = "with_action now ?A (set_status now ?i ?b D)"
    show ?case
    proof (rule returns_bnd [OF ap], unfold append_Nil, cases "?b = ?B", goal_cases)
      case (1 x)
      then have True: "?b = ?B" by simp
      let ?D2 = "with_action now ?A (set_status now ?i ?V D)"
      let ?D3 = "fold (ins_job now) (AP_Jobs pl) ?D2"
      let ?n = "length (AP_Jobs pl)"
      have jobs_at: "returns (at U d0 ?D2 ?t1) (Submit_jobs U now pl) (\<lambda>_. at U d0 ?D3 (?t1 @ replicate ?n (?i, EventJobCreated)))"
        unfolding Submit_jobs_def if_not_P [OF iffD1 [OF jobs True]]
        by (rule returns_bnd [OF at_CreateBatch at_append_each [OF assms(1)]])
      have "at U d0 ?D3 (((?t1 @ replicate ?n (?i, EventJobCreated)) @ [(?i, EventSKUStatusChanged)]) @ [(?i, EventSKUStatusChanged)])
          = at U d0 (submit_spec now caller p pl D) (submit_events pl)"
        using True by (simp add: submit_spec_def submit_events_def final_status_def set_status_def map_replicate)
      then have tail: "returns (at U d0 ?D3 ((?t1 @ replicate ?n (?i, EventJobCreated)) @ [(?i, EventSKUStatusChanged)]))
          (bnd (Append U now ?i EventSKUStatusChanged (status_payload ?B ?V ''auditor'')) (\<lambda>_. ret ()))
          (\<lambda>_. at U d0 (submit_spec now caller p pl D) (submit_events pl))"
        using at_append_unit [OF assms(1), of d0 ?D3 "(?t1 @ replicate ?n (?i, EventJobCreated)) @ [(?i, EventSKUStatusChanged)]"]
        by metis
      have hit: "distinct (map SKU_ID (skus ?D1))"
        "List.find (\<lambda>s. SKU_ID s = ?i) (skus ?D1) = Some (s\<lparr>SKU_WorkflowStatus := ?b, SKU_UpdatedAt := now\<rparr>)"
        using D by simp_all
      show ?case unfolding True simp_thms if_True
        by (rule at_CAS_hit [OF hit [unfolded True]], simp,
            unfold not_True_eq_False if_False set_status_simps,
            rule returns_bnd [OF jobs_at returns_bnd [OF ap tail]])
    next
      case (2 x)
      then have False: "?b \<noteq> ?B" and "AP_Jobs pl = []" using jobs by blast+
      then have "at U d0 ?D1 (?t1 @ [(?i, EventSKUStatusChanged)]) = at U d0 (submit_spec now caller p pl D) (submit_events pl)"
        by (simp add: submit_spec_def submit_events_def final_status_def set_status_def)
      then show ?case unfolding if_not_P [OF False] using at_append_unit [OF assms(1), of d0 ?D1 ?t1] by metis
    qed
  qed
qed

subsection \<open>Submit as a whole\<close>

lemma bnd_guard_Inr:
  "bnd m (\<lambda>u. if \<not> u then throw e else bnd n k) w = (Inr x, w') \<Longrightarrow> \<exists>w1 y w2. m w = (Inr True, w1) \<and> n w1 = (Inr y, w2)"
  by (auto simp: bnd_eq_Inr split: if_splits)

lemma Submit_tx_stage:
  assumes "Submit_tx U now caller p pl w = (Inr x, w')"
    "List.find (\<lambda>x. AA_ActionID x = AS_ActionID p) (audit_actions (wdb w)) = None"
  shows "List.find (\<lambda>x. AA_AssetVerID x = AS_AssetVersionID p \<and> AA_Stage x = AS_Stage p) (audit_actions (wdb w)) = None"
proof -
  obtain w1 r w2 where cas: "CASWorkflowStatus now (AP_SKUID pl) (AP_From pl) (AP_Next pl) w = (Inr True, w1)"
    and ins: "InsertIdempotent now (audit_action caller p) w1 = (Inr r, w2)"
    using bnd_guard_Inr [OF assms(1) [unfolded Submit_tx_def]] by auto
  have "audit_actions (wdb w1) = audit_actions (wdb w)" using CASWorkflowStatus_ok [OF cas] by simp
  with ins assms(2) show ?thesis
    by (auto simp: InsertIdempotent_def insert_audit_action_def stmt_def audit_action_def
        split: list.splits bool.splits if_splits)
qed

lemma plan_of_ready:
  assumes "plan_of d p pl" "kinv N Map.empty d"
    "List.find (\<lambda>x. AA_AssetVerID x = AS_AssetVersionID p \<and> AA_Stage x = AS_Stage p) (audit_actions d) = None"
  shows "submit_ready p pl (nolog d)"
  using assms(1) [unfolded plan_of_def]
proof (elim exE conjE, goal_cases)
  case (1 av sku targets)
  then have "SKU_ID sku = AV_SKUID av" by (auto dest: find_SomeD)
  with 1 assms(2,3) show ?case by (simp add: submit_ready_def kinv_def sku_inv_def)
qed

lemma Submit_committed:
  assumes "inj U" "kinv N Map.empty (wdb w)" "uuid_fresh U (wdb w)" "plan_of (wdb w) p pl"
    and tx: "RunInTx (Submit_tx U now caller p pl) w = (Inr x, w')"
  shows "at U (wdb w) (submit_spec now caller p pl (nolog (wdb w))) (submit_events pl) (wdb w')"
proof -
  from RunInTx_success [OF tx] obtain w1 w2 where w1: "wdb w1 = wdb w"
    and body: "Submit_tx U now caller p pl w1 = (Inr x, w2)" and w2: "wdb w' = wdb w2" by auto
  have "List.find (\<lambda>a. AA_ActionID a = AS_ActionID p) (audit_actions (wdb w1)) = None"
    using assms(4) w1 by (auto simp: plan_of_def)
  then have "submit_ready p pl (nolog (wdb w))"
    using plan_of_ready [OF assms(4,2)] Submit_tx_stage [OF body] w1 by simp
  then have "triple (at U (wdb w) (nolog (wdb w)) []) (Submit_tx U now caller p pl)
      (\<lambda>_. at U (wdb w) (submit_spec now caller p pl (nolog (wdb w))) (submit_events pl))"
    by (intro returns_triple Submit_tx_at assms(1))
  moreover have "at U (wdb w) (nolog (wdb w)) [] (wdb w1)"
    using assms(2,3) w1 at_start by (simp add: kinv_def)
  ultimately show ?thesis using tripleD body w2 by metis
qed

lemma keeps_infra_query: "keeps I (infra (query g))"
  by (intro keeps_map_err keeps_query)

lemma loadDistributionTargets_keeps: "keeps I loadDistributionTargets"
  unfolding loadDistributionTargets_def PolicyRepo_GetByKey_def
  by (intro keeps_bnd keeps_infra_query) (auto split: option.splits)

lemma Submit_plan_keeps: "keeps I (Submit_plan p av sku)"
  unfolding Submit_plan_def lift_err_def
  by (intro keeps_bnd) (auto split: sum.splits intro: loadDistributionTargets_keeps)

lemma Submit_preflight_keeps: "keeps I (Submit_preflight p)"
  unfolding Submit_preflight_def GetByActionID_def AssetVersionRepo_GetByID_def SKURepo_GetByID_def
  by (auto split: option.splits intro!: keeps_bnd keeps_ret keeps_throw keeps_infra_query Submit_plan_keeps)

lemma Submit_preflight_db: "wdb (snd (Submit_preflight p w)) = wdb w"
  using Submit_preflight_keeps [of "\<lambda>d. d = wdb w" p] by (simp add: keeps_def)

lemma reread_keeps: "keeps I (reread (query g))"
  unfolding reread_def by (auto intro!: keeps_bnd keeps_ret keeps_throw keeps_infra_query split: option.splits)

lemma Submit_tail_db:
  "wdb (snd (bnd (reread (GetByActionID a)) (\<lambda>c. ret (f c)) w)) = wdb w"
proof -
  have "keeps (\<lambda>d. d = wdb w) (bnd (reread (GetByActionID a)) (\<lambda>c. ret (f c)))"
    unfolding GetByActionID_def by (intro keeps_bnd reread_keeps keeps_ret)
  then show ?thesis by (simp add: keeps_def)
qed

lemma Submit_db:
  assumes "inj U" "kinv N Map.empty (wdb w)" "uuid_fresh U (wdb w)"
  shows "wdb (snd (Submit U now caller p w)) = wdb w \<or>
    (\<exists>pl. plan_of (wdb w) p pl \<and>
       at U (wdb w) (submit_spec now caller p pl (nolog (wdb w))) (submit_events pl) (wdb (snd (Submit U now caller p w))))"
proof (cases "Submit_preflight p w")
  case (Pair r w1)
  have w1: "wdb w1 = wdb w" using Submit_preflight_db [of p w] Pair by simp
  consider e where "r = Inl e" | a where "r = Inr (Inl a)" | pl where "r = Inr (Inr pl)"
    by (cases r; cases "projr r") auto
  then show ?thesis
  proof cases
    case (3 pl)
    have plan: "plan_of (wdb w1) p pl" using Submit_preflight_plan Pair 3 w1 by metis
    show ?thesis
    proof (cases "RunInTx (Submit_tx U now caller p pl) w1")
      case run: (Pair r2 w2)
      show ?thesis
      proof (cases r2)
        case (Inl e)
        then have "wdb w2 = wdb w" using run RunInTx_failure w1 by metis
        then show ?thesis using Pair 3 run Inl by (simp add: Submit_def bnd_def map_err_def)
      next
        case (Inr v)
        then have "at U (wdb w) (submit_spec now caller p pl (nolog (wdb w))) (submit_events pl) (wdb w2)"
          using Submit_committed [of U N w1 p pl now caller v w2] run plan assms w1 by simp
        moreover have "wdb (snd (Submit U now caller p w)) = wdb w2"
          using Pair 3 run Inr Submit_tail_db by (simp add: Submit_def bnd_run_Inr map_err_Inr)
        ultimately show ?thesis using plan w1 by auto
      qed
    qed
  qed (use Pair w1 in \<open>simp_all add: Submit_def bnd_def\<close>)
qed

lemma Submit_repeat:
  assumes "faults w = []" "AS_ActionID p \<noteq> []" "AS_AssetVersionID p > 0" "AS_WholeHash p \<noteq> []"
    "List.find (\<lambda>x. AA_ActionID x = AS_ActionID p) (audit_actions (wdb w)) = Some a"
  shows "Submit U now caller p w = (Inr \<lparr>AR_Action = a, AR_Jobs = []\<rparr>, w)"
  using assms by (simp add: Submit_def Submit_preflight_def GetByActionID_def bnd_def map_err_def query_nofault ret_def)

lemma Submit_runs:
  assumes "inj U" "kinv N Map.empty (wdb w)" "uuid_fresh U (wdb w)" "faults w = []"
    and pre: "Submit_preflight p w = (Inr (Inr pl), w)"
    and stage: "List.find (\<lambda>x. AA_AssetVerID x = AS_AssetVersionID p \<and> AA_Stage x = AS_Stage p) (audit_actions (wdb w)) = None"
  shows "\<exists>r w'. Submit U now caller p w = (Inr r, w') \<and> AR_Jobs r = AP_Jobs pl \<and> AA_ActionID (AR_Action r) = AS_ActionID p \<and>
    at U (wdb w) (submit_spec now caller p pl (nolog (wdb w))) (submit_events pl) (wdb w')"
proof -
  have plan: "plan_of (wdb w) p pl" using Submit_preflight_plan [OF pre] by simp
  let ?S = "submit_spec now caller p pl (nolog (wdb w))"
  have "returns (at U (wdb w) (nolog (wdb w)) []) (RunInTx (Submit_tx U now caller p pl)) (\<lambda>_. at U (wdb w) ?S (submit_events pl))"
    by (rule returns_RunInTx [OF Submit_tx_at [OF assms(1) plan_of_ready [OF plan assms(2) stage]]])
  from returns_run [OF this] obtain x w1 where
    tx: "RunInTx (Submit_tx U now caller p pl) w = (Inr x, w1)" "faults w1 = []" "at U (wdb w) ?S (submit_events pl) (wdb w1)"
    using at_start [of "wdb w" U] assms by (auto simp: kinv_def)
  have "audit_actions (fold (ins_job now) js d) = audit_actions d" for js d
    by (induction js arbitrary: d) (simp_all add: ins_job_def)
  then have "audit_actions (wdb w1) = audit_actions (wdb w) @ [(audit_action caller p)\<lparr>AA_ID := next_action (wdb w), AA_CreatedAt := now\<rparr>]"
    using tx(3) by (auto simp: at_def submit_spec_def with_action_def dest: arg_cong [of _ _ audit_actions])
  moreover have "List.find (\<lambda>a. AA_ActionID a = AS_ActionID p) (audit_actions (wdb w)) = None" using plan by (auto simp: plan_of_def)
  ultimately obtain a where a: "List.find (\<lambda>x. AA_ActionID x = AS_ActionID p) (audit_actions (wdb w1)) = Some a"
    by (simp add: find_append audit_action_def)
  then have "AA_ActionID a = AS_ActionID p" by (auto dest: find_SomeD)
  moreover have "Submit U now caller p w = (Inr \<lparr>AR_Action = a, AR_Jobs = AP_Jobs pl\<rparr>, w1)"
    using pre tx(1,2) a by (simp add: Submit_def bnd_def map_err_def reread_def GetByActionID_def query_nofault ret_def)
  ultimately show ?thesis using tx(3) by auto
qed

lemma Submit_ok_found:
  assumes "Submit U now caller p w = (Inr r, w1)"
  shows "AS_ActionID p \<noteq> [] \<and> AS_AssetVersionID p > 0 \<and> AS_WholeHash p \<noteq> []"
    "List.find (\<lambda>x. AA_ActionID x = AS_ActionID p) (audit_actions (wdb w1)) = Some (AR_Action r)"
proof -
  show "AS_ActionID p \<noteq> [] \<and> AS_AssetVersionID p > 0 \<and> AS_WholeHash p \<noteq> []"
    using assms by (auto simp: Submit_def Submit_preflight_def bnd_eq_Inr split: if_splits)
  from assms obtain x v where pre: "Submit_preflight p w = (Inr x, v)" and rest: "(case x of
       Inl existing \<Rightarrow> ret \<lparr>AR_Action = existing, AR_Jobs = []\<rparr>
     | Inr plan \<Rightarrow>
         bnd (map_err submit_error (RunInTx (Submit_tx U now caller p plan))) (\<lambda>_.
         bnd (reread (GetByActionID (AS_ActionID p))) (\<lambda>committed.
           ret \<lparr>AR_Action = committed, AR_Jobs = AP_Jobs plan\<rparr>))) v = (Inr r, w1)"
    unfolding Submit_def bnd_eq_Inr by blast
  show "List.find (\<lambda>x. AA_ActionID x = AS_ActionID p) (audit_actions (wdb w1)) = Some (AR_Action r)"
  proof (cases x)
    case (Inl a)
    have "List.find (\<lambda>x. AA_ActionID x = AS_ActionID p) (audit_actions (wdb w)) = Some a"
      using pre Inl unfolding Submit_preflight_def GetByActionID_def
      by (auto simp: bnd_eq_Inr split: if_splits option.splits dest!: infra_query)
    then show ?thesis using rest Inl Submit_preflight_db [of p w] pre by auto
  next
    case (Inr plan)
    with rest show ?thesis
      by (auto simp: bnd_eq_Inr reread_def GetByActionID_def split: option.splits dest!: infra_query)
  qed
qed

subsection \<open>Properties\<close>

text \<open>
  (C15) \<open>Submit\<close> is all or nothing. Whatever statements fail, the database afterwards is either
  unchanged, or every check of phase 1 held when the call began (the version is the SKU's current one,
  its hash is the submitted one, it is stable and present, stage and decision name a status the
  policy allows next) and exactly the abstract step has happened: the SKU has its final status, the
  action is recorded, the jobs of all targets are there, and the events written are
  \<^verbatim>\<open>audit.submitted\<close>, one \<^verbatim>\<open>job.created\<close> per target and one \<^verbatim>\<open>sku.status_changed\<close> per status passed.
\<close>

theorem audit_submit_all_or_nothing:
  assumes "inj U" "kinv N Map.empty (wdb w)" "uuid_fresh U (wdb w)"
  shows "wdb (snd (Submit U now caller p w)) = wdb w \<or>
    (\<exists>pl. plan_of (wdb w) p pl \<and>
       at U (wdb w) (submit_spec now caller p pl (nolog (wdb w))) (submit_events pl) (wdb (snd (Submit U now caller p w))))"
  using assms by (rule Submit_db)

definition approve_params :: AuditSubmitParams where
  "approve_params = \<lparr>AS_ActionID = ''a1'', AS_AssetVersionID = 1, AS_WholeHash = ''h'', AS_Stage = AuditStageB,
     AS_Decision = AuditDecisionApprove, AS_Reason = None\<rparr>"

definition approve_plan :: AuditPlan where
  "approve_plan = \<lparr>AP_SKUID = 1, AP_From = WorkflowAuditBPending, AP_Next = WorkflowAuditBApproved,
     AP_Jobs = [new_job approve_params 1 1 ''w'']\<rparr>"

lemma approve_preflight: "Submit_preflight approve_params (quiet audit_kdb) = (Inr (Inr approve_plan), quiet audit_kdb)"
proof -
  have t: "unmarshal_strings (Pol_Value targets_policy) = Some [''w'']" by code_simp
  have "loadDistributionTargets (quiet audit_kdb) = (Inr [''w''], quiet audit_kdb)"
    using t by (simp add: loadDistributionTargets_def PolicyRepo_GetByKey_def bnd_def map_err_def act_simps audit_kdb_def)
      (simp add: targets_policy_def act_simps)
  then show ?thesis
    by (simp add: Submit_preflight_def Submit_plan_def Submit_validate_def expectedAuditNextStatus_def
        GetByActionID_def AssetVersionRepo_GetByID_def SKURepo_GetByID_def lift_err_def bnd_def map_err_def act_simps
        audit_kdb_def empty_kdb_def draft_sku_def stable_version_def approve_params_def approve_plan_def policy_simps)
qed

theorem audit_submit_all_or_nothing_witness:
  "wdb (snd (Submit example_uuid 9 5 approve_params (quiet audit_kdb))) = audit_kdb \<or>
    (\<exists>pl. plan_of audit_kdb approve_params pl \<and>
       at example_uuid audit_kdb (submit_spec 9 5 approve_params pl (nolog audit_kdb)) (submit_events pl)
         (wdb (snd (Submit example_uuid 9 5 approve_params (quiet audit_kdb)))))"
  using audit_submit_all_or_nothing [of example_uuid 2 "quiet audit_kdb" 9 5 approve_params]
    example_uuid_inj audit_kdb_kinv audit_kdb_fresh by simp

text \<open>
  When no statement fails, the checks of phase 1 hold and the stage has not been decided,
  \<open>Submit\<close> returns the new action and the jobs of the plan, and has done the abstract step.
\<close>

theorem audit_submit_succeeds:
  assumes "inj U" "kinv N Map.empty (wdb w)" "uuid_fresh U (wdb w)" "faults w = []"
    "Submit_preflight p w = (Inr (Inr pl), w)"
    "List.find (\<lambda>x. AA_AssetVerID x = AS_AssetVersionID p \<and> AA_Stage x = AS_Stage p) (audit_actions (wdb w)) = None"
  shows "\<exists>r w'. Submit U now caller p w = (Inr r, w') \<and> AR_Jobs r = AP_Jobs pl \<and> AA_ActionID (AR_Action r) = AS_ActionID p \<and>
    at U (wdb w) (submit_spec now caller p pl (nolog (wdb w))) (submit_events pl) (wdb w')"
  using assms by (rule Submit_runs)

theorem audit_submit_succeeds_witness:
  "\<exists>r w'. Submit example_uuid 9 5 approve_params (quiet audit_kdb) = (Inr r, w') \<and>
     AR_Jobs r = [new_job approve_params 1 1 ''w''] \<and> AA_ActionID (AR_Action r) = ''a1'' \<and>
     at example_uuid audit_kdb (submit_spec 9 5 approve_params approve_plan (nolog audit_kdb))
       (submit_events approve_plan) (wdb w')"
proof -
  have "List.find (\<lambda>x. AA_AssetVerID x = AS_AssetVersionID approve_params \<and> AA_Stage x = AS_Stage approve_params)
      (audit_actions (wdb (quiet audit_kdb))) = None" by (simp add: audit_kdb_def empty_kdb_def)
  from audit_submit_succeeds [OF example_uuid_inj _ _ _ approve_preflight this, of 2 9 5]
  show ?thesis using audit_kdb_kinv audit_kdb_fresh by (simp add: approve_plan_def approve_params_def)
qed

text \<open>
  (C14) \<open>Submit\<close> is idempotent in its action id: right after a submission that returned, submitting the same
  request again, by any caller and at any time, with no statement failing, returns the same action, creates
  no job and writes nothing.
\<close>

theorem audit_submit_idempotent:
  assumes "Submit U now caller p w = (Inr r, w1)" "faults w1 = []"
  shows "Submit U' now' caller' p w1 = (Inr \<lparr>AR_Action = AR_Action r, AR_Jobs = []\<rparr>, w1)"
  using Submit_repeat [OF assms(2)] Submit_ok_found [OF assms(1)] by simp

theorem audit_submit_idempotent_witness:
  "\<exists>r w1. Submit example_uuid 9 5 approve_params (quiet audit_kdb) = (Inr r, w1) \<and>
     Submit example_uuid 10 6 approve_params w1 = (Inr \<lparr>AR_Action = AR_Action r, AR_Jobs = []\<rparr>, w1)"
proof -
  have plan: "plan_of audit_kdb approve_params approve_plan" using Submit_preflight_plan [OF approve_preflight] by simp
  have none: "List.find (\<lambda>x. AA_AssetVerID x = AS_AssetVersionID approve_params \<and> AA_Stage x = AS_Stage approve_params)
      (audit_actions audit_kdb) = None" by (simp add: audit_kdb_def empty_kdb_def)
  obtain x w1 where tx: "RunInTx (Submit_tx example_uuid 9 5 approve_params approve_plan) (quiet audit_kdb) = (Inr x, w1)"
    "faults w1 = []"
    using returns_run [OF returns_RunInTx [OF Submit_tx_at [OF example_uuid_inj plan_of_ready [OF plan audit_kdb_kinv none]]]]
      at_start [of audit_kdb example_uuid] audit_kdb_seq audit_kdb_fresh by (metis quiet_simps)
  obtain r w2 where r: "Submit example_uuid 9 5 approve_params (quiet audit_kdb) = (Inr r, w2)"
    using Submit_runs [OF example_uuid_inj _ _ _ approve_preflight, of 2 9 5] none audit_kdb_kinv audit_kdb_fresh
    by auto
  have "w2 = w1 \<and> faults w1 = []"
    using r tx approve_preflight
    by (auto simp: Submit_def bnd_def map_err_def reread_def GetByActionID_def query_nofault throw_def ret_def
        split: option.splits)
  then show ?thesis using r audit_submit_idempotent [OF r] by blast
qed

end
