(* ===== verification/Agent_Service.thy ===== *)
theory Agent_Service
  imports Audit_Service
begin

section \<open>The agent service\<close>

text \<open>
  \<^verbatim>\<open>src/service/agent.go\<close>: the NAS agents report file versions (\<open>Sync\<close>), pull distribution jobs
  (\<open>PullJob\<close>), renew leases (\<open>Heartbeat\<close>) and acknowledge (\<open>AckJob\<close>). An attempt id is the fencing
  token: only the current attempt of a job may renew or acknowledge. Parsing a JSON number with a
  fraction or an exponent goes through \<^verbatim>\<open>float64\<close>; \<open>asFloat\<close> is the parameter for that conversion,
  from the text to the truncated int.
\<close>

abbreviation oneHundredMB :: int where "oneHundredMB \<equiv> 104857600"

record AgentSyncParams =
  Sy_AgentID :: string
  Sy_SKUCode :: string
  Sy_FilePath :: string
  Sy_WholeHash :: string
  Sy_HeadChunkHash :: "string option"
  Sy_TailChunkHash :: "string option"
  Sy_FileSizeBytes :: int
  Sy_IsStable :: bool
  Sy_PreviewURL :: "string option"

record PullJobResult =
  PR_Job :: DistributionJob
  PR_AttemptID :: string
  PR_LeaseExpiresAt :: time

record AckJobParams =
  Ack_AttemptID :: string
  Ack_Success :: bool
  Ack_Evidence :: "Evidence option"
  Ack_FailReason :: "string option"

definition isBlank :: "string option \<Rightarrow> bool" where
  "isBlank s = (case s of None \<Rightarrow> True | Some t \<Rightarrow> TrimSpace t = [])"

definition nonEmptyOr :: "string option \<Rightarrow> string \<Rightarrow> string" where
  "nonEmptyOr s fallback =
     (case s of None \<Rightarrow> fallback | Some t \<Rightarrow> if TrimSpace t = [] then fallback else TrimSpace t)"

definition trim_quotes :: "string \<Rightarrow> string" where
  "trim_quotes s = (let f = dropWhile (\<lambda>c. c = qt \<or> c = CHR 0x20) in rev (f (rev (f s))))"

definition parsePolicyIntSeconds :: "(string \<Rightarrow> int option) \<Rightarrow> string \<Rightarrow> int option" where
  "parsePolicyIntSeconds asFloat raw =
     (case unmarshal_int raw of
        Some n \<Rightarrow> Some n
      | None \<Rightarrow>
         (case asFloat raw of
            Some n \<Rightarrow> Some n
          | None \<Rightarrow>
             (case unmarshal_string raw of
                Some s \<Rightarrow> Atoi (TrimSpace s)
              | None \<Rightarrow> Atoi (trim_quotes raw))))"

definition jobLeaseDuration :: "(string \<Rightarrow> int option) \<Rightarrow> time kop" where
  "jobLeaseDuration asFloat =
     bnd (infra (PolicyRepo_GetByKey ''job_lease_seconds'')) (\<lambda>p. case p of
       None \<Rightarrow> ret (300 * Second)
     | Some pol \<Rightarrow>
         if TrimSpace (Pol_Value pol) = [] then ret (300 * Second)
         else (case parsePolicyIntSeconds asFloat (Pol_Value pol) of
                 None \<Rightarrow> throw ErrCodeInvalidRequest
               | Some seconds \<Rightarrow>
                   if seconds \<le> 0 then throw ErrCodeInvalidRequest else ret (int64 (seconds * Second))))"

subsection \<open>Sync\<close>

definition sync_version :: "AgentSyncParams \<Rightarrow> id \<Rightarrow> int \<Rightarrow> AssetVersion" where
  "sync_version p skuID versionNum =
     \<lparr>AV_ID = 0, AV_SKUID = skuID, AV_VersionNum = versionNum, AV_WholeHash = Sy_WholeHash p,
      AV_HeadChunkHash = Sy_HeadChunkHash p, AV_TailChunkHash = Sy_TailChunkHash p,
      AV_FileSizeBytes = Sy_FileSizeBytes p, AV_IsStable = Sy_IsStable p, AV_PreviewURL = Sy_PreviewURL p,
      AV_HashState = (if Sy_IsStable p then HashStateReady else HashStatePartial),
      AV_AuditStatus = AuditStatusUnreviewed, AV_ExistsState = ExistsStateExists, AV_CreatedAt = zero_time\<rparr>"

definition Sync_preflight :: "bool \<Rightarrow> AgentSyncParams \<Rightarrow> (id \<times> int) kop" where
  "Sync_preflight resolves p =
     (if Sy_AgentID p = [] \<or> Sy_SKUCode p = [] \<or> Sy_WholeHash p = [] \<or> Sy_FileSizeBytes p \<le> 0
      then throw ErrCodeInvalidRequest
      else if Sy_FileSizeBytes p > oneHundredMB \<and> (isBlank (Sy_HeadChunkHash p) \<or> isBlank (Sy_TailChunkHash p))
      then throw ErrCodeInvalidRequest
      else bnd (infra (SKURepo_GetBySKUCode (Sy_SKUCode p))) (\<lambda>s. case s of
        None \<Rightarrow> throw ErrCodeNotFound
      | Some sku \<Rightarrow>
          bnd (infra (GetCurrentForSKU resolves (SKU_ID sku))) (\<lambda>currentVer.
            ret (SKU_ID sku, case currentVer of None \<Rightarrow> 1 | Some v \<Rightarrow> AV_VersionNum v + 1))))"

definition Sync_tx :: "uuid_source \<Rightarrow> time \<Rightarrow> AgentSyncParams \<Rightarrow> id \<times> int \<Rightarrow> id kact" where
  "Sync_tx U now p x =
     (let (skuID, versionNum) = x; newVer = sync_version p skuID versionNum in
      bnd (AssetVersionRepo_Create now newVer) (\<lambda>newVerID.
      bnd (SKURepo_SetCurrentVersion now skuID newVerID) (\<lambda>_.
      bnd (Append U now skuID (if Sy_IsStable p then EventVersionStable else EventVersionCreated)
             [(''asset_version_id'', JInt newVerID), (''sku_id'', JInt skuID), (''version_num'', JInt versionNum),
              (''hash_state'', JStr (hs_string (AV_HashState newVer))), (''is_stable'', JBool (Sy_IsStable p)),
              (''agent_id'', JStr (Sy_AgentID p)), (''file_size_bytes'', JInt (Sy_FileSizeBytes p))]) (\<lambda>_.
      ret newVerID))))"

definition Sync :: "bool \<Rightarrow> uuid_source \<Rightarrow> time \<Rightarrow> AgentSyncParams \<Rightarrow> id kop" where
  "Sync resolves U now p = bnd (Sync_preflight resolves p) (\<lambda>x. infra (RunInTx (Sync_tx U now p x)))"

subsection \<open>PullJob and Heartbeat\<close>

definition Pull_tx :: "uuid_source \<Rightarrow> time \<Rightarrow> id \<Rightarrow> unit kact" where
  "Pull_tx U now skuID =
     bnd (CASWorkflowStatus now skuID WorkflowApproved WorkflowDistributionRunning) (\<lambda>updated.
       if \<not> updated then ret ()
       else bnd (Append U now skuID EventSKUStatusChanged
                   (status_payload WorkflowApproved WorkflowDistributionRunning ''agent'')) (\<lambda>_. ret ()))"

definition PullJob ::
  "(string \<Rightarrow> int option) \<Rightarrow> uuid_source \<Rightarrow> time \<Rightarrow> string \<Rightarrow> PullJobResult option kop" where
  "PullJob asFloat U now agentID =
     (if TrimSpace agentID = [] then throw ErrCodeInvalidRequest
      else bnd (jobLeaseDuration asFloat) (\<lambda>leaseDuration.
      bnd (infra (PullPending U now agentID leaseDuration)) (\<lambda>r. case r of
        None \<Rightarrow> ret None
      | Some (job, attempt) \<Rightarrow>
          bnd (ignore_err (RunInTx (Pull_tx U now (Job_SKUID job)))) (\<lambda>_.
          ret (Some \<lparr>PR_Job = job, PR_AttemptID = At_ID attempt,
                     PR_LeaseExpiresAt = At_LeaseExpiresAt attempt\<rparr>)))))"

text \<open>The attempt and its job, if the attempt is the job's current one.\<close>

definition found :: "(kdb, db_error, 'a option) act \<Rightarrow> 'a kop" where
  "found m = bnd (infra m) (\<lambda>r. case r of None \<Rightarrow> throw ErrCodeNotFound | Some x \<Rightarrow> ret x)"

definition current_attempt :: "string \<Rightarrow> (JobAttempt \<times> DistributionJob) kop" where
  "current_attempt attemptID =
     (if TrimSpace attemptID = [] then throw ErrCodeInvalidRequest
      else bnd (found (GetAttemptByID attemptID)) (\<lambda>attempt.
      bnd (found (JobRepo_GetByID (At_JobID attempt))) (\<lambda>job.
        if Job_CurrentAttemptID job \<noteq> Some attemptID then throw ErrCodeJobAttemptExpired
        else ret (attempt, job))))"

definition Heartbeat :: "(string \<Rightarrow> int option) \<Rightarrow> time \<Rightarrow> string \<Rightarrow> time kop" where
  "Heartbeat asFloat now attemptID =
     bnd (current_attempt attemptID) (\<lambda>(attempt, job).
       if At_LeaseExpiresAt attempt < now then throw ErrCodeJobAttemptExpired
       else bnd (jobLeaseDuration asFloat) (\<lambda>leaseDuration.
         let newExpiry = now + leaseDuration in
         bnd (infra (RenewLease now attemptID newExpiry)) (\<lambda>_. ret newExpiry)))"

subsection \<open>AckJob\<close>

text \<open>
  \<^verbatim>\<open>RequireVerify\<close> is constantly false, so the update of \<^verbatim>\<open>verify_status\<close>, which the code sends over
  another connection than the transaction's, never runs.
\<close>

definition AckJob_done_tx :: "uuid_source \<Rightarrow> time \<Rightarrow> string \<Rightarrow> DistributionJob \<Rightarrow> unit kact" where
  "AckJob_done_tx U now attemptID job =
     bnd (JobRepo_UpdateStatus now (Job_ID job) JobStatusDone) (\<lambda>_.
     bnd (MarkAttemptAcked now attemptID) (\<lambda>_.
     bnd (if RequireVerify (Job_Target job) then UpdateVerifyStatus now (Job_ID job) VerifyStatusVerifying else ret ()) (\<lambda>_.
     bnd (Append U now (Job_SKUID job) EventJobDone
            [(''job_id'', JInt (Job_ID job)), (''target'', JStr (Job_Target job)),
             (''evidence_level'', JInt (DefaultEvidenceLevel (Job_Target job))),
             (''verify_required'', JBool (RequireVerify (Job_Target job)))]) (\<lambda>_. ret ()))))"

definition AckJob_fail_tx :: "uuid_source \<Rightarrow> time \<Rightarrow> string \<Rightarrow> DistributionJob \<Rightarrow> string \<Rightarrow> unit kact" where
  "AckJob_fail_tx U now attemptID job reason =
     bnd (JobRepo_UpdateStatus now (Job_ID job) JobStatusFail) (\<lambda>_.
     bnd (MarkAttemptAcked now attemptID) (\<lambda>_.
     bnd (IncidentRepo_Create now (Job_SKUID job) (Some (Job_ID job)) reason) (\<lambda>incidentID.
     bnd (Append U now (Job_SKUID job) EventJobFailed
            [(''job_id'', JInt (Job_ID job)), (''reason'', JStr reason)]) (\<lambda>_.
     bnd (Append U now (Job_SKUID job) EventIncidentCreated
            [(''incident_id'', JInt incidentID), (''job_id'', JInt (Job_ID job))]) (\<lambda>_. ret ())))))"

definition complete_tx :: "uuid_source \<Rightarrow> time \<Rightarrow> id \<Rightarrow> unit kact" where
  "complete_tx U now skuID =
     bnd (CASWorkflowStatus now skuID WorkflowDistributionRunning WorkflowCompleted) (\<lambda>updated.
       if \<not> updated then throw errCASMiss
       else bnd (Append U now skuID EventSKUStatusChanged
                   (status_payload WorkflowDistributionRunning WorkflowCompleted ''agent'')) (\<lambda>_. ret ()))"

definition complete_check :: "id \<Rightarrow> bool kop" where
  "complete_check skuID = bnd (infra (ListBySKUID skuID)) (\<lambda>jobs.
     ret (SKUCompleted jobs \<and> \<not> list_ex (\<lambda>j. Job_VerifyStatus j = VerifyStatusVerifying) jobs))"

definition complete_error :: "db_error \<Rightarrow> ErrCode" where
  "complete_error e = (if e = errCASMiss then ErrCodeInvalidStateTransition else infraError e)"

definition tryCompleteSKU :: "uuid_source \<Rightarrow> time \<Rightarrow> id \<Rightarrow> unit kop" where
  "tryCompleteSKU U now skuID =
     bnd (complete_check skuID) (\<lambda>all_done.
       if \<not> all_done then ret () else map_err complete_error (RunInTx (complete_tx U now skuID)))"

definition ack_succeeds :: "AckJobParams \<Rightarrow> DistributionJob \<Rightarrow> bool" where
  "ack_succeeds p job \<longleftrightarrow> Ack_Success p \<and> EvidenceSatisfied (DefaultEvidenceLevel (Job_Target job)) (Ack_Evidence p)"

definition ack_reason :: "AckJobParams \<Rightarrow> DistributionJob \<Rightarrow> string" where
  "ack_reason p job =
     (if \<not> Ack_Success p then nonEmptyOr (Ack_FailReason p) ''agent reported failure''
      else if \<not> ack_succeeds p job then ''evidence insufficient'' else [])"

definition AckJob :: "uuid_source \<Rightarrow> time \<Rightarrow> AckJobParams \<Rightarrow> unit kop" where
  "AckJob U now p =
     bnd (current_attempt (Ack_AttemptID p)) (\<lambda>(attempt, job).
       if ack_succeeds p job
       then bnd (infra (RunInTx (AckJob_done_tx U now (Ack_AttemptID p) job))) (\<lambda>_.
            tryCompleteSKU U now (Job_SKUID job))
       else infra (RunInTx (AckJob_fail_tx U now (Ack_AttemptID p) job (ack_reason p job))))"

subsection \<open>The transactions keep the invariant\<close>

lemma Sync_tx_kinv:
  assumes "fst x < N"
  shows "triple (kinv N Map.empty) (Sync_tx U now p x) (\<lambda>_. kinv N Map.empty)"
proof (cases x)
  case (Pair i n)
  have "AV_SKUID (sync_version p i n) < N" using assms Pair by (simp add: sync_version_def)
  note cr = AssetVersionRepo_Create_kinv [OF this]
  have ev: "triple (kinv N Map.empty) (Append U now i (if Sy_IsStable p then EventVersionStable else EventVersionCreated) pl)
      (\<lambda>_. kinv N Map.empty)" for pl
    using assms Pair by (intro repo_events.append_other) auto
  show ?thesis unfolding Sync_tx_def Pair Let_def prod.case
    by (rule triple_bnd [OF cr triple_bnd [OF SetCurrentVersion_kinv triple_unit [OF ev]]])
qed

lemma cas_event_kinv:
  assumes "CanTransition a b" "i < N" "triple (kinv N Map.empty) m (\<lambda>_. kinv N Map.empty)"
  shows "triple (kinv N Map.empty) (bnd (CASWorkflowStatus now i a b) (\<lambda>updated. if \<not> updated then m
      else bnd (Append U now i EventSKUStatusChanged (status_payload a b who)) (\<lambda>_. ret ()))) (\<lambda>_. kinv N Map.empty)"
proof (rule triple_cas, goal_cases)
  case 1
  show ?case unfolding not_True_eq_False if_False
    by (intro triple_unit status_event_kinv assms) (simp add: says_def)
next
  case 2
  show ?case unfolding not_False_eq_True if_True by (rule assms)
qed

lemma Pull_tx_kinv: "i < N \<Longrightarrow> triple (kinv N Map.empty) (Pull_tx U now i) (\<lambda>_. kinv N Map.empty)"
  unfolding Pull_tx_def by (intro cas_event_kinv triple_ret) (simp_all add: policy_simps)

lemma complete_tx_kinv: "i < N \<Longrightarrow> triple (kinv N Map.empty) (complete_tx U now i) (\<lambda>_. kinv N Map.empty)"
  unfolding complete_tx_def by (intro cas_event_kinv triple_throw) (simp_all add: policy_simps)

lemma AckJob_done_tx_kinv:
  assumes "Job_SKUID job < N"
  shows "triple (kinv N Map.empty) (AckJob_done_tx U now a job) (\<lambda>_. kinv N Map.empty)"
  unfolding AckJob_done_tx_def RequireVerify_def if_False
  by (rule triple_bnd [OF JobRepo_UpdateStatus_kinv triple_bnd [OF MarkAttemptAcked_kinv
        triple_bnd [OF triple_ret triple_unit [OF repo_events.append_other]]]]) (use assms in simp_all)

lemma AckJob_fail_tx_kinv:
  assumes "Job_SKUID job < N"
  shows "triple (kinv N Map.empty) (AckJob_fail_tx U now a job reason) (\<lambda>_. kinv N Map.empty)"
  unfolding AckJob_fail_tx_def
  by (rule triple_bnd [OF JobRepo_UpdateStatus_kinv triple_bnd [OF MarkAttemptAcked_kinv
        triple_bnd [OF IncidentRepo_Create_kinv triple_bnd [OF repo_events.append_other
          triple_unit [OF repo_events.append_other]]]]]) (use assms in simp_all)

text \<open>\<^verbatim>\<open>PullPending\<close> writes its event in line; it is the same action as \<open>Append\<close>.\<close>

lemma bnd_assoc: "bnd (bnd m k) l = bnd m (\<lambda>x. bnd (k x) l)"
  by (auto simp: bnd_def fun_eq_iff split: prod.splits sum.splits)

lemma bnd_ret: "bnd (ret x) k = k x"
  by (auto simp: bnd_def ret_def fun_eq_iff)

lemma inline_append:
  "bnd (nextSequence i) (\<lambda>seq. bnd (uuid_New U) (\<lambda>e. bnd (insert_event_log \<lparr>EL_ID = e, EL_SKUID = i,
      EL_Sequence = seq, EL_EventType = ty, EL_Payload = pl, EL_CreatedAt = now\<rparr>) (\<lambda>_. ret r)))
   = bnd (Append U now i ty pl) (\<lambda>_. ret r)"
  by (simp add: Append_def Let_def bnd_assoc bnd_ret)

definition pulled :: "time \<Rightarrow> DistributionJob \<Rightarrow> JobAttempt \<Rightarrow> kdb \<Rightarrow> kdb" where
  "pulled now job attempt d = upd_job (Job_ID job) (\<lambda>j. j\<lparr>Job_Status := JobStatusRunning,
     Job_CurrentAttemptID := Some (At_ID attempt), Job_UpdatedAt := now\<rparr>) (d\<lparr>job_attempts := job_attempts d @ [attempt]\<rparr>)"

lemma pulled_kinv:
  assumes inv: "kinv N opn d" and job: "At_JobID a = Job_ID job" and new: "At_ID a \<notin> At_ID ` set (job_attempts d)"
  shows "kinv N opn (pulled now job a d)"
proof -
  let ?d = "d\<lparr>job_attempts := job_attempts d @ [a]\<rparr>"
  have old: "attempt_ok (job_attempts d @ [a]) j" if "j \<in> set (distribution_jobs d)" for j
    using inv that by (auto simp: kinv_def job_inv_def attempt_ok_def)
  then have "kinv N opn ?d" using inv new by (simp add: kinv_unfold)
  then show ?thesis unfolding pulled_def
  proof (rule kinv_jobs_cong)
    fix j assume "j \<in> set (row_upd (\<lambda>j. Job_ID j = Job_ID job) (\<lambda>j. j\<lparr>Job_Status := JobStatusRunning,
        Job_CurrentAttemptID := Some (At_ID a), Job_UpdatedAt := now\<rparr>) (distribution_jobs ?d))"
    then show "attempt_ok (job_attempts ?d) j"
      using old job by (auto simp: attempt_ok_def dest!: set_row_updD)
  qed (auto intro!: map_row_upd)
qed

lemma oldest_pending_some:
  assumes "oldest_pending d = Some job"
  shows "job \<in> set (distribution_jobs d)" "Job_Status job = JobStatusPending"
proof -
  let ?js = "filter (\<lambda>j. Job_Status j = JobStatusPending) (distribution_jobs d)"
  obtain js where "sort_key Job_CreatedAt ?js = job # js" using assms by (auto simp: oldest_pending_def split: list.splits)
  then have "job \<in> set (sort_key Job_CreatedAt ?js)" by simp
  then have "job \<in> set ?js" by simp
  then show "job \<in> set (distribution_jobs d)" "Job_Status job = JobStatusPending" by simp_all
qed

lemma oldest_pending_min:
  assumes "oldest_pending d = Some job" "j \<in> set (distribution_jobs d)" "Job_Status j = JobStatusPending"
  shows "Job_CreatedAt job \<le> Job_CreatedAt j"
proof -
  let ?js = "filter (\<lambda>j. Job_Status j = JobStatusPending) (distribution_jobs d)"
  obtain js where js: "sort_key Job_CreatedAt ?js = job # js" using assms(1) by (auto simp: oldest_pending_def split: list.splits)
  have "j \<in> set (sort_key Job_CreatedAt ?js)" using assms(2,3) by simp
  moreover have "sorted (map Job_CreatedAt (sort_key Job_CreatedAt ?js))" by simp
  ultimately show ?thesis using js by auto
qed

text \<open>What a pull that returns a job has done.\<close>

definition new_attempt :: "time \<Rightarrow> string \<Rightarrow> time \<Rightarrow> string \<Rightarrow> DistributionJob \<Rightarrow> JobAttempt" where
  "new_attempt now agentID lease aid job = \<lparr>At_ID = aid, At_JobID = Job_ID job, At_AgentID = agentID,
     At_LeaseExpiresAt = now + lease, At_HeartbeatAt = None, At_AckedAt = None, At_CreatedAt = now\<rparr>"

lemma pull_job_ok:
  assumes "pull_job U now agentID lease job v = (Inr r, v')"
  obtains att where "att = new_attempt now agentID lease (U (uuid_n (wdb v))) job"
    "r = Some (job\<lparr>Job_Status := JobStatusRunning, Job_CurrentAttemptID := Some (At_ID att)\<rparr>, att)"
    "At_ID att \<notin> At_ID ` set (job_attempts (wdb v))"
    "\<exists>n pl. appended (Job_SKUID job) EventJobRunning pl ((pulled now job att (wdb v))\<lparr>uuid_n := n\<rparr>) (wdb v')"
proof -
  let ?att = "new_attempt now agentID lease (U (uuid_n (wdb v))) job"
  let ?pl = "[(''job_id'', JInt (Job_ID job)), (''attempt_id'', JStr (At_ID ?att)),
      (''agent_id'', JStr agentID), (''target'', JStr (Job_Target job))]"
  let ?f = "\<lambda>j. j\<lparr>Job_Status := JobStatusRunning, Job_CurrentAttemptID := Some (At_ID ?att), Job_UpdatedAt := now\<rparr>"
  from assms obtain v2 v3 e where
    ins: "insert_job_attempt ?att (v\<lparr>wdb := (wdb v)\<lparr>uuid_n := Suc (uuid_n (wdb v))\<rparr>\<rparr>) = (Inr (), v2)"
    and ex: "exec (upd_job (Job_ID job) ?f) v2 = (Inr (), v3)"
    and ap: "Append U now (Job_SKUID job) EventJobRunning ?pl v3 = (Inr e, v')"
    and r: "r = Some (job\<lparr>Job_Status := JobStatusRunning, Job_CurrentAttemptID := Some (At_ID ?att)\<rparr>, ?att)"
    unfolding pull_job_def inline_append Let_def new_attempt_def
    by (auto simp: bnd_eq_Inr uuid_New_def)
  have ins': "wdb v2 = (wdb v)\<lparr>uuid_n := Suc (uuid_n (wdb v)), job_attempts := job_attempts (wdb v) @ [?att]\<rparr>"
    and new: "At_ID ?att \<notin> At_ID ` set (job_attempts (wdb v))"
    using stmt_success [OF ins [unfolded insert_job_attempt_def]] by (auto simp: find_None_iff split: if_splits)
  have "wdb v3 = (pulled now job ?att (wdb v))\<lparr>uuid_n := Suc (uuid_n (wdb v))\<rparr>"
    using exec_success [OF ex] ins' by (simp add: pulled_def)
  then have "appended (Job_SKUID job) EventJobRunning ?pl ((pulled now job ?att (wdb v))\<lparr>uuid_n := Suc (uuid_n (wdb v))\<rparr>) (wdb v')"
    using Append_ok [OF ap] by simp
  then show thesis using that [OF refl r new] by blast
qed

definition pull_done :: "uuid_source \<Rightarrow> time \<Rightarrow> string \<Rightarrow> time \<Rightarrow> DistributionJob \<Rightarrow>
    (DistributionJob \<times> JobAttempt) option \<Rightarrow> kdb \<Rightarrow> kdb \<Rightarrow> bool" where
  "pull_done U now agentID lease job r d d' \<longleftrightarrow> (\<exists>att n pl.
     att = new_attempt now agentID lease (U (uuid_n d)) job \<and>
     r = Some (job\<lparr>Job_Status := JobStatusRunning, Job_CurrentAttemptID := Some (At_ID att)\<rparr>, att) \<and>
     At_ID att \<notin> At_ID ` set (job_attempts d) \<and>
     appended (Job_SKUID job) EventJobRunning pl ((pulled now job att d)\<lparr>uuid_n := n\<rparr>) d')"

lemma PullPending_ok:
  assumes "PullPending U now agentID lease w = (Inr r, w')"
  shows "case oldest_pending (wdb w) of
      None \<Rightarrow> r = None \<and> wdb w' = wdb w
    | Some job \<Rightarrow> pull_done U now agentID lease job r (wdb w) (wdb w')"
proof -
  from RunInTx_success [OF assms [unfolded PullPending_def]] obtain v v1 v' x where v: "wdb v = wdb w" "wdb w' = wdb v'"
    and q: "query oldest_pending v = (Inr x, v1)"
    and k: "(case x of None \<Rightarrow> ret None | Some job \<Rightarrow> pull_job U now agentID lease job) v1 = (Inr r, v')"
    unfolding bnd_eq_Inr by blast
  have x: "x = oldest_pending (wdb w)" "wdb v1 = wdb w" using query_success [OF q] v by auto
  show ?thesis
  proof (cases x)
    case None
    with k x v show ?thesis by (auto split: option.splits)
  next
    case (Some job)
    with k have "pull_job U now agentID lease job v1 = (Inr r, v')" by simp
    then have "pull_done U now agentID lease job r (wdb v1) (wdb v')"
      unfolding pull_done_def by (elim pull_job_ok) blast
    then show ?thesis using x v Some by (metis option.simps(5))
  qed
qed

lemma kinv_uuid_n [simp]: "kinv N opn (d\<lparr>uuid_n := n\<rparr>) = kinv N opn d"
  by (simp add: kinv_unfold)

lemma PullPending_kinv: "keeps (kinv N Map.empty) (PullPending U now agentID lease)"
  unfolding keeps_def
proof (intro allI impI)
  fix w :: kworld assume inv: "kinv N Map.empty (wdb w)"
  show "kinv N Map.empty (wdb (snd (PullPending U now agentID lease w)))"
  proof (cases "PullPending U now agentID lease w")
    case (Pair r w')
    show ?thesis
    proof (cases r)
      case (Inl e)
      with Pair inv show ?thesis unfolding PullPending_def by (auto dest!: RunInTx_failure)
    next
      case (Inr x)
      note ok = PullPending_ok [OF Pair [unfolded Inr]]
      show ?thesis
      proof (cases "oldest_pending (wdb w)")
        case None
        with ok Pair inv show ?thesis by simp
      next
        case (Some job)
        with ok obtain att n pl where att: "At_JobID att = Job_ID job" "At_ID att \<notin> At_ID ` set (job_attempts (wdb w))"
          and app: "appended (Job_SKUID job) EventJobRunning pl ((pulled now job att (wdb w))\<lparr>uuid_n := n\<rparr>) (wdb w')"
          unfolding pull_done_def Some option.case by (metis JobAttempt.select_convs(2) new_attempt_def)
        let ?N = "next_sku (wdb w)" and ?d = "(pulled now job att (wdb w))\<lparr>uuid_n := n\<rparr>"
        have "kinv ?N Map.empty (wdb w)" using inv by (simp add: kinv_def)
        then have d: "kinv ?N Map.empty ?d" using pulled_kinv [OF _ att] by simp
        have "Job_SKUID job < ?N" using inv oldest_pending_some [OF Some] by (simp add: kinv_def ref_inv_def)
        moreover have "seq_inv (wdb w')" using appended_seq_inv [OF app] d by (simp add: kinv_def)
        ultimately have "kinv ?N Map.empty (wdb w')" by (intro appended_other [OF app _ d]) simp_all
        then show ?thesis using Pair inv by (auto simp: kinv_def)
      qed
    qed
  qed
qed

subsection \<open>The fencing token\<close>

text \<open>The attempt with this id exists and is the current attempt of its job.\<close>

definition holds :: "kdb \<Rightarrow> string \<Rightarrow> JobAttempt \<Rightarrow> DistributionJob \<Rightarrow> bool" where
  "holds d aid att job \<longleftrightarrow> List.find (\<lambda>x. At_ID x = aid) (job_attempts d) = Some att \<and>
     List.find (\<lambda>j. Job_ID j = At_JobID att) (distribution_jobs d) = Some job \<and>
     Job_CurrentAttemptID job = Some aid"

lemma found_query: "found (query g) w = (Inr x, w') \<Longrightarrow> g (wdb w) = Some x \<and> wdb w' = wdb w"
  unfolding found_def bnd_eq_Inr by (auto split: option.splits dest!: infra_query)

lemma found_run: "faults w = [] \<Longrightarrow> g (wdb w) = Some x \<Longrightarrow> found (query g) w = (Inr x, w)"
  by (simp add: found_def bnd_def map_err_def query_nofault ret_def)

lemma found_keeps: "keeps I (found (query g))"
  unfolding found_def by (intro keeps_bnd keeps_infra_query) (auto split: option.splits)

lemma current_attempt_ok:
  assumes "current_attempt aid w = (Inr (att, job), w')"
  shows "holds (wdb w) aid att job \<and> wdb w' = wdb w \<and> TrimSpace aid \<noteq> []"
proof -
  from assms obtain w1 w2 where ne: "TrimSpace aid \<noteq> []" and a: "found (GetAttemptByID aid) w = (Inr att, w1)"
    and j: "found (JobRepo_GetByID (At_JobID att)) w1 = (Inr job, w2)"
    and c: "Job_CurrentAttemptID job = Some aid" "w' = w2"
    unfolding current_attempt_def by (auto simp: bnd_eq_Inr split: if_splits)
  show ?thesis using ne c found_query [OF a [unfolded GetAttemptByID_def]] found_query [OF j [unfolded JobRepo_GetByID_def]]
    by (simp add: holds_def)
qed

lemma current_attempt_db: "wdb (snd (current_attempt aid w)) = wdb w"
proof -
  have "keeps (\<lambda>d. d = wdb w) (current_attempt aid)"
    unfolding current_attempt_def GetAttemptByID_def JobRepo_GetByID_def
    by (cases "TrimSpace aid = []") (auto intro!: keeps_bnd found_keeps)
  then show ?thesis by (simp add: keeps_def)
qed

lemma current_attempt_run:
  assumes "faults w = []" "TrimSpace aid \<noteq> []" "holds (wdb w) aid att job"
  shows "current_attempt aid w = (Inr (att, job), w)"
proof -
  have "found (GetAttemptByID aid) w = (Inr att, w)" "found (JobRepo_GetByID (At_JobID att)) w = (Inr job, w)"
    unfolding GetAttemptByID_def JobRepo_GetByID_def by (rule found_run; use assms in \<open>simp add: holds_def\<close>)+
  then show ?thesis using assms by (simp add: current_attempt_def bnd_def holds_def ret_def)
qed

lemma holds_job: "holds d aid att job \<Longrightarrow> job \<in> set (distribution_jobs d)"
  by (auto simp: holds_def find_Some_iff)

lemma kinv_holds_sku: "holds d aid att job \<Longrightarrow> kinv N opn d \<Longrightarrow> Job_SKUID job < next_sku d"
  by (drule holds_job) (simp add: kinv_def ref_inv_def)

lemma current_attempt_refused:
  assumes "\<nexists>att job. holds (wdb w) aid att job"
  shows "\<exists>e. fst (bnd (current_attempt aid) k w) = Inl e" "wdb (snd (bnd (current_attempt aid) k w)) = wdb w"
proof -
  obtain r w1 where r: "current_attempt aid w = (r, w1)" by fastforce
  have "\<exists>e. r = Inl e"
  proof (cases r)
    case (Inr x)
    then show ?thesis using assms current_attempt_ok [of aid w "fst x" "snd x" w1] r by simp
  qed simp
  then obtain e where "r = Inl e" ..
  then show "\<exists>e. fst (bnd (current_attempt aid) k w) = Inl e" "wdb (snd (bnd (current_attempt aid) k w)) = wdb w"
    using r current_attempt_db [of aid w] by (simp_all add: bnd_def)
qed

lemma jobLeaseDuration_ok: "jobLeaseDuration asFloat w = (Inr t, w') \<Longrightarrow> wdb w' = wdb w"
  unfolding jobLeaseDuration_def PolicyRepo_GetByKey_def
  by (auto simp: bnd_eq_Inr split: option.splits if_splits dest!: infra_query)

lemma jobLeaseDuration_keeps: "keeps I (jobLeaseDuration asFloat)"
  unfolding jobLeaseDuration_def PolicyRepo_GetByKey_def
  by (auto intro!: keeps_bnd keeps_ret keeps_throw keeps_infra_query split: option.splits)

definition renewed :: "time \<Rightarrow> string \<Rightarrow> time \<Rightarrow> kdb \<Rightarrow> kdb" where
  "renewed now aid t d = d\<lparr>job_attempts := row_upd (\<lambda>x. At_ID x = aid)
     (\<lambda>x. x\<lparr>At_LeaseExpiresAt := t, At_HeartbeatAt := Some now\<rparr>) (job_attempts d)\<rparr>"

lemma Heartbeat_ok:
  assumes "Heartbeat asFloat now aid w = (Inr t, w')"
  shows "\<exists>att job. holds (wdb w) aid att job \<and> now \<le> At_LeaseExpiresAt att \<and> wdb w' = renewed now aid t (wdb w)"
proof -
  from assms obtain att job w1 where c: "current_attempt aid w = (Inr (att, job), w1)"
    and r: "(if At_LeaseExpiresAt att < now then throw ErrCodeJobAttemptExpired
       else bnd (jobLeaseDuration asFloat) (\<lambda>leaseDuration. let newExpiry = now + leaseDuration in
         bnd (infra (RenewLease now aid newExpiry)) (\<lambda>_. ret newExpiry))) w1 = (Inr t, w')"
    unfolding Heartbeat_def bnd_eq_Inr by auto
  have "now \<le> At_LeaseExpiresAt att" using r by (auto split: if_splits)
  moreover have "wdb w' = renewed now aid t (wdb w1)"
    using r unfolding RenewLease_def
    by (auto simp: bnd_eq_Inr Let_def renewed_def map_err_eq_Inr split: if_splits
        dest!: jobLeaseDuration_ok exec_success)
  ultimately show ?thesis using current_attempt_ok [OF c] by auto
qed

subsection \<open>What an acknowledgement does\<close>

definition acked :: "time \<Rightarrow> string \<Rightarrow> DistributionJob \<Rightarrow> JobStatus \<Rightarrow> kdb \<Rightarrow> kdb" where
  "acked now aid job st d = (upd_job (Job_ID job) (\<lambda>j. j\<lparr>Job_Status := st, Job_UpdatedAt := now\<rparr>) d)\<lparr>job_attempts :=
     row_upd (\<lambda>x. At_ID x = aid) (\<lambda>x. x\<lparr>At_AckedAt := Some now\<rparr>) (job_attempts d)\<rparr>"

definition with_incident :: "time \<Rightarrow> id \<Rightarrow> id option \<Rightarrow> string \<Rightarrow> kdb \<Rightarrow> kdb" where
  "with_incident now i jb reason d = d\<lparr>incidents := incidents d @ [incident_row now (next_incident d) i jb reason],
     next_incident := next_incident d + 1\<rparr>"

lemma at_JobRepo_UpdateStatus:
  "returns (at U d0 D ts) (JobRepo_UpdateStatus now i st)
     (\<lambda>_. at U d0 (upd_job i (\<lambda>j. j\<lparr>Job_Status := st, Job_UpdatedAt := now\<rparr>) D) ts)"
  unfolding JobRepo_UpdateStatus_def by (rule at_upd_job)

lemma at_acked:
  assumes "returns (at U d0 (acked now aid job st D) ts) m Q"
  shows "returns (at U d0 D ts) (bnd (JobRepo_UpdateStatus now (Job_ID job) st) (\<lambda>_. bnd (MarkAttemptAcked now aid) (\<lambda>_. m))) Q"
  using assms by (intro returns_bnd [OF at_JobRepo_UpdateStatus] returns_bnd [OF at_MarkAttemptAcked]) (simp add: acked_def)

lemma AckJob_done_tx_at:
  assumes "inj U"
  shows "returns (at U d0 D ts) (AckJob_done_tx U now aid job)
     (\<lambda>_. at U d0 (acked now aid job JobStatusDone D) (ts @ [(Job_SKUID job, EventJobDone)]))"
  unfolding AckJob_done_tx_def RequireVerify_def if_False
  by (rule at_acked) (simp add: bnd_ret at_append_unit [OF assms])

lemma AckJob_fail_tx_at:
  assumes "inj U"
  shows "returns (at U d0 D ts) (AckJob_fail_tx U now aid job reason)
     (\<lambda>_. at U d0 (with_incident now (Job_SKUID job) (Some (Job_ID job)) reason (acked now aid job JobStatusFail D))
        (ts @ [(Job_SKUID job, EventJobFailed), (Job_SKUID job, EventIncidentCreated)]))"
  unfolding AckJob_fail_tx_def
proof (rule at_acked, rule returns_bnd [OF at_Incident_Create], goal_cases)
  case (1 n)
  let ?D = "acked now aid job JobStatusFail D" and ?i = "Job_SKUID job"
  have "returns (at U d0 (with_incident now ?i (Some (Job_ID job)) reason ?D) ts)
     (bnd (Append U now ?i EventJobFailed [(''job_id'', JInt (Job_ID job)), (''reason'', JStr reason)]) (\<lambda>_.
      bnd (Append U now ?i EventIncidentCreated [(''incident_id'', JInt n), (''job_id'', JInt (Job_ID job))]) (\<lambda>_. ret ())))
     (\<lambda>_. at U d0 (with_incident now ?i (Some (Job_ID job)) reason ?D) ((ts @ [(?i, EventJobFailed)]) @ [(?i, EventIncidentCreated)]))"
    by (rule returns_bnd [OF at_append [OF assms] at_append_unit [OF assms]])
  then show ?case
    by (rule returns_pre [OF returns_post]) (auto simp: with_incident_def)
qed

lemma complete_tx_at:
  assumes "inj U" "distinct (map SKU_ID (skus D))" "List.find (\<lambda>s. SKU_ID s = i) (skus D) = Some s"
    "SKU_WorkflowStatus s = WorkflowDistributionRunning"
  shows "returns (at U d0 D ts) (complete_tx U now i)
     (\<lambda>_. at U d0 (set_status now i WorkflowCompleted D) (ts @ [(i, EventSKUStatusChanged)]))"
  unfolding complete_tx_def
  by (rule at_CAS_hit [OF assms(2-4)], unfold not_True_eq_False if_False) (rule at_append_unit [OF assms(1)])

text \<open>All jobs of a SKU are done and none is being verified.\<close>

definition all_done :: "kdb \<Rightarrow> id \<Rightarrow> bool" where
  "all_done d i \<longleftrightarrow> (\<exists>j \<in> set (distribution_jobs d). Job_SKUID j = i) \<and>
     (\<forall>j \<in> set (distribution_jobs d). Job_SKUID j = i \<longrightarrow> Job_Status j = JobStatusDone \<and> Job_VerifyStatus j \<noteq> VerifyStatusVerifying)"

lemma complete_check_value:
  "(let jobs = sort_key Job_CreatedAt (filter (\<lambda>j. Job_SKUID j = i) (distribution_jobs d)) in
     SKUCompleted jobs \<and> \<not> list_ex (\<lambda>j. Job_VerifyStatus j = VerifyStatusVerifying) jobs) = all_done d i"
proof -
  have "sort_key Job_CreatedAt (filter (\<lambda>j. Job_SKUID j = i) (distribution_jobs d)) = [] \<longleftrightarrow>
      \<not> (\<exists>j \<in> set (distribution_jobs d). Job_SKUID j = i)"
    by (metis (mono_tags, lifting) filter_empty_conv set_empty set_sort)
  then show ?thesis by (auto simp: Let_def SKUCompleted_def list_all_iff list_ex_iff all_done_def)
qed

lemma complete_check_ok: "complete_check i w = (Inr b, w') \<Longrightarrow> b = all_done (wdb w) i \<and> wdb w' = wdb w"
  unfolding complete_check_def ListBySKUID_def bnd_eq_Inr complete_check_value [symmetric] Let_def
  by (auto dest!: infra_query)

lemma complete_check_run: "faults w = [] \<Longrightarrow> complete_check i w = (Inr (all_done (wdb w) i), w)"
  unfolding complete_check_value [symmetric] Let_def
  by (simp add: complete_check_def ListBySKUID_def bnd_def map_err_def query_nofault ret_def)

lemma cas_event_moved:
  assumes "bnd (CASWorkflowStatus now i a b) (\<lambda>u. if \<not> u then throw e
      else bnd (Append U now i EventSKUStatusChanged (status_payload a b who)) (\<lambda>_. ret ())) w = (Inr x, w')"
  shows "moved now i a b (wdb w) (wdb w')"
proof -
  obtain w1 ev where cas: "CASWorkflowStatus now i a b w = (Inr True, w1)"
    and app: "Append U now i EventSKUStatusChanged (status_payload a b who) w1 = (Inr ev, w')"
    using assms by (auto simp: bnd_eq_Inr split: if_splits)
  from CASWorkflowStatus_ok [OF cas] Append_ok [OF app] show ?thesis
    unfolding appended_def moved_def last_seq_def by (fastforce simp: change_of_def)
qed

lemma run_in_tx_cases:
  obtains (unchanged) e w' where "RunInTx m w = (Inl e, w')" "wdb w' = wdb w"
  | (committed) x w' w1 w2 where "RunInTx m w = (Inr x, w')" "wdb w1 = wdb w" "m w1 = (Inr x, w2)" "wdb w' = wdb w2"
proof (cases "RunInTx m w")
  case (Pair r w')
  show thesis
  proof (cases r)
    case (Inl e)
    with Pair RunInTx_failure unchanged show thesis by blast
  next
    case (Inr x)
    with Pair have run: "RunInTx m w = (Inr x, w')" by simp
    from RunInTx_success [OF this] obtain w1 w2 where "wdb w1 = wdb w" "m w1 = (Inr x, w2)" "wdb w' = wdb w2" by auto
    with run show thesis by (rule committed)
  qed
qed

lemma tryCompleteSKU_db:
  "wdb (snd (tryCompleteSKU U now i w)) = wdb w \<or>
   all_done (wdb w) i \<and> moved now i WorkflowDistributionRunning WorkflowCompleted (wdb w) (wdb (snd (tryCompleteSKU U now i w)))"
proof (cases "complete_check i w")
  case (Pair r w1)
  have keep: "keeps (\<lambda>d. d = wdb w) (complete_check i)"
    unfolding complete_check_def ListBySKUID_def by (intro keeps_bnd keeps_infra_query keeps_ret)
  then have w1: "wdb w1 = wdb w" using Pair by (force simp: keeps_def)
  show ?thesis
  proof (cases r)
    case (Inl e)
    then show ?thesis using Pair w1 by (simp add: tryCompleteSKU_def bnd_def)
  next
    case (Inr b)
    then have b: "b = all_done (wdb w) i" using Pair complete_check_ok by blast
    show ?thesis
    proof (cases b)
      case False
      then show ?thesis using Pair Inr w1 by (simp add: tryCompleteSKU_def bnd_def)
    next
      case True
      have eq: "wdb (snd (tryCompleteSKU U now i w)) = wdb (snd (RunInTx (complete_tx U now i) w1))"
        using Pair Inr True by (cases "RunInTx (complete_tx U now i) w1"; cases "fst (RunInTx (complete_tx U now i) w1)")
          (simp_all add: tryCompleteSKU_def bnd_def map_err_def)
      show ?thesis
      proof (cases rule: run_in_tx_cases [of "complete_tx U now i" w1])
        case (unchanged e w')
        then show ?thesis using eq w1 by simp
      next
        case (committed x w' v1 v2)
        then have "moved now i WorkflowDistributionRunning WorkflowCompleted (wdb v1) (wdb v2)"
          unfolding complete_tx_def by (intro cas_event_moved)
        then show ?thesis using committed eq w1 b True by simp
      qed
    qed
  qed
qed

definition ack_result :: "uuid_source \<Rightarrow> time \<Rightarrow> AckJobParams \<Rightarrow> DistributionJob \<Rightarrow> kdb \<Rightarrow> kdb \<Rightarrow> bool" where
  "ack_result U now p job d d' \<longleftrightarrow>
     (let i = Job_SKUID job; aid = Ack_AttemptID p; D = nolog d in
      if ack_succeeds p job
      then \<exists>d1. at U d (acked now aid job JobStatusDone D) [(i, EventJobDone)] d1 \<and>
             (d' = d1 \<or> all_done d1 i \<and> moved now i WorkflowDistributionRunning WorkflowCompleted d1 d')
      else at U d (with_incident now i (Some (Job_ID job)) (ack_reason p job) (acked now aid job JobStatusFail D))
             [(i, EventJobFailed), (i, EventIncidentCreated)] d')"

lemma AckJob_db:
  assumes "inj U" "seq_inv (wdb w)" "uuid_fresh U (wdb w)"
  shows "wdb (snd (AckJob U now p w)) = wdb w \<or>
    (\<exists>att job. holds (wdb w) (Ack_AttemptID p) att job \<and> ack_result U now p job (wdb w) (wdb (snd (AckJob U now p w))))"
proof (cases "\<exists>att job. holds (wdb w) (Ack_AttemptID p) att job")
  case False
  then show ?thesis unfolding AckJob_def using current_attempt_refused(2) by blast
next
  case True
  let ?aid = "Ack_AttemptID p"
  obtain r w1 where r: "current_attempt ?aid w = (r, w1)" by fastforce
  have w1: "wdb w1 = wdb w" using current_attempt_db [of ?aid w] r by simp
  show ?thesis
  proof (cases r)
    case (Inl e)
    then show ?thesis using r w1 by (simp add: AckJob_def bnd_def)
  next
    case (Inr x)
    obtain att job where x: "x = (att, job)" by fastforce
    have holds: "holds (wdb w) ?aid att job" using current_attempt_ok r Inr x by blast
    let ?i = "Job_SKUID job"
    have start: "at U (wdb w) (nolog (wdb w)) [] (wdb v)" if "wdb v = wdb w" for v :: kworld
      using that assms by (simp add: at_start)
    show ?thesis
    proof (cases "ack_succeeds p job")
      case True
      have eq: "AckJob U now p w = bnd (infra (RunInTx (AckJob_done_tx U now ?aid job))) (\<lambda>_. tryCompleteSKU U now ?i) w1"
        using r Inr x True by (simp add: AckJob_def bnd_run_Inr)
      show ?thesis
      proof (cases rule: run_in_tx_cases [of "AckJob_done_tx U now ?aid job" w1])
        case (unchanged e w')
        then show ?thesis using eq w1 by (simp add: bnd_def map_err_def)
      next
        case (committed y w' v1 v2)
        have v1: "at U (wdb w) (nolog (wdb w)) [] (wdb v1)" using start committed(2) w1 by simp
        have d1: "at U (wdb w) (acked now ?aid job JobStatusDone (nolog (wdb w))) [(?i, EventJobDone)] (wdb w')"
          using tripleD [OF returns_triple [OF AckJob_done_tx_at [OF assms(1)]] v1 committed(3)] committed(4) by simp
        have "wdb (snd (AckJob U now p w)) = wdb (snd (tryCompleteSKU U now ?i w'))"
          using eq committed by (simp add: bnd_def map_err_def)
        then have "ack_result U now p job (wdb w) (wdb (snd (AckJob U now p w)))"
          using tryCompleteSKU_db [of U now ?i w'] d1 True unfolding ack_result_def Let_def by auto
        then show ?thesis using holds by blast
      qed
    next
      case False
      have eq: "AckJob U now p w = infra (RunInTx (AckJob_fail_tx U now ?aid job (ack_reason p job))) w1"
        using r Inr x False by (simp add: AckJob_def bnd_run_Inr)
      show ?thesis
      proof (cases rule: run_in_tx_cases [of "AckJob_fail_tx U now ?aid job (ack_reason p job)" w1])
        case (unchanged e w')
        then show ?thesis using eq w1 by (simp add: map_err_def)
      next
        case (committed y w' v1 v2)
        have v1: "at U (wdb w) (nolog (wdb w)) [] (wdb v1)" using start committed(2) w1 by simp
        have "ack_result U now p job (wdb w) (wdb w')"
          using tripleD [OF returns_triple [OF AckJob_fail_tx_at [OF assms(1)]] v1 committed(3)] committed(4) False
          by (simp add: ack_result_def Let_def)
        then show ?thesis using eq committed holds by (auto simp: map_err_def)
      qed
    qed
  qed
qed

subsection \<open>Properties\<close>

text \<open>A job running under attempt \<^verbatim>\<open>t1\<close>, and one waiting.\<close>

definition running_job :: DistributionJob where
  "running_job = \<lparr>Job_ID = 1, Job_IdempotentKey = ''a:w'', Job_ActionID = ''a'', Job_SKUID = 1, Job_AssetVerID = 1,
     Job_Target = ''w'', Job_Status = JobStatusRunning, Job_VerifyStatus = VerifyStatusNotRequested,
     Job_RetryCount = 0, Job_MaxRetries = 3, Job_CurrentAttemptID = Some ''t1'', Job_NextRetryAt = None,
     Job_CreatedAt = 0, Job_UpdatedAt = 0\<rparr>"

definition running_attempt :: JobAttempt where
  "running_attempt = \<lparr>At_ID = ''t1'', At_JobID = 1, At_AgentID = ''nas'', At_LeaseExpiresAt = 50,
     At_HeartbeatAt = None, At_AckedAt = None, At_CreatedAt = 0\<rparr>"

definition running_kdb :: kdb where
  "running_kdb = draft_kdb\<lparr>distribution_jobs := [running_job, running_job\<lparr>Job_ID := 2, Job_IdempotentKey := ''a:v'',
     Job_Status := JobStatusPending, Job_CurrentAttemptID := None\<rparr>], job_attempts := [running_attempt], next_job := 3\<rparr>"

lemma running_kdb_ok: "kinv 2 Map.empty running_kdb" "uuid_fresh example_uuid running_kdb" "seq_inv running_kdb"
proof -
  show "kinv 2 Map.empty running_kdb"
    by (simp add: running_kdb_def running_job_def running_attempt_def draft_kdb_def draft_sku_def empty_kdb_def
        kinv_unfold expected_pair_def attempt_ok_def)
  then show "seq_inv running_kdb" by (simp add: kinv_def)
  show "uuid_fresh example_uuid running_kdb"
    by (simp add: uuid_fresh_def running_kdb_def running_attempt_def draft_kdb_def empty_kdb_def example_uuid_def)
qed

text \<open>
  (C30) \<open>AckJob\<close> is all or nothing and evidence decides. Whatever statements fail, the database is
  unchanged, or the attempt was the current one of its job and: with success reported and
  the evidence of the target's level present, the job is Done, the attempt acknowledged, and the SKU
  is completed only if all its jobs are done and none is being verified; otherwise the job is
  Fail and one open incident with the reason has been recorded with it.
\<close>

theorem ack_job_all_or_nothing:
  assumes "inj U" "seq_inv (wdb w)" "uuid_fresh U (wdb w)"
  shows "wdb (snd (AckJob U now p w)) = wdb w \<or>
    (\<exists>att job. holds (wdb w) (Ack_AttemptID p) att job \<and> ack_result U now p job (wdb w) (wdb (snd (AckJob U now p w))))"
  using assms by (rule AckJob_db)

definition bad_ack :: AckJobParams where
  "bad_ack = \<lparr>Ack_AttemptID = ''t1'', Ack_Success = True, Ack_Evidence = None, Ack_FailReason = None\<rparr>"

theorem ack_job_all_or_nothing_witness:
  "wdb (snd (AckJob example_uuid 9 bad_ack (quiet running_kdb))) = running_kdb \<or>
    (\<exists>att job. holds running_kdb ''t1'' att job \<and>
       ack_result example_uuid 9 bad_ack job running_kdb (wdb (snd (AckJob example_uuid 9 bad_ack (quiet running_kdb)))))"
  using ack_job_all_or_nothing [OF example_uuid_inj, of "quiet running_kdb" 9 bad_ack] running_kdb_ok
  by (simp add: bad_ack_def)

text \<open>
  Without the evidence its level asks for, a reported success is a failure: the call returns, the
  job is Fail, and exactly one incident ("evidence insufficient") and the two events are added.
\<close>

theorem ack_without_evidence_fails_job:
  assumes "inj U" "seq_inv (wdb w)" "uuid_fresh U (wdb w)" "faults w = []" "TrimSpace (Ack_AttemptID p) \<noteq> []"
    and "holds (wdb w) (Ack_AttemptID p) att job" "Ack_Success p"
    and "\<not> EvidenceSatisfied (DefaultEvidenceLevel (Job_Target job)) (Ack_Evidence p)"
  shows "\<exists>w'. AckJob U now p w = (Inr (), w') \<and>
     at U (wdb w) (with_incident now (Job_SKUID job) (Some (Job_ID job)) ''evidence insufficient''
         (acked now (Ack_AttemptID p) job JobStatusFail (nolog (wdb w))))
       [(Job_SKUID job, EventJobFailed), (Job_SKUID job, EventIncidentCreated)] (wdb w')"
proof -
  have no: "\<not> ack_succeeds p job" and reason: "ack_reason p job = ''evidence insufficient''"
    using assms by (simp_all add: ack_succeeds_def ack_reason_def)
  have "AckJob U now p w = infra (RunInTx (AckJob_fail_tx U now (Ack_AttemptID p) job ''evidence insufficient'')) w"
    using current_attempt_run [OF assms(4,5,6)] no reason by (simp add: AckJob_def bnd_run_Inr)
  moreover have "at U (wdb w) (nolog (wdb w)) [] (wdb w)" using assms by (simp add: at_start)
  note returns_run [OF returns_RunInTx [OF AckJob_fail_tx_at [OF assms(1)]] this assms(4), of now "Ack_AttemptID p" job
      "''evidence insufficient''"]
  ultimately show ?thesis by (auto simp: map_err_def)
qed

theorem ack_without_evidence_fails_job_witness:
  "\<exists>w'. AckJob example_uuid 9 bad_ack (quiet running_kdb) = (Inr (), w') \<and>
     at example_uuid running_kdb (with_incident 9 1 (Some 1) ''evidence insufficient''
         (acked 9 ''t1'' running_job JobStatusFail (nolog running_kdb))) [(1, EventJobFailed), (1, EventIncidentCreated)] (wdb w')"
proof -
  have "holds running_kdb ''t1'' running_attempt running_job"
    by (simp add: holds_def running_kdb_def running_job_def running_attempt_def)
  moreover have "TrimSpace ''t1'' \<noteq> []" by code_simp
  ultimately show ?thesis
    using ack_without_evidence_fails_job [OF example_uuid_inj, of "quiet running_kdb" bad_ack running_attempt running_job 9]
      running_kdb_ok by (simp add: bad_ack_def running_job_def EvidenceSatisfied_def)
qed

text \<open>
  (C16) Fencing: an attempt that does not exist or is no longer the current attempt of its job can
  neither acknowledge nor renew. Both calls return an error and change nothing, whatever fails.
\<close>

theorem stale_attempt_refused:
  assumes "\<nexists>att job. holds (wdb w) (Ack_AttemptID p) att job"
  shows "(\<exists>e. fst (AckJob U now p w) = Inl e) \<and> wdb (snd (AckJob U now p w)) = wdb w \<and>
    (\<exists>e. fst (Heartbeat asFloat now (Ack_AttemptID p) w) = Inl e) \<and>
    wdb (snd (Heartbeat asFloat now (Ack_AttemptID p) w)) = wdb w"
  unfolding AckJob_def Heartbeat_def by (intro conjI current_attempt_refused [OF assms])

theorem stale_attempt_refused_witness:
  "wdb (snd (AckJob example_uuid 9 (bad_ack\<lparr>Ack_AttemptID := ''t0''\<rparr>) (quiet running_kdb))) = running_kdb"
proof -
  have "\<nexists>att job. holds (wdb (quiet running_kdb)) (Ack_AttemptID (bad_ack\<lparr>Ack_AttemptID := ''t0''\<rparr>)) att job"
    by (simp add: holds_def running_kdb_def running_attempt_def)
  from stale_attempt_refused [OF this, of example_uuid 9 "\<lambda>_. None"] show ?thesis by simp
qed

text \<open>
  A heartbeat that returns came from the current attempt of the job while its lease was live, and
  it changed nothing but that attempt's lease, to the expiry it returned.
\<close>

theorem heartbeat_renews_live_lease:
  assumes "Heartbeat asFloat now aid w = (Inr t, w')"
  shows "\<exists>att job. holds (wdb w) aid att job \<and> now \<le> At_LeaseExpiresAt att \<and> wdb w' = renewed now aid t (wdb w)"
  using assms by (rule Heartbeat_ok)

theorem heartbeat_renews_live_lease_witness:
  "\<exists>att job. holds running_kdb ''t1'' att job \<and> 9 \<le> At_LeaseExpiresAt att \<and>
     wdb (snd (Heartbeat (\<lambda>_. None) 9 ''t1'' (quiet running_kdb))) = renewed 9 ''t1'' (9 + 300 * Second) running_kdb"
proof -
  have "holds (wdb (quiet running_kdb)) ''t1'' running_attempt running_job"
    by (simp add: holds_def running_kdb_def running_job_def running_attempt_def)
  moreover have "TrimSpace ''t1'' \<noteq> []" by code_simp
  ultimately have c: "current_attempt ''t1'' (quiet running_kdb) = (Inr (running_attempt, running_job), quiet running_kdb)"
    by (intro current_attempt_run) simp_all
  have "jobLeaseDuration (\<lambda>_. None) (quiet running_kdb) = (Inr (300 * Second), quiet running_kdb)"
    by (simp add: jobLeaseDuration_def PolicyRepo_GetByKey_def bnd_def map_err_def query_nofault running_kdb_def draft_kdb_def
        empty_kdb_def ret_def)
  then have "Heartbeat (\<lambda>_. None) 9 ''t1'' (quiet running_kdb) =
      (Inr (9 + 300 * Second), quiet (renewed 9 ''t1'' (9 + 300 * Second) running_kdb))"
    using c by (simp add: Heartbeat_def bnd_def running_attempt_def map_err_def RenewLease_def exec_nofault renewed_def
        quiet_def ret_def)
  with heartbeat_renews_live_lease [OF this] show ?thesis by simp
qed

lemma pulled_holds:
  assumes inv: "kinv N Map.empty d" and job: "job \<in> set (distribution_jobs d)"
    and att: "At_JobID att = Job_ID job" "At_ID att \<notin> At_ID ` set (job_attempts d)"
    and d': "distribution_jobs d' = distribution_jobs (pulled now job att d)" "job_attempts d' = job_attempts (pulled now job att d)"
  shows "holds d' (At_ID att) att (job\<lparr>Job_Status := JobStatusRunning, Job_CurrentAttemptID := Some (At_ID att), Job_UpdatedAt := now\<rparr>)"
    and "holds d' aid x y \<Longrightarrow> Job_ID y = Job_ID job \<Longrightarrow> aid = At_ID att"
proof -
  have f: "List.find (\<lambda>j. Job_ID j = Job_ID job) (distribution_jobs d) = Some job"
    using inv job by (intro find_distinct_key) (simp_all add: kinv_def job_inv_def)
  have a: "List.find (\<lambda>x. At_ID x = At_ID att) (job_attempts d) = None" using att(2) by (simp add: find_key_None)
  have g: "List.find (\<lambda>j. Job_ID j = Job_ID job) (distribution_jobs d') =
      Some (job\<lparr>Job_Status := JobStatusRunning, Job_CurrentAttemptID := Some (At_ID att), Job_UpdatedAt := now\<rparr>)"
    using f by (simp add: d' pulled_def find_row_upd)
  then show "holds d' (At_ID att) att (job\<lparr>Job_Status := JobStatusRunning, Job_CurrentAttemptID := Some (At_ID att), Job_UpdatedAt := now\<rparr>)"
    using a att(1) by (simp add: holds_def d'(2) pulled_def find_append)
  assume h: "holds d' aid x y" "Job_ID y = Job_ID job"
  then have "At_JobID x = Job_ID job" by (auto simp: holds_def dest!: find_SomeD)
  with h g show "aid = At_ID att" by (auto simp: holds_def)
qed

text \<open>
  A pull hands out the oldest Pending job: with no Pending job nothing
  happens; otherwise the job returned was Pending and none older was, it is now Running, and the
  fresh attempt returned is the only token that holds for it: every earlier attempt of
  that job is fenced off.
\<close>

lemma pull_takes_oldest:
  assumes "PullPending U now agentID lease w = (Inr r, w')" "kinv N Map.empty (wdb w)"
  shows "(r = None \<and> wdb w' = wdb w \<and> (\<forall>j \<in> set (distribution_jobs (wdb w)). Job_Status j \<noteq> JobStatusPending)) \<or>
    (\<exists>job att job'. r = Some (job', att) \<and> job \<in> set (distribution_jobs (wdb w)) \<and> Job_ID job' = Job_ID job \<and>
       Job_Status job = JobStatusPending \<and>
       (\<forall>j \<in> set (distribution_jobs (wdb w)). Job_Status j = JobStatusPending \<longrightarrow> Job_CreatedAt job \<le> Job_CreatedAt j) \<and>
       (\<exists>j'. holds (wdb w') (At_ID att) att j' \<and> Job_ID j' = Job_ID job \<and> Job_Status j' = JobStatusRunning) \<and>
       At_LeaseExpiresAt att = now + lease \<and> At_AgentID att = agentID \<and>
       (\<forall>aid x y. holds (wdb w') aid x y \<longrightarrow> Job_ID y = Job_ID job \<longrightarrow> aid = At_ID att))"
proof (cases "oldest_pending (wdb w)")
  case None
  then have "sort_key Job_CreatedAt (filter (\<lambda>j. Job_Status j = JobStatusPending) (distribution_jobs (wdb w))) = []"
    by (simp add: oldest_pending_def split: list.splits)
  then have "filter (\<lambda>j. Job_Status j = JobStatusPending) (distribution_jobs (wdb w)) = []"
    by (metis set_empty set_sort)
  then show ?thesis using PullPending_ok [OF assms(1)] None by (auto simp: filter_empty_conv)
next
  case (Some job)
  with PullPending_ok [OF assms(1)] have "pull_done U now agentID lease job r (wdb w) (wdb w')" by simp
  then obtain att n pl where att: "att = new_attempt now agentID lease (U (uuid_n (wdb w))) job"
    and r: "r = Some (job\<lparr>Job_Status := JobStatusRunning, Job_CurrentAttemptID := Some (At_ID att)\<rparr>, att)"
    and new: "At_ID att \<notin> At_ID ` set (job_attempts (wdb w))"
    and app: "appended (Job_SKUID job) EventJobRunning pl ((pulled now job att (wdb w))\<lparr>uuid_n := n\<rparr>) (wdb w')"
    unfolding pull_done_def by blast
  from app have d': "distribution_jobs (wdb w') = distribution_jobs (pulled now job att (wdb w))"
    "job_attempts (wdb w') = job_attempts (pulled now job att (wdb w))" by (auto simp: appended_def)
  have j: "At_JobID att = Job_ID job" "At_LeaseExpiresAt att = now + lease" "At_AgentID att = agentID" using att by (simp_all add: new_attempt_def)
  note holds = pulled_holds [OF assms(2) oldest_pending_some(1) [OF Some] j(1) new d']
  show ?thesis
    by (rule disjI2, intro exI conjI, rule r, rule oldest_pending_some(1) [OF Some], simp, rule oldest_pending_some(2) [OF Some],
        use oldest_pending_min [OF Some] in blast, rule holds(1), simp, simp, rule j(2), rule j(3), use holds(2) in blast)
qed

text \<open>What a pull leaves to the others: the pending jobs but one, and every attempt on another job.\<close>

lemma pull_frame:
  assumes "PullPending U now agentID lease w = (Inr (Some (job, att)), w')" "kinv N Map.empty (wdb w)"
  shows "\<exists>j \<in> set (distribution_jobs (wdb w)). Job_Status j = JobStatusPending \<and> Job_ID j = Job_ID job \<and>
      Job_CreatedAt j = Job_CreatedAt job \<and>
      (\<forall>i \<in> set (distribution_jobs (wdb w)). Job_Status i = JobStatusPending \<longrightarrow> Job_CreatedAt j \<le> Job_CreatedAt i)"
    and "i \<in> set (distribution_jobs (wdb w')) \<Longrightarrow> Job_Status i = JobStatusPending \<Longrightarrow>
      i \<in> set (distribution_jobs (wdb w)) \<and> Job_ID i \<noteq> Job_ID job"
    and "Job_ID y \<noteq> Job_ID job \<Longrightarrow> holds (wdb w') aid x y \<longleftrightarrow> holds (wdb w) aid x y"
proof -
  obtain j where some: "oldest_pending (wdb w) = Some j" and "pull_done U now agentID lease j (Some (job, att)) (wdb w) (wdb w')"
    using PullPending_ok [OF assms(1)] by (cases "oldest_pending (wdb w)") auto
  then obtain n pl where att: "att = new_attempt now agentID lease (U (uuid_n (wdb w))) j"
    and job: "job = j\<lparr>Job_Status := JobStatusRunning, Job_CurrentAttemptID := Some (At_ID att)\<rparr>"
    and new: "At_ID att \<notin> At_ID ` set (job_attempts (wdb w))"
    and app: "appended (Job_SKUID j) EventJobRunning pl ((pulled now j att (wdb w))\<lparr>uuid_n := n\<rparr>) (wdb w')"
    unfolding pull_done_def by blast
  from app have d': "distribution_jobs (wdb w') = distribution_jobs (pulled now j att (wdb w))"
    "job_attempts (wdb w') = job_attempts (wdb w) @ [att]" by (auto simp: appended_def pulled_def)
  have id: "Job_ID j = Job_ID job" "Job_CreatedAt j = Job_CreatedAt job" "At_JobID att = Job_ID job"
    using job att by (simp_all add: new_attempt_def)
  show "\<exists>j \<in> set (distribution_jobs (wdb w)). Job_Status j = JobStatusPending \<and> Job_ID j = Job_ID job \<and>
      Job_CreatedAt j = Job_CreatedAt job \<and>
      (\<forall>i \<in> set (distribution_jobs (wdb w)). Job_Status i = JobStatusPending \<longrightarrow> Job_CreatedAt j \<le> Job_CreatedAt i)"
    using oldest_pending_some [OF some] oldest_pending_min [OF some] id by blast
  show "i \<in> set (distribution_jobs (wdb w)) \<and> Job_ID i \<noteq> Job_ID job"
    if "i \<in> set (distribution_jobs (wdb w'))" "Job_Status i = JobStatusPending"
    using that id(1) by (auto simp: d'(1) pulled_def row_upd_def split: if_splits)
  show "holds (wdb w') aid x y \<longleftrightarrow> holds (wdb w) aid x y" if "Job_ID y \<noteq> Job_ID job"
  proof -
    have jobs: "List.find (\<lambda>r. Job_ID r = k) (distribution_jobs (wdb w')) = List.find (\<lambda>r. Job_ID r = k) (distribution_jobs (wdb w))"
      if "k \<noteq> Job_ID job" for k
      using that id(1) by (auto simp: d'(1) pulled_def find_row_upd intro!: option.map_ident_strong dest!: find_SomeD)
    have none: "List.find (\<lambda>r. At_ID r = At_ID att) (job_attempts (wdb w)) = None"
      using new by (simp add: find_key_None)
    have attempts: "List.find (\<lambda>r. At_ID r = aid) (job_attempts (wdb w')) = Some x \<longleftrightarrow>
        List.find (\<lambda>r. At_ID r = aid) (job_attempts (wdb w)) = Some x" if "At_JobID x \<noteq> Job_ID job" for aid x
      using that new id(3) by (cases "aid = At_ID att") (auto simp: d'(2) find_append none split: option.splits)
    have mine: "At_JobID x = Job_ID y" if "holds d aid x y" for d using that by (auto simp: holds_def dest!: find_SomeD)
    show ?thesis
    proof (cases "At_JobID x = Job_ID y")
      case True
      then have "At_JobID x \<noteq> Job_ID job" using that by simp
      then show ?thesis unfolding holds_def by (simp only: jobs attempts not_False_eq_True)
    qed (use mine in blast)
  qed
qed

text \<open>Pulls one after the other, each of an agent at its own time, for its own lease; any of them may fail.\<close>

fun run_pulls :: "uuid_source \<Rightarrow> (time \<times> string \<times> time) list \<Rightarrow> kworld \<Rightarrow>
    (db_error + (DistributionJob \<times> JobAttempt) option) list \<times> kworld" where
  "run_pulls U [] w = ([], w)"
| "run_pulls U ((now, agentID, lease) # ps) w =
     (case PullPending U now agentID lease w of
        (r, w1) \<Rightarrow> (case run_pulls U ps w1 of (rs, w2) \<Rightarrow> (r # rs, w2)))"

definition handed_out :: "(db_error + (DistributionJob \<times> JobAttempt) option) list \<Rightarrow> (DistributionJob \<times> JobAttempt) list" where
  "handed_out rs = concat (map (\<lambda>r. case r of Inl _ \<Rightarrow> [] | Inr None \<Rightarrow> [] | Inr (Some x) \<Rightarrow> [x]) rs)"

definition pending_jobs :: "kdb \<Rightarrow> DistributionJob set" where
  "pending_jobs d = {j \<in> set (distribution_jobs d). Job_Status j = JobStatusPending}"

definition was_pending :: "kdb \<Rightarrow> DistributionJob \<Rightarrow> bool" where
  "was_pending d job \<longleftrightarrow> (\<exists>j \<in> set (distribution_jobs d). Job_Status j = JobStatusPending \<and> Job_ID j = Job_ID job \<and>
     Job_CreatedAt j = Job_CreatedAt job)"

definition held_alone :: "kdb \<Rightarrow> DistributionJob \<Rightarrow> JobAttempt \<Rightarrow> bool" where
  "held_alone d job att \<longleftrightarrow>
     (\<exists>j. holds d (At_ID att) att j \<and> Job_ID j = Job_ID job \<and> Job_Status j = JobStatusRunning) \<and>
     (\<forall>aid x y. holds d aid x y \<longrightarrow> Job_ID y = Job_ID job \<longrightarrow> aid = At_ID att)"

lemma pull_held:
  assumes "PullPending U now agentID lease w = (Inr (Some (job, att)), w')" "kinv N Map.empty (wdb w)"
  shows "held_alone (wdb w') job att" and "At_LeaseExpiresAt att = now + lease" and "At_AgentID att = agentID"
proof -
  define fenced where "fenced a i \<longleftrightarrow> (\<forall>aid x y. holds (wdb w') aid x y \<longrightarrow> Job_ID y = i \<longrightarrow> aid = At_ID a)"
    for a :: JobAttempt and i
  have *: "\<exists>(j::DistributionJob) j'. Job_ID job = Job_ID j \<and> holds (wdb w') (At_ID att) att j' \<and> Job_ID j' = Job_ID j \<and>
      Job_Status j' = JobStatusRunning \<and> At_LeaseExpiresAt att = now + lease \<and> At_AgentID att = agentID \<and>
      fenced att (Job_ID j)"
    using pull_takes_oldest [OF assms, folded fenced_def] by auto
  from * show "At_LeaseExpiresAt att = now + lease" "At_AgentID att = agentID" by auto
  from * show "held_alone (wdb w') job att" unfolding held_alone_def fenced_def [symmetric] by auto
qed

lemma pulls_account:
  assumes "run_pulls U ps w = (rs, w')" "kinv N Map.empty (wdb w)"
  shows "distinct (map (Job_ID \<circ> fst) (handed_out rs)) \<and> sorted (map (Job_CreatedAt \<circ> fst) (handed_out rs)) \<and>
    (\<forall>(job, att) \<in> set (handed_out rs). was_pending (wdb w) job \<and> held_alone (wdb w') job att) \<and>
    (\<forall>aid x y. Job_ID y \<notin> Job_ID ` {j \<in> set (distribution_jobs (wdb w)). Job_Status j = JobStatusPending} \<longrightarrow>
       holds (wdb w') aid x y = holds (wdb w) aid x y)"
  using assms
proof (induction ps arbitrary: w rs)
  case (Cons pull ps)
  obtain now agentID lease where pull: "pull = (now, agentID, lease)" by (cases pull)
  obtain r w1 rs1 where r: "PullPending U now agentID lease w = (r, w1)" and rest: "run_pulls U ps w1 = (rs1, w')"
    and rs: "rs = r # rs1"
    using Cons.prems(1) pull by (auto split: prod.splits)
  have inv: "kinv N Map.empty (wdb w1)" using PullPending_kinv [of N U now agentID lease] Cons.prems(2) r
    by (metis keeps_def snd_conv)
  note IH = Cons.IH [OF rest inv]
  note frame = IH [THEN conjunct2, THEN conjunct2, THEN conjunct2, rule_format]
  show ?case
  proof (cases "\<exists>x. r = Inr (Some x)")
    case False
    have "wdb w1 = wdb w"
    proof (cases r)
      case (Inl e)
      then show ?thesis using r by (auto simp: PullPending_def dest!: RunInTx_failure)
    next
      case (Inr x)
      then have "x = None" using False by (cases x) auto
      then show ?thesis using pull_takes_oldest [OF r [unfolded Inr] Cons.prems(2)] by auto
    qed
    moreover have "handed_out rs = handed_out rs1" using False rs by (auto simp: handed_out_def split: sum.split option.split)
    ultimately show ?thesis using IH by simp
  next
    case True
    then obtain job att where some: "r = Inr (Some (job, att))" by auto
    note first = pull_frame [OF r [unfolded some] Cons.prems(2)] pull_held [OF r [unfolded some] Cons.prems(2)]
    obtain j where j: "j \<in> set (distribution_jobs (wdb w))" "Job_Status j = JobStatusPending" "Job_ID j = Job_ID job"
        "Job_CreatedAt j = Job_CreatedAt job"
      and oldest: "\<And>i. i \<in> set (distribution_jobs (wdb w)) \<Longrightarrow> Job_Status i = JobStatusPending \<Longrightarrow> Job_CreatedAt job \<le> Job_CreatedAt i"
      using first(1) by metis
    have later: "was_pending (wdb w) k \<and> Job_ID k \<noteq> Job_ID job \<and> Job_CreatedAt job \<le> Job_CreatedAt k"
      if "was_pending (wdb w1) k" for k
      using that first(2) oldest unfolding was_pending_def by metis
    have gone: "Job_ID job \<notin> Job_ID ` {i \<in> set (distribution_jobs (wdb w1)). Job_Status i = JobStatusPending}"
      using first(2) by fastforce
    have out: "handed_out rs = (job, att) # handed_out rs1" using some rs by (simp add: handed_out_def)
    have others: "was_pending (wdb w) (fst h) \<and> Job_ID (fst h) \<noteq> Job_ID job \<and> Job_CreatedAt job \<le> Job_CreatedAt (fst h) \<and>
        held_alone (wdb w') (fst h) (snd h)" if "h \<in> set (handed_out rs1)" for h
    proof -
      have "was_pending (wdb w1) (fst h)" "held_alone (wdb w') (fst h) (snd h)" using IH that by (auto simp: case_prod_beta)
      with later show ?thesis by blast
    qed
    have still: "holds (wdb w') aid x y = holds (wdb w1) aid x y" if "Job_ID y = Job_ID job" for aid x y
      by (rule frame) (simp only: that, rule gone)
    have "held_alone (wdb w') job att" using first(4) still unfolding held_alone_def by metis
    moreover have "was_pending (wdb w) job" using j by (auto simp: was_pending_def)
    moreover have "holds (wdb w') aid x y = holds (wdb w) aid x y"
      if "Job_ID y \<notin> Job_ID ` {i \<in> set (distribution_jobs (wdb w)). Job_Status i = JobStatusPending}" for aid x y
    proof -
      have "Job_ID y \<noteq> Job_ID job" using that j by (metis (mono_tags, lifting) imageI mem_Collect_eq)
      moreover have "Job_ID y \<notin> Job_ID ` {i \<in> set (distribution_jobs (wdb w1)). Job_Status i = JobStatusPending}"
        using that first(2) by auto
      ultimately show ?thesis using frame [of y] first(3) [of y] by blast
    qed
    moreover have "Job_ID job \<notin> (Job_ID \<circ> fst) ` set (handed_out rs1)" using others by fastforce
    then have "distinct (map (Job_ID \<circ> fst) (handed_out rs))" using IH [THEN conjunct1] unfolding out by (simp add: comp_def)
    moreover have "sorted (map (Job_CreatedAt \<circ> fst) (handed_out rs))"
      using IH [THEN conjunct2, THEN conjunct1] others unfolding out by (simp add: comp_def)
    ultimately show ?thesis using others unfolding out by (simp add: case_prod_beta comp_def)
  qed
qed (simp add: handed_out_def)

lemma pulls_leave:
  assumes "run_pulls U ps w = (rs, w')" "kinv N Map.empty (wdb w)"
  shows "pending_jobs (wdb w') \<subseteq> pending_jobs (wdb w) \<and> (Inr None \<in> set rs \<longrightarrow> pending_jobs (wdb w') = {}) \<and>
    list_all2 (\<lambda>(now, agentID, lease) r. \<forall>job att. r = Inr (Some (job, att)) \<longrightarrow>
      At_AgentID att = agentID \<and> At_LeaseExpiresAt att = now + lease) ps rs"
  using assms
proof (induction ps arbitrary: w rs)
  case (Cons pull ps)
  obtain now agentID lease where pull: "pull = (now, agentID, lease)" by (cases pull)
  obtain r w1 rs1 where r: "PullPending U now agentID lease w = (r, w1)" and rest: "run_pulls U ps w1 = (rs1, w')"
    and rs: "rs = r # rs1"
    using Cons.prems(1) pull by (auto split: prod.splits)
  have inv: "kinv N Map.empty (wdb w1)" using PullPending_kinv [of N U now agentID lease] Cons.prems(2) r
    by (metis keeps_def snd_conv)
  have "pending_jobs (wdb w1) \<subseteq> pending_jobs (wdb w) \<and> (r = Inr None \<longrightarrow> pending_jobs (wdb w1) = {}) \<and>
      (\<forall>job att. r = Inr (Some (job, att)) \<longrightarrow> At_AgentID att = agentID \<and> At_LeaseExpiresAt att = now + lease)"
  proof (cases r)
    case (Inl e)
    then show ?thesis using r by (auto simp: PullPending_def dest!: RunInTx_failure)
  next
    case (Inr x)
    note mine = r [unfolded Inr]
    show ?thesis
    proof (cases x)
      case None
      then show ?thesis using pull_takes_oldest [OF mine Cons.prems(2)] Inr by (auto simp: pending_jobs_def)
    next
      case (Some y)
      obtain job att where y: "y = (job, att)" by (cases y)
      note mine = mine [unfolded Some y]
      show ?thesis using pull_frame(2) [OF mine Cons.prems(2)] pull_held(2,3) [OF mine Cons.prems(2)] Inr Some y
        by (auto simp: pending_jobs_def)
    qed
  qed
  then show ?case using Cons.IH [OF rest inv] unfolding rs pull by auto
qed simp

text \<open>
  (C31) No job is handed out twice: over any sequence of pulls by any agents, whatever statements fail, the jobs
  handed out are all different, were Pending before, and come oldest first; at the end each of them is Running
  and held by the attempt its pull returned, and by no other. Each attempt is for the agent that pulled, with
  the lease it asked for; and when some pull found no job, none is Pending at the end.
\<close>

theorem pull_is_exclusive:
  assumes "run_pulls U ps w = (rs, w')" "kinv N Map.empty (wdb w)"
  shows "distinct (map (Job_ID \<circ> fst) (handed_out rs)) \<and> sorted (map (Job_CreatedAt \<circ> fst) (handed_out rs)) \<and>
    (\<forall>(job, att) \<in> set (handed_out rs). was_pending (wdb w) job \<and> held_alone (wdb w') job att) \<and>
    list_all2 (\<lambda>(now, agentID, lease) r. \<forall>job att. r = Inr (Some (job, att)) \<longrightarrow>
      At_AgentID att = agentID \<and> At_LeaseExpiresAt att = now + lease) ps rs \<and>
    (Inr None \<in> set rs \<longrightarrow> pending_jobs (wdb w') = {})"
  using pulls_account [OF assms] pulls_leave [OF assms] by blast

lemma pull_runs:
  assumes "faults w = []" "seq_inv (wdb w)" "uuid_fresh U (wdb w)" "inj U"
  shows "\<exists>r w'. PullPending U now agentID lease w = (Inr r, w')"
proof (cases "oldest_pending (wdb w)")
  case None
  then show ?thesis using assms(1) by (simp add: PullPending_def RunInTx_def bnd_def query_nofault ret_def)
next
  case (Some job)
  let ?att = "new_attempt now agentID lease (U (uuid_n (wdb w))) job"
  let ?d = "(wdb w)\<lparr>uuid_n := Suc (uuid_n (wdb w)), job_attempts := job_attempts (wdb w) @ [?att],
      distribution_jobs := row_upd (\<lambda>j. Job_ID j = Job_ID job) (\<lambda>j. j\<lparr>Job_Status := JobStatusRunning,
        Job_CurrentAttemptID := Some (U (uuid_n (wdb w))), Job_UpdatedAt := now\<rparr>) (distribution_jobs (wdb w))\<rparr>"
  have clash: "List.find (\<lambda>x. At_ID x = U (uuid_n (wdb w))) (job_attempts (wdb w)) = None"
    using assms(3) by (simp add: uuid_fresh_def find_key_None)
  have "seq_inv (wdb (w\<lparr>wdb := ?d\<rparr>))" using assms(2) by (simp add: seq_inv_def sku_events_def last_seq_def)
  moreover have "uuid_fresh U (wdb (w\<lparr>wdb := ?d\<rparr>))"
    using assms(3,4) by (auto simp: uuid_fresh_def new_attempt_def inj_eq)
  ultimately obtain e w2 where "Append U now (Job_SKUID job) EventJobRunning
        [(''job_id'', JInt (Job_ID job)), (''attempt_id'', JStr (U (uuid_n (wdb w)))),
         (''agent_id'', JStr agentID), (''target'', JStr (Job_Target job))] (w\<lparr>wdb := ?d\<rparr>) = (Inr e, w2)" "faults w2 = []"
    using Append_runs [of "w\<lparr>wdb := ?d\<rparr>" U now "Job_SKUID job" EventJobRunning] assms(1) by fastforce
  then show ?thesis using assms(1) clash Some
    unfolding PullPending_def pull_job_def inline_append Let_def
    by (simp add: RunInTx_def bnd_def query_nofault exec_nofault uuid_New_def insert_job_attempt_def stmt_nofault
        new_attempt_def ret_def)
qed

text \<open>Two agents pull where one job is pending: one of them gets it, and holds it when both have pulled.\<close>

theorem pull_is_exclusive_witness:
  "\<exists>rs w' job att. run_pulls example_uuid [(9, ''nas'', 60), (10, ''cdn'', 60)] (quiet running_kdb) = (rs, w') \<and>
     handed_out rs = [(job, att)] \<and> Job_ID job = 2 \<and> held_alone (wdb w') job att"
proof -
  obtain r w1 where run: "PullPending example_uuid 9 ''nas'' 60 (quiet running_kdb) = (Inr r, w1)"
    using pull_runs [of "quiet running_kdb" example_uuid 9 "''nas''" 60] running_kdb_ok example_uuid_inj by auto
  obtain r2 w' where run2: "PullPending example_uuid 10 ''cdn'' 60 w1 = (r2, w')"
    by (cases "PullPending example_uuid 10 ''cdn'' 60 w1")
  have two: "\<And>j. j \<in> set (distribution_jobs running_kdb) \<Longrightarrow> Job_Status j = JobStatusPending \<Longrightarrow> Job_ID j = 2"
    "\<exists>j \<in> set (distribution_jobs running_kdb). Job_Status j = JobStatusPending"
    by (auto simp: running_kdb_def running_job_def)
  obtain job att where r: "r = Some (job, att)"
    using pull_takes_oldest [OF run, of 2] running_kdb_ok(1) two(2) unfolding quiet_simps by auto
  have runs: "run_pulls example_uuid [(9, ''nas'', 60), (10, ''cdn'', 60)] (quiet running_kdb) = ([Inr r, r2], w')"
    using run run2 by simp
  have all: "distinct (map (Job_ID \<circ> fst) (handed_out [Inr r, r2]))"
      "\<forall>(job, att) \<in> set (handed_out [Inr r, r2]). was_pending running_kdb job \<and> held_alone (wdb w') job att"
    using pull_is_exclusive [OF runs, of 2] running_kdb_ok(1) by simp_all
  have ids: "Job_ID k = 2" if "was_pending running_kdb k" for k using that two(1) by (auto simp: was_pending_def)
  have out: "handed_out [Inr r, r2] = (job, att) # handed_out [r2]" by (simp add: handed_out_def r)
  have "handed_out [r2] = []"
  proof (rule ccontr)
    assume "handed_out [r2] \<noteq> []"
    then obtain h where h: "h \<in> set (handed_out [r2])" by (cases "handed_out [r2]") auto
    then have "was_pending running_kdb (fst h)" "was_pending running_kdb job"
      using all(2) unfolding out by (auto simp: case_prod_beta)
    then have "Job_ID (fst h) = 2" "Job_ID job = 2" by (simp_all add: ids)
    then show False using all(1) h unfolding out by (auto simp: image_iff)
  qed
  moreover have "was_pending running_kdb job" "held_alone (wdb w') job att" using all(2) unfolding out by simp_all
  ultimately show ?thesis using runs ids out by auto
qed

subsection \<open>Sync\<close>

definition current_version :: "kdb \<Rightarrow> id \<Rightarrow> AssetVersion option" where
  "current_version d skuID = List.find (\<lambda>v. \<exists>s \<in> set (skus d). SKU_ID s = skuID \<and>
     SKU_CurrentVerID s = Some (AV_ID v)) (asset_versions d)"

lemma GetCurrentForSKU_ok: "infra (GetCurrentForSKU True i) w = (Inr v, w') \<Longrightarrow> v = current_version (wdb w) i \<and> wdb w' = wdb w"
  unfolding GetCurrentForSKU_def current_version_def map_err_eq_Inr by (drule stmt_success) auto

lemma Sync_preflight_ok:
  assumes "Sync_preflight True p w = (Inr (i, n), w')"
  shows "\<exists>sku. List.find (\<lambda>s. SKU_SKUCode s = Sy_SKUCode p) (skus (wdb w)) = Some sku \<and> i = SKU_ID sku \<and>
     n = (case current_version (wdb w) i of None \<Rightarrow> 1 | Some v \<Rightarrow> AV_VersionNum v + 1) \<and> wdb w' = wdb w"
proof -
  from assms obtain sku w1 v where q: "infra (SKURepo_GetBySKUCode (Sy_SKUCode p)) w = (Inr (Some sku), w1)"
    and c: "infra (GetCurrentForSKU True (SKU_ID sku)) w1 = (Inr v, w')"
    and x: "i = SKU_ID sku" "n = (case v of None \<Rightarrow> 1 | Some v \<Rightarrow> AV_VersionNum v + 1)"
    unfolding Sync_preflight_def by (auto simp: bnd_eq_Inr split: if_splits option.splits)
  show ?thesis using infra_query [OF q [unfolded SKURepo_GetBySKUCode_def]] GetCurrentForSKU_ok [OF c] x by auto
qed

lemma Sync_tx_ok:
  assumes "Sync_tx U now p (i, n) w = (Inr v, w')"
  shows "v = next_version (wdb w) \<and> asset_versions (wdb w') = asset_versions (wdb w) @
       [(sync_version p i n)\<lparr>AV_ID := v, AV_CreatedAt := now\<rparr>] \<and>
     skus (wdb w') = row_upd (\<lambda>s. SKU_ID s = i) (\<lambda>s. s\<lparr>SKU_CurrentVerID := Some v, SKU_UpdatedAt := now\<rparr>) (skus (wdb w))"
proof -
  from assms obtain w1 w2 ty pl e where cr: "AssetVersionRepo_Create now (sync_version p i n) w = (Inr v, w1)"
    and st: "SKURepo_SetCurrentVersion now i v w1 = (Inr (), w2)" and ap: "Append U now i ty pl w2 = (Inr e, w')"
    unfolding Sync_tx_def Let_def prod.case by (auto simp: bnd_eq_Inr)
  have fresh: "(sync_version p i n)\<lparr>AV_ID := x, AV_AuditStatus := AuditStatusUnreviewed, AV_ExistsState := ExistsStateExists,
      AV_CreatedAt := now\<rparr> = (sync_version p i n)\<lparr>AV_ID := x, AV_CreatedAt := now\<rparr>" for x
    by (simp add: sync_version_def)
  have w1: "v = next_version (wdb w)" "wdb w1 = (wdb w)\<lparr>asset_versions := asset_versions (wdb w) @
       [(sync_version p i n)\<lparr>AV_ID := v, AV_CreatedAt := now\<rparr>], next_version := v + 1\<rparr>"
    using stmt_success [OF cr [unfolded AssetVersionRepo_Create_def]] by (auto simp: fresh [symmetric])
  have w2: "wdb w2 = (wdb w1)\<lparr>skus := row_upd (\<lambda>s. SKU_ID s = i)
      (\<lambda>s. s\<lparr>SKU_CurrentVerID := Some v, SKU_UpdatedAt := now\<rparr>) (skus (wdb w1))\<rparr>"
    using exec_success [OF st [unfolded SKURepo_SetCurrentVersion_def]] .
  have "skus (wdb w') = skus (wdb w2)" "asset_versions (wdb w') = asset_versions (wdb w2)"
    using Append_ok [OF ap] by (auto simp: appended_def)
  then show ?thesis using w1 w2 by simp
qed

text \<open>
  A file report that returns has recorded the next version of that SKU and made it the current
  one: its number is one above the current version's (1 for the first), its hash state is Ready
  exactly if the file is stable, it starts unreviewed and present, and the SKU's workflow
  status is not touched.
\<close>

theorem sync_records_next_version:
  assumes "Sync True U now p w = (Inr v, w')" "kinv N Map.empty (wdb w)"
  shows "\<exists>sku row. List.find (\<lambda>s. SKU_SKUCode s = Sy_SKUCode p) (skus (wdb w)) = Some sku \<and>
     asset_versions (wdb w') = asset_versions (wdb w) @ [row] \<and> AV_ID row = v \<and> AV_SKUID row = SKU_ID sku \<and>
     AV_VersionNum row = (case current_version (wdb w) (SKU_ID sku) of None \<Rightarrow> 1 | Some c \<Rightarrow> AV_VersionNum c + 1) \<and>
     AV_IsStable row = Sy_IsStable p \<and> (AV_HashState row = HashStateReady \<longleftrightarrow> Sy_IsStable p) \<and>
     AV_AuditStatus row = AuditStatusUnreviewed \<and> AV_ExistsState row = ExistsStateExists \<and>
     List.find (\<lambda>s. SKU_ID s = SKU_ID sku) (skus (wdb w')) = Some (sku\<lparr>SKU_CurrentVerID := Some v, SKU_UpdatedAt := now\<rparr>)"
proof -
  from assms(1) obtain i n w1 where pre: "Sync_preflight True p w = (Inr (i, n), w1)"
    and tx: "RunInTx (Sync_tx U now p (i, n)) w1 = (Inr v, w')"
    unfolding Sync_def by (auto simp: bnd_eq_Inr map_err_eq_Inr)
  from Sync_preflight_ok [OF pre] obtain sku where sku: "List.find (\<lambda>s. SKU_SKUCode s = Sy_SKUCode p) (skus (wdb w)) = Some sku"
    "i = SKU_ID sku" "n = (case current_version (wdb w) i of None \<Rightarrow> 1 | Some v \<Rightarrow> AV_VersionNum v + 1)" "wdb w1 = wdb w" by auto
  from RunInTx_success [OF tx] obtain v1 v2 where "wdb v1 = wdb w" "Sync_tx U now p (i, n) v1 = (Inr v, v2)" "wdb w' = wdb v2"
    using sku(4) by auto
  with Sync_tx_ok [of U now p i n v1 v v2] have eff: "asset_versions (wdb w') = asset_versions (wdb w) @
       [(sync_version p i n)\<lparr>AV_ID := v, AV_CreatedAt := now\<rparr>]"
    "skus (wdb w') = row_upd (\<lambda>s. SKU_ID s = i) (\<lambda>s. s\<lparr>SKU_CurrentVerID := Some v, SKU_UpdatedAt := now\<rparr>) (skus (wdb w))"
    by simp_all
  have "List.find (\<lambda>s. SKU_ID s = SKU_ID sku) (skus (wdb w)) = Some sku"
    using assms(2) find_SomeD [OF sku(1)] by (intro find_distinct_key) (simp_all add: kinv_def sku_inv_def)
  then have "List.find (\<lambda>s. SKU_ID s = SKU_ID sku) (skus (wdb w')) = Some (sku\<lparr>SKU_CurrentVerID := Some v, SKU_UpdatedAt := now\<rparr>)"
    using eff(2) sku(2) by (simp add: find_row_upd)
  with sku eff(1) show ?thesis by (auto simp: sync_version_def)
qed

definition sync_params :: AgentSyncParams where
  "sync_params = \<lparr>Sy_AgentID = ''nas'', Sy_SKUCode = ''A-1'', Sy_FilePath = ''/f'', Sy_WholeHash = ''h'', Sy_HeadChunkHash = None,
     Sy_TailChunkHash = None, Sy_FileSizeBytes = 10, Sy_IsStable = True, Sy_PreviewURL = None\<rparr>"

lemma sync_example: "\<exists>w'. Sync True example_uuid 5 sync_params (quiet draft_kdb) = (Inr 1, w')"
proof -
  have pre: "Sync_preflight True sync_params (quiet draft_kdb) = (Inr (1, 1), quiet draft_kdb)"
    by (simp add: Sync_preflight_def SKURepo_GetBySKUCode_def GetCurrentForSKU_def sync_params_def bnd_def map_err_def act_simps
        draft_kdb_def draft_sku_def empty_kdb_def quiet_def)
  let ?d = "draft_kdb\<lparr>asset_versions := asset_versions draft_kdb @ [(sync_version sync_params 1 1)\<lparr>AV_ID := 1,
      AV_AuditStatus := AuditStatusUnreviewed, AV_ExistsState := ExistsStateExists, AV_CreatedAt := 5\<rparr>], next_version := 2,
      skus := row_upd (\<lambda>s. SKU_ID s = 1) (\<lambda>s. s\<lparr>SKU_CurrentVerID := Some 1, SKU_UpdatedAt := 5\<rparr>) (skus draft_kdb)\<rparr>"
  have "seq_inv (wdb (quiet ?d))" "uuid_fresh example_uuid (wdb (quiet ?d))"
    by (simp_all add: seq_inv_def sku_events_def last_seq_def uuid_fresh_def draft_kdb_def empty_kdb_def)
  then obtain e w2 where "Append example_uuid 5 1 EventVersionStable
      [(''asset_version_id'', JInt 1), (''sku_id'', JInt 1), (''version_num'', JInt 1),
       (''hash_state'', JStr (hs_string (AV_HashState (sync_version sync_params 1 1)))), (''is_stable'', JBool (Sy_IsStable sync_params)),
       (''agent_id'', JStr (Sy_AgentID sync_params)), (''file_size_bytes'', JInt (Sy_FileSizeBytes sync_params))] (quiet ?d)
      = (Inr e, w2)" "faults w2 = []"
    using Append_runs [of "quiet ?d" example_uuid 5 1 EventVersionStable] by fastforce
  moreover have "next_version draft_kdb = 1" by (simp add: draft_kdb_def empty_kdb_def)
  ultimately have "Sync_tx example_uuid 5 sync_params (1, 1) (quiet draft_kdb) = (Inr 1, w2)"
    by (simp add: Sync_tx_def Let_def AssetVersionRepo_Create_def SKURepo_SetCurrentVersion_def bnd_def stmt_nofault exec_nofault
        ret_def quiet_def sync_params_def)
  with \<open>faults w2 = []\<close> show ?thesis using pre by (simp add: Sync_def bnd_def map_err_def RunInTx_nofault_ok)
qed

theorem sync_records_next_version_witness:
  "\<exists>w' row. Sync True example_uuid 5 sync_params (quiet draft_kdb) = (Inr 1, w') \<and> asset_versions (wdb w') = [row] \<and>
     AV_VersionNum row = 1 \<and> AV_HashState row = HashStateReady"
proof -
  obtain w' where run: "Sync True example_uuid 5 sync_params (quiet draft_kdb) = (Inr 1, w')" using sync_example by blast
  from sync_records_next_version [OF run, of 2] draft_kdb_kinv run show ?thesis
    by (auto simp: sync_params_def draft_kdb_def empty_kdb_def current_version_def)
qed

text \<open>
  On a server that rejects the unqualified columns of \<^verbatim>\<open>GetCurrentForSKU\<close>'s join (as MySQL does),
  no file report ever succeeds: every \<open>Sync\<close> returns an error and changes nothing.
\<close>

theorem sync_fails_if_columns_ambiguous:
  "(\<exists>e. fst (Sync False U now p w) = Inl e) \<and> wdb (snd (Sync False U now p w)) = wdb w"
proof -
  obtain r w1 where r: "Sync_preflight False p w = (r, w1)" by fastforce
  have "r \<noteq> Inr x" for x
  proof
    assume "r = Inr x"
    with r show False
      by (auto simp: Sync_preflight_def bnd_eq_Inr map_err_eq_Inr GetCurrentForSKU_def
          split: if_splits option.splits dest!: stmt_success)
  qed
  then obtain e where e: "r = Inl e" by (cases r) auto
  have "keeps (\<lambda>d. d = wdb w) (infra (GetCurrentForSKU False i))" for i
    by (auto simp: keeps_def map_err_def GetCurrentForSKU_def stmt_def split: list.splits bool.splits)
  then have "keeps (\<lambda>d. d = wdb w) (Sync_preflight False p)"
    unfolding Sync_preflight_def SKURepo_GetBySKUCode_def
    by (auto intro!: keeps_bnd keeps_infra_query split: option.splits)
  then have "wdb w1 = wdb w" using r by (force simp: keeps_def)
  with r e show ?thesis by (simp add: Sync_def bnd_def)
qed

end
