(* ===== verification/Incident_Service.thy ===== *)
theory Incident_Service
  imports Agent_Service
begin

section \<open>Incidents and policies\<close>

text \<open>
  \<^verbatim>\<open>src/service/incident.go\<close> (list, assign, resolve) and \<^verbatim>\<open>src/service/policy.go\<close> (update). Assigning and
  resolving write the status with an event in one transaction and the person in a second statement
  outside it, so a failure between the two leaves the status without the person; the lemmas say
  exactly which states a call can leave behind.
\<close>

definition isValidIncidentStatus :: "string \<Rightarrow> IncidentStatus option" where
  "isValidIncidentStatus s =
     (if s = ''Open'' then Some IncidentStatusOpen
      else if s = ''InProgress'' then Some IncidentStatusInProgress
      else if s = ''Resolved'' then Some IncidentStatusResolved
      else if s = ''Closed'' then Some IncidentStatusClosed else None)"

definition incidentService_List :: "string \<Rightarrow> id option \<Rightarrow> int \<Rightarrow> int \<Rightarrow> Incident list kop" where
  "incidentService_List status skuID page0 pageSize0 =
     (let page = (if page0 \<le> 0 then 1 else page0); pageSize = (if pageSize0 \<le> 0 then 20 else pageSize0) in
      if TrimSpace status \<noteq> [] then
        (case isValidIncidentStatus status of
           None \<Rightarrow> throw ErrCodeInvalidRequest
         | Some st \<Rightarrow> infra (IncidentRepo_List (Some st) skuID page pageSize))
      else infra (IncidentRepo_List None skuID page pageSize))"

definition incident_preflight :: "(IncidentStatus \<Rightarrow> bool) \<Rightarrow> id \<Rightarrow> string \<Rightarrow> Incident kop" where
  "incident_preflight allowed i reason =
     (if TrimSpace reason = [] then throw ErrCodeReasonRequired
      else bnd (found (IncidentRepo_GetByID i)) (\<lambda>inc.
        if \<not> allowed (Inc_Status inc) then throw ErrCodeInvalidStateTransition else ret inc))"

definition Assign_tx :: "uuid_source \<Rightarrow> time \<Rightarrow> id \<Rightarrow> id \<Rightarrow> string \<Rightarrow> Incident \<Rightarrow> unit kact" where
  "Assign_tx U now i assigneeID reason inc =
     bnd (IncidentRepo_UpdateStatus now i IncidentStatusInProgress) (\<lambda>_.
     bnd (Append U now (Inc_SKUID inc) EventIncidentAssigned
            [(''incident_id'', JInt i), (''assignee_id'', JInt assigneeID), (''reason'', JStr reason),
             (''triggered_by'', JStr ''ops'')]) (\<lambda>_. ret ()))"

definition incidentService_Assign :: "uuid_source \<Rightarrow> time \<Rightarrow> id \<Rightarrow> id \<Rightarrow> string \<Rightarrow> unit kop" where
  "incidentService_Assign U now i assigneeID reason =
     bnd (incident_preflight (\<lambda>s. s = IncidentStatusOpen \<or> s = IncidentStatusInProgress) i reason) (\<lambda>inc.
     bnd (infra (RunInTx (Assign_tx U now i assigneeID reason inc))) (\<lambda>_.
     infra (IncidentRepo_Assign now i assigneeID)))"

definition Resolve_tx :: "uuid_source \<Rightarrow> time \<Rightarrow> id \<Rightarrow> string \<Rightarrow> Incident \<Rightarrow> unit kact" where
  "Resolve_tx U now i reason inc =
     bnd (IncidentRepo_UpdateStatus now i IncidentStatusResolved) (\<lambda>_.
     bnd (Append U now (Inc_SKUID inc) EventIncidentResolved
            [(''incident_id'', JInt i), (''reason'', JStr reason), (''triggered_by'', JStr ''ops'')]) (\<lambda>_. ret ()))"

definition incidentService_Resolve :: "uuid_source \<Rightarrow> time \<Rightarrow> id \<Rightarrow> id \<Rightarrow> string \<Rightarrow> unit kop" where
  "incidentService_Resolve U now caller i reason =
     bnd (incident_preflight (\<lambda>s. s = IncidentStatusInProgress) i reason) (\<lambda>inc.
     bnd (infra (RunInTx (Resolve_tx U now i reason inc))) (\<lambda>_.
     infra (IncidentRepo_Resolve now i caller)))"

definition policyService_Update :: "time \<Rightarrow> id \<Rightarrow> id \<Rightarrow> string \<Rightarrow> string \<Rightarrow> unit kop" where
  "policyService_Update now caller i val reason =
     (if TrimSpace reason = [] then throw ErrCodeReasonRequired
      else if \<not> json_Valid val then throw ErrCodeInvalidRequest
      else bnd (found (PolicyRepo_GetByID i)) (\<lambda>existing.
        infra (PolicyRepo_Upsert now (Pol_Key existing) val caller)))"

subsection \<open>The invariant\<close>

lemma IncidentRepo_UpdateStatus_kinv: "triple (kinv N opn) (IncidentRepo_UpdateStatus now i st) (\<lambda>_. kinv N opn)"
  unfolding IncidentRepo_UpdateStatus_def by (rule triple_exec) (rule kinv_upd_incident, simp_all)

lemma Assign_tx_kinv:
  "Inc_SKUID inc < N \<Longrightarrow> triple (kinv N Map.empty) (Assign_tx U now i a reason inc) (\<lambda>_. kinv N Map.empty)"
  unfolding Assign_tx_def
  by (rule triple_bnd [OF IncidentRepo_UpdateStatus_kinv triple_unit [OF repo_events.append_other]]) simp_all

lemma Resolve_tx_kinv:
  "Inc_SKUID inc < N \<Longrightarrow> triple (kinv N Map.empty) (Resolve_tx U now i reason inc) (\<lambda>_. kinv N Map.empty)"
  unfolding Resolve_tx_def
  by (rule triple_bnd [OF IncidentRepo_UpdateStatus_kinv triple_unit [OF repo_events.append_other]]) simp_all

lemma IncidentRepo_Assign_kinv: "keeps (kinv N opn) (IncidentRepo_Assign now i a)"
  unfolding IncidentRepo_Assign_def by (rule keeps_exec) (rule kinv_upd_incident, simp_all)

lemma IncidentRepo_Resolve_kinv: "keeps (kinv N opn) (IncidentRepo_Resolve now i a)"
  unfolding IncidentRepo_Resolve_def by (rule keeps_exec) (rule kinv_upd_incident, simp_all)

lemma incident_preflight_ok:
  "incident_preflight allowed i reason w = (Inr inc, w') \<Longrightarrow>
   List.find (\<lambda>x. Inc_ID x = i) (incidents (wdb w)) = Some inc \<and> allowed (Inc_Status inc) \<and> wdb w' = wdb w"
  unfolding incident_preflight_def IncidentRepo_GetByID_def
  by (auto simp: bnd_eq_Inr split: if_splits dest!: found_query)

lemma incident_preflight_db: "wdb (snd (incident_preflight allowed i reason w)) = wdb w"
proof -
  have "keeps (\<lambda>d. d = wdb w) (incident_preflight allowed i reason)"
    unfolding incident_preflight_def IncidentRepo_GetByID_def by (auto intro!: keeps_bnd found_keeps)
  then show ?thesis by (simp add: keeps_def)
qed

subsection \<open>What a resolution leaves behind\<close>

definition resolved :: "time \<Rightarrow> id \<Rightarrow> kdb \<Rightarrow> kdb" where
  "resolved now i d = upd_incident i (\<lambda>x. x\<lparr>Inc_Status := IncidentStatusResolved, Inc_UpdatedAt := now\<rparr>) d"

definition resolved_by :: "time \<Rightarrow> id \<Rightarrow> id \<Rightarrow> kdb \<Rightarrow> kdb" where
  "resolved_by now i caller d = upd_incident i (\<lambda>x. x\<lparr>Inc_Status := IncidentStatusResolved,
     Inc_ResolvedBy := Some caller, Inc_ResolvedAt := Some now, Inc_UpdatedAt := now\<rparr>) d"

lemma Resolve_tx_at:
  assumes "inj U"
  shows "returns (at U d0 D ts) (Resolve_tx U now i reason inc)
     (\<lambda>_. at U d0 (resolved now i D) (ts @ [(Inc_SKUID inc, EventIncidentResolved)]))"
  unfolding Resolve_tx_def IncidentRepo_UpdateStatus_def resolved_def
  by (rule returns_bnd [OF at_exec at_append_unit [OF assms]]) simp_all

lemma incidentService_Resolve_db:
  assumes "inj U" "seq_inv (wdb w)" "uuid_fresh U (wdb w)"
  shows "wdb (snd (incidentService_Resolve U now caller i reason w)) = wdb w \<or>
    (\<exists>inc d1. List.find (\<lambda>x. Inc_ID x = i) (incidents (wdb w)) = Some inc \<and> Inc_Status inc = IncidentStatusInProgress \<and>
       at U (wdb w) (resolved now i (nolog (wdb w))) [(Inc_SKUID inc, EventIncidentResolved)] d1 \<and>
       wdb (snd (incidentService_Resolve U now caller i reason w)) \<in> {d1, resolved_by now i caller d1})"
proof -
  obtain r w1 where r: "incident_preflight (\<lambda>s. s = IncidentStatusInProgress) i reason w = (r, w1)" by fastforce
  have w1: "wdb w1 = wdb w" using incident_preflight_db [of _ i reason w] r by (metis snd_conv)
  show ?thesis
  proof (cases r)
    case (Inl e)
    then show ?thesis using r w1 by (simp add: incidentService_Resolve_def bnd_def)
  next
    case (Inr inc)
    have inc: "List.find (\<lambda>x. Inc_ID x = i) (incidents (wdb w)) = Some inc" "Inc_Status inc = IncidentStatusInProgress"
      using incident_preflight_ok [OF r [unfolded Inr]] by auto
    show ?thesis
    proof (cases rule: run_in_tx_cases [of "Resolve_tx U now i reason inc" w1])
      case (unchanged e w')
      then show ?thesis using r Inr w1 by (simp add: incidentService_Resolve_def bnd_def map_err_def)
    next
      case (committed x w' v1 v2)
      have v1: "at U (wdb w) (nolog (wdb w)) [] (wdb v1)" using at_start assms committed(2) w1 by simp
      have d1: "at U (wdb w) (resolved now i (nolog (wdb w))) [(Inc_SKUID inc, EventIncidentResolved)] (wdb w')"
        using tripleD [OF returns_triple [OF Resolve_tx_at [OF assms(1)]] v1 committed(3)] committed(4) by simp
      have "wdb (snd (incidentService_Resolve U now caller i reason w)) = wdb (snd (IncidentRepo_Resolve now i caller w'))"
        using r Inr committed(1) by (auto simp: incidentService_Resolve_def bnd_def map_err_def split: prod.splits sum.splits)
      moreover have "wdb (snd (IncidentRepo_Resolve now i caller w')) \<in> {wdb w', resolved_by now i caller (wdb w')}"
        by (auto simp: IncidentRepo_Resolve_def exec_def stmt_def resolved_by_def split: list.splits bool.splits)
      ultimately show ?thesis using inc d1 by auto
    qed
  qed
qed

text \<open>
  An incident is resolved only out of InProgress, with its event: after any \<open>Resolve\<close> call, whatever
  fails, nothing has changed, or the incident was InProgress, is now Resolved, the
  \<^verbatim>\<open>incident.resolved\<close> event is written, and the resolver is recorded or (if the last statement failed)
  missing.
\<close>

theorem incident_resolve_states:
  assumes "inj U" "seq_inv (wdb w)" "uuid_fresh U (wdb w)"
  shows "wdb (snd (incidentService_Resolve U now caller i reason w)) = wdb w \<or>
    (\<exists>inc d1. List.find (\<lambda>x. Inc_ID x = i) (incidents (wdb w)) = Some inc \<and> Inc_Status inc = IncidentStatusInProgress \<and>
       at U (wdb w) (resolved now i (nolog (wdb w))) [(Inc_SKUID inc, EventIncidentResolved)] d1 \<and>
       wdb (snd (incidentService_Resolve U now caller i reason w)) \<in> {d1, resolved_by now i caller d1})"
  using assms by (rule incidentService_Resolve_db)

theorem incident_resolve_states_witness:
  "wdb (snd (incidentService_Resolve example_uuid 9 5 1 ''fixed'' (quiet running_kdb))) = running_kdb \<or>
    (\<exists>inc. List.find (\<lambda>x. Inc_ID x = 1) (incidents running_kdb) = Some inc \<and> Inc_Status inc = IncidentStatusInProgress)"
  using incident_resolve_states [OF example_uuid_inj, of "quiet running_kdb" 9 5 1 "''fixed''"] running_kdb_ok by auto

end
