(* ===== verification/Kernel_Workers.thy ===== *)
theory Kernel_Workers
  imports Incident_Service
begin

section \<open>Background workers\<close>

text \<open>
  \<^verbatim>\<open>src/workers\<close>: the lease reaper, the retry scheduler and the verify worker. Each tick reads a list of
  jobs with one query and then runs one transaction per job, logging and skipping those that fail
  (\<open>ignore_err\<close>). The transactions update by job id alone; they do not look at the job's status
  again, which is why theory Kernel_System keeps the lists that were read as part of the state.
\<close>

subsection \<open>LeaseReaper\<close>

definition expired_jobs :: "time \<Rightarrow> kdb \<Rightarrow> (id \<times> id) list" where
  "expired_jobs now d = map (\<lambda>j. (Job_ID j, Job_SKUID j))
     (filter (\<lambda>j. Job_Status j = JobStatusRunning \<and>
        list_ex (\<lambda>a. Job_CurrentAttemptID j = Some (At_ID a) \<and> At_LeaseExpiresAt a < now) (job_attempts d))
      (distribution_jobs d))"

definition reap_tx :: "uuid_source \<Rightarrow> time \<Rightarrow> id \<times> id \<Rightarrow> unit kact" where
  "reap_tx U now job =
     bnd (exec (upd_job (fst job) (\<lambda>j. j\<lparr>Job_Status := JobStatusStale, Job_CurrentAttemptID := None,
            Job_UpdatedAt := now\<rparr>))) (\<lambda>_.
     workerAppendEvent U now (snd job) EventJobStale [(''job_id'', JInt (fst job))])"

definition reap :: "uuid_source \<Rightarrow> time \<Rightarrow> unit kact" where
  "reap U now = bnd (query (expired_jobs now)) (\<lambda>jobs.
     for_each (\<lambda>job. ignore_err (RunInTx (reap_tx U now job))) jobs)"

subsection \<open>RetryScheduler\<close>

record retryJob =
  RJ_ID :: id
  RJ_SKUID :: id
  RJ_RetryCount :: int
  RJ_MaxRetries :: int

definition due_jobs :: "time \<Rightarrow> kdb \<Rightarrow> retryJob list" where
  "due_jobs now d = map (\<lambda>j. \<lparr>RJ_ID = Job_ID j, RJ_SKUID = Job_SKUID j, RJ_RetryCount = Job_RetryCount j,
       RJ_MaxRetries = Job_MaxRetries j\<rparr>)
     (take 50 (sort_key Job_CreatedAt
       (filter (\<lambda>j. Job_Status j \<in> {JobStatusFail, JobStatusStale} \<and>
          (case Job_NextRetryAt j of None \<Rightarrow> True | Some t \<Rightarrow> t \<le> now)) (distribution_jobs d))))"

text \<open>
  \<^verbatim>\<open>time.Duration(math.Pow(2, float64(n)))\<close>: powers of two up to \<open>2 ^ 62\<close> convert exactly; what a larger
  \<^verbatim>\<open>float64\<close> converts to is left open by the language, the parameter \<open>f2i\<close>. The product with the base
  is 64-bit arithmetic and wraps.
\<close>

definition pow2_duration :: "(int \<Rightarrow> int) \<Rightarrow> int \<Rightarrow> int" where
  "pow2_duration f2i n = (if n < 0 then 0 else if n < 63 then 2 ^ nat n else f2i n)"

definition backoff :: "(int \<Rightarrow> int) \<Rightarrow> int \<Rightarrow> time" where
  "backoff f2i retryCount =
     (let b = int64 (30 * Second * pow2_duration f2i retryCount) in if b > Hour then Hour else b)"

definition markRetrying_tx :: "uuid_source \<Rightarrow> time \<Rightarrow> (int \<Rightarrow> int) \<Rightarrow> retryJob \<Rightarrow> unit kact" where
  "markRetrying_tx U now f2i job =
     (let nextRetryAt = now + backoff f2i (RJ_RetryCount job) in
      bnd (exec (upd_job (RJ_ID job) (\<lambda>j. j\<lparr>Job_Status := JobStatusPending,
             Job_RetryCount := Job_RetryCount j + 1, Job_NextRetryAt := Some nextRetryAt, Job_UpdatedAt := now\<rparr>))) (\<lambda>_.
      workerAppendEvent U now (RJ_SKUID job) EventJobRetrying
        [(''job_id'', JInt (RJ_ID job)), (''retry_count'', JInt (RJ_RetryCount job + 1)),
         (''next_retry_at'', JInt nextRetryAt)]))"

definition markExceeded_tx :: "uuid_source \<Rightarrow> time \<Rightarrow> retryJob \<Rightarrow> unit kact" where
  "markExceeded_tx U now job =
     bnd (exec (upd_job (RJ_ID job) (\<lambda>j. j\<lparr>Job_Status := JobStatusExceededRetries, Job_UpdatedAt := now\<rparr>))) (\<lambda>_.
     bnd (IncidentRepo_Create now (RJ_SKUID job) (Some (RJ_ID job)) ''job exceeded max retries'') (\<lambda>incidentID.
     bnd (workerAppendEvent U now (RJ_SKUID job) EventJobExceededRetries
            [(''job_id'', JInt (RJ_ID job)), (''retry_count'', JInt (RJ_RetryCount job)),
             (''max_retries'', JInt (RJ_MaxRetries job))]) (\<lambda>_.
     workerAppendEvent U now (RJ_SKUID job) EventIncidentCreated
       [(''incident_id'', JInt incidentID), (''job_id'', JInt (RJ_ID job)),
        (''reason'', JStr ''job exceeded max retries'')])))"

definition retry_tx :: "uuid_source \<Rightarrow> time \<Rightarrow> (int \<Rightarrow> int) \<Rightarrow> retryJob \<Rightarrow> unit kact" where
  "retry_tx U now f2i job =
     (if RJ_RetryCount job < RJ_MaxRetries job then markRetrying_tx U now f2i job else markExceeded_tx U now job)"

definition schedule :: "uuid_source \<Rightarrow> time \<Rightarrow> (int \<Rightarrow> int) \<Rightarrow> unit kact" where
  "schedule U now f2i = bnd (query (due_jobs now)) (\<lambda>jobs.
     for_each (\<lambda>job. ignore_err (RunInTx (retry_tx U now f2i job))) jobs)"

subsection \<open>VerifyWorker\<close>

record verifyJob =
  VJ_ID :: id
  VJ_SKUID :: id
  VJ_AssetVerID :: id
  VJ_Target :: string

definition verify_jobs :: "kdb \<Rightarrow> verifyJob list" where
  "verify_jobs d = map (\<lambda>j. \<lparr>VJ_ID = Job_ID j, VJ_SKUID = Job_SKUID j, VJ_AssetVerID = Job_AssetVerID j,
       VJ_Target = Job_Target j\<rparr>)
     (take 20 (filter (\<lambda>j. Job_VerifyStatus j = VerifyStatusVerifying) (distribution_jobs d)))"

definition allSiblingJobsDoneAndVerified :: "id \<Rightarrow> bool kact" where
  "allSiblingJobsDoneAndVerified skuID = query (\<lambda>d.
     let js = filter (\<lambda>j. Job_SKUID j = skuID) (distribution_jobs d) in
     js \<noteq> [] \<and> list_all (\<lambda>j. Job_Status j = JobStatusDone \<and>
       (Job_VerifyStatus j = VerifyStatusVerified \<or> Job_VerifyStatus j = VerifyStatusNotRequested)) js)"

text \<open>The UPDATE of the SKU is the same compare-and-set statement as \<^verbatim>\<open>CASWorkflowStatus\<close>.\<close>

definition markVerifyPassed_tx :: "uuid_source \<Rightarrow> time \<Rightarrow> verifyJob \<Rightarrow> unit kact" where
  "markVerifyPassed_tx U now job =
     bnd (exec (upd_job (VJ_ID job) (\<lambda>j. j\<lparr>Job_VerifyStatus := VerifyStatusVerified, Job_UpdatedAt := now\<rparr>))) (\<lambda>_.
     bnd (allSiblingJobsDoneAndVerified (VJ_SKUID job)) (\<lambda>complete.
     bnd (if complete then
            bnd (CASWorkflowStatus now (VJ_SKUID job) WorkflowDistributionRunning WorkflowCompleted) (\<lambda>affected.
              if \<not> affected then ret ()
              else workerAppendEvent U now (VJ_SKUID job) EventSKUStatusChanged
                     (status_payload WorkflowDistributionRunning WorkflowCompleted ''verify_worker''))
          else ret ()) (\<lambda>_.
     workerAppendEvent U now (VJ_SKUID job) EventVerifyPassed
       [(''job_id'', JInt (VJ_ID job)), (''asset_ver_id'', JInt (VJ_AssetVerID job)), (''target'', JStr (VJ_Target job))])))"

definition markVerifyFailed_tx :: "uuid_source \<Rightarrow> time \<Rightarrow> verifyJob \<Rightarrow> unit kact" where
  "markVerifyFailed_tx U now job =
     bnd (exec (upd_job (VJ_ID job) (\<lambda>j. j\<lparr>Job_VerifyStatus := VerifyStatusVerifyFailed, Job_UpdatedAt := now\<rparr>))) (\<lambda>_.
     bnd (IncidentRepo_Create now (VJ_SKUID job) (Some (VJ_ID job)) ''verify failed'') (\<lambda>incidentID.
     bnd (workerAppendEvent U now (VJ_SKUID job) EventVerifyFailed
            [(''job_id'', JInt (VJ_ID job)), (''asset_ver_id'', JInt (VJ_AssetVerID job)),
             (''target'', JStr (VJ_Target job))]) (\<lambda>_.
     workerAppendEvent U now (VJ_SKUID job) EventIncidentCreated
       [(''incident_id'', JInt incidentID), (''job_id'', JInt (VJ_ID job)), (''reason'', JStr ''verify failed'')])))"

definition verifyTarget :: "verifyJob \<Rightarrow> bool" where
  "verifyTarget job = True"

definition verify_tx :: "uuid_source \<Rightarrow> time \<Rightarrow> verifyJob \<Rightarrow> unit kact" where
  "verify_tx U now job =
     (if verifyTarget job then markVerifyPassed_tx U now job else markVerifyFailed_tx U now job)"

definition verify :: "uuid_source \<Rightarrow> time \<Rightarrow> unit kact" where
  "verify U now = bnd (query verify_jobs) (\<lambda>jobs.
     for_each (\<lambda>job. ignore_err (RunInTx (verify_tx U now job))) jobs)"

subsection \<open>The invariant\<close>

lemma reap_tx_kinv:
  assumes "snd job < N"
  shows "triple (kinv N Map.empty) (reap_tx U now job) (\<lambda>_. kinv N Map.empty)"
  unfolding reap_tx_def
  by (rule triple_bnd [OF triple_upd_job worker_events.append_other]) (use assms in \<open>simp_all add: job_tame_def\<close>)

lemma markRetrying_tx_kinv:
  assumes "RJ_SKUID job < N"
  shows "triple (kinv N Map.empty) (markRetrying_tx U now f2i job) (\<lambda>_. kinv N Map.empty)"
  unfolding markRetrying_tx_def Let_def
  by (rule triple_bnd [OF triple_upd_job worker_events.append_other]) (use assms in \<open>simp_all add: job_tame_def\<close>)

lemma incident_events_kinv:
  assumes "i < N" "ty \<noteq> EventSKUStatusChanged"
  shows "triple (kinv N Map.empty) (bnd (IncidentRepo_Create now i jb reason) (\<lambda>n.
       bnd (workerAppendEvent U now i ty pl) (\<lambda>_. workerAppendEvent U now i EventIncidentCreated (pl' n)))) (\<lambda>_. kinv N Map.empty)"
  by (rule triple_bnd [OF IncidentRepo_Create_kinv triple_bnd [OF worker_events.append_other worker_events.append_other]])
    (use assms in simp_all)

lemma markExceeded_tx_kinv:
  assumes "RJ_SKUID job < N"
  shows "triple (kinv N Map.empty) (markExceeded_tx U now job) (\<lambda>_. kinv N Map.empty)"
  unfolding markExceeded_tx_def
  by (rule triple_bnd [OF triple_upd_job incident_events_kinv]) (use assms in \<open>simp_all add: job_tame_def\<close>)

lemma retry_tx_kinv:
  "RJ_SKUID job < N \<Longrightarrow> triple (kinv N Map.empty) (retry_tx U now f2i job) (\<lambda>_. kinv N Map.empty)"
  by (simp add: retry_tx_def markRetrying_tx_kinv markExceeded_tx_kinv)

lemma markVerifyPassed_tx_kinv:
  assumes "VJ_SKUID job < N"
  shows "triple (kinv N Map.empty) (markVerifyPassed_tx U now job) (\<lambda>_. kinv N Map.empty)"
proof -
  let ?i = "VJ_SKUID job"
  have ev: "triple (kinv N [?i \<mapsto> (WorkflowDistributionRunning, WorkflowCompleted)])
      (workerAppendEvent U now ?i EventSKUStatusChanged (status_payload WorkflowDistributionRunning WorkflowCompleted ''verify_worker''))
      (\<lambda>_. kinv N Map.empty)"
    by (rule triple_post [OF worker_events.append_status [where b = WorkflowCompleted and c = WorkflowCompleted]])
      (use assms in \<open>auto simp: says_def policy_simps dest: kinv_close1\<close>)
  have cas: "triple (kinv N Map.empty) (bnd (CASWorkflowStatus now ?i WorkflowDistributionRunning WorkflowCompleted) (\<lambda>affected.
              if \<not> affected then ret ()
              else workerAppendEvent U now ?i EventSKUStatusChanged
                     (status_payload WorkflowDistributionRunning WorkflowCompleted ''verify_worker''))) (\<lambda>_. kinv N Map.empty)"
    by (rule triple_cas, unfold not_True_eq_False not_False_eq_True if_True if_False) (rule ev, rule triple_ret)
  show ?thesis unfolding markVerifyPassed_tx_def
    by (rule triple_bnd [OF triple_upd_job [of "\<lambda>j. j\<lparr>Job_VerifyStatus := VerifyStatusVerified, Job_UpdatedAt := now\<rparr>"]],
        simp add: job_tame_def, unfold allSiblingJobsDoneAndVerified_def, rule triple_bnd [OF triple_query [of _ "\<lambda>_. kinv N Map.empty"]],
        assumption, rule triple_bnd [where R = "\<lambda>_. kinv N Map.empty"])
      (use cas in \<open>auto intro: triple_ret\<close>, use assms in \<open>intro worker_events.append_other; simp\<close>)
qed

lemma markVerifyFailed_tx_kinv:
  assumes "VJ_SKUID job < N"
  shows "triple (kinv N Map.empty) (markVerifyFailed_tx U now job) (\<lambda>_. kinv N Map.empty)"
  unfolding markVerifyFailed_tx_def
  by (rule triple_bnd [OF triple_upd_job incident_events_kinv]) (use assms in \<open>simp_all add: job_tame_def\<close>)

lemma verify_tx_kinv:
  "VJ_SKUID job < N \<Longrightarrow> triple (kinv N Map.empty) (verify_tx U now job) (\<lambda>_. kinv N Map.empty)"
  by (simp add: verify_tx_def markVerifyPassed_tx_kinv markVerifyFailed_tx_kinv)

subsection \<open>A tick without faults\<close>

text \<open>
  \<open>yields P m Q\<close> is the half of \<open>returns\<close> (theory Kernel_Exec) that speaks of runs with no fault. The loops
  drop the errors of their transactions, so only there do they have a definite result.
\<close>

definition yields :: "('d \<Rightarrow> bool) \<Rightarrow> ('d, 'e, 'a) act \<Rightarrow> ('a \<Rightarrow> 'd \<Rightarrow> bool) \<Rightarrow> bool" where
  "yields P m Q \<longleftrightarrow> (\<forall>w. P (wdb w) \<longrightarrow> faults w = [] \<longrightarrow>
     (\<exists>x w'. m w = (Inr x, w') \<and> faults w' = [] \<and> Q x (wdb w')))"

lemma yields_returns: "returns P m Q \<Longrightarrow> yields P m Q"
  unfolding yields_def using returns_run by blast

lemma yields_run:
  "yields P m Q \<Longrightarrow> P (wdb w) \<Longrightarrow> faults w = [] \<Longrightarrow> \<exists>x w'. m w = (Inr x, w') \<and> faults w' = [] \<and> Q x (wdb w')"
  by (simp add: yields_def)

lemma yields_ret: "(\<And>d. P d \<Longrightarrow> Q x d) \<Longrightarrow> yields P (ret x) Q"
  by (simp add: yields_def ret_def)

lemma yields_bnd: "yields P m R \<Longrightarrow> (\<And>x. yields (R x) (k x) Q) \<Longrightarrow> yields P (bnd m k) Q"
  unfolding yields_def by (metis bnd_run_Inr)

lemma yields_job_tx: "returns P m (\<lambda>_. Q) \<Longrightarrow> yields P (ignore_err (RunInTx m)) (\<lambda>_. Q)"
  using yields_returns [OF returns_RunInTx [of P m "\<lambda>_. Q"]]
  unfolding yields_def ignore_err_def by (metis snd_conv)

text \<open>A loop with one transaction per turn, each with its own effect on the tables and the log.\<close>

lemma yields_tx_loop:
  assumes "\<And>x D ts. returns (at U d0 D ts) (m x) (\<lambda>_. at U d0 (step x D) (ts @ evs x))"
  shows "yields (at U d0 D ts) (for_each (\<lambda>x. ignore_err (RunInTx (m x))) xs)
    (\<lambda>_. at U d0 (fold step xs D) (ts @ concat (map evs xs)))"
proof (induction xs arbitrary: D ts)
  case Nil
  show ?case by (simp add: yields_ret)
next
  case (Cons x xs)
  show ?case using yields_bnd [OF yields_job_tx [OF assms] Cons.IH] by simp
qed

text \<open>A tick: read a list, then loop over it.\<close>

lemma yields_tick:
  assumes "\<And>x D ts. returns (at U d0 D ts) (m x) (\<lambda>_. at U d0 (step x D) (ts @ evs x))"
  shows "yields (\<lambda>d. d = d0 \<and> seq_inv d \<and> uuid_fresh U d)
    (bnd (query sel) (\<lambda>xs. for_each (\<lambda>x. ignore_err (RunInTx (m x))) xs))
    (\<lambda>_. at U d0 (fold step (sel d0) (nolog d0)) (concat (map evs (sel d0))))"
proof (rule yields_bnd [where R = "\<lambda>xs d. xs = sel d0 \<and> at U d0 (nolog d0) [] d"], goal_cases)
  case 1
  show ?case by (rule yields_returns [OF returns_query]) (auto intro: at_start)
next
  case (2 xs)
  show ?case using yields_tx_loop [where m = m and step = step and evs = evs and xs = "sel d0" and D = "nolog d0" and ts = "[]", OF assms] by (auto simp: yields_def)
qed

lemma fold_upd_job:
  assumes "\<And>j. Job_ID (f j) = Job_ID j" "\<And>j. f (f j) = f j"
  shows "fold (\<lambda>x. upd_job (key x) f) xs D =
    D\<lparr>distribution_jobs := row_upd (\<lambda>j. Job_ID j \<in> key ` set xs) f (distribution_jobs D)\<rparr>"
proof (induction xs arbitrary: D)
  case Nil
  show ?case by (simp add: row_upd_def)
next
  case (Cons x xs)
  then show ?case using assms by (auto simp: row_upd_def)
qed

subsection \<open>What a tick of the reaper does\<close>

definition lease_expired :: "time \<Rightarrow> kdb \<Rightarrow> DistributionJob \<Rightarrow> bool" where
  "lease_expired now d j \<longleftrightarrow> Job_Status j = JobStatusRunning \<and>
     (\<exists>a \<in> set (job_attempts d). Job_CurrentAttemptID j = Some (At_ID a) \<and> At_LeaseExpiresAt a < now)"

definition made_stale :: "time \<Rightarrow> DistributionJob \<Rightarrow> DistributionJob" where
  "made_stale now j = j\<lparr>Job_Status := JobStatusStale, Job_CurrentAttemptID := None, Job_UpdatedAt := now\<rparr>"

lemma expired_jobs_spec:
  "expired_jobs now d = map (\<lambda>j. (Job_ID j, Job_SKUID j)) (filter (lease_expired now d) (distribution_jobs d))"
  by (auto simp: expired_jobs_def lease_expired_def list_ex_iff intro!: arg_cong [where f = "map _"] filter_cong)

lemma expired_ids:
  assumes "distinct (map Job_ID (distribution_jobs d))" "j \<in> set (distribution_jobs d)"
  shows "Job_ID j \<in> fst ` set (expired_jobs now d) \<longleftrightarrow> lease_expired now d j"
  using assms by (auto simp: expired_jobs_spec image_image distinct_map inj_on_def intro: rev_image_eqI)

lemma reap_tx_at:
  assumes "inj U"
  shows "returns (at U d0 D ts) (reap_tx U now job)
    (\<lambda>_. at U d0 (upd_job (fst job) (made_stale now) D) (ts @ [(snd job, EventJobStale)]))"
  unfolding reap_tx_def made_stale_def by (rule returns_bnd [OF at_upd_job at_worker_append]) (rule assms)

lemma reap_yields:
  assumes "inj U"
  shows "yields (\<lambda>d. d = d0 \<and> seq_inv d \<and> uuid_fresh U d) (reap U now)
    (\<lambda>_. at U d0 ((nolog d0)\<lparr>distribution_jobs := row_upd (\<lambda>j. Job_ID j \<in> fst ` set (expired_jobs now d0)) (made_stale now)
        (distribution_jobs d0)\<rparr>) (map (\<lambda>x. (snd x, EventJobStale)) (expired_jobs now d0)))"
proof -
  let ?st = "\<lambda>x. upd_job (fst x) (made_stale now)"
  have "fold ?st js (nolog d0) = (nolog d0)\<lparr>distribution_jobs :=
      row_upd (\<lambda>j. Job_ID j \<in> fst ` set js) (made_stale now) (distribution_jobs d0)\<rparr>" for js :: "(id \<times> id) list"
    by (subst fold_upd_job) (simp_all add: made_stale_def)
  then show ?thesis
    using yields_tick [where m = "reap_tx U now" and step = ?st and evs = "\<lambda>x. [(snd x, EventJobStale)]"
        and sel = "expired_jobs now" and ?d0.0 = d0, OF reap_tx_at [OF assms]]
    by (simp add: reap_def concat_map_singleton)
qed

lemma row_upd_cong: "(\<And>r. r \<in> set rs \<Longrightarrow> p r = q r) \<Longrightarrow> row_upd p f rs = row_upd q f rs"
  by (simp add: row_upd_def)

text \<open>
  A tick of the lease reaper reclaims exactly the expired leases. With no fault, on a database
  that satisfies the invariant, it returns; every Running job whose current attempt's lease ended
  before \<open>now\<close> has become Stale without a current attempt, every other job and every other table apart from
  the log is as it was, the log got one \<^verbatim>\<open>job.stale\<close> event for each, and a second tick finds nothing.
\<close>

theorem reap_reclaims_expired:
  assumes "kinv N Map.empty (wdb w)" "inj U" "uuid_fresh U (wdb w)" "faults w = []"
  shows "\<exists>w' es. reap U now w = (Inr (), w') \<and>
    nolog (wdb w') = (nolog (wdb w))\<lparr>distribution_jobs :=
      row_upd (lease_expired now (wdb w)) (made_stale now) (distribution_jobs (wdb w))\<rparr> \<and>
    event_logs (wdb w') = event_logs (wdb w) @ es \<and>
    map (\<lambda>e. (EL_SKUID e, EL_EventType e)) es =
      map (\<lambda>j. (Job_SKUID j, EventJobStale)) (filter (lease_expired now (wdb w)) (distribution_jobs (wdb w))) \<and>
    expired_jobs now (wdb w') = []"
proof -
  let ?d = "wdb w"
  have ids: "distinct (map Job_ID (distribution_jobs ?d))" and sq: "seq_inv ?d"
    using assms(1) by (simp_all add: kinv_def job_inv_def)
  from yields_run [OF reap_yields [OF assms(2)], where w = w] obtain w' where
    w': "reap U now w = (Inr (), w')" and a: "at U ?d ((nolog ?d)\<lparr>distribution_jobs :=
      row_upd (\<lambda>j. Job_ID j \<in> fst ` set (expired_jobs now ?d)) (made_stale now) (distribution_jobs ?d)\<rparr>)
      (map (\<lambda>x. (snd x, EventJobStale)) (expired_jobs now ?d)) (wdb w')"
    using sq assms(3,4) by auto
  have jobs: "row_upd (\<lambda>j. Job_ID j \<in> fst ` set (expired_jobs now ?d)) (made_stale now) (distribution_jobs ?d) =
      row_upd (lease_expired now ?d) (made_stale now) (distribution_jobs ?d)"
    by (rule row_upd_cong) (rule expired_ids [OF ids])
  from a have nl: "nolog (wdb w') = (nolog ?d)\<lparr>distribution_jobs :=
      row_upd (lease_expired now ?d) (made_stale now) (distribution_jobs ?d)\<rparr>" by (simp add: at_def jobs)
  from arg_cong [OF nl, of distribution_jobs] arg_cong [OF nl, of job_attempts]
  have "distribution_jobs (wdb w') = row_upd (lease_expired now ?d) (made_stale now) (distribution_jobs ?d)"
    "job_attempts (wdb w') = job_attempts ?d" by simp_all
  then have "expired_jobs now (wdb w') = []"
    by (auto simp: expired_jobs_spec lease_expired_def made_stale_def filter_empty_conv row_upd_def)
  with w' nl a show ?thesis by (auto simp: at_def expired_jobs_spec)
qed

theorem reap_reclaims_expired_witness:
  "kinv 2 Map.empty running_kdb \<and> lease_expired 51 running_kdb running_job \<and>
   (\<exists>w' es. reap example_uuid 51 (quiet running_kdb) = (Inr (), w') \<and>
     nolog (wdb w') = (nolog running_kdb)\<lparr>distribution_jobs :=
       row_upd (lease_expired 51 running_kdb) (made_stale 51) (distribution_jobs running_kdb)\<rparr> \<and>
     event_logs (wdb w') = event_logs running_kdb @ es \<and>
     map (\<lambda>e. (EL_SKUID e, EL_EventType e)) es = [(1, EventJobStale)] \<and> expired_jobs 51 (wdb w') = [])"
proof -
  have j: "filter (lease_expired 51 running_kdb) (distribution_jobs running_kdb) = [running_job]" "lease_expired 51 running_kdb running_job"
    by (simp_all add: running_kdb_def lease_expired_def running_attempt_def running_job_def)
  moreover have "Job_SKUID running_job = 1" by (simp add: running_job_def)
  ultimately show ?thesis
    using reap_reclaims_expired [of 2 "quiet running_kdb" example_uuid 51] running_kdb_ok example_uuid_inj by simp
qed

subsection \<open>Backoff\<close>

text \<open>
  (C34) The retry delay is the documented exponential one, 30 s doubled per retry and capped at an hour,
  for up to 28 earlier retries: the 64-bit product does not wrap there.
\<close>

theorem backoff_is_capped_exponential:
  assumes "0 \<le> n" "n \<le> 28"
  shows "backoff f2i n = min (30 * Second * 2 ^ nat n) Hour \<and> 30 * Second \<le> backoff f2i n \<and>
    (7 \<le> n \<longrightarrow> backoff f2i n = Hour)"
proof -
  define p :: int where "p = 2 ^ nat n"
  have b: "p \<le> 2 ^ 28" "1 \<le> p" unfolding p_def by (rule power_increasing) (use assms in simp_all)
  then have "int64 (30 * Second * p) = 30 * Second * p" by (intro int64_id) simp_all
  then have eq: "backoff f2i n = min (30 * Second * p) Hour"
    using assms by (simp add: backoff_def pow2_duration_def p_def Let_def min_def)
  moreover have "2 ^ 7 \<le> p" if "7 \<le> n" unfolding p_def using that by (intro power_increasing) auto
  ultimately show ?thesis unfolding p_def [symmetric] using b by (auto simp: min_def)
qed

theorem backoff_is_capped_exponential_witness:
  "(0 :: int) \<le> 3 \<and> backoff (\<lambda>_. 0) 3 = 240 * Second \<and> 30 * Second \<le> backoff (\<lambda>_. 0) 3"
  using backoff_is_capped_exponential [of 3 "\<lambda>_. 0"] by (simp add: min_def)

text \<open>
  From the 29th retry on the product leaves the 64-bit range. The delay of a job that was retried 29 times
  is negative: it is due at once, in the past. (Nothing bounds \<open>Job_MaxRetries\<close>, and the job table's
  default of 3 keeps clear of it.)
\<close>

theorem backoff_wraps_at_29: "backoff f2i 29 < 0"
  by (simp add: backoff_def pow2_duration_def int64_def Let_def)


subsection \<open>What a tick of the retry scheduler does\<close>

definition exhausted :: "DistributionJob \<Rightarrow> bool" where
  "exhausted j \<longleftrightarrow> Job_MaxRetries j \<le> Job_RetryCount j"

definition retried :: "time \<Rightarrow> (int \<Rightarrow> int) \<Rightarrow> DistributionJob \<Rightarrow> DistributionJob" where
  "retried now f2i j =
     (if exhausted j then j\<lparr>Job_Status := JobStatusExceededRetries, Job_UpdatedAt := now\<rparr>
      else j\<lparr>Job_Status := JobStatusPending, Job_RetryCount := Job_RetryCount j + 1,
             Job_NextRetryAt := Some (now + backoff f2i (Job_RetryCount j)), Job_UpdatedAt := now\<rparr>)"

definition picked :: "time \<Rightarrow> kdb \<Rightarrow> DistributionJob list" where
  "picked now d = take 50 (sort_key Job_CreatedAt
     (filter (\<lambda>j. Job_Status j \<in> {JobStatusFail, JobStatusStale} \<and>
        (case Job_NextRetryAt j of None \<Rightarrow> True | Some t \<Rightarrow> t \<le> now)) (distribution_jobs d)))"

definition retry_row :: "DistributionJob \<Rightarrow> retryJob" where
  "retry_row j = \<lparr>RJ_ID = Job_ID j, RJ_SKUID = Job_SKUID j, RJ_RetryCount = Job_RetryCount j, RJ_MaxRetries = Job_MaxRetries j\<rparr>"

lemma due_jobs_picked: "due_jobs now d = map retry_row (picked now d)"
  by (simp add: due_jobs_def picked_def retry_row_def [abs_def])

lemma picked_subset: "set (picked now d) \<subseteq> set (distribution_jobs d)"
  unfolding picked_def by (auto dest: in_set_takeD)

lemma picked_distinct:
  "distinct (map Job_ID (distribution_jobs d)) \<Longrightarrow> distinct (map Job_ID (picked now d))"
  unfolding picked_def take_map [symmetric]
  by (rule distinct_take) (auto simp: distinct_map intro: distinct_filter inj_on_subset)

definition retry_step :: "time \<Rightarrow> (int \<Rightarrow> int) \<Rightarrow> retryJob \<Rightarrow> kdb \<Rightarrow> kdb" where
  "retry_step now f2i r D =
     (if RJ_RetryCount r < RJ_MaxRetries r
      then upd_job (RJ_ID r) (\<lambda>j. j\<lparr>Job_Status := JobStatusPending, Job_RetryCount := Job_RetryCount j + 1,
             Job_NextRetryAt := Some (now + backoff f2i (RJ_RetryCount r)), Job_UpdatedAt := now\<rparr>) D
      else with_incident now (RJ_SKUID r) (Some (RJ_ID r)) ''job exceeded max retries''
             (upd_job (RJ_ID r) (\<lambda>j. j\<lparr>Job_Status := JobStatusExceededRetries, Job_UpdatedAt := now\<rparr>) D))"

definition retry_events :: "retryJob \<Rightarrow> (id \<times> string) list" where
  "retry_events r = (if RJ_RetryCount r < RJ_MaxRetries r then [(RJ_SKUID r, EventJobRetrying)]
     else [(RJ_SKUID r, EventJobExceededRetries), (RJ_SKUID r, EventIncidentCreated)])"

lemma retry_tx_at:
  assumes "inj U"
  shows "returns (at U d0 D ts) (retry_tx U now f2i r) (\<lambda>_. at U d0 (retry_step now f2i r D) (ts @ retry_events r))"
proof (cases "RJ_RetryCount r < RJ_MaxRetries r")
  case True
  then show ?thesis
    by (simp add: retry_tx_def markRetrying_tx_def Let_def retry_step_def retry_events_def)
      (rule returns_bnd [OF at_upd_job at_worker_append], rule assms)
next
  case False
  have "returns (at U d0 D ts) (markExceeded_tx U now r) (\<lambda>_. at U d0 (retry_step now f2i r D)
      ((ts @ [(RJ_SKUID r, EventJobExceededRetries)]) @ [(RJ_SKUID r, EventIncidentCreated)]))"
    unfolding markExceeded_tx_def retry_step_def with_incident_def
    by (rule returns_bnd [OF at_upd_job returns_bnd [OF at_Incident_Create]], rule returns_pre,
        rule returns_bnd [OF at_worker_append at_worker_append]) (use False assms in auto)
  with False show ?thesis by (simp add: retry_tx_def retry_events_def)
qed

text \<open>The rows carry what the jobs said, and each is visited once, so a tick acts on the jobs themselves.\<close>

lemma retry_step_jobs:
  assumes "\<And>j. j \<in> set (distribution_jobs D) \<Longrightarrow> Job_ID j = RJ_ID r \<Longrightarrow> r = retry_row j"
  shows "distribution_jobs (retry_step now f2i r D) = row_upd (\<lambda>j. Job_ID j = RJ_ID r) (retried now f2i) (distribution_jobs D)"
proof -
  have "RJ_RetryCount r = Job_RetryCount j \<and> RJ_MaxRetries r = Job_MaxRetries j"
    if "j \<in> set (distribution_jobs D)" "Job_ID j = RJ_ID r" for j
    using assms [OF that] by (simp add: retry_row_def)
  then show ?thesis by (auto simp: retry_step_def with_incident_def row_upd_def retried_def exhausted_def)
qed

lemma retry_fold_jobs:
  assumes "distinct (map RJ_ID rs)"
    "\<And>r j. r \<in> set rs \<Longrightarrow> j \<in> set (distribution_jobs D) \<Longrightarrow> Job_ID j = RJ_ID r \<Longrightarrow> r = retry_row j"
  shows "distribution_jobs (fold (retry_step now f2i) rs D) =
    row_upd (\<lambda>j. Job_ID j \<in> RJ_ID ` set rs) (retried now f2i) (distribution_jobs D)"
  using assms
proof (induction rs arbitrary: D)
  case Nil
  show ?case by (simp add: row_upd_def)
next
  case (Cons r rs)
  have st: "distribution_jobs (retry_step now f2i r D) = row_upd (\<lambda>j. Job_ID j = RJ_ID r) (retried now f2i) (distribution_jobs D)"
    by (rule retry_step_jobs) (rule Cons.prems(2), simp_all)
  have "x = retry_row j" if "x \<in> set rs" "j \<in> set (distribution_jobs (retry_step now f2i r D))" "Job_ID j = RJ_ID x" for x j
    using that Cons.prems unfolding st by (auto simp: row_upd_def retried_def image_iff split: if_splits)
  with Cons.IH [of "retry_step now f2i r D"] Cons.prems(1) show ?case
    unfolding st by (auto simp: row_upd_def retried_def image_iff)
qed

lemma retry_fold_incidents:
  "\<exists>new. incidents (fold (retry_step now f2i) rs D) = incidents D @ new \<and>
     map (\<lambda>x. (Inc_SKUID x, Inc_JobID x, Inc_Status x)) new =
     map (\<lambda>r. (RJ_SKUID r, Some (RJ_ID r), IncidentStatusOpen)) (filter (\<lambda>r. \<not> RJ_RetryCount r < RJ_MaxRetries r) rs)"
proof (induction rs arbitrary: D)
  case Nil
  show ?case by simp
next
  case (Cons r rs)
  from Cons [of "retry_step now f2i r D"] show ?case
    by (auto simp: retry_step_def with_incident_def incident_row_def)
qed

lemma fold_retry_step_skus: "skus (fold (retry_step now f2i) rs D) = skus D"
  by (induction rs arbitrary: D) (simp_all add: retry_step_def with_incident_def)

lemma schedule_yields:
  assumes "inj U"
  shows "yields (\<lambda>d. d = d0 \<and> seq_inv d \<and> uuid_fresh U d) (schedule U now f2i)
    (\<lambda>_. at U d0 (fold (retry_step now f2i) (due_jobs now d0) (nolog d0)) (concat (map retry_events (due_jobs now d0))))"
  unfolding schedule_def by (rule yields_tick) (rule retry_tx_at [OF assms])

lemma picked_ids:
  assumes "distinct (map Job_ID (distribution_jobs d))" "j \<in> set (distribution_jobs d)"
  shows "Job_ID j \<in> RJ_ID ` set (due_jobs now d) \<longleftrightarrow> j \<in> set (picked now d)"
  using assms picked_subset [of now d]
  by (auto simp: due_jobs_picked image_image retry_row_def distinct_map inj_on_def image_iff)

text \<open>
  A tick of the retry scheduler, with no fault, on a database that satisfies the invariant: of the
  failed and stale jobs that are due it takes the 50 oldest; one with retries left becomes Pending
  with its count raised by one and its next retry at \<open>now\<close> plus the backoff, an exhausted one becomes
  ExceededRetries and gets one open incident; no other job, and no SKU, changes.
\<close>

theorem schedule_retries_or_escalates:
  assumes "kinv N Map.empty (wdb w)" "inj U" "uuid_fresh U (wdb w)" "faults w = []"
  shows "\<exists>w' new. schedule U now f2i w = (Inr (), w') \<and> skus (wdb w') = skus (wdb w) \<and>
    distribution_jobs (wdb w') =
      row_upd (\<lambda>j. j \<in> set (picked now (wdb w))) (retried now f2i) (distribution_jobs (wdb w)) \<and>
    incidents (wdb w') = incidents (wdb w) @ new \<and>
    map (\<lambda>x. (Inc_SKUID x, Inc_JobID x, Inc_Status x)) new =
      map (\<lambda>j. (Job_SKUID j, Some (Job_ID j), IncidentStatusOpen)) (filter exhausted (picked now (wdb w)))"
proof -
  let ?d = "wdb w" and ?rs = "due_jobs now (wdb w)"
  have ids: "distinct (map Job_ID (distribution_jobs ?d))" and sq: "seq_inv ?d"
    using assms(1) by (simp_all add: kinv_def job_inv_def)
  from yields_run [OF schedule_yields [OF assms(2), of ?d now f2i], where w = w] obtain w' where
    w': "schedule U now f2i w = (Inr (), w')" and nl: "nolog (wdb w') = fold (retry_step now f2i) ?rs (nolog ?d)"
    using sq assms(3,4) by (auto simp: at_def)
  have "distinct (map RJ_ID ?rs)"
    using picked_distinct [OF ids] by (simp add: due_jobs_picked retry_row_def comp_def)
  moreover have "r = retry_row j" if "r \<in> set ?rs" "j \<in> set (distribution_jobs ?d)" "Job_ID j = RJ_ID r" for r j
  proof -
    from that(1) obtain j' where j': "j' \<in> set (picked now ?d)" "r = retry_row j'" by (auto simp: due_jobs_picked)
    with that(2,3) ids picked_subset [of now ?d] have "j = j'"
      by (auto simp: retry_row_def distinct_map dest: inj_onD)
    with j' show ?thesis by simp
  qed
  ultimately have jobs: "distribution_jobs (wdb w') = row_upd (\<lambda>j. j \<in> set (picked now ?d)) (retried now f2i) (distribution_jobs ?d)"
    using arg_cong [OF nl, of distribution_jobs] retry_fold_jobs [of ?rs "nolog ?d"] row_upd_cong [OF picked_ids [OF ids]]
    by simp
  have "filter (\<lambda>r. \<not> RJ_RetryCount r < RJ_MaxRetries r) ?rs = map retry_row (filter exhausted (picked now ?d))"
    by (simp add: due_jobs_picked filter_map comp_def retry_row_def exhausted_def [abs_def] not_less)
  then show ?thesis
    using w' jobs arg_cong [OF nl, of skus] arg_cong [OF nl, of incidents] retry_fold_incidents [of now f2i ?rs "nolog ?d"]
    by (auto simp: fold_retry_step_skus retry_row_def)
qed

definition failed_kdb :: kdb where
  "failed_kdb = draft_kdb\<lparr>distribution_jobs := [running_job\<lparr>Job_Status := JobStatusFail, Job_CurrentAttemptID := None\<rparr>,
     running_job\<lparr>Job_ID := 2, Job_IdempotentKey := ''a:v'', Job_Status := JobStatusStale, Job_RetryCount := 3,
       Job_CurrentAttemptID := None\<rparr>], next_job := 3\<rparr>"

lemma failed_kdb_ok: "kinv 2 Map.empty failed_kdb" "uuid_fresh example_uuid failed_kdb"
  by (simp_all add: failed_kdb_def running_job_def draft_kdb_def draft_sku_def empty_kdb_def kinv_unfold
      expected_pair_def attempt_ok_def uuid_fresh_def)

lemma failed_kdb_picked: "picked 7 failed_kdb = distribution_jobs failed_kdb"
  by (simp add: picked_def failed_kdb_def running_job_def)

theorem schedule_retries_or_escalates_witness:
  "\<exists>w'. schedule example_uuid 7 (\<lambda>_. 0) (quiet failed_kdb) = (Inr (), w') \<and>
     map Job_Status (distribution_jobs (wdb w')) = [JobStatusPending, JobStatusExceededRetries] \<and>
     map Job_RetryCount (distribution_jobs (wdb w')) = [1, 3] \<and>
     map Inc_JobID (incidents (wdb w')) = [Some 2]"
proof -
  obtain w' new where w': "schedule example_uuid 7 (\<lambda>_. 0) (quiet failed_kdb) = (Inr (), w')"
    "distribution_jobs (wdb w') = row_upd (\<lambda>j. j \<in> set (picked 7 failed_kdb)) (retried 7 (\<lambda>_. 0)) (distribution_jobs failed_kdb)"
    "incidents (wdb w') = incidents failed_kdb @ new"
    "map (\<lambda>x. (Inc_SKUID x, Inc_JobID x, Inc_Status x)) new =
      map (\<lambda>j. (Job_SKUID j, Some (Job_ID j), IncidentStatusOpen)) (filter exhausted (picked 7 failed_kdb))"
    using schedule_retries_or_escalates [of 2 "quiet failed_kdb" example_uuid 7 "\<lambda>_. 0"] failed_kdb_ok example_uuid_inj by auto
  from arg_cong [OF w'(4), of "map (\<lambda>x. fst (snd x))"] have "map Inc_JobID new = [Some 2]"
    by (simp add: comp_def failed_kdb_picked) (simp add: failed_kdb_def running_job_def exhausted_def)
  moreover have "incidents failed_kdb = []" by (simp add: failed_kdb_def draft_kdb_def empty_kdb_def)
  moreover have "map Job_Status (distribution_jobs (wdb w')) = [JobStatusPending, JobStatusExceededRetries] \<and>
      map Job_RetryCount (distribution_jobs (wdb w')) = [1, 3]"
    unfolding w'(2) failed_kdb_picked by (simp add: failed_kdb_def running_job_def retried_def exhausted_def)
  ultimately show ?thesis using w'(1,3) by simp
qed

subsection \<open>What the verify worker may do to a SKU\<close>

definition siblings_verified :: "kdb \<Rightarrow> id \<Rightarrow> bool" where
  "siblings_verified d i \<longleftrightarrow> i \<in> set (map Job_SKUID (distribution_jobs d)) \<and>
     (\<forall>j \<in> set (distribution_jobs d). Job_SKUID j = i \<longrightarrow> Job_Status j = JobStatusDone \<and>
        (Job_VerifyStatus j = VerifyStatusVerified \<or> Job_VerifyStatus j = VerifyStatusNotRequested))"

definition completed_by_verify :: "kdb \<Rightarrow> SKU \<Rightarrow> SKU \<Rightarrow> bool" where
  "completed_by_verify d s0 s \<longleftrightarrow> SKU_ID s = SKU_ID s0 \<and>
     (SKU_WorkflowStatus s = SKU_WorkflowStatus s0 \<or>
      SKU_WorkflowStatus s0 = WorkflowDistributionRunning \<and> SKU_WorkflowStatus s = WorkflowCompleted \<and>
      siblings_verified d (SKU_ID s))"

abbreviation verify_since :: "kdb \<Rightarrow> kdb \<Rightarrow> bool" where
  "verify_since d0 d \<equiv> list_all2 (completed_by_verify d) (skus d0) (skus d)"

lemma siblings_query:
  "(\<lambda>d. let js = filter (\<lambda>j. Job_SKUID j = i) (distribution_jobs d) in
     js \<noteq> [] \<and> list_all (\<lambda>j. Job_Status j = JobStatusDone \<and>
       (Job_VerifyStatus j = VerifyStatusVerified \<or> Job_VerifyStatus j = VerifyStatusNotRequested)) js) = (\<lambda>d. siblings_verified d i)"
  by (auto simp: fun_eq_iff Let_def siblings_verified_def list_all_iff filter_empty_conv image_iff)

lemma siblings_verified_skus [simp]: "siblings_verified (d\<lparr>skus := x\<rparr>) i = siblings_verified d i"
  by (simp add: siblings_verified_def)

lemma all_siblings_triple:
  "(\<And>d. P d \<Longrightarrow> siblings_verified d i \<Longrightarrow> Q True d) \<Longrightarrow> (\<And>d. P d \<Longrightarrow> Q False d) \<Longrightarrow>
   triple P (allSiblingJobsDoneAndVerified i) Q"
  unfolding allSiblingJobsDoneAndVerified_def siblings_query by (rule triple_query) (metis (full_types))

text \<open>Marking one more job verified keeps the SKUs that were complete complete.\<close>

lemma siblings_verified_mono:
  "siblings_verified d i \<Longrightarrow> siblings_verified (upd_job k (\<lambda>j. j\<lparr>Job_VerifyStatus := VerifyStatusVerified, Job_UpdatedAt := now\<rparr>) d) i"
  unfolding siblings_verified_def by (auto simp: map_row_upd dest!: set_row_updD)

lemma verify_since_cong:
  "verify_since d0 d \<Longrightarrow> skus d' = skus d \<Longrightarrow> (\<And>i. siblings_verified d i \<Longrightarrow> siblings_verified d' i) \<Longrightarrow> verify_since d0 d'"
  by (auto simp: completed_by_verify_def elim!: list_all2_mono)

lemma verify_since_cas:
  assumes "verify_since d0 d" "siblings_verified d i"
  shows "verify_since d0 (d\<lparr>skus := row_upd (\<lambda>s. SKU_ID s = i \<and> SKU_WorkflowStatus s = WorkflowDistributionRunning)
    (\<lambda>s. s\<lparr>SKU_WorkflowStatus := WorkflowCompleted, SKU_UpdatedAt := now\<rparr>) (skus d)\<rparr>)"
  using assms unfolding row_upd_def by (auto simp: list_all2_map2 completed_by_verify_def elim!: list_all2_mono)

lemma verify_since_append: "triple (verify_since d0) (workerAppendEvent U now i ty pl) (\<lambda>_. verify_since d0)"
proof (rule tripleI)
  fix w x w' assume v: "verify_since d0 (wdb w)" and r: "workerAppendEvent U now i ty pl w = (Inr x, w')"
  have a: "appended i ty pl (wdb w) (wdb w')" by (rule worker_events.append_ok [OF r])
  show "verify_since d0 (wdb w')"
    by (rule verify_since_cong [OF v]) (use a in \<open>auto simp: appended_def siblings_verified_def\<close>)
qed

lemma verify_tx_since: "triple (verify_since d0) (verify_tx U now job) (\<lambda>_. verify_since d0)"
proof -
  have cas: "triple (\<lambda>d. verify_since d0 d \<and> siblings_verified d i)
      (CASWorkflowStatus now i WorkflowDistributionRunning WorkflowCompleted) (\<lambda>_. verify_since d0)" for i
    unfolding CASWorkflowStatus_def by (rule triple_stmt) (use verify_since_cas in \<open>fastforce simp: Let_def\<close>)
  have upd: "triple (verify_since d0) (exec (upd_job k (\<lambda>j. j\<lparr>Job_VerifyStatus := VerifyStatusVerified, Job_UpdatedAt := now\<rparr>)))
      (\<lambda>_. verify_since d0)" for k
    by (rule triple_exec, erule verify_since_cong) (simp_all add: siblings_verified_mono)
  let ?R = "\<lambda>complete d. verify_since d0 d \<and> (complete \<longrightarrow> siblings_verified d (VJ_SKUID job))"
  have sib: "triple (verify_since d0) (allSiblingJobsDoneAndVerified (VJ_SKUID job)) ?R"
    by (rule all_siblings_triple) simp_all
  have close: "triple (?R complete) (if complete then
      bnd (CASWorkflowStatus now (VJ_SKUID job) WorkflowDistributionRunning WorkflowCompleted) (\<lambda>affected.
        if \<not> affected then ret () else workerAppendEvent U now (VJ_SKUID job) EventSKUStatusChanged
          (status_payload WorkflowDistributionRunning WorkflowCompleted ''verify_worker'')) else ret ())
      (\<lambda>_. verify_since d0)" for complete
  proof (cases complete)
    case True
    then show ?thesis using triple_bnd [OF cas [of "VJ_SKUID job"], of "\<lambda>affected.
        if \<not> affected then ret () else workerAppendEvent U now (VJ_SKUID job) EventSKUStatusChanged
          (status_payload WorkflowDistributionRunning WorkflowCompleted ''verify_worker'')"]
      by (simp add: verify_since_append triple_ret)
  next
    case False
    then show ?thesis by (simp add: triple_ret)
  qed
  show ?thesis unfolding verify_tx_def verifyTarget_def if_True markVerifyPassed_tx_def
    by (rule triple_bnd [OF upd triple_bnd [OF sib triple_bnd [OF close verify_since_append]]])
qed

text \<open>
  (C33) The verify worker completes a SKU only when it may. Whatever statements fail during a tick,
  every SKU afterwards has the status it had, or it was in DistributionRunning, is now Completed, and all
  its jobs (at least one) are Done and verified or exempt from verification.
\<close>

theorem verify_completes_only_verified:
  "list_all2 (completed_by_verify (wdb (snd (verify U now w)))) (skus (wdb w)) (skus (wdb (snd (verify U now w))))"
proof -
  have "keeps (verify_since d0) (verify U now)" for d0
    unfolding verify_def by (intro keeps_bnd keeps_query keeps_for_each keeps_ignore_err keeps_RunInTx verify_tx_since)
  moreover have "verify_since (wdb w) (wdb w)" by (simp add: list_all2_refl completed_by_verify_def)
  ultimately show ?thesis by (simp add: keeps_def)
qed

end
