(* ===== verification/Kernel_System.thy ===== *)
theory Kernel_System
  imports Kernel_Workers
begin

section \<open>The running kernel\<close>

text \<open>
  The HTTP handlers and the workers run concurrently: between the reads of a request and its transaction
  any other request may commit. A state of the system is the database and the requests in flight, each with
  the data it has read. A step lets one request read and enter (\<open>start\<close>), or runs the next transaction or
  statement of one in flight (\<open>perform\<close>) under any schedule of faults, or loses a request (a crash). The
  reads of one preflight happen in one step; a worker's jobs may be processed in any order and
  several ticks may overlap, which is more than the single worker processes do.

  The steps are the service's own definitions: \<open>service_calls_are_runs\<close> says that every call, run
  without interruption, is a run of this relation.
\<close>

datatype pending =
    PCreate string string
  | PTransition TransitionStatusParams
  | PSubmit id AuditSubmitParams AuditPlan
  | PSync AgentSyncParams "id \<times> int"
  | PPull id
  | PRenew string time
  | PAck AckJobParams DistributionJob
  | PCheck id
  | PComplete id
  | PAssign id id string Incident
  | PAssignee id id
  | PResolve id id string Incident
  | PResolver id id
  | PUpsert string string id
  | PReap "id \<times> id"
  | PRetry retryJob
  | PVerify verifyJob

datatype call =
    CCreate string string
  | CTransition TransitionStatusParams
  | CSubmit id AuditSubmitParams
  | CSync AgentSyncParams
  | CPull string time
  | CHeartbeat string time
  | CAck AckJobParams
  | CAssign id id string
  | CResolve id id string
  | CUpdate id id string string
  | TReap
  | TRetry
  | TVerify

text \<open>Run an action; if it returns, these requests are next.\<close>

definition admit :: "(kdb, 'e, 'a) act \<Rightarrow> ('a \<Rightarrow> pending list) \<Rightarrow> kworld \<Rightarrow> pending list \<times> kworld" where
  "admit m next w = (case m w of (Inl e, w') \<Rightarrow> ([], w') | (Inr x, w') \<Rightarrow> (next x, w'))"

fun start :: "bool \<Rightarrow> uuid_source \<Rightarrow> time \<Rightarrow> call \<Rightarrow> kworld \<Rightarrow> pending list \<times> kworld" where
  "start resolves U now (CCreate code name) =
     admit (if code = [] \<or> name = [] then throw ErrCodeInvalidRequest
            else bnd (infra (SKURepo_GetBySKUCode code)) (\<lambda>existing.
              if existing \<noteq> None then throw ErrCodeInvalidRequest else ret ()))
       (\<lambda>_. [PCreate code name])"
| "start resolves U now (CTransition p) = admit (TransitionStatus_preflight p) (\<lambda>_. [PTransition p])"
| "start resolves U now (CSubmit caller p) =
     admit (Submit_preflight p) (\<lambda>r. case r of Inl _ \<Rightarrow> [] | Inr plan \<Rightarrow> [PSubmit caller p plan])"
| "start resolves U now (CSync p) = admit (Sync_preflight resolves p) (\<lambda>x. [PSync p x])"
| "start resolves U now (CPull agentID leaseDuration) =
     admit (PullPending U now agentID leaseDuration)
       (\<lambda>r. case r of None \<Rightarrow> [] | Some (job, attempt) \<Rightarrow> [PPull (Job_SKUID job)])"
| "start resolves U now (CHeartbeat attemptID leaseDuration) =
     admit (bnd (current_attempt attemptID) (\<lambda>(attempt, job).
              if At_LeaseExpiresAt attempt < now then throw ErrCodeJobAttemptExpired else ret ()))
       (\<lambda>_. [PRenew attemptID (now + leaseDuration)])"
| "start resolves U now (CAck p) = admit (current_attempt (Ack_AttemptID p)) (\<lambda>(attempt, job). [PAck p job])"
| "start resolves U now (CAssign i assigneeID reason) =
     admit (incident_preflight (\<lambda>s. s = IncidentStatusOpen \<or> s = IncidentStatusInProgress) i reason)
       (\<lambda>inc. [PAssign i assigneeID reason inc])"
| "start resolves U now (CResolve caller i reason) =
     admit (incident_preflight (\<lambda>s. s = IncidentStatusInProgress) i reason) (\<lambda>inc. [PResolve caller i reason inc])"
| "start resolves U now (CUpdate caller i val reason) =
     admit (if TrimSpace reason = [] then throw ErrCodeReasonRequired
            else if \<not> json_Valid val then throw ErrCodeInvalidRequest
            else found (PolicyRepo_GetByID i)) (\<lambda>existing. [PUpsert (Pol_Key existing) val caller])"
| "start resolves U now TReap = admit (query (expired_jobs now)) (map PReap)"
| "start resolves U now TRetry = admit (query (due_jobs now)) (map PRetry)"
| "start resolves U now TVerify = admit (query verify_jobs) (map PVerify)"

fun perform :: "uuid_source \<Rightarrow> time \<Rightarrow> (int \<Rightarrow> int) \<Rightarrow> pending \<Rightarrow> kworld \<Rightarrow> pending list \<times> kworld" where
  "perform U now f2i (PCreate code name) = admit (RunInTx (Create_tx U now code name)) (\<lambda>_. [])"
| "perform U now f2i (PTransition p) = admit (RunInTx (TransitionStatus_tx U now p)) (\<lambda>_. [])"
| "perform U now f2i (PSubmit caller p plan) = admit (RunInTx (Submit_tx U now caller p plan)) (\<lambda>_. [])"
| "perform U now f2i (PSync p x) = admit (RunInTx (Sync_tx U now p x)) (\<lambda>_. [])"
| "perform U now f2i (PPull i) = admit (RunInTx (Pull_tx U now i)) (\<lambda>_. [])"
| "perform U now f2i (PRenew a t) = admit (RenewLease now a t) (\<lambda>_. [])"
| "perform U now f2i (PAck p job) =
     (if ack_succeeds p job
      then admit (RunInTx (AckJob_done_tx U now (Ack_AttemptID p) job)) (\<lambda>_. [PCheck (Job_SKUID job)])
      else admit (RunInTx (AckJob_fail_tx U now (Ack_AttemptID p) job (ack_reason p job))) (\<lambda>_. []))"
| "perform U now f2i (PCheck i) = admit (complete_check i) (\<lambda>all_done. if all_done then [PComplete i] else [])"
| "perform U now f2i (PComplete i) = admit (RunInTx (complete_tx U now i)) (\<lambda>_. [])"
| "perform U now f2i (PAssign i a reason inc) = admit (RunInTx (Assign_tx U now i a reason inc)) (\<lambda>_. [PAssignee i a])"
| "perform U now f2i (PAssignee i a) = admit (IncidentRepo_Assign now i a) (\<lambda>_. [])"
| "perform U now f2i (PResolve caller i reason inc) =
     admit (RunInTx (Resolve_tx U now i reason inc)) (\<lambda>_. [PResolver i caller])"
| "perform U now f2i (PResolver i caller) = admit (IncidentRepo_Resolve now i caller) (\<lambda>_. [])"
| "perform U now f2i (PUpsert k v caller) = admit (PolicyRepo_Upsert now k v caller) (\<lambda>_. [])"
| "perform U now f2i (PReap job) = admit (RunInTx (reap_tx U now job)) (\<lambda>_. [])"
| "perform U now f2i (PRetry job) = admit (RunInTx (retry_tx U now f2i job)) (\<lambda>_. [])"
| "perform U now f2i (PVerify job) = admit (RunInTx (verify_tx U now job)) (\<lambda>_. [])"

record ksys =
  kdb_of :: kdb
  inflight :: "pending list"

inductive kstep :: "bool \<Rightarrow> uuid_source \<Rightarrow> ksys \<Rightarrow> ksys \<Rightarrow> bool" for resolves U where
  enter: "start resolves U now c \<lparr>wdb = kdb_of s, faults = fs\<rparr> = (ps, w) \<Longrightarrow>
     kstep resolves U s \<lparr>kdb_of = wdb w, inflight = ps @ inflight s\<rparr>"
| work: "r \<in> set (inflight s) \<Longrightarrow> perform U now f2i r \<lparr>wdb = kdb_of s, faults = fs\<rparr> = (ps, w) \<Longrightarrow>
     kstep resolves U s \<lparr>kdb_of = wdb w, inflight = ps @ remove1 r (inflight s)\<rparr>"
| crash: "kstep resolves U s (s\<lparr>inflight := remove1 r (inflight s)\<rparr>)"

inductive_cases kstepE: "kstep resolves U s t"

subsection \<open>The invariant\<close>

text \<open>What the data a request carries is known to satisfy, given that SKU ids below \<open>N\<close> exist.\<close>

fun ready :: "id \<Rightarrow> pending \<Rightarrow> bool" where
  "ready N (PTransition p) \<longleftrightarrow> CanTransition (TS_ExpectedStatus p) (TS_NextStatus p) \<and> TS_SKUID p < N"
| "ready N (PSubmit caller p plan) \<longleftrightarrow> plan_ok N plan"
| "ready N (PSync p x) \<longleftrightarrow> fst x < N"
| "ready N (PPull i) \<longleftrightarrow> i < N"
| "ready N (PAck p job) \<longleftrightarrow> Job_SKUID job < N"
| "ready N (PCheck i) \<longleftrightarrow> i < N"
| "ready N (PComplete i) \<longleftrightarrow> i < N"
| "ready N (PAssign i a reason inc) \<longleftrightarrow> Inc_SKUID inc < N"
| "ready N (PResolve caller i reason inc) \<longleftrightarrow> Inc_SKUID inc < N"
| "ready N (PReap job) \<longleftrightarrow> snd job < N"
| "ready N (PRetry job) \<longleftrightarrow> RJ_SKUID job < N"
| "ready N (PVerify job) \<longleftrightarrow> VJ_SKUID job < N"
| "ready N _ \<longleftrightarrow> True"

lemma ready_mono: "ready N r \<Longrightarrow> N \<le> M \<Longrightarrow> ready M r"
  by (cases r) (auto simp: plan_ok_def)

definition sound :: "id \<Rightarrow> (kworld \<Rightarrow> pending list \<times> kworld) \<Rightarrow> bool" where
  "sound N f \<longleftrightarrow> (\<forall>w ps w'. kinv N Map.empty (wdb w) \<longrightarrow> f w = (ps, w') \<longrightarrow>
     kinv N Map.empty (wdb w') \<and> (\<forall>r \<in> set ps. ready (next_sku (wdb w')) r))"

lemma sound_read:
  assumes "keeps (kinv N Map.empty) m"
    "\<And>w x w' r. kinv N Map.empty (wdb w) \<Longrightarrow> kinv N Map.empty (wdb w') \<Longrightarrow> m w = (Inr x, w') \<Longrightarrow> r \<in> set (nxt x) \<Longrightarrow>
       ready (next_sku (wdb w')) r"
  shows "sound N (admit m nxt)"
  unfolding sound_def
proof (intro allI impI)
  fix w ps w' assume k: "kinv N Map.empty (wdb w)" and a: "admit m nxt w = (ps, w')"
  have "kinv N Map.empty (wdb (snd (m w)))" using assms(1) k by (simp add: keeps_def)
  with a assms(2) [OF k] show "kinv N Map.empty (wdb w') \<and> (\<forall>r \<in> set ps. ready (next_sku (wdb w')) r)"
    by (auto simp: admit_def split: prod.splits sum.splits)
qed

lemma sound_admit:
  assumes "keeps (kinv N Map.empty) m" "\<And>x r. r \<in> set (nxt x) \<Longrightarrow> ready N r"
  shows "sound N (admit m nxt)"
  by (rule sound_read [OF assms(1)]) (auto simp: kinv_def intro: ready_mono assms(2))

lemma Create_tx_keeps: "triple (kinv N Map.empty) (Create_tx U now code name) (\<lambda>_. kinv N Map.empty)"
  by (rule triple_post [OF Create_tx_kinv]) simp

lemma RenewLease_keeps: "keeps (kinv N opn) (RenewLease now a t)"
  using RenewLease_kinv [of N opn now a t] unfolding RenewLease_def
  by (intro keeps_exec) (auto simp: triple_def exec_def stmt_def split: list.splits bool.splits; metis world.select_convs)

lemmas tx_kinv = Create_tx_keeps TransitionStatus_tx_kinv Submit_tx_kinv Sync_tx_kinv Pull_tx_kinv complete_tx_kinv
  Assign_tx_kinv Resolve_tx_kinv reap_tx_kinv retry_tx_kinv verify_tx_kinv AckJob_done_tx_kinv AckJob_fail_tx_kinv

lemma complete_check_keeps: "keeps I (complete_check i)"
  unfolding complete_check_def ListBySKUID_def by (intro keeps_bnd keeps_infra_query keeps_ret)

lemmas stmt_keeps = RenewLease_keeps complete_check_keeps IncidentRepo_Assign_kinv IncidentRepo_Resolve_kinv PolicyRepo_Upsert_kinv

lemma perform_sound: "ready N r \<Longrightarrow> sound N (perform U now f2i r)"
  by (cases r) (auto intro!: sound_admit keeps_RunInTx tx_kinv stmt_keeps split: if_splits)

lemma keeps_same:
  assumes "keeps (\<lambda>d. d = wdb w) m" "m w = (r, w')"
  shows "wdb w' = wdb w"
  using assms(1) [unfolded keeps_def, rule_format, of w] assms(2) by simp

lemma kinv_sku_bound: "kinv N Map.empty d \<Longrightarrow> s \<in> set (skus d) \<Longrightarrow> SKU_ID s = i \<Longrightarrow> i < next_sku d"
  by (auto simp: kinv_def sku_inv_def)

lemma kinv_job_bound: "kinv N Map.empty d \<Longrightarrow> j \<in> set (distribution_jobs d) \<Longrightarrow> Job_SKUID j < next_sku d"
  by (auto simp: kinv_def ref_inv_def)

lemma kinv_incident_bound: "kinv N Map.empty d \<Longrightarrow> List.find p (incidents d) = Some x \<Longrightarrow> Inc_SKUID x < next_sku d"
  by (auto simp: kinv_def ref_inv_def dest!: find_SomeD)

lemma TransitionStatus_preflight_keeps: "keeps I (TransitionStatus_preflight p)"
  unfolding TransitionStatus_preflight_def skuService_GetByID_def SKURepo_GetByID_def
  by (auto intro!: keeps_bnd keeps_infra_query split: option.splits)

lemma TransitionStatus_preflight_ok:
  "TransitionStatus_preflight p w = (Inr x, w') \<Longrightarrow> CanTransition (TS_ExpectedStatus p) (TS_NextStatus p) \<and> wdb w' = wdb w \<and>
     (\<exists>s \<in> set (skus (wdb w)). SKU_ID s = TS_SKUID p)"
  unfolding TransitionStatus_preflight_def skuService_GetByID_def SKURepo_GetByID_def
  by (auto simp: bnd_eq_Inr split: if_splits option.splits dest!: infra_query find_SomeD)

lemma Sync_preflight_keeps: "keeps I (Sync_preflight resolves p)"
proof -
  have "keeps I (infra (GetCurrentForSKU resolves i))" for i
    unfolding GetCurrentForSKU_def by (auto simp: keeps_def map_err_def stmt_def split: list.splits bool.splits)
  then show ?thesis unfolding Sync_preflight_def SKURepo_GetBySKUCode_def
    by (auto intro!: keeps_bnd keeps_infra_query split: option.splits)
qed

lemma Sync_preflight_sku:
  assumes "Sync_preflight resolves p w = (Inr x, w')"
  shows "\<exists>s \<in> set (skus (wdb w')). SKU_ID s = fst x"
proof -
  have "wdb w' = wdb w" by (rule keeps_same [OF Sync_preflight_keeps assms])
  moreover have "\<exists>s \<in> set (skus (wdb w)). SKU_ID s = fst x"
    using assms unfolding Sync_preflight_def SKURepo_GetBySKUCode_def
    by (auto simp: bnd_eq_Inr split: if_splits option.splits dest!: infra_query find_SomeD)
  ultimately show ?thesis by simp
qed

lemma current_attempt_keeps: "keeps I (current_attempt a)"
  using current_attempt_db by (simp add: keeps_def)

lemma incident_preflight_keeps: "keeps I (incident_preflight allowed i reason)"
  using incident_preflight_db by (simp add: keeps_def)

lemma PullPending_sku:
  assumes "PullPending U now a l w = (Inr (Some (job, att)), w')" "kinv N Map.empty (wdb w)"
  shows "Job_SKUID job < next_sku (wdb w')"
proof (cases "oldest_pending (wdb w)")
  case None
  with PullPending_ok [OF assms(1)] show ?thesis by simp
next
  case (Some j)
  have "j \<in> set (distribution_jobs (wdb w))" using oldest_pending_some [OF Some] by simp
  then have "Job_SKUID j < next_sku (wdb w)" using assms(2) by (simp add: kinv_def ref_inv_def)
  then show ?thesis using PullPending_ok [OF assms(1)] Some by (auto simp: pull_done_def appended_def pulled_def)
qed

lemma start_sound: "sound N (start resolves U now c)"
proof (cases c)
  case (CCreate code name)
  show ?thesis unfolding CCreate start.simps
    by (rule sound_admit) (auto intro!: keeps_bnd keeps_infra_query simp: SKURepo_GetBySKUCode_def)
next
  case (CTransition p)
  show ?thesis unfolding CTransition start.simps
    by (rule sound_read [OF TransitionStatus_preflight_keeps])
      (auto dest!: TransitionStatus_preflight_ok elim!: kinv_sku_bound)
next
  case (CSubmit caller p)
  show ?thesis unfolding CSubmit start.simps
    by (rule sound_read [OF Submit_preflight_keeps]) (auto split: sum.splits dest!: Submit_preflight_plan plan_of_ok)
next
  case (CSync p)
  show ?thesis unfolding CSync start.simps
    by (rule sound_read [OF Sync_preflight_keeps]) (auto dest!: Sync_preflight_sku elim!: kinv_sku_bound)
next
  case (CPull a l)
  show ?thesis unfolding CPull start.simps
    by (rule sound_read [OF PullPending_kinv]) (auto split: option.splits dest!: PullPending_sku)
next
  case (CHeartbeat a l)
  show ?thesis unfolding CHeartbeat start.simps by (rule sound_admit) (auto intro!: keeps_bnd current_attempt_keeps)
next
  case (CAck p)
  show ?thesis unfolding CAck start.simps
    by (rule sound_read [OF current_attempt_keeps]) (auto dest!: current_attempt_ok kinv_holds_sku)
next
  case (CAssign i a reason)
  show ?thesis unfolding CAssign start.simps
    by (rule sound_read [OF incident_preflight_keeps]) (auto dest!: incident_preflight_ok elim!: kinv_incident_bound)
next
  case (CResolve i a reason)
  show ?thesis unfolding CResolve start.simps
    by (rule sound_read [OF incident_preflight_keeps]) (auto dest!: incident_preflight_ok elim!: kinv_incident_bound)
next
  case (CUpdate caller i val reason)
  show ?thesis unfolding CUpdate start.simps
    by (rule sound_admit) (auto intro!: found_keeps simp: PolicyRepo_GetByID_def)
next
  case TReap
  show ?thesis unfolding TReap start.simps
    by (rule sound_read [OF keeps_query]) (auto dest!: query_success simp: expired_jobs_spec elim!: kinv_job_bound)
next
  case TRetry
  show ?thesis unfolding TRetry start.simps
    by (rule sound_read [OF keeps_query])
      (auto dest!: query_success picked_subset [THEN subsetD] simp: due_jobs_picked retry_row_def elim!: kinv_job_bound)
next
  case TVerify
  show ?thesis unfolding TVerify start.simps
    by (rule sound_read [OF keeps_query]) (auto dest!: query_success in_set_takeD simp: verify_jobs_def elim!: kinv_job_bound)
qed

subsection \<open>Every reachable state is consistent\<close>

definition ksys_init :: "ksys \<Rightarrow> bool" where
  "ksys_init s \<longleftrightarrow> inflight s = [] \<and> (\<exists>N. kinv N Map.empty (kdb_of s))"

definition ksys_inv :: "ksys \<Rightarrow> bool" where
  "ksys_inv s \<longleftrightarrow> kinv (next_sku (kdb_of s)) Map.empty (kdb_of s) \<and> (\<forall>r \<in> set (inflight s). ready (next_sku (kdb_of s)) r)"

lemma kinv_next_sku: "kinv N opn d \<Longrightarrow> kinv (next_sku d) opn d"
  by (simp add: kinv_def)

lemma ksys_inv_step:
  assumes "ksys_inv s" "sound (next_sku (kdb_of s)) f" "f \<lparr>wdb = kdb_of s, faults = fs\<rparr> = (ps, w)" "set rs \<subseteq> set (inflight s)"
  shows "ksys_inv \<lparr>kdb_of = wdb w, inflight = ps @ rs\<rparr>"
proof -
  have "kinv (next_sku (kdb_of s)) Map.empty (wdb w)" and new: "\<forall>r \<in> set ps. ready (next_sku (wdb w)) r"
    using assms(1-3) unfolding ksys_inv_def sound_def by force+
  then have "next_sku (kdb_of s) \<le> next_sku (wdb w)" "kinv (next_sku (wdb w)) Map.empty (wdb w)"
    by (simp_all add: kinv_def)
  with new assms(1,4) show ?thesis by (auto simp: ksys_inv_def intro: ready_mono)
qed

interpretation kernel: inductive_invariant ksys_init "kstep resolves U" ksys_inv for resolves U
proof unfold_locales
  fix s assume "ksys_init s"
  then show "ksys_inv s" by (auto simp: ksys_init_def ksys_inv_def kinv_next_sku)
next
  fix s t assume inv: "ksys_inv s" and "kstep resolves U s t"
  from this(2) show "ksys_inv t"
  proof cases
    case (enter now c fs ps w)
    then show ?thesis using ksys_inv_step [OF inv start_sound] by simp
  next
    case (work r now f2i fs ps w)
    have "ready (next_sku (kdb_of s)) r" using inv work(2) by (simp add: ksys_inv_def)
    from ksys_inv_step [OF inv perform_sound [OF this] work(3), of "remove1 r (inflight s)"] work(1) show ?thesis
      by (simp add: set_remove1_subset)
  next
    case (crash r)
    then show ?thesis using inv set_remove1_subset [of r "inflight s"] by (auto simp: ksys_inv_def)
  qed
qed

text \<open>What the invariant says of one committed database.\<close>

definition consistent :: "kdb \<Rightarrow> bool" where
  "consistent d \<longleftrightarrow>
     (\<forall>s \<in> set (skus d). replay WorkflowDraft (sku_events d (SKU_ID s)) = Some (SKU_WorkflowStatus s)) \<and>
     (\<forall>i. map EL_Sequence (sku_events d i) = [1..last_seq d i]) \<and>
     distinct (map (\<lambda>a. (AA_AssetVerID a, AA_Stage a)) (audit_actions d)) \<and>
     distinct (map AA_ActionID (audit_actions d)) \<and>
     distinct (map Job_IdempotentKey (distribution_jobs d)) \<and>
     (\<forall>j \<in> set (distribution_jobs d). Job_Status j = JobStatusRunning \<longrightarrow>
        (\<exists>a \<in> set (job_attempts d). Job_CurrentAttemptID j = Some (At_ID a) \<and> At_JobID a = Job_ID j))"

lemma attempt_ok_running:
  "attempt_ok ats j \<Longrightarrow> Job_Status j = JobStatusRunning \<Longrightarrow> \<exists>a \<in> set ats. Job_CurrentAttemptID j = Some (At_ID a) \<and> At_JobID a = Job_ID j"
  by (fastforce simp: attempt_ok_def)

lemma kinv_consistent: "kinv N Map.empty d \<Longrightarrow> consistent d"
  unfolding consistent_def
  by (auto simp: kinv_log) (auto simp: kinv_def seq_inv_def audit_inv_def job_inv_def intro!: attempt_ok_running)

text \<open>
  (C1) The running kernel is consistent. Let any mix of requests and worker ticks run, interleaved at
  transaction granularity, with any statement failing and any request lost. In every state reached
  from a consistent database: the event log of every SKU replays, from Draft and along allowed
  transitions only, to exactly the status stored in its row; the log is numbered without gap or
  repetition; each asset version has at most one decision per audit stage, each action id and each
  job key is used once; and every Running job holds an attempt of its own.
\<close>

theorem running_kernel_consistent:
  assumes "reach ksys_init (kstep resolves U) s"
  shows "consistent (kdb_of s)"
  using kernel.reach_inv [OF assms] by (auto simp: ksys_inv_def intro: kinv_consistent)

text \<open>Two requests that create a SKU with the same code, interleaved: the second transaction rolls back.\<close>

definition two_creates :: ksys where
  "two_creates = \<lparr>kdb_of = empty_kdb, inflight = [PCreate ''A'' ''x'', PCreate ''A'' ''y'']\<rparr>"

definition created_kdb :: kdb where
  "created_kdb = wdb (snd (RunInTx (Create_tx example_uuid 7 ''A'' ''x'') (quiet empty_kdb)))"

lemma created_kdb_skus: "map SKU_SKUCode (skus created_kdb) = [''A'']"
  by (simp add: created_kdb_def RunInTx_def Create_tx_def SKURepo_Create_def Append_def nextSequence_def uuid_New_def
      insert_event_log_def bnd_def Let_def act_simps empty_kdb_def split: option.splits)

lemma two_creates_reach: "reach ksys_init (kstep True example_uuid) two_creates"
proof -
  let ?s0 = "\<lparr>kdb_of = empty_kdb, inflight = []\<rparr>" and ?s1 = "\<lparr>kdb_of = empty_kdb, inflight = [PCreate ''A'' ''y'']\<rparr>"
  have e: "start True example_uuid 7 (CCreate ''A'' n) \<lparr>wdb = empty_kdb, faults = []\<rparr> = ([PCreate ''A'' n], \<lparr>wdb = empty_kdb, faults = []\<rparr>)"
    if "n \<noteq> []" for n
    using that by (simp add: admit_def bnd_def map_err_def act_simps SKURepo_GetBySKUCode_def empty_kdb_def)
  have "kstep True example_uuid ?s0 ?s1" using kstep.enter [of True example_uuid 7 "CCreate ''A'' ''y''" ?s0 "[]"] e [of "''y''"] by simp
  moreover have "kstep True example_uuid ?s1 two_creates"
    using kstep.enter [of True example_uuid 7 "CCreate ''A'' ''x''" ?s1 "[]"] e [of "''x''"] by (simp add: two_creates_def)
  moreover have "ksys_init ?s0" using empty_kdb_kinv by (auto simp: ksys_init_def)
  ultimately show ?thesis by (meson reach.intros)
qed

theorem running_kernel_consistent_witness:
  "reach ksys_init (kstep True example_uuid) \<lparr>kdb_of = created_kdb, inflight = [PCreate ''A'' ''y'']\<rparr> \<and>
   map SKU_SKUCode (skus created_kdb) = [''A''] \<and> consistent created_kdb"
proof -
  have "perform example_uuid 7 (\<lambda>_. 0) (PCreate ''A'' ''x'') \<lparr>wdb = empty_kdb, faults = []\<rparr> =
      ([], snd (RunInTx (Create_tx example_uuid 7 ''A'' ''x'') (quiet empty_kdb)))"
    by (auto simp: admit_def quiet_def split: prod.splits sum.splits)
  then have "kstep True example_uuid two_creates \<lparr>kdb_of = created_kdb, inflight = [PCreate ''A'' ''y'']\<rparr>"
    using kstep.work [of "PCreate ''A'' ''x''" two_creates example_uuid 7 "\<lambda>_. 0" "[]" "[]"
        "snd (RunInTx (Create_tx example_uuid 7 ''A'' ''x'') (quiet empty_kdb))" True]
    by (simp add: two_creates_def created_kdb_def)
  with two_creates_reach have r: "reach ksys_init (kstep True example_uuid) \<lparr>kdb_of = created_kdb, inflight = [PCreate ''A'' ''y'']\<rparr>"
    by (rule reach.intros)
  from running_kernel_consistent [OF r] r created_kdb_skus show ?thesis by simp
qed

subsection \<open>Calls are runs\<close>

text \<open>From the database of \<open>w\<close>, the requests \<open>ps\<close> can be worked off to reach \<open>d'\<close>, whatever else is in flight.\<close>

definition drains :: "bool \<Rightarrow> uuid_source \<Rightarrow> pending list \<Rightarrow> kworld \<Rightarrow> kdb \<Rightarrow> bool" where
  "drains resolves U ps w d' \<longleftrightarrow> (\<forall>rs. (kstep resolves U)\<^sup>*\<^sup>* \<lparr>kdb_of = wdb w, inflight = ps @ rs\<rparr> \<lparr>kdb_of = d', inflight = rs\<rparr>)"

lemma drains_Nil: "d' = wdb w \<Longrightarrow> drains resolves U [] w d'"
  by (simp add: drains_def)

lemma world_eta: "\<lparr>wdb = wdb w, faults = faults w\<rparr> = (w :: kworld)"
  by (cases w) simp

lemma drains_work:
  assumes "perform U now f2i r = admit m nxt"
    and "\<And>x w1. m w = (Inr x, w1) \<Longrightarrow> drains resolves U (nxt x @ ps) w1 d'" "\<And>e w1. m w = (Inl e, w1) \<Longrightarrow> drains resolves U ps w1 d'"
  shows "drains resolves U (r # ps) w d'"
  unfolding drains_def
proof
  fix rs
  obtain qs w1 where a: "admit m nxt w = (qs, w1)" by fastforce
  then have "drains resolves U (qs @ ps) w1 d'" using assms(2,3) by (auto simp: admit_def split: prod.splits sum.splits)
  moreover have "kstep resolves U \<lparr>kdb_of = wdb w, inflight = r # ps @ rs\<rparr> \<lparr>kdb_of = wdb w1, inflight = qs @ ps @ rs\<rparr>"
    using kstep.work [of r "\<lparr>kdb_of = wdb w, inflight = r # ps @ rs\<rparr>" U now f2i "faults w" qs w1 resolves] a assms(1) by (simp add: world_eta)
  ultimately show "(kstep resolves U)\<^sup>*\<^sup>* \<lparr>kdb_of = wdb w, inflight = (r # ps) @ rs\<rparr> \<lparr>kdb_of = d', inflight = rs\<rparr>"
    unfolding drains_def by (metis append_Cons append_assoc converse_rtranclp_into_rtranclp)
qed

lemma drains_lost: "d' = wdb w \<Longrightarrow> drains resolves U [r] w d'"
  unfolding drains_def
  using kstep.crash [of resolves U "\<lparr>kdb_of = wdb w, inflight = r # _\<rparr>" r] by (auto intro!: r_into_rtranclp)

lemma reach_steps: "step\<^sup>*\<^sup>* s t \<Longrightarrow> reach init step s \<Longrightarrow> reach init step t"
  by (induction rule: rtranclp_induct) (auto intro: reach.intros)

definition is_run :: "bool \<Rightarrow> uuid_source \<Rightarrow> (kdb, 'e, 'a) act \<Rightarrow> bool" where
  "is_run resolves U f \<longleftrightarrow> (\<forall>w rs. (kstep resolves U)\<^sup>*\<^sup>* \<lparr>kdb_of = wdb w, inflight = rs\<rparr> \<lparr>kdb_of = wdb (snd (f w)), inflight = rs\<rparr>)"

lemma is_run_enter:
  assumes "start resolves U now c = admit m nxt"
    and "\<And>w x w1. m w = (Inr x, w1) \<Longrightarrow> drains resolves U (nxt x) w1 (wdb (snd (f w)))" "\<And>w e w1. m w = (Inl e, w1) \<Longrightarrow> wdb (snd (f w)) = wdb w1"
  shows "is_run resolves U f"
  unfolding is_run_def
proof (intro allI)
  fix w rs
  obtain qs w1 where a: "admit m nxt w = (qs, w1)" by fastforce
  then have "drains resolves U qs w1 (wdb (snd (f w)))" using assms(2,3)
    by (auto simp: admit_def drains_Nil split: prod.splits sum.splits)
  moreover have "kstep resolves U \<lparr>kdb_of = wdb w, inflight = rs\<rparr> \<lparr>kdb_of = wdb w1, inflight = qs @ rs\<rparr>"
    using kstep.enter [of resolves U now c "\<lparr>kdb_of = wdb w, inflight = rs\<rparr>" "faults w" qs w1] a assms(1) by (simp add: world_eta)
  ultimately show "(kstep resolves U)\<^sup>*\<^sup>* \<lparr>kdb_of = wdb w, inflight = rs\<rparr> \<lparr>kdb_of = wdb (snd (f w)), inflight = rs\<rparr>"
    unfolding drains_def by (metis converse_rtranclp_into_rtranclp)
qed

text \<open>A request with one transaction left.\<close>

lemma drains_last:
  assumes "perform U now f2i r = admit m (\<lambda>_. [])" "\<And>v w1. m w = (v, w1) \<Longrightarrow> d' = wdb w1"
  shows "drains resolves U [r] w d'"
  by (rule drains_work [OF assms(1)]) (auto intro: drains_Nil dest: assms(2))

lemma reread_query_db: "wdb (snd (reread (query g) w)) = wdb w"
  using reread_keeps [of "\<lambda>d. d = wdb w" g] by (simp add: keeps_def)

lemma map_err_db: "wdb (snd (map_err h m w)) = wdb (snd (m w))"
  by (auto simp: map_err_def split: prod.splits sum.splits)

lemma bnd_read_db: "(\<And>x v. wdb (snd (k x v)) = wdb v) \<Longrightarrow> wdb (snd (bnd m k w)) = wdb (snd (m w))"
  by (auto simp: bnd_def split: prod.splits sum.splits)

lemma run_TransitionStatus: "is_run resolves U (TransitionStatus U now p)"
proof (rule is_run_enter [OF start.simps(2) [of resolves U now p]], goal_cases)
  case (1 w x w1)
  have "wdb (snd (TransitionStatus U now p w)) = wdb (snd (RunInTx (TransitionStatus_tx U now p) w1))"
    using 1 by (auto simp: TransitionStatus_def bnd_run_Inr bnd_read_db ignore_err_def reread_query_db SKURepo_GetByID_def
        bnd_def throw_def split: prod.splits sum.splits)
  then show ?case by (intro drains_last [OF perform.simps(2) [of U now "\<lambda>_. 0" p]]) simp
next
  case (2 w e w1)
  then show ?case by (simp add: TransitionStatus_def bnd_def)
qed

lemma run_Submit: "is_run resolves U (Submit U now caller p)"
proof (rule is_run_enter [OF start.simps(3) [of resolves U now caller p]], goal_cases)
  case (1 w x w1)
  show ?case
  proof (cases x)
    case (Inl a)
    with 1 show ?thesis by (simp add: Submit_def bnd_run_Inr drains_Nil)
  next
    case (Inr plan)
    with 1 have "wdb (snd (Submit U now caller p w)) = wdb (snd (RunInTx (Submit_tx U now caller p plan) w1))"
      by (simp add: Submit_def bnd_run_Inr bnd_read_db reread_query_db GetByActionID_def map_err_db)
    then show ?thesis using Inr by (simp add: drains_last [OF perform.simps(3) [of U now "\<lambda>_. 0" caller p plan]])
  qed
next
  case (2 w e w1)
  then show ?case by (simp add: Submit_def bnd_def)
qed

lemma run_Sync: "is_run resolves U (Sync resolves U now p)"
proof (rule is_run_enter [OF start.simps(4) [of resolves U now p]], goal_cases)
  case (1 w x w1)
  then show ?case
    by (intro drains_last [OF perform.simps(4) [of U now "\<lambda>_. 0" p x]]) (simp add: Sync_def bnd_run_Inr map_err_db)
next
  case (2 w e w1)
  then show ?case by (simp add: Sync_def bnd_def)
qed

lemma run_AckJob: "is_run resolves U (AckJob U now p)"
proof (rule is_run_enter [OF start.simps(7) [of resolves U now p]], goal_cases)
  case (1 w x w1)
  then obtain att job where c: "current_attempt (Ack_AttemptID p) w = (Inr (att, job), w1)" and x: "x = (att, job)" by (cases x) simp
  let ?i = "Job_SKUID job"
  show ?case
  proof (cases "ack_succeeds p job")
    case True
    let ?m = "RunInTx (AckJob_done_tx U now (Ack_AttemptID p) job)"
    have f: "AckJob U now p w = bnd (infra ?m) (\<lambda>_. tryCompleteSKU U now ?i) w1"
      using c True by (simp add: AckJob_def bnd_run_Inr)
    have fin: "drains resolves U [PComplete ?i] v (wdb (snd (RunInTx (complete_tx U now ?i) v)))" for v
      by (rule drains_last [OF perform.simps(9) [of U now "\<lambda>_. 0" ?i]]) simp
    have chk: "drains resolves U [PCheck ?i] v (wdb (snd (tryCompleteSKU U now ?i v)))" for v
      by (rule drains_work [OF perform.simps(8) [of U now "\<lambda>_. 0" ?i]])
        (auto simp: tryCompleteSKU_def bnd_def map_err_db fin drains_Nil)
    have "perform U now (\<lambda>_. 0) (PAck p job) = admit ?m (\<lambda>_. [PCheck ?i])" using True by simp
    then have "drains resolves U [PAck p job] w1 (wdb (snd (AckJob U now p w)))"
      by (rule drains_work) (auto simp: f bnd_def map_err_def chk drains_Nil)
    with x show ?thesis by simp
  next
    case False
    let ?m = "RunInTx (AckJob_fail_tx U now (Ack_AttemptID p) job (ack_reason p job))"
    have "AckJob U now p w = infra ?m w1" using c False by (simp add: AckJob_def bnd_run_Inr)
    moreover have "perform U now (\<lambda>_. 0) (PAck p job) = admit ?m (\<lambda>_. [])" using False by simp
    ultimately have "drains resolves U [PAck p job] w1 (wdb (snd (AckJob U now p w)))"
      by (intro drains_last) (auto simp: map_err_db)
    with x show ?thesis by simp
  qed
next
  case (2 w e w1)
  then show ?case by (simp add: AckJob_def bnd_def)
qed

lemma run_Create: "is_run resolves U (skuService_Create U now code name)"
proof (rule is_run_enter [OF start.simps(1) [of resolves U now code name]], goal_cases)
  case (1 w x w1)
  then have "code \<noteq> []" "name \<noteq> []" "infra (SKURepo_GetBySKUCode code) w = (Inr None, w1)"
    by (auto simp: bnd_eq_Inr split: if_splits)
  then have "wdb (snd (skuService_Create U now code name w)) = wdb (snd (RunInTx (Create_tx U now code name) w1))"
    by (simp add: skuService_Create_def bnd_run_Inr bnd_read_db reread_query_db SKURepo_GetByID_def map_err_db)
  then show ?case by (intro drains_last [OF perform.simps(1) [of U now "\<lambda>_. 0" code name]]) simp
next
  case (2 w e w1)
  then show ?case
    by (auto simp: skuService_Create_def throw_def bnd_def ret_def split: if_splits prod.splits sum.splits)
qed

lemma drains_start: "(\<And>rs. kstep resolves U \<lparr>kdb_of = wdb w, inflight = rs\<rparr> \<lparr>kdb_of = wdb w1, inflight = ps @ rs\<rparr>) \<Longrightarrow>
   drains resolves U ps w1 d' \<Longrightarrow> drains resolves U [] w d'"
  unfolding drains_def by (metis append_Nil converse_rtranclp_into_rtranclp)

lemma is_run_drains: "(\<And>w. drains resolves U [] w (wdb (snd (f w)))) \<Longrightarrow> is_run resolves U f"
  by (simp add: drains_def is_run_def)

lemma jobLeaseDuration_db: "wdb (snd (jobLeaseDuration asFloat w)) = wdb w"
  using jobLeaseDuration_keeps [of "\<lambda>d. d = wdb w" asFloat] by (simp add: keeps_def)

lemma run_PullJob: "is_run resolves U (PullJob asFloat U now agentID)"
proof -
  have pull: "is_run resolves U (\<lambda>v. bnd (infra (PullPending U now agentID lease)) (\<lambda>r. case r of
        None \<Rightarrow> ret None
      | Some (job, attempt) \<Rightarrow>
          bnd (ignore_err (RunInTx (Pull_tx U now (Job_SKUID job)))) (\<lambda>_.
          ret (Some \<lparr>PR_Job = job, PR_AttemptID = At_ID attempt, PR_LeaseExpiresAt = At_LeaseExpiresAt attempt\<rparr>))) v)"
    (is "is_run resolves U ?f") for lease
  proof (rule is_run_enter [OF start.simps(5) [of resolves U now agentID lease]], goal_cases)
    case (1 w x w1)
    show ?case
    proof (cases x)
      case None
      with 1 show ?thesis by (simp add: bnd_run_Inr map_err_def drains_Nil)
    next
      case (Some y)
      obtain job att where y: "y = (job, att)" by (cases y)
      have "wdb (snd (?f w)) = wdb (snd (RunInTx (Pull_tx U now (Job_SKUID job)) w1))"
        using 1 Some y by (simp add: bnd_run_Inr map_err_def bnd_def ignore_err_def)
      then show ?thesis using Some y by (simp add: drains_last [OF perform.simps(5) [of U now "\<lambda>_. 0" "Job_SKUID job"]])
    qed
  next
    case (2 w e w1)
    then show ?case by (simp add: bnd_def map_err_def)
  qed
  show ?thesis unfolding is_run_def
  proof (intro allI)
    fix w rs
    show "(kstep resolves U)\<^sup>*\<^sup>* \<lparr>kdb_of = wdb w, inflight = rs\<rparr> \<lparr>kdb_of = wdb (snd (PullJob asFloat U now agentID w)), inflight = rs\<rparr>"
    proof (cases "TrimSpace agentID = []")
      case True
      then show ?thesis by (simp add: PullJob_def)
    next
      case False
      obtain r w1 where l: "jobLeaseDuration asFloat w = (r, w1)" by fastforce
      then have w1: "wdb w1 = wdb w" using jobLeaseDuration_db [of asFloat w] by simp
      show ?thesis
      proof (cases r)
        case (Inl e)
        then show ?thesis using False l w1 by (simp add: PullJob_def bnd_def)
      next
        case (Inr lease)
        with l have l': "jobLeaseDuration asFloat w = (Inr lease, w1)" by simp
        show ?thesis using pull [of lease, unfolded is_run_def, rule_format, of w1 rs] False w1
          by (simp add: PullJob_def bnd_run_Inr l')
      qed
    qed
  qed
qed

lemma run_Heartbeat: "is_run resolves U (Heartbeat asFloat now a)"
proof (rule is_run_drains)
  fix w
  let ?g = "bnd (current_attempt a) (\<lambda>(attempt, job). if At_LeaseExpiresAt attempt < now then throw ErrCodeJobAttemptExpired else ret ())"
  obtain r w1 where g: "?g w = (r, w1)" by fastforce
  have "keeps (\<lambda>d. d = wdb w) ?g" by (auto intro!: keeps_bnd current_attempt_keeps)
  then have w1: "wdb w1 = wdb w" using g by (rule keeps_same)
  show "drains resolves U [] w (wdb (snd (Heartbeat asFloat now a w)))"
  proof (cases r)
    case (Inl e)
    then have "snd (Heartbeat asFloat now a w) = w1"
      using g by (auto simp: Heartbeat_def bnd_def throw_def ret_def split: prod.splits sum.splits if_splits)
    then show ?thesis by (simp add: drains_Nil w1)
  next
    case (Inr u)
    let ?k = "\<lambda>lease. bnd (infra (RenewLease now a (now + lease))) (\<lambda>_. ret (now + lease))"
    have f: "Heartbeat asFloat now a w = bnd (jobLeaseDuration asFloat) ?k w1"
      using g Inr by (auto simp: Heartbeat_def bnd_def Let_def throw_def ret_def split: prod.splits sum.splits if_splits)
    obtain l w2 where l: "jobLeaseDuration asFloat w1 = (l, w2)" by fastforce
    then have w2: "wdb w2 = wdb w1" using jobLeaseDuration_db [of asFloat w1] by simp
    show ?thesis
    proof (cases l)
      case (Inl e)
      then show ?thesis by (simp add: f bnd_def l drains_Nil w1 w2)
    next
      case l2: (Inr lease)
      have en: "kstep resolves U \<lparr>kdb_of = wdb w, inflight = rs\<rparr> \<lparr>kdb_of = wdb w1, inflight = [PRenew a (now + lease)] @ rs\<rparr>" for rs
        using kstep.enter [of resolves U now "CHeartbeat a lease" "\<lparr>kdb_of = wdb w, inflight = rs\<rparr>" "faults w"] g Inr
        by (simp add: world_eta admit_def)
      have "drains resolves U [PRenew a (now + lease)] w2 (wdb (snd (Heartbeat asFloat now a w)))"
        by (rule drains_last [OF perform.simps(6) [of U now "\<lambda>_. 0" a "now + lease"]])
          (simp add: f bnd_run_Inr l l2 bnd_read_db map_err_db)
      then have "drains resolves U [PRenew a (now + lease)] w1 (wdb (snd (Heartbeat asFloat now a w)))"
        by (simp add: drains_def w2)
      with en show ?thesis by (rule drains_start)
    qed
  qed
qed

lemma run_Assign: "is_run resolves U (incidentService_Assign U now i a reason)"
proof (rule is_run_enter [OF start.simps(8) [of resolves U now i a reason]], goal_cases)
  case (1 w inc w1)
  have "drains resolves U [PAssignee i a] v (wdb (snd (infra (IncidentRepo_Assign now i a) v)))" for v
    by (rule drains_last [OF perform.simps(11) [of U now "\<lambda>_. 0" i a]]) (simp add: map_err_db)
  with 1 show ?case
    by (intro drains_work [OF perform.simps(10) [of U now "\<lambda>_. 0" i a reason inc]])
      (auto simp: incidentService_Assign_def bnd_def map_err_def drains_Nil)
next
  case (2 w e w1)
  then show ?case by (simp add: incidentService_Assign_def bnd_def)
qed

lemma run_Resolve: "is_run resolves U (incidentService_Resolve U now caller i reason)"
proof (rule is_run_enter [OF start.simps(9) [of resolves U now caller i reason]], goal_cases)
  case (1 w inc w1)
  have "drains resolves U [PResolver i caller] v (wdb (snd (infra (IncidentRepo_Resolve now i caller) v)))" for v
    by (rule drains_last [OF perform.simps(13) [of U now "\<lambda>_. 0" i caller]]) (simp add: map_err_db)
  with 1 show ?case
    by (intro drains_work [OF perform.simps(12) [of U now "\<lambda>_. 0" caller i reason inc]])
      (auto simp: incidentService_Resolve_def bnd_def map_err_def drains_Nil)
next
  case (2 w e w1)
  then show ?case by (simp add: incidentService_Resolve_def bnd_def)
qed

lemma run_Update: "is_run resolves U (policyService_Update now caller i val reason)"
proof (rule is_run_enter [OF start.simps(10) [of resolves U now caller i val reason]], goal_cases)
  case (1 w x w1)
  then have "wdb (snd (policyService_Update now caller i val reason w)) = wdb (snd (PolicyRepo_Upsert now (Pol_Key x) val caller w1))"
    by (auto simp: policyService_Update_def bnd_run_Inr map_err_db split: if_splits)
  then show ?case by (intro drains_last [OF perform.simps(14) [of U now "\<lambda>_. 0" "Pol_Key x" val caller]]) simp
next
  case (2 w e w1)
  then show ?case by (auto simp: policyService_Update_def bnd_def throw_def split: if_splits)
qed

text \<open>A worker tick is its query and then its list, worked off in order.\<close>

lemma drains_loop:
  assumes "\<And>x. perform U now f2i (P x) = admit (RunInTx (m x)) (\<lambda>_. [])"
  shows "drains resolves U (map P xs) w (wdb (snd (for_each (\<lambda>x. ignore_err (RunInTx (m x))) xs w)))"
proof (induction xs arbitrary: w)
  case Nil
  show ?case by (simp add: drains_Nil)
next
  case (Cons x xs)
  show ?case unfolding list.map
    by (rule drains_work [OF assms]) (use Cons in \<open>auto simp: bnd_def ignore_err_def\<close>)
qed

lemma run_tick:
  assumes "\<And>x. perform U now f2i (P x) = admit (RunInTx (m x)) (\<lambda>_. [])" "start resolves U now c = admit (query sel) (map P)"
  shows "is_run resolves U (bnd (query sel) (\<lambda>xs. for_each (\<lambda>x. ignore_err (RunInTx (m x))) xs))"
  by (rule is_run_enter [OF assms(2)]) (auto simp: bnd_def intro!: drains_loop assms(1))

lemma run_reap: "is_run resolves U (reap U now)"
  unfolding reap_def
  by (rule run_tick [OF perform.simps(15) [of U now "\<lambda>_. 0"]]) (rule start.simps(11))

lemma run_schedule: "is_run resolves U (schedule U now f2i)"
  unfolding schedule_def by (rule run_tick [OF perform.simps(16) [of U now f2i]]) (rule start.simps(12))

lemma run_verify: "is_run resolves U (verify U now)"
  unfolding verify_def by (rule run_tick [OF perform.simps(17) [of U now "\<lambda>_. 0"]]) (rule start.simps(13) [of _ _ now])

text \<open>
  The step relation covers the code: every service call and every worker tick, run without
  interruption under any schedule of faults, is a run of the step relation between the databases before and after
  it, whatever requests are in flight beside it.
\<close>

lemma service_calls_are_runs:
  "is_run resolves U (skuService_Create U now code name) \<and> is_run resolves U (TransitionStatus U now tp) \<and>
   is_run resolves U (Submit U now caller sp) \<and> is_run resolves U (Sync resolves U now yp) \<and>
   is_run resolves U (PullJob asFloat U now agentID) \<and> is_run resolves U (Heartbeat asFloat now attemptID) \<and>
   is_run resolves U (AckJob U now ap) \<and> is_run resolves U (incidentService_Assign U now i a reason) \<and>
   is_run resolves U (incidentService_Resolve U now caller i reason) \<and>
   is_run resolves U (policyService_Update now caller i val reason) \<and>
   is_run resolves U (reap U now) \<and> is_run resolves U (schedule U now f2i) \<and> is_run resolves U (verify U now)"
  by (intro conjI run_Create run_TransitionStatus run_Submit run_Sync run_PullJob run_Heartbeat run_AckJob run_Assign
      run_Resolve run_Update run_reap run_schedule run_verify)

subsection \<open>Distribution never starts\<close>

text \<open>
  Jobs are created PendingVerify, and the code has no transition out of that state: \<^verbatim>\<open>PullPending\<close> takes Pending
  jobs, and the only statement that makes a job Pending is the retry scheduler's, for Fail and Stale ones.
\<close>

definition idle_db :: "kdb \<Rightarrow> bool" where
  "idle_db d \<longleftrightarrow> job_attempts d = [] \<and>
     (\<forall>j \<in> set (distribution_jobs d). Job_Status j = JobStatusPendingVerify \<and> Job_VerifyStatus j = VerifyStatusNotRequested)"

fun idle_req :: "pending \<Rightarrow> bool" where
  "idle_req (PPull i) = False"
| "idle_req (PRenew a t) = False"
| "idle_req (PAck p job) = False"
| "idle_req (PCheck i) = False"
| "idle_req (PComplete i) = False"
| "idle_req (PReap job) = False"
| "idle_req (PRetry job) = False"
| "idle_req (PVerify job) = False"
| "idle_req r = True"

definition idle_init :: "ksys \<Rightarrow> bool" where
  "idle_init s \<longleftrightarrow> ksys_init s \<and> distribution_jobs (kdb_of s) = [] \<and> job_attempts (kdb_of s) = []"

definition idle_inv :: "ksys \<Rightarrow> bool" where
  "idle_inv s \<longleftrightarrow> ksys_inv s \<and> idle_db (kdb_of s) \<and> (\<forall>r \<in> set (inflight s). idle_req r)"

lemma idle_cong: "distribution_jobs d' = distribution_jobs d \<Longrightarrow> job_attempts d' = job_attempts d \<Longrightarrow> idle_db d' = idle_db d"
  by (simp add: idle_db_def)

lemma idle_stmt:
  "(\<And>d x d'. f d = Inr (x, d') \<Longrightarrow> distribution_jobs d' = distribution_jobs d \<and> job_attempts d' = job_attempts d) \<Longrightarrow>
   triple idle_db (stmt f) (\<lambda>_. idle_db)"
  by (rule triple_stmt) (metis idle_cong)

lemma idle_exec:
  "(\<And>d. distribution_jobs (h d) = distribution_jobs d \<and> job_attempts (h d) = job_attempts d) \<Longrightarrow> triple idle_db (exec h) (\<lambda>_. idle_db)"
  by (rule triple_exec) (metis idle_cong)

lemma idle_append: "triple idle_db (Append U now i ty pl) (\<lambda>_. idle_db)"
proof (rule tripleI)
  fix w x w' assume "idle_db (wdb w)" "Append U now i ty pl w = (Inr x, w')"
  then show "idle_db (wdb w')" using idle_cong [of "wdb w'" "wdb w"] by (auto dest!: Append_ok simp: appended_def)
qed

lemma idle_CAS: "triple idle_db (CASWorkflowStatus now i a b) (\<lambda>_. idle_db)"
  unfolding CASWorkflowStatus_def by (rule idle_stmt) (auto simp: Let_def)

lemma idle_SKU_Create: "triple idle_db (SKURepo_Create now c n) (\<lambda>_. idle_db)"
  unfolding SKURepo_Create_def by (rule idle_stmt) (auto split: if_splits)

lemma idle_insert_job:
  assumes "Job_Status j = JobStatusPendingVerify"
  shows "triple idle_db (insert_ignore_job now j) (\<lambda>_. idle_db)"
  unfolding insert_ignore_job_def by (rule triple_exec) (use assms in \<open>auto simp: idle_db_def\<close>)

lemma idle_InsertIdempotent: "triple idle_db (InsertIdempotent now a) (\<lambda>_. idle_db)"
proof (rule tripleI)
  fix w x w' assume i: "idle_db (wdb w)" and r: "InsertIdempotent now a w = (Inr x, w')"
  have "distribution_jobs (wdb w1) = distribution_jobs (wdb w) \<and> job_attempts (wdb w1) = job_attempts (wdb w)"
    if "insert_audit_action now a w = (v, w1)" for v w1
    using that unfolding insert_audit_action_def
    by (cases v) (auto dest!: stmt_success stmt_failure dest: sym split: if_splits)
  then show "idle_db (wdb w')" using r i
    by (auto simp: InsertIdempotent_def GetByActionID_def bnd_eq_Inr idle_db_def split: prod.splits sum.splits if_splits option.splits
        dest!: query_success)
qed

lemmas idle_rules = idle_append idle_CAS idle_SKU_Create idle_InsertIdempotent triple_throw triple_ret

lemma idle_unit: "triple idle_db m (\<lambda>_. idle_db) \<Longrightarrow> (\<And>x. triple idle_db (k x) (\<lambda>_. idle_db)) \<Longrightarrow> triple idle_db (bnd m k) (\<lambda>_. idle_db)"
  by (rule triple_bnd)

lemma idle_Submit_tx:
  assumes "plan_ok N pl"
  shows "triple idle_db (Submit_tx U now caller p pl) (\<lambda>_. idle_db)"
proof -
  have "triple idle_db (Submit_jobs U now pl) (\<lambda>_. idle_db)"
    unfolding Submit_jobs_def CreateBatch_def using assms
    by (auto simp: plan_ok_def intro!: idle_unit idle_rules triple_for_each idle_insert_job)
  then show ?thesis unfolding Submit_tx_def by (auto intro!: idle_unit idle_rules)
qed

lemma idle_perform:
  assumes "ready N r" "idle_req r" "idle_db (wdb w)" "perform U now f2i r w = (ps, w')"
  shows "idle_db (wdb w') \<and> (\<forall>q \<in> set ps. idle_req q)"
proof -
  have adm: "idle_db (wdb v') \<and> (\<forall>q \<in> set qs. idle_req q)"
    if "keeps idle_db m" "admit m nxt w = (qs, v')" "\<And>x. \<forall>q \<in> set (nxt x). idle_req q"
    for m :: "(kdb, db_error, 'a) act" and nxt qs v'
    using that assms(3) by (auto simp: admit_def keeps_def split: prod.splits sum.splits; metis snd_conv)
  have tx: "triple idle_db (Create_tx U now c n) (\<lambda>_. idle_db)" "triple idle_db (TransitionStatus_tx U now tp) (\<lambda>_. idle_db)"
    "triple idle_db (Sync_tx U now sp (i, k)) (\<lambda>_. idle_db)" "triple idle_db (Assign_tx U now i k reason inc) (\<lambda>_. idle_db)"
    "triple idle_db (Resolve_tx U now i reason inc) (\<lambda>_. idle_db)" for c n tp sp i k reason inc
    unfolding Create_tx_def TransitionStatus_tx_def Sync_tx_def Let_def prod.case Assign_tx_def Resolve_tx_def
      AssetVersionRepo_Create_def SKURepo_SetCurrentVersion_def IncidentRepo_UpdateStatus_def
    by (auto intro!: idle_unit idle_rules idle_stmt idle_exec)
  have ex: "keeps idle_db (IncidentRepo_Assign now i k)" "keeps idle_db (IncidentRepo_Resolve now i k)"
    "keeps idle_db (PolicyRepo_Upsert now c n k)" for i k c n
    unfolding IncidentRepo_Assign_def IncidentRepo_Resolve_def PolicyRepo_Upsert_def
    by (auto intro!: keeps_exec simp: idle_db_def)
  show ?thesis using assms
    by (cases r) (auto dest!: adm [rotated] intro!: keeps_RunInTx tx ex idle_Submit_tx)
qed

lemma idle_oldest: "idle_db d \<Longrightarrow> oldest_pending d = None"
  using oldest_pending_some [of d] by (cases "oldest_pending d") (force simp: idle_db_def)+

lemma idle_pull:
  assumes "idle_db (wdb w)"
  shows "wdb (snd (PullPending U now a l w)) = wdb w \<and> (\<forall>x. fst (PullPending U now a l w) = Inr x \<longrightarrow> x = None)"
proof (cases "PullPending U now a l w")
  case (Pair v w')
  show ?thesis
  proof (cases v)
    case (Inl e)
    with Pair show ?thesis by (auto simp: PullPending_def dest!: RunInTx_failure)
  next
    case (Inr x)
    with PullPending_ok [of U now a l w x w'] Pair idle_oldest [OF assms] show ?thesis by simp
  qed
qed

lemma idle_no_attempt: "idle_db (wdb w) \<Longrightarrow> current_attempt a w = (v, w') \<Longrightarrow> \<exists>e. v = Inl e"
  by (cases v) (auto dest!: current_attempt_ok simp: holds_def idle_db_def)

lemma idle_reads:
  "idle_db d \<Longrightarrow> expired_jobs now d = []" "idle_db d \<Longrightarrow> due_jobs now d = []" "idle_db d \<Longrightarrow> verify_jobs d = []"
  by (auto simp: idle_db_def expired_jobs_def due_jobs_def verify_jobs_def)

definition idle_sound :: "(kworld \<Rightarrow> pending list \<times> kworld) \<Rightarrow> bool" where
  "idle_sound f \<longleftrightarrow> (\<forall>w ps w'. idle_db (wdb w) \<longrightarrow> f w = (ps, w') \<longrightarrow> idle_db (wdb w') \<and> (\<forall>q \<in> set ps. idle_req q))"

lemma idle_read:
  assumes "keeps idle_db m" "\<And>w x v. idle_db (wdb w) \<Longrightarrow> m w = (Inr x, v) \<Longrightarrow> \<forall>q \<in> set (nxt x). idle_req q"
  shows "idle_sound (admit m nxt)"
  using assms unfolding idle_sound_def admit_def keeps_def by (auto split: prod.splits sum.splits; metis snd_conv)

lemma idle_pull_keeps: "keeps idle_db (PullPending U now a l)"
  using idle_pull by (simp add: keeps_def)

lemma idle_start: "idle_sound (start resolves U now c)"
proof (cases c)
  case (CPull a l)
  show ?thesis unfolding CPull start.simps
    by (rule idle_read [OF idle_pull_keeps]) (auto dest!: idle_pull [where U = U and now = now and a = a and l = l])
next
  case (CHeartbeat a l)
  show ?thesis unfolding CHeartbeat start.simps
    by (rule idle_read [OF keeps_bnd [OF current_attempt_keeps]]) (auto simp: bnd_eq_Inr dest: idle_no_attempt)
next
  case (CAck p)
  show ?thesis unfolding CAck start.simps
    by (rule idle_read [OF current_attempt_keeps]) (auto dest: idle_no_attempt)
qed (auto intro!: idle_read keeps_bnd keeps_infra_query TransitionStatus_preflight_keeps Submit_preflight_keeps
        Sync_preflight_keeps incident_preflight_keeps found_keeps dest!: query_success split: sum.splits
        simp: SKURepo_GetBySKUCode_def PolicyRepo_GetByID_def idle_reads)

interpretation idle: inductive_invariant idle_init "kstep resolves U" idle_inv for resolves U
proof unfold_locales
  fix s assume "idle_init s"
  then show "idle_inv s" by (auto simp: idle_init_def idle_inv_def idle_db_def ksys_init_def kernel.inv_init)
next
  fix s t assume inv: "idle_inv s" and st: "kstep resolves U s t"
  have "ksys_inv t" using inv kernel.inv_step [OF _ st] by (simp add: idle_inv_def)
  moreover from st have "idle_db (kdb_of t) \<and> (\<forall>r \<in> set (inflight t). idle_req r)"
  proof cases
    case (enter now c fs ps w)
    with idle_start [of resolves U now c, unfolded idle_sound_def, rule_format, OF _ enter(2)] inv show ?thesis
      by (auto simp: idle_inv_def)
  next
    case (work r now f2i fs ps w)
    have "ready (next_sku (kdb_of s)) r" "idle_req r" "idle_db (kdb_of s)" using inv work(2) by (simp_all add: idle_inv_def ksys_inv_def)
    with idle_perform [OF _ _ _ work(3)] work(1) inv show ?thesis
      using set_remove1_subset [of r "inflight s"] by (auto simp: idle_inv_def)
  next
    case (crash r)
    with inv show ?thesis using set_remove1_subset [of r "inflight s"] by (auto simp: idle_inv_def)
  qed
  ultimately show "idle_inv t" by (simp add: idle_inv_def)
qed

text \<open>
  (C32) Distribution never starts. In every state the kernel reaches from a consistent database without jobs,
  every job is still PendingVerify, and a pull by any agent returns no job. The transition
  from Approved_PendingVerify on does not release the jobs that were created for it.
\<close>

theorem jobs_are_never_released:
  assumes "reach idle_init (kstep resolves U) s"
  shows "(\<forall>j \<in> set (distribution_jobs (kdb_of s)). Job_Status j = JobStatusPendingVerify) \<and>
    (\<forall>asFloat now agentID fs r. fst (PullJob asFloat U now agentID \<lparr>wdb = kdb_of s, faults = fs\<rparr>) = Inr r \<longrightarrow> r = None)"
proof -
  have i: "idle_db (kdb_of s)" using idle.reach_inv [OF assms] by (simp add: idle_inv_def)
  have "r = None" if run: "fst (PullJob asFloat U now agentID \<lparr>wdb = kdb_of s, faults = fs\<rparr>) = Inr r" for asFloat now agentID fs r
  proof -
    let ?w = "\<lparr>wdb = kdb_of s, faults = fs\<rparr>"
    obtain w' where "PullJob asFloat U now agentID ?w = (Inr r, w')" using run by (metis prod.collapse)
    then obtain lease w1 x w2 where l: "jobLeaseDuration asFloat ?w = (Inr lease, w1)"
      and p: "infra (PullPending U now agentID lease) w1 = (Inr x, w2)" and r: "x = None \<Longrightarrow> r = None"
      unfolding PullJob_def by (fastforce simp: bnd_eq_Inr split: if_splits)
    have "idle_db (wdb w1)" using jobLeaseDuration_ok [OF l] i by simp
    from idle_pull [OF this, of U now agentID lease] p have "x = None" by (simp add: map_err_eq_Inr)
    with r show ?thesis by simp
  qed
  with i show ?thesis by (simp add: idle_db_def)
qed

text \<open>One approval of audit stage B, which creates a job.\<close>

definition approved_kdb :: kdb where
  "approved_kdb = wdb (snd (Submit example_uuid 9 5 approve_params (quiet audit_kdb)))"

lemma approved_kdb_jobs: "map Job_Target (distribution_jobs approved_kdb) = [''w'']"
proof -
  have "List.find (\<lambda>x. AA_AssetVerID x = AS_AssetVersionID approve_params \<and> AA_Stage x = AS_Stage approve_params)
      (audit_actions (wdb (quiet audit_kdb))) = None" by (simp add: audit_kdb_def empty_kdb_def)
  from Submit_runs [OF example_uuid_inj _ _ _ approve_preflight this, of 2 9 5] audit_kdb_kinv audit_kdb_fresh
  have "nolog approved_kdb = submit_spec 9 5 approve_params approve_plan (nolog audit_kdb)"
    by (auto simp: approved_kdb_def at_def)
  from arg_cong [OF this, of distribution_jobs] show ?thesis
    by (simp add: submit_spec_def ins_job_def with_action_def approve_plan_def new_job_def audit_kdb_def empty_kdb_def)
qed

lemma approved_kdb_reach: "reach idle_init (kstep True example_uuid) \<lparr>kdb_of = approved_kdb, inflight = []\<rparr>"
proof -
  let ?s0 = "\<lparr>kdb_of = audit_kdb, inflight = []\<rparr>"
  have "idle_init ?s0" using audit_kdb_kinv by (auto simp: idle_init_def ksys_init_def) (simp_all add: audit_kdb_def empty_kdb_def)
  moreover have "(kstep True example_uuid)\<^sup>*\<^sup>* ?s0 \<lparr>kdb_of = approved_kdb, inflight = []\<rparr>"
    using run_Submit [of True example_uuid 9 5 approve_params, unfolded is_run_def, rule_format, of "quiet audit_kdb" "[]"]
    by (simp add: approved_kdb_def)
  ultimately show ?thesis by (meson reach_steps reach.intros)
qed

theorem jobs_are_never_released_witness:
  "reach idle_init (kstep True example_uuid) \<lparr>kdb_of = approved_kdb, inflight = []\<rparr> \<and>
   map Job_Target (distribution_jobs approved_kdb) = [''w''] \<and>
   list_all (\<lambda>j. Job_Status j = JobStatusPendingVerify) (distribution_jobs approved_kdb)"
  using jobs_are_never_released [OF approved_kdb_reach] approved_kdb_reach approved_kdb_jobs by (simp add: list_all_iff)

end
