(* ===== verification/Event_Dispatcher.thy ===== *)
theory Event_Dispatcher
  imports Audit_Service "HOL-Library.Char_ord" "HOL-Library.List_Lexorder" "HOL-Library.Product_Lexorder"
begin

section \<open>The event dispatcher\<close>

text \<open>
  \<^verbatim>\<open>src/workers/event_dispatcher.go\<close>: tail the event log behind a cursor kept in Redis and publish each event
  to the channel of its SKU. The state is the event log, the cursor's string under its Redis key, and
  the messages published so far (channel \<^verbatim>\<open>ws:sku:<id>\<close> is named by the id). A Redis command may fail like
  an SQL statement. The cursor's time is written with \<^verbatim>\<open>Format\<close> and read with \<^verbatim>\<open>Parse\<close> under the
  layout \<^verbatim>\<open>RFC3339Nano\<close>; these two library functions are the parameters \<open>fmtT\<close> and \<open>parseT\<close>.

  \<^verbatim>\<open>dispatch\<close> calls itself while full batches of 100 come; \<open>fuel\<close> bounds the calls and \<open>None\<close> says that it ran
  out. \<open>dispatch_drains_log\<close> shows how much is enough.
\<close>

record rdb =
  r_events :: "EventLog list"
  r_cursor :: "string option"
  r_published :: "(id \<times> EventLog) list"

type_synonym 'a ract = "(rdb, db_error, 'a) act"

definition split_bar :: "string \<Rightarrow> (string \<times> string) option" where
  "split_bar s = (case dropWhile (\<lambda>c. c \<noteq> CHR ''|'') s of
     [] \<Rightarrow> None
   | _ # rest \<Rightarrow> Some (takeWhile (\<lambda>c. c \<noteq> CHR ''|'') s, rest))"

definition parse_cursor :: "(string \<Rightarrow> time option) \<Rightarrow> string option \<Rightarrow> time \<times> string" where
  "parse_cursor parseT r =
     (case r of
        None \<Rightarrow> (zero_time, [])
      | Some s \<Rightarrow> (case split_bar s of
          None \<Rightarrow> (zero_time, [])
        | Some (a, b) \<Rightarrow> (case parseT a of None \<Rightarrow> (zero_time, []) | Some t \<Rightarrow> (t, b))))"

definition loadCursor :: "(string \<Rightarrow> time option) \<Rightarrow> (time \<times> string) ract" where
  "loadCursor parseT = bnd (query r_cursor) (\<lambda>r. ret (parse_cursor parseT r))"

abbreviation ev_key :: "EventLog \<Rightarrow> time \<times> string" where
  "ev_key e \<equiv> (EL_CreatedAt e, EL_ID e)"

definition events_after :: "time \<times> string \<Rightarrow> EventLog list \<Rightarrow> EventLog list" where
  "events_after c es = sort_key ev_key (filter (\<lambda>e. EL_CreatedAt e > fst c \<or> EL_CreatedAt e = fst c \<and> EL_ID e > snd c) es)"

definition publish :: "EventLog \<Rightarrow> unit ract" where
  "publish e = exec (\<lambda>d. d\<lparr>r_published := r_published d @ [(EL_SKUID e, e)]\<rparr>)"

fun dispatch :: "nat \<Rightarrow> (time \<Rightarrow> string) \<Rightarrow> (string \<Rightarrow> time option) \<Rightarrow> unit option ract" where
  "dispatch 0 fmtT parseT = ret None"
| "dispatch (Suc fuel) fmtT parseT =
     bnd (loadCursor parseT) (\<lambda>cursor.
     bnd (query (\<lambda>d. take 100 (events_after cursor (r_events d)))) (\<lambda>events.
       if events = [] then ret (Some ())
       else
         bnd (for_each publish events) (\<lambda>_.
         let lst = List.last events; cursorStr = fmtT (EL_CreatedAt lst) @ ''|'' @ EL_ID lst in
         bnd (exec (\<lambda>d. d\<lparr>r_cursor := Some cursorStr\<rparr>)) (\<lambda>_.
           if length events = 100 then dispatch fuel fmtT parseT else ret (Some ())))))"

subsection \<open>Batches\<close>

text \<open>About any list sorted strictly by a key.\<close>

lemma strict_later:
  fixes k :: "'a \<Rightarrow> 'b :: linorder"
  assumes "sorted_wrt (\<lambda>a b. k a < k b) xs" "n < length xs"
  shows "filter (\<lambda>e. k (xs ! n) < k e) xs = drop (Suc n) xs"
  using assms
proof (induction xs arbitrary: n)
  case Nil
  then show ?case by simp
next
  case (Cons x xs)
  show ?case
  proof (cases n)
    case 0
    then show ?thesis using Cons.prems by (auto intro: filter_True)
  next
    case (Suc m)
    then have "k x < k (xs ! m)" using Cons.prems by simp
    then have "\<not> k (xs ! m) < k x" by simp
    then show ?thesis using Cons Suc by simp
  qed
qed

lemma filter_later:
  fixes k :: "'a \<Rightarrow> 'b :: linorder"
  assumes "c < b"
  shows "filter (\<lambda>e. b < k e) (filter (\<lambda>e. c < k e) es) = filter (\<lambda>e. b < k e) es"
  using assms unfolding filter_filter by (intro filter_cong) auto

lemma events_after_key: "events_after c es = sort_key ev_key (filter (\<lambda>e. c < ev_key e) es)"
proof -
  have "(EL_CreatedAt e > fst c \<or> EL_CreatedAt e = fst c \<and> EL_ID e > snd c) = (c < ev_key e)" for e
    by (cases c) (auto simp: less_prod_def')
  then show ?thesis by (simp add: events_after_def)
qed

lemma events_after_strict:
  assumes "distinct (map EL_ID es)"
  shows "sorted_wrt (\<lambda>a b. ev_key a < ev_key b) (events_after c es)"
proof -
  let ?xs = "events_after c es"
  have "distinct (map EL_ID ?xs)"
    using assms by (auto simp: events_after_def distinct_map intro: inj_on_subset)
  then have "distinct (map ev_key ?xs)" by (auto simp: distinct_map inj_on_def)
  moreover have "sorted (map ev_key ?xs)" by (simp add: events_after_def)
  ultimately have "sorted_wrt (<) (map ev_key ?xs)" by (simp add: strict_sorted_iff)
  then show ?thesis by (simp add: sorted_wrt_map)
qed

text \<open>The query after a batch of \<open>n + 1\<close> finds the rest.\<close>

lemma events_after_next:
  assumes "distinct (map EL_ID es)" "n < length (events_after c es)"
  shows "events_after (ev_key (events_after c es ! n)) es = drop (Suc n) (events_after c es)"
proof -
  let ?xs = "events_after c es" let ?k = "ev_key (?xs ! n)"
  have "?xs ! n \<in> set ?xs" using assms(2) by simp
  then have "c < ?k" by (simp only: events_after_key set_sort set_filter mem_Collect_eq)
  then have "events_after ?k es = filter (\<lambda>e. ?k < ev_key e) ?xs"
    unfolding events_after_key filter_sort by (simp only: filter_later [where k = ev_key])
  then show ?thesis using strict_later [OF events_after_strict [OF assms(1)] assms(2)] by simp
qed

subsection \<open>A dispatch without faults\<close>

text \<open>The cursor string stands for this point of the log.\<close>

definition cursor_at :: "(string \<Rightarrow> time option) \<Rightarrow> rdb \<Rightarrow> time \<times> string" where
  "cursor_at parseT d = parse_cursor parseT (r_cursor d)"

definition times_ok :: "(time \<Rightarrow> string) \<Rightarrow> (string \<Rightarrow> time option) \<Rightarrow> EventLog list \<Rightarrow> bool" where
  "times_ok fmtT parseT es \<longleftrightarrow> (\<forall>e \<in> set es. parseT (fmtT (EL_CreatedAt e)) = Some (EL_CreatedAt e) \<and>
     CHR ''|'' \<notin> set (fmtT (EL_CreatedAt e)))"

lemma split_bar_mk: "CHR ''|'' \<notin> set a \<Longrightarrow> split_bar (a @ ''|'' @ b) = Some (a, b)"
  unfolding split_bar_def by (subst dropWhile_append2, force)+ (simp add: takeWhile_tail [where P = "\<lambda>c. c \<noteq> CHR ''|''"], force)

lemma cursor_back:
  assumes "times_ok fmtT parseT es" "e \<in> set es"
  shows "parse_cursor parseT (Some (fmtT (EL_CreatedAt e) @ ''|'' @ EL_ID e)) = ev_key e"
proof -
  have "split_bar (fmtT (EL_CreatedAt e) @ ''|'' @ EL_ID e) = Some (fmtT (EL_CreatedAt e), EL_ID e)"
    by (rule split_bar_mk) (use assms in \<open>auto simp: times_ok_def\<close>)
  then show ?thesis using assms by (simp add: parse_cursor_def times_ok_def)
qed

lemma publish_all:
  assumes "faults w = []"
  shows "for_each publish es w = (Inr (), w\<lparr>wdb := (wdb w)\<lparr>r_published := r_published (wdb w) @ map (\<lambda>e. (EL_SKUID e, e)) es\<rparr>\<rparr>)"
  using assms
proof (induction es arbitrary: w)
  case Nil
  then show ?case by (simp add: act_simps)
next
  case (Cons e es)
  then show ?case by (simp add: bnd_def publish_def exec_nofault)
qed

definition after_batch :: "(time \<Rightarrow> string) \<Rightarrow> EventLog list \<Rightarrow> rdb \<Rightarrow> rdb" where
  "after_batch fmtT es d = d\<lparr>r_published := r_published d @ map (\<lambda>e. (EL_SKUID e, e)) es,
     r_cursor := Some (fmtT (EL_CreatedAt (last es)) @ ''|'' @ EL_ID (last es))\<rparr>"

lemma dispatch_step:
  assumes "faults w = []"
  shows "dispatch (Suc fuel) fmtT parseT w =
    (let es = take 100 (events_after (cursor_at parseT (wdb w)) (r_events (wdb w))) in
     if es = [] then (Inr (Some ()), w)
     else if length es = 100 then dispatch fuel fmtT parseT (w\<lparr>wdb := after_batch fmtT es (wdb w)\<rparr>)
     else (Inr (Some ()), w\<lparr>wdb := after_batch fmtT es (wdb w)\<rparr>))"
  using assms
  by (simp add: loadCursor_def bnd_def query_nofault cursor_at_def ret_def publish_all exec_nofault after_batch_def Let_def)

lemma last_take: "xs \<noteq> [] \<Longrightarrow> last (take (Suc n) xs) = xs ! (min (Suc n) (length xs) - 1)"
  by (subst last_conv_nth) (auto simp: min_def)

lemma dispatch_run:
  assumes "faults w = []" "distinct (map EL_ID (r_events (wdb w)))" "times_ok fmtT parseT (r_events (wdb w))"
    "length (events_after (cursor_at parseT (wdb w)) (r_events (wdb w))) < 100 * fuel"
  shows "\<exists>w'. dispatch fuel fmtT parseT w = (Inr (Some ()), w') \<and> r_events (wdb w') = r_events (wdb w) \<and>
    r_published (wdb w') = r_published (wdb w) @
      map (\<lambda>e. (EL_SKUID e, e)) (events_after (cursor_at parseT (wdb w)) (r_events (wdb w))) \<and>
    events_after (cursor_at parseT (wdb w')) (r_events (wdb w)) = []"
  using assms
proof (induction fuel arbitrary: w)
  case 0
  then show ?case by simp
next
  case (Suc fuel)
  let ?es = "r_events (wdb w)"
  let ?xs = "events_after (cursor_at parseT (wdb w)) ?es"
  let ?b = "take 100 ?xs" and ?w = "w\<lparr>wdb := after_batch fmtT (take 100 ?xs) (wdb w)\<rparr>"
  show ?case
  proof (cases "?xs = []")
    case True
    then show ?thesis using Suc.prems(1) by (simp add: dispatch_step del: dispatch.simps)
  next
    case False
    let ?n = "min 100 (length ?xs) - 1"
    have n: "?n < length ?xs" "Suc ?n = length ?b" using False by (cases "length ?xs"; auto simp: min_def)+
    have l: "last ?b = ?xs ! ?n" using last_take [OF False, of 99] by simp
    have "?xs ! ?n \<in> set ?es" using nth_mem [OF n(1)] by (simp add: events_after_def)
    from cursor_back [OF Suc.prems(3) this] have "cursor_at parseT (wdb ?w) = ev_key (?xs ! ?n)"
      unfolding cursor_at_def [of _ "wdb ?w"] l [symmetric] by (simp add: after_batch_def)
    then have rest: "events_after (cursor_at parseT (wdb ?w)) ?es = drop (length ?b) ?xs"
      using events_after_next [OF Suc.prems(2) n(1)] n(2) by simp
    have pub: "r_published (wdb ?w) = r_published (wdb w) @ map (\<lambda>e. (EL_SKUID e, e)) ?b" "r_events (wdb ?w) = ?es"
      by (simp_all add: after_batch_def)
    show ?thesis
    proof (cases "length ?b = 100")
      case True
      then have "dispatch (Suc fuel) fmtT parseT w = dispatch fuel fmtT parseT ?w"
        unfolding dispatch_step [OF Suc.prems(1)] Let_def by (simp only: if_True) (simp add: False)
      moreover have "length (drop (length ?b) ?xs) < 100 * fuel" using Suc.prems(4) True by simp
      ultimately show ?thesis using Suc.IH [of ?w] Suc.prems(1-3) pub rest
        by (auto simp del: length_take) (metis append_take_drop_id map_append True)+
    next
      case F: False
      then have "dispatch (Suc fuel) fmtT parseT w = (Inr (Some ()), ?w)"
        unfolding dispatch_step [OF Suc.prems(1)] Let_def by (simp only: if_False) (simp add: False)
      moreover have "?b = ?xs" using F by simp
      ultimately show ?thesis using pub rest by auto
    qed
  qed
qed

text \<open>
  (C35) A dispatch drains the log. With no failing command, a log with unique event ids, and times that survive
  being written and read back, \<open>dispatch\<close> ends, after at most one call per 100 events (plus one); it has
  published every event behind the cursor exactly once, in the order of creation time and then id, and
  left the cursor where nothing is behind it.
\<close>

theorem dispatch_drains_log:
  assumes "faults w = []" "distinct (map EL_ID (r_events (wdb w)))" "times_ok fmtT parseT (r_events (wdb w))"
    "length (r_events (wdb w)) < 100 * fuel"
  shows "\<exists>w'. dispatch fuel fmtT parseT w = (Inr (Some ()), w') \<and>
    r_published (wdb w') = r_published (wdb w) @
      map (\<lambda>e. (EL_SKUID e, e)) (events_after (cursor_at parseT (wdb w)) (r_events (wdb w))) \<and>
    events_after (cursor_at parseT (wdb w')) (r_events (wdb w')) = []"
proof -
  have "length (events_after (cursor_at parseT (wdb w)) (r_events (wdb w))) < 100 * fuel"
    unfolding events_after_key length_sort by (rule le_less_trans [OF length_filter_le assms(4)])
  from dispatch_run [OF assms(1-3) this] show ?thesis by auto
qed

text \<open>Two events of one SKU written in one instant; the random id of the first is the greater one.\<close>

definition tie_events :: "EventLog list" where
  "tie_events = [\<lparr>EL_ID = ''b'', EL_SKUID = 1, EL_Sequence = 1, EL_EventType = EventJobCreated, EL_Payload = [], EL_CreatedAt = 7\<rparr>,
     \<lparr>EL_ID = ''a'', EL_SKUID = 1, EL_Sequence = 2, EL_EventType = EventJobCreated, EL_Payload = [], EL_CreatedAt = 7\<rparr>]"

definition tie_world :: "rdb world" where
  "tie_world = \<lparr>wdb = \<lparr>r_events = tie_events, r_cursor = None, r_published = []\<rparr>, faults = []\<rparr>"

text \<open>Times in unary, as a concrete pair of \<open>fmtT\<close> and \<open>parseT\<close>.\<close>

definition unary :: "time \<Rightarrow> string" where
  "unary t = replicate (nat t) CHR ''1''"

definition of_unary :: "string \<Rightarrow> time option" where
  "of_unary s = Some (int (length s))"

lemma tie_events_after: "events_after (cursor_at of_unary (wdb tie_world)) tie_events = rev tie_events"
  by (simp add: events_after_def cursor_at_def parse_cursor_def tie_world_def tie_events_def)

lemma tie_times: "times_ok unary of_unary tie_events"
  by (simp add: times_ok_def tie_events_def unary_def of_unary_def)

theorem dispatch_drains_log_witness:
  "\<exists>w'. dispatch 1 unary of_unary tie_world = (Inr (Some ()), w') \<and>
     r_published (wdb w') = map (\<lambda>e. (EL_SKUID e, e)) (rev tie_events) \<and> length (r_published (wdb w')) = 2"
proof -
  have e: "r_events (wdb tie_world) = tie_events" "r_published (wdb tie_world) = []" "faults tie_world = []"
    by (simp_all add: tie_world_def)
  have d: "distinct (map EL_ID tie_events)" "length tie_events = 2" by (simp_all add: tie_events_def)
  from dispatch_drains_log [of tie_world unary of_unary 1, unfolded e] d tie_times tie_events_after show ?thesis
    by (auto simp del: dispatch.simps)
qed

text \<open>
  The order of creation time and id is not the order of sequence numbers: events of one transaction get times
  of one instant or so and random ids, so a client that relies on increasing numbers sees a gap and then
  an old event.
\<close>

theorem dispatch_may_reorder:
  "\<exists>w'. dispatch 1 unary of_unary tie_world = (Inr (Some ()), w') \<and>
     map (\<lambda>m. EL_Sequence (snd m)) (r_published (wdb w')) = [2, 1]"
proof -
  have e: "r_events (wdb tie_world) = tie_events" "r_published (wdb tie_world) = []" "faults tie_world = []"
    by (simp_all add: tie_world_def)
  have d: "distinct (map EL_ID tie_events)" "length tie_events = 2" by (simp_all add: tie_events_def)
  have len: "length (events_after (cursor_at of_unary (wdb tie_world)) tie_events) < 100 * 1"
    unfolding tie_events_after using d(2) by simp
  have q: "map (\<lambda>m. EL_Sequence (snd m)) (map (\<lambda>e. (EL_SKUID e, e)) (rev tie_events)) = [2, 1]"
    by (simp add: tie_events_def)
  obtain w' where "dispatch 1 unary of_unary tie_world = (Inr (Some ()), w')"
    and p: "r_published (wdb w') = map (\<lambda>e. (EL_SKUID e, e)) (rev tie_events)"
    using dispatch_run [OF e(3), unfolded e(1,2), OF d(1) tie_times len] unfolding tie_events_after append_Nil by blast
  moreover have "map (\<lambda>m. EL_Sequence (snd m)) (r_published (wdb w')) = [2, 1]" unfolding p by (rule q)
  ultimately show ?thesis by (intro exI conjI)
qed

end
