(* ===== verification/Module_Domain.thy ===== *)
theory Module_Domain
  imports Tx_Monad
begin

section \<open>Data of the task module engine\<close>

text \<open>
  The types of \<^verbatim>\<open>src/domain\<close> the module engine works on (\<^verbatim>\<open>module_state.go\<close>,
  \<^verbatim>\<open>module_event.go\<close>, \<^verbatim>\<open>module_runtime.go\<close>, \<^verbatim>\<open>workflow_blueprints.go\<close>, \<^verbatim>\<open>deny_code.go\<close>,
  \<^verbatim>\<open>enums_v7.go\<close>, \<^verbatim>\<open>task.go\<close>, \<^verbatim>\<open>rbac_placeholder.go\<close>, \<^verbatim>\<open>frontend_access.go\<close>), and the three
  tables it keeps. States and task types are datatypes with the source's constants (a task type
  read from the database may be any string); module keys, actions, teams, roles and event types
  stay strings, because requests supply them and the code compares them as strings. Chinese names
  are their UTF-8 bytes. Of \<^verbatim>\<open>Task\<close>, \<^verbatim>\<open>RequestActor\<close> and \<^verbatim>\<open>FrontendAccessView\<close> the records
  keep the fields the engine reads or writes.
\<close>

named_theorems module_names \<open>the constants of the module engine, unfolded for evaluation\<close>

subsection \<open>Enumerations\<close>

datatype ModuleState = ModuleStateActive | ModuleStatePendingClaim | ModuleStateInProgress
  | ModuleStateSubmitted | ModuleStateApproved | ModuleStateRejected | ModuleStateClosed
  | ModuleStateForciblyClosed | ModuleStateClosedByAdmin | ModuleStatePending
  | ModuleStatePreparing | ModuleStateReceived | ModuleStateCompleted | ModuleStateReview

fun Terminal :: "ModuleState \<Rightarrow> bool" where
  "Terminal ModuleStateClosed = True"
| "Terminal ModuleStateForciblyClosed = True"
| "Terminal ModuleStateClosedByAdmin = True"
| "Terminal ModuleStateCompleted = True"
| "Terminal _ = False"

lemma Terminal_iff:
  "Terminal s \<longleftrightarrow> s \<in> {ModuleStateClosed, ModuleStateForciblyClosed, ModuleStateClosedByAdmin,
     ModuleStateCompleted}"
  by (cases s) auto

datatype TaskStatus = TaskStatusDraft | TaskStatusPendingAssign | TaskStatusAssigned
  | TaskStatusInProgress | TaskStatusPendingAuditA | TaskStatusRejectedByAuditA
  | TaskStatusPendingAuditB | TaskStatusRejectedByAuditB | TaskStatusPendingOutsource
  | TaskStatusOutsourcing | TaskStatusPendingOutsourceReview
  | TaskStatusPendingCustomizationReview | TaskStatusPendingCustomizationProduction
  | TaskStatusPendingEffectReview | TaskStatusPendingEffectRevision
  | TaskStatusPendingProductionTransfer | TaskStatusPendingWarehouseQC
  | TaskStatusRejectedByWarehouse | TaskStatusPendingWarehouseReceive | TaskStatusPendingClose
  | TaskStatusCompleted | TaskStatusArchived | TaskStatusBlocked | TaskStatusCancelled

datatype TaskType = TaskTypeOriginalProductDevelopment | TaskTypeNewProductDevelopment
  | TaskTypePurchaseTask | TaskTypeRetouchTask | TaskTypeCustomerCustomization
  | TaskTypeRegularCustomization | TaskTypeOther string

fun tt_string :: "TaskType \<Rightarrow> string" where
  "tt_string TaskTypeOriginalProductDevelopment = ''original_product_development''"
| "tt_string TaskTypeNewProductDevelopment = ''new_product_development''"
| "tt_string TaskTypePurchaseTask = ''purchase_task''"
| "tt_string TaskTypeRetouchTask = ''retouch_task''"
| "tt_string TaskTypeCustomerCustomization = ''customer_customization''"
| "tt_string TaskTypeRegularCustomization = ''regular_customization''"
| "tt_string (TaskTypeOther s) = s"

definition V1TaskTypes :: "TaskType list" where
  "V1TaskTypes = [TaskTypeOriginalProductDevelopment, TaskTypeNewProductDevelopment,
     TaskTypePurchaseTask, TaskTypeRetouchTask, TaskTypeCustomerCustomization,
     TaskTypeRegularCustomization]"

datatype WorkflowLane = WorkflowLaneNormal | WorkflowLaneCustomization

abbreviation "TaskBusinessLaneNormal \<equiv> ''normal''"
abbreviation "TaskBusinessLaneCustomization \<equiv> ''customization''"

definition TaskBusinessLane_Valid :: "string \<Rightarrow> bool" where
  "TaskBusinessLane_Valid l \<longleftrightarrow> l = TaskBusinessLaneNormal \<or> l = TaskBusinessLaneCustomization"

definition TaskBusinessLane_WorkflowLane :: "string \<Rightarrow> WorkflowLane" where
  "TaskBusinessLane_WorkflowLane l =
     (if l = TaskBusinessLaneCustomization then WorkflowLaneCustomization else WorkflowLaneNormal)"

definition TaskBusinessLaneFromLegacy :: "bool \<Rightarrow> string" where
  "TaskBusinessLaneFromLegacy customizationRequired =
     (if customizationRequired then TaskBusinessLaneCustomization else TaskBusinessLaneNormal)"

definition TaskBusinessLaneFromWorkflowLane :: "WorkflowLane \<Rightarrow> string" where
  "TaskBusinessLaneFromWorkflowLane lane =
     (case lane of WorkflowLaneCustomization \<Rightarrow> TaskBusinessLaneCustomization
      | WorkflowLaneNormal \<Rightarrow> TaskBusinessLaneNormal)"

definition WorkflowLaneFromCustomizationRequired :: "bool \<Rightarrow> WorkflowLane" where
  "WorkflowLaneFromCustomizationRequired customizationRequired =
     (if customizationRequired then WorkflowLaneCustomization else WorkflowLaneNormal)"

definition NormalizeTaskBusinessLane :: "string \<Rightarrow> bool \<Rightarrow> string" where
  "NormalizeTaskBusinessLane lane customizationRequired =
     (let normalized = TrimSpace lane in
      if TaskBusinessLane_Valid normalized then normalized
      else TaskBusinessLaneFromLegacy customizationRequired)"

lemma NormalizeTaskBusinessLane_cases:
  "NormalizeTaskBusinessLane l c = TaskBusinessLaneNormal \<or>
   NormalizeTaskBusinessLane l c = TaskBusinessLaneCustomization"
  by (simp add: NormalizeTaskBusinessLane_def TaskBusinessLane_Valid_def
      TaskBusinessLaneFromLegacy_def Let_def)

lemma lane_roundtrip: "TaskBusinessLane_WorkflowLane (TaskBusinessLaneFromWorkflowLane lane) = lane"
  by (cases lane) (simp_all add: TaskBusinessLane_WorkflowLane_def TaskBusinessLaneFromWorkflowLane_def)

subsection \<open>Names\<close>

abbreviation "ModuleKeyBasicInfo \<equiv> ''basic_info''"
abbreviation "ModuleKeyDesign \<equiv> ''design''"
abbreviation "ModuleKeyAudit \<equiv> ''audit''"
abbreviation "ModuleKeyWarehouse \<equiv> ''warehouse''"
abbreviation "ModuleKeyCustomization \<equiv> ''customization''"
abbreviation "ModuleKeyProcurement \<equiv> ''procurement''"
abbreviation "ModuleKeyRetouch \<equiv> ''retouch''"

abbreviation "ModuleActionClaim \<equiv> ''claim''"
abbreviation "ModuleActionSubmit \<equiv> ''submit''"
abbreviation "ModuleActionApprove \<equiv> ''approve''"
abbreviation "ModuleActionReject \<equiv> ''reject''"
abbreviation "ModuleActionReassign \<equiv> ''reassign''"
abbreviation "ModuleActionPoolReassign \<equiv> ''pool_reassign''"
abbreviation "ModuleActionAssetUploadSessionCreate \<equiv> ''asset_upload_session_create''"
abbreviation "ModuleActionUpdateReferenceFiles \<equiv> ''update_reference_files''"
abbreviation "ModuleActionUpdateBasicInfo \<equiv> ''update_basic_info''"
abbreviation "ModuleActionUpdateDeadline \<equiv> ''update_deadline''"
abbreviation "ModuleActionUpdatePriority \<equiv> ''update_priority''"
abbreviation "ModuleActionCancelTask \<equiv> ''cancel_task''"

abbreviation "ModuleEventEntered \<equiv> ''entered''"
abbreviation "ModuleEventClaimed \<equiv> ''claimed''"
abbreviation "ModuleEventSubmitted \<equiv> ''submitted''"
abbreviation "ModuleEventApproved \<equiv> ''approved''"
abbreviation "ModuleEventRejected \<equiv> ''rejected''"
abbreviation "ModuleEventReopened \<equiv> ''reopened''"
abbreviation "ModuleEventClosed \<equiv> ''closed''"
abbreviation "ModuleEventReceived \<equiv> ''received''"
abbreviation "ModuleEventCompleted \<equiv> ''completed''"
abbreviation "ModuleEventTaskCancelled \<equiv> ''task_cancelled''"
abbreviation "ModuleEventForciblyClosed \<equiv> ''forcibly_closed''"
abbreviation "ModuleEventReferenceFilesUpdated \<equiv> ''reference_files_updated''"

abbreviation "TeamDesignStandard \<equiv> ''design_standard''"
abbreviation "TeamDesignRetouch \<equiv> ''design_retouch''"
abbreviation "TeamAuditStandard \<equiv> ''audit_standard''"
abbreviation "TeamAuditCustomization \<equiv> ''audit_customization''"
abbreviation "TeamCustomizationArt \<equiv> ''customization_art''"
abbreviation "TeamWarehouseMain \<equiv> ''warehouse_main''"
abbreviation "TeamProcurementMain \<equiv> ''procurement_main''"

abbreviation "RoleSuperAdmin \<equiv> ''SuperAdmin''"
abbreviation "RoleDeptAdmin \<equiv> ''DepartmentAdmin''"
abbreviation "RoleTeamLead \<equiv> ''TeamLead''"
abbreviation "RoleDesigner \<equiv> ''Designer''"
abbreviation "RoleCustomizationOperator \<equiv> ''CustomizationOperator''"
abbreviation "RoleAdmin \<equiv> ''Admin''"
abbreviation "RoleMember \<equiv> ''Member''"
abbreviation "RoleHRAdmin \<equiv> ''HRAdmin''"
abbreviation "RoleOps \<equiv> ''Ops''"
abbreviation "RoleAuditA \<equiv> ''Audit_A''"
abbreviation "RoleAuditB \<equiv> ''Audit_B''"
abbreviation "RoleCustomizationReviewer \<equiv> ''CustomizationReviewer''"
abbreviation "RoleWarehouse \<equiv> ''Warehouse''"
abbreviation "RoleOrgAdmin \<equiv> ''OrgAdmin''"
abbreviation "RoleRoleAdmin \<equiv> ''RoleAdmin''"
abbreviation "RoleDesignDirector \<equiv> ''DesignDirector''"
abbreviation "RoleDesignReviewer \<equiv> ''DesignReviewer''"
abbreviation "RoleOutsource \<equiv> ''Outsource''"
abbreviation "RoleERP \<equiv> ''ERP''"

abbreviation "DenyModuleNotInstantiated \<equiv> ''module_not_instantiated''"
abbreviation "DenyModuleOutOfScope \<equiv> ''module_out_of_scope''"
abbreviation "DenyModuleStateMismatch \<equiv> ''module_state_mismatch''"
abbreviation "DenyModuleActionRoleDenied \<equiv> ''module_action_role_denied''"
abbreviation "DenyModuleClaimConflict \<equiv> ''module_claim_conflict''"
abbreviation "DenyTaskAlreadyClaimed \<equiv> ''task_already_claimed''"
abbreviation "DenyTaskNotFound \<equiv> ''task_not_found''"
abbreviation "DenyInternalError \<equiv> ''INTERNAL_ERROR''"
abbreviation "DenyReasonRequired \<equiv> ''REASON_REQUIRED''"

definition DepartmentDesignRD :: string where [module_names]:
  "DepartmentDesignRD = [CHR 0xE8, CHR 0xAE, CHR 0xBE, CHR 0xE8, CHR 0xAE, CHR 0xA1, CHR 0xE7,
     CHR 0xA0, CHR 0x94, CHR 0xE5, CHR 0x8F, CHR 0x91, CHR 0xE9, CHR 0x83, CHR 0xA8]"

definition DepartmentCustomizationArt :: string where [module_names]:
  "DepartmentCustomizationArt = [CHR 0xE5, CHR 0xAE, CHR 0x9A, CHR 0xE5, CHR 0x88, CHR 0xB6,
     CHR 0xE7, CHR 0xBE, CHR 0x8E, CHR 0xE5, CHR 0xB7, CHR 0xA5, CHR 0xE9, CHR 0x83, CHR 0xA8]"

definition DepartmentAudit :: string where [module_names]:
  "DepartmentAudit = [CHR 0xE5, CHR 0xAE, CHR 0xA1, CHR 0xE6, CHR 0xA0, CHR 0xB8, CHR 0xE9,
     CHR 0x83, CHR 0xA8]"

definition DepartmentOperations :: string where [module_names]:
  "DepartmentOperations = [CHR 0xE8, CHR 0xBF, CHR 0x90, CHR 0xE8, CHR 0x90, CHR 0xA5, CHR 0xE9,
     CHR 0x83, CHR 0xA8]"

definition DepartmentCloudWarehouse :: string where [module_names]:
  "DepartmentCloudWarehouse = [CHR 0xE4, CHR 0xBA, CHR 0x91, CHR 0xE4, CHR 0xBB, CHR 0x93,
     CHR 0xE9, CHR 0x83, CHR 0xA8]"

definition DepartmentProcurement :: string where [module_names]:
  "DepartmentProcurement = [CHR 0xE9, CHR 0x87, CHR 0x87, CHR 0xE8, CHR 0xB4, CHR 0xAD, CHR 0xE9,
     CHR 0x83, CHR 0xA8]"

text \<open>The org teams a pool of tasks is served by: default, plain, regular, custom, custom art.\<close>

definition team_default :: string where [module_names]:
  "team_default = [CHR 0xE9, CHR 0xBB, CHR 0x98, CHR 0xE8, CHR 0xAE, CHR 0xA4, CHR 0xE7, CHR 0xBB,
     CHR 0x84]"

definition team_audit_plain :: string where [module_names]:
  "team_audit_plain = [CHR 0xE6, CHR 0x99, CHR 0xAE, CHR 0xE9, CHR 0x80, CHR 0x9A, CHR 0xE5,
     CHR 0xAE, CHR 0xA1, CHR 0xE6, CHR 0xA0, CHR 0xB8, CHR 0xE7, CHR 0xBB, CHR 0x84]"

definition team_audit_regular :: string where [module_names]:
  "team_audit_regular = [CHR 0xE5, CHR 0xB8, CHR 0xB8, CHR 0xE8, CHR 0xA7, CHR 0x84, CHR 0xE5,
     CHR 0xAE, CHR 0xA1, CHR 0xE6, CHR 0xA0, CHR 0xB8, CHR 0xE7, CHR 0xBB, CHR 0x84]"

definition team_audit_custom :: string where [module_names]:
  "team_audit_custom = [CHR 0xE5, CHR 0xAE, CHR 0x9A, CHR 0xE5, CHR 0x88, CHR 0xB6, CHR 0xE5,
     CHR 0xAE, CHR 0xA1, CHR 0xE6, CHR 0xA0, CHR 0xB8, CHR 0xE7, CHR 0xBB, CHR 0x84]"

definition team_audit_custom_art :: string where [module_names]:
  "team_audit_custom_art = [CHR 0xE5, CHR 0xAE, CHR 0x9A, CHR 0xE5, CHR 0x88, CHR 0xB6, CHR 0xE7,
     CHR 0xBE, CHR 0x8E, CHR 0xE5, CHR 0xB7, CHR 0xA5, CHR 0xE5, CHR 0xAE, CHR 0xA1, CHR 0xE6,
     CHR 0xA0, CHR 0xB8, CHR 0xE7, CHR 0xBB, CHR 0x84]"

text \<open>The (department, team) pairs of a pool.\<close>

definition PoolTeamTargets :: "string \<Rightarrow> (string \<times> string) list" where
  "PoolTeamTargets poolTeamCode =
     (if poolTeamCode = TeamDesignStandard \<or> poolTeamCode = TeamDesignRetouch
        then [(DepartmentDesignRD, team_default)]
      else if poolTeamCode = TeamAuditStandard
        then [(DepartmentAudit, team_audit_plain), (DepartmentAudit, team_audit_regular)]
      else if poolTeamCode = TeamAuditCustomization
        then [(DepartmentAudit, team_audit_custom), (DepartmentAudit, team_audit_custom_art)]
      else if poolTeamCode = TeamCustomizationArt then [(DepartmentCustomizationArt, team_default)]
      else if poolTeamCode = TeamWarehouseMain then [(DepartmentCloudWarehouse, team_default)]
      else [])"

subsection \<open>Rows\<close>

text \<open>
  JSON objects as the code builds them (\<^verbatim>\<open>json.Marshal\<close> of a map), and JSON bytes passed on
  unread from a request.
\<close>

datatype jsonv = JNull | JText string | JNum int | JFlag bool | JTime time | JTexts "string list"

type_synonym jsonobj = "(string \<times> jsonv) list"

datatype rawjson = JObj jsonobj | JRaw string

record Task =
  T_ID :: id
  T_TaskNo :: string
  T_SKUCode :: string
  T_ProductNameSnapshot :: string
  T_TaskType :: TaskType
  T_OwnerTeam :: string
  T_OwnerDepartment :: string
  T_OwnerOrgTeam :: string
  T_CreatorID :: id
  T_RequesterID :: "id option"
  T_DesignerID :: "id option"
  T_CurrentHandlerID :: "id option"
  T_TaskStatus :: TaskStatus
  T_Priority :: string
  T_NeedOutsource :: bool
  T_BusinessLane :: string
  T_CustomizationRequired :: bool
  T_LastCustomizationOperatorID :: "id option"
  T_WarehouseRejectReason :: string
  T_WarehouseRejectCategory :: string
  T_SourceMode :: string
  T_ProductID :: "id option"
  T_CreatedAt :: time
  T_UpdatedAt :: time

definition Task_WorkflowLane :: "Task \<Rightarrow> WorkflowLane" where
  "Task_WorkflowLane t = TaskBusinessLane_WorkflowLane
     (NormalizeTaskBusinessLane (T_BusinessLane t) (T_CustomizationRequired t))"

record TaskModule =
  TM_ID :: id
  TM_TaskID :: id
  TM_ModuleKey :: string
  TM_State :: ModuleState
  TM_PoolTeamCode :: "string option"
  TM_ClaimedBy :: "id option"
  TM_ClaimedTeamCode :: "string option"
  TM_ClaimedAt :: "time option"
  TM_ActorOrgSnapshot :: "jsonobj option"
  TM_EnteredAt :: time
  TM_TerminalAt :: "time option"
  TM_Data :: jsonobj
  TM_UpdatedAt :: time

record TaskModuleEvent =
  TE_ID :: id
  TE_TaskModuleID :: id
  TE_EventType :: string
  TE_FromState :: "ModuleState option"
  TE_ToState :: "ModuleState option"
  TE_ActorID :: "id option"
  TE_ActorSnapshot :: jsonobj
  TE_Payload :: rawjson
  TE_CreatedAt :: time

record FrontendAccessView =
  FA_IsSuperAdmin :: bool
  FA_IsDepartmentAdmin :: bool
  FA_Department :: string
  FA_Team :: string
  FA_Roles :: "string list"
  FA_ManagedDepartments :: "string list"
  FA_ManagedTeams :: "string list"
  FA_DepartmentCodes :: "string list"
  FA_TeamCodes :: "string list"

record RequestActor =
  RA_ID :: id
  RA_Username :: string
  RA_Roles :: "string list"
  RA_Department :: string
  RA_Team :: string
  RA_ManagedDepartments :: "string list"
  RA_ManagedTeams :: "string list"
  RA_FrontendAccess :: FrontendAccessView

text \<open>\<^verbatim>\<open>permission.Decision\<close>: allowed, or denied with a code (the message only dresses the response).\<close>

datatype Decision = Allow | Deny string

subsection \<open>The database\<close>

record mdb =
  tasks :: "Task list"
  task_modules :: "TaskModule list"
  module_events :: "TaskModuleEvent list"
  next_module_id :: id
  next_module_event :: id

type_synonym 'a mact = "(mdb, db_error, 'a) act"

text \<open>
  The columns are \<^verbatim>\<open>utf8mb4_unicode_ci\<close>: SQL compares strings without case and without trailing
  blanks, unlike Go. \<open>ci_key\<close> is the form under which two strings are the same to the database
  (exact on the ASCII codes and Chinese names that occur; accents are not folded here).
\<close>

definition ci_key :: "string \<Rightarrow> string" where
  "ci_key s = map to_lower (rev (dropWhile (\<lambda>c. c = CHR 0x20) (rev s)))"

definition ci_eq :: "string \<Rightarrow> string \<Rightarrow> bool" where
  "ci_eq s t \<longleftrightarrow> ci_key s = ci_key t"

lemma ci_eq_refl [simp]: "ci_eq s s"
  by (simp add: ci_eq_def)

lemma ci_eq_sym: "ci_eq s t \<longleftrightarrow> ci_eq t s"
  by (auto simp: ci_eq_def)

text \<open>The key under which a row of \<^verbatim>\<open>task_modules\<close> is unique.\<close>

definition module_uk :: "TaskModule \<Rightarrow> id \<times> string" where
  "module_uk m = (TM_TaskID m, ci_key (TM_ModuleKey m))"

subsection \<open>A small database\<close>

text \<open>One new task without modules, and an actor: the witnesses of the module theories start here.\<close>

definition demo_task :: Task where
  "demo_task = \<lparr>T_ID = 1, T_TaskNo = ''T-1'', T_SKUCode = ''S-1'', T_ProductNameSnapshot = ''mug'',
     T_TaskType = TaskTypeNewProductDevelopment, T_OwnerTeam = [], T_OwnerDepartment = [],
     T_OwnerOrgTeam = [], T_CreatorID = 7, T_RequesterID = None, T_DesignerID = None,
     T_CurrentHandlerID = None, T_TaskStatus = TaskStatusPendingAssign, T_Priority = ''normal'',
     T_NeedOutsource = False, T_BusinessLane = ''normal'', T_CustomizationRequired = False,
     T_LastCustomizationOperatorID = None, T_WarehouseRejectReason = [], T_WarehouseRejectCategory = [],
     T_SourceMode = ''new_product'', T_ProductID = None, T_CreatedAt = 1, T_UpdatedAt = 1\<rparr>"

definition demo_module :: "id \<Rightarrow> string \<Rightarrow> ModuleState \<Rightarrow> string option \<Rightarrow> id option \<Rightarrow> TaskModule" where
  "demo_module i k st pool claimed = \<lparr>TM_ID = i, TM_TaskID = 1, TM_ModuleKey = k, TM_State = st,
     TM_PoolTeamCode = pool, TM_ClaimedBy = claimed, TM_ClaimedTeamCode = None, TM_ClaimedAt = None,
     TM_ActorOrgSnapshot = None, TM_EnteredAt = 1, TM_TerminalAt = None, TM_Data = [],
     TM_UpdatedAt = 1\<rparr>"

definition demo_db :: mdb where
  "demo_db = \<lparr>tasks = [demo_task], task_modules = [], module_events = [], next_module_id = 1,
     next_module_event = 1\<rparr>"

definition demo_access :: FrontendAccessView where
  "demo_access = \<lparr>FA_IsSuperAdmin = False, FA_IsDepartmentAdmin = False, FA_Department = [],
     FA_Team = [], FA_Roles = [], FA_ManagedDepartments = [], FA_ManagedTeams = [],
     FA_DepartmentCodes = [], FA_TeamCodes = []\<rparr>"

definition demo_actor :: "id \<Rightarrow> string list \<Rightarrow> string \<Rightarrow> RequestActor" where
  "demo_actor i roles team = \<lparr>RA_ID = i, RA_Username = ''u'', RA_Roles = roles, RA_Department = [],
     RA_Team = team, RA_ManagedDepartments = [], RA_ManagedTeams = [], RA_FrontendAccess = demo_access\<rparr>"

end
