(* ===== verification/Module_Registry.thy ===== *)
theory Module_Registry
  imports Module_Domain
begin

section \<open>Module descriptors, state machine and blueprints\<close>

text \<open>
  \<^verbatim>\<open>src/service/module\<close> (which actions a module has, in which states, for whom, and the state an
  action leads to) and \<^verbatim>\<open>src/service/blueprint/registry.go\<close> (which modules a task of a given type
  has). Both are fixed tables with loops over them.
\<close>

subsection \<open>Descriptors and actions\<close>

datatype RoleFilter = RoleScopedWorker | RoleSelfOnly | RoleSelfOrLead | RoleLeadOrDepartmentAdmin
  | RoleDepartmentAdmin | RoleCreatorOrOpsLead | RoleCreatorOrAdmin

record ActionSpec =
  AS_Action :: string
  AS_AllowedStates :: "ModuleState list"
  AS_RoleFilter :: RoleFilter

definition action :: "string \<Rightarrow> ModuleState list \<Rightarrow> RoleFilter \<Rightarrow> ActionSpec" where
  "action name states flt = \<lparr>AS_Action = name, AS_AllowedStates = states, AS_RoleFilter = flt\<rparr>"

record Descriptor =
  D_Key :: string
  D_Department :: string
  D_InitialState :: ModuleState
  D_TerminalStates :: "ModuleState list"
  D_Actions :: "ActionSpec list"

definition workModule :: "string \<Rightarrow> string \<Rightarrow> Descriptor" where
  "workModule key department = \<lparr>
     D_Key = key, D_Department = department, D_InitialState = ModuleStatePendingClaim,
     D_TerminalStates = [ModuleStateClosed, ModuleStateForciblyClosed, ModuleStateClosedByAdmin],
     D_Actions = [
       action ModuleActionClaim [ModuleStatePendingClaim] RoleScopedWorker,
       action ModuleActionSubmit [ModuleStateInProgress] RoleSelfOnly,
       action ModuleActionReassign [ModuleStatePendingClaim, ModuleStateInProgress]
         RoleLeadOrDepartmentAdmin,
       action ModuleActionPoolReassign [ModuleStatePendingClaim] RoleDepartmentAdmin,
       action ModuleActionAssetUploadSessionCreate [ModuleStateInProgress] RoleSelfOrLead,
       action ModuleActionUpdateReferenceFiles [ModuleStateInProgress] RoleSelfOrLead]\<rparr>"

definition descriptors :: "(string \<times> Descriptor) list" where
  "descriptors = [
     (ModuleKeyBasicInfo, \<lparr>
        D_Key = ModuleKeyBasicInfo, D_Department = DepartmentOperations,
        D_InitialState = ModuleStateActive, D_TerminalStates = [],
        D_Actions = [
          action ModuleActionUpdateBasicInfo [ModuleStateActive] RoleCreatorOrOpsLead,
          action ModuleActionUpdateDeadline [ModuleStateActive] RoleCreatorOrOpsLead,
          action ModuleActionUpdatePriority [ModuleStateActive] RoleCreatorOrOpsLead,
          action ModuleActionCancelTask [ModuleStateActive] RoleCreatorOrAdmin]\<rparr>),
     (ModuleKeyDesign, workModule ModuleKeyDesign DepartmentDesignRD),
     (ModuleKeyRetouch, workModule ModuleKeyRetouch DepartmentDesignRD),
     (ModuleKeyCustomization, workModule ModuleKeyCustomization DepartmentCustomizationArt),
     (ModuleKeyAudit, \<lparr>
        D_Key = ModuleKeyAudit, D_Department = DepartmentAudit,
        D_InitialState = ModuleStatePendingClaim,
        D_TerminalStates = [ModuleStateClosed, ModuleStateForciblyClosed, ModuleStateClosedByAdmin],
        D_Actions = [
          action ModuleActionClaim [ModuleStatePendingClaim] RoleScopedWorker,
          action ModuleActionApprove [ModuleStateInProgress] RoleSelfOnly,
          action ModuleActionReject [ModuleStateInProgress] RoleSelfOnly,
          action ModuleActionReassign [ModuleStatePendingClaim, ModuleStateInProgress]
            RoleLeadOrDepartmentAdmin,
          action ModuleActionPoolReassign [ModuleStatePendingClaim] RoleDepartmentAdmin,
          action ModuleActionUpdateReferenceFiles [ModuleStateInProgress] RoleSelfOrLead]\<rparr>),
     (ModuleKeyWarehouse, \<lparr>
        D_Key = ModuleKeyWarehouse, D_Department = DepartmentCloudWarehouse,
        D_InitialState = ModuleStatePending,
        D_TerminalStates = [ModuleStateCompleted, ModuleStateClosed, ModuleStateForciblyClosed,
          ModuleStateClosedByAdmin],
        D_Actions = [
          action ModuleActionClaim [ModuleStatePendingClaim, ModuleStatePending] RoleScopedWorker,
          action ''prepare'' [ModuleStatePending, ModuleStatePendingClaim] RoleScopedWorker,
          action ''receive'' [ModuleStatePreparing, ModuleStatePending] RoleSelfOrLead,
          action ''complete'' [ModuleStateReceived, ModuleStatePreparing] RoleSelfOrLead,
          action ModuleActionReassign [ModuleStatePendingClaim, ModuleStateInProgress,
            ModuleStatePending, ModuleStatePreparing] RoleLeadOrDepartmentAdmin,
          action ModuleActionPoolReassign [ModuleStatePendingClaim, ModuleStatePending]
            RoleDepartmentAdmin]\<rparr>),
     (ModuleKeyProcurement, \<lparr>
        D_Key = ModuleKeyProcurement, D_Department = DepartmentProcurement,
        D_InitialState = ModuleStatePendingClaim,
        D_TerminalStates = [ModuleStateClosed, ModuleStateForciblyClosed, ModuleStateClosedByAdmin],
        D_Actions = [
          action ModuleActionClaim [ModuleStatePendingClaim] RoleScopedWorker,
          action ModuleActionSubmit [ModuleStateInProgress, ModuleStateReview] RoleSelfOnly,
          action ModuleActionReassign [ModuleStatePendingClaim, ModuleStateInProgress]
            RoleLeadOrDepartmentAdmin,
          action ModuleActionPoolReassign [ModuleStatePendingClaim] RoleDepartmentAdmin]\<rparr>)]"

definition DescriptorFor :: "string \<Rightarrow> Descriptor option" where
  "DescriptorFor moduleKey = map_of descriptors moduleKey"

definition ActionSpecFor :: "string \<Rightarrow> string \<Rightarrow> ActionSpec option" where
  "ActionSpecFor moduleKey actionName =
     (case DescriptorFor moduleKey of
        None \<Rightarrow> None
      | Some desc \<Rightarrow> List.find (\<lambda>spec. AS_Action spec = actionName) (D_Actions desc))"

definition AllActions :: "string \<Rightarrow> ActionSpec list" where
  "AllActions moduleKey =
     (case DescriptorFor moduleKey of None \<Rightarrow> [] | Some desc \<Rightarrow> D_Actions desc)"

subsection \<open>The state machine\<close>

fun stateAllowed :: "ModuleState \<Rightarrow> ModuleState list \<Rightarrow> bool" where
  "stateAllowed current [] = False"
| "stateAllowed current (state # states) = (if state = current then True else stateAllowed current states)"

text \<open>The \<^verbatim>\<open>switch\<close> of \<^verbatim>\<open>NextState\<close>, and \<^verbatim>\<open>NextState\<close>: the next state, or the code under which
  the action is denied.\<close>

definition action_target :: "string \<Rightarrow> ModuleState \<Rightarrow> ModuleState" where
  "action_target actionName current =
     (if actionName = ModuleActionClaim then ModuleStateInProgress
      else if actionName = ModuleActionSubmit then ModuleStateSubmitted
      else if actionName = ModuleActionApprove then ModuleStateClosed
      else if actionName = ModuleActionReject then ModuleStateRejected
      else if actionName = ''prepare'' then ModuleStatePreparing
      else if actionName = ''receive'' then ModuleStateReceived
      else if actionName = ''complete'' then ModuleStateCompleted
      else current)"

definition NextState :: "string \<Rightarrow> ModuleState \<Rightarrow> string \<Rightarrow> string + ModuleState" where
  "NextState moduleKey current actionName =
     (case ActionSpecFor moduleKey actionName of
        None \<Rightarrow> Inl DenyModuleActionRoleDenied
      | Some spec \<Rightarrow>
         if \<not> stateAllowed current (AS_AllowedStates spec) then Inl DenyModuleStateMismatch
         else Inr (action_target actionName current))"

lemma stateAllowed_iff [simp]: "stateAllowed s states \<longleftrightarrow> s \<in> set states"
  by (induction states) auto

lemma ActionSpecForD:
  "ActionSpecFor k a = Some spec \<Longrightarrow>
   \<exists>desc. DescriptorFor k = Some desc \<and> spec \<in> set (D_Actions desc) \<and> AS_Action spec = a"
  by (auto simp: ActionSpecFor_def split: option.splits dest: find_SomeD)

lemma DescriptorFor_in: "DescriptorFor k = Some desc \<Longrightarrow> (k, desc) \<in> set descriptors"
  by (simp add: DescriptorFor_def map_of_SomeD)

lemma NextState_Inr:
  "NextState k s a = Inr t \<longleftrightarrow>
   (\<exists>spec. ActionSpecFor k a = Some spec \<and> s \<in> set (AS_AllowedStates spec) \<and> t = action_target a s)"
  unfolding NextState_def by (cases "ActionSpecFor k a") auto

lemma action_target_Terminal:
  "\<not> Terminal s \<Longrightarrow> Terminal (action_target a s) \<longleftrightarrow> a = ModuleActionApprove \<or> a = ''complete''"
  by (simp add: action_target_def)

text \<open>The table's rows, one property at a time: every allowed state is open.\<close>

lemma allowed_states_open:
  "list_all (\<lambda>(k, d). list_all (\<lambda>spec. list_all (\<lambda>s. \<not> Terminal s) (AS_AllowedStates spec))
     (D_Actions d)) descriptors"
  by (simp add: descriptors_def workModule_def action_def)

lemma descriptor_keys:
  "list_all (\<lambda>(k, d). D_Key d = k \<and> distinct (map AS_Action (D_Actions d))) descriptors"
  by (simp add: descriptors_def workModule_def action_def)

lemma allowed_state_open:
  assumes "ActionSpecFor k a = Some spec" and "s \<in> set (AS_AllowedStates spec)"
  shows "\<not> Terminal s"
  using assms allowed_states_open
  by (fastforce simp: list_all_iff dest!: ActionSpecForD DescriptorFor_in)

text \<open>
  No action leads out of a closed module, and no action other than approve and complete closes
  one: whenever the state machine allows an action, the current state is open, and the next state
  is terminal exactly for these two.
\<close>

theorem next_state_respects_terminal:
  assumes "NextState k s a = Inr t"
  shows "\<not> Terminal s \<and> (Terminal t \<longleftrightarrow> a = ModuleActionApprove \<or> a = ''complete'')"
  proof -
  obtain spec where spec: "ActionSpecFor k a = Some spec" "s \<in> set (AS_AllowedStates spec)"
    and t: "t = action_target a s"
    using assms unfolding NextState_Inr by blast
  have "\<not> Terminal s" using spec by (rule allowed_state_open)
  then show ?thesis unfolding t by (simp only: action_target_Terminal simp_thms)
qed

theorem next_state_respects_terminal_witness:
  "NextState ModuleKeyAudit ModuleStateInProgress ModuleActionApprove = Inr ModuleStateClosed \<and>
   \<not> Terminal ModuleStateInProgress \<and>
   (Terminal ModuleStateClosed \<longleftrightarrow> ModuleActionApprove = ModuleActionApprove \<or>
      ModuleActionApprove = ''complete'')"
proof -
  have n: "NextState ModuleKeyAudit ModuleStateInProgress ModuleActionApprove = Inr ModuleStateClosed"
    by (simp add: NextState_def ActionSpecFor_def DescriptorFor_def descriptors_def action_def
        action_target_def)
  show ?thesis using n next_state_respects_terminal [OF n] by blast
qed

subsection \<open>Blueprints\<close>

record ModuleSpec =
  MS_Key :: string
  MS_InitialState :: ModuleState
  MS_PoolTeamCode :: "string option"

definition mspec :: "string \<Rightarrow> ModuleState \<Rightarrow> string option \<Rightarrow> ModuleSpec" where
  "mspec k s p = \<lparr>MS_Key = k, MS_InitialState = s, MS_PoolTeamCode = p\<rparr>"

lemma mspec_simps [simp]:
  "MS_Key (mspec k s p) = k" "MS_InitialState (mspec k s p) = s" "MS_PoolTeamCode (mspec k s p) = p"
  by (simp_all add: mspec_def)

record Blueprint =
  BP_TaskType :: TaskType
  BP_Key :: string
  BP_Modules :: "ModuleSpec list"

definition basicInfo :: ModuleSpec where
  "basicInfo = mspec ModuleKeyBasicInfo ModuleStateActive None"

definition customizationModuleSpec :: ModuleSpec where
  "customizationModuleSpec =
     mspec ModuleKeyCustomization ModuleStatePendingClaim (Some TeamCustomizationArt)"

definition productBlueprint :: "TaskType \<Rightarrow> Blueprint" where
  "productBlueprint taskType = \<lparr>
     BP_TaskType = taskType, BP_Key = tt_string taskType @ ''_v1'',
     BP_Modules = [
       basicInfo,
       mspec ModuleKeyDesign ModuleStatePendingClaim (Some TeamDesignStandard),
       mspec ModuleKeyAudit ModuleStatePendingClaim (Some TeamAuditStandard),
       mspec ModuleKeyWarehouse ModuleStatePending None]\<rparr>"

definition customizationBlueprint :: "TaskType \<Rightarrow> Blueprint" where
  "customizationBlueprint taskType = \<lparr>
     BP_TaskType = taskType, BP_Key = tt_string taskType @ ''_v1'',
     BP_Modules = [
       basicInfo,
       mspec ModuleKeyCustomization ModuleStatePendingClaim (Some TeamCustomizationArt),
       mspec ModuleKeyAudit ModuleStatePendingClaim (Some TeamAuditCustomization),
       mspec ModuleKeyWarehouse ModuleStatePending None]\<rparr>"

definition NewRegistry :: "(TaskType \<times> Blueprint) list" where
  "NewRegistry = [
     (TaskTypeOriginalProductDevelopment, productBlueprint TaskTypeOriginalProductDevelopment),
     (TaskTypeNewProductDevelopment, productBlueprint TaskTypeNewProductDevelopment),
     (TaskTypePurchaseTask, \<lparr>
        BP_TaskType = TaskTypePurchaseTask, BP_Key = ''purchase_task_v1'',
        BP_Modules = [
          basicInfo,
          mspec ModuleKeyProcurement ModuleStatePendingClaim (Some TeamProcurementMain),
          mspec ModuleKeyWarehouse ModuleStatePending None]\<rparr>),
     (TaskTypeRetouchTask, \<lparr>
        BP_TaskType = TaskTypeRetouchTask, BP_Key = ''retouch_task_v1'',
        BP_Modules = [
          basicInfo,
          mspec ModuleKeyRetouch ModuleStatePendingClaim (Some TeamDesignRetouch)]\<rparr>),
     (TaskTypeCustomerCustomization, customizationBlueprint TaskTypeCustomerCustomization),
     (TaskTypeRegularCustomization, customizationBlueprint TaskTypeRegularCustomization)]"

definition Registry_Get :: "TaskType \<Rightarrow> Blueprint option" where
  "Registry_Get taskType = map_of NewRegistry taskType"

definition Registry_MustGet :: "TaskType \<Rightarrow> db_error + Blueprint" where
  "Registry_MustGet taskType =
     (case Registry_Get taskType of None \<Rightarrow> Inl errBlueprint | Some bp \<Rightarrow> Inr bp)"

definition isCustomizationTask :: "Task \<Rightarrow> bool" where
  "isCustomizationTask task =
     (if T_TaskType task = TaskTypeCustomerCustomization \<or>
         T_TaskType task = TaskTypeRegularCustomization then True
      else if T_CustomizationRequired task then True
      else NormalizeTaskBusinessLane (T_BusinessLane task) (T_CustomizationRequired task)
             = TaskBusinessLaneCustomization)"

definition RequiresHybridCustomizationModule :: "Task \<Rightarrow> bool" where
  "RequiresHybridCustomizationModule task =
     (if T_TaskType task = TaskTypeOriginalProductDevelopment \<or>
         T_TaskType task = TaskTypeNewProductDevelopment then isCustomizationTask task
      else False)"

text \<open>The second loop of \<^verbatim>\<open>injectCustomizationModuleAfterDesign\<close>, with its flag.\<close>

fun inject_loop :: "bool \<Rightarrow> ModuleSpec list \<Rightarrow> ModuleSpec list" where
  "inject_loop inserted [] = (if \<not> inserted then [customizationModuleSpec] else [])"
| "inject_loop inserted (spec # modules) =
     (if \<not> inserted \<and> MS_Key spec = ModuleKeyDesign
      then spec # customizationModuleSpec # inject_loop True modules
      else spec # inject_loop inserted modules)"

definition injectCustomizationModuleAfterDesign :: "ModuleSpec list \<Rightarrow> ModuleSpec list" where
  "injectCustomizationModuleAfterDesign modules =
     (if list_ex (\<lambda>spec. MS_Key spec = ModuleKeyCustomization) modules then modules
      else inject_loop False modules)"

definition ModulesForTask :: "Task \<Rightarrow> Blueprint \<Rightarrow> ModuleSpec list" where
  "ModulesForTask task bp =
     (if \<not> RequiresHybridCustomizationModule task then BP_Modules bp
      else injectCustomizationModuleAfterDesign (BP_Modules bp))"

subsection \<open>What the blueprints promise\<close>

text \<open>Reference definition of the injection: cut behind the first design module (or at the end).\<close>

definition insert_after_first :: "('a \<Rightarrow> bool) \<Rightarrow> 'a \<Rightarrow> 'a list \<Rightarrow> 'a list" where
  "insert_after_first p y xs =
     (let n = length (takeWhile (\<lambda>x. \<not> p x) xs) in take (Suc n) xs @ y # drop (Suc n) xs)"

lemma inject_loop_True [simp]: "inject_loop True ms = ms"
  by (induction ms) auto

lemma inject_loop_False:
  "inject_loop False ms =
   insert_after_first (\<lambda>s. MS_Key s = ModuleKeyDesign) customizationModuleSpec ms"
  by (induction ms) (auto simp: insert_after_first_def Let_def)

lemma Registry_Get_in: "Registry_Get tt = Some bp \<Longrightarrow> (tt, bp) \<in> set NewRegistry"
  by (simp add: Registry_Get_def map_of_SomeD)

lemma Registry_Get_modules:
  "Registry_Get tt = Some bp \<Longrightarrow>
   BP_TaskType bp = tt \<and> BP_Key bp = tt_string tt @ ''_v1'' \<and>
   (tt \<in> {TaskTypeOriginalProductDevelopment, TaskTypeNewProductDevelopment} \<and>
      BP_Modules bp = BP_Modules (productBlueprint tt)
    \<or> tt = TaskTypePurchaseTask \<and> map MS_Key (BP_Modules bp) =
        [ModuleKeyBasicInfo, ModuleKeyProcurement, ModuleKeyWarehouse]
    \<or> tt = TaskTypeRetouchTask \<and> map MS_Key (BP_Modules bp) = [ModuleKeyBasicInfo, ModuleKeyRetouch]
    \<or> tt \<in> {TaskTypeCustomerCustomization, TaskTypeRegularCustomization} \<and>
      BP_Modules bp = BP_Modules (customizationBlueprint tt))"
  by (drule Registry_Get_in)
     (auto simp: NewRegistry_def productBlueprint_def customizationBlueprint_def basicInfo_def)

text \<open>What every module list handed to the rule engine satisfies.\<close>

definition spec_ok :: "ModuleSpec \<Rightarrow> bool" where
  "spec_ok spec \<longleftrightarrow>
     (case DescriptorFor (MS_Key spec) of
        None \<Rightarrow> False
      | Some d \<Rightarrow> MS_InitialState spec = D_InitialState d) \<and>
     (MS_PoolTeamCode spec \<noteq> None \<longleftrightarrow> MS_InitialState spec = ModuleStatePendingClaim)"

definition modules_ok :: "ModuleSpec list \<Rightarrow> bool" where
  "modules_ok specs \<longleftrightarrow> distinct (map MS_Key specs) \<and> list_all spec_ok specs \<and>
     map MS_Key (take 1 specs) = [ModuleKeyBasicInfo]"

lemma insert_after_first_ok:
  assumes "modules_ok ms" and "\<not> list_ex (\<lambda>s. MS_Key s = ModuleKeyCustomization) ms"
  shows "modules_ok (insert_after_first p customizationModuleSpec ms)"
proof -
  let ?n = "length (takeWhile (\<lambda>x. \<not> p x) ms)"
  have s: "spec_ok customizationModuleSpec"
    by (simp add: spec_ok_def customizationModuleSpec_def DescriptorFor_def descriptors_def
        workModule_def)
  have split: "ms = take (Suc ?n) ms @ drop (Suc ?n) ms" by simp
  have "ModuleKeyCustomization \<notin> MS_Key ` set ms"
    using assms(2) by (auto simp: list_ex_iff)
  then have k: "ModuleKeyCustomization \<notin> MS_Key ` set (take (Suc ?n) ms)"
      "ModuleKeyCustomization \<notin> MS_Key ` set (drop (Suc ?n) ms)"
    by (auto dest: in_set_takeD in_set_dropD)
  have d: "distinct (map MS_Key (take (Suc ?n) ms) @ map MS_Key (drop (Suc ?n) ms))"
    using assms(1) by (simp add: modules_ok_def flip: map_append)
  have "ms \<noteq> []" using assms(1) by (auto simp: modules_ok_def)
  then show ?thesis
    using assms(1) s k d
    by (cases ms)
       (auto simp: insert_after_first_def modules_ok_def Let_def customizationModuleSpec_def
          list_all_iff dest: in_set_takeD in_set_dropD)
qed

lemma blueprint_modules_ok: "Registry_Get tt = Some bp \<Longrightarrow> modules_ok (BP_Modules bp)"
  by (drule Registry_Get_in)
     (auto simp: NewRegistry_def modules_ok_def productBlueprint_def customizationBlueprint_def
       basicInfo_def spec_ok_def DescriptorFor_def descriptors_def workModule_def)

lemma ModulesForTask_ok: "Registry_Get tt = Some bp \<Longrightarrow> modules_ok (ModulesForTask task bp)"
  using blueprint_modules_ok [of tt bp]
  by (auto simp: ModulesForTask_def injectCustomizationModuleAfterDesign_def inject_loop_False
      intro: insert_after_first_ok)

text \<open>
  (C36) The module list of any task of a known type is well-formed: its keys are distinct, the first
  is basic_info, every module has a descriptor and starts in that descriptor's initial state, and
  exactly the modules that start in pending_claim name a pool; and the known types are exactly
  those of V1TaskTypes.
\<close>

theorem blueprints_well_formed:
  "(Registry_Get (T_TaskType task) = None \<longleftrightarrow> T_TaskType task \<notin> set V1TaskTypes) \<and>
   pred_option (\<lambda>bp. modules_ok (ModulesForTask task bp) \<and> BP_TaskType bp = T_TaskType task)
     (Registry_Get (T_TaskType task))"
proof (intro conjI)
  show "Registry_Get (T_TaskType task) = None \<longleftrightarrow> T_TaskType task \<notin> set V1TaskTypes"
    by (simp add: Registry_Get_def NewRegistry_def V1TaskTypes_def)
  show "pred_option (\<lambda>bp. modules_ok (ModulesForTask task bp) \<and> BP_TaskType bp = T_TaskType task)
     (Registry_Get (T_TaskType task))"
    by (cases "Registry_Get (T_TaskType task)")
       (auto intro: ModulesForTask_ok dest: Registry_Get_modules)
qed

text \<open>
  The scan that adds the customization module to a product blueprint is the reference
  insertion: a list that already has the module is returned as it is, any other list gets it once,
  directly behind its first design module, or at the end when there is none.
\<close>

theorem inject_is_insert_after_design:
  "injectCustomizationModuleAfterDesign modules =
     (if ModuleKeyCustomization \<in> set (map MS_Key modules) then modules
      else insert_after_first (\<lambda>s. MS_Key s = ModuleKeyDesign) customizationModuleSpec modules)"
  by (simp add: injectCustomizationModuleAfterDesign_def inject_loop_False list_ex_iff image_iff)
     metis

end
