(* ===== verification/Module_Store.thy ===== *)
theory Module_Store
  imports Module_Registry
begin

section \<open>Repositories of the module engine\<close>

text \<open>
  \<^verbatim>\<open>src/repo/mysql/task_module_repo.go\<close>, \<^verbatim>\<open>task_module_event_repo.go\<close> and the methods of
  \<^verbatim>\<open>task.go\<close> the engine calls. One SQL statement is one \<open>stmt\<close>; foreign keys make an INSERT fail.
  \<open>now\<close> is the server's clock (columns \<^verbatim>\<open>NOW()\<close> and the ON UPDATE timestamps). The re-indexing of
  the search document after an update of a task writes a table that is not modelled: it is one
  more statement that may fail.

  The last section states the laws of the module table as a locale and proves there what
  entering a list of modules does; then come the table invariant \<open>minv\<close> and the triples of the
  operations.
\<close>

subsection \<open>task_modules\<close>

definition same_module :: "id \<Rightarrow> string \<Rightarrow> TaskModule \<Rightarrow> bool" where
  "same_module taskID moduleKey m \<longleftrightarrow> TM_TaskID m = taskID \<and> ci_eq (TM_ModuleKey m) moduleKey"

definition module_row :: "mdb \<Rightarrow> id \<Rightarrow> string \<Rightarrow> TaskModule option" where
  "module_row d taskID moduleKey = List.find (same_module taskID moduleKey) (task_modules d)"

definition GetByTaskAndKey :: "id \<Rightarrow> string \<Rightarrow> TaskModule option mact" where
  "GetByTaskAndKey taskID moduleKey = query (\<lambda>d. module_row d taskID moduleKey)"

text \<open>
  The same method called while the caller has a transaction open: it runs on another connection
  and sees the committed database \<open>snap\<close>, not what the transaction has written.
\<close>

definition GetByTaskAndKey_outside :: "mdb \<Rightarrow> id \<Rightarrow> string \<Rightarrow> TaskModule option mact" where
  "GetByTaskAndKey_outside snap taskID moduleKey = query (\<lambda>_. module_row snap taskID moduleKey)"

definition getByTaskAndKeyTx :: "id \<Rightarrow> string \<Rightarrow> TaskModule option mact" where
  "getByTaskAndKeyTx taskID moduleKey = query (\<lambda>d. module_row d taskID moduleKey)"

definition is_placeholder :: "TaskModule \<Rightarrow> bool" where
  "is_placeholder m \<longleftrightarrow> map_of (TM_Data m) ''backfill_placeholder'' = Some (JFlag True)"

text \<open>\<^verbatim>\<open>FIELD(module_key, ...)\<close>: the position in the list, counted from 1, and 0 if absent.\<close>

fun field_pos :: "string \<Rightarrow> string list \<Rightarrow> nat \<Rightarrow> nat" where
  "field_pos k [] n = 0"
| "field_pos k (x # xs) n = (if ci_eq k x then n else field_pos k xs (Suc n))"

definition module_order :: "string list" where
  "module_order = [ModuleKeyBasicInfo, ModuleKeyCustomization, ModuleKeyDesign, ModuleKeyRetouch,
     ModuleKeyProcurement, ModuleKeyAudit, ModuleKeyWarehouse]"

definition modules_of_task :: "mdb \<Rightarrow> id \<Rightarrow> TaskModule list" where
  "modules_of_task d taskID =
     sort_key (\<lambda>m. field_pos (TM_ModuleKey m) module_order 1)
       (sort_key TM_ID (filter (\<lambda>m. TM_TaskID m = taskID \<and> \<not> is_placeholder m) (task_modules d)))"

definition ListByTask :: "id \<Rightarrow> TaskModule list mact" where
  "ListByTask taskID = query (\<lambda>d. modules_of_task d taskID)"

definition ListByTask_outside :: "mdb \<Rightarrow> id \<Rightarrow> TaskModule list mact" where
  "ListByTask_outside snap taskID = query (\<lambda>_. modules_of_task snap taskID)"

definition ClaimCAS ::
  "time \<Rightarrow> id \<Rightarrow> string \<Rightarrow> string \<Rightarrow> id \<Rightarrow> string \<Rightarrow> jsonobj \<Rightarrow> bool mact" where
  "ClaimCAS now taskID moduleKey poolTeamCode actorID claimedTeamCode actorSnapshot = stmt (\<lambda>d.
     let p = (\<lambda>m. same_module taskID moduleKey m \<and> TM_State m = ModuleStatePendingClaim \<and>
                (case TM_PoolTeamCode m of None \<Rightarrow> False | Some pool \<Rightarrow> ci_eq pool poolTeamCode))
     in Inr (length (filter p (task_modules d)) = 1,
          d\<lparr>task_modules := row_upd p (\<lambda>m. m\<lparr>
             TM_State := ModuleStateInProgress, TM_ClaimedBy := Some actorID,
             TM_ClaimedTeamCode := Some claimedTeamCode, TM_ClaimedAt := Some now,
             TM_ActorOrgSnapshot := Some actorSnapshot, TM_UpdatedAt := now\<rparr>) (task_modules d)\<rparr>))"

text \<open>The upsert of \<^verbatim>\<open>Enter\<close>, on the unique key (task_id, module_key).\<close>

definition enter_row ::
  "time \<Rightarrow> id \<Rightarrow> string \<Rightarrow> ModuleState \<Rightarrow> string option \<Rightarrow> jsonobj \<Rightarrow> mdb \<Rightarrow> mdb" where
  "enter_row now taskID moduleKey st pool data d =
     (case module_row d taskID moduleKey of
        None \<Rightarrow> d\<lparr>
          task_modules := task_modules d @ [\<lparr>TM_ID = next_module_id d, TM_TaskID = taskID,
            TM_ModuleKey = moduleKey, TM_State = st, TM_PoolTeamCode = pool, TM_ClaimedBy = None,
            TM_ClaimedTeamCode = None, TM_ClaimedAt = None, TM_ActorOrgSnapshot = None,
            TM_EnteredAt = now, TM_TerminalAt = None, TM_Data = data, TM_UpdatedAt = now\<rparr>],
          next_module_id := next_module_id d + 1\<rparr>
      | Some _ \<Rightarrow> d\<lparr>task_modules := row_upd (same_module taskID moduleKey) (\<lambda>m. m\<lparr>
          TM_State := st, TM_PoolTeamCode := pool, TM_ClaimedBy := None,
          TM_ClaimedTeamCode := None, TM_ClaimedAt := None, TM_TerminalAt := None,
          TM_Data := data, TM_UpdatedAt := now\<rparr>) (task_modules d)\<rparr>)"

definition Enter ::
  "time \<Rightarrow> id \<Rightarrow> string \<Rightarrow> ModuleState \<Rightarrow> string option \<Rightarrow> jsonobj \<Rightarrow> TaskModule mact" where
  "Enter now taskID moduleKey st pool data =
     bnd (stmt (\<lambda>d. if taskID \<in> T_ID ` set (tasks d)
                     then Inr ((), enter_row now taskID moduleKey st pool data d) else Inl ErrDB))
       (\<lambda>_. bnd (getByTaskAndKeyTx taskID moduleKey) (\<lambda>m.
         case m of None \<Rightarrow> throw ErrDB | Some m \<Rightarrow> ret m))"

text \<open>\<^verbatim>\<open>UpdateState\<close>, called with no new data.\<close>

definition set_state :: "time \<Rightarrow> ModuleState \<Rightarrow> bool \<Rightarrow> TaskModule \<Rightarrow> TaskModule" where
  "set_state now st terminal m = m\<lparr>TM_State := st,
     TM_TerminalAt := (if terminal \<and> TM_TerminalAt m = None then Some now else TM_TerminalAt m),
     TM_UpdatedAt := now\<rparr>"

definition UpdateState :: "time \<Rightarrow> id \<Rightarrow> string \<Rightarrow> ModuleState \<Rightarrow> bool \<Rightarrow> unit mact" where
  "UpdateState now taskID moduleKey st terminal = exec (\<lambda>d. d\<lparr>task_modules :=
     row_upd (same_module taskID moduleKey) (set_state now st terminal) (task_modules d)\<rparr>)"

definition Reassign :: "time \<Rightarrow> id \<Rightarrow> string \<Rightarrow> id \<Rightarrow> string \<Rightarrow> jsonobj \<Rightarrow> unit mact" where
  "Reassign now taskID moduleKey actorID claimedTeamCode actorSnapshot = exec (\<lambda>d. d\<lparr>task_modules :=
     row_upd (\<lambda>m. same_module taskID moduleKey m \<and>
                TM_State m \<in> set [ModuleStatePendingClaim, ModuleStateInProgress])
       (\<lambda>m. m\<lparr>TM_State := ModuleStateInProgress, TM_ClaimedBy := Some actorID,
          TM_ClaimedTeamCode := Some claimedTeamCode, TM_ClaimedAt := Some now,
          TM_ActorOrgSnapshot := Some actorSnapshot, TM_UpdatedAt := now\<rparr>) (task_modules d)\<rparr>)"

definition PoolReassign :: "time \<Rightarrow> id \<Rightarrow> string \<Rightarrow> string \<Rightarrow> unit mact" where
  "PoolReassign now taskID moduleKey poolTeamCode = exec (\<lambda>d. d\<lparr>task_modules :=
     row_upd (same_module taskID moduleKey)
       (\<lambda>m. m\<lparr>TM_State := ModuleStatePendingClaim, TM_PoolTeamCode := Some poolTeamCode,
          TM_ClaimedBy := None, TM_ClaimedTeamCode := None, TM_ClaimedAt := None,
          TM_ActorOrgSnapshot := None, TM_UpdatedAt := now\<rparr>) (task_modules d)\<rparr>)"

definition CloseOpenModules :: "mdb \<Rightarrow> time \<Rightarrow> id \<Rightarrow> ModuleState \<Rightarrow> TaskModule list mact" where
  "CloseOpenModules snap now taskID st =
     bnd (ListByTask_outside snap taskID) (\<lambda>before.
     bnd (exec (\<lambda>d. d\<lparr>task_modules :=
        row_upd (\<lambda>m. TM_TaskID m = taskID \<and> TM_State m \<notin> set [ModuleStateClosed,
                   ModuleStateForciblyClosed, ModuleStateClosedByAdmin, ModuleStateCompleted])
          (set_state now st True) (task_modules d)\<rparr>)) (\<lambda>_.
     ret before))"

definition InsertPlaceholder :: "time \<Rightarrow> id \<Rightarrow> string \<Rightarrow> TaskModule mact" where
  "InsertPlaceholder now taskID moduleKey =
     Enter now taskID moduleKey ModuleStateClosed None [(''backfill_placeholder'', JFlag True)]"

subsection \<open>task_module_events\<close>

definition insert_event :: "time \<Rightarrow> TaskModuleEvent \<Rightarrow> mdb \<Rightarrow> mdb" where
  "insert_event now ev d = d\<lparr>
     module_events := module_events d @ [ev\<lparr>TE_ID := next_module_event d, TE_CreatedAt := now\<rparr>],
     next_module_event := next_module_event d + 1\<rparr>"

definition EventInsert :: "time \<Rightarrow> TaskModuleEvent \<Rightarrow> id mact" where
  "EventInsert now ev = stmt (\<lambda>d.
     if TE_TaskModuleID ev \<in> TM_ID ` set (task_modules d)
     then Inr (next_module_event d, insert_event now ev d) else Inl ErrDB)"

text \<open>An event as the services build it; its id and time are the database's.\<close>

definition mevent :: "id \<Rightarrow> string \<Rightarrow> ModuleState option \<Rightarrow> ModuleState option \<Rightarrow> id option \<Rightarrow>
  jsonobj \<Rightarrow> rawjson \<Rightarrow> TaskModuleEvent" where
  "mevent mid ty from to actor snapshot payload = \<lparr>TE_ID = 0, TE_TaskModuleID = mid,
     TE_EventType = ty, TE_FromState = from, TE_ToState = to, TE_ActorID = actor,
     TE_ActorSnapshot = snapshot, TE_Payload = payload, TE_CreatedAt = 0\<rparr>"

lemma mevent_simps [simp]:
  "TE_TaskModuleID (mevent i ty f t a s p) = i" "TE_EventType (mevent i ty f t a s p) = ty"
  "TE_FromState (mevent i ty f t a s p) = f" "TE_ToState (mevent i ty f t a s p) = t"
  "TE_ActorID (mevent i ty f t a s p) = a" "TE_Payload (mevent i ty f t a s p) = p"
  by (simp_all add: mevent_def)

definition event_limit :: "int \<Rightarrow> nat" where
  "event_limit limit = nat (if limit \<le> 0 \<or> limit > 200 then 50 else limit)"

definition newest_first :: "TaskModuleEvent list \<Rightarrow> TaskModuleEvent list" where
  "newest_first es = rev (sort_key TE_CreatedAt (sort_key TE_ID es))"

definition ListByTaskModule :: "id \<Rightarrow> int \<Rightarrow> TaskModuleEvent list mact" where
  "ListByTaskModule taskModuleID limit = query (\<lambda>d.
     take (event_limit limit)
       (newest_first (filter (\<lambda>e. TE_TaskModuleID e = taskModuleID) (module_events d))))"

definition ListRecentByTask :: "id \<Rightarrow> int \<Rightarrow> TaskModuleEvent list mact" where
  "ListRecentByTask taskID limit = query (\<lambda>d.
     take (event_limit limit) (newest_first (filter (\<lambda>e.
       list_ex (\<lambda>m. TM_ID m = TE_TaskModuleID e \<and> TM_TaskID m = taskID) (task_modules d))
       (module_events d))))"

subsection \<open>tasks\<close>

definition task_row :: "mdb \<Rightarrow> id \<Rightarrow> Task option" where
  "task_row d i = List.find (\<lambda>t. T_ID t = i) (tasks d)"

definition TaskRepo_GetByID :: "id \<Rightarrow> Task option mact" where
  "TaskRepo_GetByID i = query (\<lambda>d. task_row d i)"

definition reindexTaskSearchDocument :: "id \<Rightarrow> unit mact" where
  "reindexTaskSearchDocument i = query (\<lambda>_. ())"

text \<open>An UPDATE of one task; its \<^verbatim>\<open>updated_at\<close> moves only when a column changes.\<close>

definition upd_task :: "time \<Rightarrow> id \<Rightarrow> (Task \<Rightarrow> Task) \<Rightarrow> mdb \<Rightarrow> mdb" where
  "upd_task now i f d = d\<lparr>tasks := row_upd (\<lambda>t. T_ID t = i)
     (\<lambda>t. if f t = t then t else (f t)\<lparr>T_UpdatedAt := now\<rparr>) (tasks d)\<rparr>"

definition UpdateStatus :: "time \<Rightarrow> id \<Rightarrow> TaskStatus \<Rightarrow> unit mact" where
  "UpdateStatus now i status =
     bnd (exec (upd_task now i (\<lambda>t. t\<lparr>T_TaskStatus := status\<rparr>))) (\<lambda>_. reindexTaskSearchDocument i)"

definition UpdateDesigner :: "time \<Rightarrow> id \<Rightarrow> id option \<Rightarrow> unit mact" where
  "UpdateDesigner now i designerID =
     bnd (exec (upd_task now i (\<lambda>t. t\<lparr>T_DesignerID := designerID\<rparr>)))
       (\<lambda>_. reindexTaskSearchDocument i)"

definition UpdateHandler :: "time \<Rightarrow> id \<Rightarrow> id option \<Rightarrow> unit mact" where
  "UpdateHandler now i handlerID =
     bnd (exec (upd_task now i (\<lambda>t. t\<lparr>T_CurrentHandlerID := handlerID\<rparr>)))
       (\<lambda>_. reindexTaskSearchDocument i)"

definition ClaimPendingAssignment :: "time \<Rightarrow> id \<Rightarrow> id \<Rightarrow> TaskStatus \<Rightarrow> bool mact" where
  "ClaimPendingAssignment now i designerID resultingStatus =
     bnd (stmt (\<lambda>d.
       let p = (\<lambda>t. T_ID t = i \<and> T_TaskStatus t = TaskStatusPendingAssign \<and>
                    T_DesignerID t = None \<and> T_CurrentHandlerID t = None)
       in Inr (length (filter p (tasks d)) = 1,
            d\<lparr>tasks := row_upd p (\<lambda>t. t\<lparr>T_DesignerID := Some designerID,
               T_CurrentHandlerID := Some designerID, T_TaskStatus := resultingStatus,
               T_UpdatedAt := now\<rparr>) (tasks d)\<rparr>)))
     (\<lambda>affected. if affected then bnd (reindexTaskSearchDocument i) (\<lambda>_. ret True) else ret False)"

subsection \<open>The laws of the module table\<close>

text \<open>
  What the rule engine relies on when it enters modules: reading back what was entered, and
  nothing else changed. The locale is over any database type; entering a list of modules is
  derived here once.
\<close>

locale module_table =
  fixes get :: "'d \<Rightarrow> id \<Rightarrow> string \<Rightarrow> 'm option"
    and put :: "id \<Rightarrow> string \<Rightarrow> 'v \<Rightarrow> 'd \<Rightarrow> 'd"
    and val :: "'m \<Rightarrow> 'v"
    and canon :: "string \<Rightarrow> string"
  assumes get_put_same: "\<exists>m. get (put t k v d) t k = Some m \<and> val m = v"
    and get_put_other: "(t, canon k) \<noteq> (t', canon k') \<Longrightarrow> get (put t k v d) t' k' = get d t' k'"
begin

fun put_all :: "id \<Rightarrow> (string \<times> 'v) list \<Rightarrow> 'd \<Rightarrow> 'd" where
  "put_all t [] d = d"
| "put_all t ((k, v) # kvs) d = put_all t kvs (put t k v d)"

lemma put_all_other:
  "canon k' \<notin> canon ` fst ` set kvs \<or> t' \<noteq> t \<Longrightarrow> get (put_all t kvs d) t' k' = get d t' k'"
  by (induction kvs arbitrary: d) (auto simp: get_put_other)

lemma put_all_same:
  "distinct (map (canon \<circ> fst) kvs) \<Longrightarrow> (k, v) \<in> set kvs \<Longrightarrow>
   \<exists>m. get (put_all t kvs d) t k = Some m \<and> val m = v"
proof (induction kvs arbitrary: d)
  case Nil
  then show ?case by simp
next
  case (Cons kv kvs)
  obtain k1 v1 where kv: "kv = (k1, v1)" by (cases kv)
  show ?case
  proof (cases "(k, v) \<in> set kvs")
    case True
    then show ?thesis using Cons kv by simp
  next
    case False
    then have "canon k \<notin> canon ` fst ` set kvs" and eq: "k1 = k" "v1 = v"
      using Cons.prems kv by (force simp: image_iff)+
    then show ?thesis using get_put_same kv by (simp add: put_all_other)
  qed
qed

end

text \<open>The columns \<^verbatim>\<open>Enter\<close> writes.\<close>

definition entered :: "TaskModule \<Rightarrow> ModuleState \<times> string option \<times> jsonobj" where
  "entered m = (TM_State m, TM_PoolTeamCode m, TM_Data m)"

definition enter_cols ::
  "time \<Rightarrow> id \<Rightarrow> string \<Rightarrow> ModuleState \<times> string option \<times> jsonobj \<Rightarrow> mdb \<Rightarrow> mdb" where
  "enter_cols now t k = (\<lambda>(st, pool, data). enter_row now t k st pool data)"

lemma same_module_upd [simp]:
  "same_module t k (m\<lparr>TM_State := x\<rparr>) = same_module t k m"
  "same_module t k (m\<lparr>TM_PoolTeamCode := y\<rparr>) = same_module t k m"
  "same_module t k (m\<lparr>TM_ClaimedBy := a\<rparr>) = same_module t k m"
  "same_module t k (m\<lparr>TM_ClaimedTeamCode := b\<rparr>) = same_module t k m"
  "same_module t k (m\<lparr>TM_ClaimedAt := c\<rparr>) = same_module t k m"
  "same_module t k (m\<lparr>TM_ActorOrgSnapshot := e\<rparr>) = same_module t k m"
  "same_module t k (m\<lparr>TM_TerminalAt := f\<rparr>) = same_module t k m"
  "same_module t k (m\<lparr>TM_Data := g\<rparr>) = same_module t k m"
  "same_module t k (m\<lparr>TM_UpdatedAt := h\<rparr>) = same_module t k m"
  by (simp_all add: same_module_def)

lemma set_state_simps [simp]:
  "TM_ID (set_state now st b m) = TM_ID m" "TM_TaskID (set_state now st b m) = TM_TaskID m"
  "TM_ModuleKey (set_state now st b m) = TM_ModuleKey m" "TM_State (set_state now st b m) = st"
  "TM_Data (set_state now st b m) = TM_Data m"
  "same_module t k (set_state now st b m) = same_module t k m"
  by (simp_all add: set_state_def)

lemma same_module_key: "same_module t k m \<longleftrightarrow> module_uk m = (t, ci_key k)"
  by (auto simp: same_module_def module_uk_def ci_eq_def)

lemma enter_row_same:
  "\<exists>m. module_row (enter_row now t k st pool data d) t k = Some m \<and>
       entered m = (st, pool, data) \<and> TM_ClaimedBy m = None \<and> TM_TerminalAt m = None"
proof (cases "module_row d t k")
  case None
  then show ?thesis
    by (simp add: enter_row_def module_row_def tab_simps same_module_def entered_def)
next
  case (Some m)
  then have "same_module t k m" by (auto simp: module_row_def dest: find_SomeD)
  then show ?thesis using Some
    by (simp add: enter_row_def module_row_def find_row_upd entered_def)
qed

lemma enter_row_other:
  assumes "(t, ci_key k) \<noteq> (t', ci_key k')"
  shows "module_row (enter_row now t k st pool data d) t' k' = module_row d t' k'"
proof -
  have "\<not> (same_module t k m \<and> same_module t' k' m)" for m
    using assms by (auto simp: same_module_key)
  then show ?thesis using assms
    by (cases "module_row d t k"; cases "module_row d t' k'")
       (auto simp: enter_row_def module_row_def tab_simps same_module_def ci_eq_def
          dest: find_SomeD)
qed

interpretation mt: module_table module_row "enter_cols now" entered ci_key for now
  by unfold_locales (use enter_row_same enter_row_other in \<open>fastforce simp: enter_cols_def\<close>)+

end
