(* ===== verification/Permission.thy ===== *)
theory Permission
  imports Module_Store
begin

section \<open>Authorisation of module actions\<close>

text \<open>
  \<^verbatim>\<open>src/service/permission\<close>: whether an actor's scope covers a module (\<^verbatim>\<open>scope.go\<close>) and whether
  an action is allowed on it (\<^verbatim>\<open>authorize_module_action.go\<close>). A service call returns a
  \<^verbatim>\<open>Decision\<close> and never an error: \<open>call\<close> runs a database action and turns its error into a
  decision.
\<close>

type_synonym 'r svc = "mdb world \<Rightarrow> 'r \<times> mdb world"

definition call :: "'a mact \<Rightarrow> (db_error \<Rightarrow> 'r) \<Rightarrow> ('a \<Rightarrow> 'r svc) \<Rightarrow> 'r svc" where
  "call m on_err k w = (case m w of (Inl e, w') \<Rightarrow> (on_err e, w') | (Inr x, w') \<Rightarrow> k x w')"

definition answer :: "'r \<Rightarrow> 'r svc" where
  "answer r w = (r, w)"

lemma answer_eq [simp]: "answer r w = (x, w') \<longleftrightarrow> x = r \<and> w' = w"
  by (auto simp: answer_def)

lemma call_eq:
  "call m h k w = (r, w') \<longleftrightarrow>
   (\<exists>e. m w = (Inl e, w') \<and> r = h e) \<or> (\<exists>x w1. m w = (Inr x, w1) \<and> k x w1 = (r, w'))"
  by (auto simp: call_def split: prod.splits sum.splits)

lemma query_keeps: "query g w = (r, w') \<Longrightarrow> wdb w' = wdb w"
  using query_wdb [of g w] by simp

text \<open>A read: an error, with the database as it was, or the continuation with the value read.\<close>

lemma call_query:
  assumes "call (query g) h k w = (r, w')"
  obtains (failed) e where "r = h e" "wdb w' = wdb w"
  | (read) w1 where "wdb w1 = wdb w" "k (g (wdb w)) w1 = (r, w')"
proof (cases "query g w")
  case (Pair x w1)
  have keep: "wdb w1 = wdb w" using query_keeps [OF Pair] .
  show ?thesis
  proof (cases x)
    case (Inl e)
    then show ?thesis using failed [of e] assms Pair keep by (simp add: call_def)
  next
    case (Inr y)
    then show ?thesis using read [of w1] assms Pair keep query_success [of g w y w1] by (simp add: call_def)
  qed
qed

lemma call_Inr [act_simps]: "m w = (Inr x, w') \<Longrightarrow> call m h k w = k x w'"
  by (simp add: call_def)

lemma call_Inl [act_simps]: "m w = (Inl e, w') \<Longrightarrow> call m h k w = (h e, w')"
  by (simp add: call_def)

definition internal :: "db_error \<Rightarrow> Decision" where
  "internal e = Deny DenyInternalError"

lemma internal_not_Allow [simp]: "internal e \<noteq> Allow" "Allow \<noteq> internal e"
  by (simp_all add: internal_def)

subsection \<open>Scope\<close>

definition hasRole :: "RequestActor \<Rightarrow> string \<Rightarrow> bool" where
  "hasRole actor role \<longleftrightarrow>
     list_ex (\<lambda>candidate. candidate = role) (RA_Roles actor) \<or>
     list_ex (\<lambda>candidate. EqualFold candidate role) (FA_Roles (RA_FrontendAccess actor))"

definition stringIn :: "string \<Rightarrow> string list list \<Rightarrow> bool" where
  "stringIn value0 groups =
     (let value = TrimSpace value0 in
      list_ex (list_ex (\<lambda>item. EqualFold value (TrimSpace item))) groups)"

definition team_groups :: "RequestActor \<Rightarrow> string list list" where
  "team_groups actor = [RA_ManagedTeams actor, FA_ManagedTeams (RA_FrontendAccess actor),
     FA_TeamCodes (RA_FrontendAccess actor)]"

definition department_groups :: "RequestActor \<Rightarrow> string list list" where
  "department_groups actor = [RA_ManagedDepartments actor,
     FA_ManagedDepartments (RA_FrontendAccess actor), FA_DepartmentCodes (RA_FrontendAccess actor)]"

definition actorDepartmentMatches :: "RequestActor \<Rightarrow> string \<Rightarrow> bool" where
  "actorDepartmentMatches actor department \<longleftrightarrow>
     EqualFold (TrimSpace (RA_Department actor)) department \<or>
     stringIn department (department_groups actor)"

definition teamInActor :: "string \<Rightarrow> RequestActor \<Rightarrow> bool" where
  "teamInActor team0 actor =
     (let team = TrimSpace team0 in
      if team = [] then False
      else if EqualFold team (TrimSpace (RA_Team actor)) then True
      else if stringIn team (team_groups actor) then True
      else list_ex (\<lambda>(department, tteam).
             actorDepartmentMatches actor department \<and>
             (EqualFold tteam (TrimSpace (RA_Team actor)) \<or> stringIn tteam (team_groups actor)))
           (PoolTeamTargets team))"

definition teamManagedByActor :: "string \<Rightarrow> RequestActor \<Rightarrow> bool" where
  "teamManagedByActor team0 actor =
     (let team = TrimSpace team0 in
      if team = [] then False
      else if EqualFold team (TrimSpace (RA_Team actor)) then True
      else if stringIn team (team_groups actor) then True
      else list_ex (\<lambda>(department, tteam).
             actorDepartmentMatches actor department \<and> stringIn tteam (team_groups actor))
           (PoolTeamTargets team))"

definition basicInfoLeadScope :: "RequestActor \<Rightarrow> Task \<Rightarrow> bool" where
  "basicInfoLeadScope actor task =
     (if \<not> hasRole actor RoleTeamLead then False
      else let creatorTeam0 = TrimSpace (T_OwnerOrgTeam task);
               creatorTeam = (if creatorTeam0 = [] then TrimSpace (T_OwnerTeam task) else creatorTeam0)
           in creatorTeam \<noteq> [] \<and> teamManagedByActor creatorTeam actor)"

text \<open>The actor holds the claim of the module.\<close>

definition claimedBySelf :: "RequestActor \<Rightarrow> TaskModule \<Rightarrow> bool" where
  "claimedBySelf actor tm \<longleftrightarrow> RA_ID actor > 0 \<and> TM_ClaimedBy tm = Some (RA_ID actor)"

definition ScopeAllows :: "RequestActor \<Rightarrow> Task \<Rightarrow> TaskModule \<Rightarrow> bool" where
  "ScopeAllows actor task tm =
     (if hasRole actor RoleSuperAdmin \<or> FA_IsSuperAdmin (RA_FrontendAccess actor) then True
      else if TM_ModuleKey tm = ModuleKeyBasicInfo then
        (if RA_ID actor > 0 \<and> RA_ID actor = T_CreatorID task then True
         else basicInfoLeadScope actor task)
      else if (case DescriptorFor (TM_ModuleKey tm) of
                 None \<Rightarrow> False
               | Some desc \<Rightarrow> hasRole actor RoleDeptAdmin \<and>
                   stringIn (TrimSpace (D_Department desc)) (department_groups actor)) then True
      else if claimedBySelf actor tm then True
      else if TM_State tm = ModuleStatePendingClaim then
        (case TM_PoolTeamCode tm of None \<Rightarrow> False | Some pool \<Rightarrow> teamInActor pool actor)
      else (case TM_ClaimedTeamCode tm of
              None \<Rightarrow> False
            | Some team \<Rightarrow> hasRole actor RoleTeamLead \<and> teamManagedByActor team actor))"

subsection \<open>Actions\<close>

definition roleFilterAllows :: "RoleFilter \<Rightarrow> RequestActor \<Rightarrow> Task \<Rightarrow> TaskModule \<Rightarrow> bool" where
  "roleFilterAllows flt actor task tm =
     (if hasRole actor RoleSuperAdmin then True
      else case flt of
        RoleScopedWorker \<Rightarrow> True
      | RoleSelfOnly \<Rightarrow> claimedBySelf actor tm
      | RoleSelfOrLead \<Rightarrow>
          claimedBySelf actor tm \<or> hasRole actor RoleTeamLead \<or> hasRole actor RoleDeptAdmin
      | RoleLeadOrDepartmentAdmin \<Rightarrow> hasRole actor RoleTeamLead \<or> hasRole actor RoleDeptAdmin
      | RoleDepartmentAdmin \<Rightarrow> hasRole actor RoleDeptAdmin
      | RoleCreatorOrOpsLead \<Rightarrow>
          RA_ID actor > 0 \<and> RA_ID actor = T_CreatorID task \<or>
          hasRole actor RoleTeamLead \<or> hasRole actor RoleDeptAdmin
      | RoleCreatorOrAdmin \<Rightarrow>
          RA_ID actor > 0 \<and> RA_ID actor = T_CreatorID task \<or> hasRole actor RoleDeptAdmin)"

text \<open>The decision once the module row (or none) has been read.\<close>

definition authorize_row ::
  "RequestActor \<Rightarrow> Task \<Rightarrow> string \<Rightarrow> string \<Rightarrow> TaskModule option \<Rightarrow> Decision" where
  "authorize_row actor task moduleKey actionName row =
     (case row of
        None \<Rightarrow> Deny DenyModuleNotInstantiated
      | Some tm \<Rightarrow>
         if \<not> ScopeAllows actor task tm then Deny DenyModuleOutOfScope
         else if actionName = ModuleActionClaim then Allow
         else case ActionSpecFor moduleKey actionName of
                None \<Rightarrow> Deny DenyModuleActionRoleDenied
              | Some spec \<Rightarrow>
                 (case NextState moduleKey (TM_State tm) actionName of
                    Inl denyCode \<Rightarrow> Deny denyCode
                  | Inr _ \<Rightarrow> if \<not> roleFilterAllows (AS_RoleFilter spec) actor task tm
                             then Deny DenyModuleActionRoleDenied else Allow))"

definition AuthorizeKnownTaskModuleAction ::
  "RequestActor \<Rightarrow> Task \<Rightarrow> string \<Rightarrow> string \<Rightarrow> Decision svc" where
  "AuthorizeKnownTaskModuleAction actor task moduleKey actionName =
     call (GetByTaskAndKey (T_ID task) moduleKey) internal
       (\<lambda>row. answer (authorize_row actor task moduleKey actionName row))"

definition AuthorizeModuleAction :: "RequestActor \<Rightarrow> id \<Rightarrow> string \<Rightarrow> string \<Rightarrow> Decision svc" where
  "AuthorizeModuleAction actor taskID moduleKey actionName =
     call (TaskRepo_GetByID taskID) internal (\<lambda>t.
       case t of None \<Rightarrow> answer (Deny DenyTaskNotFound)
       | Some task \<Rightarrow> AuthorizeKnownTaskModuleAction actor task moduleKey actionName)"

subsection \<open>What an allowed action tells\<close>

lemma authorize_row_Allow:
  "authorize_row actor task k a row = Allow \<longleftrightarrow>
   (\<exists>tm. row = Some tm \<and> ScopeAllows actor task tm \<and>
      (a = ModuleActionClaim \<or>
       (\<exists>spec st. ActionSpecFor k a = Some spec \<and> NextState k (TM_State tm) a = Inr st \<and>
          roleFilterAllows (AS_RoleFilter spec) actor task tm)))"
  unfolding authorize_row_def
  by (cases row; cases "ActionSpecFor k a"; cases "NextState k (TM_State (the row)) a") auto

lemma Authorize_read:
  "AuthorizeKnownTaskModuleAction actor task k a w = (Allow, w') \<Longrightarrow>
   authorize_row actor task k a (module_row (wdb w) (T_ID task) k) = Allow \<and> wdb w' = wdb w"
  by (auto simp: AuthorizeKnownTaskModuleAction_def call_eq GetByTaskAndKey_def dest!: query_success)

text \<open>The filters of the table: deciding actions are for the claimant, claim and prepare for all.\<close>

lemma self_only_actions:
  "list_all (\<lambda>(k, d). list_all (\<lambda>s.
     (AS_Action s = ModuleActionSubmit \<or> AS_Action s = ModuleActionApprove \<or>
      AS_Action s = ModuleActionReject) = (AS_RoleFilter s = RoleSelfOnly) \<and>
     (AS_RoleFilter s = RoleScopedWorker) =
       (AS_Action s = ModuleActionClaim \<or> AS_Action s = ''prepare'') \<and>
     (AS_RoleFilter s \<in> {RoleCreatorOrOpsLead, RoleCreatorOrAdmin} \<longrightarrow> k = ModuleKeyBasicInfo))
     (D_Actions d)) descriptors"
  by (simp add: descriptors_def workModule_def action_def)

lemma spec_filters:
  assumes "ActionSpecFor k a = Some spec"
  shows "(a = ModuleActionSubmit \<or> a = ModuleActionApprove \<or> a = ModuleActionReject)
           = (AS_RoleFilter spec = RoleSelfOnly)"
    and "(AS_RoleFilter spec = RoleScopedWorker) = (a = ModuleActionClaim \<or> a = ''prepare'')"
    and "AS_RoleFilter spec \<in> {RoleCreatorOrOpsLead, RoleCreatorOrAdmin} \<Longrightarrow> k = ModuleKeyBasicInfo"
proof -
  from ActionSpecForD [OF assms] obtain desc where "DescriptorFor k = Some desc"
    and d: "spec \<in> set (D_Actions desc)" "AS_Action spec = a" by (elim exE conjE)
  then have k: "(k, desc) \<in> set descriptors" by (intro DescriptorFor_in)
  note f = self_only_actions [unfolded list_all_iff, rule_format, OF k, unfolded prod.case,
      rule_format, OF d(1), unfolded d(2)]
  show "(a = ModuleActionSubmit \<or> a = ModuleActionApprove \<or> a = ModuleActionReject)
           = (AS_RoleFilter spec = RoleSelfOnly)"
    by (rule f [THEN conjunct1])
  show "(AS_RoleFilter spec = RoleScopedWorker) = (a = ModuleActionClaim \<or> a = ''prepare'')"
    by (rule f [THEN conjunct2, THEN conjunct1])
  show "AS_RoleFilter spec \<in> {RoleCreatorOrOpsLead, RoleCreatorOrAdmin} \<Longrightarrow> k = ModuleKeyBasicInfo"
    by (rule f [THEN conjunct2, THEN conjunct2, THEN mp])
qed

text \<open>
  (C18) Only the actor who holds the claim of a module, or a super administrator, can submit it,
  approve it or reject it, whatever else his roles, teams and departments are, and however the
  database answers.
\<close>

theorem only_claimant_decides:
  assumes run: "AuthorizeKnownTaskModuleAction actor task k a w = (Allow, w')"
    and a: "a = ModuleActionSubmit \<or> a = ModuleActionApprove \<or> a = ModuleActionReject"
  shows "\<exists>tm st. module_row (wdb w) (T_ID task) k = Some tm \<and> NextState k (TM_State tm) a = Inr st \<and>
     (claimedBySelf actor tm \<or> hasRole actor RoleSuperAdmin)"
proof -
  obtain tm spec st where row: "module_row (wdb w) (T_ID task) k = Some tm"
    and spec: "ActionSpecFor k a = Some spec" and st: "NextState k (TM_State tm) a = Inr st"
    and flt: "roleFilterAllows (AS_RoleFilter spec) actor task tm"
    using Authorize_read [OF run] a by (auto simp: authorize_row_Allow)
  have "AS_RoleFilter spec = RoleSelfOnly" using spec_filters(1) [OF spec] a by simp
  then show ?thesis using row st flt by (auto simp: roleFilterAllows_def split: if_splits)
qed

theorem only_claimant_decides_witness:
  "let w = \<lparr>wdb = demo_db\<lparr>task_modules :=
             [demo_module 1 ModuleKeyDesign ModuleStateInProgress None (Some 9)]\<rparr>, faults = []\<rparr> in
   AuthorizeKnownTaskModuleAction (demo_actor 9 [] []) demo_task ModuleKeyDesign ModuleActionSubmit w
     = (Allow, w) \<and>
   (\<exists>tm st. module_row (wdb w) 1 ModuleKeyDesign = Some tm \<and>
      NextState ModuleKeyDesign (TM_State tm) ModuleActionSubmit = Inr st \<and>
      (claimedBySelf (demo_actor 9 [] []) tm \<or> hasRole (demo_actor 9 [] []) RoleSuperAdmin))"
proof -
  let ?w = "\<lparr>wdb = demo_db\<lparr>task_modules :=
      [demo_module 1 ModuleKeyDesign ModuleStateInProgress None (Some 9)]\<rparr>, faults = []\<rparr>"
  have run: "AuthorizeKnownTaskModuleAction (demo_actor 9 [] []) demo_task ModuleKeyDesign
      ModuleActionSubmit ?w = (Allow, ?w)"
    by (simp add: AuthorizeKnownTaskModuleAction_def GetByTaskAndKey_def act_simps answer_def
        module_row_def same_module_def demo_task_def demo_module_def demo_db_def authorize_row_Allow
        ScopeAllows_def hasRole_def demo_actor_def demo_access_def DescriptorFor_def descriptors_def
        claimedBySelf_def ActionSpecFor_def workModule_def action_def NextState_def
        roleFilterAllows_def)
  show ?thesis unfolding Let_def
    using run only_claimant_decides [OF run] by (simp add: demo_task_def)
qed

text \<open>
  An actor without administrator or team lead role can act, outside basic_info, on modules he
  has claimed himself; on any other module he can only claim it (or prepare it, in the warehouse),
  and only while it waits in pending_claim for a pool one of his teams serves.
\<close>

theorem plain_worker_scope:
  assumes run: "AuthorizeKnownTaskModuleAction actor task k a w = (Allow, w')"
    and plain: "\<not> hasRole actor RoleSuperAdmin" "\<not> FA_IsSuperAdmin (RA_FrontendAccess actor)"
      "\<not> hasRole actor RoleDeptAdmin" "\<not> hasRole actor RoleTeamLead"
    and row: "module_row (wdb w) (T_ID task) k = Some tm"
    and key: "k \<noteq> ModuleKeyBasicInfo" "TM_ModuleKey tm \<noteq> ModuleKeyBasicInfo"
  shows "claimedBySelf actor tm \<or>
     (a = ModuleActionClaim \<or> a = ''prepare'') \<and> TM_State tm = ModuleStatePendingClaim \<and>
     (\<exists>pool. TM_PoolTeamCode tm = Some pool \<and> teamInActor pool actor)"
proof (cases "claimedBySelf actor tm")
  case False
  have ok: "authorize_row actor task k a (Some tm) = Allow"
    using Authorize_read [OF run] row by simp
  then have "ScopeAllows actor task tm" by (auto simp: authorize_row_Allow)
  then have "TM_State tm = ModuleStatePendingClaim \<and>
     (\<exists>pool. TM_PoolTeamCode tm = Some pool \<and> teamInActor pool actor)"
    using plain key False by (auto simp: ScopeAllows_def split: if_splits option.splits)
  moreover have "a = ModuleActionClaim \<or> a = ''prepare''"
  proof (cases "a = ModuleActionClaim")
    case False
    then obtain spec where spec: "ActionSpecFor k a = Some spec"
      and flt: "roleFilterAllows (AS_RoleFilter spec) actor task tm"
      using ok by (auto simp: authorize_row_Allow)
    have "AS_RoleFilter spec = RoleScopedWorker"
      using flt plain \<open>\<not> claimedBySelf actor tm\<close> spec_filters(3) [OF spec] key
      by (auto simp: roleFilterAllows_def split: RoleFilter.splits)
    then show ?thesis using spec_filters(2) [OF spec] by blast
  qed simp
  ultimately show ?thesis by blast
qed simp

theorem plain_worker_scope_witness:
  "let tm = demo_module 1 ModuleKeyDesign ModuleStatePendingClaim (Some TeamDesignStandard) None;
       w = \<lparr>wdb = demo_db\<lparr>task_modules := [tm]\<rparr>, faults = []\<rparr>;
       actor = demo_actor 9 [RoleDesigner] TeamDesignStandard in
   AuthorizeKnownTaskModuleAction actor demo_task ModuleKeyDesign ModuleActionClaim w = (Allow, w) \<and>
   (claimedBySelf actor tm \<or> (\<exists>pool. TM_PoolTeamCode tm = Some pool \<and> teamInActor pool actor))"
proof -
  let ?tm = "demo_module 1 ModuleKeyDesign ModuleStatePendingClaim (Some TeamDesignStandard) None"
  let ?w = "\<lparr>wdb = demo_db\<lparr>task_modules := [?tm]\<rparr>, faults = []\<rparr>"
  let ?a = "demo_actor 9 [RoleDesigner] TeamDesignStandard"
  have row: "module_row (wdb ?w) (T_ID demo_task) ModuleKeyDesign = Some ?tm"
    by (simp add: module_row_def same_module_def demo_task_def demo_module_def)
  have plain: "\<not> hasRole ?a RoleSuperAdmin" "\<not> FA_IsSuperAdmin (RA_FrontendAccess ?a)"
      "\<not> hasRole ?a RoleDeptAdmin" "\<not> hasRole ?a RoleTeamLead"
    by (simp_all add: hasRole_def demo_actor_def demo_access_def)
  have "teamInActor TeamDesignStandard ?a"
    by (simp add: teamInActor_def demo_actor_def go_string_simps)
  then have "ScopeAllows ?a demo_task ?tm"
    by (simp add: ScopeAllows_def demo_module_def claimedBySelf_def)
  then have run: "AuthorizeKnownTaskModuleAction ?a demo_task ModuleKeyDesign ModuleActionClaim ?w
      = (Allow, ?w)"
    using row by (simp add: AuthorizeKnownTaskModuleAction_def GetByTaskAndKey_def act_simps
        answer_def authorize_row_Allow)
  show ?thesis unfolding Let_def
    using run plain_worker_scope [OF run plain row] by (simp add: demo_module_def)
qed

end
