(* ===== verification/Module_Invariant.thy ===== *)
theory Module_Invariant
  imports Module_Store
begin

section \<open>The invariant of the module tables\<close>

text \<open>
  \<open>minv\<close> says that the three tables are well formed: ids and the unique key (task, module key) are
  unique, every module belongs to a task and every event to a module, module keys are those the
  engine knows, and a closed module has its closing time. \<open>agree\<close> ties the event log to the table: the
  last event of a module that names a target state names the module's present state. Inside a
  transaction the two are written one after the other, so the triples below carry the set of
  modules whose event is still owed: \<open>linv S\<close>.
\<close>

definition minv :: "mdb \<Rightarrow> bool" where
  "minv d \<longleftrightarrow>
     distinct (map T_ID (tasks d)) \<and>
     distinct (map TM_ID (task_modules d)) \<and>
     distinct (map module_uk (task_modules d)) \<and>
     (\<forall>m \<in> set (task_modules d). TM_ID m < next_module_id d \<and> TM_TaskID m \<in> T_ID ` set (tasks d) \<and>
        TM_ModuleKey m \<in> set module_order \<and> \<not> is_placeholder m \<and>
        (Terminal (TM_State m) \<longrightarrow> TM_TerminalAt m \<noteq> None)) \<and>
     distinct (map TE_ID (module_events d)) \<and>
     (\<forall>e \<in> set (module_events d). TE_ID e < next_module_event d \<and>
        TE_TaskModuleID e \<in> TM_ID ` set (task_modules d))"

fun last_state :: "TaskModuleEvent list \<Rightarrow> id \<Rightarrow> ModuleState option \<Rightarrow> ModuleState option" where
  "last_state [] i s = s"
| "last_state (e # es) i s =
     last_state es i (if TE_TaskModuleID e = i \<and> TE_ToState e \<noteq> None then TE_ToState e else s)"

definition agree :: "mdb \<Rightarrow> TaskModule \<Rightarrow> bool" where
  "agree d m \<longleftrightarrow> last_state (module_events d) (TM_ID m) None = Some (TM_State m)"

definition linv :: "id set \<Rightarrow> mdb \<Rightarrow> bool" where
  "linv S d \<longleftrightarrow> minv d \<and> (\<forall>m \<in> set (task_modules d). TM_ID m \<notin> S \<longrightarrow> agree d m)"

lemma last_state_append [simp]: "last_state (es @ es') i s = last_state es' i (last_state es i s)"
  by (induction es arbitrary: s) auto

lemma minv_unique_module:
  "minv d \<Longrightarrow> m \<in> set (task_modules d) \<Longrightarrow> m' \<in> set (task_modules d) \<Longrightarrow>
   module_uk m = module_uk m' \<Longrightarrow> m = m'"
  unfolding minv_def by (blast intro: distinct_key_eq)

lemma minv_unique_id:
  "minv d \<Longrightarrow> m \<in> set (task_modules d) \<Longrightarrow> m' \<in> set (task_modules d) \<Longrightarrow> TM_ID m = TM_ID m' \<Longrightarrow> m = m'"
  unfolding minv_def by (blast intro: distinct_key_eq)

lemma module_rowD: "module_row d t k = Some m \<Longrightarrow> m \<in> set (task_modules d) \<and> module_uk m = (t, ci_key k)"
  by (auto simp: module_row_def same_module_key dest: find_SomeD)

lemma module_row_None: "module_row d t k = None \<longleftrightarrow> (t, ci_key k) \<notin> module_uk ` set (task_modules d)"
  by (simp add: module_row_def same_module_key find_None_iff image_iff) metis

text \<open>The table never loses a module: what a snapshot had is still there, under the same key.\<close>

definition ext :: "mdb \<Rightarrow> mdb \<Rightarrow> bool" where
  "ext snap d \<longleftrightarrow> (\<forall>m \<in> set (task_modules snap). \<exists>m' \<in> set (task_modules d).
     TM_ID m' = TM_ID m \<and> module_uk m' = module_uk m)"

lemma ext_refl [simp]: "ext d d"
  by (auto simp: ext_def)

lemma ext_trans: "ext d0 d1 \<Longrightarrow> ext d1 d2 \<Longrightarrow> ext d0 d2"
  by (fastforce simp: ext_def)

lemma ext_row:
  "ext snap d \<Longrightarrow> module_row snap t k = Some m \<Longrightarrow>
   \<exists>m' \<in> set (task_modules d). TM_ID m' = TM_ID m \<and> module_uk m' = (t, ci_key k)"
  by (fastforce simp: ext_def dest: module_rowD)

subsection \<open>Updates of rows\<close>

text \<open>
  An update of the rows with \<open>p\<close> that leaves the identifying columns alone, and that keeps the
  closing time consistent, keeps \<open>minv\<close>; only the rows with \<open>p\<close> owe an event.
\<close>

definition row_ok :: "(TaskModule \<Rightarrow> TaskModule) \<Rightarrow> bool" where
  "row_ok f \<longleftrightarrow> (\<forall>m. TM_ID (f m) = TM_ID m \<and> TM_TaskID (f m) = TM_TaskID m \<and>
     TM_ModuleKey (f m) = TM_ModuleKey m \<and> (\<not> is_placeholder m \<longrightarrow> \<not> is_placeholder (f m)) \<and>
     (Terminal (TM_State (f m)) \<longrightarrow> TM_TerminalAt (f m) \<noteq> None))"

lemma minv_row_upd:
  assumes "minv d" and "row_ok f"
  shows "minv (d\<lparr>task_modules := row_upd p f (task_modules d)\<rparr>)"
proof -
  have f: "TM_ID (f m) = TM_ID m" "module_uk (f m) = module_uk m" for m
    using assms(2) by (auto simp: row_ok_def module_uk_def)
  have ids: "TM_ID ` set (row_upd p f (task_modules d)) = TM_ID ` set (task_modules d)"
    using map_row_upd [of TM_ID f p "task_modules d"] f(1) by (metis list.set_map)
  show ?thesis
    using assms by (auto simp: minv_def map_row_upd f ids row_ok_def dest!: set_row_updD)
qed

lemma linv_row_upd:
  assumes "linv S d" and "row_ok f"
    and "\<And>m. m \<in> set (task_modules d) \<Longrightarrow> p m \<Longrightarrow> TM_ID m \<in> S'" and "S \<subseteq> S'"
  shows "linv S' (d\<lparr>task_modules := row_upd p f (task_modules d)\<rparr>)"
  using assms minv_row_upd [of d f p]
  by (force simp: linv_def agree_def row_ok_def row_upd_def)

lemma ext_row_upd:
  assumes "row_ok f"
  shows "ext d (d\<lparr>task_modules := row_upd p f (task_modules d)\<rparr>)"
proof -
  have "\<exists>m' \<in> set (row_upd p f (task_modules d)). TM_ID m' = TM_ID m \<and> module_uk m' = module_uk m"
    if "m \<in> set (task_modules d)" for m
    using that assms
    by (intro bexI [of _ "if p m then f m else m"]) (auto simp: row_ok_def module_uk_def row_upd_def)
  then show ?thesis by (simp add: ext_def)
qed

lemma row_ok_set_state: "(Terminal st \<longrightarrow> b) \<Longrightarrow> row_ok (set_state now st b)"
  by (auto simp: row_ok_def set_state_def is_placeholder_def)

subsection \<open>Inserting modules and events\<close>

lemma enter_row_minv:
  assumes "minv d" and "t \<in> T_ID ` set (tasks d)" and "k \<in> set module_order"
    and "\<not> Terminal st" and "map_of data ''backfill_placeholder'' \<noteq> Some (JFlag True)"
  shows "minv (enter_row now t k st pool data d)"
proof (cases "module_row d t k")
  case None
  then have "(t, ci_key k) \<notin> module_uk ` set (task_modules d)" by (simp add: module_row_None)
  then have "(t, ci_key k) \<notin> set (map module_uk (task_modules d))" by simp
  moreover have "next_module_id d \<notin> set (map TM_ID (task_modules d))"
    using assms(1) by (auto simp: minv_def)
  ultimately show ?thesis
    using assms None by (auto simp: enter_row_def minv_def module_uk_def is_placeholder_def)
next
  case (Some m)
  show ?thesis unfolding enter_row_def Some option.case
    using assms by (intro minv_row_upd) (auto simp: row_ok_def is_placeholder_def)
qed

lemma enter_row_ext: "ext d (enter_row now t k st pool data d)"
proof (cases "module_row d t k")
  case None
  then show ?thesis by (auto simp: enter_row_def ext_def)
next
  case (Some m)
  have "\<exists>m' \<in> set (row_upd (same_module t k) f (task_modules d)).
          TM_ID m' = TM_ID x \<and> module_uk m' = module_uk x"
    if "x \<in> set (task_modules d)" and "\<And>m. TM_ID (f m) = TM_ID m \<and> module_uk (f m) = module_uk m"
    for x f
    using that by (intro bexI [of _ "if same_module t k x then f x else x"]) (auto simp: row_upd_def)
  then show ?thesis using Some by (auto simp: enter_row_def ext_def module_uk_def)
qed

lemma enter_row_other_rows:
  assumes "m \<in> set (task_modules (enter_row now t k st pool data d))"
    and "module_uk m \<noteq> (t, ci_key k)"
  shows "m \<in> set (task_modules d)"
  using assms
  by (cases "module_row d t k")
     (auto simp: enter_row_def module_uk_def same_module_def ci_eq_def dest!: set_row_updD)

lemma enter_row_events [simp]:
  "module_events (enter_row now t k st pool data d) = module_events d"
  "tasks (enter_row now t k st pool data d) = tasks d"
  by (auto simp: enter_row_def split: option.splits)

lemma insert_event_minv:
  "minv d \<Longrightarrow> TE_TaskModuleID ev \<in> TM_ID ` set (task_modules d) \<Longrightarrow> minv (insert_event now ev d)"
  by (auto simp: minv_def insert_event_def)

lemma insert_event_simps [simp]:
  "task_modules (insert_event now ev d) = task_modules d" "tasks (insert_event now ev d) = tasks d"
  "next_module_id (insert_event now ev d) = next_module_id d"
  by (simp_all add: insert_event_def)

text \<open>Paying the owed event of the modules in \<open>S\<close>, whose present state is \<open>st\<close>.\<close>

lemma insert_event_linv:
  assumes "linv S d" and "TE_TaskModuleID ev \<in> TM_ID ` set (task_modules d)"
    and "TE_ToState ev = Some st"
    and "\<And>m. m \<in> set (task_modules d) \<Longrightarrow> TM_ID m = TE_TaskModuleID ev \<Longrightarrow> TM_State m = st"
  shows "linv (S - {TE_TaskModuleID ev}) (insert_event now ev d)"
  using assms insert_event_minv [of d ev now]
  by (auto simp: linv_def agree_def insert_event_def)

subsection \<open>Triples of the repository methods\<close>

lemma triple_EventInsert:
  assumes "TE_ToState ev = Some st"
  shows "triple (\<lambda>d. linv S d \<and> ext snap d \<and> (\<forall>m \<in> set (task_modules d).
            (TM_ID m = TE_TaskModuleID ev \<longrightarrow> TM_State m = st) \<and> P m))
          (EventInsert now ev)
          (\<lambda>_ d. linv (S - {TE_TaskModuleID ev}) d \<and> ext snap d \<and> (\<forall>m \<in> set (task_modules d). P m))"
  unfolding EventInsert_def
  by (rule triple_stmt)
     (auto split: if_splits simp: ext_def intro!: insert_event_linv [OF _ _ assms])

text \<open>\<open>Enter\<close> returns the entered row, the only one that owes an event.\<close>

lemma triple_Enter:
  assumes "k \<in> set module_order" and "\<not> Terminal st"
  shows "triple (\<lambda>d. linv {} d \<and> ext snap d) (Enter now t k st pool [])
          (\<lambda>m d. linv {TM_ID m} d \<and> ext snap d \<and>
             (\<forall>m' \<in> set (task_modules d). (TM_ID m' = TM_ID m \<longrightarrow> TM_State m' = st) \<and> True))"
proof (rule tripleI)
  fix w x w'
  assume pre: "linv {} (wdb w) \<and> ext snap (wdb w)" and run: "Enter now t k st pool [] w = (Inr x, w')"
  let ?d = "enter_row now t k st pool [] (wdb w)"
  obtain w1 y w2 where ins: "stmt (\<lambda>d. if t \<in> T_ID ` set (tasks d)
        then Inr ((), enter_row now t k st pool [] d) else Inl ErrDB) w = (Inr (), w1)"
    and sel: "query (\<lambda>d. module_row d t k) w1 = (Inr y, w2)"
    and res: "(case y of None \<Rightarrow> throw ErrDB | Some m \<Rightarrow> ret m) w2 = (Inr x, w')"
    using run unfolding Enter_def bnd_eq_Inr getByTaskAndKeyTx_def by auto
  have t: "t \<in> T_ID ` set (tasks (wdb w))" and w1: "wdb w1 = ?d"
    using stmt_success [OF ins] by (auto split: if_splits)
  have y: "y = Some x" "w' = w2" using res by (auto split: option.splits)
  have d: "wdb w' = ?d" and x: "module_row ?d t k = Some x"
    using query_success [OF sel] w1 y by auto
  have inv: "minv ?d" using pre t assms by (intro enter_row_minv) (auto simp: linv_def)
  have xin: "x \<in> set (task_modules ?d)" "module_uk x = (t, ci_key k)"
    using x module_rowD by blast+
  have xst: "TM_State x = st"
    using x enter_row_same [of now t k st pool "[]" "wdb w"] by (auto simp: entered_def)
  have ag: "agree ?d m" if m: "m \<in> set (task_modules ?d)" and ne: "TM_ID m \<noteq> TM_ID x" for m
  proof -
    have "module_uk m \<noteq> (t, ci_key k)" using minv_unique_module [OF inv m xin(1)] ne xin(2) by auto
    then have "m \<in> set (task_modules (wdb w))" using m enter_row_other_rows by blast
    then show ?thesis using pre by (simp add: linv_def agree_def)
  qed
  have "ext snap ?d" using pre enter_row_ext ext_trans by blast
  then show "linv {TM_ID x} (wdb w') \<and> ext snap (wdb w') \<and>
      (\<forall>m' \<in> set (task_modules (wdb w')). (TM_ID m' = TM_ID x \<longrightarrow> TM_State m' = st) \<and> True)"
    unfolding d using inv ag xst minv_unique_id [OF inv _ xin(1)] by (auto simp: linv_def)
qed

lemma triple_UpdateState:
  assumes "Terminal st \<longrightarrow> b"
  shows "triple (\<lambda>d. linv {} d \<and> ext snap d \<and>
            (\<exists>m \<in> set (task_modules d). TM_ID m = i \<and> module_uk m = (t, ci_key k)))
          (UpdateState now t k st b)
          (\<lambda>_ d. linv {i} d \<and> ext snap d \<and>
             (\<forall>m \<in> set (task_modules d). (TM_ID m = i \<longrightarrow> TM_State m = st) \<and> True))"
  unfolding UpdateState_def
proof (rule triple_exec, elim conjE bexE)
  fix d m
  assume l: "linv {} d" and e: "ext snap d" and m: "m \<in> set (task_modules d)" "TM_ID m = i"
    "module_uk m = (t, ci_key k)"
  let ?d = "d\<lparr>task_modules := row_upd (same_module t k) (set_state now st b) (task_modules d)\<rparr>"
  have only: "same_module t k m' \<longleftrightarrow> TM_ID m' = i" if "m' \<in> set (task_modules d)" for m'
    using l m that by (auto simp: same_module_key linv_def
        dest: minv_unique_module minv_unique_id)
  have "linv {i} ?d"
    using only by (intro linv_row_upd [OF l row_ok_set_state [OF assms]]) auto
  moreover have "ext snap ?d"
    using e ext_row_upd [OF row_ok_set_state [OF assms]] ext_trans by blast
  moreover have "TM_State x = st" if xin: "x \<in> set (task_modules ?d)" and xi: "TM_ID x = i" for x
  proof -
    obtain r where r: "r \<in> set (task_modules d)"
      and x: "x = (if same_module t k r then set_state now st b r else r)"
      using xin by (auto simp: row_upd_def)
    have "TM_ID r = i" using xi x by (simp split: if_splits)
    then show ?thesis using only [OF r] x by simp
  qed
  ultimately show "linv {i} ?d \<and> ext snap ?d \<and>
      (\<forall>m \<in> set (task_modules ?d). (TM_ID m = i \<longrightarrow> TM_State m = st) \<and> True)"
    by simp
qed

lemma upd_task_simps [simp]:
  "task_modules (upd_task now i f d) = task_modules d"
  "module_events (upd_task now i f d) = module_events d"
  by (simp_all add: upd_task_def)

lemma upd_task_linv:
  assumes "\<And>t. T_ID (f t) = T_ID t" and "linv S d"
  shows "linv S (upd_task now i f d)"
proof -
  have "map T_ID (tasks (upd_task now i f d)) = map T_ID (tasks d)"
    unfolding upd_task_def by (simp add: map_row_upd assms(1))
  then have "T_ID ` set (tasks (upd_task now i f d)) = T_ID ` set (tasks d)"
    and "distinct (map T_ID (tasks (upd_task now i f d))) = distinct (map T_ID (tasks d))"
    by (metis list.set_map, simp)
  then show ?thesis using assms(2)
    by (simp add: linv_def minv_def agree_def) (simp add: upd_task_def)
qed

lemma triple_upd_task:
  assumes "\<And>t. T_ID (f t) = T_ID t"
  shows "triple (\<lambda>d. linv S d \<and> ext snap d)
     (bnd (exec (upd_task now i f)) (\<lambda>_. reindexTaskSearchDocument i))
     (\<lambda>_ d. linv S d \<and> ext snap d)"
  unfolding reindexTaskSearchDocument_def
  by (rule triple_bnd [where R = "\<lambda>_ d. linv S d \<and> ext snap d"])
     (auto intro!: triple_exec triple_query upd_task_linv assms simp: ext_def)

lemma triple_task_updates:
  "triple (\<lambda>d. linv S d \<and> ext snap d) (UpdateStatus now i st) (\<lambda>_ d. linv S d \<and> ext snap d)"
  "triple (\<lambda>d. linv S d \<and> ext snap d) (UpdateHandler now i h) (\<lambda>_ d. linv S d \<and> ext snap d)"
  "triple (\<lambda>d. linv S d \<and> ext snap d) (UpdateDesigner now i h) (\<lambda>_ d. linv S d \<and> ext snap d)"
  unfolding UpdateStatus_def UpdateHandler_def UpdateDesigner_def
  by (rule triple_upd_task, simp)+

end
