(* ===== verification/Go_Strings.thy ===== *)
theory Go_Strings
  imports Prelude "HOL-Library.Sublist"
begin

section \<open>Facts on trimmed strings\<close>

text \<open>
  \<open>TrimSpace\<close> is idempotent, and on a string whose ends are printable ASCII it only removes the
  blanks behind it. The services trim the same request field more than once, and compare trimmed
  strings with strings the database has compared under its own collation.
\<close>

lemma trim_left_stable: "trim_left (trim_left s) = trim_left s"
  by (induction s rule: trim_left.induct) auto

lemma trim_right_rev_stable: "trim_right_rev (trim_right_rev s) = trim_right_rev s"
  by (induction s rule: trim_right_rev.induct) auto

lemma trim_right_rev_suffix: "suffix (trim_right_rev s) s"
  by (induction s rule: trim_right_rev.induct) (auto intro: suffix_ConsI)

lemma trim_left_prefix: "trim_left (p @ q) = p @ q \<Longrightarrow> trim_left p = p"
proof -
  have len: "length (trim_left s) \<le> length s" for s
    by (induction s rule: trim_left.induct) auto
  assume stable: "trim_left (p @ q) = p @ q"
  consider "p = []" | a where "p = [a]" | a b where "p = [a, b]" | a b c p' where "p = a # b # c # p'"
    by (metis neq_Nil_conv)
  then show ?thesis
  proof cases
    case (2 a)
    have "\<not> ascii_space a"
    proof
      assume a: "ascii_space a"
      then have "length (trim_left (a # q)) \<le> length q"
        using len [of q] by (cases q; cases "tl q") (auto simp: le_Suc_eq intro: len [THEN le_trans])
      then show False using stable 2 by simp
    qed
    then show ?thesis using 2 by simp
  next
    case (3 a b)
    have "\<not> ascii_space a \<and> \<not> uspace2 a b"
    proof (rule ccontr)
      assume a: "\<not> (\<not> ascii_space a \<and> \<not> uspace2 a b)"
      then have "length (trim_left (a # b # q)) \<le> Suc (length q)"
        using len [of "b # q"] len [of q] len [of "[b]"] by (cases q) auto
      then show False using stable 3 by simp
    qed
    then show ?thesis using 3 by simp
  next
    case (4 a b c p')
    have "\<not> ascii_space a \<and> \<not> uspace2 a b \<and> \<not> uspace3 a b c"
    proof (rule ccontr)
      assume a: "\<not> (\<not> ascii_space a \<and> \<not> uspace2 a b \<and> \<not> uspace3 a b c)"
      then have "length (trim_left (a # b # c # p' @ q)) \<le> Suc (Suc (length (p' @ q)))"
        using len [of "b # c # p' @ q"] len [of "c # p' @ q"] len [of "p' @ q"] by auto
      then show False using stable 4 by simp
    qed
    then show ?thesis using 4 by simp
  qed simp
qed

lemma TrimSpace_idem [simp]: "TrimSpace (TrimSpace s) = TrimSpace s"
proof -
  let ?u = "trim_left s" and ?v = "rev (trim_right_rev (rev (trim_left s)))"
  obtain t where "rev ?u = t @ trim_right_rev (rev ?u)" using trim_right_rev_suffix by (metis suffix_def)
  then have "?u = ?v @ rev t" by (metis rev_append rev_rev_ident)
  then have "trim_left ?v = ?v" using trim_left_prefix trim_left_stable by metis
  then show ?thesis by (simp add: TrimSpace_def trim_right_rev_stable)
qed

subsection \<open>Printable ASCII\<close>

definition printable :: "char \<Rightarrow> bool" where
  "printable c \<longleftrightarrow> 32 < (of_char c :: nat) \<and> (of_char c :: nat) < 127"

lemma printable_not_space: "printable c \<Longrightarrow> \<not> ascii_space c"
  by (auto simp: printable_def ascii_space_def)

lemma printable_not_lead: "printable a \<Longrightarrow> \<not> uspace2 a b \<and> \<not> uspace3 a b c"
  by (auto simp: printable_def uspace2_def uspace3_def)

lemma printable_not_trail: "printable c \<Longrightarrow> \<not> uspace2 b c \<and> \<not> uspace3 a b c"
  by (auto simp: printable_def uspace2_def uspace3_def)

lemma trim_left_printable: "printable a \<Longrightarrow> trim_left (a # s) = a # s"
  by (cases s; cases "tl s") (auto dest: printable_not_space printable_not_lead)

lemma trim_right_printable: "printable c \<Longrightarrow> trim_right_rev (c # s) = c # s"
  by (cases s; cases "tl s") (auto dest: printable_not_space printable_not_trail)

lemma trim_right_blanks: "trim_right_rev (replicate n (CHR 0x20) @ s) = trim_right_rev s"
proof (induction n)
  case (Suc n)
  have "trim_right_rev (CHR 0x20 # r) = trim_right_rev r" for r
    by (cases r; cases "tl r") (auto simp: ascii_space_def)
  then show ?case using Suc by simp
qed simp

lemma TrimSpace_printable:
  assumes "list_all printable u" and "u \<noteq> []"
  shows "TrimSpace (u @ replicate n (CHR 0x20)) = u"
proof -
  obtain a s where u: "u = a # s" using assms(2) by (cases u) auto
  obtain b r where r: "rev u = b # r" using assms(2) by (cases "rev u") auto
  have p: "printable a" "printable b"
    using assms(1) u r by (simp, metis list.set_intros(1) list_all_iff set_rev)
  have "trim_left (u @ replicate n (CHR 0x20)) = u @ replicate n (CHR 0x20)"
    unfolding u append_Cons by (rule trim_left_printable [OF p(1)])
  moreover have "trim_right_rev (rev u) = rev u"
    unfolding r by (rule trim_right_printable [OF p(2)])
  ultimately show ?thesis by (simp add: TrimSpace_def trim_right_blanks)
qed

lemma trim_left_suffix: "suffix (trim_left s) s"
  by (induction s rule: trim_left.induct) (auto intro: suffix_ConsI)

lemmas trim_lengths =
  suffix_length_le [OF trim_left_suffix] suffix_length_le [OF trim_right_rev_suffix]

lemma trimmed_no_trailing_blank:
  assumes "TrimSpace s = s"
  shows "dropWhile (\<lambda>c. c = CHR 0x20) (rev s) = rev s"
proof (cases "rev s")
  case (Cons c r)
  have "c \<noteq> CHR 0x20"
  proof
    assume c: "c = CHR 0x20"
    have "length (trim_left s) = length s"
      using trim_lengths [of "rev (trim_left s)"] trim_lengths [of s] assms
      by (metis TrimSpace_def le_antisym length_rev)
    then have "trim_left s = s"
      using trim_left_suffix by (metis append_eq_append_conv suffix_def append_Nil)
    then have "trim_right_rev (rev s) = rev s" using assms by (metis TrimSpace_def rev_rev_ident)
    moreover have "trim_right_rev (rev s) = trim_right_rev r"
      using trim_right_blanks [of 1 r] Cons c by simp
    ultimately have "length (c # r) \<le> length r" using trim_lengths(2) [of r] Cons by metis
    then show False by simp
  qed
  then show ?thesis using Cons by simp
qed simp

end
