(* ===== verification/Task_Pool.thy ===== *)
theory Task_Pool
  imports Permission Module_Invariant Go_Strings
begin

section \<open>The task pool: listing and claiming modules\<close>

text \<open>
  \<^verbatim>\<open>src/service/task_pool\<close>: \<^verbatim>\<open>pool_query.go\<close> lists the modules an actor may claim,
  \<^verbatim>\<open>claim_cas.go\<close> claims one. \<^verbatim>\<open>Claim\<close> reads task and module first and then runs one transaction
  whose first statement is the compare-and-set \<^verbatim>\<open>ClaimCAS\<close>; \<open>Claim_commit\<close> is that second half, with
  whatever (possibly outdated) rows the first half has read. The order in which Go ranges over a
  map is not fixed: \<open>ord\<close> gives it, one order per call of \<^verbatim>\<open>actorTeams\<close>. The web socket broadcast and
  the notification generator, whose error is dropped, have no effect on these tables.
\<close>

subsection \<open>Teams and pools of an actor\<close>

definition actorTeams_set :: "RequestActor \<Rightarrow> string list" where
  "actorTeams_set actor = remdups (filter (\<lambda>v. v \<noteq> []) (map TrimSpace
     (RA_Team actor # RA_ManagedTeams actor @ FA_TeamCodes (RA_FrontendAccess actor) @
      FA_ManagedTeams (RA_FrontendAccess actor))))"

definition actorTeams :: "(string list \<Rightarrow> string list) \<Rightarrow> RequestActor \<Rightarrow> string list" where
  "actorTeams ord actor = ord (actorTeams_set actor)"

definition pool_contains :: "string list \<Rightarrow> string \<Rightarrow> bool" where
  "pool_contains values target = list_ex (\<lambda>value. EqualFold value target) values"

definition pool_actorDepartmentMatches :: "RequestActor \<Rightarrow> string \<Rightarrow> bool" where
  "pool_actorDepartmentMatches actor department =
     (if department = [] then False
      else if EqualFold (TrimSpace (RA_Department actor)) department then True
      else pool_contains (RA_ManagedDepartments actor) department \<or>
           pool_contains (FA_ManagedDepartments (RA_FrontendAccess actor)) department \<or>
           pool_contains (FA_DepartmentCodes (RA_FrontendAccess actor)) department)"

definition actorMatchesPool :: "(nat \<Rightarrow> string list \<Rightarrow> string list) \<Rightarrow> RequestActor \<Rightarrow> string \<Rightarrow> bool" where
  "actorMatchesPool ord actor pool =
     (if pool_contains (actorTeams (ord 0) actor) pool then True
      else list_ex (\<lambda>(i, department, team).
             pool_actorDepartmentMatches actor department \<and>
             pool_contains (actorTeams (ord i) actor) team)
           (enumerate 1 (PoolTeamTargets pool)))"

definition pool_codes :: "string list" where
  "pool_codes = [TeamDesignStandard, TeamDesignRetouch, TeamAuditStandard, TeamAuditCustomization,
     TeamCustomizationArt, TeamWarehouseMain, TeamProcurementMain]"

text \<open>The result of \<^verbatim>\<open>actorPoolCodes\<close>, again ranged over in some order; it is used as an IN list.\<close>

definition actorPoolCodes :: "(nat \<Rightarrow> string list \<Rightarrow> string list) \<Rightarrow> RequestActor \<Rightarrow> string list" where
  "actorPoolCodes ord actor =
     ord 0 (remdups (actorTeams (ord 1) actor @ filter (actorMatchesPool ord actor) pool_codes))"

definition poolOrderBy :: "string \<Rightarrow> (Task \<times> TaskModule) list \<Rightarrow> (Task \<times> TaskModule) list" where
  "poolOrderBy sort0 rows =
     (let s = TrimSpace sort0; byId = sort_key (\<lambda>(t, _). T_ID t) rows in
      if s = ''-updated_at'' then rev (sort_key (\<lambda>(t, _). T_UpdatedAt t) byId)
      else if s = ''updated_at'' then sort_key (\<lambda>(t, _). T_UpdatedAt t) byId
      else if s = ''-created_at'' then rev (sort_key (\<lambda>(t, _). T_CreatedAt t) byId)
      else if s = ''created_at'' then sort_key (\<lambda>(t, _). T_CreatedAt t) byId
      else sort_key (\<lambda>(t, _). field_pos (T_Priority t) [''critical'', ''high'', ''normal'', ''low''] 1)
             (sort_key (\<lambda>(t, _). T_CreatedAt t) byId))"

record PoolEntry =
  PE_TaskID :: id
  PE_ModuleKey :: string
  PE_PoolTeamCode :: string
  PE_Priority :: string
  PE_CreatedAt :: time
  PE_UpdatedAt :: time
  PE_TaskType :: TaskType
  PE_TaskNo :: string
  PE_Title :: string
  PE_ProductCode :: string

text \<open>
  The join and the WHERE clause of the listing. \<open>td\<close> is the row of \<^verbatim>\<open>task_details\<close>, which only the
  title uses (design requirement and demand text, NULL as \<open>None\<close>).
\<close>

definition pool_visible :: "RequestActor \<Rightarrow> string list \<Rightarrow> string \<Rightarrow> Task \<times> TaskModule \<Rightarrow> bool" where
  "pool_visible actor teams moduleKey row =
     (case row of (t, tm) \<Rightarrow>
        T_ID t = TM_TaskID tm \<and> TM_State tm = ModuleStatePendingClaim \<and>
        (case TM_PoolTeamCode tm of None \<Rightarrow> False | Some p \<Rightarrow> list_ex (ci_eq p) teams) \<and>
        (T_CurrentHandlerID t = None \<or> T_CurrentHandlerID t = Some (RA_ID actor)) \<and>
        (T_DesignerID t = None \<or> T_DesignerID t = Some (RA_ID actor)) \<and>
        \<not> is_placeholder tm \<and>
        (moduleKey = [] \<or> ci_eq (TM_ModuleKey tm) moduleKey))"

definition pool_rows :: "RequestActor \<Rightarrow> string list \<Rightarrow> string \<Rightarrow> mdb \<Rightarrow> (Task \<times> TaskModule) list" where
  "pool_rows actor teams moduleKey d =
     filter (pool_visible actor teams moduleKey) (List.product (tasks d) (task_modules d))"

definition pool_entry :: "(id \<Rightarrow> string option \<times> string option) \<Rightarrow> Task \<times> TaskModule \<Rightarrow> PoolEntry" where
  "pool_entry td row =
     (case row of (t, tm) \<Rightarrow> \<lparr>
        PE_TaskID = TM_TaskID tm, PE_ModuleKey = TM_ModuleKey tm,
        PE_PoolTeamCode = (case TM_PoolTeamCode tm of None \<Rightarrow> [] | Some p \<Rightarrow> p),
        PE_Priority = T_Priority t, PE_CreatedAt = T_CreatedAt t, PE_UpdatedAt = T_UpdatedAt t,
        PE_TaskType = T_TaskType t, PE_TaskNo = T_TaskNo t,
        PE_Title = (if T_ProductNameSnapshot t \<noteq> [] then T_ProductNameSnapshot t
                    else case td (T_ID t) of (Some req, _) \<Rightarrow> req | (None, Some txt) \<Rightarrow> txt
                         | (None, None) \<Rightarrow> []),
        PE_ProductCode = T_SKUCode t\<rparr>)"

definition PoolQuery_List ::
  "(id \<Rightarrow> string option \<times> string option) \<Rightarrow> (nat \<Rightarrow> string list \<Rightarrow> string list) \<Rightarrow> RequestActor \<Rightarrow>
   string \<Rightarrow> string \<Rightarrow> int \<Rightarrow> int \<Rightarrow> string \<Rightarrow> (PoolEntry list \<times> nat) mact" where
  "PoolQuery_List td ord actor moduleKey poolTeamCode limit0 offset srt =
     (let limit = (if limit0 \<le> 0 \<or> limit0 > 100 then 50 else limit0);
          teams = (if poolTeamCode \<noteq> [] then [poolTeamCode] else actorPoolCodes ord actor) in
      if poolTeamCode \<noteq> [] \<and> \<not> actorMatchesPool ord actor poolTeamCode then ret ([], 0)
      else if teams = [] then ret ([], 0)
      else bnd (query (\<lambda>d. length (pool_rows actor teams moduleKey d))) (\<lambda>total.
           bnd (stmt (\<lambda>d. if offset < 0 then Inl ErrDB
                  else Inr (take (nat limit) (drop (nat offset)
                         (poolOrderBy srt (pool_rows actor teams moduleKey d))), d))) (\<lambda>rows.
           ret (map (pool_entry td) rows, total))))"

subsection \<open>Claiming\<close>

definition taskClaimedByOther :: "Task \<Rightarrow> id \<Rightarrow> bool" where
  "taskClaimedByOther task actorID =
     (if actorID \<le> 0 then False
      else if (case T_CurrentHandlerID task of None \<Rightarrow> False | Some h \<Rightarrow> h > 0 \<and> h \<noteq> actorID) then True
      else if (case T_DesignerID task of None \<Rightarrow> False | Some h \<Rightarrow> h > 0 \<and> h \<noteq> actorID) then True
      else False)"

text \<open>\<^verbatim>\<open>matchedTeam\<close>: a team of the actor that serves the pool, or the empty string.\<close>

definition first_match :: "string list \<Rightarrow> string \<Rightarrow> string option" where
  "first_match teams target = List.find (\<lambda>team. EqualFold team target) teams"

fun match_targets :: "(nat \<Rightarrow> string list \<Rightarrow> string list) \<Rightarrow> RequestActor \<Rightarrow> nat \<Rightarrow>
  (string \<times> string) list \<Rightarrow> string" where
  "match_targets ord actor i [] = []"
| "match_targets ord actor i ((department, team) # targets) =
     (if \<not> pool_actorDepartmentMatches actor department then match_targets ord actor (Suc i) targets
      else case first_match (actorTeams (ord i) actor) team of
             Some found \<Rightarrow> found
           | None \<Rightarrow> match_targets ord actor (Suc i) targets)"

definition matchedTeam :: "(nat \<Rightarrow> string list \<Rightarrow> string list) \<Rightarrow> RequestActor \<Rightarrow> string \<Rightarrow> string" where
  "matchedTeam ord actor pool0 =
     (let pool = TrimSpace pool0 in
      if pool = [] then []
      else case first_match (actorTeams (ord 0) actor) pool of
             Some team \<Rightarrow> team
           | None \<Rightarrow> match_targets ord actor 1 (PoolTeamTargets pool))"

definition claimActorHasRole :: "RequestActor \<Rightarrow> string \<Rightarrow> bool" where
  "claimActorHasRole actor target = list_ex (\<lambda>role. role = target) (RA_Roles actor)"

definition claimActorHasAnyRole :: "RequestActor \<Rightarrow> string list \<Rightarrow> bool" where
  "claimActorHasAnyRole actor targets = list_ex (claimActorHasRole actor) targets"

definition claimActorMayBypassCustomizationPoolScope :: "RequestActor \<Rightarrow> bool" where
  "claimActorMayBypassCustomizationPoolScope actor =
     claimActorHasAnyRole actor [RoleAdmin, RoleSuperAdmin]"

definition claimActorMayClaimCustomizationModule :: "RequestActor \<Rightarrow> bool" where
  "claimActorMayClaimCustomizationModule actor \<longleftrightarrow>
     claimActorMayBypassCustomizationPoolScope actor \<or>
     claimActorHasRole actor RoleCustomizationOperator"

definition claimActorIsPureDesigner :: "RequestActor \<Rightarrow> bool" where
  "claimActorIsPureDesigner actor =
     (if \<not> claimActorHasRole actor RoleDesigner then False
      else \<not> claimActorMayClaimCustomizationModule actor)"

definition validateCustomizationModuleClaim :: "RequestActor \<Rightarrow> Task \<Rightarrow> TaskModule \<Rightarrow> Decision" where
  "validateCustomizationModuleClaim actor task tm =
     (if \<not> T_CustomizationRequired task then Deny DenyModuleActionRoleDenied
      else if T_TaskStatus task \<noteq> TaskStatusPendingCustomizationProduction
        then Deny DenyModuleStateMismatch
      else if TM_State tm \<noteq> ModuleStatePendingClaim then Deny DenyModuleStateMismatch
      else if claimActorIsPureDesigner actor then Deny DenyModuleActionRoleDenied
      else if \<not> claimActorMayClaimCustomizationModule actor then Deny DenyModuleActionRoleDenied
      else Allow)"

definition resolveClaimedTeamFallback :: "string \<Rightarrow> TaskModule \<Rightarrow> string" where
  "resolveClaimedTeamFallback confirmPoolTeamCode tm =
     (if TrimSpace confirmPoolTeamCode \<noteq> [] then TrimSpace confirmPoolTeamCode
      else case TM_PoolTeamCode tm of None \<Rightarrow> [] | Some p \<Rightarrow> TrimSpace p)"

definition actorSnapshot :: "RequestActor \<Rightarrow> jsonobj" where
  "actorSnapshot actor = [(''user_id'', JNum (RA_ID actor)), (''username'', JText (RA_Username actor)),
     (''department'', JText (RA_Department actor)), (''team'', JText (RA_Team actor)),
     (''roles'', JTexts (RA_Roles actor))]"

definition claimTaskIfUnassigned :: "time \<Rightarrow> Task \<Rightarrow> id \<Rightarrow> string \<Rightarrow> unit mact" where
  "claimTaskIfUnassigned now task actorID moduleKey =
     (if actorID \<le> 0 then ret ()
      else if taskClaimedByOther task actorID then throw taskAlreadyClaimedError
      else
        bnd (if T_CurrentHandlerID task = None then UpdateHandler now (T_ID task) (Some actorID)
             else ret ()) (\<lambda>_.
        bnd (if (TrimSpace moduleKey = ModuleKeyDesign \<or> TrimSpace moduleKey = ModuleKeyCustomization)
                \<and> T_DesignerID task = None then UpdateDesigner now (T_ID task) (Some actorID)
             else ret ()) (\<lambda>_.
        if T_TaskStatus task = TaskStatusPendingAssign
        then UpdateStatus now (T_ID task) TaskStatusInProgress else ret ())))"

text \<open>
  What \<^verbatim>\<open>Claim\<close> decides from the rows it has read: a refusal, or the trimmed module key, the pool
  code to confirm and the team to claim for.
\<close>

definition claim_check :: "(nat \<Rightarrow> string list \<Rightarrow> string list) \<Rightarrow> RequestActor \<Rightarrow> Task \<Rightarrow> TaskModule \<Rightarrow>
  string \<Rightarrow> string \<Rightarrow> Decision + string \<times> string \<times> string" where
  "claim_check ord actor task tm moduleKey0 confirm0 =
     (let pool = (case TM_PoolTeamCode tm of
                    Some p \<Rightarrow> if confirm0 = [] then p else confirm0 | None \<Rightarrow> confirm0);
          moduleKey = TrimSpace moduleKey0;
          verdict = (if moduleKey = ModuleKeyCustomization
                     then validateCustomizationModuleClaim actor task tm else Allow);
          matched = matchedTeam ord actor pool;
          claimedTeam = (if matched = [] \<and> moduleKey = ModuleKeyCustomization \<and>
                            claimActorMayBypassCustomizationPoolScope actor
                         then resolveClaimedTeamFallback pool tm else matched)
      in if verdict \<noteq> Allow then Inl verdict
         else if claimedTeam = [] then Inl (Deny DenyModuleOutOfScope)
         else Inr (moduleKey, pool, claimedTeam))"

definition Claim_tx :: "time \<Rightarrow> RequestActor \<Rightarrow> id \<Rightarrow> Task \<Rightarrow> TaskModule \<Rightarrow> string \<Rightarrow> string \<Rightarrow> string \<Rightarrow>
  unit mact" where
  "Claim_tx now actor taskID task tm moduleKey pool claimedTeam =
     bnd (ClaimCAS now taskID moduleKey pool (RA_ID actor) claimedTeam (actorSnapshot actor)) (\<lambda>ok.
     if \<not> ok then throw claimConflictError
     else bnd (claimTaskIfUnassigned now task (RA_ID actor) moduleKey) (\<lambda>_.
          bnd (EventInsert now (mevent (TM_ID tm) ModuleEventClaimed (Some ModuleStatePendingClaim)
                 (Some ModuleStateInProgress) (Some (RA_ID actor)) (actorSnapshot actor)
                 (JObj [(''claimed_team_code'', JText claimedTeam)]))) (\<lambda>_.
          ret ())))"

definition claim_error :: "db_error \<Rightarrow> Decision" where
  "claim_error e =
     (if e = taskAlreadyClaimedError then Deny DenyTaskAlreadyClaimed
      else if e = claimConflictError then Deny DenyModuleClaimConflict
      else Deny DenyInternalError)"

definition Claim_commit :: "time \<Rightarrow> RequestActor \<Rightarrow> id \<Rightarrow> Task \<Rightarrow> TaskModule \<Rightarrow> string \<Rightarrow> string \<Rightarrow>
  string \<Rightarrow> Decision svc" where
  "Claim_commit now actor taskID task tm moduleKey pool claimedTeam =
     call (RunInTx (Claim_tx now actor taskID task tm moduleKey pool claimedTeam)) claim_error
       (\<lambda>_. answer Allow)"

definition Claim :: "(nat \<Rightarrow> string list \<Rightarrow> string list) \<Rightarrow> time \<Rightarrow> RequestActor \<Rightarrow> id \<Rightarrow> string \<Rightarrow> string \<Rightarrow>
  Decision svc" where
  "Claim ord now actor taskID moduleKey confirmPoolTeamCode =
     call (TaskRepo_GetByID taskID) internal (\<lambda>t. case t of
       None \<Rightarrow> answer (Deny DenyTaskNotFound)
     | Some task \<Rightarrow>
        if taskClaimedByOther task (RA_ID actor) then answer (Deny DenyTaskAlreadyClaimed)
        else call (GetByTaskAndKey taskID moduleKey) internal (\<lambda>m. case m of
          None \<Rightarrow> answer (Deny DenyModuleNotInstantiated)
        | Some tm \<Rightarrow>
           (case claim_check ord actor task tm moduleKey confirmPoolTeamCode of
              Inl verdict \<Rightarrow> answer verdict
            | Inr (k, pool, team) \<Rightarrow> Claim_commit now actor taskID task tm k pool team)))"

subsection \<open>The scope of a claim\<close>

definition orders :: "(nat \<Rightarrow> string list \<Rightarrow> string list) \<Rightarrow> bool" where
  "orders ord \<longleftrightarrow> (\<forall>i xs. set (ord i xs) = set xs)"

lemma set_actorTeams: "orders ord \<Longrightarrow> set (actorTeams (ord i) actor) = set (actorTeams_set actor)"
  by (simp add: orders_def actorTeams_def)

lemma actorTeams_nonempty: "orders ord \<Longrightarrow> [] \<notin> set (actorTeams (ord i) actor)"
  by (simp add: set_actorTeams actorTeams_set_def)

definition serves :: "RequestActor \<Rightarrow> string \<Rightarrow> bool" where
  "serves actor team \<longleftrightarrow> (\<exists>x \<in> set (actorTeams_set actor). EqualFold x team)"

lemma first_match_Some:
  "orders ord \<Longrightarrow> first_match (actorTeams (ord i) actor) team = Some x \<Longrightarrow> x \<noteq> [] \<and> serves actor team"
  by (auto simp: first_match_def serves_def set_actorTeams dest!: find_SomeD
      intro: actorTeams_nonempty)
     (metis actorTeams_nonempty set_actorTeams)

lemma first_match_None:
  "orders ord \<Longrightarrow> first_match (actorTeams (ord i) actor) team = None \<longleftrightarrow> \<not> serves actor team"
  by (auto simp: first_match_def serves_def set_actorTeams find_None_iff)

lemma match_targets_iff:
  assumes "orders ord"
  shows "match_targets ord actor i targets \<noteq> [] \<longleftrightarrow>
    (\<exists>(dep, team) \<in> set targets. pool_actorDepartmentMatches actor dep \<and> serves actor team)"
proof (induction targets arbitrary: i)
  case (Cons x targets)
  obtain dep team where x: "x = (dep, team)" by (cases x)
  show ?case
  proof (cases "first_match (actorTeams (ord i) actor) team")
    case None
    moreover have "\<not> serves actor team" using None first_match_None [OF assms] by blast
    ultimately show ?thesis using Cons x by auto
  next
    case (Some y)
    then show ?thesis using Cons x first_match_Some [OF assms Some] by auto
  qed
qed simp

lemma matchedTeam_iff:
  assumes "orders ord"
  shows "matchedTeam ord actor pool \<noteq> [] \<longleftrightarrow> TrimSpace pool \<noteq> [] \<and>
    (serves actor (TrimSpace pool) \<or>
     (\<exists>(dep, team) \<in> set (PoolTeamTargets (TrimSpace pool)).
        pool_actorDepartmentMatches actor dep \<and> serves actor team))"
proof (cases "first_match (actorTeams (ord 0) actor) (TrimSpace pool)")
  case None
  moreover have "\<not> serves actor (TrimSpace pool)" using None first_match_None [OF assms] by blast
  ultimately show ?thesis using match_targets_iff [OF assms] by (simp add: matchedTeam_def Let_def)
next
  case (Some y)
  then show ?thesis using first_match_Some [OF assms Some] by (auto simp: matchedTeam_def Let_def)
qed

lemma serves_iff:
  "team \<noteq> [] \<Longrightarrow> TrimSpace team = team \<Longrightarrow>
   serves actor team \<longleftrightarrow> EqualFold team (TrimSpace (RA_Team actor)) \<or> stringIn team (team_groups actor)"
  by (auto simp: serves_def actorTeams_set_def stringIn_def team_groups_def list_ex_iff Let_def
      EqualFold_sym)

lemma targets_trimmed:
  "(dep, team) \<in> set (PoolTeamTargets p) \<Longrightarrow>
   dep \<noteq> [] \<and> team \<noteq> [] \<and> TrimSpace dep = dep \<and> TrimSpace team = team"
  by (auto simp: PoolTeamTargets_def module_names go_string_simps split: if_splits)

lemma department_scope_eq:
  assumes "list_all (list_all (\<lambda>x. TrimSpace x = x)) (department_groups actor)"
    and "dep \<noteq> []" and "TrimSpace dep = dep"
  shows "pool_actorDepartmentMatches actor dep \<longleftrightarrow> actorDepartmentMatches actor dep"
  using assms
  by (auto simp: pool_actorDepartmentMatches_def actorDepartmentMatches_def stringIn_def
      department_groups_def pool_contains_def list_ex_iff list_all_iff Let_def EqualFold_sym)

text \<open>
  Claiming and authorising use two separately written tests of whether an actor's teams serve
  a pool; they agree, whatever order Go ranges over its maps in, for every actor whose department
  lists carry no surrounding white space: the claim finds a team exactly when the permission check
  puts the pool in scope.
\<close>

theorem claim_scope_is_permission_scope:
  assumes "orders ord" and "list_all (list_all (\<lambda>x. TrimSpace x = x)) (department_groups actor)"
  shows "matchedTeam ord actor pool \<noteq> [] \<longleftrightarrow> teamInActor pool actor"
proof (cases "TrimSpace pool = []")
  case True
  then show ?thesis using matchedTeam_iff [OF assms(1)] by (simp add: teamInActor_def)
next
  case False
  let ?p = "TrimSpace pool"
  have "(pool_actorDepartmentMatches actor dep \<and> serves actor team) \<longleftrightarrow>
      (actorDepartmentMatches actor dep \<and>
       (EqualFold team (TrimSpace (RA_Team actor)) \<or> stringIn team (team_groups actor)))"
    if "(dep, team) \<in> set (PoolTeamTargets ?p)" for dep team
    using targets_trimmed [OF that] department_scope_eq [OF assms(2)] serves_iff by blast
  then show ?thesis using False
    by (auto simp: matchedTeam_iff [OF assms(1)] teamInActor_def serves_iff list_ex_iff Let_def)
qed

theorem claim_scope_is_permission_scope_witness:
  "matchedTeam (\<lambda>_. rev) ((demo_actor 9 [] team_default)\<lparr>RA_Department := DepartmentDesignRD\<rparr>)
     TeamDesignStandard \<noteq> [] \<and>
   teamInActor TeamDesignStandard
     ((demo_actor 9 [] team_default)\<lparr>RA_Department := DepartmentDesignRD\<rparr>)"
proof -
  let ?a = "(demo_actor 9 [] team_default)\<lparr>RA_Department := DepartmentDesignRD\<rparr>"
  have "orders (\<lambda>_. rev)" by (simp add: orders_def)
  moreover have "list_all (list_all (\<lambda>x. TrimSpace x = x)) (department_groups ?a)"
    by (simp add: department_groups_def demo_actor_def demo_access_def)
  ultimately have "matchedTeam (\<lambda>_. rev) ?a TeamDesignStandard \<noteq> [] \<longleftrightarrow>
      teamInActor TeamDesignStandard ?a"
    by (rule claim_scope_is_permission_scope)
  moreover have "teamInActor TeamDesignStandard ?a"
    by (simp add: teamInActor_def actorDepartmentMatches_def demo_actor_def PoolTeamTargets_def
        module_names go_string_simps)
  ultimately show ?thesis by blast
qed

subsection \<open>The effect of a claim\<close>

definition claimable :: "id \<Rightarrow> string \<Rightarrow> string \<Rightarrow> TaskModule \<Rightarrow> bool" where
  "claimable taskID moduleKey pool m \<longleftrightarrow>
     same_module taskID moduleKey m \<and> TM_State m = ModuleStatePendingClaim \<and>
     (case TM_PoolTeamCode m of None \<Rightarrow> False | Some p \<Rightarrow> ci_eq p pool)"

definition claimed_row :: "time \<Rightarrow> RequestActor \<Rightarrow> string \<Rightarrow> TaskModule \<Rightarrow> TaskModule" where
  "claimed_row now actor team m = m\<lparr>TM_State := ModuleStateInProgress,
     TM_ClaimedBy := Some (RA_ID actor), TM_ClaimedTeamCode := Some team, TM_ClaimedAt := Some now,
     TM_ActorOrgSnapshot := Some (actorSnapshot actor), TM_UpdatedAt := now\<rparr>"

definition assign_effect :: "time \<Rightarrow> Task \<Rightarrow> id \<Rightarrow> string \<Rightarrow> mdb \<Rightarrow> mdb" where
  "assign_effect now task actorID k d =
     (if actorID \<le> 0 then d
      else
        (if T_TaskStatus task = TaskStatusPendingAssign
         then upd_task now (T_ID task) (\<lambda>t. t\<lparr>T_TaskStatus := TaskStatusInProgress\<rparr>) else id)
        ((if (TrimSpace k = ModuleKeyDesign \<or> TrimSpace k = ModuleKeyCustomization) \<and>
              T_DesignerID task = None
          then upd_task now (T_ID task) (\<lambda>t. t\<lparr>T_DesignerID := Some actorID\<rparr>) else id)
        ((if T_CurrentHandlerID task = None
          then upd_task now (T_ID task) (\<lambda>t. t\<lparr>T_CurrentHandlerID := Some actorID\<rparr>) else id) d)))"

definition claimed_event :: "RequestActor \<Rightarrow> TaskModule \<Rightarrow> string \<Rightarrow> TaskModuleEvent" where
  "claimed_event actor tm team = mevent (TM_ID tm) ModuleEventClaimed (Some ModuleStatePendingClaim)
     (Some ModuleStateInProgress) (Some (RA_ID actor)) (actorSnapshot actor)
     (JObj [(''claimed_team_code'', JText team)])"

text \<open>The specification of an accepted claim: the module, the task and one event.\<close>

definition claim_spec :: "time \<Rightarrow> RequestActor \<Rightarrow> id \<Rightarrow> Task \<Rightarrow> TaskModule \<Rightarrow> string \<Rightarrow> string \<Rightarrow> string \<Rightarrow>
  mdb \<Rightarrow> mdb" where
  "claim_spec now actor taskID task tm k pool team d =
     insert_event now (claimed_event actor tm team)
       (assign_effect now task (RA_ID actor) k
         (d\<lparr>task_modules := row_upd (claimable taskID k pool) (claimed_row now actor team)
              (task_modules d)\<rparr>))"

lemma filter_eq_single: "distinct xs \<Longrightarrow> x \<in> set xs \<Longrightarrow> filter (\<lambda>y. y = x) xs = [x]"
  by (induction xs) (auto simp: filter_empty_conv)

lemma claimable_unique:
  assumes "minv d" and "m \<in> set (task_modules d)" and "claimable t k pool m"
  shows "filter (claimable t k pool) (task_modules d) = [m]"
proof -
  have "claimable t k pool x \<longleftrightarrow> x = m" if "x \<in> set (task_modules d)" for x
    using assms that by (auto simp: claimable_def same_module_key intro: minv_unique_module)
  then have "filter (claimable t k pool) (task_modules d) = filter (\<lambda>x. x = m) (task_modules d)"
    by (rule filter_cong [OF refl])
  moreover have "distinct (task_modules d)" using assms(1) by (auto simp: minv_def distinct_map)
  ultimately show ?thesis using assms(2) by (simp add: filter_eq_single)
qed

lemma ClaimCAS_eq:
  "ClaimCAS now t k pool (RA_ID actor) team (actorSnapshot actor) = stmt (\<lambda>d.
     Inr (length (filter (claimable t k pool) (task_modules d)) = 1,
       d\<lparr>task_modules := row_upd (claimable t k pool) (claimed_row now actor team) (task_modules d)\<rparr>))"
proof -
  have "(\<lambda>m. same_module t k m \<and> TM_State m = ModuleStatePendingClaim \<and>
          (case TM_PoolTeamCode m of None \<Rightarrow> False | Some p \<Rightarrow> ci_eq p pool)) = claimable t k pool"
    by (rule ext) (simp add: claimable_def)
  then show ?thesis by (simp add: ClaimCAS_def Let_def claimed_row_def [abs_def])
qed

lemma task_update_success:
  "UpdateHandler now i h w = (Inr x, w') \<Longrightarrow>
     wdb w' = upd_task now i (\<lambda>t. t\<lparr>T_CurrentHandlerID := h\<rparr>) (wdb w)"
  "UpdateDesigner now i h w = (Inr x, w') \<Longrightarrow>
     wdb w' = upd_task now i (\<lambda>t. t\<lparr>T_DesignerID := h\<rparr>) (wdb w)"
  "UpdateStatus now i st w = (Inr x, w') \<Longrightarrow>
     wdb w' = upd_task now i (\<lambda>t. t\<lparr>T_TaskStatus := st\<rparr>) (wdb w)"
  by (auto simp: UpdateHandler_def UpdateDesigner_def UpdateStatus_def bnd_eq_Inr
      reindexTaskSearchDocument_def dest!: exec_success query_success)

lemma claimTask_success:
  assumes "claimTaskIfUnassigned now task a k w = (Inr x, w')"
  shows "wdb w' = assign_effect now task a k (wdb w)"
  using assms
  by (auto simp: claimTaskIfUnassigned_def assign_effect_def bnd_eq_Inr
      split: if_splits dest!: task_update_success)

lemma claimTask_runs:
  assumes "faults w = []" and "\<not> taskClaimedByOther task a"
  shows "claimTaskIfUnassigned now task a k w = (Inr (), w\<lparr>wdb := assign_effect now task a k (wdb w)\<rparr>)"
  using assms
  by (simp add: claimTaskIfUnassigned_def assign_effect_def UpdateHandler_def UpdateDesigner_def
      UpdateStatus_def reindexTaskSearchDocument_def act_simps)

lemma assign_effect_modules [simp]:
  "task_modules (assign_effect now task a k d) = task_modules d"
  "module_events (assign_effect now task a k d) = module_events d"
  by (simp_all add: assign_effect_def)

lemma assign_effect_linv: "linv S d \<Longrightarrow> linv S (assign_effect now task a k d)"
  by (simp add: assign_effect_def upd_task_linv)

lemma Claim_tx_success:
  assumes "Claim_tx now actor t task tm k pool team w = (Inr x, w')"
  shows "length (filter (claimable t k pool) (task_modules (wdb w))) = 1 \<and>
    wdb w' = claim_spec now actor t task tm k pool team (wdb w) \<and>
    TM_ID tm \<in> TM_ID ` set (task_modules (wdb w))"
proof -
  let ?d = "(wdb w)\<lparr>task_modules :=
      row_upd (claimable t k pool) (claimed_row now actor team) (task_modules (wdb w))\<rparr>"
  have ids: "TM_ID ` set (task_modules ?d) = TM_ID ` set (task_modules (wdb w))"
    using map_row_upd [of TM_ID "claimed_row now actor team" "claimable t k pool"]
    by (simp add: claimed_row_def) (metis (no_types, lifting) list.set_map)
  obtain ok w1 where cas: "ClaimCAS now t k pool (RA_ID actor) team (actorSnapshot actor) w = (Inr ok, w1)"
    and rest: "(if \<not> ok then throw claimConflictError
      else bnd (claimTaskIfUnassigned now task (RA_ID actor) k) (\<lambda>_.
        bnd (EventInsert now (claimed_event actor tm team)) (\<lambda>_. ret ()))) w1 = (Inr x, w')"
    using assms unfolding Claim_tx_def claimed_event_def by (auto simp: bnd_eq_Inr)
  have ok: "ok" using rest by (cases ok) auto
  have w1: "wdb w1 = ?d" and n: "length (filter (claimable t k pool) (task_modules (wdb w))) = 1"
    using cas ok unfolding ClaimCAS_eq by (auto dest!: stmt_success)
  obtain w2 where t: "claimTaskIfUnassigned now task (RA_ID actor) k w1 = (Inr (), w2)"
    and e: "bnd (EventInsert now (claimed_event actor tm team)) (\<lambda>_. ret ()) w2 = (Inr x, w')"
    using rest ok by (auto simp: bnd_eq_Inr)
  have "wdb w2 = assign_effect now task (RA_ID actor) k ?d" using claimTask_success [OF t] w1 by simp
  then show ?thesis
    using e n ids
    by (auto simp: bnd_eq_Inr EventInsert_def claim_spec_def claimed_event_def split: if_splits
        dest!: stmt_success)
qed

lemma Claim_commit_cases:
  assumes "Claim_commit now actor t task tm k pool team w = (dec, w')"
  shows "dec \<noteq> Allow \<and> wdb w' = wdb w \<or>
    dec = Allow \<and> length (filter (claimable t k pool) (task_modules (wdb w))) = 1 \<and>
    wdb w' = claim_spec now actor t task tm k pool team (wdb w) \<and>
    TM_ID tm \<in> TM_ID ` set (task_modules (wdb w))"
proof -
  from assms consider e where "RunInTx (Claim_tx now actor t task tm k pool team) w = (Inl e, w')"
      "dec = claim_error e"
    | "RunInTx (Claim_tx now actor t task tm k pool team) w = (Inr (), w')" "dec = Allow"
    unfolding Claim_commit_def call_eq by auto
  then show ?thesis
  proof cases
    case 1
    then show ?thesis using RunInTx_failure [OF 1(1)] by (simp add: claim_error_def)
  next
    case 2
    then show ?thesis using RunInTx_success [OF 2(1)] Claim_tx_success by metis
  qed
qed

lemma row_ok_claimed: "row_ok (claimed_row now actor team)"
  by (simp add: row_ok_def claimed_row_def is_placeholder_def)

lemma claim_spec_minv:
  assumes "minv d" and "TM_ID tm \<in> TM_ID ` set (task_modules d)"
  shows "minv (claim_spec now actor t task tm k pool team d)"
proof -
  let ?d = "d\<lparr>task_modules := row_upd (claimable t k pool) (claimed_row now actor team) (task_modules d)\<rparr>"
  have "map TM_ID (task_modules ?d) = map TM_ID (task_modules d)"
    using map_row_upd [of TM_ID "claimed_row now actor team" "claimable t k pool"]
    by (simp add: claimed_row_def)
  then have ids: "TM_ID ` set (task_modules ?d) = TM_ID ` set (task_modules d)"
    by (metis list.set_map)
  have "linv UNIV ?d" using minv_row_upd [OF assms(1) row_ok_claimed] by (simp add: linv_def)
  then have "minv (assign_effect now task (RA_ID actor) k ?d)"
    using assign_effect_linv [of UNIV ?d] by (simp add: linv_def)
  then show ?thesis unfolding claim_spec_def
    using assms(2) ids by (intro insert_event_minv) (auto simp: claimed_event_def)
qed

lemma claim_spec_row:
  assumes "length (filter (claimable t k pool) (task_modules d)) = 1" and "minv d"
  obtains m where "module_row d t k = Some m" "TM_State m = ModuleStatePendingClaim"
    "module_row (claim_spec now actor t task tm k pool team d) t k = Some (claimed_row now actor team m)"
proof -
  obtain m where "filter (claimable t k pool) (task_modules d) = [m]"
    using assms(1) by (auto simp: length_Suc_conv)
  then have "m \<in> set (filter (claimable t k pool) (task_modules d))" by simp
  then have m: "m \<in> set (task_modules d)" "claimable t k pool m" by auto
  have same: "same_module t k m" using m(2) by (simp add: claimable_def)
  have row: "module_row d t k = Some m"
  proof (cases "module_row d t k")
    case None
    then show ?thesis using m(1) same by (auto simp: module_row_def dest: find_NoneD)
  next
    case (Some m')
    then show ?thesis
      using minv_unique_module [OF assms(2) _ m(1)] module_rowD same same_module_key by metis
  qed
  have "same_module t k (claimed_row now actor team x) = same_module t k x" for x
    by (simp add: claimed_row_def)
  then have "module_row (claim_spec now actor t task tm k pool team d) t k =
      Some (claimed_row now actor team m)"
    using row m(2) by (simp add: claim_spec_def module_row_def find_row_upd)
  then show ?thesis using that row m(2) by (simp add: claimable_def)
qed

lemma claim_commit_outcome:
  assumes "minv (wdb w)" and "Claim_commit now actor t task tm k pool team w = (dec, w')"
  shows "dec \<noteq> Allow \<and> wdb w' = wdb w \<or>
    dec = Allow \<and> wdb w' = claim_spec now actor t task tm k pool team (wdb w) \<and> minv (wdb w') \<and>
    (\<exists>m. module_row (wdb w) t k = Some m \<and> TM_State m = ModuleStatePendingClaim \<and>
       module_row (wdb w') t k = Some (claimed_row now actor team m))"
proof (cases "dec = Allow")
  case True
  then have n: "length (filter (claimable t k pool) (task_modules (wdb w))) = 1"
    and w': "wdb w' = claim_spec now actor t task tm k pool team (wdb w)"
    and tm: "TM_ID tm \<in> TM_ID ` set (task_modules (wdb w))"
    using Claim_commit_cases [OF assms(2)] by auto
  obtain m where "module_row (wdb w) t k = Some m" "TM_State m = ModuleStatePendingClaim"
    "module_row (wdb w') t k = Some (claimed_row now actor team m)"
    unfolding w' using claim_spec_row [OF n assms(1)] by blast
  then show ?thesis using True w' claim_spec_minv [OF assms(1) tm] by auto
next
  case False
  then show ?thesis using Claim_commit_cases [OF assms(2)] by auto
qed

text \<open>
  The commit half of a claim is all or nothing under any failures and however outdated the rows
  it was given: either it is refused and the database is as before, or the module was waiting in
  pending_claim for the confirmed pool, and the database is exactly that of the specification, in
  which this one module is in progress and held by the actor.
\<close>

theorem claim_all_or_nothing:
  assumes "minv (wdb w)" and "Claim_commit now actor t task tm k pool team w = (dec, w')"
  shows "dec \<noteq> Allow \<and> wdb w' = wdb w \<or>
    dec = Allow \<and> wdb w' = claim_spec now actor t task tm k pool team (wdb w) \<and> minv (wdb w') \<and>
    (\<exists>m. module_row (wdb w) t k = Some m \<and> TM_State m = ModuleStatePendingClaim \<and>
       module_row (wdb w') t k = Some (claimed_row now actor team m))"
  using assms by (rule claim_commit_outcome)

text \<open>
  (C12) Claims exclude each other: once a claim of a module has been accepted, the commit of any
  other claim of it, prepared from whatever rows before or after, is refused and changes nothing, as
  long as no other operation has written in between; the module stays with the first actor.
\<close>

theorem claims_are_exclusive:
  assumes "minv (wdb w)" and first: "Claim_commit now actor t task tm k pool team w = (Allow, w1)"
    and "wdb w2 = wdb w1" and "ci_eq k k'"
    and second: "Claim_commit now' actor' t task' tm' k' pool' team' w2 = (dec, w3)"
  shows "dec \<noteq> Allow \<and> wdb w3 = wdb w1 \<and>
    map_option TM_ClaimedBy (module_row (wdb w3) t k') = Some (Some (RA_ID actor))"
proof -
  obtain m where inv: "minv (wdb w1)"
    and row: "module_row (wdb w1) t k = Some (claimed_row now actor team m)"
    using claim_commit_outcome [OF assms(1) first] by auto
  have same: "module_row (wdb w1) t k' = module_row (wdb w1) t k"
    using assms(4) by (simp add: module_row_def same_module_key [abs_def] ci_eq_def)
  have "dec \<noteq> Allow \<and> wdb w3 = wdb w2"
    using claim_commit_outcome [of w2, OF _ second] inv assms(3) row same
    by (auto simp: claimed_row_def)
  then show ?thesis using row same assms(3) by (simp add: claimed_row_def)
qed

subsection \<open>Claims that succeed\<close>

lemma Claim_commit_runs:
  assumes "faults w = []" and "minv (wdb w)" and "m \<in> set (task_modules (wdb w))"
    and "claimable t k pool m" and "TM_ID tm \<in> TM_ID ` set (task_modules (wdb w))"
    and "\<not> taskClaimedByOther task (RA_ID actor)"
  shows "Claim_commit now actor t task tm k pool team w =
    (Allow, w\<lparr>wdb := claim_spec now actor t task tm k pool team (wdb w)\<rparr>)"
proof -
  let ?d = "(wdb w)\<lparr>task_modules :=
      row_upd (claimable t k pool) (claimed_row now actor team) (task_modules (wdb w))\<rparr>"
  have "map TM_ID (task_modules ?d) = map TM_ID (task_modules (wdb w))"
    using map_row_upd [of TM_ID "claimed_row now actor team" "claimable t k pool"]
    by (simp add: claimed_row_def)
  then have ids: "TM_ID tm \<in> TM_ID ` set (task_modules ?d)" using assms(5) by (metis list.set_map)
  have "ClaimCAS now t k pool (RA_ID actor) team (actorSnapshot actor) w = (Inr True, w\<lparr>wdb := ?d\<rparr>)"
    using assms(1) claimable_unique [OF assms(2-4)] by (simp add: ClaimCAS_eq act_simps)
  then have "Claim_tx now actor t task tm k pool team w =
      (Inr (), w\<lparr>wdb := claim_spec now actor t task tm k pool team (wdb w)\<rparr>)"
    using assms(1,6) ids
    by (simp add: Claim_tx_def act_simps claimTask_runs EventInsert_def claim_spec_def
        claimed_event_def)
  then show ?thesis using assms(1) by (simp add: Claim_commit_def act_simps answer_def)
qed

lemma pool_code_facts:
  "list_all (\<lambda>p. p \<noteq> [] \<and> TrimSpace p = p \<and> ci_key p = map to_lower p) pool_codes"
  "distinct (map ci_key pool_codes)"
  by (simp_all add: pool_codes_def ci_key_def go_string_simps)

lemma pool_code_trimmed: "p \<in> set pool_codes \<Longrightarrow> p \<noteq> [] \<and> TrimSpace p = p \<and> ci_key p = map to_lower p"
  using pool_code_facts(1) by (simp add: list_all_iff)

lemma pool_code_inj: "p \<in> set pool_codes \<Longrightarrow> q \<in> set pool_codes \<Longrightarrow> ci_eq p q \<Longrightarrow> p = q"
  using pool_code_facts(2) unfolding distinct_map ci_eq_def by (blast dest: inj_onD)

lemma targets_pool_code: "PoolTeamTargets p \<noteq> [] \<Longrightarrow> p \<in> set pool_codes"
  by (auto simp: PoolTeamTargets_def pool_codes_def split: if_splits)

lemma trimmed_ci_key: "TrimSpace s = s \<Longrightarrow> ci_key s = map to_lower s"
  by (simp add: ci_key_def trimmed_no_trailing_blank)

lemma actorTeams_trimmed: "x \<in> set (actorTeams_set actor) \<Longrightarrow> TrimSpace x = x \<and> x \<noteq> []"
  unfolding actorTeams_set_def set_remdups set_filter set_map by auto

lemma to_lower_blank: "to_lower a = CHR 0x20 \<longleftrightarrow> a = CHR 0x20"
proof (cases "65 \<le> (of_char a :: nat) \<and> (of_char a :: nat) \<le> 90")
  case True
  have "(of_char (to_lower a) :: nat) = of_char a + 32"
    using True by (simp add: to_lower_def Let_def take_bit_nat_def)
  then show ?thesis using True by auto
next
  case False
  then have "to_lower a = a" by (simp only: to_lower_def Let_def if_False)
  then show ?thesis by simp
qed

lemma EqualFold_ci_eq: "EqualFold x c \<Longrightarrow> ci_eq x c"
proof -
  have k: "ci_key s = rev (dropWhile (\<lambda>c. c = CHR 0x20) (rev (map to_lower s)))" for s
    by (simp add: ci_key_def rev_map dropWhile_map comp_def to_lower_blank)
  show "EqualFold x c \<Longrightarrow> ci_eq x c" by (simp add: ci_eq_def EqualFold_def k)
qed

lemma serves_fold:
  assumes "serves actor c" and "p \<in> set pool_codes" and "ci_eq p c"
  shows "serves actor p"
proof -
  obtain x where x: "x \<in> set (actorTeams_set actor)" "EqualFold x c"
    using assms(1) by (auto simp: serves_def)
  then have "ci_key x = ci_key p" using EqualFold_ci_eq [OF x(2)] assms(3) by (simp add: ci_eq_def)
  moreover have "ci_key x = map to_lower x" using actorTeams_trimmed [OF x(1)] trimmed_ci_key by blast
  ultimately have "EqualFold x p" using pool_code_trimmed [OF assms(2)] by (simp add: EqualFold_def)
  then show ?thesis using x(1) by (auto simp: serves_def)
qed

lemma pool_contains_serves: "orders ord \<Longrightarrow> pool_contains (actorTeams (ord i) actor) c \<longleftrightarrow> serves actor c"
  by (auto simp: pool_contains_def serves_def list_ex_iff set_actorTeams)

lemma actorMatchesPool_iff:
  assumes "orders ord"
  shows "actorMatchesPool ord actor c \<longleftrightarrow> serves actor c \<or>
    (\<exists>(dep, team) \<in> set (PoolTeamTargets c). pool_actorDepartmentMatches actor dep \<and> serves actor team)"
proof -
  have "list_ex (\<lambda>(i, dep, team). P dep team) (enumerate n xs) = (\<exists>(dep, team) \<in> set xs. P dep team)"
    for P :: "string \<Rightarrow> string \<Rightarrow> bool" and n xs
    by (induction xs arbitrary: n) auto
  then show ?thesis unfolding actorMatchesPool_def pool_contains_serves [OF assms] by simp
qed

lemma actorMatchesPool_matched:
  assumes "orders ord" and "orders ord'" and "actorMatchesPool ord actor c"
    and p: "p \<in> set pool_codes" "ci_eq p c"
  shows "matchedTeam ord' actor p \<noteq> []"
proof -
  note t = pool_code_trimmed [OF p(1)]
  from assms(3) consider "serves actor c"
    | dep team where "(dep, team) \<in> set (PoolTeamTargets c)" "pool_actorDepartmentMatches actor dep"
      "serves actor team"
    unfolding actorMatchesPool_iff [OF assms(1)] by blast
  then show ?thesis
  proof cases
    case 1
    then show ?thesis using serves_fold [OF 1 p] t by (simp add: matchedTeam_iff [OF assms(2)])
  next
    case 2
    then have "c \<in> set pool_codes" by (intro targets_pool_code) auto
    then have "p = c" using p pool_code_inj by blast
    then show ?thesis using 2 t by (auto simp: matchedTeam_iff [OF assms(2)])
  qed
qed

lemma actorPoolCodes_matched:
  assumes "orders ord" and "c \<in> set (actorPoolCodes ord actor)"
  shows "actorMatchesPool ord actor c"
proof -
  have "c \<in> set (actorTeams_set actor) \<or> actorMatchesPool ord actor c"
    using assms by (auto simp: actorPoolCodes_def orders_def actorTeams_def)
  moreover have "serves actor c" if "c \<in> set (actorTeams_set actor)"
    using that EqualFold_refl unfolding serves_def by blast
  ultimately show ?thesis by (auto simp: actorMatchesPool_iff [OF assms(1)])
qed

lemma set_poolOrderBy [simp]: "set (poolOrderBy s rows) = set rows"
  by (simp add: poolOrderBy_def Let_def)

lemma PoolQuery_List_entry:
  assumes "PoolQuery_List td ord actor mk pc lim off srt w = (Inr (entries, n), w')"
    and "orders ord" and "e \<in> set entries"
  obtains task tm p c where "task \<in> set (tasks (wdb w))" "tm \<in> set (task_modules (wdb w))"
    "e = pool_entry td (task, tm)" "T_ID task = TM_TaskID tm" "TM_State tm = ModuleStatePendingClaim"
    "TM_PoolTeamCode tm = Some p" "ci_eq p c" "actorMatchesPool ord actor c"
    "T_CurrentHandlerID task = None \<or> T_CurrentHandlerID task = Some (RA_ID actor)"
    "T_DesignerID task = None \<or> T_DesignerID task = Some (RA_ID actor)"
proof -
  let ?teams = "if pc \<noteq> [] then [pc] else actorPoolCodes ord actor"
  obtain row where row: "row \<in> set (pool_rows actor ?teams mk (wdb w))" "e = pool_entry td row"
    and m: "pc \<noteq> [] \<longrightarrow> actorMatchesPool ord actor pc"
    using assms(1,3)
    by (auto simp: PoolQuery_List_def Let_def bnd_eq_Inr split: if_splits
        dest!: query_success stmt_success in_set_takeD in_set_dropD)
  obtain task tm where r: "row = (task, tm)" by (cases row)
  then have v: "task \<in> set (tasks (wdb w))" "tm \<in> set (task_modules (wdb w))"
      "pool_visible actor ?teams mk (task, tm)"
    using row(1) by (auto simp: pool_rows_def)
  then obtain p c where p: "TM_PoolTeamCode tm = Some p" "c \<in> set ?teams" "ci_eq p c"
    by (auto simp: pool_visible_def list_ex_iff split: option.splits if_splits)
  have "actorMatchesPool ord actor c"
    using p(2) m actorPoolCodes_matched [OF assms(2)] by (auto split: if_splits)
  then show ?thesis using that v p row(2) r by (auto simp: pool_visible_def)
qed

lemma module_key_trimmed: "k \<in> set module_order \<Longrightarrow> TrimSpace k = k"
  by (auto simp: module_order_def go_string_simps)

text \<open>
  (C19) What the pool shows can be claimed: for every entry the listing returns to an actor (any
  page, order and filter) in one of the blueprints' pools, a claim of that module by that actor,
  right after and without confirming a pool, is allowed. Customization modules are the exception,
  whose claim has further conditions.
\<close>

theorem listed_modules_can_be_claimed:
  assumes "faults w = []" and inv: "minv (wdb w)" and ord: "orders ord" "orders ord'"
    and list: "PoolQuery_List td ord actor mk pc lim off srt w = (Inr (entries, n), w')"
    and e: "e \<in> set entries" "PE_PoolTeamCode e \<in> set pool_codes"
      "PE_ModuleKey e \<noteq> ModuleKeyCustomization"
  shows "fst (Claim ord' now actor (PE_TaskID e) (PE_ModuleKey e) [] w) = Allow"
proof -
  obtain task tm p c where t: "task \<in> set (tasks (wdb w))" and tm: "tm \<in> set (task_modules (wdb w))"
    and entry: "e = pool_entry td (task, tm)" and id: "T_ID task = TM_TaskID tm"
    and st: "TM_State tm = ModuleStatePendingClaim" and p: "TM_PoolTeamCode tm = Some p" "ci_eq p c"
    and c: "actorMatchesPool ord actor c"
    and free: "T_CurrentHandlerID task = None \<or> T_CurrentHandlerID task = Some (RA_ID actor)"
      "T_DesignerID task = None \<or> T_DesignerID task = Some (RA_ID actor)"
    using PoolQuery_List_entry [OF list ord(1) e(1)] by metis
  let ?k = "TM_ModuleKey tm" and ?t = "TM_TaskID tm"
  have e': "PE_TaskID e = ?t" "PE_ModuleKey e = ?k" "PE_PoolTeamCode e = p"
    using entry p by (simp_all add: pool_entry_def)
  have task: "task_row (wdb w) ?t = Some task"
    unfolding task_row_def id [symmetric]
    by (rule find_distinct_key) (use inv t in \<open>auto simp: minv_def\<close>)
  have row: "module_row (wdb w) ?t ?k = Some tm"
  proof -
    have "same_module ?t ?k = (\<lambda>x. module_uk x = module_uk tm)"
      by (auto simp: same_module_key module_uk_def)
    then show ?thesis unfolding module_row_def
      using find_distinct_key [of module_uk "task_modules (wdb w)" tm] inv tm by (simp add: minv_def)
  qed
  have k: "TrimSpace ?k = ?k" using inv tm by (intro module_key_trimmed) (auto simp: minv_def)
  have other: "\<not> taskClaimedByOther task (RA_ID actor)"
    using free by (auto simp: taskClaimedByOther_def)
  have "matchedTeam ord' actor p \<noteq> []"
    using actorMatchesPool_matched [OF ord c] e(2) e'(3) p(2) by simp
  then have check: "claim_check ord' actor task tm ?k [] = Inr (?k, p, matchedTeam ord' actor p)"
    using k p(1) e(3) e'(2) by (simp add: claim_check_def Let_def)
  have "claimable ?t ?k p tm" using st p(1) by (simp add: claimable_def same_module_def)
  then have "Claim_commit now actor ?t task tm ?k p (matchedTeam ord' actor p) w =
     (Allow, w\<lparr>wdb := claim_spec now actor ?t task tm ?k p (matchedTeam ord' actor p) (wdb w)\<rparr>)"
    using assms(1) inv tm other by (intro Claim_commit_runs) auto
  then show ?thesis
    using assms(1) task row other check
    by (simp add: Claim_def e' TaskRepo_GetByID_def GetByTaskAndKey_def act_simps)
qed

subsection \<open>Examples\<close>

definition demo_pool :: mdb where
  "demo_pool = demo_db\<lparr>task_modules :=
     [demo_module 1 ModuleKeyDesign ModuleStatePendingClaim (Some TeamDesignStandard) None,
      demo_module 2 ModuleKeyCustomization ModuleStatePendingClaim (Some TeamCustomizationArt) None],
     next_module_id := 3\<rparr>"

lemma demo_pool_minv: "minv demo_pool"
  by (simp add: minv_def demo_pool_def demo_db_def demo_module_def demo_task_def module_order_def
      module_uk_def ci_key_def to_lower_def is_placeholder_def)

abbreviation demo_world :: "mdb \<Rightarrow> mdb world" where
  "demo_world d \<equiv> \<lparr>wdb = d, faults = []\<rparr>"

definition demo_design :: TaskModule where
  "demo_design = demo_module 1 ModuleKeyDesign ModuleStatePendingClaim (Some TeamDesignStandard) None"

lemma demo_claim:
  assumes "\<not> taskClaimedByOther demo_task (RA_ID actor)"
  shows "Claim_commit now actor 1 demo_task demo_design ModuleKeyDesign TeamDesignStandard team
     (demo_world demo_pool) =
   (Allow, demo_world (claim_spec now actor 1 demo_task demo_design ModuleKeyDesign
      TeamDesignStandard team demo_pool))"
proof -
  have "Claim_commit now actor 1 demo_task demo_design ModuleKeyDesign TeamDesignStandard team
     (demo_world demo_pool) = (Allow, (demo_world demo_pool)\<lparr>wdb := claim_spec now actor 1 demo_task
        demo_design ModuleKeyDesign TeamDesignStandard team (wdb (demo_world demo_pool))\<rparr>)"
    by (rule Claim_commit_runs [where m = demo_design])
       (use assms demo_pool_minv in \<open>simp_all add: demo_pool_def demo_design_def claimable_def
          same_module_def demo_module_def\<close>)
  then show ?thesis by simp
qed

lemma demo_free: "\<not> taskClaimedByOther demo_task a"
  by (simp add: taskClaimedByOther_def demo_task_def)

theorem claim_all_or_nothing_witness:
  "\<exists>w'. Claim_commit 5 (demo_actor 9 [] TeamDesignStandard) 1 demo_task demo_design ModuleKeyDesign
     TeamDesignStandard TeamDesignStandard (demo_world demo_pool) = (Allow, w') \<and> minv (wdb w')"
proof -
  have run: "Claim_commit 5 (demo_actor 9 [] TeamDesignStandard) 1 demo_task demo_design
      ModuleKeyDesign TeamDesignStandard TeamDesignStandard (demo_world demo_pool) =
    (Allow, demo_world (claim_spec 5 (demo_actor 9 [] TeamDesignStandard) 1 demo_task demo_design
      ModuleKeyDesign TeamDesignStandard TeamDesignStandard demo_pool))"
    by (rule demo_claim [OF demo_free])
  from claim_all_or_nothing [OF _ run] demo_pool_minv run show ?thesis by auto
qed

theorem claims_are_exclusive_witness:
  "\<exists>w1 dec w3.
     Claim_commit 5 (demo_actor 9 [] TeamDesignStandard) 1 demo_task demo_design ModuleKeyDesign
       TeamDesignStandard TeamDesignStandard (demo_world demo_pool) = (Allow, w1) \<and>
     Claim_commit 6 (demo_actor 8 [] TeamDesignStandard) 1 demo_task demo_design ModuleKeyDesign
       TeamDesignStandard TeamDesignStandard w1 = (dec, w3) \<and>
     dec \<noteq> Allow \<and> map_option TM_ClaimedBy (module_row (wdb w3) 1 ModuleKeyDesign) = Some (Some 9)"
proof -
  let ?a = "demo_actor 9 [] TeamDesignStandard" and ?b = "demo_actor 8 [] TeamDesignStandard"
  have first: "Claim_commit 5 ?a 1 demo_task demo_design ModuleKeyDesign TeamDesignStandard
      TeamDesignStandard (demo_world demo_pool) =
    (Allow, demo_world (claim_spec 5 ?a 1 demo_task demo_design ModuleKeyDesign TeamDesignStandard
      TeamDesignStandard demo_pool))" (is "_ = (Allow, ?w1)")
    by (rule demo_claim [OF demo_free])
  obtain dec w3 where second: "Claim_commit 6 ?b 1 demo_task demo_design ModuleKeyDesign
      TeamDesignStandard TeamDesignStandard ?w1 = (dec, w3)"
    by (cases "Claim_commit 6 ?b 1 demo_task demo_design ModuleKeyDesign TeamDesignStandard
      TeamDesignStandard ?w1")
  have "minv (wdb (demo_world demo_pool))" using demo_pool_minv by simp
  from claims_are_exclusive [OF this first refl ci_eq_refl second]
  show ?thesis using first second by (auto simp: demo_actor_def)
qed

theorem listed_modules_can_be_claimed_witness:
  "\<exists>e n w'. PoolQuery_List (\<lambda>_. (None, None)) (\<lambda>_. id) (demo_actor 9 [] TeamDesignStandard) [] []
     10 0 [] (demo_world demo_pool) = (Inr ([e], n), w') \<and>
   fst (Claim (\<lambda>_. id) 5 (demo_actor 9 [] TeamDesignStandard) (PE_TaskID e) (PE_ModuleKey e) []
     (demo_world demo_pool)) = Allow"
proof -
  let ?a = "demo_actor 9 [] TeamDesignStandard" and ?w = "demo_world demo_pool"
  let ?e = "pool_entry (\<lambda>_. (None, None)) (demo_task, demo_design)"
  have o: "orders (\<lambda>_. id)" by (simp add: orders_def)
  have teams: "actorPoolCodes (\<lambda>_. id) ?a = [TeamDesignStandard]"
    by (simp add: actorPoolCodes_def actorTeams_def actorTeams_set_def pool_codes_def
        actorMatchesPool_def pool_contains_def demo_actor_def demo_access_def PoolTeamTargets_def
        pool_actorDepartmentMatches_def module_names go_string_simps)
  have rows: "pool_rows ?a [TeamDesignStandard] [] demo_pool = [(demo_task, demo_design)]"
    by (simp add: pool_rows_def pool_visible_def demo_pool_def demo_db_def demo_task_def
        demo_design_def demo_module_def ci_eq_def ci_key_def to_lower_def is_placeholder_def)
  have list: "PoolQuery_List (\<lambda>_. (None, None)) (\<lambda>_. id) ?a [] [] 10 0 [] ?w = (Inr ([?e], 1), ?w)"
    by (simp add: PoolQuery_List_def Let_def teams rows act_simps poolOrderBy_def)
  have "PE_PoolTeamCode ?e \<in> set pool_codes" "PE_ModuleKey ?e \<noteq> ModuleKeyCustomization"
    by (simp_all add: pool_entry_def demo_design_def demo_module_def pool_codes_def)
  from listed_modules_can_be_claimed [OF _ _ o o list _ this] list demo_pool_minv
  show ?thesis by auto
qed

subsection \<open>Where claims are weaker than they look\<close>

text \<open>
  The second test for a task held by somebody else, inside the transaction, looks at the same row
  the first test has looked at: it never fires.
\<close>

definition only_ErrDB :: "'a mact \<Rightarrow> bool" where
  "only_ErrDB m \<longleftrightarrow> (\<forall>w e w'. m w = (Inl e, w') \<longrightarrow> e = ErrDB)"

lemma only_ErrDB_rules:
  "only_ErrDB (exec h)" "only_ErrDB (query g)" "only_ErrDB (ret x)"
  "only_ErrDB m \<Longrightarrow> (\<And>x. only_ErrDB (k x)) \<Longrightarrow> only_ErrDB (bnd m k)"
  by (auto simp: only_ErrDB_def exec_def query_def stmt_def ret_def bnd_def
      split: list.splits bool.splits prod.splits sum.splits)

lemma claim_recheck_is_idle:
  assumes "\<not> taskClaimedByOther task (RA_ID actor)"
  shows "claimTaskIfUnassigned now task (RA_ID actor) k w \<noteq> (Inl taskAlreadyClaimedError, w')"
proof -
  have "only_ErrDB (claimTaskIfUnassigned now task (RA_ID actor) k)"
    using assms unfolding claimTaskIfUnassigned_def UpdateHandler_def UpdateDesigner_def
      UpdateStatus_def reindexTaskSearchDocument_def
    by (auto intro!: only_ErrDB_rules)
  then show ?thesis by (auto simp: only_ErrDB_def)
qed

text \<open>
  So two actors who read the task before either of them commits can claim two modules of it, and
  the second takes over as the task's handler: here actor 9 claims design and actor 8 the
  customization module of the same task.
\<close>

lemma two_handlers_race:
  "\<exists>w1 w2. Claim_commit 5 (demo_actor 9 [] TeamDesignStandard) 1 demo_task demo_design
       ModuleKeyDesign TeamDesignStandard TeamDesignStandard (demo_world demo_pool) = (Allow, w1) \<and>
     Claim_commit 6 (demo_actor 8 [] TeamCustomizationArt) 1 demo_task
       (demo_module 2 ModuleKeyCustomization ModuleStatePendingClaim (Some TeamCustomizationArt) None)
       ModuleKeyCustomization TeamCustomizationArt TeamCustomizationArt w1 = (Allow, w2) \<and>
     map_option T_CurrentHandlerID (task_row (wdb w1) 1) = Some (Some 9) \<and>
     map_option T_CurrentHandlerID (task_row (wdb w2) 1) = Some (Some 8)"
proof -
  let ?a = "demo_actor 9 [] TeamDesignStandard" and ?b = "demo_actor 8 [] TeamCustomizationArt"
  let ?m = "demo_module 2 ModuleKeyCustomization ModuleStatePendingClaim (Some TeamCustomizationArt) None"
  let ?d = "claim_spec 5 ?a 1 demo_task demo_design ModuleKeyDesign TeamDesignStandard
    TeamDesignStandard demo_pool"
  let ?d2 = "claim_spec 6 ?b 1 demo_task ?m ModuleKeyCustomization TeamCustomizationArt
    TeamCustomizationArt ?d"
  have first: "Claim_commit 5 ?a 1 demo_task demo_design ModuleKeyDesign TeamDesignStandard
      TeamDesignStandard (demo_world demo_pool) = (Allow, demo_world ?d)"
    by (rule demo_claim [OF demo_free])
  have inv: "minv ?d"
    by (rule claim_spec_minv [OF demo_pool_minv]) (simp add: demo_pool_def demo_design_def)
  have min: "?m \<in> set (task_modules ?d)"
    by (simp add: claim_spec_def demo_pool_def claimable_def same_module_def demo_module_def
        ci_eq_def ci_key_def to_lower_def)
  have cl: "claimable 1 ModuleKeyCustomization TeamCustomizationArt ?m"
    by (simp add: claimable_def same_module_def demo_module_def)
  have "Claim_commit 6 ?b 1 demo_task ?m ModuleKeyCustomization TeamCustomizationArt
      TeamCustomizationArt (demo_world ?d) = (Allow, (demo_world ?d)\<lparr>wdb := ?d2\<rparr>)"
    using Claim_commit_runs [of "demo_world ?d" ?m 1 ModuleKeyCustomization TeamCustomizationArt ?m
        demo_task ?b 6 TeamCustomizationArt] inv min cl imageI [OF min, of TM_ID] demo_free
    by simp
  moreover have "map_option T_CurrentHandlerID (task_row ?d 1) = Some (Some 9)"
    "map_option T_CurrentHandlerID (task_row ?d2 1) = Some (Some 8)"
    by (simp_all add: claim_spec_def assign_effect_def upd_task_def insert_event_def task_row_def
        demo_pool_def demo_db_def demo_task_def demo_actor_def go_string_simps)
  ultimately show ?thesis using first by auto
qed

text \<open>
  Go compares the module key exactly, the database does not: with the key in capitals the checks of
  a customization claim (role, task status) are skipped, and an actor in the pool's team whom the
  checks would refuse gets the module.
\<close>

lemma customization_check_bypassed:
  "claim_check ord (demo_actor 9 [RoleDesigner] TeamCustomizationArt) demo_task tm
     ''customization'' TeamCustomizationArt = Inl (Deny DenyModuleActionRoleDenied)"
  "fst (Claim (\<lambda>_. id) 5 (demo_actor 9 [RoleDesigner] TeamCustomizationArt) 1 ''CUSTOMIZATION'' []
     (demo_world demo_pool)) = Allow"
proof -
  let ?a = "demo_actor 9 [RoleDesigner] TeamCustomizationArt"
  let ?m = "demo_module 2 ModuleKeyCustomization ModuleStatePendingClaim (Some TeamCustomizationArt) None"
  show "claim_check ord ?a demo_task tm ''customization'' TeamCustomizationArt =
      Inl (Deny DenyModuleActionRoleDenied)"
    by (simp add: claim_check_def validateCustomizationModuleClaim_def demo_task_def go_string_simps)
  have m: "?m \<in> set (task_modules demo_pool)" by (simp add: demo_pool_def)
  have key: "ci_key ''CUSTOMIZATION'' = ModuleKeyCustomization" by code_simp
  have row: "module_row demo_pool 1 ''CUSTOMIZATION'' = Some ?m"
    and task: "task_row demo_pool 1 = Some demo_task"
    by (simp_all add: module_row_def same_module_def demo_pool_def demo_db_def demo_module_def
        ci_eq_def key task_row_def demo_task_def) (simp_all add: ci_key_def to_lower_def)
  have check: "claim_check (\<lambda>_. id) ?a demo_task ?m ''CUSTOMIZATION'' [] =
      Inr (''CUSTOMIZATION'', TeamCustomizationArt, TeamCustomizationArt)"
    by (simp add: claim_check_def matchedTeam_def first_match_def actorTeams_def actorTeams_set_def
        demo_actor_def demo_access_def demo_module_def go_string_simps)
  have "claimable 1 ''CUSTOMIZATION'' TeamCustomizationArt ?m"
    by (simp add: claimable_def same_module_def demo_module_def ci_eq_def key)
       (simp add: ci_key_def to_lower_def)
  then have "fst (Claim_commit 5 ?a 1 demo_task ?m ''CUSTOMIZATION'' TeamCustomizationArt
      TeamCustomizationArt (demo_world demo_pool)) = Allow"
    using Claim_commit_runs [of "demo_world demo_pool" ?m] m demo_pool_minv demo_free by simp
  then show "fst (Claim (\<lambda>_. id) 5 ?a 1 ''CUSTOMIZATION'' [] (demo_world demo_pool)) = Allow"
    by (simp add: Claim_def TaskRepo_GetByID_def GetByTaskAndKey_def act_simps row task check
        demo_free)
qed

end
