(* ===== verification/Rule_Engine.thy ===== *)
theory Rule_Engine
  imports Module_Invariant
begin

section \<open>The blueprint rule engine\<close>

text \<open>
  \<^verbatim>\<open>src/service/blueprint/rules.go\<close>: instantiating the modules of a new task, and moving the
  task on after a module action. The engine is wired with the task repository
  (\<^verbatim>\<open>cmd/server/main.go\<close>). \<open>snap\<close> is the committed database that \<^verbatim>\<open>closeModule\<close> and
  \<^verbatim>\<open>reopenModule\<close> read on another connection while the transaction is open; \<open>app\<close> is the clock of
  the process. The notification generator, whose error is dropped, writes tables of its own and is
  left out.
\<close>

subsection \<open>Operations\<close>

definition poolValue :: "string option \<Rightarrow> jsonv" where
  "poolValue pool = (case pool of None \<Rightarrow> JNull | Some p \<Rightarrow> JText p)"

text \<open>State and pool a module starts with: later audit and warehouse modules wait without a pool.\<close>

definition init_cols :: "nat \<Rightarrow> ModuleSpec \<Rightarrow> ModuleState \<times> string option" where
  "init_cols i spec =
     (if i > 1 \<and> (MS_Key spec = ModuleKeyAudit \<or> MS_Key spec = ModuleKeyWarehouse)
      then (ModuleStatePending, None) else (MS_InitialState spec, MS_PoolTeamCode spec))"

definition entered_event :: "string \<Rightarrow> id \<Rightarrow> ModuleState \<Rightarrow> string option \<Rightarrow> TaskModuleEvent" where
  "entered_event bpKey mid st pool = mevent mid ModuleEventEntered None (Some st) None []
     (JObj [(''pool_team_code'', poolValue pool), (''blueprint_key'', JText bpKey)])"

definition InitTask_module :: "time \<Rightarrow> id \<Rightarrow> string \<Rightarrow> nat \<times> ModuleSpec \<Rightarrow> unit mact" where
  "InitTask_module now taskID bpKey ispec =
     (case ispec of (i, spec) \<Rightarrow> case init_cols i spec of (st, pool) \<Rightarrow>
        bnd (Enter now taskID (MS_Key spec) st pool []) (\<lambda>m.
        bnd (EventInsert now (entered_event bpKey (TM_ID m) st pool)) (\<lambda>_. ret ())))"

definition InitTask :: "time \<Rightarrow> Task \<Rightarrow> unit mact" where
  "InitTask now task =
     (case Registry_MustGet (T_TaskType task) of
        Inl e \<Rightarrow> throw e
      | Inr bp \<Rightarrow> for_each (InitTask_module now (T_ID task) (BP_Key bp))
                   (enumerate 0 (ModulesForTask task bp)))"

definition specFor :: "Task \<Rightarrow> string \<Rightarrow> ModuleSpec option" where
  "specFor task moduleKey =
     (case Registry_Get (T_TaskType task) of
        None \<Rightarrow> None
      | Some bp \<Rightarrow> List.find (\<lambda>spec. MS_Key spec = moduleKey) (ModulesForTask task bp))"

definition enter_pool :: "Task \<Rightarrow> string \<Rightarrow> ModuleSpec \<Rightarrow> string option" where
  "enter_pool task moduleKey spec =
     (if moduleKey = ModuleKeyWarehouse then Some TeamWarehouseMain
      else if moduleKey = ModuleKeyAudit \<and> isCustomizationTask task
        then Some TeamAuditCustomization
      else MS_PoolTeamCode spec)"

definition enterModule :: "time \<Rightarrow> time \<Rightarrow> Task \<Rightarrow> string \<Rightarrow> id option \<Rightarrow> id \<Rightarrow> unit mact" where
  "enterModule now app task moduleKey actorID triggerEventID =
     (case specFor task moduleKey of
        None \<Rightarrow> throw errBlueprint
      | Some spec \<Rightarrow>
         bnd (Enter now (T_ID task) moduleKey ModuleStatePendingClaim
                (enter_pool task moduleKey spec) []) (\<lambda>m.
         bnd (EventInsert now (mevent (TM_ID m) ModuleEventEntered None
                (Some ModuleStatePendingClaim) actorID []
                (JObj [(''trigger_event_id'', JNum triggerEventID), (''entered_at'', JTime app),
                       (''pool_team_code'', poolValue (enter_pool task moduleKey spec))]))) (\<lambda>_.
         ret ())))"

text \<open>\<^verbatim>\<open>closeModule\<close> and \<^verbatim>\<open>reopenModule\<close> differ in target state, closing flag and event type only.\<close>

definition move_module ::
  "ModuleState \<Rightarrow> bool \<Rightarrow> string \<Rightarrow> mdb \<Rightarrow> time \<Rightarrow> id \<Rightarrow> string \<Rightarrow> id option \<Rightarrow> id \<Rightarrow> unit mact" where
  "move_module to terminal ty snap now taskID moduleKey actorID triggerEventID =
     bnd (GetByTaskAndKey_outside snap taskID moduleKey) (\<lambda>before.
       case before of
         None \<Rightarrow> ret ()
       | Some b \<Rightarrow>
          bnd (UpdateState now taskID moduleKey to terminal) (\<lambda>_.
          bnd (EventInsert now (mevent (TM_ID b) ty (Some (TM_State b)) (Some to) actorID []
                 (JObj [(''trigger_event_id'', JNum triggerEventID)]))) (\<lambda>_.
          ret ())))"

definition closeModule :: "mdb \<Rightarrow> time \<Rightarrow> id \<Rightarrow> string \<Rightarrow> id option \<Rightarrow> id \<Rightarrow> unit mact" where
  "closeModule = move_module ModuleStateClosed True ModuleEventClosed"

definition reopenModule :: "mdb \<Rightarrow> time \<Rightarrow> id \<Rightarrow> string \<Rightarrow> id option \<Rightarrow> id \<Rightarrow> unit mact" where
  "reopenModule = move_module ModuleStateInProgress False ModuleEventReopened"

definition completeRetouchTask :: "mdb \<Rightarrow> time \<Rightarrow> Task \<Rightarrow> id option \<Rightarrow> id \<Rightarrow> unit mact" where
  "completeRetouchTask snap now task actorID actionEventID =
     bnd (closeModule snap now (T_ID task) ModuleKeyRetouch actorID actionEventID) (\<lambda>_.
     bnd (UpdateStatus now (T_ID task) TaskStatusCompleted) (\<lambda>_.
     UpdateHandler now (T_ID task) None))"

definition ApplyAfterAction ::
  "mdb \<Rightarrow> time \<Rightarrow> time \<Rightarrow> Task \<Rightarrow> string \<Rightarrow> string \<Rightarrow> id option \<Rightarrow> id \<Rightarrow> unit mact" where
  "ApplyAfterAction snap now app task moduleKey actionName actorID actionEventID =
     (let step = moduleKey @ ''.'' @ actionName in
      if step = ModuleKeyDesign @ ''.'' @ ModuleActionSubmit then
        enterModule now app task ModuleKeyAudit actorID actionEventID
      else if step = ModuleKeyRetouch @ ''.'' @ ModuleActionSubmit then
        completeRetouchTask snap now task actorID actionEventID
      else if step = ModuleKeyCustomization @ ''.'' @ ModuleActionSubmit then
        enterModule now app task ModuleKeyAudit actorID actionEventID
      else if step = ModuleKeyAudit @ ''.'' @ ModuleActionApprove then
        bnd (closeModule snap now (T_ID task)
               (if isCustomizationTask task then ModuleKeyCustomization else ModuleKeyDesign)
               actorID actionEventID) (\<lambda>_.
        enterModule now app task ModuleKeyWarehouse actorID actionEventID)
      else if step = ModuleKeyAudit @ ''.'' @ ModuleActionReject then
        reopenModule snap now (T_ID task)
          (if isCustomizationTask task then ModuleKeyCustomization else ModuleKeyDesign)
          actorID actionEventID
      else ret ())"

subsection \<open>Invariant\<close>

abbreviation rule_inv :: "mdb \<Rightarrow> mdb \<Rightarrow> bool" where
  "rule_inv snap d \<equiv> linv {} d \<and> ext snap d"

text \<open>A state change followed by its event, for the one module \<open>i\<close>.\<close>

lemma triple_pay_event:
  assumes "TE_TaskModuleID ev = i" and "TE_ToState ev = Some st"
  shows "triple (\<lambda>d. linv {i} d \<and> ext snap d \<and>
            (\<forall>m \<in> set (task_modules d). (TM_ID m = i \<longrightarrow> TM_State m = st) \<and> True))
          (EventInsert now ev) (\<lambda>_ d. rule_inv snap d)"
  by (rule triple_post [OF triple_EventInsert [OF assms(2), where S = "{i}" and P = "\<lambda>_. True"
        and snap = snap and now = now, unfolded assms(1)]]) simp

lemma triple_enter_event:
  assumes "k \<in> set module_order" and "\<not> Terminal st"
    and "\<And>m. TE_TaskModuleID (ev m) = TM_ID m" and "\<And>m. TE_ToState (ev m) = Some st"
  shows "triple (rule_inv snap)
     (bnd (Enter now t k st pool []) (\<lambda>m. bnd (EventInsert now (ev m)) (\<lambda>_. ret ())))
     (\<lambda>_. rule_inv snap)"
  by (rule triple_bnd [OF triple_Enter [OF assms(1,2)]],
      rule triple_bnd [OF triple_pay_event [OF assms(3,4)]], rule triple_ret)

lemma triple_move_module:
  assumes "Terminal to \<longrightarrow> terminal"
  shows "triple (rule_inv snap) (move_module to terminal ty snap now t k actor trig)
     (\<lambda>_. rule_inv snap)"
  unfolding move_module_def GetByTaskAndKey_outside_def
proof (rule triple_bnd [where R = "\<lambda>x d. rule_inv snap d \<and> x = module_row snap t k"])
  show "triple (rule_inv snap) (query (\<lambda>_. module_row snap t k))
     (\<lambda>x d. rule_inv snap d \<and> x = module_row snap t k)"
    by (rule triple_query) simp
  fix x
  show "triple (\<lambda>d. rule_inv snap d \<and> x = module_row snap t k)
     (case x of None \<Rightarrow> ret ()
      | Some b \<Rightarrow> bnd (UpdateState now t k to terminal) (\<lambda>_.
          bnd (EventInsert now (mevent (TM_ID b) ty (Some (TM_State b)) (Some to) actor []
                 (JObj [(''trigger_event_id'', JNum trig)]))) (\<lambda>_. ret ())))
     (\<lambda>_. rule_inv snap)"
  proof (cases x)
    case None
    then show ?thesis by (auto intro: triple_ret)
  next
    case (Some b)
    let ?row = "\<lambda>d. \<exists>m \<in> set (task_modules d). TM_ID m = TM_ID b \<and> module_uk m = (t, ci_key k)"
    have pre: "linv {} d \<and> ext snap d \<and> ?row d"
      if "rule_inv snap d \<and> Some b = module_row snap t k" for d
      using that ext_row [of snap d t k b] by auto
    show ?thesis unfolding Some option.case
      by (rule triple_bnd [OF triple_pre [OF triple_UpdateState [OF assms] pre]], assumption,
          rule triple_bnd [OF triple_pay_event], simp, simp, rule triple_ret)
  qed
qed

lemma triple_enterModule:
  assumes "moduleKey \<in> set module_order"
  shows "triple (rule_inv snap) (enterModule now app task moduleKey actor trig) (\<lambda>_. rule_inv snap)"
  unfolding enterModule_def
  by (cases "specFor task moduleKey")
     (auto intro!: triple_throw triple_enter_event assms)

lemma triple_completeRetouchTask:
  "triple (rule_inv snap) (completeRetouchTask snap now task actor trig) (\<lambda>_. rule_inv snap)"
  unfolding completeRetouchTask_def closeModule_def
  by (rule triple_bnd [OF triple_move_module], simp,
      rule triple_bnd [OF triple_task_updates(1)], rule triple_task_updates(2))

lemma triple_close_enter:
  "triple (rule_inv snap)
     (bnd (closeModule snap now t k actor trig) (\<lambda>_. enterModule now app task ModuleKeyWarehouse actor trig))
     (\<lambda>_. rule_inv snap)"
  unfolding closeModule_def
  by (rule triple_bnd [OF triple_move_module], simp, rule triple_enterModule)
     (simp add: module_order_def)

lemma triple_ApplyAfterAction:
  "triple (rule_inv snap) (ApplyAfterAction snap now app task moduleKey actionName actor trig)
     (\<lambda>_. rule_inv snap)"
  unfolding ApplyAfterAction_def Let_def reopenModule_def
  by (auto intro!: triple_enterModule triple_completeRetouchTask triple_close_enter
      triple_move_module simp: module_order_def intro: triple_ret)

lemma descriptor_key_known: "spec_ok spec \<Longrightarrow> MS_Key spec \<in> set module_order"
  by (auto simp: spec_ok_def DescriptorFor_def module_order_def descriptors_def
      split: option.splits if_splits)

lemma descriptor_initial_open:
  "list_all (\<lambda>(k, d). \<not> Terminal (D_InitialState d)) descriptors"
  by (simp add: descriptors_def workModule_def)

lemma spec_ok_open: "spec_ok spec \<Longrightarrow> \<not> Terminal (MS_InitialState spec)"
  using descriptor_initial_open
  by (fastforce simp: spec_ok_def list_all_iff split: option.splits dest: DescriptorFor_in)

lemma triple_InitTask: "triple (rule_inv snap) (InitTask now task) (\<lambda>_. rule_inv snap)"
proof (cases "Registry_Get (T_TaskType task)")
  case None
  then show ?thesis by (simp add: InitTask_def Registry_MustGet_def triple_throw)
next
  case (Some bp)
  have ok: "spec_ok spec" if "(i, spec) \<in> set (enumerate 0 (ModulesForTask task bp))" for i spec
    using that ModulesForTask_ok [OF Some, of task]
    by (auto simp: modules_ok_def list_all_iff in_set_enumerate_eq)
  have "triple (rule_inv snap) (InitTask_module now (T_ID task) (BP_Key bp) (i, spec))
     (\<lambda>_. rule_inv snap)"
    if "(i, spec) \<in> set (enumerate 0 (ModulesForTask task bp))" for i spec
    unfolding InitTask_module_def init_cols_def entered_event_def
    using descriptor_key_known [OF ok [OF that]] spec_ok_open [OF ok [OF that]]
    by (auto intro!: triple_enter_event)
  then show ?thesis
    unfolding InitTask_def Registry_MustGet_def Some option.case sum.case
    by (intro triple_for_each) auto
qed

subsection \<open>Instantiating a blueprint\<close>

text \<open>The effect of one round of the loop of \<^verbatim>\<open>InitTask\<close>; it is again a module table.\<close>

definition enter_step ::
  "time \<Rightarrow> string \<Rightarrow> id \<Rightarrow> string \<Rightarrow> ModuleState \<times> string option \<Rightarrow> mdb \<Rightarrow> mdb" where
  "enter_step now bpKey t k v d =
     (case v of (st, pool) \<Rightarrow>
        let d' = enter_row now t k st pool [] d;
            mid = (case module_row d' t k of None \<Rightarrow> 0 | Some m \<Rightarrow> TM_ID m)
        in insert_event now (entered_event bpKey mid st pool) d')"

definition entered_cols :: "TaskModule \<Rightarrow> ModuleState \<times> string option" where
  "entered_cols m = (TM_State m, TM_PoolTeamCode m)"

lemma module_row_insert_event [simp]: "module_row (insert_event now ev d) t k = module_row d t k"
  by (simp add: module_row_def)

interpretation init: module_table module_row "enter_step now bpKey" entered_cols ci_key for now bpKey
proof unfold_locales
  show "\<exists>m. module_row (enter_step now bpKey t k v d) t k = Some m \<and> entered_cols m = v" for now bpKey t k v d
    using enter_row_same [of now t k "fst v" "snd v" "[]" d]
    by (auto simp: enter_step_def entered_cols_def entered_def Let_def split: prod.split)
  show "module_row (enter_step now bpKey t k v d) t' k' = module_row d t' k'"
    if "(t, ci_key k) \<noteq> (t', ci_key k')" for now bpKey t k t' k' v d
    using enter_row_other [OF that] by (simp add: enter_step_def Let_def split: prod.split)
qed

lemma ci_keys_distinct: "distinct (map ci_key module_order)"
  by (simp add: module_order_def ci_key_def to_lower_def)

lemma ci_key_inj: "inj_on ci_key (set module_order)"
  using ci_keys_distinct by (simp add: distinct_map)

lemma enter_row_id:
  "\<exists>m. module_row (enter_row now t k st pool [] d) t k = Some m \<and>
       TM_ID m \<in> TM_ID ` set (task_modules (enter_row now t k st pool [] d))"
  using enter_row_same [of now t k st pool "[]" d] by (auto dest: module_rowD)

lemma InitTask_module_run:
  assumes "faults w = []" and "t \<in> T_ID ` set (tasks (wdb w))"
  shows "InitTask_module now t bpKey (i, spec) w =
     (Inr (), w\<lparr>wdb := enter_step now bpKey t (MS_Key spec) (init_cols i spec) (wdb w)\<rparr>)"
proof -
  obtain st pool where c: "init_cols i spec = (st, pool)" by fastforce
  let ?d = "enter_row now t (MS_Key spec) st pool [] (wdb w)"
  obtain m where m: "module_row ?d t (MS_Key spec) = Some m" "TM_ID m \<in> TM_ID ` set (task_modules ?d)"
    using enter_row_id [of now t "MS_Key spec" st pool "wdb w"] by auto
  have "Enter now t (MS_Key spec) st pool [] w = (Inr m, w\<lparr>wdb := ?d\<rparr>)"
    using assms m(1) by (simp add: Enter_def getByTaskAndKeyTx_def act_simps)
  then show ?thesis
    using assms m
    by (simp add: InitTask_module_def c EventInsert_def act_simps entered_event_def enter_step_def)
qed

lemma enter_step_tasks [simp]: "tasks (enter_step now bpKey t k v d) = tasks d"
  by (simp add: enter_step_def Let_def split: prod.split)

definition init_entries :: "nat \<Rightarrow> ModuleSpec list \<Rightarrow> (string \<times> ModuleState \<times> string option) list" where
  "init_entries n specs = map (\<lambda>(i, spec). (MS_Key spec, init_cols i spec)) (enumerate n specs)"

lemma init_entries_keys: "map fst (init_entries n specs) = map MS_Key specs"
  by (induction specs arbitrary: n) (simp_all add: init_entries_def)

lemma init_entries_nth:
  "i < length specs \<Longrightarrow> (MS_Key (specs ! i), init_cols i (specs ! i)) \<in> set (init_entries 0 specs)"
  unfolding init_entries_def set_map
  by (rule image_eqI [of _ _ "(i, specs ! i)"]) (simp_all add: in_set_enumerate_eq)

lemma init_loop_run:
  "faults w = [] \<Longrightarrow> t \<in> T_ID ` set (tasks (wdb w)) \<Longrightarrow>
   for_each (InitTask_module now t bpKey) (enumerate n specs) w =
     (Inr (), w\<lparr>wdb := init.put_all now bpKey t (init_entries n specs) (wdb w)\<rparr>)"
  by (induction specs arbitrary: n w) (simp_all add: act_simps InitTask_module_run init_entries_def)

lemma init_events:
  "\<exists>es. module_events (init.put_all now bpKey t entries d) = module_events d @ es \<and>
     map (\<lambda>e. (TE_EventType e, TE_ToState e)) es =
       map (\<lambda>(k, st, pool). (ModuleEventEntered, Some st)) entries"
proof (induction entries arbitrary: d)
  case Nil
  show ?case by simp
next
  case (Cons x entries)
  obtain k st pool where x: "x = (k, st, pool)" by (cases x)
  have "\<exists>e. module_events (enter_step now bpKey t k (st, pool) d) = module_events d @ [e] \<and>
      TE_EventType e = ModuleEventEntered \<and> TE_ToState e = Some st"
    by (simp add: enter_step_def Let_def insert_event_def entered_event_def)
  then show ?case using Cons.IH [of "enter_step now bpKey t k (st, pool) d"]
    by (auto simp: x)
qed

text \<open>
  Creating the modules of a task of a known type succeeds when no statement fails and has
  exactly this effect: each module of the task's blueprint stands in its initial state and pool
  (audit and warehouse behind the first work module wait in pending, without a pool), every other
  module of the table is as before, and one entered event per module is appended, in blueprint order.
\<close>

theorem init_task_instantiates_blueprint:
  assumes "faults w = []" and "T_ID task \<in> T_ID ` set (tasks (wdb w))"
    and bp: "Registry_Get (T_TaskType task) = Some bp"
  defines "specs \<equiv> ModulesForTask task bp"
  shows "\<exists>w' es. InitTask now task w = (Inr (), w') \<and>
     (\<forall>i < length specs. \<exists>m. module_row (wdb w') (T_ID task) (MS_Key (specs ! i)) = Some m \<and>
        (TM_State m, TM_PoolTeamCode m) = init_cols i (specs ! i)) \<and>
     (\<forall>t k. t \<noteq> T_ID task \<or> ci_key k \<notin> ci_key ` MS_Key ` set specs \<longrightarrow>
        module_row (wdb w') t k = module_row (wdb w) t k) \<and>
     module_events (wdb w') = module_events (wdb w) @ es \<and>
     map (\<lambda>e. (TE_EventType e, TE_ToState e)) es =
       map (\<lambda>(i, spec). (ModuleEventEntered, Some (fst (init_cols i spec)))) (enumerate 0 specs)"
proof -
  let ?es = "init_entries 0 specs"
  let ?d = "init.put_all now (BP_Key bp) (T_ID task) ?es (wdb w)"
  have ok: "modules_ok specs" using ModulesForTask_ok [OF bp] by (simp add: specs_def)
  note keys = init_entries_keys [of 0 specs]
  have "set (map MS_Key specs) \<subseteq> set module_order"
    using ok by (auto simp: modules_ok_def list_all_iff dest: descriptor_key_known)
  then have "distinct (map ci_key (map MS_Key specs))"
    using ok ci_key_inj by (simp add: modules_ok_def distinct_map inj_on_subset del: map_map)
  then have d: "distinct (map (ci_key \<circ> fst) ?es)"
    using keys by (metis list.map_comp)
  have run: "InitTask now task w = (Inr (), w\<lparr>wdb := ?d\<rparr>)"
    using assms(1,2) by (simp add: InitTask_def Registry_MustGet_def bp init_loop_run specs_def)
  have "\<exists>m. module_row ?d (T_ID task) (MS_Key (specs ! i)) = Some m \<and>
      (TM_State m, TM_PoolTeamCode m) = init_cols i (specs ! i)" if "i < length specs" for i
    using init.put_all_same [OF d, of "MS_Key (specs ! i)" "init_cols i (specs ! i)"]
    init_entries_nth [OF that] by (simp add: entered_cols_def)
  moreover have "module_row ?d t k = module_row (wdb w) t k"
    if "t \<noteq> T_ID task \<or> ci_key k \<notin> ci_key ` MS_Key ` set specs" for t k
  proof -
    have "fst ` set ?es = MS_Key ` set specs" using keys by (metis list.set_map)
    then show ?thesis using that by (intro init.put_all_other) auto
  qed
  moreover obtain es where "module_events ?d = module_events (wdb w) @ es"
    and "map (\<lambda>e. (TE_EventType e, TE_ToState e)) es =
       map (\<lambda>(k, st, pool). (ModuleEventEntered, Some st)) ?es"
    using init_events by blast
  ultimately show ?thesis using run
    by (intro exI [of _ "w\<lparr>wdb := ?d\<rparr>"] exI [of _ es])
       (simp add: init_entries_def case_prod_beta comp_def)
qed

lemma demo_specs:
  "Registry_Get (T_TaskType demo_task) = Some (productBlueprint TaskTypeNewProductDevelopment)"
  "ModulesForTask demo_task (productBlueprint TaskTypeNewProductDevelopment) =
     BP_Modules (productBlueprint TaskTypeNewProductDevelopment)"
  by (simp_all add: Registry_Get_def NewRegistry_def demo_task_def ModulesForTask_def
      RequiresHybridCustomizationModule_def isCustomizationTask_def NormalizeTaskBusinessLane_def
      TaskBusinessLane_Valid_def TaskBusinessLaneFromLegacy_def go_string_simps)

theorem init_task_instantiates_blueprint_witness:
  "\<exists>w'. InitTask 5 demo_task \<lparr>wdb = demo_db, faults = []\<rparr> = (Inr (), w') \<and>
     map_option entered_cols (module_row (wdb w') 1 ModuleKeyDesign) =
       Some (ModuleStatePendingClaim, Some TeamDesignStandard) \<and>
     map_option entered_cols (module_row (wdb w') 1 ModuleKeyAudit) = Some (ModuleStatePending, None)"
proof -
  let ?w = "\<lparr>wdb = demo_db, faults = []\<rparr>"
  have f: "faults ?w = []" and t: "T_ID demo_task \<in> T_ID ` set (tasks (wdb ?w))"
    by (simp_all add: demo_db_def)
  from init_task_instantiates_blueprint [OF f t demo_specs(1), of 5, unfolded demo_specs(2)]
  show ?thesis
  proof (elim exE conjE, goal_cases)
    case (1 w' es)
    note rows = 1(2)
    have "\<exists>m. module_row (wdb w') 1 ModuleKeyDesign = Some m \<and>
        (TM_State m, TM_PoolTeamCode m) = (ModuleStatePendingClaim, Some TeamDesignStandard)"
      and "\<exists>m. module_row (wdb w') 1 ModuleKeyAudit = Some m \<and>
        (TM_State m, TM_PoolTeamCode m) = (ModuleStatePending, None)"
      using rows [rule_format, of 1] rows [rule_format, of 2]
      by (simp_all add: productBlueprint_def init_cols_def demo_task_def)
    then show ?case using 1(1) by (auto simp: entered_cols_def)
  qed
qed

end
