(* ===== verification/Module_Action.thy ===== *)
theory Module_Action
  imports Permission Rule_Engine
begin

section \<open>Applying an action to a module\<close>

text \<open>
  \<^verbatim>\<open>src/service/module_action/action_service.go\<close>. \<open>J\<close> says which bytes the database accepts as a
  JSON document: the payload of a request is passed on unread and the INSERT fails on anything else.
\<close>

definition eventTypeForAction :: "string \<Rightarrow> string" where
  "eventTypeForAction actionName =
     (if actionName = ModuleActionSubmit then ModuleEventSubmitted
      else if actionName = ModuleActionApprove then ModuleEventApproved
      else if actionName = ModuleActionReject then ModuleEventRejected
      else if actionName = ModuleActionUpdateReferenceFiles then ModuleEventReferenceFilesUpdated
      else if actionName = ''receive'' then ModuleEventReceived
      else if actionName = ''complete'' then ModuleEventCompleted
      else actionName)"

definition payloadOrObject :: "string \<Rightarrow> rawjson" where
  "payloadOrObject raw = (if raw = [] then JObj [] else JRaw raw)"

definition EventInsert_raw :: "(string \<Rightarrow> bool) \<Rightarrow> time \<Rightarrow> TaskModuleEvent \<Rightarrow> id mact" where
  "EventInsert_raw J now ev =
     (case TE_Payload ev of
        JRaw raw \<Rightarrow> if J raw then EventInsert now ev else throw ErrDB
      | JObj _ \<Rightarrow> EventInsert now ev)"

definition action_snapshot :: "RequestActor \<Rightarrow> jsonobj" where
  "action_snapshot actor = [(''user_id'', JNum (RA_ID actor)), (''username'', JText (RA_Username actor)),
     (''team'', JText (RA_Team actor)), (''roles'', JTexts (RA_Roles actor))]"

definition Apply_tx :: "(string \<Rightarrow> bool) \<Rightarrow> mdb \<Rightarrow> time \<Rightarrow> time \<Rightarrow> RequestActor \<Rightarrow> id \<Rightarrow> Task \<Rightarrow> TaskModule \<Rightarrow>
  string \<Rightarrow> string \<Rightarrow> ModuleState \<Rightarrow> string \<Rightarrow> unit mact" where
  "Apply_tx J snap now app actor taskID task tm moduleKey actionName nxt raw =
     bnd (if nxt \<noteq> TM_State tm then UpdateState now taskID moduleKey nxt (Terminal nxt) else ret ()) (\<lambda>_.
     bnd (EventInsert_raw J now (mevent (TM_ID tm) (eventTypeForAction actionName)
            (Some (TM_State tm)) (Some nxt) (Some (RA_ID actor)) (action_snapshot actor)
            (payloadOrObject raw))) (\<lambda>eventID.
     ApplyAfterAction snap now app task moduleKey actionName (Some (RA_ID actor)) eventID))"

text \<open>
  The second half of a call, from the rows read before. The module row is read again after the
  authorisation; were it gone, the handler would panic and the recovery middleware answer with an
  internal error.
\<close>

definition Apply_commit :: "(string \<Rightarrow> bool) \<Rightarrow> time \<Rightarrow> time \<Rightarrow> RequestActor \<Rightarrow> id \<Rightarrow> Task \<Rightarrow> string \<Rightarrow>
  string \<Rightarrow> string \<Rightarrow> TaskModule option \<Rightarrow> Decision svc" where
  "Apply_commit J now app actor taskID task moduleKey actionName raw row =
     (case row of
        None \<Rightarrow> answer (Deny DenyInternalError)
      | Some tm \<Rightarrow>
         (case NextState moduleKey (TM_State tm) actionName of
            Inl denyCode \<Rightarrow> answer (Deny denyCode)
          | Inr nxt \<Rightarrow> (\<lambda>w.
             call (RunInTx (Apply_tx J (wdb w) now app actor taskID task tm moduleKey actionName
               nxt raw)) internal (\<lambda>_. answer Allow) w)))"

definition Apply_known :: "(string \<Rightarrow> bool) \<Rightarrow> time \<Rightarrow> time \<Rightarrow> RequestActor \<Rightarrow> id \<Rightarrow> Task \<Rightarrow> string \<Rightarrow>
  string \<Rightarrow> string \<Rightarrow> Decision svc" where
  "Apply_known J now app actor taskID task moduleKey actionName raw w =
     (case AuthorizeKnownTaskModuleAction actor task moduleKey actionName w of (dec, w1) \<Rightarrow>
        if dec \<noteq> Allow then (dec, w1)
        else call (GetByTaskAndKey taskID moduleKey) internal
               (Apply_commit J now app actor taskID task moduleKey actionName raw) w1)"

definition Apply :: "(string \<Rightarrow> bool) \<Rightarrow> time \<Rightarrow> time \<Rightarrow> RequestActor \<Rightarrow> id \<Rightarrow> string \<Rightarrow> string \<Rightarrow> string \<Rightarrow>
  Decision svc" where
  "Apply J now app actor taskID moduleKey actionName raw =
     call (TaskRepo_GetByID taskID) internal (\<lambda>t. case t of
       None \<Rightarrow> answer (Deny DenyTaskNotFound)
     | Some task \<Rightarrow> Apply_known J now app actor taskID task moduleKey actionName raw)"

subsection \<open>The abstract view: one state per module key\<close>

text \<open>
  Seen from outside, a task is a map from (canonical) module keys to states. Each database
  operation has its counterpart on this map, and so has a whole action.
\<close>

definition mstate :: "mdb \<Rightarrow> id \<Rightarrow> string \<Rightarrow> ModuleState option" where
  "mstate d t c = map_option TM_State (List.find (\<lambda>m. module_uk m = (t, c)) (task_modules d))"

definition set_if_present :: "string \<Rightarrow> ModuleState \<Rightarrow> (string \<rightharpoonup> ModuleState) \<Rightarrow> (string \<rightharpoonup> ModuleState)" where
  "set_if_present c st s = (if s c = None then s else s(c \<mapsto> st))"

text \<open>The flow of a task: what the action \<open>a\<close> on module \<open>k\<close>, which leads to \<open>nxt\<close>, does to the map.\<close>

definition work_key :: "Task \<Rightarrow> string" where
  "work_key task = (if isCustomizationTask task then ModuleKeyCustomization else ModuleKeyDesign)"

definition flow :: "Task \<Rightarrow> string \<Rightarrow> string \<Rightarrow> ModuleState \<Rightarrow> (string \<rightharpoonup> ModuleState) \<Rightarrow> (string \<rightharpoonup> ModuleState)" where
  "flow task k a nxt s =
     (let s' = set_if_present (ci_key k) nxt s in
      if a = ModuleActionSubmit \<and> (k = ModuleKeyDesign \<or> k = ModuleKeyCustomization)
        then s'(ci_key ModuleKeyAudit \<mapsto> ModuleStatePendingClaim)
      else if a = ModuleActionSubmit \<and> k = ModuleKeyRetouch
        then set_if_present (ci_key ModuleKeyRetouch) ModuleStateClosed s'
      else if a = ModuleActionApprove \<and> k = ModuleKeyAudit
        then (set_if_present (ci_key (work_key task)) ModuleStateClosed s')
               (ci_key ModuleKeyWarehouse \<mapsto> ModuleStatePendingClaim)
      else if a = ModuleActionReject \<and> k = ModuleKeyAudit
        then set_if_present (ci_key (work_key task)) ModuleStateInProgress s'
      else s')"

lemma module_row_find: "module_row d t k = List.find (\<lambda>m. module_uk m = (t, ci_key k)) (task_modules d)"
  unfolding module_row_def same_module_key [abs_def] ..

lemma mstate_row: "mstate d t (ci_key k) = map_option TM_State (module_row d t k)"
  by (simp add: mstate_def module_row_find)

lemma mstate_enter:
  "mstate (enter_row now t k st pool data d) t' =
   (if t' = t then (mstate d t)(ci_key k \<mapsto> st) else mstate d t')"
proof
  fix c
  show "mstate (enter_row now t k st pool data d) t' c =
      (if t' = t then (mstate d t)(ci_key k \<mapsto> st) else mstate d t') c"
  proof (cases "(t', c) = (t, ci_key k)")
    case True
    then show ?thesis
      using enter_row_same [of now t k st pool data d] by (auto simp: mstate_row entered_def)
  next
    case False
    have "List.find (\<lambda>m. module_uk m = (t', c)) (task_modules (enter_row now t k st pool data d)) =
        List.find (\<lambda>m. module_uk m = (t', c)) (task_modules d)"
    proof (cases "module_row d t k")
      case None
      then show ?thesis using False
        by (auto simp: enter_row_def find_append module_uk_def split: option.splits)
    next
      case (Some m)
      have "List.find (\<lambda>m. module_uk m = (t', c)) (row_upd (same_module t k) f xs) =
          List.find (\<lambda>m. module_uk m = (t', c)) xs"
        if "\<And>m. module_uk (f m) = module_uk m" for f xs
        using that False by (induction xs) (auto simp: same_module_key)
      then show ?thesis using Some by (simp add: enter_row_def module_uk_def)
    qed
    then show ?thesis using False by (auto simp: mstate_def)
  qed
qed

lemma mstate_update:
  "mstate (d\<lparr>task_modules := row_upd (same_module t k) (set_state now st b) (task_modules d)\<rparr>) t' =
   (if t' = t then set_if_present (ci_key k) st (mstate d t) else mstate d t')"
proof
  fix c
  have find: "List.find (\<lambda>m. module_uk m = (t', c)) (row_upd (same_module t k) (set_state now st b) xs) =
      map_option (\<lambda>m. if same_module t k m then set_state now st b m else m)
        (List.find (\<lambda>m. module_uk m = (t', c)) xs)" for xs
    by (rule find_row_upd) (simp add: module_uk_def)
  show "mstate (d\<lparr>task_modules := row_upd (same_module t k) (set_state now st b) (task_modules d)\<rparr>) t' c =
      (if t' = t then set_if_present (ci_key k) st (mstate d t) else mstate d t') c"
    by (cases "List.find (\<lambda>m. module_uk m = (t', c)) (task_modules d)")
       (auto simp: mstate_def find set_if_present_def same_module_key dest: find_SomeD)
qed

lemma mstate_frame [simp]:
  "mstate (insert_event now ev d) = mstate d" "mstate (upd_task now i f d) = mstate d"
  by (simp_all add: mstate_def [abs_def])

subsection \<open>Triples on the abstract view\<close>

text \<open>\<open>view t s s0 d\<close>: task \<open>t\<close> is in \<open>s\<close>, the other tasks are as in \<open>s0\<close>.\<close>

definition view :: "id \<Rightarrow> (string \<rightharpoonup> ModuleState) \<Rightarrow> (id \<Rightarrow> string \<rightharpoonup> ModuleState) \<Rightarrow> mdb \<Rightarrow> bool" where
  "view t s s0 d \<longleftrightarrow> mstate d = s0(t := s)"

lemma view_start: "view t (mstate d t) (mstate d) d"
  by (simp add: view_def)

lemma view_EventInsert: "triple (view t s s0) (EventInsert now ev) (\<lambda>_. view t s s0)"
  unfolding EventInsert_def by (rule triple_stmt) (auto simp: view_def split: if_splits)

lemma view_EventInsert_raw: "triple (view t s s0) (EventInsert_raw J now ev) (\<lambda>_. view t s s0)"
  unfolding EventInsert_raw_def
  by (cases "TE_Payload ev") (simp_all add: view_EventInsert triple_throw)

lemma view_UpdateState:
  "triple (view t s s0) (UpdateState now t k st b) (\<lambda>_. view t (set_if_present (ci_key k) st s) s0)"
  unfolding UpdateState_def
  by (rule triple_exec, unfold view_def, rule ext) (simp add: mstate_update)

lemma view_Enter:
  "triple (view t s s0) (Enter now t k st pool data) (\<lambda>_. view t (s(ci_key k \<mapsto> st)) s0)"
  unfolding Enter_def getByTaskAndKeyTx_def
  by (rule triple_bnd [where R = "\<lambda>_. view t (s(ci_key k \<mapsto> st)) s0"], rule triple_stmt)
     (auto simp: view_def mstate_enter fun_eq_iff split: if_splits option.splits
       intro!: triple_bnd [where R = "\<lambda>_. view t (s(ci_key k \<mapsto> st)) s0"] triple_query
       intro: triple_throw triple_ret)

lemma view_task_updates:
  "triple (view t s s0) (UpdateStatus now i st) (\<lambda>_. view t s s0)"
  "triple (view t s s0) (UpdateHandler now i h) (\<lambda>_. view t s s0)"
  unfolding UpdateStatus_def UpdateHandler_def reindexTaskSearchDocument_def
  by (rule triple_bnd [where R = "\<lambda>_. view t s s0"]; rule triple_exec triple_query;
      simp add: view_def)+

lemma view_move_module:
  "triple (view t s s0) (move_module to b ty snap now t k actor trig)
     (\<lambda>_. view t (if module_row snap t k = None then s else set_if_present (ci_key k) to s) s0)"
  unfolding move_module_def GetByTaskAndKey_outside_def
proof (rule triple_bnd [where R = "\<lambda>x d. view t s s0 d \<and> x = module_row snap t k"])
  show "triple (view t s s0) (query (\<lambda>_. module_row snap t k))
      (\<lambda>x d. view t s s0 d \<and> x = module_row snap t k)"
    by (rule triple_query) simp
  fix x
  show "triple (\<lambda>d. view t s s0 d \<and> x = module_row snap t k)
     (case x of None \<Rightarrow> ret ()
      | Some b' \<Rightarrow> bnd (UpdateState now t k to b) (\<lambda>_.
          bnd (EventInsert now (mevent (TM_ID b') ty (Some (TM_State b')) (Some to) actor []
                 (JObj [(''trigger_event_id'', JNum trig)]))) (\<lambda>_. ret ())))
     (\<lambda>_. view t (if module_row snap t k = None then s else set_if_present (ci_key k) to s) s0)"
  proof (cases "x = module_row snap t k")
    case True
    show ?thesis
    proof (cases x)
      case None
      then show ?thesis using True by (auto intro: triple_ret)
    next
      case (Some m)
      have "triple (view t s s0) (bnd (UpdateState now t k to b) (\<lambda>_.
          bnd (EventInsert now (mevent (TM_ID m) ty (Some (TM_State m)) (Some to) actor []
                 (JObj [(''trigger_event_id'', JNum trig)]))) (\<lambda>_. ret ())))
          (\<lambda>_. view t (set_if_present (ci_key k) to s) s0)"
        by (rule triple_bnd [OF view_UpdateState], rule triple_bnd [OF view_EventInsert],
            rule triple_ret)
      then show ?thesis using True Some by (auto intro: triple_pre)
    qed
  qed (simp add: triple_def)
qed

lemma view_enterModule:
  "triple (view (T_ID task) s s0) (enterModule now app task k actor trig)
     (\<lambda>_. view (T_ID task) (s(ci_key k \<mapsto> ModuleStatePendingClaim)) s0)"
  unfolding enterModule_def
proof (cases "specFor task k")
  case (Some spec)
  show "triple (view (T_ID task) s s0) (case specFor task k of None \<Rightarrow> throw errBlueprint
      | Some spec \<Rightarrow> bnd (Enter now (T_ID task) k ModuleStatePendingClaim (enter_pool task k spec) [])
         (\<lambda>m. bnd (EventInsert now (mevent (TM_ID m) ModuleEventEntered None
                (Some ModuleStatePendingClaim) actor []
                (JObj [(''trigger_event_id'', JNum trig), (''entered_at'', JTime app),
                       (''pool_team_code'', poolValue (enter_pool task k spec))]))) (\<lambda>_. ret ())))
     (\<lambda>_. view (T_ID task) (s(ci_key k \<mapsto> ModuleStatePendingClaim)) s0)"
    unfolding Some option.case
    by (rule triple_bnd [OF view_Enter], rule triple_bnd [OF view_EventInsert], rule triple_ret)
qed (simp add: triple_throw)

lemma view_completeRetouchTask:
  "triple (view (T_ID task) s s0) (completeRetouchTask snap now task actor trig)
     (\<lambda>_. view (T_ID task) (if module_row snap (T_ID task) ModuleKeyRetouch = None then s
        else set_if_present (ci_key ModuleKeyRetouch) ModuleStateClosed s) s0)"
  unfolding completeRetouchTask_def closeModule_def
  by (rule triple_bnd [OF view_move_module], rule triple_bnd [OF view_task_updates(1)],
      rule view_task_updates(2))

text \<open>
  The keys joined by a dot determine the step: no module key contains one.
\<close>

lemma step_key_eq:
  assumes "CHR ''.'' \<notin> set k'" and "CHR ''.'' \<notin> set a'"
  shows "k @ ''.'' @ a = k' @ ''.'' @ a' \<longleftrightarrow> k = k' \<and> a = a'"
proof
  assume eq: "k @ ''.'' @ a = k' @ ''.'' @ a'"
  have "count_list (k @ ''.'' @ a) (CHR ''.'') = count_list (k' @ ''.'' @ a') (CHR ''.'')"
    using eq by simp
  then have k: "CHR ''.'' \<notin> set k" using assms by (simp add: count_list_0_iff)
  have "takeWhile (\<lambda>c. c \<noteq> CHR ''.'') (k @ ''.'' @ a) = k"
    "takeWhile (\<lambda>c. c \<noteq> CHR ''.'') (k' @ ''.'' @ a') = k'"
    using k assms(1) by (auto simp: takeWhile_append2 takeWhile_eq_all_conv takeWhile_tail)
  then show "k = k' \<and> a = a'" using eq by auto
qed simp

definition after_flow :: "mdb \<Rightarrow> Task \<Rightarrow> string \<Rightarrow> string \<Rightarrow> (string \<rightharpoonup> ModuleState) \<Rightarrow> (string \<rightharpoonup> ModuleState)" where
  "after_flow snap task k a s =
     (let t = T_ID task;
          moved = (\<lambda>c st. if module_row snap t c = None then s else set_if_present (ci_key c) st s) in
      if a = ModuleActionSubmit \<and> (k = ModuleKeyDesign \<or> k = ModuleKeyCustomization)
        then s(ci_key ModuleKeyAudit \<mapsto> ModuleStatePendingClaim)
      else if a = ModuleActionSubmit \<and> k = ModuleKeyRetouch
        then moved ModuleKeyRetouch ModuleStateClosed
      else if a = ModuleActionApprove \<and> k = ModuleKeyAudit
        then (moved (work_key task) ModuleStateClosed)
               (ci_key ModuleKeyWarehouse \<mapsto> ModuleStatePendingClaim)
      else if a = ModuleActionReject \<and> k = ModuleKeyAudit
        then moved (work_key task) ModuleStateInProgress
      else s)"

lemma view_close_enter:
  "triple (view (T_ID task) s s0)
     (bnd (closeModule snap now (T_ID task) k actor trig)
        (\<lambda>_. enterModule now app task k' actor trig))
     (\<lambda>_. view (T_ID task) ((if module_row snap (T_ID task) k = None then s
        else set_if_present (ci_key k) ModuleStateClosed s)(ci_key k' \<mapsto> ModuleStatePendingClaim)) s0)"
  unfolding closeModule_def by (rule triple_bnd [OF view_move_module], rule view_enterModule)

lemma view_ApplyAfterAction:
  "triple (view (T_ID task) s s0) (ApplyAfterAction snap now app task k a actor trig)
     (\<lambda>_. view (T_ID task) (after_flow snap task k a s) s0)"
proof -
  have keys: "k @ ''.'' @ a = ModuleKeyDesign @ ''.'' @ ModuleActionSubmit \<longleftrightarrow>
        k = ModuleKeyDesign \<and> a = ModuleActionSubmit"
      "k @ ''.'' @ a = ModuleKeyRetouch @ ''.'' @ ModuleActionSubmit \<longleftrightarrow>
        k = ModuleKeyRetouch \<and> a = ModuleActionSubmit"
      "k @ ''.'' @ a = ModuleKeyCustomization @ ''.'' @ ModuleActionSubmit \<longleftrightarrow>
        k = ModuleKeyCustomization \<and> a = ModuleActionSubmit"
      "k @ ''.'' @ a = ModuleKeyAudit @ ''.'' @ ModuleActionApprove \<longleftrightarrow>
        k = ModuleKeyAudit \<and> a = ModuleActionApprove"
      "k @ ''.'' @ a = ModuleKeyAudit @ ''.'' @ ModuleActionReject \<longleftrightarrow>
        k = ModuleKeyAudit \<and> a = ModuleActionReject"
    by (intro step_key_eq; simp)+
  consider (design) "k = ModuleKeyDesign" "a = ModuleActionSubmit"
    | (retouch) "k = ModuleKeyRetouch" "a = ModuleActionSubmit"
    | (custom) "k = ModuleKeyCustomization" "a = ModuleActionSubmit"
    | (approve) "k = ModuleKeyAudit" "a = ModuleActionApprove"
    | (reject) "k = ModuleKeyAudit" "a = ModuleActionReject"
    | (other) "\<not> (k = ModuleKeyDesign \<and> a = ModuleActionSubmit)"
        "\<not> (k = ModuleKeyRetouch \<and> a = ModuleActionSubmit)"
        "\<not> (k = ModuleKeyCustomization \<and> a = ModuleActionSubmit)"
        "\<not> (k = ModuleKeyAudit \<and> a = ModuleActionApprove)"
        "\<not> (k = ModuleKeyAudit \<and> a = ModuleActionReject)"
    by argo
  then show ?thesis
  proof cases
    case design
    then show ?thesis using view_enterModule by (simp add: ApplyAfterAction_def after_flow_def)
  next
    case retouch
    then show ?thesis
      using view_completeRetouchTask [of task s s0 snap now actor trig]
      by (simp add: ApplyAfterAction_def after_flow_def)
  next
    case custom
    then show ?thesis using view_enterModule by (simp add: ApplyAfterAction_def after_flow_def)
  next
    case approve
    then show ?thesis
      using view_close_enter [of task s s0 snap now "work_key task" actor trig app ModuleKeyWarehouse]
      by (simp add: ApplyAfterAction_def after_flow_def flip: work_key_def)
  next
    case reject
    then show ?thesis
      using view_move_module [of "T_ID task" s s0 ModuleStateInProgress False ModuleEventReopened
          snap now "work_key task" actor trig]
      by (simp add: ApplyAfterAction_def after_flow_def reopenModule_def flip: work_key_def)
  next
    case other
    have "ApplyAfterAction snap now app task k a actor trig = ret ()"
      unfolding ApplyAfterAction_def Let_def keys using other by argo
    moreover have "after_flow snap task k a s = s"
      unfolding after_flow_def Let_def using other by argo
    ultimately show ?thesis by (auto intro: triple_ret)
  qed
qed

lemma set_if_present_twice:
  "set_if_present c st (set_if_present c' st' s) c'' = None \<longleftrightarrow> s c'' = None"
  by (auto simp: set_if_present_def)

lemma set_if_present_None [simp]: "set_if_present c st s c' = None \<longleftrightarrow> s c' = None"
  by (auto simp: set_if_present_def)

text \<open>With the snapshot at the start of the transaction, the engine follows \<open>flow\<close>.\<close>

lemma after_flow_eq_flow:
  assumes "s = mstate snap (T_ID task)"
  shows "after_flow snap task k a (set_if_present (ci_key k) nxt s) = flow task k a nxt s"
proof -
  have "(module_row snap (T_ID task) c = None) = (set_if_present (ci_key k) nxt s (ci_key c) = None)"
    for c using assms by (simp add: mstate_row)
  then have m: "(if module_row snap (T_ID task) c = None then set_if_present (ci_key k) nxt s
      else set_if_present (ci_key c) st (set_if_present (ci_key k) nxt s)) =
      set_if_present (ci_key c) st (set_if_present (ci_key k) nxt s)" for c st
    by (simp add: set_if_present_def [of "ci_key c"])
  show ?thesis unfolding after_flow_def flow_def Let_def m by (rule refl)
qed

lemma Apply_tx_view:
  assumes "module_row snap t k = Some tm" and "T_ID task = t"
  shows "triple (\<lambda>d. d = snap) (Apply_tx J snap now app actor t task tm k a nxt raw)
     (\<lambda>_. view t (flow task k a nxt (mstate snap t)) (mstate snap))"
proof -
  let ?s = "set_if_present (ci_key k) nxt (mstate snap t)"
  have start: "triple (\<lambda>d. d = snap)
     (if nxt \<noteq> TM_State tm then UpdateState now t k nxt (Terminal nxt) else ret ())
     (\<lambda>_. view t ?s (mstate snap))"
  proof (cases "nxt = TM_State tm")
    case True
    then have "mstate snap t (ci_key k) = Some nxt" using assms(1) by (simp add: mstate_row)
    then have "?s = mstate snap t" by (auto simp: set_if_present_def)
    then show ?thesis using True by (auto intro: triple_ret simp: view_def)
  next
    case False
    then show ?thesis
      using triple_pre [OF view_UpdateState, of "\<lambda>d. d = snap"] by (simp add: view_start)
  qed
  have flow: "flow task k a nxt (mstate snap t) = after_flow snap task k a ?s"
    using after_flow_eq_flow [of "mstate snap t" snap task] assms(2) by simp
  show ?thesis unfolding Apply_tx_def flow
    by (rule triple_bnd [OF start], rule triple_bnd [OF view_EventInsert_raw])
       (use view_ApplyAfterAction assms(2) in fastforce)
qed

lemma Apply_commit_cases:
  assumes "Apply_commit J now app actor t task k a raw row w = (dec, w')"
  shows "dec \<noteq> Allow \<and> wdb w' = wdb w \<or>
    dec = Allow \<and> (\<exists>tm nxt. row = Some tm \<and> NextState k (TM_State tm) a = Inr nxt \<and>
      RunInTx (Apply_tx J (wdb w) now app actor t task tm k a nxt raw) w = (Inr (), w'))"
proof (cases row)
  case None
  then show ?thesis using assms by (simp add: Apply_commit_def)
next
  case (Some tm)
  show ?thesis
  proof (cases "NextState k (TM_State tm) a")
    case (Inl c)
    then show ?thesis using assms Some by (simp add: Apply_commit_def)
  next
    case (Inr nxt)
    then show ?thesis
      using assms Some by (auto simp: Apply_commit_def call_eq dest: RunInTx_failure)
  qed
qed

lemma Apply_known_cases:
  assumes run: "Apply_known J now app actor t task k a raw w = (dec, w')" and "T_ID task = t"
  shows "dec \<noteq> Allow \<and> wdb w' = wdb w \<or>
    dec = Allow \<and> (\<exists>tm nxt w2. module_row (wdb w) t k = Some tm \<and>
      authorize_row actor task k a (Some tm) = Allow \<and>
      NextState k (TM_State tm) a = Inr nxt \<and> wdb w2 = wdb w \<and>
      RunInTx (Apply_tx J (wdb w) now app actor t task tm k a nxt raw) w2 = (Inr (), w'))"
proof -
  obtain dec1 w1 where auth: "AuthorizeKnownTaskModuleAction actor task k a w = (dec1, w1)"
    by fastforce
  have w1: "wdb w1 = wdb w"
    using auth by (auto simp: AuthorizeKnownTaskModuleAction_def call_eq GetByTaskAndKey_def
        dest: query_keeps)
  show ?thesis
  proof (cases "dec1 = Allow")
    case False
    then show ?thesis using run auth w1 by (auto simp: Apply_known_def)
  next
    case True
    have ok: "authorize_row actor task k a (module_row (wdb w) t k) = Allow"
      using Authorize_read auth True assms(2) by metis
    from run auth True have "call (GetByTaskAndKey t k) internal
        (Apply_commit J now app actor t task k a raw) w1 = (dec, w')"
      by (simp add: Apply_known_def)
    then show ?thesis unfolding GetByTaskAndKey_def
    proof (cases rule: call_query)
      case (failed e)
      then show ?thesis using w1 by simp
    next
      case (read w2)
      then show ?thesis using Apply_commit_cases [OF read(2)] ok w1 by auto
    qed
  qed
qed

lemma Apply_cases:
  assumes "Apply J now app actor t k a raw w = (dec, w')"
  shows "dec \<noteq> Allow \<and> wdb w' = wdb w \<or>
    dec = Allow \<and> (\<exists>task tm nxt w2. task_row (wdb w) t = Some task \<and> T_ID task = t \<and>
      module_row (wdb w) t k = Some tm \<and> authorize_row actor task k a (Some tm) = Allow \<and>
      NextState k (TM_State tm) a = Inr nxt \<and> wdb w2 = wdb w \<and>
      RunInTx (Apply_tx J (wdb w) now app actor t task tm k a nxt raw) w2 = (Inr (), w'))"
proof -
  show ?thesis using assms unfolding Apply_def TaskRepo_GetByID_def
  proof (cases rule: call_query)
    case (failed e)
    then show ?thesis by simp
  next
    case (read w1)
    show ?thesis
    proof (cases "task_row (wdb w) t")
      case None
      then show ?thesis using read by simp
    next
      case (Some task)
      have tid: "T_ID task = t" using Some by (auto simp: task_row_def dest: find_SomeD)
      have "Apply_known J now app actor t task k a raw w1 = (dec, w')" using read Some by simp
      from Apply_known_cases [OF this tid] show ?thesis using Some tid read(1) by auto
    qed
  qed
qed

text \<open>
  (C3) Applying an action refines the flow of the task: under any failures of the database, a call
  is either denied and changes nothing, or it was authorised, the state machine allowed it in the
  module's present state, and every module of the task afterwards stands exactly where the flow
  puts it (the module itself, the audit that a submission opens, the work module that an approval
  closes and a rejection reopens, the warehouse that an approval opens); no other task moves.
\<close>

theorem apply_refines_flow:
  assumes "Apply J now app actor t k a raw w = (dec, w')"
  shows "dec \<noteq> Allow \<and> wdb w' = wdb w \<or>
    dec = Allow \<and> (\<exists>task tm nxt. task_row (wdb w) t = Some task \<and> module_row (wdb w) t k = Some tm \<and>
      authorize_row actor task k a (Some tm) = Allow \<and> NextState k (TM_State tm) a = Inr nxt \<and>
      mstate (wdb w') = (mstate (wdb w))(t := flow task k a nxt (mstate (wdb w) t)))"
  using Apply_cases [OF assms]
proof (elim disjE conjE exE)
  fix task tm nxt w2
  assume h: "dec = Allow" "task_row (wdb w) t = Some task" "T_ID task = t"
    "module_row (wdb w) t k = Some tm" "authorize_row actor task k a (Some tm) = Allow"
    "NextState k (TM_State tm) a = Inr nxt" "wdb w2 = wdb w"
    and run: "RunInTx (Apply_tx J (wdb w) now app actor t task tm k a nxt raw) w2 = (Inr (), w')"
  have "view t (flow task k a nxt (mstate (wdb w) t)) (mstate (wdb w)) (wdb w')"
    using RunInTx_success [OF run] h(7) tripleD [OF Apply_tx_view [OF h(4,3)]] by metis
  then show ?thesis using h by (auto simp: view_def)
qed simp

definition demo_progress :: mdb where
  "demo_progress = demo_db\<lparr>task_modules :=
     [demo_module 1 ModuleKeyDesign ModuleStateInProgress None (Some 9)], next_module_id := 2\<rparr>"

lemma demo_apply:
  "fst (Apply (\<lambda>_. True) 5 5 (demo_actor 9 [] []) 1 ModuleKeyDesign ModuleActionSubmit []
     \<lparr>wdb = demo_progress, faults = []\<rparr>) = Allow"
proof -
  let ?m = "demo_module 1 ModuleKeyDesign ModuleStateInProgress None (Some 9)"
  let ?w = "\<lparr>wdb = demo_progress, faults = []\<rparr>" and ?a = "demo_actor 9 [] []"
  have row: "module_row demo_progress 1 ModuleKeyDesign = Some ?m"
    and task: "task_row demo_progress 1 = Some demo_task" and tid: "T_ID demo_task = 1"
    by (simp_all add: module_row_def task_row_def demo_progress_def same_module_def demo_module_def
        demo_db_def demo_task_def)
  have auth: "authorize_row ?a demo_task ModuleKeyDesign ModuleActionSubmit (Some ?m) = Allow"
    by (simp add: authorize_row_Allow demo_module_def ScopeAllows_def hasRole_def demo_actor_def
        demo_access_def DescriptorFor_def descriptors_def claimedBySelf_def ActionSpecFor_def
        workModule_def action_def NextState_def roleFilterAllows_def)
  have nxt: "NextState ModuleKeyDesign (TM_State ?m) ModuleActionSubmit = Inr ModuleStateSubmitted"
    by (simp add: demo_module_def NextState_def ActionSpecFor_def DescriptorFor_def descriptors_def
        workModule_def action_def action_target_def)
  have spec: "specFor demo_task ModuleKeyAudit =
      Some (mspec ModuleKeyAudit ModuleStatePendingClaim (Some TeamAuditStandard))"
    by (simp add: specFor_def demo_specs) (simp add: productBlueprint_def basicInfo_def)
  have "\<exists>u. Apply_tx (\<lambda>_. True) demo_progress 5 5 ?a 1 demo_task ?m ModuleKeyDesign
      ModuleActionSubmit ModuleStateSubmitted [] ?w = (Inr (), u) \<and> faults u = []"
    by (simp add: Apply_tx_def demo_module_def UpdateState_def EventInsert_raw_def payloadOrObject_def
        EventInsert_def act_simps demo_progress_def ApplyAfterAction_def enterModule_def spec Enter_def
        getByTaskAndKeyTx_def insert_event_def enter_row_def module_row_def same_module_def
        set_state_def ci_eq_def ci_key_def to_lower_def tid demo_db_def find_append)
  then show ?thesis
    by (auto simp: Apply_def TaskRepo_GetByID_def task act_simps Apply_known_def
        AuthorizeKnownTaskModuleAction_def GetByTaskAndKey_def tid row auth answer_def
        Apply_commit_def nxt)
qed

theorem apply_refines_flow_witness:
  "\<exists>w'. Apply (\<lambda>_. True) 5 5 (demo_actor 9 [] []) 1 ModuleKeyDesign ModuleActionSubmit []
     \<lparr>wdb = demo_progress, faults = []\<rparr> = (Allow, w') \<and>
   mstate (wdb w') 1 ''design'' = Some ModuleStateSubmitted \<and>
   mstate (wdb w') 1 ''audit'' = Some ModuleStatePendingClaim"
proof -
  let ?w = "\<lparr>wdb = demo_progress, faults = []\<rparr>"
  obtain w' where run: "Apply (\<lambda>_. True) 5 5 (demo_actor 9 [] []) 1 ModuleKeyDesign
      ModuleActionSubmit [] ?w = (Allow, w')"
    using demo_apply by (metis prod.collapse)
  have start: "mstate demo_progress 1 ''design'' = Some ModuleStateInProgress"
    "module_row demo_progress 1 ModuleKeyDesign =
       Some (demo_module 1 ModuleKeyDesign ModuleStateInProgress None (Some 9))"
    by (simp_all add: mstate_def module_row_def demo_progress_def demo_db_def demo_module_def
        module_uk_def ci_key_def to_lower_def same_module_def)
  have nxt: "NextState ModuleKeyDesign ModuleStateInProgress ModuleActionSubmit = Inr ModuleStateSubmitted"
    by (simp add: NextState_def ActionSpecFor_def DescriptorFor_def descriptors_def workModule_def
        action_def action_target_def)
  from apply_refines_flow [OF run] obtain task where
    "mstate (wdb w') 1 = flow task ModuleKeyDesign ModuleActionSubmit ModuleStateSubmitted
       (mstate demo_progress 1)"
    using start(2) nxt by (auto simp: demo_module_def)
  then show ?thesis using run start(1)
    by (auto simp: flow_def set_if_present_def ci_key_def to_lower_def)
qed

subsection \<open>Invariant\<close>

lemma triple_pay_event_raw:
  assumes "TE_TaskModuleID ev = i" and "TE_ToState ev = Some st"
  shows "triple (\<lambda>d. linv {i} d \<and> ext snap d \<and>
            (\<forall>m \<in> set (task_modules d). (TM_ID m = i \<longrightarrow> TM_State m = st) \<and> True))
          (EventInsert_raw J now ev) (\<lambda>_ d. rule_inv snap d)"
  unfolding EventInsert_raw_def
  by (cases "TE_Payload ev") (simp_all add: triple_pay_event [OF assms, simplified] triple_throw)

lemma Apply_tx_inv:
  assumes row: "module_row snap t k = Some tm"
  shows "triple (\<lambda>d. linv {} d \<and> d = snap) (Apply_tx J snap now app actor t task tm k a nxt raw)
     (\<lambda>_. linv {})"
proof (cases "minv snap")
  case True
  have tm: "tm \<in> set (task_modules snap)" "module_uk tm = (t, ci_key k)"
    using module_rowD [OF row] by auto
  have start: "triple (\<lambda>d. linv {} d \<and> d = snap)
     (if nxt \<noteq> TM_State tm then UpdateState now t k nxt (Terminal nxt) else ret ())
     (\<lambda>_ d. linv {TM_ID tm} d \<and> ext snap d \<and>
        (\<forall>m \<in> set (task_modules d). (TM_ID m = TM_ID tm \<longrightarrow> TM_State m = nxt) \<and> True))"
  proof (cases "nxt = TM_State tm")
    case same: True
    have "TM_State m = nxt" if "m \<in> set (task_modules snap)" "TM_ID m = TM_ID tm" for m
      using minv_unique_id [OF True that(1) tm(1) that(2)] same by simp
    then show ?thesis using same by (auto intro!: triple_ret simp: linv_def)
  next
    case False
    have "triple (\<lambda>d. linv {} d \<and> d = snap) (UpdateState now t k nxt (Terminal nxt))
       (\<lambda>_ d. linv {TM_ID tm} d \<and> ext snap d \<and>
          (\<forall>m \<in> set (task_modules d). (TM_ID m = TM_ID tm \<longrightarrow> TM_State m = nxt) \<and> True))"
      by (rule triple_pre [OF triple_UpdateState]) (use tm in auto)
    then show ?thesis using False by simp
  qed
  have "triple (\<lambda>d. linv {} d \<and> d = snap) (Apply_tx J snap now app actor t task tm k a nxt raw)
     (\<lambda>_. rule_inv snap)"
    unfolding Apply_tx_def
    by (rule triple_bnd [OF start], rule triple_bnd [OF triple_pay_event_raw], simp, simp,
        rule triple_ApplyAfterAction)
  then show ?thesis by (rule triple_post) simp
next
  case False
  then show ?thesis by (auto simp: triple_def linv_def)
qed

lemma Apply_keeps_linv: "linv {} (wdb w) \<Longrightarrow> linv {} (wdb (snd (Apply J now app actor t k a raw w)))"
proof -
  assume inv: "linv {} (wdb w)"
  obtain dec w' where run: "Apply J now app actor t k a raw w = (dec, w')" by fastforce
  from Apply_cases [OF run] show ?thesis
  proof (elim disjE conjE exE)
    fix task tm nxt w2
    assume row: "module_row (wdb w) t k = Some tm" and w2: "wdb w2 = wdb w"
      and tx: "RunInTx (Apply_tx J (wdb w) now app actor t task tm k a nxt raw) w2 = (Inr (), w')"
    have "linv {} (wdb w')"
      using RunInTx_success [OF tx] tripleD [OF Apply_tx_inv [OF row]] inv w2 by metis
    then show ?thesis using run by simp
  qed (use inv run in simp)
qed

end
