(* ===== verification/Task_Cancel.thy ===== *)
theory Task_Cancel
  imports Permission Module_Invariant
begin

section \<open>Cancelling a task, and its derived status\<close>

text \<open>
  \<^verbatim>\<open>src/service/task_cancel/cancel_service.go\<close> and
  \<^verbatim>\<open>src/service/task_aggregator/status_aggregator.go\<close>. \<^verbatim>\<open>CloseOpenModules\<close> lists the modules on
  another connection (\<open>snap\<close>) before it closes them.
\<close>

subsection \<open>Cancelling\<close>

definition has_admin_role :: "RequestActor \<Rightarrow> bool" where
  "has_admin_role actor \<longleftrightarrow>
     list_ex (\<lambda>role. role = RoleSuperAdmin \<or> role = RoleDeptAdmin) (RA_Roles actor) \<or>
     FA_IsSuperAdmin (RA_FrontendAccess actor) \<or> FA_IsDepartmentAdmin (RA_FrontendAccess actor)"

definition canCancel :: "RequestActor \<Rightarrow> Task \<Rightarrow> bool \<Rightarrow> bool" where
  "canCancel actor task force =
     (if RA_ID actor > 0 \<and> RA_ID actor = T_CreatorID task \<and> \<not> force then True
      else has_admin_role actor)"

definition canBypassClaimRestriction :: "RequestActor \<Rightarrow> Task \<Rightarrow> bool \<Rightarrow> bool" where
  "canBypassClaimRestriction actor task force =
     (if RA_ID actor > 0 \<and> RA_ID actor = T_CreatorID task then True
      else if \<not> force then False
      else has_admin_role actor)"

definition already_claimed :: "TaskModule \<Rightarrow> bool" where
  "already_claimed m \<longleftrightarrow> TM_ModuleKey m \<noteq> ModuleKeyBasicInfo \<and> TM_State m \<noteq> ModuleStatePendingClaim \<and>
     TM_State m \<noteq> ModuleStatePending \<and> \<not> Terminal (TM_State m)"

definition cancel_target :: "bool \<Rightarrow> ModuleState" where
  "cancel_target force = (if force then ModuleStateClosedByAdmin else ModuleStateForciblyClosed)"

definition cancel_event :: "RequestActor \<Rightarrow> string \<Rightarrow> bool \<Rightarrow> TaskModule \<Rightarrow> TaskModuleEvent" where
  "cancel_event actor reason force m =
     mevent (TM_ID m) (if force then ModuleEventForciblyClosed else ModuleEventTaskCancelled)
       (Some (TM_State m)) (Some (cancel_target force)) (Some (RA_ID actor))
       [(''user_id'', JNum (RA_ID actor)), (''username'', JText (RA_Username actor)),
        (''team'', JText (RA_Team actor))]
       (JObj [(''reason'', JText reason), (''force'', JFlag force)])"

definition Cancel_tx :: "mdb \<Rightarrow> time \<Rightarrow> RequestActor \<Rightarrow> id \<Rightarrow> string \<Rightarrow> bool \<Rightarrow> unit mact" where
  "Cancel_tx snap now actor taskID reason force =
     bnd (UpdateStatus now taskID TaskStatusCancelled) (\<lambda>_.
     bnd (CloseOpenModules snap now taskID (cancel_target force)) (\<lambda>before.
     for_each (\<lambda>m. if Terminal (TM_State m) then ret ()
       else bnd (EventInsert now (cancel_event actor reason force m)) (\<lambda>_. ret ())) before))"

definition Cancel :: "time \<Rightarrow> RequestActor \<Rightarrow> id \<Rightarrow> string \<Rightarrow> bool \<Rightarrow> Decision svc" where
  "Cancel now actor taskID reason0 force =
     (let reason = TrimSpace reason0 in
      if reason = [] then answer (Deny DenyReasonRequired)
      else call (TaskRepo_GetByID taskID) internal (\<lambda>t. case t of
        None \<Rightarrow> answer (Deny DenyTaskNotFound)
      | Some task \<Rightarrow>
         if \<not> canCancel actor task force then answer (Deny DenyModuleActionRoleDenied)
         else call (ListByTask taskID) internal (\<lambda>modules.
           if \<not> canBypassClaimRestriction actor task force \<and> list_ex already_claimed modules
           then answer (Deny DenyTaskAlreadyClaimed)
           else (\<lambda>w. call (RunInTx (Cancel_tx (wdb w) now actor taskID reason force)) internal
                       (\<lambda>_. answer Allow) w))))"

subsection \<open>Derived status\<close>

datatype DerivedStatus = DerivedDesignPendingClaim | DerivedDesignInProgress
  | DerivedDesignSubmitted | DerivedAuditPendingClaim | DerivedAuditInProgress
  | DerivedAuditRejected | DerivedAuditApproved | DerivedWarehousePreparing
  | DerivedWarehouseRejected | DerivedCustomizationPendingClaim | DerivedCustomizationInProgress
  | DerivedCustomizationSubmitted | DerivedProcurementInProgress | DerivedProcurementReview
  | DerivedCancelled | DerivedArchived | DerivedClosed

definition deriveModuleStatus :: "TaskModule \<Rightarrow> DerivedStatus" where
  "deriveModuleStatus m =
     (let k = TM_ModuleKey m; st = TM_State m in
      if k = ModuleKeyDesign \<or> k = ModuleKeyRetouch then
        (if st = ModuleStatePendingClaim then DerivedDesignPendingClaim
         else if st = ModuleStateSubmitted then DerivedDesignSubmitted
         else DerivedDesignInProgress)
      else if k = ModuleKeyCustomization then
        (if st = ModuleStatePendingClaim then DerivedCustomizationPendingClaim
         else if st = ModuleStateSubmitted then DerivedCustomizationSubmitted
         else DerivedCustomizationInProgress)
      else if k = ModuleKeyAudit then
        (if st = ModuleStatePendingClaim then DerivedAuditPendingClaim
         else if st = ModuleStateRejected then DerivedAuditRejected
         else if st = ModuleStateApproved then DerivedAuditApproved
         else DerivedAuditInProgress)
      else if k = ModuleKeyProcurement then
        (if st = ModuleStateReview then DerivedProcurementReview else DerivedProcurementInProgress)
      else if k = ModuleKeyWarehouse then
        (if st = ModuleStateRejected then DerivedWarehouseRejected else DerivedWarehousePreparing)
      else DerivedClosed)"

definition derive_order :: "string list" where
  "derive_order = [ModuleKeyCustomization, ModuleKeyDesign, ModuleKeyRetouch, ModuleKeyProcurement,
     ModuleKeyAudit, ModuleKeyWarehouse]"

fun derive_scan :: "TaskModule list \<Rightarrow> string list \<Rightarrow> DerivedStatus" where
  "derive_scan modules [] = DerivedClosed"
| "derive_scan modules (key # keys) =
     (case List.find (\<lambda>m. TM_ModuleKey m = key \<and> \<not> Terminal (TM_State m)) modules of
        Some m \<Rightarrow> deriveModuleStatus m
      | None \<Rightarrow> derive_scan modules keys)"

definition Derive :: "id \<Rightarrow> DerivedStatus mact" where
  "Derive taskID =
     bnd (ListByTask taskID) (\<lambda>modules.
       if list_ex (\<lambda>m. TM_State m = ModuleStateForciblyClosed \<or> TM_State m = ModuleStateClosedByAdmin)
            modules
       then ret DerivedCancelled
       else ret (derive_scan modules derive_order))"

subsection \<open>The effect of a cancellation\<close>

definition close_open :: "time \<Rightarrow> id \<Rightarrow> ModuleState \<Rightarrow> mdb \<Rightarrow> mdb" where
  "close_open now t st d = d\<lparr>task_modules :=
     row_upd (\<lambda>m. TM_TaskID m = t \<and> \<not> Terminal (TM_State m)) (set_state now st True) (task_modules d)\<rparr>"

definition open_modules :: "mdb \<Rightarrow> id \<Rightarrow> TaskModule list" where
  "open_modules d t = filter (\<lambda>m. \<not> Terminal (TM_State m)) (modules_of_task d t)"

text \<open>The task cancelled, its open modules closed, and one event for each of them.\<close>

definition cancel_spec :: "time \<Rightarrow> RequestActor \<Rightarrow> id \<Rightarrow> string \<Rightarrow> bool \<Rightarrow> mdb \<Rightarrow> mdb" where
  "cancel_spec now actor t reason force d =
     fold (\<lambda>m. insert_event now (cancel_event actor reason force m)) (open_modules d t)
       (close_open now t (cancel_target force)
         (upd_task now t (\<lambda>t. t\<lparr>T_TaskStatus := TaskStatusCancelled\<rparr>) d))"

lemma CloseOpenModules_success:
  assumes "CloseOpenModules snap now t st w = (Inr before, w')"
  shows "before = modules_of_task snap t \<and> wdb w' = close_open now t st (wdb w)"
proof -
  have eq: "(\<lambda>m. TM_TaskID m = t \<and> TM_State m \<notin> set [ModuleStateClosed, ModuleStateForciblyClosed,
      ModuleStateClosedByAdmin, ModuleStateCompleted]) = (\<lambda>m. TM_TaskID m = t \<and> \<not> Terminal (TM_State m))"
    by (rule ext) (simp add: Terminal_iff)
  show ?thesis using assms unfolding CloseOpenModules_def close_open_def eq
    by (auto simp: bnd_eq_Inr ListByTask_outside_def dest!: query_success exec_success)
qed

lemma cancel_events_success:
  assumes "for_each (\<lambda>m. if Terminal (TM_State m) then ret ()
       else bnd (EventInsert now (cancel_event actor reason force m)) (\<lambda>_. ret ())) ms w = (Inr x, w')"
  shows "wdb w' = fold (\<lambda>m. insert_event now (cancel_event actor reason force m))
     (filter (\<lambda>m. \<not> Terminal (TM_State m)) ms) (wdb w)"
  using assms
proof (induction ms arbitrary: w)
  case Nil
  then show ?case by simp
next
  case (Cons m ms)
  then show ?case
    by (auto simp: bnd_eq_Inr EventInsert_def split: if_splits dest!: stmt_success)
qed

lemma UpdateStatus_success:
  "UpdateStatus now i st w = (Inr x, w') \<Longrightarrow>
   wdb w' = upd_task now i (\<lambda>t. t\<lparr>T_TaskStatus := st\<rparr>) (wdb w)"
  by (auto simp: UpdateStatus_def bnd_eq_Inr reindexTaskSearchDocument_def
      dest!: exec_success query_success)

lemma Cancel_tx_success:
  assumes "Cancel_tx snap now actor t reason force w = (Inr x, w')" and "snap = wdb w"
  shows "wdb w' = cancel_spec now actor t reason force (wdb w)"
proof -
  obtain w1 before w2 where st: "UpdateStatus now t TaskStatusCancelled w = (Inr (), w1)"
    and cl: "CloseOpenModules snap now t (cancel_target force) w1 = (Inr before, w2)"
    and ev: "for_each (\<lambda>m. if Terminal (TM_State m) then ret ()
       else bnd (EventInsert now (cancel_event actor reason force m)) (\<lambda>_. ret ())) before w2
       = (Inr x, w')"
    using assms(1) unfolding Cancel_tx_def by (auto simp: bnd_eq_Inr)
  show ?thesis
    using UpdateStatus_success [OF st] CloseOpenModules_success [OF cl] cancel_events_success [OF ev]
      assms(2)
    by (simp add: cancel_spec_def open_modules_def)
qed

lemma Cancel_cases:
  assumes "Cancel now actor t reason force w = (dec, w')"
  shows "dec \<noteq> Allow \<and> wdb w' = wdb w \<or>
    dec = Allow \<and> wdb w' = cancel_spec now actor t (TrimSpace reason) force (wdb w) \<and>
    TrimSpace reason \<noteq> [] \<and>
    (\<exists>task. task_row (wdb w) t = Some task \<and> canCancel actor task force \<and>
       (canBypassClaimRestriction actor task force \<or>
        \<not> list_ex already_claimed (modules_of_task (wdb w) t)))"
proof (cases "TrimSpace reason = []")
  case True
  then show ?thesis using assms by (simp add: Cancel_def)
next
  case False
  show ?thesis using assms False unfolding Cancel_def Let_def TaskRepo_GetByID_def if_not_P [OF False]
  proof (cases rule: call_query)
    case (failed e)
    then show ?thesis by simp
  next
    case (read w1)
    show ?thesis
    proof (cases "task_row (wdb w) t")
      case None
      then show ?thesis using read by simp
    next
      case (Some task)
      show ?thesis
      proof (cases "canCancel actor task force")
        case False
        then show ?thesis using read Some by simp
      next
        case ok: True
        from read Some ok have "call (query (\<lambda>d. modules_of_task d t)) internal (\<lambda>modules.
           if \<not> canBypassClaimRestriction actor task force \<and> list_ex already_claimed modules
           then answer (Deny DenyTaskAlreadyClaimed)
           else (\<lambda>w. call (RunInTx (Cancel_tx (wdb w) now actor t (TrimSpace reason) force)) internal
                       (\<lambda>_. answer Allow) w)) w1 = (dec, w')"
          by (simp add: ListByTask_def)
        then show ?thesis
        proof (cases rule: call_query)
          case (failed e)
          then show ?thesis using read by simp
        next
          case list: (read w2)
          show ?thesis
          proof (cases "\<not> canBypassClaimRestriction actor task force \<and>
              list_ex already_claimed (modules_of_task (wdb w) t)")
            case True
            then show ?thesis using list read by simp
          next
            case free: False
            then have "call (RunInTx (Cancel_tx (wdb w) now actor t (TrimSpace reason) force))
                internal (\<lambda>_. answer Allow) w2 = (dec, w')"
              using list read by (simp split: if_splits)
            then consider e where "RunInTx (Cancel_tx (wdb w) now actor t (TrimSpace reason) force) w2
                = (Inl e, w')" "dec = internal e"
              | "RunInTx (Cancel_tx (wdb w) now actor t (TrimSpace reason) force) w2 = (Inr (), w')"
                "dec = Allow"
              by (auto simp: call_eq)
            then show ?thesis
            proof cases
              case (1 e)
              then show ?thesis using RunInTx_failure [OF 1(1)] list read by simp
            next
              case 2
              obtain u1 u2 where u: "wdb u1 = wdb w2" "wdb w' = wdb u2"
                and tx: "Cancel_tx (wdb w) now actor t (TrimSpace reason) force u1 = (Inr (), u2)"
                using RunInTx_success [OF 2(1)] by auto
              have "wdb u1 = wdb w" using u list read by simp
              then have "wdb w' = cancel_spec now actor t (TrimSpace reason) force (wdb w)"
                using Cancel_tx_success [OF tx] u(2) by simp
              then show ?thesis using 2(2) free Some ok False by auto
            qed
          qed
        qed
      qed
    qed
  qed
qed

lemma insert_events_frame:
  "task_modules (fold (\<lambda>m. insert_event now (f m)) ms d) = task_modules d"
  "tasks (fold (\<lambda>m. insert_event now (f m)) ms d) = tasks d"
  by (induction ms arbitrary: d) simp_all

lemma cancel_event_simps [simp]:
  "TE_TaskModuleID (cancel_event actor reason force m) = TM_ID m"
  "TE_FromState (cancel_event actor reason force m) = Some (TM_State m)"
  "TE_ToState (cancel_event actor reason force m) = Some (cancel_target force)"
  by (simp_all add: cancel_event_def)

lemma insert_event_log:
  "module_events (insert_event now ev d) =
   module_events d @ [ev\<lparr>TE_ID := next_module_event d, TE_CreatedAt := now\<rparr>]"
  by (simp add: insert_event_def)

lemma insert_events_log:
  "\<exists>es. module_events (fold (\<lambda>m. insert_event now (cancel_event actor reason force m)) ms d) =
      module_events d @ es \<and>
    map (\<lambda>e. (TE_TaskModuleID e, TE_FromState e, TE_ToState e)) es =
      map (\<lambda>m. (TM_ID m, Some (TM_State m), Some (cancel_target force))) ms"
proof (induction ms arbitrary: d)
  case Nil
  show ?case by simp
next
  case (Cons m ms)
  let ?d = "insert_event now (cancel_event actor reason force m) d"
  from Cons.IH [of ?d] obtain es where
    "module_events (fold (\<lambda>m. insert_event now (cancel_event actor reason force m)) ms ?d) =
       module_events ?d @ es"
    "map (\<lambda>e. (TE_TaskModuleID e, TE_FromState e, TE_ToState e)) es =
       map (\<lambda>m. (TM_ID m, Some (TM_State m), Some (cancel_target force))) ms"
    by auto
  then show ?case
    by (intro exI [of _ "(cancel_event actor reason force m)\<lparr>TE_ID := next_module_event d,
          TE_CreatedAt := now\<rparr> # es"]) (simp add: insert_event_log)
qed

lemma cancel_target_Terminal [simp]: "Terminal (cancel_target force)"
  by (simp add: cancel_target_def)

lemma cancel_spec_modules:
  "task_modules (cancel_spec now actor t reason force d) =
   row_upd (\<lambda>m. TM_TaskID m = t \<and> \<not> Terminal (TM_State m))
     (set_state now (cancel_target force) True) (task_modules d)"
  by (simp add: cancel_spec_def insert_events_frame close_open_def)

lemma cancel_spec_task:
  assumes "task_row d t = Some task"
  shows "map_option T_TaskStatus (task_row (cancel_spec now actor t reason force d) t) =
    Some TaskStatusCancelled"
proof -
  let ?f = "\<lambda>t. t\<lparr>T_TaskStatus := TaskStatusCancelled\<rparr>"
  have "T_ID task = t" using assms by (auto simp: task_row_def dest: find_SomeD)
  moreover have "T_TaskStatus task = TaskStatusCancelled" if "?f task = task"
  proof -
    have "T_TaskStatus (?f task) = TaskStatusCancelled" by simp
    then show ?thesis unfolding that .
  qed
  ultimately show ?thesis
    using assms
    by (auto simp: cancel_spec_def insert_events_frame close_open_def upd_task_def task_row_def
        find_row_upd)
qed

text \<open>
  (C17) A cancellation, under any failures, changes nothing or cancels everything: the caller gave a
  reason and was entitled to cancel, the task is cancelled, every module of it is closed and has a
  closing time, the modules of other tasks are as before, and exactly one event per module that was
  open is appended, from its former state to the closing state.
\<close>

theorem cancel_closes_task:
  assumes inv: "minv (wdb w)" and run: "Cancel now actor t reason force w = (dec, w')"
  shows "dec \<noteq> Allow \<and> wdb w' = wdb w \<or>
    dec = Allow \<and> TrimSpace reason \<noteq> [] \<and>
    pred_option (\<lambda>task. canCancel actor task force) (task_row (wdb w) t) \<and>
    map_option T_TaskStatus (task_row (wdb w') t) = Some TaskStatusCancelled \<and>
    list_all (\<lambda>m. TM_TaskID m = t \<longrightarrow> Terminal (TM_State m) \<and> TM_TerminalAt m \<noteq> None)
      (task_modules (wdb w')) \<and>
    filter (\<lambda>m. TM_TaskID m \<noteq> t) (task_modules (wdb w')) =
      filter (\<lambda>m. TM_TaskID m \<noteq> t) (task_modules (wdb w)) \<and>
    (\<exists>es. module_events (wdb w') = module_events (wdb w) @ es \<and>
       map (\<lambda>e. (TE_TaskModuleID e, TE_FromState e, TE_ToState e)) es =
         map (\<lambda>m. (TM_ID m, Some (TM_State m), Some (cancel_target force))) (open_modules (wdb w) t))"
proof (cases "dec = Allow")
  case False
  then show ?thesis using Cancel_cases [OF run] by auto
next
  case True
  let ?p = "\<lambda>m. TM_TaskID m = t \<and> \<not> Terminal (TM_State m)"
    and ?f = "set_state now (cancel_target force) True"
  obtain task where w': "wdb w' = cancel_spec now actor t (TrimSpace reason) force (wdb w)"
    and reason: "TrimSpace reason \<noteq> []" and task: "task_row (wdb w) t = Some task"
    and may: "canCancel actor task force"
    using Cancel_cases [OF run] True by auto
  have closed: "TM_TaskID m = t \<longrightarrow> Terminal (TM_State m) \<and> TM_TerminalAt m \<noteq> None"
    if m: "m \<in> set (row_upd ?p ?f (task_modules (wdb w)))" for m
  proof -
    obtain r where r: "r \<in> set (task_modules (wdb w))" "m = (if ?p r then ?f r else r)"
      using m by (auto simp: row_upd_def)
    have "Terminal (TM_State r) \<longrightarrow> TM_TerminalAt r \<noteq> None" using inv r(1) by (simp add: minv_def)
    then show ?thesis using r(2) by (simp add: set_state_def)
  qed
  have others: "filter (\<lambda>m. TM_TaskID m \<noteq> t) (row_upd ?p ?f xs) = filter (\<lambda>m. TM_TaskID m \<noteq> t) xs" for xs
    by (induction xs) auto
  have log: "\<exists>es. module_events (wdb w') = module_events (wdb w) @ es \<and>
      map (\<lambda>e. (TE_TaskModuleID e, TE_FromState e, TE_ToState e)) es =
        map (\<lambda>m. (TM_ID m, Some (TM_State m), Some (cancel_target force))) (open_modules (wdb w) t)"
    unfolding w' cancel_spec_def
    using insert_events_log [of now actor "TrimSpace reason" force "open_modules (wdb w) t"
        "close_open now t (cancel_target force)
          (upd_task now t (\<lambda>t. t\<lparr>T_TaskStatus := TaskStatusCancelled\<rparr>) (wdb w))"]
    by (simp add: close_open_def)
  show ?thesis
    using True reason task may closed others log cancel_spec_task [OF task]
    by (auto simp: w' cancel_spec_modules list_all_iff)
qed

text \<open>
  A task whose cancellation was allowed while a module was open is reported as cancelled: any
  later status derivation on the database the cancellation left behind returns cancelled, if it
  returns.
\<close>

theorem cancelled_task_is_reported:
  assumes run: "Cancel now actor t reason force w = (Allow, w1)" and open_mod: "open_modules (wdb w) t \<noteq> []"
    and "wdb w2 = wdb w1" and read: "Derive t w2 = (Inr s, w3)"
  shows "s = DerivedCancelled"
proof -
  let ?p = "\<lambda>m. TM_TaskID m = t \<and> \<not> Terminal (TM_State m)"
    and ?f = "set_state now (cancel_target force) True"
  obtain m where "m \<in> set (open_modules (wdb w) t)" using open_mod by (meson list.set_sel(1))
  then have m: "m \<in> set (task_modules (wdb w))" "?p m" "\<not> is_placeholder m"
    by (auto simp: open_modules_def modules_of_task_def)
  have "task_modules (wdb w1) = row_upd ?p ?f (task_modules (wdb w))"
    using Cancel_cases [OF run] by (simp add: cancel_spec_modules)
  then have "?f m \<in> set (task_modules (wdb w1))" using m by (force simp: row_upd_def)
  then have "?f m \<in> set (modules_of_task (wdb w1) t)"
    using m by (simp add: modules_of_task_def is_placeholder_def)
  then have "list_ex (\<lambda>m. TM_State m = ModuleStateForciblyClosed \<or> TM_State m = ModuleStateClosedByAdmin)
      (modules_of_task (wdb w2) t)"
    using assms(3) by (force simp: list_ex_iff cancel_target_def)
  then show ?thesis
    using read by (auto simp: Derive_def bnd_eq_Inr ListByTask_def dest!: query_success)
qed

subsection \<open>Invariant\<close>

lemma linv_mono: "linv S d \<Longrightarrow> S \<subseteq> S' \<Longrightarrow> linv S' d"
  by (auto simp: linv_def)

lemma cancel_events_linv:
  assumes "linv (TM_ID ` set ms) d" and "TM_ID ` set ms \<subseteq> TM_ID ` set (task_modules d)"
    and "\<And>m. m \<in> set (task_modules d) \<Longrightarrow> TM_ID m \<in> TM_ID ` set ms \<Longrightarrow> TM_State m = cancel_target force"
  shows "linv {} (fold (\<lambda>m. insert_event now (cancel_event actor reason force m)) ms d)"
  using assms
proof (induction ms arbitrary: d)
  case Nil
  then show ?case by simp
next
  case (Cons m ms)
  let ?d = "insert_event now (cancel_event actor reason force m) d"
  have "linv (TM_ID ` set (m # ms) - {TM_ID m}) ?d"
    using insert_event_linv [OF Cons.prems(1), of "cancel_event actor reason force m"] Cons.prems(2,3)
    by simp
  then have l: "linv (TM_ID ` set ms) ?d" by (rule linv_mono) auto
  have "linv {} (fold (\<lambda>m. insert_event now (cancel_event actor reason force m)) ms ?d)"
    by (rule Cons.IH [OF l]) (use Cons.prems(2,3) in simp_all)
  then show ?case by simp
qed

lemma cancel_spec_linv:
  assumes "linv {} d"
  shows "linv {} (cancel_spec now actor t reason force d)"
proof -
  let ?p = "\<lambda>m. TM_TaskID m = t \<and> \<not> Terminal (TM_State m)"
    and ?f = "set_state now (cancel_target force) True"
    and ?d = "upd_task now t (\<lambda>t. t\<lparr>T_TaskStatus := TaskStatusCancelled\<rparr>) d"
  have ok: "row_ok ?f" by (rule row_ok_set_state) simp
  have inv: "minv d" using assms by (simp add: linv_def)
  have ids: "TM_ID ` set (open_modules d t) = TM_ID ` {m \<in> set (task_modules d). ?p m}"
    using inv by (auto simp: open_modules_def modules_of_task_def minv_def)
  have "linv (TM_ID ` set (open_modules d t)) (close_open now t (cancel_target force) ?d)"
    unfolding close_open_def
    by (rule linv_row_upd [OF upd_task_linv [OF _ assms] ok]) (auto simp: ids)
  moreover have "TM_ID ` set (open_modules d t) \<subseteq>
      TM_ID ` set (task_modules (close_open now t (cancel_target force) ?d))"
    unfolding ids
  proof (rule subsetI, elim imageE CollectE conjE)
    fix i m
    assume i: "i = TM_ID m" and m: "m \<in> set (task_modules d)" "TM_TaskID m = t" "\<not> Terminal (TM_State m)"
    have "?f m \<in> set (row_upd ?p ?f (task_modules d))" using m by (auto simp: row_upd_def image_iff)
    then show "i \<in> TM_ID ` set (task_modules (close_open now t (cancel_target force) ?d))"
      using i by (auto simp: close_open_def intro!: image_eqI [where x = "?f m"])
  qed
  moreover have "TM_State m = cancel_target force"
    if m: "m \<in> set (task_modules (close_open now t (cancel_target force) ?d))"
      and i: "TM_ID m \<in> TM_ID ` set (open_modules d t)" for m
  proof -
    obtain r where r: "r \<in> set (task_modules d)" "m = (if ?p r then ?f r else r)"
      using m by (auto simp: close_open_def row_upd_def)
    then obtain r' where "r' \<in> set (task_modules d)" "?p r'" "TM_ID r' = TM_ID r"
      using i unfolding ids by (auto split: if_splits)
    then have "?p r" using minv_unique_id [OF inv] r(1) by blast
    then show ?thesis using r(2) by simp
  qed
  ultimately show ?thesis unfolding cancel_spec_def by (rule cancel_events_linv)
qed

lemma Cancel_keeps_linv:
  "linv {} (wdb w) \<Longrightarrow> linv {} (wdb (snd (Cancel now actor t reason force w)))"
  using Cancel_cases [of now actor t reason force w "fst (Cancel now actor t reason force w)"
      "snd (Cancel now actor t reason force w)"] cancel_spec_linv by auto

subsection \<open>Cancellations that succeed\<close>

lemma cancel_events_run:
  "faults w = [] \<Longrightarrow> TM_ID ` set ms \<subseteq> TM_ID ` set (task_modules (wdb w)) \<Longrightarrow>
   for_each (\<lambda>m. if Terminal (TM_State m) then ret ()
       else bnd (EventInsert now (cancel_event actor reason force m)) (\<lambda>_. ret ())) ms w =
   (Inr (), w\<lparr>wdb := fold (\<lambda>m. insert_event now (cancel_event actor reason force m))
     (filter (\<lambda>m. \<not> Terminal (TM_State m)) ms) (wdb w)\<rparr>)"
  by (induction ms arbitrary: w) (auto simp: act_simps EventInsert_def)

lemma modules_of_task_ids:
  "TM_ID ` set (modules_of_task d t) \<subseteq> TM_ID ` set (task_modules (close_open now t st (upd_task now t f d)))"
proof -
  have "map TM_ID (task_modules (close_open now t st (upd_task now t f d))) = map TM_ID (task_modules d)"
    unfolding close_open_def by (simp add: map_row_upd)
  then have "TM_ID ` set (task_modules (close_open now t st (upd_task now t f d))) =
      TM_ID ` set (task_modules d)"
    by (metis list.set_map)
  then show ?thesis by (auto simp: modules_of_task_def)
qed

lemma Cancel_tx_run:
  assumes "faults w = []"
  shows "Cancel_tx (wdb w) now actor t reason force w =
    (Inr (), w\<lparr>wdb := cancel_spec now actor t reason force (wdb w)\<rparr>)"
proof -
  let ?st = "cancel_target force" and ?f = "\<lambda>t. t\<lparr>T_TaskStatus := TaskStatusCancelled\<rparr>"
  have eq: "(\<lambda>m. TM_TaskID m = t \<and> TM_State m \<notin> set [ModuleStateClosed, ModuleStateForciblyClosed,
      ModuleStateClosedByAdmin, ModuleStateCompleted]) = (\<lambda>m. TM_TaskID m = t \<and> \<not> Terminal (TM_State m))"
    by (rule ext) (simp add: Terminal_iff)
  have st: "UpdateStatus now t TaskStatusCancelled w = (Inr (), w\<lparr>wdb := upd_task now t ?f (wdb w)\<rparr>)"
    using assms by (simp add: UpdateStatus_def reindexTaskSearchDocument_def act_simps)
  have cl: "CloseOpenModules snap now t ?st u =
      (Inr (modules_of_task snap t), u\<lparr>wdb := close_open now t ?st (wdb u)\<rparr>)" if "faults u = []" for snap u
    unfolding CloseOpenModules_def eq
    using that by (simp add: ListByTask_outside_def act_simps close_open_def)
  have ev: "for_each (\<lambda>m. if Terminal (TM_State m) then ret ()
       else bnd (EventInsert now (cancel_event actor reason force m)) (\<lambda>_. ret ()))
       (modules_of_task (wdb w) t) (w\<lparr>wdb := close_open now t ?st (upd_task now t ?f (wdb w))\<rparr>) =
     (Inr (), w\<lparr>wdb := cancel_spec now actor t reason force (wdb w)\<rparr>)"
    using cancel_events_run [of "w\<lparr>wdb := close_open now t ?st (upd_task now t ?f (wdb w))\<rparr>"
        "modules_of_task (wdb w) t" now actor reason force] assms modules_of_task_ids
    by (simp add: cancel_spec_def open_modules_def)
  show ?thesis unfolding Cancel_tx_def
    using assms st cl [of "w\<lparr>wdb := upd_task now t ?f (wdb w)\<rparr>" "wdb w"] ev by (simp add: act_simps)
qed

text \<open>
  The creator of a task can always cancel it: with a reason that is not blank, without force
  and without failures, whatever the state of the modules, the call is allowed and has exactly the
  specified effect.
\<close>

theorem creator_can_cancel:
  assumes "faults w = []" and "task_row (wdb w) t = Some task"
    and "RA_ID actor > 0" "RA_ID actor = T_CreatorID task" and "TrimSpace reason \<noteq> []"
  shows "Cancel now actor t reason False w =
    (Allow, w\<lparr>wdb := cancel_spec now actor t (TrimSpace reason) False (wdb w)\<rparr>)"
  using assms Cancel_tx_run [OF assms(1)]
  by (simp add: Cancel_def Let_def TaskRepo_GetByID_def ListByTask_def act_simps canCancel_def
      canBypassClaimRestriction_def answer_def)

definition demo_open :: mdb where
  "demo_open = demo_db\<lparr>task_modules :=
     [demo_module 1 ModuleKeyDesign ModuleStateInProgress None (Some 9)], next_module_id := 2\<rparr>"

lemma demo_cancel_facts:
  "task_row demo_open 1 = Some demo_task" "RA_ID (demo_actor 7 [] []) = 7" "T_CreatorID demo_task = 7"
  "TrimSpace ''no'' = ''no''" "minv demo_open"
  "open_modules demo_open 1 = [demo_module 1 ModuleKeyDesign ModuleStateInProgress None (Some 9)]"
  by (simp_all add: task_row_def demo_open_def demo_db_def demo_task_def demo_actor_def
      go_string_simps minv_def demo_module_def module_order_def is_placeholder_def open_modules_def
      modules_of_task_def)

theorem creator_can_cancel_witness:
  "Cancel 5 (demo_actor 7 [] []) 1 ''no'' False \<lparr>wdb = demo_open, faults = []\<rparr> =
   (Allow, \<lparr>wdb = cancel_spec 5 (demo_actor 7 [] []) 1 ''no'' False demo_open, faults = []\<rparr>)"
  using creator_can_cancel [of "\<lparr>wdb = demo_open, faults = []\<rparr>" 1 demo_task "demo_actor 7 [] []" "''no''" 5]
  by (simp add: demo_cancel_facts)

lemma demo_cancel_allowed:
  obtains w' where "Cancel 5 (demo_actor 7 [] []) 1 ''no'' False \<lparr>wdb = demo_open, faults = []\<rparr> = (Allow, w')"
    "faults w' = []"
  using Cancel_tx_run [of "\<lparr>wdb = demo_open, faults = []\<rparr>" 5 "demo_actor 7 [] []" 1 "''no''" False]
  by (simp add: Cancel_def TaskRepo_GetByID_def ListByTask_def act_simps canCancel_def
      canBypassClaimRestriction_def answer_def demo_cancel_facts)

theorem cancel_closes_task_witness:
  "\<exists>w'. Cancel 5 (demo_actor 7 [] []) 1 ''no'' False \<lparr>wdb = demo_open, faults = []\<rparr> = (Allow, w') \<and>
   map_option T_TaskStatus (task_row (wdb w') 1) = Some TaskStatusCancelled"
proof -
  obtain w' where run: "Cancel 5 (demo_actor 7 [] []) 1 ''no'' False
      \<lparr>wdb = demo_open, faults = []\<rparr> = (Allow, w')"
    by (rule demo_cancel_allowed)
  have "minv (wdb \<lparr>wdb = demo_open, faults = []\<rparr>)" using demo_cancel_facts(5) by simp
  from cancel_closes_task [OF this run] run show ?thesis by auto
qed

theorem cancelled_task_is_reported_witness:
  "\<exists>w1 s w3. Cancel 5 (demo_actor 7 [] []) 1 ''no'' False \<lparr>wdb = demo_open, faults = []\<rparr> = (Allow, w1) \<and>
     Derive 1 w1 = (Inr s, w3) \<and> s = DerivedCancelled"
proof -
  obtain w1 where run: "Cancel 5 (demo_actor 7 [] []) 1 ''no'' False
      \<lparr>wdb = demo_open, faults = []\<rparr> = (Allow, w1)" and f: "faults w1 = []"
    by (rule demo_cancel_allowed)
  have "\<exists>s. Derive 1 w1 = (Inr s, w1)"
    using f by (simp add: Derive_def ListByTask_def act_simps)
  then obtain s where read: "Derive 1 w1 = (Inr s, w1)" by blast
  have "open_modules (wdb \<lparr>wdb = demo_open, faults = []\<rparr>) 1 \<noteq> []" by (simp add: demo_cancel_facts)
  from cancelled_task_is_reported [OF run this refl read] run read show ?thesis by auto
qed

subsection \<open>When a task counts as closed\<close>

lemma derive_scan_closed:
  "set keys \<subseteq> set derive_order \<Longrightarrow>
   derive_scan ms keys = DerivedClosed \<longleftrightarrow>
   (\<forall>m \<in> set ms. TM_ModuleKey m \<in> set keys \<longrightarrow> Terminal (TM_State m))"
proof (induction keys)
  case (Cons key keys)
  show ?case
  proof (cases "List.find (\<lambda>m. TM_ModuleKey m = key \<and> \<not> Terminal (TM_State m)) ms")
    case None
    moreover have "\<forall>m \<in> set ms. TM_ModuleKey m = key \<longrightarrow> Terminal (TM_State m)"
      using None by (auto simp: find_None_iff)
    ultimately show ?thesis using Cons by auto
  next
    case (Some m)
    then have m: "m \<in> set ms" "TM_ModuleKey m = key" "\<not> Terminal (TM_State m)"
      by (auto dest: find_SomeD)
    have "key \<in> set derive_order" using Cons.prems by simp
    then have "deriveModuleStatus m \<noteq> DerivedClosed"
      using m(2) by (auto simp: derive_order_def deriveModuleStatus_def Let_def)
    then show ?thesis using Some m by auto
  qed
qed simp

text \<open>
  A task is reported as closed exactly when none of its modules was closed by a cancellation
  and every module other than basic_info is closed.
\<close>

theorem derived_closed_iff:
  assumes "faults w = []" and inv: "minv (wdb w)"
  shows "\<exists>s. Derive t w = (Inr s, w) \<and>
    (s = DerivedClosed \<longleftrightarrow> (\<forall>m \<in> set (task_modules (wdb w)). TM_TaskID m = t \<longrightarrow>
       TM_State m \<noteq> ModuleStateForciblyClosed \<and> TM_State m \<noteq> ModuleStateClosedByAdmin \<and>
       (TM_ModuleKey m = ModuleKeyBasicInfo \<or> Terminal (TM_State m))))"
proof -
  let ?ms = "modules_of_task (wdb w) t"
  let ?cut = "\<lambda>m. TM_State m = ModuleStateForciblyClosed \<or> TM_State m = ModuleStateClosedByAdmin"
  let ?s = "if list_ex ?cut ?ms then DerivedCancelled else derive_scan ?ms derive_order"
  have run: "Derive t w = (Inr ?s, w)"
    using assms(1) by (simp add: Derive_def ListByTask_def act_simps)
  have ms: "m \<in> set ?ms \<longleftrightarrow> m \<in> set (task_modules (wdb w)) \<and> TM_TaskID m = t" for m
    using inv by (auto simp: modules_of_task_def minv_def)
  have key: "TM_ModuleKey m \<in> set derive_order \<longleftrightarrow> TM_ModuleKey m \<noteq> ModuleKeyBasicInfo"
    if "m \<in> set ?ms" for m
  proof -
    have "TM_ModuleKey m \<in> set module_order" using that ms inv by (simp add: minv_def)
    then show ?thesis by (auto simp: module_order_def derive_order_def)
  qed
  have "?s = DerivedClosed \<longleftrightarrow> (\<forall>m \<in> set ?ms. \<not> ?cut m \<and>
      (TM_ModuleKey m = ModuleKeyBasicInfo \<or> Terminal (TM_State m)))"
    using derive_scan_closed [of derive_order ?ms] key by (auto simp: list_ex_iff)
  then show ?thesis using run ms by (intro exI [of _ ?s]) auto
qed

theorem derived_closed_iff_witness:
  "\<exists>s. Derive 1 \<lparr>wdb = demo_open, faults = []\<rparr> = (Inr s, \<lparr>wdb = demo_open, faults = []\<rparr>) \<and>
     s \<noteq> DerivedClosed"
proof -
  have f: "faults \<lparr>wdb = demo_open, faults = []\<rparr> = []"
    and i: "minv (wdb \<lparr>wdb = demo_open, faults = []\<rparr>)"
    using demo_cancel_facts(5) by simp_all
  have "\<not> (\<forall>m \<in> set (task_modules demo_open). TM_TaskID m = 1 \<longrightarrow>
       TM_State m \<noteq> ModuleStateForciblyClosed \<and> TM_State m \<noteq> ModuleStateClosedByAdmin \<and>
       (TM_ModuleKey m = ModuleKeyBasicInfo \<or> Terminal (TM_State m)))"
    by (simp add: demo_open_def demo_module_def)
  then show ?thesis using derived_closed_iff [OF f i, of 1] by (elim exE conjE) auto
qed

end
