(* ===== verification/Module_System.thy ===== *)
theory Module_System
  imports Task_Pool Module_Action Task_Cancel
begin

section \<open>The module engine as a system\<close>

text \<open>
  Any sequence of calls of the engine: tasks are created (the task row and the modules of its
  blueprint in one transaction), modules are claimed and acted on, tasks are cancelled, and other
  services change columns of existing tasks. Each call runs against its own pattern of database
  failures. The invariant of the tables and their event log holds in every state so reached.
\<close>

subsection \<open>Claims keep the invariant\<close>

lemma module_keys_printable:
  "list_all (\<lambda>k. ci_key k \<noteq> [] \<and> list_all printable (ci_key k)) module_order"
  by (simp add: module_order_def ci_key_def to_lower_def printable_def)

lemma to_lower_printable: "printable (to_lower c) \<Longrightarrow> printable c"
proof (cases "65 \<le> (of_char c :: nat) \<and> (of_char c :: nat) \<le> 90")
  case False
  then have "to_lower c = c" by (simp only: to_lower_def Let_def if_False)
  then show "printable (to_lower c) \<Longrightarrow> printable c" by simp
qed (auto simp: printable_def)

lemma takeWhile_eq_replicate:
  "takeWhile (\<lambda>c. c = a) xs = replicate (length (takeWhile (\<lambda>c. c = a) xs)) a"
  by (induction xs) auto

text \<open>A key the database takes for one of the engine's keys is the same key after trimming.\<close>

lemma known_key_trim:
  assumes "c \<in> set module_order" and "ci_eq c k"
  shows "ci_key (TrimSpace k) = ci_key k"
proof -
  define u where "u = rev (dropWhile (\<lambda>c. c = CHR 0x20) (rev k))"
  have key: "ci_key k = map to_lower u" by (simp add: ci_key_def u_def)
  have c: "ci_key c \<noteq> []" "list_all printable (ci_key c)"
    using assms(1) module_keys_printable by (auto simp: list_all_iff)
  have u: "u \<noteq> []" "list_all printable u"
    using c assms(2) key by (auto simp: ci_eq_def list_all_iff intro: to_lower_printable)
  have "rev k = replicate (length (takeWhile (\<lambda>c. c = CHR 0x20) (rev k))) (CHR 0x20) @ rev u"
    unfolding u_def rev_rev_ident takeWhile_eq_replicate [symmetric] by simp
  then have "k = u @ replicate (length (takeWhile (\<lambda>c. c = CHR 0x20) (rev k))) (CHR 0x20)"
    by (metis rev_append rev_replicate rev_rev_ident)
  then have "TrimSpace k = u" using TrimSpace_printable [OF u(2,1)] by metis
  moreover have "ci_key u = map to_lower u" by (simp add: ci_key_def u_def dropWhile_idem)
  ultimately show ?thesis using key by simp
qed

lemma claim_spec_linv:
  assumes inv: "linv {} d" and one: "length (filter (claimable t k pool) (task_modules d)) = 1"
    and tm: "tm \<in> set (task_modules d)" "module_uk tm = (t, ci_key k)"
  shows "linv {} (claim_spec now actor t task tm k pool team d)"
proof -
  let ?f = "claimed_row now actor team" and ?p = "claimable t k pool"
  let ?d = "d\<lparr>task_modules := row_upd ?p ?f (task_modules d)\<rparr>"
  have minv: "minv d" using inv by (simp add: linv_def)
  have uniq: "x = tm" if "x \<in> set (task_modules d)" "same_module t k x" for x
    using minv_unique_module [OF minv that(1) tm(1)] that(2) tm(2) by (simp add: same_module_key)
  obtain x where "filter ?p (task_modules d) = [x]" using one by (auto simp: length_Suc_conv)
  then have "x \<in> set (filter ?p (task_modules d))" by simp
  then have p: "?p tm" using uniq by (auto simp: claimable_def)
  have l: "linv {TM_ID tm} ?d"
    by (rule linv_row_upd [OF inv row_ok_claimed]) (use uniq in \<open>auto simp: claimable_def\<close>)
  have mem: "?f tm \<in> set (task_modules ?d)" using tm(1) p by (force simp: row_upd_def)
  have idin: "TM_ID tm \<in> TM_ID ` set (task_modules ?d)"
    by (rule image_eqI [OF _ mem]) (simp add: claimed_row_def)
  have st: "TM_State m = ModuleStateInProgress" if "m \<in> set (task_modules ?d)" "TM_ID m = TM_ID tm" for m
  proof -
    have "minv ?d" using l by (simp add: linv_def)
    then have "m = ?f tm" using minv_unique_id that mem by (simp add: claimed_row_def)
    then show ?thesis by (simp add: claimed_row_def)
  qed
  have "linv ({TM_ID tm} - {TM_ID tm}) (claim_spec now actor t task tm k pool team d)"
    unfolding claim_spec_def
    by (rule insert_event_linv [OF assign_effect_linv [OF l], where st = ModuleStateInProgress and
          ev = "claimed_event actor tm team", unfolded claimed_event_def mevent_simps, folded
          claimed_event_def])
       (use st idin in simp_all)
  then show ?thesis by simp
qed

lemma claim_check_key: "claim_check ord actor task tm k0 confirm = Inr (k, pool, team) \<Longrightarrow> k = TrimSpace k0"
  by (auto simp: claim_check_def Let_def split: if_splits)

lemma Claim_cases:
  assumes "Claim ord now actor t k0 confirm w = (dec, w')"
  shows "dec \<noteq> Allow \<and> wdb w' = wdb w \<or>
    (\<exists>task tm k pool team w1. module_row (wdb w) t k0 = Some tm \<and> wdb w1 = wdb w \<and>
      claim_check ord actor task tm k0 confirm = Inr (k, pool, team) \<and>
      Claim_commit now actor t task tm k pool team w1 = (dec, w'))"
  using assms unfolding Claim_def TaskRepo_GetByID_def
proof (cases rule: call_query)
  case (failed e)
  then show ?thesis by simp
next
  case (read w1)
  show ?thesis
  proof (cases "task_row (wdb w) t")
    case None
    then show ?thesis using read by simp
  next
    case (Some task)
    show ?thesis
    proof (cases "taskClaimedByOther task (RA_ID actor)")
      case True
      then show ?thesis using read Some by simp
    next
      case False
      from read Some False have "call (query (\<lambda>d. module_row d t k0)) internal (\<lambda>m. case m of
          None \<Rightarrow> answer (Deny DenyModuleNotInstantiated)
        | Some tm \<Rightarrow> (case claim_check ord actor task tm k0 confirm of
              Inl verdict \<Rightarrow> answer verdict
            | Inr (k, pool, team) \<Rightarrow> Claim_commit now actor t task tm k pool team)) w1 = (dec, w')"
        by (simp add: GetByTaskAndKey_def)
      then show ?thesis
      proof (cases rule: call_query)
        case (failed e)
        then show ?thesis using read by simp
      next
        case row: (read w2)
        show ?thesis
        proof (cases "module_row (wdb w) t k0")
          case None
          then show ?thesis using row read by simp
        next
          case m: (Some tm)
          show ?thesis
          proof (cases "claim_check ord actor task tm k0 confirm")
            case (Inl verdict)
            then have "verdict \<noteq> Allow" by (auto simp: claim_check_def Let_def split: if_splits)
            then show ?thesis using Inl row read m by simp
          next
            case (Inr x)
            obtain k pool team where x: "x = (k, pool, team)" by (cases x)
            then show ?thesis using Inr row read m by auto
          qed
        qed
      qed
    qed
  qed
qed

lemma Claim_keeps_linv:
  assumes inv: "linv {} (wdb w)"
  shows "linv {} (wdb (snd (Claim ord now actor t k0 confirm w)))"
proof -
  obtain dec w' where run: "Claim ord now actor t k0 confirm w = (dec, w')" by fastforce
  from Claim_cases [OF run] show ?thesis
  proof (elim disjE conjE exE)
    fix task tm k pool team w1
    assume row: "module_row (wdb w) t k0 = Some tm" and w1: "wdb w1 = wdb w"
      and check: "claim_check ord actor task tm k0 confirm = Inr (k, pool, team)"
      and commit: "Claim_commit now actor t task tm k pool team w1 = (dec, w')"
    have tm: "tm \<in> set (task_modules (wdb w))" "module_uk tm = (t, ci_key k0)"
      using module_rowD [OF row] by auto
    have "TM_ModuleKey tm \<in> set module_order" using inv tm(1) by (simp add: linv_def minv_def)
    then have "ci_key k = ci_key k0"
      using known_key_trim tm(2) claim_check_key [OF check] by (simp add: module_uk_def ci_eq_def)
    then have "linv {} (claim_spec now actor t task tm k pool team (wdb w))"
      if "length (filter (claimable t k pool) (task_modules (wdb w))) = 1"
      using claim_spec_linv [OF inv that] tm by simp
    then show ?thesis using Claim_commit_cases [OF commit] w1 inv run by auto
  qed (use inv run in simp)
qed

subsection \<open>Steps\<close>

definition create_task :: "time \<Rightarrow> Task \<Rightarrow> unit mact" where
  "create_task now task = bnd (exec (\<lambda>d. d\<lparr>tasks := tasks d @ [task]\<rparr>)) (\<lambda>_. InitTask now task)"

text \<open>
  A step is a whole call, its readings and its transaction together. The calls read the module before their
  transactions; of the transactions on rows read earlier, a claim compares the row again
  (\<open>claim_all_or_nothing\<close>), an action does not: \<open>stale_action_logs_old_state\<close> below.
\<close>

inductive mstep :: "mdb \<Rightarrow> mdb \<Rightarrow> bool" where
  mstep_create: "T_ID task \<notin> T_ID ` set (tasks (wdb w)) \<Longrightarrow>
    mstep (wdb w) (wdb (snd (RunInTx (create_task now task) w)))"
| mstep_claim: "mstep (wdb w) (wdb (snd (Claim ord now actor t k confirm w)))"
| mstep_apply: "mstep (wdb w) (wdb (snd (Apply J now app actor t k a raw w)))"
| mstep_cancel: "mstep (wdb w) (wdb (snd (Cancel now actor t reason force w)))"
| mstep_task: "map T_ID ts = map T_ID (tasks d) \<Longrightarrow> mstep d (d\<lparr>tasks := ts\<rparr>)"

inductive_cases mstepE: "mstep d d'"

text \<open>
  An action that keeps the state of its module logs the state it has read: when the row has changed in
  between, the log names a state the module does not have.
\<close>

lemma stale_action_logs_old_state:
  assumes "Apply_tx J snap now app actor t task seen ModuleKeyDesign ModuleActionReassign (TM_State seen) raw w = (Inr (), w')"
  shows "task_modules (wdb w') = task_modules (wdb w) \<and>
    last_state (module_events (wdb w')) (TM_ID seen) None = Some (TM_State seen)"
  using assms
  by (auto simp: Apply_tx_def EventInsert_raw_def EventInsert_def ApplyAfterAction_def Let_def insert_event_def bnd_def ret_def
      stmt_def throw_def split: prod.splits sum.splits rawjson.splits list.splits bool.splits if_splits)

definition minit :: "mdb \<Rightarrow> bool" where
  "minit d \<longleftrightarrow> distinct (map T_ID (tasks d)) \<and> task_modules d = [] \<and> module_events d = []"

lemma create_keeps_linv:
  assumes "T_ID task \<notin> T_ID ` set (tasks (wdb w))" and "linv {} (wdb w)"
  shows "linv {} (wdb (snd (RunInTx (create_task now task) w)))"
proof (rule tx.run_preserves [where I = "linv {}", OF assms(2)])
  fix w1 x w2
  assume inv: "linv {} (wdb w1)" and eq: "wdb w1 = wdb w" and run: "create_task now task w1 = (Inr x, w2)"
  let ?d = "(wdb w1)\<lparr>tasks := tasks (wdb w1) @ [task]\<rparr>"
  obtain w3 where w3: "wdb w3 = ?d" and init: "InitTask now task w3 = (Inr x, w2)"
    using run by (auto simp: create_task_def bnd_eq_Inr dest: exec_success)
  have "linv {} ?d" using inv assms(1) eq by (auto simp: linv_def minv_def agree_def)
  then show "linv {} (wdb w2)"
    using tripleD [OF triple_InitTask [where snap = ?d] _ init] w3 by simp
qed

lemma task_update_linv:
  assumes "map T_ID ts = map T_ID (tasks d)" and "linv {} d"
  shows "linv {} (d\<lparr>tasks := ts\<rparr>)"
proof -
  have "T_ID ` set ts = T_ID ` set (tasks d)" using assms(1) by (metis list.set_map)
  then show ?thesis using assms by (simp add: linv_def minv_def agree_def)
qed

interpretation engine: inductive_invariant minit mstep "linv {}"
proof unfold_locales
  show "linv {} d" if "minit d" for d using that by (simp add: minit_def linv_def minv_def)
  show "linv {} d'" if "linv {} d" "mstep d d'" for d d'
    using that(2,1)
    by (cases rule: mstep.cases)
       (simp_all add: create_keeps_linv Claim_keeps_linv Apply_keeps_linv Cancel_keeps_linv
          task_update_linv)
qed

text \<open>
  (C2) In every state the engine reaches from tables without modules, by any sequence of task
  creations, claims, actions, cancellations and updates of tasks, each call under any pattern of
  database failures: module ids and (task, module key) pairs are unique, every module belongs to a
  task and every event to a module, closed modules have a closing time, and the event log agrees
  with the table: for every module the last recorded target state is the module's state.
\<close>

theorem module_log_agrees_with_table:
  assumes "reach minit mstep d"
  shows "minv d \<and> (\<forall>m \<in> set (task_modules d).
    last_state (module_events d) (TM_ID m) None = Some (TM_State m))"
  using engine.reach_inv [OF assms] by (simp add: linv_def agree_def)

theorem module_log_agrees_with_table_witness:
  "\<exists>d. reach minit mstep d \<and> minv d \<and> map TM_ModuleKey (task_modules d) =
     [ModuleKeyBasicInfo, ModuleKeyDesign, ModuleKeyAudit, ModuleKeyWarehouse]"
proof -
  let ?w = "\<lparr>wdb = demo_db\<lparr>tasks := []\<rparr>, faults = []\<rparr>"
  let ?d = "wdb (snd (RunInTx (create_task 5 demo_task) ?w))"
  have "minit (wdb ?w)" by (simp add: minit_def demo_db_def)
  then have r: "reach minit mstep ?d"
    using mstep_create [of demo_task ?w 5] by (auto intro: reach_step reach_init simp: demo_db_def)
  have init: "InitTask 5 demo_task \<lparr>wdb = demo_db, faults = []\<rparr> =
      (Inr (), \<lparr>wdb = init.put_all 5 ''new_product_development_v1'' 1
         (init_entries 0 (BP_Modules (productBlueprint TaskTypeNewProductDevelopment))) demo_db,
         faults = []\<rparr>)"
  proof -
    have "T_ID demo_task \<in> T_ID ` set (tasks (wdb \<lparr>wdb = demo_db, faults = []\<rparr>))"
      by (simp add: demo_db_def)
    from init_loop_run [OF _ this, of 5 "''new_product_development_v1''" 0
        "BP_Modules (productBlueprint TaskTypeNewProductDevelopment)"]
    have "for_each (InitTask_module 5 (T_ID demo_task) ''new_product_development_v1'')
        (enumerate 0 (BP_Modules (productBlueprint TaskTypeNewProductDevelopment)))
        \<lparr>wdb = demo_db, faults = []\<rparr> = (Inr (), \<lparr>wdb = init.put_all 5 ''new_product_development_v1''
          (T_ID demo_task) (init_entries 0 (BP_Modules (productBlueprint TaskTypeNewProductDevelopment)))
          demo_db, faults = []\<rparr>)"
      by simp
    moreover have "BP_Key (productBlueprint TaskTypeNewProductDevelopment) = ''new_product_development_v1''"
      and "T_ID demo_task = 1"
      by (simp_all add: productBlueprint_def demo_task_def)
    ultimately show ?thesis
      unfolding InitTask_def Registry_MustGet_def demo_specs option.case sum.case by metis
  qed
  have "?d = init.put_all 5 ''new_product_development_v1'' 1
         (init_entries 0 (BP_Modules (productBlueprint TaskTypeNewProductDevelopment))) demo_db"
    using init by (simp add: create_task_def act_simps demo_db_def)
  then have "map TM_ModuleKey (task_modules ?d) =
      [ModuleKeyBasicInfo, ModuleKeyDesign, ModuleKeyAudit, ModuleKeyWarehouse]"
    by (simp add: init_entries_def productBlueprint_def basicInfo_def init_cols_def enter_step_def
        enter_row_def module_row_def same_module_def demo_db_def ci_eq_def ci_key_def to_lower_def
        insert_event_def)
  moreover have "minv ?d" using module_log_agrees_with_table [OF r] by (rule conjunct1)
  ultimately show ?thesis using r by (intro exI [of _ ?d] conjI)
qed

end
