(* ===== verification/Go_Format.thy ===== *)
theory Go_Format
  imports Go_Json Go_Strings
begin

section \<open>Numbers as text, and base64\<close>

text \<open>
  The functions of \<^verbatim>\<open>fmt\<close>, \<^verbatim>\<open>strconv\<close>, \<^verbatim>\<open>strings\<close> and \<^verbatim>\<open>encoding/base64\<close> with which the services
  write numbers into codes and cursors and read them back: the verbs \<^verbatim>\<open>%d\<close> and \<^verbatim>\<open>%0*d\<close>, \<open>ParseInt\<close>
  (which is \<open>Atoi\<close> at base 10 and 64 bits), \<open>SplitN\<close> at the first separator, \<open>Join\<close>, and
  \<^verbatim>\<open>RawURLEncoding\<close>. Each reader inverts its writer.
\<close>

subsection \<open>Decimal numbers\<close>

definition digit_char :: "nat \<Rightarrow> char" where
  "digit_char d = char_of (48 + d)"

fun dec :: "nat \<Rightarrow> string" where
  "dec n = (if n < 10 then [digit_char n] else dec (n div 10) @ [digit_char (n mod 10)])"

declare dec.simps [simp del]

text \<open>\<^verbatim>\<open>%d\<close> of an int64.\<close>

definition fmt_d :: "int \<Rightarrow> string" where
  "fmt_d i = (if i < 0 then CHR ''-'' # dec (nat (- i)) else dec (nat i))"

text \<open>
  \<^verbatim>\<open>%0*d\<close>: zeros between sign and digits up to the width; a width above a million is refused by \<^verbatim>\<open>fmt\<close>,
  which then prints the number alone behind a mark.
\<close>

definition fmt_0d :: "int \<Rightarrow> int \<Rightarrow> string" where
  "fmt_0d width i =
     (if width > 1000000 then ''%!(BADWIDTH)'' @ fmt_d i
      else let ds = dec (nat (abs i)); sgn = (if i < 0 then ''-'' else []) in
           sgn @ replicate (nat width - length sgn - length ds) (CHR ''0'') @ ds)"

abbreviation ParseInt :: "string \<Rightarrow> int option" where
  "ParseInt \<equiv> Atoi"

text \<open>The value \<^verbatim>\<open>ParseInt\<close> returns beside its error: 0 for a malformed text, the nearest bound for an overflow.\<close>

definition ParseInt_value :: "string \<Rightarrow> int" where
  "ParseInt_value s =
     (let neg = take 1 s = ''-''; ds = (if neg \<or> take 1 s = ''+'' then tl s else s)
      in case digits_value ds of
           None \<Rightarrow> 0
         | Some v \<Rightarrow> max (- (2 ^ 63)) (min (2 ^ 63 - 1) (if neg then - v else v)))"

lemma ParseInt_value: "ParseInt s = Some x \<Longrightarrow> ParseInt_value s = x"
  by (auto simp: Atoi_def ParseInt_value_def Let_def split: option.splits if_splits)

lemma of_char_digit: "d < 10 \<Longrightarrow> (of_char (digit_char d) :: nat) = 48 + d"
  by (simp add: digit_char_def)

lemma jdigit_digit [simp]: "d < 10 \<Longrightarrow> jdigit (digit_char d)"
  by (simp add: jdigit_def of_char_digit)

lemma hexval_digit [simp]: "d < 10 \<Longrightarrow> hexval (digit_char d) = d"
  by (simp add: hexval_def of_char_digit)

lemma dec_not_Nil [simp]: "dec n \<noteq> []"
  by (subst dec.simps) simp

lemma dec_digits [simp]: "list_all jdigit (dec n)"
  by (induction n rule: dec.induct) (subst dec.simps, simp)

definition digits_nat :: "string \<Rightarrow> int" where
  "digits_nat s = foldl (\<lambda>v c. 10 * v + int (hexval c)) 0 s"

lemma digits_value_alt:
  "digits_value s = (if s = [] \<or> \<not> list_all jdigit s then None else Some (digits_nat s))"
  by (simp add: digits_value_def digits_nat_def)

lemma digits_nat_dec [simp]: "digits_nat (dec n) = int n"
proof (induction n rule: dec.induct)
  case (1 n)
  show ?case
  proof (cases "n < 10")
    case True
    then show ?thesis by (subst dec.simps) (simp add: digits_nat_def)
  next
    case False
    have "digits_nat (dec n) = 10 * digits_nat (dec (n div 10)) + int (n mod 10)"
      using False by (subst dec.simps) (simp add: digits_nat_def)
    then show ?thesis using 1 [OF False] div_mult_mod_eq [of n 10] by linarith
  qed
qed

lemma digits_nat_zeros: "digits_nat (replicate k (CHR ''0'') @ s) = digits_nat s"
proof -
  have "foldl (\<lambda>v c. 10 * v + int (hexval c)) 0 (replicate k (CHR ''0'')) = 0"
    by (induction k) (simp_all add: hexval_def)
  then show ?thesis by (simp add: digits_nat_def)
qed

lemma jdigit_not_sign: "jdigit c \<Longrightarrow> c \<noteq> CHR ''-'' \<and> c \<noteq> CHR ''+'' \<and> c \<noteq> CHR '':''"
  by (auto simp: jdigit_def)

lemma ParseInt_digits:
  assumes "s \<noteq> []" and "list_all jdigit s" and "digits_nat s < 2 ^ 63" and "0 \<le> digits_nat s"
  shows "ParseInt s = Some (digits_nat s)"
proof -
  obtain c r where s: "s = c # r" using assms(1) by (cases s) auto
  have "take 1 s \<noteq> ''-''" "take 1 s \<noteq> ''+''" using jdigit_not_sign [of c] assms(2) s by auto
  then show ?thesis using assms by (simp add: Atoi_def digits_value_alt Let_def)
qed

theorem ParseInt_fmt_d:
  assumes "- (2 ^ 63) \<le> i" and "i < 2 ^ 63"
  shows "ParseInt (fmt_d i) = Some i"
proof (cases "i < 0")
  case True
  then show ?thesis using assms by (simp add: fmt_d_def Atoi_def digits_value_alt Let_def)
next
  case False
  then show ?thesis using assms by (simp add: fmt_d_def ParseInt_digits)
qed

lemma jdigit_zero: "jdigit (CHR ''0'')"
  by (simp add: jdigit_def)

lemma fmt_0d_digits: "0 \<le> i \<Longrightarrow> width \<le> 1000000 \<Longrightarrow> list_all jdigit (fmt_0d width i)"
  using dec_digits [of "nat i"] by (auto simp: fmt_0d_def Let_def list_all_iff jdigit_zero)

lemma ParseInt_fmt_0d:
  assumes "0 \<le> i" and "i < 2 ^ 63" and "width \<le> 1000000"
  shows "ParseInt (fmt_0d width i) = Some i"
proof -
  have "digits_nat (fmt_0d width i) = i"
    using assms by (simp add: fmt_0d_def Let_def digits_nat_zeros)
  moreover have "fmt_0d width i \<noteq> []" using assms by (simp add: fmt_0d_def Let_def)
  ultimately show ?thesis
    using ParseInt_digits [OF _ fmt_0d_digits [OF assms(1,3)]] assms by simp
qed

lemma length_fmt_0d: "0 \<le> i \<Longrightarrow> width \<le> 1000000 \<Longrightarrow> length (fmt_0d width i) = max (nat width) (length (dec (nat i)))"
  by (simp add: fmt_0d_def Let_def)

subsection \<open>Joining and splitting\<close>

text \<open>\<^verbatim>\<open>strings.Join\<close>, and \<^verbatim>\<open>SplitN(s, sep, 2)\<close> for a separator of one byte.\<close>

fun Join :: "string list \<Rightarrow> string \<Rightarrow> string" where
  "Join [] sep = []"
| "Join [p] sep = p"
| "Join (p # q # ps) sep = p @ sep @ Join (q # ps) sep"

definition SplitN2 :: "string \<Rightarrow> char \<Rightarrow> string list" where
  "SplitN2 s sep =
     (if sep \<in> set s then [takeWhile (\<lambda>c. c \<noteq> sep) s, tl (dropWhile (\<lambda>c. c \<noteq> sep) s)] else [s])"

lemma SplitN2_append: "sep \<notin> set a \<Longrightarrow> SplitN2 (a @ sep # b) sep = [a, b]"
  by (simp add: SplitN2_def takeWhile_append dropWhile_append)

lemma Join_snoc: "Join (ps @ [p]) sep = (if ps = [] then p else Join ps sep @ sep @ p)"
proof (induction ps)
  case (Cons q ps)
  then show ?case by (cases ps) auto
qed simp

lemma fmt_d_no_colon: "CHR '':'' \<notin> set (fmt_d i)"
proof -
  have "CHR '':'' \<notin> set (dec n)" for n
    using dec_digits [of n] jdigit_not_sign by (auto simp: list_all_iff)
  then show ?thesis by (simp add: fmt_d_def)
qed

subsection \<open>Base64 without padding, URL alphabet\<close>

definition b64_char :: "nat \<Rightarrow> char" where
  "b64_char v =
     (if v < 26 then char_of (65 + v) else if v < 52 then char_of (71 + v)
      else if v < 62 then char_of (v - 4) else if v = 62 then CHR ''-'' else CHR ''_'')"

definition b64_val :: "char \<Rightarrow> nat option" where
  "b64_val c =
     (let n = of_char c :: nat in
      if 65 \<le> n \<and> n \<le> 90 then Some (n - 65) else if 97 \<le> n \<and> n \<le> 122 then Some (n - 71)
      else if 48 \<le> n \<and> n \<le> 57 then Some (n + 4) else if c = CHR ''-'' then Some 62
      else if c = CHR ''_'' then Some 63 else None)"

abbreviation byte_of :: "char \<Rightarrow> nat" where
  "byte_of c \<equiv> of_char c"

fun b64_encode :: "string \<Rightarrow> string" where
  "b64_encode [] = []"
| "b64_encode [a] = [b64_char (byte_of a div 4), b64_char (byte_of a mod 4 * 16)]"
| "b64_encode [a, b] = [b64_char (byte_of a div 4), b64_char (byte_of a mod 4 * 16 + byte_of b div 16),
     b64_char (byte_of b mod 16 * 4)]"
| "b64_encode (a # b # c # r) =
     b64_char (byte_of a div 4) # b64_char (byte_of a mod 4 * 16 + byte_of b div 16) #
     b64_char (byte_of b mod 16 * 4 + byte_of c div 64) # b64_char (byte_of c mod 64) # b64_encode r"

text \<open>
  Groups of four characters give three bytes, a rest of three gives two, a rest of two gives one,
  a rest of one is an error; unused low bits of a rest are ignored. Line breaks are skipped.
\<close>

fun b64_groups :: "nat list \<Rightarrow> string option" where
  "b64_groups [] = Some []"
| "b64_groups [p] = None"
| "b64_groups [p, q] = Some [char_of (p * 4 + q div 16)]"
| "b64_groups [p, q, r] = Some [char_of (p * 4 + q div 16), char_of (q mod 16 * 16 + r div 4)]"
| "b64_groups (p # q # r # s # rest) =
     map_option (\<lambda>t. char_of (p * 4 + q div 16) # char_of (q mod 16 * 16 + r div 4) #
                     char_of (r mod 4 * 64 + s) # t) (b64_groups rest)"

definition b64_decode :: "string \<Rightarrow> string option" where
  "b64_decode s =
     (let t = filter (\<lambda>c. c \<noteq> CHR 0x0A \<and> c \<noteq> CHR 0x0D) s in
      if list_all (\<lambda>c. b64_val c \<noteq> None) t then b64_groups (map (\<lambda>c. the (b64_val c)) t) else None)"

lemma sextet_cases:
  assumes "v < (64 :: nat)"
  obtains k where "v = k" "k < 26" | k where "v = 26 + k" "k < 26" | k where "v = 52 + k" "k < 10"
  | "v = 62" | "v = 63"
proof -
  have "v < 26 \<or> (\<exists>k < 26. v = 26 + k) \<or> (\<exists>k < 10. v = 52 + k) \<or> v = 62 \<or> v = 63"
    using assms by presburger
  then show ?thesis using that by blast
qed

lemma b64_val_char: "v < 64 \<Longrightarrow> b64_val (b64_char v) = Some v"
  by (erule sextet_cases) (simp_all add: b64_char_def b64_val_def Let_def)

lemma b64_char_printable: "v < 64 \<Longrightarrow> printable (b64_char v)"
  by (erule sextet_cases) (simp_all add: b64_char_def printable_def)

lemma byte_lt [simp]: "byte_of c < 256"
  by simp

lemma byte_parts:
  "byte_of c div 4 < 64" "byte_of c mod 4 < 4" "byte_of c div 16 < 16" "byte_of c mod 16 < 16"
  "byte_of c div 64 < 4" "byte_of c mod 64 < 64"
  using byte_lt [of c] by (simp_all add: div_less_iff_less_mult del: byte_lt)

lemma six_bits [simp]:
  "byte_of a div 4 < 64" "byte_of a mod 4 * 16 < 64" "byte_of a mod 4 * 16 + byte_of b div 16 < 64"
  "byte_of b mod 16 * 4 < 64" "byte_of b mod 16 * 4 + byte_of c div 64 < 64" "byte_of c mod 64 < 64"
  using byte_parts [of a] byte_parts [of b] byte_parts [of c] by linarith+

lemma b64_encode_printable: "list_all printable (b64_encode s)"
  by (induction s rule: b64_encode.induct)
    (simp_all only: b64_encode.simps list.pred_inject b64_char_printable six_bits simp_thms)

lemma printable_no_break: "printable c \<Longrightarrow> c \<noteq> CHR 0x0A \<and> c \<noteq> CHR 0x0D"
  by (auto simp: printable_def)

lemma b64_encode_vals: "list_all (\<lambda>c. b64_val c \<noteq> None) (b64_encode s)"
  by (induction s rule: b64_encode.induct)
    (simp_all only: b64_encode.simps list.pred_inject b64_val_char six_bits simp_thms option.distinct)

lemma sextets:
  "byte_of a div 4 * 4 + (byte_of a mod 4 * 16 + byte_of b div 16) div 16 = byte_of a"
  "(byte_of a mod 4 * 16 + byte_of b div 16) mod 16 * 16 +
     (byte_of b mod 16 * 4 + byte_of c div 64) div 4 = byte_of b"
  "(byte_of b mod 16 * 4 + byte_of c div 64) mod 4 * 64 + byte_of c mod 64 = byte_of c"
  "byte_of a div 4 * 4 + byte_of a mod 4 * 16 div 16 = byte_of a"
  "(byte_of a mod 4 * 16 + byte_of b div 16) mod 16 * 16 + byte_of b mod 16 * 4 div 4 = byte_of b"
  using byte_parts [of b] byte_parts [of c]
  by (simp_all add: div_add1_eq mod_add_eq [symmetric])

lemma b64_groups_encode: "b64_groups (map (\<lambda>c. the (b64_val c)) (b64_encode s)) = Some s"
  by (induction s rule: b64_encode.induct)
    (simp_all only: b64_encode.simps list.map b64_val_char six_bits option.sel b64_groups.simps sextets
      char_of_char option.map)

theorem b64_roundtrip: "b64_decode (b64_encode s) = Some s"
proof -
  have "filter (\<lambda>c. c \<noteq> CHR 0x0A \<and> c \<noteq> CHR 0x0D) (b64_encode s) = b64_encode s"
    using b64_encode_printable [of s] printable_no_break by (auto simp: filter_id_conv list_all_iff)
  then show ?thesis
    using b64_encode_vals [of s] by (simp only: b64_decode_def Let_def b64_groups_encode if_True)
qed

lemma b64_encode_Nil [simp]: "b64_encode s = [] \<longleftrightarrow> s = []"
  by (cases s rule: b64_encode.cases) simp_all

lemma TrimSpace_b64: "TrimSpace (b64_encode s) = b64_encode s"
  using TrimSpace_printable [OF b64_encode_printable, of s 0] by (cases "s = []") simp_all

end
