(* ===== verification/Code_Rule.thy ===== *)
theory Code_Rule
  imports Go_Format Kernel_Domain
begin

section \<open>Numbering rules\<close>

text \<open>
  \<^verbatim>\<open>src/service/code_rule_service.go\<close> and \<^verbatim>\<open>src/repo/mysql/code_rule.go\<close>: task, outsourcing and
  handover numbers. A rule's counter lives in a table of its own and is advanced inside the
  transaction that generates the code. \<open>fmtNow\<close> is \<^verbatim>\<open>time.Now().Format\<close>, from the layout to the text.
  The tables use the collation \<^verbatim>\<open>utf8mb4_0900_ai_ci\<close>, under which SQL compares rule types without case.
\<close>

subsection \<open>Data\<close>

abbreviation "CodeRuleTypeTaskNo \<equiv> ''task_no''"
abbreviation "CodeRuleTypeNewSKU \<equiv> ''new_sku''"
abbreviation "CodeRuleTypeOutsourceNo \<equiv> ''outsource_no''"
abbreviation "CodeRuleTypeHandoverNo \<equiv> ''handover_no''"

abbreviation "ResetCycleNone \<equiv> ''none''"
abbreviation "ResetCycleDaily \<equiv> ''daily''"
abbreviation "ResetCycleMonthly \<equiv> ''monthly''"

record CodeRule =
  CR_ID :: id
  CR_RuleType :: string
  CR_RuleName :: string
  CR_Prefix :: string
  CR_DateFormat :: string
  CR_SiteCode :: string
  CR_BizCode :: string
  CR_SeqLength :: int
  CR_ResetCycle :: string
  CR_IsEnabled :: bool
  CR_ConfigJSON :: string
  CR_CreatedAt :: time
  CR_UpdatedAt :: time

record CodePreview =
  CP_RuleID :: id
  CP_Preview :: string
  CP_IsPreview :: bool

text \<open>The rows of \<^verbatim>\<open>code_rules\<close> are in the order of their ids.\<close>

record cdb =
  code_rules :: "CodeRule list"
  code_rule_sequences :: "id \<rightharpoonup> int"

type_synonym 'a cact = "(cdb, db_error, 'a) act"
type_synonym 'a cop = "(cdb, ErrCode, 'a) act"

subsection \<open>Repository\<close>

definition CodeRuleRepo_GetByID :: "id \<Rightarrow> CodeRule option cact" where
  "CodeRuleRepo_GetByID i = query (\<lambda>d. List.find (\<lambda>r. CR_ID r = i) (code_rules d))"

definition GetEnabledByType :: "string \<Rightarrow> CodeRule option cact" where
  "GetEnabledByType ruleType =
     query (\<lambda>d. List.find (\<lambda>r. EqualFold (CR_RuleType r) ruleType \<and> CR_IsEnabled r) (code_rules d))"

definition CodeRuleRepo_ListAll :: "CodeRule list cact" where
  "CodeRuleRepo_ListAll = query code_rules"

text \<open>The INSERT is subject to the primary key and to the foreign key on the rule.\<close>

definition insert_sequence :: "id \<Rightarrow> unit cact" where
  "insert_sequence ruleID = stmt (\<lambda>d.
     if code_rule_sequences d ruleID \<noteq> None then Inl ErrDuplicateKey
     else if \<not> list_ex (\<lambda>r. CR_ID r = ruleID) (code_rules d) then Inl ErrDB
     else Inr ((), d\<lparr>code_rule_sequences := (code_rule_sequences d)(ruleID \<mapsto> 1)\<rparr>))"

definition NextSeq :: "id \<Rightarrow> int cact" where
  "NextSeq ruleID =
     bnd (query (\<lambda>d. code_rule_sequences d ruleID)) (\<lambda>r. case r of
       None \<Rightarrow> bnd (insert_sequence ruleID) (\<lambda>_. ret 1)
     | Some current \<Rightarrow>
        (let nxt = int64 (current + 1) in
         bnd (exec (\<lambda>d. d\<lparr>code_rule_sequences := (code_rule_sequences d)(ruleID \<mapsto> nxt)\<rparr>)) (\<lambda>_.
         ret nxt)))"

subsection \<open>Service\<close>

definition buildCode :: "(string \<Rightarrow> string) \<Rightarrow> CodeRule \<Rightarrow> int \<Rightarrow> string" where
  "buildCode fmtNow rule seq =
     (let seqLen = (if CR_SeqLength rule < 1 then 6 else CR_SeqLength rule);
          parts = (if CR_Prefix rule \<noteq> [] then [CR_Prefix rule] else []) @
                  (if CR_DateFormat rule \<noteq> [] then [fmtNow (CR_DateFormat rule)] else []) @
                  (if CR_SiteCode rule \<noteq> [] then [CR_SiteCode rule] else []) @
                  (if CR_BizCode rule \<noteq> [] then [CR_BizCode rule] else [])
      in Join (parts @ [fmt_0d seqLen seq]) ''-'')"

definition generate :: "(string \<Rightarrow> string) \<Rightarrow> CodeRule \<Rightarrow> string cop" where
  "generate fmtNow rule =
     map_err infraError (RunInTx (bnd (NextSeq (CR_ID rule)) (\<lambda>seq. ret (buildCode fmtNow rule seq))))"

definition GenerateCode :: "(string \<Rightarrow> string) \<Rightarrow> string \<Rightarrow> string cop" where
  "GenerateCode fmtNow ruleType =
     (if ruleType = CodeRuleTypeNewSKU then throw ErrCodeInvalidRequest
      else bnd (map_err infraError (GetEnabledByType ruleType)) (\<lambda>r. case r of
        None \<Rightarrow> throw ErrCodeInvalidRequest
      | Some rule \<Rightarrow> generate fmtNow rule))"

definition GenerateSKU :: "id \<Rightarrow> string cop" where
  "GenerateSKU ruleID = throw ErrCodeInvalidRequest"

definition Preview :: "(string \<Rightarrow> string) \<Rightarrow> id \<Rightarrow> CodePreview cop" where
  "Preview fmtNow ruleID =
     bnd (map_err infraError (CodeRuleRepo_GetByID ruleID)) (\<lambda>r. case r of
       None \<Rightarrow> throw ErrCodeNotFound
     | Some rule \<Rightarrow>
        if CR_RuleType rule = CodeRuleTypeNewSKU then throw ErrCodeInvalidRequest
        else ret \<lparr>CP_RuleID = ruleID, CP_Preview = buildCode fmtNow rule 0, CP_IsPreview = True\<rparr>)"

definition CodeRule_List :: "CodeRule list cop" where
  "CodeRule_List =
     bnd (map_err infraError CodeRuleRepo_ListAll) (\<lambda>rules.
       ret (filter (\<lambda>rule. CR_RuleType rule \<noteq> CodeRuleTypeNewSKU) rules))"

subsection \<open>The number at the end of a code\<close>

definition seq_of_code :: "string \<Rightarrow> int option" where
  "seq_of_code code = ParseInt (rev (takeWhile (\<lambda>c. c \<noteq> CHR ''-'') (rev code)))"

lemma takeWhile_rev_digits:
  "list_all jdigit ds \<Longrightarrow>
   takeWhile (\<lambda>c. c \<noteq> CHR ''-'') (rev (p @ CHR ''-'' # ds)) = rev ds \<and>
   takeWhile (\<lambda>c. c \<noteq> CHR ''-'') (rev ds) = rev ds"
  using jdigit_not_sign by (auto simp: takeWhile_append takeWhile_eq_all_conv list_all_iff)

lemma buildCode_shape:
  obtains p where "buildCode fmtNow rule seq = p @ CHR ''-'' # fmt_0d (if CR_SeqLength rule < 1 then 6
    else CR_SeqLength rule) seq"
  | "buildCode fmtNow rule seq = fmt_0d (if CR_SeqLength rule < 1 then 6 else CR_SeqLength rule) seq"
proof -
  let ?s = "fmt_0d (if CR_SeqLength rule < 1 then 6 else CR_SeqLength rule) seq"
  obtain parts where "buildCode fmtNow rule seq = Join (parts @ [?s]) ''-''"
    unfolding buildCode_def Let_def by blast
  then show ?thesis using that by (cases "parts = []") (simp_all add: Join_snoc)
qed

lemma seq_of_buildCode:
  assumes "0 \<le> seq" and "seq < 2 ^ 63" and "CR_SeqLength rule \<le> 1000000"
  shows "seq_of_code (buildCode fmtNow rule seq) = Some seq"
proof -
  let ?w = "if CR_SeqLength rule < 1 then 6 else CR_SeqLength rule"
  have w: "?w \<le> 1000000" using assms(3) by simp
  have ds: "list_all jdigit (fmt_0d ?w seq)" using fmt_0d_digits [OF assms(1) w] .
  have "seq_of_code (buildCode fmtNow rule seq) = ParseInt (fmt_0d ?w seq)"
    by (rule buildCode_shape [of fmtNow rule seq])
      (use takeWhile_rev_digits [OF ds] in \<open>simp_all only: seq_of_code_def rev_rev_ident\<close>)
  then show ?thesis using ParseInt_fmt_0d [OF assms(1,2) w] by simp
qed

subsection \<open>Runs\<close>

text \<open>
  What a generation does: it advances the rule's counter by one and prints the new value, or it
  leaves everything as it was.
\<close>

definition next_number :: "cdb \<Rightarrow> id \<Rightarrow> int" where
  "next_number d r = (case code_rule_sequences d r of None \<Rightarrow> 1 | Some n \<Rightarrow> int64 (n + 1))"

lemma NextSeq_triple:
  "triple (\<lambda>d. d = d0) (NextSeq r)
     (\<lambda>seq d. seq = next_number d0 r \<and>
        d = d0\<lparr>code_rule_sequences := (code_rule_sequences d0)(r \<mapsto> seq)\<rparr>)"
proof -
  have "triple (\<lambda>d. d = d0 \<and> x = code_rule_sequences d0 r)
     (case x of None \<Rightarrow> bnd (insert_sequence r) (\<lambda>_. ret 1)
      | Some current \<Rightarrow>
        (let nxt = int64 (current + 1) in
         bnd (exec (\<lambda>d. d\<lparr>code_rule_sequences := (code_rule_sequences d)(r \<mapsto> nxt)\<rparr>)) (\<lambda>_. ret nxt)))
     (\<lambda>seq d. seq = next_number d0 r \<and>
        d = d0\<lparr>code_rule_sequences := (code_rule_sequences d0)(r \<mapsto> seq)\<rparr>)" for x
    by (cases x)
      (auto simp: triple_def next_number_def insert_sequence_def bnd_eq_Inr Let_def
        dest!: stmt_success exec_success split: if_splits dest: sym)
  then show ?thesis unfolding NextSeq_def
    by (intro triple_bnd [where R = "\<lambda>x d. d = d0 \<and> x = code_rule_sequences d0 r"])
      (auto intro: triple_query)
qed

lemma generate_success:
  assumes "generate fmtNow rule w = (Inr code, w')"
  shows "code = buildCode fmtNow rule (next_number (wdb w) (CR_ID rule)) \<and>
    wdb w' = (wdb w)\<lparr>code_rule_sequences :=
      (code_rule_sequences (wdb w))(CR_ID rule \<mapsto> next_number (wdb w) (CR_ID rule))\<rparr>"
proof -
  obtain w1 w2 seq where "wdb w1 = wdb w" "NextSeq (CR_ID rule) w1 = (Inr seq, w2)" "wdb w' = wdb w2"
    "code = buildCode fmtNow rule seq"
    using assms by (auto simp: generate_def map_err_eq_Inr bnd_eq_Inr dest!: RunInTx_success)
  then show ?thesis using tripleD [OF NextSeq_triple [of "wdb w" "CR_ID rule"], of w1 seq w2] by simp
qed

lemma generate_failure: "generate fmtNow rule w = (Inl e, w') \<Longrightarrow> wdb w' = wdb w"
  by (auto simp: generate_def map_err_def dest: RunInTx_failure split: prod.splits sum.splits)

text \<open>
  A state of the numbering: the tables and the codes handed out, each with the rule it was made by. A
  generation works with the rule as it was read, which may have been edited since; the rules may be
  edited in any way.
\<close>

type_synonym numbering = "cdb \<times> (CodeRule \<times> string) list"

inductive cstep :: "numbering \<Rightarrow> numbering \<Rightarrow> bool" where
  cs_code: "CR_SeqLength rule \<le> 1000000 \<Longrightarrow> generate fmtNow rule w = (Inr code, w') \<Longrightarrow>
     cstep (wdb w, tr) (wdb w', tr @ [(rule, code)])"
| cs_error: "generate fmtNow rule w = (Inl e, w') \<Longrightarrow> cstep (wdb w, tr) (wdb w', tr)"
| cs_edit: "cstep (d, tr) (d\<lparr>code_rules := rs\<rparr>, tr)"

definition cinit :: "numbering \<Rightarrow> bool" where
  "cinit s \<longleftrightarrow> code_rule_sequences (fst s) = Map.empty \<and> snd s = []"

definition codes_of :: "id \<Rightarrow> (CodeRule \<times> string) list \<Rightarrow> string list" where
  "codes_of r tr = map snd (filter (\<lambda>p. CR_ID (fst p) = r) tr)"

text \<open>The rule asks for no reset, in every version of it that made one of the codes.\<close>

definition never_resets :: "id \<Rightarrow> (CodeRule \<times> string) list \<Rightarrow> bool" where
  "never_resets r tr \<longleftrightarrow> list_all (\<lambda>p. CR_ID (fst p) = r \<longrightarrow> CR_ResetCycle (fst p) = ResetCycleNone) tr"

definition numbered :: "numbering \<Rightarrow> id \<Rightarrow> bool" where
  "numbered s r \<longleftrightarrow>
     map seq_of_code (codes_of r (snd s)) = map Some [1..int (length (codes_of r (snd s)))] \<and>
     (case code_rule_sequences (fst s) r of
        None \<Rightarrow> codes_of r (snd s) = []
      | Some n \<Rightarrow> n = int (length (codes_of r (snd s))))"

definition cinv :: "numbering \<Rightarrow> bool" where
  "cinv s \<longleftrightarrow> (int (length (snd s)) < 2 ^ 63 \<longrightarrow> (\<forall>r. numbered s r))"

lemma codes_of_snoc [simp]:
  "codes_of r (tr @ [(rule, code)]) = (if CR_ID rule = r then codes_of r tr @ [code] else codes_of r tr)"
  by (simp add: codes_of_def)

lemma length_codes_of: "length (codes_of r tr) \<le> length tr"
  by (simp add: codes_of_def)

lemma numbered_next:
  assumes "numbered (d, tr) q" and "int (length tr) + 1 < 2 ^ 63"
  shows "next_number d q = int (length (codes_of q tr)) + 1"
proof -
  have "int (length (codes_of q tr)) + 1 < 2 ^ 63" using length_codes_of [of q tr] assms(2) by linarith
  then show ?thesis using assms(1)
    by (auto simp: numbered_def next_number_def int64_id split: option.splits)
qed

lemma cinv_code:
  assumes inv: "cinv (wdb w, tr)" and len: "CR_SeqLength rule \<le> 1000000"
    and gen: "generate fmtNow rule w = (Inr code, w')"
  shows "cinv (wdb w', tr @ [(rule, code)])"
  unfolding cinv_def
proof (intro impI allI)
  fix r
  assume "int (length (snd (wdb w', tr @ [(rule, code)]))) < 2 ^ 63"
  then have short: "int (length tr) + 1 < 2 ^ 63" by simp
  let ?q = "CR_ID rule" and ?n = "next_number (wdb w) (CR_ID rule)"
  have num: "numbered (wdb w, tr) k" for k using inv short by (simp add: cinv_def)
  have n: "?n = int (length (codes_of ?q tr)) + 1" using numbered_next [OF num short] .
  have "?n < 2 ^ 63" using length_codes_of [of ?q tr] short n by linarith
  then have "seq_of_code code = Some ?n"
    using generate_success [OF gen] seq_of_buildCode [OF _ _ len] n by simp
  then show "numbered (wdb w', tr @ [(rule, code)]) r"
    using num [of r] n generate_success [OF gen]
    by (cases "?q = r") (simp_all add: numbered_def upto_rec2 split: option.splits)
qed

interpretation numbering: inductive_invariant cinit cstep cinv
proof
  show "cinv s" if "cinit s" for s
    using that by (auto simp: cinit_def cinv_def numbered_def codes_of_def)
  show "cinv t" if "cinv s" and "cstep s t" for s t
    using that(2,1)
  proof cases
    case (cs_code rule fmtNow w code w' tr)
    then show ?thesis using cinv_code that(1) by blast
  next
    case (cs_error fmtNow rule w e w' tr)
    then show ?thesis using that(1) generate_failure by metis
  next
    case (cs_edit d tr rs)
    then show ?thesis using that(1) by (simp add: cinv_def numbered_def cong: option.case_cong)
  qed
qed

text \<open>Every code the service hands out comes from such a step.\<close>

lemma GenerateCode_is_step:
  assumes "GenerateCode fmtNow ruleType w = (Inr code, w')"
    and "\<And>r. r \<in> set (code_rules (wdb w)) \<Longrightarrow> CR_SeqLength r \<le> 1000000"
  shows "\<exists>r \<in> set (code_rules (wdb w)). EqualFold (CR_RuleType r) ruleType \<and> CR_IsEnabled r \<and>
    cstep (wdb w, tr) (wdb w', tr @ [(r, code)])"
proof -
  obtain rule w1 where q: "GetEnabledByType ruleType w = (Inr (Some rule), w1)"
    and gen: "generate fmtNow rule w1 = (Inr code, w')"
    using assms(1) by (auto simp: GenerateCode_def bnd_eq_Inr map_err_eq_Inr split: if_splits option.splits)
  have "wdb w1 = wdb w" "rule \<in> set (code_rules (wdb w))" "EqualFold (CR_RuleType rule) ruleType" "CR_IsEnabled rule"
    using query_success [OF q [unfolded GetEnabledByType_def]] find_SomeD by metis+
  then show ?thesis using cs_code [OF assms(2) gen] by metis
qed

text \<open>
  What the code does for every rule, whatever its cycle: the n-th code of a rule ends in the number n. The
  domain type says that the cycle controls when the sequence resets; no code reads it.
\<close>

lemma reset_cycle_is_ignored:
  assumes "reach cinit cstep (d, tr)" and "int (length tr) < 2 ^ 63"
  shows "map seq_of_code (codes_of r tr) = map Some [1..int (length (codes_of r tr))]"
proof -
  have "numbered (d, tr) r" using numbering.reach_inv [OF assms(1)] assms(2) by (simp add: cinv_def)
  then show ?thesis by (simp add: numbered_def)
qed

text \<open>
  (C21) No code of a rule is handed out twice, whatever dates, failures and edits of the rules came
  between; and the codes of a rule without a reset cycle are numbered without gaps from one: the n-th ends
  in the number n. (The counter is a 64-bit integer; the width of the rule is one that \<^verbatim>\<open>fmt\<close> accepts. Rules
  with a cycle should start again at one with every period and do not, \<open>reset_cycle_is_ignored\<close>.)
\<close>

theorem codes_numbered_without_gaps:
  assumes "reach cinit cstep (d, tr)" and "int (length tr) < 2 ^ 63"
  shows "distinct (codes_of r tr) \<and>
    (never_resets r tr \<longrightarrow> map seq_of_code (codes_of r tr) = map Some [1..int (length (codes_of r tr))])"
proof -
  note m = reset_cycle_is_ignored [OF assms, of r]
  have "distinct (map seq_of_code (codes_of r tr))" unfolding m by (simp add: distinct_map)
  then show ?thesis using m distinct_map by blast
qed

text \<open>A preview never touches the counter.\<close>

lemma Preview_keeps: "wdb (snd (Preview fmtNow ruleID w)) = wdb w"
proof -
  have "keeps (\<lambda>d. d = wdb w) (Preview fmtNow ruleID)"
    unfolding Preview_def CodeRuleRepo_GetByID_def
    by (intro keeps_bnd keeps_map_err keeps_query) (auto split: option.split)
  then show ?thesis by (simp add: keeps_def)
qed

subsection \<open>A run\<close>

definition demo_rule :: CodeRule where
  "demo_rule = \<lparr>CR_ID = 1, CR_RuleType = CodeRuleTypeTaskNo, CR_RuleName = ''tasks'', CR_Prefix = ''RW'',
     CR_DateFormat = ''20060102'', CR_SiteCode = ''A'', CR_BizCode = [], CR_SeqLength = 6,
     CR_ResetCycle = ResetCycleNone, CR_IsEnabled = True, CR_ConfigJSON = ''{}'', CR_CreatedAt = 0, CR_UpdatedAt = 0\<rparr>"

definition demo_cdb :: cdb where
  "demo_cdb = \<lparr>code_rules = [demo_rule], code_rule_sequences = Map.empty\<rparr>"

lemma demo_codes_built:
  "buildCode (\<lambda>_. ''20240101'') demo_rule 1 = ''RW-20240101-A-000001''"
  "buildCode (\<lambda>_. ''20240102'') demo_rule 2 = ''RW-20240102-A-000002''"
  by code_simp+

lemma demo_rule_ID: "CR_ID demo_rule = 1" "list_ex (\<lambda>r. CR_ID r = 1) (code_rules demo_cdb)"
  "code_rule_sequences demo_cdb = Map.empty"
  by (simp_all add: demo_rule_def demo_cdb_def)

lemma demo_first_code:
  "generate (\<lambda>_. ''20240101'') demo_rule \<lparr>wdb = demo_cdb, faults = []\<rparr> =
     (Inr ''RW-20240101-A-000001'', \<lparr>wdb = demo_cdb\<lparr>code_rule_sequences := [1 \<mapsto> 1]\<rparr>, faults = []\<rparr>)"
  by (simp add: generate_def NextSeq_def insert_sequence_def act_simps demo_codes_built demo_rule_ID)

lemma demo_second_code:
  "generate (\<lambda>_. ''20240102'') demo_rule
       \<lparr>wdb = demo_cdb\<lparr>code_rule_sequences := [1 \<mapsto> 1]\<rparr>, faults = []\<rparr> =
     (Inr ''RW-20240102-A-000002'', \<lparr>wdb = demo_cdb\<lparr>code_rule_sequences := [1 \<mapsto> 2]\<rparr>, faults = []\<rparr>)"
  by (simp add: generate_def NextSeq_def act_simps demo_codes_built demo_rule_ID Let_def int64_def)

definition demo_codes :: "(CodeRule \<times> string) list" where
  "demo_codes = [(demo_rule, ''RW-20240101-A-000001''), (demo_rule, ''RW-20240102-A-000002'')]"

lemma demo_numbering_reach: "reach cinit cstep (demo_cdb\<lparr>code_rule_sequences := [1 \<mapsto> 2]\<rparr>, demo_codes)"
proof -
  have len: "CR_SeqLength demo_rule \<le> 1000000" by (simp add: demo_rule_def)
  have "reach cinit cstep (demo_cdb, [])" by (rule reach_init) (simp add: cinit_def demo_cdb_def)
  moreover have "cstep (demo_cdb, []) (demo_cdb\<lparr>code_rule_sequences := [1 \<mapsto> 1]\<rparr>, [(demo_rule, ''RW-20240101-A-000001'')])"
    using cs_code [OF len demo_first_code, of "[]"] by simp
  moreover have "cstep (demo_cdb\<lparr>code_rule_sequences := [1 \<mapsto> 1]\<rparr>, [(demo_rule, ''RW-20240101-A-000001'')])
      (demo_cdb\<lparr>code_rule_sequences := [1 \<mapsto> 2]\<rparr>, demo_codes)"
    using cs_code [OF len demo_second_code, of "[(demo_rule, ''RW-20240101-A-000001'')]"]
    by (simp add: demo_codes_def)
  ultimately show ?thesis by (meson reach_step)
qed

theorem codes_numbered_without_gaps_witness:
  "codes_of 1 demo_codes = [''RW-20240101-A-000001'', ''RW-20240102-A-000002''] \<and>
   distinct (codes_of 1 demo_codes) \<and> map seq_of_code (codes_of 1 demo_codes) = [Some 1, Some 2]"
proof -
  have c: "codes_of 1 demo_codes = [''RW-20240101-A-000001'', ''RW-20240102-A-000002'']"
    by (simp add: codes_of_def demo_codes_def demo_rule_def)
  have never: "never_resets 1 demo_codes" by (simp add: never_resets_def demo_codes_def demo_rule_def)
  have "int (length demo_codes) < 2 ^ 63" by (simp add: demo_codes_def)
  from codes_numbered_without_gaps [OF demo_numbering_reach this, of 1] never
  show ?thesis unfolding c by (simp add: upto_rec1)
qed

end
