(* ===== verification/Go_Json_Object.thy ===== *)
theory Go_Json_Object
  imports Go_Json
begin

section \<open>Unmarshal into a map\<close>

text \<open>
  \<^verbatim>\<open>json.Unmarshal\<close> into \<^verbatim>\<open>map[string]interface{}\<close>, as far as the sources look at the result: the members of
  the outermost object, with the dynamic type of each value (\<^verbatim>\<open>string\<close>, \<^verbatim>\<open>float64\<close> or another) and the text of
  a string or number. Nested values are skipped with the scanner. A key that occurs twice has its
  last value.
\<close>

datatype jtop = TopString string | TopNumber string | TopOther

fun jskip :: "string \<Rightarrow> jstep \<times> jparse list \<Rightarrow> string option" where
  "jskip [] x = None"
| "jskip (c # cs) x = (case jscan c x of
     None \<Rightarrow> None
   | Some y \<Rightarrow> if fst y = EndTop then Some cs else jskip cs y)"

definition jnumchar :: "char \<Rightarrow> bool" where
  "jnumchar c \<longleftrightarrow> jdigit c \<or> c \<in> set ''+-.eE''"

definition jletter :: "char \<Rightarrow> bool" where
  "jletter c \<longleftrightarrow> c \<in> set ''truefalsenull''"

text \<open>The value at the head of the rest of a document, and what follows it.\<close>

definition jvalue :: "string \<Rightarrow> (jtop \<times> string) option" where
  "jvalue s = (case s of
     [] \<Rightarrow> None
   | c # r \<Rightarrow>
      if c = qt then map_option (apfst TopString) (unquote (Suc (length r)) r)
      else if c = CHR ''-'' \<or> jdigit c then Some (TopNumber (takeWhile jnumchar s), dropWhile jnumchar s)
      else if c = CHR ''{'' \<or> c = CHR ''['' then map_option (Pair TopOther) (jskip s (BeginValue, []))
      else Some (TopOther, dropWhile jletter s))"

text \<open>Members up to the closing brace. The fuel is the length of the input: every member consumes bytes.\<close>

fun jmembers :: "nat \<Rightarrow> string \<Rightarrow> (string \<times> jtop) list option" where
  "jmembers 0 s = None"
| "jmembers (Suc n) s = (case dropWhile jspace s of
     [] \<Rightarrow> None
   | q # r \<Rightarrow>
      if q \<noteq> qt then None
      else (case unquote (Suc (length r)) r of
        None \<Rightarrow> None
      | Some (k, r1) \<Rightarrow>
         (case jvalue (dropWhile jspace (tl (dropWhile jspace r1))) of
            None \<Rightarrow> None
          | Some (v, r3) \<Rightarrow>
             if take 1 (dropWhile jspace r3) = '',''
             then map_option (Cons (k, v)) (jmembers n (tl (dropWhile jspace r3)))
             else Some [(k, v)])))"

definition unmarshal_object :: "string \<Rightarrow> string \<rightharpoonup> jtop" where
  "unmarshal_object s =
     (let t = jtrim s in
      if \<not> json_Valid s \<or> take 1 t \<noteq> ''{'' then Map.empty
      else if take 1 (dropWhile jspace (tl t)) = ''}'' then Map.empty
      else (case jmembers (length t) (tl t) of None \<Rightarrow> Map.empty | Some ms \<Rightarrow> map_of (rev ms)))"

definition quoted :: "string \<Rightarrow> string" where
  "quoted s = qt # s @ [qt]"

lemma unmarshal_object_examples:
  "unmarshal_object (''{ '' @ quoted ''a'' @ '' : {'' @ quoted ''b'' @ '':1}, '' @ quoted ''c'' @ '':-1.5e3,'' @
     quoted ''c'' @ '':'' @ quoted ''x'' @ '', '' @ quoted ''d'' @ '':true}'') ''c'' = Some (TopString ''x'')"
  "unmarshal_object (''{'' @ quoted ''a'' @ '':12 }'') ''a'' = Some (TopNumber ''12'')"
  "unmarshal_object ''[1]'' ''a'' = None"
  by code_simp+

end
