(* ===== verification/Identity_Domain.thy ===== *)
theory Identity_Domain
  imports Go_Json Module_Domain
begin

section \<open>Users, departments and the permission log\<close>

text \<open>
  The rows of \<^verbatim>\<open>users\<close>, \<^verbatim>\<open>org_departments\<close> and \<^verbatim>\<open>permission_logs\<close> (\<^verbatim>\<open>domain/auth_identity.go\<close>,
  \<^verbatim>\<open>domain/org_master.go\<close>) and how \<^verbatim>\<open>repo/mysql/identity.go\<close> reads and writes a user. \<^verbatim>\<open>DATETIME\<close>
  columns hold whole seconds: the server's \<^verbatim>\<open>NOW()\<close> is cut off (\<open>dt_now\<close>), a time supplied by the
  program is rounded (\<open>dt\<close>). Of a log entry the record keeps what distinguishes the entries the
  services write; source, mode and readiness of the request are copied from the actor.
\<close>

subsection \<open>Times\<close>

definition dt_now :: "time \<Rightarrow> time" where
  "dt_now t = t div Second * Second"

definition dt :: "time \<Rightarrow> time" where
  "dt t = (t + 500000000) div Second * Second"

text \<open>The range of a \<^verbatim>\<open>DATETIME\<close>, in the years 1000 to 9999.\<close>

definition datetime :: "time \<Rightarrow> bool" where
  "datetime t \<longleftrightarrow> t mod Second = 0 \<and> - 30610224000 * Second \<le> t \<and> t < 253402300800 * Second"

subsection \<open>Rows\<close>

record PermissionLog =
  PL_ActorID :: "id option"
  PL_ActorUsername :: string
  PL_ActionType :: string
  PL_TargetUserID :: "id option"
  PL_Method :: string
  PL_RoutePath :: string
  PL_Granted :: bool
  PL_Reason :: string
  PL_CreatedAt :: time

record OrgDepartment =
  OD_ID :: id
  OD_Name :: string
  OD_Enabled :: bool
  OD_CreatedAt :: time
  OD_UpdatedAt :: time

record User =
  U_ID :: id
  U_Username :: string
  U_DisplayName :: string
  U_Department :: string
  U_Team :: string
  U_ManagedDepartments :: "string list"
  U_ManagedTeams :: "string list"
  U_Mobile :: string
  U_Email :: string
  U_AvatarURL :: string
  U_PasswordHash :: string
  U_Status :: string
  U_EmploymentType :: string
  U_IsConfigSuperAdmin :: bool
  U_LastLoginAt :: "time option"
  U_CreatedAt :: time
  U_UpdatedAt :: time
  U_JstUID :: "id option"
  U_JstRawSnapshotJSON :: string

abbreviation "EmploymentTypeFullTime \<equiv> ''full_time''"
abbreviation "EmploymentTypePartTime \<equiv> ''part_time''"

definition EmploymentType_Valid :: "string \<Rightarrow> bool" where
  "EmploymentType_Valid t \<longleftrightarrow> t = EmploymentTypeFullTime \<or> t = EmploymentTypePartTime"

text \<open>Reading a row; lists of managed departments and teams are stored as JSON arrays.\<close>

definition scanUser :: "User \<Rightarrow> User" where
  "scanUser u =
     (let e = TrimSpace (U_EmploymentType u) in
      u\<lparr>U_EmploymentType := (if EmploymentType_Valid e then e else EmploymentTypeFullTime)\<rparr>)"

text \<open>The columns \<^verbatim>\<open>userRepo.Update\<close> writes; the others keep the value of the row.\<close>

definition user_cols :: "User \<Rightarrow> User \<Rightarrow> User" where
  "user_cols user row = row\<lparr>U_DisplayName := U_DisplayName user, U_Department := U_Department user,
     U_Team := U_Team user, U_ManagedDepartments := U_ManagedDepartments user,
     U_ManagedTeams := U_ManagedTeams user, U_Mobile := U_Mobile user, U_Email := U_Email user,
     U_AvatarURL := U_AvatarURL user, U_Status := U_Status user, U_EmploymentType := U_EmploymentType user,
     U_IsConfigSuperAdmin := U_IsConfigSuperAdmin user, U_UpdatedAt := dt (U_UpdatedAt user)\<rparr>"

end
