(* ===== verification/Task_Draft.thy ===== *)
theory Task_Draft
  imports Go_Format Go_Json_Object Kernel_Domain Identity_Domain "HOL-Library.Product_Lexorder"
begin

section \<open>Task drafts\<close>

text \<open>
  \<^verbatim>\<open>src/service/task_draft/service.go\<close> and \<^verbatim>\<open>src/repo/mysql/task_draft_repo.go\<close>: a user's unfinished
  task forms. \<open>now\<close> is the clock of the process and \<open>srv\<close> the clock of the database. \<open>Jn\<close> is the JSON column: the normal form in which it stores a document, or
  nothing if it rejects it. \<open>asFloat\<close> reads the text of a JSON number as \<^verbatim>\<open>float64\<close> and truncates it to
  an \<^verbatim>\<open>int64\<close>.

  The table's collation is \<^verbatim>\<open>utf8mb4_unicode_ci\<close>: SQL compares task types by \<open>ci_eq\<close>. A denied
  deletion is written to \<^verbatim>\<open>permission_logs\<close>.
\<close>

subsection \<open>Data\<close>

record TaskDraft =
  TD_ID :: id
  TD_OwnerUserID :: id
  TD_TaskType :: string
  TD_Payload :: string
  TD_ExpiresAt :: time
  TD_CreatedAt :: time
  TD_UpdatedAt :: time

record ddb =
  task_drafts :: "TaskDraft list"
  next_draft :: id
  draft_logs :: "PermissionLog list"

datatype DraftErr = DraftAppErr ErrCode | CodeDraftNotOwner

type_synonym 'a dact = "(ddb, db_error, 'a) act"
type_synonym 'a dop = "(ddb, DraftErr, 'a) act"
type_synonym json_column = "string \<Rightarrow> string option"

subsection \<open>Repository\<close>

definition scanTaskDraft :: "TaskDraft \<Rightarrow> TaskDraft" where
  "scanTaskDraft d = d\<lparr>TD_Payload := (if json_Valid (TD_Payload d) then TD_Payload d else ''{}'')\<rparr>"

definition jsonOrObject :: "string \<Rightarrow> string" where
  "jsonOrObject raw = (if raw = [] then ''{}'' else raw)"

definition Draft_Get :: "id \<Rightarrow> TaskDraft dact" where
  "Draft_Get draftID =
     bnd (query (\<lambda>d. List.find (\<lambda>r. TD_ID r = draftID) (task_drafts d))) (\<lambda>r. case r of
       None \<Rightarrow> throw sql_ErrNoRows
     | Some x \<Rightarrow> ret (scanTaskDraft x))"

text \<open>Inside a transaction, with a lock on the row.\<close>

definition Draft_GetForUpdate :: "id \<Rightarrow> TaskDraft dact" where
  "Draft_GetForUpdate draftID =
     bnd (query (\<lambda>d. List.find (\<lambda>r. TD_ID r = draftID) (task_drafts d))) (\<lambda>r. case r of
       None \<Rightarrow> throw sql_ErrNoRows
     | Some x \<Rightarrow> ret (scanTaskDraft x))"

text \<open>\<^verbatim>\<open>AUTO_INCREMENT\<close> on a \<^verbatim>\<open>BIGINT\<close> fails once the counter is used up.\<close>

definition Draft_insert :: "json_column \<Rightarrow> time \<Rightarrow> TaskDraft \<Rightarrow> id dact" where
  "Draft_insert Jn srv draft = stmt (\<lambda>d. case Jn (jsonOrObject (TD_Payload draft)) of
     None \<Rightarrow> Inl ErrDB
   | Some p \<Rightarrow> if next_draft d \<ge> 2 ^ 63 then Inl ErrDB else
      Inr (next_draft d, d\<lparr>next_draft := next_draft d + 1,
       task_drafts := task_drafts d @ [draft\<lparr>TD_ID := next_draft d, TD_Payload := p,
         TD_ExpiresAt := dt (TD_ExpiresAt draft), TD_CreatedAt := dt_now srv, TD_UpdatedAt := dt_now srv\<rparr>]\<rparr>))"

definition Draft_Create :: "json_column \<Rightarrow> time \<Rightarrow> TaskDraft \<Rightarrow> TaskDraft dact" where
  "Draft_Create Jn srv draft = bnd (Draft_insert Jn srv draft) Draft_GetForUpdate"

text \<open>
  The columns an UPDATE writes; the driver counts the rows whose values changed (its option
  \<^verbatim>\<open>clientFoundRows\<close> is not set).
\<close>

definition draft_cols :: "time \<Rightarrow> TaskDraft \<Rightarrow> string \<Rightarrow> TaskDraft \<Rightarrow> TaskDraft" where
  "draft_cols srv draft p r = r\<lparr>TD_TaskType := TD_TaskType draft, TD_Payload := p,
     TD_ExpiresAt := dt (TD_ExpiresAt draft), TD_UpdatedAt := dt_now srv\<rparr>"

definition Draft_update_rows :: "json_column \<Rightarrow> time \<Rightarrow> TaskDraft \<Rightarrow> nat dact" where
  "Draft_update_rows Jn srv draft = stmt (\<lambda>d. case Jn (jsonOrObject (TD_Payload draft)) of
     None \<Rightarrow> Inl ErrDB
   | Some p \<Rightarrow>
      (let hit = (\<lambda>r. TD_ID r = TD_ID draft \<and> TD_OwnerUserID r = TD_OwnerUserID draft) in
       Inr (length (filter (\<lambda>r. hit r \<and> draft_cols srv draft p r \<noteq> r) (task_drafts d)),
            d\<lparr>task_drafts := row_upd hit (draft_cols srv draft p) (task_drafts d)\<rparr>)))"

definition Draft_Update :: "json_column \<Rightarrow> time \<Rightarrow> TaskDraft \<Rightarrow> TaskDraft dact" where
  "Draft_Update Jn srv draft =
     bnd (Draft_update_rows Jn srv draft) (\<lambda>n.
     if n = 0 then throw sql_ErrNoRows else Draft_GetForUpdate (TD_ID draft))"

record DraftFilter =
  DF_OwnerUserID :: id
  DF_TaskType :: string
  DF_Limit :: int
  DF_Before :: "(time \<times> id) option"

definition draft_key :: "TaskDraft \<Rightarrow> time \<times> id" where
  "draft_key r = (TD_UpdatedAt r, TD_ID r)"

text \<open>Newest first: ORDER BY updated_at DESC, id DESC.\<close>

definition newest_first :: "TaskDraft list \<Rightarrow> TaskDraft list" where
  "newest_first rs = rev (sort_key draft_key rs)"

definition draft_selected :: "id \<Rightarrow> string \<Rightarrow> TaskDraft \<Rightarrow> bool" where
  "draft_selected owner tt r \<longleftrightarrow> TD_OwnerUserID r = owner \<and>
     (TrimSpace tt \<noteq> [] \<longrightarrow> ci_eq (TD_TaskType r) (TrimSpace tt))"

definition before_cursor :: "(time \<times> id) option \<Rightarrow> TaskDraft \<Rightarrow> bool" where
  "before_cursor before r = (case before of
     None \<Rightarrow> True
   | Some (t, i) \<Rightarrow> i > 0 \<longrightarrow> TD_UpdatedAt r < t \<or> TD_UpdatedAt r = t \<and> TD_ID r < i)"

definition Draft_List :: "DraftFilter \<Rightarrow> TaskDraft list dact" where
  "Draft_List f =
     (let limit = (if DF_Limit f \<le> 0 \<or> DF_Limit f > 50 then 20 else DF_Limit f) in
      query (\<lambda>d. map scanTaskDraft (take (nat limit) (newest_first
        (filter (\<lambda>r. draft_selected (DF_OwnerUserID f) (DF_TaskType f) r \<and> before_cursor (DF_Before f) r)
          (task_drafts d))))))"

definition Draft_Delete :: "id \<Rightarrow> unit dact" where
  "Draft_Delete draftID =
     exec (\<lambda>d. d\<lparr>task_drafts := filter (\<lambda>r. TD_ID r \<noteq> draftID) (task_drafts d)\<rparr>)"

definition DeleteExpired :: "time \<Rightarrow> nat dact" where
  "DeleteExpired before = stmt (\<lambda>d. Inr (length (filter (\<lambda>r. TD_ExpiresAt r < before) (task_drafts d)),
     d\<lparr>task_drafts := filter (\<lambda>r. \<not> TD_ExpiresAt r < before) (task_drafts d)\<rparr>))"

definition of_owner_type :: "id \<Rightarrow> string \<Rightarrow> TaskDraft \<Rightarrow> bool" where
  "of_owner_type owner tt r \<longleftrightarrow> TD_OwnerUserID r = owner \<and> ci_eq (TD_TaskType r) tt"

definition CountByOwnerAndType :: "id \<Rightarrow> string \<Rightarrow> nat dact" where
  "CountByOwnerAndType owner tt =
     query (\<lambda>d. length (filter (of_owner_type owner tt) (task_drafts d)))"

text \<open>The first row in the order created_at, id.\<close>

definition oldest :: "TaskDraft list \<Rightarrow> TaskDraft option" where
  "oldest rs = (case sort_key (\<lambda>r. (TD_CreatedAt r, TD_ID r)) rs of [] \<Rightarrow> None | r # _ \<Rightarrow> Some r)"

definition DeleteOldestByOwnerAndType :: "id \<Rightarrow> string \<Rightarrow> unit dact" where
  "DeleteOldestByOwnerAndType owner tt = exec (\<lambda>d.
     case oldest (filter (of_owner_type owner tt) (task_drafts d)) of
       None \<Rightarrow> d
     | Some x \<Rightarrow> d\<lparr>task_drafts := filter (\<lambda>r. TD_ID r \<noteq> TD_ID x) (task_drafts d)\<rparr>)"

definition PermissionLog_Create :: "PermissionLog \<Rightarrow> unit dact" where
  "PermissionLog_Create e = exec (\<lambda>d. d\<lparr>draft_logs := draft_logs d @ [e]\<rparr>)"

subsection \<open>Cursors\<close>

definition UnixMilli :: "time \<Rightarrow> int" where
  "UnixMilli t = t div 1000000"

definition encodeCursor :: "time \<Rightarrow> id \<Rightarrow> string" where
  "encodeCursor t i = b64_encode (fmt_d (UnixMilli t) @ '':'' @ fmt_d i)"

definition decodeCursor :: "string \<Rightarrow> DraftErr + (time \<times> id) option" where
  "decodeCursor raw0 =
     (let raw = TrimSpace raw0 in
      if raw = [] then Inr None
      else case b64_decode raw of
        None \<Rightarrow> Inl (DraftAppErr ErrCodeInvalidRequest)
      | Some decoded \<Rightarrow>
         (case SplitN2 decoded (CHR '':'') of
            [p, q] \<Rightarrow>
              (case (ParseInt p, ParseInt q) of
                 (Some ms, Some i) \<Rightarrow>
                   if i \<le> 0 then Inl (DraftAppErr ErrCodeInvalidRequest) else Inr (Some (ms * 1000000, i))
               | _ \<Rightarrow> Inl (DraftAppErr ErrCodeInvalidRequest))
          | _ \<Rightarrow> Inl (DraftAppErr ErrCodeInvalidRequest)))"

subsection \<open>Service\<close>

abbreviation defaultTaskType :: string where
  "defaultTaskType \<equiv> ''unknown''"

definition parseDraftPayload :: "(string \<Rightarrow> int option) \<Rightarrow> string \<Rightarrow> id \<times> string" where
  "parseDraftPayload asFloat raw =
     (let payload = unmarshal_object raw;
          i = (case payload ''draft_id'' of
                 Some (TopNumber v) \<Rightarrow> (case asFloat v of None \<Rightarrow> 0 | Some x \<Rightarrow> x)
               | Some (TopString v) \<Rightarrow> ParseInt_value (TrimSpace v)
               | _ \<Rightarrow> 0);
          tt = (case payload ''task_type'' of Some (TopString v) \<Rightarrow> v | _ \<Rightarrow> [])
      in (i, TrimSpace tt))"

abbreviation draft_lifetime :: time where
  "draft_lifetime \<equiv> 7 * 24 * Hour"

definition new_draft :: "id \<Rightarrow> id \<Rightarrow> string \<Rightarrow> string \<Rightarrow> time \<Rightarrow> TaskDraft" where
  "new_draft i owner tt raw expires = \<lparr>TD_ID = i, TD_OwnerUserID = owner, TD_TaskType = tt,
     TD_Payload = raw, TD_ExpiresAt = expires, TD_CreatedAt = 0, TD_UpdatedAt = 0\<rparr>"

definition UpdateDraft_tx :: "json_column \<Rightarrow> time \<Rightarrow> TaskDraft \<Rightarrow> TaskDraft dact" where
  "UpdateDraft_tx Jn srv draft =
     bnd (Draft_GetForUpdate (TD_ID draft)) (\<lambda>current.
     if TD_OwnerUserID current \<noteq> TD_OwnerUserID draft then throw errDraftNotOwner
     else Draft_Update Jn srv draft)"

definition CreateDraft_tx :: "json_column \<Rightarrow> time \<Rightarrow> TaskDraft \<Rightarrow> TaskDraft dact" where
  "CreateDraft_tx Jn srv draft =
     bnd (CountByOwnerAndType (TD_OwnerUserID draft) (TD_TaskType draft)) (\<lambda>count.
     bnd (if count \<ge> 20 then DeleteOldestByOwnerAndType (TD_OwnerUserID draft) (TD_TaskType draft)
          else ret ()) (\<lambda>_.
     Draft_Create Jn srv draft))"

definition draft_tx_err :: "db_error \<Rightarrow> DraftErr" where
  "draft_tx_err e =
     (if e = sql_ErrNoRows then DraftAppErr ErrCodeNotFound
      else if e = errDraftNotOwner then CodeDraftNotOwner
      else DraftAppErr ErrCodeInternalError)"

definition CreateOrUpdate ::
  "(string \<Rightarrow> int option) \<Rightarrow> json_column \<Rightarrow> time \<Rightarrow> time \<Rightarrow> RequestActor \<Rightarrow> string \<Rightarrow> TaskDraft dop" where
  "CreateOrUpdate asFloat Jn now srv actor raw =
     (if \<not> json_Valid raw \<or> raw = [] then throw (DraftAppErr ErrCodeInvalidRequest)
      else case parseDraftPayload asFloat raw of (draftID, tt) \<Rightarrow>
        (let taskType = (if tt = [] then defaultTaskType else tt);
             draft = new_draft draftID (RA_ID actor) taskType raw (now + draft_lifetime)
         in map_err draft_tx_err (RunInTx
              (if draftID > 0 then UpdateDraft_tx Jn srv draft else CreateDraft_tx Jn srv draft))))"

definition Drafts_Get :: "RequestActor \<Rightarrow> id \<Rightarrow> TaskDraft dop" where
  "Drafts_Get actor draftID =
     bnd (map_err draft_tx_err (Draft_Get draftID)) (\<lambda>draft.
     if TD_OwnerUserID draft \<noteq> RA_ID actor then throw CodeDraftNotOwner else ret draft)"

definition recordDenied :: "time \<Rightarrow> RequestActor \<Rightarrow> id \<Rightarrow> unit dop" where
  "recordDenied now actor draftID = ignore_err (PermissionLog_Create
     \<lparr>PL_ActorID = Some (RA_ID actor), PL_ActorUsername = RA_Username actor,
      PL_ActionType = ''draft_access_denied'', PL_TargetUserID = None, PL_Method = ''DELETE'',
      PL_RoutePath = ''/v1/task-drafts/{draft_id}'', PL_Granted = False,
      PL_Reason = ''{'' @ quoted ''actor'' @ '':'' @ fmt_d (RA_ID actor) @ '','' @ quoted ''draft_id'' @ '':'' @
        fmt_d draftID @ '','' @ quoted ''reason'' @ '':'' @ quoted ''not_owner'' @ ''}'',
      PL_CreatedAt = dt now\<rparr>)"

definition Drafts_Delete :: "time \<Rightarrow> RequestActor \<Rightarrow> id \<Rightarrow> unit dop" where
  "Drafts_Delete now actor draftID =
     bnd (map_err draft_tx_err (Draft_Get draftID)) (\<lambda>draft.
     if TD_OwnerUserID draft \<noteq> RA_ID actor
     then bnd (recordDenied now actor draftID) (\<lambda>_. throw CodeDraftNotOwner)
     else map_err (\<lambda>_. DraftAppErr ErrCodeInternalError) (RunInTx (Draft_Delete draftID)))"

definition DeleteBySourceDraftID :: "id \<Rightarrow> unit dact" where
  "DeleteBySourceDraftID draftID = (if draftID \<le> 0 then ret () else Draft_Delete draftID)"

definition CleanupExpired :: "time \<Rightarrow> nat dact" where
  "CleanupExpired now = DeleteExpired now"

record ListDraftFilter =
  LF_TaskType :: string
  LF_Limit :: int
  LF_Cursor :: string

definition page_limit :: "int \<Rightarrow> int" where
  "page_limit limit = (if limit \<le> 0 \<or> limit > 50 then 20 else limit)"

definition Drafts_List :: "RequestActor \<Rightarrow> ListDraftFilter \<Rightarrow> (TaskDraft list \<times> string) dop" where
  "Drafts_List actor filt = (case decodeCursor (LF_Cursor filt) of
     Inl e \<Rightarrow> throw e
   | Inr before \<Rightarrow>
      (let limit = page_limit (LF_Limit filt) in
       bnd (map_err (\<lambda>_. DraftAppErr ErrCodeInternalError) (Draft_List
         \<lparr>DF_OwnerUserID = RA_ID actor, DF_TaskType = TrimSpace (LF_TaskType filt),
          DF_Limit = limit + 1, DF_Before = before\<rparr>)) (\<lambda>items.
       if int (length items) > limit
       then (let last = items ! (nat limit - 1) in
             ret (take (nat limit) items, encodeCursor (TD_UpdatedAt last) (TD_ID last)))
       else ret (items, []))))"

subsection \<open>The table invariant\<close>

definition dinv :: "ddb \<Rightarrow> bool" where
  "dinv d \<longleftrightarrow> 0 < next_draft d \<and> next_draft d \<le> 2 ^ 63 \<and> distinct (map TD_ID (task_drafts d)) \<and>
     list_all (\<lambda>r. 0 < TD_ID r \<and> TD_ID r < next_draft d \<and> datetime (TD_UpdatedAt r)) (task_drafts d)"

lemma dinv_rowD:
  "dinv d \<Longrightarrow> r \<in> set (task_drafts d) \<Longrightarrow>
   0 < TD_ID r \<and> TD_ID r < 2 ^ 63 \<and> TD_ID r < next_draft d \<and> datetime (TD_UpdatedAt r)"
  by (auto simp: dinv_def list_all_iff)

lemma cursor_roundtrip:
  assumes "0 < i" and "i < 2 ^ 63" and "datetime t"
  shows "decodeCursor (encodeCursor t i) = Inr (Some (t, i))"
proof -
  let ?c = "fmt_d (UnixMilli t) @ '':'' @ fmt_d i"
  have "Second dvd t" using assms(3) by (simp add: datetime_def mod_eq_0_iff_dvd)
  then have "1000000 dvd t" by (rule dvd_trans [rotated]) simp
  then have ms: "UnixMilli t * 1000000 = t" by (simp add: UnixMilli_def)
  have range: "- (2 ^ 63) \<le> UnixMilli t" "UnixMilli t < 2 ^ 63"
    using ms assms(3) unfolding datetime_def by simp_all
  have "encodeCursor t i \<noteq> []" by (simp add: encodeCursor_def)
  moreover have "TrimSpace (encodeCursor t i) = encodeCursor t i"
    by (simp only: encodeCursor_def TrimSpace_b64)
  moreover have "b64_decode (encodeCursor t i) = Some ?c"
    by (simp only: encodeCursor_def b64_roundtrip)
  moreover have "SplitN2 ?c (CHR '':'') = [fmt_d (UnixMilli t), fmt_d i]"
    using SplitN2_append [OF fmt_d_no_colon] by simp
  moreover have "ParseInt (fmt_d (UnixMilli t)) = Some (UnixMilli t)" "ParseInt (fmt_d i) = Some i"
    using ParseInt_fmt_d range assms by simp_all
  ultimately show ?thesis using assms(1) ms by (simp add: decodeCursor_def)
qed

subsection \<open>Pages\<close>

text \<open>A client that follows the cursors from the first page to the last; at most \<open>n\<close> requests.\<close>

fun read_pages :: "nat \<Rightarrow> RequestActor \<Rightarrow> string \<Rightarrow> int \<Rightarrow> string \<Rightarrow> ddb world \<Rightarrow> TaskDraft list option" where
  "read_pages 0 actor tt limit cursor w = None"
| "read_pages (Suc n) actor tt limit cursor w =
     (case Drafts_List actor \<lparr>LF_TaskType = tt, LF_Limit = limit, LF_Cursor = cursor\<rparr> w of
        (Inl e, w') \<Rightarrow> None
      | (Inr (items, nxt), w') \<Rightarrow>
          if nxt = [] then Some items
          else map_option (append items) (read_pages n actor tt limit nxt w'))"

definition listing :: "id \<Rightarrow> string \<Rightarrow> ddb \<Rightarrow> TaskDraft list" where
  "listing owner tt d = newest_first (filter (draft_selected owner tt) (task_drafts d))"

lemma newest_first_filter: "newest_first (filter P rs) = filter P (newest_first rs)"
  by (simp only: newest_first_def rev_filter [symmetric] filter_sort)

lemma before_cursor_Some:
  "0 < TD_ID x \<Longrightarrow> before_cursor (Some (draft_key x)) = (\<lambda>r. draft_key r < draft_key x)"
  by (auto simp: before_cursor_def draft_key_def fun_eq_iff)

lemma draft_selected_trim: "draft_selected owner (TrimSpace tt) = draft_selected owner tt"
  by (simp add: draft_selected_def fun_eq_iff)

text \<open>The keys of a listing fall strictly.\<close>

definition falling :: "TaskDraft list \<Rightarrow> bool" where
  "falling L \<longleftrightarrow> sorted_wrt (\<lambda>a b. draft_key b < draft_key a) L"

lemma falling_listing:
  assumes "dinv d"
  shows "falling (listing owner tt d)"
proof -
  let ?rs = "filter (draft_selected owner tt) (task_drafts d)"
  have "distinct (map draft_key ?rs)"
    using assms by (auto simp: dinv_def distinct_map inj_on_def draft_key_def)
  then have "sorted_wrt (<) (map draft_key (sort_key draft_key ?rs))"
    by (simp add: strict_sorted_iff distinct_map)
  then show ?thesis
    by (simp add: falling_def listing_def newest_first_def sorted_wrt_rev sorted_wrt_map)
qed

lemma falling_rest:
  assumes "falling (xs @ x # ys)"
  shows "filter (\<lambda>r. draft_key r < draft_key x) (xs @ x # ys) = ys"
  using assms by (auto simp: falling_def sorted_wrt_append filter_empty_conv not_less intro: less_imp_le)

lemma scan_key [simp]: "TD_UpdatedAt (scanTaskDraft r) = TD_UpdatedAt r" "TD_ID (scanTaskDraft r) = TD_ID r"
  "TD_OwnerUserID (scanTaskDraft r) = TD_OwnerUserID r"
  by (simp_all add: scanTaskDraft_def)

lemma Drafts_List_page:
  assumes nf: "faults w = []" and limit: "limit \<noteq> 50" and cur: "decodeCursor c = Inr before"
    and R: "R = filter (before_cursor before) (listing (RA_ID actor) tt (wdb w))"
    and k: "k = nat (page_limit limit)"
  shows "Drafts_List actor \<lparr>LF_TaskType = tt, LF_Limit = limit, LF_Cursor = c\<rparr> w =
    (Inr (if k < length R
          then (map scanTaskDraft (take k R), encodeCursor (TD_UpdatedAt (R ! (k - 1))) (TD_ID (R ! (k - 1))))
          else (map scanTaskDraft R, [])), w)"
proof -
  have k1: "0 < k" "page_limit limit = int k" "int k + 1 \<le> 50" using k limit by (auto simp: page_limit_def)
  have "newest_first (filter (\<lambda>r. draft_selected (RA_ID actor) tt r \<and> before_cursor before r)
      (task_drafts (wdb w))) = R"
    by (simp add: R listing_def newest_first_filter conj_commute)
  then have q: "Draft_List \<lparr>DF_OwnerUserID = RA_ID actor, DF_TaskType = TrimSpace tt,
      DF_Limit = page_limit limit + 1, DF_Before = before\<rparr> w = (Inr (map scanTaskDraft (take (Suc k) R)), w)"
    using nf k1 by (simp add: Draft_List_def query_nofault draft_selected_trim nat_add_distrib)
  have "map scanTaskDraft (take (Suc k) R) ! (k - 1) = scanTaskDraft (R ! (k - 1))" if "k < length R"
    using that k1(1) by simp
  moreover have "take k (map scanTaskDraft (take (Suc k) R)) = map scanTaskDraft (take k R)"
    by (simp add: take_map min_def)
  ultimately show ?thesis
    using q k1 cur by (simp add: Drafts_List_def act_simps Let_def)
qed

lemma read_pages_suffix:
  assumes inv: "dinv (wdb w)" and nf: "faults w = []" and limit: "limit \<noteq> 50"
  shows "length R < n \<Longrightarrow> decodeCursor c = Inr before \<Longrightarrow>
    filter (before_cursor before) (listing (RA_ID actor) tt (wdb w)) = R \<Longrightarrow>
    listing (RA_ID actor) tt (wdb w) = xs @ R \<Longrightarrow>
    read_pages n actor tt limit c w = Some (map scanTaskDraft R)"
proof (induction n arbitrary: R c before xs)
  case (Suc n)
  let ?L = "listing (RA_ID actor) tt (wdb w)" and ?k = "nat (page_limit limit)"
  have k: "0 < ?k" by (simp add: page_limit_def)
  note page = Drafts_List_page [OF nf limit Suc.prems(2) Suc.prems(3) [symmetric] refl]
  show ?case
  proof (cases "?k < length R")
    case False
    then show ?thesis by (simp add: page)
  next
    case True
    let ?x = "R ! (?k - 1)" and ?c = "encodeCursor (TD_UpdatedAt (R ! (?k - 1))) (TD_ID (R ! (?k - 1)))"
    have split: "?L = (xs @ take (?k - 1) R) @ ?x # drop ?k R"
      using True k Suc.prems(4) id_take_nth_drop [of "?k - 1" R] by simp
    have "?x \<in> set ?L" unfolding split by simp
    then have "?x \<in> set (task_drafts (wdb w))" by (auto simp: listing_def newest_first_def)
    note x = dinv_rowD [OF inv this]
    have dec: "decodeCursor ?c = Inr (Some (draft_key ?x))"
      using cursor_roundtrip x by (simp add: draft_key_def)
    have "filter (\<lambda>r. draft_key r < draft_key ?x) ?L = drop ?k R"
      using falling_rest falling_listing [OF inv] split by metis
    then have rest: "filter (before_cursor (Some (draft_key ?x))) ?L = drop ?k R"
      using x before_cursor_Some by metis
    have "read_pages n actor tt limit ?c w = Some (map scanTaskDraft (drop ?k R))"
      by (rule Suc.IH [OF _ dec rest, of "xs @ take ?k R"]) (use Suc.prems k True in auto)
    moreover have "?c \<noteq> []" by (simp add: encodeCursor_def)
    ultimately show ?thesis using True by (simp add: page flip: map_append)
  qed
qed simp

text \<open>
  (C22) Following the cursors from the first page yields every draft of the actor (of the task type
  asked for) exactly once and newest first, for every page size but 50, with one request more than
  there are drafts at most: a cursor is decoded to the position it was made from.
\<close>

theorem pages_cover_listing:
  assumes "dinv (wdb w)" and "faults w = []" and "limit \<noteq> 50"
    and "length (listing (RA_ID actor) tt (wdb w)) < n"
  shows "read_pages n actor tt limit [] w = Some (map scanTaskDraft (listing (RA_ID actor) tt (wdb w)))"
proof -
  have "decodeCursor [] = Inr None" by (simp add: decodeCursor_def)
  then show ?thesis
    using read_pages_suffix [OF assms(1-3), of _ n "[]" None actor tt "[]"] assms(4)
    by (simp add: before_cursor_def)
qed

text \<open>With page size 50 the repository replaces the limit of 51 by 20, and no cursor is returned.\<close>

lemma page_of_50_truncated:
  assumes "faults w = []"
  shows "Drafts_List actor \<lparr>LF_TaskType = tt, LF_Limit = 50, LF_Cursor = []\<rparr> w =
    (Inr (map scanTaskDraft (take 20 (listing (RA_ID actor) tt (wdb w))), []), w)"
  using assms
  by (simp add: Drafts_List_def decodeCursor_def Draft_List_def act_simps before_cursor_def page_limit_def
      draft_selected_trim listing_def)

subsection \<open>Saving\<close>

definition draft_row :: "ddb \<Rightarrow> id \<Rightarrow> TaskDraft option" where
  "draft_row d i = List.find (\<lambda>r. TD_ID r = i) (task_drafts d)"

text \<open>The two effects of creating a draft: the oldest one gives way, the new row is appended.\<close>

definition make_room :: "id \<Rightarrow> string \<Rightarrow> ddb \<Rightarrow> ddb" where
  "make_room owner tt d =
     (if length (filter (of_owner_type owner tt) (task_drafts d)) \<ge> 20
      then case oldest (filter (of_owner_type owner tt) (task_drafts d)) of
             None \<Rightarrow> d
           | Some x \<Rightarrow> d\<lparr>task_drafts := filter (\<lambda>r. TD_ID r \<noteq> TD_ID x) (task_drafts d)\<rparr>
      else d)"

definition stored_draft :: "time \<Rightarrow> TaskDraft \<Rightarrow> string \<Rightarrow> id \<Rightarrow> TaskDraft" where
  "stored_draft srv draft p i = draft\<lparr>TD_ID := i, TD_Payload := p, TD_ExpiresAt := dt (TD_ExpiresAt draft),
     TD_CreatedAt := dt_now srv, TD_UpdatedAt := dt_now srv\<rparr>"

definition add_draft :: "TaskDraft \<Rightarrow> ddb \<Rightarrow> ddb" where
  "add_draft r d = d\<lparr>next_draft := next_draft d + 1, task_drafts := task_drafts d @ [r]\<rparr>"

lemma GetForUpdate_triple:
  "triple (\<lambda>d. d = d0) (Draft_GetForUpdate i)
     (\<lambda>td d. d = d0 \<and> (\<exists>r. draft_row d0 i = Some r \<and> td = scanTaskDraft r))"
  unfolding Draft_GetForUpdate_def
  by (rule triple_bnd [where R = "\<lambda>x d. d = d0 \<and> x = draft_row d0 i"])
    (auto dest: query_success simp: draft_row_def triple_def split: option.splits)

lemma make_room_next: "next_draft (make_room owner tt d) = next_draft d"
  by (simp add: make_room_def split: option.splits)

lemma set_make_room: "set (task_drafts (make_room owner tt d)) \<subseteq> set (task_drafts d)"
  by (auto simp: make_room_def split: option.splits)

lemma find_new:
  assumes "dinv d"
  shows "draft_row (add_draft (stored_draft srv draft p (next_draft d)) (make_room owner tt d)) (next_draft d) =
    Some (stored_draft srv draft p (next_draft d))"
proof -
  have "List.find (\<lambda>r. TD_ID r = next_draft d) (task_drafts (make_room owner tt d)) = None"
    using assms set_make_room [of owner tt d] by (auto simp: find_None_iff dest!: dinv_rowD)
  then show ?thesis by (simp add: draft_row_def add_draft_def find_append stored_draft_def)
qed

lemma CreateDraft_triple:
  assumes "dinv d0" and "TD_Payload draft \<noteq> []"
  shows "triple (\<lambda>d. d = d0) (CreateDraft_tx Jn srv draft)
    (\<lambda>td d. \<exists>p. Jn (TD_Payload draft) = Some p \<and> next_draft d0 < 2 ^ 63 \<and>
       td = scanTaskDraft (stored_draft srv draft p (next_draft d0)) \<and>
       d = add_draft (stored_draft srv draft p (next_draft d0))
             (make_room (TD_OwnerUserID draft) (TD_TaskType draft) d0))"
proof -
  let ?o = "TD_OwnerUserID draft" and ?t = "TD_TaskType draft"
  let ?room = "make_room ?o ?t d0" and ?new = "\<lambda>p. stored_draft srv draft p (next_draft d0)"
  have room: "triple (\<lambda>d. d = d0 \<and> c = length (filter (of_owner_type ?o ?t) (task_drafts d0)))
      (if c \<ge> 20 then DeleteOldestByOwnerAndType ?o ?t else ret ()) (\<lambda>_ d. d = ?room)" for c
    by (auto simp: triple_def DeleteOldestByOwnerAndType_def make_room_def dest!: exec_success split: option.splits)
  have ins: "triple (\<lambda>d. d = ?room) (Draft_insert Jn srv draft)
      (\<lambda>i d. \<exists>p. Jn (TD_Payload draft) = Some p \<and> i = next_draft d0 \<and> next_draft d0 < 2 ^ 63 \<and>
         d = add_draft (?new p) ?room)"
    unfolding Draft_insert_def using assms(2)
    by (intro triple_stmt)
      (auto simp: jsonOrObject_def add_draft_def stored_draft_def make_room_next split: option.splits if_splits)
  have get: "triple (\<lambda>d. \<exists>p. Jn (TD_Payload draft) = Some p \<and> i = next_draft d0 \<and> next_draft d0 < 2 ^ 63 \<and>
         d = add_draft (?new p) ?room) (Draft_GetForUpdate i)
      (\<lambda>td d. \<exists>p. Jn (TD_Payload draft) = Some p \<and> next_draft d0 < 2 ^ 63 \<and>
         td = scanTaskDraft (?new p) \<and> d = add_draft (?new p) ?room)" for i
    using tripleD [OF GetForUpdate_triple] find_new [OF assms(1)] unfolding triple_def by fastforce
  show ?thesis
    unfolding CreateDraft_tx_def CountByOwnerAndType_def Draft_Create_def
    by (rule triple_bnd [where R = "\<lambda>c d. d = d0 \<and> c = length (filter (of_owner_type ?o ?t) (task_drafts d0))"])
      (blast intro: triple_query room ins get triple_bnd)+
qed

definition hits :: "TaskDraft \<Rightarrow> TaskDraft \<Rightarrow> bool" where
  "hits draft r \<longleftrightarrow> TD_ID r = TD_ID draft \<and> TD_OwnerUserID r = TD_OwnerUserID draft"

definition rewrite_draft :: "time \<Rightarrow> TaskDraft \<Rightarrow> string \<Rightarrow> ddb \<Rightarrow> ddb" where
  "rewrite_draft srv draft p d = d\<lparr>task_drafts := row_upd (hits draft) (draft_cols srv draft p) (task_drafts d)\<rparr>"

lemma draft_cols_key [simp]:
  "TD_ID (draft_cols srv draft p r) = TD_ID r" "TD_OwnerUserID (draft_cols srv draft p r) = TD_OwnerUserID r"
  by (simp_all add: draft_cols_def)

lemma draft_row_rewrite:
  assumes "draft_row d (TD_ID draft) = Some r" and "TD_OwnerUserID r = TD_OwnerUserID draft"
  shows "draft_row (rewrite_draft srv draft p d) (TD_ID draft) = Some (draft_cols srv draft p r)"
  using assms by (auto simp: draft_row_def rewrite_draft_def find_row_upd hits_def dest: find_SomeD)

lemma Draft_Update_triple:
  assumes "draft_row d0 (TD_ID draft) = Some r" and "TD_OwnerUserID r = TD_OwnerUserID draft"
    and "TD_Payload draft \<noteq> []"
  shows "triple (\<lambda>d. d = d0) (Draft_Update Jn srv draft)
    (\<lambda>td d. \<exists>p. Jn (TD_Payload draft) = Some p \<and> td = scanTaskDraft (draft_cols srv draft p r) \<and>
       d = rewrite_draft srv draft p d0)"
proof -
  have upd: "triple (\<lambda>d. d = d0) (Draft_update_rows Jn srv draft)
      (\<lambda>n d. \<exists>p. Jn (TD_Payload draft) = Some p \<and> d = rewrite_draft srv draft p d0)"
    unfolding Draft_update_rows_def using assms(3)
    by (intro triple_stmt)
      (auto simp: jsonOrObject_def rewrite_draft_def hits_def [abs_def] Let_def split: option.splits)
  have get: "triple (\<lambda>d. \<exists>p. Jn (TD_Payload draft) = Some p \<and> d = rewrite_draft srv draft p d0)
      (Draft_GetForUpdate (TD_ID draft))
      (\<lambda>td d. \<exists>p. Jn (TD_Payload draft) = Some p \<and> td = scanTaskDraft (draft_cols srv draft p r) \<and>
         d = rewrite_draft srv draft p d0)"
    using tripleD [OF GetForUpdate_triple] draft_row_rewrite [OF assms(1,2)] unfolding triple_def by fastforce
  show ?thesis unfolding Draft_Update_def
    by (rule triple_bnd [OF upd]) (simp add: get triple_throw)
qed

lemma UpdateDraft_triple:
  assumes "TD_Payload draft \<noteq> []"
  shows "triple (\<lambda>d. d = d0) (UpdateDraft_tx Jn srv draft)
    (\<lambda>td d. \<exists>p r. Jn (TD_Payload draft) = Some p \<and> draft_row d0 (TD_ID draft) = Some r \<and>
       TD_OwnerUserID r = TD_OwnerUserID draft \<and> td = scanTaskDraft (draft_cols srv draft p r) \<and>
       d = rewrite_draft srv draft p d0)"
  unfolding UpdateDraft_tx_def
proof (rule triple_bnd [OF GetForUpdate_triple])
  fix current
  show "triple (\<lambda>d. d = d0 \<and> (\<exists>r. draft_row d0 (TD_ID draft) = Some r \<and> current = scanTaskDraft r))
     (if TD_OwnerUserID current \<noteq> TD_OwnerUserID draft then throw errDraftNotOwner
      else Draft_Update Jn srv draft)
     (\<lambda>td d. \<exists>p r. Jn (TD_Payload draft) = Some p \<and> draft_row d0 (TD_ID draft) = Some r \<and>
       TD_OwnerUserID r = TD_OwnerUserID draft \<and> td = scanTaskDraft (draft_cols srv draft p r) \<and>
       d = rewrite_draft srv draft p d0)"
    using Draft_Update_triple [OF _ _ assms] by (fastforce simp: triple_def)
qed

text \<open>What saving leaves alone, and how many drafts there are afterwards.\<close>

abbreviation others :: "id \<Rightarrow> ddb \<Rightarrow> TaskDraft list" where
  "others owner d \<equiv> filter (\<lambda>r. TD_OwnerUserID r \<noteq> owner) (task_drafts d)"

abbreviation own_count :: "id \<Rightarrow> string \<Rightarrow> ddb \<Rightarrow> nat" where
  "own_count owner tt d \<equiv> length (filter (of_owner_type owner tt) (task_drafts d))"

lemma oldest_mem: "oldest rs = Some x \<Longrightarrow> x \<in> set rs"
  by (auto simp: oldest_def split: list.splits dest: arg_cong [where f = set])

lemma oldest_None: "oldest rs = None \<longleftrightarrow> rs = []"
  by (auto simp: oldest_def split: list.splits dest: arg_cong [where f = set])

lemma filter_one_out:
  "distinct (map k xs) \<Longrightarrow> x \<in> set xs \<Longrightarrow> P x \<Longrightarrow>
   length (filter P xs) = Suc (length (filter P (filter (\<lambda>r. k r \<noteq> k x) xs)))"
proof (induction xs)
  case (Cons y ys)
  show ?case
  proof (cases "y = x")
    case True
    then have "\<forall>r \<in> set ys. k r \<noteq> k x" using Cons.prems(1) by (auto simp: image_iff)
    then have "filter (\<lambda>r. k r \<noteq> k x) ys = ys" by simp
    then show ?thesis using True Cons.prems by simp
  next
    case False
    then have "k y \<noteq> k x" using Cons.prems by auto
    then show ?thesis using Cons False by auto
  qed
qed simp

lemma make_room_others:
  assumes "dinv d"
  shows "others owner (make_room owner tt d) = others owner d"
proof -
  have "others owner (d\<lparr>task_drafts := filter (\<lambda>r. TD_ID r \<noteq> TD_ID x) (task_drafts d)\<rparr>) = others owner d"
    if "x \<in> set (task_drafts d)" "TD_OwnerUserID x = owner" for x
    using that assms distinct_key_eq [of TD_ID "task_drafts d"]
    by (auto simp: dinv_def intro!: filter_cong)
  then show ?thesis by (auto simp: make_room_def of_owner_type_def dest: oldest_mem split: option.splits)
qed

lemma make_room_count:
  assumes "dinv d"
  shows "own_count owner tt (make_room owner tt d) < max 20 (own_count owner tt d)"
proof (cases "own_count owner tt d \<ge> 20")
  case True
  then obtain x where x: "oldest (filter (of_owner_type owner tt) (task_drafts d)) = Some x"
    using oldest_None by (metis length_0_conv not_None_eq not_numeral_le_zero)
  then have "x \<in> set (task_drafts d)" "of_owner_type owner tt x" by (auto dest: oldest_mem)
  then have "own_count owner tt d = Suc (own_count owner tt (make_room owner tt d))"
    using filter_one_out [of TD_ID "task_drafts d" x "of_owner_type owner tt"] assms True x
    by (simp add: make_room_def dinv_def)
  then show ?thesis by simp
qed (simp add: make_room_def)

definition request_draft :: "(string \<Rightarrow> int option) \<Rightarrow> time \<Rightarrow> RequestActor \<Rightarrow> string \<Rightarrow> TaskDraft" where
  "request_draft asFloat now actor raw =
     (let tt = snd (parseDraftPayload asFloat raw) in
      new_draft (fst (parseDraftPayload asFloat raw)) (RA_ID actor) (if tt = [] then defaultTaskType else tt)
        raw (now + draft_lifetime))"

lemma request_draft_fields:
  "TD_Payload (request_draft asFloat now actor raw) = raw"
  "TD_OwnerUserID (request_draft asFloat now actor raw) = RA_ID actor"
  "TD_ExpiresAt (request_draft asFloat now actor raw) = now + draft_lifetime"
  "TD_ID (request_draft asFloat now actor raw) = fst (parseDraftPayload asFloat raw)"
  by (simp_all add: request_draft_def new_draft_def Let_def)

lemma CreateOrUpdate_alt:
  "CreateOrUpdate asFloat Jn now srv actor raw =
     (if \<not> json_Valid raw \<or> raw = [] then throw (DraftAppErr ErrCodeInvalidRequest)
      else map_err draft_tx_err (RunInTx
        (if fst (parseDraftPayload asFloat raw) > 0 then UpdateDraft_tx Jn srv (request_draft asFloat now actor raw)
         else CreateDraft_tx Jn srv (request_draft asFloat now actor raw))))"
  by (simp add: CreateOrUpdate_def request_draft_def Let_def split: prod.splits)

lemma CreateOrUpdate_success:
  assumes inv: "dinv (wdb w)" and run: "CreateOrUpdate asFloat Jn now srv actor raw w = (Inr td, w')"
    and draft: "draft = request_draft asFloat now actor raw"
  obtains (updated) p r where "json_Valid raw" "Jn raw = Some p" "TD_ID draft > 0"
      "draft_row (wdb w) (TD_ID draft) = Some r" "TD_OwnerUserID r = TD_OwnerUserID draft"
      "td = scanTaskDraft (draft_cols srv draft p r)" "wdb w' = rewrite_draft srv draft p (wdb w)"
  | (created) p where "json_Valid raw" "Jn raw = Some p" "TD_ID draft \<le> 0"
      "td = scanTaskDraft (stored_draft srv draft p (next_draft (wdb w)))"
      "wdb w' = add_draft (stored_draft srv draft p (next_draft (wdb w)))
         (make_room (RA_ID actor) (TD_TaskType draft) (wdb w))" "next_draft (wdb w) < 2 ^ 63"
proof -
  have raw: "json_Valid raw" "raw \<noteq> []"
    using run by (auto simp: CreateOrUpdate_def throw_def split: if_splits)
  have fields: "TD_Payload draft = raw" "TD_Payload draft \<noteq> []" "TD_OwnerUserID draft = RA_ID actor"
    "fst (parseDraftPayload asFloat raw) = TD_ID draft"
    using raw by (simp_all add: draft request_draft_fields)
  have "RunInTx (if TD_ID draft > 0 then UpdateDraft_tx Jn srv draft else CreateDraft_tx Jn srv draft) w = (Inr td, w')"
    using run raw fields(4) by (simp only: CreateOrUpdate_alt flip: draft) (simp add: map_err_eq_Inr)
  then obtain w1 w2 where w1: "wdb w1 = wdb w" and w2: "wdb w' = wdb w2" and
    body: "(if TD_ID draft > 0 then UpdateDraft_tx Jn srv draft else CreateDraft_tx Jn srv draft) w1 = (Inr td, w2)"
    by (auto dest!: RunInTx_success)
  show ?thesis
  proof (cases "TD_ID draft > 0")
    case True
    then show ?thesis
      using tripleD [OF UpdateDraft_triple [OF fields(2)] refl, of Jn srv w1 td w2] body w1 w2 fields raw updated
      by auto
  next
    case False
    then show ?thesis
      using tripleD [OF CreateDraft_triple [OF inv fields(2)], of w1 Jn srv td w2] body w1 w2 fields raw created
      by auto
  qed
qed

lemma Drafts_Get_row:
  "draft_row d (TD_ID r) = Some r \<Longrightarrow> TD_OwnerUserID r = RA_ID actor \<Longrightarrow>
   fst (Drafts_Get actor (TD_ID (scanTaskDraft r)) \<lparr>wdb = d, faults = []\<rparr>) = Inr (scanTaskDraft r)"
  by (simp add: Drafts_Get_def Draft_Get_def act_simps draft_row_def [symmetric] ret_def)

text \<open>
  Saving a draft, under any failures, fails and changes nothing, or stores the document the
  request sent: the draft returned belongs to the actor, expires in seven days and is what reading
  it back returns; the drafts of other users are untouched, and a new draft does not take the actor
  above twenty drafts of the type (or above the number there was).
\<close>

theorem save_draft_outcome:
  assumes inv: "dinv (wdb w)" and run: "CreateOrUpdate asFloat Jn now srv actor raw w = (res, w')"
  shows "(\<exists>e. res = Inl e) \<and> wdb w' = wdb w \<or>
    (\<exists>td p. res = Inr td \<and> json_Valid raw \<and> Jn raw = Some p \<and> TD_OwnerUserID td = RA_ID actor \<and>
       TD_Payload td = (if json_Valid p then p else ''{}'') \<and> TD_ExpiresAt td = dt (now + draft_lifetime) \<and>
       fst (Drafts_Get actor (TD_ID td) \<lparr>wdb = wdb w', faults = []\<rparr>) = Inr td \<and>
       others (RA_ID actor) (wdb w') = others (RA_ID actor) (wdb w) \<and>
       (fst (parseDraftPayload asFloat raw) \<le> 0 \<longrightarrow>
        own_count (RA_ID actor) (TD_TaskType td) (wdb w') \<le>
        max 20 (own_count (RA_ID actor) (TD_TaskType td) (wdb w))))"
proof (cases res)
  case (Inl e)
  then show ?thesis using run
    by (auto simp: CreateOrUpdate_alt map_err_def throw_def dest: RunInTx_failure
        split: if_splits prod.splits sum.splits)
next
  case (Inr td)
  define draft where "draft = request_draft asFloat now actor raw"
  note fields = request_draft_fields [of asFloat now actor raw, folded draft_def]
  from inv run [unfolded Inr] draft_def show ?thesis
  proof (cases rule: CreateOrUpdate_success)
    case (updated p r)
    have r: "TD_ID r = TD_ID draft" using updated(4) by (auto simp: draft_row_def dest: find_SomeD)
    have "others (RA_ID actor) (wdb w') = others (RA_ID actor) (wdb w)"
      unfolding updated(7) rewrite_draft_def using fields
      by (simp add: filter_row_upd) (rule row_upd_none, simp add: hits_def)
    moreover have "fst (Drafts_Get actor (TD_ID td) \<lparr>wdb = wdb w', faults = []\<rparr>) = Inr td"
      unfolding updated(6) using draft_row_rewrite [OF updated(4,5)] updated fields r
      by (intro Drafts_Get_row) simp_all
    ultimately show ?thesis using updated fields Inr by (auto simp: scanTaskDraft_def draft_cols_def)
  next
    case (created p)
    let ?r = "stored_draft srv draft p (next_draft (wdb w))"
    have "others (RA_ID actor) (wdb w') = others (RA_ID actor) (wdb w)"
      unfolding created(5) using make_room_others [OF inv] fields by (simp add: add_draft_def stored_draft_def)
    moreover have "fst (Drafts_Get actor (TD_ID td) \<lparr>wdb = wdb w', faults = []\<rparr>) = Inr td"
      unfolding created(4,5) using find_new [OF inv, of srv draft p] fields(2)
      by (intro Drafts_Get_row) (simp_all add: stored_draft_def)
    moreover have "own_count (RA_ID actor) (TD_TaskType draft) (wdb w') \<le>
        max 20 (own_count (RA_ID actor) (TD_TaskType draft) (wdb w))"
      unfolding created(5) using make_room_count [OF inv, of "RA_ID actor" "TD_TaskType draft"]
      by (simp add: add_draft_def)
    ultimately show ?thesis using created fields Inr by (auto simp: scanTaskDraft_def stored_draft_def)
  qed
qed

subsection \<open>The invariant is kept\<close>

lemma dinv_filter: "dinv d \<Longrightarrow> dinv (d\<lparr>task_drafts := filter P (task_drafts d)\<rparr>)"
  by (auto simp: dinv_def list_all_iff distinct_map_filter)

lemma dinv_make_room: "dinv d \<Longrightarrow> dinv (make_room owner tt d)"
  by (auto simp: make_room_def intro: dinv_filter split: option.splits)

lemma dinv_save:
  assumes inv: "dinv (wdb w)" and clock: "datetime (dt_now srv)"
    and run: "CreateOrUpdate asFloat Jn now srv actor raw w = (res, w')"
  shows "dinv (wdb w')"
proof (cases res)
  case (Inl e)
  then have "wdb w' = wdb w" using run
    by (auto simp: CreateOrUpdate_alt map_err_def throw_def dest: RunInTx_failure
        split: if_splits prod.splits sum.splits)
  then show ?thesis using inv by simp
next
  case (Inr td)
  from inv run [unfolded Inr] refl show ?thesis
  proof (cases rule: CreateOrUpdate_success)
    case (updated p r)
    show ?thesis unfolding updated(7) rewrite_draft_def using inv clock
      by (auto simp: dinv_def map_row_upd list_all_iff draft_cols_def dest!: set_row_updD)
  next
    case (created p)
    have "dinv (make_room (RA_ID actor) (TD_TaskType (request_draft asFloat now actor raw)) (wdb w))"
      using inv by (rule dinv_make_room)
    then show ?thesis unfolding created(5) using clock created(6)
      by (auto simp: dinv_def add_draft_def stored_draft_def make_room_next list_all_iff)
  qed
qed

subsection \<open>Reading and deleting\<close>

lemma Draft_Get_keeps: "wdb (snd (Draft_Get i w)) = wdb w"
proof -
  have "keeps (\<lambda>d. d = wdb w) (Draft_Get i)"
    unfolding Draft_Get_def by (intro keeps_bnd keeps_query) (auto split: option.split)
  then show ?thesis by (simp add: keeps_def)
qed

lemma Draft_Get_found:
  "Draft_Get i w = (Inr x, w') \<Longrightarrow> \<exists>r. draft_row (wdb w) i = Some r \<and> x = scanTaskDraft r"
  by (force simp: Draft_Get_def bnd_eq_Inr draft_row_def dest!: query_success split: option.splits)

lemma recordDenied_drafts: "task_drafts (wdb (snd (recordDenied now actor i w))) = task_drafts (wdb w)"
  by (simp add: recordDenied_def ignore_err_def PermissionLog_Create_def exec_def stmt_def split: list.splits bool.splits)

text \<open>A deletion removes the actor's own draft, or leaves the table of drafts as it was.\<close>

lemma delete_draft_outcome:
  assumes run: "Drafts_Delete now actor i w = (res, w')"
  shows "(\<exists>e. res = Inl e) \<and> task_drafts (wdb w') = task_drafts (wdb w) \<or>
    res = Inr () \<and> pred_option (\<lambda>r. TD_OwnerUserID r = RA_ID actor) (draft_row (wdb w) i) \<and>
    task_drafts (wdb w') = filter (\<lambda>r. TD_ID r \<noteq> i) (task_drafts (wdb w))"
proof (cases "Draft_Get i w")
  case (Pair x w1)
  have w1: "wdb w1 = wdb w" using Draft_Get_keeps [of i w] Pair by simp
  show ?thesis
  proof (cases x)
    case (Inl e)
    then show ?thesis using run Pair w1 by (auto simp: Drafts_Delete_def bnd_def map_err_def)
  next
    case (Inr y)
    then obtain r where r: "draft_row (wdb w) i = Some r" "y = scanTaskDraft r"
      using Draft_Get_found Pair by blast
    show ?thesis
    proof (cases "TD_OwnerUserID r = RA_ID actor")
      case False
      then have "w' = snd (recordDenied now actor i w1) \<and> res = Inl CodeDraftNotOwner"
        using run Pair Inr r by (auto simp: Drafts_Delete_def act_simps bnd_def recordDenied_def ignore_err_def throw_def)
      then show ?thesis using recordDenied_drafts w1 by simp
    next
      case True
      then have "map_err (\<lambda>_. DraftAppErr ErrCodeInternalError) (RunInTx (Draft_Delete i)) w1 = (res, w')"
        using run Pair Inr r by (simp add: Drafts_Delete_def act_simps)
      then show ?thesis using r True w1
        by (cases res)
          (auto simp: map_err_def Draft_Delete_def split: prod.splits sum.splits
            dest!: RunInTx_failure RunInTx_success exec_success)
    qed
  qed
qed

text \<open>
  An UPDATE that changes no value is reported as a missing draft: saving the same form twice within
  one second of both clocks answers ``not found'' the second time.
\<close>

lemma resave_not_found:
  assumes nf: "faults w = []" and inv: "dinv (wdb w)" and raw: "json_Valid raw" "raw \<noteq> []"
    and draft: "draft = request_draft asFloat now actor raw" and pos: "TD_ID draft > 0"
    and row: "draft_row (wdb w) (TD_ID draft) = Some r" "TD_OwnerUserID r = RA_ID actor"
    and same: "Jn raw = Some (TD_Payload r)" "draft_cols srv draft (TD_Payload r) r = r"
  shows "CreateOrUpdate asFloat Jn now srv actor raw w = (Inl (DraftAppErr ErrCodeNotFound), w)"
proof -
  have f: "TD_Payload draft = raw" "TD_OwnerUserID draft = RA_ID actor"
    "TD_ID draft = fst (parseDraftPayload asFloat raw)"
    by (simp_all add: draft request_draft_fields)
  have one: "r' = r" if "r' \<in> set (task_drafts (wdb w))" "TD_ID r' = TD_ID draft" for r'
    using that row(1) inv distinct_key_eq [of TD_ID "task_drafts (wdb w)" r' r]
    by (auto simp: draft_row_def dinv_def dest!: find_SomeD)
  have "filter (\<lambda>r'. (TD_ID r' = TD_ID draft \<and> TD_OwnerUserID r' = RA_ID actor) \<and>
      draft_cols srv draft (TD_Payload r) r' \<noteq> r') (task_drafts (wdb w)) = []"
    using one same(2) by (auto simp: filter_empty_conv)
  then have "\<exists>d. UpdateDraft_tx Jn srv draft w = (Inl sql_ErrNoRows, w\<lparr>wdb := d\<rparr>)"
    using nf row same raw f
    by (auto simp: UpdateDraft_tx_def Draft_GetForUpdate_def act_simps draft_row_def Draft_Update_def
        Draft_update_rows_def jsonOrObject_def Let_def)
  then show ?thesis
    using nf raw pos f by (auto simp: CreateOrUpdate_alt draft [symmetric] act_simps draft_tx_err_def)
qed

subsection \<open>A run\<close>

definition demo_draft :: "id \<Rightarrow> time \<Rightarrow> TaskDraft" where
  "demo_draft i t = \<lparr>TD_ID = i, TD_OwnerUserID = 7, TD_TaskType = ''retouch_task'', TD_Payload = ''{}'',
     TD_ExpiresAt = t, TD_CreatedAt = t, TD_UpdatedAt = t\<rparr>"

definition demo_ddb :: ddb where
  "demo_ddb = \<lparr>task_drafts = [demo_draft 1 (3 * Second), demo_draft 2 (2 * Second), demo_draft 3 (3 * Second)],
     next_draft = 4, draft_logs = []\<rparr>"

lemma demo_dinv: "dinv demo_ddb"
  by (simp add: dinv_def demo_ddb_def demo_draft_def datetime_def)

lemma demo_listing: "listing 7 [] demo_ddb =
  [demo_draft 3 (3 * Second), demo_draft 1 (3 * Second), demo_draft 2 (2 * Second)]"
  by (simp add: listing_def newest_first_def demo_ddb_def draft_selected_def demo_draft_def draft_key_def)

lemma demo_scan: "scanTaskDraft (demo_draft i t) = demo_draft i t"
proof -
  have "json_Valid ''{}''" by code_simp
  then show ?thesis by (simp add: scanTaskDraft_def demo_draft_def)
qed

theorem pages_cover_listing_witness:
  "read_pages 4 (demo_actor 7 [] []) [] 1 [] \<lparr>wdb = demo_ddb, faults = []\<rparr> =
   Some [demo_draft 3 (3 * Second), demo_draft 1 (3 * Second), demo_draft 2 (2 * Second)]"
proof -
  have a: "RA_ID (demo_actor 7 [] []) = 7" by (simp add: demo_actor_def)
  have "length (listing (RA_ID (demo_actor 7 [] [])) [] (wdb \<lparr>wdb = demo_ddb, faults = []\<rparr>)) < 4"
    by (simp add: a demo_listing)
  from pages_cover_listing [OF _ _ _ this, of 1] show ?thesis
    by (simp add: demo_dinv a demo_listing demo_scan)
qed

lemma demo_payload: "json_Valid ''{}''" "parseDraftPayload (\<lambda>_. None) ''{}'' = (0, [])"
  by code_simp+

lemma demo_save:
  "\<exists>w'. CreateOrUpdate (\<lambda>_. None) Some 5 5 (demo_actor 7 [] []) ''{}'' \<lparr>wdb = demo_ddb, faults = []\<rparr> =
     (Inr (stored_draft 5 (new_draft 0 7 defaultTaskType ''{}'' (5 + draft_lifetime)) ''{}'' 4), w')"
proof -
  let ?new = "new_draft 0 7 defaultTaskType ''{}'' (5 + draft_lifetime)"
  have c: "filter (of_owner_type 7 defaultTaskType) (task_drafts demo_ddb) = []"
    by (simp add: demo_ddb_def demo_draft_def of_owner_type_def ci_eq_def ci_key_def to_lower_def)
  have "Draft_GetForUpdate 4 \<lparr>wdb = add_draft (stored_draft 5 ?new ''{}'' 4) demo_ddb, faults = []\<rparr> =
      (Inr (stored_draft 5 ?new ''{}'' 4), \<lparr>wdb = add_draft (stored_draft 5 ?new ''{}'' 4) demo_ddb, faults = []\<rparr>)"
    by (simp add: Draft_GetForUpdate_def act_simps add_draft_def stored_draft_def demo_ddb_def demo_draft_def
        scanTaskDraft_def demo_payload new_draft_def)
  then have "CreateDraft_tx Some 5 ?new \<lparr>wdb = demo_ddb, faults = []\<rparr> =
      (Inr (stored_draft 5 ?new ''{}'' 4), \<lparr>wdb = add_draft (stored_draft 5 ?new ''{}'' 4) demo_ddb, faults = []\<rparr>)"
    by (simp add: CreateDraft_tx_def CountByOwnerAndType_def act_simps c Draft_Create_def Draft_insert_def
        jsonOrObject_def add_draft_def stored_draft_def new_draft_def demo_ddb_def)
  then show ?thesis
    by (simp add: CreateOrUpdate_def demo_payload act_simps demo_actor_def Let_def)
qed

theorem save_draft_outcome_witness:
  "\<exists>td w'. CreateOrUpdate (\<lambda>_. None) Some 5 5 (demo_actor 7 [] []) ''{}'' \<lparr>wdb = demo_ddb, faults = []\<rparr> =
     (Inr td, w') \<and>
     fst (Drafts_Get (demo_actor 7 [] []) (TD_ID td) \<lparr>wdb = wdb w', faults = []\<rparr>) = Inr td"
proof -
  obtain td w' where run: "CreateOrUpdate (\<lambda>_. None) Some 5 5 (demo_actor 7 [] []) ''{}''
      \<lparr>wdb = demo_ddb, faults = []\<rparr> = (Inr td, w')"
    using demo_save by blast
  have "dinv (wdb \<lparr>wdb = demo_ddb, faults = []\<rparr>)" by (simp add: demo_dinv)
  from save_draft_outcome [OF this run] run show ?thesis by auto
qed

end
