(* ===== verification/Org_Move.thy ===== *)
theory Org_Move
  imports Go_Format Kernel_Domain Identity_Domain
begin

section \<open>Moves between departments\<close>

text \<open>
  \<^verbatim>\<open>src/service/org_move_request/service.go\<close> and \<^verbatim>\<open>src/repo/mysql/org_move_request_repo.go\<close>: a
  department administrator asks for a user to be moved, a super administrator approves or rejects.
  The request row is the arbiter: a decision is a compare-and-set on its state inside the
  transaction that also moves the user and writes the permission log. Request and user are read
  before the transaction, so the transaction bodies (\<open>Approve_tx\<close>, \<open>Reject_tx\<close>) take what was read as
  arguments.

  Department names are joined under \<^verbatim>\<open>utf8mb4_0900_ai_ci\<close> (no case), the request's own columns are
  \<^verbatim>\<open>utf8mb4_unicode_ci\<close> (\<open>ci_eq\<close>). An error is its code and the deny code of its details.
\<close>

subsection \<open>Data\<close>

abbreviation "StatePending \<equiv> ''pending_super_admin_confirm''"
abbreviation "StateApproved \<equiv> ''approved''"
abbreviation "StateRejected \<equiv> ''rejected''"


definition OrgMoveRequestState_Valid :: "string \<Rightarrow> bool" where
  "OrgMoveRequestState_Valid s \<longleftrightarrow> s = [] \<or> s = StatePending \<or> s = StateApproved \<or> s = StateRejected"

text \<open>Action types, routes and the separator that the permission log names.\<close>

definition PermissionActionOrgMoveRequested :: string where
  "PermissionActionOrgMoveRequested = ''org_move_requested''"

definition PermissionActionOrgMoveApproved :: string where
  "PermissionActionOrgMoveApproved = ''org_move_approved''"

definition PermissionActionOrgMoveRejected :: string where
  "PermissionActionOrgMoveRejected = ''org_move_rejected''"

definition PermissionActionUserDepartmentChangedByAdmin :: string where
  "PermissionActionUserDepartmentChangedByAdmin = ''user_department_changed_by_admin''"

definition route_request :: string where
  "route_request = ''/v1/departments/:id/org-move-requests''"

definition route_approve :: string where
  "route_approve = ''/v1/org-move-requests/:id/approve''"

definition route_reject :: string where
  "route_reject = ''/v1/org-move-requests/:id/reject''"

definition arrow :: string where
  "arrow = '' -> ''"

text \<open>A row of \<^verbatim>\<open>org_move_requests\<close>, and the request as the service sees it.\<close>

record move_row =
  MR_ID :: id
  MR_SourceDepartment :: string
  MR_TargetDepartment :: "string option"
  MR_UserID :: id
  MR_State :: string
  MR_RequestedBy :: id
  MR_ResolvedBy :: "id option"
  MR_Reason :: string
  MR_ResolvedAt :: "time option"
  MR_CreatedAt :: time

record OrgMoveRequest =
  OM_ID :: id
  OM_UserID :: id
  OM_SourceDepartmentID :: id
  OM_TargetDepartmentID :: "id option"
  OM_SourceDepartment :: string
  OM_TargetDepartment :: string
  OM_State :: string
  OM_RequestedByUserID :: id
  OM_DecidedByUserID :: "id option"
  OM_Reason :: string
  OM_RejectReason :: string
  OM_ResolvedAt :: "time option"
  OM_CreatedAt :: time
  OM_UpdatedAt :: time

record odb =
  users :: "User list"
  org_departments :: "OrgDepartment list"
  org_move_requests :: "move_row list"
  next_move :: id
  permission_logs :: "PermissionLog list"

type_synonym 'a oact = "(odb, db_error, 'a) act"
type_synonym 'a oop = "(odb, ErrCode \<times> string, 'a) act"

subsection \<open>Repositories\<close>

definition UserRepo_GetByID :: "id \<Rightarrow> User option oact" where
  "UserRepo_GetByID i = query (\<lambda>d. map_option scanUser (List.find (\<lambda>u. U_ID u = i) (users d)))"

definition UserRepo_Update :: "User \<Rightarrow> unit oact" where
  "UserRepo_Update user = exec (\<lambda>d. d\<lparr>users := row_upd (\<lambda>u. U_ID u = U_ID user) (user_cols user) (users d)\<rparr>)"

definition GetDepartmentByID :: "id \<Rightarrow> OrgDepartment option oact" where
  "GetDepartmentByID i = query (\<lambda>d. List.find (\<lambda>x. OD_ID x = i) (org_departments d))"

definition CreateTx :: "PermissionLog \<Rightarrow> unit oact" where
  "CreateTx e = exec (\<lambda>d. d\<lparr>permission_logs := permission_logs d @ [e]\<rparr>)"

definition Move_Create :: "OrgMoveRequest \<Rightarrow> id oact" where
  "Move_Create request = stmt (\<lambda>d. Inr (next_move d, d\<lparr>next_move := next_move d + 1,
     org_move_requests := org_move_requests d @ [\<lparr>MR_ID = next_move d,
       MR_SourceDepartment = OM_SourceDepartment request,
       MR_TargetDepartment = (if OM_TargetDepartment request = [] then None else Some (OM_TargetDepartment request)),
       MR_UserID = OM_UserID request, MR_State = OM_State request,
       MR_RequestedBy = OM_RequestedByUserID request, MR_ResolvedBy = None, MR_Reason = OM_Reason request,
       MR_ResolvedAt = None, MR_CreatedAt = dt (OM_CreatedAt request)\<rparr>]\<rparr>))"

text \<open>The SELECT with its two joins, and the scan.\<close>

definition department_named :: "odb \<Rightarrow> string \<Rightarrow> OrgDepartment option" where
  "department_named d name = List.find (\<lambda>x. EqualFold (OD_Name x) name) (org_departments d)"

definition scanOrgMoveRequest :: "odb \<Rightarrow> move_row \<Rightarrow> OrgMoveRequest" where
  "scanOrgMoveRequest d r = \<lparr>OM_ID = MR_ID r, OM_UserID = MR_UserID r,
     OM_SourceDepartmentID = (case department_named d (MR_SourceDepartment r) of None \<Rightarrow> 0 | Some x \<Rightarrow> OD_ID x),
     OM_TargetDepartmentID = (case MR_TargetDepartment r of None \<Rightarrow> None
        | Some t \<Rightarrow> map_option OD_ID (department_named d t)),
     OM_SourceDepartment = MR_SourceDepartment r,
     OM_TargetDepartment = (case MR_TargetDepartment r of None \<Rightarrow> [] | Some t \<Rightarrow> t),
     OM_State = MR_State r, OM_RequestedByUserID = MR_RequestedBy r, OM_DecidedByUserID = MR_ResolvedBy r,
     OM_Reason = MR_Reason r, OM_RejectReason = (if MR_State r = StateRejected then MR_Reason r else []),
     OM_ResolvedAt = MR_ResolvedAt r, OM_CreatedAt = MR_CreatedAt r,
     OM_UpdatedAt = (case MR_ResolvedAt r of None \<Rightarrow> MR_CreatedAt r | Some t \<Rightarrow> t)\<rparr>"

definition Move_Get :: "id \<Rightarrow> OrgMoveRequest option oact" where
  "Move_Get i = query (\<lambda>d. map_option (scanOrgMoveRequest d)
     (List.find (\<lambda>r. MR_ID r = i) (org_move_requests d)))"

record MoveFilter =
  MF_State :: "string option"
  MF_UserID :: "id option"
  MF_SourceDepartmentID :: "id option"
  MF_SourceDepartments :: "string list"
  MF_Page :: int
  MF_PageSize :: int

definition normalizePage :: "int \<Rightarrow> int \<Rightarrow> int \<times> int" where
  "normalizePage page pageSize =
     (if page < 1 then 1 else page, if pageSize < 1 \<or> pageSize > 100 then 20 else pageSize)"

definition move_matches :: "MoveFilter \<Rightarrow> odb \<Rightarrow> move_row \<Rightarrow> bool" where
  "move_matches f d r \<longleftrightarrow>
     (case MF_State f of None \<Rightarrow> True | Some s \<Rightarrow> s \<noteq> [] \<longrightarrow> ci_eq (MR_State r) s) \<and>
     (case MF_UserID f of None \<Rightarrow> True | Some u \<Rightarrow> u > 0 \<longrightarrow> MR_UserID r = u) \<and>
     (case MF_SourceDepartmentID f of None \<Rightarrow> True | Some i \<Rightarrow> i > 0 \<longrightarrow>
        map_option OD_ID (department_named d (MR_SourceDepartment r)) = Some i) \<and>
     (let names = filter (\<lambda>s. s \<noteq> []) (map TrimSpace (MF_SourceDepartments f)) in
      names \<noteq> [] \<longrightarrow> list_ex (ci_eq (MR_SourceDepartment r)) names)"

text \<open>A negative OFFSET (the product may wrap around) is a syntax error to the server.\<close>

definition Move_List :: "MoveFilter \<Rightarrow> (OrgMoveRequest list \<times> int) oact" where
  "Move_List f = (case normalizePage (MF_Page f) (MF_PageSize f) of (page, pageSize) \<Rightarrow>
     bnd (query (\<lambda>d. int (length (filter (move_matches f d) (org_move_requests d))))) (\<lambda>cnt.
     bnd (stmt (\<lambda>d. let off = int64 ((page - 1) * pageSize) in
        if off < 0 then Inl ErrDB
        else Inr (map (scanOrgMoveRequest d) (take (nat pageSize) (drop (nat off)
               (rev (filter (move_matches f d) (org_move_requests d))))), d))) (\<lambda>items.
     ret (items, cnt))))"

definition Move_UpdateState :: "id \<Rightarrow> string \<Rightarrow> string \<Rightarrow> id \<Rightarrow> string \<Rightarrow> time \<Rightarrow> bool oact" where
  "Move_UpdateState i from to decidedBy reason decidedAt = stmt (\<lambda>d.
     let p = (\<lambda>r. MR_ID r = i \<and> ci_eq (MR_State r) from);
         f = (\<lambda>r. r\<lparr>MR_State := to, MR_ResolvedBy := Some decidedBy, MR_ResolvedAt := Some (dt decidedAt),
                    MR_Reason := reason\<rparr>)
     in Inr (length (filter (\<lambda>r. p r \<and> f r \<noteq> r) (org_move_requests d)) = 1,
             d\<lparr>org_move_requests := row_upd p f (org_move_requests d)\<rparr>))"

subsection \<open>Service\<close>

definition infra :: "db_error \<Rightarrow> ErrCode \<times> string" where
  "infra e = (ErrCodeInternalError, [])"

abbreviation scopeDenied :: "string \<Rightarrow> ErrCode \<times> string" where
  "scopeDenied code \<equiv> (ErrCodePermissionDenied, code)"

abbreviation alreadyDecided :: "ErrCode \<times> string" where
  "alreadyDecided \<equiv> (ErrCodeConflict, ''org_move_request_already_decided'')"

definition hasAnyRole :: "RequestActor \<Rightarrow> string list \<Rightarrow> bool" where
  "hasAnyRole actor roles \<longleftrightarrow> list_ex (\<lambda>role. list_ex (\<lambda>candidate. role = candidate) roles) (RA_Roles actor)"

definition actorManagesDepartment :: "RequestActor \<Rightarrow> string \<Rightarrow> bool" where
  "actorManagesDepartment actor department \<longleftrightarrow>
     list_ex (\<lambda>managed. EqualFold (TrimSpace managed) (TrimSpace department)) (RA_ManagedDepartments actor) \<or>
     EqualFold (TrimSpace (RA_Department actor)) (TrimSpace department)"

definition authorizeCreate :: "RequestActor \<Rightarrow> string \<Rightarrow> (ErrCode \<times> string) option" where
  "authorizeCreate actor sourceDepartment =
     (if hasAnyRole actor [RoleSuperAdmin, RoleHRAdmin, RoleAdmin] then None
      else if hasAnyRole actor [RoleDeptAdmin] then
        (if actorManagesDepartment actor sourceDepartment then None
         else Some (scopeDenied ''department_scope_only''))
      else Some (scopeDenied ''org_move_request_denied''))"

definition resolveDepartments :: "id \<Rightarrow> id option \<Rightarrow> (OrgDepartment \<times> OrgDepartment option) oop" where
  "resolveDepartments sourceID targetID =
     bnd (map_err infra (GetDepartmentByID sourceID)) (\<lambda>s. case s of
       None \<Rightarrow> throw (ErrCodeNotFound, [])
     | Some source \<Rightarrow>
        (case targetID of
           None \<Rightarrow> ret (source, None)
         | Some i \<Rightarrow>
            if i > 0 then bnd (map_err infra (GetDepartmentByID i)) (\<lambda>t. case t of
               None \<Rightarrow> throw (ErrCodeNotFound, [])
             | Some target \<Rightarrow> ret (source, Some target))
            else ret (source, None)))"

definition move_log :: "time \<Rightarrow> RequestActor \<Rightarrow> string \<Rightarrow> id \<Rightarrow> string \<Rightarrow> string \<Rightarrow> PermissionLog" where
  "move_log now actor act target route reason = \<lparr>PL_ActorID = Some (RA_ID actor),
     PL_ActorUsername = RA_Username actor, PL_ActionType = act, PL_TargetUserID = Some target,
     PL_Method = ''POST'', PL_RoutePath = route, PL_Granted = True, PL_Reason = reason, PL_CreatedAt = dt now\<rparr>"

definition recordPermissionActionTx ::
  "time \<Rightarrow> RequestActor \<Rightarrow> string \<Rightarrow> id \<Rightarrow> string \<Rightarrow> string \<Rightarrow> unit oact" where
  "recordPermissionActionTx now actor act target route reason = CreateTx (move_log now actor act target route reason)"

record CreateParams =
  CM_UserID :: id
  CM_TargetDepartmentID :: "id option"
  CM_Reason :: string

definition Create_move_tx :: "time \<Rightarrow> RequestActor \<Rightarrow> OrgMoveRequest \<Rightarrow> id oact" where
  "Create_move_tx now actor request =
     bnd (Move_Create request) (\<lambda>i.
     bnd (recordPermissionActionTx now actor PermissionActionOrgMoveRequested (OM_UserID request)
            route_request (OM_Reason request)) (\<lambda>_.
     ret i))"

definition Move_Request :: "time \<Rightarrow> RequestActor \<Rightarrow> id \<Rightarrow> CreateParams \<Rightarrow> OrgMoveRequest oop" where
  "Move_Request now actor sourceDepartmentID p =
     (if RA_ID actor \<le> 0 then throw (ErrCodeUnauthorized, [])
      else if CM_UserID p \<le> 0 \<or> sourceDepartmentID \<le> 0 then throw (ErrCodeInvalidRequest, [])
      else let reason = TrimSpace (CM_Reason p) in
      if reason = [] then throw (ErrCodeReasonRequired, ''reason_required'')
      else bnd (resolveDepartments sourceDepartmentID (CM_TargetDepartmentID p)) (\<lambda>(source, target).
      case authorizeCreate actor (OD_Name source) of
        Some e \<Rightarrow> throw e
      | None \<Rightarrow>
        bnd (map_err infra (UserRepo_GetByID (CM_UserID p))) (\<lambda>u. case u of
          None \<Rightarrow> throw (ErrCodeNotFound, [])
        | Some user \<Rightarrow>
          if \<not> EqualFold (U_Department user) (OD_Name source)
          then throw (scopeDenied ''org_move_source_department_mismatch'')
          else let targetName = (case target of None \<Rightarrow> [] | Some t \<Rightarrow> OD_Name t) in
          if EqualFold (OD_Name source) targetName then throw (ErrCodeInvalidRequest, [])
          else let request = \<lparr>OM_ID = 0, OM_UserID = CM_UserID p, OM_SourceDepartmentID = OD_ID source,
                 OM_TargetDepartmentID = CM_TargetDepartmentID p, OM_SourceDepartment = OD_Name source,
                 OM_TargetDepartment = targetName, OM_State = StatePending, OM_RequestedByUserID = RA_ID actor,
                 OM_DecidedByUserID = None, OM_Reason = reason, OM_RejectReason = [], OM_ResolvedAt = None,
                 OM_CreatedAt = now, OM_UpdatedAt = now\<rparr> in
          bnd (map_err infra (RunInTx (Create_move_tx now actor request))) (\<lambda>i.
          ret (request\<lparr>OM_ID := i\<rparr>)))))"

definition getPending :: "id \<Rightarrow> OrgMoveRequest oop" where
  "getPending i =
     bnd (map_err infra (Move_Get i)) (\<lambda>r. case r of
       None \<Rightarrow> throw (ErrCodeNotFound, [])
     | Some request \<Rightarrow> if OM_State request \<noteq> StatePending then throw alreadyDecided else ret request)"

definition decision_err :: "db_error \<Rightarrow> ErrCode \<times> string" where
  "decision_err e = (if e = errAlreadyDecided then alreadyDecided else (ErrCodeInternalError, []))"

definition Approve_tx :: "time \<Rightarrow> RequestActor \<Rightarrow> OrgMoveRequest \<Rightarrow> User \<Rightarrow> unit oact" where
  "Approve_tx now actor request user =
     bnd (Move_UpdateState (OM_ID request) StatePending StateApproved (RA_ID actor) (OM_Reason request) now) (\<lambda>ok.
     if \<not> ok then throw errAlreadyDecided
     else bnd (UserRepo_Update (user\<lparr>U_Department := OM_TargetDepartment request, U_Team := [], U_UpdatedAt := now\<rparr>)) (\<lambda>_.
     bnd (recordPermissionActionTx now actor PermissionActionOrgMoveApproved (U_ID user)
            route_approve (OM_Reason request)) (\<lambda>_.
     recordPermissionActionTx now actor PermissionActionUserDepartmentChangedByAdmin (U_ID user)
            route_approve (OM_SourceDepartment request @ arrow @ OM_TargetDepartment request))))"

definition Approve :: "time \<Rightarrow> RequestActor \<Rightarrow> id \<Rightarrow> unit oop" where
  "Approve now actor requestID =
     (if requestID \<le> 0 then throw (ErrCodeInvalidRequest, [])
      else if \<not> hasAnyRole actor [RoleSuperAdmin, RoleAdmin] then throw (scopeDenied ''module_action_role_denied'')
      else bnd (getPending requestID) (\<lambda>request.
           bnd (map_err infra (UserRepo_GetByID (OM_UserID request))) (\<lambda>u. case u of
             None \<Rightarrow> throw (ErrCodeNotFound, [])
           | Some user \<Rightarrow> map_err decision_err (RunInTx (Approve_tx now actor request user)))))"

definition Reject_tx :: "time \<Rightarrow> RequestActor \<Rightarrow> OrgMoveRequest \<Rightarrow> string \<Rightarrow> unit oact" where
  "Reject_tx now actor request reason =
     bnd (Move_UpdateState (OM_ID request) StatePending StateRejected (RA_ID actor) reason now) (\<lambda>ok.
     if \<not> ok then throw errAlreadyDecided
     else recordPermissionActionTx now actor PermissionActionOrgMoveRejected (OM_UserID request)
            route_reject reason)"

definition Reject :: "time \<Rightarrow> RequestActor \<Rightarrow> id \<Rightarrow> string \<Rightarrow> unit oop" where
  "Reject now actor requestID reason0 =
     (let reason = TrimSpace reason0 in
      if requestID \<le> 0 then throw (ErrCodeInvalidRequest, [])
      else if reason = [] then throw (ErrCodeReasonRequired, ''reason_required'')
      else if \<not> hasAnyRole actor [RoleSuperAdmin, RoleAdmin] then throw (scopeDenied ''module_action_role_denied'')
      else bnd (getPending requestID) (\<lambda>request.
           map_err decision_err (RunInTx (Reject_tx now actor request reason))))"

definition pagination :: "int \<Rightarrow> int \<Rightarrow> int \<Rightarrow> int \<times> int \<times> int" where
  "pagination page pageSize cnt =
     (if page < 1 then 1 else page, if pageSize < 1 \<or> pageSize > 100 then 20 else pageSize, cnt)"

definition Moves_List :: "RequestActor \<Rightarrow> MoveFilter \<Rightarrow> (OrgMoveRequest list \<times> int \<times> int \<times> int) oop" where
  "Moves_List actor f =
     (if RA_ID actor \<le> 0 then throw (ErrCodeUnauthorized, [])
      else if \<not> (case MF_State f of None \<Rightarrow> True | Some s \<Rightarrow> OrgMoveRequestState_Valid s)
      then throw (ErrCodeInvalidRequest, [])
      else
       (let run = (\<lambda>g. bnd (map_err infra (Move_List g)) (\<lambda>(items, cnt).
              ret (items, pagination (MF_Page f) (MF_PageSize f) cnt)))
        in if hasAnyRole actor [RoleSuperAdmin, RoleHRAdmin, RoleAdmin] then run (f\<lparr>MF_SourceDepartments := []\<rparr>)
           else if hasAnyRole actor [RoleDeptAdmin] then
             (let departments = (if RA_ManagedDepartments actor = [] \<and> TrimSpace (RA_Department actor) \<noteq> []
                                 then [RA_Department actor] else RA_ManagedDepartments actor) in
              if departments = [] then throw (scopeDenied ''department_admin_scope_missing'')
              else run (f\<lparr>MF_SourceDepartments := departments, MF_SourceDepartmentID := None\<rparr>))
           else throw (scopeDenied ''org_move_list_denied'')))"

subsection \<open>Decisions\<close>

text \<open>Both decisions start with the same compare-and-set.\<close>

datatype verdict = VApprove User | VReject string

fun verdict_tx :: "time \<Rightarrow> RequestActor \<Rightarrow> OrgMoveRequest \<Rightarrow> verdict \<Rightarrow> unit oact" where
  "verdict_tx now actor request (VApprove user) = Approve_tx now actor request user"
| "verdict_tx now actor request (VReject reason) = Reject_tx now actor request reason"

fun verdict_state :: "verdict \<Rightarrow> string" where
  "verdict_state (VApprove user) = StateApproved"
| "verdict_state (VReject reason) = StateRejected"

fun verdict_reason :: "OrgMoveRequest \<Rightarrow> verdict \<Rightarrow> string" where
  "verdict_reason request (VApprove user) = OM_Reason request"
| "verdict_reason request (VReject reason) = reason"

definition open_row :: "id \<Rightarrow> move_row \<Rightarrow> bool" where
  "open_row i r \<longleftrightarrow> MR_ID r = i \<and> ci_eq (MR_State r) StatePending"

definition resolve_row :: "string \<Rightarrow> id \<Rightarrow> string \<Rightarrow> time \<Rightarrow> move_row \<Rightarrow> move_row" where
  "resolve_row st who reason t r = r\<lparr>MR_State := st, MR_ResolvedBy := Some who,
     MR_ResolvedAt := Some (dt t), MR_Reason := reason\<rparr>"

definition decided :: "move_row \<Rightarrow> bool" where
  "decided r \<longleftrightarrow> MR_State r = StateApproved \<or> MR_State r = StateRejected"

lemma pending_not_decided: "\<not> ci_eq StateApproved StatePending" "\<not> ci_eq StateRejected StatePending"
  by code_simp+

lemma decided_not_open: "decided r \<Longrightarrow> \<not> open_row i r"
  using pending_not_decided by (auto simp: decided_def open_row_def)

lemma resolve_row_decided: "decided (resolve_row (verdict_state v) who reason t r)"
  by (cases v) (simp_all add: decided_def resolve_row_def)

lemma UpdateState_success:
  assumes "Move_UpdateState i StatePending st who reason t w = (Inr ok, w')"
  shows "wdb w' = (wdb w)\<lparr>org_move_requests :=
      row_upd (open_row i) (resolve_row st who reason t) (org_move_requests (wdb w))\<rparr> \<and>
    (ok \<longrightarrow> (\<exists>r \<in> set (org_move_requests (wdb w)). open_row i r))"
proof -
  let ?hit = "\<lambda>r. open_row i r \<and> resolve_row st who reason t r \<noteq> r"
  have eq: "ok = (length (filter ?hit (org_move_requests (wdb w))) = 1)"
    "wdb w' = (wdb w)\<lparr>org_move_requests :=
      row_upd (open_row i) (resolve_row st who reason t) (org_move_requests (wdb w))\<rparr>"
    using stmt_success [OF assms [unfolded Move_UpdateState_def]]
    unfolding open_row_def [abs_def] resolve_row_def [abs_def] Let_def by simp_all
  have "\<exists>r \<in> set (org_move_requests (wdb w)). open_row i r" if ok
  proof -
    have "filter ?hit (org_move_requests (wdb w)) \<noteq> []" using that eq(1) by auto
    then show ?thesis unfolding filter_empty_conv by blast
  qed
  then show ?thesis using eq(2) by blast
qed

text \<open>What a decision that commits has done.\<close>

definition resolve_all :: "time \<Rightarrow> RequestActor \<Rightarrow> OrgMoveRequest \<Rightarrow> verdict \<Rightarrow> odb \<Rightarrow> odb" where
  "resolve_all now actor request v d = d\<lparr>org_move_requests := row_upd (open_row (OM_ID request))
     (resolve_row (verdict_state v) (RA_ID actor) (verdict_reason request v) now) (org_move_requests d)\<rparr>"

definition moved_user :: "time \<Rightarrow> OrgMoveRequest \<Rightarrow> User \<Rightarrow> User" where
  "moved_user now request user = user\<lparr>U_Department := OM_TargetDepartment request, U_Team := [], U_UpdatedAt := now\<rparr>"

definition approve_logs :: "time \<Rightarrow> RequestActor \<Rightarrow> OrgMoveRequest \<Rightarrow> id \<Rightarrow> PermissionLog list" where
  "approve_logs now actor request u =
     [move_log now actor PermissionActionOrgMoveApproved u route_approve (OM_Reason request),
      move_log now actor PermissionActionUserDepartmentChangedByAdmin u route_approve
        (OM_SourceDepartment request @ arrow @ OM_TargetDepartment request)]"

fun verdict_db :: "time \<Rightarrow> RequestActor \<Rightarrow> OrgMoveRequest \<Rightarrow> verdict \<Rightarrow> odb \<Rightarrow> odb" where
  "verdict_db now actor request (VApprove user) d =
     (resolve_all now actor request (VApprove user) d)
       \<lparr>users := row_upd (\<lambda>u. U_ID u = U_ID user) (user_cols (moved_user now request user)) (users d),
        permission_logs := permission_logs d @ approve_logs now actor request (U_ID user)\<rparr>"
| "verdict_db now actor request (VReject reason) d =
     (resolve_all now actor request (VReject reason) d)
       \<lparr>permission_logs := permission_logs d @ [move_log now actor PermissionActionOrgMoveRejected (OM_UserID request)
          route_reject reason]\<rparr>"

lemma recordPermissionActionTx_success:
  "recordPermissionActionTx now actor act target route reason w = (Inr u, w') \<Longrightarrow>
   wdb w' = (wdb w)\<lparr>permission_logs := permission_logs (wdb w) @ [move_log now actor act target route reason]\<rparr>"
  unfolding recordPermissionActionTx_def CreateTx_def by (drule exec_success)

lemma UserRepo_Update_success:
  "UserRepo_Update user w = (Inr u, w') \<Longrightarrow>
   wdb w' = (wdb w)\<lparr>users := row_upd (\<lambda>u. U_ID u = U_ID user) (user_cols user) (users (wdb w))\<rparr>"
  unfolding UserRepo_Update_def by (drule exec_success)

lemma verdict_success:
  assumes "verdict_tx now actor request v w = (Inr u, w')"
  shows "wdb w' = verdict_db now actor request v (wdb w) \<and>
    (\<exists>r \<in> set (org_move_requests (wdb w)). open_row (OM_ID request) r)"
proof (cases v)
  case (VApprove user)
  from assms obtain w1 w2 w3 x y where
    "Move_UpdateState (OM_ID request) StatePending StateApproved (RA_ID actor) (OM_Reason request) now w = (Inr True, w1)"
    "UserRepo_Update (moved_user now request user) w1 = (Inr x, w2)"
    "recordPermissionActionTx now actor PermissionActionOrgMoveApproved (U_ID user)
       route_approve (OM_Reason request) w2 = (Inr y, w3)"
    "recordPermissionActionTx now actor PermissionActionUserDepartmentChangedByAdmin (U_ID user)
       route_approve (OM_SourceDepartment request @ arrow @ OM_TargetDepartment request) w3 = (Inr u, w')"
    unfolding VApprove verdict_tx.simps Approve_tx_def moved_user_def
    by (auto simp: bnd_eq_Inr split: if_splits)
  note steps = this
  show ?thesis
    using UpdateState_success [OF steps(1)] UserRepo_Update_success [OF steps(2)]
      recordPermissionActionTx_success [OF steps(3)] recordPermissionActionTx_success [OF steps(4)]
    unfolding VApprove by (simp add: resolve_all_def approve_logs_def) (simp add: moved_user_def)
next
  case (VReject reason)
  from assms obtain w1 where
    "Move_UpdateState (OM_ID request) StatePending StateRejected (RA_ID actor) reason now w = (Inr True, w1)"
    "recordPermissionActionTx now actor PermissionActionOrgMoveRejected (OM_UserID request)
       route_reject reason w1 = (Inr u, w')"
    unfolding VReject verdict_tx.simps Reject_tx_def by (auto simp: bnd_eq_Inr split: if_splits)
  note steps = this
  show ?thesis
    using UpdateState_success [OF steps(1)] recordPermissionActionTx_success [OF steps(2)]
    unfolding VReject by (simp add: resolve_all_def)
qed

subsection \<open>Runs\<close>

text \<open>
  A step is a call that files a request, the transaction of a decision taken on whatever request and
  user were read before, or a change of users and departments by other services; each under its own
  pattern of failures.
\<close>

inductive ostep :: "odb \<Rightarrow> odb \<Rightarrow> bool" where
  os_request: "Move_Request now actor sid p w = (res, w') \<Longrightarrow> ostep (wdb w) (wdb w')"
| os_decide: "RunInTx (verdict_tx now actor request v) w = (res, w') \<Longrightarrow> ostep (wdb w) (wdb w')"
| os_other: "ostep d (d\<lparr>users := us, org_departments := ds, permission_logs := ls\<rparr>)"

definition oinit :: "odb \<Rightarrow> bool" where
  "oinit d \<longleftrightarrow> org_move_requests d = []"

definition oinv :: "odb \<Rightarrow> bool" where
  "oinv d \<longleftrightarrow> distinct (map MR_ID (org_move_requests d)) \<and>
     list_all (\<lambda>r. MR_ID r < next_move d \<and> (MR_State r = StatePending \<or> decided r)) (org_move_requests d)"

text \<open>Every row with this id is decided, and no row to come will get it.\<close>

definition settled :: "id \<Rightarrow> odb \<Rightarrow> bool" where
  "settled i d \<longleftrightarrow> i < next_move d \<and> list_all (\<lambda>r. MR_ID r = i \<longrightarrow> decided r) (org_move_requests d)"

definition pending_row :: "odb \<Rightarrow> OrgMoveRequest \<Rightarrow> move_row" where
  "pending_row d request = \<lparr>MR_ID = next_move d, MR_SourceDepartment = OM_SourceDepartment request,
     MR_TargetDepartment = (if OM_TargetDepartment request = [] then None else Some (OM_TargetDepartment request)),
     MR_UserID = OM_UserID request, MR_State = OM_State request,
     MR_RequestedBy = OM_RequestedByUserID request, MR_ResolvedBy = None, MR_Reason = OM_Reason request,
     MR_ResolvedAt = None, MR_CreatedAt = dt (OM_CreatedAt request)\<rparr>"

lemma Create_move_triple:
  assumes "\<And>d ls. I d \<Longrightarrow> I (d\<lparr>next_move := next_move d + 1,
      org_move_requests := org_move_requests d @ [pending_row d request]\<rparr>)"
    and "\<And>d ls. I d \<Longrightarrow> I (d\<lparr>permission_logs := ls\<rparr>)"
  shows "triple I (Create_move_tx now actor request) (\<lambda>_. I)"
proof -
  have "triple I (Move_Create request) (\<lambda>_. I)"
    unfolding Move_Create_def by (rule triple_stmt) (auto dest: assms(1) simp: pending_row_def)
  moreover have "triple I (recordPermissionActionTx now actor act target route reason) (\<lambda>_. I)"
    for act target route reason
    unfolding recordPermissionActionTx_def CreateTx_def by (rule triple_exec) (rule assms(2))
  ultimately show ?thesis unfolding Create_move_tx_def by (intro triple_bnd triple_ret) auto
qed

lemma Move_Request_keeps:
  assumes "\<And>d request. I d \<Longrightarrow> OM_State request = StatePending \<Longrightarrow> I (d\<lparr>next_move := next_move d + 1,
      org_move_requests := org_move_requests d @ [pending_row d request]\<rparr>)"
    and "\<And>d ls. I d \<Longrightarrow> I (d\<lparr>permission_logs := ls\<rparr>)"
  shows "keeps I (Move_Request now actor sid p)"
proof -
  have tx: "keeps I (RunInTx (Create_move_tx now actor request))" if "OM_State request = StatePending" for request
    using that by (intro keeps_RunInTx Create_move_triple assms)
  show ?thesis
    unfolding Move_Request_def resolveDepartments_def GetDepartmentByID_def UserRepo_GetByID_def Let_def
    by (auto intro!: keeps_bnd keeps_map_err keeps_query keeps_ret keeps_throw tx split: option.split prod.split)
qed

lemma verdict_rows:
  "org_move_requests (verdict_db now actor request v d) = org_move_requests (resolve_all now actor request v d)"
  "next_move (verdict_db now actor request v d) = next_move d"
  by (cases v; simp add: resolve_all_def)+

lemma resolve_row_ID [simp]: "MR_ID (resolve_row st who reason t r) = MR_ID r"
  by (simp add: resolve_row_def)

lemma oinv_verdict: "oinv d \<Longrightarrow> oinv (verdict_db now actor request v d)"
  using resolve_row_decided [of v]
  by (auto simp: oinv_def verdict_rows resolve_all_def map_row_upd list_all_iff dest!: set_row_updD)

lemma settled_verdict: "settled i d \<Longrightarrow> settled i (verdict_db now actor request v d)"
  using resolve_row_decided [of v]
  by (auto simp: settled_def verdict_rows resolve_all_def list_all_iff dest!: set_row_updD)

lemma decide_step:
  assumes "RunInTx (verdict_tx now actor request v) w = (res, w')"
  shows "(\<exists>e. res = Inl e) \<and> wdb w' = wdb w \<or>
    res = Inr () \<and> wdb w' = verdict_db now actor request v (wdb w) \<and>
    (\<exists>r \<in> set (org_move_requests (wdb w)). open_row (OM_ID request) r)"
proof (cases res)
  case (Inl e)
  then show ?thesis using RunInTx_failure [OF assms [unfolded Inl]] by simp
next
  case (Inr u)
  then obtain w1 w2 where "wdb w1 = wdb w" "verdict_tx now actor request v w1 = (Inr u, w2)" "wdb w' = wdb w2"
    using RunInTx_success [OF assms [unfolded Inr]] by metis
  then show ?thesis using verdict_success [of now actor request v w1 u w2] Inr by simp
qed

lemma ostep_cases_inv:
  assumes "ostep d d'" and "I d"
    and req: "\<And>d request. I d \<Longrightarrow> OM_State request = StatePending \<Longrightarrow> I (d\<lparr>next_move := next_move d + 1,
      org_move_requests := org_move_requests d @ [pending_row d request]\<rparr>)"
    and dec: "\<And>d now actor request v. I d \<Longrightarrow> I (verdict_db now actor request v d)"
    and oth: "\<And>d us ds ls. I d \<Longrightarrow> I (d\<lparr>users := us, org_departments := ds, permission_logs := ls\<rparr>)"
  shows "I d'"
  using assms(1,2)
proof cases
  case (os_request now actor sid p w res w')
  have "I (d\<lparr>permission_logs := ls\<rparr>)" if "I d" for d ls
    using oth [OF that, where us = "users d" and ds = "org_departments d" and ls = ls] by simp
  then have "keeps I (Move_Request now actor sid p)" using req by (rule Move_Request_keeps [rotated])
  then show ?thesis using os_request assms(2) by (auto simp: keeps_def)
next
  case (os_decide now actor request v w res w')
  then show ?thesis using decide_step [of now actor request v w res w'] dec assms(2) by auto
next
  case (os_other us ds ls)
  then show ?thesis using oth assms(2) by simp
qed

lemma oinv_step: "oinv d \<Longrightarrow> ostep d d' \<Longrightarrow> oinv d'"
proof (erule ostep_cases_inv)
  show "oinv (d\<lparr>next_move := next_move d + 1,
      org_move_requests := org_move_requests d @ [pending_row d request]\<rparr>)"
    if "oinv d" "OM_State request = StatePending" for d request
    using that by (auto simp: oinv_def list_all_iff pending_row_def)
qed (assumption, rule oinv_verdict, assumption, simp add: oinv_def)

lemma settled_step: "settled i d \<Longrightarrow> ostep d d' \<Longrightarrow> settled i d'"
proof (erule ostep_cases_inv)
  show "settled i (d\<lparr>next_move := next_move d + 1,
      org_move_requests := org_move_requests d @ [pending_row d request]\<rparr>)"
    if "settled i d" "OM_State request = StatePending" for d request
    using that by (auto simp: settled_def list_all_iff pending_row_def)
qed (assumption, rule settled_verdict, assumption, simp add: settled_def)

interpretation moves: inductive_invariant oinit ostep oinv
  by unfold_locales (simp add: oinit_def oinv_def, rule oinv_step)

interpretation settling: inductive_invariant "settled i" ostep "settled i" for i
  by unfold_locales (auto intro: settled_step)

lemma verdict_settles:
  assumes "oinv d" and "r \<in> set (org_move_requests d)" and "open_row (OM_ID request) r"
  shows "settled (OM_ID request) (verdict_db now actor request v d)"
proof -
  have "OM_ID request < next_move d" using assms by (auto simp: oinv_def list_all_iff open_row_def)
  moreover have "decided q" if "q \<in> set (row_upd (open_row (OM_ID request))
      (resolve_row (verdict_state v) (RA_ID actor) (verdict_reason request v) now) (org_move_requests d))"
    "MR_ID q = OM_ID request" for q
  proof -
    from that(1) obtain q0 where q0: "q0 \<in> set (org_move_requests d)"
      "q = (if open_row (OM_ID request) q0
            then resolve_row (verdict_state v) (RA_ID actor) (verdict_reason request v) now q0 else q0)"
      by (auto simp: row_upd_def)
    show ?thesis
    proof (cases "open_row (OM_ID request) q0")
      case True
      then show ?thesis using q0 resolve_row_decided by simp
    next
      case False
      then have "q = q0" "\<not> ci_eq (MR_State q0) StatePending" using q0 that(2) by (auto simp: open_row_def)
      then show ?thesis using assms(1) q0 by (auto simp: oinv_def list_all_iff)
    qed
  qed
  ultimately show ?thesis by (auto simp: settled_def verdict_rows resolve_all_def list_all_iff)
qed

text \<open>
  (C20) A request to move a user is decided once: after a decision on it has committed, no later
  approval or rejection of the same request, taken on whatever was read earlier, by whomever and
  after any other activity, changes anything.
\<close>

theorem move_decided_once:
  assumes "reach oinit ostep (wdb w)"
    and first: "RunInTx (verdict_tx now actor request v) w = (Inr u, w1)"
    and between: "ostep\<^sup>*\<^sup>* (wdb w1) (wdb w2)"
    and second: "RunInTx (verdict_tx now' actor' request' v') w2 = (res, w3)" "OM_ID request' = OM_ID request"
  shows "(\<exists>e. res = Inl e) \<and> wdb w3 = wdb w2"
proof -
  have "settled (OM_ID request) (wdb w1)"
    using decide_step [OF first] verdict_settles [OF moves.reach_inv [OF assms(1)]] by auto
  then have "settled (OM_ID request) (wdb w2)" using settling.steps_inv [OF between] by blast
  then have "\<not> (\<exists>r \<in> set (org_move_requests (wdb w2)). open_row (OM_ID request') r)"
    using decided_not_open second(2) by (auto simp: settled_def list_all_iff open_row_def)
  then show ?thesis using decide_step [OF second(1)] by blast
qed

subsection \<open>Approval\<close>

definition move_of :: "odb \<Rightarrow> id \<Rightarrow> move_row option" where
  "move_of d i = List.find (\<lambda>r. MR_ID r = i) (org_move_requests d)"

definition user_of :: "odb \<Rightarrow> id \<Rightarrow> User option" where
  "user_of d i = List.find (\<lambda>u. U_ID u = i) (users d)"

definition target_of :: "move_row \<Rightarrow> string" where
  "target_of r = (case MR_TargetDepartment r of None \<Rightarrow> [] | Some t \<Rightarrow> t)"

lemma scan_fields [simp]:
  "OM_ID (scanOrgMoveRequest d r) = MR_ID r" "OM_UserID (scanOrgMoveRequest d r) = MR_UserID r"
  "OM_State (scanOrgMoveRequest d r) = MR_State r" "OM_Reason (scanOrgMoveRequest d r) = MR_Reason r"
  "OM_SourceDepartment (scanOrgMoveRequest d r) = MR_SourceDepartment r"
  "OM_TargetDepartment (scanOrgMoveRequest d r) = target_of r"
  by (simp_all add: scanOrgMoveRequest_def target_of_def)

text \<open>Actions that leave the database as it was when they return an error.\<close>

definition clean :: "('d, 'e, 'a) act \<Rightarrow> bool" where
  "clean m \<longleftrightarrow> (\<forall>w e w'. m w = (Inl e, w') \<longrightarrow> wdb w' = wdb w)"

lemma clean_RunInTx: "clean (RunInTx m)"
  unfolding clean_def using RunInTx_failure by blast

lemma clean_map_err: "clean m \<Longrightarrow> clean (map_err h m)"
  by (auto simp: clean_def map_err_def split: prod.splits sum.splits)

lemma clean_throw: "clean (throw e)"
  by (auto simp: clean_def throw_def)

lemma clean_bnd:
  assumes "\<And>w. wdb (snd (m w)) = wdb w" and "\<And>x. clean (k x)"
  shows "clean (bnd m k)"
  unfolding clean_def
proof (intro allI impI)
  fix w e w'
  assume run: "bnd m k w = (Inl e, w')"
  obtain x w1 where m: "m w = (x, w1)" by fastforce
  have "wdb w1 = wdb w" using assms(1) [of w] m by simp
  then show "wdb w' = wdb w" using run m assms(2) by (cases x) (auto simp: bnd_def clean_def)
qed

lemma read_only:
  "wdb (snd (map_err h (query g) w)) = wdb w"
  using query_wdb [of g w] by (auto simp: map_err_def split: prod.splits sum.splits simp del: query_wdb)

lemma getPending_success:
  assumes "getPending i w = (Inr request, w')"
  shows "wdb w' = wdb w \<and> (\<exists>r. move_of (wdb w) i = Some r \<and> MR_State r = StatePending \<and>
    request = scanOrgMoveRequest (wdb w) r)"
proof -
  obtain w1 where q: "Move_Get i w = (Inr (Some request), w1)" and ok: "OM_State request = StatePending" "w' = w1"
    using assms by (auto simp: getPending_def bnd_eq_Inr map_err_eq_Inr split: option.splits if_splits)
  show ?thesis
    using query_success [OF q [unfolded Move_Get_def]] ok
    by (cases "move_of (wdb w) i") (auto simp: move_of_def)
qed

lemma Approve_success:
  assumes "Approve now actor i w = (Inr u, w')"
  obtains r user where "hasAnyRole actor [RoleSuperAdmin, RoleAdmin]" "move_of (wdb w) i = Some r"
    "MR_State r = StatePending" "user_of (wdb w) (MR_UserID r) = Some user"
    "wdb w' = verdict_db now actor (scanOrgMoveRequest (wdb w) r) (VApprove (scanUser user)) (wdb w)"
proof -
  obtain request w1 us w2 where role: "hasAnyRole actor [RoleSuperAdmin, RoleAdmin]"
    and pend: "getPending i w = (Inr request, w1)"
    and get: "UserRepo_GetByID (OM_UserID request) w1 = (Inr (Some us), w2)"
    and tx: "RunInTx (Approve_tx now actor request us) w2 = (Inr u, w')"
    using assms by (auto simp: Approve_def bnd_eq_Inr map_err_eq_Inr split: if_splits option.splits)
  obtain r where r: "wdb w1 = wdb w" "move_of (wdb w) i = Some r" "MR_State r = StatePending"
    "request = scanOrgMoveRequest (wdb w) r"
    using getPending_success [OF pend] by blast
  obtain user where user: "wdb w2 = wdb w" "user_of (wdb w) (MR_UserID r) = Some user" "us = scanUser user"
    using query_success [OF get [unfolded UserRepo_GetByID_def]] r
    by (cases "user_of (wdb w) (MR_UserID r)") (auto simp: user_of_def)
  have "wdb w' = verdict_db now actor request (VApprove us) (wdb w)"
    using decide_step [of now actor request "VApprove us" w2 "Inr u" w'] tx user(1) by simp
  then show ?thesis using that role r user by blast
qed

lemma user_IDs [simp]: "U_ID (scanUser u) = U_ID u" "U_ID (user_cols user row) = U_ID row"
  by (simp_all add: scanUser_def user_cols_def Let_def)

lemma getPending_read_only: "wdb (snd (getPending i w)) = wdb w"
proof -
  have "keeps (\<lambda>d. d = wdb w) (getPending i)"
    unfolding getPending_def Move_Get_def
    by (auto intro!: keeps_bnd keeps_map_err keeps_query keeps_throw keeps_ret split: option.split)
  then show ?thesis by (simp add: keeps_def)
qed

lemma Approve_failure: "Approve now actor i w = (Inl e, w') \<Longrightarrow> wdb w' = wdb w"
proof -
  have "clean (Approve now actor i)"
    unfolding Approve_def UserRepo_GetByID_def
    by (auto intro!: clean_throw clean_bnd clean_map_err clean_RunInTx getPending_read_only read_only
        split: option.split)
  then show "Approve now actor i w = (Inl e, w') \<Longrightarrow> wdb w' = wdb w" unfolding clean_def by blast
qed

text \<open>
  Approving a request, under any failures, changes nothing or does all of it: the actor is a
  super administrator, the request was pending and is now approved by the actor, its user is in the
  target department without a team and otherwise as before (the employment type in its normal
  form), no other user or request has changed, and two log entries name the move.
\<close>

theorem approve_moves_user:
  assumes run: "Approve now actor i w = (res, w')"
  shows "(\<exists>e. res = Inl e) \<and> wdb w' = wdb w \<or>
    res = Inr () \<and> hasAnyRole actor [RoleSuperAdmin, RoleAdmin] \<and>
    (\<exists>r user. move_of (wdb w) i = Some r \<and> MR_State r = StatePending \<and>
       move_of (wdb w') i = Some (resolve_row StateApproved (RA_ID actor) (MR_Reason r) now r) \<and>
       user_of (wdb w) (MR_UserID r) = Some user \<and>
       user_of (wdb w') (MR_UserID r) = Some ((scanUser user)\<lparr>U_Department := target_of r, U_Team := [],
         U_UpdatedAt := dt now\<rparr>) \<and>
       filter (\<lambda>u. U_ID u \<noteq> MR_UserID r) (users (wdb w')) = filter (\<lambda>u. U_ID u \<noteq> MR_UserID r) (users (wdb w)) \<and>
       filter (\<lambda>q. MR_ID q \<noteq> i) (org_move_requests (wdb w')) = filter (\<lambda>q. MR_ID q \<noteq> i) (org_move_requests (wdb w)) \<and>
       permission_logs (wdb w') = permission_logs (wdb w) @
         approve_logs now actor (scanOrgMoveRequest (wdb w) r) (MR_UserID r))"
proof (cases res)
  case (Inl e)
  then show ?thesis using run Approve_failure by blast
next
  case (Inr u)
  with run have "Approve now actor i w = (Inr u, w')" by simp
  then show ?thesis
  proof (rule Approve_success)
    fix r user
    assume role: "hasAnyRole actor [RoleSuperAdmin, RoleAdmin]" and r: "move_of (wdb w) i = Some r"
      "MR_State r = StatePending" and user: "user_of (wdb w) (MR_UserID r) = Some user"
      and w': "wdb w' = verdict_db now actor (scanOrgMoveRequest (wdb w) r) (VApprove (scanUser user)) (wdb w)"
    have ids: "MR_ID r = i" "U_ID user = MR_UserID r"
      using r(1) user by (auto simp: move_of_def user_of_def dest: find_SomeD)
    have "move_of (wdb w') i = Some (resolve_row StateApproved (RA_ID actor) (MR_Reason r) now r)"
      using r ids by (simp add: w' move_of_def verdict_rows resolve_all_def find_row_upd open_row_def)
    moreover have "user_of (wdb w') (MR_UserID r) = Some ((scanUser user)\<lparr>U_Department := target_of r, U_Team := [],
         U_UpdatedAt := dt now\<rparr>)"
      using user ids by (simp add: w' user_of_def find_row_upd user_cols_def moved_user_def scanUser_def Let_def)
    moreover have "filter (\<lambda>u. U_ID u \<noteq> MR_UserID r) (users (wdb w')) = filter (\<lambda>u. U_ID u \<noteq> MR_UserID r) (users (wdb w))"
      using ids by (simp add: w' filter_row_upd) (rule row_upd_none, simp)
    moreover have "filter (\<lambda>q. MR_ID q \<noteq> i) (org_move_requests (wdb w')) = filter (\<lambda>q. MR_ID q \<noteq> i) (org_move_requests (wdb w))"
      using ids by (simp add: w' verdict_rows resolve_all_def filter_row_upd) (rule row_upd_none, simp add: open_row_def)
    moreover have "permission_logs (wdb w') = permission_logs (wdb w) @
         approve_logs now actor (scanOrgMoveRequest (wdb w) r) (MR_UserID r)"
      using ids by (simp add: w')
    ultimately show ?thesis using Inr role r user by auto
  qed
qed

subsection \<open>Scope of the listing\<close>

lemma Move_List_success:
  assumes "Move_List f w = (Inr (items, cnt), w')"
  shows "\<forall>x \<in> set items. \<exists>r \<in> set (org_move_requests (wdb w)). move_matches f (wdb w) r \<and>
    x = scanOrgMoveRequest (wdb w) r"
proof -
  obtain page size0 where p: "normalizePage (MF_Page f) (MF_PageSize f) = (page, size0)" by fastforce
  obtain w1 w2 where q: "query (\<lambda>d. int (length (filter (move_matches f d) (org_move_requests d)))) w = (Inr cnt, w1)"
    and st: "stmt (\<lambda>d. let off = int64 ((page - 1) * size0) in
        if off < 0 then Inl ErrDB
        else Inr (map (scanOrgMoveRequest d) (take (nat size0) (drop (nat off)
               (rev (filter (move_matches f d) (org_move_requests d))))), d)) w1 = (Inr items, w2)"
    using assms by (auto simp: Move_List_def p bnd_eq_Inr)
  have "wdb w1 = wdb w" using query_success [OF q] by simp
  then show ?thesis using stmt_success [OF st]
    by (auto simp: Let_def split: if_splits dest!: in_set_takeD in_set_dropD, blast)
qed

definition admin_departments :: "RequestActor \<Rightarrow> string list" where
  "admin_departments actor =
     (if RA_ManagedDepartments actor = [] then [RA_Department actor] else RA_ManagedDepartments actor)"

text \<open>
  What a department administrator who has no higher role sees are requests out of departments
  the administrator manages (out of the administrator's own department, if none is managed), provided
  that one of these names is not blank.
\<close>

theorem department_admin_scope:
  assumes run: "Moves_List actor f w = (Inr (items, meta), w')"
    and low: "\<not> hasAnyRole actor [RoleSuperAdmin, RoleHRAdmin, RoleAdmin]"
    and named: "\<exists>s \<in> set (admin_departments actor). TrimSpace s \<noteq> []"
  shows "\<forall>x \<in> set items. \<exists>s \<in> set (admin_departments actor).
    TrimSpace s \<noteq> [] \<and> ci_eq (OM_SourceDepartment x) (TrimSpace s)"
proof -
  let ?f = "f\<lparr>MF_SourceDepartments := admin_departments actor, MF_SourceDepartmentID := None\<rparr>"
  have "(if RA_ManagedDepartments actor = [] \<and> TrimSpace (RA_Department actor) \<noteq> []
      then [RA_Department actor] else RA_ManagedDepartments actor) = admin_departments actor"
    using named by (auto simp: admin_departments_def split: if_splits)
  then obtain cnt w1 where "Move_List ?f w = (Inr (items, cnt), w1)"
    using run low
    by (auto simp: Moves_List_def bnd_eq_Inr map_err_eq_Inr Let_def split: if_splits prod.splits)
  note list = Move_List_success [OF this]
  show ?thesis
  proof
    fix x
    assume "x \<in> set items"
    then obtain r where r: "move_matches ?f (wdb w) r" "x = scanOrgMoveRequest (wdb w) r" using list by blast
    have "filter (\<lambda>s. s \<noteq> []) (map TrimSpace (admin_departments actor)) \<noteq> []"
      using named by (auto simp: filter_empty_conv)
    then show "\<exists>s \<in> set (admin_departments actor). TrimSpace s \<noteq> [] \<and> ci_eq (OM_SourceDepartment x) (TrimSpace s)"
      using r by (auto simp: move_matches_def list_ex_iff Let_def)
  qed
qed

text \<open>If all the names are blank the repository drops the condition: every request is listed.\<close>

lemma blank_scope_matches_all:
  "list_all (\<lambda>s. TrimSpace s = []) departments \<Longrightarrow>
   move_matches (f\<lparr>MF_SourceDepartments := departments\<rparr>) d r = move_matches (f\<lparr>MF_SourceDepartments := []\<rparr>) d r"
  by (simp add: move_matches_def list_all_iff filter_False Let_def cong: option.case_cong)

subsection \<open>A run\<close>

definition demo_user :: User where
  "demo_user = \<lparr>U_ID = 5, U_Username = ''u'', U_DisplayName = ''U'', U_Department = ''A'', U_Team = ''T'',
     U_ManagedDepartments = [], U_ManagedTeams = [], U_Mobile = [], U_Email = [], U_AvatarURL = [],
     U_PasswordHash = ''h'', U_Status = ''active'', U_EmploymentType = EmploymentTypeFullTime,
     U_IsConfigSuperAdmin = False, U_LastLoginAt = None, U_CreatedAt = 0, U_UpdatedAt = 0, U_JstUID = None,
     U_JstRawSnapshotJSON = []\<rparr>"

definition demo_department :: "id \<Rightarrow> string \<Rightarrow> OrgDepartment" where
  "demo_department i n = \<lparr>OD_ID = i, OD_Name = n, OD_Enabled = True, OD_CreatedAt = 0, OD_UpdatedAt = 0\<rparr>"

definition demo_odb :: odb where
  "demo_odb = \<lparr>users = [demo_user], org_departments = [demo_department 1 ''A'', demo_department 2 ''B''],
     org_move_requests = [], next_move = 1, permission_logs = []\<rparr>"

abbreviation demo_admin :: RequestActor where
  "demo_admin \<equiv> demo_actor 9 [RoleSuperAdmin] []"

definition demo_request :: OrgMoveRequest where
  "demo_request = \<lparr>OM_ID = 0, OM_UserID = 5, OM_SourceDepartmentID = 1, OM_TargetDepartmentID = Some 2,
     OM_SourceDepartment = ''A'', OM_TargetDepartment = ''B'', OM_State = StatePending, OM_RequestedByUserID = 9,
     OM_DecidedByUserID = None, OM_Reason = ''r'', OM_RejectReason = [], OM_ResolvedAt = None,
     OM_CreatedAt = 3, OM_UpdatedAt = 3\<rparr>"

definition demo_odb1 :: odb where
  "demo_odb1 = demo_odb\<lparr>next_move := 2, org_move_requests := [pending_row demo_odb demo_request],
     permission_logs := [move_log 3 demo_admin PermissionActionOrgMoveRequested 5 route_request ''r'']\<rparr>"

lemma demo_reason: "TrimSpace ''r'' = ''r''" "\<not> EqualFold ''A'' ''B''"
  by code_simp+

lemma demo_requested:
  "Move_Request 3 demo_admin 1 \<lparr>CM_UserID = 5, CM_TargetDepartmentID = Some 2, CM_Reason = ''r''\<rparr>
     \<lparr>wdb = demo_odb, faults = []\<rparr> = (Inr (demo_request\<lparr>OM_ID := 1\<rparr>), \<lparr>wdb = demo_odb1, faults = []\<rparr>)"
  by (simp add: Move_Request_def demo_reason resolveDepartments_def GetDepartmentByID_def act_simps demo_odb_def
      demo_department_def authorizeCreate_def hasAnyRole_def demo_actor_def UserRepo_GetByID_def demo_user_def
      scanUser_def EmploymentType_Valid_def Create_move_tx_def Move_Create_def recordPermissionActionTx_def
      CreateTx_def demo_odb1_def demo_request_def pending_row_def move_log_def Let_def go_string_simps)

lemma demo_reach: "reach oinit ostep demo_odb1"
proof (rule reach_step)
  show "reach oinit ostep demo_odb" by (rule reach_init) (simp add: oinit_def demo_odb_def)
  show "ostep demo_odb demo_odb1" using os_request [OF demo_requested] by simp
qed

abbreviation demo_pending :: OrgMoveRequest where
  "demo_pending \<equiv> scanOrgMoveRequest demo_odb1 (pending_row demo_odb demo_request)"

lemma demo_approve_tx:
  "\<exists>w1. Approve_tx 4 demo_admin demo_pending demo_user \<lparr>wdb = demo_odb1, faults = []\<rparr> = (Inr (), w1) \<and> faults w1 = []"
  by (simp add: Approve_tx_def Move_UpdateState_def act_simps demo_odb1_def demo_odb_def pending_row_def
      demo_request_def UserRepo_Update_def recordPermissionActionTx_def CreateTx_def Let_def)

lemma demo_approved:
  obtains w1 where "RunInTx (Approve_tx 4 demo_admin demo_pending demo_user) \<lparr>wdb = demo_odb1, faults = []\<rparr> = (Inr (), w1)"
proof -
  obtain w1 where "Approve_tx 4 demo_admin demo_pending demo_user \<lparr>wdb = demo_odb1, faults = []\<rparr> = (Inr (), w1)"
    "faults w1 = []"
    using demo_approve_tx by blast
  then have "RunInTx (Approve_tx 4 demo_admin demo_pending demo_user) \<lparr>wdb = demo_odb1, faults = []\<rparr> = (Inr (), w1)"
    by (intro RunInTx_nofault_ok) simp_all
  then show ?thesis by (rule that)
qed

theorem move_decided_once_witness:
  "\<exists>w1 e w3. RunInTx (verdict_tx 4 demo_admin demo_pending (VApprove demo_user)) \<lparr>wdb = demo_odb1, faults = []\<rparr> =
     (Inr (), w1) \<and>
   RunInTx (verdict_tx 5 demo_admin demo_pending (VReject ''no'')) w1 = (Inl e, w3) \<and> wdb w3 = wdb w1"
proof -
  obtain w1 where first: "RunInTx (verdict_tx 4 demo_admin demo_pending (VApprove demo_user))
      \<lparr>wdb = demo_odb1, faults = []\<rparr> = (Inr (), w1)"
    using demo_approved by auto
  obtain res w3 where second: "RunInTx (verdict_tx 5 demo_admin demo_pending (VReject ''no'')) w1 = (res, w3)"
    by fastforce
  have "reach oinit ostep (wdb \<lparr>wdb = demo_odb1, faults = []\<rparr>)" using demo_reach by simp
  from move_decided_once [OF this first _ second] first second show ?thesis by auto
qed

lemma demo_approve:
  obtains w1 where "Approve 4 demo_admin 1 \<lparr>wdb = demo_odb1, faults = []\<rparr> = (Inr (), w1)"
proof -
  have "getPending 1 \<lparr>wdb = demo_odb1, faults = []\<rparr> = (Inr demo_pending, \<lparr>wdb = demo_odb1, faults = []\<rparr>)"
    by (simp add: getPending_def Move_Get_def act_simps demo_odb1_def demo_odb_def pending_row_def demo_request_def)
  moreover have "UserRepo_GetByID (OM_UserID demo_pending) \<lparr>wdb = demo_odb1, faults = []\<rparr> =
      (Inr (Some demo_user), \<lparr>wdb = demo_odb1, faults = []\<rparr>)"
    by (simp add: UserRepo_GetByID_def act_simps demo_odb1_def demo_odb_def pending_row_def demo_request_def
        demo_user_def scanUser_def EmploymentType_Valid_def Let_def go_string_simps)
  moreover obtain w1 where
    "RunInTx (Approve_tx 4 demo_admin demo_pending demo_user) \<lparr>wdb = demo_odb1, faults = []\<rparr> = (Inr (), w1)"
    by (rule demo_approved)
  ultimately have "Approve 4 demo_admin 1 \<lparr>wdb = demo_odb1, faults = []\<rparr> = (Inr (), w1)"
    by (simp add: Approve_def hasAnyRole_def demo_actor_def act_simps)
  then show ?thesis by (rule that)
qed

theorem approve_moves_user_witness:
  "\<exists>w1. Approve 4 demo_admin 1 \<lparr>wdb = demo_odb1, faults = []\<rparr> = (Inr (), w1) \<and>
   map_option U_Department (user_of (wdb w1) 5) = Some ''B''"
proof -
  obtain w1 where run: "Approve 4 demo_admin 1 \<lparr>wdb = demo_odb1, faults = []\<rparr> = (Inr (), w1)"
    by (rule demo_approve)
  have row: "move_of demo_odb1 1 = Some (pending_row demo_odb demo_request)"
    by (simp add: move_of_def demo_odb1_def demo_odb_def pending_row_def)
  have "MR_UserID (pending_row demo_odb demo_request) = 5" "target_of (pending_row demo_odb demo_request) = ''B''"
    by (simp_all add: pending_row_def demo_request_def target_of_def)
  then have "map_option U_Department (user_of (wdb w1) 5) = Some ''B''"
    using approve_moves_user [OF run] row by auto
  then show ?thesis using run by blast
qed

definition demo_dept_admin :: RequestActor where
  "demo_dept_admin = (demo_actor 8 [RoleDeptAdmin] [])\<lparr>RA_ManagedDepartments := [''A'']\<rparr>"

definition demo_filter :: MoveFilter where
  "demo_filter = \<lparr>MF_State = None, MF_UserID = None, MF_SourceDepartmentID = None, MF_SourceDepartments = [],
     MF_Page = 1, MF_PageSize = 20\<rparr>"

lemma demo_listed:
  "Moves_List demo_dept_admin demo_filter \<lparr>wdb = demo_odb1, faults = []\<rparr> =
     (Inr ([demo_pending], 1, 20, 1), \<lparr>wdb = demo_odb1, faults = []\<rparr>)"
proof -
  have "TrimSpace ''A'' = ''A''" by code_simp
  then show ?thesis
    by (simp add: Moves_List_def demo_dept_admin_def demo_actor_def demo_filter_def hasAnyRole_def Move_List_def
        normalizePage_def act_simps move_matches_def demo_odb1_def demo_odb_def pending_row_def demo_request_def
        int64_def pagination_def Let_def)
qed

theorem department_admin_scope_witness:
  "\<exists>items meta w'. Moves_List demo_dept_admin demo_filter \<lparr>wdb = demo_odb1, faults = []\<rparr> = (Inr (items, meta), w') \<and>
   items \<noteq> [] \<and> list_all (\<lambda>x. ci_eq (OM_SourceDepartment x) ''A'') items"
proof -
  have a: "admin_departments demo_dept_admin = [''A'']" "TrimSpace ''A'' = ''A''"
    by (simp add: admin_departments_def demo_dept_admin_def, code_simp)
  have "\<not> hasAnyRole demo_dept_admin [RoleSuperAdmin, RoleHRAdmin, RoleAdmin]"
    by (simp add: hasAnyRole_def demo_dept_admin_def demo_actor_def)
  from department_admin_scope [OF demo_listed this] have "ci_eq (OM_SourceDepartment demo_pending) ''A''"
    using a by simp
  then show ?thesis using demo_listed by auto
qed

end
