(* ===== verification/Task_Rules.thy ===== *)
theory Task_Rules
  imports Module_Domain Go_Strings
begin

section \<open>Task actions and their rules\<close>

text \<open>
  Who may perform which action on a task, as a table: \<^verbatim>\<open>taskActionRuleFor\<close> of
  \<^verbatim>\<open>service/task_action_rules.go\<close>, over the actions and scope sources of that file and
  \<^verbatim>\<open>service/task_action_scope.go\<close>, and the role checks of \<^verbatim>\<open>domain/rbac_placeholder.go\<close>. The
  messages of the gates are left out: they dress the refusal and decide nothing.
\<close>

subsection \<open>Roles\<close>

definition IsKnownRole :: "string \<Rightarrow> bool" where
  "IsKnownRole role \<longleftrightarrow> role \<in> set [RoleMember, RoleSuperAdmin, RoleHRAdmin, RoleOrgAdmin, RoleRoleAdmin,
     RoleTeamLead, RoleDesignDirector, RoleDesignReviewer, RoleOps, RoleDesigner,
     RoleCustomizationOperator, RoleAuditA, RoleAuditB, RoleAdmin, RoleDeptAdmin, RoleWarehouse,
     RoleOutsource, RoleCustomizationReviewer, RoleERP]"

definition add_role :: "string \<Rightarrow> string list \<Rightarrow> string list" where
  "add_role item roles =
     (let role = TrimSpace item in
      if role = [] \<or> \<not> IsKnownRole role then roles
      else if role \<in> set roles then roles
      else roles @ [role])"

definition NormalizeRoles :: "string list \<Rightarrow> string list" where
  "NormalizeRoles raw = fold add_role raw []"

definition roleImplies :: "string \<Rightarrow> string \<Rightarrow> bool" where
  "roleImplies role required =
     (if role = RoleSuperAdmin then True
      else if role = RoleDesignReviewer then required = RoleAuditA \<or> required = RoleAuditB
      else if role = RoleDesignDirector then required = RoleDesigner \<or> required = RoleCustomizationOperator
      else False)"

text \<open>\<^verbatim>\<open>ActorHasAnyRole\<close>, on the roles of the actor.\<close>

definition ActorHasAnyRole :: "string list \<Rightarrow> string list \<Rightarrow> bool" where
  "ActorHasAnyRole actorRoles required0 =
     (let required = NormalizeRoles required0 in
      if required = [] then True
      else list_ex (\<lambda>role. role = RoleAdmin \<or> role = RoleSuperAdmin \<or>
             list_ex (\<lambda>requiredRole. role = requiredRole \<or> roleImplies role requiredRole) required)
           (NormalizeRoles actorRoles))"

definition hasRoleValue :: "string list \<Rightarrow> string \<Rightarrow> bool" where
  "hasRoleValue roles target \<longleftrightarrow> list_ex (\<lambda>role. role = target) roles"

definition hasAnyRoleValue :: "string list \<Rightarrow> string list \<Rightarrow> bool" where
  "hasAnyRoleValue roles targets \<longleftrightarrow> list_ex (hasRoleValue roles) targets"

subsection \<open>Actions and scopes\<close>

datatype (plugins only: size) TaskAction =
    TaskActionCreate | TaskActionReadDetail | TaskActionUpdateBusinessInfo | TaskActionAssign
    | TaskActionReassign | TaskActionSubmitDesign | TaskActionAssetUploadSessionCreate
    | TaskActionAssetUploadSessionComplete | TaskActionAssetUploadSessionCancel
    | TaskActionAuditClaim | TaskActionAuditApprove | TaskActionAuditReject
    | TaskActionAuditTransfer | TaskActionAuditHandover | TaskActionAuditTakeover
    | TaskActionAuditAClaim | TaskActionAuditAApprove | TaskActionAuditAReject
    | TaskActionAuditATransfer | TaskActionAuditAHandover | TaskActionAuditATakeover
    | TaskActionAuditBClaim | TaskActionAuditBApprove | TaskActionAuditBReject
    | TaskActionAuditBTransfer | TaskActionAuditBHandover | TaskActionAuditBTakeover
    | TaskActionAuditOutsourceReviewClaim | TaskActionAuditOutsourceReviewApprove
    | TaskActionAuditOutsourceReviewReject | TaskActionAuditOutsourceReviewTransfer
    | TaskActionAuditOutsourceReviewHandover | TaskActionAuditOutsourceReviewTakeover
    | TaskActionWarehousePrepare | TaskActionWarehouseReceive | TaskActionWarehouseReject
    | TaskActionWarehouseComplete | TaskActionCustomizationReview
    | TaskActionCustomizationEffectPreview | TaskActionCustomizationEffectReview
    | TaskActionCustomizationTransfer | TaskActionClose | TaskActionUpdateProcurement
    | TaskActionAdvanceProcurement | TaskActionOther string

fun ta_string :: "TaskAction \<Rightarrow> string" where
  "ta_string TaskActionCreate = ''create''"
| "ta_string TaskActionReadDetail = ''read_detail''"
| "ta_string TaskActionUpdateBusinessInfo = ''update_business_info''"
| "ta_string TaskActionAssign = ''assign''"
| "ta_string TaskActionReassign = ''reassign''"
| "ta_string TaskActionSubmitDesign = ''submit_design''"
| "ta_string TaskActionAssetUploadSessionCreate = ''asset_upload_session_create''"
| "ta_string TaskActionAssetUploadSessionComplete = ''asset_upload_session_complete''"
| "ta_string TaskActionAssetUploadSessionCancel = ''asset_upload_session_cancel''"
| "ta_string TaskActionAuditClaim = ''audit_claim''"
| "ta_string TaskActionAuditApprove = ''audit_approve''"
| "ta_string TaskActionAuditReject = ''audit_reject''"
| "ta_string TaskActionAuditTransfer = ''audit_transfer''"
| "ta_string TaskActionAuditHandover = ''audit_handover''"
| "ta_string TaskActionAuditTakeover = ''audit_takeover''"
| "ta_string TaskActionAuditAClaim = ''audit_a_claim''"
| "ta_string TaskActionAuditAApprove = ''audit_a_approve''"
| "ta_string TaskActionAuditAReject = ''audit_a_reject''"
| "ta_string TaskActionAuditATransfer = ''audit_a_transfer''"
| "ta_string TaskActionAuditAHandover = ''audit_a_handover''"
| "ta_string TaskActionAuditATakeover = ''audit_a_takeover''"
| "ta_string TaskActionAuditBClaim = ''audit_b_claim''"
| "ta_string TaskActionAuditBApprove = ''audit_b_approve''"
| "ta_string TaskActionAuditBReject = ''audit_b_reject''"
| "ta_string TaskActionAuditBTransfer = ''audit_b_transfer''"
| "ta_string TaskActionAuditBHandover = ''audit_b_handover''"
| "ta_string TaskActionAuditBTakeover = ''audit_b_takeover''"
| "ta_string TaskActionAuditOutsourceReviewClaim = ''audit_outsource_review_claim''"
| "ta_string TaskActionAuditOutsourceReviewApprove = ''audit_outsource_review_approve''"
| "ta_string TaskActionAuditOutsourceReviewReject = ''audit_outsource_review_reject''"
| "ta_string TaskActionAuditOutsourceReviewTransfer = ''audit_outsource_review_transfer''"
| "ta_string TaskActionAuditOutsourceReviewHandover = ''audit_outsource_review_handover''"
| "ta_string TaskActionAuditOutsourceReviewTakeover = ''audit_outsource_review_takeover''"
| "ta_string TaskActionWarehousePrepare = ''warehouse_prepare''"
| "ta_string TaskActionWarehouseReceive = ''warehouse_receive''"
| "ta_string TaskActionWarehouseReject = ''warehouse_reject''"
| "ta_string TaskActionWarehouseComplete = ''warehouse_complete''"
| "ta_string TaskActionCustomizationReview = ''customization_review''"
| "ta_string TaskActionCustomizationEffectPreview = ''customization_effect_preview''"
| "ta_string TaskActionCustomizationEffectReview = ''customization_effect_review''"
| "ta_string TaskActionCustomizationTransfer = ''customization_transfer''"
| "ta_string TaskActionClose = ''close''"
| "ta_string TaskActionUpdateProcurement = ''update_procurement''"
| "ta_string TaskActionAdvanceProcurement = ''advance_procurement''"
| "ta_string (TaskActionOther s) = s"

datatype TaskActionScopeSource = TaskActionScopeViewAll | TaskActionScopeDepartment
  | TaskActionScopeTeam | TaskActionScopeManagedDepartment | TaskActionScopeManagedTeam
  | TaskActionScopeHandler | TaskActionScopeDesigner | TaskActionScopeCreator
  | TaskActionScopeRequester | TaskActionScopeStage | TaskActionScopeMainFlowRead

fun scope_string :: "TaskActionScopeSource \<Rightarrow> string" where
  "scope_string TaskActionScopeViewAll = ''view_all''"
| "scope_string TaskActionScopeDepartment = ''department_scope''"
| "scope_string TaskActionScopeTeam = ''team_scope''"
| "scope_string TaskActionScopeManagedDepartment = ''managed_department_scope''"
| "scope_string TaskActionScopeManagedTeam = ''managed_team_scope''"
| "scope_string TaskActionScopeHandler = ''handler_match''"
| "scope_string TaskActionScopeDesigner = ''designer_match''"
| "scope_string TaskActionScopeCreator = ''creator_match''"
| "scope_string TaskActionScopeRequester = ''requester_match''"
| "scope_string TaskActionScopeStage = ''stage_scope''"
| "scope_string TaskActionScopeMainFlowRead = ''main_flow_read''"

datatype taskActionHandlerPolicy = taskActionHandlerPolicyNone
  | taskActionHandlerPolicyRequireCurrentHandler | taskActionHandlerPolicyUnassignedOrCurrentActor

subsection \<open>The table\<close>

record taskActionRule =
  AR_Action :: TaskAction
  AR_RequiredRoles :: "string list"
  AR_AllowedStatuses :: "TaskStatus list"
  AR_AllowedScopes :: "TaskActionScopeSource list"
  AR_PreferHandlerDeny :: bool
  AR_HandlerPolicy :: taskActionHandlerPolicy
  AR_UseReadVisibility :: bool
  AR_StatusDenyCode :: string
  AR_MatchedRule :: string

definition managerRoles :: "string list" where
  "managerRoles = [RoleAdmin, RoleSuperAdmin, RoleRoleAdmin, RoleHRAdmin, RoleDeptAdmin, RoleTeamLead,
     RoleDesignDirector]"

text \<open>The fields a composite literal leaves out are zero.\<close>

definition no_rule :: "TaskAction \<Rightarrow> taskActionRule" where
  "no_rule a = \<lparr>AR_Action = a, AR_RequiredRoles = [], AR_AllowedStatuses = [], AR_AllowedScopes = [],
     AR_PreferHandlerDeny = False, AR_HandlerPolicy = taskActionHandlerPolicyNone,
     AR_UseReadVisibility = False, AR_StatusDenyCode = [], AR_MatchedRule = []\<rparr>"

definition taskActionRuleFor :: "TaskAction \<Rightarrow> taskActionRule" where
  "taskActionRuleFor a =
    (if a = TaskActionCreate then (no_rule a)\<lparr>
        AR_RequiredRoles := [RoleOps] @ managerRoles,
        AR_AllowedScopes := [TaskActionScopeViewAll, TaskActionScopeDepartment, TaskActionScopeTeam],
        AR_MatchedRule := ''role_plus_owner_scope''\<rparr>
     else if a = TaskActionReadDetail then (no_rule a)\<lparr>
        AR_RequiredRoles := [RoleOps, RoleDesigner, RoleAuditA, RoleAuditB, RoleWarehouse, RoleOutsource,
            RoleCustomizationReviewer, RoleCustomizationOperator, RoleAdmin,
            RoleSuperAdmin, RoleHRAdmin, RoleOrgAdmin, RoleRoleAdmin, RoleDeptAdmin,
            RoleTeamLead, RoleDesignDirector],
        AR_UseReadVisibility := True,
        AR_MatchedRule := ''role_plus_read_visibility''\<rparr>
     else if a = TaskActionAssign then (no_rule a)\<lparr>
        AR_RequiredRoles := [RoleOps] @ managerRoles,
        AR_AllowedStatuses := [TaskStatusPendingAssign, TaskStatusPendingCustomizationProduction],
        AR_AllowedScopes := [TaskActionScopeViewAll, TaskActionScopeManagedDepartment,
            TaskActionScopeManagedTeam, TaskActionScopeDepartment, TaskActionScopeTeam,
            TaskActionScopeCreator],
        AR_StatusDenyCode := ''task_status_not_actionable'',
        AR_MatchedRule := ''role_plus_assignment_scope''\<rparr>
     else if a = TaskActionReassign then (no_rule a)\<lparr>
        AR_RequiredRoles := [RoleOps] @ managerRoles,
        AR_AllowedStatuses := [TaskStatusInProgress],
        AR_AllowedScopes := [TaskActionScopeViewAll, TaskActionScopeManagedDepartment,
            TaskActionScopeManagedTeam, TaskActionScopeDepartment, TaskActionScopeTeam,
            TaskActionScopeCreator, TaskActionScopeRequester],
        AR_StatusDenyCode := ''task_not_reassignable'',
        AR_MatchedRule := ''ops_or_manager_reassignment_scope''\<rparr>
     else if a = TaskActionSubmitDesign then (no_rule a)\<lparr>
        AR_RequiredRoles := [RoleDesigner, RoleCustomizationOperator, RoleOps] @ managerRoles,
        AR_AllowedStatuses := [TaskStatusInProgress, TaskStatusRejectedByAuditA, TaskStatusRejectedByAuditB,
            TaskStatusPendingCustomizationProduction],
        AR_AllowedScopes := [TaskActionScopeViewAll, TaskActionScopeManagedDepartment,
            TaskActionScopeManagedTeam, TaskActionScopeHandler, TaskActionScopeDesigner,
            TaskActionScopeStage],
        AR_PreferHandlerDeny := True,
        AR_MatchedRule := ''role_plus_design_scope_or_handler''\<rparr>
     else if a = TaskActionAssetUploadSessionCreate \<or>
        a = TaskActionAssetUploadSessionComplete \<or>
        a = TaskActionAssetUploadSessionCancel then (no_rule a)\<lparr>
        AR_RequiredRoles := [RoleDesigner, RoleCustomizationOperator, RoleCustomizationReviewer, RoleOps,
            RoleAuditA, RoleAuditB] @ managerRoles,
        AR_AllowedStatuses := [TaskStatusPendingAssign, TaskStatusInProgress, TaskStatusPendingAuditA,
            TaskStatusRejectedByAuditA, TaskStatusPendingAuditB,
            TaskStatusRejectedByAuditB, TaskStatusPendingOutsourceReview,
            TaskStatusPendingCustomizationReview, TaskStatusPendingCustomizationProduction,
            TaskStatusPendingEffectReview, TaskStatusPendingEffectRevision,
            TaskStatusPendingProductionTransfer, TaskStatusRejectedByWarehouse],
        AR_AllowedScopes := [TaskActionScopeViewAll, TaskActionScopeManagedDepartment,
            TaskActionScopeManagedTeam, TaskActionScopeDepartment, TaskActionScopeTeam,
            TaskActionScopeHandler, TaskActionScopeDesigner, TaskActionScopeStage],
        AR_PreferHandlerDeny := True,
        AR_MatchedRule := ''role_plus_asset_upload_scope_or_handler''\<rparr>
     else if a = TaskActionAuditClaim then (no_rule a)\<lparr>
        AR_RequiredRoles := [RoleAuditA, RoleAuditB] @ managerRoles,
        AR_AllowedStatuses := [TaskStatusPendingAuditA, TaskStatusPendingAuditB,
            TaskStatusPendingOutsourceReview],
        AR_AllowedScopes := [TaskActionScopeViewAll, TaskActionScopeManagedDepartment,
            TaskActionScopeManagedTeam, TaskActionScopeDepartment, TaskActionScopeTeam],
        AR_MatchedRule := ''role_plus_audit_scope''\<rparr>
     else if a = TaskActionAuditAClaim then (no_rule a)\<lparr>
        AR_RequiredRoles := [RoleAuditA] @ managerRoles,
        AR_AllowedStatuses := [TaskStatusPendingAuditA],
        AR_AllowedScopes := [TaskActionScopeViewAll, TaskActionScopeManagedDepartment,
            TaskActionScopeManagedTeam, TaskActionScopeDepartment, TaskActionScopeTeam,
            TaskActionScopeHandler, TaskActionScopeStage],
        AR_PreferHandlerDeny := True,
        AR_HandlerPolicy := taskActionHandlerPolicyUnassignedOrCurrentActor,
        AR_StatusDenyCode := ''audit_stage_mismatch'',
        AR_MatchedRule := ''audit_a_claim_scope''\<rparr>
     else if a = TaskActionAuditBClaim then (no_rule a)\<lparr>
        AR_RequiredRoles := [RoleAuditB] @ managerRoles,
        AR_AllowedStatuses := [TaskStatusPendingAuditB],
        AR_AllowedScopes := [TaskActionScopeViewAll, TaskActionScopeManagedDepartment,
            TaskActionScopeManagedTeam, TaskActionScopeDepartment, TaskActionScopeTeam,
            TaskActionScopeHandler, TaskActionScopeStage],
        AR_PreferHandlerDeny := True,
        AR_HandlerPolicy := taskActionHandlerPolicyUnassignedOrCurrentActor,
        AR_StatusDenyCode := ''audit_stage_mismatch'',
        AR_MatchedRule := ''audit_b_claim_scope''\<rparr>
     else if a = TaskActionAuditOutsourceReviewClaim then (no_rule a)\<lparr>
        AR_RequiredRoles := [RoleAuditA, RoleAuditB] @ managerRoles,
        AR_AllowedStatuses := [TaskStatusPendingOutsourceReview],
        AR_AllowedScopes := [TaskActionScopeViewAll, TaskActionScopeManagedDepartment,
            TaskActionScopeManagedTeam, TaskActionScopeDepartment, TaskActionScopeTeam,
            TaskActionScopeHandler, TaskActionScopeStage],
        AR_PreferHandlerDeny := True,
        AR_HandlerPolicy := taskActionHandlerPolicyUnassignedOrCurrentActor,
        AR_StatusDenyCode := ''audit_stage_mismatch'',
        AR_MatchedRule := ''audit_outsource_review_claim_scope''\<rparr>
     else if a = TaskActionAuditApprove \<or>
        a = TaskActionAuditReject \<or>
        a = TaskActionAuditTransfer \<or>
        a = TaskActionAuditHandover then (no_rule a)\<lparr>
        AR_RequiredRoles := [RoleAuditA, RoleAuditB] @ managerRoles,
        AR_AllowedStatuses := [TaskStatusPendingAuditA, TaskStatusPendingAuditB,
            TaskStatusPendingOutsourceReview],
        AR_AllowedScopes := [TaskActionScopeViewAll, TaskActionScopeManagedDepartment,
            TaskActionScopeManagedTeam, TaskActionScopeDepartment, TaskActionScopeTeam,
            TaskActionScopeHandler],
        AR_PreferHandlerDeny := True,
        AR_MatchedRule := ''role_plus_audit_scope_or_handler''\<rparr>
     else if a = TaskActionAuditAApprove \<or> a = TaskActionAuditAReject then (no_rule a)\<lparr>
        AR_RequiredRoles := [RoleAuditA] @ managerRoles,
        AR_AllowedStatuses := [TaskStatusPendingAuditA],
        AR_AllowedScopes := [TaskActionScopeViewAll, TaskActionScopeManagedDepartment,
            TaskActionScopeManagedTeam, TaskActionScopeDepartment, TaskActionScopeTeam,
            TaskActionScopeHandler, TaskActionScopeStage],
        AR_PreferHandlerDeny := True,
        AR_HandlerPolicy := taskActionHandlerPolicyRequireCurrentHandler,
        AR_StatusDenyCode := ''audit_stage_mismatch'',
        AR_MatchedRule := ''audit_a_scope_or_handler''\<rparr>
     else if a = TaskActionAuditATransfer \<or> a = TaskActionAuditAHandover then (no_rule a)\<lparr>
        AR_RequiredRoles := [RoleAuditA] @ managerRoles,
        AR_AllowedStatuses := [TaskStatusPendingAuditA],
        AR_AllowedScopes := [TaskActionScopeViewAll, TaskActionScopeManagedDepartment,
            TaskActionScopeManagedTeam, TaskActionScopeDepartment, TaskActionScopeTeam,
            TaskActionScopeHandler],
        AR_PreferHandlerDeny := True,
        AR_HandlerPolicy := taskActionHandlerPolicyRequireCurrentHandler,
        AR_StatusDenyCode := ''audit_stage_mismatch'',
        AR_MatchedRule := ''audit_a_scope_or_handler''\<rparr>
     else if a = TaskActionAuditBApprove \<or> a = TaskActionAuditBReject then (no_rule a)\<lparr>
        AR_RequiredRoles := [RoleAuditB] @ managerRoles,
        AR_AllowedStatuses := [TaskStatusPendingAuditB],
        AR_AllowedScopes := [TaskActionScopeViewAll, TaskActionScopeManagedDepartment,
            TaskActionScopeManagedTeam, TaskActionScopeDepartment, TaskActionScopeTeam,
            TaskActionScopeHandler, TaskActionScopeStage],
        AR_PreferHandlerDeny := True,
        AR_HandlerPolicy := taskActionHandlerPolicyRequireCurrentHandler,
        AR_StatusDenyCode := ''audit_stage_mismatch'',
        AR_MatchedRule := ''audit_b_scope_or_handler''\<rparr>
     else if a = TaskActionAuditBTransfer \<or> a = TaskActionAuditBHandover then (no_rule a)\<lparr>
        AR_RequiredRoles := [RoleAuditB] @ managerRoles,
        AR_AllowedStatuses := [TaskStatusPendingAuditB],
        AR_AllowedScopes := [TaskActionScopeViewAll, TaskActionScopeManagedDepartment,
            TaskActionScopeManagedTeam, TaskActionScopeDepartment, TaskActionScopeTeam,
            TaskActionScopeHandler],
        AR_PreferHandlerDeny := True,
        AR_HandlerPolicy := taskActionHandlerPolicyRequireCurrentHandler,
        AR_StatusDenyCode := ''audit_stage_mismatch'',
        AR_MatchedRule := ''audit_b_scope_or_handler''\<rparr>
     else if a = TaskActionAuditOutsourceReviewApprove \<or>
        a = TaskActionAuditOutsourceReviewReject then (no_rule a)\<lparr>
        AR_RequiredRoles := [RoleAuditA, RoleAuditB] @ managerRoles,
        AR_AllowedStatuses := [TaskStatusPendingOutsourceReview],
        AR_AllowedScopes := [TaskActionScopeViewAll, TaskActionScopeManagedDepartment,
            TaskActionScopeManagedTeam, TaskActionScopeDepartment, TaskActionScopeTeam,
            TaskActionScopeHandler, TaskActionScopeStage],
        AR_PreferHandlerDeny := True,
        AR_HandlerPolicy := taskActionHandlerPolicyRequireCurrentHandler,
        AR_StatusDenyCode := ''audit_stage_mismatch'',
        AR_MatchedRule := ''audit_outsource_review_scope_or_handler''\<rparr>
     else if a = TaskActionAuditOutsourceReviewTransfer \<or>
        a = TaskActionAuditOutsourceReviewHandover then (no_rule a)\<lparr>
        AR_RequiredRoles := [RoleAuditA, RoleAuditB] @ managerRoles,
        AR_AllowedStatuses := [TaskStatusPendingOutsourceReview],
        AR_AllowedScopes := [TaskActionScopeViewAll, TaskActionScopeManagedDepartment,
            TaskActionScopeManagedTeam, TaskActionScopeDepartment, TaskActionScopeTeam,
            TaskActionScopeHandler],
        AR_PreferHandlerDeny := True,
        AR_HandlerPolicy := taskActionHandlerPolicyRequireCurrentHandler,
        AR_StatusDenyCode := ''audit_stage_mismatch'',
        AR_MatchedRule := ''audit_outsource_review_scope_or_handler''\<rparr>
     else if a = TaskActionAuditTakeover then (no_rule a)\<lparr>
        AR_RequiredRoles := [RoleAuditA, RoleAuditB] @ managerRoles,
        AR_AllowedStatuses := [TaskStatusPendingAuditA, TaskStatusPendingAuditB,
            TaskStatusPendingOutsourceReview],
        AR_AllowedScopes := [TaskActionScopeViewAll, TaskActionScopeManagedDepartment,
            TaskActionScopeManagedTeam, TaskActionScopeDepartment, TaskActionScopeTeam],
        AR_MatchedRule := ''role_plus_audit_takeover_scope''\<rparr>
     else if a = TaskActionAuditATakeover then (no_rule a)\<lparr>
        AR_RequiredRoles := [RoleAuditA] @ managerRoles,
        AR_AllowedStatuses := [TaskStatusPendingAuditA],
        AR_AllowedScopes := [TaskActionScopeViewAll, TaskActionScopeManagedDepartment,
            TaskActionScopeManagedTeam, TaskActionScopeDepartment, TaskActionScopeTeam],
        AR_StatusDenyCode := ''audit_stage_mismatch'',
        AR_MatchedRule := ''audit_a_takeover_scope''\<rparr>
     else if a = TaskActionAuditBTakeover then (no_rule a)\<lparr>
        AR_RequiredRoles := [RoleAuditB] @ managerRoles,
        AR_AllowedStatuses := [TaskStatusPendingAuditB],
        AR_AllowedScopes := [TaskActionScopeViewAll, TaskActionScopeManagedDepartment,
            TaskActionScopeManagedTeam, TaskActionScopeDepartment, TaskActionScopeTeam],
        AR_StatusDenyCode := ''audit_stage_mismatch'',
        AR_MatchedRule := ''audit_b_takeover_scope''\<rparr>
     else if a = TaskActionAuditOutsourceReviewTakeover then (no_rule a)\<lparr>
        AR_RequiredRoles := [RoleAuditA, RoleAuditB] @ managerRoles,
        AR_AllowedStatuses := [TaskStatusPendingOutsourceReview],
        AR_AllowedScopes := [TaskActionScopeViewAll, TaskActionScopeManagedDepartment,
            TaskActionScopeManagedTeam, TaskActionScopeDepartment, TaskActionScopeTeam],
        AR_StatusDenyCode := ''audit_stage_mismatch'',
        AR_MatchedRule := ''audit_outsource_review_takeover_scope''\<rparr>
     else if a = TaskActionWarehousePrepare then (no_rule a)\<lparr>
        AR_RequiredRoles := [RoleWarehouse, RoleOps] @ managerRoles,
        AR_AllowedScopes := [TaskActionScopeViewAll, TaskActionScopeManagedDepartment,
            TaskActionScopeManagedTeam, TaskActionScopeDepartment, TaskActionScopeTeam],
        AR_MatchedRule := ''role_plus_warehouse_scope''\<rparr>
     else if a = TaskActionWarehouseReceive then (no_rule a)\<lparr>
        AR_RequiredRoles := [RoleWarehouse, RoleOps] @ managerRoles,
        AR_AllowedStatuses := [TaskStatusPendingWarehouseReceive, TaskStatusPendingWarehouseQC],
        AR_AllowedScopes := [TaskActionScopeViewAll, TaskActionScopeManagedDepartment,
            TaskActionScopeManagedTeam, TaskActionScopeDepartment, TaskActionScopeTeam,
            TaskActionScopeHandler, TaskActionScopeStage],
        AR_PreferHandlerDeny := True,
        AR_HandlerPolicy := taskActionHandlerPolicyUnassignedOrCurrentActor,
        AR_StatusDenyCode := ''warehouse_stage_mismatch'',
        AR_MatchedRule := ''warehouse_receive_scope''\<rparr>
     else if a = TaskActionWarehouseReject then (no_rule a)\<lparr>
        AR_RequiredRoles := [RoleWarehouse, RoleOps] @ managerRoles,
        AR_AllowedStatuses := [TaskStatusPendingWarehouseReceive, TaskStatusPendingWarehouseQC],
        AR_AllowedScopes := [TaskActionScopeViewAll, TaskActionScopeManagedDepartment,
            TaskActionScopeManagedTeam, TaskActionScopeDepartment, TaskActionScopeTeam,
            TaskActionScopeHandler, TaskActionScopeStage],
        AR_PreferHandlerDeny := True,
        AR_HandlerPolicy := taskActionHandlerPolicyRequireCurrentHandler,
        AR_StatusDenyCode := ''warehouse_stage_mismatch'',
        AR_MatchedRule := ''role_plus_warehouse_scope_or_handler''\<rparr>
     else if a = TaskActionWarehouseComplete then (no_rule a)\<lparr>
        AR_RequiredRoles := [RoleWarehouse, RoleOps] @ managerRoles,
        AR_AllowedStatuses := [TaskStatusPendingWarehouseReceive, TaskStatusPendingWarehouseQC,
            TaskStatusPendingProductionTransfer],
        AR_AllowedScopes := [TaskActionScopeViewAll, TaskActionScopeManagedDepartment,
            TaskActionScopeManagedTeam, TaskActionScopeDepartment, TaskActionScopeTeam,
            TaskActionScopeHandler, TaskActionScopeStage],
        AR_PreferHandlerDeny := True,
        AR_HandlerPolicy := taskActionHandlerPolicyRequireCurrentHandler,
        AR_StatusDenyCode := ''warehouse_stage_mismatch'',
        AR_MatchedRule := ''role_plus_warehouse_scope_or_handler''\<rparr>
     else if a = TaskActionCustomizationReview then (no_rule a)\<lparr>
        AR_RequiredRoles := [RoleCustomizationReviewer] @ managerRoles,
        AR_AllowedStatuses := [TaskStatusPendingCustomizationReview],
        AR_AllowedScopes := [TaskActionScopeViewAll, TaskActionScopeManagedDepartment,
            TaskActionScopeManagedTeam, TaskActionScopeDepartment, TaskActionScopeTeam,
            TaskActionScopeStage],
        AR_StatusDenyCode := ''customization_stage_mismatch'',
        AR_MatchedRule := ''customization_review_scope''\<rparr>
     else if a = TaskActionCustomizationEffectPreview then (no_rule a)\<lparr>
        AR_RequiredRoles := [RoleCustomizationOperator, RoleDesigner, RoleOps] @ managerRoles,
        AR_AllowedStatuses := [TaskStatusPendingCustomizationProduction, TaskStatusPendingEffectRevision,
            TaskStatusRejectedByWarehouse],
        AR_AllowedScopes := [TaskActionScopeViewAll, TaskActionScopeManagedDepartment,
            TaskActionScopeManagedTeam, TaskActionScopeDepartment, TaskActionScopeTeam,
            TaskActionScopeHandler, TaskActionScopeStage],
        AR_PreferHandlerDeny := True,
        AR_MatchedRule := ''customization_effect_preview_scope''\<rparr>
     else if a = TaskActionCustomizationEffectReview then (no_rule a)\<lparr>
        AR_RequiredRoles := [RoleCustomizationReviewer] @ managerRoles,
        AR_AllowedStatuses := [TaskStatusPendingEffectReview],
        AR_AllowedScopes := [TaskActionScopeViewAll, TaskActionScopeManagedDepartment,
            TaskActionScopeManagedTeam, TaskActionScopeDepartment, TaskActionScopeTeam,
            TaskActionScopeStage],
        AR_StatusDenyCode := ''customization_stage_mismatch'',
        AR_MatchedRule := ''customization_effect_review_scope''\<rparr>
     else if a = TaskActionCustomizationTransfer then (no_rule a)\<lparr>
        AR_RequiredRoles := [RoleCustomizationOperator, RoleDesigner, RoleOps] @ managerRoles,
        AR_AllowedStatuses := [TaskStatusPendingProductionTransfer],
        AR_AllowedScopes := [TaskActionScopeViewAll, TaskActionScopeManagedDepartment,
            TaskActionScopeManagedTeam, TaskActionScopeDepartment, TaskActionScopeTeam,
            TaskActionScopeHandler, TaskActionScopeStage],
        AR_PreferHandlerDeny := True,
        AR_StatusDenyCode := ''customization_stage_mismatch'',
        AR_MatchedRule := ''customization_transfer_scope''\<rparr>
     else if a = TaskActionUpdateBusinessInfo \<or>
        a = TaskActionUpdateProcurement \<or>
        a = TaskActionAdvanceProcurement then (no_rule a)\<lparr>
        AR_RequiredRoles := [RoleOps, RoleWarehouse] @ managerRoles,
        AR_AllowedScopes := [TaskActionScopeViewAll, TaskActionScopeManagedDepartment,
            TaskActionScopeManagedTeam, TaskActionScopeDepartment, TaskActionScopeTeam,
            TaskActionScopeCreator, TaskActionScopeHandler],
        AR_MatchedRule := ''role_plus_maintenance_scope''\<rparr>
     else if a = TaskActionClose then (no_rule a)\<lparr>
        AR_RequiredRoles := [RoleOps, RoleWarehouse] @ managerRoles,
        AR_AllowedStatuses := [TaskStatusPendingClose],
        AR_AllowedScopes := [TaskActionScopeViewAll, TaskActionScopeManagedDepartment,
            TaskActionScopeManagedTeam, TaskActionScopeDepartment, TaskActionScopeTeam,
            TaskActionScopeStage],
        AR_StatusDenyCode := ''task_not_closable'',
        AR_MatchedRule := ''role_plus_maintenance_scope''\<rparr>
     else (no_rule a)\<lparr>AR_MatchedRule := ''unconfigured_rule''\<rparr>)"

subsection \<open>Facts on roles\<close>

lemma hasRoleValue_iff [simp]: "hasRoleValue roles target \<longleftrightarrow> target \<in> set roles"
  by (auto simp: hasRoleValue_def list_ex_iff)

lemma hasAnyRoleValue_iff: "hasAnyRoleValue roles targets \<longleftrightarrow> set roles \<inter> set targets \<noteq> {}"
  by (auto simp: hasAnyRoleValue_def list_ex_iff)

lemma set_add_role: "set (add_role item roles) = set roles \<union> {r \<in> {TrimSpace item}. IsKnownRole r}"
proof -
  have "\<not> IsKnownRole []" by (simp add: IsKnownRole_def)
  then show ?thesis by (auto simp: add_role_def Let_def)
qed

lemma set_NormalizeRoles [simp]: "set (NormalizeRoles raw) = {r \<in> TrimSpace ` set raw. IsKnownRole r}"
proof -
  have "set (fold add_role raw out) = set out \<union> {r \<in> TrimSpace ` set raw. IsKnownRole r}" for out
    by (induction raw arbitrary: out) (auto simp: set_add_role)
  from this [of "[]"] show ?thesis by (simp add: NormalizeRoles_def)
qed

lemma known_roles_trimmed:
  assumes "IsKnownRole r"
  shows "TrimSpace r = r"
proof -
  have "list_all printable r" "r \<noteq> []"
    using assms by (auto simp: IsKnownRole_def printable_def)
  then show ?thesis using TrimSpace_printable [of r 0] by simp
qed

end
