(* ===== verification/Task_Org.thy ===== *)
theory Task_Org
  imports Module_Domain Go_Strings "HOL-Library.AList" "HOL-Library.Multiset"
begin

section \<open>Departments and teams of a task\<close>

text \<open>
  Which department and which team a task belongs to: \<^verbatim>\<open>service/task_department_canonical.go\<close>,
  \<^verbatim>\<open>service/task_org_catalog.go\<close>, \<^verbatim>\<open>service/task_owner_team.go\<close> and
  \<^verbatim>\<open>service/task_org_ownership.go\<close>, with the default tables of \<^verbatim>\<open>domain/auth_identity.go\<close>. The
  catalog is a global of the service, rebuilt from the settings at start; the operations here take
  it as an argument (\<^verbatim>\<open>getTaskOrgCatalog\<close> hands out a copy, which values are).

  A Go map of slices is the list of its entries in the order a \<^verbatim>\<open>range\<close> visits them. That order
  is not fixed by the language: a builder's argument is one of the orders, and what the result
  owes to it is stated below.
\<close>

type_synonym slices = "(string \<times> string list) list"

definition slices_get :: "slices \<Rightarrow> string \<Rightarrow> string list" where
  "slices_get m k = (case map_of m k of None \<Rightarrow> [] | Some v \<Rightarrow> v)"

subsection \<open>Names\<close>

text \<open>\<open>utf8\<close> reads hexadecimal digits as bytes; the tables are written with it.\<close>

definition nibble :: "char \<Rightarrow> nat" where
  "nibble c = (let n = of_char c :: nat in if 65 \<le> n then n - 55 else n - 48)"

fun utf8 :: "string \<Rightarrow> string" where
  "utf8 (a # b # s) = char_of (16 * nibble a + nibble b) # utf8 s"
| "utf8 _ = []"

definition DepartmentHR :: string where [module_names]:
  "DepartmentHR = [CHR 0xE4, CHR 0xBA, CHR 0xBA, CHR 0xE4, CHR 0xBA, CHR 0x8B, CHR 0xE9, CHR 0x83,
      CHR 0xA8]"

definition DepartmentUnassigned :: string where [module_names]:
  "DepartmentUnassigned = [CHR 0xE6, CHR 0x9C, CHR 0xAA, CHR 0xE5, CHR 0x88, CHR 0x86, CHR 0xE9, CHR 0x85,
      CHR 0x8D]"

definition DepartmentDesign :: string where [module_names]:
  "DepartmentDesign = [CHR 0xE8, CHR 0xAE, CHR 0xBE, CHR 0xE8, CHR 0xAE, CHR 0xA1, CHR 0xE9, CHR 0x83,
      CHR 0xA8]"

definition DepartmentWarehouse :: string where [module_names]:
  "DepartmentWarehouse = [CHR 0xE4, CHR 0xBB, CHR 0x93, CHR 0xE5, CHR 0x82, CHR 0xA8, CHR 0xE9, CHR 0x83,
      CHR 0xA8]"

definition DepartmentBakeryWH :: string where [module_names]:
  "DepartmentBakeryWH = [CHR 0xE7, CHR 0x83, CHR 0x98, CHR 0xE7, CHR 0x84, CHR 0x99, CHR 0xE4, CHR 0xBB,
      CHR 0x93, CHR 0xE5, CHR 0x82, CHR 0xA8, CHR 0xE9, CHR 0x83, CHR 0xA8]"

definition DefaultOrgDepartmentTeams :: slices where
  "DefaultOrgDepartmentTeams = [
     (DepartmentHR, [team_default, utf8 ''E4BABAE4BA8BE7AEA1E79086E7BB84'']),
     (DepartmentDesignRD, [team_default, utf8 ''E7A094E58F91E9BB98E8AEA4E7BB84'']),
     (DepartmentCustomizationArt, [team_default, utf8 ''E5AE9AE588B6E9BB98E8AEA4E7BB84'']),
     (DepartmentAudit, [team_audit_plain,
       team_audit_custom_art,
       team_audit_regular, team_audit_custom]),
     (DepartmentOperations, [utf8 ''E6B798E7B3BBE4B880E7BB84'', utf8 ''E6B798E7B3BBE4BA8CE7BB84'',
       utf8 ''E5A4A9E78CABE4B880E7BB84'', utf8 ''E5A4A9E78CABE4BA8CE7BB84'',
       utf8 ''E68BBCE5A49AE5A49AE58D97E4BAACE7BB84'',
       utf8 ''E68BBCE5A49AE5A49AE6B1A0E5B79EE7BB84'', utf8 ''E8BF90E890A5E4B880E7BB84'',
       utf8 ''E8BF90E890A5E4BA8CE7BB84'', utf8 ''E8BF90E890A5E4B889E7BB84'',
       utf8 ''E8BF90E890A5E59B9BE7BB84'', utf8 ''E8BF90E890A5E4BA94E7BB84'',
       utf8 ''E8BF90E890A5E585ADE7BB84'', utf8 ''E8BF90E890A5E4B883E7BB84'']),
     (DepartmentCloudWarehouse, [team_default, utf8 ''E4BA91E4BB93E9BB98E8AEA4E7BB84'']),
     (DepartmentUnassigned, [utf8 ''E69CAAE58886E9858DE6B1A0'']),
     (DepartmentDesign, [utf8 ''E8AEBEE8AEA1E7BB84'', utf8 ''E5AE9AE588B6E7BE8EE5B7A5E7BB84'',
       utf8 ''E8AEBEE8AEA1E5AEA1E6A0B8E7BB84'']),
     (DepartmentProcurement, [utf8 ''E98787E8B4ADE7BB84'']),
     (DepartmentWarehouse, [utf8 ''E4BB93E582A8E7BB84'']),
     (DepartmentBakeryWH, [utf8 ''E78398E78499E4BB93E582A8E7BB84''])]"

definition DefaultDepartmentTeams :: slices where
  "DefaultDepartmentTeams = [
     (utf8 ''E4BABAE58A9BE8A18CE694BFE4B8ADE5BF83'', [utf8 ''E4BABAE58A9BE8A18CE694BFE7BB84'']),
     (utf8 ''E8AEBEE8AEA1E983A8'', [utf8 ''E8AEBEE8AEA1E7BB84'']),
     (utf8 ''E58685E8B4B8E8BF90E890A5E983A8'', [utf8 ''E58685E8B4B8E8BF90E890A5E7BB84'']),
     (utf8 ''E98787E8B4ADE4BB93E582A8E983A8'', [utf8 ''E98787E8B4ADE4BB93E582A8E7BB84'']),
     (utf8 ''E680BBE7BB8FE58A9E'', [utf8 ''E680BBE7BB8FE58A9EE7BB84''])]"

definition DefaultTaskTeamMappings :: slices where
  "DefaultTaskTeamMappings = [
     (DepartmentDesign, [utf8 ''E8AEBEE8AEA1E7BB84'']),
     (DepartmentOperations, [utf8 ''E58685E8B4B8E8BF90E890A5E7BB84'']),
     (DepartmentProcurement, [utf8 ''E98787E8B4ADE4BB93E582A8E7BB84'']),
     (DepartmentWarehouse, [utf8 ''E98787E8B4ADE4BB93E582A8E7BB84'']),
     (DepartmentBakeryWH, [utf8 ''E98787E8B4ADE4BB93E582A8E7BB84''])]"

definition ValidTeam :: "string \<Rightarrow> bool" where
  "ValidTeam team = list_ex (\<lambda>(_, teams). list_ex (\<lambda>t. t = team) teams) DefaultDepartmentTeams"

subsection \<open>Canonical departments\<close>

definition normalizeTaskDepartmentCode :: "string \<Rightarrow> string" where
  "normalizeTaskDepartmentCode department =
     (let d = TrimSpace department in
      if d = [] then []
      else if d = DepartmentDesign then DepartmentDesignRD
      else if d = DepartmentProcurement \<or> d = DepartmentWarehouse \<or> d = DepartmentBakeryWH
        then DepartmentCloudWarehouse
      else d)"

text \<open>
  The loops that normalise every value of a slice, skip blanks and keep the first of equal
  results: the set of values seen is the set of values kept.
\<close>

definition keep_new :: "string \<Rightarrow> string list \<Rightarrow> string list" where
  "keep_new v out = (if v = [] then out else if v \<in> set out then out else out @ [v])"

definition keep_first :: "(string \<Rightarrow> string) \<Rightarrow> string list \<Rightarrow> string list" where
  "keep_first f values = fold (\<lambda>value. keep_new (f value)) values []"

definition normalizeTaskDepartmentCodes :: "string list \<Rightarrow> string list" where
  "normalizeTaskDepartmentCodes values = keep_first normalizeTaskDepartmentCode values"

definition normalizeTaskOwnershipStrings :: "string list \<Rightarrow> string list" where
  "normalizeTaskOwnershipStrings values = keep_first TrimSpace values"

definition taskSourceDepartment :: "Task \<Rightarrow> string" where
  "taskSourceDepartment task =
     (if T_TaskType task = TaskTypePurchaseTask then DepartmentCloudWarehouse
      else if NormalizeTaskBusinessLane (T_BusinessLane task) (T_CustomizationRequired task) =
              TaskBusinessLaneCustomization \<and> T_CustomizationRequired task
        then DepartmentCustomizationArt
      else DepartmentDesignRD)"

subsection \<open>The catalog\<close>

record taskOrgCatalog =
  configuredDepartments :: "string list"
  orgTeamDepartmentMap :: "string \<rightharpoonup> string"
  legacyOwnerTeamDeptsMap :: slices
  departmentLegacyTeams :: slices
  ownerTeamCompatMappings :: "(string \<times> string) list"
  ownerTeamCompatMap :: "string \<rightharpoonup> string"

definition cloneStringSliceMap :: "slices \<Rightarrow> slices" where
  "cloneStringSliceMap m = fold (\<lambda>(key, values) out. AList.update (TrimSpace key) values out) m []"

definition buildTaskConfiguredDepartments :: "slices \<Rightarrow> string list" where
  "buildTaskConfiguredDepartments departmentTeams =
     keep_first normalizeTaskDepartmentCode (map fst departmentTeams)"

definition buildTaskOrgTeamDepartmentMap :: "slices \<Rightarrow> (string \<rightharpoonup> string)" where
  "buildTaskOrgTeamDepartmentMap source = fold (\<lambda>(department, teams).
     fold (\<lambda>team result. let trimmed = TrimSpace team in
       if trimmed = [] then result
       else result(trimmed \<mapsto> normalizeTaskDepartmentCode department)) teams) source Map.empty"

text \<open>Append a value to a slice of the map unless it is there.\<close>

definition add_uniq :: "string \<Rightarrow> string \<Rightarrow> slices \<Rightarrow> slices" where
  "add_uniq key v m =
     (if v \<in> set (slices_get m key) then m else AList.update key (slices_get m key @ [v]) m)"

definition buildTaskLegacyOwnerTeamDepartments :: "slices \<Rightarrow> slices" where
  "buildTaskLegacyOwnerTeamDepartments source = fold (\<lambda>(department, teams).
     fold (\<lambda>team result.
       let trimmedTeam = TrimSpace team; trimmedDepartment = normalizeTaskDepartmentCode department in
       if trimmedTeam = [] \<or> trimmedDepartment = [] then result
       else add_uniq trimmedTeam trimmedDepartment result) teams) source []"

definition buildTaskLegacyOwnerTeamDepartmentsWithFallback :: "slices \<Rightarrow> slices \<Rightarrow> slices" where
  "buildTaskLegacyOwnerTeamDepartmentsWithFallback departmentTeams taskTeamMappings =
     fold (\<lambda>(department, teams) result.
       let trimmedDepartment = normalizeTaskDepartmentCode department in
       if trimmedDepartment = [] \<or>
          normalizeTaskOwnershipStrings (slices_get taskTeamMappings department) \<noteq> [] then result
       else fold (\<lambda>team result. let trimmedTeam = TrimSpace team in
              if trimmedTeam = [] then result else add_uniq trimmedTeam trimmedDepartment result)
            teams result)
     departmentTeams (buildTaskLegacyOwnerTeamDepartments taskTeamMappings)"

definition buildTaskDepartmentLegacyTeams :: "slices \<Rightarrow> slices" where
  "buildTaskDepartmentLegacyTeams source = fold (\<lambda>(department, teams) result.
     let trimmedDepartment = normalizeTaskDepartmentCode department in
     if trimmedDepartment = [] then result
     else fold (\<lambda>team result. let trimmedTeam = TrimSpace team in
            if trimmedTeam = [] then result else add_uniq trimmedDepartment trimmedTeam result)
          teams result) source []"

definition buildTaskDepartmentLegacyTeamsWithFallback :: "slices \<Rightarrow> slices \<Rightarrow> slices" where
  "buildTaskDepartmentLegacyTeamsWithFallback departmentTeams taskTeamMappings =
     fold (\<lambda>(department, teams) result.
       let trimmedDepartment = normalizeTaskDepartmentCode department in
       if trimmedDepartment = [] then result
       else if normalizeTaskOwnershipStrings (slices_get result trimmedDepartment) \<noteq> [] then result
       else fold (\<lambda>team result. let trimmedTeam = TrimSpace team in
              if trimmedTeam = [] then result else add_uniq trimmedDepartment trimmedTeam result)
            teams result)
     departmentTeams (buildTaskDepartmentLegacyTeams taskTeamMappings)"

definition buildTaskOwnerTeamCompatMappings :: "slices \<Rightarrow> slices \<Rightarrow> (string \<times> string) list" where
  "buildTaskOwnerTeamCompatMappings departmentTeams taskTeamMappings =
     snd (fold (\<lambda>(department, orgTeams) acc.
       case normalizeTaskOwnershipStrings (slices_get taskTeamMappings department) of
         [legacyOwnerTeam] \<Rightarrow>
           if \<not> ValidTeam legacyOwnerTeam then acc
           else fold (\<lambda>orgTeam (seen, out).
             if orgTeam = [] \<or> orgTeam = legacyOwnerTeam then (seen, out)
             else let key = orgTeam @ [CHR 0x00] @ legacyOwnerTeam in
               if key \<in> set seen then (seen, out)
               else (key # seen, out @ [(orgTeam, legacyOwnerTeam)]))
             (normalizeTaskOwnershipStrings orgTeams) acc
       | _ \<Rightarrow> acc) departmentTeams ([], []))"

definition buildTaskCreateOwnerTeamCompatMap :: "(string \<times> string) list \<Rightarrow> (string \<rightharpoonup> string)" where
  "buildTaskCreateOwnerTeamCompatMap mappings = fold (\<lambda>(org, legacy) compat.
     let orgTeam = TrimSpace org; legacyOwnerTeam = TrimSpace legacy in
     if orgTeam = [] \<or> legacyOwnerTeam = [] then compat
     else compat(orgTeam \<mapsto> legacyOwnerTeam)) mappings Map.empty"

definition buildTaskOrgCatalog :: "slices \<Rightarrow> slices \<Rightarrow> taskOrgCatalog" where
  "buildTaskOrgCatalog settings_DepartmentTeams settings_TaskTeamMappings =
     (let departmentTeams0 = cloneStringSliceMap settings_DepartmentTeams;
          departmentTeams = (if departmentTeams0 = [] then cloneStringSliceMap DefaultOrgDepartmentTeams
                             else departmentTeams0);
          configured0 = cloneStringSliceMap settings_TaskTeamMappings;
          configuredTaskMappings = (if configured0 = [] then cloneStringSliceMap DefaultTaskTeamMappings
                                    else configured0);
          taskTeamMappings = fold (\<lambda>(department, teams) m. AList.update (TrimSpace department) teams m)
            configuredTaskMappings (cloneStringSliceMap DefaultDepartmentTeams);
          compatMappings = buildTaskOwnerTeamCompatMappings departmentTeams taskTeamMappings
      in \<lparr>configuredDepartments = buildTaskConfiguredDepartments departmentTeams,
          orgTeamDepartmentMap = buildTaskOrgTeamDepartmentMap departmentTeams,
          legacyOwnerTeamDeptsMap = buildTaskLegacyOwnerTeamDepartmentsWithFallback departmentTeams taskTeamMappings,
          departmentLegacyTeams = buildTaskDepartmentLegacyTeamsWithFallback departmentTeams taskTeamMappings,
          ownerTeamCompatMappings = compatMappings,
          ownerTeamCompatMap = buildTaskCreateOwnerTeamCompatMap compatMappings\<rparr>)"

subsection \<open>Look-ups\<close>

definition canonicalDepartmentForTaskOrgTeam :: "taskOrgCatalog \<Rightarrow> string \<Rightarrow> string option" where
  "canonicalDepartmentForTaskOrgTeam catalog team =
     map_option normalizeTaskDepartmentCode (orgTeamDepartmentMap catalog (TrimSpace team))"

definition validConfiguredTaskDepartment :: "taskOrgCatalog \<Rightarrow> string \<Rightarrow> bool" where
  "validConfiguredTaskDepartment catalog department \<longleftrightarrow>
     normalizeTaskDepartmentCode department \<in> set (configuredDepartments catalog)"

fun infer_loop :: "taskOrgCatalog \<Rightarrow> string \<Rightarrow> string list \<Rightarrow> string option" where
  "infer_loop catalog canonical [] = (if canonical = [] then None else Some canonical)"
| "infer_loop catalog canonical (department # departments) =
     (let normalizedDepartment = normalizeTaskDepartmentCode department in
      if normalizedDepartment \<notin> set (configuredDepartments catalog)
        then infer_loop catalog canonical departments
      else if canonical \<noteq> [] \<and> canonical \<noteq> normalizedDepartment then None
      else infer_loop catalog normalizedDepartment departments)"

definition inferCanonicalDepartmentFromLegacyOwnerTeam :: "taskOrgCatalog \<Rightarrow> string \<Rightarrow> string option" where
  "inferCanonicalDepartmentFromLegacyOwnerTeam catalog legacyOwnerTeam =
     (case slices_get (legacyOwnerTeamDeptsMap catalog) (TrimSpace legacyOwnerTeam) of
        [] \<Rightarrow> None
      | [department] \<Rightarrow> Some (normalizeTaskDepartmentCode department)
      | departments \<Rightarrow> infer_loop catalog [] departments)"

definition departmentSupportsLegacyOwnerTeam :: "taskOrgCatalog \<Rightarrow> string \<Rightarrow> string \<Rightarrow> bool" where
  "departmentSupportsLegacyOwnerTeam catalog department legacyOwnerTeam =
     list_ex (\<lambda>candidate. candidate = TrimSpace legacyOwnerTeam)
       (slices_get (departmentLegacyTeams catalog) (normalizeTaskDepartmentCode department))"

definition validConfiguredTaskLegacyOwnerTeam :: "taskOrgCatalog \<Rightarrow> string \<Rightarrow> bool" where
  "validConfiguredTaskLegacyOwnerTeam catalog team =
     (let trimmed = TrimSpace team in
      trimmed \<noteq> [] \<and>
      list_ex (\<lambda>(_, teams). list_ex (\<lambda>candidate. candidate = trimmed) teams) (departmentLegacyTeams catalog))"

datatype mappingSource = taskOwnerTeamMappingSourceLegacyDirect
  | taskOwnerTeamMappingSourceOrgTeamCompat | taskOwnerTeamMappingSourceInvalid

record taskOwnerTeamResolution =
  TR_Normalized :: string
  TR_MappingApplied :: bool
  TR_MappingSource :: mappingSource

definition normalizeOwnerTeamForTaskCreate :: "taskOrgCatalog \<Rightarrow> string \<Rightarrow> taskOwnerTeamResolution" where
  "normalizeOwnerTeamForTaskCreate catalog raw =
     (let trimmed = TrimSpace raw in
      if trimmed = [] then \<lparr>TR_Normalized = [], TR_MappingApplied = False,
        TR_MappingSource = taskOwnerTeamMappingSourceInvalid\<rparr>
      else if validConfiguredTaskLegacyOwnerTeam catalog trimmed
        then \<lparr>TR_Normalized = trimmed, TR_MappingApplied = False,
               TR_MappingSource = taskOwnerTeamMappingSourceLegacyDirect\<rparr>
      else case ownerTeamCompatMap catalog trimmed of
        Some mapped \<Rightarrow>
          if validConfiguredTaskLegacyOwnerTeam catalog mapped
            then \<lparr>TR_Normalized = mapped, TR_MappingApplied = True,
                   TR_MappingSource = taskOwnerTeamMappingSourceOrgTeamCompat\<rparr>
          else \<lparr>TR_Normalized = trimmed, TR_MappingApplied = False,
                 TR_MappingSource = taskOwnerTeamMappingSourceInvalid\<rparr>
      | None \<Rightarrow> \<lparr>TR_Normalized = trimmed, TR_MappingApplied = False,
                TR_MappingSource = taskOwnerTeamMappingSourceInvalid\<rparr>)"

subsection \<open>Ownership of a task\<close>

record taskCanonicalOrgOwnership =
  OO_OwnerDepartment :: string
  OO_OwnerOrgTeam :: string
  OO_LegacyOwnerTeam :: string

text \<open>The owner fields of \<^verbatim>\<open>CreateTaskParams\<close>: as requested, and the normalised team.\<close>

record CreateOwnerParams =
  CP_rawOwnerDepartment :: string
  CP_rawOwnerOrgTeam :: string
  CP_rawOwnerTeam :: string
  CP_OwnerTeam :: string

text \<open>The violation a refused request is answered with (a code names its field).\<close>

datatype ownerViolation = invalid_owner_department | invalid_owner_org_team
  | unsupported_owner_org_team | owner_department_owner_org_team_mismatch | invalid_owner_team
  | owner_team_owner_org_team_mismatch | owner_department_owner_team_mismatch

definition resolveTaskCanonicalOrgOwnership ::
  "taskOrgCatalog \<Rightarrow> CreateOwnerParams \<Rightarrow> ownerViolation + taskCanonicalOrgOwnership" where
  "resolveTaskCanonicalOrgOwnership catalog p =
     (let rawOwnerDepartment = normalizeTaskDepartmentCode (CP_rawOwnerDepartment p);
          rawOwnerOrgTeam = TrimSpace (CP_rawOwnerOrgTeam p);
          rawOwnerTeam = TrimSpace (CP_rawOwnerTeam p);
          legacyOwnerTeam = TrimSpace (CP_OwnerTeam p)
      in if rawOwnerDepartment \<noteq> [] \<and> \<not> validConfiguredTaskDepartment catalog rawOwnerDepartment
           then Inl invalid_owner_department
         else if rawOwnerOrgTeam \<noteq> [] then
           (case canonicalDepartmentForTaskOrgTeam catalog rawOwnerOrgTeam of
              None \<Rightarrow> Inl invalid_owner_org_team
            | Some department \<Rightarrow>
              (case (case ownerTeamCompatMap catalog rawOwnerOrgTeam of
                       Some legacy \<Rightarrow> Some legacy
                     | None \<Rightarrow> if validConfiguredTaskLegacyOwnerTeam catalog rawOwnerOrgTeam
                               then Some rawOwnerOrgTeam else None) of
                 None \<Rightarrow> Inl unsupported_owner_org_team
               | Some legacyFromOrgTeam \<Rightarrow>
                 if rawOwnerDepartment \<noteq> [] \<and> rawOwnerDepartment \<noteq> department
                   then Inl owner_department_owner_org_team_mismatch
                 else let r = normalizeOwnerTeamForTaskCreate catalog rawOwnerTeam in
                   if rawOwnerTeam \<noteq> [] \<and> TR_MappingSource r = taskOwnerTeamMappingSourceInvalid
                     then Inl invalid_owner_team
                   else if rawOwnerTeam \<noteq> [] \<and> TR_Normalized r \<noteq> legacyFromOrgTeam
                     then Inl owner_team_owner_org_team_mismatch
                   else if rawOwnerTeam \<noteq> [] \<and> TR_MappingSource r = taskOwnerTeamMappingSourceOrgTeamCompat \<and>
                           rawOwnerTeam \<noteq> rawOwnerOrgTeam
                     then Inl owner_team_owner_org_team_mismatch
                   else Inr \<lparr>OO_OwnerDepartment = department, OO_OwnerOrgTeam = rawOwnerOrgTeam,
                              OO_LegacyOwnerTeam = legacyFromOrgTeam\<rparr>))
         else case (if rawOwnerTeam \<noteq> [] then canonicalDepartmentForTaskOrgTeam catalog rawOwnerTeam else None) of
           Some department \<Rightarrow> Inr \<lparr>OO_OwnerDepartment = department, OO_OwnerOrgTeam = rawOwnerTeam,
             OO_LegacyOwnerTeam = legacyOwnerTeam\<rparr>
         | None \<Rightarrow>
           if rawOwnerDepartment \<noteq> [] then
             (if legacyOwnerTeam \<noteq> [] \<and> ValidTeam legacyOwnerTeam \<and>
                 \<not> departmentSupportsLegacyOwnerTeam catalog rawOwnerDepartment legacyOwnerTeam
                then Inl owner_department_owner_team_mismatch
              else Inr \<lparr>OO_OwnerDepartment = rawOwnerDepartment, OO_OwnerOrgTeam = [],
                         OO_LegacyOwnerTeam = legacyOwnerTeam\<rparr>)
           else Inr \<lparr>OO_OwnerDepartment =
                  (case inferCanonicalDepartmentFromLegacyOwnerTeam catalog legacyOwnerTeam of
                     Some department \<Rightarrow> department | None \<Rightarrow> []),
                OO_OwnerOrgTeam = [], OO_LegacyOwnerTeam = legacyOwnerTeam\<rparr>)"

definition buildTaskReadModelOrgOwnership ::
  "taskOrgCatalog \<Rightarrow> string \<Rightarrow> string \<Rightarrow> string \<Rightarrow> taskCanonicalOrgOwnership" where
  "buildTaskReadModelOrgOwnership catalog ownerDepartment ownerOrgTeam legacyOwnerTeam =
     (let department0 = normalizeTaskDepartmentCode ownerDepartment;
          orgTeam = TrimSpace ownerOrgTeam;
          legacy = TrimSpace legacyOwnerTeam;
          department =
            (if department0 \<noteq> [] then department0
             else if orgTeam \<noteq> [] then
               (case canonicalDepartmentForTaskOrgTeam catalog orgTeam of
                  Some d \<Rightarrow> d | None \<Rightarrow> department0)
             else case inferCanonicalDepartmentFromLegacyOwnerTeam catalog legacy of
                  Some d \<Rightarrow> d | None \<Rightarrow> department0)
      in \<lparr>OO_OwnerDepartment = department, OO_OwnerOrgTeam = orgTeam, OO_LegacyOwnerTeam = legacy\<rparr>)"

definition applyTaskReadModelOrgOwnership :: "taskOrgCatalog \<Rightarrow> Task \<Rightarrow> Task" where
  "applyTaskReadModelOrgOwnership catalog task =
     (let ownership = buildTaskReadModelOrgOwnership catalog (T_OwnerDepartment task)
            (T_OwnerOrgTeam task) (T_OwnerTeam task)
      in task\<lparr>T_OwnerDepartment := OO_OwnerDepartment ownership,
              T_OwnerOrgTeam := OO_OwnerOrgTeam ownership\<rparr>)"


subsection \<open>Normal forms\<close>

lemma canonical_departments:
  "normalizeTaskDepartmentCode DepartmentDesignRD = DepartmentDesignRD"
  "normalizeTaskDepartmentCode DepartmentCloudWarehouse = DepartmentCloudWarehouse"
  "TrimSpace DepartmentDesignRD = DepartmentDesignRD"
  "TrimSpace DepartmentCloudWarehouse = DepartmentCloudWarehouse"
  "normalizeTaskDepartmentCode [] = []"
  by (simp_all add: normalizeTaskDepartmentCode_def module_names string_eval)

lemma normalize_trimmed [simp]:
  "TrimSpace (normalizeTaskDepartmentCode d) = normalizeTaskDepartmentCode d"
  by (simp add: normalizeTaskDepartmentCode_def canonical_departments Let_def)

lemma normalize_idem [simp]:
  "normalizeTaskDepartmentCode (normalizeTaskDepartmentCode d) = normalizeTaskDepartmentCode d"
proof -
  have "normalizeTaskDepartmentCode d \<in> {[], DepartmentDesignRD, DepartmentCloudWarehouse} \<or>
    normalizeTaskDepartmentCode d = TrimSpace d"
    by (auto simp: normalizeTaskDepartmentCode_def Let_def)
  moreover have "normalizeTaskDepartmentCode (TrimSpace d) = normalizeTaskDepartmentCode d"
    by (simp add: normalizeTaskDepartmentCode_def)
  ultimately show ?thesis using canonical_departments by auto
qed

lemma keep_first_fold:
  "set (fold (\<lambda>value. keep_new (f value)) values out) = set out \<union> (f ` set values - {[]}) \<and>
   (distinct out \<longrightarrow> distinct (fold (\<lambda>value. keep_new (f value)) values out))"
proof (induction "values" arbitrary: out)
  case (Cons v vs)
  have new: "set (keep_new (f v) out) = set out \<union> ({f v} - {[]})"
    "distinct out \<Longrightarrow> distinct (keep_new (f v) out)"
    by (auto simp: keep_new_def)
  show ?case using Cons [of "keep_new (f v) out"] new by (simp add: Un_assoc Un_Diff [symmetric])
qed simp

lemma set_keep_first [simp]: "set (keep_first f values) = f ` set values - {[]}"
  and distinct_keep_first [simp]: "distinct (keep_first f values)"
  using keep_first_fold [of f "values" "[]"] by (simp_all add: keep_first_def)

lemma compat_trimmed:
  assumes "buildTaskCreateOwnerTeamCompatMap ms t = Some l"
  shows "TrimSpace l = l"
proof -
  have "\<forall>t l. buildTaskCreateOwnerTeamCompatMap ms t = Some l \<longrightarrow> TrimSpace l = l"
    unfolding buildTaskCreateOwnerTeamCompatMap_def
  proof (rule fold_invariant [where Q = "\<lambda>_. True" and P = "\<lambda>m. \<forall>t l. m t = Some l \<longrightarrow> TrimSpace l = l"])
    show "\<forall>t l. (case x of (org, legacy) \<Rightarrow> \<lambda>compat.
        let orgTeam = TrimSpace org; legacyOwnerTeam = TrimSpace legacy in
        if orgTeam = [] \<or> legacyOwnerTeam = [] then compat
        else compat(orgTeam \<mapsto> legacyOwnerTeam)) m t = Some l \<longrightarrow> TrimSpace l = l"
      if "\<forall>t l. m t = Some l \<longrightarrow> TrimSpace l = l" for x :: "string \<times> string" and m
      using that by (cases x) (simp add: Let_def)
  qed simp_all
  then show ?thesis using assms by blast
qed

lemma catalog_compat_trimmed:
  "ownerTeamCompatMap (buildTaskOrgCatalog departmentTeams mappings) t = Some l \<Longrightarrow> TrimSpace l = l"
  by (auto simp: buildTaskOrgCatalog_def Let_def intro: compat_trimmed)

lemma canonicalDepartment_normal:
  "canonicalDepartmentForTaskOrgTeam catalog t = Some d \<Longrightarrow> normalizeTaskDepartmentCode d = d"
  by (auto simp: canonicalDepartmentForTaskOrgTeam_def)

lemma canonicalDepartment_trim [simp]:
  "canonicalDepartmentForTaskOrgTeam catalog (TrimSpace t) = canonicalDepartmentForTaskOrgTeam catalog t"
  by (simp add: canonicalDepartmentForTaskOrgTeam_def)

lemma infer_loop_normal:
  "infer_loop catalog c ds = Some d \<Longrightarrow> normalizeTaskDepartmentCode c = c \<Longrightarrow>
   normalizeTaskDepartmentCode d = d"
  by (induction ds arbitrary: c) (auto simp: Let_def split: if_splits)

lemma infer_normal:
  assumes "inferCanonicalDepartmentFromLegacyOwnerTeam catalog t = Some d"
  shows "normalizeTaskDepartmentCode d = d"
  using assms infer_loop_normal [of catalog "[]"] canonical_departments(5)
  unfolding inferCanonicalDepartmentFromLegacyOwnerTeam_def
  by (auto split: list.splits simp del: infer_loop.simps)

lemma resolve_cases:
  assumes "resolveTaskCanonicalOrgOwnership catalog p = Inr own"
  obtains (org_team)
    "canonicalDepartmentForTaskOrgTeam catalog (TrimSpace (CP_rawOwnerOrgTeam p)) = Some (OO_OwnerDepartment own)"
    "OO_OwnerOrgTeam own = TrimSpace (CP_rawOwnerOrgTeam p)" "OO_OwnerOrgTeam own \<noteq> []"
    "ownerTeamCompatMap catalog (OO_OwnerOrgTeam own) = Some (OO_LegacyOwnerTeam own) \<or>
     OO_LegacyOwnerTeam own = OO_OwnerOrgTeam own"
    "normalizeTaskDepartmentCode (CP_rawOwnerDepartment p) \<in> {[], OO_OwnerDepartment own}"
  | (team)
    "canonicalDepartmentForTaskOrgTeam catalog (TrimSpace (CP_rawOwnerTeam p)) = Some (OO_OwnerDepartment own)"
    "OO_OwnerOrgTeam own = TrimSpace (CP_rawOwnerTeam p)" "OO_OwnerOrgTeam own \<noteq> []"
    "OO_LegacyOwnerTeam own = TrimSpace (CP_OwnerTeam p)"
  | (department)
    "OO_OwnerDepartment own = normalizeTaskDepartmentCode (CP_rawOwnerDepartment p)"
    "OO_OwnerDepartment own \<noteq> []" "OO_OwnerOrgTeam own = []"
    "OO_LegacyOwnerTeam own = TrimSpace (CP_OwnerTeam p)"
  | (legacy)
    "OO_OwnerDepartment own = (case inferCanonicalDepartmentFromLegacyOwnerTeam catalog
       (TrimSpace (CP_OwnerTeam p)) of Some d \<Rightarrow> d | None \<Rightarrow> [])" "OO_OwnerOrgTeam own = []"
    "OO_LegacyOwnerTeam own = TrimSpace (CP_OwnerTeam p)"
proof (cases "TrimSpace (CP_rawOwnerOrgTeam p) = []")
  case True
  then show ?thesis
    using assms that(2-4) unfolding resolveTaskCanonicalOrgOwnership_def Let_def
    by (simp split: if_split_asm option.split_asm) auto
next
  case False
  then show ?thesis
    using assms that(1) unfolding resolveTaskCanonicalOrgOwnership_def Let_def
    by (simp split: if_split_asm option.split_asm) auto
qed

subsection \<open>What is stored reads back\<close>

text \<open>
  (C38) The ownership resolved for a new task is a fixed point of the read model: a task that is
  created with it is later shown, filtered and authorised under the same department and team.
\<close>

theorem created_ownership_reads_back:
  assumes "resolveTaskCanonicalOrgOwnership (buildTaskOrgCatalog departmentTeams mappings) p = Inr own"
  shows "buildTaskReadModelOrgOwnership (buildTaskOrgCatalog departmentTeams mappings)
    (OO_OwnerDepartment own) (OO_OwnerOrgTeam own) (OO_LegacyOwnerTeam own) = own"
  using assms
proof (cases rule: resolve_cases)
  case org_team
  then show ?thesis using canonicalDepartment_normal catalog_compat_trimmed
    by (auto simp: buildTaskReadModelOrgOwnership_def Let_def)
next
  case team
  then show ?thesis using canonicalDepartment_normal
    by (auto simp: buildTaskReadModelOrgOwnership_def Let_def)
next
  case department
  then show ?thesis by (auto simp: buildTaskReadModelOrgOwnership_def Let_def)
next
  case legacy
  then show ?thesis using infer_normal
    by (auto simp: buildTaskReadModelOrgOwnership_def Let_def canonical_departments(5) split: option.splits)
qed

text \<open>A task created for the team \<open>T1\<close> of the department \<open>Dep\<close>.\<close>

theorem created_ownership_reads_back_witness:
  "buildTaskReadModelOrgOwnership (buildTaskOrgCatalog [(''Dep'', [''T1''])] []) ''Dep'' ''T1'' ''L'' =
    \<lparr>OO_OwnerDepartment = ''Dep'', OO_OwnerOrgTeam = ''T1'', OO_LegacyOwnerTeam = ''L''\<rparr>"
proof -
  let ?catalog = "buildTaskOrgCatalog [(''Dep'', [''T1''])] []"
  have clone: "cloneStringSliceMap [(''Dep'', [''T1''])] = [(''Dep'', [''T1''])]"
    by (simp add: cloneStringSliceMap_def string_eval)
  have trim: "TrimSpace ''T1'' = ''T1''" "TrimSpace ''L'' = ''L''" by (simp_all add: string_eval)
  have normal: "normalizeTaskDepartmentCode ''Dep'' = ''Dep''"
    by (simp add: normalizeTaskDepartmentCode_def module_names string_eval)
  have team: "canonicalDepartmentForTaskOrgTeam ?catalog ''T1'' = Some ''Dep''"
    by (simp add: canonicalDepartmentForTaskOrgTeam_def buildTaskOrgCatalog_def clone trim normal
        buildTaskOrgTeamDepartmentMap_def Let_def)
  have "resolveTaskCanonicalOrgOwnership ?catalog \<lparr>CP_rawOwnerDepartment = [], CP_rawOwnerOrgTeam = [],
      CP_rawOwnerTeam = ''T1'', CP_OwnerTeam = ''L''\<rparr> =
    Inr \<lparr>OO_OwnerDepartment = ''Dep'', OO_OwnerOrgTeam = ''T1'', OO_LegacyOwnerTeam = ''L''\<rparr>"
    by (simp add: resolveTaskCanonicalOrgOwnership_def team trim Let_def normalizeTaskDepartmentCode_def string_eval)
  from created_ownership_reads_back [OF this] show ?thesis by simp
qed

subsection \<open>The order of a range\<close>

text \<open>
  \<open>departments_of\<close>: the departments a table lists a team under. \<open>order_free\<close>: whichever order the
  runtime visits the table in, the team gets the same department.
\<close>

definition departments_of :: "slices \<Rightarrow> string \<Rightarrow> string list" where
  "departments_of source t = remdups (map (\<lambda>(department, _). normalizeTaskDepartmentCode department)
     (filter (\<lambda>(_, teams). t \<noteq> [] \<and> list_ex (\<lambda>team. TrimSpace team = t) teams) source))"

definition order_free :: "slices \<Rightarrow> string \<Rightarrow> bool" where
  "order_free source t \<longleftrightarrow> (\<forall>source'. mset source' = mset source \<longrightarrow>
     buildTaskOrgTeamDepartmentMap source' t = buildTaskOrgTeamDepartmentMap source t)"

lemma org_team_row:
  "fold (\<lambda>team result. let trimmed = TrimSpace team in
     if trimmed = [] then result else result(trimmed \<mapsto> d)) teams m t =
   (if t \<noteq> [] \<and> list_ex (\<lambda>team. TrimSpace team = t) teams then Some d else m t)"
proof (induction teams arbitrary: m)
  case (Cons team teams)
  then show ?case by (cases "TrimSpace team = []"; cases "t = []") (simp_all add: Let_def)
qed simp

lemma org_team_map_snoc:
  "buildTaskOrgTeamDepartmentMap (source @ [(department, teams)]) t =
   (if t \<noteq> [] \<and> list_ex (\<lambda>team. TrimSpace team = t) teams
    then Some (normalizeTaskDepartmentCode department)
    else buildTaskOrgTeamDepartmentMap source t)"
  by (simp add: buildTaskOrgTeamDepartmentMap_def org_team_row)

lemma departments_of_snoc:
  "set (departments_of (source @ [(department, teams)]) t) = set (departments_of source t) \<union>
     (if t \<noteq> [] \<and> list_ex (\<lambda>team. TrimSpace team = t) teams
      then {normalizeTaskDepartmentCode department} else {})"
  by (auto simp: departments_of_def)

lemma departments_of_mset: "mset source = mset source' \<Longrightarrow> set (departments_of source t) = set (departments_of source' t)"
  by (simp only: departments_of_def set_remdups set_map set_filter mset_eq_setD [of source source'])

lemma org_team_map_departments:
  "case buildTaskOrgTeamDepartmentMap source t of None \<Rightarrow> set (departments_of source t) = {}
   | Some d \<Rightarrow> d \<in> set (departments_of source t)"
proof (induction source rule: rev_induct)
  case Nil
  show ?case by (simp add: buildTaskOrgTeamDepartmentMap_def departments_of_def)
next
  case (snoc e source)
  then show ?case
    by (cases e; cases "t = []") (simp_all add: org_team_map_snoc departments_of_snoc split: option.splits)
qed

lemma order_free_last:
  assumes "order_free source t" and "d \<in> set (departments_of source t)"
  shows "buildTaskOrgTeamDepartmentMap source t = Some d"
proof -
  obtain department teams where e: "(department, teams) \<in> set source" "t \<noteq> []"
    "list_ex (\<lambda>team. TrimSpace team = t) teams" "d = normalizeTaskDepartmentCode department"
    using assms(2) by (auto simp: departments_of_def)
  have "mset (remove1 (department, teams) source @ [(department, teams)]) = mset source"
    using e(1) by simp
  with assms(1) e(2-4) show ?thesis unfolding order_free_def by (metis org_team_map_snoc)
qed

text \<open>
  The department of an org team depends on the order in which the runtime happens to visit the
  department table, unless every department that lists the team is the same after normalisation.
\<close>

theorem org_team_department_order_free_iff:
  "order_free source t \<longleftrightarrow> length (departments_of source t) \<le> 1"
proof
  assume "order_free source t"
  then have "card (set (departments_of source t)) \<le> 1"
    using order_free_last by (metis card_le_Suc0_iff_eq One_nat_def finite_set option.inject)
  then show "length (departments_of source t) \<le> 1"
    by (simp add: departments_of_def length_remdups_card_conv)
next
  assume short: "length (departments_of source t) \<le> 1"
  show "order_free source t"
    unfolding order_free_def
  proof (intro allI impI)
    fix source' assume "mset source' = mset source"
    then have same: "set (departments_of source' t) = set (departments_of source t)"
      by (rule departments_of_mset)
    have "a = b" if "a \<in> set (departments_of source t)" "b \<in> set (departments_of source t)" for a b
      using short that by (cases "departments_of source t") auto
    then show "buildTaskOrgTeamDepartmentMap source' t = buildTaskOrgTeamDepartmentMap source t"
      using org_team_map_departments [of source' t] org_team_map_departments [of source t] same
      by (auto split: option.splits)
  qed
qed

text \<open>The default table lists one team name under several departments.\<close>

lemma default_team_listed_twice: "2 \<le> length (departments_of DefaultOrgDepartmentTeams team_default)"
proof -
  have team: "TrimSpace team_default = team_default" "team_default \<noteq> []"
    by (simp_all add: module_names string_eval)
  have departments: "normalizeTaskDepartmentCode DepartmentHR = DepartmentHR"
    "normalizeTaskDepartmentCode DepartmentDesignRD = DepartmentDesignRD" "DepartmentHR \<noteq> DepartmentDesignRD"
    by (simp_all add: normalizeTaskDepartmentCode_def module_names string_eval)
  have listed: "normalizeTaskDepartmentCode d \<in> set (departments_of source team_default)"
    if "(d, team_default # ts) \<in> set source" for d ts source
    using team that by (force simp: departments_of_def)
  have "{DepartmentHR, DepartmentDesignRD} \<subseteq> set (departments_of DefaultOrgDepartmentTeams team_default)"
    using departments(1,2)
      listed [of DepartmentHR "[utf8 ''E4BABAE4BA8BE7AEA1E79086E7BB84'']" DefaultOrgDepartmentTeams]
      listed [of DepartmentDesignRD "[utf8 ''E7A094E58F91E9BB98E8AEA4E7BB84'']" DefaultOrgDepartmentTeams]
    by (simp add: DefaultOrgDepartmentTeams_def del: utf8.simps)
  then have "card {DepartmentHR, DepartmentDesignRD} \<le>
      card (set (departments_of DefaultOrgDepartmentTeams team_default))"
    by (rule card_mono [rotated]) simp
  then show ?thesis using departments(3) by (simp add: departments_of_def length_remdups_card_conv)
qed

theorem org_team_department_order_free_iff_witness:
  "\<not> order_free DefaultOrgDepartmentTeams team_default \<and> order_free [] team_default"
  using default_team_listed_twice by (simp add: org_team_department_order_free_iff departments_of_def)

end
