(* ===== verification/Data_Scope.thy ===== *)
theory Data_Scope
  imports Kernel_Domain Task_Rules Task_Org Identity_Domain
begin

section \<open>Data scope: the tasks an actor sees\<close>

text \<open>
  \<^verbatim>\<open>service/data_scope.go\<close> resolves a user to a data scope: departments, teams, own id and the
  stages of the workflow their roles open. \<^verbatim>\<open>service/task_data_scope_guard.go\<close> decides with it
  whether a task may be seen, and \<^verbatim>\<open>appendTaskDataScopeWhere\<close> of \<^verbatim>\<open>repo/mysql/task.go\<close> turns it
  into the WHERE clause of a listing. Go's sets of codes come out in the order their elements went
  in (the language leaves it open; every consumer only asks for membership).
\<close>

subsection \<open>Stages\<close>

record StageVisibility =
  SV_Statuses :: "TaskStatus list"
  SV_Lane :: "WorkflowLane option"

fun lane_string :: "WorkflowLane \<Rightarrow> string" where
  "lane_string WorkflowLaneNormal = ''normal''"
| "lane_string WorkflowLaneCustomization = ''customization''"

record stageVisibilityBucket =
  B_lane :: "WorkflowLane option"
  B_statuses :: "TaskStatus list"
  B_seen :: "TaskStatus set"

record stageVisibilityBuilder =
  SB_order :: "string list"
  SB_buckets :: "string \<rightharpoonup> stageVisibilityBucket"

definition newStageVisibilityBuilder :: stageVisibilityBuilder where
  "newStageVisibilityBuilder = \<lparr>SB_order = [], SB_buckets = Map.empty\<rparr>"

definition stageVisibilityBucketKey :: "WorkflowLane option \<Rightarrow> string" where
  "stageVisibilityBucketKey lane = (case lane of None \<Rightarrow> ''*'' | Some l \<Rightarrow> lane_string l)"

definition bucket_add :: "TaskStatus \<Rightarrow> stageVisibilityBucket \<Rightarrow> stageVisibilityBucket" where
  "bucket_add status bucket =
     (if status \<in> B_seen bucket then bucket
      else bucket\<lparr>B_seen := insert status (B_seen bucket), B_statuses := B_statuses bucket @ [status]\<rparr>)"

text \<open>
  \<^verbatim>\<open>grant\<close>, reached as \<^verbatim>\<open>Grant\<close> with a lane and as \<^verbatim>\<open>GrantNoLane\<close> without. It skips an empty status; the
  datatype of statuses has none.
\<close>

definition grant :: "WorkflowLane option \<Rightarrow> TaskStatus list \<Rightarrow> stageVisibilityBuilder \<Rightarrow> stageVisibilityBuilder" where
  "grant lane statuses b =
     (let key = stageVisibilityBucketKey lane;
          b1 = (case SB_buckets b key of
                  Some _ \<Rightarrow> b
                | None \<Rightarrow> b\<lparr>SB_order := SB_order b @ [key], SB_buckets := (SB_buckets b)(key \<mapsto>
                    \<lparr>B_lane = lane, B_statuses = [], B_seen = {}\<rparr>)\<rparr>)
      in b1\<lparr>SB_buckets := (SB_buckets b1)(key := map_option (fold bucket_add statuses) (SB_buckets b1 key))\<rparr>)"

abbreviation "Grant lane \<equiv> grant (Some lane)"
abbreviation "GrantNoLane \<equiv> grant None"

definition Build :: "stageVisibilityBuilder \<Rightarrow> StageVisibility list" where
  "Build b = concat (map (\<lambda>key. case SB_buckets b key of
       None \<Rightarrow> []
     | Some bucket \<Rightarrow> if B_statuses bucket = [] then []
                     else [\<lparr>SV_Statuses = B_statuses bucket, SV_Lane = B_lane bucket\<rparr>]) (SB_order b))"

definition warehouse_stages :: "TaskStatus list" where
  "warehouse_stages = [TaskStatusPendingWarehouseQC, TaskStatusPendingWarehouseReceive,
     TaskStatusRejectedByWarehouse, TaskStatusPendingProductionTransfer, TaskStatusPendingClose]"

definition dept_admin_stages :: "string \<Rightarrow> stageVisibilityBuilder \<Rightarrow> stageVisibilityBuilder" where
  "dept_admin_stages department b =
     (let d = normalizeTaskDepartmentCode department in
      if d = DepartmentAudit then
        Grant WorkflowLaneCustomization [TaskStatusPendingCustomizationReview,
            TaskStatusPendingEffectReview, TaskStatusPendingEffectRevision]
          (Grant WorkflowLaneNormal [TaskStatusPendingAuditA, TaskStatusRejectedByAuditA,
            TaskStatusPendingAuditB, TaskStatusRejectedByAuditB] b)
      else if d = DepartmentCloudWarehouse then GrantNoLane warehouse_stages b
      else if d = DepartmentCustomizationArt then
        Grant WorkflowLaneCustomization [TaskStatusInProgress, TaskStatusPendingCustomizationProduction,
          TaskStatusRejectedByAuditA, TaskStatusRejectedByAuditB, TaskStatusPendingCustomizationReview,
          TaskStatusPendingEffectReview, TaskStatusPendingEffectRevision] b
      else b)"

definition buildRoleBasedStageVisibilities :: "string list \<Rightarrow> string \<Rightarrow> StageVisibility list" where
  "buildRoleBasedStageVisibilities roles department =
     (let b = newStageVisibilityBuilder;
          b = (if hasRoleValue roles RoleAuditA
               then Grant WorkflowLaneNormal [TaskStatusPendingAuditA, TaskStatusRejectedByAuditA] b else b);
          b = (if hasRoleValue roles RoleAuditB
               then Grant WorkflowLaneNormal [TaskStatusPendingAuditB, TaskStatusRejectedByAuditB] b else b);
          b = (if hasRoleValue roles RoleWarehouse then GrantNoLane warehouse_stages b else b);
          b = (if hasRoleValue roles RoleOutsource
               then GrantNoLane [TaskStatusPendingOutsource, TaskStatusOutsourcing,
                      TaskStatusPendingOutsourceReview] b else b);
          b = (if hasRoleValue roles RoleCustomizationOperator
               then Grant WorkflowLaneCustomization [TaskStatusInProgress,
                      TaskStatusPendingCustomizationProduction, TaskStatusRejectedByAuditA,
                      TaskStatusRejectedByAuditB] b else b);
          b = (if hasRoleValue roles RoleCustomizationReviewer
               then Grant WorkflowLaneCustomization [TaskStatusPendingCustomizationReview,
                      TaskStatusPendingEffectReview, TaskStatusPendingEffectRevision] b else b);
          b = (if hasRoleValue roles RoleDeptAdmin then dept_admin_stages department b else b)
      in Build b)"

definition taskMatchesStageVisibility :: "Task \<Rightarrow> StageVisibility \<Rightarrow> bool" where
  "taskMatchesStageVisibility task visibility =
     (if \<not> list_ex (\<lambda>status. T_TaskStatus task = status) (SV_Statuses visibility) then False
      else case SV_Lane visibility of None \<Rightarrow> True | Some lane \<Rightarrow> Task_WorkflowLane task = lane)"

definition matchesAnyStageVisibility :: "Task \<Rightarrow> StageVisibility list \<Rightarrow> bool" where
  "matchesAnyStageVisibility task visibilities = list_ex (taskMatchesStageVisibility task) visibilities"

subsection \<open>Resolution\<close>

record DataScope =
  DS_ViewAll :: bool
  DS_DepartmentCodes :: "string list"
  DS_TeamCodes :: "string list"
  DS_ManagedDepartmentCodes :: "string list"
  DS_ManagedTeamCodes :: "string list"
  DS_UserIDs :: "id list"
  DS_StageVisibilities :: "StageVisibility list"

definition no_scope :: DataScope where
  "no_scope = \<lparr>DS_ViewAll = False, DS_DepartmentCodes = [], DS_TeamCodes = [],
     DS_ManagedDepartmentCodes = [], DS_ManagedTeamCodes = [], DS_UserIDs = [], DS_StageVisibilities = []\<rparr>"

text \<open>The fields of \<^verbatim>\<open>domain.User\<close> a resolver reads, its roles among them (no column of \<^verbatim>\<open>users\<close>).\<close>

record ScopeUser =
  SU_ID :: id
  SU_Department :: string
  SU_Team :: string
  SU_ManagedDepartments :: "string list"
  SU_ManagedTeams :: "string list"
  SU_Roles :: "string list"

definition scope_of_row :: "User \<Rightarrow> ScopeUser" where
  "scope_of_row u = \<lparr>SU_ID = U_ID u, SU_Department = U_Department u, SU_Team = U_Team u,
     SU_ManagedDepartments = U_ManagedDepartments u, SU_ManagedTeams = U_ManagedTeams u, SU_Roles = []\<rparr>"

definition dept_admin_scope :: "ScopeUser \<Rightarrow> DataScope \<Rightarrow> DataScope" where
  "dept_admin_scope user scope = scope\<lparr>
     DS_DepartmentCodes := keep_first normalizeTaskDepartmentCode
       ((if SU_Department user \<noteq> [] then [SU_Department user] else []) @ SU_ManagedDepartments user),
     DS_ManagedDepartmentCodes := keep_first normalizeTaskDepartmentCode (SU_ManagedDepartments user),
     DS_ManagedTeamCodes := filter (\<lambda>team. team \<noteq> []) (map TrimSpace (SU_ManagedTeams user))\<rparr>"

definition team_lead_scope :: "ScopeUser \<Rightarrow> DataScope \<Rightarrow> DataScope" where
  "team_lead_scope user scope = scope\<lparr>
     DS_DepartmentCodes :=
       (if SU_Department user \<noteq> []
        then keep_new (normalizeTaskDepartmentCode (SU_Department user)) (DS_DepartmentCodes scope)
        else DS_DepartmentCodes scope),
     DS_TeamCodes := keep_first TrimSpace
       ((if TrimSpace (SU_Team user) \<noteq> [] then [SU_Team user] else []) @ SU_ManagedTeams user)\<rparr>"

definition Resolve :: "ScopeUser option \<Rightarrow> DataScope" where
  "Resolve user0 = (case user0 of
       None \<Rightarrow> no_scope
     | Some user \<Rightarrow>
        if hasAnyRoleValue (SU_Roles user) [RoleAdmin, RoleSuperAdmin, RoleRoleAdmin, RoleHRAdmin]
          then no_scope\<lparr>DS_ViewAll := True\<rparr>
        else let scope = no_scope;
                 scope = (if hasAnyRoleValue (SU_Roles user) [RoleDeptAdmin, RoleDesignDirector]
                          then dept_admin_scope user scope else scope);
                 scope = (if hasRoleValue (SU_Roles user) RoleTeamLead
                          then team_lead_scope user scope else scope)
             in scope\<lparr>DS_UserIDs := (if SU_ID user > 0 then [SU_ID user] else []),
                      DS_StageVisibilities :=
                        buildRoleBasedStageVisibilities (SU_Roles user) (SU_Department user)\<rparr>)"

text \<open>
  The scope of the request actor. \<open>getUser\<close> is the user repository (absent if none was injected),
  \<open>resolver\<close> whether a resolver was; a user without any organisation in the session is read from
  the database.
\<close>

type_synonym 'd user_repo = "(id \<Rightarrow> ('d, db_error, User option) act) option"

definition resolveDataScopeForActor ::
  "RequestActor option \<Rightarrow> bool \<Rightarrow> 'd user_repo \<Rightarrow> ('d, ErrCode, DataScope) act" where
  "resolveDataScopeForActor ctxActor resolver userRepo =
     (case ctxActor of
        None \<Rightarrow> ret (no_scope\<lparr>DS_ViewAll := True\<rparr>)
      | Some actor \<Rightarrow>
        if RA_ID actor \<le> 0 then ret (no_scope\<lparr>DS_ViewAll := True\<rparr>)
        else if \<not> resolver then throw ErrCodeInternalError
        else let user = \<lparr>SU_ID = RA_ID actor,
                   SU_Department = normalizeTaskDepartmentCode (RA_Department actor),
                   SU_Team = TrimSpace (RA_Team actor),
                   SU_ManagedDepartments = normalizeTaskDepartmentCodes (RA_ManagedDepartments actor),
                   SU_ManagedTeams = RA_ManagedTeams actor, SU_Roles = []\<rparr>;
                 needsHydration = SU_Department user = [] \<and> SU_Team user = [] \<and>
                   SU_ManagedDepartments user = [] \<and> SU_ManagedTeams user = [];
                 done = (\<lambda>u. ret (Resolve (Some (u\<lparr>SU_Roles := RA_Roles actor\<rparr>))))
             in (case userRepo of
                   Some getUser \<Rightarrow>
                     if needsHydration then
                       bnd (map_err (\<lambda>_. ErrCodeInternalError) (getUser (RA_ID actor))) (\<lambda>loaded.
                         case loaded of Some row \<Rightarrow> done (scope_of_row row) | None \<Rightarrow> done user)
                     else done user
                 | None \<Rightarrow> done user))"

subsection \<open>Seeing a task\<close>

record taskActorOrgSnapshot =
  AO_Departments :: "string list"
  AO_Teams :: "string list"

definition taskActorSnapshotUserIDs :: "Task \<Rightarrow> id list" where
  "taskActorSnapshotUserIDs task = fold (\<lambda>i ids. if i \<le> 0 then ids else if i \<in> set ids then ids else ids @ [i])
     ([T_CreatorID task] @ (case T_DesignerID task of None \<Rightarrow> [] | Some i \<Rightarrow> [i]) @
      (case T_CurrentHandlerID task of None \<Rightarrow> [] | Some i \<Rightarrow> [i])) []"

fun snapshot_loop ::
  "(id \<Rightarrow> ('d, db_error, User option) act) \<Rightarrow> id list \<Rightarrow> taskActorOrgSnapshot \<Rightarrow>
   ('d, ErrCode, taskActorOrgSnapshot) act" where
  "snapshot_loop getUser [] snapshot = ret snapshot"
| "snapshot_loop getUser (actorID # actorIDs) snapshot =
     bnd (map_err (\<lambda>_. ErrCodeInternalError) (getUser actorID)) (\<lambda>row. case row of
       None \<Rightarrow> snapshot_loop getUser actorIDs snapshot
     | Some user \<Rightarrow> snapshot_loop getUser actorIDs
         \<lparr>AO_Departments = keep_new (normalizeTaskDepartmentCode (U_Department user)) (AO_Departments snapshot),
          AO_Teams = keep_new (TrimSpace (U_Team user)) (AO_Teams snapshot)\<rparr>)"

definition resolveTaskActorOrgSnapshot ::
  "'d user_repo \<Rightarrow> Task \<Rightarrow> ('d, ErrCode, taskActorOrgSnapshot option) act" where
  "resolveTaskActorOrgSnapshot userRepo task = (case userRepo of
       None \<Rightarrow> ret None
     | Some getUser \<Rightarrow>
        if taskActorSnapshotUserIDs task = [] then ret None
        else bnd (snapshot_loop getUser (taskActorSnapshotUserIDs task)
                    \<lparr>AO_Departments = [], AO_Teams = []\<rparr>) (\<lambda>snapshot.
          if AO_Departments snapshot = [] \<and> AO_Teams snapshot = [] then ret None
          else ret (Some snapshot)))"

definition hasManagedOrgScope :: "DataScope \<Rightarrow> bool" where
  "hasManagedOrgScope scope \<longleftrightarrow> DS_ManagedDepartmentCodes scope \<noteq> [] \<or> DS_ManagedTeamCodes scope \<noteq> []"

text \<open>The users of a task a scope may name: creator, designer and current handler.\<close>

definition task_touched_by :: "Task \<Rightarrow> id \<Rightarrow> bool" where
  "task_touched_by task uid \<longleftrightarrow> T_CreatorID task = uid \<or> T_DesignerID task = Some uid \<or>
     T_CurrentHandlerID task = Some uid"

definition canViewTaskWithPrimaryScope :: "Task \<Rightarrow> DataScope \<Rightarrow> bool" where
  "canViewTaskWithPrimaryScope task scope =
     (if DS_ViewAll scope then True
      else if list_ex (\<lambda>uid. uid > 0 \<and> task_touched_by task uid) (DS_UserIDs scope) then True
      else if list_ex (\<lambda>department. department \<noteq> [] \<and> department = T_OwnerDepartment task)
                (DS_DepartmentCodes scope) then True
      else if list_ex (\<lambda>team. team \<noteq> [] \<and> team = T_OwnerOrgTeam task) (DS_TeamCodes scope) then True
      else matchesAnyStageVisibility task (DS_StageVisibilities scope))"

definition managed_match :: "string list \<Rightarrow> string list \<Rightarrow> bool" where
  "managed_match codes managedCodes \<longleftrightarrow> list_ex (\<lambda>code. code \<noteq> [] \<and>
     list_ex (\<lambda>managed. managed \<noteq> [] \<and> managed = code) managedCodes) codes"

definition canViewTaskWithScopeAndActorOrg ::
  "taskOrgCatalog \<Rightarrow> Task \<Rightarrow> DataScope \<Rightarrow> taskActorOrgSnapshot option \<Rightarrow> bool" where
  "canViewTaskWithScopeAndActorOrg catalog task0 scope actorOrg =
     (if DS_ViewAll scope then True
      else let task = applyTaskReadModelOrgOwnership catalog task0 in
        if canViewTaskWithPrimaryScope task scope then True
        else case actorOrg of
          None \<Rightarrow> False
        | Some org \<Rightarrow>
            hasManagedOrgScope scope \<and>
            (managed_match (AO_Departments org) (DS_ManagedDepartmentCodes scope) \<or>
             managed_match (AO_Teams org) (DS_ManagedTeamCodes scope)))"

abbreviation "canViewTaskWithScope catalog task scope \<equiv>
  canViewTaskWithScopeAndActorOrg catalog task scope None"

subsection \<open>The clause of a listing\<close>

text \<open>
  \<open>users\<close> is the table the sub-selects of the clause read. SQL compares the columns under their
  collation; a NULL (no designer, no such user) is in no list. The scope is copied into the filter
  field by field.
\<close>

record TaskScopeFilter =
  TF_ScopeViewAll :: bool
  TF_ScopeDepartmentCodes :: "string list"
  TF_ScopeTeamCodes :: "string list"
  TF_ScopeManagedDepartmentCodes :: "string list"
  TF_ScopeManagedTeamCodes :: "string list"
  TF_ScopeUserIDs :: "id list"
  TF_ScopeStageVisibilities :: "StageVisibility list"

definition applyTaskOrgVisibilityScope :: "TaskScopeFilter \<Rightarrow> DataScope option \<Rightarrow> TaskScopeFilter" where
  "applyTaskOrgVisibilityScope flt scope0 = (case scope0 of
       None \<Rightarrow> flt
     | Some scope \<Rightarrow> flt\<lparr>TF_ScopeViewAll := DS_ViewAll scope,
         TF_ScopeDepartmentCodes := DS_DepartmentCodes scope, TF_ScopeTeamCodes := DS_TeamCodes scope,
         TF_ScopeManagedDepartmentCodes := DS_ManagedDepartmentCodes scope,
         TF_ScopeManagedTeamCodes := DS_ManagedTeamCodes scope, TF_ScopeUserIDs := DS_UserIDs scope,
         TF_ScopeStageVisibilities := DS_StageVisibilities scope\<rparr>)"

definition stringsToSlice :: "string list \<Rightarrow> string list" where
  "stringsToSlice values = keep_first TrimSpace values"

text \<open>\<^verbatim>\<open>expr IN (values)\<close>, where the expression is NULL or a string.\<close>

definition sql_in :: "string option \<Rightarrow> string list \<Rightarrow> bool" where
  "sql_in e values = (case e of None \<Rightarrow> False | Some x \<Rightarrow> list_ex (ci_eq x) values)"

definition businessLaneConditionSQL :: "string \<Rightarrow> Task \<Rightarrow> bool" where
  "businessLaneConditionSQL lane t =
     (if lane = TaskBusinessLaneCustomization then ci_eq (T_BusinessLane t) ''customization''
      else ci_eq (T_BusinessLane t) [] \<or> ci_eq (T_BusinessLane t) ''normal'')"

definition workflowLaneConditionSQL :: "WorkflowLane \<Rightarrow> Task \<Rightarrow> bool" where
  "workflowLaneConditionSQL lane = businessLaneConditionSQL (TaskBusinessLaneFromWorkflowLane lane)"

definition user_column :: "User list \<Rightarrow> (User \<Rightarrow> string) \<Rightarrow> id option \<Rightarrow> string option" where
  "user_column users col i = (case i of None \<Rightarrow> None
     | Some uid \<Rightarrow> map_option col (List.find (\<lambda>u. U_ID u = uid) users))"

definition buildManagedUserScopeClause ::
  "User list \<Rightarrow> (User \<Rightarrow> string) \<Rightarrow> (Task \<Rightarrow> string) \<Rightarrow> string list \<Rightarrow> Task \<Rightarrow> bool" where
  "buildManagedUserScopeClause users userColumn ownerExpr values0 t =
     (let values = stringsToSlice values0 in
      list_ex (\<lambda>expr. sql_in expr values) [Some (ownerExpr t),
        user_column users userColumn (Some (T_CreatorID t)),
        user_column users userColumn (T_DesignerID t),
        user_column users userColumn (T_CurrentHandlerID t)])"

definition appendTaskDataScopeWhere :: "User list \<Rightarrow> TaskScopeFilter \<Rightarrow> Task \<Rightarrow> bool" where
  "appendTaskDataScopeWhere users flt t =
     (if TF_ScopeViewAll flt then True
      else let userIDs = filter (\<lambda>i. i > 0) (TF_ScopeUserIDs flt) in
        list_ex (\<lambda>i. task_touched_by t i) userIDs \<or>
        sql_in (Some (T_OwnerDepartment t)) (stringsToSlice (TF_ScopeDepartmentCodes flt)) \<or>
        sql_in (Some (T_OwnerOrgTeam t)) (stringsToSlice (TF_ScopeTeamCodes flt)) \<or>
        buildManagedUserScopeClause users U_Department T_OwnerDepartment (TF_ScopeManagedDepartmentCodes flt) t \<or>
        buildManagedUserScopeClause users U_Team T_OwnerOrgTeam (TF_ScopeManagedTeamCodes flt) t \<or>
        list_ex (\<lambda>visibility. T_TaskStatus t \<in> set (SV_Statuses visibility) \<and>
            (case SV_Lane visibility of None \<Rightarrow> True | Some lane \<Rightarrow> workflowLaneConditionSQL lane t))
          (TF_ScopeStageVisibilities flt))"

subsection \<open>The stage builder\<close>

definition lane_ok :: "WorkflowLane option \<Rightarrow> WorkflowLane \<Rightarrow> bool" where
  "lane_ok lane l \<longleftrightarrow> (case lane of None \<Rightarrow> True | Some x \<Rightarrow> l = x)"

definition bucket_ok :: "string \<Rightarrow> stageVisibilityBucket \<Rightarrow> bool" where
  "bucket_ok key bk \<longleftrightarrow> stageVisibilityBucketKey (B_lane bk) = key \<and> B_seen bk = set (B_statuses bk) \<and>
     distinct (B_statuses bk)"

definition builder_ok :: "stageVisibilityBuilder \<Rightarrow> bool" where
  "builder_ok b \<longleftrightarrow> distinct (SB_order b) \<and> dom (SB_buckets b) = set (SB_order b) \<and>
     (\<forall>key bk. SB_buckets b key = Some bk \<longrightarrow> bucket_ok key bk)"

definition builder_sees :: "stageVisibilityBuilder \<Rightarrow> WorkflowLane \<Rightarrow> TaskStatus \<Rightarrow> bool" where
  "builder_sees b l s \<longleftrightarrow> (\<exists>key bk. SB_buckets b key = Some bk \<and> s \<in> set (B_statuses bk) \<and> lane_ok (B_lane bk) l)"

lemma bucket_key_inj [simp]: "stageVisibilityBucketKey a = stageVisibilityBucketKey b \<longleftrightarrow> a = b"
proof -
  have "lane_string x = lane_string y \<longleftrightarrow> x = y" for x y by (cases x; cases y) auto
  moreover have "lane_string x \<noteq> ''*''" for x by (cases x) auto
  ultimately show ?thesis
    by (auto simp: stageVisibilityBucketKey_def eq_commute [of "''*''"] split: option.splits)
qed

lemma fold_bucket_add:
  assumes "bucket_ok key bk"
  shows "bucket_ok key (fold bucket_add sts bk) \<and> B_lane (fold bucket_add sts bk) = B_lane bk \<and>
    set (B_statuses (fold bucket_add sts bk)) = set (B_statuses bk) \<union> set sts"
  using assms by (induction sts arbitrary: bk) (auto simp: bucket_add_def bucket_ok_def)

lemma grant_buckets:
  assumes "builder_ok b"
  obtains bk where "SB_buckets (grant lane sts b) =
      (SB_buckets b)(stageVisibilityBucketKey lane \<mapsto> bk)" "bucket_ok (stageVisibilityBucketKey lane) bk"
    "B_lane bk = lane" "set (B_statuses bk) = set sts \<union>
      (case SB_buckets b (stageVisibilityBucketKey lane) of None \<Rightarrow> {} | Some old \<Rightarrow> set (B_statuses old))"
proof (cases "SB_buckets b (stageVisibilityBucketKey lane)")
  case None
  let ?bk = "\<lparr>B_lane = lane, B_statuses = [], B_seen = {}\<rparr>"
  have "bucket_ok (stageVisibilityBucketKey lane) ?bk" by (simp add: bucket_ok_def)
  from fold_bucket_add [OF this, of sts] show ?thesis
    using that [of "fold bucket_add sts ?bk"] None by (simp add: grant_def Let_def)
next
  case (Some old)
  then have ok: "bucket_ok (stageVisibilityBucketKey lane) old" using assms by (simp add: builder_ok_def)
  then have "B_lane old = lane" by (simp add: bucket_ok_def)
  with fold_bucket_add [OF ok, of sts] show ?thesis
    using that [of "fold bucket_add sts old"] Some by (simp add: grant_def Let_def Un_commute)
qed

lemma grant_ok:
  assumes "builder_ok b"
  shows "builder_ok (grant lane sts b)"
proof -
  obtain bk where "SB_buckets (grant lane sts b) = (SB_buckets b)(stageVisibilityBucketKey lane \<mapsto> bk)"
    "bucket_ok (stageVisibilityBucketKey lane) bk"
    using grant_buckets [OF assms] .
  moreover have "SB_order (grant lane sts b) = SB_order b @
      (if SB_buckets b (stageVisibilityBucketKey lane) = None then [stageVisibilityBucketKey lane] else [])"
    by (simp add: grant_def Let_def split: option.splits)
  ultimately show ?thesis using assms unfolding builder_ok_def by (auto split: if_splits)
qed

lemma ex_map_upd:
  "(\<exists>key x. (m(k \<mapsto> b)) key = Some x \<and> P x) \<longleftrightarrow> P b \<or> (\<exists>key x. key \<noteq> k \<and> m key = Some x \<and> P x)"
proof -
  have "((m(k \<mapsto> b)) key = Some x \<and> P x) \<longleftrightarrow>
      (key = k \<and> x = b \<and> P b) \<or> (key \<noteq> k \<and> m key = Some x \<and> P x)" for key x
    by auto
  then show ?thesis by simp blast
qed

lemma ex_map_key:
  "(\<exists>key x. m key = Some x \<and> P x) \<longleftrightarrow>
   (\<exists>x. m k = Some x \<and> P x) \<or> (\<exists>key x. key \<noteq> k \<and> m key = Some x \<and> P x)"
proof -
  have "(\<exists>key. R key) \<longleftrightarrow> R k \<or> (\<exists>key. key \<noteq> k \<and> R key)" for R by metis
  from this [of "\<lambda>key. \<exists>x. m key = Some x \<and> P x"] show ?thesis by simp
qed

lemma grant_sees:
  assumes "builder_ok b"
  shows "builder_sees (grant lane sts b) l s \<longleftrightarrow> builder_sees b l s \<or> (s \<in> set sts \<and> lane_ok lane l)"
proof -
  let ?k = "stageVisibilityBucketKey lane"
  obtain bk where bk: "SB_buckets (grant lane sts b) = (SB_buckets b)(?k \<mapsto> bk)" "B_lane bk = lane"
    "set (B_statuses bk) = set sts \<union>
      (case SB_buckets b ?k of None \<Rightarrow> {} | Some old \<Rightarrow> set (B_statuses old))"
    using grant_buckets [OF assms] .
  have old: "B_lane old = lane" if "SB_buckets b ?k = Some old" for old
    using assms that unfolding builder_ok_def bucket_ok_def by (metis bucket_key_inj)
  let ?P = "\<lambda>x. s \<in> set (B_statuses x) \<and> lane_ok (B_lane x) l"
  have "builder_sees (grant lane sts b) l s \<longleftrightarrow>
      ?P bk \<or> (\<exists>key x. key \<noteq> ?k \<and> SB_buckets b key = Some x \<and> ?P x)"
    unfolding builder_sees_def bk(1) by (rule ex_map_upd)
  moreover have "builder_sees b l s \<longleftrightarrow> (\<exists>x. SB_buckets b ?k = Some x \<and> ?P x) \<or>
      (\<exists>key x. key \<noteq> ?k \<and> SB_buckets b key = Some x \<and> ?P x)"
    unfolding builder_sees_def by (rule ex_map_key)
  moreover have "?P bk \<longleftrightarrow> (\<exists>x. SB_buckets b ?k = Some x \<and> ?P x) \<or> (s \<in> set sts \<and> lane_ok lane l)"
    using bk(2,3) old by (auto split: option.splits)
  ultimately show ?thesis by blast
qed

lemma matches_Build:
  assumes "builder_ok b"
  shows "matchesAnyStageVisibility task (Build b) \<longleftrightarrow>
    builder_sees b (Task_WorkflowLane task) (T_TaskStatus task)"
proof -
  have one: "taskMatchesStageVisibility task \<lparr>SV_Statuses = sts, SV_Lane = lane\<rparr> \<longleftrightarrow>
      T_TaskStatus task \<in> set sts \<and> lane_ok lane (Task_WorkflowLane task)" for sts lane
    by (auto simp: taskMatchesStageVisibility_def lane_ok_def list_ex_iff split: option.splits)
  have built: "x \<in> set (Build b) \<longleftrightarrow> (\<exists>key \<in> set (SB_order b). \<exists>bk. SB_buckets b key = Some bk \<and>
      B_statuses bk \<noteq> [] \<and> x = \<lparr>SV_Statuses = B_statuses bk, SV_Lane = B_lane bk\<rparr>)" for x
    by (simp add: Build_def) (force split: option.splits if_splits)
  have "matchesAnyStageVisibility task (Build b) \<longleftrightarrow> (\<exists>key \<in> set (SB_order b). \<exists>bk.
      SB_buckets b key = Some bk \<and> T_TaskStatus task \<in> set (B_statuses bk) \<and>
      lane_ok (B_lane bk) (Task_WorkflowLane task))"
    unfolding matchesAnyStageVisibility_def list_ex_iff Bex_def built
    by (metis one empty_iff list.set(1))
  also have "\<dots> \<longleftrightarrow> builder_sees b (Task_WorkflowLane task) (T_TaskStatus task)"
    using assms unfolding builder_ok_def builder_sees_def by blast
  finally show ?thesis .
qed

subsection \<open>What the builder builds\<close>

lemma new_builder [simp]: "builder_ok newStageVisibilityBuilder" "\<not> builder_sees newStageVisibilityBuilder l s"
  by (simp_all add: builder_ok_def builder_sees_def newStageVisibilityBuilder_def)

lemma when_ok: "builder_ok b \<Longrightarrow> builder_ok (if c then grant lane sts b else b)"
  by (simp add: grant_ok)

lemma when_sees:
  "builder_ok b \<Longrightarrow> builder_sees (if c then grant lane sts b else b) l s \<longleftrightarrow>
   builder_sees b l s \<or> (c \<and> s \<in> set sts \<and> lane_ok lane l)"
  by (simp add: grant_sees)

text \<open>The stages the administrator of a department sees, and those each role opens.\<close>

definition opens_dept_stage :: "string \<Rightarrow> WorkflowLane \<Rightarrow> TaskStatus \<Rightarrow> bool" where
  "opens_dept_stage department lane status \<longleftrightarrow>
     (let d = normalizeTaskDepartmentCode department in
      if d = DepartmentAudit then
        (case lane of
           WorkflowLaneNormal \<Rightarrow> status \<in> set [TaskStatusPendingAuditA, TaskStatusRejectedByAuditA,
             TaskStatusPendingAuditB, TaskStatusRejectedByAuditB]
         | WorkflowLaneCustomization \<Rightarrow> status \<in> set [TaskStatusPendingCustomizationReview,
             TaskStatusPendingEffectReview, TaskStatusPendingEffectRevision])
      else if d = DepartmentCloudWarehouse then status \<in> set warehouse_stages
      else d = DepartmentCustomizationArt \<and> lane = WorkflowLaneCustomization \<and>
        status \<in> set [TaskStatusInProgress, TaskStatusPendingCustomizationProduction,
          TaskStatusRejectedByAuditA, TaskStatusRejectedByAuditB, TaskStatusPendingCustomizationReview,
          TaskStatusPendingEffectReview, TaskStatusPendingEffectRevision])"

definition opens_stage :: "string list \<Rightarrow> string \<Rightarrow> WorkflowLane \<Rightarrow> TaskStatus \<Rightarrow> bool" where
  "opens_stage roles department lane status \<longleftrightarrow>
     (RoleAuditA \<in> set roles \<and> lane = WorkflowLaneNormal \<and>
        status \<in> set [TaskStatusPendingAuditA, TaskStatusRejectedByAuditA]) \<or>
     (RoleAuditB \<in> set roles \<and> lane = WorkflowLaneNormal \<and>
        status \<in> set [TaskStatusPendingAuditB, TaskStatusRejectedByAuditB]) \<or>
     (RoleWarehouse \<in> set roles \<and> status \<in> set warehouse_stages) \<or>
     (RoleOutsource \<in> set roles \<and> status \<in> set [TaskStatusPendingOutsource, TaskStatusOutsourcing,
        TaskStatusPendingOutsourceReview]) \<or>
     (RoleCustomizationOperator \<in> set roles \<and> lane = WorkflowLaneCustomization \<and>
        status \<in> set [TaskStatusInProgress, TaskStatusPendingCustomizationProduction,
          TaskStatusRejectedByAuditA, TaskStatusRejectedByAuditB]) \<or>
     (RoleCustomizationReviewer \<in> set roles \<and> lane = WorkflowLaneCustomization \<and>
        status \<in> set [TaskStatusPendingCustomizationReview, TaskStatusPendingEffectReview,
          TaskStatusPendingEffectRevision]) \<or>
     (RoleDeptAdmin \<in> set roles \<and> opens_dept_stage department lane status)"

lemma lane_ok_simps: "lane_ok None l \<longleftrightarrow> True" "lane_ok (Some x) l \<longleftrightarrow> l = x"
  by (simp_all add: lane_ok_def)

lemma dept_admin_ok: "builder_ok b \<Longrightarrow> builder_ok (if c then dept_admin_stages department b else b)"
  by (simp add: dept_admin_stages_def Let_def grant_ok)

lemma dept_admin_sees:
  assumes "builder_ok b"
  shows "builder_sees (if c then dept_admin_stages department b else b) l s \<longleftrightarrow>
    builder_sees b l s \<or> (c \<and> opens_dept_stage department l s)"
proof -
  have "DepartmentCloudWarehouse \<noteq> DepartmentAudit" "DepartmentCustomizationArt \<noteq> DepartmentAudit"
    "DepartmentCustomizationArt \<noteq> DepartmentCloudWarehouse"
    by (simp_all add: module_names)
  then show ?thesis using assms
    by (cases l) (auto simp: dept_admin_stages_def opens_dept_stage_def Let_def grant_ok grant_sees lane_ok_simps)
qed

lemma matches_role_stages:
  "matchesAnyStageVisibility task (buildRoleBasedStageVisibilities roles department) \<longleftrightarrow>
   opens_stage roles department (Task_WorkflowLane task) (T_TaskStatus task)"
  unfolding buildRoleBasedStageVisibilities_def Let_def
  by (subst matches_Build, intro dept_admin_ok when_ok new_builder,
      simp only: dept_admin_sees when_sees dept_admin_ok when_ok new_builder lane_ok_simps
        hasRoleValue_iff opens_stage_def simp_thms, simp only: disj_assoc conj_ac)

definition visibilities_ok :: "StageVisibility list \<Rightarrow> bool" where
  "visibilities_ok vs \<longleftrightarrow> distinct (map SV_Lane vs) \<and>
     list_all (\<lambda>v. SV_Statuses v \<noteq> [] \<and> distinct (SV_Statuses v)) vs"

lemma visibilities_append:
  "visibilities_ok xs \<Longrightarrow> visibilities_ok ys \<Longrightarrow>
   (\<And>v u. v \<in> set xs \<Longrightarrow> u \<in> set ys \<Longrightarrow> SV_Lane v \<noteq> SV_Lane u) \<Longrightarrow> visibilities_ok (xs @ ys)"
  by (fastforce simp: visibilities_ok_def)

lemma Build_ok:
  assumes "builder_ok b"
  shows "visibilities_ok (Build b)"
proof -
  let ?f = "\<lambda>key. case SB_buckets b key of None \<Rightarrow> [] | Some bucket \<Rightarrow>
    if B_statuses bucket = [] then [] else [\<lparr>SV_Statuses = B_statuses bucket, SV_Lane = B_lane bucket\<rparr>]"
  have ok: "bucket_ok key bk" if "SB_buckets b key = Some bk" for key bk
    using assms that by (simp add: builder_ok_def)
  have key: "stageVisibilityBucketKey (SV_Lane v) = key \<and> SV_Statuses v \<noteq> [] \<and> distinct (SV_Statuses v)"
    if "v \<in> set (?f key)" for v key
    using that ok [of key] by (auto simp: bucket_ok_def split: option.splits if_splits)
  have "visibilities_ok (concat (map ?f keys))" if "distinct keys" for keys
    using that
  proof (induction keys)
    case (Cons k ks)
    have "SV_Lane v \<noteq> SV_Lane u" if "v \<in> set (?f k)" "u \<in> set (concat (map ?f ks))" for v u
      using key [OF that(1)] that(2) Cons.prems key by fastforce
    moreover have "visibilities_ok (?f k)"
      using key [of _ k] by (auto simp: visibilities_ok_def split: option.splits if_splits)
    moreover have "visibilities_ok (concat (map ?f ks))" using Cons by simp
    ultimately show ?case unfolding list.map concat.simps by (intro visibilities_append)
  qed (simp add: visibilities_ok_def)
  then show ?thesis using assms by (simp add: Build_def builder_ok_def)
qed

text \<open>
  (C37) The stage visibilities assembled bucket by bucket for an actor's roles hold at most one entry
  per lane and no status twice, and they show a task exactly if some role of the actor opens the
  task's status in the task's lane.
\<close>

theorem stage_visibilities_of_roles:
  "visibilities_ok (buildRoleBasedStageVisibilities roles department) \<and>
   (matchesAnyStageVisibility task (buildRoleBasedStageVisibilities roles department) \<longleftrightarrow>
    opens_stage roles department (Task_WorkflowLane task) (T_TaskStatus task))"
proof -
  have "visibilities_ok (buildRoleBasedStageVisibilities roles department)"
    unfolding buildRoleBasedStageVisibilities_def Let_def
    by (intro Build_ok dept_admin_ok when_ok new_builder)
  then show ?thesis by (simp add: matches_role_stages)
qed

subsection \<open>What may be seen is listed\<close>

text \<open>\<^verbatim>\<open>userRepo.GetByID\<close>, where \<open>tab\<close> is the table of users in the database.\<close>

definition userRepo_GetByID :: "('d \<Rightarrow> User list) \<Rightarrow> id \<Rightarrow> ('d, db_error, User option) act" where
  "userRepo_GetByID tab i = query (\<lambda>d. map_option scanUser (List.find (\<lambda>u. U_ID u = i) (tab d)))"

definition canonical_user :: "User \<Rightarrow> bool" where
  "canonical_user u \<longleftrightarrow> normalizeTaskDepartmentCode (U_Department u) = U_Department u \<and>
     TrimSpace (U_Team u) = U_Team u"

lemma scanUser_fields [simp]: "U_Department (scanUser u) = U_Department u" "U_Team (scanUser u) = U_Team u"
  "U_ID (scanUser u) = U_ID u" "U_Username (scanUser u) = U_Username u"
  "U_DisplayName (scanUser u) = U_DisplayName u"
  by (simp_all add: scanUser_def Let_def)

lemma set_keep_new: "set (keep_new v out) = set out \<union> ({v} - {[]})"
  by (auto simp: keep_new_def)

lemma snapshot_loop_success:
  assumes "snapshot_loop (userRepo_GetByID tab) ids snapshot w = (Inr org, w')"
  shows "wdb w' = wdb w \<and>
    set (AO_Departments org) \<subseteq> set (AO_Departments snapshot) \<union>
      {normalizeTaskDepartmentCode (U_Department u) | u i.
         i \<in> set ids \<and> List.find (\<lambda>u. U_ID u = i) (tab (wdb w)) = Some u} \<and>
    set (AO_Teams org) \<subseteq> set (AO_Teams snapshot) \<union>
      {TrimSpace (U_Team u) | u i. i \<in> set ids \<and> List.find (\<lambda>u. U_ID u = i) (tab (wdb w)) = Some u}"
  using assms
proof (induction ids arbitrary: snapshot w)
  case (Cons i ids)
  from Cons.prems obtain row w1 where g: "userRepo_GetByID tab i w = (Inr row, w1)"
    and k: "(case row of None \<Rightarrow> snapshot_loop (userRepo_GetByID tab) ids snapshot
     | Some user \<Rightarrow> snapshot_loop (userRepo_GetByID tab) ids
         \<lparr>AO_Departments = keep_new (normalizeTaskDepartmentCode (U_Department user)) (AO_Departments snapshot),
          AO_Teams = keep_new (TrimSpace (U_Team user)) (AO_Teams snapshot)\<rparr>) w1 = (Inr org, w')"
    by (auto simp: bnd_eq_Inr map_err_eq_Inr)
  have row: "row = map_option scanUser (List.find (\<lambda>u. U_ID u = i) (tab (wdb w)))" "wdb w1 = wdb w"
    using query_success [OF g [unfolded userRepo_GetByID_def]] by auto
  show ?case
  proof (cases "List.find (\<lambda>u. U_ID u = i) (tab (wdb w))")
    case None
    then show ?thesis using Cons.IH k row by fastforce
  next
    case (Some u)
    show ?thesis using Cons.IH [OF k [unfolded row(1) Some option.map(2) option.case(2)]] row(2) Some
      by (fastforce simp: set_keep_new)
  qed
qed simp

lemma snapshot_ids:
  assumes "i \<in> set (taskActorSnapshotUserIDs task)"
  shows "task_touched_by task i"
proof -
  let ?f = "\<lambda>i ids. if i \<le> 0 then ids else if i \<in> set ids then ids else ids @ [i :: id]"
  have step: "set (?f x out) \<subseteq> insert x (set out)" for x out by auto
  have "set (fold ?f xs out) \<subseteq> set out \<union> set xs" for xs out
  proof (induction xs arbitrary: out)
    case (Cons x xs)
    have "set (fold ?f (x # xs) out) = set (fold ?f xs (?f x out))" by simp
    also have "\<dots> \<subseteq> set (?f x out) \<union> set xs" by (rule Cons)
    also have "\<dots> \<subseteq> insert x (set out) \<union> set xs" using step by (rule Un_mono) simp
    finally show ?case by simp
  qed simp
  from subsetD [OF this [where out = "[]"] assms [unfolded taskActorSnapshotUserIDs_def]]
  show ?thesis by (auto simp: task_touched_by_def split: option.splits)
qed

lemma managed_user_clause:
  assumes "task_touched_by task i" and "List.find (\<lambda>u. U_ID u = i) users = Some u"
    and "col u \<in> set codes" and "TrimSpace (col u) = col u" and "col u \<noteq> []"
  shows "buildManagedUserScopeClause users col owner codes task"
proof -
  have "sql_in (user_column users col (Some i)) (stringsToSlice codes)"
    using assms(2-5) by (auto simp: sql_in_def user_column_def stringsToSlice_def list_ex_iff
        intro!: bexI [of _ "col u"] image_eqI [of _ _ "col u"])
  then show ?thesis using assms(1)
    by (auto simp: buildManagedUserScopeClause_def task_touched_by_def Let_def)
qed

definition trimmed :: "string list \<Rightarrow> bool" where
  "trimmed vs \<longleftrightarrow> (\<forall>v \<in> set vs. TrimSpace v = v)"

lemma trimmed_lists:
  "trimmed []" "trimmed (keep_first normalizeTaskDepartmentCode vs)" "trimmed (keep_first TrimSpace vs)"
  "trimmed (filter p (map TrimSpace vs))"
  "trimmed vs \<Longrightarrow> trimmed (keep_new (normalizeTaskDepartmentCode x) vs)"
  by (auto simp: trimmed_def set_keep_new)

lemma Resolve_codes:
  "trimmed (DS_DepartmentCodes (Resolve user))" "trimmed (DS_ManagedDepartmentCodes (Resolve user))"
  "trimmed (DS_TeamCodes (Resolve user))" "trimmed (DS_ManagedTeamCodes (Resolve user))"
  unfolding Resolve_def no_scope_def dept_admin_scope_def team_lead_scope_def Let_def
  by (cases user; simp add: trimmed_lists)+

lemma stringsToSlice_trimmed: "v \<in> set vs \<Longrightarrow> v \<noteq> [] \<Longrightarrow> TrimSpace v = v \<Longrightarrow> v \<in> set (stringsToSlice vs)"
  by (force simp: stringsToSlice_def)

lemma sql_in_mem: "v \<in> set vs \<Longrightarrow> sql_in (Some v) vs"
  by (auto simp: sql_in_def list_ex_iff intro: bexI [of _ v])

lemma lane_clause:
  assumes "TaskBusinessLane_Valid (T_BusinessLane task)"
  shows "workflowLaneConditionSQL (Task_WorkflowLane task) task"
proof -
  have "TrimSpace (T_BusinessLane task) = T_BusinessLane task"
    using assms by (auto simp: TaskBusinessLane_Valid_def string_eval)
  then show ?thesis using assms
    by (auto simp: workflowLaneConditionSQL_def businessLaneConditionSQL_def Task_WorkflowLane_def
        NormalizeTaskBusinessLane_def TaskBusinessLaneFromWorkflowLane_def TaskBusinessLane_WorkflowLane_def
        TaskBusinessLane_Valid_def Let_def)
qed

lemma managed_match_iff: "managed_match codes managed \<longleftrightarrow> (\<exists>c \<in> set codes. c \<in> set managed \<and> c \<noteq> [])"
  by (auto simp: managed_match_def list_ex_iff)

text \<open>
  Every task the guard lets an actor see, by their own scope or by the organisation of the
  task's users, is in the listing built from the same scope, provided departments and teams are
  stored in canonical form. (The converse does not hold: the listing also shows a department
  administrator the tasks owned by a managed team, and compares without case.)
\<close>

theorem viewable_tasks_are_listed:
  assumes "applyTaskReadModelOrgOwnership catalog task = task"
    and "TaskBusinessLane_Valid (T_BusinessLane task)"
    and "list_all canonical_user (tab (wdb w))"
    and snap: "resolveTaskActorOrgSnapshot (Some (userRepo_GetByID tab)) task w = (Inr org, w')"
    and view: "canViewTaskWithScopeAndActorOrg catalog task (Resolve user) org"
  shows "appendTaskDataScopeWhere (tab (wdb w)) (applyTaskOrgVisibilityScope flt (Some (Resolve user))) task"
proof -
  let ?s = "Resolve user" and ?us = "tab (wdb w)"
  note filter_defs = appendTaskDataScopeWhere_def applyTaskOrgVisibilityScope_def Let_def
  consider (all) "DS_ViewAll ?s" | (user) i where "i \<in> set (DS_UserIDs ?s)" "i > 0" "task_touched_by task i"
    | (department) "T_OwnerDepartment task \<in> set (DS_DepartmentCodes ?s)" "T_OwnerDepartment task \<noteq> []"
    | (team) "T_OwnerOrgTeam task \<in> set (DS_TeamCodes ?s)" "T_OwnerOrgTeam task \<noteq> []"
    | (stage) v where "v \<in> set (DS_StageVisibilities ?s)" "taskMatchesStageVisibility task v"
    | (org) a where "org = Some a" "managed_match (AO_Departments a) (DS_ManagedDepartmentCodes ?s) \<or>
        managed_match (AO_Teams a) (DS_ManagedTeamCodes ?s)"
    using view assms(1) unfolding canViewTaskWithScopeAndActorOrg_def canViewTaskWithPrimaryScope_def
      matchesAnyStageVisibility_def list_ex_iff Let_def
    by (simp split: if_split_asm option.split_asm) blast+
  then show ?thesis
  proof cases
    case all
    then show ?thesis by (simp add: filter_defs)
  next
    case user
    then show ?thesis by (auto simp: filter_defs list_ex_iff)
  next
    case department
    then have "sql_in (Some (T_OwnerDepartment task)) (stringsToSlice (DS_DepartmentCodes ?s))"
      using Resolve_codes(1) [of user]
      by (intro sql_in_mem stringsToSlice_trimmed) (auto simp: trimmed_def)
    then show ?thesis by (simp add: filter_defs)
  next
    case team
    then have "sql_in (Some (T_OwnerOrgTeam task)) (stringsToSlice (DS_TeamCodes ?s))"
      using Resolve_codes(3) [of user]
      by (intro sql_in_mem stringsToSlice_trimmed) (auto simp: trimmed_def)
    then show ?thesis by (simp add: filter_defs)
  next
    case (stage v)
    then have "T_TaskStatus task \<in> set (SV_Statuses v)"
      "case SV_Lane v of None \<Rightarrow> True | Some lane \<Rightarrow> workflowLaneConditionSQL lane task"
      using lane_clause [OF assms(2)]
      by (auto simp: taskMatchesStageVisibility_def list_ex_iff split: if_splits option.splits)
    then show ?thesis using stage(1) by (auto simp: filter_defs list_ex_iff)
  next
    case (org a)
    obtain w1 where "snapshot_loop (userRepo_GetByID tab) (taskActorSnapshotUserIDs task)
        \<lparr>AO_Departments = [], AO_Teams = []\<rparr> w = (Inr a, w1)"
      using snap org(1) by (auto simp: resolveTaskActorOrgSnapshot_def bnd_eq_Inr split: if_splits)
    note sub = conjunct2 [OF snapshot_loop_success [OF this], simplified]
    have canon: "canonical_user u" if "List.find (\<lambda>u. U_ID u = i) ?us = Some u" for i u
      using assms(3) find_SomeD [OF that] by (simp add: list_all_iff)
    from org(2) show ?thesis
    proof
      assume "managed_match (AO_Departments a) (DS_ManagedDepartmentCodes ?s)"
      then obtain c where c: "c \<in> set (AO_Departments a)" "c \<in> set (DS_ManagedDepartmentCodes ?s)" "c \<noteq> []"
        by (auto simp: managed_match_iff)
      with sub obtain i u where "i \<in> set (taskActorSnapshotUserIDs task)"
        "List.find (\<lambda>u. U_ID u = i) ?us = Some u" "c = normalizeTaskDepartmentCode (U_Department u)"
        by blast
      then have "buildManagedUserScopeClause ?us U_Department T_OwnerDepartment (DS_ManagedDepartmentCodes ?s) task"
        using c canon Resolve_codes(2) [of user]
        by (intro managed_user_clause [OF snapshot_ids]) (auto simp: canonical_user_def trimmed_def)
      then show ?thesis by (simp add: filter_defs)
    next
      assume "managed_match (AO_Teams a) (DS_ManagedTeamCodes ?s)"
      then obtain c where c: "c \<in> set (AO_Teams a)" "c \<in> set (DS_ManagedTeamCodes ?s)" "c \<noteq> []"
        by (auto simp: managed_match_iff)
      with sub obtain i u where "i \<in> set (taskActorSnapshotUserIDs task)"
        "List.find (\<lambda>u. U_ID u = i) ?us = Some u" "c = TrimSpace (U_Team u)"
        by blast
      then have "buildManagedUserScopeClause ?us U_Team T_OwnerOrgTeam (DS_ManagedTeamCodes ?s) task"
        using c canon by (intro managed_user_clause [OF snapshot_ids]) (auto simp: canonical_user_def)
      then show ?thesis by (simp add: filter_defs)
    qed
  qed
qed

text \<open>An administrator of a managed department and a task designed in it.\<close>

definition demo_user :: "id \<Rightarrow> string \<Rightarrow> string \<Rightarrow> User" where
  "demo_user i department team = \<lparr>U_ID = i, U_Username = ''u'', U_DisplayName = ''U'',
     U_Department = department, U_Team = team, U_ManagedDepartments = [], U_ManagedTeams = [],
     U_Mobile = [], U_Email = [], U_AvatarURL = [], U_PasswordHash = [], U_Status = ''active'',
     U_EmploymentType = ''full_time'', U_IsConfigSuperAdmin = False, U_LastLoginAt = None,
     U_CreatedAt = 0, U_UpdatedAt = 0, U_JstUID = None, U_JstRawSnapshotJSON = []\<rparr>"

definition empty_catalog :: taskOrgCatalog where
  "empty_catalog = \<lparr>configuredDepartments = [], orgTeamDepartmentMap = Map.empty,
     legacyOwnerTeamDeptsMap = [], departmentLegacyTeams = [], ownerTeamCompatMappings = [],
     ownerTeamCompatMap = Map.empty\<rparr>"

definition demo_lead :: ScopeUser where
  "demo_lead = \<lparr>SU_ID = 9, SU_Department = [], SU_Team = [], SU_ManagedDepartments = [DepartmentOperations],
     SU_ManagedTeams = [], SU_Roles = [RoleDeptAdmin]\<rparr>"

lemma DepartmentOperations_normal [simp]:
  "normalizeTaskDepartmentCode DepartmentOperations = DepartmentOperations" "DepartmentOperations \<noteq> []"
  by (simp_all add: normalizeTaskDepartmentCode_def module_names string_eval)

lemma empty_catalog_read [simp]:
  "T_OwnerTeam t = [] \<Longrightarrow> T_OwnerDepartment t = [] \<Longrightarrow> T_OwnerOrgTeam t = [] \<Longrightarrow>
   applyTaskReadModelOrgOwnership empty_catalog t = t"
  by (simp add: applyTaskReadModelOrgOwnership_def buildTaskReadModelOrgOwnership_def Let_def
      inferCanonicalDepartmentFromLegacyOwnerTeam_def slices_get_def empty_catalog_def canonical_departments)

theorem viewable_tasks_are_listed_witness:
  "appendTaskDataScopeWhere [demo_user 5 DepartmentOperations ''T'']
     (applyTaskOrgVisibilityScope \<lparr>TF_ScopeViewAll = False, TF_ScopeDepartmentCodes = [],
        TF_ScopeTeamCodes = [], TF_ScopeManagedDepartmentCodes = [], TF_ScopeManagedTeamCodes = [],
        TF_ScopeUserIDs = [], TF_ScopeStageVisibilities = []\<rparr> (Some (Resolve (Some demo_lead))))
     (demo_task\<lparr>T_DesignerID := Some 5\<rparr>)"
proof -
  let ?w = "\<lparr>wdb = [demo_user 5 DepartmentOperations ''T''], faults = []\<rparr>"
    and ?t = "demo_task\<lparr>T_DesignerID := Some 5\<rparr>"
  have "snapshot_loop (userRepo_GetByID id) [7, 5] \<lparr>AO_Departments = [], AO_Teams = []\<rparr> ?w =
      (Inr \<lparr>AO_Departments = [DepartmentOperations], AO_Teams = [''T'']\<rparr>, ?w)"
    by (simp add: userRepo_GetByID_def act_simps bnd_def map_err_def demo_user_def scanUser_def keep_new_def
        Let_def string_eval)
  then have snap: "resolveTaskActorOrgSnapshot (Some (userRepo_GetByID id)) ?t ?w =
      (Inr (Some \<lparr>AO_Departments = [DepartmentOperations], AO_Teams = [''T'']\<rparr>), ?w)"
    by (simp add: resolveTaskActorOrgSnapshot_def taskActorSnapshotUserIDs_def demo_task_def act_simps bnd_def)
  have managed: "DS_ManagedDepartmentCodes (Resolve (Some demo_lead)) = [DepartmentOperations]"
    by (simp add: Resolve_def demo_lead_def dept_admin_scope_def no_scope_def keep_first_def keep_new_def
        hasAnyRoleValue_iff Let_def)
  show ?thesis
    using viewable_tasks_are_listed [OF _ _ _ snap, of empty_catalog "Some demo_lead"] managed
    by (simp add: canViewTaskWithScopeAndActorOrg_def canonical_user_def demo_user_def demo_task_def
        TaskBusinessLane_Valid_def hasManagedOrgScope_def managed_match_iff Let_def string_eval)
qed

end
