(* ===== verification/Task_Authorizer.thy ===== *)
theory Task_Authorizer
  imports Data_Scope
begin

section \<open>Authorisation of task actions\<close>

text \<open>
  \<^verbatim>\<open>service/task_action_scope.go\<close>: which scopes match an actor and a task;
  \<^verbatim>\<open>service/task_action_authorizer.go\<close>: the decision, gate by gate. A decision keeps what is
  reported and logged except the messages and the trace id. The code applies the read model's
  ownership to the caller's task in place; here the gates work on the updated copy, and a caller
  that reads the owner fields afterwards takes the copy too.
\<close>

subsection \<open>The actor\<close>

record taskActionActor =
  AA_ID :: id
  AA_Username :: string
  AA_Roles :: "string list"
  AA_Department :: string
  AA_Team :: string
  AA_ManagedDepartments :: "string list"
  AA_ManagedTeams :: "string list"

text \<open>An organisation missing in the session falls back to the frontend access view.\<close>

definition resolveTaskActionActor :: "RequestActor option \<Rightarrow> taskActionActor option" where
  "resolveTaskActionActor ctxActor = (case ctxActor of
       None \<Rightarrow> None
     | Some r \<Rightarrow>
        if RA_ID r \<le> 0 then None
        else let access = RA_FrontendAccess r;
                 department = normalizeTaskDepartmentCode (RA_Department r);
                 team = TrimSpace (RA_Team r);
                 managedDepartments = normalizeTaskDepartmentCodes (RA_ManagedDepartments r);
                 managedTeams = RA_ManagedTeams r
             in Some \<lparr>AA_ID = RA_ID r, AA_Username = TrimSpace (RA_Username r), AA_Roles = RA_Roles r,
                  AA_Department =
                    (if department = [] then normalizeTaskDepartmentCode (FA_Department access) else department),
                  AA_Team = (if team = [] then TrimSpace (FA_Team access) else team),
                  AA_ManagedDepartments =
                    (if managedDepartments = [] \<and> FA_ManagedDepartments access \<noteq> []
                     then normalizeTaskDepartmentCodes (FA_ManagedDepartments access) else managedDepartments),
                  AA_ManagedTeams =
                    (if managedTeams = [] \<and> FA_ManagedTeams access \<noteq> []
                     then FA_ManagedTeams access else managedTeams)\<rparr>)"

subsection \<open>Matching scopes\<close>

definition buildTaskActionStageVisibilities :: "taskActionActor \<Rightarrow> StageVisibility list" where
  "buildTaskActionStageVisibilities actor =
     (let stageVisibilities = buildRoleBasedStageVisibilities (AA_Roles actor) (AA_Department actor) in
      if hasAnyRoleValue (AA_Roles actor) [RoleAuditA, RoleAuditB] \<or>
         (hasRoleValue (AA_Roles actor) RoleDeptAdmin \<and> AA_Department actor = DepartmentAudit)
        then Build (GrantNoLane [TaskStatusPendingOutsourceReview]
               (fold (\<lambda>v. grant (SV_Lane v) (SV_Statuses v)) stageVisibilities newStageVisibilityBuilder))
      else stageVisibilities)"

definition appendIfMissingScope ::
  "TaskActionScopeSource \<Rightarrow> TaskActionScopeSource list \<Rightarrow> TaskActionScopeSource list" where
  "appendIfMissingScope source scopes = (if source \<in> set scopes then scopes else scopes @ [source])"

definition org_scopes ::
  "string \<Rightarrow> string \<Rightarrow> string list \<Rightarrow> TaskActionScopeSource \<Rightarrow> TaskActionScopeSource \<Rightarrow>
   TaskActionScopeSource list \<Rightarrow> TaskActionScopeSource list" where
  "org_scopes owner own managed own_scope managed_scope out =
     (if owner = [] then out
      else let out1 = (if EqualFold (TrimSpace own) owner then appendIfMissingScope own_scope out else out)
           in if list_ex (\<lambda>m. EqualFold (TrimSpace m) owner) managed
              then appendIfMissingScope own_scope (appendIfMissingScope managed_scope out1) else out1)"

definition evaluateTaskActionScope ::
  "taskActionActor \<Rightarrow> Task option \<Rightarrow> string \<Rightarrow> string \<Rightarrow> TaskActionScopeSource list" where
  "evaluateTaskActionScope actor task0 ownerDepartment0 ownerOrgTeam0 =
     (let ownerDepartment = normalizeTaskDepartmentCode ownerDepartment0;
          ownerOrgTeam = TrimSpace ownerOrgTeam0;
          out = (if hasAnyRoleValue (AA_Roles actor) [RoleAdmin, RoleSuperAdmin, RoleRoleAdmin, RoleHRAdmin]
                 then [TaskActionScopeViewAll] else []);
          out = org_scopes ownerDepartment (AA_Department actor) (AA_ManagedDepartments actor)
                  TaskActionScopeDepartment TaskActionScopeManagedDepartment out;
          out = org_scopes ownerOrgTeam (AA_Team actor) (AA_ManagedTeams actor)
                  TaskActionScopeTeam TaskActionScopeManagedTeam out
      in case task0 of
           None \<Rightarrow> out
         | Some task \<Rightarrow>
            if AA_ID actor > 0 then
              let out = (if T_CurrentHandlerID task = Some (AA_ID actor)
                         then appendIfMissingScope TaskActionScopeHandler out else out);
                  out = (if T_DesignerID task = Some (AA_ID actor)
                         then appendIfMissingScope TaskActionScopeDesigner out else out);
                  out = (if T_CreatorID task = AA_ID actor
                         then appendIfMissingScope TaskActionScopeCreator out else out);
                  out = (if T_RequesterID task = Some (AA_ID actor)
                         then appendIfMissingScope TaskActionScopeRequester out else out)
              in (if matchesAnyStageVisibility task (buildTaskActionStageVisibilities actor)
                  then appendIfMissingScope TaskActionScopeStage out else out)
            else out)"

definition taskActionActorHasDepartmentManagementRole :: "taskActionActor \<Rightarrow> bool" where
  "taskActionActorHasDepartmentManagementRole actor =
     hasAnyRoleValue (AA_Roles actor) [RoleDeptAdmin, RoleDesignDirector]"

definition taskActionActorHasTeamManagementRole :: "taskActionActor \<Rightarrow> bool" where
  "taskActionActorHasTeamManagementRole actor = hasRoleValue (AA_Roles actor) RoleTeamLead"

definition taskActionActorHasManagementScopeRole :: "taskActionActor \<Rightarrow> bool" where
  "taskActionActorHasManagementScopeRole actor = hasAnyRoleValue (AA_Roles actor)
     [RoleAdmin, RoleSuperAdmin, RoleRoleAdmin, RoleHRAdmin, RoleDeptAdmin, RoleDesignDirector, RoleTeamLead]"

definition taskActionActorHasStageScopeRole :: "taskActionActor \<Rightarrow> bool" where
  "taskActionActorHasStageScopeRole actor = hasAnyRoleValue (AA_Roles actor)
     [RoleAuditA, RoleAuditB, RoleWarehouse, RoleOutsource, RoleCustomizationOperator,
      RoleCustomizationReviewer, RoleDeptAdmin]"

definition taskActionActorCanUseScope :: "taskActionActor \<Rightarrow> TaskActionScopeSource \<Rightarrow> bool" where
  "taskActionActorCanUseScope actor scope = (case scope of
       TaskActionScopeDepartment \<Rightarrow> \<not> (taskActionActorHasTeamManagementRole actor \<and>
         \<not> taskActionActorHasDepartmentManagementRole actor)
     | TaskActionScopeStage \<Rightarrow> taskActionActorHasStageScopeRole actor
     | TaskActionScopeManagedDepartment \<Rightarrow>
         taskActionActorHasDepartmentManagementRole actor \<or> AA_ManagedDepartments actor \<noteq> []
     | TaskActionScopeManagedTeam \<Rightarrow>
         taskActionActorHasTeamManagementRole actor \<or> AA_ManagedTeams actor \<noteq> []
     | _ \<Rightarrow> True)"

definition taskActionScopeHasElevatedMatch :: "taskActionActor \<Rightarrow> TaskActionScopeSource list \<Rightarrow> bool" where
  "taskActionScopeHasElevatedMatch actor scopeEval \<longleftrightarrow>
     TaskActionScopeViewAll \<in> set scopeEval \<or> TaskActionScopeManagedDepartment \<in> set scopeEval \<or>
     TaskActionScopeManagedTeam \<in> set scopeEval \<or> TaskActionScopeStage \<in> set scopeEval \<or>
     (TaskActionScopeDepartment \<in> set scopeEval \<and> taskActionActorHasDepartmentManagementRole actor) \<or>
     (TaskActionScopeTeam \<in> set scopeEval \<and> taskActionActorHasTeamManagementRole actor)"

definition taskActionActorIsCreatorOrRequester :: "taskActionActor \<Rightarrow> Task \<Rightarrow> bool" where
  "taskActionActorIsCreatorOrRequester actor task \<longleftrightarrow>
     AA_ID actor > 0 \<and> (T_CreatorID task = AA_ID actor \<or> T_RequesterID task = Some (AA_ID actor))"

definition taskActionScopeEvalHasCreatorOrRequester ::
  "TaskActionScopeSource list \<Rightarrow> taskActionActor \<Rightarrow> Task \<Rightarrow> bool" where
  "taskActionScopeEvalHasCreatorOrRequester scopeEval actor task =
     (if TaskActionScopeCreator \<in> set scopeEval \<or> TaskActionScopeRequester \<in> set scopeEval then True
      else taskActionActorIsCreatorOrRequester actor task)"

subsection \<open>The stage of an audit action\<close>

datatype AuditRecordStage = AuditRecordStageA | AuditRecordStageB | AuditRecordStageOutsourceReview
  | AuditRecordStageOther string

abbreviation "no_stage \<equiv> AuditRecordStageOther []"

fun TaskType_RequiresAudit :: "TaskType \<Rightarrow> bool" where
  "TaskType_RequiresAudit TaskTypeOriginalProductDevelopment = True"
| "TaskType_RequiresAudit TaskTypeNewProductDevelopment = True"
| "TaskType_RequiresAudit _ = False"

fun activeAuditStageFromStatus :: "TaskStatus \<Rightarrow> AuditRecordStage option" where
  "activeAuditStageFromStatus TaskStatusPendingAuditA = Some AuditRecordStageA"
| "activeAuditStageFromStatus TaskStatusPendingAuditB = Some AuditRecordStageB"
| "activeAuditStageFromStatus TaskStatusPendingOutsourceReview = Some AuditRecordStageOutsourceReview"
| "activeAuditStageFromStatus _ = None"

definition resolveAuditStageAction :: "TaskAction \<Rightarrow> AuditRecordStage \<Rightarrow> TaskAction" where
  "resolveAuditStageAction a stage = (case stage of
       AuditRecordStageA \<Rightarrow>
         if a = TaskActionAuditClaim then TaskActionAuditAClaim
         else if a = TaskActionAuditApprove then TaskActionAuditAApprove
         else if a = TaskActionAuditReject then TaskActionAuditAReject
         else if a = TaskActionAuditTransfer then TaskActionAuditATransfer
         else if a = TaskActionAuditHandover then TaskActionAuditAHandover
         else if a = TaskActionAuditTakeover then TaskActionAuditATakeover else a
     | AuditRecordStageB \<Rightarrow>
         if a = TaskActionAuditClaim then TaskActionAuditBClaim
         else if a = TaskActionAuditApprove then TaskActionAuditBApprove
         else if a = TaskActionAuditReject then TaskActionAuditBReject
         else if a = TaskActionAuditTransfer then TaskActionAuditBTransfer
         else if a = TaskActionAuditHandover then TaskActionAuditBHandover
         else if a = TaskActionAuditTakeover then TaskActionAuditBTakeover else a
     | AuditRecordStageOutsourceReview \<Rightarrow>
         if a = TaskActionAuditClaim then TaskActionAuditOutsourceReviewClaim
         else if a = TaskActionAuditApprove then TaskActionAuditOutsourceReviewApprove
         else if a = TaskActionAuditReject then TaskActionAuditOutsourceReviewReject
         else if a = TaskActionAuditTransfer then TaskActionAuditOutsourceReviewTransfer
         else if a = TaskActionAuditHandover then TaskActionAuditOutsourceReviewHandover
         else if a = TaskActionAuditTakeover then TaskActionAuditOutsourceReviewTakeover else a
     | AuditRecordStageOther _ \<Rightarrow> a)"

definition audit_actions :: "TaskAction list" where
  "audit_actions = [TaskActionAuditClaim, TaskActionAuditApprove, TaskActionAuditReject,
     TaskActionAuditTransfer, TaskActionAuditHandover, TaskActionAuditTakeover]"

text \<open>The action to look up and, if the stage forbids it, a deny code.\<close>

definition resolveTaskAction :: "TaskAction \<Rightarrow> Task option \<Rightarrow> AuditRecordStage \<Rightarrow> TaskAction \<times> string" where
  "resolveTaskAction a task0 attrs = (case task0 of
       None \<Rightarrow> (a, [])
     | Some task \<Rightarrow>
        if a \<in> set audit_actions then
          if T_TaskType task \<noteq> TaskTypeOther [] \<and> \<not> TaskType_RequiresAudit (T_TaskType task)
            then (a, ''task_type_audit_not_supported'')
          else (case activeAuditStageFromStatus (T_TaskStatus task) of
              None \<Rightarrow> (a, [])
            | Some stage \<Rightarrow>
                if attrs \<noteq> no_stage \<and> stage \<noteq> attrs then (a, ''audit_stage_mismatch'')
                else (resolveAuditStageAction a stage, []))
        else (a, []))"

subsection \<open>Deny codes\<close>

fun authFirstNonEmpty :: "string list \<Rightarrow> string" where
  "authFirstNonEmpty [] = []"
| "authFirstNonEmpty (value # values) =
     (if TrimSpace value \<noteq> [] then TrimSpace value else authFirstNonEmpty values)"

definition ruleAllowsScope :: "taskActionRule \<Rightarrow> TaskActionScopeSource \<Rightarrow> bool" where
  "ruleAllowsScope rule target = list_ex (\<lambda>scope. scope = target) (AR_AllowedScopes rule)"

definition hasAnyMatchedAllowedScope ::
  "TaskActionScopeSource list \<Rightarrow> TaskActionScopeSource list \<Rightarrow> TaskActionScopeSource \<Rightarrow> bool" where
  "hasAnyMatchedAllowedScope scopeEval allowed skip =
     list_ex (\<lambda>scope. scope \<noteq> skip \<and> scope \<in> set scopeEval) allowed"

definition inferReadScopeDenyCode :: "taskActionActor \<Rightarrow> Task \<Rightarrow> string" where
  "inferReadScopeDenyCode actor task =
     (if T_OwnerOrgTeam task \<noteq> [] \<and> (TrimSpace (AA_Team actor) \<noteq> [] \<or> AA_ManagedTeams actor \<noteq> [])
        then ''task_out_of_team_scope''
      else if T_OwnerDepartment task \<noteq> [] \<and>
              (TrimSpace (AA_Department actor) \<noteq> [] \<or> AA_ManagedDepartments actor \<noteq> [])
        then ''task_out_of_department_scope''
      else ''task_out_of_scope'')"

definition has_handler :: "Task option \<Rightarrow> bool" where
  "has_handler task \<longleftrightarrow> (case task of None \<Rightarrow> False | Some t \<Rightarrow> T_CurrentHandlerID t \<noteq> None)"

definition inferWriteScopeDenyCode ::
  "taskActionActor \<Rightarrow> Task option \<Rightarrow> string \<Rightarrow> string \<Rightarrow> taskActionRule \<Rightarrow> TaskActionScopeSource list \<Rightarrow> string" where
  "inferWriteScopeDenyCode actor task ownerDepartment ownerOrgTeam rule scopeEval =
     (if AR_PreferHandlerDeny rule \<and> has_handler task \<and> \<not> taskActionActorHasManagementScopeRole actor
        then ''task_not_assigned_to_actor''
      else if ruleAllowsScope rule TaskActionScopeStage \<and> TaskActionScopeStage \<notin> set scopeEval \<and>
              \<not> hasAnyMatchedAllowedScope scopeEval (AR_AllowedScopes rule) TaskActionScopeStage
        then ''task_out_of_stage_scope''
      else if taskActionActorHasTeamManagementRole actor \<and> ownerOrgTeam \<noteq> [] then ''task_out_of_team_scope''
      else if taskActionActorHasDepartmentManagementRole actor \<and> ownerDepartment \<noteq> []
        then ''task_out_of_department_scope''
      else if ownerOrgTeam \<noteq> [] \<and> (TrimSpace (AA_Team actor) \<noteq> [] \<or> AA_ManagedTeams actor \<noteq> [])
        then ''task_out_of_team_scope''
      else if ownerDepartment \<noteq> [] \<and>
              (TrimSpace (AA_Department actor) \<noteq> [] \<or> AA_ManagedDepartments actor \<noteq> [])
        then ''task_out_of_department_scope''
      else if AR_PreferHandlerDeny rule \<and> has_handler task \<and> TaskActionScopeViewAll \<notin> set scopeEval \<and>
              TaskActionScopeManagedDepartment \<notin> set scopeEval \<and> TaskActionScopeManagedTeam \<notin> set scopeEval
        then ''task_not_assigned_to_actor''
      else if has_handler task then ''task_not_assigned_to_actor''
      else ''task_out_of_scope'')"

definition evaluateHandlerPolicy :: "taskActionHandlerPolicy \<Rightarrow> Task \<Rightarrow> TaskActionScopeSource list \<Rightarrow> string" where
  "evaluateHandlerPolicy policy task scopeEval = (case policy of
       taskActionHandlerPolicyNone \<Rightarrow> []
     | taskActionHandlerPolicyUnassignedOrCurrentActor \<Rightarrow>
         if T_CurrentHandlerID task \<noteq> None \<and> TaskActionScopeHandler \<notin> set scopeEval
         then ''task_not_assigned_to_actor'' else []
     | taskActionHandlerPolicyRequireCurrentHandler \<Rightarrow>
         if TaskActionScopeHandler \<notin> set scopeEval then ''task_not_assigned_to_actor'' else [])"

subsection \<open>The decision\<close>

record TaskActionDecision =
  D_Allowed :: bool
  D_DenyCode :: string
  D_MatchedRule :: string
  D_ScopeSource :: string
  D_ResolvedAction :: "TaskAction option"
  D_TaskStatus :: "TaskStatus option"
  D_ActorID :: id
  D_ActorRoles :: "string list"
  D_TaskID :: id
  D_OwnerDept :: string
  D_OwnerOrgTeam :: string

definition no_decision :: TaskActionDecision where
  "no_decision = \<lparr>D_Allowed = False, D_DenyCode = [], D_MatchedRule = [], D_ScopeSource = [],
     D_ResolvedAction = None, D_TaskStatus = None, D_ActorID = 0, D_ActorRoles = [], D_TaskID = 0,
     D_OwnerDept = [], D_OwnerOrgTeam = []\<rparr>"

definition deny :: "string \<Rightarrow> TaskActionDecision \<Rightarrow> TaskActionDecision" where
  "deny code decision = decision\<lparr>D_Allowed := False, D_DenyCode := code\<rparr>"

definition allow :: "string \<Rightarrow> TaskActionDecision \<Rightarrow> TaskActionDecision" where
  "allow source decision = decision\<lparr>D_Allowed := True, D_ScopeSource := source\<rparr>"

definition inferReadScopeSource :: "Task \<Rightarrow> DataScope \<Rightarrow> taskActorOrgSnapshot option \<Rightarrow> string" where
  "inferReadScopeSource task scope actorOrg =
     (if DS_ViewAll scope then scope_string TaskActionScopeViewAll
      else if T_OwnerDepartment task \<noteq> [] \<and> T_OwnerDepartment task \<in> set (DS_DepartmentCodes scope)
        then scope_string TaskActionScopeDepartment
      else if T_OwnerOrgTeam task \<noteq> [] \<and> T_OwnerOrgTeam task \<in> set (DS_TeamCodes scope)
        then scope_string TaskActionScopeTeam
      else if list_ex (\<lambda>uid. uid > 0 \<and> task_touched_by task uid) (DS_UserIDs scope) then ''self_scope''
      else if matchesAnyStageVisibility task (DS_StageVisibilities scope)
        then scope_string TaskActionScopeStage
      else case actorOrg of
          None \<Rightarrow> ''self_scope''
        | Some org \<Rightarrow>
            if list_ex (\<lambda>d. d \<noteq> [] \<and> d \<in> set (DS_ManagedDepartmentCodes scope)) (AO_Departments org)
              then scope_string TaskActionScopeManagedDepartment
            else if list_ex (\<lambda>t. t \<noteq> [] \<and> t \<in> set (DS_ManagedTeamCodes scope)) (AO_Teams org)
              then scope_string TaskActionScopeManagedTeam
            else ''self_scope'')"

text \<open>Go's two-valued result: handle the error, or go on with the value.\<close>

definition attempt ::
  "('d, 'f, 'a) act \<Rightarrow> ('f \<Rightarrow> ('d, 'e, 'b) act) \<Rightarrow> ('a \<Rightarrow> ('d, 'e, 'b) act) \<Rightarrow> ('d, 'e, 'b) act" where
  "attempt m h k w = (case m w of (Inl e, w') \<Rightarrow> h e w' | (Inr x, w') \<Rightarrow> k x w')"

definition scope_failed :: "taskActionActor \<Rightarrow> taskActionRule \<Rightarrow> Task \<Rightarrow> TaskActionDecision" where
  "scope_failed actor rule task = no_decision\<lparr>D_DenyCode := ''scope_resolution_failed'',
     D_MatchedRule := AR_MatchedRule rule, D_ActorID := AA_ID actor, D_ActorRoles := AA_Roles actor,
     D_TaskID := T_ID task, D_OwnerDept := T_OwnerDepartment task, D_OwnerOrgTeam := T_OwnerOrgTeam task\<rparr>"

text \<open>The branch of rules that use read visibility.\<close>

definition evaluate_read ::
  "taskOrgCatalog \<Rightarrow> bool \<Rightarrow> 'd user_repo \<Rightarrow> RequestActor option \<Rightarrow> taskActionActor \<Rightarrow> taskActionRule \<Rightarrow>
   TaskAction \<Rightarrow> Task \<Rightarrow> TaskActionDecision \<Rightarrow> ('d, 'e, TaskActionDecision) act" where
  "evaluate_read catalog resolver userRepo ctxActor actor rule resolvedAction task decision =
     (let otherwise =
        (if resolvedAction = TaskActionReadDetail
         then ret (allow (scope_string TaskActionScopeMainFlowRead) decision)
         else ret (deny (inferReadScopeDenyCode actor task) decision))
      in attempt (resolveDataScopeForActor ctxActor resolver userRepo)
        (\<lambda>_. ret (scope_failed actor rule task))
        (\<lambda>scope.
          if canViewTaskWithScope catalog task scope
            then ret (allow (inferReadScopeSource task scope None) decision)
          else if hasManagedOrgScope scope \<and> \<not> DS_ViewAll scope then
            attempt (resolveTaskActorOrgSnapshot userRepo task)
              (\<lambda>_. ret (scope_failed actor rule task))
              (\<lambda>actorOrg.
                if canViewTaskWithScopeAndActorOrg catalog task scope actorOrg
                  then ret (allow (inferReadScopeSource task scope actorOrg) decision)
                else otherwise)
          else otherwise))"

text \<open>The branch of all other rules: scope, handler, reassignment.\<close>

definition evaluate_write ::
  "taskActionActor \<Rightarrow> taskActionRule \<Rightarrow> TaskAction \<Rightarrow> Task option \<Rightarrow> TaskActionDecision \<Rightarrow> TaskActionDecision" where
  "evaluate_write actor rule resolvedAction task decision =
     (let scopeEval = evaluateTaskActionScope actor task (D_OwnerDept decision) (D_OwnerOrgTeam decision)
      in case List.find (\<lambda>scope. scope \<in> set scopeEval \<and> taskActionActorCanUseScope actor scope)
                (AR_AllowedScopes rule) of
           None \<Rightarrow> deny (inferWriteScopeDenyCode actor task (D_OwnerDept decision)
                          (D_OwnerOrgTeam decision) rule scopeEval) decision
         | Some scope \<Rightarrow>
             let decision = decision\<lparr>D_ScopeSource := scope_string scope\<rparr>;
                 handlerDenyCode = (case task of
                     None \<Rightarrow> []
                   | Some t \<Rightarrow> if taskActionScopeHasElevatedMatch actor scopeEval then []
                              else evaluateHandlerPolicy (AR_HandlerPolicy rule) t scopeEval)
             in if handlerDenyCode \<noteq> [] then deny handlerDenyCode decision
                else if resolvedAction = TaskActionReassign \<and>
                  (case task of
                     None \<Rightarrow> False
                   | Some t \<Rightarrow> \<not> taskActionActorHasManagementScopeRole actor \<and>
                       \<not> taskActionScopeEvalHasCreatorOrRequester scopeEval actor t \<and>
                       scope \<noteq> TaskActionScopeRequester \<and> scope \<noteq> TaskActionScopeCreator)
                  then deny ''task_reassign_requires_requester_or_manager'' decision
                else allow (scope_string scope) decision)"

definition actorHasAllowedTaskActionRole :: "taskActionActor \<Rightarrow> string list \<Rightarrow> bool" where
  "actorHasAllowedTaskActionRole actor required = ActorHasAnyRole (AA_Roles actor) required"

definition taskActionStatusAllowed :: "TaskStatus \<Rightarrow> TaskStatus list \<Rightarrow> bool" where
  "taskActionStatusAllowed current allowed = list_ex (\<lambda>candidate. current = candidate) allowed"

definition owner_or_default :: "string \<Rightarrow> Task option \<Rightarrow> (Task \<Rightarrow> string) \<Rightarrow> string" where
  "owner_or_default owner task field = (case task of
       Some t \<Rightarrow> if TrimSpace owner = [] then TrimSpace (field t) else TrimSpace owner
     | None \<Rightarrow> TrimSpace owner)"

definition start_decision ::
  "taskActionActor \<Rightarrow> taskActionRule \<Rightarrow> TaskAction \<Rightarrow> Task option \<Rightarrow> string \<Rightarrow> string \<Rightarrow> TaskActionDecision" where
  "start_decision actor rule resolvedAction task ownerDepartment ownerOrgTeam = no_decision\<lparr>
     D_MatchedRule := AR_MatchedRule rule, D_ResolvedAction := Some resolvedAction,
     D_ActorID := AA_ID actor, D_ActorRoles := AA_Roles actor,
     D_TaskID := (case task of None \<Rightarrow> 0 | Some t \<Rightarrow> T_ID t),
     D_TaskStatus := map_option T_TaskStatus task,
     D_OwnerDept := owner_or_default ownerDepartment task T_OwnerDepartment,
     D_OwnerOrgTeam := owner_or_default ownerOrgTeam task T_OwnerOrgTeam\<rparr>"

definition EvaluateTaskActionPolicyWithAttributes ::
  "taskOrgCatalog \<Rightarrow> bool \<Rightarrow> 'd user_repo \<Rightarrow> RequestActor option \<Rightarrow> TaskAction \<Rightarrow> Task option \<Rightarrow>
   string \<Rightarrow> string \<Rightarrow> AuditRecordStage \<Rightarrow> ('d, 'e, TaskActionDecision) act" where
  "EvaluateTaskActionPolicyWithAttributes catalog resolver userRepo ctxActor a task0 ownerDepartment
     ownerOrgTeam attrs =
     (case resolveTaskActionActor ctxActor of
        None \<Rightarrow> ret (no_decision\<lparr>D_Allowed := True,
          D_MatchedRule := ''no_request_actor_backward_compatible''\<rparr>)
      | Some actor \<Rightarrow>
          let (resolvedAction, stageDenyCode) = resolveTaskAction a task0 attrs;
              rule = taskActionRuleFor resolvedAction;
              task = map_option (applyTaskReadModelOrgOwnership catalog) task0;
              decision = start_decision actor rule resolvedAction task ownerDepartment ownerOrgTeam
          in if stageDenyCode \<noteq> [] then ret (deny stageDenyCode decision)
             else if \<not> actorHasAllowedTaskActionRole actor (AR_RequiredRoles rule)
               then ret (deny ''missing_required_role'' decision)
             else if (case task of None \<Rightarrow> False
                      | Some t \<Rightarrow> AR_AllowedStatuses rule \<noteq> [] \<and>
                                 \<not> taskActionStatusAllowed (T_TaskStatus t) (AR_AllowedStatuses rule))
               then ret (deny (authFirstNonEmpty [AR_StatusDenyCode rule, ''task_status_not_actionable'']) decision)
             else (case (AR_UseReadVisibility rule, task) of
                 (True, Some t) \<Rightarrow>
                   evaluate_read catalog resolver userRepo ctxActor actor rule resolvedAction t decision
               | _ \<Rightarrow> ret (evaluate_write actor rule resolvedAction task decision)))"

abbreviation "EvaluateTaskActionPolicy catalog resolver userRepo ctxActor a task ownerDepartment ownerOrgTeam \<equiv>
  EvaluateTaskActionPolicyWithAttributes catalog resolver userRepo ctxActor a task ownerDepartment ownerOrgTeam no_stage"

text \<open>\<^verbatim>\<open>AuthorizeTaskActionWithAttributes\<close>: nothing, or PERMISSION_DENIED with the deny code.\<close>

definition AuthorizeTaskActionWithAttributes ::
  "taskOrgCatalog \<Rightarrow> bool \<Rightarrow> 'd user_repo \<Rightarrow> RequestActor option \<Rightarrow> TaskAction \<Rightarrow> Task option \<Rightarrow>
   AuditRecordStage \<Rightarrow> ('d, ErrCode, unit) act" where
  "AuthorizeTaskActionWithAttributes catalog resolver userRepo ctxActor a task attrs =
     bnd (EvaluateTaskActionPolicyWithAttributes catalog resolver userRepo ctxActor a task [] [] attrs)
       (\<lambda>decision. if D_Allowed decision then ret () else throw ErrCodePermissionDenied)"

definition AuthorizeTaskCreate ::
  "taskOrgCatalog \<Rightarrow> bool \<Rightarrow> 'd user_repo \<Rightarrow> RequestActor option \<Rightarrow> string \<Rightarrow> string \<Rightarrow>
   ('d, ErrCode, unit) act" where
  "AuthorizeTaskCreate catalog resolver userRepo ctxActor ownerDepartment ownerOrgTeam =
     bnd (EvaluateTaskActionPolicyWithAttributes catalog resolver userRepo ctxActor TaskActionCreate None
            ownerDepartment ownerOrgTeam no_stage)
       (\<lambda>decision. if D_Allowed decision then ret () else throw ErrCodePermissionDenied)"

definition taskActionDecisionHasElevatedScope :: "TaskActionDecision \<Rightarrow> bool" where
  "taskActionDecisionHasElevatedScope decision =
     (let source = D_ScopeSource decision in
      if source \<in> set [scope_string TaskActionScopeViewAll, scope_string TaskActionScopeManagedDepartment,
                       scope_string TaskActionScopeManagedTeam] then True
      else if source = scope_string TaskActionScopeDepartment
        then hasAnyRoleValue (D_ActorRoles decision) [RoleDeptAdmin, RoleDesignDirector]
      else if source = scope_string TaskActionScopeTeam
        then hasRoleValue (D_ActorRoles decision) RoleTeamLead
      else False)"

subsection \<open>Which scopes match\<close>

definition auditor :: "taskActionActor \<Rightarrow> bool" where
  "auditor actor \<longleftrightarrow> RoleAuditA \<in> set (AA_Roles actor) \<or> RoleAuditB \<in> set (AA_Roles actor) \<or>
     (RoleDeptAdmin \<in> set (AA_Roles actor) \<and> AA_Department actor = DepartmentAudit)"

definition opens_task :: "taskActionActor \<Rightarrow> Task \<Rightarrow> bool" where
  "opens_task actor task \<longleftrightarrow>
     opens_stage (AA_Roles actor) (AA_Department actor) (Task_WorkflowLane task) (T_TaskStatus task) \<or>
     (auditor actor \<and> T_TaskStatus task = TaskStatusPendingOutsourceReview)"

lemma fold_grants:
  assumes "builder_ok b"
  shows "builder_ok (fold (\<lambda>v. grant (SV_Lane v) (SV_Statuses v)) vs b) \<and>
    (builder_sees (fold (\<lambda>v. grant (SV_Lane v) (SV_Statuses v)) vs b) l s \<longleftrightarrow>
     builder_sees b l s \<or> (\<exists>v \<in> set vs. s \<in> set (SV_Statuses v) \<and> lane_ok (SV_Lane v) l))"
  using assms by (induction vs arbitrary: b) (auto simp: grant_ok grant_sees)

lemma matchesAny_iff:
  "matchesAnyStageVisibility task vs \<longleftrightarrow>
   (\<exists>v \<in> set vs. T_TaskStatus task \<in> set (SV_Statuses v) \<and> lane_ok (SV_Lane v) (Task_WorkflowLane task))"
  by (auto simp: matchesAnyStageVisibility_def taskMatchesStageVisibility_def lane_ok_def list_ex_iff
      split: option.splits)

lemma matches_action_stages:
  "matchesAnyStageVisibility task (buildTaskActionStageVisibilities actor) \<longleftrightarrow> opens_task actor task"
proof -
  let ?vs = "buildRoleBasedStageVisibilities (AA_Roles actor) (AA_Department actor)"
  note f = fold_grants [OF new_builder(1), of ?vs]
  have "builder_sees (fold (\<lambda>v. grant (SV_Lane v) (SV_Statuses v)) ?vs newStageVisibilityBuilder)
      (Task_WorkflowLane task) (T_TaskStatus task) \<longleftrightarrow> matchesAnyStageVisibility task ?vs"
    using f by (auto simp: matchesAny_iff)
  moreover have "hasAnyRoleValue (AA_Roles actor) [RoleAuditA, RoleAuditB] \<or>
      (hasRoleValue (AA_Roles actor) RoleDeptAdmin \<and> AA_Department actor = DepartmentAudit) \<longleftrightarrow> auditor actor"
    by (auto simp: auditor_def hasAnyRoleValue_iff)
  ultimately show ?thesis
    using f by (simp add: buildTaskActionStageVisibilities_def opens_task_def matches_Build grant_ok
        grant_sees lane_ok_simps matches_role_stages Let_def)
qed

definition org_matches :: "string \<Rightarrow> string \<Rightarrow> string list \<Rightarrow> bool" where
  "org_matches owner own managed \<longleftrightarrow> owner \<noteq> [] \<and>
     (EqualFold (TrimSpace own) owner \<or> list_ex (\<lambda>m. EqualFold (TrimSpace m) owner) managed)"

definition manages :: "string \<Rightarrow> string list \<Rightarrow> bool" where
  "manages owner managed \<longleftrightarrow> owner \<noteq> [] \<and> list_ex (\<lambda>m. EqualFold (TrimSpace m) owner) managed"

definition scope_matches ::
  "taskActionActor \<Rightarrow> Task option \<Rightarrow> string \<Rightarrow> string \<Rightarrow> TaskActionScopeSource \<Rightarrow> bool" where
  "scope_matches actor task department team s \<longleftrightarrow> (case s of
       TaskActionScopeViewAll \<Rightarrow>
         hasAnyRoleValue (AA_Roles actor) [RoleAdmin, RoleSuperAdmin, RoleRoleAdmin, RoleHRAdmin]
     | TaskActionScopeDepartment \<Rightarrow> org_matches (normalizeTaskDepartmentCode department)
         (AA_Department actor) (AA_ManagedDepartments actor)
     | TaskActionScopeManagedDepartment \<Rightarrow>
         manages (normalizeTaskDepartmentCode department) (AA_ManagedDepartments actor)
     | TaskActionScopeTeam \<Rightarrow> org_matches (TrimSpace team) (AA_Team actor) (AA_ManagedTeams actor)
     | TaskActionScopeManagedTeam \<Rightarrow> manages (TrimSpace team) (AA_ManagedTeams actor)
     | TaskActionScopeMainFlowRead \<Rightarrow> False
     | _ \<Rightarrow> (case task of None \<Rightarrow> False | Some t \<Rightarrow> AA_ID actor > 0 \<and> (case s of
           TaskActionScopeHandler \<Rightarrow> T_CurrentHandlerID t = Some (AA_ID actor)
         | TaskActionScopeDesigner \<Rightarrow> T_DesignerID t = Some (AA_ID actor)
         | TaskActionScopeCreator \<Rightarrow> T_CreatorID t = AA_ID actor
         | TaskActionScopeRequester \<Rightarrow> T_RequesterID t = Some (AA_ID actor)
         | _ \<Rightarrow> opens_task actor t)))"

lemma set_appendIfMissing [simp]: "set (appendIfMissingScope s scopes) = insert s (set scopes)"
  by (auto simp: appendIfMissingScope_def)

lemma set_org_scopes:
  "set (org_scopes owner own managed a b out) = set out \<union>
     (if org_matches owner own managed then {a} else {}) \<union> (if manages owner managed then {b} else {})"
  by (auto simp: org_scopes_def org_matches_def manages_def Let_def)

lemma mem_evaluate:
  "s \<in> set (evaluateTaskActionScope actor task department team) \<longleftrightarrow> scope_matches actor task department team s"
  by (cases s; cases task)
    (simp_all add: evaluateTaskActionScope_def scope_matches_def set_org_scopes matches_action_stages Let_def)

definition elevated :: "taskActionActor \<Rightarrow> Task option \<Rightarrow> string \<Rightarrow> string \<Rightarrow> bool" where
  "elevated actor task department team \<longleftrightarrow>
     taskActionScopeHasElevatedMatch actor (evaluateTaskActionScope actor task department team)"

lemma elevated_iff:
  "elevated actor task department team \<longleftrightarrow>
     scope_matches actor task department team TaskActionScopeViewAll \<or>
     scope_matches actor task department team TaskActionScopeManagedDepartment \<or>
     scope_matches actor task department team TaskActionScopeManagedTeam \<or>
     scope_matches actor task department team TaskActionScopeStage \<or>
     (scope_matches actor task department team TaskActionScopeDepartment \<and>
        taskActionActorHasDepartmentManagementRole actor) \<or>
     (scope_matches actor task department team TaskActionScopeTeam \<and>
        taskActionActorHasTeamManagementRole actor)"
  by (simp add: elevated_def taskActionScopeHasElevatedMatch_def mem_evaluate)

subsection \<open>The gates\<close>

definition handler_ok :: "taskActionHandlerPolicy \<Rightarrow> taskActionActor \<Rightarrow> Task \<Rightarrow> bool" where
  "handler_ok policy actor task \<longleftrightarrow> (case policy of
       taskActionHandlerPolicyNone \<Rightarrow> True
     | taskActionHandlerPolicyUnassignedOrCurrentActor \<Rightarrow>
         T_CurrentHandlerID task \<in> {None, Some (AA_ID actor)}
     | taskActionHandlerPolicyRequireCurrentHandler \<Rightarrow> T_CurrentHandlerID task = Some (AA_ID actor))"

text \<open>What the scope, handler and reassignment gates ask for, on a task as the read model shows it.\<close>

definition may_write :: "taskActionActor \<Rightarrow> taskActionRule \<Rightarrow> TaskAction \<Rightarrow> Task \<Rightarrow> string \<Rightarrow> string \<Rightarrow> bool" where
  "may_write actor rule resolvedAction task department team \<longleftrightarrow>
     list_ex (\<lambda>scope. scope_matches actor (Some task) department team scope \<and>
                taskActionActorCanUseScope actor scope) (AR_AllowedScopes rule) \<and>
     (elevated actor (Some task) department team \<or> handler_ok (AR_HandlerPolicy rule) actor task) \<and>
     (resolvedAction \<noteq> TaskActionReassign \<or> taskActionActorHasManagementScopeRole actor \<or>
      taskActionActorIsCreatorOrRequester actor task)"

lemma handler_policy_ok:
  "AA_ID actor > 0 \<Longrightarrow>
   evaluateHandlerPolicy policy task (evaluateTaskActionScope actor (Some task) department team) = [] \<longleftrightarrow>
   handler_ok policy actor task"
  by (cases policy) (auto simp: evaluateHandlerPolicy_def handler_ok_def mem_evaluate scope_matches_def)

lemma creator_or_requester:
  "taskActionScopeEvalHasCreatorOrRequester (evaluateTaskActionScope actor (Some task) department team) actor task
   \<longleftrightarrow> taskActionActorIsCreatorOrRequester actor task"
  by (auto simp: taskActionScopeEvalHasCreatorOrRequester_def mem_evaluate scope_matches_def
      taskActionActorIsCreatorOrRequester_def)

lemma evaluate_write_allowed:
  assumes "AA_ID actor > 0"
  shows "D_Allowed (evaluate_write actor rule ra (Some task) decision) \<longleftrightarrow>
    may_write actor rule ra task (D_OwnerDept decision) (D_OwnerOrgTeam decision)"
proof -
  let ?e = "evaluateTaskActionScope actor (Some task) (D_OwnerDept decision) (D_OwnerOrgTeam decision)"
  let ?p = "\<lambda>scope. scope \<in> set ?e \<and> taskActionActorCanUseScope actor scope"
  show ?thesis
  proof (cases "List.find ?p (AR_AllowedScopes rule)")
    case None
    then have "\<not> D_Allowed (evaluate_write actor rule ra (Some task) decision)"
      by (simp add: evaluate_write_def deny_def Let_def)
    moreover have "\<not> list_ex ?p (AR_AllowedScopes rule)"
      using None by (auto simp: find_None_iff list_ex_iff)
    ultimately show ?thesis by (simp add: may_write_def mem_evaluate)
  next
    case (Some scope)
    from find_SomeD [OF this] have found: "list_ex ?p (AR_AllowedScopes rule)" "scope \<in> set ?e"
      by (auto simp: list_ex_iff)
    have own: "scope \<noteq> TaskActionScopeRequester \<and> scope \<noteq> TaskActionScopeCreator"
      if "\<not> taskActionActorIsCreatorOrRequester actor task"
      using that found(2) by (auto simp: mem_evaluate scope_matches_def taskActionActorIsCreatorOrRequester_def)
    have "D_Allowed (evaluate_write actor rule ra (Some task) decision) \<longleftrightarrow>
        (taskActionScopeHasElevatedMatch actor ?e \<or> evaluateHandlerPolicy (AR_HandlerPolicy rule) task ?e = []) \<and>
        (ra \<noteq> TaskActionReassign \<or> taskActionActorHasManagementScopeRole actor \<or>
         taskActionScopeEvalHasCreatorOrRequester ?e actor task \<or>
         scope = TaskActionScopeRequester \<or> scope = TaskActionScopeCreator)"
      using Some by (simp add: evaluate_write_def deny_def allow_def Let_def)
    then show ?thesis
      using found(1) own by (auto simp: may_write_def mem_evaluate creator_or_requester elevated_def
          handler_policy_ok [OF assms])
  qed
qed

lemma read_visibility_only_detail:
  "AR_UseReadVisibility (taskActionRuleFor a) \<longleftrightarrow> a = TaskActionReadDetail"
  by (simp add: taskActionRuleFor_def no_rule_def)

lemma resolved_actor_positive: "resolveTaskActionActor c = Some actor \<Longrightarrow> AA_ID actor > 0"
  by (auto simp: resolveTaskActionActor_def Let_def split: option.splits if_splits)

lemma read_model_trimmed [simp]:
  "TrimSpace (T_OwnerDepartment (applyTaskReadModelOrgOwnership catalog task)) =
   T_OwnerDepartment (applyTaskReadModelOrgOwnership catalog task)"
  "TrimSpace (T_OwnerOrgTeam (applyTaskReadModelOrgOwnership catalog task)) =
   T_OwnerOrgTeam (applyTaskReadModelOrgOwnership catalog task)"
proof -
  have "TrimSpace d = d" if "normalizeTaskDepartmentCode d = d" for d using normalize_trimmed [of d] that by simp
  then show "TrimSpace (T_OwnerDepartment (applyTaskReadModelOrgOwnership catalog task)) =
      T_OwnerDepartment (applyTaskReadModelOrgOwnership catalog task)"
    using canonicalDepartment_normal infer_normal canonical_departments(5)
    by (auto simp: applyTaskReadModelOrgOwnership_def buildTaskReadModelOrgOwnership_def Let_def
        split: option.splits)
qed (simp add: applyTaskReadModelOrgOwnership_def buildTaskReadModelOrgOwnership_def Let_def)

lemma read_model_frame [simp]:
  "T_ID (applyTaskReadModelOrgOwnership c t) = T_ID t"
  "T_TaskStatus (applyTaskReadModelOrgOwnership c t) = T_TaskStatus t"
  "T_TaskType (applyTaskReadModelOrgOwnership c t) = T_TaskType t"
  "T_CreatorID (applyTaskReadModelOrgOwnership c t) = T_CreatorID t"
  "T_RequesterID (applyTaskReadModelOrgOwnership c t) = T_RequesterID t"
  "T_DesignerID (applyTaskReadModelOrgOwnership c t) = T_DesignerID t"
  "T_CurrentHandlerID (applyTaskReadModelOrgOwnership c t) = T_CurrentHandlerID t"
  "Task_WorkflowLane (applyTaskReadModelOrgOwnership c t) = Task_WorkflowLane t"
  by (simp_all add: applyTaskReadModelOrgOwnership_def Task_WorkflowLane_def Let_def)

lemma resolve_not_read:
  assumes "resolveTaskAction a task attrs = (ra, code)" and "a \<noteq> TaskActionReadDetail"
  shows "ra \<noteq> TaskActionReadDetail"
  using assms
  by (auto simp: resolveTaskAction_def resolveAuditStageAction_def split: option.splits if_splits
      AuditRecordStage.splits)

text \<open>The gates in order, on a task.\<close>

lemma Evaluate_write:
  assumes actor: "resolveTaskActionActor ctxActor = Some actor"
    and res: "resolveTaskAction a (Some task0) attrs = (ra, code)" and a: "a \<noteq> TaskActionReadDetail"
  obtains d where "EvaluateTaskActionPolicyWithAttributes catalog resolver userRepo ctxActor a (Some task0) [] []
      attrs w = (Inr d, w)"
    "D_Allowed d \<longleftrightarrow> code = [] \<and> ActorHasAnyRole (AA_Roles actor) (AR_RequiredRoles (taskActionRuleFor ra)) \<and>
       (AR_AllowedStatuses (taskActionRuleFor ra) = [] \<or>
        T_TaskStatus task0 \<in> set (AR_AllowedStatuses (taskActionRuleFor ra))) \<and>
       may_write actor (taskActionRuleFor ra) ra (applyTaskReadModelOrgOwnership catalog task0)
         (T_OwnerDepartment (applyTaskReadModelOrgOwnership catalog task0))
         (T_OwnerOrgTeam (applyTaskReadModelOrgOwnership catalog task0))"
proof -
  let ?rule = "taskActionRuleFor ra" and ?t = "applyTaskReadModelOrgOwnership catalog task0"
  let ?d = "start_decision actor ?rule ra (Some ?t) [] []"
  have vis: "\<not> AR_UseReadVisibility ?rule"
    using resolve_not_read [OF res a] by (simp add: read_visibility_only_detail)
  have own: "D_OwnerDept ?d = T_OwnerDepartment ?t" "D_OwnerOrgTeam ?d = T_OwnerOrgTeam ?t"
    by (simp_all add: start_decision_def no_decision_def owner_or_default_def)
  have allowed: "D_Allowed (evaluate_write actor ?rule ra (Some ?t) ?d) \<longleftrightarrow>
      may_write actor ?rule ra ?t (T_OwnerDepartment ?t) (T_OwnerOrgTeam ?t)"
    using evaluate_write_allowed [OF resolved_actor_positive [OF actor]] own by simp
  show ?thesis
  proof (rule that)
    show "EvaluateTaskActionPolicyWithAttributes catalog resolver userRepo ctxActor a (Some task0) [] [] attrs w =
      (Inr (if code \<noteq> [] then deny code ?d
        else if \<not> ActorHasAnyRole (AA_Roles actor) (AR_RequiredRoles ?rule) then deny ''missing_required_role'' ?d
        else if AR_AllowedStatuses ?rule \<noteq> [] \<and> T_TaskStatus task0 \<notin> set (AR_AllowedStatuses ?rule)
          then deny (authFirstNonEmpty [AR_StatusDenyCode ?rule, ''task_status_not_actionable'']) ?d
        else evaluate_write actor ?rule ra (Some ?t) ?d), w)"
      using actor res vis
      by (simp add: EvaluateTaskActionPolicyWithAttributes_def actorHasAllowedTaskActionRole_def
          taskActionStatusAllowed_def list_ex_iff ret_def Let_def del: authFirstNonEmpty.simps)
  qed (simp add: allowed deny_def del: authFirstNonEmpty.simps)
qed

definition demo_auditor :: RequestActor where
  "demo_auditor = demo_actor 4 [RoleAuditA] []"

definition demo_audit_task :: Task where
  "demo_audit_task = demo_task\<lparr>T_TaskStatus := TaskStatusPendingAuditA, T_CurrentHandlerID := Some 9\<rparr>"

lemma demo_auditor_actor:
  "resolveTaskActionActor (Some demo_auditor) = Some \<lparr>AA_ID = 4, AA_Username = ''u'', AA_Roles = [RoleAuditA],
     AA_Department = [], AA_Team = [], AA_ManagedDepartments = [], AA_ManagedTeams = []\<rparr>"
  by (simp add: resolveTaskActionActor_def demo_auditor_def demo_actor_def demo_access_def Let_def
      normalizeTaskDepartmentCode_def normalizeTaskDepartmentCodes_def keep_first_def string_eval)

lemma demo_audit_read [simp]:
  "applyTaskReadModelOrgOwnership empty_catalog demo_audit_task = demo_audit_task"
  by (simp add: demo_audit_task_def demo_task_def)

lemma demo_audit_fields [simp]:
  "T_TaskStatus demo_audit_task = TaskStatusPendingAuditA" "T_CurrentHandlerID demo_audit_task = Some 9"
  "T_TaskType demo_audit_task = TaskTypeNewProductDevelopment"
  "T_DesignerID demo_audit_task = None" "Task_WorkflowLane demo_audit_task = WorkflowLaneNormal"
  by (simp_all add: demo_audit_task_def demo_task_def Task_WorkflowLane_def NormalizeTaskBusinessLane_def
      TaskBusinessLane_WorkflowLane_def TaskBusinessLane_Valid_def string_eval)

lemma required_role:
  assumes "r \<in> set roles" and "r \<in> set required" and "IsKnownRole r"
  shows "ActorHasAnyRole roles required"
proof -
  have "r \<in> set (NormalizeRoles roles)" "r \<in> set (NormalizeRoles required)"
    using assms by (auto simp: image_iff known_roles_trimmed intro!: bexI [of _ r])
  then show ?thesis by (auto simp: ActorHasAnyRole_def list_ex_iff Let_def simp del: set_NormalizeRoles)
qed

text \<open>
  (C11) The decision on an action of a task, other than reading it, is exactly the conjunction of its
  gates: the stage of the action, a role of the rule, a status of the rule, a scope of the rule that
  matches and that the actor may use, and the handler, who may be somebody else only for an elevated
  actor. Reassigning is for managers and for those who created or requested the task.
\<close>

theorem allowed_action_iff:
  assumes "resolveTaskActionActor ctxActor = Some actor"
    and "resolveTaskAction a (Some task) attrs = (ra, code)" and "a \<noteq> TaskActionReadDetail"
    and "EvaluateTaskActionPolicyWithAttributes catalog resolver userRepo ctxActor a (Some task) [] [] attrs w =
      (Inr d :: 'e + TaskActionDecision, w')"
  shows "D_Allowed d \<longleftrightarrow> code = [] \<and>
    ActorHasAnyRole (AA_Roles actor) (AR_RequiredRoles (taskActionRuleFor ra)) \<and>
    (AR_AllowedStatuses (taskActionRuleFor ra) = [] \<or>
     T_TaskStatus task \<in> set (AR_AllowedStatuses (taskActionRuleFor ra))) \<and>
    may_write actor (taskActionRuleFor ra) ra (applyTaskReadModelOrgOwnership catalog task)
      (T_OwnerDepartment (applyTaskReadModelOrgOwnership catalog task))
      (T_OwnerOrgTeam (applyTaskReadModelOrgOwnership catalog task))"
proof -
  obtain d' where "EvaluateTaskActionPolicyWithAttributes catalog resolver userRepo ctxActor a (Some task) [] []
      attrs w = (Inr d' :: 'e + TaskActionDecision, w)"
    and d': "D_Allowed d' \<longleftrightarrow> code = [] \<and>
      ActorHasAnyRole (AA_Roles actor) (AR_RequiredRoles (taskActionRuleFor ra)) \<and>
      (AR_AllowedStatuses (taskActionRuleFor ra) = [] \<or>
       T_TaskStatus task \<in> set (AR_AllowedStatuses (taskActionRuleFor ra))) \<and>
      may_write actor (taskActionRuleFor ra) ra (applyTaskReadModelOrgOwnership catalog task)
        (T_OwnerDepartment (applyTaskReadModelOrgOwnership catalog task))
        (T_OwnerOrgTeam (applyTaskReadModelOrgOwnership catalog task))"
    by (rule Evaluate_write [OF assms(1-3), of catalog resolver userRepo w])
  with assms(4) have "d' = d" by simp
  with d' show ?thesis by simp
qed

theorem allowed_action_iff_witness:
  "\<exists>d. EvaluateTaskActionPolicyWithAttributes empty_catalog True None (Some demo_auditor) TaskActionAuditApprove
      (Some demo_audit_task) [] [] no_stage \<lparr>wdb = 0::nat, faults = []\<rparr> = (Inr d :: ErrCode + TaskActionDecision, \<lparr>wdb = 0, faults = []\<rparr>) \<and>
    D_Allowed d"
proof -
  note act = demo_auditor_actor
  have res: "resolveTaskAction TaskActionAuditApprove (Some demo_audit_task) no_stage =
      (TaskActionAuditAApprove, [])"
    by (simp add: resolveTaskAction_def audit_actions_def resolveAuditStageAction_def)
  obtain d where d: "EvaluateTaskActionPolicyWithAttributes empty_catalog True None (Some demo_auditor)
      TaskActionAuditApprove (Some demo_audit_task) [] [] no_stage \<lparr>wdb = 0::nat, faults = []\<rparr> =
      (Inr d :: ErrCode + TaskActionDecision, \<lparr>wdb = 0, faults = []\<rparr>)"
    by (rule Evaluate_write [OF act res, of empty_catalog True None "\<lparr>wdb = 0::nat, faults = []\<rparr>"]) simp_all
  have role: "ActorHasAnyRole [RoleAuditA] (AR_RequiredRoles (taskActionRuleFor TaskActionAuditAApprove))"
    by (rule required_role [of RoleAuditA]) (simp_all add: taskActionRuleFor_def IsKnownRole_def)
  have "D_Allowed d"
    unfolding allowed_action_iff [OF act res _ d, simplified] using role
    by (simp add: taskActionRuleFor_def no_rule_def may_write_def elevated_iff scope_matches_def
        opens_task_def opens_stage_def
        taskActionActorCanUseScope_def taskActionActorHasStageScopeRole_def hasAnyRoleValue_iff)
  with d show ?thesis by blast
qed

subsection \<open>What roles open\<close>

text \<open>
  The holder of a stage counts as elevated, so the handler policies of the rules bind nobody whose
  role opens the stage.
\<close>

lemma stage_role_writes:
  assumes "AA_ID actor > 0" and "opens_task actor task" and "taskActionActorHasStageScopeRole actor"
    and "TaskActionScopeStage \<in> set (AR_AllowedScopes rule)" and "ra \<noteq> TaskActionReassign"
  shows "may_write actor rule ra task department team"
proof -
  have "scope_matches actor (Some task) department team TaskActionScopeStage"
    using assms(1,2) by (simp add: scope_matches_def)
  moreover have "taskActionActorCanUseScope actor TaskActionScopeStage"
    using assms(3) by (simp add: taskActionActorCanUseScope_def)
  ultimately show ?thesis using assms(4,5) by (auto simp: may_write_def list_ex_iff elevated_iff)
qed

lemma opens_task_read_model [simp]:
  "opens_task actor (applyTaskReadModelOrgOwnership c t) = opens_task actor t"
  by (simp add: opens_task_def)

text \<open>
  A holder of the role Audit_A is allowed to claim, approve and reject any normal task whose type
  has audits while it waits for its first audit, whoever handles the task.
\<close>

lemma auditor_needs_no_assignment:
  assumes "resolveTaskActionActor ctxActor = Some actor" and "RoleAuditA \<in> set (AA_Roles actor)"
    and "a \<in> {TaskActionAuditClaim, TaskActionAuditApprove, TaskActionAuditReject}"
    and "TaskType_RequiresAudit (T_TaskType task)" and "T_TaskStatus task = TaskStatusPendingAuditA"
    and "Task_WorkflowLane task = WorkflowLaneNormal"
  shows "\<exists>d. EvaluateTaskActionPolicy catalog resolver userRepo ctxActor a (Some task) [] [] w =
    (Inr d, w) \<and> D_Allowed d"
proof -
  define ra where "ra = resolveAuditStageAction a AuditRecordStageA"
  have ra: "ra \<in> {TaskActionAuditAClaim, TaskActionAuditAApprove, TaskActionAuditAReject}"
    using assms(3) by (auto simp: ra_def resolveAuditStageAction_def)
  have res: "resolveTaskAction a (Some task) no_stage = (ra, [])"
    using assms(3-5) by (auto simp: resolveTaskAction_def audit_actions_def ra_def)
  have rule: "RoleAuditA \<in> set (AR_RequiredRoles (taskActionRuleFor ra))"
      "TaskStatusPendingAuditA \<in> set (AR_AllowedStatuses (taskActionRuleFor ra))"
      "TaskActionScopeStage \<in> set (AR_AllowedScopes (taskActionRuleFor ra))" "ra \<noteq> TaskActionReassign"
    using ra by (auto simp: taskActionRuleFor_def)
  have role: "ActorHasAnyRole (AA_Roles actor) (AR_RequiredRoles (taskActionRuleFor ra))"
    by (rule required_role [OF assms(2) rule(1)]) (simp add: IsKnownRole_def)
  have may: "may_write actor (taskActionRuleFor ra) ra (applyTaskReadModelOrgOwnership catalog task) de te" for de te
    using resolved_actor_positive [OF assms(1)] assms(2,5,6) rule(3,4)
    by (intro stage_role_writes)
      (auto simp: opens_task_def opens_stage_def taskActionActorHasStageScopeRole_def hasAnyRoleValue_iff)
  have "a \<noteq> TaskActionReadDetail" using assms(3) by auto
  then show ?thesis
    by (rule Evaluate_write [OF assms(1) res, of catalog resolver userRepo w]) (use role may rule(2) assms(5) in auto)
qed

text \<open>
  A designer without any other role who manages no department and no team may submit the design
  of a task exactly when the status allows it and the task is handled by him or has him as its designer.
\<close>

theorem designer_submits_own_task:
  assumes "resolveTaskActionActor ctxActor = Some actor" and "AA_Roles actor = [RoleDesigner]"
    and "AA_ManagedDepartments actor = []" and "AA_ManagedTeams actor = []"
  shows "\<exists>d. EvaluateTaskActionPolicy catalog resolver userRepo ctxActor TaskActionSubmitDesign (Some task)
      [] [] w = (Inr d, w) \<and>
    (D_Allowed d \<longleftrightarrow>
      T_TaskStatus task \<in> {TaskStatusInProgress, TaskStatusRejectedByAuditA, TaskStatusRejectedByAuditB,
        TaskStatusPendingCustomizationProduction} \<and>
      (T_CurrentHandlerID task = Some (AA_ID actor) \<or> T_DesignerID task = Some (AA_ID actor)))"
proof -
  let ?rule = "taskActionRuleFor TaskActionSubmitDesign" and ?t = "applyTaskReadModelOrgOwnership catalog task"
  have res: "resolveTaskAction TaskActionSubmitDesign (Some task) no_stage = (TaskActionSubmitDesign, [])"
    by (simp add: resolveTaskAction_def audit_actions_def)
  have role: "ActorHasAnyRole (AA_Roles actor) (AR_RequiredRoles ?rule)"
    by (rule required_role [of RoleDesigner]) (simp_all add: assms(2) taskActionRuleFor_def IsKnownRole_def)
  have "may_write actor ?rule TaskActionSubmitDesign ?t de te \<longleftrightarrow>
      T_CurrentHandlerID task = Some (AA_ID actor) \<or> T_DesignerID task = Some (AA_ID actor)" for de te
    using resolved_actor_positive [OF assms(1)] assms(2-4)
    by (auto simp: may_write_def taskActionRuleFor_def no_rule_def scope_matches_def manages_def handler_ok_def
        taskActionActorCanUseScope_def taskActionActorHasStageScopeRole_def hasAnyRoleValue_iff)
  moreover have "AR_AllowedStatuses ?rule = [TaskStatusInProgress, TaskStatusRejectedByAuditA,
      TaskStatusRejectedByAuditB, TaskStatusPendingCustomizationProduction]"
    by (simp add: taskActionRuleFor_def)
  moreover have "TaskActionSubmitDesign \<noteq> TaskActionReadDetail" by simp
  ultimately show ?thesis
    using role by - (rule Evaluate_write [OF assms(1) res, of catalog resolver userRepo w], auto)
qed

lemma demo_designer_actor:
  "resolveTaskActionActor (Some (demo_actor 9 [RoleDesigner] [])) =
   Some \<lparr>AA_ID = 9, AA_Username = ''u'', AA_Roles = [RoleDesigner], AA_Department = [], AA_Team = [],
     AA_ManagedDepartments = [], AA_ManagedTeams = []\<rparr>"
  by (simp add: resolveTaskActionActor_def demo_actor_def demo_access_def Let_def
      normalizeTaskDepartmentCode_def normalizeTaskDepartmentCodes_def keep_first_def string_eval)

theorem designer_submits_own_task_witness:
  "\<exists>d. EvaluateTaskActionPolicy empty_catalog True None (Some (demo_actor 9 [RoleDesigner] []))
      TaskActionSubmitDesign (Some (demo_audit_task\<lparr>T_TaskStatus := TaskStatusInProgress\<rparr>)) [] []
      \<lparr>wdb = 0::nat, faults = []\<rparr> = (Inr d :: ErrCode + TaskActionDecision, \<lparr>wdb = 0, faults = []\<rparr>) \<and> D_Allowed d"
  using designer_submits_own_task [OF demo_designer_actor, of empty_catalog True None
      "demo_audit_task\<lparr>T_TaskStatus := TaskStatusInProgress\<rparr>" "\<lparr>wdb = 0::nat, faults = []\<rparr>"]
  by simp

text \<open>
  Reading the detail of a task is open to every actor with one of the roles of the rule: the
  visibility of the task decides only which scope is reported, since a task out of sight is allowed as
  a read of the main flow. Everybody else is refused for the missing role, and a decision fails
  otherwise only when the actor's scope cannot be resolved.
\<close>

theorem read_detail_ignores_visibility:
  assumes "resolveTaskActionActor ctxActor = Some actor"
  shows "\<exists>d w'. EvaluateTaskActionPolicy catalog resolver userRepo ctxActor TaskActionReadDetail (Some task) [] [] w
      = (Inr d, w') \<and>
    (if ActorHasAnyRole (AA_Roles actor) (AR_RequiredRoles (taskActionRuleFor TaskActionReadDetail))
     then D_Allowed d \<or> D_DenyCode d = ''scope_resolution_failed''
     else \<not> D_Allowed d \<and> D_DenyCode d = ''missing_required_role'')"
proof -
  let ?rule = "taskActionRuleFor TaskActionReadDetail"
  have res: "resolveTaskAction TaskActionReadDetail (Some task) no_stage = (TaskActionReadDetail, [])"
    by (simp add: resolveTaskAction_def audit_actions_def)
  have rule: "AR_AllowedStatuses ?rule = []" "AR_UseReadVisibility ?rule"
    by (simp_all add: taskActionRuleFor_def no_rule_def)
  have "\<exists>d w'. evaluate_read catalog resolver userRepo ctxActor actor ?rule TaskActionReadDetail t dec w = (Inr d, w') \<and>
      (D_Allowed d \<or> D_DenyCode d = ''scope_resolution_failed'')" for t dec
    by (auto simp: evaluate_read_def attempt_def ret_def allow_def scope_failed_def Let_def
        split: prod.splits sum.splits)
  then show ?thesis
    using assms res rule
    by (auto simp: EvaluateTaskActionPolicyWithAttributes_def actorHasAllowedTaskActionRole_def deny_def ret_def Let_def)
qed

theorem read_detail_ignores_visibility_witness:
  "\<exists>d w'. EvaluateTaskActionPolicy empty_catalog True None (Some demo_auditor) TaskActionReadDetail
      (Some demo_task) [] [] \<lparr>wdb = 0::nat, faults = []\<rparr> = (Inr d :: ErrCode + TaskActionDecision, w') \<and>
    (D_Allowed d \<or> D_DenyCode d = ''scope_resolution_failed'')"
proof -
  have "ActorHasAnyRole [RoleAuditA] (AR_RequiredRoles (taskActionRuleFor TaskActionReadDetail))"
    by (rule required_role [of RoleAuditA]) (simp_all add: taskActionRuleFor_def IsKnownRole_def)
  then show ?thesis
    using read_detail_ignores_visibility [OF demo_auditor_actor, of empty_catalog True None demo_task "\<lparr>wdb = 0::nat, faults = []\<rparr>"]
    by simp
qed

end
