(* ===== verification/Workflow_Store.thy ===== *)
theory Workflow_Store
  imports Task_Authorizer Module_Store Code_Rule
begin

section \<open>The tables of the audit, outsourcing and warehouse services\<close>

text \<open>
  Migrations 002 and 003 under \<^verbatim>\<open>db/migrations\<close> and the repositories over them:
  \<^verbatim>\<open>repo/mysql/audit_v7.go\<close>, \<^verbatim>\<open>outsource.go\<close>, \<^verbatim>\<open>warehouse.go\<close>, \<^verbatim>\<open>task_event.go\<close>, the updates of
  \<^verbatim>\<open>task_asset_flow.go\<close> and those of \<^verbatim>\<open>task.go\<close> the module engine does not use. The tables of tasks and
  of numbering rules are the parts \<open>v_modules\<close> and \<open>v_codes\<close>, whose repositories are those of
  \<open>Module_Store\<close> and \<open>Code_Rule\<close>. Every INSERT is subject to the foreign key on the task.

  The log of task events promises what the kernel's log does: its contract is the locale
  \<open>numbered_log\<close>, interpreted on the rows here.
\<close>

subsection \<open>Rows\<close>

datatype AuditActionType = AuditActionTypeClaim | AuditActionTypeApprove | AuditActionTypeReject
  | AuditActionTypeTransfer | AuditActionTypeHandover | AuditActionTypeTakeover

datatype HandoverStatus = HandoverStatusPendingTakeover | HandoverStatusTakenOver | HandoverStatusCancelled

datatype OutsourceStatus = OutsourceStatusCreated | OutsourceStatusPackaged | OutsourceStatusSent
  | OutsourceStatusInProduction | OutsourceStatusReturned | OutsourceStatusReviewing
  | OutsourceStatusApproved | OutsourceStatusRejected | OutsourceStatusClosed

datatype WarehouseReceiptStatus = WarehouseReceiptStatusReceived | WarehouseReceiptStatusRejected
  | WarehouseReceiptStatusCompleted

record AuditRecord =
  AR2_ID :: id
  AR2_TaskID :: id
  AR2_Stage :: AuditRecordStage
  AR2_Action :: AuditActionType
  AR2_AuditorID :: id
  AR2_IssueTypesJSON :: string
  AR2_Comment :: string
  AR2_AffectsLaunch :: bool
  AR2_NeedOutsource :: bool
  AR2_CreatedAt :: time

record AuditHandover =
  AH_ID :: id
  AH_HandoverNo :: string
  AH_TaskID :: id
  AH_FromAuditorID :: id
  AH_ToAuditorID :: id
  AH_Reason :: string
  AH_CurrentJudgement :: string
  AH_RiskRemark :: string
  AH_Status :: HandoverStatus
  AH_CreatedAt :: time
  AH_UpdatedAt :: time

record OutsourceOrder =
  OO_ID :: id
  OO_OutsourceNo :: string
  OO_TaskID :: id
  OO_VendorName :: string
  OO_OutsourceType :: string
  OO_DeliveryRequirement :: string
  OO_SettlementNote :: string
  OO_Status :: OutsourceStatus
  OO_ReturnedAt :: "time option"
  OO_CreatedAt :: time
  OO_UpdatedAt :: time

text \<open>The columns of a receipt; the service adds fields it computes when it shows one.\<close>

record WarehouseReceipt =
  WR_ID :: id
  WR_TaskID :: id
  WR_ReceiptNo :: string
  WR_Status :: WarehouseReceiptStatus
  WR_ReceiverID :: "id option"
  WR_ReceivedAt :: "time option"
  WR_CompletedAt :: "time option"
  WR_RejectReason :: string
  WR_Remark :: string
  WR_CreatedAt :: time
  WR_UpdatedAt :: time

text \<open>The columns of \<^verbatim>\<open>task_assets\<close>, \<^verbatim>\<open>design_assets\<close> and \<^verbatim>\<open>customization_jobs\<close> the services touch.\<close>

record TaskAsset =
  TA_ID :: id
  TA_TaskID :: id
  TA_AssetID :: "id option"
  TA_AssetType :: string
  TA_FlowReviewStatus :: string
  TA_ApprovedAt :: "time option"
  TA_ApprovedBy :: "id option"
  TA_RejectedAt :: "time option"
  TA_RejectedBy :: "id option"
  TA_SupersededByVersionID :: "id option"
  TA_SupersededAt :: "time option"
  TA_CleanupAfterAt :: "time option"
  TA_DeletedAt :: "time option"
  TA_CleanedAt :: "time option"

record DesignAsset =
  DA_ID :: id
  DA_CurrentVersionID :: "id option"

text \<open>
  Prices and weights are copied and never computed with: a value of a DECIMAL column, counted in
  units of the column's last digit.
\<close>

type_synonym price = int

record CustomizationJob =
  CJ_ID :: id
  CJ_TaskID :: id
  CJ_OrderNo :: string
  CJ_SourceAssetID :: "id option"
  CJ_CurrentAssetID :: "id option"
  CJ_CustomizationLevelCode :: string
  CJ_CustomizationLevelName :: string
  CJ_ReviewReferenceUnitPrice :: "price option"
  CJ_ReviewReferenceWeightFactor :: "price option"
  CJ_UnitPrice :: "price option"
  CJ_WeightFactor :: "price option"
  CJ_Note :: string
  CJ_ReviewDecision :: string
  CJ_DecisionType :: string
  CJ_AssignedOperatorID :: "id option"
  CJ_LastOperatorID :: "id option"
  CJ_PricingWorkerType :: string
  CJ_Status :: string
  CJ_WarehouseRejectReason :: string
  CJ_WarehouseRejectCategory :: string
  CJ_CreatedAt :: time
  CJ_UpdatedAt :: time

record CustomizationPricingRule =
  PR_ID :: id
  PR_CustomizationLevelCode :: string
  PR_EmploymentType :: string
  PR_UnitPrice :: price
  PR_WeightFactor :: price
  PR_IsEnabled :: bool

record TaskEvent =
  TEv_ID :: string
  TEv_TaskID :: id
  TEv_Sequence :: int
  TEv_EventType :: string
  TEv_OperatorID :: "id option"
  TEv_Payload :: jsonobj
  TEv_CreatedAt :: time

record vdb =
  v_modules :: mdb
  v_codes :: cdb
  v_users :: "User list"
  v_user_roles :: "(id \<times> string) list"
  audit_records :: "AuditRecord list"
  audit_handovers :: "AuditHandover list"
  outsource_orders :: "OutsourceOrder list"
  warehouse_receipts :: "WarehouseReceipt list"
  task_assets :: "TaskAsset list"
  design_assets :: "DesignAsset list"
  customization_jobs :: "CustomizationJob list"
  pricing_rules :: "CustomizationPricingRule list"
  task_event_logs :: "TaskEvent list"
  task_event_sequences :: "id \<rightharpoonup> int"
  next_record :: id
  next_handover :: id
  next_order :: id
  next_receipt :: id
  next_job :: id
  v_uuid_n :: nat

type_synonym 'a vact = "(vdb, db_error, 'a) act"
type_synonym 'a vop = "(vdb, ErrCode, 'a) act"

definition v_task :: "vdb \<Rightarrow> id \<Rightarrow> Task option" where
  "v_task d i = task_row (v_modules d) i"

subsection \<open>Tasks and numbering rules as parts\<close>

definition put_modules :: "mdb \<Rightarrow> vdb \<Rightarrow> vdb" where
  "put_modules m d = d\<lparr>v_modules := m\<rparr>"

definition put_codes :: "cdb \<Rightarrow> vdb \<Rightarrow> vdb" where
  "put_codes c d = d\<lparr>v_codes := c\<rparr>"

interpretation modules_part: db_part v_modules put_modules
  by unfold_locales (simp_all add: put_modules_def)

interpretation codes_part: db_part v_codes put_codes
  by unfold_locales (simp_all add: put_codes_def)

definition taskRepo_GetByID :: "id \<Rightarrow> Task option vact" where
  "taskRepo_GetByID i = within v_modules put_modules (TaskRepo_GetByID i)"

definition taskRepo_UpdateStatus :: "time \<Rightarrow> id \<Rightarrow> TaskStatus \<Rightarrow> unit vact" where
  "taskRepo_UpdateStatus now i status = within v_modules put_modules (UpdateStatus now i status)"

definition taskRepo_UpdateHandler :: "time \<Rightarrow> id \<Rightarrow> id option \<Rightarrow> unit vact" where
  "taskRepo_UpdateHandler now i handlerID = within v_modules put_modules (UpdateHandler now i handlerID)"

text \<open>These two updates of \<^verbatim>\<open>task.go\<close> do not re-index the search document.\<close>

definition UpdateNeedOutsource :: "time \<Rightarrow> id \<Rightarrow> bool \<Rightarrow> unit vact" where
  "UpdateNeedOutsource now i needOutsource = within v_modules put_modules
     (exec (upd_task now i (\<lambda>t. t\<lparr>T_NeedOutsource := needOutsource\<rparr>)))"

definition UpdateCustomizationState :: "time \<Rightarrow> id \<Rightarrow> id option \<Rightarrow> string \<Rightarrow> string \<Rightarrow> unit vact" where
  "UpdateCustomizationState now i lastOperatorID rejectReason rejectCategory =
     within v_modules put_modules
       (exec (upd_task now i (\<lambda>t. t\<lparr>T_LastCustomizationOperatorID := lastOperatorID,
          T_WarehouseRejectReason := rejectReason, T_WarehouseRejectCategory := rejectCategory\<rparr>)))"

definition CASUpdateStatus :: "time \<Rightarrow> id \<Rightarrow> TaskStatus \<Rightarrow> TaskStatus \<Rightarrow> bool vact" where
  "CASUpdateStatus now i expected nextStatus = within v_modules put_modules
     (bnd (stmt (\<lambda>d.
        let p = (\<lambda>t. T_ID t = i \<and> T_TaskStatus t = expected)
        in Inr (if expected = nextStatus then 0 else length (filter p (tasks d)),
             d\<lparr>tasks := row_upd p (\<lambda>t. if expected = nextStatus then t
                else t\<lparr>T_TaskStatus := nextStatus, T_UpdatedAt := now\<rparr>) (tasks d)\<rparr>)))
      (\<lambda>n. if n = 0 then ret False else bnd (reindexTaskSearchDocument i) (\<lambda>_. ret True)))"

definition codeRuleSvc_GenerateCode :: "(string \<Rightarrow> string) \<Rightarrow> string \<Rightarrow> string vop" where
  "codeRuleSvc_GenerateCode fmtNow ruleType = within v_codes put_codes (GenerateCode fmtNow ruleType)"

subsection \<open>Audit records and handovers\<close>

definition task_exists :: "vdb \<Rightarrow> id \<Rightarrow> bool" where
  "task_exists d i \<longleftrightarrow> v_task d i \<noteq> None"

definition add_record :: "time \<Rightarrow> AuditRecord \<Rightarrow> vdb \<Rightarrow> vdb" where
  "add_record now record d = d\<lparr>
     audit_records := audit_records d @ [record\<lparr>AR2_ID := next_record d, AR2_CreatedAt := now\<rparr>],
     next_record := next_record d + 1\<rparr>"

text \<open>\<^verbatim>\<open>issue_types_json\<close> is a JSON column; the database refuses any other text.\<close>

definition CreateRecord :: "time \<Rightarrow> AuditRecord \<Rightarrow> id vact" where
  "CreateRecord now record = stmt (\<lambda>d.
     if \<not> json_Valid (AR2_IssueTypesJSON record) then Inl ErrDB
     else if \<not> task_exists d (AR2_TaskID record) then Inl ErrDB
     else Inr (next_record d, add_record now record d))"

definition ListRecordsByTaskID :: "id \<Rightarrow> AuditRecord list vact" where
  "ListRecordsByTaskID taskID = query (\<lambda>d.
     sort_key AR2_ID (filter (\<lambda>r. AR2_TaskID r = taskID) (audit_records d)))"

definition add_handover :: "time \<Rightarrow> AuditHandover \<Rightarrow> vdb \<Rightarrow> vdb" where
  "add_handover now handover d = d\<lparr>
     audit_handovers := audit_handovers d @
       [handover\<lparr>AH_ID := next_handover d, AH_CreatedAt := now, AH_UpdatedAt := now\<rparr>],
     next_handover := next_handover d + 1\<rparr>"

text \<open>The unique key on the number compares it without case.\<close>

definition CreateHandover :: "time \<Rightarrow> AuditHandover \<Rightarrow> id vact" where
  "CreateHandover now handover = stmt (\<lambda>d.
     if list_ex (\<lambda>h. ci_eq (AH_HandoverNo h) (AH_HandoverNo handover)) (audit_handovers d) then Inl ErrDuplicateKey
     else if \<not> task_exists d (AH_TaskID handover) then Inl ErrDB
     else Inr (next_handover d, add_handover now handover d))"

definition handover_row :: "vdb \<Rightarrow> id \<Rightarrow> AuditHandover option" where
  "handover_row d i = List.find (\<lambda>h. AH_ID h = i) (audit_handovers d)"

definition GetHandoverByID :: "id \<Rightarrow> AuditHandover option vact" where
  "GetHandoverByID i = query (\<lambda>d. handover_row d i)"

definition handovers_of_task :: "vdb \<Rightarrow> id \<Rightarrow> AuditHandover list" where
  "handovers_of_task d taskID =
     rev (sort_key AH_CreatedAt (sort_key AH_ID (filter (\<lambda>h. AH_TaskID h = taskID) (audit_handovers d))))"

definition ListHandoversByTaskID :: "id \<Rightarrow> AuditHandover list vact" where
  "ListHandoversByTaskID taskID = query (\<lambda>d. handovers_of_task d taskID)"

definition set_handover_status :: "time \<Rightarrow> id \<Rightarrow> HandoverStatus \<Rightarrow> vdb \<Rightarrow> vdb" where
  "set_handover_status now i status d = d\<lparr>audit_handovers := row_upd (\<lambda>h. AH_ID h = i)
     (\<lambda>h. if AH_Status h = status then h else h\<lparr>AH_Status := status, AH_UpdatedAt := now\<rparr>) (audit_handovers d)\<rparr>"

definition UpdateHandoverStatus :: "time \<Rightarrow> id \<Rightarrow> HandoverStatus \<Rightarrow> unit vact" where
  "UpdateHandoverStatus now i status = exec (set_handover_status now i status)"

subsection \<open>Outsourcing orders\<close>

definition add_order :: "time \<Rightarrow> OutsourceOrder \<Rightarrow> vdb \<Rightarrow> vdb" where
  "add_order now order d = d\<lparr>
     outsource_orders := outsource_orders d @
       [order\<lparr>OO_ID := next_order d, OO_ReturnedAt := None, OO_CreatedAt := now, OO_UpdatedAt := now\<rparr>],
     next_order := next_order d + 1\<rparr>"

definition outsourceRepo_Create :: "time \<Rightarrow> OutsourceOrder \<Rightarrow> id vact" where
  "outsourceRepo_Create now order = stmt (\<lambda>d.
     if list_ex (\<lambda>r. ci_eq (OO_OutsourceNo r) (OO_OutsourceNo order)) (outsource_orders d) then Inl ErrDuplicateKey
     else if \<not> task_exists d (OO_TaskID order) then Inl ErrDB
     else Inr (next_order d, add_order now order d))"

definition order_row :: "vdb \<Rightarrow> id \<Rightarrow> OutsourceOrder option" where
  "order_row d i = List.find (\<lambda>r. OO_ID r = i) (outsource_orders d)"

definition outsourceRepo_GetByID :: "id \<Rightarrow> OutsourceOrder option vact" where
  "outsourceRepo_GetByID i = query (\<lambda>d. order_row d i)"

definition set_order :: "time \<Rightarrow> OutsourceOrder \<Rightarrow> vdb \<Rightarrow> vdb" where
  "set_order now order d = d\<lparr>outsource_orders := row_upd (\<lambda>r. OO_ID r = OO_ID order)
     (\<lambda>r. r\<lparr>OO_VendorName := OO_VendorName order, OO_OutsourceType := OO_OutsourceType order,
        OO_DeliveryRequirement := OO_DeliveryRequirement order, OO_SettlementNote := OO_SettlementNote order,
        OO_Status := OO_Status order, OO_ReturnedAt := OO_ReturnedAt order, OO_UpdatedAt := now\<rparr>)
     (outsource_orders d)\<rparr>"

definition outsourceRepo_Update :: "time \<Rightarrow> OutsourceOrder \<Rightarrow> unit vact" where
  "outsourceRepo_Update now order = exec (set_order now order)"

subsection \<open>Warehouse receipts\<close>

definition add_receipt :: "time \<Rightarrow> WarehouseReceipt \<Rightarrow> vdb \<Rightarrow> vdb" where
  "add_receipt now receipt d = d\<lparr>
     warehouse_receipts := warehouse_receipts d @
       [receipt\<lparr>WR_ID := next_receipt d, WR_CreatedAt := now, WR_UpdatedAt := now\<rparr>],
     next_receipt := next_receipt d + 1\<rparr>"

definition warehouseRepo_Create :: "time \<Rightarrow> WarehouseReceipt \<Rightarrow> id vact" where
  "warehouseRepo_Create now receipt = stmt (\<lambda>d.
     if list_ex (\<lambda>r. WR_TaskID r = WR_TaskID receipt \<or> ci_eq (WR_ReceiptNo r) (WR_ReceiptNo receipt))
          (warehouse_receipts d) then Inl ErrDuplicateKey
     else if \<not> task_exists d (WR_TaskID receipt) then Inl ErrDB
     else Inr (next_receipt d, add_receipt now receipt d))"

definition receipt_of_task :: "vdb \<Rightarrow> id \<Rightarrow> WarehouseReceipt option" where
  "receipt_of_task d taskID = List.find (\<lambda>r. WR_TaskID r = taskID) (warehouse_receipts d)"

definition warehouseRepo_GetByTaskID :: "id \<Rightarrow> WarehouseReceipt option vact" where
  "warehouseRepo_GetByTaskID taskID = query (\<lambda>d. receipt_of_task d taskID)"

definition warehouseRepo_GetByID :: "id \<Rightarrow> WarehouseReceipt option vact" where
  "warehouseRepo_GetByID i = query (\<lambda>d. List.find (\<lambda>r. WR_ID r = i) (warehouse_receipts d))"

text \<open>\<^verbatim>\<open>updated_at\<close> moves only when a column changes.\<close>

definition receipt_cols :: "WarehouseReceipt \<Rightarrow> WarehouseReceipt \<Rightarrow> WarehouseReceipt" where
  "receipt_cols new r = r\<lparr>WR_Status := WR_Status new, WR_ReceiverID := WR_ReceiverID new,
     WR_ReceivedAt := WR_ReceivedAt new, WR_CompletedAt := WR_CompletedAt new,
     WR_RejectReason := WR_RejectReason new, WR_Remark := WR_Remark new\<rparr>"

definition set_receipt :: "time \<Rightarrow> WarehouseReceipt \<Rightarrow> vdb \<Rightarrow> vdb" where
  "set_receipt now receipt d = d\<lparr>warehouse_receipts := row_upd (\<lambda>r. WR_ID r = WR_ID receipt)
     (\<lambda>r. if receipt_cols receipt r = r then r else (receipt_cols receipt r)\<lparr>WR_UpdatedAt := now\<rparr>)
     (warehouse_receipts d)\<rparr>"

definition warehouseRepo_Update :: "time \<Rightarrow> WarehouseReceipt \<Rightarrow> unit vact" where
  "warehouseRepo_Update now receipt = exec (set_receipt now receipt)"

subsection \<open>Versions of assets\<close>

abbreviation "TaskAssetTypeDelivery \<equiv> ''delivery''"
abbreviation "TaskAssetFlowReviewStatusApproved \<equiv> ''approved''"
abbreviation "TaskAssetFlowReviewStatusRejected \<equiv> ''rejected''"
abbreviation "TaskAssetFlowReviewStatusSuperseded \<equiv> ''superseded''"

text \<open>The join with \<^verbatim>\<open>design_assets\<close>: the live versions that are current for their asset.\<close>

definition current_delivery :: "vdb \<Rightarrow> id \<Rightarrow> TaskAsset \<Rightarrow> bool" where
  "current_delivery d taskID v \<longleftrightarrow> TA_TaskID v = taskID \<and> ci_eq (TA_AssetType v) TaskAssetTypeDelivery \<and>
     TA_DeletedAt v = None \<and> TA_CleanedAt v = None \<and>
     list_ex (\<lambda>a. TA_AssetID v = Some (DA_ID a) \<and> DA_CurrentVersionID a = Some (TA_ID v)) (design_assets d)"

definition approve_versions :: "id \<Rightarrow> id \<Rightarrow> time \<Rightarrow> vdb \<Rightarrow> vdb" where
  "approve_versions taskID actorID approvedAt d = d\<lparr>task_assets := row_upd (current_delivery d taskID)
     (\<lambda>v. v\<lparr>TA_FlowReviewStatus := TaskAssetFlowReviewStatusApproved, TA_ApprovedAt := Some approvedAt,
        TA_ApprovedBy := Some actorID, TA_RejectedAt := None, TA_RejectedBy := None\<rparr>) (task_assets d)\<rparr>"

definition MarkCurrentDeliveryVersionsApprovedForTask :: "id \<Rightarrow> id \<Rightarrow> time \<Rightarrow> unit vact" where
  "MarkCurrentDeliveryVersionsApprovedForTask taskID actorID approvedAt =
     exec (approve_versions taskID actorID approvedAt)"

definition reject_versions :: "id \<Rightarrow> id \<Rightarrow> time \<Rightarrow> vdb \<Rightarrow> vdb" where
  "reject_versions taskID actorID rejectedAt d = d\<lparr>task_assets := row_upd (current_delivery d taskID)
     (\<lambda>v. v\<lparr>TA_FlowReviewStatus := TaskAssetFlowReviewStatusRejected, TA_RejectedAt := Some rejectedAt,
        TA_RejectedBy := Some actorID\<rparr>) (task_assets d)\<rparr>"

definition MarkCurrentDeliveryVersionsRejectedForTask :: "id \<Rightarrow> id \<Rightarrow> time \<Rightarrow> unit vact" where
  "MarkCurrentDeliveryVersionsRejectedForTask taskID actorID rejectedAt =
     exec (reject_versions taskID actorID rejectedAt)"

definition MarkAssetVersionSuperseded :: "id \<Rightarrow> id \<Rightarrow> time \<Rightarrow> time \<Rightarrow> unit vact" where
  "MarkAssetVersionSuperseded versionID byID supersededAt cleanupAfterAt =
     (if versionID \<le> 0 \<or> byID \<le> 0 \<or> versionID = byID then ret ()
      else exec (\<lambda>d. d\<lparr>task_assets := row_upd
        (\<lambda>v. TA_ID v = versionID \<and> TA_DeletedAt v = None \<and> TA_CleanedAt v = None)
        (\<lambda>v. v\<lparr>TA_FlowReviewStatus := TaskAssetFlowReviewStatusSuperseded,
           TA_SupersededByVersionID := Some byID, TA_SupersededAt := Some supersededAt,
           TA_CleanupAfterAt := Some cleanupAfterAt\<rparr>) (task_assets d)\<rparr>))"

definition CountUnapprovedCurrentDeliveryVersions :: "id \<Rightarrow> int vact" where
  "CountUnapprovedCurrentDeliveryVersions taskID = query (\<lambda>d. int (length (filter
     (\<lambda>v. current_delivery d taskID v \<and> \<not> ci_eq (TA_FlowReviewStatus v) TaskAssetFlowReviewStatusApproved)
     (task_assets d))))"

subsection \<open>Task events\<close>

definition last_task_seq :: "vdb \<Rightarrow> id \<Rightarrow> int" where
  "last_task_seq d taskID = (case task_event_sequences d taskID of None \<Rightarrow> 0 | Some n \<Rightarrow> n)"

definition set_sequence :: "id \<Rightarrow> int \<Rightarrow> vdb \<Rightarrow> vdb" where
  "set_sequence taskID n d = d\<lparr>task_event_sequences := (task_event_sequences d)(taskID \<mapsto> n)\<rparr>"

definition nextTaskEventSequence :: "id \<Rightarrow> int vact" where
  "nextTaskEventSequence taskID =
     bnd (query (\<lambda>d. task_event_sequences d taskID)) (\<lambda>current. case current of
       None \<Rightarrow> bnd (stmt (\<lambda>d. if \<not> task_exists d taskID then Inl ErrDB
                 else Inr ((), set_sequence taskID 1 d))) (\<lambda>_. ret 1)
     | Some c \<Rightarrow> bnd (exec (set_sequence taskID (c + 1))) (\<lambda>_. ret (c + 1)))"

definition insert_task_event :: "TaskEvent \<Rightarrow> unit vact" where
  "insert_task_event e = stmt (\<lambda>d.
     if list_ex (\<lambda>r. TEv_ID r = TEv_ID e \<or>
          TEv_TaskID r = TEv_TaskID e \<and> TEv_Sequence r = TEv_Sequence e) (task_event_logs d) then Inl ErrDuplicateKey
     else if \<not> task_exists d (TEv_TaskID e) then Inl ErrDB
     else Inr ((), d\<lparr>task_event_logs := task_event_logs d @ [e]\<rparr>))"

definition task_uuid_New :: "uuid_source \<Rightarrow> string vact" where
  "task_uuid_New U w = (Inr (U (v_uuid_n (wdb w))), w\<lparr>wdb := (wdb w)\<lparr>v_uuid_n := Suc (v_uuid_n (wdb w))\<rparr>\<rparr>)"

definition taskEventRepo_Append ::
  "uuid_source \<Rightarrow> time \<Rightarrow> id \<Rightarrow> string \<Rightarrow> id option \<Rightarrow> jsonobj \<Rightarrow> TaskEvent vact" where
  "taskEventRepo_Append U now taskID eventType operatorID payload =
     bnd (nextTaskEventSequence taskID) (\<lambda>seq.
     bnd (task_uuid_New U) (\<lambda>i.
       let e = \<lparr>TEv_ID = i, TEv_TaskID = taskID, TEv_Sequence = seq, TEv_EventType = eventType,
                TEv_OperatorID = operatorID, TEv_Payload = payload, TEv_CreatedAt = now\<rparr>
       in bnd (insert_task_event e) (\<lambda>_. ret e)))"

definition taskEventRepo_ListByTaskID :: "id \<Rightarrow> TaskEvent list vact" where
  "taskEventRepo_ListByTaskID taskID = query (\<lambda>d.
     sort_key TEv_Sequence (filter (\<lambda>e. TEv_TaskID e = taskID) (task_event_logs d)))"

text \<open>The payload of a transition: a map, so that an entry of \<open>extra\<close> replaces one of the base.\<close>

fun ts_string :: "TaskStatus \<Rightarrow> string" where
  "ts_string TaskStatusDraft = ''Draft''"
| "ts_string TaskStatusPendingAssign = ''PendingAssign''"
| "ts_string TaskStatusAssigned = ''Assigned''"
| "ts_string TaskStatusInProgress = ''InProgress''"
| "ts_string TaskStatusPendingAuditA = ''PendingAuditA''"
| "ts_string TaskStatusRejectedByAuditA = ''RejectedByAuditA''"
| "ts_string TaskStatusPendingAuditB = ''PendingAuditB''"
| "ts_string TaskStatusRejectedByAuditB = ''RejectedByAuditB''"
| "ts_string TaskStatusPendingOutsource = ''PendingOutsource''"
| "ts_string TaskStatusOutsourcing = ''Outsourcing''"
| "ts_string TaskStatusPendingOutsourceReview = ''PendingOutsourceReview''"
| "ts_string TaskStatusPendingCustomizationReview = ''PendingCustomizationReview''"
| "ts_string TaskStatusPendingCustomizationProduction = ''PendingCustomizationProduction''"
| "ts_string TaskStatusPendingEffectReview = ''PendingEffectReview''"
| "ts_string TaskStatusPendingEffectRevision = ''PendingEffectRevision''"
| "ts_string TaskStatusPendingProductionTransfer = ''PendingProductionTransfer''"
| "ts_string TaskStatusPendingWarehouseQC = ''PendingWarehouseQC''"
| "ts_string TaskStatusRejectedByWarehouse = ''RejectedByWarehouse''"
| "ts_string TaskStatusPendingWarehouseReceive = ''PendingWarehouseReceive''"
| "ts_string TaskStatusPendingClose = ''PendingClose''"
| "ts_string TaskStatusCompleted = ''Completed''"
| "ts_string TaskStatusArchived = ''Archived''"
| "ts_string TaskStatusBlocked = ''Blocked''"
| "ts_string TaskStatusCancelled = ''Cancelled''"

definition jopt :: "id option \<Rightarrow> jsonv" where
  "jopt i = (case i of None \<Rightarrow> JNull | Some n \<Rightarrow> JNum n)"

definition taskEventBasePayload :: "Task \<Rightarrow> jsonobj" where
  "taskEventBasePayload task =
     [(''task_no'', JText (T_TaskNo task)), (''task_type'', JText (tt_string (T_TaskType task))),
      (''source_mode'', JText (T_SourceMode task)),
      (''business_lane'', JText (NormalizeTaskBusinessLane (T_BusinessLane task) (T_CustomizationRequired task))),
      (''workflow_lane'', JText (lane_string (Task_WorkflowLane task))),
      (''source_department'', JText (taskSourceDepartment task)), (''sku_code'', JText (T_SKUCode task)),
      (''product_name_snapshot'', JText (T_ProductNameSnapshot task)), (''product_id'', jopt (T_ProductID task))]"

definition mergeTaskEventPayload :: "jsonobj \<Rightarrow> jsonobj \<Rightarrow> jsonobj" where
  "mergeTaskEventPayload base extra = filter (\<lambda>(k, v). k \<notin> fst ` set extra) base @ extra"

definition taskTransitionEventPayload ::
  "Task \<Rightarrow> TaskStatus \<Rightarrow> TaskStatus \<Rightarrow> id option \<Rightarrow> id option \<Rightarrow> jsonobj \<Rightarrow> jsonobj" where
  "taskTransitionEventPayload task fromStatus toStatus fromHandlerID toHandlerID extra =
     mergeTaskEventPayload (taskEventBasePayload task @
       [(''from_task_status'', JText (ts_string fromStatus)), (''to_task_status'', JText (ts_string toStatus)),
        (''from_handler_id'', jopt fromHandlerID), (''to_handler_id'', jopt toHandlerID)]) extra"

definition add_event :: "uuid_source \<Rightarrow> time \<Rightarrow> id \<Rightarrow> string \<Rightarrow> id option \<Rightarrow> jsonobj \<Rightarrow> vdb \<Rightarrow> vdb" where
  "add_event U now taskID eventType operatorID payload d = d\<lparr>
     task_event_sequences := (task_event_sequences d)(taskID \<mapsto> last_task_seq d taskID + 1),
     v_uuid_n := Suc (v_uuid_n d),
     task_event_logs := task_event_logs d @
       [\<lparr>TEv_ID = U (v_uuid_n d), TEv_TaskID = taskID, TEv_Sequence = last_task_seq d taskID + 1,
         TEv_EventType = eventType, TEv_OperatorID = operatorID, TEv_Payload = payload, TEv_CreatedAt = now\<rparr>]\<rparr>"

definition set_task_status :: "time \<Rightarrow> id \<Rightarrow> TaskStatus \<Rightarrow> vdb \<Rightarrow> vdb" where
  "set_task_status now i status d =
     d\<lparr>v_modules := upd_task now i (\<lambda>t. t\<lparr>T_TaskStatus := status\<rparr>) (v_modules d)\<rparr>"

definition set_task_handler :: "time \<Rightarrow> id \<Rightarrow> id option \<Rightarrow> vdb \<Rightarrow> vdb" where
  "set_task_handler now i handlerID d =
     d\<lparr>v_modules := upd_task now i (\<lambda>t. t\<lparr>T_CurrentHandlerID := handlerID\<rparr>) (v_modules d)\<rparr>"

definition set_need_outsource :: "time \<Rightarrow> id \<Rightarrow> bool \<Rightarrow> vdb \<Rightarrow> vdb" where
  "set_need_outsource now i needOutsource d =
     d\<lparr>v_modules := upd_task now i (\<lambda>t. t\<lparr>T_NeedOutsource := needOutsource\<rparr>) (v_modules d)\<rparr>"

definition set_customization_state :: "time \<Rightarrow> id \<Rightarrow> id option \<Rightarrow> string \<Rightarrow> string \<Rightarrow> vdb \<Rightarrow> vdb" where
  "set_customization_state now i operatorID reason category d =
     d\<lparr>v_modules := upd_task now i (\<lambda>t. t\<lparr>T_LastCustomizationOperatorID := operatorID,
        T_WarehouseRejectReason := reason, T_WarehouseRejectCategory := category\<rparr>) (v_modules d)\<rparr>"

subsection \<open>What a statement that returns has done\<close>

named_theorems effects \<open>the database after a repository call that returned\<close>

lemma task_update_effect:
  "bnd (exec f) (\<lambda>_. reindexTaskSearchDocument i) w = (Inr x, w') \<Longrightarrow> wdb w' = f (wdb w)"
  by (auto simp: act_success reindexTaskSearchDocument_def dest!: exec_success query_success)

lemma taskRepo_UpdateStatus_effect [effects]:
  "taskRepo_UpdateStatus now i status w = (Inr x, w') \<Longrightarrow> wdb w' = set_task_status now i status (wdb w)"
  by (auto simp: taskRepo_UpdateStatus_def within_success UpdateStatus_def set_task_status_def put_modules_def
      dest!: task_update_effect)

lemma taskRepo_UpdateHandler_effect [effects]:
  "taskRepo_UpdateHandler now i handlerID w = (Inr x, w') \<Longrightarrow> wdb w' = set_task_handler now i handlerID (wdb w)"
  by (auto simp: taskRepo_UpdateHandler_def within_success UpdateHandler_def set_task_handler_def put_modules_def
      dest!: task_update_effect)

lemma UpdateNeedOutsource_effect [effects]:
  "UpdateNeedOutsource now i b w = (Inr x, w') \<Longrightarrow> wdb w' = set_need_outsource now i b (wdb w)"
  by (auto simp: UpdateNeedOutsource_def within_success set_need_outsource_def put_modules_def
      dest!: exec_success)

lemma UpdateCustomizationState_effect [effects]:
  "UpdateCustomizationState now i p r c w = (Inr x, w') \<Longrightarrow>
   wdb w' = set_customization_state now i p r c (wdb w)"
  by (auto simp: UpdateCustomizationState_def within_success set_customization_state_def put_modules_def
      dest!: exec_success)

lemma v_task_upd:
  assumes "\<And>r. T_ID (f r) = T_ID r"
  shows "v_task (d\<lparr>v_modules := upd_task now i f (v_modules d)\<rparr>) t = map_option (\<lambda>r. if T_ID r = i
    then (if f r = r then r else (f r)\<lparr>T_UpdatedAt := now\<rparr>) else r) (v_task d t)"
  using assms by (simp add: v_task_def task_row_def upd_task_def find_row_upd)

lemma CreateRecord_effect [effects]:
  "CreateRecord now record w = (Inr x, w') \<Longrightarrow> wdb w' = add_record now record (wdb w)"
  by (auto simp: CreateRecord_def split: if_splits dest!: stmt_success)

lemma CreateHandover_effect [effects]:
  "CreateHandover now h w = (Inr x, w') \<Longrightarrow> wdb w' = add_handover now h (wdb w) \<and> x = next_handover (wdb w)"
  by (auto simp: CreateHandover_def split: if_splits dest!: stmt_success)

lemma UpdateHandoverStatus_effect [effects]:
  "UpdateHandoverStatus now i status w = (Inr x, w') \<Longrightarrow> wdb w' = set_handover_status now i status (wdb w)"
  by (auto simp: UpdateHandoverStatus_def dest!: exec_success)

lemma outsourceRepo_Create_effect [effects]:
  "outsourceRepo_Create now r w = (Inr x, w') \<Longrightarrow> wdb w' = add_order now r (wdb w) \<and> x = next_order (wdb w)"
  by (auto simp: outsourceRepo_Create_def split: if_splits dest!: stmt_success)

lemma outsourceRepo_Update_effect [effects]:
  "outsourceRepo_Update now r w = (Inr x, w') \<Longrightarrow> wdb w' = set_order now r (wdb w)"
  by (auto simp: outsourceRepo_Update_def dest!: exec_success)

lemma warehouseRepo_Create_effect [effects]:
  "warehouseRepo_Create now r w = (Inr x, w') \<Longrightarrow>
   wdb w' = add_receipt now r (wdb w) \<and> receipt_of_task (wdb w) (WR_TaskID r) = None"
  by (auto simp: warehouseRepo_Create_def receipt_of_task_def find_None_iff list_ex_iff
      split: if_splits dest!: stmt_success)

lemma warehouseRepo_Update_effect [effects]:
  "warehouseRepo_Update now r w = (Inr x, w') \<Longrightarrow> wdb w' = set_receipt now r (wdb w)"
  by (auto simp: warehouseRepo_Update_def dest!: exec_success)

lemma asset_flow_effects [effects]:
  "MarkCurrentDeliveryVersionsApprovedForTask i a t w = (Inr x, w') \<Longrightarrow> wdb w' = approve_versions i a t (wdb w)"
  "MarkCurrentDeliveryVersionsRejectedForTask i a t w = (Inr x, w') \<Longrightarrow> wdb w' = reject_versions i a t (wdb w)"
  by (auto simp: MarkCurrentDeliveryVersionsApprovedForTask_def MarkCurrentDeliveryVersionsRejectedForTask_def
      dest!: exec_success)

lemma nextTaskEventSequence_effect [effects]:
  "nextTaskEventSequence taskID w = (Inr seq, w') \<Longrightarrow> seq = last_task_seq (wdb w) taskID + 1 \<and>
   wdb w' = set_sequence taskID (last_task_seq (wdb w) taskID + 1) (wdb w)"
  by (auto simp: nextTaskEventSequence_def act_success last_task_seq_def split: option.splits if_splits
      dest!: query_success exec_success stmt_success)

lemma insert_task_event_effect [effects]:
  "insert_task_event e w = (Inr x, w') \<Longrightarrow>
   wdb w' = (wdb w)\<lparr>task_event_logs := task_event_logs (wdb w) @ [e]\<rparr>"
  by (auto simp: insert_task_event_def split: if_splits dest!: stmt_success)

lemma taskEventRepo_Append_effect [effects]:
  assumes "taskEventRepo_Append U now taskID ty op pl w = (Inr e, w')"
  shows "wdb w' = add_event U now taskID ty op pl (wdb w)"
  using assms
  by (auto simp: taskEventRepo_Append_def act_success task_uuid_New_def Let_def add_event_def set_sequence_def
      dest!: nextTaskEventSequence_effect insert_task_event_effect)

lemmas effect_defs = set_task_status_def set_task_handler_def set_need_outsource_def
  set_customization_state_def add_record_def add_handover_def set_handover_status_def add_order_def
  set_order_def add_receipt_def set_receipt_def approve_versions_def reject_versions_def add_event_def

subsection \<open>Numbered logs\<close>

text \<open>
  What readers of a log rely on: an append that returns adds one entry, numbered one above its
  key's counter, and moves that counter. Then the entries of each key are numbered 1, 2, ... in the
  order they were written.
\<close>

definition numbered :: "('e \<Rightarrow> id) \<Rightarrow> ('e \<Rightarrow> int) \<Rightarrow> 'e list \<Rightarrow> (id \<Rightarrow> int) \<Rightarrow> bool" where
  "numbered key seq es latest \<longleftrightarrow>
     (\<forall>k. map seq (filter (\<lambda>e. key e = k) es) = [1..latest k] \<and> 0 \<le> latest k)"

locale numbered_log =
  fixes entries :: "'d \<Rightarrow> 'e list" and latest :: "'d \<Rightarrow> id \<Rightarrow> int"
    and key :: "'e \<Rightarrow> id" and seq :: "'e \<Rightarrow> int"
    and append :: "id \<Rightarrow> 'x \<Rightarrow> 'd \<Rightarrow> 'd"
  assumes append_entries: "\<exists>e. entries (append k x d) = entries d @ [e] \<and> key e = k \<and> seq e = latest d k + 1"
    and append_latest: "latest (append k x d) = (latest d)(k := latest d k + 1)"
begin

lemma append_numbered:
  assumes "numbered key seq (entries d) (latest d)"
  shows "numbered key seq (entries (append k x d)) (latest (append k x d))"
proof -
  obtain e where e: "entries (append k x d) = entries d @ [e]" "key e = k" "seq e = latest d k + 1"
    using append_entries by blast
  show ?thesis
    unfolding numbered_def e(1) append_latest
    using assms e(2,3) by (auto simp: numbered_def upto_rec2 [of 1 "_ + 1"])
qed

end

interpretation task_log: numbered_log task_event_logs last_task_seq TEv_TaskID TEv_Sequence
  "\<lambda>taskID (ty, op, pl). add_event U now taskID ty op pl" for U now
  by unfold_locales (auto simp: add_event_def last_task_seq_def fun_eq_iff)

definition events_numbered :: "vdb \<Rightarrow> bool" where
  "events_numbered d \<longleftrightarrow> numbered TEv_TaskID TEv_Sequence (task_event_logs d) (last_task_seq d)"

lemma add_event_numbered [simp]: "events_numbered d \<Longrightarrow> events_numbered (add_event U now t ty op pl d)"
  using task_log.append_numbered [where d = d and k = t and x = "(ty, op, pl)" and U = U and now = now] by (simp add: events_numbered_def)

lemma frame_numbered:
  "task_event_logs d' = task_event_logs d \<Longrightarrow> task_event_sequences d' = task_event_sequences d \<Longrightarrow>
   events_numbered d' \<longleftrightarrow> events_numbered d"
  by (simp add: events_numbered_def last_task_seq_def [abs_def])

subsection \<open>A small database\<close>

definition demo_vdb :: "Task \<Rightarrow> User list \<Rightarrow> vdb" where
  "demo_vdb task us = \<lparr>v_modules = demo_db\<lparr>tasks := [task]\<rparr>,
     v_codes = \<lparr>code_rules = [], code_rule_sequences = Map.empty\<rparr>, v_users = us, v_user_roles = [], audit_records = [],
     audit_handovers = [], outsource_orders = [], warehouse_receipts = [], task_assets = [],
     design_assets = [], customization_jobs = [], pricing_rules = [], task_event_logs = [], task_event_sequences = Map.empty,
     next_record = 1, next_handover = 1, next_order = 1, next_receipt = 1,
     next_job = 1, v_uuid_n = 0\<rparr>"

end
