(* ===== verification/Audit_V7.thy ===== *)
theory Audit_V7
  imports Workflow_Store
begin

section \<open>The audit of tasks\<close>

text \<open>
  \<^verbatim>\<open>service/audit_v7_service.go\<close> with the parameters of \<^verbatim>\<open>service/audit_service.go\<close>: claiming a task for
  audit, approving, rejecting, transferring, handing over and taking over. Every operation reads the
  task, checks the business lane of the people involved, asks the authoriser, checks the stage and
  the pending handovers, and then writes record, task and event in one transaction, over the task
  read before it.

  The services handed to \<^verbatim>\<open>NewAuditV7Service\<close> are the record of dependencies; the filing trigger,
  whose outcome is only logged, is an arbitrary action run after the commit.
\<close>

subsection \<open>Parameters and dependencies\<close>

record ClaimAuditParams =
  CA_TaskID :: id
  CA_AuditorID :: id
  CA_Stage :: AuditRecordStage

record ApproveAuditParams =
  AP_TaskID :: id
  AP_AuditorID :: id
  AP_Stage :: AuditRecordStage
  AP_NextStatus :: TaskStatus
  AP_Comment :: string
  AP_IssueTypes :: "string list"
  AP_ReplacementAssetID :: "id option"
  AP_PreviousAssetID :: "id option"
  AP_ReplacementNote :: string

record RejectAuditParams =
  RJ_TaskID :: id
  RJ_AuditorID :: id
  RJ_Stage :: AuditRecordStage
  RJ_Comment :: string
  RJ_IssueTypes :: "string list"
  RJ_AffectsLaunch :: bool
  RJ_ReplacementAssetID :: "id option"
  RJ_PreviousAssetID :: "id option"
  RJ_ReplacementNote :: string

record TransferAuditParams =
  TR_TaskID :: id
  TR_FromAuditorID :: id
  TR_ToAuditorID :: id
  TR_Stage :: AuditRecordStage
  TR_Comment :: string

record HandoverAuditParams =
  HO_TaskID :: id
  HO_FromAuditorID :: id
  HO_ToAuditorID :: id
  HO_Reason :: string
  HO_CurrentJudgement :: string
  HO_RiskRemark :: string

record auditV7Service =
  S_catalog :: taskOrgCatalog
  S_dataScopeResolver :: bool
  S_scopeUserRepo :: bool
  S_assetFlowRepo :: bool
  S_filingTrigger :: "(id \<Rightarrow> id \<Rightarrow> string \<Rightarrow> unit vop) option"
  S_fmtNow :: "string \<Rightarrow> string"
  S_uuid :: uuid_source

definition scope_users :: "auditV7Service \<Rightarrow> vdb user_repo" where
  "scope_users s = (if S_scopeUserRepo s then Some (userRepo_GetByID v_users) else None)"

definition infra_v :: "'a vact \<Rightarrow> 'a vop" where
  "infra_v m = map_err infraError m"

definition check :: "bool \<Rightarrow> ErrCode \<Rightarrow> unit vop" where
  "check ok code = (if ok then ret () else throw code)"

definition getTask :: "id \<Rightarrow> Task vop" where
  "getTask taskID = bnd (infra_v (taskRepo_GetByID taskID))
     (\<lambda>r. case r of None \<Rightarrow> throw ErrCodeNotFound | Some task \<Rightarrow> ret task)"

subsection \<open>Business lanes\<close>

text \<open>The two pinned auditors and the fragments of team names that stand for a lane.\<close>

definition auditLanePinnedNormalAuditorName :: string where [module_names]:
  "auditLanePinnedNormalAuditorName =
     [CHR 0xE9, CHR 0xA9, CHR 0xAC, CHR 0xE9, CHR 0x9B, CHR 0xA8, CHR 0xE7, CHR 0x90, CHR 0xAA]"

definition auditLanePinnedCustomizationAuditorName :: string where [module_names]:
  "auditLanePinnedCustomizationAuditorName =
     [CHR 0xE7, CHR 0xAB, CHR 0xA0, CHR 0xE9, CHR 0xB9, CHR 0x8F, CHR 0xE9, CHR 0xB9, CHR 0x8F]"

definition team_fragment_custom :: string where [module_names]:
  "team_fragment_custom = [CHR 0xE5, CHR 0xAE, CHR 0x9A, CHR 0xE5, CHR 0x88, CHR 0xB6]"

definition team_fragment_plain :: string where [module_names]:
  "team_fragment_plain = [CHR 0xE6, CHR 0x99, CHR 0xAE, CHR 0xE9, CHR 0x80, CHR 0x9A]"

definition team_fragment_regular :: string where [module_names]:
  "team_fragment_regular = [CHR 0xE5, CHR 0xB8, CHR 0xB8, CHR 0xE8, CHR 0xA7, CHR 0x84]"

definition team_fragment_design_audit :: string where [module_names]:
  "team_fragment_design_audit = [CHR 0xE8, CHR 0xAE, CHR 0xBE, CHR 0xE8, CHR 0xAE, CHR 0xA1,
     CHR 0xE5, CHR 0xAE, CHR 0xA1, CHR 0xE6, CHR 0xA0, CHR 0xB8]"

text \<open>\<^verbatim>\<open>strings.Contains\<close>.\<close>

fun Contains :: "string \<Rightarrow> string \<Rightarrow> bool" where
  "Contains [] sub \<longleftrightarrow> sub = []"
| "Contains (c # s) sub \<longleftrightarrow> take (length sub) (c # s) = sub \<or> Contains s sub"

record auditLaneProfile =
  LP_UserID :: id
  LP_Username :: string
  LP_DisplayName :: string
  LP_Allowed :: "string list"

definition profile_allow :: "string \<Rightarrow> auditLaneProfile \<Rightarrow> auditLaneProfile" where
  "profile_allow lane p =
     (if TaskBusinessLane_Valid lane then p\<lparr>LP_Allowed := List.insert lane (LP_Allowed p)\<rparr> else p)"

definition profile_allows :: "auditLaneProfile \<Rightarrow> string \<Rightarrow> bool" where
  "profile_allows p lane \<longleftrightarrow> TaskBusinessLane_Valid lane \<and> lane \<in> set (LP_Allowed p)"

text \<open>
  \<open>roles\<close> are the roles in the user's struct: the rows of \<^verbatim>\<open>userRepo.GetByID\<close> come without roles. The last
  branch of the function returns the profile either way.
\<close>

definition buildAuditLaneProfileFromUser ::
  "id \<Rightarrow> string \<Rightarrow> string \<Rightarrow> string \<Rightarrow> string list \<Rightarrow> auditLaneProfile" where
  "buildAuditLaneProfileFromUser userID username displayName team0 roles =
     (let profile = \<lparr>LP_UserID = userID, LP_Username = TrimSpace username,
                     LP_DisplayName = TrimSpace displayName, LP_Allowed = []\<rparr>
      in if LP_DisplayName profile = auditLanePinnedNormalAuditorName \<or>
            LP_Username profile = auditLanePinnedNormalAuditorName
           then profile_allow TaskBusinessLaneNormal profile
         else if LP_DisplayName profile = auditLanePinnedCustomizationAuditorName \<or>
            LP_Username profile = auditLanePinnedCustomizationAuditorName
           then profile_allow TaskBusinessLaneCustomization profile
         else
           let team = TrimSpace team0;
               profile = (if Contains team team_fragment_custom then profile_allow TaskBusinessLaneCustomization profile
                  else if Contains team team_fragment_plain \<or> Contains team team_fragment_regular \<or>
                     Contains team team_fragment_design_audit then profile_allow TaskBusinessLaneNormal profile
                  else profile);
               profile = (if hasAnyRoleValue roles [RoleCustomizationOperator, RoleCustomizationReviewer]
                  then profile_allow TaskBusinessLaneCustomization profile else profile)
           in if hasAnyRoleValue roles [RoleAuditA, RoleAuditB, RoleDesignReviewer]
              then profile_allow TaskBusinessLaneNormal profile else profile)"

definition profile_of_row :: "User \<Rightarrow> string list \<Rightarrow> auditLaneProfile" where
  "profile_of_row u roles = buildAuditLaneProfileFromUser (U_ID u) (U_Username u) (U_DisplayName u) (U_Team u) roles"

definition resolveAuditLaneProfileForRequestActor ::
  "auditV7Service \<Rightarrow> RequestActor \<Rightarrow> auditLaneProfile vop" where
  "resolveAuditLaneProfileForRequestActor s actor =
     (let pseudo = buildAuditLaneProfileFromUser (RA_ID actor) (TrimSpace (RA_Username actor))
                     (TrimSpace (RA_Username actor)) (TrimSpace (RA_Team actor)) (RA_Roles actor)
      in case scope_users s of
           None \<Rightarrow> ret pseudo
         | Some getUser \<Rightarrow> bnd (infra_v (getUser (RA_ID actor))) (\<lambda>r. case r of
               None \<Rightarrow> ret pseudo
             | Some user \<Rightarrow> ret (profile_of_row user (RA_Roles actor))))"

definition ensureRequestActorLanePolicy ::
  "auditV7Service \<Rightarrow> RequestActor option \<Rightarrow> string \<Rightarrow> unit vop" where
  "ensureRequestActorLanePolicy s ctxActor lane = (case ctxActor of
       None \<Rightarrow> ret ()
     | Some actor \<Rightarrow>
        if RA_ID actor \<le> 0 then ret ()
        else bnd (resolveAuditLaneProfileForRequestActor s actor) (\<lambda>profile.
          check (profile_allows profile lane) ErrCodePermissionDenied))"

text \<open>The loop over the people named in the request, each asked for once.\<close>

fun lane_subjects ::
  "(id \<Rightarrow> (vdb, db_error, User option) act) \<Rightarrow> string \<Rightarrow> id list \<Rightarrow> id list \<Rightarrow> unit vop" where
  "lane_subjects getUser lane seen [] = ret ()"
| "lane_subjects getUser lane seen (subject # subjects) =
     (if subject \<le> 0 \<or> subject \<in> set seen then lane_subjects getUser lane seen subjects
      else bnd (infra_v (getUser subject)) (\<lambda>r. case r of
          None \<Rightarrow> throw ErrCodePermissionDenied
        | Some user \<Rightarrow>
            if profile_allows (profile_of_row user []) lane
            then lane_subjects getUser lane (subject # seen) subjects
            else throw ErrCodePermissionDenied))"

definition ensureAuditLanePolicy ::
  "auditV7Service \<Rightarrow> RequestActor option \<Rightarrow> Task \<Rightarrow> id list \<Rightarrow> unit vop" where
  "ensureAuditLanePolicy s ctxActor task subjects =
     (let lane = NormalizeTaskBusinessLane (T_BusinessLane task) (T_CustomizationRequired task)
      in bnd (ensureRequestActorLanePolicy s ctxActor lane) (\<lambda>_.
         case scope_users s of
           None \<Rightarrow> ret ()
         | Some getUser \<Rightarrow> lane_subjects getUser lane [] subjects))"

subsection \<open>Checks\<close>

definition isClaimableStatus :: "TaskStatus \<Rightarrow> AuditRecordStage \<Rightarrow> bool" where
  "isClaimableStatus status stage \<longleftrightarrow> activeAuditStageFromStatus status = Some stage"

fun rejectedStatusForStage :: "AuditRecordStage \<Rightarrow> TaskStatus option" where
  "rejectedStatusForStage AuditRecordStageA = Some TaskStatusRejectedByAuditA"
| "rejectedStatusForStage AuditRecordStageB = Some TaskStatusRejectedByAuditB"
| "rejectedStatusForStage _ = None"

fun validApproveTransition :: "TaskStatus \<Rightarrow> TaskStatus \<Rightarrow> bool" where
  "validApproveTransition TaskStatusPendingAuditA next0 \<longleftrightarrow> next0 = TaskStatusPendingAuditB \<or>
     next0 = TaskStatusPendingWarehouseReceive \<or> next0 = TaskStatusPendingOutsource"
| "validApproveTransition TaskStatusPendingAuditB next0 \<longleftrightarrow> next0 = TaskStatusPendingWarehouseReceive"
| "validApproveTransition TaskStatusPendingOutsourceReview next0 \<longleftrightarrow> next0 = TaskStatusPendingWarehouseReceive"
| "validApproveTransition _ _ \<longleftrightarrow> False"

text \<open>The types are put between quotation marks as they are.\<close>

fun issue_items :: "string list \<Rightarrow> string" where
  "issue_items [] = []"
| "issue_items [t] = qt # t @ [qt]"
| "issue_items (t # ts) = qt # t @ qt # CHR '','' # issue_items ts"

definition issueTypesToJSON :: "string list \<Rightarrow> string" where
  "issueTypesToJSON types = (if types = [] then ''[]'' else CHR ''['' # issue_items types @ '']'')"

definition no_pending_handover :: "vdb \<Rightarrow> id \<Rightarrow> bool" where
  "no_pending_handover d taskID \<longleftrightarrow>
     list_all (\<lambda>h. AH_Status h \<noteq> HandoverStatusPendingTakeover) (handovers_of_task d taskID)"

definition ensureNoPendingHandover :: "id \<Rightarrow> unit vop" where
  "ensureNoPendingHandover taskID =
     bnd (infra_v (ListHandoversByTaskID taskID)) (\<lambda>handovers.
       check (list_all (\<lambda>h. AH_Status h \<noteq> HandoverStatusPendingTakeover) handovers) ErrCodeInvalidStateTransition)"

text \<open>
  The authoriser writes the read model's ownership into the caller's task, whenever the request has
  an actor; \<open>authorize\<close> returns the task as the operation sees it afterwards.
\<close>

definition authorize ::
  "auditV7Service \<Rightarrow> RequestActor option \<Rightarrow> TaskAction \<Rightarrow> Task \<Rightarrow> AuditRecordStage \<Rightarrow> Task vop" where
  "authorize s ctxActor a task stage =
     bnd (AuthorizeTaskActionWithAttributes (S_catalog s) (S_dataScopeResolver s) (scope_users s) ctxActor
            a (Some task) stage) (\<lambda>_.
       ret (if resolveTaskActionActor ctxActor = None then task
            else applyTaskReadModelOrgOwnership (S_catalog s) task))"

abbreviation "TaskEventAuditClaimed \<equiv> ''task.audit.claimed''"
abbreviation "TaskEventAuditApproved \<equiv> ''task.audit.approved''"
abbreviation "TaskEventAuditRejected \<equiv> ''task.audit.rejected''"
abbreviation "TaskEventAuditTransferred \<equiv> ''task.audit.transferred''"
abbreviation "TaskEventAuditHandedOver \<equiv> ''task.audit.handed_over''"
abbreviation "TaskEventAuditTakenOver \<equiv> ''task.audit.taken_over''"

fun ars_string :: "AuditRecordStage \<Rightarrow> string" where
  "ars_string AuditRecordStageA = ''A''"
| "ars_string AuditRecordStageB = ''B''"
| "ars_string AuditRecordStageOutsourceReview = ''outsource_review''"
| "ars_string (AuditRecordStageOther t) = t"

definition audit_record ::
  "id \<Rightarrow> AuditRecordStage \<Rightarrow> AuditActionType \<Rightarrow> id \<Rightarrow> string \<Rightarrow> string \<Rightarrow> AuditRecord" where
  "audit_record taskID stage act auditorID issues cmt = \<lparr>AR2_ID = 0, AR2_TaskID = taskID,
     AR2_Stage = stage, AR2_Action = act, AR2_AuditorID = auditorID, AR2_IssueTypesJSON = issues,
     AR2_Comment = cmt, AR2_AffectsLaunch = False, AR2_NeedOutsource = False, AR2_CreatedAt = 0\<rparr>"

subsection \<open>The operations\<close>

definition transition_event ::
  "uuid_source \<Rightarrow> time \<Rightarrow> id \<Rightarrow> Task \<Rightarrow> string \<Rightarrow> id \<Rightarrow> TaskStatus \<Rightarrow> id option \<Rightarrow> jsonobj \<Rightarrow> unit vact" where
  "transition_event U now taskID task eventType operator toStatus toHandler extra =
     bnd (taskEventRepo_Append U now taskID eventType (Some operator)
            (taskTransitionEventPayload task (T_TaskStatus task) toStatus (T_CurrentHandlerID task) toHandler extra))
       (\<lambda>_. ret ())"

definition Claim_tx :: "auditV7Service \<Rightarrow> time \<Rightarrow> ClaimAuditParams \<Rightarrow> Task \<Rightarrow> unit vact" where
  "Claim_tx s now p task =
     bnd (CreateRecord now (audit_record (CA_TaskID p) (CA_Stage p) AuditActionTypeClaim (CA_AuditorID p) ''[]'' []))
       (\<lambda>_. bnd (taskRepo_UpdateHandler now (CA_TaskID p) (Some (CA_AuditorID p))) (\<lambda>_.
       transition_event (S_uuid s) now (CA_TaskID p) task TaskEventAuditClaimed (CA_AuditorID p) (T_TaskStatus task)
         (Some (CA_AuditorID p))
         [(''auditor_id'', JNum (CA_AuditorID p)), (''stage'', JText (ars_string (CA_Stage p)))]))"

definition Claim :: "auditV7Service \<Rightarrow> time \<Rightarrow> RequestActor option \<Rightarrow> ClaimAuditParams \<Rightarrow> unit vop" where
  "Claim s now ctxActor p =
     bnd (getTask (CA_TaskID p)) (\<lambda>task0.
     bnd (ensureAuditLanePolicy s ctxActor task0 [CA_AuditorID p]) (\<lambda>_.
     bnd (authorize s ctxActor TaskActionAuditClaim task0 (CA_Stage p)) (\<lambda>task.
     bnd (check (isClaimableStatus (T_TaskStatus task) (CA_Stage p)) ErrCodeInvalidStateTransition) (\<lambda>_.
     bnd (ensureNoPendingHandover (CA_TaskID p)) (\<lambda>_.
     infra_v (RunInTx (Claim_tx s now p task)))))))"

definition replacement_extra :: "id \<Rightarrow> id option \<Rightarrow> id option \<Rightarrow> string \<Rightarrow> jsonobj" where
  "replacement_extra auditorID replacement previous note = (case replacement of
       None \<Rightarrow> []
     | Some asset \<Rightarrow>
        [(''current_asset_id'', JNum asset), (''replacement_actor_id'', JNum auditorID)] @
        (case previous of None \<Rightarrow> [] | Some prev \<Rightarrow> [(''previous_asset_id'', JNum prev)]) @
        (if note \<noteq> [] then [(''replacement_note'', JText note)] else []))"

definition Approve_tx :: "auditV7Service \<Rightarrow> time \<Rightarrow> ApproveAuditParams \<Rightarrow> Task \<Rightarrow> unit vact" where
  "Approve_tx s now p task =
     (let needOutsource = (AP_NextStatus p = TaskStatusPendingOutsource) in
      bnd (CreateRecord now ((audit_record (AP_TaskID p) (AP_Stage p) AuditActionTypeApprove (AP_AuditorID p)
             (issueTypesToJSON (AP_IssueTypes p)) (AP_Comment p))\<lparr>AR2_NeedOutsource := needOutsource\<rparr>)) (\<lambda>_.
      bnd (taskRepo_UpdateStatus now (AP_TaskID p) (AP_NextStatus p)) (\<lambda>_.
      bnd (if needOutsource then UpdateNeedOutsource now (AP_TaskID p) True else ret ()) (\<lambda>_.
      bnd (taskRepo_UpdateHandler now (AP_TaskID p) None) (\<lambda>_.
      bnd (if AP_NextStatus p = TaskStatusPendingWarehouseReceive \<and> S_assetFlowRepo s
           then MarkCurrentDeliveryVersionsApprovedForTask (AP_TaskID p) (AP_AuditorID p) now else ret ()) (\<lambda>_.
      transition_event (S_uuid s) now (AP_TaskID p) task TaskEventAuditApproved (AP_AuditorID p) (AP_NextStatus p) None
        ([(''auditor_id'', JNum (AP_AuditorID p)), (''stage'', JText (ars_string (AP_Stage p))),
          (''next_status'', JText (ts_string (AP_NextStatus p))), (''comment'', JText (AP_Comment p)),
          (''need_outsource'', JFlag needOutsource)] @
         replacement_extra (AP_AuditorID p) (AP_ReplacementAssetID p) (AP_PreviousAssetID p)
           (AP_ReplacementNote p))))))))"

definition isFinalDesignAuditApproval :: "TaskStatus \<Rightarrow> bool" where
  "isFinalDesignAuditApproval next0 \<longleftrightarrow>
     next0 = TaskStatusPendingWarehouseReceive \<or> next0 = TaskStatusPendingOutsource"

definition Approve :: "auditV7Service \<Rightarrow> time \<Rightarrow> RequestActor option \<Rightarrow> ApproveAuditParams \<Rightarrow> unit vop" where
  "Approve s now ctxActor p =
     bnd (getTask (AP_TaskID p)) (\<lambda>task0.
     bnd (ensureAuditLanePolicy s ctxActor task0 [AP_AuditorID p]) (\<lambda>_.
     bnd (authorize s ctxActor TaskActionAuditApprove task0 (AP_Stage p)) (\<lambda>task.
     bnd (check (isClaimableStatus (T_TaskStatus task) (AP_Stage p)) ErrCodeInvalidStateTransition) (\<lambda>_.
     bnd (check (validApproveTransition (T_TaskStatus task) (AP_NextStatus p)) ErrCodeInvalidStateTransition) (\<lambda>_.
     bnd (ensureNoPendingHandover (AP_TaskID p)) (\<lambda>_.
     bnd (infra_v (RunInTx (Approve_tx s now p task))) (\<lambda>_.
     case S_filingTrigger s of
       Some trigger \<Rightarrow> if isFinalDesignAuditApproval (AP_NextStatus p)
         then ignore_err (trigger (AP_TaskID p) (AP_AuditorID p) (AP_Comment p)) else ret ()
     | None \<Rightarrow> ret ())))))))"

definition Reject_tx :: "auditV7Service \<Rightarrow> time \<Rightarrow> RejectAuditParams \<Rightarrow> Task \<Rightarrow> TaskStatus \<Rightarrow> unit vact" where
  "Reject_tx s now p task nextStatus =
     bnd (CreateRecord now ((audit_record (RJ_TaskID p) (RJ_Stage p) AuditActionTypeReject (RJ_AuditorID p)
            (issueTypesToJSON (RJ_IssueTypes p)) (RJ_Comment p))\<lparr>AR2_AffectsLaunch := RJ_AffectsLaunch p\<rparr>)) (\<lambda>_.
     bnd (taskRepo_UpdateStatus now (RJ_TaskID p) nextStatus) (\<lambda>_.
     bnd (taskRepo_UpdateHandler now (RJ_TaskID p) (T_DesignerID task)) (\<lambda>_.
     bnd (if S_assetFlowRepo s
          then MarkCurrentDeliveryVersionsRejectedForTask (RJ_TaskID p) (RJ_AuditorID p) now else ret ()) (\<lambda>_.
     transition_event (S_uuid s) now (RJ_TaskID p) task TaskEventAuditRejected (RJ_AuditorID p) nextStatus (T_DesignerID task)
       ([(''auditor_id'', JNum (RJ_AuditorID p)), (''stage'', JText (ars_string (RJ_Stage p))),
         (''next_status'', JText (ts_string nextStatus)), (''comment'', JText (RJ_Comment p)),
         (''affects_launch'', JFlag (RJ_AffectsLaunch p)), (''designer_id'', jopt (T_DesignerID task))] @
        replacement_extra (RJ_AuditorID p) (RJ_ReplacementAssetID p) (RJ_PreviousAssetID p)
          (RJ_ReplacementNote p))))))"

definition Reject :: "auditV7Service \<Rightarrow> time \<Rightarrow> RequestActor option \<Rightarrow> RejectAuditParams \<Rightarrow> unit vop" where
  "Reject s now ctxActor p =
     bnd (getTask (RJ_TaskID p)) (\<lambda>task0.
     bnd (ensureAuditLanePolicy s ctxActor task0 [RJ_AuditorID p]) (\<lambda>_.
     bnd (authorize s ctxActor TaskActionAuditReject task0 (RJ_Stage p)) (\<lambda>task.
     bnd (check (isClaimableStatus (T_TaskStatus task) (RJ_Stage p)) ErrCodeInvalidStateTransition) (\<lambda>_.
     case rejectedStatusForStage (RJ_Stage p) of
       None \<Rightarrow> throw ErrCodeInvalidRequest
     | Some nextStatus \<Rightarrow>
        bnd (ensureNoPendingHandover (RJ_TaskID p)) (\<lambda>_.
        infra_v (RunInTx (Reject_tx s now p task nextStatus)))))))"

definition Transfer_tx :: "auditV7Service \<Rightarrow> time \<Rightarrow> TransferAuditParams \<Rightarrow> Task \<Rightarrow> unit vact" where
  "Transfer_tx s now p task =
     bnd (CreateRecord now (audit_record (TR_TaskID p) (TR_Stage p) AuditActionTypeTransfer (TR_FromAuditorID p)
            ''[]'' (TR_Comment p))) (\<lambda>_.
     bnd (taskRepo_UpdateHandler now (TR_TaskID p) (Some (TR_ToAuditorID p))) (\<lambda>_.
     transition_event (S_uuid s) now (TR_TaskID p) task TaskEventAuditTransferred (TR_FromAuditorID p) (T_TaskStatus task)
       (Some (TR_ToAuditorID p))
       [(''from_auditor_id'', JNum (TR_FromAuditorID p)), (''to_auditor_id'', JNum (TR_ToAuditorID p)),
        (''stage'', JText (ars_string (TR_Stage p))), (''comment'', JText (TR_Comment p))]))"

definition Transfer :: "auditV7Service \<Rightarrow> time \<Rightarrow> RequestActor option \<Rightarrow> TransferAuditParams \<Rightarrow> unit vop" where
  "Transfer s now ctxActor p =
     bnd (getTask (TR_TaskID p)) (\<lambda>task0.
     bnd (ensureAuditLanePolicy s ctxActor task0 [TR_FromAuditorID p, TR_ToAuditorID p]) (\<lambda>_.
     bnd (authorize s ctxActor TaskActionAuditTransfer task0 (TR_Stage p)) (\<lambda>task.
     bnd (check (activeAuditStageFromStatus (T_TaskStatus task) \<noteq> None) ErrCodeInvalidStateTransition) (\<lambda>_.
     bnd (check (activeAuditStageFromStatus (T_TaskStatus task) = Some (TR_Stage p))
            ErrCodeInvalidStateTransition) (\<lambda>_.
     bnd (ensureNoPendingHandover (TR_TaskID p)) (\<lambda>_.
     infra_v (RunInTx (Transfer_tx s now p task))))))))"

definition new_handover :: "HandoverAuditParams \<Rightarrow> string \<Rightarrow> AuditHandover" where
  "new_handover p handoverNo = \<lparr>AH_ID = 0, AH_HandoverNo = handoverNo, AH_TaskID = HO_TaskID p,
     AH_FromAuditorID = HO_FromAuditorID p, AH_ToAuditorID = HO_ToAuditorID p, AH_Reason = HO_Reason p,
     AH_CurrentJudgement = HO_CurrentJudgement p, AH_RiskRemark = HO_RiskRemark p,
     AH_Status = HandoverStatusPendingTakeover, AH_CreatedAt = 0, AH_UpdatedAt = 0\<rparr>"

definition Handover_tx ::
  "auditV7Service \<Rightarrow> time \<Rightarrow> HandoverAuditParams \<Rightarrow> Task \<Rightarrow> AuditRecordStage \<Rightarrow> string \<Rightarrow> id vact" where
  "Handover_tx s now p task stage handoverNo =
     bnd (CreateHandover now (new_handover p handoverNo)) (\<lambda>newID.
     bnd (CreateRecord now (audit_record (HO_TaskID p) stage AuditActionTypeHandover (HO_FromAuditorID p)
            ''[]'' (HO_Reason p))) (\<lambda>_.
     bnd (taskRepo_UpdateHandler now (HO_TaskID p) None) (\<lambda>_.
     bnd (transition_event (S_uuid s) now (HO_TaskID p) task TaskEventAuditHandedOver (HO_FromAuditorID p) (T_TaskStatus task) None
       [(''handover_id'', JNum newID), (''handover_no'', JText handoverNo),
        (''from_auditor_id'', JNum (HO_FromAuditorID p)), (''to_auditor_id'', JNum (HO_ToAuditorID p)),
        (''stage'', JText (ars_string stage)), (''reason'', JText (HO_Reason p)),
        (''current_judgement'', JText (HO_CurrentJudgement p)), (''risk_remark'', JText (HO_RiskRemark p))])
     (\<lambda>_. ret newID))))"

definition Handover ::
  "auditV7Service \<Rightarrow> time \<Rightarrow> RequestActor option \<Rightarrow> HandoverAuditParams \<Rightarrow> AuditHandover vop" where
  "Handover s now ctxActor p =
     bnd (getTask (HO_TaskID p)) (\<lambda>task0.
     bnd (ensureAuditLanePolicy s ctxActor task0 [HO_FromAuditorID p, HO_ToAuditorID p]) (\<lambda>_.
     case activeAuditStageFromStatus (T_TaskStatus task0) of
       None \<Rightarrow> throw ErrCodeInvalidStateTransition
     | Some stage \<Rightarrow>
        bnd (authorize s ctxActor TaskActionAuditHandover task0 stage) (\<lambda>task.
        bnd (ensureNoPendingHandover (HO_TaskID p)) (\<lambda>_.
        bnd (check (HO_FromAuditorID p \<noteq> HO_ToAuditorID p) ErrCodeInvalidRequest) (\<lambda>_.
        bnd (codeRuleSvc_GenerateCode (S_fmtNow s) CodeRuleTypeHandoverNo) (\<lambda>handoverNo.
        bnd (infra_v (RunInTx (Handover_tx s now p task stage handoverNo))) (\<lambda>newID.
        ret ((new_handover p handoverNo)\<lparr>AH_ID := newID\<rparr>))))))))"

definition Takeover_tx ::
  "auditV7Service \<Rightarrow> time \<Rightarrow> AuditHandover \<Rightarrow> id \<Rightarrow> id \<Rightarrow> Task \<Rightarrow> AuditRecordStage \<Rightarrow> unit vact" where
  "Takeover_tx s now handover handoverID auditorID task stage =
     bnd (UpdateHandoverStatus now handoverID HandoverStatusTakenOver) (\<lambda>_.
     bnd (taskRepo_UpdateHandler now (AH_TaskID handover) (Some auditorID)) (\<lambda>_.
     bnd (CreateRecord now (audit_record (AH_TaskID handover) stage AuditActionTypeTakeover auditorID ''[]'' [])) (\<lambda>_.
     transition_event (S_uuid s) now (AH_TaskID handover) task TaskEventAuditTakenOver auditorID (T_TaskStatus task) (Some auditorID)
       [(''handover_id'', JNum handoverID), (''auditor_id'', JNum auditorID),
        (''stage'', JText (ars_string stage))])))"

definition Takeover ::
  "auditV7Service \<Rightarrow> time \<Rightarrow> RequestActor option \<Rightarrow> id \<Rightarrow> id \<Rightarrow> id \<Rightarrow> unit vop" where
  "Takeover s now ctxActor taskID handoverID auditorID =
     bnd (infra_v (GetHandoverByID handoverID)) (\<lambda>r. case r of
       None \<Rightarrow> throw ErrCodeNotFound
     | Some handover \<Rightarrow>
        bnd (check (AH_TaskID handover = taskID) ErrCodeInvalidRequest) (\<lambda>_.
        bnd (check (AH_ToAuditorID handover = auditorID) ErrCodeInvalidRequest) (\<lambda>_.
        bnd (check (AH_Status handover = HandoverStatusPendingTakeover) ErrCodeInvalidStateTransition) (\<lambda>_.
        bnd (getTask (AH_TaskID handover)) (\<lambda>task0.
        bnd (ensureAuditLanePolicy s ctxActor task0 [AH_FromAuditorID handover, AH_ToAuditorID handover, auditorID]) (\<lambda>_.
        bnd (authorize s ctxActor TaskActionAuditTakeover task0 no_stage) (\<lambda>task.
        case activeAuditStageFromStatus (T_TaskStatus task) of
          None \<Rightarrow> throw ErrCodeInvalidStateTransition
        | Some stage \<Rightarrow>
            infra_v (RunInTx (Takeover_tx s now handover handoverID auditorID task stage)))))))))"

definition ListHandovers :: "id \<Rightarrow> AuditHandover list vop" where
  "ListHandovers taskID = bnd (getTask taskID) (\<lambda>_. infra_v (ListHandoversByTaskID taskID))"

subsection \<open>What the transactions write\<close>

definition with_event ::
  "uuid_source \<Rightarrow> time \<Rightarrow> id \<Rightarrow> Task \<Rightarrow> string \<Rightarrow> id \<Rightarrow> TaskStatus \<Rightarrow> id option \<Rightarrow> jsonobj \<Rightarrow> vdb \<Rightarrow> vdb" where
  "with_event U now taskID task ty operator toStatus toHandler extra = add_event U now taskID ty (Some operator)
     (taskTransitionEventPayload task (T_TaskStatus task) toStatus (T_CurrentHandlerID task) toHandler extra)"

definition claimed :: "auditV7Service \<Rightarrow> time \<Rightarrow> ClaimAuditParams \<Rightarrow> Task \<Rightarrow> vdb \<Rightarrow> vdb" where
  "claimed s now p task d =
     with_event (S_uuid s) now (CA_TaskID p) task TaskEventAuditClaimed (CA_AuditorID p) (T_TaskStatus task)
       (Some (CA_AuditorID p))
       [(''auditor_id'', JNum (CA_AuditorID p)), (''stage'', JText (ars_string (CA_Stage p)))]
     (set_task_handler now (CA_TaskID p) (Some (CA_AuditorID p))
     (add_record now (audit_record (CA_TaskID p) (CA_Stage p) AuditActionTypeClaim (CA_AuditorID p) ''[]'' []) d))"

definition approved :: "auditV7Service \<Rightarrow> time \<Rightarrow> ApproveAuditParams \<Rightarrow> Task \<Rightarrow> vdb \<Rightarrow> vdb" where
  "approved s now p task d =
     (let needOutsource = (AP_NextStatus p = TaskStatusPendingOutsource);
          d = add_record now ((audit_record (AP_TaskID p) (AP_Stage p) AuditActionTypeApprove (AP_AuditorID p)
                (issueTypesToJSON (AP_IssueTypes p)) (AP_Comment p))\<lparr>AR2_NeedOutsource := needOutsource\<rparr>) d;
          d = set_task_status now (AP_TaskID p) (AP_NextStatus p) d;
          d = (if needOutsource then set_need_outsource now (AP_TaskID p) True d else d);
          d = set_task_handler now (AP_TaskID p) None d;
          d = (if AP_NextStatus p = TaskStatusPendingWarehouseReceive \<and> S_assetFlowRepo s
               then approve_versions (AP_TaskID p) (AP_AuditorID p) now d else d)
      in with_event (S_uuid s) now (AP_TaskID p) task TaskEventAuditApproved (AP_AuditorID p) (AP_NextStatus p) None
        ([(''auditor_id'', JNum (AP_AuditorID p)), (''stage'', JText (ars_string (AP_Stage p))),
          (''next_status'', JText (ts_string (AP_NextStatus p))), (''comment'', JText (AP_Comment p)),
          (''need_outsource'', JFlag needOutsource)] @
         replacement_extra (AP_AuditorID p) (AP_ReplacementAssetID p) (AP_PreviousAssetID p)
           (AP_ReplacementNote p)) d)"

definition rejected :: "auditV7Service \<Rightarrow> time \<Rightarrow> RejectAuditParams \<Rightarrow> Task \<Rightarrow> TaskStatus \<Rightarrow> vdb \<Rightarrow> vdb" where
  "rejected s now p task nextStatus d =
     (let d = add_record now ((audit_record (RJ_TaskID p) (RJ_Stage p) AuditActionTypeReject (RJ_AuditorID p)
                (issueTypesToJSON (RJ_IssueTypes p)) (RJ_Comment p))\<lparr>AR2_AffectsLaunch := RJ_AffectsLaunch p\<rparr>) d;
          d = set_task_status now (RJ_TaskID p) nextStatus d;
          d = set_task_handler now (RJ_TaskID p) (T_DesignerID task) d;
          d = (if S_assetFlowRepo s then reject_versions (RJ_TaskID p) (RJ_AuditorID p) now d else d)
      in with_event (S_uuid s) now (RJ_TaskID p) task TaskEventAuditRejected (RJ_AuditorID p) nextStatus
        (T_DesignerID task)
        ([(''auditor_id'', JNum (RJ_AuditorID p)), (''stage'', JText (ars_string (RJ_Stage p))),
          (''next_status'', JText (ts_string nextStatus)), (''comment'', JText (RJ_Comment p)),
          (''affects_launch'', JFlag (RJ_AffectsLaunch p)), (''designer_id'', jopt (T_DesignerID task))] @
         replacement_extra (RJ_AuditorID p) (RJ_ReplacementAssetID p) (RJ_PreviousAssetID p)
           (RJ_ReplacementNote p)) d)"

definition transferred :: "auditV7Service \<Rightarrow> time \<Rightarrow> TransferAuditParams \<Rightarrow> Task \<Rightarrow> vdb \<Rightarrow> vdb" where
  "transferred s now p task d =
     with_event (S_uuid s) now (TR_TaskID p) task TaskEventAuditTransferred (TR_FromAuditorID p) (T_TaskStatus task)
       (Some (TR_ToAuditorID p))
       [(''from_auditor_id'', JNum (TR_FromAuditorID p)), (''to_auditor_id'', JNum (TR_ToAuditorID p)),
        (''stage'', JText (ars_string (TR_Stage p))), (''comment'', JText (TR_Comment p))]
     (set_task_handler now (TR_TaskID p) (Some (TR_ToAuditorID p))
     (add_record now (audit_record (TR_TaskID p) (TR_Stage p) AuditActionTypeTransfer (TR_FromAuditorID p)
        ''[]'' (TR_Comment p)) d))"

definition handed_over ::
  "auditV7Service \<Rightarrow> time \<Rightarrow> HandoverAuditParams \<Rightarrow> Task \<Rightarrow> AuditRecordStage \<Rightarrow> string \<Rightarrow> vdb \<Rightarrow> vdb" where
  "handed_over s now p task stage handoverNo d =
     with_event (S_uuid s) now (HO_TaskID p) task TaskEventAuditHandedOver (HO_FromAuditorID p) (T_TaskStatus task) None
       [(''handover_id'', JNum (next_handover d)), (''handover_no'', JText handoverNo),
        (''from_auditor_id'', JNum (HO_FromAuditorID p)), (''to_auditor_id'', JNum (HO_ToAuditorID p)),
        (''stage'', JText (ars_string stage)), (''reason'', JText (HO_Reason p)),
        (''current_judgement'', JText (HO_CurrentJudgement p)), (''risk_remark'', JText (HO_RiskRemark p))]
     (set_task_handler now (HO_TaskID p) None
     (add_record now (audit_record (HO_TaskID p) stage AuditActionTypeHandover (HO_FromAuditorID p) ''[]'' (HO_Reason p))
     (add_handover now (new_handover p handoverNo) d)))"

definition taken_over ::
  "auditV7Service \<Rightarrow> time \<Rightarrow> AuditHandover \<Rightarrow> id \<Rightarrow> Task \<Rightarrow> AuditRecordStage \<Rightarrow> vdb \<Rightarrow> vdb" where
  "taken_over s now handover auditorID task stage d =
     with_event (S_uuid s) now (AH_TaskID handover) task TaskEventAuditTakenOver auditorID (T_TaskStatus task)
       (Some auditorID)
       [(''handover_id'', JNum (AH_ID handover)), (''auditor_id'', JNum auditorID),
        (''stage'', JText (ars_string stage))]
     (add_record now (audit_record (AH_TaskID handover) stage AuditActionTypeTakeover auditorID ''[]'' [])
     (set_task_handler now (AH_TaskID handover) (Some auditorID)
     (set_handover_status now (AH_ID handover) HandoverStatusTakenOver d)))"

lemma transition_event_effect [effects]:
  "transition_event U now taskID task ty op st h x w = (Inr u, w') \<Longrightarrow>
   wdb w' = with_event U now taskID task ty op st h x (wdb w)"
  by (auto simp: transition_event_def with_event_def act_success dest!: taskEventRepo_Append_effect)

lemma Claim_tx_effect: "Claim_tx s now p task w = (Inr u, w') \<Longrightarrow> wdb w' = claimed s now p task (wdb w)"
  by (auto simp: Claim_tx_def claimed_def act_success dest!: effects)

lemma Approve_tx_effect: "Approve_tx s now p task w = (Inr u, w') \<Longrightarrow> wdb w' = approved s now p task (wdb w)"
  by (auto simp: Approve_tx_def approved_def act_success Let_def split: if_splits dest!: effects)

lemma Reject_tx_effect:
  "Reject_tx s now p task st w = (Inr u, w') \<Longrightarrow> wdb w' = rejected s now p task st (wdb w)"
  by (auto simp: Reject_tx_def rejected_def act_success Let_def split: if_splits dest!: effects)

lemma Transfer_tx_effect:
  "Transfer_tx s now p task w = (Inr u, w') \<Longrightarrow> wdb w' = transferred s now p task (wdb w)"
  by (auto simp: Transfer_tx_def transferred_def act_success dest!: effects)

lemma Handover_tx_effect:
  "Handover_tx s now p task st no w = (Inr i, w') \<Longrightarrow> wdb w' = handed_over s now p task st no (wdb w)"
  by (auto simp: Handover_tx_def handed_over_def act_success dest!: effects)

lemma Takeover_tx_effect:
  "Takeover_tx s now h (AH_ID h) a task st w = (Inr u, w') \<Longrightarrow> wdb w' = taken_over s now h a task st (wdb w)"
  by (auto simp: Takeover_tx_def taken_over_def act_success dest!: effects)

subsection \<open>What comes before the transaction\<close>

text \<open>\<open>reads m\<close>: \<open>m\<close> leaves the database alone. \<open>clean m\<close>: \<open>m\<close> leaves it alone when it fails.\<close>

definition reads :: "('d, 'e, 'a) act \<Rightarrow> bool" where
  "reads m \<longleftrightarrow> (\<forall>w. wdb (snd (m w)) = wdb w)"

definition clean :: "('d, 'e, 'a) act \<Rightarrow> bool" where
  "clean m \<longleftrightarrow> (\<forall>w e w'. m w = (Inl e, w') \<longrightarrow> wdb w' = wdb w)"

lemma readsD: "reads m \<Longrightarrow> m w = (r, w') \<Longrightarrow> wdb w' = wdb w"
  unfolding reads_def by (metis snd_conv)

lemma cleanD: "clean m \<Longrightarrow> m w = (Inl e, w') \<Longrightarrow> wdb w' = wdb w"
  by (simp add: clean_def)

named_theorems read_only \<open>actions that only read, and that are clean\<close>

lemma reads_basic [read_only]: "reads (ret x)" "reads (throw e)" "reads (query g)" "reads (check b c)"
  by (simp_all add: reads_def check_def)

lemma reads_bnd [read_only]: "reads m \<Longrightarrow> (\<And>x. reads (k x)) \<Longrightarrow> reads (bnd m k)"
proof -
  assume m: "reads m" and k: "\<And>x. reads (k x)"
  show ?thesis
    unfolding reads_def
  proof
    fix w show "wdb (snd (bnd m k w)) = wdb w"
      using m k by (cases "m w"; cases "fst (m w)") (auto simp: bnd_def reads_def dest: readsD [OF m])
  qed
qed

lemma snd_map_err [simp]: "snd (map_err f m w) = snd (m w)"
  by (simp add: map_err_def split: prod.splits sum.splits)

lemma reads_map_err [read_only]: "reads m \<Longrightarrow> reads (map_err h m)" "reads m' \<Longrightarrow> reads (infra_v m')"
  by (simp_all add: reads_def infra_v_def)

lemma reads_clean: "reads m \<Longrightarrow> clean m"
  by (auto simp: clean_def dest: readsD)

lemma clean_bind [read_only]:
  assumes m: "reads m" and k: "\<And>x. clean (k x)"
  shows "clean (bnd m k)"
  unfolding clean_def bnd_def
  by (auto split: prod.splits sum.splits dest: readsD [OF m]) (metis readsD [OF m] cleanD [OF k])

lemma clean_tx [read_only]: "clean (infra_v (RunInTx m))"
  by (auto simp: clean_def infra_v_def map_err_def dest: RunInTx_failure split: prod.splits sum.splits)

lemma clean_stop [read_only]: "clean (throw e)" "clean (ret x)"
  by (auto simp: clean_def ret_def throw_def)

lemma clean_then:
  assumes m: "clean m" and k: "\<And>x w. \<exists>y w'. k x w = (Inr y, w')"
  shows "clean (bnd m k)"
  unfolding clean_def bnd_def
proof (intro allI impI)
  fix w e w' assume "(case m w of (Inl e, w1) \<Rightarrow> (Inl e, w1) | (Inr x, w1) \<Rightarrow> k x w1) = (Inl e, w')"
  then show "wdb w' = wdb w"
    using k by (auto split: prod.splits sum.splits dest: cleanD [OF m]) (metis old.sum.distinct(2) prod.inject)
qed

lemma reads_getTask [read_only]: "reads (getTask i)"
proof -
  have "reads (taskRepo_GetByID i)"
    unfolding reads_def taskRepo_GetByID_def
    using modules_part.within_read [of "TaskRepo_GetByID i"] by (simp add: TaskRepo_GetByID_def prod_eq_iff)
  then show ?thesis by (auto simp: getTask_def intro!: read_only split: option.splits)
qed

lemma reads_lane_subjects: "(\<And>i. reads (getUser i)) \<Longrightarrow> reads (lane_subjects getUser lane seen subjects)"
  by (induction subjects arbitrary: seen) (auto intro!: read_only split: option.splits)

lemma reads_users [read_only]: "reads (userRepo_GetByID tab i)"
  by (simp add: userRepo_GetByID_def read_only)

lemma reads_lane_policy [read_only]: "reads (ensureAuditLanePolicy s ctxActor task subjects)"
  by (auto simp: ensureAuditLanePolicy_def ensureRequestActorLanePolicy_def scope_users_def
      resolveAuditLaneProfileForRequestActor_def Let_def
      intro!: read_only reads_lane_subjects split: option.splits)

lemma reads_no_pending [read_only]: "reads (ensureNoPendingHandover i)"
  by (simp add: ensureNoPendingHandover_def ListHandoversByTaskID_def read_only)

text \<open>The task after the authoriser: with the read model's ownership if the request has an actor.\<close>

definition task_seen :: "auditV7Service \<Rightarrow> RequestActor option \<Rightarrow> Task \<Rightarrow> Task" where
  "task_seen s ctxActor task = (if resolveTaskActionActor ctxActor = None then task
     else applyTaskReadModelOrgOwnership (S_catalog s) task)"

lemma task_seen_fields [simp]:
  "T_ID (task_seen s c t) = T_ID t" "T_TaskStatus (task_seen s c t) = T_TaskStatus t"
  "T_DesignerID (task_seen s c t) = T_DesignerID t" "T_CurrentHandlerID (task_seen s c t) = T_CurrentHandlerID t"
  by (simp_all add: task_seen_def)

text \<open>The gates of the authoriser for an action at a stage.\<close>

definition may_audit ::
  "auditV7Service \<Rightarrow> RequestActor option \<Rightarrow> TaskAction \<Rightarrow> Task \<Rightarrow> AuditRecordStage \<Rightarrow> bool" where
  "may_audit s ctxActor a task stage \<longleftrightarrow> (case resolveTaskActionActor ctxActor of
       None \<Rightarrow> True
     | Some actor \<Rightarrow>
         let (ra, code) = resolveTaskAction a (Some task) stage; rule = taskActionRuleFor ra;
             seen = applyTaskReadModelOrgOwnership (S_catalog s) task
         in code = [] \<and> ActorHasAnyRole (AA_Roles actor) (AR_RequiredRoles rule) \<and>
            (AR_AllowedStatuses rule = [] \<or> T_TaskStatus task \<in> set (AR_AllowedStatuses rule)) \<and>
            may_write actor rule ra seen (T_OwnerDepartment seen) (T_OwnerOrgTeam seen))"

lemma authorize_run:
  assumes "a \<noteq> TaskActionReadDetail"
  shows "\<exists>r. authorize s ctxActor a task stage w = (r, w) \<and>
    (\<forall>t. r = Inr t \<longrightarrow> t = task_seen s ctxActor task \<and> may_audit s ctxActor a task stage)"
proof (cases "resolveTaskActionActor ctxActor")
  case None
  then show ?thesis
    by (simp add: authorize_def AuthorizeTaskActionWithAttributes_def bnd_def ret_def task_seen_def
        EvaluateTaskActionPolicyWithAttributes_def may_audit_def)
next
  case (Some actor)
  obtain ra code where res: "resolveTaskAction a (Some task) stage = (ra, code)" by fastforce
  let ?rule = "taskActionRuleFor ra" and ?seen = "applyTaskReadModelOrgOwnership (S_catalog s) task"
  have gates: "may_audit s ctxActor a task stage \<longleftrightarrow>
      code = [] \<and> ActorHasAnyRole (AA_Roles actor) (AR_RequiredRoles ?rule) \<and>
      (AR_AllowedStatuses ?rule = [] \<or> T_TaskStatus task \<in> set (AR_AllowedStatuses ?rule)) \<and>
      may_write actor ?rule ra ?seen (T_OwnerDepartment ?seen) (T_OwnerOrgTeam ?seen)"
    by (simp add: may_audit_def Some res Let_def)
  obtain d where "EvaluateTaskActionPolicyWithAttributes (S_catalog s) (S_dataScopeResolver s) (scope_users s)
      ctxActor a (Some task) [] [] stage w = (Inr d :: ErrCode + TaskActionDecision, w)"
    and "D_Allowed d \<longleftrightarrow> may_audit s ctxActor a task stage"
    by (rule Evaluate_write [OF Some res assms, of "S_catalog s" "S_dataScopeResolver s" "scope_users s" w])
      (simp add: gates)
  then show ?thesis
    by (simp add: authorize_def AuthorizeTaskActionWithAttributes_def bnd_def ret_def throw_def task_seen_def Some)
qed

lemma authorize_success:
  "authorize s ctxActor a task stage w = (Inr t, w') \<Longrightarrow> a \<noteq> TaskActionReadDetail \<Longrightarrow>
   w' = w \<and> t = task_seen s ctxActor task \<and> may_audit s ctxActor a task stage"
  using authorize_run [of a s ctxActor task stage w] by auto

lemma reads_authorize [read_only]: "a \<noteq> TaskActionReadDetail \<Longrightarrow> reads (authorize s ctxActor a task stage)"
  unfolding reads_def using authorize_run by (metis snd_conv)

lemma getTask_success:
  assumes "getTask i w = (Inr task, w')"
  shows "v_task (wdb w) i = Some task \<and> wdb w' = wdb w"
proof -
  obtain r where "taskRepo_GetByID i w = (Inr r, w')" and r: "r = Some task"
    using assms unfolding getTask_def infra_v_def bnd_eq_Inr map_err_eq_Inr
    by (auto split: option.splits)
  then show ?thesis
    by (auto simp: taskRepo_GetByID_def within_success TaskRepo_GetByID_def v_task_def put_modules_def
        dest!: query_success)
qed

lemma no_pending_success: "ensureNoPendingHandover i w = (Inr u, w') \<Longrightarrow>
  no_pending_handover (wdb w) i \<and> wdb w' = wdb w"
proof -
  assume "ensureNoPendingHandover i w = (Inr u, w')"
  then obtain hs where "query (\<lambda>d. handovers_of_task d i) w = (Inr hs, w')"
      "list_all (\<lambda>h. AH_Status h \<noteq> HandoverStatusPendingTakeover) hs"
    unfolding ensureNoPendingHandover_def infra_v_def ListHandoversByTaskID_def bnd_eq_Inr map_err_eq_Inr
    by (auto simp: check_def simp del: list_all_iff split: if_splits)
  then show ?thesis by (auto simp: no_pending_handover_def dest: query_success)
qed

lemma check_success [act_success]: "check b c w = (Inr u, w') \<longleftrightarrow> b \<and> w' = w"
  by (auto simp: check_def)

text \<open>What a name or a team says about the lane.\<close>

definition named_for :: "User \<Rightarrow> string \<Rightarrow> bool" where
  "named_for u lane \<longleftrightarrow>
     (let names = [TrimSpace (U_DisplayName u), TrimSpace (U_Username u)]; team = TrimSpace (U_Team u)
      in if auditLanePinnedNormalAuditorName \<in> set names then lane = TaskBusinessLaneNormal
         else if auditLanePinnedCustomizationAuditorName \<in> set names then lane = TaskBusinessLaneCustomization
         else if Contains team team_fragment_custom then lane = TaskBusinessLaneCustomization
         else lane = TaskBusinessLaneNormal \<and> (Contains team team_fragment_plain \<or>
           Contains team team_fragment_regular \<or> Contains team team_fragment_design_audit))"

lemma profile_without_roles: "profile_allows (profile_of_row u []) lane \<Longrightarrow> named_for u lane"
  by (auto simp: profile_of_row_def buildAuditLaneProfileFromUser_def named_for_def profile_allows_def
      profile_allow_def hasAnyRoleValue_iff Let_def split: if_splits)

definition user_row :: "vdb \<Rightarrow> id \<Rightarrow> User option" where
  "user_row d i = map_option scanUser (List.find (\<lambda>u. U_ID u = i) (v_users d))"

definition task_lane :: "Task \<Rightarrow> string" where
  "task_lane task = NormalizeTaskBusinessLane (T_BusinessLane task) (T_CustomizationRequired task)"

definition named_ok :: "vdb \<Rightarrow> string \<Rightarrow> id \<Rightarrow> bool" where
  "named_ok d lane i \<longleftrightarrow> i \<le> 0 \<or> (\<exists>user. user_row d i = Some user \<and> named_for user lane)"

lemma lane_subjects_named:
  assumes "lane_subjects (userRepo_GetByID v_users) lane seen subjects w = (Inr u, w')"
    and "\<And>i. i \<in> set seen \<Longrightarrow> named_ok (wdb w) lane i"
  shows "\<forall>i \<in> set subjects. named_ok (wdb w) lane i"
  using assms
proof (induction subjects arbitrary: seen w)
  case (Cons i subjects)
  show ?case
  proof (cases "i \<le> 0 \<or> i \<in> set seen")
    case True
    then have "named_ok (wdb w) lane i" using Cons.prems(2) by (auto simp: named_ok_def)
    then show ?thesis using True Cons.IH [of seen w] Cons.prems by auto
  next
    case False
    then obtain user w1 where q: "userRepo_GetByID v_users i w = (Inr (Some user), w1)"
      and allowed: "profile_allows (profile_of_row user []) lane"
      and rest: "lane_subjects (userRepo_GetByID v_users) lane (i # seen) subjects w1 = (Inr u, w')"
      using Cons.prems(1) unfolding lane_subjects.simps infra_v_def
      by (auto simp: act_success split: option.splits if_splits)
    have row: "user_row (wdb w) i = Some user" and db: "wdb w1 = wdb w"
      using query_success [OF q [unfolded userRepo_GetByID_def]] by (simp_all add: user_row_def)
    have i: "named_ok (wdb w) lane i"
      using row profile_without_roles [OF allowed] by (auto simp: named_ok_def)
    show ?thesis using i db Cons.IH [OF rest] Cons.prems(2) by auto
  qed
qed simp

text \<open>What the policy asks of the actor, whose roles do count, and of the people the request names.\<close>

definition stands_for :: "string \<Rightarrow> string \<Rightarrow> string \<Rightarrow> string list \<Rightarrow> string \<Rightarrow> bool" where
  "stands_for username displayName team0 roles lane \<longleftrightarrow>
     (let names = [TrimSpace displayName, TrimSpace username]; team = TrimSpace team0
      in if auditLanePinnedNormalAuditorName \<in> set names then lane = TaskBusinessLaneNormal
         else if auditLanePinnedCustomizationAuditorName \<in> set names then lane = TaskBusinessLaneCustomization
         else lane = TaskBusinessLaneCustomization \<and> (Contains team team_fragment_custom \<or>
                hasAnyRoleValue roles [RoleCustomizationOperator, RoleCustomizationReviewer]) \<or>
              lane = TaskBusinessLaneNormal \<and> (\<not> Contains team team_fragment_custom \<and>
                (Contains team team_fragment_plain \<or> Contains team team_fragment_regular \<or>
                 Contains team team_fragment_design_audit) \<or>
                hasAnyRoleValue roles [RoleAuditA, RoleAuditB, RoleDesignReviewer]))"

lemma profile_stands_for:
  "profile_allows (buildAuditLaneProfileFromUser i username displayName team roles) lane \<Longrightarrow>
   stands_for username displayName team roles lane"
  by (auto simp: buildAuditLaneProfileFromUser_def stands_for_def profile_allows_def profile_allow_def Let_def
      split: if_splits)

definition actor_lane :: "auditV7Service \<Rightarrow> vdb \<Rightarrow> RequestActor \<Rightarrow> string \<Rightarrow> bool" where
  "actor_lane s d actor lane \<longleftrightarrow> (case if S_scopeUserRepo s then user_row d (RA_ID actor) else None of
       None \<Rightarrow> stands_for (RA_Username actor) (RA_Username actor) (RA_Team actor) (RA_Roles actor) lane
     | Some u \<Rightarrow> stands_for (U_Username u) (U_DisplayName u) (U_Team u) (RA_Roles actor) lane)"

definition lane_gate :: "auditV7Service \<Rightarrow> RequestActor option \<Rightarrow> vdb \<Rightarrow> Task \<Rightarrow> id list \<Rightarrow> bool" where
  "lane_gate s ctxActor d task people \<longleftrightarrow>
     (case ctxActor of None \<Rightarrow> True | Some actor \<Rightarrow> RA_ID actor \<le> 0 \<or> actor_lane s d actor (task_lane task)) \<and>
     (S_scopeUserRepo s \<longrightarrow> (\<forall>i \<in> set people. named_ok d (task_lane task) i))"

lemma actor_profile:
  assumes "resolveAuditLaneProfileForRequestActor s actor w = (Inr profile, w')" and "profile_allows profile lane"
  shows "actor_lane s (wdb w) actor lane"
proof -
  let ?pseudo = "buildAuditLaneProfileFromUser (RA_ID actor) (TrimSpace (RA_Username actor))
        (TrimSpace (RA_Username actor)) (TrimSpace (RA_Team actor)) (RA_Roles actor)"
  have pseudo: "stands_for (RA_Username actor) (RA_Username actor) (RA_Team actor) (RA_Roles actor) lane"
    if "profile = ?pseudo"
    using profile_stands_for [OF assms(2) [unfolded that]] by (simp add: stands_for_def)
  show ?thesis
  proof (cases "S_scopeUserRepo s")
    case True
    then obtain r w1 where q: "userRepo_GetByID v_users (RA_ID actor) w = (Inr r, w1)"
      and k: "((case r of None \<Rightarrow> ret ?pseudo | Some user \<Rightarrow> ret (profile_of_row user (RA_Roles actor))) :: auditLaneProfile vop)
        w1 = (Inr profile, w')"
      using assms(1) by (auto simp: resolveAuditLaneProfileForRequestActor_def scope_users_def infra_v_def bnd_eq_Inr
          map_err_eq_Inr Let_def)
    have r: "r = user_row (wdb w) (RA_ID actor)"
      using query_success [OF q [unfolded userRepo_GetByID_def]] by (simp add: user_row_def)
    show ?thesis
    proof (cases r)
      case None
      then show ?thesis using k pseudo r True by (simp add: actor_lane_def ret_def)
    next
      case (Some user)
      then have "profile = profile_of_row user (RA_Roles actor)" using k by (simp add: ret_def)
      then show ?thesis
        using profile_stands_for assms(2) Some r True by (auto simp: actor_lane_def profile_of_row_def)
    qed
  next
    case False
    then show ?thesis
      using assms(1) pseudo by (simp add: actor_lane_def resolveAuditLaneProfileForRequestActor_def scope_users_def
          ret_def Let_def)
  qed
qed

lemma lane_policy_success:
  assumes "ensureAuditLanePolicy s c task people w = (Inr u, w')"
  shows "lane_gate s c (wdb w) task people \<and> wdb w' = wdb w"
proof -
  obtain w1 where actor: "ensureRequestActorLanePolicy s c (task_lane task) w = (Inr (), w1)"
    and people: "S_scopeUserRepo s \<Longrightarrow>
      lane_subjects (userRepo_GetByID v_users) (task_lane task) [] people w1 = (Inr u, w')"
    using assms by (cases "S_scopeUserRepo s")
      (auto simp: ensureAuditLanePolicy_def task_lane_def bnd_eq_Inr scope_users_def Let_def)
  have "reads (ensureRequestActorLanePolicy s c (task_lane task))"
    by (auto simp: ensureRequestActorLanePolicy_def scope_users_def resolveAuditLaneProfileForRequestActor_def
        Let_def intro!: read_only split: option.splits)
  then have db: "wdb w1 = wdb w" using actor by (rule readsD)
  have "case c of None \<Rightarrow> True | Some a \<Rightarrow> RA_ID a \<le> 0 \<or> actor_lane s (wdb w) a (task_lane task)"
    using actor by (auto simp: ensureRequestActorLanePolicy_def bnd_eq_Inr check_success
        dest: actor_profile split: option.splits if_splits)
  then show ?thesis
    using db readsD [OF reads_lane_policy assms] lane_subjects_named [OF people] by (auto simp: lane_gate_def)
qed

lemma tx_success: "infra_v (RunInTx m) w = (Inr x, w') \<Longrightarrow>
   \<exists>w1 w2. wdb w1 = wdb w \<and> m w1 = (Inr x, w2) \<and> wdb w' = wdb w2"
  unfolding infra_v_def map_err_eq_Inr by (rule RunInTx_success)

lemmas op_steps = getTask_success lane_policy_success authorize_success no_pending_success tx_success

subsection \<open>What the operations do\<close>

text \<open>
  The specification of an operation that returns, as a relation between the databases before and
  after it: the authoriser, the policy of the lane and the checks of status and handovers that held for
  the rows it read, and the effect on the tables.
\<close>

datatype audit_call = CallClaim ClaimAuditParams | CallApprove ApproveAuditParams
  | CallReject RejectAuditParams | CallTransfer TransferAuditParams | CallHandover HandoverAuditParams
  | CallTakeover id id id

definition run_call :: "auditV7Service \<Rightarrow> time \<Rightarrow> RequestActor option \<Rightarrow> audit_call \<Rightarrow> unit vop" where
  "run_call s now ctxActor call = (case call of
       CallClaim p \<Rightarrow> Claim s now ctxActor p
     | CallApprove p \<Rightarrow> Approve s now ctxActor p
     | CallReject p \<Rightarrow> Reject s now ctxActor p
     | CallTransfer p \<Rightarrow> Transfer s now ctxActor p
     | CallHandover p \<Rightarrow> bnd (Handover s now ctxActor p) (\<lambda>_. ret ())
     | CallTakeover taskID handoverID auditorID \<Rightarrow> Takeover s now ctxActor taskID handoverID auditorID)"

definition call_spec ::
  "auditV7Service \<Rightarrow> time \<Rightarrow> RequestActor option \<Rightarrow> audit_call \<Rightarrow> vdb \<Rightarrow> vdb \<Rightarrow> bool" where
  "call_spec s now ctxActor call d d' \<longleftrightarrow> (case call of
       CallClaim p \<Rightarrow> (\<exists>task. v_task d (CA_TaskID p) = Some task \<and>
         may_audit s ctxActor TaskActionAuditClaim task (CA_Stage p) \<and> lane_gate s ctxActor d task [CA_AuditorID p] \<and>
         isClaimableStatus (T_TaskStatus task) (CA_Stage p) \<and> no_pending_handover d (CA_TaskID p) \<and>
         d' = claimed s now p (task_seen s ctxActor task) d)
     | CallApprove p \<Rightarrow> (\<exists>task. v_task d (AP_TaskID p) = Some task \<and>
         may_audit s ctxActor TaskActionAuditApprove task (AP_Stage p) \<and> lane_gate s ctxActor d task [AP_AuditorID p] \<and>
         isClaimableStatus (T_TaskStatus task) (AP_Stage p) \<and>
         validApproveTransition (T_TaskStatus task) (AP_NextStatus p) \<and> no_pending_handover d (AP_TaskID p) \<and>
         d' = approved s now p (task_seen s ctxActor task) d)
     | CallReject p \<Rightarrow> (\<exists>task nextStatus. v_task d (RJ_TaskID p) = Some task \<and>
         may_audit s ctxActor TaskActionAuditReject task (RJ_Stage p) \<and> lane_gate s ctxActor d task [RJ_AuditorID p] \<and>
         isClaimableStatus (T_TaskStatus task) (RJ_Stage p) \<and> rejectedStatusForStage (RJ_Stage p) = Some nextStatus \<and>
         no_pending_handover d (RJ_TaskID p) \<and> d' = rejected s now p (task_seen s ctxActor task) nextStatus d)
     | CallTransfer p \<Rightarrow> (\<exists>task. v_task d (TR_TaskID p) = Some task \<and>
         may_audit s ctxActor TaskActionAuditTransfer task (TR_Stage p) \<and> lane_gate s ctxActor d task [TR_FromAuditorID p, TR_ToAuditorID p] \<and>
         activeAuditStageFromStatus (T_TaskStatus task) = Some (TR_Stage p) \<and> no_pending_handover d (TR_TaskID p) \<and>
         d' = transferred s now p (task_seen s ctxActor task) d)
     | CallHandover p \<Rightarrow> (\<exists>task stage c no. v_task d (HO_TaskID p) = Some task \<and>
         activeAuditStageFromStatus (T_TaskStatus task) = Some stage \<and>
         may_audit s ctxActor TaskActionAuditHandover task stage \<and>
         lane_gate s ctxActor d task [HO_FromAuditorID p, HO_ToAuditorID p] \<and> no_pending_handover d (HO_TaskID p) \<and>
         HO_FromAuditorID p \<noteq> HO_ToAuditorID p \<and>
         d' = handed_over s now p (task_seen s ctxActor task) stage no (put_codes c d))
     | CallTakeover taskID handoverID auditorID \<Rightarrow> (\<exists>task stage h. handover_row d handoverID = Some h \<and>
         AH_TaskID h = taskID \<and> AH_ToAuditorID h = auditorID \<and> AH_Status h = HandoverStatusPendingTakeover \<and>
         v_task d taskID = Some task \<and> may_audit s ctxActor TaskActionAuditTakeover task no_stage \<and>
         lane_gate s ctxActor d task [AH_FromAuditorID h, AH_ToAuditorID h, auditorID] \<and>
         activeAuditStageFromStatus (T_TaskStatus task) = Some stage \<and>
         d' = taken_over s now h auditorID (task_seen s ctxActor task) stage d))"

lemma Claim_success:
  "Claim s now c p w = (Inr u, w') \<Longrightarrow> call_spec s now c (CallClaim p) (wdb w) (wdb w')"
  by (fastforce simp: Claim_def call_spec_def act_success dest!: op_steps Claim_tx_effect)

lemma audit_Approve_success:
  "Approve s now c p w = (Inr u, w') \<Longrightarrow> \<exists>w1. call_spec s now c (CallApprove p) (wdb w) (wdb w1) \<and>
   (w' = w1 \<or> (\<exists>trigger. S_filingTrigger s = Some trigger \<and> isFinalDesignAuditApproval (AP_NextStatus p) \<and>
      w' = snd (trigger (AP_TaskID p) (AP_AuditorID p) (AP_Comment p) w1)))"
  by (fastforce simp: Approve_def call_spec_def act_success ignore_err_def ret_def
      split: option.splits if_splits dest!: op_steps Approve_tx_effect)

lemma Reject_success:
  "Reject s now c p w = (Inr u, w') \<Longrightarrow> call_spec s now c (CallReject p) (wdb w) (wdb w')"
  by (fastforce simp: Reject_def call_spec_def act_success split: option.splits dest!: op_steps Reject_tx_effect)

lemma Transfer_success:
  "Transfer s now c p w = (Inr u, w') \<Longrightarrow> call_spec s now c (CallTransfer p) (wdb w) (wdb w')"
  by (fastforce simp: Transfer_def call_spec_def act_success dest!: op_steps Transfer_tx_effect)

lemma generate_moves_codes: "codeRuleSvc_GenerateCode f ty w = (r, w') \<Longrightarrow> \<exists>c. wdb w' = put_codes c (wdb w)"
  by (auto simp: codeRuleSvc_GenerateCode_def within_def split: prod.splits)

lemma Handover_success:
  "Handover s now c p w = (Inr h, w') \<Longrightarrow> call_spec s now c (CallHandover p) (wdb w) (wdb w')"
  by (fastforce simp: Handover_def call_spec_def act_success split: option.splits
      dest!: op_steps generate_moves_codes Handover_tx_effect)

lemma Takeover_success:
  assumes "Takeover s now c taskID hID a w = (Inr u, w')"
  shows "call_spec s now c (CallTakeover taskID hID a) (wdb w) (wdb w')"
proof -
  obtain h w1 where q: "GetHandoverByID hID w = (Inr (Some h), w1)"
    and rest: "AH_TaskID h = taskID" "AH_ToAuditorID h = a" "AH_Status h = HandoverStatusPendingTakeover"
    and run: "bnd (getTask (AH_TaskID h)) (\<lambda>task0.
        bnd (ensureAuditLanePolicy s c task0 [AH_FromAuditorID h, AH_ToAuditorID h, a]) (\<lambda>_.
        bnd (authorize s c TaskActionAuditTakeover task0 no_stage) (\<lambda>task.
        case activeAuditStageFromStatus (T_TaskStatus task) of
          None \<Rightarrow> throw ErrCodeInvalidStateTransition
        | Some stage \<Rightarrow> infra_v (RunInTx (Takeover_tx s now h hID a task stage))))) w1 = (Inr u, w')"
    using assms by (auto simp: Takeover_def act_success infra_v_def split: option.splits)
  have h: "handover_row (wdb w) hID = Some h" "AH_ID h = hID" "wdb w1 = wdb w"
    using q by (auto simp: GetHandoverByID_def dest!: query_success)
      (auto simp: handover_row_def dest: find_SomeD [OF sym])
  then show ?thesis
    using run rest by (fastforce simp: call_spec_def act_success split: option.splits
        dest!: op_steps Takeover_tx_effect)
qed

lemma calls_clean:
  "clean (Claim s now c p1)" "clean (Approve s now c p2)" "clean (Reject s now c p3)"
  "clean (Transfer s now c p4)" "clean (Takeover s now c i j k)"
proof -
  have trigger: "\<exists>y w'. (case S_filingTrigger s of
       Some trigger \<Rightarrow> if isFinalDesignAuditApproval (AP_NextStatus p2)
         then ignore_err (trigger (AP_TaskID p2) (AP_AuditorID p2) (AP_Comment p2)) else ret ()
     | None \<Rightarrow> ret ()) w = (Inr y, w')" for w :: "vdb world"
    by (auto simp: ignore_err_def ret_def split: option.splits)
  show "clean (Claim s now c p1)" unfolding Claim_def by (intro read_only allI) simp
  show "clean (Approve s now c p2)"
    unfolding Approve_def by (intro read_only allI clean_then [OF clean_tx] trigger) simp
  show "clean (Reject s now c p3)"
    unfolding Reject_def by (intro read_only allI) (auto intro!: read_only split: option.splits)
  show "clean (Transfer s now c p4)" unfolding Transfer_def by (intro read_only allI) simp
  show "clean (Takeover s now c i j k)"
    unfolding Takeover_def by (auto intro!: read_only simp: GetHandoverByID_def split: option.splits)
qed

lemmas call_failures = calls_clean [THEN cleanD]

text \<open>A handover that fails may have used up a number.\<close>

definition only_codes :: "vdb \<Rightarrow> vdb \<Rightarrow> bool" where
  "only_codes d d' \<longleftrightarrow> (\<exists>codes. d' = put_codes codes d)"

definition fails_softly :: "(vdb, 'e, 'a) act \<Rightarrow> bool" where
  "fails_softly m \<longleftrightarrow> (\<forall>w e w'. m w = (Inl e, w') \<longrightarrow> only_codes (wdb w) (wdb w'))"

lemma only_codes_refl [simp]: "only_codes d d"
  unfolding only_codes_def using codes_part.put_get [of d] by metis

lemma clean_softly: "clean m \<Longrightarrow> fails_softly m"
  by (auto simp: fails_softly_def dest: cleanD)

lemma softly_bnd: "reads m \<Longrightarrow> (\<And>x. fails_softly (k x)) \<Longrightarrow> fails_softly (bnd m k)"
  unfolding fails_softly_def bnd_def by (auto split: prod.splits sum.splits dest: readsD) (metis readsD)

lemma softly_generate:
  assumes "\<And>x. clean (k x)"
  shows "fails_softly (bnd (codeRuleSvc_GenerateCode f ty) k)"
  unfolding fails_softly_def bnd_def
  by (auto split: prod.splits sum.splits simp: only_codes_def dest: generate_moves_codes)
    (metis cleanD [OF assms] generate_moves_codes)

lemma Handover_failure: "fails_softly (Handover s now c p)"
proof -
  have tx: "clean (bnd (infra_v (RunInTx m)) (\<lambda>newID. ret (g newID)))" for m :: "id vact" and g :: "id \<Rightarrow> AuditHandover"
    by (rule clean_then [OF clean_tx]) (simp add: ret_def)
  show ?thesis
    unfolding Handover_def
    by (auto intro!: softly_bnd read_only softly_generate tx clean_softly [OF clean_stop(1)] split: option.splits)
qed

lemma call_failure:
  assumes run: "run_call s now ctxActor call w = (Inl e, w')"
  shows "if (\<exists>p. call = CallHandover p) then only_codes (wdb w) (wdb w') else wdb w' = wdb w"
proof (cases call)
  case (CallHandover p)
  then have "Handover s now ctxActor p w = (Inl e, w')"
    using run by (auto simp: run_call_def bnd_def ret_def split: prod.splits sum.splits)
  then show ?thesis using CallHandover Handover_failure by (auto simp: fails_softly_def)
qed (use run in \<open>auto simp: run_call_def dest: call_failures\<close>)

lemma call_failure_codes: "run_call s now ctxActor call w = (Inl e, w') \<Longrightarrow> only_codes (wdb w) (wdb w')"
  using call_failure [of s now ctxActor call w e w'] by (auto split: if_splits)

lemma call_return:
  assumes run: "run_call s now ctxActor call w = (Inr u, w')"
  shows "\<exists>w1. call_spec s now ctxActor call (wdb w) (wdb w1) \<and>
    (wdb w' = wdb w1 \<or> (\<exists>p trigger. call = CallApprove p \<and> S_filingTrigger s = Some trigger \<and>
       isFinalDesignAuditApproval (AP_NextStatus p) \<and>
       w' = snd (trigger (AP_TaskID p) (AP_AuditorID p) (AP_Comment p) w1)))"
proof (cases call)
  case (CallApprove p)
  with run audit_Approve_success [of s now ctxActor p w u w'] show ?thesis by (auto simp: run_call_def)
next
  case (CallHandover p)
  then obtain h where "Handover s now ctxActor p w = (Inr h, w')"
    using run by (auto simp: run_call_def act_success)
  then show ?thesis using CallHandover Handover_success by fastforce
qed (use run in \<open>auto simp: run_call_def dest: Claim_success Reject_success Transfer_success Takeover_success\<close>)

text \<open>
  (C4) A call of the audit service, whatever statements fail, changes nothing unless it returns, except
  that a failed handover may use up a handover number. A call that returns has passed the authoriser, the
  policy of the task's lane for the actor and for everybody it names, and the checks of status and pending
  handovers, on the rows it read; and it has exactly its specified effect on record, task, asset versions,
  handover and event, followed, for an approval that ends the design audit, by whatever the filing
  trigger does.
\<close>

theorem audit_call_all_or_nothing:
  "case run_call s now ctxActor call w of
     (Inl e, w') \<Rightarrow> if (\<exists>p. call = CallHandover p) then only_codes (wdb w) (wdb w') else wdb w' = wdb w
   | (Inr u, w') \<Rightarrow> \<exists>w1. call_spec s now ctxActor call (wdb w) (wdb w1) \<and>
       (wdb w' = wdb w1 \<or> (\<exists>p trigger. call = CallApprove p \<and> S_filingTrigger s = Some trigger \<and>
          isFinalDesignAuditApproval (AP_NextStatus p) \<and>
          w' = snd (trigger (AP_TaskID p) (AP_AuditorID p) (AP_Comment p) w1)))"
proof (cases "run_call s now ctxActor call w")
  case (Pair r w')
  then show ?thesis
    using call_failure [of s now ctxActor call w _ w'] call_return [of s now ctxActor call w _ w']
    by (cases r) simp_all
qed

subsection \<open>Handovers over many calls\<close>

definition pending_of :: "vdb \<Rightarrow> id \<Rightarrow> AuditHandover list" where
  "pending_of d taskID = filter (\<lambda>h. AH_TaskID h = taskID \<and> AH_Status h = HandoverStatusPendingTakeover)
     (audit_handovers d)"

definition handover_inv :: "vdb \<Rightarrow> bool" where
  "handover_inv d \<longleftrightarrow> events_numbered d \<and> distinct (map AH_ID (audit_handovers d)) \<and>
     list_all (\<lambda>h. AH_ID h < next_handover d) (audit_handovers d) \<and> (\<forall>t. length (pending_of d t) \<le> 1)"

lemma no_pending_iff: "no_pending_handover d t \<longleftrightarrow> pending_of d t = []"
  by (auto simp: no_pending_handover_def pending_of_def handovers_of_task_def list_all_iff filter_empty_conv)

definition same_handovers :: "vdb \<Rightarrow> vdb \<Rightarrow> bool" where
  "same_handovers d d' \<longleftrightarrow> audit_handovers d' = audit_handovers d \<and> next_handover d' = next_handover d \<and>
     (events_numbered d \<longrightarrow> events_numbered d')"

lemma same_handovers_inv: "same_handovers d d' \<Longrightarrow> handover_inv d \<Longrightarrow> handover_inv d'"
  by (simp add: same_handovers_def handover_inv_def pending_of_def)

lemma frame_steps [simp]:
  "audit_handovers (add_record now r d) = audit_handovers d" "next_handover (add_record now r d) = next_handover d"
  "audit_handovers (set_task_status now i st d) = audit_handovers d"
  "next_handover (set_task_status now i st d) = next_handover d"
  "audit_handovers (set_task_handler now i h d) = audit_handovers d"
  "next_handover (set_task_handler now i h d) = next_handover d"
  "audit_handovers (set_need_outsource now i b d) = audit_handovers d"
  "next_handover (set_need_outsource now i b d) = next_handover d"
  "audit_handovers (approve_versions i a t d) = audit_handovers d"
  "next_handover (approve_versions i a t d) = next_handover d"
  "audit_handovers (reject_versions i a t d) = audit_handovers d"
  "next_handover (reject_versions i a t d) = next_handover d"
  "audit_handovers (put_codes c d) = audit_handovers d" "next_handover (put_codes c d) = next_handover d"
  "audit_handovers (with_event U now i task ty op st h x d) = audit_handovers d"
  "next_handover (with_event U now i task ty op st h x d) = next_handover d"
  by (simp_all add: effect_defs put_codes_def with_event_def)

lemma numbered_steps [simp]:
  "events_numbered (add_record now r d) = events_numbered d"
  "events_numbered (set_task_status now i st d) = events_numbered d"
  "events_numbered (set_task_handler now i h d) = events_numbered d"
  "events_numbered (set_need_outsource now i b d) = events_numbered d"
  "events_numbered (approve_versions i a t d) = events_numbered d"
  "events_numbered (reject_versions i a t d) = events_numbered d"
  "events_numbered (put_codes c d) = events_numbered d"
  "events_numbered (add_handover now ho d) = events_numbered d"
  "events_numbered (set_handover_status now i hs d) = events_numbered d"
  by (rule frame_numbered; simp add: effect_defs put_codes_def)+

lemma numbered_event [simp]: "events_numbered d \<Longrightarrow> events_numbered (with_event U now i task ty op st h x d)"
  by (simp add: with_event_def)

lemma same_calls:
  "same_handovers d (claimed s now p1 task d)" "same_handovers d (approved s now p2 task d)"
  "same_handovers d (rejected s now p3 task st d)" "same_handovers d (transferred s now p4 task d)"
  "same_handovers d (put_codes c d)"
  by (simp_all add: same_handovers_def claimed_def approved_def rejected_def transferred_def Let_def)

lemma handed_over_inv:
  assumes "handover_inv d" and "pending_of d (HO_TaskID p) = []"
  shows "handover_inv (handed_over s now p task st no d)"
proof -
  have "audit_handovers (handed_over s now p task st no d) = audit_handovers d @
      [(new_handover p no)\<lparr>AH_ID := next_handover d, AH_CreatedAt := now, AH_UpdatedAt := now\<rparr>]"
    "next_handover (handed_over s now p task st no d) = next_handover d + 1"
    by (simp_all add: handed_over_def add_handover_def)
  moreover have "events_numbered (handed_over s now p task st no d)"
    using assms(1) by (simp add: handed_over_def handover_inv_def)
  ultimately show ?thesis
    using assms by (auto simp: handover_inv_def pending_of_def list_all_iff new_handover_def)
qed

lemma taken_over_inv:
  assumes "handover_inv d"
  shows "handover_inv (taken_over s now h a task st d)"
proof -
  let ?f = "\<lambda>r. if AH_Status r = HandoverStatusTakenOver then r
      else r\<lparr>AH_Status := HandoverStatusTakenOver, AH_UpdatedAt := now\<rparr>"
  have hs: "audit_handovers (taken_over s now h a task st d) = row_upd (\<lambda>r. AH_ID r = AH_ID h) ?f (audit_handovers d)"
    "next_handover (taken_over s now h a task st d) = next_handover d"
    by (simp_all add: taken_over_def set_handover_status_def)
  have len: "length (filter (\<lambda>r. AH_TaskID r = t \<and> AH_Status r = HandoverStatusPendingTakeover) (row_upd P ?f rs)) \<le>
      length (filter (\<lambda>r. AH_TaskID r = t \<and> AH_Status r = HandoverStatusPendingTakeover) rs)" for P t rs
    by (induction rs) auto
  have "length (pending_of (taken_over s now h a task st d) t) \<le> length (pending_of d t)" for t
    unfolding pending_of_def hs by (rule len)
  note shorter = this
  have ids: "map AH_ID (row_upd P ?f rs) = map AH_ID rs" for P rs
    by (simp add: map_row_upd)
  have below: "list_all (\<lambda>r. AH_ID r < n) rs \<longleftrightarrow> list_all (\<lambda>i. i < n) (map AH_ID rs)" for n rs
    by (simp add: list_all_iff)
  show ?thesis
    unfolding handover_inv_def
  proof (intro conjI allI)
    show "events_numbered (taken_over s now h a task st d)"
      using assms by (simp add: taken_over_def handover_inv_def)
    show "distinct (map AH_ID (audit_handovers (taken_over s now h a task st d)))"
      and "list_all (\<lambda>r. AH_ID r < next_handover (taken_over s now h a task st d))
        (audit_handovers (taken_over s now h a task st d))"
      using assms unfolding hs below ids by (simp_all only: handover_inv_def below)
    show "length (pending_of (taken_over s now h a task st d) t) \<le> 1" for t
      using assms shorter [of t] order_trans by (fastforce simp: handover_inv_def)
  qed
qed

lemma call_spec_inv: "call_spec s now ctxActor call d d' \<Longrightarrow> handover_inv d \<Longrightarrow> handover_inv d'"
  using same_handovers_inv [OF same_calls(5)]
  by (cases call) (auto simp: call_spec_def no_pending_iff pending_of_def
      intro: same_handovers_inv [OF same_calls(1)] same_handovers_inv [OF same_calls(2)]
        same_handovers_inv [OF same_calls(3)] same_handovers_inv [OF same_calls(4)]
        taken_over_inv handed_over_inv)

text \<open>Calls of the service one after the other, each at its own time and for its own actor.\<close>

fun run_calls :: "auditV7Service \<Rightarrow> (time \<times> RequestActor option \<times> audit_call) list \<Rightarrow> vdb world \<Rightarrow> vdb world" where
  "run_calls s [] w = w"
| "run_calls s ((now, ctxActor, call) # calls) w = run_calls s calls (snd (run_call s now ctxActor call w))"

definition filing_keeps :: "auditV7Service \<Rightarrow> (vdb \<Rightarrow> bool) \<Rightarrow> bool" where
  "filing_keeps s I \<longleftrightarrow> (case S_filingTrigger s of None \<Rightarrow> True | Some trigger \<Rightarrow> \<forall>i a c. keeps I (trigger i a c))"

lemma run_call_inv:
  assumes "handover_inv (wdb w)" and "filing_keeps s handover_inv"
  shows "handover_inv (wdb (snd (run_call s now ctxActor call w)))"
proof (cases "run_call s now ctxActor call w")
  case (Pair r w')
  show ?thesis
  proof (cases r)
    case (Inl e)
    then obtain c where "wdb w' = put_codes c (wdb w)"
      using call_failure_codes [of s now ctxActor call w e w'] Pair by (auto simp: only_codes_def)
    then show ?thesis using Pair assms(1) same_handovers_inv [OF same_calls(5)] by simp
  next
    case (Inr u)
    then obtain w1 where w1: "call_spec s now ctxActor call (wdb w) (wdb w1)"
      and w': "wdb w' = wdb w1 \<or> (\<exists>trigger i a c. S_filingTrigger s = Some trigger \<and> w' = snd (trigger i a c w1))"
      using Pair call_return by blast
    then show ?thesis
      using Pair call_spec_inv [OF w1 assms(1)] assms(2) by (auto simp: filing_keeps_def keeps_def)
  qed
qed

text \<open>
  (C23) Over any sequence of calls, with any failures in between, no task ever has two handovers waiting to
  be taken over, and the events of every task are numbered 1, 2, 3, ... without a gap, provided the
  filing trigger keeps both.
\<close>

theorem one_handover_pending:
  assumes "handover_inv (wdb w)" and "filing_keeps s handover_inv"
  shows "length (pending_of (wdb (run_calls s calls w)) taskID) \<le> 1 \<and> events_numbered (wdb (run_calls s calls w))"
proof -
  have "handover_inv (wdb (run_calls s calls w))"
    using assms(1)
  proof (induction calls arbitrary: w)
    case (Cons c calls)
    then show ?case using run_call_inv assms(2) by (cases c) simp
  qed simp
  then show ?thesis by (simp add: handover_inv_def)
qed

definition demo_audit :: auditV7Service where
  "demo_audit = \<lparr>S_catalog = empty_catalog, S_dataScopeResolver = True, S_scopeUserRepo = False,
     S_assetFlowRepo = True, S_filingTrigger = Some (\<lambda>i a c. ret ()), S_fmtNow = (\<lambda>f. f), S_uuid = (\<lambda>n. [])\<rparr>"

lemma demo_vdb_inv: "handover_inv (demo_vdb task us)"
  by (auto simp: handover_inv_def demo_vdb_def events_numbered_def numbered_def last_task_seq_def pending_of_def)

theorem one_handover_pending_witness:
  "length (pending_of (wdb (run_calls demo_audit
      [(1, None, CallHandover \<lparr>HO_TaskID = 1, HO_FromAuditorID = 2, HO_ToAuditorID = 3, HO_Reason = [],
         HO_CurrentJudgement = [], HO_RiskRemark = []\<rparr>)] \<lparr>wdb = demo_vdb demo_audit_task [], faults = []\<rparr>)) 1) \<le> 1"
proof -
  have "filing_keeps demo_audit handover_inv" by (auto simp: filing_keeps_def demo_audit_def)
  then show ?thesis
    by (intro one_handover_pending [THEN conjunct1]) (simp_all add: demo_vdb_inv)
qed

subsection \<open>Issue types as JSON\<close>

definition plain_char :: "char \<Rightarrow> bool" where
  "plain_char c \<longleftrightarrow> 32 \<le> (of_char c :: nat) \<and> (of_char c :: nat) < 128 \<and> c \<noteq> qt \<and> c \<noteq> bsl"

lemma run_plain: "list_all plain_char t \<Longrightarrow> jrun (t @ r) (InString, st) = jrun r (InString, st)"
  by (induction t) (auto simp: plain_char_def jscan_def)

lemma run_quoted:
  assumes "list_all plain_char t" and "s = BeginValue \<or> s = BeginValueOrEmpty"
  shows "jrun (qt # t @ qt # r) (s, p # st) = jrun r (EndValue, p # st)"
proof -
  have "jscan qt (s, p # st) = Some (InString, p # st)"
    using assms(2) by (auto simp: jscan_def jbegin_def jspace_def)
  moreover have "jscan qt (InString, p # st) = Some (EndValue, p # st)"
    by (simp add: jscan_def jend_def)
  ultimately show ?thesis using run_plain [OF assms(1), of "qt # r" "p # st"] by simp
qed

lemma run_items:
  assumes "ts \<noteq> []" and "list_all (list_all plain_char) ts" and "s = BeginValue \<or> s = BeginValueOrEmpty"
  shows "jrun (issue_items ts @ r) (s, [ParseArrayValue]) = jrun r (EndValue, [ParseArrayValue])"
  using assms
proof (induction ts arbitrary: s rule: issue_items.induct)
  case (2 t)
  then show ?case using run_quoted [of t s r ParseArrayValue "[]"] by simp
next
  case (3 t u us)
  have "jscan (CHR '','') (EndValue, [ParseArrayValue]) = Some (BeginValue, [ParseArrayValue])"
    by (simp add: jscan_def jendvalue_def jspace_def)
  then show ?case using 3 run_quoted [of t s _ ParseArrayValue "[]"] by simp
qed simp

lemma unquote_plain:
  "list_all plain_char t \<Longrightarrow> length t < n \<Longrightarrow> unquote n (t @ qt # r) = Some (t, r)"
proof (induction t arbitrary: n)
  case Nil
  then show ?case by (cases n) auto
next
  case (Cons c t)
  then obtain m where n: "n = Suc m" and m: "length t < m" by (cases n) auto
  have "rune_len (c # t @ qt # r) = 1" using Cons.prems by (simp add: plain_char_def rune_len_def)
  then show ?case using Cons m by (simp add: n plain_char_def)
qed

lemma elems_plain:
  assumes "ts \<noteq> []" and "list_all (list_all plain_char) ts" and "length ts \<le> n"
  shows "jelems n (issue_items ts @ '']'') = Some ts"
  using assms
proof (induction ts arbitrary: n rule: issue_items.induct)
  case (2 t)
  then obtain m where "n = Suc m" by (cases n) auto
  then show ?case using 2 unquote_plain [of t _ "'']''"] by (simp add: jspace_def del: unquote.simps)
next
  case (3 t u us)
  then obtain m where "n = Suc m" by (cases n) auto
  then show ?case using 3 unquote_plain [of t _ "CHR '','' # issue_items (u # us) @ '']''"]
    by (simp add: jspace_def del: unquote.simps)
qed simp

text \<open>
  The issue types of an approval or a rejection can be read back from the JSON column: the text is
  valid JSON and stands for the given types, provided they consist of ASCII characters other than
  quotation mark, backslash and control characters.
\<close>

theorem issue_types_read_back:
  assumes "list_all (list_all plain_char) types"
  shows "json_Valid (issueTypesToJSON types) \<and> unmarshal_strings (issueTypesToJSON types) = Some types"
proof (cases "types = []")
  case True
  then show ?thesis by (simp add: issueTypesToJSON_def) code_simp
next
  case False
  define s where "s = issueTypesToJSON types"
  have s: "s = CHR ''['' # issue_items types @ '']''" using False by (simp add: s_def issueTypesToJSON_def)
  obtain i where items: "issue_items types = qt # i" using False by (cases types rule: issue_items.cases) auto
  have "jscan (CHR ''['') (BeginValue, []) = Some (BeginValueOrEmpty, [ParseArrayValue])"
    by (simp add: jscan_def jbegin_def jspace_def)
  moreover have "jrun ('']'' @ [CHR 0x20]) (EndValue, [ParseArrayValue]) = Some (EndTop, [])"
    by (simp add: jscan_def jendvalue_def jspace_def jend_def)
  ultimately have valid: "json_Valid s"
    using run_items [OF False assms, of BeginValueOrEmpty "'']'' @ [CHR 0x20]"]
    by (simp add: json_Valid_def s)
  have trim: "jtrim s = s" by (simp add: jtrim_def s jspace_def)
  have "length types \<le> length (issue_items types)" by (induction types rule: issue_items.induct) auto
  then have "jelems (length s) (tl s) = Some types"
    using elems_plain [OF False assms] by (simp add: s del: jelems.simps)
  then have "unmarshal_strings s = Some types"
    using valid by (simp add: unmarshal_strings_def trim Let_def) (simp add: s items jspace_def del: jelems.simps)
  with valid show ?thesis by (simp add: s_def)
qed

theorem issue_types_read_back_witness:
  "json_Valid (issueTypesToJSON [''color_error'', ''size_error'']) \<and>
   unmarshal_strings (issueTypesToJSON [''color_error'', ''size_error'']) = Some [''color_error'', ''size_error'']"
  using issue_types_read_back [of "[''color_error'', ''size_error'']"]
  by (simp add: plain_char_def)

text \<open>A quotation mark in a type makes two types of one, or a text the JSON column refuses.\<close>

lemma issue_types_unescaped:
  "unmarshal_strings (issueTypesToJSON [''a'' @ [qt, CHR '','', qt] @ ''b'']) = Some [''a'', ''b'']"
  "\<not> json_Valid (issueTypesToJSON [[qt]])"
  by code_simp+

text \<open>
  Two handovers of a task whose checks both ran before either transaction are both written: the check
  is not repeated inside.
\<close>

lemma handovers_race:
  assumes "no_pending_handover d (HO_TaskID p)" and "HO_TaskID q = HO_TaskID p"
  shows "length (pending_of (handed_over s now' q task' st' no' (handed_over s now p task st no d)) (HO_TaskID p)) = 2"
proof -
  have "audit_handovers (handed_over s n r t u k e) = audit_handovers e @
      [(new_handover r k)\<lparr>AH_ID := next_handover e, AH_CreatedAt := n, AH_UpdatedAt := n\<rparr>]" for n r t u k e
    by (simp add: handed_over_def add_handover_def)
  then show ?thesis using assms by (simp add: no_pending_iff pending_of_def new_handover_def)
qed

subsection \<open>Who may be named in a request\<close>

definition call_task :: "audit_call \<Rightarrow> id" where
  "call_task call = (case call of CallClaim p \<Rightarrow> CA_TaskID p | CallApprove p \<Rightarrow> AP_TaskID p
     | CallReject p \<Rightarrow> RJ_TaskID p | CallTransfer p \<Rightarrow> TR_TaskID p | CallHandover p \<Rightarrow> HO_TaskID p
     | CallTakeover taskID _ _ \<Rightarrow> taskID)"

definition named_people :: "audit_call \<Rightarrow> id list" where
  "named_people call = (case call of CallClaim p \<Rightarrow> [CA_AuditorID p] | CallApprove p \<Rightarrow> [AP_AuditorID p]
     | CallReject p \<Rightarrow> [RJ_AuditorID p] | CallTransfer p \<Rightarrow> [TR_FromAuditorID p, TR_ToAuditorID p]
     | CallHandover p \<Rightarrow> [HO_FromAuditorID p, HO_ToAuditorID p] | CallTakeover _ _ auditorID \<Rightarrow> [auditorID])"

text \<open>
  Whoever a successful call names as an auditor is a user whose own name is one of the two pinned
  names, or whose team is named after the lane of the task: with a repository of users, roles never
  qualify a named person, since \<^verbatim>\<open>GetByID\<close> returns users without roles.
\<close>

theorem named_auditors_by_team:
  assumes "run_call s now ctxActor call w = (Inr u, w')" and "S_scopeUserRepo s"
  shows "\<exists>task. v_task (wdb w) (call_task call) = Some task \<and>
    (\<forall>i \<in> set (named_people call). i \<le> 0 \<or>
      (\<exists>user. user_row (wdb w) i = Some user \<and> named_for user (task_lane task)))"
proof (cases call)
  case (CallTakeover t h a)
  show ?thesis
    using assms unfolding CallTakeover
    by (auto simp: run_call_def call_task_def named_people_def Takeover_def act_success infra_v_def GetHandoverByID_def
        named_ok_def lane_gate_def split: option.splits dest!: query_success getTask_success lane_policy_success)
qed (use assms in \<open>fastforce simp: run_call_def call_task_def named_people_def Claim_def Approve_def Reject_def
    Transfer_def Handover_def act_success named_ok_def lane_gate_def dest!: getTask_success lane_policy_success\<close>)+

subsection \<open>What a status or a pending handover forbids\<close>

lemma call_refused:
  assumes "\<And>d'. \<not> call_spec s now ctxActor call (wdb w) d'"
  shows "\<exists>e w'. run_call s now ctxActor call w = (Inl e, w') \<and> only_codes (wdb w) (wdb w')"
proof (cases "run_call s now ctxActor call w")
  case (Pair r w')
  have "r \<noteq> Inr u" for u using Pair call_return assms by blast
  then show ?thesis using Pair call_failure_codes by (cases r) auto
qed

text \<open>
  While a handover of a task waits to be taken over, every other call on the task is refused and
  changes nothing: it can only be taken over.
\<close>

theorem pending_handover_blocks:
  assumes "pending_of (wdb w) (call_task call) \<noteq> []" and "\<forall>t h a. call \<noteq> CallTakeover t h a"
  shows "\<exists>e w'. run_call s now ctxActor call w = (Inl e, w') \<and> only_codes (wdb w) (wdb w')"
  by (rule call_refused) (use assms in \<open>auto simp: call_spec_def call_task_def no_pending_iff split: audit_call.splits\<close>)

theorem pending_handover_blocks_witness:
  "\<exists>e w'. run_call demo_audit 1 None (CallClaim \<lparr>CA_TaskID = 1, CA_AuditorID = 2, CA_Stage = AuditRecordStageA\<rparr>)
     \<lparr>wdb = add_handover 1 (new_handover \<lparr>HO_TaskID = 1, HO_FromAuditorID = 2, HO_ToAuditorID = 3,
        HO_Reason = [], HO_CurrentJudgement = [], HO_RiskRemark = []\<rparr> ''H'') (demo_vdb demo_audit_task []),
      faults = []\<rparr> = (Inl e, w')"
  using pending_handover_blocks [of "\<lparr>wdb = add_handover 1 (new_handover \<lparr>HO_TaskID = 1, HO_FromAuditorID = 2,
      HO_ToAuditorID = 3, HO_Reason = [], HO_CurrentJudgement = [], HO_RiskRemark = []\<rparr> ''H'')
      (demo_vdb demo_audit_task []), faults = []\<rparr>"
      "CallClaim \<lparr>CA_TaskID = 1, CA_AuditorID = 2, CA_Stage = AuditRecordStageA\<rparr>" demo_audit 1 None]
  by (auto simp: call_task_def pending_of_def add_handover_def new_handover_def demo_vdb_def)

text \<open>
  A task waiting for the review of its outsourced work cannot be rejected by the audit service: every
  call of Reject on it fails, at any stage, for any actor, although the authoriser has a rule for it.
\<close>

theorem outsource_review_not_rejectable:
  assumes "v_task (wdb w) (RJ_TaskID p) = Some task" and "T_TaskStatus task = TaskStatusPendingOutsourceReview"
  shows "\<exists>e w'. Reject s now ctxActor p w = (Inl e, w') \<and> wdb w' = wdb w"
proof (cases "Reject s now ctxActor p w")
  case (Pair r w')
  have "\<not> call_spec s now ctxActor (CallReject p) (wdb w) d'" for d'
    using assms by (cases "RJ_Stage p") (auto simp: call_spec_def isClaimableStatus_def)
  then have "r \<noteq> Inr u" for u using Pair Reject_success by blast
  then show ?thesis using Pair call_failures(3) by (cases r) auto
qed

theorem outsource_review_not_rejectable_witness:
  "\<exists>e w'. Reject demo_audit 1 None \<lparr>RJ_TaskID = 1, RJ_AuditorID = 2, RJ_Stage = AuditRecordStageOutsourceReview,
       RJ_Comment = ''no'', RJ_IssueTypes = [], RJ_AffectsLaunch = False, RJ_ReplacementAssetID = None,
       RJ_PreviousAssetID = None, RJ_ReplacementNote = []\<rparr>
     \<lparr>wdb = demo_vdb (demo_task\<lparr>T_TaskStatus := TaskStatusPendingOutsourceReview\<rparr>) [], faults = []\<rparr> = (Inl e, w')"
  using outsource_review_not_rejectable [of "\<lparr>wdb = demo_vdb (demo_task\<lparr>T_TaskStatus := TaskStatusPendingOutsourceReview\<rparr>) [],
      faults = []\<rparr>" "\<lparr>RJ_TaskID = 1, RJ_AuditorID = 2, RJ_Stage = AuditRecordStageOutsourceReview,
       RJ_Comment = ''no'', RJ_IssueTypes = [], RJ_AffectsLaunch = False, RJ_ReplacementAssetID = None,
       RJ_PreviousAssetID = None, RJ_ReplacementNote = []\<rparr>" "demo_task\<lparr>T_TaskStatus := TaskStatusPendingOutsourceReview\<rparr>"
      demo_audit 1 None]
  by (auto simp: v_task_def task_row_def demo_vdb_def demo_task_def)

subsection \<open>Running without failures\<close>

lemma modules_run:
  "m \<lparr>wdb = v_modules d, faults = []\<rparr> = (r, \<lparr>wdb = m', faults = []\<rparr>) \<Longrightarrow>
   within v_modules put_modules m \<lparr>wdb = d, faults = []\<rparr> = (r, \<lparr>wdb = d\<lparr>v_modules := m'\<rparr>, faults = []\<rparr>)"
  by (simp add: within_def put_modules_def)

lemma getTask_run: "v_task d i = Some task \<Longrightarrow> getTask i \<lparr>wdb = d, faults = []\<rparr> = (Inr task, \<lparr>wdb = d, faults = []\<rparr>)"
  by (simp add: getTask_def infra_v_def taskRepo_GetByID_def TaskRepo_GetByID_def within_def put_modules_def
      v_task_def bnd_def map_err_def query_nofault ret_def)

lemma UpdateHandler_run:
  "taskRepo_UpdateHandler now i h \<lparr>wdb = d, faults = []\<rparr> = (Inr (), \<lparr>wdb = set_task_handler now i h d, faults = []\<rparr>)"
  by (simp add: taskRepo_UpdateHandler_def UpdateHandler_def reindexTaskSearchDocument_def set_task_handler_def
      within_def put_modules_def bnd_def exec_nofault query_nofault)

lemma CreateRecord_run:
  "json_Valid (AR2_IssueTypesJSON r) \<Longrightarrow> task_exists d (AR2_TaskID r) \<Longrightarrow>
   CreateRecord now r \<lparr>wdb = d, faults = []\<rparr> = (Inr (next_record d), \<lparr>wdb = add_record now r d, faults = []\<rparr>)"
  by (simp add: CreateRecord_def stmt_nofault)

definition fresh_event_id :: "uuid_source \<Rightarrow> vdb \<Rightarrow> bool" where
  "fresh_event_id U d \<longleftrightarrow> U (v_uuid_n d) \<notin> TEv_ID ` set (task_event_logs d)"

lemma numbered_below:
  assumes "events_numbered d" and "e \<in> set (task_event_logs d)"
  shows "TEv_Sequence e \<le> last_task_seq d (TEv_TaskID e)"
proof -
  have "TEv_Sequence e \<in> set (map TEv_Sequence (filter (\<lambda>r. TEv_TaskID r = TEv_TaskID e) (task_event_logs d)))"
    using assms(2) by auto
  also have "\<dots> = {1..last_task_seq d (TEv_TaskID e)}"
    using assms(1) unfolding events_numbered_def numbered_def by (simp only: set_upto)
  finally show ?thesis by simp
qed

lemma transition_event_run:
  assumes "events_numbered d" and "task_exists d i" and "fresh_event_id U d"
  shows "transition_event U now i task ty op st h x \<lparr>wdb = d, faults = []\<rparr> =
    (Inr (), \<lparr>wdb = with_event U now i task ty op st h x d, faults = []\<rparr>)"
proof -
  let ?n = "last_task_seq d i + 1"
  have seq: "nextTaskEventSequence i \<lparr>wdb = d, faults = []\<rparr> = (Inr ?n, \<lparr>wdb = set_sequence i ?n d, faults = []\<rparr>)"
    using assms(2) by (cases "task_event_sequences d i")
      (simp_all add: nextTaskEventSequence_def last_task_seq_def bnd_def query_nofault exec_nofault stmt_nofault ret_def)
  have no_clash: "\<not> list_ex (\<lambda>r. TEv_ID r = U (v_uuid_n d) \<or> TEv_TaskID r = i \<and> TEv_Sequence r = ?n) (task_event_logs d)"
  proof (unfold list_ex_iff, clarify)
    fix r assume r: "r \<in> set (task_event_logs d)"
      and clash: "TEv_ID r = U (v_uuid_n d) \<or> TEv_TaskID r = i \<and> TEv_Sequence r = ?n"
    have "TEv_ID r \<noteq> U (v_uuid_n d)" using assms(3) r by (auto simp: fresh_event_id_def image_iff)
    with clash numbered_below [OF assms(1) r] show False by auto
  qed
  then show ?thesis
    using assms(2) by (simp add: transition_event_def taskEventRepo_Append_def seq bnd_def task_uuid_New_def
        insert_task_event_def stmt_nofault ret_def Let_def with_event_def add_event_def set_sequence_def task_exists_def
        v_task_def)
qed

lemma tx_run:
  "m \<lparr>wdb = d, faults = []\<rparr> = (Inr x, \<lparr>wdb = d', faults = []\<rparr>) \<Longrightarrow>
   infra_v (RunInTx m) \<lparr>wdb = d, faults = []\<rparr> = (Inr x, \<lparr>wdb = d', faults = []\<rparr>)"
  by (simp add: infra_v_def map_err_def RunInTx_nofault_ok)

lemma no_pending_run:
  "no_pending_handover d i \<Longrightarrow> ensureNoPendingHandover i \<lparr>wdb = d, faults = []\<rparr> = (Inr (), \<lparr>wdb = d, faults = []\<rparr>)"
  by (simp add: ensureNoPendingHandover_def infra_v_def ListHandoversByTaskID_def bnd_def map_err_def query_nofault
      no_pending_handover_def check_def ret_def)

lemma profile_named:
  assumes "named_for u lane"
  shows "profile_allows (profile_of_row u roles) lane"
proof -
  have "TaskBusinessLane_Valid TaskBusinessLaneNormal" "TaskBusinessLane_Valid TaskBusinessLaneCustomization"
    by (simp_all add: TaskBusinessLane_Valid_def string_eval)
  then show ?thesis
    using assms by (auto simp: profile_of_row_def buildAuditLaneProfileFromUser_def named_for_def profile_allows_def
        profile_allow_def Let_def split: if_splits)
qed

lemma lane_policy_run:
  assumes "user_row d (RA_ID actor) = Some user" and "named_for user (task_lane task)" and "S_scopeUserRepo s"
  shows "ensureAuditLanePolicy s (Some actor) task [RA_ID actor] \<lparr>wdb = d, faults = []\<rparr> =
    (Inr (), \<lparr>wdb = d, faults = []\<rparr>)"
proof -
  obtain row where "List.find (\<lambda>u. U_ID u = RA_ID actor) (v_users d) = Some row" "scanUser row = user"
    using assms(1) by (auto simp: user_row_def)
  then show ?thesis
    using assms(2,3) profile_named [OF assms(2)]
    by (simp add: ensureAuditLanePolicy_def ensureRequestActorLanePolicy_def resolveAuditLaneProfileForRequestActor_def
        scope_users_def infra_v_def userRepo_GetByID_def user_row_def bnd_def map_err_def query_nofault ret_def
        check_def task_lane_def Let_def)
qed

lemma authorize_auditor:
  assumes "resolveTaskActionActor (Some actor) = Some a" and "RoleAuditA \<in> set (AA_Roles a)"
    and "TaskType_RequiresAudit (T_TaskType task)" and "T_TaskStatus task = TaskStatusPendingAuditA"
    and "Task_WorkflowLane task = WorkflowLaneNormal"
  shows "authorize s (Some actor) TaskActionAuditClaim task AuditRecordStageA w = (Inr (task_seen s (Some actor) task), w)"
proof -
  have res: "resolveTaskAction TaskActionAuditClaim (Some task) AuditRecordStageA = (TaskActionAuditAClaim, [])"
    using assms(3,4) by (simp add: resolveTaskAction_def audit_actions_def resolveAuditStageAction_def)
  have res0: "resolveTaskAction TaskActionAuditClaim (Some task) no_stage = (TaskActionAuditAClaim, [])"
    using assms(3,4) by (simp add: resolveTaskAction_def audit_actions_def resolveAuditStageAction_def)
  have "\<exists>d. EvaluateTaskActionPolicyWithAttributes (S_catalog s) (S_dataScopeResolver s) (scope_users s)
      (Some actor) TaskActionAuditClaim (Some task) [] [] no_stage w = (Inr d :: ErrCode + TaskActionDecision, w) \<and>
      D_Allowed d"
    by (rule auditor_needs_no_assignment [OF assms(1,2) _ assms(3-5)]) simp
  then obtain d where d: "EvaluateTaskActionPolicyWithAttributes (S_catalog s) (S_dataScopeResolver s) (scope_users s)
      (Some actor) TaskActionAuditClaim (Some task) [] [] no_stage w = (Inr d :: ErrCode + TaskActionDecision, w)"
      "D_Allowed d" by blast
  have "EvaluateTaskActionPolicyWithAttributes (S_catalog s) (S_dataScopeResolver s) (scope_users s)
      (Some actor) TaskActionAuditClaim (Some task) [] [] AuditRecordStageA =
    (EvaluateTaskActionPolicyWithAttributes (S_catalog s) (S_dataScopeResolver s) (scope_users s)
      (Some actor) TaskActionAuditClaim (Some task) [] [] no_stage :: (vdb, ErrCode, TaskActionDecision) act)"
    using assms(1) res res0 by (simp add: EvaluateTaskActionPolicyWithAttributes_def)
  with d show ?thesis
    using assms(1) by (simp add: authorize_def AuthorizeTaskActionWithAttributes_def bnd_def ret_def task_seen_def)
qed

lemma same_handler: "t\<lparr>T_CurrentHandlerID := x\<rparr> = t \<longleftrightarrow> T_CurrentHandlerID t = x"
  by (cases t) auto

text \<open>The claim of an auditor whose team stands for the lane runs to its end when no statement fails.\<close>

lemma claim_run:
  assumes "resolveTaskActionActor (Some actor) = Some a" and "RoleAuditA \<in> set (AA_Roles a)"
    and "S_scopeUserRepo s" and "user_row d (RA_ID actor) = Some user" and "named_for user (task_lane task)"
    and "v_task d t = Some task" and "TaskType_RequiresAudit (T_TaskType task)"
    and "T_TaskStatus task = TaskStatusPendingAuditA" and "Task_WorkflowLane task = WorkflowLaneNormal"
    and "no_pending_handover d t" and "events_numbered d" and "fresh_event_id (S_uuid s) d"
  shows "Claim s now (Some actor) \<lparr>CA_TaskID = t, CA_AuditorID = RA_ID actor, CA_Stage = AuditRecordStageA\<rparr>
      \<lparr>wdb = d, faults = []\<rparr> = (Inr (), \<lparr>wdb = claimed s now
        \<lparr>CA_TaskID = t, CA_AuditorID = RA_ID actor, CA_Stage = AuditRecordStageA\<rparr> (task_seen s (Some actor) task) d,
      faults = []\<rparr>)"
    and "v_task (claimed s now \<lparr>CA_TaskID = t, CA_AuditorID = RA_ID actor, CA_Stage = AuditRecordStageA\<rparr>
        (task_seen s (Some actor) task) d) t = Some (if T_CurrentHandlerID task = Some (RA_ID actor) then task
      else task\<lparr>T_CurrentHandlerID := Some (RA_ID actor), T_UpdatedAt := now\<rparr>)"
proof -
  let ?p = "\<lparr>CA_TaskID = t, CA_AuditorID = RA_ID actor, CA_Stage = AuditRecordStageA\<rparr>"
  let ?d1 = "add_record now (audit_record t AuditRecordStageA AuditActionTypeClaim (RA_ID actor) ''[]'' []) d"
  let ?d2 = "set_task_handler now t (Some (RA_ID actor)) ?d1"
  let ?seen = "task_seen s (Some actor) task"
  have json: "json_Valid ''[]''" by code_simp
  have row: "v_task ?d2 t = Some (if T_CurrentHandlerID task = Some (RA_ID actor) then task
      else task\<lparr>T_CurrentHandlerID := Some (RA_ID actor), T_UpdatedAt := now\<rparr>)"
    using assms(6) find_SomeD [of "\<lambda>r. T_ID r = t" "tasks (v_modules d)" task]
    by (simp add: v_task_def task_row_def add_record_def set_task_handler_def upd_task_def find_row_upd same_handler)
  have rec: "CreateRecord now (audit_record t AuditRecordStageA AuditActionTypeClaim (RA_ID actor) ''[]'' [])
      \<lparr>wdb = d, faults = []\<rparr> = (Inr (next_record d), \<lparr>wdb = ?d1, faults = []\<rparr>)"
    by (rule CreateRecord_run) (simp_all add: audit_record_def json task_exists_def assms(6))
  have numbered: "events_numbered ?d2" and known: "task_exists ?d2 t" using assms(11) row by (simp_all add: task_exists_def)
  have fresh: "fresh_event_id (S_uuid s) ?d2" using assms(12) by (simp add: fresh_event_id_def effect_defs)
  have tx: "Claim_tx s now ?p ?seen \<lparr>wdb = d, faults = []\<rparr> = (Inr (), \<lparr>wdb = claimed s now ?p ?seen d, faults = []\<rparr>)"
    unfolding Claim_tx_def claimed_def
    by (simp add: bnd_def rec UpdateHandler_run transition_event_run [OF numbered known fresh])
  show "Claim s now (Some actor) ?p \<lparr>wdb = d, faults = []\<rparr> = (Inr (), \<lparr>wdb = claimed s now ?p ?seen d, faults = []\<rparr>)"
    unfolding Claim_def
    using lane_policy_run [OF assms(4,5,3)] authorize_auditor [OF assms(1,2,7,8,9)] no_pending_run [OF assms(10)]
      getTask_run [OF assms(6)]
      tx_run [where m = "Claim_tx s now ?p ?seen", OF tx] assms(8)
    by (simp add: bnd_def check_def ret_def isClaimableStatus_def)
  have "v_task (claimed s now ?p ?seen d) t = v_task ?d2 t"
    by (simp add: claimed_def with_event_def add_event_def v_task_def)
  then show "v_task (claimed s now ?p ?seen d) t = Some (if T_CurrentHandlerID task = Some (RA_ID actor) then task
      else task\<lparr>T_CurrentHandlerID := Some (RA_ID actor), T_UpdatedAt := now\<rparr>)" using row by simp
qed

text \<open>
  An auditor of the first stage whose team stands for the lane of the task can claim it for himself
  while it waits for its first audit, even when somebody else has claimed it before: the claim succeeds
  and the task is his, although the rule of the claim asks for an unassigned task.
\<close>

theorem claim_takes_claimed_task:
  assumes "resolveTaskActionActor (Some actor) = Some a" and "RoleAuditA \<in> set (AA_Roles a)"
    and "S_scopeUserRepo s" and "user_row d (RA_ID actor) = Some user" and "named_for user (task_lane task)"
    and "v_task d t = Some task" and "TaskType_RequiresAudit (T_TaskType task)"
    and "T_TaskStatus task = TaskStatusPendingAuditA" and "Task_WorkflowLane task = WorkflowLaneNormal"
    and "no_pending_handover d t" and "events_numbered d" and "fresh_event_id (S_uuid s) d"
  shows "\<exists>d'. Claim s now (Some actor) \<lparr>CA_TaskID = t, CA_AuditorID = RA_ID actor, CA_Stage = AuditRecordStageA\<rparr>
      \<lparr>wdb = d, faults = []\<rparr> = (Inr (), \<lparr>wdb = d', faults = []\<rparr>) \<and>
    map_option T_CurrentHandlerID (v_task d' t) = Some (Some (RA_ID actor)) \<and>
    map_option T_TaskStatus (v_task d' t) = Some TaskStatusPendingAuditA"
  using claim_run [OF assms, where now = now] assms(8) by (auto split: if_splits)

definition lane_auditor :: User where
  "lane_auditor = demo_user 4 [] team_audit_plain"

definition lane_db :: vdb where
  "lane_db = demo_vdb demo_audit_task [lane_auditor]"

lemma demo_claim_ready:
  "user_row lane_db (RA_ID demo_auditor) = Some (scanUser lane_auditor)"
  "named_for (scanUser lane_auditor) (task_lane demo_audit_task)"
  "v_task lane_db 1 = Some demo_audit_task" "no_pending_handover lane_db 1"
  "events_numbered lane_db" "fresh_event_id (S_uuid demo_audit) lane_db"
proof -
  have id: "RA_ID demo_auditor = 4" by (simp add: demo_auditor_def demo_actor_def)
  have user: "user_row (lane_db) (RA_ID demo_auditor) = Some (scanUser lane_auditor)"
    by (simp add: user_row_def lane_db_def demo_vdb_def lane_auditor_def demo_user_def id)
  have team: "TrimSpace team_audit_plain = team_audit_plain" "TrimSpace ''u'' = ''u''" "TrimSpace ''U'' = ''U''"
    by (simp_all add: module_names string_eval)
  have lane: "task_lane demo_audit_task = TaskBusinessLaneNormal"
    by (simp add: task_lane_def demo_audit_task_def demo_task_def NormalizeTaskBusinessLane_def
        TaskBusinessLane_Valid_def string_eval)
  have named: "named_for (scanUser lane_auditor) (task_lane demo_audit_task)"
    unfolding lane by (simp add: named_for_def lane_auditor_def demo_user_def team Let_def) (simp add: module_names)
  have task: "v_task (lane_db) 1 = Some demo_audit_task"
    by (simp add: v_task_def task_row_def lane_db_def demo_vdb_def demo_audit_task_def demo_task_def)
  have rest: "no_pending_handover (lane_db) 1"
    "fresh_event_id (S_uuid demo_audit) (lane_db)"
    "events_numbered (lane_db)"
    using demo_vdb_inv [of demo_audit_task "[lane_auditor]"] by (simp_all add: no_pending_iff pending_of_def lane_db_def demo_vdb_def fresh_event_id_def handover_inv_def)
  show "user_row lane_db (RA_ID demo_auditor) = Some (scanUser lane_auditor)"
    "named_for (scanUser lane_auditor) (task_lane demo_audit_task)"
    "v_task lane_db 1 = Some demo_audit_task" "no_pending_handover lane_db 1"
    "events_numbered lane_db" "fresh_event_id (S_uuid demo_audit) lane_db"
    by (rule user, rule named, rule task, rule rest, rule rest, rule rest)
qed

theorem claim_takes_claimed_task_witness:
  "\<exists>d'. Claim (demo_audit\<lparr>S_scopeUserRepo := True\<rparr>) 5 (Some demo_auditor)
      \<lparr>CA_TaskID = 1, CA_AuditorID = RA_ID demo_auditor, CA_Stage = AuditRecordStageA\<rparr>
      \<lparr>wdb = lane_db, faults = []\<rparr> = (Inr (), \<lparr>wdb = d', faults = []\<rparr>) \<and>
    map_option T_CurrentHandlerID (v_task d' 1) = Some (Some (RA_ID demo_auditor)) \<and>
    map_option T_TaskStatus (v_task d' 1) = Some TaskStatusPendingAuditA"
  by (rule claim_takes_claimed_task [OF demo_auditor_actor _ _ demo_claim_ready(1-3)])
    (simp_all add: demo_claim_ready)

theorem named_auditors_by_team_witness:
  "\<exists>task user. v_task lane_db 1 = Some task \<and> user_row lane_db (RA_ID demo_auditor) = Some user \<and>
    named_for user (task_lane task)"
proof -
  let ?s = "demo_audit\<lparr>S_scopeUserRepo := True\<rparr>"
  let ?p = "\<lparr>CA_TaskID = 1, CA_AuditorID = RA_ID demo_auditor, CA_Stage = AuditRecordStageA\<rparr>"
  have "\<exists>w'. run_call ?s 5 (Some demo_auditor) (CallClaim ?p) \<lparr>wdb = lane_db, faults = []\<rparr> = (Inr (), w')"
    unfolding run_call_def audit_call.case
    by (rule exI, rule claim_run(1) [OF demo_auditor_actor _ _ demo_claim_ready(1-3)]) (simp_all add: demo_claim_ready)
  then obtain w' where "run_call ?s 5 (Some demo_auditor) (CallClaim ?p) \<lparr>wdb = lane_db, faults = []\<rparr> = (Inr (), w')"
    by blast
  from named_auditors_by_team [OF this] have "\<exists>task. v_task lane_db 1 = Some task \<and>
      (RA_ID demo_auditor \<le> 0 \<or> (\<exists>user. user_row lane_db (RA_ID demo_auditor) = Some user \<and>
        named_for user (task_lane task)))"
    by (auto simp: call_task_def named_people_def)
  moreover have "\<not> RA_ID demo_auditor \<le> 0" by (simp add: demo_auditor_def demo_actor_def)
  ultimately show ?thesis by blast
qed

end
