(* ===== verification/Outsource.thy ===== *)
theory Outsource
  imports Audit_V7
begin

section \<open>Outsourcing orders\<close>

text \<open>
  \<^verbatim>\<open>service/outsource_service.go\<close>: an order is created for a task that waits for outsourcing, the work
  comes back, and a review accepts it or sends it out again. The service asks no authoriser. The
  paged \<^verbatim>\<open>List\<close> is not modelled.
\<close>

subsection \<open>The service\<close>

record CreateOutsourceParams =
  CO_TaskID :: id
  CO_OperatorID :: id
  CO_VendorName :: string
  CO_OutsourceType :: string
  CO_DeliveryRequirement :: string
  CO_SettlementNote :: string

record ReturnOutsourceParams =
  RO_OrderID :: id
  RO_OperatorID :: id
  RO_Remark :: string

record ReviewOutsourceParams =
  RV_OrderID :: id
  RV_ReviewerID :: id
  RV_Result :: string
  RV_Comment :: string
  RV_IssueTypes :: "string list"

abbreviation "TaskEventOutsourceCreated \<equiv> ''task.outsource.created''"
abbreviation "TaskEventOutsourceReturned \<equiv> ''task.outsource.returned''"
abbreviation "TaskEventOutsourceReviewed \<equiv> ''task.outsource.reviewed''"

fun oos_string :: "OutsourceStatus \<Rightarrow> string" where
  "oos_string OutsourceStatusCreated = ''created''"
| "oos_string OutsourceStatusPackaged = ''packaged''"
| "oos_string OutsourceStatusSent = ''sent''"
| "oos_string OutsourceStatusInProduction = ''in_production''"
| "oos_string OutsourceStatusReturned = ''returned''"
| "oos_string OutsourceStatusReviewing = ''reviewing''"
| "oos_string OutsourceStatusApproved = ''approved''"
| "oos_string OutsourceStatusRejected = ''rejected''"
| "oos_string OutsourceStatusClosed = ''closed''"

definition event :: "uuid_source \<Rightarrow> time \<Rightarrow> id \<Rightarrow> string \<Rightarrow> id \<Rightarrow> jsonobj \<Rightarrow> unit vact" where
  "event U now taskID ty operator payload =
     bnd (taskEventRepo_Append U now taskID ty (Some operator) payload) (\<lambda>_. ret ())"

definition new_order :: "CreateOutsourceParams \<Rightarrow> string \<Rightarrow> OutsourceOrder" where
  "new_order p outsourceNo = \<lparr>OO_ID = 0, OO_OutsourceNo = outsourceNo, OO_TaskID = CO_TaskID p,
     OO_VendorName = CO_VendorName p, OO_OutsourceType = CO_OutsourceType p,
     OO_DeliveryRequirement = CO_DeliveryRequirement p, OO_SettlementNote = CO_SettlementNote p,
     OO_Status = OutsourceStatusCreated, OO_ReturnedAt = None, OO_CreatedAt = 0, OO_UpdatedAt = 0\<rparr>"

definition outsource_Create_tx :: "uuid_source \<Rightarrow> time \<Rightarrow> CreateOutsourceParams \<Rightarrow> string \<Rightarrow> id vact" where
  "outsource_Create_tx U now p outsourceNo =
     bnd (outsourceRepo_Create now (new_order p outsourceNo)) (\<lambda>newID.
     bnd (taskRepo_UpdateStatus now (CO_TaskID p) TaskStatusOutsourcing) (\<lambda>_.
     bnd (event U now (CO_TaskID p) TaskEventOutsourceCreated (CO_OperatorID p)
       [(''outsource_no'', JText outsourceNo), (''vendor_name'', JText (CO_VendorName p)),
        (''outsource_type'', JText (CO_OutsourceType p))]) (\<lambda>_.
     ret newID)))"

definition outsource_GetByID :: "id \<Rightarrow> OutsourceOrder vop" where
  "outsource_GetByID i = bnd (infra_v (outsourceRepo_GetByID i))
     (\<lambda>r. case r of None \<Rightarrow> throw ErrCodeNotFound | Some order \<Rightarrow> ret order)"

text \<open>A row that cannot be read back is an internal error.\<close>

definition outsource_Create ::
  "uuid_source \<Rightarrow> (string \<Rightarrow> string) \<Rightarrow> time \<Rightarrow> CreateOutsourceParams \<Rightarrow> OutsourceOrder vop" where
  "outsource_Create U fmtNow now p =
     bnd (getTask (CO_TaskID p)) (\<lambda>task.
     bnd (check (T_TaskStatus task = TaskStatusPendingOutsource) ErrCodeInvalidStateTransition) (\<lambda>_.
     bnd (codeRuleSvc_GenerateCode fmtNow CodeRuleTypeOutsourceNo) (\<lambda>outsourceNo.
     bnd (infra_v (RunInTx (outsource_Create_tx U now p outsourceNo))) (\<lambda>newID.
     bnd (infra_v (outsourceRepo_GetByID newID)) (\<lambda>created.
     case created of None \<Rightarrow> throw ErrCodeInternalError | Some order \<Rightarrow> ret order)))))"

definition getOrderWithTask :: "id \<Rightarrow> (OutsourceOrder \<times> Task) vop" where
  "getOrderWithTask orderID =
     bnd (outsource_GetByID orderID) (\<lambda>order.
     bnd (getTask (OO_TaskID order)) (\<lambda>task. ret (order, task)))"

fun canReturnOutsource :: "OutsourceStatus \<Rightarrow> bool" where
  "canReturnOutsource OutsourceStatusCreated = True"
| "canReturnOutsource OutsourceStatusPackaged = True"
| "canReturnOutsource OutsourceStatusSent = True"
| "canReturnOutsource OutsourceStatusInProduction = True"
| "canReturnOutsource OutsourceStatusRejected = True"
| "canReturnOutsource _ = False"

definition outsource_Return_tx ::
  "uuid_source \<Rightarrow> time \<Rightarrow> ReturnOutsourceParams \<Rightarrow> OutsourceOrder \<Rightarrow> Task \<Rightarrow> unit vact" where
  "outsource_Return_tx U now p order task =
     bnd (outsourceRepo_Update now (order\<lparr>OO_Status := OutsourceStatusReturned, OO_ReturnedAt := Some now\<rparr>)) (\<lambda>_.
     bnd (taskRepo_UpdateStatus now (T_ID task) TaskStatusPendingOutsourceReview) (\<lambda>_.
     event U now (T_ID task) TaskEventOutsourceReturned (RO_OperatorID p)
       [(''outsource_order_id'', JNum (OO_ID order)), (''outsource_no'', JText (OO_OutsourceNo order)),
        (''remark'', JText (RO_Remark p)), (''from_order_status'', JText (oos_string (OO_Status order))),
        (''to_order_status'', JText (oos_string OutsourceStatusReturned)),
        (''from_task_status'', JText (ts_string (T_TaskStatus task))),
        (''to_task_status'', JText (ts_string TaskStatusPendingOutsourceReview))]))"

definition outsource_Return :: "uuid_source \<Rightarrow> time \<Rightarrow> ReturnOutsourceParams \<Rightarrow> OutsourceOrder vop" where
  "outsource_Return U now p =
     bnd (getOrderWithTask (RO_OrderID p)) (\<lambda>(order, task).
     bnd (check (T_TaskStatus task = TaskStatusOutsourcing) ErrCodeInvalidStateTransition) (\<lambda>_.
     bnd (check (canReturnOutsource (OO_Status order)) ErrCodeInvalidStateTransition) (\<lambda>_.
     bnd (infra_v (RunInTx (outsource_Return_tx U now p order task))) (\<lambda>_.
     outsource_GetByID (RO_OrderID p)))))"

text \<open>The verdict of a review: the next statuses of order and task and the recorded action.\<close>

definition review_result :: "ReviewOutsourceParams \<Rightarrow> string" where
  "review_result p = map to_lower (TrimSpace (RV_Result p))"

definition review_verdict ::
  "ReviewOutsourceParams \<Rightarrow> ErrCode + (OutsourceStatus \<times> TaskStatus \<times> AuditActionType)" where
  "review_verdict p =
     (if review_result p = ''approved''
        then Inr (OutsourceStatusApproved, TaskStatusPendingWarehouseReceive, AuditActionTypeApprove)
      else if review_result p = ''rejected'' then
        if TrimSpace (RV_Comment p) = [] then Inl ErrCodeReasonRequired
        else Inr (OutsourceStatusRejected, TaskStatusOutsourcing, AuditActionTypeReject)
      else Inl ErrCodeInvalidRequest)"

definition outsource_Review_tx ::
  "uuid_source \<Rightarrow> time \<Rightarrow> ReviewOutsourceParams \<Rightarrow> OutsourceOrder \<Rightarrow> Task \<Rightarrow>
   OutsourceStatus \<Rightarrow> TaskStatus \<Rightarrow> AuditActionType \<Rightarrow> unit vact" where
  "outsource_Review_tx U now p order task nextOrderStatus nextTaskStatus act =
     bnd (outsourceRepo_Update now (order\<lparr>OO_Status := nextOrderStatus\<rparr>)) (\<lambda>_.
     bnd (CreateRecord now (audit_record (T_ID task) AuditRecordStageOutsourceReview act (RV_ReviewerID p)
            (issueTypesToJSON (RV_IssueTypes p)) (RV_Comment p))) (\<lambda>_.
     bnd (taskRepo_UpdateStatus now (T_ID task) nextTaskStatus) (\<lambda>_.
     event U now (T_ID task) TaskEventOutsourceReviewed (RV_ReviewerID p)
       [(''outsource_order_id'', JNum (OO_ID order)), (''outsource_no'', JText (OO_OutsourceNo order)),
        (''result'', JText (review_result p)), (''comment'', JText (RV_Comment p)),
        (''issue_types'', JTexts (RV_IssueTypes p)),
        (''from_order_status'', JText (oos_string (OO_Status order))),
        (''to_order_status'', JText (oos_string nextOrderStatus)),
        (''from_task_status'', JText (ts_string (T_TaskStatus task))),
        (''to_task_status'', JText (ts_string nextTaskStatus))])))"

definition outsource_Review :: "uuid_source \<Rightarrow> time \<Rightarrow> ReviewOutsourceParams \<Rightarrow> OutsourceOrder vop" where
  "outsource_Review U now p =
     bnd (getOrderWithTask (RV_OrderID p)) (\<lambda>(order, task).
     bnd (check (T_TaskStatus task = TaskStatusPendingOutsourceReview) ErrCodeInvalidStateTransition) (\<lambda>_.
     bnd (check (OO_Status order = OutsourceStatusReturned) ErrCodeInvalidStateTransition) (\<lambda>_.
     case review_verdict p of
       Inl e \<Rightarrow> throw e
     | Inr (nextOrderStatus, nextTaskStatus, act) \<Rightarrow>
         bnd (infra_v (RunInTx (outsource_Review_tx U now p order task nextOrderStatus nextTaskStatus act))) (\<lambda>_.
         outsource_GetByID (RV_OrderID p)))))"

subsection \<open>What the operations write\<close>

definition order_created :: "uuid_source \<Rightarrow> time \<Rightarrow> CreateOutsourceParams \<Rightarrow> string \<Rightarrow> vdb \<Rightarrow> vdb" where
  "order_created U now p outsourceNo d =
     add_event U now (CO_TaskID p) TaskEventOutsourceCreated (Some (CO_OperatorID p))
       [(''outsource_no'', JText outsourceNo), (''vendor_name'', JText (CO_VendorName p)),
        (''outsource_type'', JText (CO_OutsourceType p))]
     (set_task_status now (CO_TaskID p) TaskStatusOutsourcing (add_order now (new_order p outsourceNo) d))"

definition order_returned ::
  "uuid_source \<Rightarrow> time \<Rightarrow> ReturnOutsourceParams \<Rightarrow> OutsourceOrder \<Rightarrow> Task \<Rightarrow> vdb \<Rightarrow> vdb" where
  "order_returned U now p order task d =
     add_event U now (T_ID task) TaskEventOutsourceReturned (Some (RO_OperatorID p))
       [(''outsource_order_id'', JNum (OO_ID order)), (''outsource_no'', JText (OO_OutsourceNo order)),
        (''remark'', JText (RO_Remark p)), (''from_order_status'', JText (oos_string (OO_Status order))),
        (''to_order_status'', JText (oos_string OutsourceStatusReturned)),
        (''from_task_status'', JText (ts_string (T_TaskStatus task))),
        (''to_task_status'', JText (ts_string TaskStatusPendingOutsourceReview))]
     (set_task_status now (T_ID task) TaskStatusPendingOutsourceReview
     (set_order now (order\<lparr>OO_Status := OutsourceStatusReturned, OO_ReturnedAt := Some now\<rparr>) d))"

definition order_reviewed ::
  "uuid_source \<Rightarrow> time \<Rightarrow> ReviewOutsourceParams \<Rightarrow> OutsourceOrder \<Rightarrow> Task \<Rightarrow>
   OutsourceStatus \<Rightarrow> TaskStatus \<Rightarrow> AuditActionType \<Rightarrow> vdb \<Rightarrow> vdb" where
  "order_reviewed U now p order task nextOrderStatus nextTaskStatus act d =
     add_event U now (T_ID task) TaskEventOutsourceReviewed (Some (RV_ReviewerID p))
       [(''outsource_order_id'', JNum (OO_ID order)), (''outsource_no'', JText (OO_OutsourceNo order)),
        (''result'', JText (review_result p)), (''comment'', JText (RV_Comment p)),
        (''issue_types'', JTexts (RV_IssueTypes p)),
        (''from_order_status'', JText (oos_string (OO_Status order))),
        (''to_order_status'', JText (oos_string nextOrderStatus)),
        (''from_task_status'', JText (ts_string (T_TaskStatus task))),
        (''to_task_status'', JText (ts_string nextTaskStatus))]
     (set_task_status now (T_ID task) nextTaskStatus
     (add_record now (audit_record (T_ID task) AuditRecordStageOutsourceReview act (RV_ReviewerID p)
        (issueTypesToJSON (RV_IssueTypes p)) (RV_Comment p))
     (set_order now (order\<lparr>OO_Status := nextOrderStatus\<rparr>) d)))"

lemma event_effect [effects]:
  "event U now i ty op pl w = (Inr u, w') \<Longrightarrow> wdb w' = add_event U now i ty (Some op) pl (wdb w)"
  by (auto simp: event_def act_success dest!: taskEventRepo_Append_effect)

lemma Create_tx_effect: "outsource_Create_tx U now p no w = (Inr i, w') \<Longrightarrow>
  wdb w' = order_created U now p no (wdb w) \<and> i = next_order (wdb w)"
  by (auto simp: outsource_Create_tx_def order_created_def act_success dest!: effects)

lemma Return_tx_effect: "outsource_Return_tx U now p order task w = (Inr u, w') \<Longrightarrow>
  wdb w' = order_returned U now p order task (wdb w)"
  by (auto simp: outsource_Return_tx_def order_returned_def act_success dest!: effects)

lemma Review_tx_effect: "outsource_Review_tx U now p order task os ts act w = (Inr u, w') \<Longrightarrow>
  wdb w' = order_reviewed U now p order task os ts act (wdb w)"
  by (auto simp: outsource_Review_tx_def order_reviewed_def act_success dest!: effects)

datatype outsource_call = OutsourceCreate CreateOutsourceParams | OutsourceReturn ReturnOutsourceParams
  | OutsourceReview ReviewOutsourceParams

definition run_outsource ::
  "uuid_source \<Rightarrow> (string \<Rightarrow> string) \<Rightarrow> time \<Rightarrow> outsource_call \<Rightarrow> OutsourceOrder vop" where
  "run_outsource U fmtNow now call = (case call of
       OutsourceCreate p \<Rightarrow> outsource_Create U fmtNow now p
     | OutsourceReturn p \<Rightarrow> outsource_Return U now p
     | OutsourceReview p \<Rightarrow> outsource_Review U now p)"

definition outsource_spec :: "uuid_source \<Rightarrow> time \<Rightarrow> outsource_call \<Rightarrow> vdb \<Rightarrow> id \<Rightarrow> vdb \<Rightarrow> bool" where
  "outsource_spec U now call d i d' \<longleftrightarrow> (case call of
       OutsourceCreate p \<Rightarrow> (\<exists>task no c. v_task d (CO_TaskID p) = Some task \<and>
         T_TaskStatus task = TaskStatusPendingOutsource \<and> i = next_order d \<and>
         d' = order_created U now p no (put_codes c d))
     | OutsourceReturn p \<Rightarrow> (\<exists>order task. i = RO_OrderID p \<and> order_row d i = Some order \<and>
         v_task d (OO_TaskID order) = Some task \<and> T_TaskStatus task = TaskStatusOutsourcing \<and>
         canReturnOutsource (OO_Status order) \<and> d' = order_returned U now p order task d)
     | OutsourceReview p \<Rightarrow> (\<exists>order task os ts act. i = RV_OrderID p \<and> order_row d i = Some order \<and>
         v_task d (OO_TaskID order) = Some task \<and> T_TaskStatus task = TaskStatusPendingOutsourceReview \<and>
         OO_Status order = OutsourceStatusReturned \<and> review_verdict p = Inr (os, ts, act) \<and>
         d' = order_reviewed U now p order task os ts act d))"

lemma outsource_GetByID_success:
  assumes "outsource_GetByID i w = (Inr order, w')"
  shows "order_row (wdb w) i = Some order \<and> wdb w' = wdb w"
proof -
  obtain r where "outsourceRepo_GetByID i w = (Inr r, w')" and r: "r = Some order"
    using assms unfolding outsource_GetByID_def infra_v_def bnd_eq_Inr map_err_eq_Inr by (auto split: option.splits)
  then show ?thesis using query_success [of "\<lambda>d. order_row d i" w r w'] by (simp add: outsourceRepo_GetByID_def)
qed

lemma reads_GetByID [read_only]: "reads (outsource_GetByID i)" "reads (infra_v (outsourceRepo_GetByID i))"
  "reads (getOrderWithTask i)"
  by (auto simp: outsource_GetByID_def outsourceRepo_GetByID_def getOrderWithTask_def
      intro!: read_only split: option.splits)

text \<open>After a commit only the answer can still fail.\<close>

lemma bnd_readE:
  assumes "bnd m k w = (r, w')" and "reads m"
  obtains (go) x w1 where "m w = (Inr x, w1)" "wdb w1 = wdb w" "k x w1 = (r, w')"
  | (stop) e where "r = Inl e" "wdb w' = wdb w"
proof (cases "m w")
  case (Pair q w1)
  then have "wdb w1 = wdb w" using readsD [OF assms(2)] by blast
  then show ?thesis using Pair assms(1) that by (cases q) (auto simp: bnd_def)
qed

lemma bnd_txE:
  assumes "bnd (infra_v (RunInTx m)) k w = (r, w')"
  obtains (go) x w1 w2 w3 where "wdb w1 = wdb w" "m w1 = (Inr x, w2)" "wdb w3 = wdb w2" "k x w3 = (r, w')"
  | (stop) e where "r = Inl e" "wdb w' = wdb w"
proof (cases "infra_v (RunInTx m) w")
  case (Pair q w3)
  show ?thesis
  proof (cases q)
    case (Inl e)
    then show ?thesis using assms Pair cleanD [OF clean_tx, of m w e w3] stop by (auto simp: bnd_def)
  next
    case (Inr x)
    then show ?thesis using assms Pair tx_success [of m w x w3] go by (auto simp: bnd_def)
  qed
qed

text \<open>
  Either nothing but a number was used up and the call failed, or the specified change was made and a
  returned order is the row the database now has.
\<close>

definition outsource_outcome ::
  "uuid_source \<Rightarrow> time \<Rightarrow> outsource_call \<Rightarrow> vdb \<Rightarrow> ErrCode + OutsourceOrder \<Rightarrow> vdb \<Rightarrow> bool" where
  "outsource_outcome U now call d r d' \<longleftrightarrow>
     (\<exists>i. outsource_spec U now call d i d' \<and> (\<forall>order. r = Inr order \<longrightarrow> order_row d' i = Some order)) \<or>
     ((\<exists>e. r = Inl e) \<and> only_codes d d')"

lemma outcome_stop: "r = Inl e \<Longrightarrow> d' = d \<Longrightarrow> outsource_outcome U now call d r d'"
  by (simp add: outsource_outcome_def)

lemma answer_after:
  assumes "outsource_GetByID i w3 = (r, w')" and "outsource_spec U now call d i (wdb w3)"
  shows "outsource_outcome U now call d r (wdb w')"
proof -
  have "wdb w' = wdb w3" using readsD [OF reads_GetByID(1) assms(1)] .
  moreover have "order_row (wdb w3) i = Some order" if "r = Inr order" for order
    using assms(1) that outsource_GetByID_success by blast
  ultimately show ?thesis using assms(2) unfolding outsource_outcome_def by auto
qed

lemma getOrderWithTask_success:
  "getOrderWithTask i w = (Inr (order, task), w') \<Longrightarrow> order_row (wdb w) i = Some order \<and>
   v_task (wdb w) (OO_TaskID order) = Some task \<and> wdb w' = wdb w"
  by (auto simp: getOrderWithTask_def act_success dest!: outsource_GetByID_success getTask_success)

lemma Return_outcome:
  assumes "outsource_Return U now p w = (r, w')"
  shows "outsource_outcome U now (OutsourceReturn p) (wdb w) r (wdb w')"
  using assms unfolding outsource_Return_def
proof (cases rule: bnd_readE [OF _ reads_GetByID(3), consumes 1, case_names go stop])
  case (go x w1)
  obtain order task where x: "x = (order, task)" by fastforce
  note row = getOrderWithTask_success [OF go(1) [unfolded x]]
  from go(3) show ?thesis
    unfolding x prod.case
  proof (cases rule: bnd_readE [OF _ reads_basic(4), consumes 1, case_names go stop])
    case (go u w2)
    then have st: "T_TaskStatus task = TaskStatusOutsourcing" by (simp add: check_success)
    from go(3) show ?thesis
    proof (cases rule: bnd_readE [OF _ reads_basic(4), consumes 1, case_names go stop])
      case (go u w3)
      then have can: "canReturnOutsource (OO_Status order)" by (simp add: check_success)
      have db: "wdb w3 = wdb w" using go(2) \<open>wdb w2 = wdb w1\<close> \<open>wdb w1 = wdb w\<close> by simp
      from go(3) show ?thesis
      proof (cases rule: bnd_txE [consumes 1, case_names go stop])
        case (go u w4 w5 w6)
        have "outsource_spec U now (OutsourceReturn p) (wdb w) (RO_OrderID p) (wdb w6)"
          using Return_tx_effect [OF go(2)] go(1,3) db row st can by (auto simp: outsource_spec_def)
        with go(4) show ?thesis by (rule answer_after)
      qed (use db outcome_stop in auto)
    qed (use \<open>wdb w2 = wdb w1\<close> \<open>wdb w1 = wdb w\<close> outcome_stop in auto)
  qed (use \<open>wdb w1 = wdb w\<close> outcome_stop in auto)
qed (use outcome_stop in auto)

lemma Review_outcome:
  assumes "outsource_Review U now p w = (r, w')"
  shows "outsource_outcome U now (OutsourceReview p) (wdb w) r (wdb w')"
  using assms unfolding outsource_Review_def
proof (cases rule: bnd_readE [OF _ reads_GetByID(3), consumes 1, case_names go stop])
  case (go x w1)
  obtain order task where x: "x = (order, task)" by fastforce
  note row = getOrderWithTask_success [OF go(1) [unfolded x]]
  from go(3) show ?thesis
    unfolding x prod.case
  proof (cases rule: bnd_readE [OF _ reads_basic(4), consumes 1, case_names go stop])
    case (go u w2)
    then have st: "T_TaskStatus task = TaskStatusPendingOutsourceReview" by (simp add: check_success)
    from go(3) show ?thesis
    proof (cases rule: bnd_readE [OF _ reads_basic(4), consumes 1, case_names go stop])
      case (go u w3)
      then have came: "OO_Status order = OutsourceStatusReturned" by (simp add: check_success)
      have db: "wdb w3 = wdb w" using go(2) \<open>wdb w2 = wdb w1\<close> \<open>wdb w1 = wdb w\<close> by simp
      show ?thesis
      proof (cases "review_verdict p")
        case (Inl e)
        then show ?thesis using go(3) db outcome_stop by (auto simp: throw_def)
      next
        case (Inr v)
        obtain os ts act where v: "review_verdict p = Inr (os, ts, act)" using Inr by (cases v) auto
        from go(3) show ?thesis
          unfolding v sum.case prod.case
        proof (cases rule: bnd_txE [consumes 1, case_names go stop])
          case (go u w4 w5 w6)
          have "outsource_spec U now (OutsourceReview p) (wdb w) (RV_OrderID p) (wdb w6)"
            using Review_tx_effect [OF go(2)] go(1,3) db row st came v by (auto simp: outsource_spec_def)
          with go(4) show ?thesis by (rule answer_after)
        qed (use db outcome_stop in auto)
      qed
    qed (use \<open>wdb w2 = wdb w1\<close> \<open>wdb w1 = wdb w\<close> outcome_stop in auto)
  qed (use \<open>wdb w1 = wdb w\<close> outcome_stop in auto)
qed (use outcome_stop in auto)

lemma bnd_generateE:
  assumes "bnd (codeRuleSvc_GenerateCode f ty) k w = (r, w')"
  obtains (go) no c w1 where "wdb w1 = put_codes c (wdb w)" "k no w1 = (r, w')"
  | (stop) e where "r = Inl e" "only_codes (wdb w) (wdb w')"
proof (cases "codeRuleSvc_GenerateCode f ty w")
  case (Pair q w1)
  obtain c where c: "wdb w1 = put_codes c (wdb w)" using generate_moves_codes [OF Pair] by blast
  show ?thesis
  proof (cases q)
    case (Inl e)
    then show ?thesis using assms Pair c stop by (auto simp: bnd_def only_codes_def)
  next
    case (Inr no)
    then show ?thesis using assms Pair c go by (auto simp: bnd_def)
  qed
qed

lemma created_read_back:
  assumes "bnd (infra_v (outsourceRepo_GetByID i)) (\<lambda>created.
      case created of None \<Rightarrow> throw ErrCodeInternalError | Some order \<Rightarrow> ret order) w = (r, w')"
  shows "wdb w' = wdb w" and "r = Inr order \<Longrightarrow> order_row (wdb w) i = Some order"
proof -
  from assms have "wdb w' = wdb w \<and> (r = Inr order \<longrightarrow> order_row (wdb w) i = Some order)"
  proof (cases rule: bnd_readE [OF _ reads_GetByID(2), consumes 1, case_names go stop])
    case (go x w1)
    have "order_row (wdb w) i = x"
      using go(1) query_success [of "\<lambda>d. order_row d i" w x w1]
      by (simp add: infra_v_def map_err_eq_Inr outsourceRepo_GetByID_def)
    then show ?thesis using go by (cases x) (auto simp: throw_def ret_def)
  qed auto
  then show "wdb w' = wdb w" and "r = Inr order \<Longrightarrow> order_row (wdb w) i = Some order" by auto
qed

lemma Create_outcome:
  assumes "outsource_Create U fmtNow now p w = (r, w')"
  shows "outsource_outcome U now (OutsourceCreate p) (wdb w) r (wdb w')"
  using assms unfolding outsource_Create_def
proof (cases rule: bnd_readE [OF _ reads_getTask, consumes 1, case_names go stop])
  case (go task w1)
  note row = getTask_success [OF go(1)]
  from go(3) show ?thesis
  proof (cases rule: bnd_readE [OF _ reads_basic(4), consumes 1, case_names go stop])
    case (go u w2)
    then have st: "T_TaskStatus task = TaskStatusPendingOutsource" by (simp add: check_success)
    have db2: "wdb w2 = wdb w" using go(2) \<open>wdb w1 = wdb w\<close> by simp
    from go(3) show ?thesis
    proof (cases rule: bnd_generateE [consumes 1, case_names go stop])
      case (go no c w3)
      have db: "wdb w3 = put_codes c (wdb w)" using go(1) db2 by simp
      from go(2) show ?thesis
      proof (cases rule: bnd_txE [consumes 1, case_names go stop])
        case (go i w4 w5 w6)
        have eff: "wdb w5 = order_created U now p no (put_codes c (wdb w)) \<and> i = next_order (wdb w)"
          using Create_tx_effect [OF go(2)] go(1) db by (auto simp: put_codes_def)
        have "outsource_spec U now (OutsourceCreate p) (wdb w) i (wdb w6)"
          using eff go(3) row st by (auto simp: outsource_spec_def)
        then show ?thesis using created_read_back [OF go(4)] unfolding outsource_outcome_def by auto
      next
        case (stop e)
        then show ?thesis using db by (auto simp: outsource_outcome_def only_codes_def)
      qed
    next
      case (stop e)
      then show ?thesis using db2 by (auto simp: outsource_outcome_def)
    qed
  qed (use \<open>wdb w1 = wdb w\<close> outcome_stop in auto)
qed (use outcome_stop in auto)

text \<open>
  An outsourcing call either fails with nothing changed but a number used up, or the whole
  change its guards allow is in the database: the order, the task's status, the review record and the
  event. It never leaves the order and its task in states of different calls, whatever statement
  fails; and an order it returns is the row the database now has.
\<close>

theorem outsource_call_all_or_nothing:
  "outsource_outcome U now call (wdb w) (fst (run_outsource U fmtNow now call w))
     (wdb (snd (run_outsource U fmtNow now call w)))"
  using Create_outcome [OF surjective_pairing] Return_outcome [OF surjective_pairing]
    Review_outcome [OF surjective_pairing]
  by (cases call) (simp_all add: run_outsource_def)

end
