(* ===== verification/Outsource_Cycle.thy ===== *)
theory Outsource_Cycle
  imports Outsource
begin

section \<open>The life of an outsourcing order\<close>

text \<open>
  The contract of the service: an order and its task move together. Every call refines a step of the
  small state machine below; the states of order and task that the service alone can reach are the
  five it names. Other services move the task without the order, and two orders of one task can be
  opened at the same time.
\<close>

subsection \<open>The specification\<close>

type_synonym order_life = "OutsourceStatus option \<times> TaskStatus option"

inductive order_step :: "order_life \<Rightarrow> order_life \<Rightarrow> bool" where
  opened: "order_step (None, Some TaskStatusPendingOutsource) (Some OutsourceStatusCreated, Some TaskStatusOutsourcing)"
| came_back: "canReturnOutsource st \<Longrightarrow> order_step (Some st, Some TaskStatusOutsourcing)
    (Some OutsourceStatusReturned, Some TaskStatusPendingOutsourceReview)"
| accepted: "order_step (Some OutsourceStatusReturned, Some TaskStatusPendingOutsourceReview)
    (Some OutsourceStatusApproved, Some TaskStatusPendingWarehouseReceive)"
| sent_again: "order_step (Some OutsourceStatusReturned, Some TaskStatusPendingOutsourceReview)
    (Some OutsourceStatusRejected, Some TaskStatusOutsourcing)"

inductive_cases order_stepE: "order_step s t"

definition life :: "vdb \<Rightarrow> id \<Rightarrow> id \<Rightarrow> order_life" where
  "life d taskID orderID = (map_option OO_Status (order_row d orderID), map_option T_TaskStatus (v_task d taskID))"

definition cycle_start :: "order_life \<Rightarrow> bool" where
  "cycle_start s \<longleftrightarrow> s = (None, Some TaskStatusPendingOutsource)"

definition in_cycle :: "order_life \<Rightarrow> bool" where
  "in_cycle s \<longleftrightarrow> s \<in> {(None, Some TaskStatusPendingOutsource),
     (Some OutsourceStatusCreated, Some TaskStatusOutsourcing),
     (Some OutsourceStatusRejected, Some TaskStatusOutsourcing),
     (Some OutsourceStatusReturned, Some TaskStatusPendingOutsourceReview),
     (Some OutsourceStatusApproved, Some TaskStatusPendingWarehouseReceive)}"

interpretation cycle: inductive_invariant cycle_start order_step in_cycle
  by unfold_locales (auto simp: cycle_start_def in_cycle_def elim!: order_stepE)

lemma final_order: "order_step (Some OutsourceStatusApproved, ts) s \<Longrightarrow> False"
  by (auto elim!: order_stepE)

subsection \<open>Rows after a call\<close>

lemma order_row_frame [simp]:
  "order_row (add_event U now t ty op pl d) i = order_row d i"
  "order_row (set_task_status now t st d) i = order_row d i"
  "order_row (add_record now r d) i = order_row d i"
  "order_row (put_codes c d) i = order_row d i"
  by (simp_all add: order_row_def effect_defs put_codes_def)

lemma v_task_frame [simp]:
  "v_task (add_event U now t ty op pl d) i = v_task d i"
  "v_task (add_record now r d) i = v_task d i"
  "v_task (put_codes c d) i = v_task d i"
  "v_task (add_order now order d) i = v_task d i"
  "v_task (set_order now order d) i = v_task d i"
  by (simp_all add: v_task_def effect_defs put_codes_def)

lemma same_status: "t\<lparr>T_TaskStatus := x\<rparr> = t \<longleftrightarrow> T_TaskStatus t = x"
  by (cases t) auto

lemma v_task_set_status:
  "v_task (set_task_status now t st d) i = map_option (\<lambda>r. if i = t \<and> T_TaskStatus r \<noteq> st
     then r\<lparr>T_TaskStatus := st, T_UpdatedAt := now\<rparr> else r) (v_task d i)"
proof -
  have "List.find (\<lambda>r. T_ID r = i) (row_upd (\<lambda>r. T_ID r = t) (\<lambda>r. if r\<lparr>T_TaskStatus := st\<rparr> = r then r
      else r\<lparr>T_TaskStatus := st, T_UpdatedAt := now\<rparr>) rs) =
    map_option (\<lambda>r. if i = t \<and> T_TaskStatus r \<noteq> st then r\<lparr>T_TaskStatus := st, T_UpdatedAt := now\<rparr> else r)
      (List.find (\<lambda>r. T_ID r = i) rs)" for rs
    by (induction rs) (auto simp: same_status)
  then show ?thesis by (simp add: v_task_def task_row_def set_task_status_def upd_task_def)
qed

lemma find_row_key:
  "(\<And>r. k (f r) = k r) \<Longrightarrow> List.find (\<lambda>r. k r = i) (row_upd (\<lambda>r. k r = n) f rs) =
     (if i = n then map_option f (List.find (\<lambda>r. k r = i) rs) else List.find (\<lambda>r. k r = i) rs)"
  by (induction rs) auto

lemma all_keys: "(\<And>r. k (f r) = k r) \<Longrightarrow> list_all (\<lambda>r. k r < n) (row_upd p f rs) = list_all (\<lambda>r. k r < n) rs"
  by (induction rs) auto

lemma order_row_set:
  "order_row (set_order now order d) i = (if i = OO_ID order
     then map_option (\<lambda>r. r\<lparr>OO_VendorName := OO_VendorName order, OO_OutsourceType := OO_OutsourceType order,
        OO_DeliveryRequirement := OO_DeliveryRequirement order, OO_SettlementNote := OO_SettlementNote order,
        OO_Status := OO_Status order, OO_ReturnedAt := OO_ReturnedAt order, OO_UpdatedAt := now\<rparr>) (order_row d i)
     else order_row d i)"
  by (simp add: order_row_def set_order_def find_row_key)

lemma order_row_ID: "order_row d i = Some order \<Longrightarrow> OO_ID order = i"
  by (auto simp: order_row_def dest: find_SomeD)

lemma v_task_ID: "v_task d i = Some task \<Longrightarrow> T_ID task = i"
  by (auto simp: v_task_def task_row_def dest: find_SomeD)

text \<open>Auto-increment: the next id is above those given.\<close>

definition orders_inv :: "vdb \<Rightarrow> bool" where
  "orders_inv d \<longleftrightarrow> list_all (\<lambda>r. OO_ID r < next_order d) (outsource_orders d) \<and>
     distinct (map OO_ID (outsource_orders d))"

lemma fresh_order: "orders_inv d \<Longrightarrow> next_order d \<le> i \<Longrightarrow> order_row d i = None"
  by (auto simp: orders_inv_def order_row_def find_None_iff list_all_iff)

lemma order_row_add:
  assumes "orders_inv d"
  shows "order_row (add_order now order d) i = (if i = next_order d
      then Some (order\<lparr>OO_ID := next_order d, OO_ReturnedAt := None, OO_CreatedAt := now, OO_UpdatedAt := now\<rparr>)
      else order_row d i)"
  using fresh_order [OF assms, of i] by (auto simp: order_row_def add_order_def find_append split: option.splits)

lemma orders_inv_steps [simp]:
  "orders_inv (add_event U now t ty op pl d) = orders_inv d"
  "orders_inv (set_task_status now t st d) = orders_inv d"
  "orders_inv (add_record now r d) = orders_inv d"
  "orders_inv (put_codes c d) = orders_inv d"
  by (simp_all add: orders_inv_def effect_defs put_codes_def)

lemma orders_inv_set [simp]: "orders_inv (set_order now order d) = orders_inv d"
  by (simp add: orders_inv_def set_order_def all_keys [where k = OO_ID] map_row_upd)

lemma orders_inv_add: "orders_inv d \<Longrightarrow> orders_inv (add_order now order d)"
  by (auto simp: orders_inv_def add_order_def list_all_iff)

subsection \<open>Refinement\<close>

text \<open>Exactly one order and its task moved, by a step of the machine.\<close>

definition moved :: "vdb \<Rightarrow> vdb \<Rightarrow> id \<Rightarrow> id \<Rightarrow> bool" where
  "moved d d' taskID orderID \<longleftrightarrow> order_step (life d taskID orderID) (life d' taskID orderID) \<and>
     (\<forall>j. j \<noteq> orderID \<longrightarrow> order_row d' j = order_row d j) \<and> (\<forall>u. u \<noteq> taskID \<longrightarrow> v_task d' u = v_task d u) \<and>
     map_option OO_TaskID (order_row d' orderID) = Some taskID"

lemma verdict_cases:
  assumes "review_verdict p = Inr (os, ts, act)"
  shows "order_step (Some OutsourceStatusReturned, Some TaskStatusPendingOutsourceReview) (Some os, Some ts)"
  using assms by (auto simp: review_verdict_def accepted sent_again split: if_splits)

lemma spec_moves:
  assumes "outsource_spec U now call d i d'" and "orders_inv d"
  shows "orders_inv d' \<and> (\<exists>t. moved d d' t i)"
proof (cases call)
  case (OutsourceCreate p)
  then obtain task no c where task: "v_task d (CO_TaskID p) = Some task" "T_TaskStatus task = TaskStatusPendingOutsource"
      and i: "i = next_order d" and d': "d' = order_created U now p no (put_codes c d)"
    using assms(1) by (auto simp: outsource_spec_def)
  have n: "next_order (put_codes c d) = next_order d" by (simp add: put_codes_def)
  have "moved d d' (CO_TaskID p) i"
    using assms(2) task n fresh_order [OF assms(2), of i]
    by (auto simp: moved_def life_def d' i order_created_def order_row_add v_task_set_status option.map_ident new_order_def opened)
  moreover have "orders_inv d'" using assms(2) orders_inv_add by (simp add: d' order_created_def)
  ultimately show ?thesis by blast
next
  case (OutsourceReturn p)
  then obtain order task where row: "order_row d i = Some order" "v_task d (OO_TaskID order) = Some task"
      "T_TaskStatus task = TaskStatusOutsourcing" "canReturnOutsource (OO_Status order)"
      and d': "d' = order_returned U now p order task d"
    using assms(1) by (auto simp: outsource_spec_def)
  have "moved d d' (OO_TaskID order) i"
    using row order_row_ID [OF row(1)] v_task_ID [OF row(2)]
    by (auto simp: moved_def life_def d' order_returned_def order_row_set v_task_set_status option.map_ident came_back)
  moreover have "orders_inv d'" using assms(2) by (simp add: d' order_returned_def)
  ultimately show ?thesis by blast
next
  case (OutsourceReview p)
  then obtain order task os ts act where row: "order_row d i = Some order" "v_task d (OO_TaskID order) = Some task"
      "T_TaskStatus task = TaskStatusPendingOutsourceReview" "OO_Status order = OutsourceStatusReturned"
      and v: "review_verdict p = Inr (os, ts, act)" and d': "d' = order_reviewed U now p order task os ts act d"
    using assms(1) by (auto simp: outsource_spec_def)
  have "ts \<noteq> TaskStatusPendingOutsourceReview" using v by (auto simp: review_verdict_def split: if_splits)
  then have "moved d d' (OO_TaskID order) i"
    using row order_row_ID [OF row(1)] v_task_ID [OF row(2)] verdict_cases [OF v]
    by (auto simp: moved_def life_def d' order_reviewed_def order_row_set v_task_set_status option.map_ident)
  moreover have "orders_inv d'" using assms(2) by (simp add: d' order_reviewed_def)
  ultimately show ?thesis by blast
qed

text \<open>What the contract asks of a call with answer \<open>r\<close> on databases \<open>d\<close> and \<open>d'\<close>.\<close>

definition cycle_refined :: "vdb \<Rightarrow> ErrCode + OutsourceOrder \<Rightarrow> vdb \<Rightarrow> bool" where
  "cycle_refined d r d' \<longleftrightarrow>
     (\<exists>t i. moved d d' t i \<and> (\<forall>order. r = Inr order \<longrightarrow> OO_ID order = i \<and> OO_TaskID order = t)) \<or>
     (\<exists>e. r = Inl e) \<and> (\<forall>i. order_row d' i = order_row d i) \<and> (\<forall>t. v_task d' t = v_task d t)"

lemma any_outcome:
  "outsource_outcome U now call (wdb w) (fst (run_outsource U fmtNow now call w))
     (wdb (snd (run_outsource U fmtNow now call w)))"
  using Create_outcome [OF surjective_pairing] Return_outcome [OF surjective_pairing]
    Review_outcome [OF surjective_pairing]
  by (cases call) (simp_all add: run_outsource_def)

lemma outcome_refined:
  assumes "outsource_outcome U now call d r d'" and "orders_inv d"
  shows "orders_inv d' \<and> cycle_refined d r d'"
  using assms(1) unfolding outsource_outcome_def
proof (elim disjE exE conjE)
  fix i assume i: "outsource_spec U now call d i d'" "\<forall>order. r = Inr order \<longrightarrow> order_row d' i = Some order"
  obtain t where t: "orders_inv d'" "moved d d' t i" using spec_moves [OF i(1) assms(2)] by blast
  have "OO_ID order = i \<and> OO_TaskID order = t" if "r = Inr order" for order
    using that i(2) t(2) order_row_ID [of d' i order] by (simp add: moved_def)
  with t show ?thesis unfolding cycle_refined_def by blast
next
  fix e assume "r = Inl e" "only_codes d d'"
  then show ?thesis using assms(2) by (auto simp: only_codes_def cycle_refined_def)
qed

text \<open>
  (C24) Every outsourcing call, whatever fails in it, refines the state machine: it leaves every order and
  every task as they were, or moves one order and its task together by one step of the machine and
  nothing else; a call that returns an order has moved that order.
\<close>

theorem outsource_refines_cycle:
  assumes "orders_inv (wdb w)"
  shows "orders_inv (wdb (snd (run_outsource U fmtNow now call w))) \<and>
    cycle_refined (wdb w) (fst (run_outsource U fmtNow now call w)) (wdb (snd (run_outsource U fmtNow now call w)))"
  by (rule outcome_refined [OF any_outcome assms])

definition demo_order :: OutsourceOrder where
  "demo_order = \<lparr>OO_ID = 1, OO_OutsourceNo = ''OUT-1'', OO_TaskID = 1, OO_VendorName = ''v'', OO_OutsourceType = ''t'',
     OO_DeliveryRequirement = [], OO_SettlementNote = [], OO_Status = OutsourceStatusCreated, OO_ReturnedAt = None,
     OO_CreatedAt = 1, OO_UpdatedAt = 1\<rparr>"

definition demo_orders :: vdb where
  "demo_orders = (demo_vdb (demo_task\<lparr>T_TaskStatus := TaskStatusOutsourcing\<rparr>) [])\<lparr>
     outsource_orders := [demo_order], next_order := 2\<rparr>"

lemma demo_orders_inv: "orders_inv demo_orders"
  by (simp add: orders_inv_def demo_orders_def demo_order_def)

theorem outsource_refines_cycle_witness:
  "orders_inv demo_orders \<and> cycle_refined demo_orders
    (fst (run_outsource (\<lambda>_. ''u'') id 5 (OutsourceReturn \<lparr>RO_OrderID = 1, RO_OperatorID = 2, RO_Remark = []\<rparr>)
      \<lparr>wdb = demo_orders, faults = []\<rparr>))
    (wdb (snd (run_outsource (\<lambda>_. ''u'') id 5 (OutsourceReturn \<lparr>RO_OrderID = 1, RO_OperatorID = 2, RO_Remark = []\<rparr>)
      \<lparr>wdb = demo_orders, faults = []\<rparr>)))"
  using outsource_refines_cycle [of "\<lparr>wdb = demo_orders, faults = []\<rparr>"] demo_orders_inv by simp

subsection \<open>One order for a task\<close>

text \<open>A task that waits has no order yet; after that it has one, in step with it.\<close>

definition orders_of :: "vdb \<Rightarrow> id \<Rightarrow> OutsourceOrder list" where
  "orders_of d t = filter (\<lambda>r. OO_TaskID r = t) (outsource_orders d)"

definition in_step :: "vdb \<Rightarrow> id \<Rightarrow> bool" where
  "in_step d t \<longleftrightarrow> length (orders_of d t) \<le> 1 \<and>
     in_cycle (map_option OO_Status (if orders_of d t = [] then None else Some (hd (orders_of d t))),
       map_option T_TaskStatus (v_task d t))"

fun run_outsources ::
  "uuid_source \<Rightarrow> (string \<Rightarrow> string) \<Rightarrow> (time \<times> outsource_call) list \<Rightarrow> vdb world \<Rightarrow> vdb world" where
  "run_outsources U fmtNow [] w = w"
| "run_outsources U fmtNow ((now, call) # calls) w =
     run_outsources U fmtNow calls (snd (run_outsource U fmtNow now call w))"

lemma orders_of_frame [simp]:
  "orders_of (add_event U now i ty op pl d) t = orders_of d t"
  "orders_of (set_task_status now i st d) t = orders_of d t"
  "orders_of (add_record now r d) t = orders_of d t"
  "orders_of (put_codes c d) t = orders_of d t"
  by (simp_all add: orders_of_def effect_defs put_codes_def)

lemma orders_of_add: "orders_of (add_order now order d) t = orders_of d t @ (if OO_TaskID order = t
    then [order\<lparr>OO_ID := next_order d, OO_ReturnedAt := None, OO_CreatedAt := now, OO_UpdatedAt := now\<rparr>] else [])"
  by (simp add: orders_of_def add_order_def)

lemma orders_of_set:
  assumes "orders_inv d" and "order_row d (OO_ID x) = Some order"
  shows "t \<noteq> OO_TaskID order \<Longrightarrow> orders_of (set_order now x d) t = orders_of d t"
    and "length (orders_of d (OO_TaskID order)) \<le> 1 \<Longrightarrow> orders_of d (OO_TaskID order) = [order] \<and>
      map OO_Status (orders_of (set_order now x d) (OO_TaskID order)) = [OO_Status x]"
proof -
  have mem: "order \<in> set (outsource_orders d)" "OO_ID order = OO_ID x"
    using assms(2) by (auto simp: order_row_def dest: find_SomeD)
  have split: "orders_of (set_order now x d) t = row_upd (\<lambda>r. OO_ID r = OO_ID x)
     (\<lambda>r. r\<lparr>OO_VendorName := OO_VendorName x, OO_OutsourceType := OO_OutsourceType x,
        OO_DeliveryRequirement := OO_DeliveryRequirement x, OO_SettlementNote := OO_SettlementNote x,
        OO_Status := OO_Status x, OO_ReturnedAt := OO_ReturnedAt x, OO_UpdatedAt := now\<rparr>) (orders_of d t)" for t
    by (simp add: orders_of_def set_order_def filter_row_upd)
  have only: "r = order" if "r \<in> set (outsource_orders d)" "OO_ID r = OO_ID x" for r
    using that mem assms(1) distinct_key_eq [of OO_ID "outsource_orders d"] by (simp add: orders_inv_def)
  show "orders_of (set_order now x d) t = orders_of d t" if "t \<noteq> OO_TaskID order"
    unfolding split using that only by (intro row_upd_none) (auto simp: orders_of_def)
  assume "length (orders_of d (OO_TaskID order)) \<le> 1"
  moreover have "order \<in> set (orders_of d (OO_TaskID order))" using mem(1) by (simp add: orders_of_def)
  ultimately have "orders_of d (OO_TaskID order) = [order]" by (cases "orders_of d (OO_TaskID order)") auto
  then show "orders_of d (OO_TaskID order) = [order] \<and>
      map OO_Status (orders_of (set_order now x d) (OO_TaskID order)) = [OO_Status x]"
    using mem(2) by (simp add: split)
qed

lemma in_step_frame:
  "orders_of d' t = orders_of d t \<Longrightarrow> v_task d' t = v_task d t \<Longrightarrow> in_step d t \<Longrightarrow> in_step d' t"
  unfolding in_step_def by presburger

text \<open>Both calls on an existing order: the order of the task is that one, and both make a step.\<close>

lemma update_in_step:
  assumes inv: "orders_inv d" and row: "order_row d (OO_ID x) = Some order" "v_task d (OO_TaskID order) = Some task"
    and step: "order_step (Some (OO_Status order), Some (T_TaskStatus task)) (Some (OO_Status x), Some ts)"
    and d': "\<And>t. orders_of d' t = orders_of (set_order now x d) t"
      "\<And>t. v_task d' t = v_task (set_task_status now (OO_TaskID order) ts d) t"
    and agree: "in_step d t"
  shows "in_step d' t"
proof (cases "t = OO_TaskID order")
  case True
  then have len: "length (orders_of d (OO_TaskID order)) \<le> 1" using agree by (simp add: in_step_def)
  obtain order' where one: "orders_of d t = [order]" and after: "orders_of d' t = [order']" "OO_Status order' = OO_Status x"
    using orders_of_set(2) [OF inv row(1) len, of now] True d'(1) [of t] by auto
  have "in_cycle (Some (OO_Status order), Some (T_TaskStatus task))"
    using agree one True row(2) by (simp add: in_step_def)
  then have "in_cycle (Some (OO_Status x), Some ts)" using step cycle.inv_step by blast
  moreover have "map_option T_TaskStatus (v_task d' t) = Some ts"
    using d'(2) [of t] row(2) True by (simp add: v_task_set_status)
  ultimately show ?thesis using after by (auto simp: in_step_def)
next
  case False
  then have "orders_of d' t = orders_of d t" "v_task d' t = v_task d t"
    using orders_of_set(1) [OF inv row(1)] d' by (simp_all add: v_task_set_status option.map_ident)
  then show ?thesis using agree by (rule in_step_frame)
qed

lemma spec_in_step:
  assumes "outsource_spec U now call d i d'" and inv: "orders_inv d" and agree: "in_step d t"
  shows "in_step d' t"
proof (cases call)
  case (OutsourceCreate p)
  then obtain task no c where task: "v_task d (CO_TaskID p) = Some task" "T_TaskStatus task = TaskStatusPendingOutsource"
      and d': "d' = order_created U now p no (put_codes c d)"
    using assms(1) by (auto simp: outsource_spec_def)
  show ?thesis
  proof (cases "t = CO_TaskID p")
    case True
    have none: "orders_of d t = []"
      using agree task True by (auto simp: in_step_def in_cycle_def split: if_splits)
    show ?thesis
      using task True none by (auto simp: in_step_def in_cycle_def d' order_created_def orders_of_add new_order_def
          v_task_set_status)
  next
    case False
    then have "orders_of d' t = orders_of d t" "v_task d' t = v_task d t"
      by (simp_all add: d' order_created_def orders_of_add new_order_def v_task_set_status option.map_ident)
    then show ?thesis using agree by (rule in_step_frame)
  qed
next
  case (OutsourceReturn p)
  then obtain order task where row: "order_row d i = Some order" "v_task d (OO_TaskID order) = Some task"
      and st: "T_TaskStatus task = TaskStatusOutsourcing" "canReturnOutsource (OO_Status order)"
      and d': "d' = order_returned U now p order task d"
    using assms(1) by (auto simp: outsource_spec_def)
  note ids = order_row_ID [OF row(1)] v_task_ID [OF row(2)]
  show ?thesis
  proof (rule update_in_step [where x = "order\<lparr>OO_Status := OutsourceStatusReturned, OO_ReturnedAt := Some now\<rparr>"
        and now = now and ts = TaskStatusPendingOutsourceReview, OF inv _ row(2) _ _ _ agree])
    show "order_step (Some (OO_Status order), Some (T_TaskStatus task))
        (Some (OO_Status (order\<lparr>OO_Status := OutsourceStatusReturned, OO_ReturnedAt := Some now\<rparr>)),
         Some TaskStatusPendingOutsourceReview)"
      using st by (simp add: came_back)
  qed (use row ids in \<open>simp_all add: d' order_returned_def v_task_set_status\<close>)
next
  case (OutsourceReview p)
  then obtain order task os ts act where row: "order_row d i = Some order" "v_task d (OO_TaskID order) = Some task"
      and st: "T_TaskStatus task = TaskStatusPendingOutsourceReview" "OO_Status order = OutsourceStatusReturned"
      and v: "review_verdict p = Inr (os, ts, act)" and d': "d' = order_reviewed U now p order task os ts act d"
    using assms(1) by (auto simp: outsource_spec_def)
  note ids = order_row_ID [OF row(1)] v_task_ID [OF row(2)]
  show ?thesis
  proof (rule update_in_step [where x = "order\<lparr>OO_Status := os\<rparr>" and now = now and ts = ts,
        OF inv _ row(2) _ _ _ agree])
    show "order_step (Some (OO_Status order), Some (T_TaskStatus task)) (Some (OO_Status (order\<lparr>OO_Status := os\<rparr>)), Some ts)"
      using st verdict_cases [OF v] by simp
  qed (use row ids in \<open>simp_all add: d' order_reviewed_def v_task_set_status\<close>)
qed

lemma run_outsource_in_step:
  assumes "orders_inv (wdb w)" and "in_step (wdb w) t"
  shows "orders_inv (wdb (snd (run_outsource U fmtNow now call w))) \<and>
    in_step (wdb (snd (run_outsource U fmtNow now call w))) t"
proof -
  let ?d' = "wdb (snd (run_outsource U fmtNow now call w))"
  have outcome: "outsource_outcome U now call (wdb w) (fst (run_outsource U fmtNow now call w)) ?d'"
    by (rule any_outcome)
  then have "(\<exists>i. outsource_spec U now call (wdb w) i ?d') \<or> only_codes (wdb w) ?d'"
    unfolding outsource_outcome_def by blast
  then have "in_step ?d' t"
  proof
    assume "only_codes (wdb w) ?d'"
    then obtain c where "?d' = put_codes c (wdb w)" by (auto simp: only_codes_def)
    then show ?thesis using assms(2) in_step_frame [of ?d' t "wdb w"] by simp
  qed (use spec_in_step assms in blast)
  then show ?thesis using outcome_refined [OF outcome assms(1)] by blast
qed

text \<open>
  (C6) A task that waits for outsourcing and has no order, or that is in step with its one order, stays so
  over any sequence of outsourcing calls on any orders, with any failures: it never gets a second
  order, and order and task are in one of the four joint states of the life of an order.
\<close>

theorem one_order_in_step:
  assumes "orders_inv (wdb w)" and "in_step (wdb w) t"
  shows "in_step (wdb (run_outsources U fmtNow calls w)) t"
  using assms
proof (induction calls arbitrary: w)
  case (Cons c calls)
  obtain now call where c: "c = (now, call)" by fastforce
  show ?case unfolding c run_outsources.simps by (intro Cons.IH) (use run_outsource_in_step [OF Cons.prems] in auto)
qed simp

definition waiting_db :: vdb where
  "waiting_db = demo_vdb (demo_task\<lparr>T_TaskStatus := TaskStatusPendingOutsource\<rparr>) []"

definition demo_create :: CreateOutsourceParams where
  "demo_create = \<lparr>CO_TaskID = 1, CO_OperatorID = 2, CO_VendorName = ''v'', CO_OutsourceType = ''t'',
     CO_DeliveryRequirement = [], CO_SettlementNote = []\<rparr>"

theorem one_order_in_step_witness:
  "in_step waiting_db 1 \<and> in_step (wdb (run_outsources (\<lambda>n. replicate n CHR ''u'') id
     [(5, OutsourceCreate demo_create), (6, OutsourceReturn \<lparr>RO_OrderID = 1, RO_OperatorID = 2, RO_Remark = []\<rparr>)]
     \<lparr>wdb = waiting_db, faults = []\<rparr>)) 1"
proof -
  have start: "orders_inv waiting_db" "in_step waiting_db 1"
    by (simp_all add: orders_inv_def in_step_def in_cycle_def orders_of_def waiting_db_def demo_vdb_def v_task_def
        task_row_def demo_task_def)
  show ?thesis by (intro conjI start(2) one_order_in_step) (simp_all add: start)
qed

subsection \<open>What breaks the contract\<close>

text \<open>
  The check that a task waits runs before the transaction and is not repeated in it, and no key of the
  table forbids it: two requests checked at the same time give the task two orders.
\<close>

lemma creates_race:
  assumes "in_step d (CO_TaskID p)" and "v_task d (CO_TaskID p) = Some task"
    and "T_TaskStatus task = TaskStatusPendingOutsource" and "CO_TaskID q = CO_TaskID p"
  shows "length (orders_of (order_created U now' q no' (order_created U now p no d)) (CO_TaskID p)) = 2"
proof -
  have "orders_of d (CO_TaskID p) = []"
    using assms by (auto simp: in_step_def in_cycle_def split: if_splits)
  then show ?thesis using assms(4) by (simp add: order_created_def orders_of_add new_order_def)
qed

lemma v_task_set_handler:
  "v_task (set_task_handler now t h d) i = map_option (\<lambda>r. if i = t \<and> T_CurrentHandlerID r \<noteq> h
     then r\<lparr>T_CurrentHandlerID := h, T_UpdatedAt := now\<rparr> else r) (v_task d i)"
proof -
  have "List.find (\<lambda>r. T_ID r = i) (row_upd (\<lambda>r. T_ID r = t) (\<lambda>r. if r\<lparr>T_CurrentHandlerID := h\<rparr> = r then r
      else r\<lparr>T_CurrentHandlerID := h, T_UpdatedAt := now\<rparr>) rs) =
    map_option (\<lambda>r. if i = t \<and> T_CurrentHandlerID r \<noteq> h then r\<lparr>T_CurrentHandlerID := h, T_UpdatedAt := now\<rparr> else r)
      (List.find (\<lambda>r. T_ID r = i) rs)" for rs
    by (induction rs) (auto simp: same_handler)
  then show ?thesis by (simp add: v_task_def task_row_def set_task_handler_def upd_task_def)
qed

lemma v_task_versions: "v_task (approve_versions t a now d) i = v_task d i"
  by (simp add: v_task_def approve_versions_def)

text \<open>
  The audit service approves the outsourced work of a task without its order: the order stays
  returned, and no outsourcing call can move it any more while the task is where the approval put it.
\<close>

lemma approve_strands_order:
  assumes "v_task d (AP_TaskID p) = Some task" and "T_TaskStatus task = TaskStatusPendingOutsourceReview"
    and "order_row d i = Some order" and "OO_Status order = OutsourceStatusReturned"
    and "validApproveTransition (T_TaskStatus task) (AP_NextStatus p)"
  shows "life (approved s now p task' d) (AP_TaskID p) i = (Some OutsourceStatusReturned, Some (AP_NextStatus p)) \<and>
    \<not> order_step (Some OutsourceStatusReturned, Some (AP_NextStatus p)) l"
proof -
  have rows: "order_row (approved s now p task' d) i = order_row d i"
    by (simp add: approved_def Let_def with_event_def order_row_def effect_defs)
  have next_status: "AP_NextStatus p = TaskStatusPendingWarehouseReceive" using assms(2,5) by simp
  have "map_option T_TaskStatus (v_task (approved s now p task' d) (AP_TaskID p)) = Some (AP_NextStatus p)"
    using assms(1) next_status
    by (simp add: approved_def with_event_def Let_def v_task_set_handler v_task_versions v_task_set_status)
  with rows show ?thesis using assms(3,4) next_status by (auto simp: life_def elim!: order_stepE)
qed

end
