(* ===== verification/Warehouse.thy ===== *)
theory Warehouse
  imports Outsource_Cycle
begin

section \<open>The warehouse\<close>

text \<open>
  \<^verbatim>\<open>service/warehouse_service.go\<close> and the two methods of \<^verbatim>\<open>repo/mysql/customization_job.go\<close> it uses: the
  warehouse receives a finished task, sends it back, or completes it. The receipt, the task's status
  and handler, the customization job and the event change in one transaction. The paged \<^verbatim>\<open>List\<close> and the
  asset version shown beside a receipt are not modelled; the filing trigger is a parameter.
\<close>

subsection \<open>Customization jobs\<close>

abbreviation "CustomizationJobStatusRejectedByWarehouse \<equiv> ''rejected_by_warehouse''"

definition latest_job :: "vdb \<Rightarrow> id \<Rightarrow> CustomizationJob option" where
  "latest_job d taskID = (case rev (sort_key CJ_ID (filter (\<lambda>j. CJ_TaskID j = taskID) (customization_jobs d))) of
     [] \<Rightarrow> None | j # _ \<Rightarrow> Some j)"

definition GetLatestByTaskID :: "id \<Rightarrow> CustomizationJob option vact" where
  "GetLatestByTaskID taskID = query (\<lambda>d. latest_job d taskID)"

definition set_job :: "time \<Rightarrow> CustomizationJob \<Rightarrow> vdb \<Rightarrow> vdb" where
  "set_job now job d = d\<lparr>customization_jobs := row_upd (\<lambda>j. CJ_ID j = CJ_ID job)
     (\<lambda>j. job\<lparr>CJ_ID := CJ_ID j, CJ_TaskID := CJ_TaskID j, CJ_CreatedAt := CJ_CreatedAt j,
        CJ_UpdatedAt := now\<rparr>) (customization_jobs d)\<rparr>"

definition customizationJobRepo_Update :: "time \<Rightarrow> CustomizationJob \<Rightarrow> unit vact" where
  "customizationJobRepo_Update now job = exec (set_job now job)"

definition taskAssetRepo_ListByTaskID :: "id \<Rightarrow> TaskAsset list vact" where
  "taskAssetRepo_ListByTaskID taskID = query (\<lambda>d. filter (\<lambda>a. TA_TaskID a = taskID) (task_assets d))"

subsection \<open>The service\<close>

record ReceiveWarehouseParams =
  WV_TaskID :: id
  WV_ReceiverID :: id
  WV_Remark :: string

record RejectWarehouseParams =
  WJ_TaskID :: id
  WJ_ReceiverID :: id
  WJ_RejectReason :: string
  WJ_RejectCategory :: string
  WJ_Remark :: string

record CompleteWarehouseParams =
  WC_TaskID :: id
  WC_ReceiverID :: id
  WC_Remark :: string

text \<open>\<open>W_fmtTime\<close> is \<^verbatim>\<open>Format\<close> with the layout of receipt numbers.\<close>

record warehouseService =
  W_catalog :: taskOrgCatalog
  W_dataScopeResolver :: bool
  W_scopeUserRepo :: bool
  W_customizationJobRepo :: bool
  W_filingTrigger :: "(id \<Rightarrow> id \<Rightarrow> string \<Rightarrow> unit vop) option"
  W_fmtTime :: "time \<Rightarrow> string"
  W_uuid :: uuid_source

text \<open>A receipt as it is shown, with the fields read off its task.\<close>

record ReceiptView =
  RW_Receipt :: WarehouseReceipt
  RW_WorkflowLane :: string
  RW_SourceDepartment :: string
  RW_TaskType :: string

abbreviation "TaskEventWarehouseReceived \<equiv> ''task.warehouse.received''"
abbreviation "TaskEventWarehouseRejected \<equiv> ''task.warehouse.rejected''"
abbreviation "TaskEventWarehouseCompleted \<equiv> ''task.warehouse.completed''"

fun wrs_string :: "WarehouseReceiptStatus \<Rightarrow> string" where
  "wrs_string WarehouseReceiptStatusReceived = ''received''"
| "wrs_string WarehouseReceiptStatusRejected = ''rejected''"
| "wrs_string WarehouseReceiptStatusCompleted = ''completed''"

definition warehouseReceiptStatusValue :: "WarehouseReceipt option \<Rightarrow> jsonv" where
  "warehouseReceiptStatusValue receipt = (case receipt of None \<Rightarrow> JNull | Some r \<Rightarrow> JText (wrs_string (WR_Status r)))"

definition warehouse_users :: "warehouseService \<Rightarrow> vdb user_repo" where
  "warehouse_users s = (if W_scopeUserRepo s then Some (userRepo_GetByID v_users) else None)"

text \<open>The authoriser rewrites the ownership of the task it is given.\<close>

definition warehouse_authorize ::
  "warehouseService \<Rightarrow> RequestActor option \<Rightarrow> TaskAction \<Rightarrow> Task \<Rightarrow> Task vop" where
  "warehouse_authorize s ctxActor a task =
     bnd (AuthorizeTaskActionWithAttributes (W_catalog s) (W_dataScopeResolver s) (warehouse_users s) ctxActor
            a (Some task) no_stage) (\<lambda>_.
       ret (if resolveTaskActionActor ctxActor = None then task
            else applyTaskReadModelOrgOwnership (W_catalog s) task))"

definition buildWarehouseReceiptNo :: "warehouseService \<Rightarrow> id \<Rightarrow> time \<Rightarrow> string" where
  "buildWarehouseReceiptNo s taskID now = ''WR-'' @ fmt_d taskID @ ''-'' @ W_fmtTime s now"

definition hydrateWarehouseReadyVersion :: "WarehouseReceipt \<Rightarrow> ReceiptView vact" where
  "hydrateWarehouseReadyVersion receipt =
     bnd (taskRepo_GetByID (WR_TaskID receipt)) (\<lambda>r. case r of
       None \<Rightarrow> ret \<lparr>RW_Receipt = receipt, RW_WorkflowLane = [], RW_SourceDepartment = [], RW_TaskType = []\<rparr>
     | Some task \<Rightarrow> bnd (taskAssetRepo_ListByTaskID (WR_TaskID receipt)) (\<lambda>_.
         ret \<lparr>RW_Receipt = receipt, RW_WorkflowLane = lane_string (Task_WorkflowLane task),
              RW_SourceDepartment = taskSourceDepartment task, RW_TaskType = tt_string (T_TaskType task)\<rparr>))"

definition loadReceiptByTask :: "id \<Rightarrow> ReceiptView vop" where
  "loadReceiptByTask taskID = bnd (infra_v (warehouseRepo_GetByTaskID taskID))
     (\<lambda>r. case r of None \<Rightarrow> throw ErrCodeNotFound | Some receipt \<Rightarrow> infra_v (hydrateWarehouseReadyVersion receipt))"

definition resolveWarehouseReceiveTaskState :: "Task \<Rightarrow> id \<Rightarrow> TaskStatus \<times> id option" where
  "resolveWarehouseReceiveTaskState task receiverID = (TaskStatusPendingProductionTransfer, Some receiverID)"

definition resolveWarehouseRejectTaskState :: "Task \<Rightarrow> TaskStatus \<times> id option" where
  "resolveWarehouseRejectTaskState task =
     (if T_CustomizationRequired task \<and> T_TaskStatus task = TaskStatusPendingWarehouseQC
        then (TaskStatusRejectedByWarehouse, T_LastCustomizationOperatorID task)
      else if T_TaskType task = TaskTypePurchaseTask then (TaskStatusRejectedByWarehouse, None)
      else (TaskStatusRejectedByWarehouse, T_DesignerID task))"

definition resolveWarehouseCompleteTaskState :: "Task \<Rightarrow> TaskStatus \<times> id option" where
  "resolveWarehouseCompleteTaskState task = (TaskStatusPendingClose, None)"

text \<open>Whatever makes the update of the status fail is reported as a refused transition.\<close>

definition advanceWarehouseTask :: "time \<Rightarrow> Task \<Rightarrow> TaskStatus \<times> id option \<Rightarrow> unit vact" where
  "advanceWarehouseTask now task nxt =
     bnd (map_err (\<lambda>_. errInvalidTransition) (taskRepo_UpdateStatus now (T_ID task) (fst nxt))) (\<lambda>_.
     taskRepo_UpdateHandler now (T_ID task) (snd nxt))"

definition w_error :: "db_error \<Rightarrow> ErrCode" where
  "w_error e = (if e = errInvalidTransition then ErrCodeInvalidStateTransition else infraError e)"

definition warehouse_event ::
  "warehouseService \<Rightarrow> time \<Rightarrow> id \<Rightarrow> Task \<Rightarrow> string \<Rightarrow> id \<Rightarrow> TaskStatus \<times> id option \<Rightarrow> jsonobj \<Rightarrow> unit vact" where
  "warehouse_event s now taskID task ty receiverID nxt extra =
     transition_event (W_uuid s) now taskID task ty receiverID (fst nxt) (snd nxt) extra"

definition new_receipt :: "warehouseService \<Rightarrow> time \<Rightarrow> id \<Rightarrow> id \<Rightarrow> WarehouseReceiptStatus \<Rightarrow> string \<Rightarrow> string \<Rightarrow> WarehouseReceipt" where
  "new_receipt s now taskID receiverID status reason remark = \<lparr>WR_ID = 0, WR_TaskID = taskID,
     WR_ReceiptNo = buildWarehouseReceiptNo s taskID now, WR_Status = status, WR_ReceiverID = Some receiverID,
     WR_ReceivedAt = Some now, WR_CompletedAt = None, WR_RejectReason = reason, WR_Remark = remark,
     WR_CreatedAt = 0, WR_UpdatedAt = 0\<rparr>"

definition write_receipt :: "time \<Rightarrow> WarehouseReceipt option \<Rightarrow> WarehouseReceipt \<Rightarrow> unit vact" where
  "write_receipt now existing receipt = (case existing of
       None \<Rightarrow> bnd (warehouseRepo_Create now receipt) (\<lambda>_. ret ())
     | Some _ \<Rightarrow> warehouseRepo_Update now receipt)"

subsection \<open>Receiving\<close>

definition received_receipt ::
  "warehouseService \<Rightarrow> time \<Rightarrow> ReceiveWarehouseParams \<Rightarrow> WarehouseReceipt option \<Rightarrow> WarehouseReceipt" where
  "received_receipt s now p existing = (case existing of
       None \<Rightarrow> new_receipt s now (WV_TaskID p) (WV_ReceiverID p) WarehouseReceiptStatusReceived [] (WV_Remark p)
     | Some r \<Rightarrow> r)
     \<lparr>WR_Status := WarehouseReceiptStatusReceived, WR_ReceiverID := Some (WV_ReceiverID p),
      WR_ReceivedAt := Some now, WR_CompletedAt := None, WR_RejectReason := [], WR_Remark := WV_Remark p\<rparr>"

definition received_extra ::
  "ReceiveWarehouseParams \<Rightarrow> WarehouseReceipt option \<Rightarrow> WarehouseReceipt \<Rightarrow> jsonobj" where
  "received_extra p existing receipt =
     [(''receiver_id'', JNum (WV_ReceiverID p)), (''receipt_no'', JText (WR_ReceiptNo receipt)),
      (''remark'', JText (WV_Remark p)), (''from_receipt_status'', warehouseReceiptStatusValue existing),
      (''to_receipt_status'', JText (wrs_string (WR_Status receipt)))]"

definition Receive_tx ::
  "warehouseService \<Rightarrow> time \<Rightarrow> ReceiveWarehouseParams \<Rightarrow> Task \<Rightarrow> WarehouseReceipt option \<Rightarrow> unit vact" where
  "Receive_tx s now p task existing =
     (let receipt = received_receipt s now p existing;
          nxt = resolveWarehouseReceiveTaskState task (WV_ReceiverID p)
      in bnd (write_receipt now existing receipt) (\<lambda>_.
         bnd (advanceWarehouseTask now task nxt) (\<lambda>_.
         warehouse_event s now (WV_TaskID p) task TaskEventWarehouseReceived (WV_ReceiverID p) nxt
           (received_extra p existing receipt))))"

definition receivable :: "WarehouseReceipt option \<Rightarrow> bool" where
  "receivable existing \<longleftrightarrow> (case existing of None \<Rightarrow> True | Some r \<Rightarrow> WR_Status r = WarehouseReceiptStatusRejected)"

definition Receive ::
  "warehouseService \<Rightarrow> time \<Rightarrow> RequestActor option \<Rightarrow> ReceiveWarehouseParams \<Rightarrow> ReceiptView vop" where
  "Receive s now ctxActor p =
     bnd (getTask (WV_TaskID p)) (\<lambda>task0.
     bnd (warehouse_authorize s ctxActor TaskActionWarehouseReceive task0) (\<lambda>task.
     bnd (infra_v (warehouseRepo_GetByTaskID (WV_TaskID p))) (\<lambda>existing.
     bnd (check (receivable existing) ErrCodeInvalidStateTransition) (\<lambda>_.
     bnd (map_err w_error (RunInTx (Receive_tx s now p task existing))) (\<lambda>_.
     loadReceiptByTask (WV_TaskID p))))))"

subsection \<open>Rejecting\<close>

definition withLastOperator :: "CustomizationJob option \<Rightarrow> Task \<Rightarrow> Task" where
  "withLastOperator job task = (case job of
       Some j \<Rightarrow> (case CJ_LastOperatorID j of
           Some operator \<Rightarrow> task\<lparr>T_LastCustomizationOperatorID := Some operator\<rparr> | None \<Rightarrow> task)
     | None \<Rightarrow> task)"

definition asks_last_operator :: "warehouseService \<Rightarrow> Task \<Rightarrow> bool" where
  "asks_last_operator s task \<longleftrightarrow> T_CustomizationRequired task \<and> T_TaskStatus task = TaskStatusPendingWarehouseQC \<and>
     T_LastCustomizationOperatorID task = None \<and> W_customizationJobRepo s"

definition lastOperator :: "warehouseService \<Rightarrow> id \<Rightarrow> Task \<Rightarrow> Task vop" where
  "lastOperator s taskID task = (if asks_last_operator s task
     then bnd (infra_v (GetLatestByTaskID taskID)) (\<lambda>job. ret (withLastOperator job task)) else ret task)"

definition rejected_receipt ::
  "warehouseService \<Rightarrow> time \<Rightarrow> RejectWarehouseParams \<Rightarrow> WarehouseReceipt option \<Rightarrow> WarehouseReceipt" where
  "rejected_receipt s now p existing = (case existing of
       None \<Rightarrow> new_receipt s now (WJ_TaskID p) (WJ_ReceiverID p) WarehouseReceiptStatusRejected (WJ_RejectReason p) (WJ_Remark p)
     | Some r \<Rightarrow> r\<lparr>WR_Status := WarehouseReceiptStatusRejected,
         WR_ReceiverID := (if WR_ReceiverID r = None then Some (WJ_ReceiverID p) else WR_ReceiverID r),
         WR_ReceivedAt := (if WR_ReceivedAt r = None then Some now else WR_ReceivedAt r),
         WR_CompletedAt := None, WR_RejectReason := WJ_RejectReason p, WR_Remark := WJ_Remark p\<rparr>)"

definition rejected_job :: "RejectWarehouseParams \<Rightarrow> CustomizationJob \<Rightarrow> CustomizationJob" where
  "rejected_job p job = job\<lparr>CJ_Status := CustomizationJobStatusRejectedByWarehouse,
     CJ_WarehouseRejectReason := WJ_RejectReason p, CJ_WarehouseRejectCategory := TrimSpace (WJ_RejectCategory p)\<rparr>"

definition applyWarehouseRejectToCustomization ::
  "warehouseService \<Rightarrow> time \<Rightarrow> Task \<Rightarrow> RejectWarehouseParams \<Rightarrow> unit vact" where
  "applyWarehouseRejectToCustomization s now task p =
     bnd (UpdateCustomizationState now (T_ID task) (T_LastCustomizationOperatorID task) (WJ_RejectReason p)
            (TrimSpace (WJ_RejectCategory p))) (\<lambda>_.
     if T_CustomizationRequired task \<and> W_customizationJobRepo s
     then bnd (GetLatestByTaskID (T_ID task)) (\<lambda>r. case r of
         None \<Rightarrow> ret () | Some job \<Rightarrow> customizationJobRepo_Update now (rejected_job p job))
     else ret ())"

definition rejected_extra ::
  "RejectWarehouseParams \<Rightarrow> Task \<Rightarrow> WarehouseReceipt option \<Rightarrow> WarehouseReceipt \<Rightarrow> jsonobj" where
  "rejected_extra p task existing receipt =
     [(''receiver_id'', JNum (WJ_ReceiverID p)), (''receipt_no'', JText (WR_ReceiptNo receipt)),
      (''from_receipt_status'', warehouseReceiptStatusValue existing),
      (''to_receipt_status'', JText (wrs_string WarehouseReceiptStatusRejected)),
      (''reject_reason'', JText (WJ_RejectReason p)), (''reject_category'', JText (TrimSpace (WJ_RejectCategory p))),
      (''remark'', JText (WJ_Remark p)),
      (''resolution_task_status'', JText (ts_string (fst (resolveWarehouseRejectTaskState task)))),
      (''designer_id'', jopt (T_DesignerID task))]"

definition warehouse_Reject_tx ::
  "warehouseService \<Rightarrow> time \<Rightarrow> RejectWarehouseParams \<Rightarrow> Task \<Rightarrow> WarehouseReceipt option \<Rightarrow> unit vact" where
  "warehouse_Reject_tx s now p task existing =
     (let receipt = rejected_receipt s now p existing; nxt = resolveWarehouseRejectTaskState task
      in bnd (if map_option WR_Status existing = Some WarehouseReceiptStatusCompleted then throw errInvalidTransition
              else write_receipt now existing receipt) (\<lambda>_.
         bnd (advanceWarehouseTask now task nxt) (\<lambda>_.
         bnd (applyWarehouseRejectToCustomization s now task p) (\<lambda>_.
         warehouse_event s now (WJ_TaskID p) task TaskEventWarehouseRejected (WJ_ReceiverID p) nxt
           (rejected_extra p task existing receipt)))))"

definition warehouse_Reject ::
  "warehouseService \<Rightarrow> time \<Rightarrow> RequestActor option \<Rightarrow> RejectWarehouseParams \<Rightarrow> ReceiptView vop" where
  "warehouse_Reject s now ctxActor p =
     bnd (check (WJ_RejectReason p \<noteq> [] \<or> WJ_Remark p \<noteq> []) ErrCodeReasonRequired) (\<lambda>_.
     bnd (getTask (WJ_TaskID p)) (\<lambda>task0.
     bnd (warehouse_authorize s ctxActor TaskActionWarehouseReject task0) (\<lambda>task1.
     bnd (infra_v (warehouseRepo_GetByTaskID (WJ_TaskID p))) (\<lambda>existing.
     bnd (lastOperator s (WJ_TaskID p) task1) (\<lambda>task.
     bnd (map_err w_error (RunInTx (warehouse_Reject_tx s now p task existing))) (\<lambda>_.
     loadReceiptByTask (WJ_TaskID p)))))))"

subsection \<open>Completing\<close>

definition completed_receipt :: "time \<Rightarrow> CompleteWarehouseParams \<Rightarrow> WarehouseReceipt \<Rightarrow> WarehouseReceipt" where
  "completed_receipt now p r = r\<lparr>WR_Status := WarehouseReceiptStatusCompleted, WR_CompletedAt := Some now,
     WR_RejectReason := [], WR_Remark := WC_Remark p,
     WR_ReceiverID := (if WR_ReceiverID r = None then Some (WC_ReceiverID p) else WR_ReceiverID r)\<rparr>"

definition completed_extra :: "CompleteWarehouseParams \<Rightarrow> WarehouseReceipt \<Rightarrow> jsonobj" where
  "completed_extra p receipt =
     [(''receiver_id'', JNum (WC_ReceiverID p)), (''receipt_no'', JText (WR_ReceiptNo receipt)),
      (''remark'', JText (WC_Remark p)),
      (''from_receipt_status'', JText (wrs_string WarehouseReceiptStatusReceived)),
      (''to_receipt_status'', JText (wrs_string WarehouseReceiptStatusCompleted))]"

definition Complete_tx ::
  "warehouseService \<Rightarrow> time \<Rightarrow> CompleteWarehouseParams \<Rightarrow> Task \<Rightarrow> WarehouseReceipt \<Rightarrow> unit vact" where
  "Complete_tx s now p task existing =
     (let nxt = resolveWarehouseCompleteTaskState task
      in bnd (warehouseRepo_Update now (completed_receipt now p existing)) (\<lambda>_.
         bnd (advanceWarehouseTask now task nxt) (\<lambda>_.
         warehouse_event s now (WC_TaskID p) task TaskEventWarehouseCompleted (WC_ReceiverID p) nxt
           (completed_extra p existing))))"

definition run_filing :: "warehouseService \<Rightarrow> CompleteWarehouseParams \<Rightarrow> unit vop" where
  "run_filing s p = (case W_filingTrigger s of
       None \<Rightarrow> ret ()
     | Some trigger \<Rightarrow> ignore_err (trigger (WC_TaskID p) (WC_ReceiverID p) (WC_Remark p)))"

definition Complete ::
  "warehouseService \<Rightarrow> time \<Rightarrow> RequestActor option \<Rightarrow> CompleteWarehouseParams \<Rightarrow> ReceiptView vop" where
  "Complete s now ctxActor p =
     bnd (getTask (WC_TaskID p)) (\<lambda>task0.
     bnd (warehouse_authorize s ctxActor TaskActionWarehouseComplete task0) (\<lambda>task.
     bnd (check (T_SKUCode task \<noteq> []) ErrCodeInvalidRequest) (\<lambda>_.
     bnd (infra_v (warehouseRepo_GetByTaskID (WC_TaskID p))) (\<lambda>r. case r of
       None \<Rightarrow> throw ErrCodeInvalidStateTransition
     | Some existing \<Rightarrow>
         bnd (check (WR_Status existing = WarehouseReceiptStatusReceived) ErrCodeInvalidStateTransition) (\<lambda>_.
         bnd (run_filing s p) (\<lambda>_.
         bnd (map_err w_error (RunInTx (Complete_tx s now p task existing))) (\<lambda>_.
         loadReceiptByTask (WC_TaskID p))))))))"

datatype warehouse_call = WarehouseReceive ReceiveWarehouseParams | WarehouseReject RejectWarehouseParams
  | WarehouseComplete CompleteWarehouseParams

definition run_warehouse ::
  "warehouseService \<Rightarrow> time \<Rightarrow> RequestActor option \<Rightarrow> warehouse_call \<Rightarrow> ReceiptView vop" where
  "run_warehouse s now ctxActor call = (case call of
       WarehouseReceive p \<Rightarrow> Receive s now ctxActor p
     | WarehouseReject p \<Rightarrow> warehouse_Reject s now ctxActor p
     | WarehouseComplete p \<Rightarrow> Complete s now ctxActor p)"

subsection \<open>What the transactions write\<close>

definition put_receipt :: "time \<Rightarrow> WarehouseReceipt option \<Rightarrow> WarehouseReceipt \<Rightarrow> vdb \<Rightarrow> vdb" where
  "put_receipt now existing receipt = (case existing of None \<Rightarrow> add_receipt now receipt | Some _ \<Rightarrow> set_receipt now receipt)"

definition advanced :: "time \<Rightarrow> Task \<Rightarrow> TaskStatus \<times> id option \<Rightarrow> vdb \<Rightarrow> vdb" where
  "advanced now task nxt d = set_task_handler now (T_ID task) (snd nxt) (set_task_status now (T_ID task) (fst nxt) d)"

definition received :: "warehouseService \<Rightarrow> time \<Rightarrow> ReceiveWarehouseParams \<Rightarrow> Task \<Rightarrow> WarehouseReceipt option \<Rightarrow> vdb \<Rightarrow> vdb" where
  "received s now p task existing d =
     (let receipt = received_receipt s now p existing;
          nxt = resolveWarehouseReceiveTaskState task (WV_ReceiverID p)
      in with_event (W_uuid s) now (WV_TaskID p) task TaskEventWarehouseReceived (WV_ReceiverID p) (fst nxt) (snd nxt)
           (received_extra p existing receipt) (advanced now task nxt (put_receipt now existing receipt d)))"

definition job_rejected :: "warehouseService \<Rightarrow> time \<Rightarrow> Task \<Rightarrow> RejectWarehouseParams \<Rightarrow> vdb \<Rightarrow> vdb" where
  "job_rejected s now task p d = (if T_CustomizationRequired task \<and> W_customizationJobRepo s
     then (case latest_job d (T_ID task) of None \<Rightarrow> d | Some job \<Rightarrow> set_job now (rejected_job p job) d) else d)"

definition sent_back :: "warehouseService \<Rightarrow> time \<Rightarrow> RejectWarehouseParams \<Rightarrow> Task \<Rightarrow> WarehouseReceipt option \<Rightarrow> vdb \<Rightarrow> vdb" where
  "sent_back s now p task existing d =
     (let receipt = rejected_receipt s now p existing; nxt = resolveWarehouseRejectTaskState task
      in with_event (W_uuid s) now (WJ_TaskID p) task TaskEventWarehouseRejected (WJ_ReceiverID p) (fst nxt) (snd nxt)
           (rejected_extra p task existing receipt)
           (job_rejected s now task p
             (set_customization_state now (T_ID task) (T_LastCustomizationOperatorID task) (WJ_RejectReason p)
                (TrimSpace (WJ_RejectCategory p))
             (advanced now task nxt (put_receipt now existing receipt d)))))"

definition closed_out :: "warehouseService \<Rightarrow> time \<Rightarrow> CompleteWarehouseParams \<Rightarrow> Task \<Rightarrow> WarehouseReceipt \<Rightarrow> vdb \<Rightarrow> vdb" where
  "closed_out s now p task existing d =
     (let nxt = resolveWarehouseCompleteTaskState task
      in with_event (W_uuid s) now (WC_TaskID p) task TaskEventWarehouseCompleted (WC_ReceiverID p) (fst nxt) (snd nxt)
           (completed_extra p existing) (advanced now task nxt (set_receipt now (completed_receipt now p existing) d)))"

lemma write_receipt_effect [effects]:
  "write_receipt now existing receipt w = (Inr u, w') \<Longrightarrow> wdb w' = put_receipt now existing receipt (wdb w) \<and>
   (existing = None \<longrightarrow> receipt_of_task (wdb w) (WR_TaskID receipt) = None)"
  by (auto simp: write_receipt_def put_receipt_def act_success split: option.splits
      dest!: warehouseRepo_Create_effect warehouseRepo_Update_effect)

lemma advance_effect [effects]:
  "advanceWarehouseTask now task nxt w = (Inr u, w') \<Longrightarrow> wdb w' = advanced now task nxt (wdb w)"
  by (auto simp: advanceWarehouseTask_def advanced_def act_success dest!: effects)

text \<open>Any failure of the status update is answered as a refused transition.\<close>

lemma status_failure_is_refusal:
  assumes "taskRepo_UpdateStatus now (T_ID task) (fst nxt) w = (Inl e, w1)"
  shows "map_err w_error (advanceWarehouseTask now task nxt) w = (Inl ErrCodeInvalidStateTransition, w1)"
  using assms by (simp add: advanceWarehouseTask_def map_err_def bnd_def w_error_def)

lemma warehouse_event_effect [effects]:
  "warehouse_event s now i task ty r nxt x w = (Inr u, w') \<Longrightarrow>
   wdb w' = with_event (W_uuid s) now i task ty r (fst nxt) (snd nxt) x (wdb w)"
  by (auto simp: warehouse_event_def dest!: transition_event_effect)

lemma apply_reject_effect [effects]:
  assumes "applyWarehouseRejectToCustomization s now task p w = (Inr u, w')"
  shows "wdb w' = job_rejected s now task p (set_customization_state now (T_ID task)
    (T_LastCustomizationOperatorID task) (WJ_RejectReason p) (TrimSpace (WJ_RejectCategory p)) (wdb w))"
  using assms
  by (auto simp: applyWarehouseRejectToCustomization_def job_rejected_def act_success GetLatestByTaskID_def
      customizationJobRepo_Update_def split: if_splits option.splits
      dest!: UpdateCustomizationState_effect query_success exec_success)

lemma Receive_tx_effect: "Receive_tx s now p task existing w = (Inr u, w') \<Longrightarrow>
  wdb w' = received s now p task existing (wdb w) \<and>
  (existing = None \<longrightarrow> receipt_of_task (wdb w) (WV_TaskID p) = None)"
  by (auto simp: Receive_tx_def received_def act_success Let_def received_receipt_def new_receipt_def dest!: effects)

lemma warehouse_Reject_tx_effect: "warehouse_Reject_tx s now p task existing w = (Inr u, w') \<Longrightarrow>
  wdb w' = sent_back s now p task existing (wdb w) \<and>
  (existing = None \<longrightarrow> receipt_of_task (wdb w) (WJ_TaskID p) = None) \<and>
  map_option WR_Status existing \<noteq> Some WarehouseReceiptStatusCompleted"
  by (auto simp: warehouse_Reject_tx_def sent_back_def act_success Let_def rejected_receipt_def new_receipt_def
      split: if_splits dest!: effects)

lemma Complete_tx_effect: "Complete_tx s now p task existing w = (Inr u, w') \<Longrightarrow>
  wdb w' = closed_out s now p task existing (wdb w)"
  by (auto simp: Complete_tx_def closed_out_def act_success Let_def dest!: effects)

subsection \<open>What a call does\<close>

definition warehouse_seen :: "warehouseService \<Rightarrow> RequestActor option \<Rightarrow> Task \<Rightarrow> Task" where
  "warehouse_seen s ctxActor task = (if resolveTaskActionActor ctxActor = None then task
     else applyTaskReadModelOrgOwnership (W_catalog s) task)"

text \<open>The gates of the authoriser for an action that needs no stage.\<close>

definition may_act :: "taskOrgCatalog \<Rightarrow> RequestActor option \<Rightarrow> TaskAction \<Rightarrow> Task \<Rightarrow> bool" where
  "may_act catalog ctxActor a task \<longleftrightarrow> (case resolveTaskActionActor ctxActor of
       None \<Rightarrow> True
     | Some actor \<Rightarrow>
         let rule = taskActionRuleFor a; seen = applyTaskReadModelOrgOwnership catalog task
         in ActorHasAnyRole (AA_Roles actor) (AR_RequiredRoles rule) \<and>
            (AR_AllowedStatuses rule = [] \<or> T_TaskStatus task \<in> set (AR_AllowedStatuses rule)) \<and>
            may_write actor rule a seen (T_OwnerDepartment seen) (T_OwnerOrgTeam seen))"

lemma read_model_rest [simp]:
  "T_SKUCode (applyTaskReadModelOrgOwnership catalog t) = T_SKUCode t"
  "T_LastCustomizationOperatorID (applyTaskReadModelOrgOwnership catalog t) = T_LastCustomizationOperatorID t"
  by (simp_all add: applyTaskReadModelOrgOwnership_def Let_def)

lemma warehouse_seen_fields [simp]:
  "T_ID (warehouse_seen s c t) = T_ID t" "T_SKUCode (warehouse_seen s c t) = T_SKUCode t"
  "T_TaskStatus (warehouse_seen s c t) = T_TaskStatus t"
  by (simp_all add: warehouse_seen_def)

lemma authorize_gate:
  assumes "a \<notin> set audit_actions" and "a \<noteq> TaskActionReadDetail"
  shows "AuthorizeTaskActionWithAttributes catalog resolver users ctxActor a (Some task) no_stage w =
    ((if may_act catalog ctxActor a task then Inr () else Inl ErrCodePermissionDenied), w)"
proof (cases "resolveTaskActionActor ctxActor")
  case None
  then show ?thesis
    by (simp add: AuthorizeTaskActionWithAttributes_def EvaluateTaskActionPolicyWithAttributes_def may_act_def
        no_decision_def bnd_def ret_def)
next
  case (Some actor)
  have res: "resolveTaskAction a (Some task) no_stage = (a, [])"
    using assms(1) by (simp add: resolveTaskAction_def)
  let ?seen = "applyTaskReadModelOrgOwnership catalog task"
  have gates: "may_act catalog ctxActor a task \<longleftrightarrow> ActorHasAnyRole (AA_Roles actor) (AR_RequiredRoles (taskActionRuleFor a)) \<and>
       (AR_AllowedStatuses (taskActionRuleFor a) = [] \<or>
        T_TaskStatus task \<in> set (AR_AllowedStatuses (taskActionRuleFor a))) \<and>
       may_write actor (taskActionRuleFor a) a ?seen (T_OwnerDepartment ?seen) (T_OwnerOrgTeam ?seen)"
    by (simp add: may_act_def Some Let_def)
  obtain d where d: "EvaluateTaskActionPolicyWithAttributes catalog resolver users ctxActor a (Some task) [] [] no_stage w =
      (Inr d :: ErrCode + TaskActionDecision, w)"
    and allowed: "D_Allowed d \<longleftrightarrow> may_act catalog ctxActor a task"
    by (rule Evaluate_write [OF Some res assms(2), of catalog resolver users w]) (simp add: gates)
  show ?thesis by (simp add: AuthorizeTaskActionWithAttributes_def bnd_def ret_def throw_def d allowed)
qed

definition warehouse_actions :: "TaskAction list" where
  "warehouse_actions = [TaskActionWarehouseReceive, TaskActionWarehouseReject, TaskActionWarehouseComplete]"

lemma warehouse_authorize_run:
  assumes "a \<in> set warehouse_actions"
  shows "warehouse_authorize s ctxActor a task w = ((if may_act (W_catalog s) ctxActor a task
    then Inr (warehouse_seen s ctxActor task) else Inl ErrCodePermissionDenied), w)"
proof -
  have "a \<notin> set audit_actions" "a \<noteq> TaskActionReadDetail"
    using assms by (auto simp: warehouse_actions_def audit_actions_def)
  then show ?thesis
    by (simp add: warehouse_authorize_def authorize_gate bnd_def ret_def warehouse_seen_def)
qed

lemma reads_warehouse [read_only]:
  "a \<in> set warehouse_actions \<Longrightarrow> reads (warehouse_authorize s c a task)"
  "reads (infra_v (warehouseRepo_GetByTaskID i))" "reads (lastOperator s i task)"
  by (simp add: reads_def warehouse_authorize_run)
    (auto simp: lastOperator_def warehouseRepo_GetByTaskID_def GetLatestByTaskID_def intro!: read_only)

lemma reads_taskRepo [read_only]: "reads (taskRepo_GetByID i)"
  unfolding reads_def taskRepo_GetByID_def
  using modules_part.within_read [of "TaskRepo_GetByID i"] by (simp add: TaskRepo_GetByID_def prod_eq_iff)

lemma reads_load [read_only]: "reads (loadReceiptByTask i)"
  by (auto simp: loadReceiptByTask_def hydrateWarehouseReadyVersion_def taskAssetRepo_ListByTaskID_def
      intro!: read_only split: option.splits)

definition last_operator :: "warehouseService \<Rightarrow> vdb \<Rightarrow> id \<Rightarrow> Task \<Rightarrow> Task" where
  "last_operator s d taskID task =
     (if asks_last_operator s task then withLastOperator (latest_job d taskID) task else task)"

definition warehouse_spec ::
  "warehouseService \<Rightarrow> time \<Rightarrow> RequestActor option \<Rightarrow> warehouse_call \<Rightarrow> vdb \<Rightarrow> vdb \<Rightarrow> vdb \<Rightarrow> bool" where
  "warehouse_spec s now ctxActor call d d1 d' \<longleftrightarrow> (case call of
       WarehouseReceive p \<Rightarrow> (\<exists>task. v_task d (WV_TaskID p) = Some task \<and>
         may_act (W_catalog s) ctxActor TaskActionWarehouseReceive task \<and>
         receivable (receipt_of_task d (WV_TaskID p)) \<and>
         d' = received s now p (warehouse_seen s ctxActor task) (receipt_of_task d (WV_TaskID p)) d1)
     | WarehouseReject p \<Rightarrow> (\<exists>task. v_task d (WJ_TaskID p) = Some task \<and>
         may_act (W_catalog s) ctxActor TaskActionWarehouseReject task \<and>
         (WJ_RejectReason p \<noteq> [] \<or> WJ_Remark p \<noteq> []) \<and>
         map_option WR_Status (receipt_of_task d (WJ_TaskID p)) \<noteq> Some WarehouseReceiptStatusCompleted \<and>
         d' = sent_back s now p (last_operator s d (WJ_TaskID p) (warehouse_seen s ctxActor task))
                (receipt_of_task d (WJ_TaskID p)) d1)
     | WarehouseComplete p \<Rightarrow> (\<exists>task receipt. v_task d (WC_TaskID p) = Some task \<and>
         may_act (W_catalog s) ctxActor TaskActionWarehouseComplete task \<and> T_SKUCode task \<noteq> [] \<and>
         receipt_of_task d (WC_TaskID p) = Some receipt \<and> WR_Status receipt = WarehouseReceiptStatusReceived \<and>
         d' = closed_out s now p (warehouse_seen s ctxActor task) receipt d1))"

definition call_task_id :: "warehouse_call \<Rightarrow> id" where
  "call_task_id call = (case call of WarehouseReceive p \<Rightarrow> WV_TaskID p | WarehouseReject p \<Rightarrow> WJ_TaskID p
     | WarehouseComplete p \<Rightarrow> WC_TaskID p)"

text \<open>Only completing a task runs the filing trigger, before its own transaction.\<close>

definition filed :: "warehouseService \<Rightarrow> warehouse_call \<Rightarrow> vdb \<Rightarrow> vdb \<Rightarrow> bool" where
  "filed s call d d1 \<longleftrightarrow> d1 = d \<or> (\<exists>p trigger w1. call = WarehouseComplete p \<and> W_filingTrigger s = Some trigger \<and>
     wdb w1 = d \<and> d1 = wdb (snd (trigger (WC_TaskID p) (WC_ReceiverID p) (WC_Remark p) w1)))"

definition warehouse_outcome ::
  "warehouseService \<Rightarrow> time \<Rightarrow> RequestActor option \<Rightarrow> warehouse_call \<Rightarrow> vdb \<Rightarrow> ErrCode + ReceiptView \<Rightarrow> vdb \<Rightarrow> bool" where
  "warehouse_outcome s now ctxActor call d r d' \<longleftrightarrow> (\<exists>d1. filed s call d d1 \<and>
     (((\<exists>e. r = Inl e) \<and> d' = d1) \<or>
      (warehouse_spec s now ctxActor call d d1 d' \<and>
       (\<forall>v. r = Inr v \<longrightarrow> receipt_of_task d' (call_task_id call) = Some (RW_Receipt v)))))"

lemma warehouse_stop: "r = Inl e \<Longrightarrow> d' = d \<Longrightarrow> warehouse_outcome s now c call d r d'"
  unfolding warehouse_outcome_def filed_def by blast

lemma bnd_map_txE:
  assumes "bnd (map_err f (RunInTx m)) k w = (r, w')"
  obtains (go) x w1 w2 w3 where "wdb w1 = wdb w" "m w1 = (Inr x, w2)" "wdb w3 = wdb w2" "k x w3 = (r, w')"
  | (stop) e where "r = Inl e" "wdb w' = wdb w"
proof (cases "RunInTx m w")
  case (Pair q w3)
  show ?thesis
  proof (cases q)
    case (Inl e)
    then show ?thesis using assms Pair RunInTx_failure [of m w e w3] stop by (auto simp: bnd_def map_err_def)
  next
    case (Inr x)
    then show ?thesis using assms Pair RunInTx_success [of m w x w3] go by (auto simp: bnd_def map_err_def)
  qed
qed

lemma receipt_read: "infra_v (warehouseRepo_GetByTaskID i) w = (Inr r, w1) \<Longrightarrow> r = receipt_of_task (wdb w) i"
  using query_success [of "\<lambda>d. receipt_of_task d i" w r w1]
  by (simp add: infra_v_def map_err_eq_Inr warehouseRepo_GetByTaskID_def)

lemma last_operator_read: "lastOperator s i task w = (Inr t, w1) \<Longrightarrow> t = last_operator s (wdb w) i task"
  by (auto simp: lastOperator_def last_operator_def infra_v_def GetLatestByTaskID_def act_success
      split: if_splits dest!: query_success)

lemma hydrate_receipt: "hydrateWarehouseReadyVersion receipt w = (Inr v, w') \<Longrightarrow> RW_Receipt v = receipt"
  by (auto simp: hydrateWarehouseReadyVersion_def act_success split: option.splits)

lemma load_success:
  assumes "loadReceiptByTask i w = (Inr v, w')"
  shows "receipt_of_task (wdb w) i = Some (RW_Receipt v)"
proof -
  obtain r w1 where r: "infra_v (warehouseRepo_GetByTaskID i) w = (Inr r, w1)"
    and rest: "(case r of None \<Rightarrow> throw ErrCodeNotFound
      | Some receipt \<Rightarrow> infra_v (hydrateWarehouseReadyVersion receipt)) w1 = (Inr v, w')"
    using assms unfolding loadReceiptByTask_def bnd_eq_Inr by blast
  obtain receipt where "r = Some receipt" "hydrateWarehouseReadyVersion receipt w1 = (Inr v, w')"
    using rest by (auto simp: infra_v_def act_success split: option.splits)
  then show ?thesis using receipt_read [OF r] hydrate_receipt [of receipt w1 v w'] by simp
qed

lemma warehouse_answer:
  assumes "loadReceiptByTask (call_task_id call) w3 = (r, w')" and "filed s call d d1"
    and "warehouse_spec s now c call d d1 (wdb w3)"
  shows "warehouse_outcome s now c call d r (wdb w')"
proof -
  have db: "wdb w' = wdb w3" using readsD [OF reads_load assms(1)] .
  have "\<forall>v. r = Inr v \<longrightarrow> receipt_of_task (wdb w') (call_task_id call) = Some (RW_Receipt v)"
    using assms(1) load_success [of "call_task_id call" w3 _ w'] db by auto
  then show ?thesis unfolding warehouse_outcome_def using assms(2,3) db by auto
qed

lemma Receive_outcome:
  assumes "Receive s now c p w = (r, w')"
  shows "warehouse_outcome s now c (WarehouseReceive p) (wdb w) r (wdb w')"
  using assms unfolding Receive_def
proof (cases rule: bnd_readE [OF _ reads_getTask, consumes 1, case_names go stop])
  case (go task0 w1)
  note row = getTask_success [OF go(1)]
  have act: "TaskActionWarehouseReceive \<in> set warehouse_actions" by (simp add: warehouse_actions_def)
  from go(3) show ?thesis
  proof (cases rule: bnd_readE [OF _ reads_warehouse(1) [OF act], consumes 1, case_names go stop])
    case (go task w2)
    then have may: "may_act (W_catalog s) c TaskActionWarehouseReceive task0" "task = warehouse_seen s c task0"
      by (simp_all add: warehouse_authorize_run [OF act] split: if_splits)
    have db2: "wdb w2 = wdb w" using go(2) \<open>wdb w1 = wdb w\<close> by simp
    from go(3) show ?thesis
    proof (cases rule: bnd_readE [OF _ reads_warehouse(2), consumes 1, case_names go stop])
      case (go existing w3)
      then have ex: "existing = receipt_of_task (wdb w) (WV_TaskID p)" using receipt_read db2 by metis
      have db3: "wdb w3 = wdb w" using go(2) db2 by simp
      from go(3) show ?thesis
      proof (cases rule: bnd_readE [OF _ reads_basic(4), consumes 1, case_names go stop])
        case (go u w4)
        then have rec: "receivable existing" and db4: "wdb w4 = wdb w" using db3 by (simp_all add: check_success)
        from go(3) show ?thesis
        proof (cases rule: bnd_map_txE [consumes 1, case_names go stop])
          case (go u w5 w6 w7)
          have "warehouse_spec s now c (WarehouseReceive p) (wdb w) (wdb w) (wdb w7)"
            using Receive_tx_effect [OF go(2)] go(1,3) row may ex rec db4 by (auto simp: warehouse_spec_def)
          then show ?thesis
            using go(4) by (intro warehouse_answer [of _ w7]) (auto simp: call_task_id_def filed_def)
        qed (use db4 warehouse_stop in auto)
      qed (use db3 warehouse_stop in auto)
    qed (use db2 warehouse_stop in auto)
  qed (use \<open>wdb w1 = wdb w\<close> warehouse_stop in auto)
qed (use warehouse_stop in auto)

lemma warehouse_Reject_outcome:
  assumes "warehouse_Reject s now c p w = (r, w')"
  shows "warehouse_outcome s now c (WarehouseReject p) (wdb w) r (wdb w')"
  using assms unfolding warehouse_Reject_def
proof (cases rule: bnd_readE [OF _ reads_basic(4), consumes 1, case_names go stop])
  case (go u w0)
  then have reason: "WJ_RejectReason p \<noteq> [] \<or> WJ_Remark p \<noteq> []" by (simp add: check_success)
  have act: "TaskActionWarehouseReject \<in> set warehouse_actions" by (simp add: warehouse_actions_def)
  from go(3) show ?thesis
  proof (cases rule: bnd_readE [OF _ reads_getTask, consumes 1, case_names go stop])
    case (go task0 w1)
    note row = getTask_success [OF go(1)]
    have db1: "wdb w1 = wdb w" using go(2) \<open>wdb w0 = wdb w\<close> by simp
    from go(3) show ?thesis
    proof (cases rule: bnd_readE [OF _ reads_warehouse(1) [OF act], consumes 1, case_names go stop])
      case (go task1 w2)
      then have may: "may_act (W_catalog s) c TaskActionWarehouseReject task0" "task1 = warehouse_seen s c task0"
        by (simp_all add: warehouse_authorize_run [OF act] split: if_splits)
      have db2: "wdb w2 = wdb w" using go(2) db1 by simp
      from go(3) show ?thesis
      proof (cases rule: bnd_readE [OF _ reads_warehouse(2), consumes 1, case_names go stop])
        case (go existing w3)
        then have ex: "existing = receipt_of_task (wdb w) (WJ_TaskID p)" using receipt_read db2 by metis
        have db3: "wdb w3 = wdb w" using go(2) db2 by simp
        from go(3) show ?thesis
        proof (cases rule: bnd_readE [OF _ reads_warehouse(3), consumes 1, case_names go stop])
          case (go task w4)
          then have task: "task = last_operator s (wdb w) (WJ_TaskID p) task1" using last_operator_read db3 by metis
          have db4: "wdb w4 = wdb w" using go(2) db3 by simp
          from go(3) show ?thesis
          proof (cases rule: bnd_map_txE [consumes 1, case_names go stop])
            case (go u w5 w6 w7)
            have "warehouse_spec s now c (WarehouseReject p) (wdb w) (wdb w) (wdb w7)"
              using warehouse_Reject_tx_effect [OF go(2)] go(1,3) row may ex reason task db4 \<open>wdb w0 = wdb w\<close>
              by (auto simp: warehouse_spec_def)
            then show ?thesis
              using go(4) by (intro warehouse_answer [of _ w7]) (auto simp: call_task_id_def filed_def)
          qed (use db4 warehouse_stop in auto)
        qed (use db3 warehouse_stop in auto)
      qed (use db2 warehouse_stop in auto)
    qed (use db1 warehouse_stop in auto)
  qed (use \<open>wdb w0 = wdb w\<close> warehouse_stop in auto)
qed (use warehouse_stop in auto)

lemma bnd_filingE:
  assumes "bnd (run_filing s p) k w = (r, w')"
  obtains u w1 where "filed s (WarehouseComplete p) (wdb w) (wdb w1)" "k u w1 = (r, w')"
proof (cases "W_filingTrigger s")
  case None
  then show ?thesis using assms that [of w "()"] by (simp add: run_filing_def bnd_def ret_def filed_def)
next
  case (Some trigger)
  let ?w1 = "snd (trigger (WC_TaskID p) (WC_ReceiverID p) (WC_Remark p) w)"
  have "filed s (WarehouseComplete p) (wdb w) (wdb ?w1)" unfolding filed_def using Some by blast
  moreover have "k () ?w1 = (r, w')" using assms Some by (simp add: run_filing_def ignore_err_def bnd_def)
  ultimately show ?thesis by (rule that)
qed

lemma Complete_outcome:
  assumes "Complete s now c p w = (r, w')"
  shows "warehouse_outcome s now c (WarehouseComplete p) (wdb w) r (wdb w')"
  using assms unfolding Complete_def
proof (cases rule: bnd_readE [OF _ reads_getTask, consumes 1, case_names go stop])
  case (go task0 w1)
  note row = getTask_success [OF go(1)]
  have act: "TaskActionWarehouseComplete \<in> set warehouse_actions" by (simp add: warehouse_actions_def)
  from go(3) show ?thesis
  proof (cases rule: bnd_readE [OF _ reads_warehouse(1) [OF act], consumes 1, case_names go stop])
    case (go task w2)
    then have may: "may_act (W_catalog s) c TaskActionWarehouseComplete task0" "task = warehouse_seen s c task0"
      by (simp_all add: warehouse_authorize_run [OF act] split: if_splits)
    have db2: "wdb w2 = wdb w" using go(2) \<open>wdb w1 = wdb w\<close> by simp
    from go(3) show ?thesis
    proof (cases rule: bnd_readE [OF _ reads_basic(4), consumes 1, case_names go stop])
      case (go u w3)
      then have sku: "T_SKUCode task0 \<noteq> []" and db3: "wdb w3 = wdb w"
        using may(2) db2 by (simp_all add: check_success)
      from go(3) show ?thesis
      proof (cases rule: bnd_readE [OF _ reads_warehouse(2), consumes 1, case_names go stop])
        case (go r0 w4)
        then have ex: "r0 = receipt_of_task (wdb w) (WC_TaskID p)" using receipt_read db3 by metis
        have db4: "wdb w4 = wdb w" using go(2) db3 by simp
        show ?thesis
        proof (cases r0)
          case None
          then show ?thesis using go(3) db4 warehouse_stop by (auto simp: throw_def)
        next
          case (Some existing)
          from go(3) show ?thesis
            unfolding Some option.case
          proof (cases rule: bnd_readE [OF _ reads_basic(4), consumes 1, case_names go stop])
            case (go u w5)
            then have rec: "WR_Status existing = WarehouseReceiptStatusReceived" and db5: "wdb w5 = wdb w"
              using db4 by (simp_all add: check_success)
            from bnd_filingE [OF go(3)] obtain u w6 where f: "filed s (WarehouseComplete p) (wdb w) (wdb w6)"
              and rest: "bnd (map_err w_error (RunInTx (Complete_tx s now p task existing)))
                (\<lambda>_. loadReceiptByTask (WC_TaskID p)) w6 = (r, w')"
              using db5 by metis
            from rest show ?thesis
            proof (cases rule: bnd_map_txE [consumes 1, case_names go stop])
              case (go u w7 w8 w9)
              have "receipt_of_task (wdb w) (WC_TaskID p) = Some existing" using ex Some by simp
              then have "warehouse_spec s now c (WarehouseComplete p) (wdb w) (wdb w6) (wdb w9)"
                using Complete_tx_effect [OF go(2)] go(1,3) row may sku rec by (auto simp: warehouse_spec_def)
              then show ?thesis
                using go(4) f by (intro warehouse_answer [of _ w9]) (auto simp: call_task_id_def)
            next
              case (stop e)
              then show ?thesis unfolding warehouse_outcome_def using f by auto
            qed
          qed (use db4 warehouse_stop in auto)
        qed
      qed (use db3 warehouse_stop in auto)
    qed (use db2 warehouse_stop in auto)
  qed (use \<open>wdb w1 = wdb w\<close> warehouse_stop in auto)
qed (use warehouse_stop in auto)

lemma warehouse_any:
  "warehouse_outcome s now c call (wdb w) (fst (run_warehouse s now c call w)) (wdb (snd (run_warehouse s now c call w)))"
  using Receive_outcome [OF surjective_pairing] warehouse_Reject_outcome [OF surjective_pairing]
    Complete_outcome [OF surjective_pairing]
  by (cases call) (simp_all add: run_warehouse_def)

text \<open>
  (C25) A call of the warehouse, whatever fails in it, writes the receipt, the task's status and handler,
  the customization job and the event together or none of them, and only when its gates hold for the
  rows it read: the authoriser's, and that the receipt can be received, is not completed, or is
  received. A receipt it returns is the one the database now has. Only the filing trigger of a
  completion, which runs before the transaction, may have changed anything when the call fails.
\<close>

theorem warehouse_call_all_or_nothing:
  "warehouse_outcome s now ctxActor call (wdb w) (fst (run_warehouse s now ctxActor call w))
     (wdb (snd (run_warehouse s now ctxActor call w)))"
  using Receive_outcome [OF surjective_pairing] warehouse_Reject_outcome [OF surjective_pairing]
    Complete_outcome [OF surjective_pairing]
  by (cases call) (simp_all add: run_warehouse_def)

subsection \<open>The life of a receipt\<close>

text \<open>
  The joint states of a task's receipt and the task. For a request with an actor the authoriser also
  asks that the task waits for the warehouse; a request without one is let through.
\<close>

type_synonym receipt_life = "WarehouseReceiptStatus option \<times> TaskStatus option"

definition waits_for_warehouse :: "TaskStatus \<Rightarrow> bool" where
  "waits_for_warehouse ts \<longleftrightarrow> ts = TaskStatusPendingWarehouseReceive \<or> ts = TaskStatusPendingWarehouseQC"

inductive receipt_step :: "bool \<Rightarrow> receipt_life \<Rightarrow> receipt_life \<Rightarrow> bool" for gated :: bool where
  taken: "r = None \<or> r = Some WarehouseReceiptStatusRejected \<Longrightarrow> gated \<longrightarrow> waits_for_warehouse ts \<Longrightarrow>
    receipt_step gated (r, Some ts) (Some WarehouseReceiptStatusReceived, Some TaskStatusPendingProductionTransfer)"
| refused: "r \<noteq> Some WarehouseReceiptStatusCompleted \<Longrightarrow> gated \<longrightarrow> waits_for_warehouse ts \<Longrightarrow>
    receipt_step gated (r, Some ts) (Some WarehouseReceiptStatusRejected, Some TaskStatusRejectedByWarehouse)"
| closed: "gated \<longrightarrow> waits_for_warehouse ts \<or> ts = TaskStatusPendingProductionTransfer \<Longrightarrow>
    receipt_step gated (Some WarehouseReceiptStatusReceived, Some ts)
      (Some WarehouseReceiptStatusCompleted, Some TaskStatusPendingClose)"

inductive_cases receipt_stepE: "receipt_step gated s t"

definition receipt_life_of :: "vdb \<Rightarrow> id \<Rightarrow> receipt_life" where
  "receipt_life_of d t = (map_option WR_Status (receipt_of_task d t), map_option T_TaskStatus (v_task d t))"

definition receipts_inv :: "vdb \<Rightarrow> bool" where
  "receipts_inv d \<longleftrightarrow> distinct (map WR_ID (warehouse_receipts d)) \<and> distinct (map WR_TaskID (warehouse_receipts d)) \<and>
     list_all (\<lambda>r. WR_ID r < next_receipt d) (warehouse_receipts d)"

lemma completed_final: "\<not> receipt_step gated (Some WarehouseReceiptStatusCompleted, ts) s"
  by (auto elim!: receipt_stepE)

lemma receipt_frame [simp]:
  "warehouse_receipts (with_event U now i task ty op st h x d) = warehouse_receipts d"
  "next_receipt (with_event U now i task ty op st h x d) = next_receipt d"
  "warehouse_receipts (advanced now task nxt d) = warehouse_receipts d"
  "next_receipt (advanced now task nxt d) = next_receipt d"
  "warehouse_receipts (set_customization_state now i l r c d) = warehouse_receipts d"
  "next_receipt (set_customization_state now i l r c d) = next_receipt d"
  "warehouse_receipts (job_rejected s now task p d) = warehouse_receipts d"
  "next_receipt (job_rejected s now task p d) = next_receipt d"
  by (simp_all add: with_event_def advanced_def effect_defs job_rejected_def set_job_def split: option.splits)

lemma v_task_warehouse [simp]:
  "v_task (with_event U now i task ty op st h x d) t = v_task d t"
  "v_task (put_receipt now existing receipt d) t = v_task d t" "v_task (set_receipt now receipt d) t = v_task d t"
  "v_task (add_receipt now receipt d) t = v_task d t"
  "v_task (job_rejected s now task p d) t = v_task d t"
  by (simp_all add: v_task_def with_event_def effect_defs put_receipt_def job_rejected_def set_job_def split: option.splits)

lemma status_of_advanced [simp]: "map_option T_TaskStatus (v_task (advanced now task nxt d) t) =
  (if t = T_ID task then map_option (\<lambda>_. fst nxt) (v_task d t) else map_option T_TaskStatus (v_task d t))"
  by (cases "t = T_ID task"; cases "v_task d t") (auto simp: advanced_def v_task_set_handler v_task_set_status)

lemma status_of_customization [simp]:
  "map_option T_TaskStatus (v_task (set_customization_state now i l r c d) t) = map_option T_TaskStatus (v_task d t)"
proof -
  have "map_option T_TaskStatus (List.find (\<lambda>x. T_ID x = t) (row_upd (\<lambda>x. T_ID x = i)
      (\<lambda>x. if x\<lparr>T_LastCustomizationOperatorID := l, T_WarehouseRejectReason := r, T_WarehouseRejectCategory := c\<rparr> = x
        then x else x\<lparr>T_LastCustomizationOperatorID := l, T_WarehouseRejectReason := r,
          T_WarehouseRejectCategory := c, T_UpdatedAt := now\<rparr>) rs)) =
    map_option T_TaskStatus (List.find (\<lambda>x. T_ID x = t) rs)" for rs
    by (induction rs) auto
  then show ?thesis by (simp add: v_task_def task_row_def set_customization_state_def upd_task_def)
qed

text \<open>Writing the receipt of a task touches no other task's receipt.\<close>

lemma receipt_of_cong: "warehouse_receipts d' = warehouse_receipts d \<Longrightarrow> receipt_of_task d' t = receipt_of_task d t"
  by (simp add: receipt_of_task_def)

lemma receipts_inv_cong: "warehouse_receipts d' = warehouse_receipts d \<Longrightarrow> next_receipt d' = next_receipt d \<Longrightarrow>
  receipts_inv d' = receipts_inv d"
  by (simp add: receipts_inv_def)

lemma receipt_cols_keys [simp]:
  "WR_ID (receipt_cols x r) = WR_ID r" "WR_TaskID (receipt_cols x r) = WR_TaskID r"
  "WR_Status (receipt_cols x r) = WR_Status x"
  by (simp_all add: receipt_cols_def)

lemma set_receipt_keys: "map WR_ID (warehouse_receipts (set_receipt now x d)) = map WR_ID (warehouse_receipts d)"
  "map WR_TaskID (warehouse_receipts (set_receipt now x d)) = map WR_TaskID (warehouse_receipts d)"
  by (simp_all add: set_receipt_def map_row_upd)

lemma set_receipt_inv: "receipts_inv d \<Longrightarrow> receipts_inv (set_receipt now x d)"
  unfolding receipts_inv_def set_receipt_keys
  by (simp add: set_receipt_def all_keys [where k = WR_ID])

lemma set_receipt_at:
  assumes "receipts_inv d" and "receipt_of_task d t = Some old" and "WR_ID x = WR_ID old"
  shows "map_option WR_Status (receipt_of_task (set_receipt now x d) u) =
    (if u = t then Some (WR_Status x) else map_option WR_Status (receipt_of_task d u))"
proof -
  have old: "old \<in> set (warehouse_receipts d)" "WR_TaskID old = t"
    using assms(2) by (auto simp: receipt_of_task_def dest: find_SomeD)
  have other: "r = old" if "r \<in> set (warehouse_receipts d)" "WR_ID r = WR_ID x" for r
    using that old(1) assms(1,3) distinct_key_eq [of WR_ID "warehouse_receipts d"] by (simp add: receipts_inv_def)
  let ?f = "\<lambda>r. if receipt_cols x r = r then r else (receipt_cols x r)\<lparr>WR_UpdatedAt := now\<rparr>"
  have st: "WR_Status (?f r) = WR_Status x" for r by (cases "receipt_cols x r = r") (auto, metis receipt_cols_keys(3))
  have find: "receipt_of_task (set_receipt now x d) u =
      map_option (\<lambda>r. if WR_ID r = WR_ID x then ?f r else r) (receipt_of_task d u)"
    unfolding receipt_of_task_def set_receipt_def by (simp add: find_row_upd)
  show ?thesis
  proof (cases "u = t")
    case True
    have "receipt_of_task (set_receipt now x d) u = Some (?f old)" using True assms(2,3) find by simp
    then show ?thesis using True st [of old] by (simp only: option.map if_True simp_thms)
  next
    case False
    have "WR_ID r \<noteq> WR_ID x" if "receipt_of_task d u = Some r" for r
      using that other [of r] old(2) False by (auto simp: receipt_of_task_def dest: find_SomeD)
    then show ?thesis using False by (cases "receipt_of_task d u") (simp_all add: find)
  qed
qed

lemma add_receipt_at:
  assumes "receipt_of_task d (WR_TaskID x) = None"
  shows "map_option WR_Status (receipt_of_task (add_receipt now x d) u) =
    (if u = WR_TaskID x then Some (WR_Status x) else map_option WR_Status (receipt_of_task d u))"
  using assms by (auto simp: receipt_of_task_def add_receipt_def find_append split: option.splits)

lemma add_receipt_inv:
  assumes "receipts_inv d" and "receipt_of_task d (WR_TaskID x) = None"
  shows "receipts_inv (add_receipt now x d)"
  using assms by (fastforce simp: receipts_inv_def add_receipt_def list_all_iff receipt_of_task_def find_None_iff)

text \<open>The service's contract for a call on task \<open>t\<close>: no change of life, or one step of its own task's.\<close>

definition receipt_refined :: "bool \<Rightarrow> vdb \<Rightarrow> id \<Rightarrow> vdb \<Rightarrow> bool" where
  "receipt_refined gated d t d' \<longleftrightarrow> receipts_inv d' \<and>
     (receipt_life_of d' t = receipt_life_of d t \<or> receipt_step gated (receipt_life_of d t) (receipt_life_of d' t)) \<and>
     (\<forall>u. u \<noteq> t \<longrightarrow> receipt_life_of d' u = receipt_life_of d u)"

text \<open>What the filing of a task must leave alone: receipts and statuses.\<close>

definition same_lives :: "vdb \<Rightarrow> vdb \<Rightarrow> bool" where
  "same_lives d d1 \<longleftrightarrow> warehouse_receipts d1 = warehouse_receipts d \<and> next_receipt d1 = next_receipt d \<and>
     (\<forall>t. map_option T_TaskStatus (v_task d1 t) = map_option T_TaskStatus (v_task d t))"

definition quiet_filing :: "warehouseService \<Rightarrow> bool" where
  "quiet_filing s \<longleftrightarrow> (case W_filingTrigger s of None \<Rightarrow> True
     | Some trigger \<Rightarrow> \<forall>i a c w. same_lives (wdb w) (wdb (snd (trigger i a c w))))"

lemma filed_lives: "filed s call d d1 \<Longrightarrow> quiet_filing s \<Longrightarrow> same_lives d d1"
  by (auto simp: filed_def quiet_filing_def same_lives_def)

lemma same_lives_life: "same_lives d d1 \<Longrightarrow> receipt_life_of d1 t = receipt_life_of d t"
  by (simp add: same_lives_def receipt_life_of_def receipt_of_task_def)

lemma same_lives_inv: "same_lives d d1 \<Longrightarrow> receipts_inv d1 = receipts_inv d"
  by (simp add: same_lives_def receipts_inv_def)

lemma may_act_gate:
  assumes "may_act catalog c a task" and "resolveTaskActionActor c \<noteq> None" and "a \<in> set warehouse_actions"
  shows "waits_for_warehouse (T_TaskStatus task) \<or>
    (a = TaskActionWarehouseComplete \<and> T_TaskStatus task = TaskStatusPendingProductionTransfer)"
  using assms by (auto simp: may_act_def warehouse_actions_def waits_for_warehouse_def taskActionRuleFor_def Let_def)

text \<open>A transaction that puts a receipt, advances the task and leaves the rest of both alone.\<close>

lemma refined_by_write:
  assumes inv: "receipts_inv d" and task: "v_task d t = Some task"
    and x: "WR_TaskID x = t" and old: "\<And>r. receipt_of_task d t = Some r \<Longrightarrow> WR_ID x = WR_ID r"
    and receipts: "warehouse_receipts d' = warehouse_receipts (put_receipt now (receipt_of_task d t) x d)"
      "next_receipt d' = next_receipt (put_receipt now (receipt_of_task d t) x d)"
    and status: "\<And>u. map_option T_TaskStatus (v_task d' u) =
      (if u = t then Some ts else map_option T_TaskStatus (v_task d u))"
    and step: "receipt_step gated (map_option WR_Status (receipt_of_task d t), Some (T_TaskStatus task))
      (Some (WR_Status x), Some ts)"
  shows "receipt_refined gated d t d'"
proof -
  have at: "receipts_inv (put_receipt now (receipt_of_task d t) x d) \<and>
      (\<forall>u. map_option WR_Status (receipt_of_task (put_receipt now (receipt_of_task d t) x d) u) =
        (if u = t then Some (WR_Status x) else map_option WR_Status (receipt_of_task d u)))"
  proof (cases "receipt_of_task d t")
    case None
    then show ?thesis using inv x add_receipt_inv [of d x now] add_receipt_at [of d x now] by (simp add: put_receipt_def)
  next
    case (Some r)
    then show ?thesis
      using inv old [OF Some] set_receipt_inv [of d now x] set_receipt_at [of d t r x now] by (simp add: put_receipt_def)
  qed
  then have "receipts_inv d'" "\<And>u. map_option WR_Status (receipt_of_task d' u) =
      (if u = t then Some (WR_Status x) else map_option WR_Status (receipt_of_task d u))"
    using receipts_inv_cong [OF receipts] receipt_of_cong [OF receipts(1)] by simp_all
  then show ?thesis using status step task by (simp add: receipt_refined_def receipt_life_of_def)
qed

lemma receipt_of_task_ID: "receipt_of_task d t = Some r \<Longrightarrow> WR_TaskID r = t"
  by (auto simp: receipt_of_task_def dest: find_SomeD)

lemma last_operator_fields [simp]:
  "T_ID (last_operator s d i task) = T_ID task" "T_TaskStatus (last_operator s d i task) = T_TaskStatus task"
  by (simp_all add: last_operator_def withLastOperator_def split: option.splits)

lemma reject_status [simp]: "fst (resolveWarehouseRejectTaskState task) = TaskStatusRejectedByWarehouse"
  by (simp add: resolveWarehouseRejectTaskState_def)

lemma refined_later: "same_lives d d1 \<Longrightarrow> receipt_refined gated d1 t d' \<Longrightarrow> receipt_refined gated d t d'"
  using same_lives_life [of d d1] by (simp add: receipt_refined_def)

lemma spec_refined:
  assumes spec: "warehouse_spec s now c call d d1 d'" and inv: "receipts_inv d" and lives: "same_lives d d1"
  shows "receipt_refined (resolveTaskActionActor c \<noteq> None) d (call_task_id call) d'"
proof (rule refined_later [OF lives])
  have inv1: "receipts_inv d1" and same: "\<And>t. receipt_of_task d1 t = receipt_of_task d t"
    "\<And>t. map_option T_TaskStatus (v_task d1 t) = map_option T_TaskStatus (v_task d t)"
    using inv lives by (simp_all add: same_lives_inv) (simp_all add: same_lives_def receipt_of_task_def)
  show "receipt_refined (resolveTaskActionActor c \<noteq> None) d1 (call_task_id call) d'"
  proof (cases call)
    case (WarehouseReceive p)
    then obtain task where row: "v_task d (WV_TaskID p) = Some task"
      and gate: "may_act (W_catalog s) c TaskActionWarehouseReceive task" "receivable (receipt_of_task d (WV_TaskID p))"
      and d': "d' = received s now p (warehouse_seen s c task) (receipt_of_task d (WV_TaskID p)) d1"
      using spec by (auto simp: warehouse_spec_def)
    obtain task1 where row1: "v_task d1 (WV_TaskID p) = Some task1" "T_TaskStatus task1 = T_TaskStatus task"
      using same(2) [of "WV_TaskID p"] row by auto
    let ?x = "received_receipt s now p (receipt_of_task d (WV_TaskID p))"
    show ?thesis
      unfolding WarehouseReceive call_task_id_def warehouse_call.case
    proof (rule refined_by_write [OF inv1 row1(1), where x = ?x and now = now and ts = TaskStatusPendingProductionTransfer])
      show "receipt_step (resolveTaskActionActor c \<noteq> None)
          (map_option WR_Status (receipt_of_task d1 (WV_TaskID p)), Some (T_TaskStatus task1))
          (Some (WR_Status ?x), Some TaskStatusPendingProductionTransfer)"
        using gate may_act_gate [OF gate(1)] unfolding same(1) row1(2)
        by (auto simp: receivable_def received_receipt_def warehouse_actions_def intro!: taken split: option.splits)
    qed (use v_task_ID [OF row] in \<open>auto simp: received_receipt_def new_receipt_def d' received_def Let_def same
        put_receipt_def resolveWarehouseReceiveTaskState_def row1 dest: receipt_of_task_ID split: option.splits\<close>)
  next
    case (WarehouseReject p)
    then obtain task where row: "v_task d (WJ_TaskID p) = Some task"
      and gate: "may_act (W_catalog s) c TaskActionWarehouseReject task"
        "map_option WR_Status (receipt_of_task d (WJ_TaskID p)) \<noteq> Some WarehouseReceiptStatusCompleted"
      and d': "d' = sent_back s now p (last_operator s d (WJ_TaskID p) (warehouse_seen s c task))
        (receipt_of_task d (WJ_TaskID p)) d1"
      using spec by (auto simp: warehouse_spec_def)
    obtain task1 where row1: "v_task d1 (WJ_TaskID p) = Some task1" "T_TaskStatus task1 = T_TaskStatus task"
      using same(2) [of "WJ_TaskID p"] row by auto
    let ?x = "rejected_receipt s now p (receipt_of_task d (WJ_TaskID p))"
    have x: "WR_Status ?x = WarehouseReceiptStatusRejected"
      by (simp add: rejected_receipt_def new_receipt_def split: option.splits)
    show ?thesis
      unfolding WarehouseReject call_task_id_def warehouse_call.case
    proof (rule refined_by_write [OF inv1 row1(1), where x = ?x and now = now and ts = TaskStatusRejectedByWarehouse])
      show "receipt_step (resolveTaskActionActor c \<noteq> None)
          (map_option WR_Status (receipt_of_task d1 (WJ_TaskID p)), Some (T_TaskStatus task1))
          (Some (WR_Status ?x), Some TaskStatusRejectedByWarehouse)"
        using gate may_act_gate [OF gate(1)] unfolding same(1) row1(2) x
        by (intro refused) (auto simp: warehouse_actions_def)
    qed (use v_task_ID [OF row] in \<open>auto simp: rejected_receipt_def new_receipt_def d' sent_back_def Let_def same
        put_receipt_def row1 dest: receipt_of_task_ID split: option.splits\<close>)
  next
    case (WarehouseComplete p)
    then obtain task r where row: "v_task d (WC_TaskID p) = Some task"
      and gate: "may_act (W_catalog s) c TaskActionWarehouseComplete task"
        "receipt_of_task d (WC_TaskID p) = Some r" "WR_Status r = WarehouseReceiptStatusReceived"
      and d': "d' = closed_out s now p (warehouse_seen s c task) r d1"
      using spec by (auto simp: warehouse_spec_def)
    obtain task1 where row1: "v_task d1 (WC_TaskID p) = Some task1" "T_TaskStatus task1 = T_TaskStatus task"
      using same(2) [of "WC_TaskID p"] row by auto
    show ?thesis
      unfolding WarehouseComplete call_task_id_def warehouse_call.case
    proof (rule refined_by_write [OF inv1 row1(1), where x = "completed_receipt now p r" and now = now
          and ts = TaskStatusPendingClose])
      show "receipt_step (resolveTaskActionActor c \<noteq> None)
          (map_option WR_Status (receipt_of_task d1 (WC_TaskID p)), Some (T_TaskStatus task1))
          (Some (WR_Status (completed_receipt now p r)), Some TaskStatusPendingClose)"
        using gate(2,3) may_act_gate [OF gate(1)] unfolding same(1) row1(2)
        by (auto simp: completed_receipt_def warehouse_actions_def intro!: closed)
    qed (use v_task_ID [OF row] gate(2) in \<open>auto simp: completed_receipt_def d' closed_out_def Let_def same
        put_receipt_def resolveWarehouseCompleteTaskState_def row1 dest: receipt_of_task_ID\<close>)
  qed
qed

text \<open>
  (C5) The warehouse refines the life of a receipt: a call, whatever fails in it, leaves receipt and status
  of its task alone or moves them together by one step of the machine, and touches no other task's. A
  completed receipt is final, and for a request with an actor only a task that waits for the warehouse is
  received or sent back. The filing trigger must leave receipts and statuses alone.
\<close>

theorem warehouse_refines_receipt_life:
  assumes "receipts_inv (wdb w)" and "quiet_filing s"
  shows "receipt_refined (resolveTaskActionActor ctxActor \<noteq> None) (wdb w) (call_task_id call)
    (wdb (snd (run_warehouse s now ctxActor call w)))"
proof -
  let ?d' = "wdb (snd (run_warehouse s now ctxActor call w))"
  obtain d1 where d1: "filed s call (wdb w) d1"
    and cases: "?d' = d1 \<or> warehouse_spec s now ctxActor call (wdb w) d1 ?d'"
    using warehouse_any [of s now ctxActor call w] unfolding warehouse_outcome_def by blast
  have lives: "same_lives (wdb w) d1" by (rule filed_lives [OF d1 assms(2)])
  from cases show ?thesis
  proof
    assume "?d' = d1"
    then show ?thesis
      using same_lives_life [OF lives] same_lives_inv [OF lives] assms(1) by (simp add: receipt_refined_def)
  qed (rule spec_refined [OF _ assms(1) lives])
qed

definition demo_warehouse :: warehouseService where
  "demo_warehouse = \<lparr>W_catalog = empty_catalog, W_dataScopeResolver = False, W_scopeUserRepo = False,
     W_customizationJobRepo = True, W_filingTrigger = Some (\<lambda>_ _ _. ret ()), W_fmtTime = (\<lambda>_. ''20260101000000''),
     W_uuid = (\<lambda>_. ''u'')\<rparr>"

definition warehouse_db :: vdb where
  "warehouse_db = demo_vdb (demo_task\<lparr>T_TaskStatus := TaskStatusPendingWarehouseReceive\<rparr>) []"

theorem warehouse_refines_receipt_life_witness:
  "receipt_refined False warehouse_db 1 (wdb (snd (run_warehouse demo_warehouse 5 None
     (WarehouseReceive \<lparr>WV_TaskID = 1, WV_ReceiverID = 3, WV_Remark = []\<rparr>) \<lparr>wdb = warehouse_db, faults = []\<rparr>)))"
proof -
  have "receipts_inv warehouse_db" by (simp add: receipts_inv_def warehouse_db_def demo_vdb_def)
  moreover have "quiet_filing demo_warehouse" by (simp add: quiet_filing_def demo_warehouse_def same_lives_def)
  ultimately show ?thesis
    using warehouse_refines_receipt_life [of "\<lparr>wdb = warehouse_db, faults = []\<rparr>" demo_warehouse None
        "WarehouseReceive \<lparr>WV_TaskID = 1, WV_ReceiverID = 3, WV_Remark = []\<rparr>" 5]
    by (simp add: call_task_id_def resolveTaskActionActor_def)
qed

end
