(* ===== verification/Auto_Release.thy ===== *)
theory Auto_Release
  imports Warehouse Module_Invariant
begin

section \<open>The automatic release of the warehouse\<close>

text \<open>
  \<^verbatim>\<open>service/warehouse_auto_release_job.go\<close> and the query of \<^verbatim>\<open>repo/mysql/task_asset_flow.go\<close> that
  finds its tasks: a finished task the warehouse has left alone for the grace period is received,
  completed and closed by the system, in one transaction whose every move of the status is a
  compare-and-set. The notification and the synchronisation of images after the close are parameters.
\<close>

subsection \<open>The tasks to release\<close>

text \<open>The columns of \<^verbatim>\<open>task_sku_items\<close> and \<^verbatim>\<open>erp_product_sync_records\<close> the query reads.\<close>

record TaskSKUItem =
  SI_TaskID :: id
  SI_FilingStatus :: string
  SI_ERPSyncStatus :: string
  SI_ERPSyncRequired :: bool

record ERPProductSyncRecord =
  ES_TaskID :: id
  ES_SKUCode :: string
  ES_ERPSyncStatus :: string

record adb =
  a_workflow :: vdb
  task_sku_items :: "TaskSKUItem list"
  erp_product_sync_records :: "ERPProductSyncRecord list"

definition put_workflow :: "vdb \<Rightarrow> adb \<Rightarrow> adb" where
  "put_workflow v d = d\<lparr>a_workflow := v\<rparr>"

interpretation workflow_part: db_part a_workflow put_workflow
  by unfold_locales (simp_all add: put_workflow_def)

abbreviation "FilingStatusFiled \<equiv> ''filed''"
abbreviation "ProductManagementERPSyncStatusSynced \<equiv> ''synced''"
abbreviation "TaskEventClosed \<equiv> ''task.closed''"

definition releasable_asset_types :: "string list" where
  "releasable_asset_types = [TaskAssetTypeDelivery, ''draft'', ''revised'', ''final'', ''outsource_return'']"

text \<open>A live version that is current for its asset, of one of these types.\<close>

definition current_release_asset :: "vdb \<Rightarrow> id \<Rightarrow> TaskAsset \<Rightarrow> bool" where
  "current_release_asset d taskID v \<longleftrightarrow> TA_TaskID v = taskID \<and>
     list_ex (ci_eq (TA_AssetType v)) releasable_asset_types \<and> TA_DeletedAt v = None \<and> TA_CleanedAt v = None \<and>
     list_ex (\<lambda>a. TA_AssetID v = Some (DA_ID a) \<and> DA_CurrentVersionID a = Some (TA_ID v)) (design_assets d)"

definition sku_items_ready :: "adb \<Rightarrow> id \<Rightarrow> bool" where
  "sku_items_ready d taskID \<longleftrightarrow>
     (let items = filter (\<lambda>i. SI_TaskID i = taskID) (task_sku_items d)
      in items \<noteq> [] \<and> list_all (\<lambda>i. ci_eq (SI_FilingStatus i) FilingStatusFiled \<and>
           ci_eq (SI_ERPSyncStatus i) FilingStatusFiled \<and> \<not> SI_ERPSyncRequired i) items)"

definition legacy_sku_ready :: "adb \<Rightarrow> id \<Rightarrow> bool" where
  "legacy_sku_ready d taskID \<longleftrightarrow> \<not> list_ex (\<lambda>i. SI_TaskID i = taskID) (task_sku_items d) \<and>
     (let records = filter (\<lambda>r. ES_TaskID r = taskID \<and> \<not> ci_eq (ES_SKUCode r) []) (erp_product_sync_records d)
      in records \<noteq> [] \<and> list_all (\<lambda>r. ci_eq (ES_ERPSyncStatus r) ProductManagementERPSyncStatusSynced) records)"

definition release_candidate :: "adb \<Rightarrow> time \<Rightarrow> Task \<Rightarrow> bool" where
  "release_candidate d cutoff t \<longleftrightarrow>
     T_TaskStatus t \<in> set [TaskStatusPendingWarehouseReceive, TaskStatusPendingProductionTransfer,
       TaskStatusPendingClose] \<and>
     T_TaskType t \<in> set [TaskTypeOriginalProductDevelopment, TaskTypeNewProductDevelopment,
       TaskTypeCustomerCustomization, TaskTypeRegularCustomization] \<and>
     \<not> ci_eq (T_SKUCode t) [] \<and> T_UpdatedAt t \<le> cutoff \<and>
     (case receipt_of_task (a_workflow d) (T_ID t) of None \<Rightarrow> True
      | Some r \<Rightarrow> WR_Status r \<in> set [WarehouseReceiptStatusReceived, WarehouseReceiptStatusCompleted]) \<and>
     list_ex (current_release_asset (a_workflow d) (T_ID t)) (task_assets (a_workflow d)) \<and>
     \<not> list_ex (\<lambda>v. current_release_asset (a_workflow d) (T_ID t) v \<and>
          \<not> ci_eq (TA_FlowReviewStatus v) TaskAssetFlowReviewStatusApproved) (task_assets (a_workflow d)) \<and>
     (sku_items_ready d (T_ID t) \<or> legacy_sku_ready d (T_ID t))"

definition release_limit :: "int \<Rightarrow> int" where
  "release_limit limit = (if limit \<le> 0 \<or> limit > 1000 then 100 else limit)"

definition release_candidates :: "adb \<Rightarrow> time \<Rightarrow> int \<Rightarrow> id list" where
  "release_candidates d cutoff limit = take (nat (release_limit limit)) (map T_ID
     (rev (sort_key T_UpdatedAt (sort_key T_ID (filter (release_candidate d cutoff) (tasks (v_modules (a_workflow d))))))))"

definition ListWarehouseAutoReleaseCandidates :: "time \<Rightarrow> int \<Rightarrow> (adb, db_error, id list) act" where
  "ListWarehouseAutoReleaseCandidates cutoff limit = query (\<lambda>d. release_candidates d cutoff limit)"

subsection \<open>The job\<close>

record WarehouseAutoReleaseJob =
  J_configured :: bool
  J_moduleRepos :: bool
  J_closeSyncer :: "(id \<Rightarrow> id \<Rightarrow> (adb, ErrCode, unit) act) option"
  J_notifications :: "(id \<Rightarrow> jsonobj \<Rightarrow> unit vact) option"
  J_fmtTime :: "time \<Rightarrow> string"
  J_uuid :: uuid_source

record WarehouseAutoReleaseOptions =
  LO_DryRun :: bool
  LO_Limit :: int
  LO_GracePeriod :: time
  LO_SystemActorID :: id

record WarehouseAutoReleaseResult =
  RR_DryRun :: bool
  RR_Scanned :: int
  RR_Released :: int
  RR_Skipped :: int
  RR_Cutoff :: time

text \<open>The remarks, by the hexadecimal digits of the UTF-8 bytes of the source.\<close>

definition remark_unhandled :: string where
  "remark_unhandled = Task_Org.utf8 ''EFBC9AE4BB93E5BA9320333020E58886E9929FE69CAAE5A484E79086''"

definition remark_released :: string where
  "remark_released = Task_Org.utf8 ''E7B3BBE7BB9FE887AAE58AA8E694BEE8A18C'' @ remark_unhandled"

definition remark_received :: string where
  "remark_received = Task_Org.utf8 ''E7B3BBE7BB9FE887AAE58AA8E68EA5E694B6'' @ remark_unhandled"

definition remark_completed :: string where
  "remark_completed = Task_Org.utf8 ''E7B3BBE7BB9FE887AAE58AA8E5AE8CE68890E4BB93E5BA93E78EAFE88A82'' @ remark_unhandled"

definition remark_filled :: string where
  "remark_filled = Task_Org.utf8 ''E7B3BBE7BB9FE887AAE58AA8E8A1A5E9BD90E4BB93E5BA93E6A8A1E59D97E5AE8CE68890E78AB6E68081'' @ remark_unhandled"

definition remark_closed :: string where
  "remark_closed = Task_Org.utf8 ''E7B3BBE7BB9FE887AAE58AA8E7BB93E58D95'' @ remark_unhandled"

text \<open>The module of the task, read before the transaction; its state is carried along as the job moves it.\<close>

definition releaseModule :: "WarehouseAutoReleaseJob \<Rightarrow> id \<Rightarrow> TaskModule option vact" where
  "releaseModule j taskID = (if J_moduleRepos j
     then within v_modules put_modules (GetByTaskAndKey taskID ModuleKeyWarehouse) else ret None)"

definition updateWarehouseModuleState ::
  "time \<Rightarrow> TaskModule option \<Rightarrow> ModuleState option \<Rightarrow> ModuleState \<Rightarrow> string \<Rightarrow> id option \<Rightarrow> jsonobj \<Rightarrow>
   ModuleState option vact" where
  "updateWarehouseModuleState now module current nxt eventType actorID payload = (case module of
       None \<Rightarrow> ret current
     | Some m \<Rightarrow> if current = Some nxt then ret current
         else bnd (within v_modules put_modules
                (bnd (UpdateState now (TM_TaskID m) ModuleKeyWarehouse nxt (Terminal nxt)) (\<lambda>_.
                 EventInsert now (mevent (TM_ID m) eventType current (Some nxt) actorID [] (JObj payload)))))
              (\<lambda>_. ret (Some nxt)))"

definition move_status :: "time \<Rightarrow> id \<Rightarrow> TaskStatus \<Rightarrow> TaskStatus \<Rightarrow> string \<Rightarrow> unit vact" where
  "move_status now taskID expected nxt complaint =
     bnd (CASUpdateStatus now taskID expected nxt) (\<lambda>updated.
       if updated then ret () else throw (errText complaint))"

definition release_event ::
  "WarehouseAutoReleaseJob \<Rightarrow> time \<Rightarrow> Task \<Rightarrow> id \<Rightarrow> string \<Rightarrow> id option \<Rightarrow> TaskStatus \<Rightarrow> TaskStatus \<Rightarrow> id option \<Rightarrow>
   jsonobj \<Rightarrow> unit vact" where
  "release_event j now task taskID ty actor from to toHandler extra =
     bnd (taskEventRepo_Append (J_uuid j) now taskID ty actor
            (taskTransitionEventPayload task from to (T_CurrentHandlerID task) toHandler extra)) (\<lambda>_. ret ())"

text \<open>
  A receipt the job creates keeps the id 0 in memory: \<^verbatim>\<open>Create\<close> returns the new id and the job drops it.
\<close>

definition auto_received_receipt ::
  "WarehouseAutoReleaseJob \<Rightarrow> time \<Rightarrow> id \<Rightarrow> id option \<Rightarrow> WarehouseReceipt option \<Rightarrow> WarehouseReceipt" where
  "auto_received_receipt j now taskID actor existing = (case existing of
       None \<Rightarrow> \<lparr>WR_ID = 0, WR_TaskID = taskID,
         WR_ReceiptNo = ''WR-'' @ fmt_d taskID @ ''-'' @ J_fmtTime j now,
         WR_Status = WarehouseReceiptStatusReceived, WR_ReceiverID = actor, WR_ReceivedAt = Some now,
         WR_CompletedAt = None, WR_RejectReason = [], WR_Remark = remark_released, WR_CreatedAt = 0, WR_UpdatedAt = 0\<rparr>
     | Some r \<Rightarrow> r\<lparr>WR_Status := WarehouseReceiptStatusReceived, WR_ReceiverID := actor, WR_ReceivedAt := Some now,
         WR_CompletedAt := None, WR_RejectReason := [], WR_Remark := remark_released\<rparr>)"

definition auto_receive ::
  "WarehouseAutoReleaseJob \<Rightarrow> time \<Rightarrow> id option \<Rightarrow> id \<Rightarrow> Task \<Rightarrow> TaskModule option \<Rightarrow> WarehouseReceipt option \<Rightarrow>
   ModuleState option \<Rightarrow> (WarehouseReceipt \<times> ModuleState option) vact" where
  "auto_receive j now actor taskID task module existing st =
     (let receipt = auto_received_receipt j now taskID actor existing;
          extra = [(''auto_release'', JFlag True), (''receipt_no'', JText (WR_ReceiptNo receipt)),
                   (''remark'', JText remark_received)]
      in bnd (write_receipt now existing receipt) (\<lambda>_.
         bnd (move_status now taskID TaskStatusPendingWarehouseReceive TaskStatusPendingProductionTransfer
                ''task status changed before auto receive'') (\<lambda>_.
         bnd (release_event j now task taskID TaskEventWarehouseReceived actor TaskStatusPendingWarehouseReceive
                TaskStatusPendingProductionTransfer actor extra) (\<lambda>_.
         bnd (updateWarehouseModuleState now module st ModuleStateReceived ModuleEventReceived actor extra) (\<lambda>st'.
         ret (receipt, st'))))))"

definition auto_completed_receipt :: "time \<Rightarrow> id option \<Rightarrow> WarehouseReceipt \<Rightarrow> WarehouseReceipt" where
  "auto_completed_receipt now actor r = r\<lparr>WR_Status := WarehouseReceiptStatusCompleted, WR_CompletedAt := Some now,
     WR_RejectReason := [], WR_Remark := remark_released,
     WR_ReceiverID := (if WR_ReceiverID r = None then actor else WR_ReceiverID r),
     WR_ReceivedAt := (if WR_ReceivedAt r = None then Some now else WR_ReceivedAt r)\<rparr>"

definition auto_complete ::
  "WarehouseAutoReleaseJob \<Rightarrow> time \<Rightarrow> id option \<Rightarrow> id \<Rightarrow> Task \<Rightarrow> TaskModule option \<Rightarrow> WarehouseReceipt \<Rightarrow>
   ModuleState option \<Rightarrow> ModuleState option vact" where
  "auto_complete j now actor taskID task module receipt st =
     (let extra = [(''auto_release'', JFlag True), (''receipt_no'', JText (WR_ReceiptNo receipt)),
                   (''remark'', JText remark_completed)]
      in bnd (warehouseRepo_Update now (auto_completed_receipt now actor receipt)) (\<lambda>_.
         bnd (move_status now taskID TaskStatusPendingProductionTransfer TaskStatusPendingClose
                ''task status changed before auto complete'') (\<lambda>_.
         bnd (release_event j now task taskID TaskEventWarehouseCompleted actor TaskStatusPendingProductionTransfer
                TaskStatusPendingClose None extra) (\<lambda>_.
         updateWarehouseModuleState now module st ModuleStateCompleted ModuleEventCompleted actor extra))))"

definition closed_notice :: "Task \<Rightarrow> id \<Rightarrow> jsonobj" where
  "closed_notice task systemActorID =
     [(''task_id'', JNum (T_ID task)), (''task_no'', JText (T_TaskNo task)), (''creator_id'', JNum (T_CreatorID task)),
      (''designer_id'', jopt (T_DesignerID task)), (''closed_by'', JNum systemActorID),
      (''auto_release'', JFlag True), (''warehouse_status'', JText (wrs_string WarehouseReceiptStatusCompleted)),
      (''remark'', JText remark_closed)]"

definition notify_closed :: "WarehouseAutoReleaseJob \<Rightarrow> Task \<Rightarrow> id \<Rightarrow> unit vact" where
  "notify_closed j task systemActorID = (case J_notifications j of
       Some notify \<Rightarrow> if T_CreatorID task > 0 then notify (T_CreatorID task) (closed_notice task systemActorID) else ret ()
     | None \<Rightarrow> ret ())"

definition auto_close ::
  "WarehouseAutoReleaseJob \<Rightarrow> time \<Rightarrow> id option \<Rightarrow> id \<Rightarrow> id \<Rightarrow> Task \<Rightarrow> TaskModule option \<Rightarrow> WarehouseReceipt \<Rightarrow>
   ModuleState option \<Rightarrow> unit vact" where
  "auto_close j now actor systemActorID taskID task module receipt st =
     bnd (updateWarehouseModuleState now module st ModuleStateCompleted ModuleEventCompleted actor
            [(''auto_release'', JFlag True), (''receipt_no'', JText (WR_ReceiptNo receipt)),
             (''remark'', JText remark_filled)]) (\<lambda>_.
     bnd (move_status now taskID TaskStatusPendingClose TaskStatusCompleted
            ''task status changed before auto close'') (\<lambda>_.
     bnd (release_event j now task taskID TaskEventClosed actor TaskStatusPendingClose TaskStatusCompleted None
            [(''auto_release'', JFlag True),
             (''warehouse_status'', JText (wrs_string WarehouseReceiptStatusCompleted)),
             (''remark'', JText remark_closed)]) (\<lambda>_.
     notify_closed j task systemActorID)))"

definition system_actor :: "id \<Rightarrow> id option" where
  "system_actor systemActorID = (if systemActorID > 0 then Some systemActorID else None)"

text \<open>What is left once the receipt is in hand: complete the task if it must be, then close it.\<close>

definition release_rest ::
  "WarehouseAutoReleaseJob \<Rightarrow> time \<Rightarrow> id \<Rightarrow> id \<Rightarrow> Task \<Rightarrow> TaskModule option \<Rightarrow>
   TaskStatus \<times> WarehouseReceipt option \<times> ModuleState option \<Rightarrow> unit vact" where
  "release_rest j now sys t task module = (\<lambda>(current, r, st1). case r of
       None \<Rightarrow> throw (errText ''warehouse receipt missing before auto complete'')
     | Some receipt \<Rightarrow>
         bnd (if current = TaskStatusPendingProductionTransfer
              then bnd (auto_complete j now (system_actor sys) t task module receipt st1) (\<lambda>st2.
                     ret (TaskStatusPendingClose, auto_completed_receipt now (system_actor sys) receipt, st2))
              else ret (current, receipt, st1)) (\<lambda>(current1, receipt1, st2).
         if current1 \<noteq> TaskStatusPendingClose
         then throw (errText (''task status '' @ ts_string current1 @ '' is not auto releasable''))
         else auto_close j now (system_actor sys) sys t task module receipt1 st2))"

text \<open>The body of the transaction, on the task and module that were read before it began.\<close>

definition release_tx ::
  "WarehouseAutoReleaseJob \<Rightarrow> time \<Rightarrow> id \<Rightarrow> id \<Rightarrow> Task \<Rightarrow> TaskModule option \<Rightarrow> unit vact" where
  "release_tx j now systemActorID taskID task module =
     (let actor = system_actor systemActorID; st = map_option TM_State module
      in bnd (warehouseRepo_GetByTaskID taskID) (\<lambda>existing.
         if map_option WR_Status existing = Some WarehouseReceiptStatusRejected
         then throw (errText ''warehouse receipt is rejected'')
         else bnd (if T_TaskStatus task = TaskStatusPendingWarehouseReceive
                   then bnd (auto_receive j now actor taskID task module existing st) (\<lambda>(receipt, st1).
                          ret (TaskStatusPendingProductionTransfer, Some receipt, st1))
                   else ret (T_TaskStatus task, existing, st))
                (release_rest j now systemActorID taskID task module)))"

definition release_task :: "WarehouseAutoReleaseJob \<Rightarrow> time \<Rightarrow> id \<Rightarrow> id \<Rightarrow> bool vact" where
  "release_task j now systemActorID taskID =
     bnd (taskRepo_GetByID taskID) (\<lambda>r. case r of
       None \<Rightarrow> ret False
     | Some task \<Rightarrow> bnd (releaseModule j taskID) (\<lambda>module.
         bnd (RunInTx (release_tx j now systemActorID taskID task module)) (\<lambda>_. ret True)))"

definition sync_closed :: "WarehouseAutoReleaseJob \<Rightarrow> id \<Rightarrow> id \<Rightarrow> (adb, db_error, unit) act" where
  "sync_closed j taskID systemActorID = (case J_closeSyncer j of
       None \<Rightarrow> ret () | Some syncer \<Rightarrow> ignore_err (syncer taskID systemActorID))"

definition releaseOne :: "WarehouseAutoReleaseJob \<Rightarrow> time \<Rightarrow> id \<Rightarrow> id \<Rightarrow> (adb, db_error, bool) act" where
  "releaseOne j now taskID systemActorID =
     bnd (within a_workflow put_workflow (release_task j now systemActorID taskID)) (\<lambda>released.
       if released then bnd (sync_closed j taskID systemActorID) (\<lambda>_. ret True) else ret False)"

text \<open>An error of one task is logged and counted; the loop goes on.\<close>

fun release_all ::
  "WarehouseAutoReleaseJob \<Rightarrow> time \<Rightarrow> id \<Rightarrow> id list \<Rightarrow> WarehouseAutoReleaseResult \<Rightarrow> adb world \<Rightarrow>
   WarehouseAutoReleaseResult \<times> adb world" where
  "release_all j now systemActorID [] result w = (result, w)"
| "release_all j now systemActorID (taskID # ids) result w =
     (case releaseOne j now taskID systemActorID w of
        (Inr True, w1) \<Rightarrow> release_all j now systemActorID ids (result\<lparr>RR_Released := RR_Released result + 1\<rparr>) w1
      | (_, w1) \<Rightarrow> release_all j now systemActorID ids (result\<lparr>RR_Skipped := RR_Skipped result + 1\<rparr>) w1)"

definition release_grace :: "time \<Rightarrow> time" where
  "release_grace grace = (if grace \<le> 0 then 30 * 60 * 1000000000 else grace)"

definition release_Run ::
  "WarehouseAutoReleaseJob \<Rightarrow> time \<Rightarrow> WarehouseAutoReleaseOptions \<Rightarrow>
   (adb, ErrCode, WarehouseAutoReleaseResult) act" where
  "release_Run j now opts =
     (if \<not> J_configured j then throw ErrCodeInternalError
      else let cutoff = now - release_grace (LO_GracePeriod opts) in
        bnd (map_err (\<lambda>_. ErrCodeInternalError)
               (ListWarehouseAutoReleaseCandidates cutoff (release_limit (LO_Limit opts)))) (\<lambda>ids.
          let result = \<lparr>RR_DryRun = LO_DryRun opts, RR_Scanned = int (length ids), RR_Released = 0,
                 RR_Skipped = 0, RR_Cutoff = cutoff\<rparr>
          in if LO_DryRun opts then ret result
             else (\<lambda>w. case release_all j now (LO_SystemActorID opts) ids result w of (r, w') \<Rightarrow> (Inr r, w'))))"

subsection \<open>What one release does to the tables\<close>

text \<open>
  \<open>tables_ok snap d\<close>: keys are unique and positive, the log of module events agrees with the module
  table, and no module of \<open>snap\<close> is gone. The tables a release must leave in this state.
\<close>

definition tables_ok :: "mdb \<Rightarrow> vdb \<Rightarrow> bool" where
  "tables_ok snap d \<longleftrightarrow> receipts_inv d \<and> 0 < next_receipt d \<and> list_all (\<lambda>r. 0 < WR_ID r) (warehouse_receipts d) \<and>
     linv {} (v_modules d) \<and> ext snap (v_modules d)"

definition event_types :: "vdb \<Rightarrow> string list" where
  "event_types d = map TEv_EventType (task_event_logs d)"

text \<open>Customization jobs, and what of a task says that it has one.\<close>

definition same_jobs :: "vdb \<Rightarrow> vdb \<Rightarrow> bool" where
  "same_jobs d d' \<longleftrightarrow> customization_jobs d' = customization_jobs d \<and> next_job d' = next_job d \<and>
     (\<forall>u. map_option T_CustomizationRequired (v_task d' u) = map_option T_CustomizationRequired (v_task d u))"

lemma same_jobs_refl [simp]: "same_jobs d d"
  by (simp add: same_jobs_def)

text \<open>From \<open>d\<close> to \<open>d'\<close> only task \<open>t\<close> moved, to \<open>l\<close>, and its events of the types \<open>tys\<close> were written.\<close>

definition phase :: "mdb \<Rightarrow> vdb \<Rightarrow> id \<Rightarrow> vdb \<Rightarrow> receipt_life \<Rightarrow> string list \<Rightarrow> bool" where
  "phase snap d t d' l tys \<longleftrightarrow> tables_ok snap d' \<and> receipt_life_of d' t = l \<and>
     (\<forall>u. u \<noteq> t \<longrightarrow> receipt_life_of d' u = receipt_life_of d u) \<and> event_types d' = event_types d @ tys \<and>
     (\<forall>r. receipt_of_task d t = Some r \<longrightarrow> (\<exists>r'. receipt_of_task d' t = Some r' \<and> WR_ID r' = WR_ID r)) \<and>
     same_jobs d d'"

lemma phase_trans: "phase snap d t d1 l1 xs \<Longrightarrow> phase snap d1 t d2 l2 ys \<Longrightarrow> phase snap d t d2 l2 (xs @ ys)"
  unfolding phase_def same_jobs_def by fastforce

lemma phase_refl: "tables_ok snap d \<Longrightarrow> phase snap d t d (receipt_life_of d t) []"
  by (simp add: phase_def)

definition status_moved :: "time \<Rightarrow> id \<Rightarrow> TaskStatus \<Rightarrow> TaskStatus \<Rightarrow> vdb \<Rightarrow> vdb" where
  "status_moved now i expected nxt d = put_modules ((v_modules d)\<lparr>tasks :=
     row_upd (\<lambda>t. T_ID t = i \<and> T_TaskStatus t = expected)
       (\<lambda>t. t\<lparr>T_TaskStatus := nxt, T_UpdatedAt := now\<rparr>) (tasks (v_modules d))\<rparr>) d"

lemma CASUpdateStatus_effect:
  assumes "CASUpdateStatus now i e n w = (Inr True, w')"
  shows "wdb w' = status_moved now i e n (wdb w) \<and>
    (\<exists>t \<in> set (tasks (v_modules (wdb w))). T_ID t = i \<and> T_TaskStatus t = e)"
  using assms
  by (auto simp: CASUpdateStatus_def within_success bnd_eq_Inr Let_def status_moved_def put_modules_def
      reindexTaskSearchDocument_def filter_empty_conv split: if_splits dest!: stmt_success query_success)

lemma v_task_status_moved:
  "v_task (status_moved now i e n d) u = map_option (\<lambda>r. if T_ID r = i \<and> T_TaskStatus r = e
     then r\<lparr>T_TaskStatus := n, T_UpdatedAt := now\<rparr> else r) (v_task d u)"
  by (simp add: v_task_def task_row_def status_moved_def put_modules_def find_row_upd)

lemma status_moved_status:
  "map_option T_TaskStatus (v_task (status_moved now i e n d) u) =
    (if u = i \<and> map_option T_TaskStatus (v_task d i) = Some e then Some n else map_option T_TaskStatus (v_task d u))"
  unfolding v_task_status_moved using v_task_ID [of d u] by (cases "v_task d u") auto

lemma same_jobs_moved [simp]: "same_jobs d (status_moved now i e n d)"
proof -
  have "map_option T_CustomizationRequired (v_task (status_moved now i e n d) u) =
      map_option T_CustomizationRequired (v_task d u)" for u
    unfolding v_task_status_moved by (cases "v_task d u") auto
  then show ?thesis by (simp add: same_jobs_def status_moved_def put_modules_def)
qed

lemma find_by_ID:
  assumes "distinct (map T_ID ts)" and "x \<in> set ts"
  shows "List.find (\<lambda>t. T_ID t = T_ID x) ts = Some x"
  using assms by (induction ts) (auto simp: image_iff)

lemma status_moved_rest [simp]:
  "warehouse_receipts (status_moved now i e n d) = warehouse_receipts d"
  "next_receipt (status_moved now i e n d) = next_receipt d"
  "task_event_logs (status_moved now i e n d) = task_event_logs d"
  "task_modules (v_modules (status_moved now i e n d)) = task_modules (v_modules d)"
  "module_events (v_modules (status_moved now i e n d)) = module_events (v_modules d)"
  by (simp_all add: status_moved_def put_modules_def)

lemma status_moved_linv: "linv {} (v_modules d) \<Longrightarrow> linv {} (v_modules (status_moved now i e n d))"
proof -
  assume l: "linv {} (v_modules d)"
  have "map T_ID (tasks (v_modules (status_moved now i e n d))) = map T_ID (tasks (v_modules d))"
    by (simp add: status_moved_def put_modules_def map_row_upd)
  then have "T_ID ` set (tasks (v_modules (status_moved now i e n d))) = T_ID ` set (tasks (v_modules d))"
    and "distinct (map T_ID (tasks (v_modules (status_moved now i e n d)))) = distinct (map T_ID (tasks (v_modules d)))"
    by (metis list.set_map, simp)
  then show ?thesis using l by (simp add: linv_def minv_def agree_def) (simp add: status_moved_def put_modules_def)
qed

lemma phase_move_status:
  assumes "move_status now t e n c w = (Inr u, w')" and ok: "tables_ok snap (wdb w)"
  shows "map_option T_TaskStatus (v_task (wdb w) t) = Some e \<and>
    phase snap (wdb w) t (wdb w') (map_option WR_Status (receipt_of_task (wdb w) t), Some n) []"
proof -
  have cas: "CASUpdateStatus now t e n w = (Inr True, w')"
    using assms(1) by (auto simp: move_status_def bnd_eq_Inr split: if_splits)
  then obtain x where d': "wdb w' = status_moved now t e n (wdb w)"
    and x: "x \<in> set (tasks (v_modules (wdb w)))" "T_ID x = t" "T_TaskStatus x = e"
    using CASUpdateStatus_effect by blast
  have st: "map_option T_TaskStatus (v_task (wdb w) t) = Some e"
    using ok x find_by_ID [of "tasks (v_modules (wdb w))" x]
    by (simp add: tables_ok_def linv_def minv_def v_task_def task_row_def)
  have "tables_ok snap (wdb w')"
    using ok status_moved_linv [of "wdb w" now t e n]
    by (simp add: d' tables_ok_def ext_def receipts_inv_cong [OF status_moved_rest(1,2)])
  then show ?thesis
    using st unfolding d' phase_def event_types_def
    by (auto simp: status_moved_status receipt_life_of_def receipt_of_cong [OF status_moved_rest(1)])
qed

lemma phase_event:
  assumes "release_event j now task t ty a from to h x w = (Inr u, w')" and "tables_ok snap (wdb w)"
  shows "phase snap (wdb w) t (wdb w') (receipt_life_of (wdb w) t) [ty]"
proof -
  have "wdb w' = add_event (J_uuid j) now t ty a
      (taskTransitionEventPayload task from to (T_CurrentHandlerID task) h x) (wdb w)"
    using assms(1) by (auto simp: release_event_def bnd_eq_Inr dest!: taskEventRepo_Append_effect)
  then show ?thesis using assms(2)
    by (simp add: phase_def tables_ok_def receipt_life_of_def receipt_of_task_def receipts_inv_def v_task_def
        add_event_def event_types_def same_jobs_def)
qed

lemma row_here:
  assumes "ext snap d" and "module_row snap t k = Some m"
  shows "\<exists>m' \<in> set (task_modules d). TM_ID m' = TM_ID m \<and> module_uk m' = (t, ci_key k)"
  using assms by (rule ext_row)

lemma tasks_module_update:
  "tasks (d\<lparr>task_modules := ms\<rparr>) = tasks d" "tasks (insert_event now ev d) = tasks d"
  by simp_all

text \<open>Moving the module writes its event with it: the log agrees with the table again.\<close>

lemma phase_module:
  assumes run: "updateWarehouseModuleState now module st nxt ty a x w = (Inr st', w')"
    and ok: "tables_ok snap (wdb w)"
    and known: "\<And>m. module = Some m \<Longrightarrow> TM_TaskID m = t \<and> module_row snap t ModuleKeyWarehouse = Some m"
  shows "phase snap (wdb w) t (wdb w') (receipt_life_of (wdb w) t) []"
proof (cases "module = None \<or> st = Some nxt")
  case True
  then have "wdb w' = wdb w" using run by (auto simp: updateWarehouseModuleState_def split: option.splits)
  then show ?thesis using phase_refl [OF ok] by simp
next
  case False
  then obtain m where m: "module = Some m" by auto
  note known = known [OF m]
  let ?d = "v_modules (wdb w)"
  obtain w1 w2 e where upd: "UpdateState now t ModuleKeyWarehouse nxt (Terminal nxt) \<lparr>wdb = ?d, faults = faults w\<rparr> = (Inr (), w1)"
    and ins: "EventInsert now (mevent (TM_ID m) ty st (Some nxt) a [] (JObj x)) w1 = (Inr e, w2)"
    and d': "wdb w' = put_modules (wdb w2) (wdb w)"
    using run m False known
    by (auto simp: updateWarehouseModuleState_def bnd_eq_Inr within_success split: if_splits)
  have pre: "linv {} ?d" "ext snap ?d" using ok by (simp_all add: tables_ok_def)
  have "linv {TM_ID m} (wdb w1) \<and> ext snap (wdb w1) \<and>
      (\<forall>r \<in> set (task_modules (wdb w1)). (TM_ID r = TM_ID m \<longrightarrow> TM_State r = nxt) \<and> True)"
    using tripleD [OF triple_UpdateState [where snap = snap and i = "TM_ID m"] _ upd] pre
      row_here [OF pre(2)] known by simp
  then have "linv {} (wdb w2) \<and> ext snap (wdb w2) \<and> (\<forall>r \<in> set (task_modules (wdb w2)). True)"
    using tripleD [OF triple_EventInsert [where snap = snap and S = "{TM_ID m}" and st = nxt
        and P = "\<lambda>_. True"] _ ins] by simp
  moreover have "tasks (wdb w2) = tasks (wdb w1)"
    using stmt_success [OF ins [unfolded EventInsert_def]] insert_event_simps(2) [of now _ "wdb w1"]
    by (metis Inl_Inr_False prod.inject sum.inject(2))
  moreover have "tasks (wdb w1) = tasks ?d"
    using exec_success [OF upd [unfolded UpdateState_def]] by simp
  ultimately show ?thesis
    using ok by (simp add: d' phase_def tables_ok_def put_modules_def receipts_inv_def receipt_life_of_def
        receipt_of_task_def v_task_def task_row_def event_types_def same_jobs_def)
qed

text \<open>Writing the task's receipt; the id tells whether a row is written at all.\<close>

lemma put_ids: "tables_ok snap d \<Longrightarrow> next_receipt (set_receipt now x d) = next_receipt d \<and>
    list_all (\<lambda>r. 0 < WR_ID r) (warehouse_receipts (set_receipt now x d)) \<and>
    list_all (\<lambda>r. 0 < WR_ID r) (warehouse_receipts (add_receipt now x d)) \<and> 0 < next_receipt (add_receipt now x d)"
  by (auto simp: tables_ok_def set_receipt_def add_receipt_def row_upd_def list_all_iff)

lemma put_receipt_rest [simp]:
  "v_modules (set_receipt now x d) = v_modules d" "v_modules (add_receipt now x d) = v_modules d"
  "task_event_logs (set_receipt now x d) = task_event_logs d" "task_event_logs (add_receipt now x d) = task_event_logs d"
  by (simp_all add: set_receipt_def add_receipt_def)

lemma same_jobs_receipt [simp]: "same_jobs d (set_receipt now x d)" "same_jobs d (add_receipt now x d)"
  by (simp_all add: same_jobs_def set_receipt_def add_receipt_def v_task_def)

lemma phase_set:
  assumes "tables_ok snap d" and "receipt_of_task d t = Some old" and "WR_ID x = WR_ID old"
  shows "phase snap d t (set_receipt now x d) (Some (WR_Status x), map_option T_TaskStatus (v_task d t)) []"
proof -
  have "\<exists>r'. receipt_of_task (set_receipt now x d) t = Some r' \<and> WR_ID r' = WR_ID r" if "receipt_of_task d t = Some r" for r
    using that by (auto simp: receipt_of_task_def set_receipt_def find_row_upd)
  then show ?thesis
    using assms put_ids [of snap d now x] set_receipt_inv [of d now x] set_receipt_at [of d t old x now]
    by (simp add: phase_def tables_ok_def receipt_life_of_def event_types_def)
qed

lemma phase_add:
  assumes "tables_ok snap d" and "receipt_of_task d t = None" and "WR_TaskID x = t"
  shows "phase snap d t (add_receipt now x d) (Some (WR_Status x), map_option T_TaskStatus (v_task d t)) []"
  using assms put_ids [of snap d now x] add_receipt_inv [of d x now] add_receipt_at [of d x now]
  by (simp add: phase_def tables_ok_def receipt_life_of_def event_types_def)

lemma set_nothing: "tables_ok snap d \<Longrightarrow> WR_ID x = 0 \<Longrightarrow> set_receipt now x d = d"
proof -
  assume "tables_ok snap d" "WR_ID x = 0"
  then have "row_upd (\<lambda>r. WR_ID r = WR_ID x) f (warehouse_receipts d) = warehouse_receipts d" for f
    unfolding row_upd_def by (intro map_idI) (auto simp: tables_ok_def list_all_iff)
  then show ?thesis by (simp add: set_receipt_def)
qed

lemma receipt_of_add:
  "receipt_of_task d (WR_TaskID x) = None \<Longrightarrow>
   receipt_of_task (add_receipt now x d) (WR_TaskID x) =
     Some (x\<lparr>WR_ID := next_receipt d, WR_CreatedAt := now, WR_UpdatedAt := now\<rparr>)"
  by (simp add: receipt_of_task_def add_receipt_def find_append)

lemma auto_received_fields [simp]:
  "WR_Status (auto_received_receipt j now t a e) = WarehouseReceiptStatusReceived"
  "WR_ID (auto_received_receipt j now t a None) = 0" "WR_TaskID (auto_received_receipt j now t a None) = t"
  "WR_ID (auto_received_receipt j now t a (Some r)) = WR_ID r"
  "WR_Status (auto_completed_receipt now a x) = WarehouseReceiptStatusCompleted"
  "WR_ID (auto_completed_receipt now a x) = WR_ID x"
  by (simp_all add: auto_received_receipt_def auto_completed_receipt_def split: option.splits)

text \<open>A receipt is written; then the status moves, its event is written, and the module follows.\<close>

lemma phase_steps:
  assumes 1: "phase snap d t (wdb w1) (r, map_option T_TaskStatus (v_task d t)) []"
    and move: "move_status now t e n c w1 = (Inr u2, w2)"
    and ev: "release_event j now task t ty a from to h x w2 = (Inr u3, w3)"
    and md: "updateWarehouseModuleState now module st nxt mty a y w3 = (Inr st', w')"
    and known: "\<And>m. module = Some m \<Longrightarrow> TM_TaskID m = t \<and> module_row snap t ModuleKeyWarehouse = Some m"
  shows "map_option T_TaskStatus (v_task d t) = Some e \<and> phase snap d t (wdb w') (r, Some n) [ty]"
proof -
  have life1: "map_option WR_Status (receipt_of_task (wdb w1) t) = r"
      "map_option T_TaskStatus (v_task (wdb w1) t) = map_option T_TaskStatus (v_task d t)"
    and ok1: "tables_ok snap (wdb w1)" using 1 by (simp_all add: phase_def receipt_life_of_def)
  note 2 = phase_move_status [OF move ok1]
  then have ok2: "tables_ok snap (wdb w2)" by (simp add: phase_def)
  note 3 = phase_event [OF ev ok2]
  then have ok3: "tables_ok snap (wdb w3)" by (simp add: phase_def)
  note 4 = phase_module [OF md ok3 known]
  have life: "receipt_life_of (wdb w3) t = receipt_life_of (wdb w2) t" "receipt_life_of (wdb w2) t = (r, Some n)"
    using 2 3 life1 by (simp_all add: phase_def)
  show ?thesis
    using phase_trans [OF phase_trans [OF phase_trans [OF 1 conjunct2 [OF 2]] 3] 4] 2 life life1 by simp
qed

lemma phase_receive:
  assumes run: "auto_receive j now a t task module existing st w = (Inr (receipt, st'), w')"
    and ok: "tables_ok snap (wdb w)" and existing: "existing = receipt_of_task (wdb w) t"
    and known: "\<And>m. module = Some m \<Longrightarrow> TM_TaskID m = t \<and> module_row snap t ModuleKeyWarehouse = Some m"
  shows "map_option T_TaskStatus (v_task (wdb w) t) = Some TaskStatusPendingWarehouseReceive \<and>
    receipt = auto_received_receipt j now t a existing \<and>
    phase snap (wdb w) t (wdb w') (Some WarehouseReceiptStatusReceived, Some TaskStatusPendingProductionTransfer)
      [TaskEventWarehouseReceived]"
proof -
  let ?x = "auto_received_receipt j now t a existing"
  obtain w1 w2 w3 y where put: "write_receipt now existing ?x w = (Inr (), w1)"
    and move: "move_status now t TaskStatusPendingWarehouseReceive TaskStatusPendingProductionTransfer
        ''task status changed before auto receive'' w1 = (Inr (), w2)"
    and ev: "release_event j now task t TaskEventWarehouseReceived a TaskStatusPendingWarehouseReceive
        TaskStatusPendingProductionTransfer a y w2 = (Inr (), w3)"
    and md: "updateWarehouseModuleState now module st ModuleStateReceived ModuleEventReceived a y w3 = (Inr st', w')"
    and x: "receipt = ?x"
    using run by (auto simp: auto_receive_def bnd_eq_Inr Let_def)
  have 1: "phase snap (wdb w) t (wdb w1)
      (Some WarehouseReceiptStatusReceived, map_option T_TaskStatus (v_task (wdb w) t)) []"
  proof (cases existing)
    case None
    then show ?thesis using phase_add [OF ok, of t ?x now] existing write_receipt_effect [OF put]
      by (simp add: put_receipt_def)
  next
    case (Some r)
    then show ?thesis using phase_set [OF ok, of t r ?x now] existing write_receipt_effect [OF put]
      by (simp add: put_receipt_def)
  qed
  from phase_steps [OF this move ev md known] x show ?thesis by simp
qed

lemma phase_complete:
  assumes run: "auto_complete j now a t task module receipt st w = (Inr st', w')"
    and ok: "tables_ok snap (wdb w)"
    and row: "WR_ID receipt = 0 \<or> (\<exists>r. receipt_of_task (wdb w) t = Some r \<and> WR_ID r = WR_ID receipt)"
    and known: "\<And>m. module = Some m \<Longrightarrow> TM_TaskID m = t \<and> module_row snap t ModuleKeyWarehouse = Some m"
  shows "map_option T_TaskStatus (v_task (wdb w) t) = Some TaskStatusPendingProductionTransfer \<and>
    phase snap (wdb w) t (wdb w')
      (if WR_ID receipt = 0 then map_option WR_Status (receipt_of_task (wdb w) t)
       else Some WarehouseReceiptStatusCompleted, Some TaskStatusPendingClose) [TaskEventWarehouseCompleted]"
proof -
  let ?x = "auto_completed_receipt now a receipt"
  obtain w1 w2 w3 y where put: "warehouseRepo_Update now ?x w = (Inr (), w1)"
    and move: "move_status now t TaskStatusPendingProductionTransfer TaskStatusPendingClose
        ''task status changed before auto complete'' w1 = (Inr (), w2)"
    and ev: "release_event j now task t TaskEventWarehouseCompleted a TaskStatusPendingProductionTransfer
        TaskStatusPendingClose None y w2 = (Inr (), w3)"
    and md: "updateWarehouseModuleState now module st ModuleStateCompleted ModuleEventCompleted a y w3 = (Inr st', w')"
    using run by (auto simp: auto_complete_def bnd_eq_Inr Let_def)
  let ?r = "if WR_ID receipt = 0 then map_option WR_Status (receipt_of_task (wdb w) t) else Some WarehouseReceiptStatusCompleted"
  have 1: "phase snap (wdb w) t (wdb w1) (?r, map_option T_TaskStatus (v_task (wdb w) t)) []"
  proof (cases "WR_ID receipt = 0")
    case True
    then show ?thesis
      using phase_refl [OF ok, of t] set_nothing [OF ok, of ?x now] warehouseRepo_Update_effect [OF put]
      by (simp add: receipt_life_of_def)
  next
    case False
    then obtain r where "receipt_of_task (wdb w) t = Some r" "WR_ID r = WR_ID receipt" using row by blast
    then show ?thesis using phase_set [OF ok, of t r ?x now] warehouseRepo_Update_effect [OF put] False by simp
  qed
  from phase_steps [OF this move ev md known] show ?thesis by simp
qed

text \<open>The notification writes tables of its own.\<close>

definition quiet_notices :: "WarehouseAutoReleaseJob \<Rightarrow> bool" where
  "quiet_notices j \<longleftrightarrow> (case J_notifications j of None \<Rightarrow> True | Some notify \<Rightarrow> \<forall>i x. reads (notify i x))"

lemma phase_close:
  assumes run: "auto_close j now a sys t task module receipt st w = (Inr u, w')"
    and ok: "tables_ok snap (wdb w)" and quiet: "quiet_notices j"
    and known: "\<And>m. module = Some m \<Longrightarrow> TM_TaskID m = t \<and> module_row snap t ModuleKeyWarehouse = Some m"
  shows "map_option T_TaskStatus (v_task (wdb w) t) = Some TaskStatusPendingClose \<and>
    phase snap (wdb w) t (wdb w') (map_option WR_Status (receipt_of_task (wdb w) t), Some TaskStatusCompleted)
      [TaskEventClosed]"
proof -
  obtain w1 w2 w3 y y' st' where md: "updateWarehouseModuleState now module st ModuleStateCompleted ModuleEventCompleted a y w = (Inr st', w1)"
    and move: "move_status now t TaskStatusPendingClose TaskStatusCompleted
        ''task status changed before auto close'' w1 = (Inr (), w2)"
    and ev: "release_event j now task t TaskEventClosed a TaskStatusPendingClose TaskStatusCompleted None y' w2 = (Inr (), w3)"
    and no: "notify_closed j task sys w3 = (Inr u, w')"
    using run by (auto simp: auto_close_def bnd_eq_Inr)
  note 1 = phase_module [OF md ok known]
  then have ok1: "tables_ok snap (wdb w1)" and life1: "receipt_life_of (wdb w1) t = receipt_life_of (wdb w) t"
    by (simp_all add: phase_def)
  note 2 = phase_move_status [OF move ok1]
  then have ok2: "tables_ok snap (wdb w2)" by (simp add: phase_def)
  note 3 = phase_event [OF ev ok2]
  have d': "wdb w' = wdb w3"
    using no quiet by (auto simp: notify_closed_def quiet_notices_def split: option.splits if_splits dest: readsD)
  have life2: "receipt_life_of (wdb w2) t = (map_option WR_Status (receipt_of_task (wdb w) t), Some TaskStatusCompleted)"
    using 2 life1 by (simp add: phase_def receipt_life_of_def)
  have "map_option T_TaskStatus (v_task (wdb w) t) = Some TaskStatusPendingClose"
    using 2 life1 unfolding receipt_life_of_def by (metis snd_conv)
  then show ?thesis using phase_trans [OF phase_trans [OF 1 conjunct2 [OF 2]] 3] unfolding d' life2 by simp
qed

text \<open>
  The joint states of receipt and task before and after a release, and the events it writes. A task
  without a receipt gets one that stays received: the completion updates the row with id 0.
\<close>

inductive release_step :: "receipt_life \<Rightarrow> receipt_life \<Rightarrow> bool" where
  unseen: "release_step (None, Some TaskStatusPendingWarehouseReceive)
     (Some WarehouseReceiptStatusReceived, Some TaskStatusCompleted)"
| seen: "r \<noteq> WarehouseReceiptStatusRejected \<Longrightarrow>
     ts = TaskStatusPendingWarehouseReceive \<or> ts = TaskStatusPendingProductionTransfer \<Longrightarrow>
     release_step (Some r, Some ts) (Some WarehouseReceiptStatusCompleted, Some TaskStatusCompleted)"
| at_close: "r \<noteq> WarehouseReceiptStatusRejected \<Longrightarrow>
     release_step (Some r, Some TaskStatusPendingClose) (Some r, Some TaskStatusCompleted)"

inductive_cases release_stepE: "release_step l l'"

definition released_events :: "TaskStatus \<Rightarrow> string list" where
  "released_events ts =
     (if ts = TaskStatusPendingWarehouseReceive then [TaskEventWarehouseReceived] else []) @
     (if ts = TaskStatusPendingClose then [] else [TaskEventWarehouseCompleted]) @ [TaskEventClosed]"

lemma phase_rest:
  assumes run: "release_rest j now sys t task module (current, Some receipt, st) w = (Inr u, w')"
    and ok: "tables_ok snap (wdb w)" and quiet: "quiet_notices j"
    and row: "WR_ID receipt = 0 \<or> (\<exists>r. receipt_of_task (wdb w) t = Some r \<and> WR_ID r = WR_ID receipt)"
    and known: "\<And>m. module = Some m \<Longrightarrow> TM_TaskID m = t \<and> module_row snap t ModuleKeyWarehouse = Some m"
  shows "(current = TaskStatusPendingProductionTransfer \<or> current = TaskStatusPendingClose) \<and>
    map_option T_TaskStatus (v_task (wdb w) t) = Some current \<and>
    phase snap (wdb w) t (wdb w')
      (if WR_ID receipt = 0 \<or> current = TaskStatusPendingClose then map_option WR_Status (receipt_of_task (wdb w) t)
       else Some WarehouseReceiptStatusCompleted, Some TaskStatusCompleted) (released_events current)"
proof (cases "current = TaskStatusPendingProductionTransfer")
  case True
  then obtain st2 w1 where c: "auto_complete j now (system_actor sys) t task module receipt st w = (Inr st2, w1)"
    and cl: "auto_close j now (system_actor sys) sys t task module
      (auto_completed_receipt now (system_actor sys) receipt) st2 w1 = (Inr u, w')"
    using run by (auto simp: release_rest_def bnd_eq_Inr)
  note 1 = phase_complete [OF c ok row known]
  let ?r = "if WR_ID receipt = 0 then map_option WR_Status (receipt_of_task (wdb w) t) else Some WarehouseReceiptStatusCompleted"
  have ok1: "tables_ok snap (wdb w1)" and r: "map_option WR_Status (receipt_of_task (wdb w1) t) = ?r"
    using 1 by (simp_all add: phase_def receipt_life_of_def)
  note 2 = phase_close [OF cl ok1 quiet known]
  have "phase snap (wdb w) t (wdb w') (?r, Some TaskStatusCompleted) ([TaskEventWarehouseCompleted] @ [TaskEventClosed])"
    using phase_trans [OF conjunct2 [OF 1] conjunct2 [OF 2]] unfolding r .
  then show ?thesis using 1 True by (simp add: released_events_def)
next
  case False
  then have cur: "current = TaskStatusPendingClose"
    and cl: "auto_close j now (system_actor sys) sys t task module receipt st w = (Inr u, w')"
    using run by (auto simp: release_rest_def bnd_eq_Inr split: if_splits)
  show ?thesis using phase_close [OF cl ok quiet known] cur by (simp add: released_events_def)
qed

lemma release_tx_effect:
  assumes run: "release_tx j now sys t task module w = (Inr u, w')"
    and ok: "tables_ok snap (wdb w)" and quiet: "quiet_notices j"
    and known: "\<And>m. module = Some m \<Longrightarrow> TM_TaskID m = t \<and> module_row snap t ModuleKeyWarehouse = Some m"
  shows "map_option T_TaskStatus (v_task (wdb w) t) = Some (T_TaskStatus task) \<and>
    (\<exists>l. release_step (receipt_life_of (wdb w) t) l \<and> phase snap (wdb w) t (wdb w') l (released_events (T_TaskStatus task)))"
proof -
  let ?ex = "receipt_of_task (wdb w) t" and ?st = "map_option TM_State module"
  let ?P = "TaskStatusPendingWarehouseReceive"
  obtain w1 where db1: "wdb w1 = wdb w" and rej: "map_option WR_Status ?ex \<noteq> Some WarehouseReceiptStatusRejected"
    and rest: "bnd (if T_TaskStatus task = ?P
        then bnd (auto_receive j now (system_actor sys) t task module ?ex ?st) (\<lambda>(receipt, st1).
               ret (TaskStatusPendingProductionTransfer, Some receipt, st1))
        else ret (T_TaskStatus task, ?ex, ?st)) (release_rest j now sys t task module) w1 = (Inr u, w')"
    using run unfolding release_tx_def Let_def bnd_eq_Inr [of "warehouseRepo_GetByTaskID t"]
    by (auto simp: warehouseRepo_GetByTaskID_def simp del: not_None_eq split: if_split_asm dest!: query_success)
  have ok1: "tables_ok snap (wdb w1)" using ok db1 by simp
  show ?thesis
  proof (cases "T_TaskStatus task = ?P")
    case True
    then obtain receipt st1 w2 where
        rc: "auto_receive j now (system_actor sys) t task module ?ex ?st w1 = (Inr (receipt, st1), w2)"
      and rr: "release_rest j now sys t task module (TaskStatusPendingProductionTransfer, Some receipt, st1) w2 = (Inr u, w')"
      using rest by (auto simp: bnd_eq_Inr)
    note 1 = phase_receive [OF rc ok1 _ known, unfolded db1, OF refl]
    then have ok2: "tables_ok snap (wdb w2)" by (simp add: phase_def)
    have row: "WR_ID receipt = 0 \<and> ?ex = None \<or> WR_ID receipt \<noteq> 0 \<and>
        (\<exists>r0 r. ?ex = Some r0 \<and> receipt_of_task (wdb w2) t = Some r \<and> WR_ID r = WR_ID receipt)"
    proof (cases ?ex)
      case (Some r0)
      then have "0 < WR_ID r0"
        using ok by (auto simp: tables_ok_def list_all_iff receipt_of_task_def dest: find_SomeD)
      then show ?thesis using 1 Some by (auto simp: phase_def)
    qed (use 1 in simp)
    have 2: "phase snap (wdb w2) t (wdb w')
        (if WR_ID receipt = 0 then map_option WR_Status (receipt_of_task (wdb w2) t)
         else Some WarehouseReceiptStatusCompleted, Some TaskStatusCompleted)
        [TaskEventWarehouseCompleted, TaskEventClosed]"
      using phase_rest [OF rr ok2 quiet _ known] row by (auto simp: released_events_def)
    let ?l = "(if ?ex = None then Some WarehouseReceiptStatusReceived else Some WarehouseReceiptStatusCompleted,
        Some TaskStatusCompleted)"
    have "map_option WR_Status (receipt_of_task (wdb w2) t) = Some WarehouseReceiptStatusReceived"
      using 1 by (simp add: phase_def receipt_life_of_def)
    then have "phase snap (wdb w) t (wdb w') ?l
        ([TaskEventWarehouseReceived] @ [TaskEventWarehouseCompleted, TaskEventClosed])"
      using phase_trans [OF conjunct2 [OF conjunct2 [OF 1]] 2] row by (auto split: if_splits)
    moreover have "release_step (receipt_life_of (wdb w) t) ?l"
      using rej 1 by (cases ?ex) (auto simp: receipt_life_of_def intro: release_step.intros)
    ultimately show ?thesis using 1 True by (auto simp: released_events_def)
  next
    case False
    then obtain receipt where ex: "?ex = Some receipt"
      and rr: "release_rest j now sys t task module (T_TaskStatus task, Some receipt, ?st) w1 = (Inr u, w')"
      using rest by (cases ?ex) (auto simp: release_rest_def bnd_run_Inr [OF ret_run])
    have pos: "0 < WR_ID receipt"
      using ok ex by (auto simp: tables_ok_def list_all_iff receipt_of_task_def dest: find_SomeD)
    note 1 = phase_rest [OF rr ok1 quiet _ known, unfolded db1 ex, simplified]
    then show ?thesis using pos rej ex
      by (auto simp: receipt_life_of_def intro!: exI release_step.intros split: if_splits)
  qed
qed

subsection \<open>What the job does\<close>

definition release_ready :: "vdb \<Rightarrow> bool" where
  "release_ready d \<longleftrightarrow> tables_ok (v_modules d) d"

text \<open>A release is a whole step of its task or nothing.\<close>

definition release_outcome :: "vdb \<Rightarrow> id \<Rightarrow> db_error + bool \<Rightarrow> vdb \<Rightarrow> bool" where
  "release_outcome d t r d' \<longleftrightarrow> (if r = Inr True
     then \<exists>task l. v_task d t = Some task \<and> release_step (receipt_life_of d t) l \<and>
       phase (v_modules d) d t d' l (released_events (T_TaskStatus task))
     else d' = d)"

lemma reads_module [read_only]: "reads (releaseModule j t)"
  unfolding reads_def releaseModule_def
  using modules_part.within_read [of "GetByTaskAndKey t ModuleKeyWarehouse"]
  by (simp add: GetByTaskAndKey_def prod_eq_iff)

lemma releaseModule_row:
  assumes "releaseModule j t w = (Inr (Some m), w')"
  shows "TM_TaskID m = t \<and> module_row (v_modules (wdb w)) t ModuleKeyWarehouse = Some m"
proof -
  have "module_row (v_modules (wdb w)) t ModuleKeyWarehouse = Some m"
    using assms by (auto simp: releaseModule_def GetByTaskAndKey_def within_success split: if_splits dest!: query_success)
  then show ?thesis using module_rowD [of "v_modules (wdb w)" t ModuleKeyWarehouse m] by (simp add: module_uk_def)
qed

lemma taskRepo_row: "taskRepo_GetByID t w = (Inr r, w') \<Longrightarrow> r = v_task (wdb w) t"
  by (auto simp: taskRepo_GetByID_def TaskRepo_GetByID_def v_task_def within_success dest!: query_success)

lemma release_task_outcome:
  assumes "release_task j now sys t w = (r, w')" and ready: "release_ready (wdb w)" and quiet: "quiet_notices j"
  shows "release_outcome (wdb w) t r (wdb w')"
  using assms(1) unfolding release_task_def
proof (cases rule: bnd_readE [OF _ reads_taskRepo, consumes 1, case_names go stop])
  case (go r0 w1)
  note row = taskRepo_row [OF go(1)]
  show ?thesis
  proof (cases r0)
    case None
    then show ?thesis using go by (auto simp: release_outcome_def ret_def)
  next
    case (Some task)
    from go(3) show ?thesis
      unfolding Some option.case
    proof (cases rule: bnd_readE [OF _ reads_module, consumes 1, case_names go stop])
      case (go module w2)
      have db: "wdb w2 = wdb w" using go(2) \<open>wdb w1 = wdb w\<close> by simp
      have known: "TM_TaskID m = t \<and> module_row (v_modules (wdb w)) t ModuleKeyWarehouse = Some m"
        if "module = Some m" for m
        using go(1) that releaseModule_row [of j t w1 m w2] \<open>wdb w1 = wdb w\<close> by simp
      show ?thesis
      proof (cases "RunInTx (release_tx j now sys t task module) w2")
        case (Pair q w3)
        show ?thesis
        proof (cases q)
          case (Inl e)
          then show ?thesis using Pair go(3) RunInTx_failure [of "release_tx j now sys t task module" w2 e w3] db
            by (auto simp: bnd_def release_outcome_def)
        next
          case (Inr u)
          then obtain w4 w5 where tx: "wdb w4 = wdb w2" "release_tx j now sys t task module w4 = (Inr u, w5)" "wdb w3 = wdb w5"
            using RunInTx_success [of "release_tx j now sys t task module" w2 u w3] Pair by auto
          have "tables_ok (v_modules (wdb w)) (wdb w4)" using ready tx(1) db by (simp add: release_ready_def)
          note eff = conjunct2 [OF release_tx_effect [OF tx(2) this quiet known]]
          have "r = Inr True" "wdb w' = wdb w5" "wdb w4 = wdb w" "v_task (wdb w) t = Some task"
            using tx db Pair Inr go(3) row Some by (simp_all add: bnd_def ret_def)
          then show ?thesis using eff unfolding release_outcome_def by simp
        qed
      qed
    qed (use \<open>wdb w1 = wdb w\<close> in \<open>auto simp: release_outcome_def\<close>)
  qed
qed (auto simp: release_outcome_def)

text \<open>The synchronisation after a close does not write the tables of the workflow.\<close>

definition syncs_elsewhere :: "WarehouseAutoReleaseJob \<Rightarrow> bool" where
  "syncs_elsewhere j \<longleftrightarrow> (case J_closeSyncer j of None \<Rightarrow> True
     | Some syncer \<Rightarrow> \<forall>i a w. a_workflow (wdb (snd (syncer i a w))) = a_workflow (wdb w))"

lemma releaseOne_any:
  assumes "release_ready (a_workflow (wdb w))" and "quiet_notices j" and "syncs_elsewhere j"
  shows "release_outcome (a_workflow (wdb w)) t (fst (releaseOne j now t sys w))
    (a_workflow (wdb (snd (releaseOne j now t sys w))))"
proof -
  obtain r v where run: "release_task j now sys t \<lparr>wdb = a_workflow (wdb w), faults = faults w\<rparr> = (r, v)"
    by fastforce
  have out: "release_outcome (a_workflow (wdb w)) t r (wdb v)"
    using release_task_outcome [OF run _ assms(2)] assms(1) by simp
  let ?w1 = "w\<lparr>wdb := put_workflow (wdb v) (wdb w), faults := faults v\<rparr>"
  have w1: "within a_workflow put_workflow (release_task j now sys t) w = (r, ?w1)"
    using run by (simp add: within_def)
  have sync: "\<exists>w2. bnd (sync_closed j t sys) (\<lambda>_. ret True) x = (Inr True, w2) \<and>
      a_workflow (wdb w2) = a_workflow (wdb x)" for x
    using assms(3)
    by (cases "J_closeSyncer j") (auto simp: sync_closed_def syncs_elsewhere_def bnd_def ret_def ignore_err_def)
  have one: "releaseOne j now t sys w = (case r of Inl e \<Rightarrow> (Inl e, ?w1)
      | Inr released \<Rightarrow> (if released then bnd (sync_closed j t sys) (\<lambda>_. ret True) else ret False) ?w1)"
    unfolding releaseOne_def by (subst bnd_def) (simp add: w1 split: sum.split)
  obtain w2 where w2: "bnd (sync_closed j t sys) (\<lambda>_. ret True) ?w1 = (Inr True, w2)"
    "a_workflow (wdb w2) = wdb v" using sync [of ?w1] by (auto simp: put_workflow_def)
  have "fst (releaseOne j now t sys w) = r \<and> a_workflow (wdb (snd (releaseOne j now t sys w))) = wdb v"
    unfolding one using w2 by (auto simp: ret_def put_workflow_def split: sum.split)
  then show ?thesis using out by simp
qed

text \<open>
  (C8) Whatever fails in it, a release moves its task, the receipt, the module and their events together or
  not at all. It happens only from a receipt that is not rejected and one of the three statuses; it leaves
  every other task alone, and the module log in agreement with the module table. A task that had no
  receipt ends completed with a receipt that is only received.
\<close>

theorem auto_release_all_or_nothing:
  assumes "release_ready (a_workflow (wdb w))" and "quiet_notices j" and "syncs_elsewhere j"
  shows "release_outcome (a_workflow (wdb w)) t (fst (releaseOne j now t sys w))
    (a_workflow (wdb (snd (releaseOne j now t sys w))))"
proof -
  from releaseOne_any [OF assms] show ?thesis .
qed

subsection \<open>A run of the job\<close>

lemma release_changes: "release_step l l' \<Longrightarrow> l' \<noteq> l \<and> snd l' = Some TaskStatusCompleted"
  by (auto elim: release_stepE)

lemma outcome_lives:
  assumes "release_outcome d t r d'" and "release_ready d"
  shows "release_ready d' \<and> same_jobs d d' \<and> (\<forall>u. u \<noteq> t \<longrightarrow> receipt_life_of d' u = receipt_life_of d u) \<and>
    (if r = Inr True then release_step (receipt_life_of d t) (receipt_life_of d' t)
     else receipt_life_of d' t = receipt_life_of d t)"
  using assms by (auto simp: release_outcome_def phase_def release_ready_def tables_ok_def)

text \<open>The tasks of a run that moved, among the given ones.\<close>

definition released_ids :: "vdb \<Rightarrow> vdb \<Rightarrow> id list \<Rightarrow> id list" where
  "released_ids d d' ids = filter (\<lambda>t. receipt_life_of d' t \<noteq> receipt_life_of d t) ids"

text \<open>What a run did to the tasks it was given: the counts, and nothing outside them.\<close>

definition run_accounts ::
  "id list \<Rightarrow> WarehouseAutoReleaseResult \<Rightarrow> vdb \<Rightarrow> WarehouseAutoReleaseResult \<Rightarrow> vdb \<Rightarrow> bool" where
  "run_accounts ids result d result' d' \<longleftrightarrow>
     RR_Released result' = RR_Released result + int (length (released_ids d d' ids)) \<and>
     RR_Skipped result' = RR_Skipped result + int (length ids) - int (length (released_ids d d' ids)) \<and>
     (\<forall>t. t \<notin> set (released_ids d d' ids) \<longrightarrow> receipt_life_of d' t = receipt_life_of d t) \<and>
     (\<forall>t \<in> set (released_ids d d' ids). release_step (receipt_life_of d t) (receipt_life_of d' t))"

lemma accounts_step:
  assumes first: "\<forall>u. u \<noteq> t \<longrightarrow> receipt_life_of d1 u = receipt_life_of d u"
      "if b then release_step (receipt_life_of d t) (receipt_life_of d1 t) else receipt_life_of d1 t = receipt_life_of d t"
    and rest: "run_accounts ids (if b then result\<lparr>RR_Released := RR_Released result + 1\<rparr>
        else result\<lparr>RR_Skipped := RR_Skipped result + 1\<rparr>) d1 result' d'"
    and t: "t \<notin> set ids"
  shows "run_accounts (t # ids) result d result' d'"
proof -
  have same: "released_ids d1 d' ids = released_ids d d' ids"
    unfolding released_ids_def using first(1) t by (intro filter_cong) auto
  have last: "receipt_life_of d' t = receipt_life_of d1 t"
    using rest t by (auto simp: run_accounts_def released_ids_def)
  have "receipt_life_of d' t \<noteq> receipt_life_of d t \<longleftrightarrow> b"
    using first(2) last release_changes by (auto split: if_splits)
  then have "released_ids d d' (t # ids) = (if b then [t] else []) @ released_ids d d' ids" by (simp add: released_ids_def)
  moreover have "t \<notin> set (released_ids d d' ids)" using t by (simp add: released_ids_def)
  moreover have "\<forall>u \<in> set (released_ids d d' ids). receipt_life_of d1 u = receipt_life_of d u"
    using first(1) calculation(2) by metis
  ultimately show ?thesis
    using rest first last t unfolding run_accounts_def same
    by (auto split: if_splits)
qed

lemma release_all_accounts:
  assumes "release_ready (a_workflow (wdb w))" and "quiet_notices j" and "syncs_elsewhere j" and "distinct ids"
  shows "run_accounts ids result (a_workflow (wdb w)) (fst (release_all j now sys ids result w))
    (a_workflow (wdb (snd (release_all j now sys ids result w))))"
  using assms(1,4)
proof (induction ids arbitrary: result w)
  case Nil
  then show ?case by (simp add: run_accounts_def released_ids_def)
next
  case (Cons t ids)
  obtain r w1 where one: "releaseOne j now t sys w = (r, w1)" by fastforce
  let ?b = "r = Inr True"
  have out: "release_outcome (a_workflow (wdb w)) t r (a_workflow (wdb w1))"
    using releaseOne_any [OF Cons.prems(1) assms(2,3), of t now sys] one by simp
  note lives = outcome_lives [OF out Cons.prems(1)]
  have run: "release_all j now sys (t # ids) result w = release_all j now sys ids
      (if ?b then result\<lparr>RR_Released := RR_Released result + 1\<rparr> else result\<lparr>RR_Skipped := RR_Skipped result + 1\<rparr>) w1"
    using one by (auto split: sum.split bool.split)
  show ?case
    unfolding run using Cons.IH [of w1] Cons.prems(2) lives
    by (intro accounts_step [of t "a_workflow (wdb w1)" _ ?b]) auto
qed

lemma release_all_scanned: "RR_Scanned (fst (release_all j now sys ids result w)) = RR_Scanned result"
  by (induction ids arbitrary: result w) (auto split: prod.split sum.split bool.split)

lemma candidates_distinct: "release_ready (a_workflow d) \<Longrightarrow> distinct (release_candidates d cutoff limit)"
proof -
  let ?f = "filter (release_candidate d cutoff) (tasks (v_modules (a_workflow d)))"
  assume "release_ready (a_workflow d)"
  then have "distinct (map T_ID ?f)"
    by (auto simp: release_ready_def tables_ok_def linv_def minv_def distinct_map intro: inj_on_subset)
  then show ?thesis
    unfolding release_candidates_def by (intro distinct_take) (simp add: distinct_map)
qed

text \<open>
  (C27) A run of the job accounts for every task it finds: the number it reports as released is the number of
  tasks found that moved, each by one whole release, the others are reported as skipped, and no task that
  was not found moves. A dry run and a failed run change nothing.
\<close>

theorem release_run_accounts:
  assumes "release_ready (a_workflow (wdb w))" and "quiet_notices j" and "syncs_elsewhere j"
    and "release_Run j now opts w = (Inr result, w')"
  defines "ids \<equiv> release_candidates (wdb w) (now - release_grace (LO_GracePeriod opts)) (release_limit (LO_Limit opts))"
  shows "RR_Scanned result = int (length ids) \<and>
    (if LO_DryRun opts then RR_Released result = 0 \<and> RR_Skipped result = 0 \<and> wdb w' = wdb w
     else RR_Released result = int (length (released_ids (a_workflow (wdb w)) (a_workflow (wdb w')) ids)) \<and>
       RR_Skipped result = RR_Scanned result - RR_Released result \<and>
       (\<forall>t. receipt_life_of (a_workflow (wdb w')) t = receipt_life_of (a_workflow (wdb w)) t \<or>
         t \<in> set ids \<and> release_step (receipt_life_of (a_workflow (wdb w)) t) (receipt_life_of (a_workflow (wdb w')) t)))"
proof -
  let ?zero = "\<lparr>RR_DryRun = LO_DryRun opts, RR_Scanned = int (length ids), RR_Released = 0, RR_Skipped = 0,
      RR_Cutoff = now - release_grace (LO_GracePeriod opts)\<rparr>"
  have configured: "J_configured j" by (rule ccontr) (use assms(4) in \<open>simp add: release_Run_def\<close>)
  obtain ids0 w1 where q: "query (\<lambda>d. release_candidates d (now - release_grace (LO_GracePeriod opts))
      (release_limit (LO_Limit opts))) w = (Inr ids0, w1)"
    and run: "(let result = \<lparr>RR_DryRun = LO_DryRun opts, RR_Scanned = int (length ids0), RR_Released = 0, RR_Skipped = 0,
        RR_Cutoff = now - release_grace (LO_GracePeriod opts)\<rparr>
      in if LO_DryRun opts then ret result
         else (\<lambda>w. case release_all j now (LO_SystemActorID opts) ids0 result w of (r, w') \<Rightarrow> (Inr r, w'))) w1 =
        (Inr result :: ErrCode + WarehouseAutoReleaseResult, w')"
    using assms(4) configured unfolding release_Run_def ListWarehouseAutoReleaseCandidates_def
    by (auto simp only: if_False simp_thms Let_def bnd_eq_Inr map_err_eq_Inr)
  have ids0: "ids0 = ids" and db: "wdb w1 = wdb w" using query_success [OF q] by (simp_all add: ids_def)
  note rest = run [unfolded ids0 Let_def]
  show ?thesis
  proof (cases "LO_DryRun opts")
    case True
    then show ?thesis using rest db by auto
  next
    case False
    have all: "release_all j now (LO_SystemActorID opts) ids ?zero w1 = (result, w')"
      using rest False by (auto split: prod.splits)
    have "distinct ids" unfolding ids_def by (rule candidates_distinct [OF assms(1)])
    then have acc: "run_accounts ids ?zero (a_workflow (wdb w)) result (a_workflow (wdb w'))"
      using release_all_accounts [where ids = ids and w = w1 and result = ?zero and j = j and now = now
        and sys = "LO_SystemActorID opts"] assms(1-3) db all by simp
    have "RR_Scanned result = int (length ids)"
      using release_all_scanned [where ids = ids and w = w1 and result = ?zero and j = j and now = now
        and sys = "LO_SystemActorID opts"] all by simp
    then show ?thesis using acc False by (auto simp: run_accounts_def released_ids_def)
  qed
qed

subsection \<open>A released task is done\<close>

lemma completed_refused:
  assumes "warehouse_spec s now c call d d1 d'" and "resolveTaskActionActor c \<noteq> None"
    and "map_option T_TaskStatus (v_task d (call_task_id call)) = Some TaskStatusCompleted"
  shows False
proof -
  have shut: "\<not> may_act (W_catalog s) c a task" if "a \<in> set warehouse_actions" "T_TaskStatus task = TaskStatusCompleted" for a task
    using may_act_gate [OF _ assms(2) that(1), of "W_catalog s" task] that by (auto simp: waits_for_warehouse_def)
  show False
    using assms(1,3) shut
    by (cases call) (auto simp: warehouse_spec_def call_task_id_def warehouse_actions_def)
qed

text \<open>
  (C28) Once the job has released a task, no request of the warehouse with an actor changes it: receiving,
  rejecting and completing are all refused; and the job does not find the task again.
\<close>

theorem released_task_is_done:
  assumes "release_ready (a_workflow (wdb w))" and "quiet_notices j" and "syncs_elsewhere j"
    and "releaseOne j now t sys w = (Inr True, w')"
    and "resolveTaskActionActor ctxActor \<noteq> None" and "call_task_id call = t"
  shows "(\<exists>e. fst (run_warehouse s now' ctxActor call \<lparr>wdb = a_workflow (wdb w'), faults = fs\<rparr>) = Inl e) \<and>
    t \<notin> set (release_candidates (wdb w') cutoff limit)"
proof -
  let ?d = "a_workflow (wdb w')"
  have out: "release_outcome (a_workflow (wdb w)) t (Inr True) ?d"
    using releaseOne_any [OF assms(1-3), of t now sys] assms(4) by simp
  note lives = outcome_lives [OF out assms(1)]
  then have "snd (receipt_life_of ?d t) = Some TaskStatusCompleted"
    using release_changes [of "receipt_life_of (a_workflow (wdb w)) t" "receipt_life_of ?d t"] by simp
  then have st: "map_option T_TaskStatus (v_task ?d t) = Some TaskStatusCompleted"
    by (simp add: receipt_life_of_def)
  have ids: "distinct (map T_ID (tasks (v_modules ?d)))"
    using lives by (auto simp: release_ready_def tables_ok_def linv_def minv_def)
  have "\<not> release_candidate (wdb w') cutoff x" if "x \<in> set (tasks (v_modules ?d))" "T_ID x = t" for x
    using st find_by_ID [OF ids that(1)] that(2) by (auto simp: release_candidate_def v_task_def task_row_def)
  then have "t \<notin> set (release_candidates (wdb w') cutoff limit)"
    unfolding release_candidates_def by (auto dest!: in_set_takeD)
  moreover have "\<exists>e. fst (run_warehouse s now' ctxActor call \<lparr>wdb = ?d, faults = fs\<rparr>) = Inl e"
    using warehouse_any [of s now' ctxActor call "\<lparr>wdb = ?d, faults = fs\<rparr>"]
      completed_refused [of s now' ctxActor call ?d, OF _ assms(5)] st assms(6)
    unfolding warehouse_outcome_def by auto
  ultimately show ?thesis by blast
qed

text \<open>
  (C29) A task whose status is no longer the one the job read before its transaction is not released:
  the transaction fails and writes nothing.
\<close>

theorem stale_release_refused:
  assumes "release_ready (wdb w)" and "quiet_notices j"
    and "map_option T_TaskStatus (v_task (wdb w) t) \<noteq> Some (T_TaskStatus task)"
    and "case module of None \<Rightarrow> True
      | Some m \<Rightarrow> TM_TaskID m = t \<and> module_row (v_modules (wdb w)) t ModuleKeyWarehouse = Some m"
  shows "\<exists>e w'. RunInTx (release_tx j now sys t task module) w = (Inl e, w') \<and> wdb w' = wdb w"
proof (cases "RunInTx (release_tx j now sys t task module) w")
  case (Pair r w')
  show ?thesis
  proof (cases r)
    case (Inl e)
    then show ?thesis using Pair RunInTx_failure [of "release_tx j now sys t task module" w e w'] by blast
  next
    case (Inr u)
    then obtain w1 w2 where tx: "wdb w1 = wdb w" "release_tx j now sys t task module w1 = (Inr u, w2)"
      using RunInTx_success [of "release_tx j now sys t task module" w u w'] Pair by auto
    have "tables_ok (v_modules (wdb w)) (wdb w1)" using assms(1) tx(1) by (simp add: release_ready_def)
    from release_tx_effect [OF tx(2) this assms(2)] show ?thesis
      using assms(3,4) tx(1) by (auto split: option.splits)
  qed
qed

subsection \<open>The statements at work\<close>

text \<open>A task the warehouse has not touched, with no module and no receipt.\<close>

definition waiting_task :: Task where
  "waiting_task = demo_task\<lparr>T_TaskStatus := TaskStatusPendingWarehouseReceive\<rparr>"

definition release_vdb :: vdb where
  "release_vdb = (demo_vdb waiting_task [])\<lparr>v_modules := demo_db\<lparr>tasks := [waiting_task], task_modules := [],
     module_events := []\<rparr>\<rparr>"

definition release_adb :: adb where
  "release_adb = \<lparr>a_workflow = release_vdb, task_sku_items = [], erp_product_sync_records = []\<rparr>"

definition demo_job :: WarehouseAutoReleaseJob where
  "demo_job = \<lparr>J_configured = True, J_moduleRepos = True, J_closeSyncer = Some (\<lambda>_ _. ret ()),
     J_notifications = Some (\<lambda>_ _. ret ()), J_fmtTime = (\<lambda>_. ''20260101000000''), J_uuid = (\<lambda>n. replicate n CHR ''u'')\<rparr>"

lemma demo_job_ok: "quiet_notices demo_job" "syncs_elsewhere demo_job" "release_ready release_vdb"
  by (simp_all add: quiet_notices_def syncs_elsewhere_def demo_job_def read_only release_ready_def tables_ok_def
      release_vdb_def receipts_inv_def demo_vdb_def linv_def minv_def demo_db_def)

theorem auto_release_all_or_nothing_witness:
  "release_outcome release_vdb 1 (fst (releaseOne demo_job 5 1 0 \<lparr>wdb = release_adb, faults = []\<rparr>))
    (a_workflow (wdb (snd (releaseOne demo_job 5 1 0 \<lparr>wdb = release_adb, faults = []\<rparr>))))"
  using auto_release_all_or_nothing [of "\<lparr>wdb = release_adb, faults = []\<rparr>" demo_job 1 5 0] demo_job_ok
  by (simp add: release_adb_def)

text \<open>A finished task that is ready and waits to be closed, with a completed receipt.\<close>

definition ready_adb :: adb where
  "ready_adb = (let task = demo_task\<lparr>T_TaskStatus := TaskStatusPendingClose, T_SKUCode := ''s'', T_UpdatedAt := 0,
       T_TaskType := TaskTypeNewProductDevelopment\<rparr>
     in \<lparr>a_workflow = release_vdb\<lparr>v_modules := (v_modules release_vdb)\<lparr>tasks := [task]\<rparr>,
          warehouse_receipts := [\<lparr>WR_ID = 1, WR_TaskID = 1, WR_ReceiptNo = ''r'', WR_Status = WarehouseReceiptStatusCompleted,
            WR_ReceiverID = None, WR_ReceivedAt = None, WR_CompletedAt = None, WR_RejectReason = [], WR_Remark = [],
            WR_CreatedAt = 0, WR_UpdatedAt = 0\<rparr>], next_receipt := 2,
          task_assets := [\<lparr>TA_ID = 4, TA_TaskID = 1, TA_AssetID = Some 3, TA_AssetType = ''delivery'',
            TA_FlowReviewStatus = ''approved'', TA_ApprovedAt = None, TA_ApprovedBy = None, TA_RejectedAt = None,
            TA_RejectedBy = None, TA_SupersededByVersionID = None, TA_SupersededAt = None, TA_CleanupAfterAt = None,
            TA_DeletedAt = None, TA_CleanedAt = None\<rparr>],
          design_assets := [\<lparr>DA_ID = 3, DA_CurrentVersionID = Some 4\<rparr>]\<rparr>,
        task_sku_items = [\<lparr>SI_TaskID = 1, SI_FilingStatus = ''filed'', SI_ERPSyncStatus = ''filed'', SI_ERPSyncRequired = False\<rparr>],
        erp_product_sync_records = []\<rparr>)"

definition demo_opts :: WarehouseAutoReleaseOptions where
  "demo_opts = \<lparr>LO_DryRun = False, LO_Limit = 0, LO_GracePeriod = 0, LO_SystemActorID = 7\<rparr>"

lemma demo_found: "release_candidates ready_adb 200000000000 100 = [1]"
  by code_simp

lemma demo_one: "fst (releaseOne demo_job 2000000000000 1 7 \<lparr>wdb = ready_adb, faults = []\<rparr>) = Inr True"
  by (simp add: releaseOne_def release_task_def releaseModule_def release_tx_def release_rest_def auto_close_def
      ready_adb_def release_vdb_def demo_vdb_def demo_db_def demo_task_def waiting_task_def demo_job_def Let_def
      within_def bnd_def act_simps taskRepo_GetByID_def TaskRepo_GetByID_def task_row_def GetByTaskAndKey_def module_row_def
      put_modules_def put_workflow_def RunInTx_def warehouseRepo_GetByTaskID_def receipt_of_task_def
      updateWarehouseModuleState_def move_status_def CASUpdateStatus_def row_upd_def reindexTaskSearchDocument_def
      release_event_def taskEventRepo_Append_def nextTaskEventSequence_def task_uuid_New_def set_sequence_def
      insert_task_event_def task_exists_def v_task_def notify_closed_def sync_closed_def ignore_err_def)

lemma ready_ok: "release_ready (a_workflow ready_adb)"
  by (simp add: ready_adb_def Let_def demo_vdb_def release_vdb_def waiting_task_def demo_db_def demo_task_def
      release_ready_def tables_ok_def receipts_inv_def linv_def minv_def)

lemma demo_run: "\<exists>w'. release_Run demo_job 2000000000000 demo_opts \<lparr>wdb = ready_adb, faults = []\<rparr> =
  (Inr \<lparr>RR_DryRun = False, RR_Scanned = 1, RR_Released = 1, RR_Skipped = 0, RR_Cutoff = 200000000000\<rparr>, w')"
proof -
  have "ListWarehouseAutoReleaseCandidates 200000000000 100 \<lparr>wdb = ready_adb, faults = []\<rparr> =
      (Inr [1], \<lparr>wdb = ready_adb, faults = []\<rparr>)"
    by (simp add: ListWarehouseAutoReleaseCandidates_def act_simps demo_found)
  moreover have "J_configured demo_job" by (simp add: demo_job_def)
  moreover obtain w' where "releaseOne demo_job 2000000000000 1 7 \<lparr>wdb = ready_adb, faults = []\<rparr> = (Inr True, w')"
    using demo_one by (metis prod.collapse)
  ultimately show ?thesis
    by (simp add: release_Run_def demo_opts_def release_grace_def release_limit_def bnd_def map_err_def)
qed

theorem release_run_accounts_witness:
  "\<exists>result w'. release_Run demo_job 2000000000000 demo_opts \<lparr>wdb = ready_adb, faults = []\<rparr> = (Inr result, w') \<and>
    RR_Released result = int (length (released_ids (a_workflow ready_adb) (a_workflow (wdb w'))
      (release_candidates ready_adb 200000000000 100)))"
proof -
  obtain result w' where run: "release_Run demo_job 2000000000000 demo_opts \<lparr>wdb = ready_adb, faults = []\<rparr> = (Inr result, w')"
    using demo_run by blast
  then show ?thesis
    using release_run_accounts [of "\<lparr>wdb = ready_adb, faults = []\<rparr>" demo_job 2000000000000 demo_opts result w']
      demo_job_ok ready_ok
    by (simp add: demo_opts_def release_grace_def release_limit_def)
qed

theorem released_task_is_done_witness:
  "\<exists>w'. releaseOne demo_job 2000000000000 1 7 \<lparr>wdb = ready_adb, faults = []\<rparr> = (Inr True, w') \<and>
    (\<exists>e. fst (run_warehouse demo_warehouse 6 (Some demo_auditor)
       (WarehouseReceive \<lparr>WV_TaskID = 1, WV_ReceiverID = 3, WV_Remark = []\<rparr>) \<lparr>wdb = a_workflow (wdb w'), faults = []\<rparr>) = Inl e)"
proof -
  obtain w' where run: "releaseOne demo_job 2000000000000 1 7 \<lparr>wdb = ready_adb, faults = []\<rparr> = (Inr True, w')"
    using demo_one by (metis prod.collapse)
  then show ?thesis
    using released_task_is_done [of "\<lparr>wdb = ready_adb, faults = []\<rparr>" demo_job 2000000000000 1 7 w' "Some demo_auditor"
        "WarehouseReceive \<lparr>WV_TaskID = 1, WV_ReceiverID = 3, WV_Remark = []\<rparr>" demo_warehouse 6 "[]"]
      demo_job_ok ready_ok demo_auditor_actor by (simp add: call_task_id_def)
qed

theorem stale_release_refused_witness:
  "\<exists>e w'. RunInTx (release_tx demo_job 5 7 1 (waiting_task\<lparr>T_TaskStatus := TaskStatusPendingClose\<rparr>) None)
     \<lparr>wdb = release_vdb, faults = []\<rparr> = (Inl e, w') \<and> wdb w' = release_vdb"
  using stale_release_refused [of "\<lparr>wdb = release_vdb, faults = []\<rparr>" demo_job 1
      "waiting_task\<lparr>T_TaskStatus := TaskStatusPendingClose\<rparr>" None 5 7] demo_job_ok
  by (simp add: release_vdb_def v_task_def task_row_def waiting_task_def demo_vdb_def demo_task_def)

end
