(* ===== verification/Customization.thy ===== *)
theory Customization
  imports Warehouse
begin

section \<open>Customization jobs\<close>

text \<open>
  \<^verbatim>\<open>service/task_customization_service.go\<close> and the repositories of jobs and pricing rules: a reviewer sends a
  customized task to production or straight to the warehouse, the operator submits a preview or the
  final work, the reviewer approves it or sends it back, and the work is handed to the warehouse. Job,
  task and event change in one transaction. The notification of the audit pool is a parameter; the paged
  \<^verbatim>\<open>ListCustomizationJobs\<close> is not modelled.
\<close>

subsection \<open>Repositories\<close>

abbreviation "CustomizationJobStatusPendingCustomizationReview \<equiv> ''pending_customization_review''"
abbreviation "CustomizationJobStatusPendingCustomizationProduction \<equiv> ''pending_customization_production''"
abbreviation "CustomizationJobStatusPendingEffectReview \<equiv> ''pending_effect_review''"
abbreviation "CustomizationJobStatusPendingEffectRevision \<equiv> ''pending_effect_revision''"
abbreviation "CustomizationJobStatusPendingProductionTransfer \<equiv> ''pending_production_transfer''"
abbreviation "CustomizationJobStatusPendingWarehouseQC \<equiv> ''pending_warehouse_qc''"

abbreviation "CustomizationReviewDecisionApproved \<equiv> ''approved''"
abbreviation "CustomizationReviewDecisionReturnToDesigner \<equiv> ''return_to_designer''"
abbreviation "CustomizationReviewDecisionReviewerFixed \<equiv> ''reviewer_fixed''"
abbreviation "CustomizationJobDecisionTypeFinal \<equiv> ''final''"
abbreviation "CustomizationJobDecisionTypeEffectPreview \<equiv> ''effect_preview''"

definition CustomizationReviewDecision_Valid :: "string \<Rightarrow> bool" where
  "CustomizationReviewDecision_Valid d \<longleftrightarrow> d \<in> set [CustomizationReviewDecisionApproved,
     CustomizationReviewDecisionReturnToDesigner, CustomizationReviewDecisionReviewerFixed]"

definition CustomizationJobDecisionType_Valid :: "string \<Rightarrow> bool" where
  "CustomizationJobDecisionType_Valid d \<longleftrightarrow>
     d \<in> set [CustomizationJobDecisionTypeFinal, CustomizationJobDecisionTypeEffectPreview]"

definition job_row :: "vdb \<Rightarrow> id \<Rightarrow> CustomizationJob option" where
  "job_row d i = List.find (\<lambda>j. CJ_ID j = i) (customization_jobs d)"

definition customizationJobRepo_GetByID :: "id \<Rightarrow> CustomizationJob option vact" where
  "customizationJobRepo_GetByID i = query (\<lambda>d. job_row d i)"

definition add_job :: "time \<Rightarrow> CustomizationJob \<Rightarrow> vdb \<Rightarrow> vdb" where
  "add_job now job d = d\<lparr>customization_jobs := customization_jobs d @
       [job\<lparr>CJ_ID := next_job d, CJ_CreatedAt := now, CJ_UpdatedAt := now\<rparr>],
     next_job := next_job d + 1\<rparr>"

definition customizationJobRepo_Create :: "time \<Rightarrow> CustomizationJob \<Rightarrow> id vact" where
  "customizationJobRepo_Create now job = stmt (\<lambda>d.
     if \<not> task_exists d (CJ_TaskID job) then Inl ErrDB else Inr (next_job d, add_job now job d))"

definition active_rule :: "vdb \<Rightarrow> string \<Rightarrow> string \<Rightarrow> CustomizationPricingRule option" where
  "active_rule d code employmentType = (case rev (sort_key PR_ID (filter (\<lambda>r.
       ci_eq (PR_CustomizationLevelCode r) code \<and> ci_eq (PR_EmploymentType r) employmentType \<and> PR_IsEnabled r)
       (pricing_rules d))) of [] \<Rightarrow> None | r # _ \<Rightarrow> Some r)"

definition GetActiveByLevelAndEmploymentType :: "string \<Rightarrow> string \<Rightarrow> CustomizationPricingRule option vact" where
  "GetActiveByLevelAndEmploymentType levelCode employmentType =
     (let code = TrimSpace levelCode
      in if code = [] \<or> \<not> EmploymentType_Valid employmentType then ret None
         else query (\<lambda>d. active_rule d code employmentType))"

subsection \<open>The service\<close>

record customizationService =
  Z_catalog :: taskOrgCatalog
  Z_dataScopeResolver :: bool
  Z_scopeUserRepo :: bool
  Z_customizationJobRepo :: bool
  Z_pricingUserRepo :: bool
  Z_pricingRuleRepo :: bool
  Z_notifyAuditPool :: "(id \<Rightarrow> id \<Rightarrow> id \<Rightarrow> string \<Rightarrow> unit vact) option"
  Z_uuid :: uuid_source

record SubmitCustomizationReviewParams =
  SR_TaskID :: id
  SR_ReviewerID :: id
  SR_SourceAssetID :: "id option"
  SR_CustomizationLevelCode :: string
  SR_CustomizationLevelName :: string
  SR_CustomizationPrice :: "price option"
  SR_CustomizationWeight :: "price option"
  SR_CustomizationNote :: string
  SR_Decision :: string

record SubmitCustomizationEffectPreviewParams =
  EP_JobID :: id
  EP_OperatorID :: id
  EP_OrderNo :: string
  EP_CurrentAssetID :: "id option"
  EP_DecisionType :: string
  EP_Note :: string

record ReviewCustomizationEffectParams =
  ER_JobID :: id
  ER_ReviewerID :: id
  ER_Decision :: string
  ER_CurrentAssetID :: "id option"
  ER_CustomizationLevelCode :: string
  ER_CustomizationLevelName :: string
  ER_CustomizationPrice :: "price option"
  ER_CustomizationWeight :: "price option"
  ER_CustomizationNote :: string

record TransferCustomizationProductionParams =
  TP_JobID :: id
  TP_OperatorID :: id
  TP_CurrentAssetID :: "id option"
  TP_TransferChannel :: string
  TP_TransferReference :: string
  TP_Note :: string

definition customization_users :: "customizationService \<Rightarrow> vdb user_repo" where
  "customization_users s = (if Z_scopeUserRepo s then Some (userRepo_GetByID v_users) else None)"

text \<open>As in the warehouse, the authoriser rewrites the ownership of the task it is given.\<close>

definition customization_authorize ::
  "customizationService \<Rightarrow> RequestActor option \<Rightarrow> TaskAction \<Rightarrow> Task \<Rightarrow> Task vop" where
  "customization_authorize s ctxActor a task =
     bnd (AuthorizeTaskActionWithAttributes (Z_catalog s) (Z_dataScopeResolver s) (customization_users s) ctxActor
            a (Some task) no_stage) (\<lambda>_.
       ret (if resolveTaskActionActor ctxActor = None then task
            else applyTaskReadModelOrgOwnership (Z_catalog s) task))"

definition GetCustomizationJob :: "customizationService \<Rightarrow> id \<Rightarrow> CustomizationJob vop" where
  "GetCustomizationJob s i = (if \<not> Z_customizationJobRepo s then throw ErrCodeInternalError
     else bnd (infra_v (customizationJobRepo_GetByID i)) (\<lambda>r. case r of
       None \<Rightarrow> throw ErrCodeNotFound | Some item \<Rightarrow> ret item))"

definition loadCustomizationJobAndTask :: "id \<Rightarrow> (CustomizationJob \<times> Task) vop" where
  "loadCustomizationJobAndTask jobID =
     bnd (infra_v (customizationJobRepo_GetByID jobID)) (\<lambda>r. case r of
       None \<Rightarrow> throw ErrCodeNotFound
     | Some job \<Rightarrow> bnd (getTask (CJ_TaskID job)) (\<lambda>task. ret (job, task)))"

definition resolveCustomizationAssetID :: "id option \<Rightarrow> id option \<Rightarrow> id option vop" where
  "resolveCustomizationAssetID existing requested =
     (if requested \<noteq> None then ret requested
      else if existing \<noteq> None then ret existing else throw ErrCodeInvalidRequest)"

definition customizationOperatorFallbackHandler :: "Task \<Rightarrow> CustomizationJob option \<Rightarrow> id option" where
  "customizationOperatorFallbackHandler task job =
     (if T_LastCustomizationOperatorID task \<noteq> None then T_LastCustomizationOperatorID task
      else case job of
          Some j \<Rightarrow> if CJ_LastOperatorID j \<noteq> None then CJ_LastOperatorID j else T_DesignerID task
        | None \<Rightarrow> T_DesignerID task)"

definition resolveCustomizationPricingSnapshot ::
  "customizationService \<Rightarrow> id \<Rightarrow> string \<Rightarrow> (string \<times> price \<times> price) vop" where
  "resolveCustomizationPricingSnapshot s operatorID levelCode =
     (if \<not> Z_pricingUserRepo s then throw ErrCodeInternalError
      else bnd (infra_v (userRepo_GetByID v_users operatorID)) (\<lambda>r. case r of
        None \<Rightarrow> throw ErrCodeNotFound
      | Some user \<Rightarrow>
          let employmentType = (if EmploymentType_Valid (U_EmploymentType user) then U_EmploymentType user
                else EmploymentTypeFullTime)
          in if \<not> Z_pricingRuleRepo s then throw ErrCodeInternalError
             else bnd (infra_v (GetActiveByLevelAndEmploymentType levelCode employmentType)) (\<lambda>r. case r of
               None \<Rightarrow> throw ErrCodeInvalidRequest
             | Some rule \<Rightarrow> ret (employmentType, PR_UnitPrice rule, PR_WeightFactor rule))))"

text \<open>What every step writes after the job: status, handler and customization state of the task, and the event.\<close>

definition move_task ::
  "time \<Rightarrow> Task \<Rightarrow> TaskStatus \<times> id option \<Rightarrow> unit vact" where
  "move_task now task nxt =
     bnd (taskRepo_UpdateStatus now (T_ID task) (fst nxt)) (\<lambda>_.
     taskRepo_UpdateHandler now (T_ID task) (snd nxt))"

definition customization_event ::
  "customizationService \<Rightarrow> time \<Rightarrow> Task \<Rightarrow> string \<Rightarrow> id \<Rightarrow> jsonobj \<Rightarrow> unit vact" where
  "customization_event s now task eventType operatorID extra =
     bnd (taskEventRepo_Append (Z_uuid s) now (T_ID task) eventType (Some operatorID)
            (mergeTaskEventPayload (taskEventBasePayload task) extra)) (\<lambda>_. ret ())"

subsection \<open>The review\<close>

definition new_customization_job :: "id \<Rightarrow> CustomizationJob" where
  "new_customization_job taskID = \<lparr>CJ_ID = 0, CJ_TaskID = taskID, CJ_OrderNo = [], CJ_SourceAssetID = None, CJ_CurrentAssetID = None,
     CJ_CustomizationLevelCode = [], CJ_CustomizationLevelName = [], CJ_ReviewReferenceUnitPrice = None,
     CJ_ReviewReferenceWeightFactor = None, CJ_UnitPrice = None, CJ_WeightFactor = None, CJ_Note = [],
     CJ_ReviewDecision = [], CJ_DecisionType = CustomizationJobDecisionTypeFinal, CJ_AssignedOperatorID = None,
     CJ_LastOperatorID = None, CJ_PricingWorkerType = [], CJ_Status = CustomizationJobStatusPendingCustomizationReview,
     CJ_WarehouseRejectReason = [], CJ_WarehouseRejectCategory = [], CJ_CreatedAt = 0, CJ_UpdatedAt = 0\<rparr>"

definition review_level :: "SubmitCustomizationReviewParams \<Rightarrow> string \<times> string" where
  "review_level p =
     (let code = TrimSpace (SR_CustomizationLevelCode p); name = TrimSpace (SR_CustomizationLevelName p)
      in (if code = [] \<and> name \<noteq> [] then name else code, name))"

text \<open>The next status of the task and of the job, and the task's next handler.\<close>

definition review_next :: "SubmitCustomizationReviewParams \<Rightarrow> Task \<Rightarrow> CustomizationJob \<Rightarrow> TaskStatus \<times> id option \<times> string" where
  "review_next p task job =
     (if SR_Decision p \<noteq> CustomizationReviewDecisionReturnToDesigner
      then (TaskStatusPendingWarehouseReceive, None, CustomizationJobStatusPendingWarehouseQC)
      else (TaskStatusPendingCustomizationProduction, customizationOperatorFallbackHandler task (Some job),
            CustomizationJobStatusPendingCustomizationProduction))"

definition reviewed_job :: "SubmitCustomizationReviewParams \<Rightarrow> Task \<Rightarrow> CustomizationJob \<Rightarrow> CustomizationJob" where
  "reviewed_job p task job0 =
     (let job = job0\<lparr>CJ_SourceAssetID := SR_SourceAssetID p, CJ_CurrentAssetID := SR_SourceAssetID p,
        CJ_CustomizationLevelCode := fst (review_level p), CJ_CustomizationLevelName := snd (review_level p),
        CJ_ReviewReferenceUnitPrice := SR_CustomizationPrice p, CJ_ReviewReferenceWeightFactor := SR_CustomizationWeight p,
        CJ_Note := TrimSpace (SR_CustomizationNote p), CJ_ReviewDecision := SR_Decision p,
        CJ_DecisionType := CustomizationJobDecisionTypeFinal, CJ_Status := snd (snd (review_next p task job0))\<rparr>
      in if CJ_LastOperatorID job = None \<and> T_LastCustomizationOperatorID task \<noteq> None
         then job\<lparr>CJ_LastOperatorID := T_LastCustomizationOperatorID task\<rparr> else job)"

definition write_job :: "time \<Rightarrow> CustomizationJob \<Rightarrow> CustomizationJob vact" where
  "write_job now job = (if CJ_ID job = 0
     then bnd (customizationJobRepo_Create now job) (\<lambda>i. ret (job\<lparr>CJ_ID := i\<rparr>))
     else bnd (customizationJobRepo_Update now job) (\<lambda>_. ret job))"

definition review_extra ::
  "SubmitCustomizationReviewParams \<Rightarrow> Task \<Rightarrow> CustomizationJob \<Rightarrow> CustomizationJob \<Rightarrow> jsonobj" where
  "review_extra p task job0 job =
     [(''customization_review_decision'', JText (SR_Decision p)),
      (''customization_level_code'', JText (fst (review_level p))),
      (''customization_level_name'', JText (snd (review_level p))),
      (''review_reference_unit_price'', jopt (SR_CustomizationPrice p)),
      (''review_reference_weight_factor'', jopt (SR_CustomizationWeight p)),
      (''customization_note'', JText (SR_CustomizationNote p)), (''customization_job_id'', JNum (CJ_ID job)),
      (''previous_asset_id'', jopt (CJ_CurrentAssetID job0)), (''current_asset_id'', jopt (CJ_CurrentAssetID job)),
      (''replacement_actor_id'', JNum (SR_ReviewerID p)),
      (''from_task_status'', JText (ts_string (T_TaskStatus task))),
      (''to_task_status'', JText (ts_string (fst (review_next p task job0)))),
      (''to_job_status'', JText (snd (snd (review_next p task job0)))),
      (''last_customization_operator_id'', jopt (customizationOperatorFallbackHandler task (Some job)))]"

definition review_tx ::
  "customizationService \<Rightarrow> time \<Rightarrow> SubmitCustomizationReviewParams \<Rightarrow> Task \<Rightarrow> CustomizationJob \<Rightarrow> id vact" where
  "review_tx s now p task job0 =
     (let nxt = review_next p task job0
      in bnd (write_job now (reviewed_job p task job0)) (\<lambda>job.
         bnd (move_task now task (fst nxt, fst (snd nxt))) (\<lambda>_.
         bnd (UpdateCustomizationState now (T_ID task) (customizationOperatorFallbackHandler task (Some job)) [] []) (\<lambda>_.
         bnd (customization_event s now task ''task.customization.reviewed'' (SR_ReviewerID p)
                (review_extra p task job0 job)) (\<lambda>_.
         ret (CJ_ID job))))))"

definition SubmitCustomizationReview ::
  "customizationService \<Rightarrow> time \<Rightarrow> RequestActor option \<Rightarrow> SubmitCustomizationReviewParams \<Rightarrow> CustomizationJob vop" where
  "SubmitCustomizationReview s now ctxActor p =
     bnd (check (Z_customizationJobRepo s) ErrCodeInternalError) (\<lambda>_.
     bnd (getTask (SR_TaskID p)) (\<lambda>task0.
     bnd (customization_authorize s ctxActor TaskActionCustomizationReview task0) (\<lambda>task.
     bnd (check (CustomizationReviewDecision_Valid (SR_Decision p)) ErrCodeInvalidRequest) (\<lambda>_.
     bnd (infra_v (GetLatestByTaskID (T_ID task))) (\<lambda>currentJob.
     bnd (check (case currentJob of None \<Rightarrow> True
                 | Some j \<Rightarrow> CJ_Status j = CustomizationJobStatusPendingCustomizationReview)
            ErrCodeInvalidStateTransition) (\<lambda>_.
     bnd (infra_v (RunInTx (review_tx s now p task
            (case currentJob of None \<Rightarrow> new_customization_job (T_ID task) | Some j \<Rightarrow> j)))) (\<lambda>i.
     GetCustomizationJob s i)))))))"

subsection \<open>The preview\<close>

text \<open>The AppErrors the pricing makes inside the transaction come out of it unchanged.\<close>

definition app_error :: "ErrCode \<Rightarrow> db_error" where
  "app_error e = errText (if e = ErrCodeNotFound then ''NOT_FOUND''
     else if e = ErrCodeInvalidRequest then ''INVALID_REQUEST'' else ''INTERNAL_ERROR'')"

definition preview_error :: "db_error \<Rightarrow> ErrCode" where
  "preview_error e = (if e = errText ''NOT_FOUND'' then ErrCodeNotFound
     else if e = errText ''INVALID_REQUEST'' then ErrCodeInvalidRequest else infraError e)"

definition preview_actionable :: "CustomizationJob \<Rightarrow> bool" where
  "preview_actionable job \<longleftrightarrow> CJ_Status job \<in> set [CustomizationJobStatusPendingCustomizationProduction,
     CustomizationJobStatusPendingEffectRevision, CustomizationJobStatusRejectedByWarehouse]"

definition preview_decision :: "SubmitCustomizationEffectPreviewParams \<Rightarrow> string" where
  "preview_decision p = (if CustomizationJobDecisionType_Valid (EP_DecisionType p) then EP_DecisionType p
     else CustomizationJobDecisionTypeEffectPreview)"

definition preview_next :: "SubmitCustomizationEffectPreviewParams \<Rightarrow> TaskStatus \<times> id option \<times> string" where
  "preview_next p = (if preview_decision p = CustomizationJobDecisionTypeFinal
     then (TaskStatusPendingProductionTransfer, Some (EP_OperatorID p), CustomizationJobStatusPendingProductionTransfer)
     else (TaskStatusPendingEffectReview, None, CustomizationJobStatusPendingEffectReview))"

definition operated_job :: "SubmitCustomizationEffectPreviewParams \<Rightarrow> CustomizationJob \<Rightarrow> CustomizationJob" where
  "operated_job p job = job\<lparr>CJ_AssignedOperatorID :=
       (if CJ_AssignedOperatorID job = None then Some (EP_OperatorID p) else CJ_AssignedOperatorID job),
     CJ_LastOperatorID := Some (EP_OperatorID p)\<rparr>"

definition priced_job ::
  "customizationService \<Rightarrow> SubmitCustomizationEffectPreviewParams \<Rightarrow> CustomizationJob \<Rightarrow> CustomizationJob vact" where
  "priced_job s p job = (if EmploymentType_Valid (CJ_PricingWorkerType job) then ret job
     else bnd (map_err app_error (resolveCustomizationPricingSnapshot s (EP_OperatorID p) (CJ_CustomizationLevelCode job)))
            (\<lambda>(worker, unitPrice, weight). ret (job\<lparr>CJ_PricingWorkerType := worker, CJ_UnitPrice := Some unitPrice,
               CJ_WeightFactor := Some weight\<rparr>)))"

definition previewed_job ::
  "SubmitCustomizationEffectPreviewParams \<Rightarrow> id option \<Rightarrow> CustomizationJob \<Rightarrow> CustomizationJob" where
  "previewed_job p asset job = job\<lparr>CJ_OrderNo := TrimSpace (EP_OrderNo p), CJ_CurrentAssetID := asset,
     CJ_DecisionType := preview_decision p, CJ_Note := TrimSpace (EP_Note p), CJ_Status := snd (snd (preview_next p))\<rparr>"

definition preview_extra ::
  "SubmitCustomizationEffectPreviewParams \<Rightarrow> id option \<Rightarrow> CustomizationJob \<Rightarrow> jsonobj" where
  "preview_extra p asset job =
     [(''customization_job_id'', JNum (CJ_ID job)), (''order_no'', JText (CJ_OrderNo job)),
      (''current_asset_id'', jopt asset), (''decision_type'', JText (preview_decision p)), (''note'', JText (EP_Note p)),
      (''to_task_status'', JText (ts_string (fst (preview_next p)))), (''to_job_status'', JText (snd (snd (preview_next p)))),
      (''pricing_worker_type'', JText (CJ_PricingWorkerType job)),
      (''review_reference_unit_price'', jopt (CJ_ReviewReferenceUnitPrice job)),
      (''review_reference_weight_factor'', jopt (CJ_ReviewReferenceWeightFactor job)),
      (''unit_price'', jopt (CJ_UnitPrice job)), (''weight_factor'', jopt (CJ_WeightFactor job))]"

definition notifyCustomizationAuditPool ::
  "customizationService \<Rightarrow> id \<Rightarrow> id \<Rightarrow> id \<Rightarrow> string \<Rightarrow> unit vact" where
  "notifyCustomizationAuditPool s taskID jobID actorID stage = (case Z_notifyAuditPool s of
       None \<Rightarrow> ret () | Some notify \<Rightarrow> ignore_err (notify taskID jobID actorID stage))"

definition preview_tx ::
  "customizationService \<Rightarrow> time \<Rightarrow> SubmitCustomizationEffectPreviewParams \<Rightarrow> id option \<Rightarrow> CustomizationJob \<Rightarrow> Task \<Rightarrow>
   unit vact" where
  "preview_tx s now p asset job0 task =
     bnd (priced_job s p (operated_job p job0)) (\<lambda>job1.
       let job = previewed_job p asset job1
       in bnd (customizationJobRepo_Update now job) (\<lambda>_.
          bnd (move_task now task (fst (preview_next p), fst (snd (preview_next p)))) (\<lambda>_.
          bnd (UpdateCustomizationState now (T_ID task) (Some (EP_OperatorID p)) [] []) (\<lambda>_.
          bnd (customization_event s now task ''task.customization.effect_preview_submitted'' (EP_OperatorID p)
                 (preview_extra p asset job)) (\<lambda>_.
          if fst (preview_next p) = TaskStatusPendingEffectReview
          then notifyCustomizationAuditPool s (T_ID task) (CJ_ID job) (EP_OperatorID p) ''effect_review'' else ret ())))))"

definition SubmitCustomizationEffectPreview ::
  "customizationService \<Rightarrow> time \<Rightarrow> RequestActor option \<Rightarrow> SubmitCustomizationEffectPreviewParams \<Rightarrow> CustomizationJob vop" where
  "SubmitCustomizationEffectPreview s now ctxActor p =
     bnd (check (Z_customizationJobRepo s) ErrCodeInternalError) (\<lambda>_.
     bnd (loadCustomizationJobAndTask (EP_JobID p)) (\<lambda>(job, task0).
     bnd (customization_authorize s ctxActor TaskActionCustomizationEffectPreview task0) (\<lambda>task.
     bnd (check (preview_actionable job) ErrCodeInvalidStateTransition) (\<lambda>_.
     bnd (resolveCustomizationAssetID (CJ_CurrentAssetID job) (EP_CurrentAssetID p)) (\<lambda>asset.
     bnd (map_err preview_error (RunInTx (preview_tx s now p asset job task))) (\<lambda>_.
     GetCustomizationJob s (EP_JobID p)))))))"

subsection \<open>The review of the effect\<close>

definition effect_next :: "ReviewCustomizationEffectParams \<Rightarrow> TaskStatus \<times> string" where
  "effect_next p = (if ER_Decision p = CustomizationReviewDecisionReturnToDesigner
     then (TaskStatusPendingEffectRevision, CustomizationJobStatusPendingEffectRevision)
     else (TaskStatusPendingProductionTransfer, CustomizationJobStatusPendingProductionTransfer))"

definition non_empty :: "string \<Rightarrow> string \<Rightarrow> string" where
  "non_empty new old = (if TrimSpace new \<noteq> [] then TrimSpace new else old)"

definition given :: "'a option \<Rightarrow> 'a option \<Rightarrow> 'a option" where
  "given new old = (if new \<noteq> None then new else old)"

definition effect_job :: "ReviewCustomizationEffectParams \<Rightarrow> id option \<Rightarrow> CustomizationJob \<Rightarrow> CustomizationJob" where
  "effect_job p asset job = job\<lparr>CJ_ReviewDecision := ER_Decision p,
     CJ_CustomizationLevelCode := non_empty (ER_CustomizationLevelCode p) (CJ_CustomizationLevelCode job),
     CJ_CustomizationLevelName := non_empty (ER_CustomizationLevelName p) (CJ_CustomizationLevelName job),
     CJ_ReviewReferenceUnitPrice := given (ER_CustomizationPrice p) (CJ_ReviewReferenceUnitPrice job),
     CJ_ReviewReferenceWeightFactor := given (ER_CustomizationWeight p) (CJ_ReviewReferenceWeightFactor job),
     CJ_Note := non_empty (ER_CustomizationNote p) (CJ_Note job),
     CJ_CurrentAssetID := given asset (CJ_CurrentAssetID job), CJ_Status := snd (effect_next p)\<rparr>"

definition effect_extra ::
  "ReviewCustomizationEffectParams \<Rightarrow> id option \<Rightarrow> CustomizationJob \<Rightarrow> CustomizationJob \<Rightarrow> jsonobj" where
  "effect_extra p asset job0 job =
     [(''customization_job_id'', JNum (CJ_ID job)), (''customization_review_decision'', JText (ER_Decision p)),
      (''current_asset_id'', jopt asset), (''previous_asset_id'', jopt (CJ_CurrentAssetID job0)),
      (''replacement_actor_id'', JNum (ER_ReviewerID p)),
      (''review_reference_unit_price'', jopt (CJ_ReviewReferenceUnitPrice job)),
      (''review_reference_weight_factor'', jopt (CJ_ReviewReferenceWeightFactor job)),
      (''reviewer_fixed'', JFlag (ER_Decision p = CustomizationReviewDecisionReviewerFixed)),
      (''to_task_status'', JText (ts_string (fst (effect_next p)))), (''to_job_status'', JText (snd (effect_next p)))]"

definition effect_tx ::
  "customizationService \<Rightarrow> time \<Rightarrow> ReviewCustomizationEffectParams \<Rightarrow> id option \<Rightarrow> CustomizationJob \<Rightarrow> Task \<Rightarrow> unit vact" where
  "effect_tx s now p asset job0 task =
     (let job = effect_job p asset job0
      in bnd (customizationJobRepo_Update now job) (\<lambda>_.
         bnd (move_task now task (fst (effect_next p), CJ_LastOperatorID job0)) (\<lambda>_.
         customization_event s now task ''task.customization.effect_reviewed'' (ER_ReviewerID p)
           (effect_extra p asset job0 job))))"

definition ReviewCustomizationEffect ::
  "customizationService \<Rightarrow> time \<Rightarrow> RequestActor option \<Rightarrow> ReviewCustomizationEffectParams \<Rightarrow> CustomizationJob vop" where
  "ReviewCustomizationEffect s now ctxActor p =
     bnd (check (Z_customizationJobRepo s) ErrCodeInternalError) (\<lambda>_.
     bnd (loadCustomizationJobAndTask (ER_JobID p)) (\<lambda>(job, task0).
     bnd (customization_authorize s ctxActor TaskActionCustomizationEffectReview task0) (\<lambda>task.
     bnd (check (CJ_Status job = CustomizationJobStatusPendingEffectReview) ErrCodeInvalidStateTransition) (\<lambda>_.
     bnd (check (CustomizationReviewDecision_Valid (ER_Decision p)) ErrCodeInvalidRequest) (\<lambda>_.
     bnd (resolveCustomizationAssetID (CJ_CurrentAssetID job) (ER_CurrentAssetID p)) (\<lambda>asset.
     bnd (infra_v (RunInTx (effect_tx s now p asset job task))) (\<lambda>_.
     GetCustomizationJob s (ER_JobID p))))))))"

subsection \<open>The transfer\<close>

definition transferred_job ::
  "TransferCustomizationProductionParams \<Rightarrow> id option \<Rightarrow> CustomizationJob \<Rightarrow> CustomizationJob" where
  "transferred_job p asset job = job\<lparr>CJ_Status := CustomizationJobStatusPendingWarehouseQC,
     CJ_DecisionType := CustomizationJobDecisionTypeFinal, CJ_LastOperatorID := Some (TP_OperatorID p),
     CJ_CurrentAssetID := asset, CJ_Note := TrimSpace (TP_Note p)\<rparr>"

definition transfer_extra ::
  "TransferCustomizationProductionParams \<Rightarrow> id option \<Rightarrow> CustomizationJob \<Rightarrow> jsonobj" where
  "transfer_extra p asset job =
     [(''customization_job_id'', JNum (CJ_ID job)), (''order_no'', JText (CJ_OrderNo job)),
      (''current_asset_id'', jopt asset), (''transfer_channel'', JText (TrimSpace (TP_TransferChannel p))),
      (''transfer_reference'', JText (TrimSpace (TP_TransferReference p))), (''note'', JText (TP_Note p))]"

definition transfer_tx ::
  "customizationService \<Rightarrow> time \<Rightarrow> TransferCustomizationProductionParams \<Rightarrow> id option \<Rightarrow> CustomizationJob \<Rightarrow> Task \<Rightarrow>
   unit vact" where
  "transfer_tx s now p asset job0 task =
     (let job = transferred_job p asset job0
      in bnd (customizationJobRepo_Update now job) (\<lambda>_.
         bnd (move_task now task (TaskStatusPendingWarehouseQC, None)) (\<lambda>_.
         bnd (UpdateCustomizationState now (T_ID task) (Some (TP_OperatorID p)) [] []) (\<lambda>_.
         customization_event s now task ''task.customization.production_transferred'' (TP_OperatorID p)
           (transfer_extra p asset job)))))"

definition TransferCustomizationProduction ::
  "customizationService \<Rightarrow> time \<Rightarrow> RequestActor option \<Rightarrow> TransferCustomizationProductionParams \<Rightarrow> CustomizationJob vop" where
  "TransferCustomizationProduction s now ctxActor p =
     bnd (check (Z_customizationJobRepo s) ErrCodeInternalError) (\<lambda>_.
     bnd (loadCustomizationJobAndTask (TP_JobID p)) (\<lambda>(job, task0).
     bnd (customization_authorize s ctxActor TaskActionCustomizationTransfer task0) (\<lambda>task.
     bnd (check (CJ_Status job = CustomizationJobStatusPendingProductionTransfer) ErrCodeInvalidStateTransition) (\<lambda>_.
     bnd (resolveCustomizationAssetID (CJ_CurrentAssetID job) (TP_CurrentAssetID p)) (\<lambda>asset.
     bnd (infra_v (RunInTx (transfer_tx s now p asset job task))) (\<lambda>_.
     GetCustomizationJob s (TP_JobID p)))))))"

datatype customization_call = CustomizationReview SubmitCustomizationReviewParams
  | CustomizationPreview SubmitCustomizationEffectPreviewParams
  | CustomizationEffectReview ReviewCustomizationEffectParams
  | CustomizationTransfer TransferCustomizationProductionParams

definition run_customization ::
  "customizationService \<Rightarrow> time \<Rightarrow> RequestActor option \<Rightarrow> customization_call \<Rightarrow> CustomizationJob vop" where
  "run_customization s now ctxActor call = (case call of
       CustomizationReview p \<Rightarrow> SubmitCustomizationReview s now ctxActor p
     | CustomizationPreview p \<Rightarrow> SubmitCustomizationEffectPreview s now ctxActor p
     | CustomizationEffectReview p \<Rightarrow> ReviewCustomizationEffect s now ctxActor p
     | CustomizationTransfer p \<Rightarrow> TransferCustomizationProduction s now ctxActor p)"

subsection \<open>What the transactions write\<close>

definition put_job :: "time \<Rightarrow> CustomizationJob \<Rightarrow> vdb \<Rightarrow> vdb" where
  "put_job now job d = (if CJ_ID job = 0 then add_job now job d else set_job now job d)"

text \<open>The id the job has once it is written.\<close>

definition put_id :: "CustomizationJob \<Rightarrow> vdb \<Rightarrow> id" where
  "put_id job d = (if CJ_ID job = 0 then next_job d else CJ_ID job)"

definition noted :: "customizationService \<Rightarrow> time \<Rightarrow> Task \<Rightarrow> string \<Rightarrow> id \<Rightarrow> jsonobj \<Rightarrow> vdb \<Rightarrow> vdb" where
  "noted s now task ty operator extra = add_event (Z_uuid s) now (T_ID task) ty (Some operator)
     (mergeTaskEventPayload (taskEventBasePayload task) extra)"

definition reviewed :: "customizationService \<Rightarrow> time \<Rightarrow> SubmitCustomizationReviewParams \<Rightarrow> Task \<Rightarrow> CustomizationJob \<Rightarrow> vdb \<Rightarrow> vdb" where
  "reviewed s now p task job0 d =
     (let nxt = review_next p task job0; job1 = reviewed_job p task job0; job = job1\<lparr>CJ_ID := put_id job1 d\<rparr>
      in noted s now task ''task.customization.reviewed'' (SR_ReviewerID p) (review_extra p task job0 job)
           (set_customization_state now (T_ID task) (customizationOperatorFallbackHandler task (Some job)) [] []
           (advanced now task (fst nxt, fst (snd nxt)) (put_job now job1 d))))"

definition previewed ::
  "customizationService \<Rightarrow> time \<Rightarrow> SubmitCustomizationEffectPreviewParams \<Rightarrow> id option \<Rightarrow> CustomizationJob \<Rightarrow> Task \<Rightarrow>
   vdb \<Rightarrow> vdb" where
  "previewed s now p asset job1 task d =
     (let job = previewed_job p asset job1
      in noted s now task ''task.customization.effect_preview_submitted'' (EP_OperatorID p) (preview_extra p asset job)
           (set_customization_state now (T_ID task) (Some (EP_OperatorID p)) [] []
           (advanced now task (fst (preview_next p), fst (snd (preview_next p))) (set_job now job d))))"

definition effect_reviewed ::
  "customizationService \<Rightarrow> time \<Rightarrow> ReviewCustomizationEffectParams \<Rightarrow> id option \<Rightarrow> CustomizationJob \<Rightarrow> Task \<Rightarrow> vdb \<Rightarrow> vdb" where
  "effect_reviewed s now p asset job0 task d =
     (let job = effect_job p asset job0
      in noted s now task ''task.customization.effect_reviewed'' (ER_ReviewerID p) (effect_extra p asset job0 job)
           (advanced now task (fst (effect_next p), CJ_LastOperatorID job0) (set_job now job d)))"

definition transferred ::
  "customizationService \<Rightarrow> time \<Rightarrow> TransferCustomizationProductionParams \<Rightarrow> id option \<Rightarrow> CustomizationJob \<Rightarrow> Task \<Rightarrow>
   vdb \<Rightarrow> vdb" where
  "transferred s now p asset job0 task d =
     (let job = transferred_job p asset job0
      in noted s now task ''task.customization.production_transferred'' (TP_OperatorID p) (transfer_extra p asset job)
           (set_customization_state now (T_ID task) (Some (TP_OperatorID p)) [] []
           (advanced now task (TaskStatusPendingWarehouseQC, None) (set_job now job d))))"

lemma move_task_effect [effects]:
  "move_task now task nxt w = (Inr u, w') \<Longrightarrow> wdb w' = advanced now task nxt (wdb w)"
  by (auto simp: move_task_def advanced_def act_success dest!: effects)

lemma job_repo_effects [effects]:
  "customizationJobRepo_Update now job w = (Inr u, w') \<Longrightarrow> wdb w' = set_job now job (wdb w)"
  "customizationJobRepo_Create now job w = (Inr i, w') \<Longrightarrow> wdb w' = add_job now job (wdb w) \<and> i = next_job (wdb w)"
  by (auto simp: customizationJobRepo_Update_def customizationJobRepo_Create_def split: if_splits
      dest!: exec_success stmt_success)

lemma customization_event_effect [effects]:
  "customization_event s now task ty op x w = (Inr u, w') \<Longrightarrow> wdb w' = noted s now task ty op x (wdb w)"
  by (auto simp: customization_event_def noted_def act_success dest!: effects)

lemma write_job_effect [effects]:
  "write_job now job w = (Inr job', w') \<Longrightarrow> job' = job\<lparr>CJ_ID := put_id job (wdb w)\<rparr> \<and> wdb w' = put_job now job (wdb w)"
  by (auto simp: write_job_def put_job_def put_id_def act_success split: if_splits dest!: effects)

lemma review_tx_effect: "review_tx s now p task job0 w = (Inr i, w') \<Longrightarrow>
  wdb w' = reviewed s now p task job0 (wdb w) \<and> i = put_id (reviewed_job p task job0) (wdb w)"
  by (auto simp: review_tx_def reviewed_def act_success Let_def dest!: effects)

lemma effect_tx_effect: "effect_tx s now p asset job task w = (Inr u, w') \<Longrightarrow>
  wdb w' = effect_reviewed s now p asset job task (wdb w)"
  by (auto simp: effect_tx_def effect_reviewed_def act_success Let_def dest!: effects)

lemma transfer_tx_effect: "transfer_tx s now p asset job task w = (Inr u, w') \<Longrightarrow>
  wdb w' = transferred s now p asset job task (wdb w)"
  by (auto simp: transfer_tx_def transferred_def act_success Let_def dest!: effects)

subsection \<open>What a call does\<close>

text \<open>
  The price a job is frozen at: that of the enabled rule for the level of the job and the employment type of
  the operator the request names, full time where the operator's row has no known type. A job that has its
  price keeps it.
\<close>

definition paid_as :: "User \<Rightarrow> string" where
  "paid_as operator = (if EmploymentType_Valid (U_EmploymentType operator) then U_EmploymentType operator
     else EmploymentTypeFullTime)"

definition price_of ::
  "customizationService \<Rightarrow> SubmitCustomizationEffectPreviewParams \<Rightarrow> vdb \<Rightarrow> CustomizationJob \<Rightarrow> CustomizationJob \<Rightarrow> bool" where
  "price_of s p d job job1 \<longleftrightarrow> (if EmploymentType_Valid (CJ_PricingWorkerType job) then job1 = job
     else \<exists>operator rule. user_row d (EP_OperatorID p) = Some operator \<and>
       active_rule d (TrimSpace (CJ_CustomizationLevelCode job)) (paid_as operator) = Some rule \<and>
       job1 = job\<lparr>CJ_PricingWorkerType := paid_as operator, CJ_UnitPrice := Some (PR_UnitPrice rule),
         CJ_WeightFactor := Some (PR_WeightFactor rule)\<rparr>)"

lemma priced_job_effect:
  assumes "priced_job s p job w = (Inr job1, w')"
  shows "price_of s p (wdb w) job job1 \<and> wdb w' = wdb w"
proof (cases "EmploymentType_Valid (CJ_PricingWorkerType job)")
  case True
  then show ?thesis using assms by (simp add: priced_job_def price_of_def)
next
  case False
  obtain et up wf w1 where r: "resolveCustomizationPricingSnapshot s (EP_OperatorID p) (CJ_CustomizationLevelCode job) w =
      (Inr (et, up, wf), w')"
    and job1: "job1 = job\<lparr>CJ_PricingWorkerType := et, CJ_UnitPrice := Some up, CJ_WeightFactor := Some wf\<rparr>"
    using assms False by (auto simp: priced_job_def act_success)
  have user: "Z_pricingUserRepo s" by (rule ccontr) (use r in \<open>simp add: resolveCustomizationPricingSnapshot_def\<close>)
  obtain ru w1 where u: "userRepo_GetByID v_users (EP_OperatorID p) w = (Inr ru, w1)"
    and rest: "(case ru of None \<Rightarrow> throw ErrCodeNotFound
      | Some user \<Rightarrow> let employmentType = paid_as user
          in if \<not> Z_pricingRuleRepo s then throw ErrCodeInternalError
             else bnd (infra_v (GetActiveByLevelAndEmploymentType (CJ_CustomizationLevelCode job) employmentType)) (\<lambda>r. case r of
               None \<Rightarrow> throw ErrCodeInvalidRequest
             | Some rule \<Rightarrow> ret (employmentType, PR_UnitPrice rule, PR_WeightFactor rule))) w1 = (Inr (et, up, wf), w')"
    using r user unfolding resolveCustomizationPricingSnapshot_def infra_v_def paid_as_def
    by (auto simp only: if_False simp_thms bnd_eq_Inr map_err_eq_Inr)
  have ru: "ru = user_row (wdb w) (EP_OperatorID p)" and db: "wdb w1 = wdb w"
    using query_success [OF u [unfolded userRepo_GetByID_def]] by (simp_all add: user_row_def)
  obtain operator where operator: "ru = Some operator" using rest by (cases ru) simp_all
  then have rule: "bnd (infra_v (GetActiveByLevelAndEmploymentType (CJ_CustomizationLevelCode job) (paid_as operator)))
      (\<lambda>r. case r of None \<Rightarrow> throw ErrCodeInvalidRequest
      | Some rule \<Rightarrow> ret (paid_as operator, PR_UnitPrice rule, PR_WeightFactor rule)) w1 = (Inr (et, up, wf), w')"
    using rest by (simp add: Let_def split: if_split_asm)
  have "wdb w' = wdb w \<and> et = paid_as operator \<and> (\<exists>rule.
      active_rule (wdb w) (TrimSpace (CJ_CustomizationLevelCode job)) (paid_as operator) = Some rule \<and>
      up = PR_UnitPrice rule \<and> wf = PR_WeightFactor rule)"
    using rule db
    by (auto simp: bnd_eq_Inr infra_v_def map_err_eq_Inr Let_def GetActiveByLevelAndEmploymentType_def
        split: if_splits option.splits dest!: query_success) metis
  moreover have "user_row (wdb w) (EP_OperatorID p) = Some operator" using ru operator by simp
  ultimately show ?thesis using False job1 unfolding price_of_def by auto
qed

text \<open>The audit pool's notification writes tables of its own.\<close>

definition quiet_pool :: "customizationService \<Rightarrow> bool" where
  "quiet_pool s \<longleftrightarrow> (case Z_notifyAuditPool s of None \<Rightarrow> True | Some notify \<Rightarrow> \<forall>t j a st. reads (notify t j a st))"

lemma notify_pool: "quiet_pool s \<Longrightarrow> wdb (snd (notifyCustomizationAuditPool s t j a st w)) = wdb w"
  by (simp add: quiet_pool_def notifyCustomizationAuditPool_def ignore_err_def reads_def split: option.splits)

lemma preview_tx_effect:
  assumes "preview_tx s now p asset job task w = (Inr u, w')" and "quiet_pool s"
  shows "\<exists>job1. price_of s p (wdb w) (operated_job p job) job1 \<and> wdb w' = previewed s now p asset job1 task (wdb w)"
proof -
  obtain job1 w1 w2 where priced: "priced_job s p (operated_job p job) w = (Inr job1, w1)"
    and w2: "wdb w2 = previewed s now p asset job1 task (wdb w1)"
    and rest: "(if fst (preview_next p) = TaskStatusPendingEffectReview
      then notifyCustomizationAuditPool s (T_ID task) (CJ_ID (previewed_job p asset job1)) (EP_OperatorID p) ''effect_review''
      else ret ()) w2 = (Inr u, w')"
    using assms(1)
    by (auto simp: preview_tx_def previewed_def act_success Let_def simp del: if_split dest!: effects)
  have "wdb w' = wdb w2"
    using rest notify_pool [OF assms(2)] by (auto simp: prod_eq_iff split: if_splits)
  then show ?thesis using priced_job_effect [OF priced] w2 by auto
qed

text \<open>
  \<open>gives m d x\<close>: on the database \<open>d\<close> the action can return \<open>x\<close>. \<open>ends d m Q\<close>: from \<open>d\<close>, whatever
  fails, \<open>m\<close> ends with a result and a database that satisfy \<open>Q\<close>.
\<close>

definition gives :: "('d, 'e, 'a) act \<Rightarrow> 'd \<Rightarrow> 'a \<Rightarrow> bool" where
  "gives m d x \<longleftrightarrow> (\<exists>w w'. wdb w = d \<and> m w = (Inr x, w'))"

definition ends :: "'d \<Rightarrow> ('d, 'e, 'a) act \<Rightarrow> ('e + 'a \<Rightarrow> 'd \<Rightarrow> bool) \<Rightarrow> bool" where
  "ends d m Q \<longleftrightarrow> (\<forall>w. wdb w = d \<longrightarrow> Q (fst (m w)) (wdb (snd (m w))))"

lemma ends_read:
  fixes d :: 'd
  assumes "reads m" and "\<And>e. Q (Inl e) d" and "\<And>x. gives m d x \<Longrightarrow> ends d (k x) Q"
  shows "ends d (bnd m k) Q"
  unfolding ends_def
proof (intro allI impI)
  fix w :: "'d world" assume w: "wdb w = d"
  obtain r w1 where run: "m w = (r, w1)" by fastforce
  then have d: "wdb w1 = d" using readsD [OF assms(1)] w by blast
  show "Q (fst (bnd m k w)) (wdb (snd (bnd m k w)))"
  proof (cases r)
    case (Inl e)
    then show ?thesis using run assms(2) d by (simp add: bnd_def)
  next
    case (Inr x)
    then have "gives m d x" using run w by (auto simp: gives_def)
    then show ?thesis using assms(3) [of x] run d Inr by (simp add: bnd_def ends_def)
  qed
qed

lemma ends_tx:
  fixes d :: 'd
  assumes "\<And>e. Q (Inl e) d"
    and "\<And>x w w1. wdb w = d \<Longrightarrow> m w = (Inr x, w1) \<Longrightarrow> ends (wdb w1) (k x) Q"
  shows "ends d (bnd (map_err h (RunInTx m)) k) Q"
  unfolding ends_def
proof (intro allI impI)
  fix w :: "'d world" assume w: "wdb w = d"
  obtain r w' where run: "bnd (map_err h (RunInTx m)) k w = (r, w')" by fastforce
  then have "Q r (wdb w')"
  proof (cases rule: bnd_map_txE [consumes 1, case_names go stop])
    case (go x w1 w2 w3)
    then have "ends (wdb w2) (k x) Q" using assms(2) [of w1 x w2] w by simp
    then show ?thesis using go(3,4) by (auto simp: ends_def)
  qed (use assms(1) w in auto)
  then show "Q (fst (bnd (map_err h (RunInTx m)) k w)) (wdb (snd (bnd (map_err h (RunInTx m)) k w)))"
    using run by simp
qed

lemma ends_answer:
  fixes d :: 'd
  assumes "reads m" and "\<And>r. (\<And>x. r = Inr x \<Longrightarrow> gives m d x) \<Longrightarrow> Q r d"
  shows "ends d m Q"
  unfolding ends_def
proof (intro allI impI)
  fix w :: "'d world" assume w: "wdb w = d"
  then have "fst (m w) = Inr x \<Longrightarrow> gives m d x" for x unfolding gives_def by (metis prod.collapse)
  then show "Q (fst (m w)) (wdb (snd (m w)))" using assms w by (simp add: reads_def)
qed

lemma ends_read_pair:
  assumes "reads m" and "\<And>e. Q (Inl e) d" and "\<And>a b. gives m d (a, b) \<Longrightarrow> ends d (k a b) Q"
  shows "ends d (bnd m (\<lambda>(a, b). k a b)) Q"
  using assms by (intro ends_read) auto

lemmas ends_infra_tx = ends_tx [where h = infraError, folded infra_v_def]

definition customization_actions :: "TaskAction list" where
  "customization_actions = [TaskActionCustomizationReview, TaskActionCustomizationEffectPreview,
     TaskActionCustomizationEffectReview, TaskActionCustomizationTransfer]"

definition customization_seen :: "customizationService \<Rightarrow> RequestActor option \<Rightarrow> Task \<Rightarrow> Task" where
  "customization_seen s ctxActor task = (if resolveTaskActionActor ctxActor = None then task
     else applyTaskReadModelOrgOwnership (Z_catalog s) task)"

lemma customization_authorize_run:
  assumes "a \<in> set customization_actions"
  shows "customization_authorize s ctxActor a task w = ((if may_act (Z_catalog s) ctxActor a task
    then Inr (customization_seen s ctxActor task) else Inl ErrCodePermissionDenied), w)"
proof -
  have "a \<notin> set audit_actions" "a \<noteq> TaskActionReadDetail"
    using assms by (auto simp: customization_actions_def audit_actions_def)
  then show ?thesis
    by (simp add: customization_authorize_def authorize_gate bnd_def ret_def customization_seen_def)
qed

lemma reads_customization [read_only]:
  "reads (GetCustomizationJob s i)" "reads (loadCustomizationJobAndTask i)" "reads (resolveCustomizationAssetID e r)"
  "reads (infra_v (GetLatestByTaskID t))"
  by (auto simp: GetCustomizationJob_def loadCustomizationJobAndTask_def resolveCustomizationAssetID_def
      customizationJobRepo_GetByID_def GetLatestByTaskID_def intro!: read_only split: option.splits)

lemma reads_customization_authorize [read_only]:
  "reads (customization_authorize s c TaskActionCustomizationReview t)"
  "reads (customization_authorize s c TaskActionCustomizationEffectPreview t)"
  "reads (customization_authorize s c TaskActionCustomizationEffectReview t)"
  "reads (customization_authorize s c TaskActionCustomizationTransfer t)"
  by (simp_all add: reads_def customization_authorize_run customization_actions_def)

lemma gives_check: "gives (check b e) d u \<Longrightarrow> b"
  by (auto simp: gives_def check_def split: if_splits)

lemma gives_task: "gives (getTask i) d t \<Longrightarrow> v_task d i = Some t"
  by (auto simp: gives_def dest: getTask_success)

lemma gives_load: "gives (loadCustomizationJobAndTask i) d (job, task) \<Longrightarrow>
    job_row d i = Some job \<and> v_task d (CJ_TaskID job) = Some task"
  by (fastforce simp: gives_def loadCustomizationJobAndTask_def bnd_eq_Inr infra_v_def map_err_eq_Inr
      customizationJobRepo_GetByID_def split: option.splits dest!: query_success getTask_success)

lemma gives_authorize: "gives (customization_authorize s c a t0) d t \<Longrightarrow> a \<in> set customization_actions \<Longrightarrow>
    may_act (Z_catalog s) c a t0 \<and> t = customization_seen s c t0"
  by (auto simp: gives_def customization_authorize_run split: if_splits)

lemma gives_latest: "gives (infra_v (GetLatestByTaskID t)) d r \<Longrightarrow> r = latest_job d t"
  by (auto simp: gives_def infra_v_def map_err_eq_Inr GetLatestByTaskID_def dest!: query_success)

lemma gives_asset: "gives (resolveCustomizationAssetID e r) d a \<Longrightarrow> a = given r e \<and> a \<noteq> None"
  by (auto simp: gives_def resolveCustomizationAssetID_def given_def split: if_splits)

lemma gives_job:
  assumes "gives (GetCustomizationJob s i) d job"
  shows "job_row d i = Some job"
proof -
  obtain w w' where w: "wdb w = d" "GetCustomizationJob s i w = (Inr job, w')" using assms by (auto simp: gives_def)
  then obtain r w1 where q: "query (\<lambda>d. job_row d i) w = (Inr r, w1)" and "r = Some job"
    unfolding GetCustomizationJob_def infra_v_def customizationJobRepo_GetByID_def
    by (cases "Z_customizationJobRepo s") (fastforce simp: bnd_eq_Inr map_err_eq_Inr split: option.splits)+
  then show ?thesis using query_success [OF q] w(1) by simp
qed

text \<open>
  What a call that goes through does to \<open>d\<close>, for the job with id \<open>i\<close>: the gates that hold for the rows it
  read, and the whole change.
\<close>

definition customization_spec ::
  "customizationService \<Rightarrow> time \<Rightarrow> RequestActor option \<Rightarrow> customization_call \<Rightarrow> vdb \<Rightarrow> id \<Rightarrow> vdb \<Rightarrow> bool" where
  "customization_spec s now ctxActor call d i d' \<longleftrightarrow> (case call of
       CustomizationReview p \<Rightarrow> (\<exists>task job0. v_task d (SR_TaskID p) = Some task \<and>
         may_act (Z_catalog s) ctxActor TaskActionCustomizationReview task \<and>
         CustomizationReviewDecision_Valid (SR_Decision p) \<and>
         (case latest_job d (SR_TaskID p) of None \<Rightarrow> job0 = new_customization_job (SR_TaskID p)
          | Some j \<Rightarrow> CJ_Status j = CustomizationJobStatusPendingCustomizationReview \<and> job0 = j) \<and>
         i = put_id (reviewed_job p (customization_seen s ctxActor task) job0) d \<and>
         d' = reviewed s now p (customization_seen s ctxActor task) job0 d)
     | CustomizationPreview p \<Rightarrow> (\<exists>job task job1. i = EP_JobID p \<and> job_row d i = Some job \<and>
         v_task d (CJ_TaskID job) = Some task \<and>
         may_act (Z_catalog s) ctxActor TaskActionCustomizationEffectPreview task \<and> preview_actionable job \<and>
         given (EP_CurrentAssetID p) (CJ_CurrentAssetID job) \<noteq> None \<and>
         price_of s p d (operated_job p job) job1 \<and>
         d' = previewed s now p (given (EP_CurrentAssetID p) (CJ_CurrentAssetID job)) job1
                (customization_seen s ctxActor task) d)
     | CustomizationEffectReview p \<Rightarrow> (\<exists>job task. i = ER_JobID p \<and> job_row d i = Some job \<and>
         v_task d (CJ_TaskID job) = Some task \<and>
         may_act (Z_catalog s) ctxActor TaskActionCustomizationEffectReview task \<and>
         CJ_Status job = CustomizationJobStatusPendingEffectReview \<and> CustomizationReviewDecision_Valid (ER_Decision p) \<and>
         given (ER_CurrentAssetID p) (CJ_CurrentAssetID job) \<noteq> None \<and>
         d' = effect_reviewed s now p (given (ER_CurrentAssetID p) (CJ_CurrentAssetID job)) job
                (customization_seen s ctxActor task) d)
     | CustomizationTransfer p \<Rightarrow> (\<exists>job task. i = TP_JobID p \<and> job_row d i = Some job \<and>
         v_task d (CJ_TaskID job) = Some task \<and>
         may_act (Z_catalog s) ctxActor TaskActionCustomizationTransfer task \<and>
         CJ_Status job = CustomizationJobStatusPendingProductionTransfer \<and>
         given (TP_CurrentAssetID p) (CJ_CurrentAssetID job) \<noteq> None \<and>
         d' = transferred s now p (given (TP_CurrentAssetID p) (CJ_CurrentAssetID job)) job
                (customization_seen s ctxActor task) d))"

definition customization_outcome ::
  "customizationService \<Rightarrow> time \<Rightarrow> RequestActor option \<Rightarrow> customization_call \<Rightarrow> vdb \<Rightarrow> ErrCode + CustomizationJob \<Rightarrow>
   vdb \<Rightarrow> bool" where
  "customization_outcome s now ctxActor call d r d' \<longleftrightarrow>
     (\<exists>i. customization_spec s now ctxActor call d i d' \<and> (\<forall>job. r = Inr job \<longrightarrow> job_row d' i = Some job)) \<or>
     ((\<exists>e. r = Inl e) \<and> d' = d)"

lemma customization_stop: "customization_outcome s now c call d (Inl e) d"
  by (simp add: customization_outcome_def)

lemma ends_next:
  assumes "reads m" and "\<And>x. gives m d x \<Longrightarrow> ends d (k x) (customization_outcome s now c call d)"
  shows "ends d (bnd m k) (customization_outcome s now c call d)"
  using assms by (intro ends_read) (auto simp: customization_stop)

lemma ends_written:
  assumes "\<And>x w w1. wdb w = d \<Longrightarrow> m w = (Inr x, w1) \<Longrightarrow> ends (wdb w1) (k x) (customization_outcome s now c call d)"
  shows "ends d (bnd (map_err h (RunInTx m)) k) (customization_outcome s now c call d)"
  using assms by (intro ends_tx) (auto simp: customization_stop)

lemmas ends_checked = ends_next [OF reads_basic(4)]

lemma customization_answer:
  assumes "customization_spec s now c call d i d'"
  shows "ends d' (GetCustomizationJob s' i) (customization_outcome s now c call d)"
proof (rule ends_answer [OF reads_customization(1)])
  fix r :: "ErrCode + CustomizationJob" assume "\<And>x. r = Inr x \<Longrightarrow> gives (GetCustomizationJob s' i) d' x"
  then have "\<forall>job. r = Inr job \<longrightarrow> job_row d' i = Some job" using gives_job by blast
  then show "customization_outcome s now c call d r d'" unfolding customization_outcome_def using assms by blast
qed

lemma customization_seen_ID [simp]: "T_ID (customization_seen s c t) = T_ID t"
  by (simp add: customization_seen_def)

lemma ends_loaded:
  assumes "\<And>job task. gives (loadCustomizationJobAndTask i) d (job, task) \<Longrightarrow>
    ends d (k job task) (customization_outcome s now c call d)"
  shows "ends d (bnd (loadCustomizationJobAndTask i) (\<lambda>(job, task). k job task)) (customization_outcome s now c call d)"
  using assms by (intro ends_next reads_customization) auto

lemma review_ends:
  "ends d (SubmitCustomizationReview s now c p) (customization_outcome s now c (CustomizationReview p) d)"
  unfolding SubmitCustomizationReview_def infra_v_def [of "RunInTx _"]
proof (rule ends_checked, rule ends_next [OF reads_getTask], rule ends_next [OF reads_customization_authorize(1)], rule ends_checked,
    rule ends_next [OF reads_customization(4)], rule ends_checked, rule ends_written)
  fix u task0 task v r u' i w w1
  assume g: "gives (getTask (SR_TaskID p)) d task0" "gives (customization_authorize s c TaskActionCustomizationReview task0) d task"
    "gives (check (CustomizationReviewDecision_Valid (SR_Decision p)) ErrCodeInvalidRequest) d v"
    "gives (infra_v (GetLatestByTaskID (T_ID task))) d r"
    "gives (check (case r of None \<Rightarrow> True | Some j \<Rightarrow> CJ_Status j = CustomizationJobStatusPendingCustomizationReview)
       ErrCodeInvalidStateTransition) d u'"
    and tx: "wdb w = d" "review_tx s now p task (case r of None \<Rightarrow> new_customization_job (T_ID task) | Some j \<Rightarrow> j) w = (Inr i, w1)"
  have facts: "v_task d (SR_TaskID p) = Some task0" "may_act (Z_catalog s) c TaskActionCustomizationReview task0"
      "task = customization_seen s c task0" "CustomizationReviewDecision_Valid (SR_Decision p)"
      "r = latest_job d (SR_TaskID p)" "T_ID task = SR_TaskID p"
    using gives_task [OF g(1)] gives_authorize [OF g(2)] gives_check [OF g(3)] gives_latest [OF g(4)]
      v_task_ID [OF gives_task [OF g(1)]] by (simp_all add: customization_actions_def)
  show "ends (wdb w1) (GetCustomizationJob s i) (customization_outcome s now c (CustomizationReview p) d)"
    using facts review_tx_effect [OF tx(2)] tx(1) gives_check [OF g(5)]
    by (intro customization_answer) (auto simp: customization_spec_def split: option.splits)
qed

lemma preview_ends:
  assumes "quiet_pool s"
  shows "ends d (SubmitCustomizationEffectPreview s now c p) (customization_outcome s now c (CustomizationPreview p) d)"
  unfolding SubmitCustomizationEffectPreview_def
proof (rule ends_checked, rule ends_loaded, rule ends_next [OF reads_customization_authorize(2)], rule ends_checked,
    rule ends_next [OF reads_customization(3)], rule ends_written)
  fix u job task0 task v asset x w w1
  assume g: "gives (loadCustomizationJobAndTask (EP_JobID p)) d (job, task0)"
    "gives (customization_authorize s c TaskActionCustomizationEffectPreview task0) d task"
    "gives (check (preview_actionable job) ErrCodeInvalidStateTransition) d v"
    "gives (resolveCustomizationAssetID (CJ_CurrentAssetID job) (EP_CurrentAssetID p)) d asset"
    and tx: "wdb w = d" "preview_tx s now p asset job task w = (Inr x, w1)"
  obtain job1 where job1: "price_of s p d (operated_job p job) job1" "wdb w1 = previewed s now p asset job1 task d"
    using preview_tx_effect [OF tx(2) assms] tx(1) by auto
  show "ends (wdb w1) (GetCustomizationJob s (EP_JobID p)) (customization_outcome s now c (CustomizationPreview p) d)"
    using gives_load [OF g(1)] gives_authorize [OF g(2)] gives_check [OF g(3)] gives_asset [OF g(4)] job1
    by (intro customization_answer) (auto simp: customization_spec_def customization_actions_def)
qed

lemma effect_ends:
  "ends d (ReviewCustomizationEffect s now c p) (customization_outcome s now c (CustomizationEffectReview p) d)"
  unfolding ReviewCustomizationEffect_def infra_v_def [of "RunInTx _"]
proof (rule ends_checked, rule ends_loaded, rule ends_next [OF reads_customization_authorize(3)], rule ends_checked, rule ends_checked,
    rule ends_next [OF reads_customization(3)], rule ends_written)
  fix u job task0 task v v' asset x w w1
  assume g: "gives (loadCustomizationJobAndTask (ER_JobID p)) d (job, task0)"
    "gives (customization_authorize s c TaskActionCustomizationEffectReview task0) d task"
    "gives (check (CJ_Status job = CustomizationJobStatusPendingEffectReview) ErrCodeInvalidStateTransition) d v"
    "gives (check (CustomizationReviewDecision_Valid (ER_Decision p)) ErrCodeInvalidRequest) d v'"
    "gives (resolveCustomizationAssetID (CJ_CurrentAssetID job) (ER_CurrentAssetID p)) d asset"
    and tx: "wdb w = d" "effect_tx s now p asset job task w = (Inr x, w1)"
  show "ends (wdb w1) (GetCustomizationJob s (ER_JobID p)) (customization_outcome s now c (CustomizationEffectReview p) d)"
    using gives_load [OF g(1)] gives_authorize [OF g(2)] gives_check [OF g(3)] gives_check [OF g(4)] gives_asset [OF g(5)]
      effect_tx_effect [OF tx(2)] tx(1)
    by (intro customization_answer) (auto simp: customization_spec_def customization_actions_def)
qed

lemma transfer_ends:
  "ends d (TransferCustomizationProduction s now c p) (customization_outcome s now c (CustomizationTransfer p) d)"
  unfolding TransferCustomizationProduction_def infra_v_def [of "RunInTx _"]
proof (rule ends_checked, rule ends_loaded, rule ends_next [OF reads_customization_authorize(4)], rule ends_checked,
    rule ends_next [OF reads_customization(3)], rule ends_written)
  fix u job task0 task v asset x w w1
  assume g: "gives (loadCustomizationJobAndTask (TP_JobID p)) d (job, task0)"
    "gives (customization_authorize s c TaskActionCustomizationTransfer task0) d task"
    "gives (check (CJ_Status job = CustomizationJobStatusPendingProductionTransfer) ErrCodeInvalidStateTransition) d v"
    "gives (resolveCustomizationAssetID (CJ_CurrentAssetID job) (TP_CurrentAssetID p)) d asset"
    and tx: "wdb w = d" "transfer_tx s now p asset job task w = (Inr x, w1)"
  show "ends (wdb w1) (GetCustomizationJob s (TP_JobID p)) (customization_outcome s now c (CustomizationTransfer p) d)"
    using gives_load [OF g(1)] gives_authorize [OF g(2)] gives_check [OF g(3)] gives_asset [OF g(4)]
      transfer_tx_effect [OF tx(2)] tx(1)
    by (intro customization_answer) (auto simp: customization_spec_def customization_actions_def)
qed

lemma customization_any:
  assumes "quiet_pool s"
  shows "customization_outcome s now c call (wdb w) (fst (run_customization s now c call w))
    (wdb (snd (run_customization s now c call w)))"
  using review_ends [of "wdb w" s now c] preview_ends [OF assms, of "wdb w" now c] effect_ends [of "wdb w" s now c]
    transfer_ends [of "wdb w" s now c]
  by (cases call) (simp_all add: run_customization_def ends_def)

text \<open>
  (C26) A customization call, whatever fails in it, writes the job, the task's status, handler and
  customization state and the event together or none of them, and only when its gates hold for the rows
  it read: the authoriser's, the status of the job, the decision, and that an asset is known. The price is
  frozen once, from the enabled rule for the job's level and the employment type of the operator. A job it returns is the row the database now has.
\<close>

theorem customization_call_all_or_nothing:
  assumes "quiet_pool s"
  shows "customization_outcome s now ctxActor call (wdb w) (fst (run_customization s now ctxActor call w))
    (wdb (snd (run_customization s now ctxActor call w)))"
  using customization_any [OF assms] .

definition demo_customization :: customizationService where
  "demo_customization = \<lparr>Z_catalog = empty_catalog, Z_dataScopeResolver = False, Z_scopeUserRepo = False,
     Z_customizationJobRepo = True, Z_pricingUserRepo = True, Z_pricingRuleRepo = True,
     Z_notifyAuditPool = Some (\<lambda>_ _ _ _. ret ()), Z_uuid = (\<lambda>n. replicate n CHR ''u'')\<rparr>"

definition demo_review :: SubmitCustomizationReviewParams where
  "demo_review = \<lparr>SR_TaskID = 1, SR_ReviewerID = 2, SR_SourceAssetID = Some 8, SR_CustomizationLevelCode = ''L1'',
     SR_CustomizationLevelName = [], SR_CustomizationPrice = Some 1250, SR_CustomizationWeight = None,
     SR_CustomizationNote = [], SR_Decision = CustomizationReviewDecisionReturnToDesigner\<rparr>"

lemma demo_customization_quiet: "quiet_pool demo_customization"
  by (simp add: quiet_pool_def demo_customization_def read_only)

theorem customization_call_all_or_nothing_witness:
  "customization_outcome demo_customization 5 None (CustomizationReview demo_review) (demo_vdb demo_task [])
    (fst (run_customization demo_customization 5 None (CustomizationReview demo_review) \<lparr>wdb = demo_vdb demo_task [], faults = []\<rparr>))
    (wdb (snd (run_customization demo_customization 5 None (CustomizationReview demo_review)
      \<lparr>wdb = demo_vdb demo_task [], faults = []\<rparr>)))"
  using customization_call_all_or_nothing [OF demo_customization_quiet, of 5 None "CustomizationReview demo_review"
      "\<lparr>wdb = demo_vdb demo_task [], faults = []\<rparr>"] by simp

end
