(* ===== verification/Production_Cycle.thy ===== *)
theory Production_Cycle
  imports Auto_Release Customization
begin

section \<open>The way of a customized task through production and the warehouse\<close>

text \<open>
  The customization service, the warehouse and the release job all move the same tasks, each with checks of
  its own on a different row: the job, the receipt, the task. This theory puts them together: the machine
  \<open>flow_step\<close> of the joint states of receipt, job and task, that every call of the three is one step
  of it or none, and the states a customized task can reach.
\<close>

subsection \<open>The table of jobs\<close>

definition jobs_inv :: "vdb \<Rightarrow> bool" where
  "jobs_inv d \<longleftrightarrow> distinct (map CJ_ID (customization_jobs d)) \<and> distinct (map CJ_TaskID (customization_jobs d)) \<and>
     list_all (\<lambda>j. 0 < CJ_ID j \<and> CJ_ID j < next_job d) (customization_jobs d) \<and> 0 < next_job d"

definition job_of_task :: "vdb \<Rightarrow> id \<Rightarrow> CustomizationJob option" where
  "job_of_task d t = List.find (\<lambda>j. CJ_TaskID j = t) (customization_jobs d)"

lemma filter_one:
  assumes "distinct (map k xs)"
  shows "filter (\<lambda>x. k x = t) xs = (case List.find (\<lambda>x. k x = t) xs of None \<Rightarrow> [] | Some x \<Rightarrow> [x])"
  using assms
proof (induction xs)
  case (Cons x xs)
  have "k x = t \<Longrightarrow> filter (\<lambda>x. k x = t) xs = []" using Cons.prems by (auto simp: filter_empty_conv image_iff)
  then show ?case using Cons.IH Cons.prems by (cases "k x = t") simp_all
qed simp

lemma latest_job_of_task: "jobs_inv d \<Longrightarrow> latest_job d t = job_of_task d t"
  by (simp add: latest_job_def job_of_task_def jobs_inv_def filter_one split: option.split)

lemma job_of_task_iff: "jobs_inv d \<Longrightarrow> job_of_task d t = Some j \<longleftrightarrow> j \<in> set (customization_jobs d) \<and> CJ_TaskID j = t"
proof -
  assume inv: "jobs_inv d"
  have "List.find (\<lambda>j. CJ_TaskID j = t) xs = Some j \<longleftrightarrow> j \<in> set xs \<and> CJ_TaskID j = t"
    if "distinct (map CJ_TaskID xs)" for xs
    using that by (induction xs) (auto simp: image_iff)
  then show ?thesis using inv by (simp add: job_of_task_def jobs_inv_def)
qed

lemma job_row_iff: "jobs_inv d \<Longrightarrow> job_row d i = Some j \<longleftrightarrow> j \<in> set (customization_jobs d) \<and> CJ_ID j = i"
proof -
  assume inv: "jobs_inv d"
  have "List.find (\<lambda>j. CJ_ID j = i) xs = Some j \<longleftrightarrow> j \<in> set xs \<and> CJ_ID j = i" if "distinct (map CJ_ID xs)" for xs
    using that by (induction xs) (auto simp: image_iff)
  then show ?thesis using inv by (simp add: job_row_def jobs_inv_def)
qed

lemma jobs_cong: "customization_jobs d' = customization_jobs d \<Longrightarrow> job_of_task d' t = job_of_task d t"
  by (simp add: job_of_task_def)

lemma jobs_inv_cong: "customization_jobs d' = customization_jobs d \<Longrightarrow> next_job d' = next_job d \<Longrightarrow> jobs_inv d' = jobs_inv d"
  by (simp add: jobs_inv_def)

lemma set_job_at:
  assumes "jobs_inv d" and "job_of_task d t = Some j" and "CJ_ID x = CJ_ID j"
  shows "jobs_inv (set_job now x d)"
    and "map_option CJ_Status (job_of_task (set_job now x d) u) =
      (if u = t then Some (CJ_Status x) else map_option CJ_Status (job_of_task d u))"
proof -
  show "jobs_inv (set_job now x d)"
    using assms(1) by (auto simp: jobs_inv_def set_job_def map_row_upd list_all_iff dest!: set_row_updD)
  have same: "r = j" if "r \<in> set (customization_jobs d)" "CJ_ID r = CJ_ID x" for r
    using that assms job_of_task_iff [OF assms(1), of t j] distinct_key_eq [of CJ_ID "customization_jobs d" r j]
    by (simp add: jobs_inv_def)
  have find: "job_of_task (set_job now x d) u = map_option (\<lambda>r. if CJ_ID r = CJ_ID x
      then x\<lparr>CJ_ID := CJ_ID r, CJ_TaskID := CJ_TaskID r, CJ_CreatedAt := CJ_CreatedAt r, CJ_UpdatedAt := now\<rparr> else r)
      (job_of_task d u)"
    by (simp add: job_of_task_def set_job_def find_row_upd)
  show "map_option CJ_Status (job_of_task (set_job now x d) u) =
      (if u = t then Some (CJ_Status x) else map_option CJ_Status (job_of_task d u))"
  proof (cases "u = t")
    case True
    then show ?thesis using assms(2,3) find by simp
  next
    case False
    have "CJ_ID r \<noteq> CJ_ID x" if "job_of_task d u = Some r" for r
      using that same [of r] assms(1,2) False job_of_task_iff [OF assms(1)] by auto
    then show ?thesis using False find by (cases "job_of_task d u") auto
  qed
qed

lemma add_job_at:
  assumes "jobs_inv d" and "job_of_task d (CJ_TaskID x) = None"
  shows "jobs_inv (add_job now x d)"
    and "map_option CJ_Status (job_of_task (add_job now x d) u) =
      (if u = CJ_TaskID x then Some (CJ_Status x) else map_option CJ_Status (job_of_task d u))"
  using assms by (fastforce simp: jobs_inv_def add_job_def list_all_iff job_of_task_def find_None_iff)
    (use assms(2) in \<open>auto simp: job_of_task_def add_job_def find_append split: option.splits\<close>)

subsection \<open>The machine\<close>

text \<open>The joint states: of the receipt, of the job, of the task.\<close>

type_synonym flow = "WarehouseReceiptStatus option \<times> string option \<times> TaskStatus option"

inductive job_step :: "string option \<times> TaskStatus option \<Rightarrow> string option \<times> TaskStatus option \<Rightarrow> bool" where
  to_production: "j = None \<or> j = Some CustomizationJobStatusPendingCustomizationReview \<Longrightarrow>
    job_step (j, Some TaskStatusPendingCustomizationReview)
      (Some CustomizationJobStatusPendingCustomizationProduction, Some TaskStatusPendingCustomizationProduction)"
| to_warehouse: "j = None \<or> j = Some CustomizationJobStatusPendingCustomizationReview \<Longrightarrow>
    job_step (j, Some TaskStatusPendingCustomizationReview)
      (Some CustomizationJobStatusPendingWarehouseQC, Some TaskStatusPendingWarehouseReceive)"
| worked: "j \<in> {CustomizationJobStatusPendingCustomizationProduction, CustomizationJobStatusPendingEffectRevision,
      CustomizationJobStatusRejectedByWarehouse} \<Longrightarrow>
    ts \<in> {TaskStatusPendingCustomizationProduction, TaskStatusPendingEffectRevision, TaskStatusRejectedByWarehouse} \<Longrightarrow>
    final \<or> j' = CustomizationJobStatusPendingEffectReview \<and> ts' = TaskStatusPendingEffectReview \<Longrightarrow>
    \<not> final \<or> j' = CustomizationJobStatusPendingProductionTransfer \<and> ts' = TaskStatusPendingProductionTransfer \<Longrightarrow>
    job_step (Some j, Some ts) (Some j', Some ts')"
| approved: "job_step (Some CustomizationJobStatusPendingEffectReview, Some TaskStatusPendingEffectReview)
    (Some CustomizationJobStatusPendingProductionTransfer, Some TaskStatusPendingProductionTransfer)"
| returned: "job_step (Some CustomizationJobStatusPendingEffectReview, Some TaskStatusPendingEffectReview)
    (Some CustomizationJobStatusPendingEffectRevision, Some TaskStatusPendingEffectRevision)"
| handed_over: "job_step (Some CustomizationJobStatusPendingProductionTransfer, Some TaskStatusPendingProductionTransfer)
    (Some CustomizationJobStatusPendingWarehouseQC, Some TaskStatusPendingWarehouseQC)"

text \<open>
  A step of one of the three parts: the customization service leaves the receipt alone, the warehouse touches
  the job only when it sends the task back, and the release job never does.
\<close>

inductive flow_step :: "flow \<Rightarrow> flow \<Rightarrow> bool" where
  by_customization: "job_step (j, ts) (j', ts') \<Longrightarrow> flow_step (r, j, ts) (r, j', ts')"
| by_warehouse: "receipt_step True (r, ts) (r', ts') \<Longrightarrow>
    j' = (if ts' = Some TaskStatusRejectedByWarehouse then map_option (\<lambda>_. CustomizationJobStatusRejectedByWarehouse) j
      else j) \<Longrightarrow>
    flow_step (r, j, ts) (r', j', ts')"
| by_release: "release_step (r, ts) (r', ts') \<Longrightarrow> flow_step (r, j, ts) (r', j, ts')"

inductive_cases job_stepE: "job_step a b"
inductive_cases flow_stepE: "flow_step a b"

definition flow_of :: "vdb \<Rightarrow> id \<Rightarrow> flow" where
  "flow_of d t = (map_option WR_Status (receipt_of_task d t), map_option CJ_Status (job_of_task d t),
     map_option T_TaskStatus (v_task d t))"

lemma flow_of_life: "flow_of d t = (fst (receipt_life_of d t), map_option CJ_Status (job_of_task d t), snd (receipt_life_of d t))"
  by (simp add: flow_of_def receipt_life_of_def)

text \<open>
  The states of a customized task. Before the warehouse has taken the task there is no receipt or a
  rejected one, and from the moment it takes it the job waits for the quality check.
\<close>

definition early :: "WarehouseReceiptStatus option \<Rightarrow> bool" where
  "early r \<longleftrightarrow> r = None \<or> r = Some WarehouseReceiptStatusRejected"

definition in_flow :: "flow \<Rightarrow> bool" where
  "in_flow = (\<lambda>(r, j, ts). case ts of None \<Rightarrow> False | Some status \<Rightarrow> (case status of
       TaskStatusPendingCustomizationReview \<Rightarrow>
         r = None \<and> (j = None \<or> j = Some CustomizationJobStatusPendingCustomizationReview)
     | TaskStatusPendingCustomizationProduction \<Rightarrow> r = None \<and> j = Some CustomizationJobStatusPendingCustomizationProduction
     | TaskStatusPendingEffectReview \<Rightarrow> early r \<and> j = Some CustomizationJobStatusPendingEffectReview
     | TaskStatusPendingEffectRevision \<Rightarrow> early r \<and> j = Some CustomizationJobStatusPendingEffectRevision
     | TaskStatusPendingProductionTransfer \<Rightarrow>
         early r \<and> j = Some CustomizationJobStatusPendingProductionTransfer \<or>
         r = Some WarehouseReceiptStatusReceived \<and> j = Some CustomizationJobStatusPendingWarehouseQC
     | TaskStatusPendingWarehouseReceive \<Rightarrow> r = None \<and> j = Some CustomizationJobStatusPendingWarehouseQC
     | TaskStatusPendingWarehouseQC \<Rightarrow> early r \<and> j = Some CustomizationJobStatusPendingWarehouseQC
     | TaskStatusRejectedByWarehouse \<Rightarrow>
         r = Some WarehouseReceiptStatusRejected \<and> j = Some CustomizationJobStatusRejectedByWarehouse
     | TaskStatusPendingClose \<Rightarrow> r = Some WarehouseReceiptStatusCompleted \<and> j = Some CustomizationJobStatusPendingWarehouseQC
     | TaskStatusCompleted \<Rightarrow> (r = Some WarehouseReceiptStatusReceived \<or> r = Some WarehouseReceiptStatusCompleted) \<and>
         j = Some CustomizationJobStatusPendingWarehouseQC
     | _ \<Rightarrow> False))"

lemma flow_closed:
  assumes "flow_step a b" and "in_flow a"
  shows "in_flow b"
  using assms(1)
proof cases
  case (by_customization j ts j' ts' r)
  from by_customization(3) show ?thesis
    using assms(2) unfolding by_customization(1,2) by cases (auto simp: in_flow_def early_def)
next
  case (by_warehouse r ts r' ts' j' j)
  from by_warehouse(3) show ?thesis
    using assms(2) unfolding by_warehouse(1,2,4)
    by cases (auto simp: in_flow_def early_def waits_for_warehouse_def)
next
  case (by_release r ts r' ts' j)
  from by_release(3) show ?thesis
    using assms(2) unfolding by_release(1,2) by cases (auto simp: in_flow_def early_def)
qed

subsection \<open>A customization call is a step\<close>

text \<open>What a call may leave: well-formed tables, and the lives of all tasks but one.\<close>

definition flow_ready :: "vdb \<Rightarrow> bool" where
  "flow_ready d \<longleftrightarrow> release_ready d \<and> jobs_inv d"

definition flow_moves :: "vdb \<Rightarrow> vdb \<Rightarrow> bool" where
  "flow_moves d d' \<longleftrightarrow> flow_ready d' \<and>
     (\<forall>t. map_option T_CustomizationRequired (v_task d' t) = map_option T_CustomizationRequired (v_task d t)) \<and>
     (\<forall>t. map_option T_CustomizationRequired (v_task d t) = Some True \<longrightarrow>
        flow_of d' t = flow_of d t \<or> flow_step (flow_of d t) (flow_of d' t))"

lemma required_upd:
  assumes "\<And>r. T_ID (f r) = T_ID r" and "\<And>r. T_CustomizationRequired (f r) = T_CustomizationRequired r"
  shows "map_option T_CustomizationRequired (v_task (d\<lparr>v_modules := upd_task now i f (v_modules d)\<rparr>) t) =
    map_option T_CustomizationRequired (v_task d t)"
  unfolding v_task_upd [of f, OF assms(1)] using assms(2) by (cases "v_task d t") auto

lemma required_rest [simp]:
  "map_option T_CustomizationRequired (v_task (advanced now task nxt d) t) = map_option T_CustomizationRequired (v_task d t)"
  "map_option T_CustomizationRequired (v_task (set_customization_state now i l r c d) t) =
     map_option T_CustomizationRequired (v_task d t)"
proof -
  have "map_option T_CustomizationRequired (v_task (set_task_status now j st e) t) = map_option T_CustomizationRequired (v_task e t)"
    and "map_option T_CustomizationRequired (v_task (set_task_handler now j h e) t) = map_option T_CustomizationRequired (v_task e t)"
    for e j st h
    unfolding set_task_status_def set_task_handler_def by (rule required_upd; simp)+
  then show "map_option T_CustomizationRequired (v_task (advanced now task nxt d) t) =
      map_option T_CustomizationRequired (v_task d t)" by (simp only: advanced_def)
  show "map_option T_CustomizationRequired (v_task (set_customization_state now i l r c d) t) =
      map_option T_CustomizationRequired (v_task d t)"
    unfolding set_customization_state_def by (rule required_upd; simp)
qed

lemma linv_rest [simp]:
  "linv {} (v_modules d) \<Longrightarrow> linv {} (v_modules (advanced now task nxt d))"
  "linv {} (v_modules d) \<Longrightarrow> linv {} (v_modules (set_customization_state now i l r c d))"
  by (simp_all add: advanced_def set_task_handler_def set_task_status_def set_customization_state_def upd_task_linv)

text \<open>Everything a customization call writes but the job and the task.\<close>

lemma frame_jobs [simp]:
  "customization_jobs (noted s now task ty op x d) = customization_jobs d" "next_job (noted s now task ty op x d) = next_job d"
  "v_modules (noted s now task ty op x d) = v_modules d"
  "warehouse_receipts (noted s now task ty op x d) = warehouse_receipts d"
  "next_receipt (noted s now task ty op x d) = next_receipt d"
  "customization_jobs (advanced now task nxt d) = customization_jobs d" "next_job (advanced now task nxt d) = next_job d"
  "customization_jobs (set_customization_state now i l r c d) = customization_jobs d"
  "next_job (set_customization_state now i l r c d) = next_job d"
  "v_modules (put_job now job d) = v_modules d" "v_modules (set_job now job d) = v_modules d"
  "warehouse_receipts (put_job now job d) = warehouse_receipts d" "next_receipt (put_job now job d) = next_receipt d"
  "warehouse_receipts (set_job now job d) = warehouse_receipts d" "next_receipt (set_job now job d) = next_receipt d"
  by (simp_all add: noted_def advanced_def effect_defs put_job_def add_job_def set_job_def)

lemma v_task_noted [simp]: "v_task (noted s now task ty op x d) t = v_task d t"
  "v_task (put_job now job d) t = v_task d t" "v_task (set_job now job d) t = v_task d t"
  by (simp_all add: v_task_def)

text \<open>
  A transaction that writes one job and moves its task is a step if the two moves are.
\<close>

lemma moves_by_job:
  assumes ready: "flow_ready d" and task: "v_task d t = Some task"
    and jobs: "jobs_inv (put_job now x d)"
      "\<And>u. map_option CJ_Status (job_of_task (put_job now x d) u) =
        (if u = t then Some (CJ_Status x) else map_option CJ_Status (job_of_task d u))"
    and d': "customization_jobs d' = customization_jobs (put_job now x d)" "next_job d' = next_job (put_job now x d)"
      "warehouse_receipts d' = warehouse_receipts d" "next_receipt d' = next_receipt d"
      "linv {} (v_modules d')"
      "\<And>u. map_option T_CustomizationRequired (v_task d' u) = map_option T_CustomizationRequired (v_task d u)"
      "\<And>u. map_option T_TaskStatus (v_task d' u) = (if u = t then Some ts else map_option T_TaskStatus (v_task d u))"
    and step: "job_step (map_option CJ_Status (job_of_task d t), Some (T_TaskStatus task)) (Some (CJ_Status x), Some ts)"
  shows "flow_moves d d'"
proof -
  have "release_ready d'"
    using ready d'(3-5) by (simp add: flow_ready_def release_ready_def tables_ok_def receipts_inv_cong [OF d'(3,4)])
  moreover have "jobs_inv d'" using jobs(1) jobs_inv_cong [OF d'(1,2)] by simp
  moreover have "flow_of d' u = flow_of d u" if "u \<noteq> t" for u
    using that jobs(2) [of u] d'(7) [of u] by (simp add: flow_of_def receipt_of_cong [OF d'(3)] jobs_cong [OF d'(1)])
  moreover have "flow_step (flow_of d t) (flow_of d' t)"
    unfolding flow_of_def receipt_of_cong [OF d'(3)] jobs_cong [OF d'(1)] jobs(2) d'(7) task option.map(2)
    using step by (simp add: by_customization)
  ultimately have "flow_ready d'" "flow_of d' u = flow_of d u \<or> flow_step (flow_of d u) (flow_of d' u)" for u
    by (auto simp: flow_ready_def) (cases "u = t"; simp)
  then show ?thesis using d'(6) by (simp add: flow_moves_def)
qed

lemma may_act_customization:
  assumes "may_act catalog c a task" and "resolveTaskActionActor c \<noteq> None"
  shows "a = TaskActionCustomizationReview \<Longrightarrow> T_TaskStatus task = TaskStatusPendingCustomizationReview"
    and "a = TaskActionCustomizationEffectPreview \<Longrightarrow> T_TaskStatus task \<in> {TaskStatusPendingCustomizationProduction,
      TaskStatusPendingEffectRevision, TaskStatusRejectedByWarehouse}"
    and "a = TaskActionCustomizationEffectReview \<Longrightarrow> T_TaskStatus task = TaskStatusPendingEffectReview"
    and "a = TaskActionCustomizationTransfer \<Longrightarrow> T_TaskStatus task = TaskStatusPendingProductionTransfer"
  using assms by (auto simp: may_act_def taskActionRuleFor_def Let_def)

lemma job_known:
  assumes "jobs_inv d" and "job_row d i = Some job"
  shows "job_of_task d (CJ_TaskID job) = Some job" and "0 < CJ_ID job"
  using assms by (auto simp: job_row_iff job_of_task_iff) (auto simp: jobs_inv_def list_all_iff)

lemma put_known:
  assumes "jobs_inv d" and "job_of_task d t = Some job" and "CJ_ID x = CJ_ID job"
  shows "jobs_inv (put_job now x d)" "put_job now x d = set_job now x d"
    and "map_option CJ_Status (job_of_task (put_job now x d) u) =
      (if u = t then Some (CJ_Status x) else map_option CJ_Status (job_of_task d u))"
proof -
  have "0 < CJ_ID job" using assms(1,2) by (auto simp: job_of_task_iff jobs_inv_def list_all_iff)
  then show put: "put_job now x d = set_job now x d" using assms(3) by (simp add: put_job_def)
  show "jobs_inv (put_job now x d)" "map_option CJ_Status (job_of_task (put_job now x d) u) =
      (if u = t then Some (CJ_Status x) else map_option CJ_Status (job_of_task d u))"
    unfolding put by (rule set_job_at [OF assms])+
qed

lemma put_new:
  assumes "jobs_inv d" and "job_of_task d (CJ_TaskID x) = None" and "CJ_ID x = 0"
  shows "jobs_inv (put_job now x d)"
    and "map_option CJ_Status (job_of_task (put_job now x d) u) =
      (if u = CJ_TaskID x then Some (CJ_Status x) else map_option CJ_Status (job_of_task d u))"
  using add_job_at [OF assms(1,2)] assms(3) by (simp_all add: put_job_def)

lemma reviewed_job_fields [simp]:
  "CJ_ID (reviewed_job p task job) = CJ_ID job" "CJ_TaskID (reviewed_job p task job) = CJ_TaskID job"
  "CJ_Status (reviewed_job p task job) = snd (snd (review_next p task job))"
  by (simp_all add: reviewed_job_def Let_def)

lemma price_of_fields: "price_of s p d job job1 \<Longrightarrow> CJ_ID job1 = CJ_ID job"
  by (auto simp: price_of_def split: if_splits)

lemma customization_seen_rest [simp]: "T_TaskStatus (customization_seen s c t) = T_TaskStatus t"
  by (simp add: customization_seen_def)

lemma ready_parts: "flow_ready d \<Longrightarrow> jobs_inv d" "flow_ready d \<Longrightarrow> linv {} (v_modules d)"
  by (simp_all add: flow_ready_def release_ready_def tables_ok_def)

lemma review_moves:
  assumes spec: "customization_spec s now c (CustomizationReview p) d i d'" and ready: "flow_ready d"
    and actor: "resolveTaskActionActor c \<noteq> None"
  shows "flow_moves d d'"
proof -
  note inv = ready_parts [OF ready]
  let ?t = "SR_TaskID p"
  obtain task job0 where row: "v_task d ?t = Some task" and may: "may_act (Z_catalog s) c TaskActionCustomizationReview task"
    and job0: "case job_of_task d ?t of None \<Rightarrow> job0 = new_customization_job ?t
      | Some j \<Rightarrow> CJ_Status j = CustomizationJobStatusPendingCustomizationReview \<and> job0 = j"
    and d': "d' = reviewed s now p (customization_seen s c task) job0 d"
    using spec by (auto simp: customization_spec_def latest_job_of_task [OF inv(1)])
  let ?seen = "customization_seen s c task"
  let ?x = "reviewed_job p ?seen job0"
  have st: "T_TaskStatus task = TaskStatusPendingCustomizationReview" by (rule may_act_customization(1) [OF may actor refl])
  have ids: "CJ_TaskID job0 = ?t" "T_ID task = ?t"
    using job0 v_task_ID [OF row] by (auto simp: new_customization_job_def job_of_task_iff [OF inv(1)] split: option.splits)
  have put: "jobs_inv (put_job now ?x d) \<and> (\<forall>u. map_option CJ_Status (job_of_task (put_job now ?x d) u) =
      (if u = ?t then Some (CJ_Status ?x) else map_option CJ_Status (job_of_task d u)))"
  proof (cases "job_of_task d ?t")
    case None
    then show ?thesis using put_new [OF inv(1), of ?x now] job0 ids by (simp add: new_customization_job_def)
  next
    case (Some j)
    then show ?thesis using put_known [OF inv(1) Some, of ?x now] job0 by simp
  qed
  show ?thesis
  proof (rule moves_by_job [OF ready row, where x = ?x and now = now and ts = "fst (review_next p ?seen job0)"])
    show "job_step (map_option CJ_Status (job_of_task d ?t), Some (T_TaskStatus task))
        (Some (CJ_Status ?x), Some (fst (review_next p ?seen job0)))"
      using job0 st by (auto simp: review_next_def intro: to_production to_warehouse split: option.splits)
  qed (use put inv ids row in \<open>auto simp: d' reviewed_def Let_def\<close>)
qed

text \<open>The three calls on a job: what they write is a known job with a new status.\<close>

lemma moves_known:
  assumes ready: "flow_ready d" and job: "job_row d i = Some job" and row: "v_task d (CJ_TaskID job) = Some task"
    and x: "CJ_ID x = CJ_ID job"
    and d': "customization_jobs d' = customization_jobs (set_job now x d)" "next_job d' = next_job (set_job now x d)"
      "warehouse_receipts d' = warehouse_receipts d" "next_receipt d' = next_receipt d" "linv {} (v_modules d')"
      "\<And>u. map_option T_CustomizationRequired (v_task d' u) = map_option T_CustomizationRequired (v_task d u)"
      "\<And>u. map_option T_TaskStatus (v_task d' u) = (if u = CJ_TaskID job then Some ts else map_option T_TaskStatus (v_task d u))"
    and step: "job_step (Some (CJ_Status job), Some (T_TaskStatus task)) (Some (CJ_Status x), Some ts)"
  shows "flow_moves d d'"
proof -
  note known = job_known [OF ready_parts(1) [OF ready] job]
  note put = put_known [OF ready_parts(1) [OF ready] known(1) x, of now]
  show ?thesis
    using step known(1) by (intro moves_by_job [OF ready row put(1,3) d'(1,2) [folded put(2)] d'(3-7)]) simp_all
qed

lemma customization_moves:
  assumes spec: "customization_spec s now c call d i d'" and ready: "flow_ready d"
    and actor: "resolveTaskActionActor c \<noteq> None"
  shows "flow_moves d d'"
proof (cases call)
  case (CustomizationReview p)
  then show ?thesis using review_moves [OF _ ready actor] spec by simp
next
  case (CustomizationPreview p)
  obtain job task job1 where job: "job_row d i = Some job" and row: "v_task d (CJ_TaskID job) = Some task"
    and may: "may_act (Z_catalog s) c TaskActionCustomizationEffectPreview task" and act: "preview_actionable job"
    and price: "price_of s p d (operated_job p job) job1"
    and d': "d' = previewed s now p (given (EP_CurrentAssetID p) (CJ_CurrentAssetID job)) job1 (customization_seen s c task) d"
    using spec CustomizationPreview by (auto simp: customization_spec_def)
  let ?x = "previewed_job p (given (EP_CurrentAssetID p) (CJ_CurrentAssetID job)) job1"
  note st = may_act_customization(2) [OF may actor refl]
  show ?thesis
  proof (rule moves_known [OF ready job row, where x = ?x and now = now and ts = "fst (preview_next p)"])
    show "CJ_ID ?x = CJ_ID job" using price_of_fields [OF price] by (simp add: previewed_job_def operated_job_def)
    show "job_step (Some (CJ_Status job), Some (T_TaskStatus task)) (Some (CJ_Status ?x), Some (fst (preview_next p)))"
      using st act
      by (intro worked [where final = "preview_decision p = CustomizationJobDecisionTypeFinal"])
        (auto simp: preview_actionable_def previewed_job_def preview_next_def)
  qed (use v_task_ID [OF row] row ready_parts [OF ready] in \<open>auto simp: d' previewed_def Let_def\<close>)
next
  case (CustomizationEffectReview p)
  obtain job task where job: "job_row d i = Some job" and row: "v_task d (CJ_TaskID job) = Some task"
    and may: "may_act (Z_catalog s) c TaskActionCustomizationEffectReview task"
    and js: "CJ_Status job = CustomizationJobStatusPendingEffectReview"
    and d': "d' = effect_reviewed s now p (given (ER_CurrentAssetID p) (CJ_CurrentAssetID job)) job (customization_seen s c task) d"
    using spec CustomizationEffectReview by (auto simp: customization_spec_def)
  let ?x = "effect_job p (given (ER_CurrentAssetID p) (CJ_CurrentAssetID job)) job"
  note st = may_act_customization(3) [OF may actor refl]
  show ?thesis
  proof (rule moves_known [OF ready job row, where x = ?x and now = now and ts = "fst (effect_next p)"])
    show "job_step (Some (CJ_Status job), Some (T_TaskStatus task)) (Some (CJ_Status ?x), Some (fst (effect_next p)))"
      using st js by (auto simp: effect_job_def effect_next_def intro: job_step.approved job_step.returned)
  qed (use v_task_ID [OF row] row ready_parts [OF ready] in \<open>auto simp: d' effect_reviewed_def effect_job_def Let_def\<close>)
next
  case (CustomizationTransfer p)
  obtain job task where job: "job_row d i = Some job" and row: "v_task d (CJ_TaskID job) = Some task"
    and may: "may_act (Z_catalog s) c TaskActionCustomizationTransfer task"
    and js: "CJ_Status job = CustomizationJobStatusPendingProductionTransfer"
    and d': "d' = transferred s now p (given (TP_CurrentAssetID p) (CJ_CurrentAssetID job)) job (customization_seen s c task) d"
    using spec CustomizationTransfer by (auto simp: customization_spec_def)
  let ?x = "transferred_job p (given (TP_CurrentAssetID p) (CJ_CurrentAssetID job)) job"
  note st = may_act_customization(4) [OF may actor refl]
  show ?thesis
  proof (rule moves_known [OF ready job row, where x = ?x and now = now and ts = TaskStatusPendingWarehouseQC])
    show "job_step (Some (CJ_Status job), Some (T_TaskStatus task)) (Some (CJ_Status ?x), Some TaskStatusPendingWarehouseQC)"
      using st js by (auto simp: transferred_job_def intro: handed_over)
  qed (use v_task_ID [OF row] row ready_parts [OF ready] in \<open>auto simp: d' transferred_def transferred_job_def Let_def\<close>)
qed

lemma moves_refl: "flow_ready d \<Longrightarrow> flow_moves d d"
  by (simp add: flow_moves_def)

lemma run_customization_moves:
  assumes "flow_ready (wdb w)" and "quiet_pool s" and "resolveTaskActionActor c \<noteq> None"
  shows "flow_moves (wdb w) (wdb (snd (run_customization s now c call w)))"
  using customization_any [OF assms(2), of now c call w] customization_moves [OF _ assms(1,3)] moves_refl [OF assms(1)]
  unfolding customization_outcome_def by metis

subsection \<open>A warehouse call is a step\<close>

text \<open>What the filing of a task must leave alone here: the tables of the flow.\<close>

definition same_flow :: "vdb \<Rightarrow> vdb \<Rightarrow> bool" where
  "same_flow d d1 \<longleftrightarrow> v_modules d1 = v_modules d \<and> warehouse_receipts d1 = warehouse_receipts d \<and>
     next_receipt d1 = next_receipt d \<and> customization_jobs d1 = customization_jobs d \<and> next_job d1 = next_job d"

definition filing_elsewhere :: "warehouseService \<Rightarrow> bool" where
  "filing_elsewhere s \<longleftrightarrow> (case W_filingTrigger s of None \<Rightarrow> True
     | Some trigger \<Rightarrow> \<forall>i a c w. same_flow (wdb w) (wdb (snd (trigger i a c w))))"

lemma filed_flow: "filed s call d d1 \<Longrightarrow> filing_elsewhere s \<Longrightarrow> same_flow d d1"
  by (auto simp: filed_def filing_elsewhere_def same_flow_def)

lemma same_flow_task: "same_flow d d1 \<Longrightarrow> v_task d1 t = v_task d t"
  by (simp add: same_flow_def v_task_def)

lemma same_flow_lives: "same_flow d d1 \<Longrightarrow> same_lives d d1"
  using same_flow_task [of d d1] by (simp add: same_lives_def same_flow_def)

lemma same_flow_jobs: "same_flow d d1 \<Longrightarrow> job_of_task d1 t = job_of_task d t"
  by (simp add: same_flow_def job_of_task_def)

lemma same_flow_moves: "same_flow d d1 \<Longrightarrow> flow_ready d \<Longrightarrow> flow_moves d d1"
  using same_flow_task [of d d1] same_flow_jobs [of d d1]
  by (simp add: flow_moves_def flow_of_def flow_ready_def release_ready_def tables_ok_def jobs_inv_def receipts_inv_def
      same_flow_def receipt_of_task_def)

lemma frame_warehouse [simp]:
  "v_modules (with_event U now i task ty op st h x d) = v_modules d"
  "customization_jobs (with_event U now i task ty op st h x d) = customization_jobs d"
  "next_job (with_event U now i task ty op st h x d) = next_job d"
  "v_modules (put_receipt now e r d) = v_modules d" "customization_jobs (put_receipt now e r d) = customization_jobs d"
  "next_job (put_receipt now e r d) = next_job d" "v_modules (job_rejected s now task p d) = v_modules d"
  "v_modules (set_receipt now r d) = v_modules d" "customization_jobs (set_receipt now r d) = customization_jobs d"
  "next_job (set_receipt now r d) = next_job d" "next_job (job_rejected s now task p d) = next_job d"
  by (simp_all add: with_event_def put_receipt_def job_rejected_def set_job_def effect_defs split: option.splits)

lemma put_receipt_ids:
  assumes "0 < next_receipt d" and "list_all (\<lambda>r. 0 < WR_ID r) (warehouse_receipts d)"
  shows "0 < next_receipt (put_receipt now e x d) \<and> list_all (\<lambda>r. 0 < WR_ID r) (warehouse_receipts (put_receipt now e x d))"
  using assms
  by (cases e) (auto simp: put_receipt_def add_receipt_def set_receipt_def list_all_iff dest!: set_row_updD)

definition call_target :: "warehouse_call \<Rightarrow> TaskStatus" where
  "call_target call = (case call of WarehouseReceive _ \<Rightarrow> TaskStatusPendingProductionTransfer
     | WarehouseReject _ \<Rightarrow> TaskStatusRejectedByWarehouse | WarehouseComplete _ \<Rightarrow> TaskStatusPendingClose)"

lemma warehouse_seen_rest [simp]:
  "T_CustomizationRequired (warehouse_seen s c task) = T_CustomizationRequired task"
  "T_CustomizationRequired (last_operator s d i task) = T_CustomizationRequired task"
  by (simp_all add: warehouse_seen_def applyTaskReadModelOrgOwnership_def last_operator_def withLastOperator_def Let_def
      split: option.splits)

text \<open>Where a call sends its task, and that the task was elsewhere.\<close>

lemma spec_target:
  assumes "warehouse_spec s now c call d d1 d'" and "same_flow d d1"
  shows "map_option T_TaskStatus (v_task d' (call_task_id call)) = Some (call_target call)"
proof -
  note task = same_flow_task [OF assms(2)]
  show ?thesis
  proof (cases call)
    case (WarehouseReceive p)
    then obtain t0 where "v_task d (WV_TaskID p) = Some t0"
      "d' = received s now p (warehouse_seen s c t0) (receipt_of_task d (WV_TaskID p)) d1"
      using assms(1) by (auto simp: warehouse_spec_def)
    then show ?thesis using WarehouseReceive task v_task_ID [of d "WV_TaskID p"]
      by (simp add: received_def call_task_id_def call_target_def resolveWarehouseReceiveTaskState_def Let_def)
  next
    case (WarehouseReject p)
    then obtain t0 where "v_task d (WJ_TaskID p) = Some t0"
      "d' = sent_back s now p (last_operator s d (WJ_TaskID p) (warehouse_seen s c t0)) (receipt_of_task d (WJ_TaskID p)) d1"
      using assms(1) by (auto simp: warehouse_spec_def)
    then show ?thesis using WarehouseReject task v_task_ID [of d "WJ_TaskID p"]
      by (simp add: sent_back_def call_task_id_def call_target_def Let_def)
  next
    case (WarehouseComplete p)
    then obtain t0 r where "v_task d (WC_TaskID p) = Some t0" "d' = closed_out s now p (warehouse_seen s c t0) r d1"
      using assms(1) by (auto simp: warehouse_spec_def)
    then show ?thesis using WarehouseComplete task v_task_ID [of d "WC_TaskID p"]
      by (simp add: closed_out_def call_task_id_def call_target_def resolveWarehouseCompleteTaskState_def Let_def)
  qed
qed

lemma spec_left:
  assumes "warehouse_spec s now c call d d1 d'" and "resolveTaskActionActor c \<noteq> None"
  shows "map_option T_TaskStatus (v_task d (call_task_id call)) \<noteq> Some (call_target call)"
proof -
  have gate: "T_TaskStatus task = TaskStatusPendingWarehouseReceive \<or> T_TaskStatus task = TaskStatusPendingWarehouseQC \<or>
      a = TaskActionWarehouseComplete \<and> T_TaskStatus task = TaskStatusPendingProductionTransfer"
    if "may_act (W_catalog s) c a task" "a \<in> set warehouse_actions" for a task
    using may_act_gate [OF that(1) assms(2) that(2)] by (auto simp: waits_for_warehouse_def)
  show ?thesis
    using assms(1)
    by (cases call) (auto simp: warehouse_spec_def call_task_id_def call_target_def warehouse_actions_def dest!: gate)
qed

text \<open>The rest of what a call leaves as it was.\<close>

definition call_frame :: "vdb \<Rightarrow> vdb \<Rightarrow> bool" where
  "call_frame d d' \<longleftrightarrow> 0 < next_receipt d' \<and> list_all (\<lambda>r. 0 < WR_ID r) (warehouse_receipts d') \<and> linv {} (v_modules d') \<and>
     (\<forall>u. map_option T_CustomizationRequired (v_task d' u) = map_option T_CustomizationRequired (v_task d u))"

lemma spec_frame:
  assumes spec: "warehouse_spec s now c call d d1 d'" and same: "same_flow d d1" and ready: "flow_ready d"
  shows "call_frame d d'"
proof -
  have d1: "0 < next_receipt d1" "list_all (\<lambda>r. 0 < WR_ID r) (warehouse_receipts d1)" "linv {} (v_modules d1)"
    using ready same by (simp_all add: flow_ready_def release_ready_def tables_ok_def same_flow_def)
  note ids = put_receipt_ids [OF d1(1,2)]
  have ids1: "0 < next_receipt (set_receipt now r d1) \<and> list_all (\<lambda>r. 0 < WR_ID r) (warehouse_receipts (set_receipt now r d1))"
    for r using ids [of now "Some r" r] by (simp add: put_receipt_def)
  show ?thesis
  proof (cases call)
    case (WarehouseReceive p)
    with spec show ?thesis using ids d1(3) same_flow_task [OF same]
      by (auto simp: warehouse_spec_def received_def call_frame_def Let_def)
  next
    case (WarehouseReject p)
    with spec show ?thesis using ids d1(3) same_flow_task [OF same]
      by (auto simp: warehouse_spec_def sent_back_def call_frame_def Let_def)
  next
    case (WarehouseComplete p)
    with spec show ?thesis using ids1 d1(3) same_flow_task [OF same]
      by (auto simp: warehouse_spec_def closed_out_def call_frame_def Let_def)
  qed
qed

text \<open>The job: a rejection of a customized task sends it back too.\<close>

lemma job_rejected_at:
  assumes inv: "jobs_inv d"
  shows "jobs_inv (job_rejected s now task p d)"
    and "u \<noteq> T_ID task \<Longrightarrow> map_option CJ_Status (job_of_task (job_rejected s now task p d) u) =
      map_option CJ_Status (job_of_task d u)"
    and "T_CustomizationRequired task \<Longrightarrow> W_customizationJobRepo s \<Longrightarrow>
      map_option CJ_Status (job_of_task (job_rejected s now task p d) (T_ID task)) =
      map_option (\<lambda>_. CustomizationJobStatusRejectedByWarehouse) (job_of_task d (T_ID task))"
proof -
  have id: "CJ_ID (rejected_job p j) = CJ_ID j" "CJ_Status (rejected_job p j) = CustomizationJobStatusRejectedByWarehouse" for j
    by (simp_all add: rejected_job_def)
  note put = set_job_at [OF inv _ id(1)]
  show "jobs_inv (job_rejected s now task p d)"
    using inv put(1) by (simp add: job_rejected_def latest_job_of_task split: option.split)
  show "u \<noteq> T_ID task \<Longrightarrow> map_option CJ_Status (job_of_task (job_rejected s now task p d) u) =
      map_option CJ_Status (job_of_task d u)"
    using inv put(2) by (auto simp: job_rejected_def latest_job_of_task split: option.split)
  show "T_CustomizationRequired task \<Longrightarrow> W_customizationJobRepo s \<Longrightarrow>
      map_option CJ_Status (job_of_task (job_rejected s now task p d) (T_ID task)) =
      map_option (\<lambda>_. CustomizationJobStatusRejectedByWarehouse) (job_of_task d (T_ID task))"
    using inv put(2) by (cases "job_of_task d (T_ID task)") (auto simp: job_rejected_def latest_job_of_task id)
qed

definition jobs_after :: "warehouse_call \<Rightarrow> vdb \<Rightarrow> vdb \<Rightarrow> bool" where
  "jobs_after call d d' \<longleftrightarrow> jobs_inv d' \<and>
     (\<forall>u. map_option T_CustomizationRequired (v_task d u) = Some True \<longrightarrow>
        map_option CJ_Status (job_of_task d' u) =
          (if u = call_task_id call \<and> call_target call = TaskStatusRejectedByWarehouse
           then map_option (\<lambda>_. CustomizationJobStatusRejectedByWarehouse) (job_of_task d u)
           else map_option CJ_Status (job_of_task d u)))"

lemma jobs_after_same:
  assumes "jobs_inv d1" and "same_flow d d1" and "call_target call \<noteq> TaskStatusRejectedByWarehouse"
    and "customization_jobs d' = customization_jobs d1" "next_job d' = next_job d1"
  shows "jobs_after call d d'"
  using assms jobs_cong [OF assms(4)] jobs_inv_cong [OF assms(4,5)] same_flow_jobs [OF assms(2)] by (simp add: jobs_after_def)

lemma spec_jobs:
  assumes spec: "warehouse_spec s now c call d d1 d'" and same: "same_flow d d1" and ready: "flow_ready d"
    and repo: "W_customizationJobRepo s"
  shows "jobs_after call d d'"
proof -
  have inv: "jobs_inv d1" using ready same by (simp add: flow_ready_def same_flow_def jobs_inv_def)
  show ?thesis
  proof (cases call)
    case (WarehouseReceive p)
    with spec show ?thesis
      by (intro jobs_after_same [OF inv same]) (auto simp: warehouse_spec_def received_def call_target_def Let_def)
  next
    case (WarehouseComplete p)
    with spec show ?thesis
      by (intro jobs_after_same [OF inv same]) (auto simp: warehouse_spec_def closed_out_def call_target_def Let_def)
  next
    case (WarehouseReject p)
    then obtain t0 where row: "v_task d (WJ_TaskID p) = Some t0"
      and d': "d' = sent_back s now p (last_operator s d (WJ_TaskID p) (warehouse_seen s c t0)) (receipt_of_task d (WJ_TaskID p)) d1"
      using spec by (auto simp: warehouse_spec_def)
    let ?task = "last_operator s d (WJ_TaskID p) (warehouse_seen s c t0)"
    have id: "T_ID t0 = WJ_TaskID p" using v_task_ID [OF row] .
    define d2 where "d2 = set_customization_state now (T_ID ?task) (T_LastCustomizationOperatorID ?task) (WJ_RejectReason p)
      (TrimSpace (WJ_RejectCategory p)) (advanced now ?task (resolveWarehouseRejectTaskState ?task)
        (put_receipt now (receipt_of_task d (WJ_TaskID p)) (rejected_receipt s now p (receipt_of_task d (WJ_TaskID p))) d1))"
    have jobs: "customization_jobs d' = customization_jobs (job_rejected s now ?task p d2)"
        "next_job d' = next_job (job_rejected s now ?task p d2)"
      and d2: "customization_jobs d2 = customization_jobs d1" "next_job d2 = next_job d1"
      by (simp_all only: d' sent_back_def Let_def d2_def frame_warehouse frame_jobs)
    have inv2: "jobs_inv d2" using inv jobs_inv_cong [OF d2] by simp
    note at = job_rejected_at [OF inv2, where s = s and now = now and task = ?task and p = p]
    have "job_of_task d2 u = job_of_task d u" for u using jobs_cong [OF d2(1)] same_flow_jobs [OF same] by simp
    then show ?thesis
      using at row repo jobs_cong [OF jobs(1)] jobs_inv_cong [OF jobs] WarehouseReject
      by (auto simp: jobs_after_def call_task_id_def call_target_def id)
  qed
qed

lemma warehouse_moves:
  assumes spec: "warehouse_spec s now c call d d1 d'" and same: "same_flow d d1" and ready: "flow_ready d"
    and actor: "resolveTaskActionActor c \<noteq> None" and repo: "W_customizationJobRepo s"
  shows "flow_moves d d'"
proof -
  let ?t = "call_task_id call"
  have inv: "receipts_inv d" using ready by (simp add: flow_ready_def release_ready_def tables_ok_def)
  have refined: "receipt_refined True d ?t d'"
    using spec_refined [OF spec inv same_flow_lives [OF same]] actor by simp
  note target = spec_target [OF spec same] and left = spec_left [OF spec actor]
  note frame = spec_frame [OF spec same ready] and jobs = spec_jobs [OF spec same ready repo]
  have ready': "flow_ready d'"
    using refined frame jobs
    by (simp add: flow_ready_def release_ready_def tables_ok_def receipt_refined_def call_frame_def jobs_after_def)
  have "receipt_life_of d' ?t \<noteq> receipt_life_of d ?t"
    using target left unfolding receipt_life_of_def prod.inject by metis
  then have step: "receipt_step True (receipt_life_of d ?t) (receipt_life_of d' ?t)"
    using refined by (simp add: receipt_refined_def)
  have "flow_of d' u = flow_of d u \<or> flow_step (flow_of d u) (flow_of d' u)"
    if "map_option T_CustomizationRequired (v_task d u) = Some True" for u
  proof (cases "u = ?t")
    case True
    have "flow_step (flow_of d ?t) (flow_of d' ?t)"
      unfolding flow_of_life
      by (rule by_warehouse) (use step that True jobs target in \<open>auto simp: jobs_after_def receipt_life_of_def option.map_comp comp_def\<close>)
    then show ?thesis using True by simp
  next
    case False
    then show ?thesis using that refined jobs by (simp add: flow_of_life receipt_refined_def jobs_after_def)
  qed
  then show ?thesis using ready' frame by (simp add: flow_moves_def call_frame_def)
qed

lemma run_warehouse_moves:
  assumes "flow_ready (wdb w)" and "filing_elsewhere s" and "resolveTaskActionActor c \<noteq> None" and "W_customizationJobRepo s"
  shows "flow_moves (wdb w) (wdb (snd (run_warehouse s now c call w)))"
proof -
  obtain d1 where d1: "filed s call (wdb w) d1" and cases: "wdb (snd (run_warehouse s now c call w)) = d1 \<or>
      warehouse_spec s now c call (wdb w) d1 (wdb (snd (run_warehouse s now c call w)))"
    using warehouse_any [of s now c call w] unfolding warehouse_outcome_def by blast
  note same = filed_flow [OF d1 assms(2)]
  from cases show ?thesis using warehouse_moves [OF _ same assms(1,3,4)] same_flow_moves [OF same assms(1)] by auto
qed

subsection \<open>A release is a step\<close>

lemma release_moves:
  assumes "release_outcome d t r d'" and "flow_ready d"
  shows "flow_moves d d'"
proof -
  have all: "release_ready d' \<and> same_jobs d d' \<and> (\<forall>u. u \<noteq> t \<longrightarrow> receipt_life_of d' u = receipt_life_of d u) \<and>
      (if r = Inr True then release_step (receipt_life_of d t) (receipt_life_of d' t)
       else receipt_life_of d' t = receipt_life_of d t)"
    by (rule outcome_lives [OF assms(1)]) (use assms(2) in \<open>simp add: flow_ready_def\<close>)
  have jobs: "customization_jobs d' = customization_jobs d" "next_job d' = next_job d" using all by (simp_all add: same_jobs_def)
  have "flow_of d' u = flow_of d u \<or> flow_step (flow_of d u) (flow_of d' u)" for u
    using all by (cases "u = t") (auto simp: flow_of_life jobs_cong [OF jobs(1)] intro!: by_release split: if_splits)
  then show ?thesis
    using all assms(2) jobs_inv_cong [OF jobs] by (simp add: flow_moves_def flow_ready_def same_jobs_def)
qed

subsection \<open>Calls of the three, one after the other\<close>

text \<open>
  A call of the customization service or of the warehouse by a known actor, or the release job at one task.
  A step is a whole call, its readings and its transaction together: the services check rows they read
  before the transaction and do not check again inside, see \<open>receive_after_reject\<close> below.
\<close>

inductive production_step :: "customizationService \<Rightarrow> warehouseService \<Rightarrow> WarehouseAutoReleaseJob \<Rightarrow> vdb \<Rightarrow> vdb \<Rightarrow> bool"
  for z s j where
  customizes: "wdb w = d \<Longrightarrow> resolveTaskActionActor c \<noteq> None \<Longrightarrow>
    production_step z s j d (wdb (snd (run_customization z now c call w)))"
| handles: "wdb w = d \<Longrightarrow> resolveTaskActionActor c \<noteq> None \<Longrightarrow>
    production_step z s j d (wdb (snd (run_warehouse s now c call w)))"
| releases: "a_workflow (wdb v) = d \<Longrightarrow>
    production_step z s j d (a_workflow (wdb (snd (releaseOne j now t sys v))))"

definition well_wired :: "customizationService \<Rightarrow> warehouseService \<Rightarrow> WarehouseAutoReleaseJob \<Rightarrow> bool" where
  "well_wired z s j \<longleftrightarrow> quiet_pool z \<and> filing_elsewhere s \<and> W_customizationJobRepo s \<and> quiet_notices j \<and> syncs_elsewhere j"

lemma production_moves:
  assumes "production_step z s j d d'" and "well_wired z s j" and "flow_ready d"
  shows "flow_moves d d'"
  using assms(1)
proof cases
  case (customizes w c now call)
  then show ?thesis using run_customization_moves [of w z c] assms(2,3) by (simp add: well_wired_def)
next
  case (handles w c now call)
  then show ?thesis using run_warehouse_moves [of w s c] assms(2,3) by (simp add: well_wired_def)
next
  case (releases v now t sys)
  have "release_outcome d t (fst (releaseOne j now t sys v)) d'"
    using releaseOne_any [of v j t now sys] releases assms(2,3) by (simp add: well_wired_def flow_ready_def)
  then show ?thesis using release_moves assms(3) by blast
qed

definition customized_in_flow :: "vdb \<Rightarrow> id \<Rightarrow> bool" where
  "customized_in_flow d t \<longleftrightarrow> flow_ready d \<and> map_option T_CustomizationRequired (v_task d t) = Some True \<and> in_flow (flow_of d t)"

lemma moves_in_flow: "flow_moves d d' \<Longrightarrow> customized_in_flow d t \<Longrightarrow> customized_in_flow d' t"
  unfolding flow_moves_def customized_in_flow_def using flow_closed by metis

text \<open>
  Two calls at once are another matter. A receive that read the task and its receipt before a rejection of
  the same task committed, and whose transaction comes after it, leaves the task's job rejected and the task
  past the warehouse.
\<close>

lemma receive_after_reject:
  assumes rejected: "warehouse_spec s now c (WarehouseReject q) d d d1" and ready: "flow_ready d"
    and repo: "W_customizationJobRepo s" and task: "v_task d (WJ_TaskID q) = Some task" "T_CustomizationRequired task"
    and job: "job_of_task d (WJ_TaskID q) \<noteq> None"
    and received: "WV_TaskID p = WJ_TaskID q" "T_ID seen = WJ_TaskID q" "d2 = received s now' p seen (Some receipt) d1"
  shows "\<exists>r. flow_of d2 (WJ_TaskID q) = (r, Some CustomizationJobStatusRejectedByWarehouse,
      Some TaskStatusPendingProductionTransfer) \<and> \<not> in_flow (flow_of d2 (WJ_TaskID q))"
proof -
  let ?t = "WJ_TaskID q"
  have same: "same_flow d d" by (simp add: same_flow_def)
  have "map_option T_TaskStatus (v_task d1 ?t) = Some TaskStatusRejectedByWarehouse"
    using spec_target [OF rejected same] by (simp add: call_task_id_def call_target_def)
  then obtain t1 where t1: "v_task d1 ?t = Some t1" by auto
  have "map_option CJ_Status (job_of_task d1 ?t) = Some CustomizationJobStatusRejectedByWarehouse"
    using spec_jobs [OF rejected same ready repo] task job
    by (auto simp: jobs_after_def call_task_id_def call_target_def)
  moreover have "customization_jobs d2 = customization_jobs d1" by (simp add: received(3) received_def Let_def)
  ultimately have j: "map_option CJ_Status (job_of_task d2 ?t) = Some CustomizationJobStatusRejectedByWarehouse"
    using jobs_cong [of d2 d1 ?t] by simp
  have ts: "map_option T_TaskStatus (v_task d2 ?t) = Some TaskStatusPendingProductionTransfer"
    using t1 received by (simp add: received_def resolveWarehouseReceiveTaskState_def Let_def)
  show ?thesis unfolding flow_of_def j ts by (auto simp: in_flow_def)
qed

text \<open>
  (C7) A customized task stays on its way: under any sequence of calls of the customization service and the
  warehouse by known actors and releases of the job, in any order, one call ending before the next begins, and
  whatever fails in them, its receipt, its
  customization job and its status are always one of the fitting triples of \<open>in_flow\<close>. So a customized task that waits to be
  closed has a completed receipt, one that is completed has a receipt that is not rejected, in both cases its job was
  handed to the warehouse, and a task the warehouse sent back has its job sent back with it.
\<close>

theorem customized_tasks_in_flow:
  assumes "(production_step z s j)\<^sup>*\<^sup>* d d'" and "well_wired z s j" and "customized_in_flow d t"
  shows "customized_in_flow d' t"
  using assms(1)
proof induction
  case (step d1 d2)
  then have "flow_ready d1" by (simp add: customized_in_flow_def)
  then show ?case using moves_in_flow [OF production_moves [OF step.hyps(2) assms(2)]] step.IH by blast
qed (rule assms(3))

definition flow_vdb :: vdb where
  "flow_vdb = demo_vdb (demo_task\<lparr>T_TaskStatus := TaskStatusPendingCustomizationReview, T_CustomizationRequired := True\<rparr>) []"

abbreviation reviewed_vdb :: vdb where
  "reviewed_vdb \<equiv> wdb (snd (run_customization demo_customization 5 (Some demo_auditor) (CustomizationReview demo_review)
     \<lparr>wdb = flow_vdb, faults = []\<rparr>))"

theorem customized_tasks_in_flow_witness:
  "customized_in_flow (wdb (snd (run_warehouse demo_warehouse 6 (Some demo_auditor)
     (WarehouseReceive \<lparr>WV_TaskID = 1, WV_ReceiverID = 3, WV_Remark = []\<rparr>) \<lparr>wdb = reviewed_vdb, faults = []\<rparr>))) 1"
proof -
  have "production_step demo_customization demo_warehouse demo_job flow_vdb reviewed_vdb"
    using demo_auditor_actor by (intro customizes) simp_all
  moreover have "production_step demo_customization demo_warehouse demo_job reviewed_vdb
      (wdb (snd (run_warehouse demo_warehouse 6 (Some demo_auditor)
        (WarehouseReceive \<lparr>WV_TaskID = 1, WV_ReceiverID = 3, WV_Remark = []\<rparr>) \<lparr>wdb = reviewed_vdb, faults = []\<rparr>)))"
    using demo_auditor_actor by (intro handles) simp_all
  ultimately have steps: "(production_step demo_customization demo_warehouse demo_job)\<^sup>*\<^sup>* flow_vdb
      (wdb (snd (run_warehouse demo_warehouse 6 (Some demo_auditor)
        (WarehouseReceive \<lparr>WV_TaskID = 1, WV_ReceiverID = 3, WV_Remark = []\<rparr>) \<lparr>wdb = reviewed_vdb, faults = []\<rparr>)))"
    by (meson converse_rtranclp_into_rtranclp r_into_rtranclp)
  have "well_wired demo_customization demo_warehouse demo_job"
    using demo_customization_quiet demo_job_ok
    by (simp add: well_wired_def filing_elsewhere_def demo_warehouse_def same_flow_def)
  moreover have "customized_in_flow flow_vdb 1"
    by (simp add: customized_in_flow_def flow_ready_def release_ready_def tables_ok_def receipts_inv_def jobs_inv_def flow_of_def
        flow_vdb_def demo_vdb_def demo_db_def demo_task_def linv_def minv_def v_task_def task_row_def in_flow_def
        receipt_of_task_def job_of_task_def)
  ultimately show ?thesis by (rule customized_tasks_in_flow [OF steps])
qed

end
