(* ===== verification/Task_Assignment.thy ===== *)
theory Task_Assignment
  imports Customization Module_Invariant
begin

section \<open>The assignment of tasks\<close>

text \<open>
  \<^verbatim>\<open>service/task_assignment_service.go\<close>: a task is given to a designer, taken over, given to another one
  or put back, one task at a time or in a batch; the module of the task follows in the same
  transaction. A reminder only leaves an event. The notification of the designer is a parameter. Of
  a decision that is refused the code of the error is kept; what is only logged is left out.
\<close>

subsection \<open>Parameters and results\<close>

record AssignTaskParams =
  AT_TaskID :: id
  AT_DesignerID :: "id option"
  AT_AssignedBy :: id
  AT_Remark :: string
  AT_BatchRequestID :: string

record BatchAssignTasksParams =
  BA_TaskIDs :: "id list"
  BA_DesignerID :: id
  BA_AssignedBy :: id
  BA_Remark :: string
  BA_BatchRequestID :: string

record BatchRemindTasksParams =
  BR_TaskIDs :: "id list"
  BR_ActorID :: id
  BR_Reason :: string
  BR_RemindChannel :: string
  BR_BatchRequestID :: string

record BatchTaskActionItemResult =
  BI_TaskID :: id
  BI_Success :: bool
  BI_ErrorCode :: "ErrCode option"

record BatchTaskActionResult =
  BX_BatchRequestID :: string
  BX_Total :: int
  BX_Succeeded :: int
  BX_Failed :: int
  BX_Items :: "BatchTaskActionItemResult list"

text \<open>
  \<open>TN_pendingAssignmentCASUpdater\<close>: the task repository offers \<^verbatim>\<open>ClaimPendingAssignment\<close>, as the one of
  \<^verbatim>\<open>repo/mysql\<close> does. \<open>TN_fmtTime\<close> is how a time is written into a payload.
\<close>

record taskAssignmentService =
  TN_catalog :: taskOrgCatalog
  TN_dataScopeResolver :: bool
  TN_scopeUserRepo :: bool
  TN_taskModuleRepo :: bool
  TN_taskModuleEventRepo :: bool
  TN_pendingAssignmentCASUpdater :: bool
  TN_notifications :: "(id \<Rightarrow> jsonobj \<Rightarrow> unit vact) option"
  TN_fmtTime :: "time \<Rightarrow> string"
  TN_uuid :: uuid_source

record taskAssignmentOperation =
  OP_Action :: TaskAction
  OP_EventType :: string
  OP_LogAction :: string
  OP_ResultingStatus :: TaskStatus

abbreviation "TaskEventAssigned \<equiv> ''task.assigned''"
abbreviation "TaskEventReassigned \<equiv> ''task.reassigned''"
abbreviation "TaskEventReminded \<equiv> ''task.reminded''"
abbreviation "ModuleEventReassigned \<equiv> ''reassigned''"
abbreviation "ModuleEventPoolReassignedByAdmin \<equiv> ''pool_reassigned_by_admin''"
abbreviation "UserStatusActive \<equiv> ''active''"

definition errPendingAssignmentClaimConflict :: db_error where
  "errPendingAssignmentClaimConflict = errText ''pending assignment claim conflict''"

fun TaskType_RequiresDesign :: "TaskType \<Rightarrow> bool" where
  "TaskType_RequiresDesign TaskTypeOriginalProductDevelopment = True"
| "TaskType_RequiresDesign TaskTypeNewProductDevelopment = True"
| "TaskType_RequiresDesign TaskTypeRetouchTask = True"
| "TaskType_RequiresDesign _ = False"

subsection \<open>Which operation, and which module\<close>

definition isCustomizationAssignmentTask :: "Task \<Rightarrow> bool" where
  "isCustomizationAssignmentTask task \<longleftrightarrow> Task_WorkflowLane task = WorkflowLaneCustomization"

definition isCustomizationProductionAssignmentTask :: "Task \<Rightarrow> bool" where
  "isCustomizationProductionAssignmentTask task \<longleftrightarrow> isCustomizationAssignmentTask task \<and>
     T_TaskStatus task = TaskStatusPendingCustomizationProduction"

definition resolveTaskAssignmentOperation :: "Task \<Rightarrow> taskAssignmentOperation" where
  "resolveTaskAssignmentOperation task =
     (if isCustomizationProductionAssignmentTask task
        then \<lparr>OP_Action = TaskActionAssign, OP_EventType = TaskEventAssigned, OP_LogAction = ''assign'',
              OP_ResultingStatus = TaskStatusPendingCustomizationProduction\<rparr>
      else if T_TaskStatus task = TaskStatusPendingAssign
        then \<lparr>OP_Action = TaskActionAssign, OP_EventType = TaskEventAssigned, OP_LogAction = ''assign'',
              OP_ResultingStatus = TaskStatusInProgress\<rparr>
      else \<lparr>OP_Action = TaskActionReassign, OP_EventType = TaskEventReassigned, OP_LogAction = ''reassign'',
            OP_ResultingStatus = TaskStatusInProgress\<rparr>)"

definition assignmentModuleKey :: "Task \<Rightarrow> string" where
  "assignmentModuleKey task =
     (if isCustomizationAssignmentTask task then ModuleKeyCustomization
      else if T_TaskType task = TaskTypeRetouchTask then ModuleKeyRetouch else ModuleKeyDesign)"

definition assignmentDefaultPoolTeam :: "Task \<Rightarrow> string" where
  "assignmentDefaultPoolTeam task =
     (if isCustomizationAssignmentTask task then TeamCustomizationArt
      else if T_TaskType task = TaskTypeRetouchTask then TeamDesignRetouch else TeamDesignStandard)"

definition assignmentModuleEventType :: "id option \<Rightarrow> string" where
  "assignmentModuleEventType previousDesignerID = (case previousDesignerID of
       Some i \<Rightarrow> if i > 0 then ModuleEventReassigned else ModuleEventClaimed
     | None \<Rightarrow> ModuleEventClaimed)"

definition assignmentActorSnapshot :: "id \<Rightarrow> jsonobj" where
  "assignmentActorSnapshot actorID = [(''actor_id'', JNum actorID)]"

subsection \<open>Users\<close>

definition assignment_users :: "taskAssignmentService \<Rightarrow> vdb user_repo" where
  "assignment_users s = (if TN_scopeUserRepo s then Some (userRepo_GetByID v_users) else None)"

text \<open>
  \<^verbatim>\<open>userRepo.ListRoles\<close>; only membership is asked of the result, so the order of the rows is left as it
  is. \<^verbatim>\<open>userRepo.GetByID\<close> does not load the roles of a user: the service always lists them.
\<close>

definition roles_of :: "vdb \<Rightarrow> id \<Rightarrow> string list" where
  "roles_of d userID = NormalizeRoles (map snd (filter (\<lambda>(u, _). u = userID) (v_user_roles d)))"

definition ListRoles :: "id \<Rightarrow> string list vact" where
  "ListRoles userID = query (\<lambda>d. roles_of d userID)"

definition loadTaskAssignmentTarget :: "taskAssignmentService \<Rightarrow> id \<Rightarrow> User vop" where
  "loadTaskAssignmentTarget s designerID =
     (if \<not> TN_scopeUserRepo s then throw ErrCodeInternalError
      else bnd (infra_v (userRepo_GetByID v_users designerID)) (\<lambda>r. case r of
        None \<Rightarrow> throw ErrCodeNotFound | Some target \<Rightarrow> ret target))"

definition assignee_role :: "Task \<Rightarrow> string" where
  "assignee_role task = (if isCustomizationAssignmentTask task then RoleCustomizationOperator else RoleDesigner)"

definition validateAssignableDesignerTarget :: "taskAssignmentService \<Rightarrow> Task \<Rightarrow> id \<Rightarrow> unit vop" where
  "validateAssignableDesignerTarget s task designerID =
     (if \<not> TN_scopeUserRepo s then ret ()
      else bnd (loadTaskAssignmentTarget s designerID) (\<lambda>target.
           bnd (check (U_Status target = UserStatusActive) ErrCodeInvalidRequest) (\<lambda>_.
           bnd (infra_v (ListRoles designerID)) (\<lambda>roles.
           check (hasRoleValue roles (assignee_role task)) ErrCodeInvalidRequest))))"

subsection \<open>Managed departments and teams\<close>

definition managed_departments :: "RequestActor \<Rightarrow> string list" where
  "managed_departments actor =
     (let own = normalizeTaskDepartmentCodes (RA_ManagedDepartments actor)
      in if own = [] then normalizeTaskDepartmentCodes (FA_ManagedDepartments (RA_FrontendAccess actor)) else own)"

definition normalizeTaskAssignmentTeamCodes :: "string list \<Rightarrow> string list" where
  "normalizeTaskAssignmentTeamCodes values = fold (\<lambda>value out.
     let trimmed = TrimSpace value
     in if trimmed = [] then out else if list_ex (EqualFold trimmed) out then out else out @ [trimmed]) values []"

definition managed_teams :: "RequestActor \<Rightarrow> string list" where
  "managed_teams actor =
     (let access = RA_FrontendAccess actor;
          own = normalizeTaskAssignmentTeamCodes (RA_ManagedTeams actor);
          shown = normalizeTaskAssignmentTeamCodes (FA_ManagedTeams access)
      in if own \<noteq> [] then own else if shown \<noteq> [] then shown
         else normalizeTaskAssignmentTeamCodes [RA_Team actor, FA_Team access])"

definition taskAssignmentRequiresManagedTargetScope :: "RequestActor \<Rightarrow> Task \<Rightarrow> TaskActionDecision \<Rightarrow> bool" where
  "taskAssignmentRequiresManagedTargetScope actor task decision =
     (let roles = RA_Roles actor; source = D_ScopeSource decision
      in if hasAnyRoleValue roles [RoleOps, RoleAdmin, RoleSuperAdmin, RoleRoleAdmin, RoleHRAdmin] then False
         else if RA_ID actor > 0 \<and> (T_CreatorID task = RA_ID actor \<or> T_RequesterID task = Some (RA_ID actor)) then False
         else if source \<in> set [scope_string TaskActionScopeCreator, scope_string TaskActionScopeRequester,
                               scope_string TaskActionScopeViewAll] then False
         else if source \<in> set [scope_string TaskActionScopeManagedDepartment, scope_string TaskActionScopeManagedTeam]
           then True
         else if source = scope_string TaskActionScopeDepartment
           then hasAnyRoleValue roles [RoleDeptAdmin, RoleDesignDirector]
         else if source = scope_string TaskActionScopeTeam then hasRoleValue roles RoleTeamLead
         else EqualFold (TrimSpace (D_MatchedRule decision)) ''design_manager_target_scope'')"

definition needs_managed_target :: "RequestActor option \<Rightarrow> Task \<Rightarrow> TaskActionDecision \<Rightarrow> RequestActor option" where
  "needs_managed_target ctxActor task decision = (case ctxActor of
       None \<Rightarrow> None
     | Some actor \<Rightarrow>
        if hasAnyRoleValue (RA_Roles actor) [RoleDeptAdmin, RoleDesignDirector] \<and>
           taskAssignmentRequiresManagedTargetScope actor task decision then Some actor else None)"

definition validateManagedDepartmentTarget ::
  "taskAssignmentService \<Rightarrow> RequestActor option \<Rightarrow> Task \<Rightarrow> TaskActionDecision \<Rightarrow> id \<Rightarrow> unit vop" where
  "validateManagedDepartmentTarget s ctxActor task decision designerID =
     (case needs_managed_target ctxActor task decision of
        None \<Rightarrow> ret ()
      | Some actor \<Rightarrow>
          if managed_departments actor = [] then throw ErrCodePermissionDenied
          else bnd (loadTaskAssignmentTarget s designerID) (\<lambda>target.
            check (normalizeTaskDepartmentCode (U_Department target) \<in> set (managed_departments actor))
              ErrCodePermissionDenied))"

definition validateDesignManagerTargetScope ::
  "taskAssignmentService \<Rightarrow> RequestActor \<Rightarrow> id \<Rightarrow> TaskActionScopeSource vop" where
  "validateDesignManagerTargetScope s actor designerID =
     (if hasAnyRoleValue (RA_Roles actor) [RoleDeptAdmin, RoleDesignDirector] then
        if managed_departments actor = [] then throw ErrCodePermissionDenied
        else bnd (loadTaskAssignmentTarget s designerID) (\<lambda>target.
          if list_ex (\<lambda>m. EqualFold m (normalizeTaskDepartmentCode (U_Department target))) (managed_departments actor)
          then ret TaskActionScopeManagedDepartment else throw ErrCodePermissionDenied)
      else if hasRoleValue (RA_Roles actor) RoleTeamLead then
        if managed_teams actor = [] then throw ErrCodePermissionDenied
        else bnd (loadTaskAssignmentTarget s designerID) (\<lambda>target.
          if list_ex (\<lambda>m. EqualFold m (TrimSpace (U_Team target))) (managed_teams actor)
          then ret TaskActionScopeManagedTeam else throw ErrCodePermissionDenied)
      else throw ErrCodePermissionDenied)"

subsection \<open>The decision\<close>

definition taskAssignmentScopeDenyCanUseTargetOverride :: "string \<Rightarrow> bool" where
  "taskAssignmentScopeDenyCanUseTargetOverride denyCode \<longleftrightarrow> TrimSpace denyCode \<in>
     set [''task_out_of_department_scope'', ''task_out_of_team_scope'', ''task_out_of_scope'', ''task_not_assigned_to_actor'']"

text \<open>Whether a refused manager may still assign, if the target is one of their own; and the manager.\<close>

definition override_candidate ::
  "taskAssignmentService \<Rightarrow> RequestActor option \<Rightarrow> Task \<Rightarrow> taskAssignmentOperation \<Rightarrow> TaskActionDecision \<Rightarrow>
   RequestActor option" where
  "override_candidate s ctxActor task op decision =
     (if OP_Action op \<noteq> TaskActionAssign \<and> OP_Action op \<noteq> TaskActionReassign then None
      else if OP_Action op = TaskActionAssign \<and> T_TaskStatus task \<noteq> TaskStatusPendingAssign \<and>
              \<not> isCustomizationProductionAssignmentTask task then None
      else if OP_Action op = TaskActionReassign \<and> T_TaskStatus task \<noteq> TaskStatusInProgress then None
      else if \<not> taskAssignmentScopeDenyCanUseTargetOverride (D_DenyCode decision) then None
      else if \<not> TN_scopeUserRepo s then None
      else case ctxActor of
          None \<Rightarrow> None
        | Some actor \<Rightarrow> if hasAnyRoleValue (RA_Roles actor) [RoleDeptAdmin, RoleDesignDirector, RoleTeamLead]
                        then Some actor else None)"

definition overridden :: "TaskActionScopeSource \<Rightarrow> TaskActionDecision \<Rightarrow> TaskActionDecision" where
  "overridden source decision = decision\<lparr>D_Allowed := True, D_DenyCode := [], D_ScopeSource := scope_string source,
     D_MatchedRule := ''design_manager_target_scope''\<rparr>"

definition allowDesignManagerAssignmentByTargetScope ::
  "taskAssignmentService \<Rightarrow> RequestActor option \<Rightarrow> Task \<Rightarrow> AssignTaskParams \<Rightarrow> taskAssignmentOperation \<Rightarrow>
   TaskActionDecision \<Rightarrow> TaskActionDecision option vop" where
  "allowDesignManagerAssignmentByTargetScope s ctxActor task p op decision =
     (case AT_DesignerID p of
        None \<Rightarrow> ret None
      | Some designerID \<Rightarrow> (case override_candidate s ctxActor task op decision of
            None \<Rightarrow> ret None
          | Some actor \<Rightarrow> bnd (validateDesignManagerTargetScope s actor designerID)
              (\<lambda>source. ret (Some (overridden source decision)))))"

definition assignment_actor :: "RequestActor option \<Rightarrow> AssignTaskParams \<Rightarrow> id" where
  "assignment_actor ctxActor p = (case ctxActor of
       Some actor \<Rightarrow> if RA_ID actor > 0 then RA_ID actor else AT_AssignedBy p | None \<Rightarrow> AT_AssignedBy p)"

definition isTaskAssignmentSelfClaim :: "RequestActor option \<Rightarrow> Task \<Rightarrow> AssignTaskParams \<Rightarrow> bool \<times> id" where
  "isTaskAssignmentSelfClaim ctxActor task p =
     (let actorID = assignment_actor ctxActor p
      in (T_TaskStatus task = TaskStatusPendingAssign \<and> actorID > 0 \<and> AT_DesignerID p = Some actorID \<and>
          T_DesignerID task = None \<and> T_CurrentHandlerID task = None \<and>
          (case ctxActor of
             None \<Rightarrow> True
           | Some actor \<Rightarrow> hasAnyRoleValue (RA_Roles actor) [RoleDesigner, RoleOps, RoleCustomizationOperator,
               RoleOutsource, RoleTeamLead, RoleDeptAdmin, RoleDesignDirector, RoleAdmin, RoleSuperAdmin]), actorID))"

definition held_by_other :: "id option \<Rightarrow> id \<Rightarrow> bool" where
  "held_by_other holder actorID \<longleftrightarrow> (case holder of None \<Rightarrow> False | Some h \<Rightarrow> h > 0 \<and> h \<noteq> actorID)"

definition taskAlreadyClaimedByOther :: "Task \<Rightarrow> id \<Rightarrow> bool" where
  "taskAlreadyClaimedByOther task actorID \<longleftrightarrow> actorID > 0 \<and>
     (held_by_other (T_CurrentHandlerID task) actorID \<or> held_by_other (T_DesignerID task) actorID)"

definition isActorTakingTaskAlreadyClaimedByOther ::
  "RequestActor option \<Rightarrow> Task \<Rightarrow> AssignTaskParams \<Rightarrow> id \<Rightarrow> taskAssignmentOperation \<Rightarrow> bool" where
  "isActorTakingTaskAlreadyClaimedByOther ctxActor task p actorID op \<longleftrightarrow>
     AT_DesignerID p = Some actorID \<and> actorID > 0 \<and>
     \<not> (OP_Action op = TaskActionReassign \<and>
        (case resolveTaskActionActor ctxActor of None \<Rightarrow> False | Some a \<Rightarrow> taskActionActorHasManagementScopeRole a)) \<and>
     taskAlreadyClaimedByOther task actorID"

definition taskAssignmentAllowsInProgressReassign ::
  "RequestActor option \<Rightarrow> Task \<Rightarrow> taskAssignmentOperation \<Rightarrow> TaskActionDecision \<Rightarrow> bool" where
  "taskAssignmentAllowsInProgressReassign ctxActor task op decision =
     (if OP_Action op \<noteq> TaskActionReassign then taskActionDecisionHasElevatedScope decision
      else taskActionDecisionHasElevatedScope decision \<or>
        (case resolveTaskActionActor ctxActor of None \<Rightarrow> False | Some a \<Rightarrow> taskActionActorIsCreatorOrRequester a task))"

subsection \<open>The gates of an assignment\<close>

definition claimed_decision :: "id \<Rightarrow> TaskActionDecision \<Rightarrow> TaskActionDecision" where
  "claimed_decision actorID decision = decision\<lparr>D_Allowed := True, D_DenyCode := [], D_ActorID := actorID,
     D_MatchedRule := ''pending_assign_self_claim''\<rparr>"

definition assignment_decision ::
  "taskAssignmentService \<Rightarrow> RequestActor option \<Rightarrow> AssignTaskParams \<Rightarrow> Task \<Rightarrow> TaskActionDecision vop" where
  "assignment_decision s ctxActor p task =
     bnd (EvaluateTaskActionPolicy (TN_catalog s) (TN_dataScopeResolver s) (assignment_users s) ctxActor
            (OP_Action (resolveTaskAssignmentOperation task)) (Some task) [] []) (\<lambda>decision.
       ret (case isTaskAssignmentSelfClaim ctxActor task p of (selfClaim, actorID) \<Rightarrow>
              if selfClaim then claimed_decision actorID decision else decision))"

text \<open>As elsewhere, the authoriser rewrites the ownership of the task it is given.\<close>

definition assignment_seen :: "taskAssignmentService \<Rightarrow> RequestActor option \<Rightarrow> Task \<Rightarrow> Task" where
  "assignment_seen s ctxActor task = (if resolveTaskActionActor ctxActor = None then task
     else applyTaskReadModelOrgOwnership (TN_catalog s) task)"

definition purchase_refused :: "Task \<Rightarrow> bool" where
  "purchase_refused task \<longleftrightarrow> T_TaskType task = TaskTypePurchaseTask \<and>
     T_TaskStatus task \<in> set [TaskStatusPendingAssign, TaskStatusInProgress]"

text \<open>The part of \<^verbatim>\<open>Assign\<close> that does not depend on the new designer: the task as it goes on, and the decision.\<close>

definition assign_gates ::
  "taskAssignmentService \<Rightarrow> RequestActor option \<Rightarrow> AssignTaskParams \<Rightarrow> (Task \<times> TaskActionDecision) vop" where
  "assign_gates s ctxActor p =
     bnd (check (case AT_DesignerID p of Some i \<Rightarrow> i > 0 | None \<Rightarrow> True) ErrCodeInvalidRequest) (\<lambda>_.
     bnd (getTask (AT_TaskID p)) (\<lambda>task0.
     bnd (assignment_decision s ctxActor p task0) (\<lambda>decision0.
     let task = assignment_seen s ctxActor task0; op = resolveTaskAssignmentOperation task in
     bnd (check (\<not> isActorTakingTaskAlreadyClaimedByOther ctxActor task p (assignment_actor ctxActor p) op)
            ErrCodePermissionDenied) (\<lambda>_.
     bnd (if D_Allowed decision0 then ret decision0
          else bnd (allowDesignManagerAssignmentByTargetScope s ctxActor task p op decision0) (\<lambda>r. case r of
            None \<Rightarrow> throw ErrCodePermissionDenied | Some decision \<Rightarrow> ret decision)) (\<lambda>decision.
     bnd (check (T_TaskStatus task = TaskStatusPendingAssign \<or> isCustomizationProductionAssignmentTask task \<or>
                 taskAssignmentAllowsInProgressReassign ctxActor task op decision) ErrCodePermissionDenied) (\<lambda>_.
     bnd (check (\<not> purchase_refused task) ErrCodeInvalidStateTransition) (\<lambda>_.
     ret (task, decision))))))))"

subsection \<open>The module of the task\<close>

definition taskRepo_UpdateDesigner :: "time \<Rightarrow> id \<Rightarrow> id option \<Rightarrow> unit vact" where
  "taskRepo_UpdateDesigner now i designerID = within v_modules put_modules (UpdateDesigner now i designerID)"

definition taskRepo_ClaimPendingAssignment :: "time \<Rightarrow> id \<Rightarrow> id \<Rightarrow> TaskStatus \<Rightarrow> bool vact" where
  "taskRepo_ClaimPendingAssignment now i designerID resultingStatus =
     within v_modules put_modules (ClaimPendingAssignment now i designerID resultingStatus)"

text \<open>The module is read on another connection: \<open>snap\<close> is what the transaction found.\<close>

definition has_assignment_module :: "taskAssignmentService \<Rightarrow> Task \<Rightarrow> bool" where
  "has_assignment_module s task \<longleftrightarrow> TN_taskModuleRepo s \<and>
     (isCustomizationAssignmentTask task \<or> TaskType_RequiresDesign (T_TaskType task))"

definition open_module :: "TaskModule option \<Rightarrow> TaskModule option" where
  "open_module r = (case r of None \<Rightarrow> None | Some m \<Rightarrow> if Terminal (TM_State m) then None else Some m)"

definition assignment_module ::
  "taskAssignmentService \<Rightarrow> mdb \<Rightarrow> id \<Rightarrow> Task \<Rightarrow> TaskModule option vact" where
  "assignment_module s snap taskID task = (if has_assignment_module s task
     then bnd (within v_modules put_modules (GetByTaskAndKey_outside snap taskID (assignmentModuleKey task)))
            (\<lambda>r. ret (open_module r))
     else ret None)"

definition module_team :: "TaskModule \<Rightarrow> string" where
  "module_team m =
     (let team = (\<lambda>code. case code of None \<Rightarrow> [] | Some c \<Rightarrow> TrimSpace c)
      in if team (TM_ClaimedTeamCode m) \<noteq> [] then team (TM_ClaimedTeamCode m)
         else if team (TM_PoolTeamCode m) \<noteq> [] then team (TM_PoolTeamCode m) else TeamDesignStandard)"

definition resolveAssignedDesignerTeam :: "taskAssignmentService \<Rightarrow> id \<Rightarrow> TaskModule \<Rightarrow> string vact" where
  "resolveAssignedDesignerTeam s designerID m =
     (if TN_scopeUserRepo s \<and> designerID > 0
      then attempt (userRepo_GetByID v_users designerID) (\<lambda>_. ret (module_team m)) (\<lambda>r. case r of
          Some u \<Rightarrow> ret (if TrimSpace (U_Team u) \<noteq> [] then TrimSpace (U_Team u) else module_team m)
        | None \<Rightarrow> ret (module_team m))
      else ret (module_team m))"

definition assigned_event :: "AssignTaskParams \<Rightarrow> id \<Rightarrow> id option \<Rightarrow> TaskModule \<Rightarrow> TaskModuleEvent" where
  "assigned_event p designerID previousDesignerID m =
     mevent (TM_ID m) (assignmentModuleEventType previousDesignerID) (Some (TM_State m)) (Some ModuleStateInProgress)
       (Some (AT_AssignedBy p)) (assignmentActorSnapshot (AT_AssignedBy p))
       (JObj [(''designer_id'', JNum designerID), (''previous_designer_id'', jopt previousDesignerID),
          (''assigned_by'', JNum (AT_AssignedBy p)), (''source'', JText ''task_assign''),
          (''remark'', JText (TrimSpace (AT_Remark p)))])"

definition log_module_event :: "taskAssignmentService \<Rightarrow> time \<Rightarrow> TaskModuleEvent \<Rightarrow> unit vact" where
  "log_module_event s now ev = (if TN_taskModuleEventRepo s
     then bnd (within v_modules put_modules (EventInsert now ev)) (\<lambda>_. ret ()) else ret ())"

definition syncAssignmentModule ::
  "taskAssignmentService \<Rightarrow> time \<Rightarrow> mdb \<Rightarrow> Task \<Rightarrow> AssignTaskParams \<Rightarrow> id \<Rightarrow> unit vact" where
  "syncAssignmentModule s now snap task p designerID =
     (if designerID \<le> 0 then ret ()
      else bnd (assignment_module s snap (AT_TaskID p) task) (\<lambda>r. case r of
        None \<Rightarrow> ret ()
      | Some m \<Rightarrow>
          bnd (resolveAssignedDesignerTeam s designerID m) (\<lambda>claimedTeam.
          bnd (within v_modules put_modules (Reassign now (AT_TaskID p) (assignmentModuleKey task) designerID claimedTeam
                 (assignmentActorSnapshot (AT_AssignedBy p)))) (\<lambda>_.
          log_module_event s now (assigned_event p designerID (T_DesignerID task) m)))))"

definition module_pool_team :: "Task \<Rightarrow> TaskModule \<Rightarrow> string" where
  "module_pool_team task m =
     (let pool = (case TM_PoolTeamCode m of None \<Rightarrow> [] | Some c \<Rightarrow> TrimSpace c)
      in if pool = [] then assignmentDefaultPoolTeam task else pool)"

definition unassigned_event :: "AssignTaskParams \<Rightarrow> Task \<Rightarrow> TaskModule \<Rightarrow> TaskModuleEvent" where
  "unassigned_event p task m =
     mevent (TM_ID m) ModuleEventPoolReassignedByAdmin (Some (TM_State m)) (Some ModuleStatePendingClaim)
       (Some (AT_AssignedBy p)) (assignmentActorSnapshot (AT_AssignedBy p))
       (JObj [(''previous_designer_id'', jopt (T_DesignerID task)), (''assigned_by'', JNum (AT_AssignedBy p)),
          (''source'', JText ''task_unassign''), (''pool_team_code'', JText (module_pool_team task m)),
          (''remark'', JText (TrimSpace (AT_Remark p)))])"

definition syncAssignmentModuleUnassignment ::
  "taskAssignmentService \<Rightarrow> time \<Rightarrow> mdb \<Rightarrow> Task \<Rightarrow> AssignTaskParams \<Rightarrow> unit vact" where
  "syncAssignmentModuleUnassignment s now snap task p =
     bnd (assignment_module s snap (AT_TaskID p) task) (\<lambda>r. case r of
       None \<Rightarrow> ret ()
     | Some m \<Rightarrow>
         bnd (within v_modules put_modules (PoolReassign now (AT_TaskID p) (assignmentModuleKey task)
                (module_pool_team task m))) (\<lambda>_.
         log_module_event s now (unassigned_event p task m)))"

subsection \<open>Assigning\<close>

definition unassigned_pending :: "Task \<Rightarrow> bool" where
  "unassigned_pending task \<longleftrightarrow> T_TaskStatus task = TaskStatusPendingAssign \<and> T_DesignerID task = None \<and>
     T_CurrentHandlerID task = None"

definition write_assignment ::
  "taskAssignmentService \<Rightarrow> time \<Rightarrow> id \<Rightarrow> Task \<Rightarrow> TaskStatus \<Rightarrow> id \<Rightarrow> unit vact" where
  "write_assignment s now taskID task resultingStatus designerID =
     (if unassigned_pending task \<and> TN_pendingAssignmentCASUpdater s
      then bnd (taskRepo_ClaimPendingAssignment now taskID designerID resultingStatus) (\<lambda>claimed.
             if claimed then ret () else throw errPendingAssignmentClaimConflict)
      else bnd (taskRepo_UpdateDesigner now taskID (Some designerID)) (\<lambda>_.
           bnd (taskRepo_UpdateHandler now taskID (Some designerID)) (\<lambda>_.
           if resultingStatus \<noteq> T_TaskStatus task then taskRepo_UpdateStatus now taskID resultingStatus else ret ())))"

definition assignment_extra ::
  "AssignTaskParams \<Rightarrow> taskAssignmentOperation \<Rightarrow> Task \<Rightarrow> id option \<Rightarrow> jsonobj" where
  "assignment_extra p op task designer =
     [(''action'', JText (OP_LogAction op)), (''designer_id'', jopt designer), (''assigned_by'', JNum (AT_AssignedBy p)),
      (''remark'', JText (AT_Remark p)), (''batch_request_id'', JText (TrimSpace (AT_BatchRequestID p))),
      (''previous_designer_id'', jopt (T_DesignerID task)), (''previous_handler_id'', jopt (T_CurrentHandlerID task))] @
     (if OP_Action op = TaskActionReassign then [(''reassigned_by'', JNum (AT_AssignedBy p))] else [])"

definition assignment_payload ::
  "AssignTaskParams \<Rightarrow> taskAssignmentOperation \<Rightarrow> Task \<Rightarrow> TaskStatus \<Rightarrow> id option \<Rightarrow> jsonobj" where
  "assignment_payload p op task toStatus designer =
     taskTransitionEventPayload task (T_TaskStatus task) toStatus (T_CurrentHandlerID task) designer
       (assignment_extra p op task designer)"

definition assignment_event ::
  "taskAssignmentService \<Rightarrow> time \<Rightarrow> AssignTaskParams \<Rightarrow> taskAssignmentOperation \<Rightarrow> Task \<Rightarrow> TaskStatus \<Rightarrow> id option \<Rightarrow>
   unit vact" where
  "assignment_event s now p op task toStatus designer =
     bnd (taskEventRepo_Append (TN_uuid s) now (AT_TaskID p) (OP_EventType op) (Some (AT_AssignedBy p))
            (assignment_payload p op task toStatus designer)) (\<lambda>_. ret ())"

definition assignment_notice ::
  "AssignTaskParams \<Rightarrow> taskAssignmentOperation \<Rightarrow> Task \<Rightarrow> id \<Rightarrow> id \<Rightarrow> jsonobj" where
  "assignment_notice p op task actorID designerID =
     [(''task_id'', JNum (AT_TaskID p)), (''task_no'', JText (T_TaskNo task)),
      (''task_type'', JText (tt_string (T_TaskType task))), (''module_key'', JText ''task''),
      (''action'', JText (OP_LogAction op)), (''assigned_by'', JNum actorID), (''designer_id'', JNum designerID),
      (''previous_designer_id'', jopt (T_DesignerID task)), (''previous_handler_id'', jopt (T_CurrentHandlerID task)),
      (''remark'', JText (TrimSpace (AT_Remark p))), (''batch_request_id'', JText (TrimSpace (AT_BatchRequestID p)))]"

definition createAssignmentNotification ::
  "taskAssignmentService \<Rightarrow> Task \<Rightarrow> AssignTaskParams \<Rightarrow> taskAssignmentOperation \<Rightarrow> id \<Rightarrow> id \<Rightarrow> unit vact" where
  "createAssignmentNotification s task p op actorID designerID = (case TN_notifications s of
       None \<Rightarrow> ret ()
     | Some notify \<Rightarrow> if designerID \<le> 0 \<or> designerID = actorID then ret ()
         else ignore_err (notify designerID (assignment_notice p op task actorID designerID)))"

definition assign_tx ::
  "taskAssignmentService \<Rightarrow> time \<Rightarrow> Task \<Rightarrow> AssignTaskParams \<Rightarrow> id \<Rightarrow> id \<Rightarrow> mdb \<Rightarrow> unit vact" where
  "assign_tx s now task p actorID designerID snap =
     (let op = resolveTaskAssignmentOperation task
      in bnd (write_assignment s now (AT_TaskID p) task (OP_ResultingStatus op) designerID) (\<lambda>_.
         bnd (assignment_event s now p op task (OP_ResultingStatus op) (Some designerID)) (\<lambda>_.
         bnd (syncAssignmentModule s now snap task p designerID) (\<lambda>_.
         createAssignmentNotification s task p op actorID designerID))))"

text \<open>A transaction together with the database its other connections see.\<close>

definition run_on_snapshot :: "(mdb \<Rightarrow> 'a vact) \<Rightarrow> 'a vact" where
  "run_on_snapshot m w = RunInTx (m (v_modules (wdb w))) w"

definition assign_error :: "db_error \<Rightarrow> ErrCode" where
  "assign_error e = (if e = errPendingAssignmentClaimConflict then ErrCodePermissionDenied else infraError e)"

definition reread_assigned :: "id \<Rightarrow> Task vop" where
  "reread_assigned taskID = bnd (infra_v (taskRepo_GetByID taskID)) (\<lambda>r. case r of
       None \<Rightarrow> throw ErrCodeInternalError | Some updated \<Rightarrow> ret updated)"

definition already_assigned :: "Task \<Rightarrow> id \<Rightarrow> bool" where
  "already_assigned task designerID \<longleftrightarrow> T_TaskStatus task = TaskStatusInProgress \<and>
     T_DesignerID task = Some designerID \<and> T_CurrentHandlerID task = Some designerID"

definition assign_to ::
  "taskAssignmentService \<Rightarrow> time \<Rightarrow> RequestActor option \<Rightarrow> AssignTaskParams \<Rightarrow> Task \<Rightarrow> TaskActionDecision \<Rightarrow> id \<Rightarrow>
   Task vop" where
  "assign_to s now ctxActor p task decision designerID =
     bnd (validateAssignableDesignerTarget s task designerID) (\<lambda>_.
     bnd (validateManagedDepartmentTarget s ctxActor task decision designerID) (\<lambda>_.
     if already_assigned task designerID then ret task
     else bnd (map_err assign_error (run_on_snapshot
            (assign_tx s now task p (assignment_actor ctxActor p) designerID))) (\<lambda>_.
          reread_assigned (AT_TaskID p))))"

subsection \<open>Putting a task back\<close>

definition cleared_status :: "Task \<Rightarrow> TaskStatus" where
  "cleared_status task = (if T_TaskStatus task = TaskStatusInProgress then TaskStatusPendingAssign else T_TaskStatus task)"

definition clear_tx :: "taskAssignmentService \<Rightarrow> time \<Rightarrow> Task \<Rightarrow> AssignTaskParams \<Rightarrow> mdb \<Rightarrow> unit vact" where
  "clear_tx s now task p snap =
     bnd (taskRepo_UpdateDesigner now (AT_TaskID p) None) (\<lambda>_.
     bnd (taskRepo_UpdateHandler now (AT_TaskID p) None) (\<lambda>_.
     bnd (if cleared_status task \<noteq> T_TaskStatus task
          then taskRepo_UpdateStatus now (AT_TaskID p) (cleared_status task) else ret ()) (\<lambda>_.
     bnd (assignment_event s now p (resolveTaskAssignmentOperation task) task (cleared_status task) None) (\<lambda>_.
     syncAssignmentModuleUnassignment s now snap task p))))"

definition clearAssignment ::
  "taskAssignmentService \<Rightarrow> time \<Rightarrow> Task \<Rightarrow> AssignTaskParams \<Rightarrow> Task vop" where
  "clearAssignment s now task p =
     (if unassigned_pending task then ret task
      else bnd (infra_v (run_on_snapshot (clear_tx s now task p))) (\<lambda>_. reread_assigned (AT_TaskID p)))"

definition Assign ::
  "taskAssignmentService \<Rightarrow> time \<Rightarrow> RequestActor option \<Rightarrow> AssignTaskParams \<Rightarrow> Task vop" where
  "Assign s now ctxActor p =
     bnd (assign_gates s ctxActor p) (\<lambda>(task, decision). case AT_DesignerID p of
       None \<Rightarrow> clearAssignment s now task p
     | Some designerID \<Rightarrow> assign_to s now ctxActor p task decision designerID)"

subsection \<open>Batches\<close>

definition normalizeBatchTaskIDs :: "id list \<Rightarrow> id list" where
  "normalizeBatchTaskIDs taskIDs =
     fold (\<lambda>taskID out. if taskID \<le> 0 \<or> taskID \<in> set out then out else out @ [taskID]) taskIDs []"

definition batch_start :: "string \<Rightarrow> id list \<Rightarrow> BatchTaskActionResult" where
  "batch_start batchRequestID taskIDs = \<lparr>BX_BatchRequestID = batchRequestID, BX_Total = int (length taskIDs),
     BX_Succeeded = 0, BX_Failed = 0, BX_Items = []\<rparr>"

definition add_item :: "id \<Rightarrow> ErrCode option \<Rightarrow> BatchTaskActionResult \<Rightarrow> BatchTaskActionResult" where
  "add_item taskID e result = (if e = None then result\<lparr>BX_Succeeded := BX_Succeeded result + 1\<rparr>
       else result\<lparr>BX_Failed := BX_Failed result + 1\<rparr>)
     \<lparr>BX_Items := BX_Items result @ [\<lparr>BI_TaskID = taskID, BI_Success = (e = None), BI_ErrorCode = e\<rparr>]\<rparr>"

definition batch_item_params :: "BatchAssignTasksParams \<Rightarrow> id \<Rightarrow> AssignTaskParams" where
  "batch_item_params p taskID = \<lparr>AT_TaskID = taskID, AT_DesignerID = Some (BA_DesignerID p),
     AT_AssignedBy = BA_AssignedBy p, AT_Remark = BA_Remark p, AT_BatchRequestID = TrimSpace (BA_BatchRequestID p)\<rparr>"

definition error_of :: "'e + 'a \<Rightarrow> 'e option" where
  "error_of r = (case r of Inl e \<Rightarrow> Some e | Inr _ \<Rightarrow> None)"

fun assign_each ::
  "taskAssignmentService \<Rightarrow> time \<Rightarrow> RequestActor option \<Rightarrow> BatchAssignTasksParams \<Rightarrow> id list \<Rightarrow>
   BatchTaskActionResult \<Rightarrow> vdb world \<Rightarrow> BatchTaskActionResult \<times> vdb world" where
  "assign_each s now ctxActor p [] result w = (result, w)"
| "assign_each s now ctxActor p (taskID # ids) result w =
     (case Assign s now ctxActor (batch_item_params p taskID) w of
        (r, w1) \<Rightarrow> assign_each s now ctxActor p ids (add_item taskID (error_of r) result) w1)"

definition BatchAssign ::
  "taskAssignmentService \<Rightarrow> time \<Rightarrow> RequestActor option \<Rightarrow> BatchAssignTasksParams \<Rightarrow> BatchTaskActionResult vop" where
  "BatchAssign s now ctxActor p =
     (let taskIDs = normalizeBatchTaskIDs (BA_TaskIDs p)
      in if taskIDs = [] then throw ErrCodeInvalidRequest
         else (\<lambda>w. case assign_each s now ctxActor p taskIDs
                 (batch_start (TrimSpace (BA_BatchRequestID p)) taskIDs) w of (result, w') \<Rightarrow> (Inr result, w')))"

definition remind_channel :: "BatchRemindTasksParams \<Rightarrow> string" where
  "remind_channel p = (if TrimSpace (BR_RemindChannel p) = [] then ''in_app'' else TrimSpace (BR_RemindChannel p))"

definition remind_payload ::
  "taskAssignmentService \<Rightarrow> time \<Rightarrow> BatchRemindTasksParams \<Rightarrow> Task \<Rightarrow> id \<Rightarrow> jsonobj" where
  "remind_payload s now p task taskID =
     [(''actor_id'', JNum (BR_ActorID p)), (''task_id'', JNum taskID), (''target_user_id'', jopt (T_CurrentHandlerID task)),
      (''reason'', JText (TrimSpace (BR_Reason p))), (''event_type'', JText TaskEventReminded),
      (''remind_channel'', JText (remind_channel p)), (''batch_request_id'', JText (TrimSpace (BR_BatchRequestID p))),
      (''created_at'', JText (TN_fmtTime s now))]"

definition remind_one ::
  "taskAssignmentService \<Rightarrow> time \<Rightarrow> BatchRemindTasksParams \<Rightarrow> id \<Rightarrow> unit vop" where
  "remind_one s now p taskID =
     bnd (map_err (\<lambda>_. ErrCodeInternalError) (taskRepo_GetByID taskID)) (\<lambda>r. case r of
       None \<Rightarrow> throw ErrCodeNotFound
     | Some task \<Rightarrow> map_err (\<lambda>_. ErrCodeInternalError) (RunInTx
         (bnd (taskEventRepo_Append (TN_uuid s) now taskID TaskEventReminded (Some (BR_ActorID p))
                 (remind_payload s now p task taskID)) (\<lambda>_. ret ()))))"

fun remind_each ::
  "taskAssignmentService \<Rightarrow> time \<Rightarrow> BatchRemindTasksParams \<Rightarrow> id list \<Rightarrow> BatchTaskActionResult \<Rightarrow> vdb world \<Rightarrow>
   BatchTaskActionResult \<times> vdb world" where
  "remind_each s now p [] result w = (result, w)"
| "remind_each s now p (taskID # ids) result w =
     (case remind_one s now p taskID w of
        (r, w1) \<Rightarrow> remind_each s now p ids (add_item taskID (error_of r) result) w1)"

definition BatchRemind ::
  "taskAssignmentService \<Rightarrow> time \<Rightarrow> BatchRemindTasksParams \<Rightarrow> BatchTaskActionResult vop" where
  "BatchRemind s now p =
     (let taskIDs = normalizeBatchTaskIDs (BR_TaskIDs p)
      in if taskIDs = [] \<or> TrimSpace (BR_Reason p) = [] then throw ErrCodeInvalidRequest
         else (\<lambda>w. case remind_each s now p taskIDs
                 (batch_start (TrimSpace (BR_BatchRequestID p)) taskIDs) w of (result, w') \<Rightarrow> (Inr result, w')))"

subsection \<open>What the transactions write\<close>

definition set_designer :: "time \<Rightarrow> id \<Rightarrow> id option \<Rightarrow> vdb \<Rightarrow> vdb" where
  "set_designer now i designerID d =
     d\<lparr>v_modules := upd_task now i (\<lambda>t. t\<lparr>T_DesignerID := designerID\<rparr>) (v_modules d)\<rparr>"

definition claim_rows :: "time \<Rightarrow> id \<Rightarrow> id \<Rightarrow> TaskStatus \<Rightarrow> vdb \<Rightarrow> vdb" where
  "claim_rows now i designerID st d = d\<lparr>v_modules := (v_modules d)\<lparr>tasks :=
     row_upd (\<lambda>t. T_ID t = i \<and> unassigned_pending t) (\<lambda>t. t\<lparr>T_DesignerID := Some designerID,
       T_CurrentHandlerID := Some designerID, T_TaskStatus := st, T_UpdatedAt := now\<rparr>) (tasks (v_modules d))\<rparr>\<rparr>"

definition unassigned_rows :: "id \<Rightarrow> vdb \<Rightarrow> nat" where
  "unassigned_rows i d = length (filter (\<lambda>t. T_ID t = i \<and> unassigned_pending t) (tasks (v_modules d)))"

definition row_status_moved :: "time \<Rightarrow> id \<Rightarrow> Task \<Rightarrow> TaskStatus \<Rightarrow> vdb \<Rightarrow> vdb" where
  "row_status_moved now i task st d = (if st \<noteq> T_TaskStatus task then set_task_status now i st d else d)"

definition by_claim :: "taskAssignmentService \<Rightarrow> Task \<Rightarrow> bool" where
  "by_claim s task \<longleftrightarrow> unassigned_pending task \<and> TN_pendingAssignmentCASUpdater s"

definition assign_rows :: "taskAssignmentService \<Rightarrow> time \<Rightarrow> id \<Rightarrow> Task \<Rightarrow> TaskStatus \<Rightarrow> id \<Rightarrow> vdb \<Rightarrow> vdb" where
  "assign_rows s now i task st x d = (if by_claim s task then claim_rows now i x st d
     else row_status_moved now i task st (set_task_handler now i (Some x) (set_designer now i (Some x) d)))"

definition assignment_logged ::
  "taskAssignmentService \<Rightarrow> time \<Rightarrow> AssignTaskParams \<Rightarrow> Task \<Rightarrow> TaskStatus \<Rightarrow> id option \<Rightarrow> vdb \<Rightarrow> vdb" where
  "assignment_logged s now p task st designer =
     (let op = resolveTaskAssignmentOperation task
      in add_event (TN_uuid s) now (AT_TaskID p) (OP_EventType op) (Some (AT_AssignedBy p))
           (assignment_payload p op task st designer))"

definition synced_module :: "taskAssignmentService \<Rightarrow> id \<Rightarrow> Task \<Rightarrow> mdb \<Rightarrow> TaskModule option" where
  "synced_module s taskID task m = (if has_assignment_module s task
     then open_module (module_row m taskID (assignmentModuleKey task)) else None)"

text \<open>The update of the modules and, where there is a log of module events, its entry.\<close>

definition module_moved :: "taskAssignmentService \<Rightarrow> time \<Rightarrow> TaskModuleEvent \<Rightarrow> (mdb \<Rightarrow> mdb) \<Rightarrow> vdb \<Rightarrow> vdb" where
  "module_moved s now ev f d = d\<lparr>v_modules :=
     (if TN_taskModuleEventRepo s then insert_event now ev (f (v_modules d)) else f (v_modules d))\<rparr>"

definition reassigned_rows :: "time \<Rightarrow> id \<Rightarrow> string \<Rightarrow> id \<Rightarrow> string \<Rightarrow> jsonobj \<Rightarrow> mdb \<Rightarrow> mdb" where
  "reassigned_rows now taskID key actorID team snapshot d = d\<lparr>task_modules :=
     row_upd (\<lambda>m. same_module taskID key m \<and> TM_State m \<in> set [ModuleStatePendingClaim, ModuleStateInProgress])
       (\<lambda>m. m\<lparr>TM_State := ModuleStateInProgress, TM_ClaimedBy := Some actorID, TM_ClaimedTeamCode := Some team,
          TM_ClaimedAt := Some now, TM_ActorOrgSnapshot := Some snapshot, TM_UpdatedAt := now\<rparr>) (task_modules d)\<rparr>"

definition pooled_rows :: "time \<Rightarrow> id \<Rightarrow> string \<Rightarrow> string \<Rightarrow> mdb \<Rightarrow> mdb" where
  "pooled_rows now taskID key pool d = d\<lparr>task_modules := row_upd (same_module taskID key)
     (\<lambda>m. m\<lparr>TM_State := ModuleStatePendingClaim, TM_PoolTeamCode := Some pool, TM_ClaimedBy := None,
        TM_ClaimedTeamCode := None, TM_ClaimedAt := None, TM_ActorOrgSnapshot := None, TM_UpdatedAt := now\<rparr>)
     (task_modules d)\<rparr>"

definition module_assigned ::
  "taskAssignmentService \<Rightarrow> time \<Rightarrow> Task \<Rightarrow> AssignTaskParams \<Rightarrow> id \<Rightarrow> mdb \<Rightarrow> string \<Rightarrow> vdb \<Rightarrow> vdb" where
  "module_assigned s now task p x snap team d = (case synced_module s (AT_TaskID p) task snap of
       None \<Rightarrow> d
     | Some m \<Rightarrow> module_moved s now (assigned_event p x (T_DesignerID task) m)
         (reassigned_rows now (AT_TaskID p) (assignmentModuleKey task) x team (assignmentActorSnapshot (AT_AssignedBy p))) d)"

definition module_unassigned ::
  "taskAssignmentService \<Rightarrow> time \<Rightarrow> Task \<Rightarrow> AssignTaskParams \<Rightarrow> mdb \<Rightarrow> vdb \<Rightarrow> vdb" where
  "module_unassigned s now task p snap d = (case synced_module s (AT_TaskID p) task snap of
       None \<Rightarrow> d
     | Some m \<Rightarrow> module_moved s now (unassigned_event p task m)
         (pooled_rows now (AT_TaskID p) (assignmentModuleKey task) (module_pool_team task m)) d)"

definition assigned ::
  "taskAssignmentService \<Rightarrow> time \<Rightarrow> Task \<Rightarrow> AssignTaskParams \<Rightarrow> id \<Rightarrow> mdb \<Rightarrow> string \<Rightarrow> vdb \<Rightarrow> vdb" where
  "assigned s now task p x snap team d =
     (let st = OP_ResultingStatus (resolveTaskAssignmentOperation task)
      in module_assigned s now task p x snap team (assignment_logged s now p task st (Some x)
           (assign_rows s now (AT_TaskID p) task st x d)))"

definition cleared :: "taskAssignmentService \<Rightarrow> time \<Rightarrow> Task \<Rightarrow> AssignTaskParams \<Rightarrow> mdb \<Rightarrow> vdb \<Rightarrow> vdb" where
  "cleared s now task p snap d =
     module_unassigned s now task p snap (assignment_logged s now p task (cleared_status task) None
       (row_status_moved now (AT_TaskID p) task (cleared_status task)
         (set_task_handler now (AT_TaskID p) None (set_designer now (AT_TaskID p) None d))))"

lemma UpdateDesigner_effect [effects]:
  "taskRepo_UpdateDesigner now i x w = (Inr u, w') \<Longrightarrow> wdb w' = set_designer now i x (wdb w)"
  by (auto simp: taskRepo_UpdateDesigner_def within_success UpdateDesigner_def set_designer_def put_modules_def
      dest!: task_update_effect)

lemma Claim_effect [effects]:
  assumes "taskRepo_ClaimPendingAssignment now i x st w = (Inr c, w')"
  shows "wdb w' = claim_rows now i x st (wdb w) \<and> (c \<longleftrightarrow> unassigned_rows i (wdb w) = 1)"
  using assms
  by (auto simp: taskRepo_ClaimPendingAssignment_def within_success ClaimPendingAssignment_def Let_def act_success
      reindexTaskSearchDocument_def claim_rows_def put_modules_def unassigned_rows_def unassigned_pending_def
      split: if_splits dest!: stmt_success query_success)

lemma moved_effect [effects]:
  "(if st \<noteq> T_TaskStatus task then taskRepo_UpdateStatus now i st else ret ()) w = (Inr u, w') \<Longrightarrow>
   wdb w' = row_status_moved now i task st (wdb w)"
  by (auto simp: row_status_moved_def split: if_splits dest!: effects)

lemma write_assignment_effect [effects]:
  assumes "write_assignment s now i task st x w = (Inr u, w')"
  shows "wdb w' = assign_rows s now i task st x (wdb w) \<and> (by_claim s task \<longrightarrow> unassigned_rows i (wdb w) = 1)"
proof (cases "by_claim s task")
  case True
  then show ?thesis using assms
    by (auto simp: write_assignment_def by_claim_def assign_rows_def act_success split: if_splits dest!: Claim_effect)
next
  case False
  then have "write_assignment s now i task st x = bnd (taskRepo_UpdateDesigner now i (Some x)) (\<lambda>_.
     bnd (taskRepo_UpdateHandler now i (Some x)) (\<lambda>_.
     if st \<noteq> T_TaskStatus task then taskRepo_UpdateStatus now i st else ret ()))"
    by (auto simp: write_assignment_def by_claim_def)
  then show ?thesis using assms False
    by (auto simp: assign_rows_def bnd_eq_Inr simp del: if_split dest!: effects)
qed

lemma assignment_event_effect [effects]:
  "assignment_event s now p (resolveTaskAssignmentOperation task) task st x w = (Inr u, w') \<Longrightarrow>
   wdb w' = assignment_logged s now p task st x (wdb w)"
  by (auto simp: assignment_event_def assignment_logged_def Let_def act_success dest!: effects)

lemma assignment_module_effect [effects]:
  assumes "assignment_module s snap i task w = (Inr r, w')"
  shows "r = synced_module s i task snap \<and> wdb w' = wdb w"
  using assms by (auto simp: assignment_module_def synced_module_def act_success GetByTaskAndKey_outside_def put_modules_def
      split: if_splits dest!: query_success)

lemma designer_team_effect [effects]:
  "resolveAssignedDesignerTeam s x m w = (Inr team, w') \<Longrightarrow> wdb w' = wdb w"
  using readsD [OF reads_users [of v_users x], of w]
  by (auto simp: resolveAssignedDesignerTeam_def attempt_def split: if_splits prod.splits sum.splits option.splits)

lemma module_step_effect:
  assumes "bnd (within v_modules put_modules (exec f)) (\<lambda>_. log_module_event s now ev) w = (Inr u, w')"
  shows "wdb w' = module_moved s now ev f (wdb w)"
  using assms
  by (auto simp: act_success log_module_event_def module_moved_def EventInsert_def put_modules_def
      split: if_splits dest!: exec_success stmt_success)

lemma sync_effect [effects]:
  assumes "syncAssignmentModule s now snap task p x w = (Inr u, w')" and "x > 0"
  shows "\<exists>team. wdb w' = module_assigned s now task p x snap team (wdb w)"
proof -
  obtain r w1 where r: "assignment_module s snap (AT_TaskID p) task w = (Inr r, w1)"
    and k: "(case r of None \<Rightarrow> ret ()
      | Some m \<Rightarrow> bnd (resolveAssignedDesignerTeam s x m) (\<lambda>claimedTeam.
          bnd (within v_modules put_modules (Reassign now (AT_TaskID p) (assignmentModuleKey task) x claimedTeam
                 (assignmentActorSnapshot (AT_AssignedBy p)))) (\<lambda>_.
          log_module_event s now (assigned_event p x (T_DesignerID task) m)))) w1 = (Inr u, w')"
    using assms by (auto simp add: syncAssignmentModule_def bnd_eq_Inr [where m = "assignment_module _ _ _ _"])
  note r' = assignment_module_effect [OF r]
  show ?thesis
  proof (cases r)
    case None
    then show ?thesis using k r' by (auto simp: module_assigned_def)
  next
    case (Some m)
    then obtain team w2 where t: "resolveAssignedDesignerTeam s x m w1 = (Inr team, w2)"
      and step: "bnd (within v_modules put_modules (Reassign now (AT_TaskID p) (assignmentModuleKey task) x team
                 (assignmentActorSnapshot (AT_AssignedBy p)))) (\<lambda>_.
          log_module_event s now (assigned_event p x (T_DesignerID task) m)) w2 = (Inr u, w')"
      using k by (auto simp only: option.case bnd_eq_Inr [where m = "resolveAssignedDesignerTeam s x m"])
    have "synced_module s (AT_TaskID p) task snap = Some m" using r' Some by simp
    then have "wdb w' = module_assigned s now task p x snap team (wdb w)"
      using module_step_effect [OF step [unfolded Reassign_def]] designer_team_effect [OF t] r'
      by (simp add: module_assigned_def reassigned_rows_def [abs_def])
    then show ?thesis by blast
  qed
qed

lemma unsync_effect [effects]:
  assumes "syncAssignmentModuleUnassignment s now snap task p w = (Inr u, w')"
  shows "wdb w' = module_unassigned s now task p snap (wdb w)"
proof -
  obtain r w1 where r: "assignment_module s snap (AT_TaskID p) task w = (Inr r, w1)"
    and k: "(case r of None \<Rightarrow> ret ()
      | Some m \<Rightarrow> bnd (within v_modules put_modules (PoolReassign now (AT_TaskID p) (assignmentModuleKey task)
                (module_pool_team task m))) (\<lambda>_. log_module_event s now (unassigned_event p task m))) w1 = (Inr u, w')"
    using assms unfolding syncAssignmentModuleUnassignment_def bnd_eq_Inr by auto
  then show ?thesis
    using assignment_module_effect [OF r] module_step_effect [of _ s now _ w1 u w']
    by (auto simp: module_unassigned_def PoolReassign_def pooled_rows_def [abs_def] split: option.splits)
qed

text \<open>The notification writes tables of its own.\<close>

definition quiet_assignment_notices :: "taskAssignmentService \<Rightarrow> bool" where
  "quiet_assignment_notices s \<longleftrightarrow> (case TN_notifications s of None \<Rightarrow> True | Some notify \<Rightarrow> \<forall>i payload. reads (notify i payload))"

lemma notice_effect: "quiet_assignment_notices s \<Longrightarrow> wdb (snd (createAssignmentNotification s task p op a x w)) = wdb w"
  by (simp add: quiet_assignment_notices_def createAssignmentNotification_def ignore_err_def reads_def split: option.splits)

lemma assign_tx_effect:
  assumes "assign_tx s now task p a x snap w = (Inr u, w')" and "quiet_assignment_notices s" and "x > 0"
  shows "(\<exists>team. wdb w' = assigned s now task p x snap team (wdb w)) \<and>
    (by_claim s task \<longrightarrow> unassigned_rows (AT_TaskID p) (wdb w) = 1)"
proof -
  let ?op = "resolveTaskAssignmentOperation task"
  obtain w1 w2 w3 where wr: "write_assignment s now (AT_TaskID p) task (OP_ResultingStatus ?op) x w = (Inr (), w1)"
    and ev: "assignment_event s now p ?op task (OP_ResultingStatus ?op) (Some x) w1 = (Inr (), w2)"
    and sy: "syncAssignmentModule s now snap task p x w2 = (Inr (), w3)"
    and nt: "createAssignmentNotification s task p ?op a x w3 = (Inr u, w')"
    using assms(1) unfolding assign_tx_def Let_def bnd_eq_Inr by auto
  have "wdb w' = wdb w3" using notice_effect [OF assms(2), of task p ?op a x w3] nt by simp
  then show ?thesis
    using write_assignment_effect [OF wr] assignment_event_effect [OF ev] sync_effect [OF sy assms(3)]
    by (auto simp: assigned_def Let_def)
qed

lemma clear_tx_effect:
  assumes "clear_tx s now task p snap w = (Inr u, w')"
  shows "wdb w' = cleared s now task p snap (wdb w)"
  using assms unfolding clear_tx_def
  by (auto simp: cleared_def bnd_eq_Inr simp del: if_split dest!: effects)

subsection \<open>Who may assign\<close>

text \<open>The target, as the service checks it when it knows the users.\<close>

definition assignable :: "taskAssignmentService \<Rightarrow> Task \<Rightarrow> vdb \<Rightarrow> id \<Rightarrow> bool" where
  "assignable s task d x \<longleftrightarrow> \<not> TN_scopeUserRepo s \<or> (\<exists>u. user_row d x = Some u \<and> U_Status u = UserStatusActive \<and>
     hasRoleValue (roles_of d x) (assignee_role task))"

text \<open>A manager may override a refusal for the people of their departments or teams.\<close>

definition manages_target :: "vdb \<Rightarrow> RequestActor \<Rightarrow> id \<Rightarrow> bool" where
  "manages_target d actor x \<longleftrightarrow> (\<exists>u. user_row d x = Some u \<and>
     (if hasAnyRoleValue (RA_Roles actor) [RoleDeptAdmin, RoleDesignDirector]
      then list_ex (\<lambda>m. EqualFold m (normalizeTaskDepartmentCode (U_Department u))) (managed_departments actor)
      else hasRoleValue (RA_Roles actor) RoleTeamLead \<and>
           list_ex (\<lambda>m. EqualFold m (TrimSpace (U_Team u))) (managed_teams actor)))"

text \<open>The roles and the status the rule of the assignment asks for, and the first of its scopes the actor can use.\<close>

definition rule_open :: "taskActionActor \<Rightarrow> Task \<Rightarrow> bool" where
  "rule_open actor task \<longleftrightarrow> (let rule = taskActionRuleFor (OP_Action (resolveTaskAssignmentOperation task))
     in ActorHasAnyRole (AA_Roles actor) (AR_RequiredRoles rule) \<and>
        (AR_AllowedStatuses rule = [] \<or> T_TaskStatus task \<in> set (AR_AllowedStatuses rule)))"

definition granted_scope :: "taskOrgCatalog \<Rightarrow> RequestActor option \<Rightarrow> Task \<Rightarrow> TaskActionScopeSource option" where
  "granted_scope catalog ctxActor task = (case resolveTaskActionActor ctxActor of
       None \<Rightarrow> None
     | Some actor \<Rightarrow>
         let seen = applyTaskReadModelOrgOwnership catalog task
         in if rule_open actor task
            then List.find (\<lambda>scope. scope_matches actor (Some seen) (T_OwnerDepartment seen) (T_OwnerOrgTeam seen) scope \<and>
                   taskActionActorCanUseScope actor scope)
                   (AR_AllowedScopes (taskActionRuleFor (OP_Action (resolveTaskAssignmentOperation task))))
            else None)"

text \<open>
  Who may assign: somebody who claims the task for themselves, whom the authoriser lets through, or a manager
  with a role of the rule, in a status of the rule, whose own person the designer is.
\<close>

definition may_assign ::
  "taskAssignmentService \<Rightarrow> RequestActor option \<Rightarrow> AssignTaskParams \<Rightarrow> vdb \<Rightarrow> Task \<Rightarrow> bool" where
  "may_assign s ctxActor p d task \<longleftrightarrow> fst (isTaskAssignmentSelfClaim ctxActor task p) \<or>
     may_act (TN_catalog s) ctxActor (OP_Action (resolveTaskAssignmentOperation task)) task \<or>
     (\<exists>actor a x. ctxActor = Some actor \<and> resolveTaskActionActor ctxActor = Some a \<and> rule_open a task \<and>
        AT_DesignerID p = Some x \<and> manages_target d actor x)"

text \<open>
  A department's manager who acts on a department or a team, or by the override, assigns to people of the
  departments they manage only; operations and administrators, and whoever created or requested the task,
  assign to anybody.
\<close>

definition must_manage ::
  "taskAssignmentService \<Rightarrow> RequestActor option \<Rightarrow> AssignTaskParams \<Rightarrow> Task \<Rightarrow> RequestActor \<Rightarrow> bool" where
  "must_manage s ctxActor p task actor \<longleftrightarrow> ctxActor = Some actor \<and>
     hasAnyRoleValue (RA_Roles actor) [RoleDeptAdmin, RoleDesignDirector] \<and>
     \<not> hasAnyRoleValue (RA_Roles actor) [RoleOps, RoleAdmin, RoleSuperAdmin, RoleRoleAdmin, RoleHRAdmin] \<and>
     \<not> (RA_ID actor > 0 \<and> (T_CreatorID task = RA_ID actor \<or> T_RequesterID task = Some (RA_ID actor))) \<and>
     (\<not> fst (isTaskAssignmentSelfClaim ctxActor task p) \<and>
      \<not> may_act (TN_catalog s) ctxActor (OP_Action (resolveTaskAssignmentOperation task)) task \<or>
      (case granted_scope (TN_catalog s) ctxActor task of
         None \<Rightarrow> False
       | Some scope \<Rightarrow> scope \<in> set [TaskActionScopeManagedDepartment, TaskActionScopeManagedTeam, TaskActionScopeDepartment] \<or>
           scope = TaskActionScopeTeam \<and> hasRoleValue (RA_Roles actor) RoleTeamLead))"

definition in_managed_department :: "vdb \<Rightarrow> RequestActor \<Rightarrow> id \<Rightarrow> bool" where
  "in_managed_department d actor x \<longleftrightarrow> (\<exists>u. user_row d x = Some u \<and>
     normalizeTaskDepartmentCode (U_Department u) \<in> set (managed_departments actor))"

text \<open>A task in progress changes hands only by a manager, its creator or its requester.\<close>

definition may_hand_over :: "RequestActor option \<Rightarrow> Task \<Rightarrow> bool" where
  "may_hand_over ctxActor task \<longleftrightarrow> (\<exists>a. resolveTaskActionActor ctxActor = Some a \<and>
     (taskActionActorHasManagementScopeRole a \<or> taskActionActorIsCreatorOrRequester a task))"

definition assignable_status :: "RequestActor option \<Rightarrow> Task \<Rightarrow> bool" where
  "assignable_status ctxActor task \<longleftrightarrow> T_TaskStatus task = TaskStatusPendingAssign \<or>
     isCustomizationProductionAssignmentTask task \<or>
     (T_TaskStatus task = TaskStatusInProgress \<and> may_hand_over ctxActor task)"

definition assignment_open ::
  "taskAssignmentService \<Rightarrow> RequestActor option \<Rightarrow> AssignTaskParams \<Rightarrow> vdb \<Rightarrow> Task \<Rightarrow> bool" where
  "assignment_open s ctxActor p d task \<longleftrightarrow> v_task d (AT_TaskID p) = Some task \<and>
     assignable_status ctxActor task \<and> \<not> purchase_refused task \<and> may_assign s ctxActor p d task \<and>
     \<not> isActorTakingTaskAlreadyClaimedByOther ctxActor task p (assignment_actor ctxActor p)
         (resolveTaskAssignmentOperation task) \<and>
     (\<forall>x. AT_DesignerID p = Some x \<longrightarrow> x > 0 \<and> assignable s task d x \<and>
        (\<forall>actor. must_manage s ctxActor p task actor \<longrightarrow> in_managed_department d actor x))"

lemma assignment_seen_fields [simp]:
  "T_ID (assignment_seen s c t) = T_ID t" "T_TaskStatus (assignment_seen s c t) = T_TaskStatus t"
  "T_TaskType (assignment_seen s c t) = T_TaskType t" "T_DesignerID (assignment_seen s c t) = T_DesignerID t"
  "T_CurrentHandlerID (assignment_seen s c t) = T_CurrentHandlerID t"
  "T_CreatorID (assignment_seen s c t) = T_CreatorID t" "T_RequesterID (assignment_seen s c t) = T_RequesterID t"
  "Task_WorkflowLane (assignment_seen s c t) = Task_WorkflowLane t"
  by (simp_all add: assignment_seen_def)

lemma assignment_seen_views [simp]:
  "isCustomizationAssignmentTask (assignment_seen s c t) = isCustomizationAssignmentTask t"
  "isCustomizationProductionAssignmentTask (assignment_seen s c t) = isCustomizationProductionAssignmentTask t"
  "resolveTaskAssignmentOperation (assignment_seen s c t) = resolveTaskAssignmentOperation t"
  "purchase_refused (assignment_seen s c t) = purchase_refused t"
  "unassigned_pending (assignment_seen s c t) = unassigned_pending t"
  "assignee_role (assignment_seen s c t) = assignee_role t"
  "already_assigned (assignment_seen s c t) x = already_assigned t x"
  "taskActionActorIsCreatorOrRequester a (assignment_seen s c t) = taskActionActorIsCreatorOrRequester a t"
  "isActorTakingTaskAlreadyClaimedByOther ctx (assignment_seen s c t) p i op =
     isActorTakingTaskAlreadyClaimedByOther ctx t p i op"
  by (simp_all add: isCustomizationAssignmentTask_def isCustomizationProductionAssignmentTask_def
      resolveTaskAssignmentOperation_def purchase_refused_def unassigned_pending_def assignee_role_def
      already_assigned_def taskActionActorIsCreatorOrRequester_def isActorTakingTaskAlreadyClaimedByOther_def
      taskAlreadyClaimedByOther_def)

lemma operation_action [simp]:
  "OP_Action (resolveTaskAssignmentOperation t) = (if isCustomizationProductionAssignmentTask t \<or>
     T_TaskStatus t = TaskStatusPendingAssign then TaskActionAssign else TaskActionReassign)"
  by (simp add: resolveTaskAssignmentOperation_def)

lemma operation_status:
  "OP_ResultingStatus (resolveTaskAssignmentOperation t) = (if isCustomizationProductionAssignmentTask t
     then TaskStatusPendingCustomizationProduction else TaskStatusInProgress)"
  by (simp add: resolveTaskAssignmentOperation_def)

lemma operation_plain:
  "OP_Action (resolveTaskAssignmentOperation t) \<notin> set audit_actions"
  "OP_Action (resolveTaskAssignmentOperation t) \<noteq> TaskActionReadDetail"
  by (auto simp: audit_actions_def)

text \<open>The decision the gates start from.\<close>

definition source_string :: "TaskActionScopeSource option \<Rightarrow> string" where
  "source_string scope = (case scope of None \<Rightarrow> [] | Some sc \<Rightarrow> scope_string sc)"

lemma status_refusal:
  "AR_StatusDenyCode (taskActionRuleFor (OP_Action (resolveTaskAssignmentOperation t))) \<in>
     {''task_status_not_actionable'', ''task_not_reassignable''}"
  by (simp add: taskActionRuleFor_def no_rule_def)

lemma evaluated_form:
  assumes "resolveTaskActionActor ctxActor = Some actor" and "resolveTaskAction a (Some task) attrs = (ra, [])"
    and "a \<noteq> TaskActionReadDetail"
    and "EvaluateTaskActionPolicyWithAttributes catalog resolver users ctxActor a (Some task) [] [] attrs w =
      (Inr d0 :: ErrCode + TaskActionDecision, w')"
  shows "d0 = (let rule = taskActionRuleFor ra; seen = applyTaskReadModelOrgOwnership catalog task;
      d = start_decision actor rule ra (Some seen) [] []
    in if \<not> ActorHasAnyRole (AA_Roles actor) (AR_RequiredRoles rule) then deny ''missing_required_role'' d
       else if AR_AllowedStatuses rule \<noteq> [] \<and> T_TaskStatus task \<notin> set (AR_AllowedStatuses rule)
         then deny (authFirstNonEmpty [AR_StatusDenyCode rule, ''task_status_not_actionable'']) d
       else evaluate_write actor rule ra (Some seen) d)"
  using assms resolve_not_read [OF assms(2,3)]
  by (auto simp: EvaluateTaskActionPolicyWithAttributes_def actorHasAllowedTaskActionRole_def read_visibility_only_detail
      taskActionStatusAllowed_def list_ex_iff ret_def Let_def simp del: authFirstNonEmpty.simps split: if_splits)

lemma write_source:
  assumes "D_ScopeSource decision = []"
  shows "D_ScopeSource (evaluate_write actor rule ra task decision) = source_string (List.find (\<lambda>scope.
    scope_matches actor task (D_OwnerDept decision) (D_OwnerOrgTeam decision) scope \<and>
    taskActionActorCanUseScope actor scope) (AR_AllowedScopes rule))"
  using assms
  by (simp add: evaluate_write_def deny_def allow_def source_string_def mem_evaluate Let_def split: option.split)

lemma evaluated_assignment:
  assumes run: "EvaluateTaskActionPolicy catalog resolver users ctxActor (OP_Action (resolveTaskAssignmentOperation task))
      (Some task) [] [] w = (Inr d0 :: ErrCode + TaskActionDecision, w')"
  shows "D_ScopeSource d0 = source_string (granted_scope catalog ctxActor task)"
    and "\<not> D_Allowed d0 \<Longrightarrow> taskAssignmentScopeDenyCanUseTargetOverride (D_DenyCode d0) \<Longrightarrow>
      \<exists>a. resolveTaskActionActor ctxActor = Some a \<and> rule_open a task"
proof -
  let ?a = "OP_Action (resolveTaskAssignmentOperation task)"
  let ?rule = "taskActionRuleFor ?a" and ?t = "applyTaskReadModelOrgOwnership catalog task"
  have "D_ScopeSource d0 = source_string (granted_scope catalog ctxActor task) \<and>
    (\<not> D_Allowed d0 \<and> taskAssignmentScopeDenyCanUseTargetOverride (D_DenyCode d0) \<longrightarrow>
      (\<exists>a. resolveTaskActionActor ctxActor = Some a \<and> rule_open a task))"
  proof (cases "resolveTaskActionActor ctxActor")
    case None
    then show ?thesis using run
      by (auto simp: EvaluateTaskActionPolicyWithAttributes_def ret_def granted_scope_def source_string_def no_decision_def)
  next
    case (Some actor)
    let ?d = "start_decision actor ?rule ?a (Some ?t) [] []"
    have res: "resolveTaskAction ?a (Some task) no_stage = (?a, [])"
      using operation_plain(1) by (simp add: resolveTaskAction_def del: operation_action)
    note d0 = evaluated_form [OF Some res operation_plain(2) run, unfolded Let_def]
    have start: "D_ScopeSource ?d = []" "D_OwnerDept ?d = T_OwnerDepartment ?t" "D_OwnerOrgTeam ?d = T_OwnerOrgTeam ?t"
      by (simp_all add: start_decision_def no_decision_def owner_or_default_def)
    have codes: "\<not> taskAssignmentScopeDenyCanUseTargetOverride ''missing_required_role''"
      "\<not> taskAssignmentScopeDenyCanUseTargetOverride
        (authFirstNonEmpty [AR_StatusDenyCode ?rule, ''task_status_not_actionable''])"
      using status_refusal [of task]
      by (auto simp: taskAssignmentScopeDenyCanUseTargetOverride_def string_eval simp del: operation_action)
    show ?thesis
    proof (cases "rule_open actor task")
      case True
      then have "d0 = evaluate_write actor ?rule ?a (Some ?t) ?d"
        using d0 unfolding rule_open_def Let_def by metis
      then show ?thesis
        using write_source [OF start(1)] True Some start(2,3)
        by (simp add: granted_scope_def Let_def del: operation_action)
    next
      case False
      then have "d0 = deny ''missing_required_role'' ?d \<or>
          d0 = deny (authFirstNonEmpty [AR_StatusDenyCode ?rule, ''task_status_not_actionable'']) ?d"
        using d0 unfolding rule_open_def Let_def by metis
      then show ?thesis
        using codes start(1) Some False
        by (auto simp: deny_def granted_scope_def source_string_def Let_def
            simp del: operation_action authFirstNonEmpty.simps)
    qed
  qed
  then show "D_ScopeSource d0 = source_string (granted_scope catalog ctxActor task)"
    and "\<not> D_Allowed d0 \<Longrightarrow> taskAssignmentScopeDenyCanUseTargetOverride (D_DenyCode d0) \<Longrightarrow>
      \<exists>a. resolveTaskActionActor ctxActor = Some a \<and> rule_open a task"
    by blast+
qed

lemma assignment_decision_gives:
  assumes "gives (assignment_decision s ctxActor p task) d decision"
  shows "D_Allowed decision \<longleftrightarrow> fst (isTaskAssignmentSelfClaim ctxActor task p) \<or>
      may_act (TN_catalog s) ctxActor (OP_Action (resolveTaskAssignmentOperation task)) task" (is ?allowed)
    and "resolveTaskActionActor ctxActor = None \<Longrightarrow> D_ScopeSource decision = [] \<and> D_Allowed decision"
    and "D_ScopeSource decision = source_string (granted_scope (TN_catalog s) ctxActor task)"
    and "\<not> D_Allowed decision \<Longrightarrow> taskAssignmentScopeDenyCanUseTargetOverride (D_DenyCode decision) \<Longrightarrow>
      \<exists>a. resolveTaskActionActor ctxActor = Some a \<and> rule_open a task"
proof -
  let ?a = "OP_Action (resolveTaskAssignmentOperation task)"
  obtain w w' d0 where run: "EvaluateTaskActionPolicy (TN_catalog s) (TN_dataScopeResolver s) (assignment_users s)
      ctxActor ?a (Some task) [] [] w = (Inr d0 :: ErrCode + TaskActionDecision, w')"
    and dec: "decision = (case isTaskAssignmentSelfClaim ctxActor task p of (selfClaim, actorID) \<Rightarrow>
        if selfClaim then claimed_decision actorID d0 else d0)"
    using assms unfolding gives_def assignment_decision_def bnd_eq_Inr by auto
  have auth: "AuthorizeTaskActionWithAttributes (TN_catalog s) (TN_dataScopeResolver s) (assignment_users s) ctxActor
      ?a (Some task) no_stage w = ((if D_Allowed d0 then Inr () else Inl ErrCodePermissionDenied), w')"
    using run by (simp add: AuthorizeTaskActionWithAttributes_def bnd_def ret_def throw_def del: operation_action)
  have d0: "D_Allowed d0 \<longleftrightarrow> may_act (TN_catalog s) ctxActor ?a task"
    using auth authorize_gate [OF operation_plain, of "TN_catalog s" "TN_dataScopeResolver s" "assignment_users s" ctxActor task task w]
    by (simp del: operation_action split: if_splits)
  show ?allowed
    using d0 dec by (simp add: claimed_decision_def del: operation_action split: prod.splits)
  show "D_ScopeSource decision = [] \<and> D_Allowed decision" if "resolveTaskActionActor ctxActor = None"
  proof -
    have "d0 = no_decision\<lparr>D_Allowed := True, D_MatchedRule := ''no_request_actor_backward_compatible''\<rparr>"
      using run that by (simp add: EvaluateTaskActionPolicyWithAttributes_def ret_def)
    then show ?thesis using dec by (simp add: claimed_decision_def no_decision_def split: prod.splits)
  qed
  note facts = evaluated_assignment [OF run]
  show "D_ScopeSource decision = source_string (granted_scope (TN_catalog s) ctxActor task)"
    using dec facts(1) by (simp add: claimed_decision_def split: prod.splits)
  show "\<exists>a. resolveTaskActionActor ctxActor = Some a \<and> rule_open a task"
    if "\<not> D_Allowed decision" "taskAssignmentScopeDenyCanUseTargetOverride (D_DenyCode decision)"
    using that dec facts(2) by (auto simp: claimed_decision_def split: prod.splits if_splits)
qed

subsection \<open>What the gates establish\<close>

lemma gives_bnd:
  assumes "gives (bnd m k) d y" and "reads m"
  obtains x where "gives m d x" "gives (k x) d y"
  using assms unfolding gives_def bnd_eq_Inr by (metis readsD)

lemma gives_ret [simp]: "gives (ret x) d y \<longleftrightarrow> y = x"
  unfolding gives_def by (auto intro: exI [of _ "\<lparr>wdb = d, faults = []\<rparr>"])

lemma gives_throw [simp]: "\<not> gives (throw e) d y"
  by (simp add: gives_def)

lemma gives_checked [simp]: "gives (bnd (check b e) k) d y \<longleftrightarrow> b \<and> gives (k ()) d y"
  by (cases b) (simp_all add: gives_def check_def bnd_eq_Inr)

lemma gives_check_iff [simp]: "gives (check b e) d u \<longleftrightarrow> b"
  using gives_checked [of b e ret d u] by (cases b) (simp_all add: check_def)

lemma gives_infra_query:
  assumes "gives (infra_v (query g)) d y"
  shows "y = g d"
  using assms by (auto simp: gives_def infra_v_def map_err_eq_Inr dest!: query_success)

lemma reads_target [read_only]: "reads (loadTaskAssignmentTarget s x)"
  by (auto simp: loadTaskAssignmentTarget_def intro!: read_only split: option.splits)

lemma gives_target:
  assumes "gives (loadTaskAssignmentTarget s x) d u"
  shows "TN_scopeUserRepo s \<and> user_row d x = Some u"
proof -
  have on: "TN_scopeUserRepo s" using assms by (auto simp: loadTaskAssignmentTarget_def split: if_splits)
  then have g: "gives (bnd (infra_v (userRepo_GetByID v_users x)) (\<lambda>r. case r of
      None \<Rightarrow> throw ErrCodeNotFound | Some target \<Rightarrow> ret target)) d u"
    using assms by (simp add: loadTaskAssignmentTarget_def)
  obtain r where r: "gives (infra_v (userRepo_GetByID v_users x)) d r"
    and k: "gives ((case r of None \<Rightarrow> throw ErrCodeNotFound | Some target \<Rightarrow> ret target) :: User vop) d u"
    using g reads_map_err(2) [OF reads_users] by (rule gives_bnd)
  have "r = user_row d x"
    using gives_infra_query [OF r [unfolded userRepo_GetByID_def]] by (simp add: user_row_def)
  then show ?thesis using k on by (cases "user_row d x") auto
qed

lemma reads_roles [read_only]: "reads (infra_v (ListRoles x))"
  by (auto simp: ListRoles_def intro!: read_only)

lemma gives_roles: "gives (infra_v (ListRoles x)) d roles \<Longrightarrow> roles = roles_of d x"
  unfolding ListRoles_def by (rule gives_infra_query)

lemma reads_assignable [read_only]: "reads (validateAssignableDesignerTarget s task x)"
  by (auto simp: validateAssignableDesignerTarget_def intro!: read_only)

lemma gives_assignable:
  assumes "gives (validateAssignableDesignerTarget s task x) d u"
  shows "assignable s task d x"
proof (cases "TN_scopeUserRepo s")
  case True
  have g: "gives (bnd (loadTaskAssignmentTarget s x) (\<lambda>target.
      bnd (check (U_Status target = UserStatusActive) ErrCodeInvalidRequest) (\<lambda>_.
      bnd (infra_v (ListRoles x)) (\<lambda>roles. check (hasRoleValue roles (assignee_role task)) ErrCodeInvalidRequest)))) d u"
    using assms True by (simp add: validateAssignableDesignerTarget_def)
  obtain target where t: "gives (loadTaskAssignmentTarget s x) d target" and act: "U_Status target = UserStatusActive"
    and g2: "gives (bnd (infra_v (ListRoles x)) (\<lambda>roles. check (hasRoleValue roles (assignee_role task)) ErrCodeInvalidRequest)) d u"
    using g reads_target by (rule gives_bnd) simp
  have "hasRoleValue (roles_of d x) (assignee_role task)"
    using g2 reads_roles by (rule gives_bnd) (use gives_roles in fastforce)
  then show ?thesis using gives_target [OF t] act by (auto simp: assignable_def)
qed (simp add: assignable_def)

lemma reads_manager [read_only]:
  "reads (validateManagedDepartmentTarget s c task decision x)" "reads (validateDesignManagerTargetScope s actor x)"
  by (auto simp: validateManagedDepartmentTarget_def validateDesignManagerTargetScope_def intro!: read_only split: option.splits)

lemma gives_manager_scope:
  assumes "gives (validateDesignManagerTargetScope s actor x) d source"
  shows "manages_target d actor x"
proof -
  let ?dept = "hasAnyRoleValue (RA_Roles actor) [RoleDeptAdmin, RoleDesignDirector]"
  let ?match = "\<lambda>u. if ?dept then list_ex (\<lambda>m. EqualFold m (normalizeTaskDepartmentCode (U_Department u))) (managed_departments actor)
    else list_ex (\<lambda>m. EqualFold m (TrimSpace (U_Team u))) (managed_teams actor)"
  have team: "?dept \<or> hasRoleValue (RA_Roles actor) RoleTeamLead"
    using assms by (auto simp: validateDesignManagerTargetScope_def split: if_splits)
  obtain good where g: "gives (bnd (loadTaskAssignmentTarget s x) (\<lambda>target.
      if ?match target then ret good else throw ErrCodePermissionDenied)) d source"
  proof (cases ?dept)
    case True
    then show ?thesis using assms that [of TaskActionScopeManagedDepartment]
      by (simp add: validateDesignManagerTargetScope_def split: if_split_asm)
  next
    case False
    then show ?thesis using assms team that [of TaskActionScopeManagedTeam]
      by (simp add: validateDesignManagerTargetScope_def split: if_split_asm)
  qed
  obtain target where t: "gives (loadTaskAssignmentTarget s x) d target"
    and k: "gives ((if ?match target then ret good else throw ErrCodePermissionDenied) :: TaskActionScopeSource vop) d source"
    using g reads_target by (rule gives_bnd)
  have "user_row d x = Some target" using gives_target [OF t] by blast
  moreover have "?match target" by (rule ccontr) (use k in simp)
  ultimately show ?thesis using team unfolding manages_target_def by (cases ?dept) simp_all
qed

lemma reads_override [read_only]: "reads (allowDesignManagerAssignmentByTargetScope s c task p op decision)"
  by (auto simp: allowDesignManagerAssignmentByTargetScope_def intro!: read_only split: option.splits)

lemma manager_scope_source:
  assumes "gives (validateDesignManagerTargetScope s actor x) d source"
  shows "source \<in> {TaskActionScopeManagedDepartment, TaskActionScopeManagedTeam}"
  using assms
  by (auto simp: validateDesignManagerTargetScope_def gives_def bnd_eq_Inr ret_def throw_def split: if_splits)

lemma gives_managed:
  assumes "gives (validateManagedDepartmentTarget s c task decision x) d u"
    and "needs_managed_target c task decision = Some actor"
  shows "in_managed_department d actor x"
proof -
  have g: "gives (bnd (loadTaskAssignmentTarget s x) (\<lambda>target.
      check (normalizeTaskDepartmentCode (U_Department target) \<in> set (managed_departments actor)) ErrCodePermissionDenied)) d u"
    using assms by (simp add: validateManagedDepartmentTarget_def split: if_splits)
  obtain target where "gives (loadTaskAssignmentTarget s x) d target"
    and "normalizeTaskDepartmentCode (U_Department target) \<in> set (managed_departments actor)"
    using g reads_target by (rule gives_bnd) simp
  then show ?thesis using gives_target by (auto simp: in_managed_department_def)
qed

lemma gives_override:
  assumes "gives (allowDesignManagerAssignmentByTargetScope s c task p op decision) d (Some decision')"
  shows "\<exists>actor x. c = Some actor \<and> AT_DesignerID p = Some x \<and> manages_target d actor x \<and>
    override_candidate s c task op decision = Some actor"
    and "D_ScopeSource decision' \<in> {scope_string TaskActionScopeManagedDepartment, scope_string TaskActionScopeManagedTeam}"
proof -
  obtain x actor where x: "AT_DesignerID p = Some x" and actor: "override_candidate s c task op decision = Some actor"
    and g: "gives (bnd (validateDesignManagerTargetScope s actor x) (\<lambda>source. ret (Some (overridden source decision)))) d (Some decision')"
    using assms by (auto simp: allowDesignManagerAssignmentByTargetScope_def split: option.splits)
  obtain source where source: "gives (validateDesignManagerTargetScope s actor x) d source" and d': "decision' = overridden source decision"
    using g reads_manager(2) by (rule gives_bnd) simp
  have "c = Some actor" using actor by (auto simp: override_candidate_def split: if_splits option.splits)
  then show "\<exists>actor x. c = Some actor \<and> AT_DesignerID p = Some x \<and> manages_target d actor x \<and>
      override_candidate s c task op decision = Some actor"
    using gives_manager_scope [OF source] x actor by blast
  show "D_ScopeSource decision' \<in> {scope_string TaskActionScopeManagedDepartment, scope_string TaskActionScopeManagedTeam}"
    using manager_scope_source [OF source] d' by (auto simp: overridden_def)
qed

lemma override_facts:
  assumes "override_candidate s c task op decision = Some actor"
  shows "OP_Action op = TaskActionReassign \<Longrightarrow> T_TaskStatus task = TaskStatusInProgress"
    and "taskAssignmentScopeDenyCanUseTargetOverride (D_DenyCode decision)"
    and "c = Some actor \<and> hasAnyRoleValue (RA_Roles actor) [RoleDeptAdmin, RoleDesignDirector, RoleTeamLead]"
  using assms by (auto simp: override_candidate_def split: if_splits option.splits)

lemma actor_roles: "resolveTaskActionActor (Some actor) = Some a \<Longrightarrow> AA_Roles a = RA_Roles actor"
  by (auto simp: resolveTaskActionActor_def Let_def split: if_splits)

lemma override_hands_over:
  assumes "override_candidate s c task op decision = Some actor" and "resolveTaskActionActor c \<noteq> None"
  shows "may_hand_over c task'"
proof -
  obtain a where a: "resolveTaskActionActor c = Some a" using assms(2) by auto
  have "hasAnyRoleValue (AA_Roles a) [RoleDeptAdmin, RoleDesignDirector, RoleTeamLead]"
    using override_facts(3) [OF assms(1)] actor_roles [of actor a] a by auto
  then show ?thesis using a
    by (auto simp: may_hand_over_def taskActionActorHasManagementScopeRole_def hasAnyRoleValue_iff)
qed

lemma reassign_allowed:
  assumes "may_act cat c TaskActionReassign task" and "resolveTaskActionActor c \<noteq> None"
  shows "T_TaskStatus task = TaskStatusInProgress \<and> may_hand_over c task"
  using assms
  by (auto simp: may_act_def may_hand_over_def may_write_def taskActionRuleFor_def no_rule_def Let_def
      taskActionActorIsCreatorOrRequester_def split: option.splits)

lemma assignable_statusI:
  assumes allowed: "fst (isTaskAssignmentSelfClaim c task0 p) \<or>
      may_act cat c (OP_Action (resolveTaskAssignmentOperation task0)) task0 \<or>
      (resolveTaskActionActor c \<noteq> None \<and>
       override_candidate s c (assignment_seen s c task0) (resolveTaskAssignmentOperation task0) decision0 = Some actor)"
    and known: "resolveTaskActionActor c = None \<Longrightarrow> D_ScopeSource decision = []"
    and gate: "T_TaskStatus task0 = TaskStatusPendingAssign \<or> isCustomizationProductionAssignmentTask task0 \<or>
      taskAssignmentAllowsInProgressReassign c (assignment_seen s c task0) (resolveTaskAssignmentOperation task0) decision"
  shows "assignable_status c task0"
proof (cases "T_TaskStatus task0 = TaskStatusPendingAssign \<or> isCustomizationProductionAssignmentTask task0")
  case False
  then have act: "OP_Action (resolveTaskAssignmentOperation task0) = TaskActionReassign" by simp
  have actor: "resolveTaskActionActor c \<noteq> None"
  proof
    assume none: "resolveTaskActionActor c = None"
    then have "\<not> taskAssignmentAllowsInProgressReassign c (assignment_seen s c task0) (resolveTaskAssignmentOperation task0) decision"
      using known act by (simp add: taskAssignmentAllowsInProgressReassign_def taskActionDecisionHasElevatedScope_def
          del: operation_action)
    then show False using gate False by blast
  qed
  have "\<not> fst (isTaskAssignmentSelfClaim c task0 p)" using False by (simp add: isTaskAssignmentSelfClaim_def Let_def)
  then consider "may_act cat c TaskActionReassign task0"
    | "override_candidate s c (assignment_seen s c task0) (resolveTaskAssignmentOperation task0) decision0 = Some actor"
    using allowed act by auto
  then show ?thesis
  proof cases
    case 1
    then show ?thesis using reassign_allowed actor by (auto simp: assignable_status_def)
  next
    case 2
    then show ?thesis using override_facts(1) [OF 2] override_hands_over [OF 2 actor] act
      by (auto simp: assignable_status_def)
  qed
qed (auto simp: assignable_status_def)

lemma reads_decision [read_only]: "reads (assignment_decision s c p task)"
proof -
  have "snd (assignment_decision s c p task w) = w" for w
  proof -
    have "snd (AuthorizeTaskActionWithAttributes (TN_catalog s) (TN_dataScopeResolver s) (assignment_users s) c
        (OP_Action (resolveTaskAssignmentOperation task)) (Some task) no_stage w) = w"
      by (simp add: authorize_gate [OF operation_plain] del: operation_action)
    then show ?thesis
      by (auto simp: AuthorizeTaskActionWithAttributes_def assignment_decision_def bnd_def ret_def throw_def
          split: prod.splits sum.splits if_splits)
  qed
  then show ?thesis by (simp add: reads_def)
qed

text \<open>
  What the gates hand on: the task as the authoriser shows it, why it may be assigned, and a decision that sends
  every manager of a department to the test of the target's department.
\<close>

definition rests_on ::
  "taskAssignmentService \<Rightarrow> RequestActor option \<Rightarrow> AssignTaskParams \<Rightarrow> Task \<Rightarrow> TaskActionDecision \<Rightarrow> bool" where
  "rests_on s c p task decision \<longleftrightarrow>
     (if fst (isTaskAssignmentSelfClaim c task p) \<or>
         may_act (TN_catalog s) c (OP_Action (resolveTaskAssignmentOperation task)) task
      then D_ScopeSource decision = source_string (granted_scope (TN_catalog s) c task)
      else D_ScopeSource decision \<in> {scope_string TaskActionScopeManagedDepartment, scope_string TaskActionScopeManagedTeam})"

lemma must_manage_needs:
  assumes "must_manage s c p task actor" and "rests_on s c p task decision"
  shows "needs_managed_target c (assignment_seen s c task) decision = Some actor"
proof -
  let ?roles = "RA_Roles actor"
  have "D_ScopeSource decision \<in> {scope_string TaskActionScopeManagedDepartment, scope_string TaskActionScopeManagedTeam,
      scope_string TaskActionScopeDepartment} \<or>
      D_ScopeSource decision = scope_string TaskActionScopeTeam \<and> hasRoleValue ?roles RoleTeamLead"
    using assms by (auto simp: must_manage_def rests_on_def source_string_def simp del: operation_action scope_string.simps
        split: option.splits if_splits)
  then have "taskAssignmentRequiresManagedTargetScope actor (assignment_seen s c task) decision"
    using assms(1) by (auto simp: must_manage_def taskAssignmentRequiresManagedTargetScope_def Let_def
        simp del: operation_action)
  then show ?thesis using assms(1) by (simp add: must_manage_def needs_managed_target_def del: operation_action)
qed

definition gates_passed ::
  "taskAssignmentService \<Rightarrow> RequestActor option \<Rightarrow> AssignTaskParams \<Rightarrow> vdb \<Rightarrow> Task \<Rightarrow> TaskActionDecision \<Rightarrow> bool" where
  "gates_passed s c p d task0 decision \<longleftrightarrow> rests_on s c p task0 decision \<and> v_task d (AT_TaskID p) = Some task0 \<and> assignable_status c task0 \<and>
     \<not> purchase_refused task0 \<and> may_assign s c p d task0 \<and>
     \<not> isActorTakingTaskAlreadyClaimedByOther c task0 p (assignment_actor c p) (resolveTaskAssignmentOperation task0) \<and>
     (\<forall>x. AT_DesignerID p = Some x \<longrightarrow> x > 0)"

lemma gives_allowed:
  assumes g: "gives (if D_Allowed decision0 then ret decision0
      else bnd (allowDesignManagerAssignmentByTargetScope s c (assignment_seen s c task0) p
                  (resolveTaskAssignmentOperation task0) decision0) (\<lambda>r. case r of
        None \<Rightarrow> throw ErrCodePermissionDenied | Some decision \<Rightarrow> ret decision)) d decision"
    and d0: "gives (assignment_decision s c p task0) d decision0"
  shows "may_assign s c p d task0 \<and> rests_on s c p task0 decision \<and>
    (resolveTaskActionActor c = None \<longrightarrow> D_ScopeSource decision = []) \<and>
    (fst (isTaskAssignmentSelfClaim c task0 p) \<or>
     may_act (TN_catalog s) c (OP_Action (resolveTaskAssignmentOperation task0)) task0 \<or>
     (\<exists>actor. resolveTaskActionActor c \<noteq> None \<and>
        override_candidate s c (assignment_seen s c task0) (resolveTaskAssignmentOperation task0) decision0 = Some actor))"
proof (cases "D_Allowed decision0")
  case True
  then show ?thesis using g assignment_decision_gives [OF d0]
    by (auto simp: may_assign_def rests_on_def simp del: operation_action)
next
  case False
  note g' = g [unfolded if_not_P [OF False]]
  obtain r where o: "gives (allowDesignManagerAssignmentByTargetScope s c (assignment_seen s c task0) p
                  (resolveTaskAssignmentOperation task0) decision0) d r"
    and k: "gives ((case r of None \<Rightarrow> throw ErrCodePermissionDenied | Some decision \<Rightarrow> ret decision) :: TaskActionDecision vop) d decision"
    using g' reads_override by (rule gives_bnd)
  have r: "r = Some decision" using k by (cases r) auto
  note over = gives_override [OF o [unfolded r]] and dec = assignment_decision_gives [OF d0]
  obtain actor x where m: "c = Some actor" "AT_DesignerID p = Some x" "manages_target d actor x"
    and cand: "override_candidate s c (assignment_seen s c task0) (resolveTaskAssignmentOperation task0) decision0 = Some actor"
    using over(1) by blast
  obtain a where a: "resolveTaskActionActor c = Some a" "rule_open a task0"
    using dec(4) [OF False override_facts(2) [OF cand]] by blast
  have no: "\<not> (fst (isTaskAssignmentSelfClaim c task0 p) \<or>
      may_act (TN_catalog s) c (OP_Action (resolveTaskAssignmentOperation task0)) task0)"
    using False dec(1) by blast
  have "may_assign s c p d task0" unfolding may_assign_def using m a by blast
  moreover have "rests_on s c p task0 decision" unfolding rests_on_def using no over(2) by (simp only: if_False)
  ultimately show ?thesis using a cand by auto
qed

lemma gives_gates:
  assumes "gives (assign_gates s c p) d r"
  shows "\<exists>task0. gates_passed s c p d task0 (snd r) \<and> fst r = assignment_seen s c task0"
proof -
  let ?k = "\<lambda>task0 decision0. let task = assignment_seen s c task0; op = resolveTaskAssignmentOperation task in
     bnd (check (\<not> isActorTakingTaskAlreadyClaimedByOther c task p (assignment_actor c p) op)
            ErrCodePermissionDenied) (\<lambda>_.
     bnd (if D_Allowed decision0 then ret decision0
          else bnd (allowDesignManagerAssignmentByTargetScope s c task p op decision0) (\<lambda>r. case r of
            None \<Rightarrow> throw ErrCodePermissionDenied | Some decision \<Rightarrow> ret decision)) (\<lambda>decision.
     bnd (check (T_TaskStatus task = TaskStatusPendingAssign \<or> isCustomizationProductionAssignmentTask task \<or>
                 taskAssignmentAllowsInProgressReassign c task op decision) ErrCodePermissionDenied) (\<lambda>_.
     bnd (check (\<not> purchase_refused task) ErrCodeInvalidStateTransition) (\<lambda>_.
     ret (task, decision)))))"
  have pos: "case AT_DesignerID p of Some i \<Rightarrow> i > 0 | None \<Rightarrow> True"
    and g1: "gives (bnd (getTask (AT_TaskID p)) (\<lambda>task0. bnd (assignment_decision s c p task0) (?k task0))) d r"
    using assms unfolding assign_gates_def by simp_all
  obtain task0 where task: "gives (getTask (AT_TaskID p)) d task0"
    and g2: "gives (bnd (assignment_decision s c p task0) (?k task0)) d r"
    using g1 reads_getTask by (rule gives_bnd)
  obtain decision0 where d0: "gives (assignment_decision s c p task0) d decision0"
    and g3: "gives (?k task0 decision0) d r"
    using g2 reads_decision by (rule gives_bnd)
  let ?op = "resolveTaskAssignmentOperation task0" and ?t = "assignment_seen s c task0"
  let ?m = "if D_Allowed decision0 then ret decision0
      else bnd (allowDesignManagerAssignmentByTargetScope s c ?t p ?op decision0) (\<lambda>r. case r of
        None \<Rightarrow> throw ErrCodePermissionDenied | Some decision \<Rightarrow> ret decision)"
  have free: "\<not> isActorTakingTaskAlreadyClaimedByOther c task0 p (assignment_actor c p) ?op"
    and g4: "gives (bnd ?m (\<lambda>decision.
     bnd (check (T_TaskStatus task0 = TaskStatusPendingAssign \<or> isCustomizationProductionAssignmentTask task0 \<or>
                 taskAssignmentAllowsInProgressReassign c ?t ?op decision) ErrCodePermissionDenied) (\<lambda>_.
     bnd (check (\<not> purchase_refused task0) ErrCodeInvalidStateTransition) (\<lambda>_. ret (?t, decision))))) d r"
    using g3 by (simp_all only: Let_def assignment_seen_views assignment_seen_fields gives_checked simp_thms)
  have m: "reads ?m" by (auto intro!: read_only split: option.splits)
  obtain decision where dec: "gives ?m d decision"
    and rest: "T_TaskStatus task0 = TaskStatusPendingAssign \<or> isCustomizationProductionAssignmentTask task0 \<or>
                 taskAssignmentAllowsInProgressReassign c ?t ?op decision" "\<not> purchase_refused task0" "r = (?t, decision)"
    using g4 m by (rule gives_bnd) simp
  note allowed = gives_allowed [OF dec d0]
  obtain actor where "fst (isTaskAssignmentSelfClaim c task0 p) \<or> may_act (TN_catalog s) c (OP_Action ?op) task0 \<or>
      (resolveTaskActionActor c \<noteq> None \<and> override_candidate s c ?t ?op decision0 = Some actor)"
    using allowed by metis
  then have "assignable_status c task0"
    by (rule assignable_statusI [where s = s and decision = decision]) (use allowed rest(1) in auto)
  then show ?thesis
    using allowed rest free pos gives_task [OF task] by (auto simp: gates_passed_def split: option.splits)
qed

lemma reads_gates [read_only]: "reads (assign_gates s c p)"
  unfolding assign_gates_def Let_def by (auto intro!: read_only split: option.splits)

lemma reads_reread [read_only]: "reads (reread_assigned i)"
  unfolding reread_assigned_def infra_v_def by (auto intro!: read_only split: option.splits)

lemma gives_reread:
  assumes "gives (reread_assigned i) d t"
  shows "v_task d i = Some t"
proof -
  obtain w w' where w: "wdb w = d" "reread_assigned i w = (Inr t, w')" using assms by (auto simp: gives_def)
  then have "getTask i w = (Inr t, w')"
    unfolding reread_assigned_def getTask_def by (auto simp: bnd_eq_Inr split: option.splits)
  then show ?thesis using getTask_success w(1) by blast
qed

subsection \<open>What an assignment does\<close>

definition nothing_to_do :: "AssignTaskParams \<Rightarrow> Task \<Rightarrow> bool" where
  "nothing_to_do p task \<longleftrightarrow> (case AT_DesignerID p of None \<Rightarrow> unassigned_pending task | Some x \<Rightarrow> already_assigned task x)"

definition assignment_written ::
  "taskAssignmentService \<Rightarrow> time \<Rightarrow> RequestActor option \<Rightarrow> AssignTaskParams \<Rightarrow> Task \<Rightarrow> vdb \<Rightarrow> vdb \<Rightarrow> bool" where
  "assignment_written s now c p task d d' \<longleftrightarrow> (case AT_DesignerID p of
       None \<Rightarrow> d' = cleared s now (assignment_seen s c task) p (v_modules d) d
     | Some x \<Rightarrow> \<exists>team. d' = assigned s now (assignment_seen s c task) p x (v_modules d) team d)"

definition assign_outcome ::
  "taskAssignmentService \<Rightarrow> time \<Rightarrow> RequestActor option \<Rightarrow> AssignTaskParams \<Rightarrow> vdb \<Rightarrow> ErrCode + Task \<Rightarrow> vdb \<Rightarrow> bool" where
  "assign_outcome s now c p d r d' \<longleftrightarrow> ((\<exists>e. r = Inl e) \<and> d' = d) \<or>
     (\<exists>task. assignment_open s c p d task \<and>
       (if nothing_to_do p task then d' = d \<and> r = Inr (assignment_seen s c task)
        else assignment_written s now c p task d d' \<and> (\<forall>t. r = Inr t \<longrightarrow> v_task d' (AT_TaskID p) = Some t)))"

lemma assign_stop: "assign_outcome s now c p d (Inl e) d"
  by (simp add: assign_outcome_def)

lemma ends_on_snapshot:
  assumes "ends d (bnd (map_err h (RunInTx (m (v_modules d)))) k) Q"
  shows "ends d (bnd (map_err h (run_on_snapshot m)) k) Q"
  using assms by (auto simp: ends_def bnd_def map_err_def run_on_snapshot_def)

lemma written_answer:
  assumes "assignment_open s c p d task" and "\<not> nothing_to_do p task" and "assignment_written s now c p task d d'"
  shows "ends d' (reread_assigned (AT_TaskID p)) (assign_outcome s now c p d)"
proof (rule ends_answer [OF reads_reread])
  fix r :: "ErrCode + Task" assume "\<And>x. r = Inr x \<Longrightarrow> gives (reread_assigned (AT_TaskID p)) d' x"
  then have "\<forall>t. r = Inr t \<longrightarrow> v_task d' (AT_TaskID p) = Some t" using gives_reread by blast
  then show "assign_outcome s now c p d r d'"
    unfolding assign_outcome_def using assms by (intro disjI2 exI [of _ task]) simp
qed

lemma clear_ends:
  assumes "assignment_open s c p d task0" and "AT_DesignerID p = None"
  shows "ends d (clearAssignment s now (assignment_seen s c task0) p) (assign_outcome s now c p d)"
proof (cases "unassigned_pending task0")
  case True
  then show ?thesis using assms unfolding clearAssignment_def
    by (auto simp: ends_def ret_def assign_outcome_def nothing_to_do_def)
next
  case False
  have "ends d (bnd (infra_v (run_on_snapshot (clear_tx s now (assignment_seen s c task0) p)))
      (\<lambda>_. reread_assigned (AT_TaskID p))) (assign_outcome s now c p d)"
    unfolding infra_v_def
  proof (rule ends_on_snapshot, rule ends_tx, rule assign_stop)
    fix u w w1
    assume "wdb w = d" "clear_tx s now (assignment_seen s c task0) p (v_modules d) w = (Inr u, w1)"
    then show "ends (wdb w1) (reread_assigned (AT_TaskID p)) (assign_outcome s now c p d)"
      using clear_tx_effect assms False
      by (intro written_answer [OF assms(1)]) (auto simp: assignment_written_def nothing_to_do_def)
  qed
  then show ?thesis using False by (simp add: clearAssignment_def)
qed

lemma assign_to_ends:
  assumes "gates_passed s c p d task0 decision" and "AT_DesignerID p = Some x" and "quiet_assignment_notices s"
  shows "ends d (assign_to s now c p (assignment_seen s c task0) decision x) (assign_outcome s now c p d)"
  unfolding assign_to_def
proof (rule ends_read, rule reads_assignable, rule assign_stop, rule ends_read, rule reads_manager, rule assign_stop)
  fix u u' assume t: "gives (validateAssignableDesignerTarget s (assignment_seen s c task0) x) d u"
    and m: "gives (validateManagedDepartmentTarget s c (assignment_seen s c task0) decision x) d u'"
  have "in_managed_department d actor x" if "must_manage s c p task0 actor" for actor
    using gives_managed [OF m must_manage_needs [OF that]] assms(1) by (simp add: gates_passed_def)
  then have op: "assignment_open s c p d task0"
    using assms gives_assignable [OF t] by (auto simp: assignment_open_def gates_passed_def assignable_def)
  show "ends d (if already_assigned (assignment_seen s c task0) x then ret (assignment_seen s c task0)
      else bnd (map_err assign_error (run_on_snapshot (assign_tx s now (assignment_seen s c task0) p (assignment_actor c p) x)))
             (\<lambda>_. reread_assigned (AT_TaskID p))) (assign_outcome s now c p d)"
  proof (cases "already_assigned task0 x")
    case True
    then show ?thesis using op assms(2) by (auto simp: ends_def ret_def assign_outcome_def nothing_to_do_def)
  next
    case False
    have pos: "x > 0" using assms(1,2) by (simp add: gates_passed_def)
    have "ends d (bnd (map_err assign_error (run_on_snapshot (assign_tx s now (assignment_seen s c task0) p (assignment_actor c p) x)))
             (\<lambda>_. reread_assigned (AT_TaskID p))) (assign_outcome s now c p d)"
    proof (rule ends_on_snapshot, rule ends_tx, rule assign_stop)
      fix v w w1
      assume "wdb w = d" "assign_tx s now (assignment_seen s c task0) p (assignment_actor c p) x (v_modules d) w = (Inr v, w1)"
      then show "ends (wdb w1) (reread_assigned (AT_TaskID p)) (assign_outcome s now c p d)"
        using assign_tx_effect [OF _ assms(3) pos] assms(2) False
        by (intro written_answer [OF op]) (auto simp: assignment_written_def nothing_to_do_def)
    qed
    then show ?thesis using False by simp
  qed
qed

lemma assign_ends:
  assumes "quiet_assignment_notices s"
  shows "ends d (Assign s now c p) (assign_outcome s now c p d)"
  unfolding Assign_def
proof (rule ends_read, rule reads_gates, rule assign_stop)
  fix r assume "gives (assign_gates s c p) d r"
  then obtain task0 where passed: "gates_passed s c p d task0 (snd r)" and t: "fst r = assignment_seen s c task0"
    using gives_gates by blast
  show "ends d (case r of (task, decision) \<Rightarrow> case AT_DesignerID p of
       None \<Rightarrow> clearAssignment s now task p
     | Some designerID \<Rightarrow> assign_to s now c p task decision designerID) (assign_outcome s now c p d)"
  proof (cases "AT_DesignerID p")
    case None
    then have "assignment_open s c p d task0" using passed by (simp add: assignment_open_def gates_passed_def)
    then show ?thesis using clear_ends None t by (simp add: case_prod_beta)
  next
    case (Some x)
    then show ?thesis using assign_to_ends [OF passed Some assms] t by (simp add: case_prod_beta)
  qed
qed

lemma assign_any:
  assumes "quiet_assignment_notices s"
  shows "assign_outcome s now c p (wdb w) (fst (Assign s now c p w)) (wdb (snd (Assign s now c p w)))"
  using assign_ends [OF assms] by (simp add: ends_def)

subsection \<open>The row of the task\<close>

lemma touched:
  fixes r r' :: Task
  assumes "T_UpdatedAt r' = T_UpdatedAt r"
  shows "\<exists>u. (if r' = r then r else r'\<lparr>T_UpdatedAt := now\<rparr>) = r'\<lparr>T_UpdatedAt := u\<rparr>"
  by (cases "r' = r") (auto intro: exI [of _ "T_UpdatedAt r"])

lemma v_task_updated:
  assumes "v_task d i = Some r" and "\<And>r. T_ID (f r) = T_ID r" and "\<And>r. T_UpdatedAt (f r) = T_UpdatedAt r"
  shows "\<exists>u. v_task (d\<lparr>v_modules := upd_task now i f (v_modules d)\<rparr>) i = Some ((f r)\<lparr>T_UpdatedAt := u\<rparr>)"
proof -
  have row: "v_task (d\<lparr>v_modules := upd_task now i f (v_modules d)\<rparr>) i =
      Some (if f r = r then r else (f r)\<lparr>T_UpdatedAt := now\<rparr>)"
    using assms(1) v_task_ID [OF assms(1)] by (simp add: v_task_upd [of f, OF assms(2)])
  show ?thesis unfolding row using touched [OF assms(3) [of r], of now] by blast
qed

lemma v_task_upd_other:
  assumes "j \<noteq> i" and "\<And>r. T_ID (f r) = T_ID r"
  shows "v_task (d\<lparr>v_modules := upd_task now i f (v_modules d)\<rparr>) j = v_task d j"
  unfolding v_task_upd [of f, OF assms(2)] using assms(1) v_task_ID [of d j] by (cases "v_task d j") auto

lemma v_task_assignment_updates:
  assumes "v_task d i = Some r"
  shows "\<exists>u. v_task (set_designer now i x d) i = Some (r\<lparr>T_DesignerID := x, T_UpdatedAt := u\<rparr>)"
    and "\<exists>u. v_task (set_task_handler now i x d) i = Some (r\<lparr>T_CurrentHandlerID := x, T_UpdatedAt := u\<rparr>)"
    and "\<exists>u. v_task (set_task_status now i st d) i = Some (r\<lparr>T_TaskStatus := st, T_UpdatedAt := u\<rparr>)"
  unfolding set_designer_def set_task_handler_def set_task_status_def
  by (rule v_task_updated [OF assms]; simp)+

lemma v_task_assignment_others [simp]:
  assumes "j \<noteq> i"
  shows "v_task (set_designer now i x d) j = v_task d j" "v_task (set_task_handler now i x d) j = v_task d j"
    "v_task (set_task_status now i st d) j = v_task d j"
  unfolding set_designer_def set_task_handler_def set_task_status_def
  by (rule v_task_upd_other [OF assms]; simp)+

lemma v_task_claim_other [simp]:
  assumes "j \<noteq> i"
  shows "v_task (claim_rows now i x st d) j = v_task d j"
  using assms v_task_ID [of d j]
  by (cases "v_task d j") (auto simp: claim_rows_def v_task_def task_row_def find_row_upd)

lemma v_task_claim_rows:
  assumes "v_task d i = Some r" and "unassigned_pending r"
  shows "v_task (claim_rows now i x st d) i = Some (r\<lparr>T_DesignerID := Some x, T_CurrentHandlerID := Some x,
    T_TaskStatus := st, T_UpdatedAt := now\<rparr>)"
  using assms v_task_ID [OF assms(1)] by (simp add: claim_rows_def v_task_def task_row_def find_row_upd)

lemma v_task_status_moved_row:
  assumes "v_task d i = Some r" and "T_TaskStatus task = T_TaskStatus r"
  shows "\<exists>u. v_task (row_status_moved now i task st d) i = Some (r\<lparr>T_TaskStatus := st, T_UpdatedAt := u\<rparr>)"
proof (cases "st = T_TaskStatus task")
  case True
  then show ?thesis using assms by (auto simp: row_status_moved_def intro: exI [of _ "T_UpdatedAt r"])
next
  case False
  then show ?thesis using v_task_assignment_updates(3) [OF assms(1)] by (simp add: row_status_moved_def)
qed

lemma v_task_holder_rows:
  assumes "v_task d i = Some r" and "T_TaskStatus task = T_TaskStatus r"
  shows "\<exists>u. v_task (row_status_moved now i task st (set_task_handler now i x (set_designer now i x d))) i =
    Some (r\<lparr>T_DesignerID := x, T_CurrentHandlerID := x, T_TaskStatus := st, T_UpdatedAt := u\<rparr>)"
proof -
  obtain u1 where 1: "v_task (set_designer now i x d) i = Some (r\<lparr>T_DesignerID := x, T_UpdatedAt := u1\<rparr>)"
    using v_task_assignment_updates(1) [OF assms(1)] by blast
  obtain u2 where 2: "v_task (set_task_handler now i x (set_designer now i x d)) i =
      Some (r\<lparr>T_DesignerID := x, T_CurrentHandlerID := x, T_UpdatedAt := u2\<rparr>)"
    using v_task_assignment_updates(2) [OF 1, of now x] by auto
  show ?thesis using v_task_status_moved_row [OF 2, of task now st] assms(2) by simp
qed

lemma v_task_assignment_frame [simp]:
  "v_task (assignment_logged s now p task st x d) j = v_task d j"
  "v_task (module_assigned s now task p y snap team d) j = v_task d j"
  "v_task (module_unassigned s now task p snap d) j = v_task d j"
  by (simp_all add: assignment_logged_def add_event_def v_task_def task_row_def module_assigned_def module_unassigned_def
      module_moved_def reassigned_rows_def pooled_rows_def Let_def split: option.splits)

lemma v_task_assigned:
  assumes "v_task d (AT_TaskID p) = Some r" and "T_TaskStatus task = T_TaskStatus r"
    and "unassigned_pending task \<Longrightarrow> unassigned_pending r"
  shows "\<exists>u. v_task (assigned s now task p x snap team d) (AT_TaskID p) = Some (r\<lparr>T_DesignerID := Some x,
    T_CurrentHandlerID := Some x, T_TaskStatus := OP_ResultingStatus (resolveTaskAssignmentOperation task), T_UpdatedAt := u\<rparr>)"
proof (cases "by_claim s task")
  case True
  then have "unassigned_pending r" using assms(3) by (simp add: by_claim_def)
  then show ?thesis using True v_task_claim_rows [OF assms(1)] by (auto simp: assigned_def assign_rows_def Let_def)
next
  case False
  then show ?thesis using v_task_holder_rows [OF assms(1,2)] by (simp add: assigned_def assign_rows_def Let_def)
qed

lemma v_task_assigned_other:
  "j \<noteq> AT_TaskID p \<Longrightarrow> v_task (assigned s now task p x snap team d) j = v_task d j"
  "j \<noteq> AT_TaskID p \<Longrightarrow> v_task (cleared s now task p snap d) j = v_task d j"
  by (simp_all add: assigned_def cleared_def assign_rows_def row_status_moved_def Let_def)

lemma v_task_cleared:
  assumes "v_task d (AT_TaskID p) = Some r" and "T_TaskStatus task = T_TaskStatus r"
  shows "\<exists>u. v_task (cleared s now task p snap d) (AT_TaskID p) = Some (r\<lparr>T_DesignerID := None,
    T_CurrentHandlerID := None, T_TaskStatus := cleared_status task, T_UpdatedAt := u\<rparr>)"
  using v_task_holder_rows [OF assms] by (simp add: cleared_def)

subsection \<open>One call\<close>


subsection \<open>Claims on a task that was read before\<close>

text \<open>A claim: the time, the task as it was read, the parameters, who acts, and the new designer.\<close>

type_synonym stale_claim = "time \<times> Task \<times> AssignTaskParams \<times> id \<times> id"

fun run_claims ::
  "taskAssignmentService \<Rightarrow> stale_claim list \<Rightarrow> vdb world \<Rightarrow> (db_error + unit) list \<times> vdb world" where
  "run_claims s [] w = ([], w)"
| "run_claims s ((now, task, p, actorID, designerID) # cs) w =
     (case run_on_snapshot (assign_tx s now task p actorID designerID) w of
        (r, w1) \<Rightarrow> (case run_claims s cs w1 of (rs, w2) \<Rightarrow> (r # rs, w2)))"

definition read_unassigned :: "id \<Rightarrow> stale_claim \<Rightarrow> bool" where
  "read_unassigned i c \<longleftrightarrow> (case c of (now, task, p, actorID, x) \<Rightarrow>
     AT_TaskID p = i \<and> unassigned_pending task \<and> x > 0)"

definition claimant :: "stale_claim \<Rightarrow> id" where
  "claimant c = (case c of (now, task, p, actorID, x) \<Rightarrow> x)"

definition went_through :: "'e + 'a \<Rightarrow> bool" where
  "went_through r \<longleftrightarrow> (\<exists>x. r = Inr x)"

definition held_in_progress :: "vdb \<Rightarrow> id \<Rightarrow> id \<Rightarrow> bool" where
  "held_in_progress d i x \<longleftrightarrow> (\<exists>t. v_task d i = Some t \<and> T_DesignerID t = Some x \<and> T_CurrentHandlerID t = Some x \<and>
     T_TaskStatus t = TaskStatusInProgress)"

lemma unassigned_rows_frame [simp]:
  "unassigned_rows i (assignment_logged s now p task st x d) = unassigned_rows i d"
  "unassigned_rows i (module_assigned s now task p y snap team d) = unassigned_rows i d"
  by (simp_all add: unassigned_rows_def assignment_logged_def add_event_def module_assigned_def
      module_moved_def reassigned_rows_def Let_def split: option.splits)

lemma claimed_none_left: "st \<noteq> TaskStatusPendingAssign \<Longrightarrow> unassigned_rows i (claim_rows now i x st d) = 0"
  by (auto simp: unassigned_rows_def claim_rows_def unassigned_pending_def filter_empty_conv row_upd_def)

lemma one_claim:
  assumes "quiet_assignment_notices s" and "TN_pendingAssignmentCASUpdater s" and "read_unassigned i c"
    and "c = (now, task, p, a, x)" and "run_on_snapshot (assign_tx s now task p a x) w = (r, w1)"
  shows "if went_through r then unassigned_rows i (wdb w) = 1 \<and> unassigned_rows i (wdb w1) = 0 \<and>
      (\<forall>t. v_task (wdb w) i = Some t \<longrightarrow> unassigned_pending t \<longrightarrow> held_in_progress (wdb w1) i x)
    else wdb w1 = wdb w"
proof (cases r)
  case (Inl e)
  then show ?thesis using assms(5) RunInTx_failure by (auto simp: run_on_snapshot_def went_through_def)
next
  case (Inr u)
  have c: "AT_TaskID p = i" "unassigned_pending task" "x > 0" using assms(3,4) by (simp_all add: read_unassigned_def)
  obtain w' w'' where tx: "assign_tx s now task p a x (v_modules (wdb w)) w' = (Inr u, w'')"
    and d: "wdb w' = wdb w" "wdb w1 = wdb w''"
    using RunInTx_success [OF assms(5) [unfolded run_on_snapshot_def Inr]] by blast
  obtain team where res: "wdb w1 = assigned s now task p x (v_modules (wdb w)) team (wdb w)"
    and one: "by_claim s task \<longrightarrow> unassigned_rows i (wdb w) = 1"
    using assign_tx_effect [OF tx assms(1) c(3)] d c(1) by auto
  have claim: "by_claim s task" using c(2) assms(2) by (simp add: by_claim_def)
  have st: "OP_ResultingStatus (resolveTaskAssignmentOperation task) = TaskStatusInProgress"
    using c(2) by (simp add: resolveTaskAssignmentOperation_def unassigned_pending_def isCustomizationProductionAssignmentTask_def)
  have "unassigned_rows i (wdb w1) = 0"
    using res claim st c(1) claimed_none_left by (simp add: assigned_def assign_rows_def Let_def)
  moreover have "held_in_progress (wdb w1) i x" if "v_task (wdb w) i = Some t" "unassigned_pending t" for t
    using that v_task_assigned [of "wdb w" p t task s now x "v_modules (wdb w)" team] res c st
    by (auto simp: held_in_progress_def unassigned_pending_def)
  ultimately show ?thesis using one claim Inr by (simp add: went_through_def)
qed

lemma late_claims:
  assumes "quiet_assignment_notices s" and "TN_pendingAssignmentCASUpdater s" and "\<forall>c \<in> set cs. read_unassigned i c"
    and "unassigned_rows i (wdb w) = 0" and "run_claims s cs w = (rs, w')"
  shows "length rs = length cs \<and> (\<forall>r \<in> set rs. \<not> went_through r) \<and> wdb w' = wdb w"
  using assms(3-5)
proof (induction cs arbitrary: w rs)
  case (Cons c cs)
  obtain now task p a x where c: "c = (now, task, p, a, x)" by (cases c)
  obtain r w1 rs1 where r: "run_on_snapshot (assign_tx s now task p a x) w = (r, w1)"
    and rest: "run_claims s cs w1 = (rs1, w')" and rs: "rs = r # rs1"
    using Cons.prems(3) c by (auto split: prod.splits)
  have "\<not> went_through r" "wdb w1 = wdb w"
    using one_claim [OF assms(1,2) _ c r, of i] Cons.prems(1,2) by (auto split: if_splits)
  then show ?case using Cons.IH [OF _ _ rest] Cons.prems(1,2) rs by simp
qed simp

lemma one_unassigned:
  assumes "unassigned_rows i d = 1" and "distinct (map T_ID (tasks (v_modules d)))"
  shows "\<exists>t. v_task d i = Some t \<and> unassigned_pending t"
proof -
  have "filter (\<lambda>t. T_ID t = i \<and> unassigned_pending t) (tasks (v_modules d)) \<noteq> []"
    using assms(1) by (auto simp: unassigned_rows_def)
  then obtain t where t: "t \<in> set (tasks (v_modules d))" "T_ID t = i" "unassigned_pending t"
    by (auto simp: filter_empty_conv)
  then obtain t' where t': "v_task d i = Some t'"
    by (cases "v_task d i") (auto simp: v_task_def task_row_def find_None_iff)
  then have "t' \<in> set (tasks (v_modules d))" "T_ID t' = i"
    by (auto simp: v_task_def task_row_def dest: find_SomeD)
  then have "t' = t" using t assms(2) by (metis distinct_key_eq)
  then show ?thesis using t t' by blast
qed

text \<open>
  (C10) Of any number of claims on a task, all made on a reading of it as unassigned, whatever fails in them,
  at most one goes through: the others are refused and write nothing, and the task is in progress with the one
  designer. The claim is a compare-and-set; the ids of the tasks are a primary key.
\<close>

theorem pending_assignment_exclusive:
  assumes "quiet_assignment_notices s" and "TN_pendingAssignmentCASUpdater s"
    and "distinct (map T_ID (tasks (v_modules (wdb w))))"
    and "\<forall>c \<in> set cs. read_unassigned i c" and "run_claims s cs w = (rs, w')"
  shows "length rs = length cs \<and>
    ((\<forall>r \<in> set rs. \<not> went_through r) \<and> wdb w' = wdb w \<or>
     (\<exists>n < length cs. went_through (rs ! n) \<and> (\<forall>m < length cs. m \<noteq> n \<longrightarrow> \<not> went_through (rs ! m)) \<and>
        held_in_progress (wdb w') i (claimant (cs ! n))))"
  using assms(3-5)
proof (induction cs arbitrary: w rs)
  case (Cons c cs)
  obtain now task p a x where c: "c = (now, task, p, a, x)" by (cases c)
  obtain r w1 rs1 where r: "run_on_snapshot (assign_tx s now task p a x) w = (r, w1)"
    and rest: "run_claims s cs w1 = (rs1, w')" and rs: "rs = r # rs1"
    using Cons.prems(3) c by (auto split: prod.splits)
  note one = one_claim [OF assms(1,2) _ c r, of i]
  show ?case
  proof (cases "went_through r")
    case True
    then have once: "unassigned_rows i (wdb w) = 1" "unassigned_rows i (wdb w1) = 0"
      and held: "\<forall>t. v_task (wdb w) i = Some t \<longrightarrow> unassigned_pending t \<longrightarrow> held_in_progress (wdb w1) i x"
      using one Cons.prems(2) by simp_all
    have late: "length rs1 = length cs" "\<forall>r \<in> set rs1. \<not> went_through r" "wdb w' = wdb w1"
      using late_claims [OF assms(1,2) _ once(2) rest] Cons.prems(2) by simp_all
    have "held_in_progress (wdb w') i (claimant ((c # cs) ! 0))"
      using one_unassigned [OF once(1) Cons.prems(1)] held late(3) c by (auto simp: claimant_def)
    moreover have "\<not> went_through (rs ! m)" if "m < length (c # cs)" "m \<noteq> 0" for m
      using that late rs by (cases m) (auto simp: all_set_conv_all_nth)
    ultimately show ?thesis using True late(1) rs by (intro conjI disjI2 exI [of _ 0]) auto
  next
    case False
    then have same: "wdb w1 = wdb w" using one Cons.prems(2) by simp
    from Cons.IH [OF _ _ rest] Cons.prems(1,2) same
    consider "length rs1 = length cs" "\<forall>r \<in> set rs1. \<not> went_through r" "wdb w' = wdb w"
      | n where "length rs1 = length cs" "n < length cs" "went_through (rs1 ! n)"
        "\<forall>m < length cs. m \<noteq> n \<longrightarrow> \<not> went_through (rs1 ! m)" "held_in_progress (wdb w') i (claimant (cs ! n))"
      by auto
    then show ?thesis
    proof cases
      case 1
      then show ?thesis using False rs by simp
    next
      case 2
      then have "\<not> went_through (rs ! m)" if "m < length (c # cs)" "m \<noteq> Suc n" for m
        using that False rs by (cases m) auto
      then show ?thesis using 2 rs by (intro conjI disjI2 exI [of _ "Suc n"]) auto
    qed
  qed
qed simp

subsection \<open>Batches account for every task\<close>

definition holds_task :: "vdb \<Rightarrow> id \<Rightarrow> id \<Rightarrow> bool" where
  "holds_task d i x \<longleftrightarrow> (\<exists>t. v_task d i = Some t \<and> T_DesignerID t = Some x \<and> T_CurrentHandlerID t = Some x)"

text \<open>One assignment to a designer, as far as the tasks are concerned.\<close>

lemma assign_tasks:
  assumes "quiet_assignment_notices s" and "Assign s now c p w = (r, w1)" and "AT_DesignerID p = Some x"
  shows "(\<forall>j. j \<noteq> AT_TaskID p \<longrightarrow> v_task (wdb w1) j = v_task (wdb w) j) \<and>
    (went_through r \<longrightarrow> holds_task (wdb w1) (AT_TaskID p) x)"
proof -
  have out: "assign_outcome s now c p (wdb w) r (wdb w1)" using assign_any [OF assms(1), of now c p w] assms(2) by simp
  consider "wdb w1 = wdb w" "\<not> went_through r"
    | task where "v_task (wdb w) (AT_TaskID p) = Some task" "already_assigned task x" "wdb w1 = wdb w"
    | task team where "v_task (wdb w) (AT_TaskID p) = Some task"
        "wdb w1 = assigned s now (assignment_seen s c task) p x (v_modules (wdb w)) team (wdb w)"
    using out assms(3) unfolding assign_outcome_def assignment_open_def
    by (auto simp: went_through_def nothing_to_do_def assignment_written_def split: if_splits)
  then show ?thesis
  proof cases
    case (3 task team)
    then show ?thesis
      using v_task_assigned [OF 3(1), of "assignment_seen s c task" s now x "v_modules (wdb w)" team]
      by (auto simp: holds_task_def v_task_assigned_other)
  qed (auto simp: holds_task_def already_assigned_def)
qed

definition accounted :: "BatchTaskActionResult \<Rightarrow> id list \<Rightarrow> bool" where
  "accounted result ids \<longleftrightarrow> map BI_TaskID (BX_Items result) = ids \<and> BX_Total result = int (length ids) \<and>
     BX_Succeeded result = int (length (filter BI_Success (BX_Items result))) \<and>
     BX_Failed result = int (length (filter (\<lambda>it. \<not> BI_Success it) (BX_Items result)))"

definition extends_items :: "BatchTaskActionResult \<Rightarrow> id list \<Rightarrow> BatchTaskActionResult \<Rightarrow> BatchTaskActionItemResult list \<Rightarrow> bool" where
  "extends_items result0 ids result items \<longleftrightarrow> BX_Items result = BX_Items result0 @ items \<and> map BI_TaskID items = ids \<and>
     BX_Total result = BX_Total result0 \<and> BX_Succeeded result = BX_Succeeded result0 + int (length (filter BI_Success items)) \<and>
     BX_Failed result = BX_Failed result0 + int (length (filter (\<lambda>it. \<not> BI_Success it) items))"

lemma add_item_fields [simp]:
  "BX_Items (add_item i e r) = BX_Items r @ [\<lparr>BI_TaskID = i, BI_Success = (e = None), BI_ErrorCode = e\<rparr>]"
  "BX_Total (add_item i e r) = BX_Total r"
  "BX_Succeeded (add_item i e r) = BX_Succeeded r + (if e = None then 1 else 0)"
  "BX_Failed (add_item i e r) = BX_Failed r + (if e = None then 0 else 1)"
  by (simp_all add: add_item_def)

lemma error_of_None [simp]: "error_of r = None \<longleftrightarrow> went_through r"
  by (cases r) (simp_all add: error_of_def went_through_def)

lemma assign_each_account:
  assumes "quiet_assignment_notices s" and "assign_each s now c p ids result0 w = (result, w')" and "distinct ids"
  shows "\<exists>items. extends_items result0 ids result items \<and>
    (\<forall>it \<in> set items. BI_Success it \<longrightarrow> holds_task (wdb w') (BI_TaskID it) (BA_DesignerID p)) \<and>
    (\<forall>j. j \<notin> set ids \<longrightarrow> v_task (wdb w') j = v_task (wdb w) j)"
  using assms(2,3)
proof (induction ids arbitrary: result0 w)
  case Nil
  then show ?case by (intro exI [of _ "[]"]) (simp add: extends_items_def)
next
  case (Cons i ids)
  let ?q = "batch_item_params p i"
  obtain r w1 where run: "Assign s now c ?q w = (r, w1)" by fastforce
  then have rest: "assign_each s now c p ids (add_item i (error_of r) result0) w1 = (result, w')"
    using Cons.prems(1) by simp
  obtain items where items: "extends_items (add_item i (error_of r) result0) ids result items"
      "\<forall>it \<in> set items. BI_Success it \<longrightarrow> holds_task (wdb w') (BI_TaskID it) (BA_DesignerID p)"
      "\<forall>j. j \<notin> set ids \<longrightarrow> v_task (wdb w') j = v_task (wdb w1) j"
    using Cons.IH [OF rest] Cons.prems(2) by auto
  have one: "\<forall>j. j \<noteq> i \<longrightarrow> v_task (wdb w1) j = v_task (wdb w) j" "went_through r \<longrightarrow> holds_task (wdb w1) i (BA_DesignerID p)"
    using assign_tasks [OF assms(1) run] by (simp_all add: batch_item_params_def)
  let ?it = "\<lparr>BI_TaskID = i, BI_Success = went_through r, BI_ErrorCode = error_of r\<rparr>"
  have "holds_task (wdb w') i (BA_DesignerID p)" if "went_through r"
    using that one(2) items(3) Cons.prems(2) by (simp add: holds_task_def)
  then show ?case
    using items one(1) by (intro exI [of _ "?it # items"]) (auto simp: extends_items_def)
qed

text \<open>The positive ids of a request, each at its first place.\<close>

fun first_ids :: "id list \<Rightarrow> id list" where
  "first_ids [] = []"
| "first_ids (i # is) = (if i > 0 then i # filter (\<lambda>j. j \<noteq> i) (first_ids is) else first_ids is)"

lemma normalized_order: "normalizeBatchTaskIDs ids = first_ids ids"
proof -
  let ?f = "\<lambda>taskID out. if taskID \<le> 0 \<or> taskID \<in> set out then out else out @ [taskID]"
  have "fold ?f ids out = out @ filter (\<lambda>j. j \<notin> set out) (first_ids ids)" for out :: "id list"
  proof (induction ids arbitrary: out)
    case (Cons i "is")
    have "filter (\<lambda>j. j \<notin> set (out @ [i])) xs = filter (\<lambda>j. j \<notin> set out) (filter (\<lambda>j. j \<noteq> i) xs)" for xs
      by (induction xs) auto
    moreover have "i \<in> set out \<Longrightarrow> filter (\<lambda>j. j \<notin> set out) (filter (\<lambda>j. j \<noteq> i) xs) = filter (\<lambda>j. j \<notin> set out) xs" for xs
      by (induction xs) auto
    ultimately show ?case using Cons.IH [of out] Cons.IH [of "out @ [i]"] by auto
  qed simp
  from this [of "[]"] show ?thesis by (simp add: normalizeBatchTaskIDs_def)
qed

lemma normalized_ids:
  "distinct (normalizeBatchTaskIDs ids) \<and> set (normalizeBatchTaskIDs ids) = {i \<in> set ids. i > 0}"
proof -
  let ?f = "\<lambda>taskID out. if taskID \<le> 0 \<or> taskID \<in> set out then out else out @ [taskID]"
  have "distinct out \<Longrightarrow> distinct (fold ?f ids out) \<and> set (fold ?f ids out) = set out \<union> {i \<in> set ids. i > 0}" for out :: "id list"
    by (induction ids arbitrary: out) auto
  from this [of "[]"] show ?thesis by (simp add: normalizeBatchTaskIDs_def)
qed

text \<open>
  (C39) A batch of assignments reports every positive id of the request once, in the order of the ids' first
  places, and its counts are those of its items, whatever fails in between. A task it reports as assigned is
  held by the designer when the batch is over, and no task outside the request has changed.
\<close>

theorem batch_assign_accounts:
  assumes "quiet_assignment_notices s" and "BatchAssign s now ctxActor p w = (Inr result, w')"
  shows "accounted result (first_ids (BA_TaskIDs p)) \<and>
    distinct (first_ids (BA_TaskIDs p)) \<and> set (first_ids (BA_TaskIDs p)) = {i \<in> set (BA_TaskIDs p). i > 0} \<and>
    (\<forall>it \<in> set (BX_Items result). BI_Success it \<longrightarrow> holds_task (wdb w') (BI_TaskID it) (BA_DesignerID p)) \<and>
    (\<forall>j. j \<notin> set (BA_TaskIDs p) \<longrightarrow> v_task (wdb w') j = v_task (wdb w) j)"
proof -
  let ?ids = "normalizeBatchTaskIDs (BA_TaskIDs p)"
  have run: "assign_each s now ctxActor p ?ids (batch_start (TrimSpace (BA_BatchRequestID p)) ?ids) w = (result, w')"
    using assms(2) by (auto simp: BatchAssign_def Let_def throw_def split: if_splits prod.splits)
  obtain items where "extends_items (batch_start (TrimSpace (BA_BatchRequestID p)) ?ids) ?ids result items"
      "\<forall>it \<in> set items. BI_Success it \<longrightarrow> holds_task (wdb w') (BI_TaskID it) (BA_DesignerID p)"
      "\<forall>j. j \<notin> set ?ids \<longrightarrow> v_task (wdb w') j = v_task (wdb w) j"
    using assign_each_account [OF assms(1) run conjunct1 [OF normalized_ids]] by blast
  then show ?thesis using normalized_ids [of "BA_TaskIDs p"]
    by (auto simp: accounted_def extends_items_def batch_start_def normalized_order)
qed

text \<open>A reminder moves no task.\<close>

lemma remind_one_tasks:
  assumes "remind_one s now p i w = (r, w1)"
  shows "v_modules (wdb w1) = v_modules (wdb w)"
proof -
  let ?tx = "\<lambda>task. bnd (taskEventRepo_Append (TN_uuid s) now i TaskEventReminded (Some (BR_ActorID p))
    (remind_payload s now p task i)) (\<lambda>_. ret ())"
  have tx: "keeps (\<lambda>d. v_modules d = m) (RunInTx (?tx task))" for m task
    by (intro keeps_RunInTx tripleI) (auto simp: act_success add_event_def dest!: taskEventRepo_Append_effect)
  have "keeps (\<lambda>d. v_modules d = m) (remind_one s now p i)" for m
    unfolding remind_one_def using tx reads_taskRepo [of i]
    by (intro keeps_bnd keeps_map_err) (auto simp: keeps_def reads_def split: option.splits intro!: keeps_map_err)
  then show ?thesis using assms unfolding keeps_def by (metis snd_conv)
qed

lemma remind_each_account:
  assumes "remind_each s now p ids result0 w = (result, w')"
  shows "v_modules (wdb w') = v_modules (wdb w) \<and> (\<exists>items. extends_items result0 ids result items)"
  using assms
proof (induction ids arbitrary: result0 w)
  case Nil
  then show ?case by (auto simp: extends_items_def intro!: exI [of _ "[]"])
next
  case (Cons i ids)
  obtain r w1 where run: "remind_one s now p i w = (r, w1)" by fastforce
  then have rest: "remind_each s now p ids (add_item i (error_of r) result0) w1 = (result, w')"
    using Cons.prems by simp
  obtain items where "extends_items (add_item i (error_of r) result0) ids result items" "v_modules (wdb w') = v_modules (wdb w1)"
    using Cons.IH [OF rest] by auto
  then show ?case using remind_one_tasks [OF run]
    by (auto simp: extends_items_def intro!: exI [of _ "\<lparr>BI_TaskID = i, BI_Success = went_through r, BI_ErrorCode = error_of r\<rparr> # items"])
qed

subsection \<open>Putting a claimed task back\<close>

lemma assignment_module_views [simp]:
  "assignmentModuleKey (assignment_seen s c t) = assignmentModuleKey t"
  "has_assignment_module s' (assignment_seen s c t) = has_assignment_module s' t"
  "module_pool_team (assignment_seen s c t) m = module_pool_team t m"
  "cleared_status (assignment_seen s c t) = cleared_status t"
  by (simp_all add: assignmentModuleKey_def has_assignment_module_def module_pool_team_def assignmentDefaultPoolTeam_def
      cleared_status_def Let_def)

text \<open>A task and its row after it has changed hands have the same module.\<close>

lemma assignment_module_rows [simp]:
  "assignmentModuleKey (t\<lparr>T_DesignerID := x, T_CurrentHandlerID := y, T_TaskStatus := st, T_UpdatedAt := u\<rparr>) = assignmentModuleKey t"
  "has_assignment_module s (t\<lparr>T_DesignerID := x, T_CurrentHandlerID := y, T_TaskStatus := st, T_UpdatedAt := u\<rparr>) =
     has_assignment_module s t"
  "module_pool_team (t\<lparr>T_DesignerID := x, T_CurrentHandlerID := y, T_TaskStatus := st, T_UpdatedAt := u\<rparr>) m = module_pool_team t m"
  by (simp_all add: assignmentModuleKey_def has_assignment_module_def module_pool_team_def assignmentDefaultPoolTeam_def
      isCustomizationAssignmentTask_def Task_WorkflowLane_def Let_def)

lemma task_modules_frame [simp]:
  "task_modules (v_modules (assignment_logged s now p task st x d)) = task_modules (v_modules d)"
  "task_modules (v_modules (assign_rows s now i task st y d)) = task_modules (v_modules d)"
  "task_modules (v_modules (row_status_moved now i task st d)) = task_modules (v_modules d)"
  "task_modules (v_modules (set_task_handler now i x d)) = task_modules (v_modules d)"
  "task_modules (v_modules (set_designer now i x d)) = task_modules (v_modules d)"
  by (simp_all add: assignment_logged_def add_event_def assign_rows_def row_status_moved_def claim_rows_def set_designer_def
      set_task_handler_def set_task_status_def Let_def)

lemma module_row_moved:
  "module_row (v_modules (module_moved s now ev f d)) i k = module_row (f (v_modules d)) i k"
  by (simp add: module_moved_def module_row_def)

lemma module_row_reassigned:
  "module_row (reassigned_rows now i k x team sn d) i k = map_option (\<lambda>m.
     if TM_State m \<in> set [ModuleStatePendingClaim, ModuleStateInProgress]
     then m\<lparr>TM_State := ModuleStateInProgress, TM_ClaimedBy := Some x, TM_ClaimedTeamCode := Some team,
       TM_ClaimedAt := Some now, TM_ActorOrgSnapshot := Some sn, TM_UpdatedAt := now\<rparr> else m) (module_row d i k)"
proof -
  have "find (same_module i k) (row_upd (\<lambda>m. same_module i k m \<and> p m) f ms) =
      map_option (\<lambda>m. if p m then f m else m) (find (same_module i k) ms)"
    if "\<And>m. same_module i k (f m) = same_module i k m" for p f ms
  proof -
    have "same_module i k m" if "find (same_module i k) ms = Some m" for m using find_SomeD [OF that] by simp
    then show ?thesis using that by (cases "find (same_module i k) ms") (simp_all add: find_row_upd)
  qed
  then show ?thesis by (simp add: module_row_def reassigned_rows_def same_module_def)
qed

lemma module_row_pooled:
  "module_row (pooled_rows now i k pool d) i k = map_option (\<lambda>m. m\<lparr>TM_State := ModuleStatePendingClaim,
     TM_PoolTeamCode := Some pool, TM_ClaimedBy := None, TM_ClaimedTeamCode := None, TM_ClaimedAt := None,
     TM_ActorOrgSnapshot := None, TM_UpdatedAt := now\<rparr>) (module_row d i k)"
proof -
  have "same_module i k m" if "find (same_module i k) ms = Some m" for m ms using find_SomeD [OF that] by simp
  then show ?thesis
    by (cases "find (same_module i k) (task_modules d)") (simp_all add: module_row_def pooled_rows_def find_row_upd same_module_def)
qed

lemma module_row_cong: "task_modules d = task_modules d' \<Longrightarrow> module_row d i k = module_row d' i k"
  by (simp add: module_row_def)

lemma synced_row:
  "synced_module s i task m = Some r \<longleftrightarrow> has_assignment_module s task \<and> module_row m i (assignmentModuleKey task) = Some r \<and>
     \<not> Terminal (TM_State r)"
  by (auto simp: synced_module_def open_module_def split: option.splits if_splits)

text \<open>The module the assignment leaves open, with the pool it had.\<close>

lemma synced_after_assign:
  assumes "synced_module s (AT_TaskID p) task (v_modules d) = Some m"
  shows "\<exists>m1. synced_module s (AT_TaskID p) task (v_modules (assigned s now task p x (v_modules d) team d)) = Some m1 \<and>
    TM_PoolTeamCode m1 = TM_PoolTeamCode m"
proof -
  let ?d = "assignment_logged s now p task (OP_ResultingStatus (resolveTaskAssignmentOperation task)) (Some x)
    (assign_rows s now (AT_TaskID p) task (OP_ResultingStatus (resolveTaskAssignmentOperation task)) x d)"
  let ?k = "assignmentModuleKey task" and ?i = "AT_TaskID p"
  let ?d1 = "assigned s now task p x (v_modules d) team d"
  have m: "has_assignment_module s task" "module_row (v_modules d) ?i ?k = Some m" "\<not> Terminal (TM_State m)"
    using assms synced_row by blast+
  have row: "module_row (v_modules ?d) ?i ?k = Some m" using m(2) by (simp add: module_row_def)
  have "v_modules ?d1 = v_modules (module_moved s now (assigned_event p x (T_DesignerID task) m)
      (reassigned_rows now ?i ?k x team (assignmentActorSnapshot (AT_AssignedBy p))) ?d)"
    using assms by (simp add: assigned_def module_assigned_def Let_def)
  then have "\<exists>m1. module_row (v_modules ?d1) ?i ?k = Some m1 \<and> \<not> Terminal (TM_State m1) \<and> TM_PoolTeamCode m1 = TM_PoolTeamCode m"
    using m(3) by (simp add: module_row_moved module_row_reassigned row)
  then show ?thesis using m(1) synced_row by blast
qed

lemma row_after_clear:
  assumes "synced_module s (AT_TaskID p) task (v_modules d) = Some m"
  shows "\<exists>m'. module_row (v_modules (cleared s now task p (v_modules d) d)) (AT_TaskID p) (assignmentModuleKey task) = Some m' \<and>
    TM_State m' = ModuleStatePendingClaim \<and> TM_ClaimedBy m' = None \<and> TM_ClaimedTeamCode m' = None \<and>
    TM_PoolTeamCode m' = Some (module_pool_team task m)"
proof -
  let ?d = "assignment_logged s now p task (cleared_status task) None (row_status_moved now (AT_TaskID p) task (cleared_status task)
         (set_task_handler now (AT_TaskID p) None (set_designer now (AT_TaskID p) None d)))"
  let ?k = "assignmentModuleKey task" and ?i = "AT_TaskID p"
  have "module_row (v_modules ?d) ?i ?k = Some m" using assms by (simp add: module_row_def synced_row)
  moreover have "v_modules (cleared s now task p (v_modules d) d) = v_modules (module_moved s now (unassigned_event p task m)
      (pooled_rows now ?i ?k (module_pool_team task m)) ?d)"
    using assms by (simp add: cleared_def module_unassigned_def)
  ultimately show ?thesis by (simp add: module_row_moved module_row_pooled)
qed

lemma written_task:
  assumes "quiet_assignment_notices s" and "Assign s now c p w = (Inr t, w1)" and "v_task (wdb w) (AT_TaskID p) = Some task"
    and "\<not> nothing_to_do p task"
  shows "assignment_written s now c p task (wdb w) (wdb w1)"
proof -
  have "assign_outcome s now c p (wdb w) (Inr t) (wdb w1)" using assign_any [OF assms(1), of now c p w] assms(2) by simp
  then show ?thesis using assms(3,4) by (auto simp: assign_outcome_def assignment_open_def split: if_splits)
qed

text \<open>
  (C40) Assigning a task that waits and then putting it back restores its row but for the time of the last
  update and leaves every other task alone; its module, if it was open, can be claimed again by the pool it was
  in, or the lane's own if it named none. Both events stay in the log.
\<close>

theorem unassigning_undoes_assignment:
  assumes quiet: "quiet_assignment_notices s"
    and task: "v_task (wdb w) (AT_TaskID p) = Some task" "unassigned_pending task"
    and assign: "AT_DesignerID p = Some x" "Assign s now ctxActor p w = (Inr t1, w1)"
    and clear: "AT_TaskID p' = AT_TaskID p" "AT_DesignerID p' = None" "Assign s now' ctxActor' p' w1 = (Inr t2, w2)"
  shows "(\<exists>u. v_task (wdb w2) (AT_TaskID p) = Some (task\<lparr>T_UpdatedAt := u\<rparr>)) \<and>
    (\<forall>j. j \<noteq> AT_TaskID p \<longrightarrow> v_task (wdb w2) j = v_task (wdb w) j) \<and>
    (\<forall>m. synced_module s (AT_TaskID p) task (v_modules (wdb w)) = Some m \<longrightarrow>
      (\<exists>m'. module_row (v_modules (wdb w2)) (AT_TaskID p) (assignmentModuleKey task) = Some m' \<and>
         TM_State m' = ModuleStatePendingClaim \<and> TM_ClaimedBy m' = None \<and> TM_ClaimedTeamCode m' = None \<and>
         TM_PoolTeamCode m' = Some (module_pool_team task m)))"
proof -
  let ?i = "AT_TaskID p" and ?seen = "assignment_seen s ctxActor task"
  have "\<not> nothing_to_do p task" using task(2) assign(1) by (simp add: nothing_to_do_def already_assigned_def unassigned_pending_def)
  then obtain team where d1: "wdb w1 = assigned s now ?seen p x (v_modules (wdb w)) team (wdb w)"
    using written_task [OF quiet assign(2) task(1)] assign(1) by (auto simp: assignment_written_def)
  have st: "OP_ResultingStatus (resolveTaskAssignmentOperation task) = TaskStatusInProgress"
    using task(2) by (simp add: operation_status unassigned_pending_def isCustomizationProductionAssignmentTask_def)
  obtain u where row1: "v_task (wdb w1) ?i = Some (task\<lparr>T_DesignerID := Some x, T_CurrentHandlerID := Some x,
      T_TaskStatus := TaskStatusInProgress, T_UpdatedAt := u\<rparr>)" (is "_ = Some ?r")
    using v_task_assigned [OF task(1), of ?seen s now x "v_modules (wdb w)" team] d1 st by auto
  let ?seen' = "assignment_seen s ctxActor' ?r"
  have "\<not> nothing_to_do p' ?r" using clear(2) by (simp add: nothing_to_do_def unassigned_pending_def)
  then have d2: "wdb w2 = cleared s now' ?seen' p' (v_modules (wdb w1)) (wdb w1)"
    using written_task [OF quiet clear(3)] row1 clear(1,2) by (simp add: assignment_written_def)
  have "cleared_status ?seen' = TaskStatusPendingAssign" by (simp add: cleared_status_def)
  then have "\<exists>u'. v_task (wdb w2) ?i = Some (task\<lparr>T_DesignerID := None, T_CurrentHandlerID := None,
      T_TaskStatus := TaskStatusPendingAssign, T_UpdatedAt := u'\<rparr>)"
    using v_task_cleared [of "wdb w1" p' ?r ?seen' s now' "v_modules (wdb w1)"] row1 clear(1) d2 by simp
  moreover have "task\<lparr>T_DesignerID := None, T_CurrentHandlerID := None, T_TaskStatus := TaskStatusPendingAssign,
      T_UpdatedAt := u'\<rparr> = task\<lparr>T_UpdatedAt := u'\<rparr>" for u'
    using task(2) by (cases task) (simp add: unassigned_pending_def)
  ultimately have row2: "\<exists>u'. v_task (wdb w2) ?i = Some (task\<lparr>T_UpdatedAt := u'\<rparr>)" by simp
  have others: "v_task (wdb w2) j = v_task (wdb w) j" if "j \<noteq> ?i" for j
    using that d1 d2 clear(1) by (simp add: v_task_assigned_other)
  have "\<exists>m'. module_row (v_modules (wdb w2)) ?i (assignmentModuleKey task) = Some m' \<and>
         TM_State m' = ModuleStatePendingClaim \<and> TM_ClaimedBy m' = None \<and> TM_ClaimedTeamCode m' = None \<and>
         TM_PoolTeamCode m' = Some (module_pool_team task m)"
    if m: "synced_module s ?i task (v_modules (wdb w)) = Some m" for m
  proof -
    have "synced_module s ?i ?seen (v_modules (wdb w)) = Some m" using m by (simp add: synced_row)
    then obtain m1 where m1: "synced_module s ?i ?seen (v_modules (wdb w1)) = Some m1" "TM_PoolTeamCode m1 = TM_PoolTeamCode m"
      using synced_after_assign d1 by metis
    then have "synced_module s (AT_TaskID p') ?seen' (v_modules (wdb w1)) = Some m1" using clear(1) by (simp add: synced_row)
    moreover have "module_pool_team task m1 = module_pool_team task m" using m1(2) by (simp add: module_pool_team_def)
    ultimately show ?thesis
      using row_after_clear [of s p' ?seen' "wdb w1" m1 now'] d2 clear(1) by simp
  qed
  then show ?thesis using row2 others by blast
qed

subsection \<open>An example\<close>

definition demo_assignment :: taskAssignmentService where
  "demo_assignment = \<lparr>TN_catalog = empty_catalog, TN_dataScopeResolver = False, TN_scopeUserRepo = False,
     TN_taskModuleRepo = True, TN_taskModuleEventRepo = True, TN_pendingAssignmentCASUpdater = True,
     TN_notifications = Some (\<lambda>_ _. ret ()), TN_fmtTime = (\<lambda>_. ''t''), TN_uuid = (\<lambda>n. replicate n CHR ''u'')\<rparr>"

definition demo_assign :: "id option \<Rightarrow> AssignTaskParams" where
  "demo_assign x = \<lparr>AT_TaskID = 1, AT_DesignerID = x, AT_AssignedBy = 2, AT_Remark = [], AT_BatchRequestID = []\<rparr>"

definition demo_assignment_admin :: RequestActor where
  "demo_assignment_admin = demo_actor 7 [RoleAdmin] []"

definition assignment_world :: "vdb world" where
  "assignment_world = \<lparr>wdb = (demo_vdb demo_task [])\<lparr>v_modules := demo_db\<lparr>tasks := [demo_task],
     task_modules := [demo_module 1 ModuleKeyDesign ModuleStatePendingClaim (Some TeamDesignStandard) None],
     next_module_id := 2\<rparr>\<rparr>, faults = []\<rparr>"

lemma demo_assignment_quiet: "quiet_assignment_notices demo_assignment"
  by (simp add: quiet_assignment_notices_def demo_assignment_def read_only)



text \<open>Facts that run the service on a database given in full.\<close>

lemmas assignment_eval =
  Assign_def assign_gates_def check_def getTask_def assignment_decision_def isTaskAssignmentSelfClaim_def assignment_actor_def
  assignment_seen_def isActorTakingTaskAlreadyClaimedByOther_def taskAlreadyClaimedByOther_def held_by_other_def purchase_refused_def
  assign_to_def validateAssignableDesignerTarget_def validateManagedDepartmentTarget_def needs_managed_target_def
  already_assigned_def run_on_snapshot_def assign_tx_def write_assignment_def unassigned_pending_def
  taskRepo_ClaimPendingAssignment_def ClaimPendingAssignment_def within_def assignment_event_def taskEventRepo_Append_def
  nextTaskEventSequence_def insert_task_event_def task_uuid_New_def task_exists_def set_sequence_def
  syncAssignmentModule_def assignment_module_def has_assignment_module_def GetByTaskAndKey_outside_def assignmentModuleKey_def
  open_module_def resolveAssignedDesignerTeam_def Reassign_def log_module_event_def EventInsert_def assigned_event_def
  createAssignmentNotification_def reread_assigned_def taskRepo_GetByID_def TaskRepo_GetByID_def infra_v_def
  reindexTaskSearchDocument_def isCustomizationAssignmentTask_def isCustomizationProductionAssignmentTask_def
  clearAssignment_def clear_tx_def cleared_status_def syncAssignmentModuleUnassignment_def PoolReassign_def unassigned_event_def
  taskRepo_UpdateDesigner_def taskRepo_UpdateHandler_def taskRepo_UpdateStatus_def UpdateDesigner_def UpdateHandler_def
  UpdateStatus_def upd_task_def taskAssignmentAllowsInProgressReassign_def taskActionDecisionHasElevatedScope_def
  assignment_world_def demo_assignment_def demo_vdb_def demo_db_def demo_task_def demo_assign_def demo_module_def put_modules_def
  RunInTx_def query_def exec_def stmt_def bnd_def ret_def map_err_def throw_def ignore_err_def row_upd_def task_row_def module_row_def
  same_module_def ci_eq_def v_task_def insert_event_def mevent_def Let_def

lemma demo_assignment_admin_actor:
  "resolveTaskActionActor (Some demo_assignment_admin) = Some \<lparr>AA_ID = 7, AA_Username = ''u'', AA_Roles = [RoleAdmin],
     AA_Department = [], AA_Team = [], AA_ManagedDepartments = [], AA_ManagedTeams = []\<rparr>"
  by (simp add: resolveTaskActionActor_def demo_assignment_admin_def demo_actor_def demo_access_def Let_def
      normalizeTaskDepartmentCode_def normalizeTaskDepartmentCodes_def keep_first_def string_eval)


lemma admin_reassigns:
  assumes "resolveTaskActionActor c = Some a" and "RoleAdmin \<in> set (AA_Roles a)" and "T_TaskStatus t = TaskStatusInProgress"
  obtains d where "EvaluateTaskActionPolicy cat res users c TaskActionReassign (Some t) [] [] w = (Inr d, w)"
    "D_Allowed d" "D_ScopeSource d = scope_string TaskActionScopeViewAll"
proof -
  let ?rule = "taskActionRuleFor TaskActionReassign" and ?t = "applyTaskReadModelOrgOwnership cat t"
  let ?d = "start_decision a ?rule TaskActionReassign (Some ?t) [] []"
  let ?e = "evaluateTaskActionScope a (Some ?t) (D_OwnerDept ?d) (D_OwnerOrgTeam ?d)"
  have scope: "TaskActionScopeViewAll \<in> set ?e" using assms(2) by (simp add: mem_evaluate scope_matches_def hasAnyRoleValue_iff)
  have rule: "AR_AllowedScopes ?rule = TaskActionScopeViewAll # tl (AR_AllowedScopes ?rule)" "AR_AllowedStatuses ?rule = [TaskStatusInProgress]"
    "\<not> AR_UseReadVisibility ?rule"
    by (simp_all add: taskActionRuleFor_def no_rule_def)
  have role: "ActorHasAnyRole (AA_Roles a) (AR_RequiredRoles ?rule)"
    by (rule required_role [OF assms(2)]) (simp_all add: taskActionRuleFor_def no_rule_def IsKnownRole_def managerRoles_def)
  have elevated: "taskActionScopeHasElevatedMatch a ?e" using scope by (simp add: taskActionScopeHasElevatedMatch_def)
  have manager: "taskActionActorHasManagementScopeRole a"
    using assms(2) by (simp add: taskActionActorHasManagementScopeRole_def hasAnyRoleValue_iff)
  have found: "List.find (\<lambda>scope. scope \<in> set ?e \<and> taskActionActorCanUseScope a scope) (AR_AllowedScopes ?rule) =
      Some TaskActionScopeViewAll"
    by (subst rule(1)) (simp add: scope taskActionActorCanUseScope_def)
  have "evaluate_write a ?rule TaskActionReassign (Some ?t) ?d =
      allow (scope_string TaskActionScopeViewAll) (?d\<lparr>D_ScopeSource := scope_string TaskActionScopeViewAll\<rparr>)"
    unfolding evaluate_write_def Let_def found using elevated manager by simp
  then show ?thesis
    using assms(1,3) rule(2,3) role
    by (intro that [of "evaluate_write a ?rule TaskActionReassign (Some ?t) ?d"])
      (simp_all add: EvaluateTaskActionPolicyWithAttributes_def resolveTaskAction_def audit_actions_def
        actorHasAllowedTaskActionRole_def taskActionStatusAllowed_def ret_def allow_def Let_def)
qed

definition assigned_world :: "vdb world" where
  "assigned_world = snd (Assign demo_assignment 5 None (demo_assign (Some 9)) assignment_world)"

definition demo_assigned :: Task where
  "demo_assigned = demo_task\<lparr>T_DesignerID := Some 9, T_CurrentHandlerID := Some 9, T_TaskStatus := TaskStatusInProgress,
     T_UpdatedAt := 5\<rparr>"

lemma demo_assign_runs:
  "Assign demo_assignment 5 None (demo_assign (Some 9)) assignment_world = (Inr demo_assigned, assigned_world)"
proof -
  have "fst (Assign demo_assignment 5 None (demo_assign (Some 9)) assignment_world) = Inr demo_assigned"
    by (simp add: assignment_eval resolveTaskAssignmentOperation_def EvaluateTaskActionPolicyWithAttributes_def
        resolveTaskActionActor_def demo_assigned_def)
  then show ?thesis by (simp add: assigned_world_def prod_eq_iff)
qed

lemma assigned_world_task: "getTask 1 assigned_world = (Inr demo_assigned, assigned_world)"
  by (simp add: assigned_world_def assignment_eval resolveTaskAssignmentOperation_def EvaluateTaskActionPolicyWithAttributes_def
        resolveTaskActionActor_def demo_assigned_def)

lemma demo_clear_gates:
  "\<exists>d. assign_gates demo_assignment (Some demo_assignment_admin) (demo_assign None) assigned_world = (Inr (demo_assigned, d), assigned_world)"
proof -
  have st: "T_TaskStatus demo_assigned = TaskStatusInProgress" "T_TaskType demo_assigned \<noteq> TaskTypePurchaseTask"
    by (simp_all add: demo_assigned_def demo_task_def)
  have prod: "\<not> isCustomizationProductionAssignmentTask demo_assigned"
    by (simp add: isCustomizationProductionAssignmentTask_def st)
  obtain d where d: "EvaluateTaskActionPolicy (TN_catalog demo_assignment) (TN_dataScopeResolver demo_assignment)
      (assignment_users demo_assignment) (Some demo_assignment_admin) TaskActionReassign (Some demo_assigned) [] [] assigned_world =
      (Inr d :: ErrCode + TaskActionDecision, assigned_world)" "D_Allowed d"
      "D_ScopeSource d = scope_string TaskActionScopeViewAll"
    by (rule admin_reassigns [OF demo_assignment_admin_actor _ st(1)]) simp
  have dec: "assignment_decision demo_assignment (Some demo_assignment_admin) (demo_assign None) demo_assigned assigned_world = (Inr d, assigned_world)"
    using d(1) st(1) prod by (simp add: assignment_decision_def bnd_def ret_def isTaskAssignmentSelfClaim_def Let_def)
  have seen: "assignment_seen demo_assignment (Some demo_assignment_admin) demo_assigned = demo_assigned"
    by (simp add: assignment_seen_def demo_assignment_def demo_assigned_def demo_task_def)
  have ops: "taskAssignmentAllowsInProgressReassign (Some demo_assignment_admin) demo_assigned (resolveTaskAssignmentOperation demo_assigned) d"
    by (simp add: taskAssignmentAllowsInProgressReassign_def taskActionDecisionHasElevatedScope_def d(3) Let_def)
  show ?thesis
    unfolding assign_gates_def
    by (simp add: demo_assign_def check_def bnd_def ret_def assigned_world_task dec [unfolded demo_assign_def] seen ops d(2) st
        purchase_refused_def isActorTakingTaskAlreadyClaimedByOther_def Let_def)
qed

lemma demo_clear_runs:
  "\<exists>t w2. Assign demo_assignment 6 (Some demo_assignment_admin) (demo_assign None) assigned_world = (Inr t, w2)"
proof -
  have "\<exists>t. fst (clearAssignment demo_assignment 6 demo_assigned (demo_assign None) assigned_world) = Inr t"
    by (simp add: assigned_world_def assignment_eval resolveTaskAssignmentOperation_def EvaluateTaskActionPolicyWithAttributes_def
        resolveTaskActionActor_def demo_assigned_def)
  then obtain t w2 where cleared: "clearAssignment demo_assignment 6 demo_assigned (demo_assign None) assigned_world = (Inr t, w2)"
    by (metis prod.collapse)
  obtain d where "assign_gates demo_assignment (Some demo_assignment_admin) (demo_assign None) assigned_world = (Inr (demo_assigned, d), assigned_world)"
    using demo_clear_gates by blast
  moreover have "AT_DesignerID (demo_assign None) = None" by (simp add: demo_assign_def)
  ultimately show ?thesis using cleared by (simp add: Assign_def bnd_def)
qed


definition demo_claims :: "stale_claim list" where
  "demo_claims = [(5, demo_task, demo_assign (Some 9), 9, 9), (6, demo_task, demo_assign (Some 8), 8, 8)]"

lemma demo_claims_stale: "\<forall>c \<in> set demo_claims. read_unassigned 1 c"
  by (simp add: demo_claims_def read_unassigned_def unassigned_pending_def demo_assign_def demo_task_def)

theorem pending_assignment_exclusive_witness:
  "\<exists>rs w'. run_claims demo_assignment demo_claims assignment_world = (rs, w') \<and> length rs = length demo_claims \<and>
    ((\<forall>r \<in> set rs. \<not> went_through r) \<and> wdb w' = wdb assignment_world \<or>
     (\<exists>n < length demo_claims. went_through (rs ! n) \<and>
        (\<forall>m < length demo_claims. m \<noteq> n \<longrightarrow> \<not> went_through (rs ! m)) \<and>
        held_in_progress (wdb w') 1 (claimant (demo_claims ! n))))"
proof -
  obtain rs w' where run: "run_claims demo_assignment demo_claims assignment_world = (rs, w')" by fastforce
  have "TN_pendingAssignmentCASUpdater demo_assignment" "distinct (map T_ID (tasks (v_modules (wdb assignment_world))))"
    by (simp_all add: demo_assignment_def assignment_world_def)
  from pending_assignment_exclusive [OF demo_assignment_quiet this demo_claims_stale run] run show ?thesis by blast
qed

definition demo_batch :: BatchAssignTasksParams where
  "demo_batch = \<lparr>BA_TaskIDs = [1, 0, 3, 1], BA_DesignerID = 9, BA_AssignedBy = 2, BA_Remark = [], BA_BatchRequestID = ''b''\<rparr>"

lemma demo_batch_ids: "normalizeBatchTaskIDs (BA_TaskIDs demo_batch) = [1, 3]"
  by (simp add: normalizeBatchTaskIDs_def demo_batch_def)

theorem batch_assign_accounts_witness:
  "\<exists>result w'. BatchAssign demo_assignment 5 None demo_batch assignment_world = (Inr result, w') \<and>
    accounted result [1, 3] \<and>
    (\<forall>it \<in> set (BX_Items result). BI_Success it \<longrightarrow> holds_task (wdb w') (BI_TaskID it) 9)"
proof -
  obtain result w' where run: "BatchAssign demo_assignment 5 None demo_batch assignment_world = (Inr result, w')"
    by (cases "assign_each demo_assignment 5 None demo_batch [1, 3] (batch_start (TrimSpace (BA_BatchRequestID demo_batch)) [1, 3]) assignment_world")
      (simp add: BatchAssign_def demo_batch_ids Let_def del: assign_each.simps)
  have "BA_DesignerID demo_batch = 9" by (simp add: demo_batch_def)
  then show ?thesis using batch_assign_accounts [OF demo_assignment_quiet run] run demo_batch_ids by (auto simp: normalized_order)
qed

theorem unassigning_undoes_assignment_witness:
  "\<exists>t w2 u. Assign demo_assignment 6 (Some demo_assignment_admin) (demo_assign None) assigned_world = (Inr t, w2) \<and>
    v_task (wdb w2) 1 = Some (demo_task\<lparr>T_UpdatedAt := u\<rparr>)"
proof -
  obtain t w2 where clear: "Assign demo_assignment 6 (Some demo_assignment_admin) (demo_assign None) assigned_world = (Inr t, w2)"
    using demo_clear_runs by blast
  have "v_task (wdb assignment_world) (AT_TaskID (demo_assign (Some 9))) = Some demo_task" "unassigned_pending demo_task"
    "AT_DesignerID (demo_assign (Some 9)) = Some 9" "AT_TaskID (demo_assign None) = AT_TaskID (demo_assign (Some 9))"
    "AT_DesignerID (demo_assign None) = None" "AT_TaskID (demo_assign (Some 9)) = 1"
    by (simp_all add: assignment_world_def demo_assign_def v_task_def task_row_def demo_task_def unassigned_pending_def)
  with unassigning_undoes_assignment [OF demo_assignment_quiet _ _ _ demo_assign_runs _ _ clear] clear
  show ?thesis by metis
qed

end
