(* ===== verification/Spec2Isabelle.thy ===== *)
theory Spec2Isabelle
  imports Kernel_System Event_Dispatcher Module_System Code_Rule Task_Draft Org_Move Outsource_Cycle Production_Cycle Task_Assignment
begin

section \<open>The workflow server: what is modelled and what is proved\<close>

text \<open>
  The repository is the back end of an order and design workflow: HTTP handlers call services
  (\<^verbatim>\<open>src/service\<close>), services call repositories (\<^verbatim>\<open>src/repo/mysql\<close>) inside and outside of MySQL
  transactions, workers (\<^verbatim>\<open>src/workers\<close>) poll the same tables. This development models the parts
  that carry the program's own state machines and invariants, in four groups.

  \<^bold>\<open>Foundations.\<close>
  \<^item> \<open>Prelude\<close>: theorem collections, Go's string functions on bytes, tables as lists of rows, reachable
    states and the locale \<open>inductive_invariant\<close>. \<open>Go_Strings\<close>: facts on trimmed strings.
  \<^item> \<open>Tx_Monad\<close>: a database action takes a world (database and schedule of faults) to a result and a
    world; one SQL statement is one \<open>stmt\<close>, and any statement, begin or commit may fail. \<open>RunInTx\<close> is
    \<^verbatim>\<open>DB.RunInTx\<close>; the locale \<open>tx_runner\<close> states what services rely on and is interpreted on it.
    \<open>triple\<close> and \<open>keeps\<close> are the two judgements of the proofs. ``Under any failures'' below means: for
    every schedule of faults.
  \<^item> \<open>Go_Json\<close>, \<open>Go_Json_Object\<close>: the scanner of \<^verbatim>\<open>encoding/json\<close>, the \<open>Unmarshal\<close> forms in use, 64-bit wrap-around.
    \<open>Go_Format\<close>: decimal printing and parsing, padding, \<open>Join\<close> and \<open>SplitN\<close>, base64, with their round trips.

  \<^bold>\<open>The distribution kernel\<close> (SKUs, asset versions, audits, distribution jobs, incidents, policies).
  \<^item> \<open>Kernel_Domain\<close>: rows and enumerations of \<^verbatim>\<open>domain/enums.go\<close> and \<^verbatim>\<open>entities.go\<close>; \<open>Policy_Engine\<close>: \<^verbatim>\<open>policy/engine.go\<close>.
  \<^item> \<open>Event_Log\<close>: sequence numbers and both event writers; the locale \<open>event_sink\<close> is their common
    contract. \<open>Kernel_Store\<close>: the repositories, one definition per method.
  \<^item> \<open>Kernel_Invariant\<close> (what every committed state satisfies, and a triple per operation) and
    \<open>Kernel_Exec\<close> (what a transaction does when nothing fails).
  \<^item> \<open>Sku_Service\<close>, \<open>Audit_Service\<close>, \<open>Agent_Service\<close>, \<open>Incident_Service\<close>: the services, each method with its
    preflight, its transaction and its error mapping. Shown: transitions, audits and
    acknowledgements are all or nothing; a repeated audit action is answered from the log; an outdated
    attempt of a job is refused; over any sequence of pulls no job is handed out twice.
  \<^item> \<open>Kernel_Workers\<close>: lease reaper, retry scheduler, verify worker; the back-off in 64-bit arithmetic.
  \<^item> \<open>Kernel_System\<close>: all requests and ticks interleaved, with crashes. \<open>running_kernel_consistent\<close>: in
    every reachable state each SKU's log replays to its status and the keys are unique.
    \<open>service_calls_are_runs\<close>: every service call is a run of that relation.
  \<^item> \<open>Event_Dispatcher\<close>: publication of the log behind a cursor. The recursion on full batches has a
    fuel argument; \<open>dispatch_drains_log\<close> shows that one call per hundred events, plus one, is enough.

  \<^bold>\<open>The task module engine\<close> (tasks, their modules, claims, actions, cancellation).
  \<^item> \<open>Module_Domain\<close>, \<open>Module_Registry\<close> (\<^verbatim>\<open>service/module\<close>, \<^verbatim>\<open>service/blueprint/registry.go\<close>), \<open>Module_Store\<close>
    (\<^verbatim>\<open>repo/mysql/task_module_repo.go\<close>, \<^verbatim>\<open>task_module_event_repo.go\<close>; the locale \<open>module_table\<close>), \<open>Module_Invariant\<close>.
  \<^item> \<open>Rule_Engine\<close> (\<^verbatim>\<open>service/blueprint/rules.go\<close>), \<open>Permission\<close> (\<^verbatim>\<open>service/permission\<close>), \<open>Task_Pool\<close>
    (\<^verbatim>\<open>service/task_pool\<close>), \<open>Module_Action\<close> (\<^verbatim>\<open>service/module_action\<close>), \<open>Task_Cancel\<close> (\<^verbatim>\<open>service/task_cancel\<close>,
    \<^verbatim>\<open>service/task_aggregator\<close>). Shown: a module is claimed by one actor only and what the pool lists
    can be claimed; only the claimant decides; a cancellation closes the whole task; \<open>apply_refines_flow\<close>:
    the whole of \<open>Apply\<close> (authorisation, transaction, rules) implements an abstract flow over module
    states.
  \<^item> \<open>Module_System\<close>: any sequence of whole calls; \<open>module_log_agrees_with_table\<close>: the event log and the module
    table agree in every state so reached. An action decided on a row that has changed since can break the
    agreement, \<open>stale_action_logs_old_state\<close>.

  \<^bold>\<open>Services around the tasks.\<close>
  \<^item> \<open>Code_Rule\<close> (\<^verbatim>\<open>service/code_rule_service.go\<close>): no code is handed out twice, and the n-th code of a
    rule that never resets ends in n. The reset cycle of a rule is ignored, \<open>reset_cycle_is_ignored\<close>.
  \<^item> \<open>Task_Draft\<close> (\<^verbatim>\<open>service/task_draft\<close>): saving is a round trip, other users' drafts are out of reach,
    the pages of the listing cover it. \<open>read_pages\<close> is a client with a bound on its requests; one more
    than the number of drafts is enough.
  \<^item> \<open>Identity_Domain\<close>, \<open>Org_Move\<close> (\<^verbatim>\<open>service/org_move_request\<close>): a request is decided once, an approval
    moves exactly its user, department administrators see their own departments.

  \<^bold>\<open>The task workflow\<close> (who may do what to a task, and its assignment, audit, outsourcing, customization and warehouse steps).
  \<^item> \<open>Task_Org\<close> (\<^verbatim>\<open>service/task_org_ownership.go\<close>, \<^verbatim>\<open>task_org_catalog.go\<close>, \<^verbatim>\<open>task_owner_team.go\<close>): the owner
    department and team of a task. The ownership stored for a new task reads back unchanged; where a
    Go map is ranged over, the argument is the list of its entries in the order of the visit, and
    \<open>org_team_department_order_free_iff\<close> says when that order matters.
  \<^item> \<open>Task_Rules\<close> (\<^verbatim>\<open>service/task_action_rules.go\<close>): roles and the rule of every action. \<open>Data_Scope\<close>
    (\<^verbatim>\<open>service/data_scope.go\<close>, \<^verbatim>\<open>task_data_scope_guard.go\<close>): the stage visibilities of roles against their
    meaning, and the guard of one task against the SQL condition of the listing.
    \<open>Task_Authorizer\<close> (\<^verbatim>\<open>service/task_action_scope.go\<close>, \<^verbatim>\<open>task_action_authorizer.go\<close>): the decision on an
    action is the conjunction of its gates, \<open>allowed_action_iff\<close>.
  \<^item> \<open>Workflow_Store\<close>: the tables of these services and the repositories over them, on top of
    the tables of tasks and numbering rules (the locale \<open>db_part\<close> lifts an action on a part). Each
    update has its effect on the database as a function, collected in \<open>effects\<close>; the locale
    \<open>numbered_log\<close> is the contract of the log of task events.
  \<^item> \<open>Audit_V7\<close> (\<^verbatim>\<open>service/audit_v7_service.go\<close>), \<open>Outsource\<close> and \<open>Outsource_Cycle\<close>
    (\<^verbatim>\<open>service/outsource_service.go\<close>), \<open>Warehouse\<close> (\<^verbatim>\<open>service/warehouse_service.go\<close>): every operation
    with its checks, transaction and answer. Shown for each service: a call has its specified
    effect or none, under any failures, and the specification names every gate a returning call has passed
    (authoriser, lane policy, status). Beyond that, over sequences of whole calls, one after another: one handover of a task waits at a time; an order
    and its task, and a receipt and its task, move together along the step relations \<open>order_step\<close> and
    \<open>receipt_step\<close>, whose invariant comes from the locale \<open>inductive_invariant\<close>. What breaks these
    contracts from outside the service is stated as lemmas (\<open>handovers_race\<close>, \<open>creates_race\<close>,
    \<open>approve_strands_order\<close>).
  \<^item> \<open>Auto_Release\<close> (\<^verbatim>\<open>service/warehouse_auto_release_job.go\<close>): the job that receives, completes and closes
    what the warehouse has left alone. A release is one step of \<open>release_step\<close> or nothing, a run accounts
    for what it found, a task that moved in between is left alone.
  \<^item> \<open>Customization\<close> (\<^verbatim>\<open>service/task_customization_service.go\<close>): review, preview, effect review and transfer of
    a customization job, with its pricing by level and the operator's employment type; a call is all or nothing.
  \<^item> \<open>Task_Assignment\<close> (\<^verbatim>\<open>service/task_assignment_service.go\<close>): assigning a task, taking it over, putting it
    back, and the two batches. A call has its effect on task, event and module together or none, and only
    behind its gates, the managed departments among them; of claims made on the same reading of a task one goes through; putting a task back
    undoes its assignment; a batch accounts for its tasks.
  \<^item> \<open>Production_Cycle\<close>: calls of customization, warehouse and release job in any order, one ending before the
    next begins. Each is one step of \<open>flow_step\<close> on the receipt, the job and the task or none, so a customized
    task stays in the states of \<open>in_flow\<close>, \<open>customized_tasks_in_flow\<close>. Two calls at once can leave them,
    \<open>receive_after_reject\<close>.

  \<^bold>\<open>Parameters.\<close> What the sources call and the repository does not contain, or what no program text
  fixes, is an argument of the definitions: fresh UUIDs (\<open>U\<close>, distinct by hypothesis), clocks (\<open>now\<close>,
  \<open>srv\<close>, \<open>app\<close>), the order of a Go map (\<open>ord\<close>), the snapshot another connection reads (\<open>snap\<close>), the
  documents a JSON column accepts (\<open>J\<close>, \<open>Jn\<close>), float64 conversion (\<open>asFloat\<close>), time layouts (\<open>fmtT\<close>, \<open>parseT\<close>,
  \<open>fmtNow\<close>, \<open>W_fmtTime\<close>, \<open>TN_fmtTime\<close>), the filing of a task at the ERP (\<open>S_filingTrigger\<close>, \<open>W_filingTrigger\<close>),
  notifications (\<open>J_notifications\<close>, \<open>Z_notifyAuditPool\<close>, \<open>TN_notifications\<close>; they write their own tables only,
  \<open>quiet_notices\<close>, \<open>quiet_pool\<close>, \<open>quiet_assignment_notices\<close>), the synchronisation of images after a close (\<open>J_closeSyncer\<close>), and whether MySQL resolves an ambiguous column (\<open>resolves\<close>). SQL comparisons follow the
  columns' collations (\<open>ci_key\<close>: no case, no trailing blanks), Go comparisons are exact.

  \<^bold>\<open>Not modelled.\<close> HTTP binding, Redis and web socket servers, search indexing, file and object storage,
  Excel import and export, language model and ERP calls, chat bots, command line tools and
  migrations: input and output around external systems. Of the services with own logic, those of
  the task workflow that create, edit and close tasks by hand (\<^verbatim>\<open>service/task_service.go\<close>), the
  administration of users and notifications are not modelled, nor the paged lists of outsourcing orders,
  warehouse receipts and customization jobs. Cost rules compute with floating point
  prices and stay out.
\<close>

end
